(* ===== verification/Nacl_Prelude.thy ===== *)
theory Nacl_Prelude
  imports Main "HOL-Library.Word"
begin

text \<open>
  Shared by every component: the machine-integer types of the 32-bit x86 build,
  the ways in which the C code can stop without returning (an access outside an
  object, a fatal log line, a failed CHECK, a loop that does not end), C's signed
  wrap-around, and the bit tables (\<open>uint32_t\<close> words in dyn\_array.c, bytes in
  ncvalidate.c) with the lemmas every bit-table proof uses.
\<close>

unbundle bit_operations_syntax

named_theorems bits_simps \<open>how setting and clearing a bit changes the bits of a word\<close>

type_synonym u8 = "8 word"
type_synonym u16 = "16 word"
type_synonym u32 = "32 word"
type_synonym u64 = "64 word"

text \<open>The bytes of the process, at host addresses.\<close>

type_synonym memory = "nat \<Rightarrow> u8"

section \<open>The layout of the address space (nacl\_config.h)\<close>

text \<open>An inaccessible 64 KB, then 64 KB of trampolines, then the text.\<close>

definition NACL_SYSCALL_START_ADDR :: u32 where "NACL_SYSCALL_START_ADDR = 0x10000"
definition NACL_TRAMPOLINE_END :: u32 where "NACL_TRAMPOLINE_END = 0x20000"

section \<open>Outcomes\<close>

text \<open>
  A C function that cannot go on is \<open>Inl\<close> of the reason; a C function that
  returns is \<open>Inr\<close>. In-band error returns (0, -1, NULL) are values of \<open>Inr\<close>.
\<close>

datatype fault =
    OutOfBounds   \<comment> \<open>a read or write outside the object: undefined behaviour\<close>
  | NullDeref     \<comment> \<open>a null pointer is followed: undefined behaviour\<close>
  | LogFatal      \<comment> \<open>\<open>NaClLog(LOG_FATAL, ...)\<close> aborts the process\<close>
  | CheckFailed   \<comment> \<open>a \<open>CHECK\<close> or \<open>assert\<close> aborts the process\<close>
  | Diverges      \<comment> \<open>the loop does not end\<close>
  | UninitPointer \<comment> \<open>an uninitialised pointer is followed: undefined behaviour\<close>
  | ThreadExit    \<comment> \<open>the calling thread ends, the process goes on\<close>

type_synonym 'a result = "fault + 'a"

definition bind_result :: "'e + 'a \<Rightarrow> ('a \<Rightarrow> 'e + 'b) \<Rightarrow> 'e + 'b" where
  "bind_result r f = (case r of Inl e \<Rightarrow> Inl e | Inr a \<Rightarrow> f a)"

lemma bind_result_simps [simp]:
  "bind_result (Inl e) f = Inl e"
  "bind_result (Inr a) f = f a"
  by (simp_all add: bind_result_def)

lemma bind_result_eq_Inr:
  "bind_result r f = Inr b \<longleftrightarrow> (\<exists>a. r = Inr a \<and> f a = Inr b)"
  by (cases r) auto

lemma bind_result_cong [fundef_cong]:
  "r = r' \<Longrightarrow> (\<And>a. r' = Inr a \<Longrightarrow> f a = g a) \<Longrightarrow> bind_result r f = bind_result r' g"
  by (cases r') auto

text \<open>The result codes of the loader (nacl\_error\_code.h).\<close>

datatype NaClErrorCode =
    LOAD_OK | LOAD_STATUS_UNKNOWN | LOAD_UNSUPPORTED_OS_PLATFORM | LOAD_INTERNAL | LOAD_READ_ERROR
  | LOAD_BAD_ELF_MAGIC | LOAD_NOT_32_BIT | LOAD_BAD_ABI | LOAD_NOT_EXEC | LOAD_BAD_MACHINE
  | LOAD_BAD_ELF_VERS | LOAD_TOO_MANY_SECT | LOAD_BAD_SECT | LOAD_NO_MEMORY | LOAD_SECT_HDR
  | LOAD_ADDR_SPACE_TOO_SMALL | LOAD_ADDR_SPACE_TOO_BIG | LOAD_DATA_OVERLAPS_STACK_SECTION
  | LOAD_UNLOADABLE | LOAD_BAD_ELF_TEXT | LOAD_TEXT_SEG_TOO_BIG | LOAD_DATA_SEG_TOO_BIG
  | LOAD_MPROTECT_FAIL | LOAD_MADVISE_FAIL | LOAD_TOO_MANY_SYMBOL_STR
  | LOAD_SYMTAB_ENTRY_TOO_SMALL | LOAD_NO_SYMTAB | LOAD_NO_SYMTAB_STRINGS | LOAD_SYMTAB_ENTRY
  | LOAD_UNKNOWN_SYMBOL_TYPE | LOAD_SYMTAB_DUP | LOAD_REL_ERROR | LOAD_REL_UNIMPL
  | LOAD_UNDEF_SYMBOL | LOAD_BAD_SYMBOL_DATA | LOAD_BAD_FILE | LOAD_BAD_ENTRY
  | LOAD_SEGMENT_OUTSIDE_ADDRSPACE | LOAD_DUP_SEGMENT | LOAD_SEGMENT_BAD_LOC | LOAD_BAD_SEGMENT
  | LOAD_REQUIRED_SEG_MISSING | LOAD_SEGMENT_BAD_PARAM | LOAD_VALIDATION_FAILED | SRT_NO_SEG_SEL

section \<open>Signed 32-bit wrap-around\<close>

definition wrap32 :: "int \<Rightarrow> int" where
  "wrap32 x = (x + 2147483648) mod 4294967296 - 2147483648"

lemma wrap32_id: "-2147483648 \<le> x \<Longrightarrow> x < 2147483648 \<Longrightarrow> wrap32 x = x"
  by (simp add: wrap32_def)

lemma wrap32_range: "-2147483648 \<le> wrap32 x \<and> wrap32 x < 2147483648"
  by (simp add: wrap32_def)

section \<open>Ranges of words\<close>

lemma u32_lt: "unat w < 4294967296" for w :: u32
  using unsigned_less [of w] by simp

lemma u16_lt: "unat w < 65536" for w :: u16
  using unsigned_less [of w] by simp

lemma u8_lt: "unat w < 256" for w :: u8
  using unsigned_less [of w] by simp

lemma unat_plus_u32: "unat a + unat b < 4294967296 \<Longrightarrow> unat (a + b) = unat a + unat b" for a b :: u32
  by (simp add: unat_word_ariths)

lemma unat_minus_u32: "unat b \<le> unat a \<Longrightarrow> unat (a - b) = unat a - unat b" for a b :: u32
  by (rule unat_sub) (simp add: word_le_nat_alt)

section \<open>Single bits of a word\<close>

lemma bit_exp_word [bits_simps]:
  "bit (2 ^ k :: 'a::len word) n \<longleftrightarrow> n = k \<and> k < LENGTH('a)"
  by (auto simp: bit_exp_iff possible_bit_word)

lemma bit_set_bit_iff [bits_simps]:
  "bit (w OR 2 ^ k) n \<longleftrightarrow> bit w n \<or> n = k \<and> k < LENGTH('a)" for w :: "'a::len word"
  by (auto simp: bit_or_iff bit_exp_word)

lemma bit_clear_bit_iff [bits_simps]:
  "bit (w AND NOT (2 ^ k)) n \<longleftrightarrow> bit w n \<and> n \<noteq> k" for w :: "'a::len word"
  by (auto simp: bit_and_iff bit_not_iff possible_bit_word bit_exp_word dest: bit_imp_le_length)

lemma not_word_nonzero_iff:
  "NOT w \<noteq> 0 \<longleftrightarrow> (\<exists>i < LENGTH('a). \<not> bit w i)" for w :: "'a::len word"
  by (auto simp: bit_eq_iff bit_not_iff)

lemma and_exp_nonzero_iff:
  "k < LENGTH('a) \<Longrightarrow> w AND 2 ^ k \<noteq> 0 \<longleftrightarrow> bit w k" for w :: "'a::len word"
  using bit_exp_word [of k] by (metis and_exp_eq_0_iff_not_bit)

text \<open>POSIX \<open>ffs\<close>: one plus the index of the least significant set bit, 0 if there is none.\<close>

definition ffs :: "'a::len word \<Rightarrow> nat" where
  "ffs w = (case List.find (bit w) [0..<LENGTH('a)] of None \<Rightarrow> 0 | Some i \<Rightarrow> Suc i)"

lemma ffs_least:
  fixes w :: "'a::len word"
  assumes "w \<noteq> 0"
  obtains i where "ffs w = Suc i" "i < LENGTH('a)" "bit w i" "\<And>j. j < i \<Longrightarrow> \<not> bit w j"
proof -
  have "\<exists>i < LENGTH('a). bit w i"
    using assms by (auto simp: bit_eq_iff)
  then have "List.find (bit w) [0..<LENGTH('a)] \<noteq> None"
    by (auto simp: find_None_iff)
  then obtain i where i: "List.find (bit w) [0..<LENGTH('a)] = Some i" by auto
  then have "i < LENGTH('a)" "bit w i" "\<And>j. j < i \<Longrightarrow> \<not> bit w j"
    by (auto simp: find_Some_iff)
  then show ?thesis
    using i that by (simp add: ffs_def)
qed

section \<open>Bit tables\<close>

text \<open>
  A table of bits packed into words: bit \<open>i\<close> is bit \<open>i mod w\<close> of word \<open>i div w\<close>,
  for the word length \<open>w\<close> of the element type.
\<close>

definition tbl_bit :: "'a::len word list \<Rightarrow> nat \<Rightarrow> bool" where
  "tbl_bit t i = bit (t ! (i div LENGTH('a))) (i mod LENGTH('a))"

lemma tbl_bit_update:
  fixes t :: "'a::len word list"
  assumes "i div LENGTH('a) < length t"
  shows "tbl_bit (t[i div LENGTH('a) := v]) j =
    (if j div LENGTH('a) = i div LENGTH('a) then bit v (j mod LENGTH('a)) else tbl_bit t j)"
  using assms by (simp add: tbl_bit_def nth_list_update)

lemma div_mod_eq_iff: "(i::nat) div n = j div n \<Longrightarrow> i mod n = j mod n \<Longrightarrow> i = j"
  by (metis div_mult_mod_eq)

lemma tbl_bit_set:
  fixes t :: "'a::len word list"
  assumes "i div LENGTH('a) < length t"
  shows "tbl_bit (t[i div LENGTH('a) :=
      (t ! (i div LENGTH('a))) OR 2 ^ (i mod LENGTH('a))]) j \<longleftrightarrow> j = i \<or> tbl_bit t j"
  unfolding tbl_bit_update[OF assms]
  by (auto simp: bits_simps tbl_bit_def dest: div_mod_eq_iff)

lemma tbl_bit_clear:
  fixes t :: "'a::len word list"
  assumes "i div LENGTH('a) < length t"
  shows "tbl_bit (t[i div LENGTH('a) :=
      (t ! (i div LENGTH('a))) AND NOT (2 ^ (i mod LENGTH('a)))]) j \<longleftrightarrow> j \<noteq> i \<and> tbl_bit t j"
  unfolding tbl_bit_update[OF assms]
  by (auto simp: bits_simps tbl_bit_def dest: div_mod_eq_iff)

lemma tbl_bit_replicate_0 [simp]:
  "i < n * LENGTH('a) \<Longrightarrow> \<not> tbl_bit (replicate n (0 :: 'a::len word)) i"
  by (simp add: tbl_bit_def less_mult_imp_div_less)

lemma tbl_bit_append:
  "i < length t * LENGTH('a) \<Longrightarrow> tbl_bit (t @ t') i = tbl_bit t i" for t :: "'a::len word list"
  by (simp add: tbl_bit_def nth_append less_mult_imp_div_less)

lemma tbl_bit_append_zeros:
  fixes t :: "'a::len word list"
  assumes "i < (length t + n) * LENGTH('a)"
  shows "tbl_bit (t @ replicate n 0) i \<longleftrightarrow> i < length t * LENGTH('a) \<and> tbl_bit t i"
proof (cases "i < length t * LENGTH('a)")
  case True
  then show ?thesis by (simp add: tbl_bit_append)
next
  case False
  then have "\<not> i div LENGTH('a) < length t"
    by (meson div_less_iff_less_mult len_gt_0)
  moreover have "i div LENGTH('a) < length t + n"
    using assms by (simp add: less_mult_imp_div_less)
  ultimately show ?thesis
    using False by (simp add: tbl_bit_def nth_append)
qed

end
