(* ===== verification/Sel_Memory.thy ===== *)
theory Sel_Memory
  imports Nacl_Prelude
begin

text \<open>
  Bytes of the process (service\_runtime/sel\_ldr.c): unaligned little-endian loads and stores,
  and the patching of a code template into memory, by which the trampolines and the
  springboard are installed.
\<close>

section \<open>Byte strings\<close>

definition store_bytes :: "memory \<Rightarrow> nat \<Rightarrow> u8 list \<Rightarrow> memory" where
  "store_bytes m a bs = (\<lambda>x. if a \<le> x \<and> x < a + length bs then bs ! (x - a) else m x)"

definition load_bytes :: "memory \<Rightarrow> nat \<Rightarrow> nat \<Rightarrow> u8 list" where
  "load_bytes m a n = map (\<lambda>i. m (a + i)) [0..<n]"

definition fill_bytes :: "memory \<Rightarrow> nat \<Rightarrow> u8 \<Rightarrow> nat \<Rightarrow> memory" where  \<comment> \<open>\<open>memset\<close>\<close>
  "fill_bytes m a b n = (\<lambda>x. if a \<le> x \<and> x < a + n then b else m x)"

lemma store_bytes_outside: "x < a \<or> a + length bs \<le> x \<Longrightarrow> store_bytes m a bs x = m x"
  by (auto simp: store_bytes_def)

lemma length_load_bytes [simp]: "length (load_bytes m a n) = n"
  by (simp add: load_bytes_def)

lemma load_store_bytes: "load_bytes (store_bytes m a bs) a (length bs) = bs"
  by (rule nth_equalityI) (simp_all add: load_bytes_def store_bytes_def)

section \<open>Loads and stores\<close>

definition NaClAlignPad :: "u32 \<Rightarrow> u32 \<Rightarrow> u32" where
  "NaClAlignPad val align =
     (if align = 0 then 0
      else let val = val mod align in if val = 0 then 0 else align - val)"

definition NaClLoad32 :: "memory \<Rightarrow> u32 \<Rightarrow> u32" where
  "NaClLoad32 m addr =
     (let p = (\<lambda>i. ucast (m (unat (addr + i))) :: u32)
      in p 0 OR push_bit 8 (p 1) OR push_bit 16 (p 2) OR push_bit 24 (p 3))"

definition NaClStore32 :: "memory \<Rightarrow> u32 \<Rightarrow> u32 \<Rightarrow> memory" where
  "NaClStore32 m addr v =
     m(unat addr := ucast v, unat (addr + 1) := ucast (drop_bit 8 v),
       unat (addr + 2) := ucast (drop_bit 16 v), unat (addr + 3) := ucast (drop_bit 24 v))"

definition NaClLoad16 :: "memory \<Rightarrow> u32 \<Rightarrow> u16" where
  "NaClLoad16 m addr = ucast (m (unat addr)) OR push_bit 8 (ucast (m (unat (addr + 1))))"

definition NaClStore16 :: "memory \<Rightarrow> u32 \<Rightarrow> u16 \<Rightarrow> memory" where
  "NaClStore16 m addr v = m(unat addr := ucast v, unat (addr + 1) := ucast (drop_bit 8 v))"

section \<open>Patching\<close>

record NaClPatch =
  target :: u32
  patch_value :: u32

record NaClPatchInfo =
  rel32 :: "u32 list"
  abs32 :: "NaClPatch list"
  abs16 :: "NaClPatch list"
  dst :: u32
  src :: u32
  nbytes_patch :: u32

definition memcpy :: "memory \<Rightarrow> u32 \<Rightarrow> u32 \<Rightarrow> nat \<Rightarrow> memory" where
  "memcpy m d s n = store_bytes m (unat d) (load_bytes m (unat s) n)"

definition NaClApplyPatchToMemory :: "memory \<Rightarrow> NaClPatchInfo \<Rightarrow> memory" where
  "NaClApplyPatchToMemory m patch =
     (let m = memcpy m (dst patch) (src patch) (unat (nbytes_patch patch));
          reloc = dst patch - src patch;
          m = foldl (\<lambda>m t. let target_addr = dst patch + (t - src patch)
                in NaClStore32 m target_addr (NaClLoad32 m target_addr - reloc)) m (rel32 patch);
          m = foldl (\<lambda>m p. NaClStore32 m (dst patch + (target p - src patch)) (patch_value p)) m (abs32 patch)
      in foldl (\<lambda>m p. NaClStore16 m (dst patch + (target p - src patch)) (ucast (patch_value p))) m (abs16 patch))"

section \<open>What they keep\<close>

lemma join32:
  "(ucast (ucast v :: u8) :: u32) OR push_bit 8 (ucast (ucast (drop_bit 8 v) :: u8)) OR
     push_bit 16 (ucast (ucast (drop_bit 16 v) :: u8)) OR push_bit 24 (ucast (ucast (drop_bit 24 v) :: u8)) = v"
  for v :: u32
proof (rule bit_word_eqI)
  fix n assume "n < LENGTH(32)"
  then consider "n < 8" | "8 \<le> n" "n < 16" | "16 \<le> n" "n < 24" | "24 \<le> n" "n < 32" by fastforce
  then show "bit ((ucast (ucast v :: u8) :: u32) OR push_bit 8 (ucast (ucast (drop_bit 8 v) :: u8)) OR
      push_bit 16 (ucast (ucast (drop_bit 16 v) :: u8)) OR push_bit 24 (ucast (ucast (drop_bit 24 v) :: u8))) n = bit v n"
    by cases (auto simp: bit_simps less_diff_conv2)
qed

lemma join16: "(ucast (ucast v :: u8) :: u16) OR push_bit 8 (ucast (ucast (drop_bit 8 v) :: u8)) = v" for v :: u16
  by (rule bit_word_eqI) (auto simp: bit_simps)

lemma NaClLoad32_Store32: "NaClLoad32 (NaClStore32 m addr v) addr = v"
proof -
  have d: "unat (addr + 1) \<noteq> unat addr" "unat (addr + 2) \<noteq> unat addr" "unat (addr + 3) \<noteq> unat addr"
    "unat (addr + 2) \<noteq> unat (addr + 1)" "unat (addr + 3) \<noteq> unat (addr + 1)" "unat (addr + 3) \<noteq> unat (addr + 2)"
    by (simp_all add: word_unat_eq_iff [symmetric])
  then show ?thesis using join32 [of v] by (simp add: NaClLoad32_def NaClStore32_def Let_def d [symmetric])
qed

lemma NaClLoad16_Store16: "NaClLoad16 (NaClStore16 m addr v) addr = v"
proof -
  have d: "unat (addr + 1) \<noteq> unat addr" by (simp add: word_unat_eq_iff [symmetric])
  then show ?thesis using join16 [of v] by (simp add: NaClLoad16_def NaClStore16_def)
qed

text \<open>Two memories agree outside \<open>[a, a + n)\<close>.\<close>

definition same_outside :: "nat \<Rightarrow> nat \<Rightarrow> memory \<Rightarrow> memory \<Rightarrow> bool" where
  "same_outside a n m m' \<longleftrightarrow> (\<forall>x. x < a \<or> a + n \<le> x \<longrightarrow> m' x = m x)"

lemma same_outside_refl [simp]: "same_outside a n m m"
  by (simp add: same_outside_def)

lemma same_outside_trans [trans]: "same_outside a n m m' \<Longrightarrow> same_outside a n m' m'' \<Longrightarrow> same_outside a n m m''"
  by (simp add: same_outside_def)

lemma same_outside_mono: "same_outside a n m m' \<Longrightarrow> b \<le> a \<Longrightarrow> a + n \<le> b + k \<Longrightarrow> same_outside b k m m'"
  by (simp add: same_outside_def)

lemma same_outside_store: "same_outside a (length bs) m (store_bytes m a bs)"
  by (simp add: same_outside_def store_bytes_def)

lemma same_outside_fill: "same_outside a n m (fill_bytes m a b n)"
  by (simp add: same_outside_def fill_bytes_def)

lemma same_outside_foldl:
  "(\<And>m x. x \<in> set xs \<Longrightarrow> same_outside a n m (f m x)) \<Longrightarrow> same_outside a n m (foldl f m xs)"
proof (induction xs arbitrary: m)
  case (Cons x xs)
  then have "same_outside a n m (f m x)" "same_outside a n (f m x) (foldl f (f m x) xs)" by simp_all
  then show ?case using same_outside_trans by simp
qed simp

lemma store32_outside:
  assumes "unat (d + off) + 4 \<le> unat d + n" "unat d \<le> unat (d + off)" "unat d + n \<le> 4294967296"
  shows "same_outside (unat d) n m (NaClStore32 m (d + off) v)"
proof -
  have "unat (d + off + i) = unat (d + off) + unat i" if "unat i < 4" for i
    using assms that by (simp add: unat_plus_u32)
  from this [of 1] this [of 2] this [of 3] show ?thesis
    using assms by (auto simp: same_outside_def NaClStore32_def)
qed

lemma store16_outside:
  assumes "unat (d + off) + 2 \<le> unat d + n" "unat d \<le> unat (d + off)" "unat d + n \<le> 4294967296"
  shows "same_outside (unat d) n m (NaClStore16 m (d + off) v)"
proof -
  have "unat (d + off + 1) = unat (d + off) + 1"
    using assms by (simp add: unat_plus_u32)
  then show ?thesis using assms by (auto simp: same_outside_def NaClStore16_def)
qed

text \<open>A patch whose targets lie inside the template writes only the copy of the template.\<close>

definition patch_inside :: "NaClPatchInfo \<Rightarrow> bool" where
  "patch_inside p \<longleftrightarrow> unat (dst p) + unat (nbytes_patch p) \<le> 4294967296 \<and>
     (\<forall>t \<in> set (rel32 p). unat (t - src p) + 4 \<le> unat (nbytes_patch p)) \<and>
     (\<forall>q \<in> set (abs32 p). unat (target q - src p) + 4 \<le> unat (nbytes_patch p)) \<and>
     (\<forall>q \<in> set (abs16 p). unat (target q - src p) + 2 \<le> unat (nbytes_patch p))"

lemma patch_local:
  assumes "patch_inside p"
  shows "same_outside (unat (dst p)) (unat (nbytes_patch p)) m (NaClApplyPatchToMemory m p)"
proof -
  let ?in = "same_outside (unat (dst p)) (unat (nbytes_patch p))"
  have off: "unat (dst p + o') = unat (dst p) + unat o'" if "unat o' + k \<le> unat (nbytes_patch p)" "0 < k" for o' k
    using assms that by (simp add: patch_inside_def unat_plus_u32)
  have lim: "unat (dst p) + unat (nbytes_patch p) \<le> 4294967296" using assms by (simp add: patch_inside_def)
  have s32: "?in m (NaClStore32 m (dst p + o') v)" if "unat o' + 4 \<le> unat (nbytes_patch p)" for m o' v
    using off [of o' 4] that lim by (intro store32_outside) auto
  have s16: "?in m (NaClStore16 m (dst p + o') v)" if "unat o' + 2 \<le> unat (nbytes_patch p)" for m o' v
    using off [of o' 2] that lim by (intro store16_outside) auto
  have "?in m (memcpy m (dst p) (src p) (unat (nbytes_patch p)))"
    using same_outside_store [of "unat (dst p)" "load_bytes m (unat (src p)) (unat (nbytes_patch p))" m]
    by (simp add: memcpy_def)
  also have "?in (memcpy m (dst p) (src p) (unat (nbytes_patch p))) (foldl (\<lambda>m t. let a = dst p + (t - src p)
        in NaClStore32 m a (NaClLoad32 m a - (dst p - src p))) (memcpy m (dst p) (src p) (unat (nbytes_patch p))) (rel32 p))"
    (is "same_outside _ _ _ ?m1")
    by (rule same_outside_foldl) (use assms s32 in \<open>simp add: patch_inside_def Let_def\<close>)
  also have "?in ?m1 (foldl (\<lambda>m q. NaClStore32 m (dst p + (target q - src p)) (patch_value q)) ?m1 (abs32 p))"
    (is "same_outside _ _ _ ?m2")
    by (rule same_outside_foldl) (use assms s32 in \<open>simp add: patch_inside_def\<close>)
  also have "?in ?m2 (foldl (\<lambda>m q. NaClStore16 m (dst p + (target q - src p)) (ucast (patch_value q))) ?m2 (abs16 p))"
    by (rule same_outside_foldl) (use assms s16 in \<open>simp add: patch_inside_def\<close>)
  finally show ?thesis by (simp add: NaClApplyPatchToMemory_def Let_def)
qed

end
