(* ===== verification/Page_Util.thy ===== *)
theory Page_Util
  imports Nacl_Prelude
begin

text \<open>
  Page arithmetic (service\_runtime/sel\_util-inl.h, sel\_util.c) on 32-bit words and what it
  computes: the masks round to multiples of the 4 KB page and of the 64 KB mapping unit,
  as long as the sum does not wrap.
\<close>

definition NACL_PAGESHIFT :: nat where "NACL_PAGESHIFT = 12"
definition NACL_PAGESIZE :: u32 where "NACL_PAGESIZE = push_bit NACL_PAGESHIFT 1"
definition NACL_MAP_PAGESHIFT :: nat where "NACL_MAP_PAGESHIFT = 16"
definition NACL_MAP_PAGESIZE :: u32 where "NACL_MAP_PAGESIZE = push_bit NACL_MAP_PAGESHIFT 1"
definition NACL_PAGES_PER_MAP :: u32 where
  "NACL_PAGES_PER_MAP = push_bit (NACL_MAP_PAGESHIFT - NACL_PAGESHIFT) 1"

definition NaClRoundPage :: "u32 \<Rightarrow> u32" where
  "NaClRoundPage nbytes = (nbytes + NACL_PAGESIZE - 1) AND NOT (NACL_PAGESIZE - 1)"

definition NaClRoundAllocPage :: "u32 \<Rightarrow> u32" where
  "NaClRoundAllocPage nbytes = (nbytes + NACL_MAP_PAGESIZE - 1) AND NOT (NACL_MAP_PAGESIZE - 1)"

definition NaClTruncPage :: "u32 \<Rightarrow> u32" where
  "NaClTruncPage nbytes = nbytes AND NOT (NACL_PAGESIZE - 1)"

definition NaClTruncAllocPage :: "u32 \<Rightarrow> u32" where
  "NaClTruncAllocPage nbytes = nbytes AND NOT (NACL_MAP_PAGESIZE - 1)"

definition NaClBytesToPages :: "u32 \<Rightarrow> u32" where
  "NaClBytesToPages nbytes = drop_bit NACL_PAGESHIFT (nbytes + NACL_PAGESIZE - 1)"

definition NaClIsPageMultiple :: "u32 \<Rightarrow> bool" where
  "NaClIsPageMultiple addr_or_size \<longleftrightarrow> 0 = ((NACL_PAGESIZE - 1) AND addr_or_size)"

definition NaClIsAllocPageMultiple :: "u32 \<Rightarrow> bool" where
  "NaClIsAllocPageMultiple addr_or_size \<longleftrightarrow> 0 = ((NACL_MAP_PAGESIZE - 1) AND addr_or_size)"

definition NaClRoundHostAllocPage :: "u32 \<Rightarrow> u32" where  \<comment> \<open>not Windows\<close>
  "NaClRoundHostAllocPage nbytes = NaClRoundPage nbytes"

definition NaClRoundPageNumUpToMapMultiple :: "u32 \<Rightarrow> u32" where
  "NaClRoundPageNumUpToMapMultiple npages =
     (npages + NACL_PAGES_PER_MAP - 1) AND NOT (NACL_PAGES_PER_MAP - 1)"

definition NaClTruncPageNumDownToMapMultiple :: "u32 \<Rightarrow> u32" where
  "NaClTruncPageNumDownToMapMultiple npages = npages AND NOT (NACL_PAGES_PER_MAP - 1)"

text \<open>\<open>NaClAppPow2Ceil\<close>: the loop shifts \<open>addr\<close> until it reaches \<open>max_addr\<close>; \<open>None\<close> when it
  never does (a shift to 0 stays 0). The three CHECKs follow.\<close>

partial_function (option) pow2_loop :: "u32 \<Rightarrow> u32 \<Rightarrow> u32 option" where
  "pow2_loop max_addr addr =
     (if addr < max_addr then pow2_loop max_addr (push_bit 1 addr) else Some addr)"

declare pow2_loop.simps [code]

definition NaClAppPow2Ceil :: "u32 \<Rightarrow> u32 result" where
  "NaClAppPow2Ceil max_addr =
     (if max_addr AND NOT (drop_bit 1 (NOT 0)) \<noteq> 0 \<and> max_addr AND drop_bit 1 (NOT 0) \<noteq> 0
      then Inr 0
      else case pow2_loop max_addr 1 of
        None \<Rightarrow> Inl Diverges
      | Some addr \<Rightarrow>
          if \<not> addr \<ge> max_addr then Inl CheckFailed
          else if addr = 0 then Inl CheckFailed
          else if addr AND (addr - 1) \<noteq> 0 then Inl CheckFailed
          else Inr addr)"

lemmas page_consts = NACL_PAGESIZE_def NACL_MAP_PAGESIZE_def NACL_PAGES_PER_MAP_def
  NACL_PAGESHIFT_def NACL_MAP_PAGESHIFT_def

section \<open>Masks are multiples\<close>

lemma take_and_not_mask:
  "take_bit k (w AND NOT (mask k)) = 0" "drop_bit k (w AND NOT (mask k)) = drop_bit k w" for w :: u32
proof -
  show "take_bit k (w AND NOT (mask k)) = 0"
    by (rule bit_word_eqI) (auto simp: bit_take_bit_iff bit_and_iff bit_not_iff bit_mask_iff)
  show "drop_bit k (w AND NOT (mask k)) = drop_bit k w"
    by (rule bit_word_eqI)
      (auto simp: bit_drop_bit_eq bit_and_iff bit_not_iff bit_mask_iff possible_bit_word
        dest: bit_imp_le_length)
qed

lemma unat_and_not_mask:
  fixes w :: u32
  shows "unat (w AND NOT (2 ^ k - 1)) = unat w div 2 ^ k * 2 ^ k"
proof -
  let ?m = "w AND NOT (mask k)"
  have "unat ?m mod 2 ^ k = 0"
  proof -
    have "take_bit k (unat ?m) = unat (take_bit k ?m)" by (simp only: unsigned_take_bit_eq)
    also have "\<dots> = 0" by (simp only: take_and_not_mask(1) unsigned_0)
    finally show ?thesis by (simp only: take_bit_eq_mod)
  qed
  moreover have "unat ?m div 2 ^ k = unat w div 2 ^ k"
  proof -
    have "drop_bit k (unat ?m) = unat (drop_bit k ?m)" by (simp only: unat_drop_bit_eq)
    also have "\<dots> = drop_bit k (unat w)" by (simp only: take_and_not_mask(2) unat_drop_bit_eq)
    finally show ?thesis by (simp only: drop_bit_eq_div)
  qed
  ultimately have "unat ?m = unat w div 2 ^ k * 2 ^ k"
    by (metis add.right_neutral div_mult_mod_eq)
  then show ?thesis by (simp add: mask_eq_exp_minus_1)
qed

lemma unat_exp32:
  assumes "k < 32" shows "unat (2 ^ k :: u32) = 2 ^ k"
proof -
  have "(2::nat) ^ k < 2 ^ 32" using assms by (intro power_strict_increasing) auto
  moreover have "(2 ^ k :: u32) = of_nat (2 ^ k)" by simp
  ultimately show ?thesis by (simp only: unat_of_nat) simp
qed

lemma unat_round_up:
  fixes w :: u32
  assumes "k < 32" "unat w + 2 ^ k \<le> 4294967296"
  shows "unat ((w + 2 ^ k - 1) AND NOT (2 ^ k - 1)) = (unat w + (2 ^ k - 1)) div 2 ^ k * 2 ^ k"
proof -
  have u: "unat (2 ^ k - 1 :: u32) = 2 ^ k - 1"
    using unat_exp32 [OF assms(1)] assms(1) by (subst unat_minus_one) auto
  have "unat (w + (2 ^ k - 1)) = unat w + (2 ^ k - 1)"
  proof -
    have "unat w + unat (2 ^ k - 1 :: u32) < 2 ^ LENGTH(32)"
      using assms(2) u by (simp add: less_eq_Suc_le)
    then show ?thesis using u by (simp only: unat_add_lem [THEN iffD1])
  qed
  then show ?thesis using unat_and_not_mask [of "w + (2 ^ k - 1)" k] by (simp add: algebra_simps)
qed

section \<open>What the roundings compute\<close>

lemma NaClTruncPageNumDown_unat:
  "unat (NaClTruncPageNumDownToMapMultiple n) = unat n div 16 * 16"
  using unat_and_not_mask [of n 4] by (simp add: NaClTruncPageNumDownToMapMultiple_def page_consts)

lemma NaClRoundPageNumUp_unat:
  "unat n + 16 \<le> 4294967296 \<Longrightarrow>
    unat (NaClRoundPageNumUpToMapMultiple n) = (unat n + 15) div 16 * 16"
  using unat_round_up [of 4 n] by (simp add: NaClRoundPageNumUpToMapMultiple_def page_consts)

lemma NaClTruncPage_unat: "unat (NaClTruncPage n) = unat n div 4096 * 4096"
  using unat_and_not_mask [of n 12] by (simp add: NaClTruncPage_def page_consts)

lemma NaClRoundPage_unat:
  "unat n + 4096 \<le> 4294967296 \<Longrightarrow> unat (NaClRoundPage n) = (unat n + 4095) div 4096 * 4096"
  using unat_round_up [of 12 n] by (simp add: NaClRoundPage_def page_consts)

lemma NaClTruncAllocPage_unat: "unat (NaClTruncAllocPage n) = unat n div 65536 * 65536"
  using unat_and_not_mask [of n 16] by (simp add: NaClTruncAllocPage_def page_consts)

lemma NaClRoundAllocPage_unat:
  "unat n + 65536 \<le> 4294967296 \<Longrightarrow>
    unat (NaClRoundAllocPage n) = (unat n + 65535) div 65536 * 65536"
  using unat_round_up [of 16 n] by (simp add: NaClRoundAllocPage_def page_consts)

text \<open>Near the top of the address space the sum wraps and the result is 0, which a caller
  would take for an empty region.\<close>

lemma NaClRoundAllocPage_wraps:
  assumes "4294967296 < unat n + 65536"
  shows "NaClRoundAllocPage n = 0"
proof -
  have "unat (n + 65535) = (unat n + 65535) mod 4294967296" by (simp add: unat_word_ariths)
  also have "\<dots> = unat n + 65535 - 4294967296"
    using assms u32_lt [of n] by (simp add: mod_if)
  finally have "unat (n + 65535) < 65536" using u32_lt [of n] by simp
  then have "unat (NaClRoundAllocPage n) = 0"
    using unat_and_not_mask [of "n + 65535" 16]
    by (simp add: NaClRoundAllocPage_def page_consts add.commute)
  then show ?thesis by (simp add: unat_eq_zero)
qed

lemma and_mask_zero_iff: "0 = (2 ^ k - 1) AND w \<longleftrightarrow> unat w mod 2 ^ k = 0" for w :: u32
proof -
  have "(2 ^ k - 1) AND w = take_bit k w" by (simp add: take_bit_eq_mask and.commute mask_eq_exp_minus_1)
  moreover have "unat (take_bit k w) = unat w mod 2 ^ k"
    by (metis unsigned_take_bit_eq take_bit_eq_mod)
  ultimately show ?thesis by (metis unat_eq_zero)
qed

lemma NaClIsPageMultiple_iff: "NaClIsPageMultiple w \<longleftrightarrow> unat w mod 4096 = 0"
  using and_mask_zero_iff [of 12 w] by (simp add: NaClIsPageMultiple_def page_consts)

lemma NaClIsAllocPageMultiple_iff: "NaClIsAllocPageMultiple w \<longleftrightarrow> unat w mod 65536 = 0"
  using and_mask_zero_iff [of 16 w] by (simp add: NaClIsAllocPageMultiple_def page_consts)

section \<open>The smallest power of two above an address\<close>

lemma pow2_loop_spec:
  assumes "unat n \<le> 2 ^ 31" "k \<le> 31" "k = 0 \<or> 2 ^ (k - 1) < unat n"
  shows "\<exists>j. pow2_loop n (2 ^ k) = Some (2 ^ j) \<and> j \<le> 31 \<and> unat n \<le> 2 ^ j \<and>
    (j = 0 \<or> 2 ^ (j - 1) < unat n)"
  using assms(2,3)
proof (induction "31 - k" arbitrary: k rule: less_induct)
  case less
  show ?case
  proof (cases "2 ^ k < unat n")
    case True
    have k: "k < 31"
    proof (rule ccontr)
      assume "\<not> k < 31"
      then show False using less.prems(1) True assms(1) by (simp add: le_less)
    qed
    have "(2 ^ k :: u32) < n" using True k by (simp add: word_less_nat_alt unat_exp32)
    moreover have "push_bit 1 (2 ^ k :: u32) = 2 ^ Suc k" by (simp add: push_bit_eq_mult)
    ultimately have "pow2_loop n (2 ^ k) = pow2_loop n (2 ^ Suc k)"
      by (subst pow2_loop.simps) (simp add: mult.commute)
    then show ?thesis using less.hyps [of "Suc k"] k True by auto
  next
    case False
    then have "\<not> (2 ^ k :: u32) < n" using less.prems(1) by (simp add: word_less_nat_alt unat_exp32)
    then have "pow2_loop n (2 ^ k) = Some (2 ^ k)" by (subst pow2_loop.simps) simp
    then show ?thesis using False less.prems by (intro exI [of _ k]) auto
  qed
qed

lemma two_pow_and_pred: "(2 ^ j :: u32) AND (2 ^ j - 1) = 0"
  by (rule bit_word_eqI) (simp add: bit_and_iff bit_exp_word bit_mask_iff flip: mask_eq_exp_minus_1)

lemma high_low_bits:
  fixes n :: u32
  shows "n AND NOT (drop_bit 1 (NOT 0)) = push_bit 31 (drop_bit 31 n)"
    "n AND drop_bit 1 (NOT 0) = take_bit 31 n"
proof -
  have m: "drop_bit 1 (NOT 0) = (mask 31 :: u32)" by (simp add: mask_eq_exp_minus_1)
  show "n AND NOT (drop_bit 1 (NOT 0)) = push_bit 31 (drop_bit 31 n)" unfolding m
  proof (rule bit_word_eqI)
    fix i assume "i < LENGTH(32)"
    then consider "i < 31" | "i = 31" by force
    then show "bit (n AND NOT (mask 31)) i = bit (push_bit 31 (drop_bit 31 n)) i"
      by cases (simp_all add: bit_simps)
  qed
  show "n AND drop_bit 1 (NOT 0) = take_bit 31 n" unfolding m by (simp add: take_bit_eq_mask)
qed

lemma pow2_precondition:
  fixes n :: u32
  shows "n AND NOT (drop_bit 1 (NOT 0)) \<noteq> 0 \<and> n AND drop_bit 1 (NOT 0) \<noteq> 0 \<longleftrightarrow> 2 ^ 31 < unat n"
proof -
  have d: "unat n = unat n div 2 ^ 31 * 2 ^ 31 + unat n mod 2 ^ 31" by simp
  have hi: "unat n div 2 ^ 31 \<le> 1" using u32_lt [of n] by simp
  have "drop_bit 31 n = 0 \<longleftrightarrow> unat n div 2 ^ 31 = 0"
    by (metis unat_eq_zero unat_drop_bit_eq drop_bit_eq_div)
  moreover have "push_bit 31 (drop_bit 31 n) = 0 \<longleftrightarrow> drop_bit 31 n = 0"
  proof
    assume "push_bit 31 (drop_bit 31 n) = 0"
    then have "drop_bit 31 (push_bit 31 (drop_bit 31 n)) = 0" by simp
    moreover have "drop_bit 31 (push_bit 31 (drop_bit 31 n)) = drop_bit 31 n"
      by (rule bit_word_eqI) (auto simp: bit_simps dest: bit_imp_le_length)
    ultimately show "drop_bit 31 n = 0" by simp
  qed simp
  moreover have "take_bit 31 n = 0 \<longleftrightarrow> unat n mod 2 ^ 31 = 0"
    by (metis unat_eq_zero unsigned_take_bit_eq take_bit_eq_mod)
  moreover have "2 ^ 31 < unat n \<longleftrightarrow> unat n div 2 ^ 31 \<noteq> 0 \<and> unat n mod 2 ^ 31 \<noteq> 0"
  proof (cases "unat n div 2 ^ 31 = 0")
    case True
    then show ?thesis using d by (simp add: div_eq_0_iff)
  next
    case False
    then have "unat n div 2 ^ 31 = 1" using hi by simp
    then show ?thesis using d by auto
  qed
  ultimately show ?thesis by (simp only: high_low_bits)
qed

text \<open>\<open>NaClAppPow2Ceil\<close> always returns: the least power of two that is at least
  \<open>max_addr\<close>, or 0 when that power is not a 32-bit number. None of its CHECKs can fail.\<close>

theorem NaClAppPow2Ceil_least:
  "if unat n \<le> 2 ^ 31
   then \<exists>j. NaClAppPow2Ceil n = Inr (2 ^ j) \<and> j \<le> 31 \<and> unat n \<le> 2 ^ j \<and> (j = 0 \<or> 2 ^ (j - 1) < unat n)
   else NaClAppPow2Ceil n = Inr 0"
proof (cases "unat n \<le> 2 ^ 31")
  case True
  then obtain j where j: "pow2_loop n 1 = Some (2 ^ j)" "j \<le> 31" "unat n \<le> 2 ^ j" "j = 0 \<or> 2 ^ (j - 1) < unat n"
    using pow2_loop_spec [of n 0] by auto
  have "n \<le> 2 ^ j" "(2 ^ j :: u32) \<noteq> 0"
    using j(2,3) by (simp_all add: word_le_nat_alt unat_exp32)
  then have "NaClAppPow2Ceil n = Inr (2 ^ j)"
    using True pow2_precondition [of n] j(1) two_pow_and_pred [of j] by (simp add: NaClAppPow2Ceil_def)
  then show ?thesis using True j by auto
next
  case False
  then show ?thesis using pow2_precondition [of n] by (simp add: NaClAppPow2Ceil_def)
qed

end
