(* ===== verification/Sel_Elf.thy ===== *)
theory Sel_Elf
  imports Sel_Memory Page_Util
begin

text \<open>
  The ELF executable (include/elf32.h, elf\_constants.h, nacl\_elf.h): the file and program
  headers with their little-endian layout, the check of the file header, and the scan of the
  program headers that decides which segments are loaded and where the text and the data end
  (service\_runtime/sel\_ldr\_standard.c). A header read from a file replaces the bytes of the
  old one, so that a short read leaves the rest as it was.
\<close>

section \<open>Headers\<close>

record Elf32_Ehdr =
  e_ident :: "u8 list"
  e_type :: u16
  e_machine :: u16
  e_version :: u32
  e_entry :: u32
  e_phoff :: u32
  e_shoff :: u32
  e_flags :: u32
  e_ehsize :: u16
  e_phentsize :: u16
  e_phnum :: u16
  e_shentsize :: u16
  e_shnum :: u16
  e_shstrndx :: u16

record Elf32_Phdr =
  p_type :: u32
  p_offset :: u32
  p_vaddr :: u32
  p_paddr :: u32
  p_filesz :: u32
  p_memsz :: u32
  p_flags :: u32
  p_align :: u32

definition half_at :: "u8 list \<Rightarrow> nat \<Rightarrow> u16" where
  "half_at bs i = ucast (bs ! i) OR push_bit 8 (ucast (bs ! (i + 1)))"

definition word_at :: "u8 list \<Rightarrow> nat \<Rightarrow> u32" where
  "word_at bs i = ucast (bs ! i) OR push_bit 8 (ucast (bs ! (i + 1))) OR
     push_bit 16 (ucast (bs ! (i + 2))) OR push_bit 24 (ucast (bs ! (i + 3)))"

definition le16_bytes :: "u16 \<Rightarrow> u8 list" where
  "le16_bytes v = [ucast v, ucast (drop_bit 8 v)]"

definition le32_bytes :: "u32 \<Rightarrow> u8 list" where
  "le32_bytes v = [ucast v, ucast (drop_bit 8 v), ucast (drop_bit 16 v), ucast (drop_bit 24 v)]"

definition EHDR_SIZE :: nat where "EHDR_SIZE = 52"  \<comment> \<open>\<open>sizeof(Elf32_Ehdr)\<close>\<close>
definition PHDR_SIZE :: nat where "PHDR_SIZE = 32"  \<comment> \<open>\<open>sizeof(Elf32_Phdr)\<close>\<close>

definition Ehdr_of :: "u8 list \<Rightarrow> Elf32_Ehdr" where
  "Ehdr_of bs =
     \<lparr>e_ident = take 16 bs, e_type = half_at bs 16, e_machine = half_at bs 18, e_version = word_at bs 20,
      e_entry = word_at bs 24, e_phoff = word_at bs 28, e_shoff = word_at bs 32, e_flags = word_at bs 36,
      e_ehsize = half_at bs 40, e_phentsize = half_at bs 42, e_phnum = half_at bs 44,
      e_shentsize = half_at bs 46, e_shnum = half_at bs 48, e_shstrndx = half_at bs 50\<rparr>"

definition Ehdr_bytes :: "Elf32_Ehdr \<Rightarrow> u8 list" where
  "Ehdr_bytes h =
     e_ident h @ le16_bytes (e_type h) @ le16_bytes (e_machine h) @ le32_bytes (e_version h) @
     le32_bytes (e_entry h) @ le32_bytes (e_phoff h) @ le32_bytes (e_shoff h) @ le32_bytes (e_flags h) @
     le16_bytes (e_ehsize h) @ le16_bytes (e_phentsize h) @ le16_bytes (e_phnum h) @
     le16_bytes (e_shentsize h) @ le16_bytes (e_shnum h) @ le16_bytes (e_shstrndx h)"

definition Phdr_of :: "u8 list \<Rightarrow> Elf32_Phdr" where
  "Phdr_of bs =
     \<lparr>p_type = word_at bs 0, p_offset = word_at bs 4, p_vaddr = word_at bs 8, p_paddr = word_at bs 12,
      p_filesz = word_at bs 16, p_memsz = word_at bs 20, p_flags = word_at bs 24, p_align = word_at bs 28\<rparr>"

definition Phdr_bytes :: "Elf32_Phdr \<Rightarrow> u8 list" where
  "Phdr_bytes p =
     le32_bytes (p_type p) @ le32_bytes (p_offset p) @ le32_bytes (p_vaddr p) @ le32_bytes (p_paddr p) @
     le32_bytes (p_filesz p) @ le32_bytes (p_memsz p) @ le32_bytes (p_flags p) @ le32_bytes (p_align p)"

text \<open>\<open>bs\<close> read over the old bytes.\<close>

definition overlay :: "u8 list \<Rightarrow> u8 list \<Rightarrow> u8 list" where
  "overlay bs old = bs @ drop (length bs) old"

section \<open>Constants\<close>

definition ET_EXEC :: u16 where "ET_EXEC = 2"
definition EM_EXPECTED_BY_NACL :: u16 where "EM_EXPECTED_BY_NACL = 3"  \<comment> \<open>\<open>EM_386\<close>\<close>
definition EV_CURRENT :: u32 where "EV_CURRENT = 1"
definition ELFMAG :: "u8 list" where "ELFMAG = [0x7f, 0x45, 0x4c, 0x46]"
definition SELFMAG :: nat where "SELFMAG = 4"
definition EI_CLASS :: nat where "EI_CLASS = 4"
definition EI_OSABI :: nat where "EI_OSABI = 7"
definition EI_ABIVERSION :: nat where "EI_ABIVERSION = 8"
definition ELFCLASS32 :: u8 where "ELFCLASS32 = 1"
definition ELFOSABI_NACL :: u8 where "ELFOSABI_NACL = 123"
definition EF_NACL_ABIVERSION :: u8 where "EF_NACL_ABIVERSION = 6"
definition EF_NACL_ALIGN_MASK :: u32 where "EF_NACL_ALIGN_MASK = 0x300000"
definition EF_NACL_ALIGN_16 :: u32 where "EF_NACL_ALIGN_16 = 0x100000"
definition EF_NACL_ALIGN_32 :: u32 where "EF_NACL_ALIGN_32 = 0x200000"
definition PT_LOAD :: u32 where "PT_LOAD = 1"
definition PT_PHDR :: u32 where "PT_PHDR = 6"
definition PT_GNU_STACK :: u32 where "PT_GNU_STACK = 0x6474e551"
definition PF_X :: u32 where "PF_X = 1"
definition PF_W :: u32 where "PF_W = 2"
definition PF_R :: u32 where "PF_R = 4"
definition PF_MASKOS :: u32 where "PF_MASKOS = 0x0ff00000"
definition PF_OS_WILL_LOAD :: u32 where
  "PF_OS_WILL_LOAD = drop_bit 1 ((PF_MASKOS XOR (PF_MASKOS - 1)) + 1)"

lemma PF_OS_WILL_LOAD_value: "PF_OS_WILL_LOAD = 0x00100000"
  by (simp add: PF_OS_WILL_LOAD_def PF_MASKOS_def)

section \<open>The file header\<close>

datatype NaClAbiMismatchOption = NACL_ABI_MISMATCH_OPTION_ABORT | NACL_ABI_MISMATCH_OPTION_IGNORE

definition NaClValidateElfHeader :: "Elf32_Ehdr \<Rightarrow> NaClAbiMismatchOption \<Rightarrow> NaClErrorCode" where
  "NaClValidateElfHeader hdr abi_mismatch_option =
     (if take SELFMAG (e_ident hdr) \<noteq> ELFMAG then LOAD_BAD_ELF_MAGIC
      else if e_ident hdr ! EI_CLASS \<noteq> ELFCLASS32 then LOAD_NOT_32_BIT
      else if e_ident hdr ! EI_OSABI \<noteq> ELFOSABI_NACL \<and> abi_mismatch_option = NACL_ABI_MISMATCH_OPTION_ABORT
        then LOAD_BAD_ABI
      else if e_ident hdr ! EI_ABIVERSION \<noteq> EF_NACL_ABIVERSION \<and> abi_mismatch_option = NACL_ABI_MISMATCH_OPTION_ABORT
        then LOAD_BAD_ABI
      else if e_type hdr \<noteq> ET_EXEC then LOAD_NOT_EXEC
      else if e_machine hdr \<noteq> EM_EXPECTED_BY_NACL then LOAD_BAD_MACHINE
      else if e_version hdr \<noteq> EV_CURRENT then LOAD_BAD_ELF_VERS
      else LOAD_OK)"

section \<open>The program headers\<close>

datatype NaClPhdrCheckAction = PCA_NONE | PCA_TEXT_CHECK | PCA_IGNORE

record NaClPhdrChecks =
  chk_type :: u32
  chk_flags :: u32
  chk_action :: NaClPhdrCheckAction
  chk_required :: bool
  chk_vaddr :: u32

definition nacl_phdr_check_data :: "NaClPhdrChecks list" where
  "nacl_phdr_check_data =
     [\<lparr>chk_type = PT_PHDR, chk_flags = PF_R, chk_action = PCA_IGNORE, chk_required = False, chk_vaddr = 0\<rparr>,
      \<lparr>chk_type = PT_LOAD, chk_flags = PF_R OR PF_X, chk_action = PCA_TEXT_CHECK, chk_required = True,
       chk_vaddr = NACL_TRAMPOLINE_END\<rparr>,
      \<lparr>chk_type = PT_LOAD, chk_flags = PF_R, chk_action = PCA_NONE, chk_required = False, chk_vaddr = 0\<rparr>,
      \<lparr>chk_type = PT_LOAD, chk_flags = PF_R OR PF_W, chk_action = PCA_NONE, chk_required = False, chk_vaddr = 0\<rparr>,
      \<lparr>chk_type = PT_GNU_STACK, chk_flags = PF_R OR PF_W, chk_action = PCA_NONE, chk_required = False, chk_vaddr = 0\<rparr>]"

text \<open>The first row of the table with the type and flags of a segment, and its index.\<close>

fun find_check :: "Elf32_Phdr \<Rightarrow> NaClPhdrChecks list \<Rightarrow> nat \<Rightarrow> (nat \<times> NaClPhdrChecks) option" where
  "find_check php [] j = None"
| "find_check php (c # cs) j =
     (if p_type php = chk_type c \<and> p_flags php = chk_flags c then Some (j, c) else find_check php cs (j + 1))"

text \<open>The sanity checks of a segment that will be loaded.\<close>

definition check_bounds :: "nat \<Rightarrow> NaClPhdrChecks \<Rightarrow> Elf32_Phdr \<Rightarrow> NaClErrorCode" where
  "check_bounds bits c php =
     (if chk_vaddr c \<noteq> 0 \<and> chk_vaddr c \<noteq> p_vaddr php then LOAD_SEGMENT_BAD_LOC
      else if p_vaddr php < NACL_TRAMPOLINE_END then LOAD_SEGMENT_OUTSIDE_ADDRSPACE
      else if p_vaddr php + p_memsz php < p_vaddr php then LOAD_SEGMENT_OUTSIDE_ADDRSPACE
      else if p_vaddr php + p_memsz php \<ge> push_bit bits 1 then LOAD_SEGMENT_OUTSIDE_ADDRSPACE
      else if p_filesz php > p_memsz php then LOAD_SEGMENT_BAD_PARAM
      else LOAD_OK)"

text \<open>What the scan keeps: the segments already seen, the highest address so far, and the size
  of the text.\<close>

record phdr_scan =
  seen_seg :: "nat list"
  max_vaddr :: u32
  text_bytes :: u32

text \<open>One segment: the header with its flags updated, and the scan, or the error.\<close>

definition process_phdr :: "nat \<Rightarrow> phdr_scan \<Rightarrow> Elf32_Phdr \<Rightarrow> NaClErrorCode \<times> Elf32_Phdr \<times> phdr_scan" where
  "process_phdr bits s php =
     (let php = php\<lparr>p_flags := p_flags php AND NOT PF_MASKOS\<rparr>
      in case find_check php nacl_phdr_check_data 0 of
           None \<Rightarrow> (if p_memsz php = 0 then LOAD_OK else LOAD_BAD_SEGMENT, php, s)
         | Some (j, c) \<Rightarrow>
             if seen_seg s ! j \<noteq> 0 then (LOAD_DUP_SEGMENT, php, s)
             else
               let s = s\<lparr>seen_seg := (seen_seg s)[j := seen_seg s ! j + 1]\<rparr>
               in if chk_action c = PCA_IGNORE then (LOAD_OK, php, s)
                  else
                    let err = (if p_memsz php \<noteq> 0 then check_bounds bits c php else LOAD_OK)
                    in if err \<noteq> LOAD_OK then (err, php, s)
                       else
                         let end_vaddr = p_vaddr php + p_memsz php;
                             loads = p_memsz php \<noteq> 0;
                             php = (if loads then php\<lparr>p_flags := p_flags php OR PF_OS_WILL_LOAD\<rparr> else php);
                             s = (if loads \<and> max_vaddr s < end_vaddr then s\<lparr>max_vaddr := end_vaddr\<rparr> else s)
                         in if chk_action c = PCA_TEXT_CHECK
                            then if p_memsz php = 0 then (LOAD_BAD_ELF_TEXT, php, s)
                                 else (LOAD_OK, php, s\<lparr>text_bytes := p_filesz php\<rparr>)
                            else (LOAD_OK, php, s))"

fun process_phdrs :: "nat \<Rightarrow> phdr_scan \<Rightarrow> Elf32_Phdr list \<Rightarrow> NaClErrorCode \<times> Elf32_Phdr list \<times> phdr_scan" where
  "process_phdrs bits s [] = (LOAD_OK, [], s)"
| "process_phdrs bits s (php # phps) =
     (case process_phdr bits s php of (err, php, s) \<Rightarrow>
        if err \<noteq> LOAD_OK then (err, php # phps, s)
        else case process_phdrs bits s phps of (err, phps, s) \<Rightarrow> (err, php # phps, s))"

text \<open>Every required segment has been seen.\<close>

definition required_seen :: "nat list \<Rightarrow> bool" where
  "required_seen seen \<longleftrightarrow> list_all2 (\<lambda>c n. chk_required c \<longrightarrow> n \<noteq> 0) nacl_phdr_check_data seen"

end
