(* ===== verification/Slot_Table.thy ===== *)
theory Slot_Table
  imports Nacl_Prelude
begin

text \<open>
  The contract that the descriptor table and the thread table of sel\_ldr.c rely on:
  a table of slots numbered by C ints, each empty (NULL) or holding a pointer, where
  storing changes one slot, a failed store changes none, and the first available slot
  is the lowest empty one. The provider is dyn\_array.c (theory Dyn\_Array), the
  clients are the \<open>NaClSetAvail\<close> and \<open>NaClAddThread\<close> operations (theory App\_Tables).
\<close>

definition slot_limit :: int where
  "slot_limit = 536870912"  \<comment> \<open>\<open>2 ^ 29\<close>: below it the byte count of the array fits a 32-bit size\<close>

locale slot_table =
  fixes inv :: "'t \<Rightarrow> bool"
    and lookup :: "'t \<Rightarrow> int \<Rightarrow> 'a option"
    and store :: "'t \<Rightarrow> int \<Rightarrow> 'a option \<Rightarrow> (int \<times> 't) result"
    and first_avail :: "'t \<Rightarrow> (int \<times> 't) result"
  assumes store_total: "inv t \<Longrightarrow> 0 \<le> i \<Longrightarrow> i < slot_limit \<Longrightarrow> \<exists>r t'. store t i p = Inr (r, t')"
    and store_inv: "inv t \<Longrightarrow> 0 \<le> i \<Longrightarrow> i < slot_limit \<Longrightarrow> store t i p = Inr (r, t') \<Longrightarrow> inv t'"
    and store_ok: "inv t \<Longrightarrow> 0 \<le> i \<Longrightarrow> i < slot_limit \<Longrightarrow> store t i p = Inr (r, t') \<Longrightarrow> r \<noteq> 0 \<Longrightarrow>
        lookup t' = (lookup t)(i := p)"
    and store_failed: "inv t \<Longrightarrow> 0 \<le> i \<Longrightarrow> i < slot_limit \<Longrightarrow> store t i p = Inr (r, t') \<Longrightarrow> r = 0 \<Longrightarrow>
        lookup t' = lookup t"
    and first_avail_total: "inv t \<Longrightarrow> \<exists>n t'. first_avail t = Inr (n, t')"
    and first_avail_inv: "inv t \<Longrightarrow> first_avail t = Inr (n, t') \<Longrightarrow> inv t'"
    and first_avail_lookup: "inv t \<Longrightarrow> first_avail t = Inr (n, t') \<Longrightarrow> lookup t' = lookup t"
    and first_avail_nonneg: "inv t \<Longrightarrow> first_avail t = Inr (n, t') \<Longrightarrow> 0 \<le> n"
    and first_avail_free: "inv t \<Longrightarrow> first_avail t = Inr (n, t') \<Longrightarrow> lookup t n = None"
    and first_avail_least: "inv t \<Longrightarrow> first_avail t = Inr (n, t') \<Longrightarrow> 0 \<le> i \<Longrightarrow> i < n \<Longrightarrow>
        lookup t i \<noteq> None"
    and lookup_neg: "inv t \<Longrightarrow> i < 0 \<Longrightarrow> lookup t i = None"
    and lookup_finite: "inv t \<Longrightarrow> finite {i. lookup t i \<noteq> None}"
begin

text \<open>Taking the first available slot and storing there: what every allocation does.\<close>

lemma alloc_slot:
  assumes "inv t" and fa: "first_avail t = Inr (n, t1)" and lim: "n < slot_limit"
    and st: "store t1 n (Some p) = Inr (r, t2)" and ok: "r \<noteq> 0"
  shows "inv t2" "lookup t2 = (lookup t)(n := Some p)" "0 \<le> n" "lookup t n = None"
    "\<And>i. 0 \<le> i \<Longrightarrow> i < n \<Longrightarrow> lookup t i \<noteq> None"
proof -
  have t1: "inv t1" "lookup t1 = lookup t" and n: "0 \<le> n"
    using first_avail_inv first_avail_lookup first_avail_nonneg assms(1) fa by blast+
  show "inv t2" using store_inv [OF t1(1) n lim st] .
  show "lookup t2 = (lookup t)(n := Some p)" using store_ok [OF t1(1) n lim st ok] t1(2) by simp
  show "0 \<le> n" by (rule n)
  show "lookup t n = None" using first_avail_free assms(1) fa by blast
  show "\<And>i. 0 \<le> i \<Longrightarrow> i < n \<Longrightarrow> lookup t i \<noteq> None"
    using first_avail_least assms(1) fa by blast
qed

text \<open>The number of used slots follows the stores.\<close>

lemma used_slots_add:
  assumes "inv t" "lookup t i = None" "lookup t' = (lookup t)(i := Some p)"
  shows "card {j. lookup t' j \<noteq> None} = Suc (card {j. lookup t j \<noteq> None})"
proof -
  have "{j. lookup t' j \<noteq> None} = insert i {j. lookup t j \<noteq> None}"
    using assms(3) by auto
  moreover have "i \<notin> {j. lookup t j \<noteq> None}" using assms(2) by simp
  ultimately show ?thesis using lookup_finite [OF assms(1)] by simp
qed

lemma used_slots_remove:
  assumes "inv t" "lookup t i \<noteq> None" "lookup t' = (lookup t)(i := None)"
  shows "Suc (card {j. lookup t' j \<noteq> None}) = card {j. lookup t j \<noteq> None}"
proof -
  have "{j. lookup t' j \<noteq> None} = {j. lookup t j \<noteq> None} - {i}"
    using assms(3) by auto
  then show ?thesis
    using card_Suc_Diff1 [OF lookup_finite [OF assms(1)], of i] assms(2) by simp
qed

end

end
