(* ===== verification/Dyn_Array.thy ===== *)
theory Dyn_Array
  imports Slot_Table
begin

text \<open>
  service\_runtime/dyn\_array.c: an array of pointers that grows by doubling, with a
  bit table of the used slots and a hint \<open>avail_ix\<close> below which every word of the bit
  table is full. \<open>None\<close> is the null pointer. C ints are \<open>int\<close> with the wrap-around
  written out; whether each (re)allocation succeeds is an argument (\<open>ok1\<close>, \<open>ok2\<close>), so
  the theorems hold for every behaviour of the allocator.
\<close>

section \<open>State and operations\<close>

record 'a DynArray =
  num_entries :: int
  ptr_array :: "'a option list"
  ptr_array_space :: int
  available :: "u32 list"
  avail_ix :: int

definition kBitsPerWord :: int where "kBitsPerWord = 32"

definition BitsToAllocWords :: "int \<Rightarrow> int" where
  "BitsToAllocWords nbits = drop_bit 5 (wrap32 (nbits + kBitsPerWord - 1))"

definition BitsToIndex :: "int \<Rightarrow> int" where
  "BitsToIndex nbits = drop_bit 5 nbits"

definition BitsToOffset :: "int \<Rightarrow> int" where
  "BitsToOffset nbits = nbits AND (kBitsPerWord - 1)"

text \<open>\<open>None\<close> is the failed construction (the C function returns 0). A negative word
  count is a huge \<open>size_t\<close>, for which \<open>calloc\<close> fails.\<close>

definition DynArrayCtor :: "bool \<Rightarrow> bool \<Rightarrow> int \<Rightarrow> 'a DynArray option" where
  "DynArrayCtor ok1 ok2 initial_size =
     (let initial_size = (if initial_size \<le> 0 then 32 else initial_size);
          nwords = BitsToAllocWords initial_size
      in if \<not> ok1 then None
         else if \<not> ok2 \<or> nwords < 0 then None
         else Some \<lparr>num_entries = 0, ptr_array = replicate (nat initial_size) None,
                    ptr_array_space = initial_size,
                    available = replicate (nat nwords) 0, avail_ix = 0\<rparr>)"

definition DynArrayDtor :: "'a DynArray \<Rightarrow> 'a DynArray" where
  "DynArrayDtor dap = dap\<lparr>num_entries := 0, ptr_array := [], ptr_array_space := 0,
                          available := []\<rparr>"

definition DynArrayGet :: "'a DynArray \<Rightarrow> int \<Rightarrow> 'a option result" where
  "DynArrayGet dap idx =
     (if idx mod 4294967296 < num_entries dap mod 4294967296
      then if 0 \<le> idx \<and> nat idx < length (ptr_array dap)
           then Inr (ptr_array dap ! nat idx)
           else Inl OutOfBounds
      else Inr None)"

text \<open>
  The loop that finds the new size: \<open>Some None\<close> when doubling overflows (the function
  returns 0), \<open>None\<close> when the loop does not end (a size of 0 doubles to 0).
\<close>

partial_function (option) grow_space :: "int \<Rightarrow> int \<Rightarrow> int option option" where
  "grow_space idx desired_space =
     (if idx \<ge> desired_space
      then let tmp = wrap32 (2 * desired_space)
           in if tmp < desired_space then Some None else grow_space idx tmp
      else Some (Some desired_space))"

text \<open>
  \<open>DynArraySet\<close> after the size loop. The two \<open>realloc\<close> calls can fail one without the
  other; when the second fails the larger pointer array stays but \<open>ptr_array_space\<close> does
  not change. The byte count \<open>desired_space * sizeof *new_space\<close> is a 32-bit product:
  when it wraps, the \<open>memset\<close> writes past the block.
\<close>

definition set_grow :: "bool \<Rightarrow> bool \<Rightarrow> 'a DynArray \<Rightarrow> int \<Rightarrow> (bool \<times> 'a DynArray) result" where
  "set_grow ok1 ok2 dap desired_space =
     (if desired_space = ptr_array_space dap then Inr (True, dap)
      else if \<not> ok1 then Inr (False, dap)
      else if 4 * desired_space \<ge> 4294967296 then Inl OutOfBounds
      else
        let space = ptr_array_space dap;
            dap1 = dap\<lparr>ptr_array := take (nat space) (ptr_array dap) @
                                     replicate (nat (desired_space - space)) None\<rparr>;
            old_avail_nwords = BitsToAllocWords space;
            new_avail_nwords = BitsToAllocWords desired_space
        in if \<not> ok2 then Inr (False, dap1)
           else Inr (True, dap1\<lparr>available := take (nat old_avail_nwords) (available dap) @
                                  replicate (nat (new_avail_nwords - old_avail_nwords)) 0,
                                ptr_array_space := desired_space\<rparr>))"

definition set_slot :: "'a DynArray \<Rightarrow> int \<Rightarrow> 'a option \<Rightarrow> (int \<times> 'a DynArray) result" where
  "set_slot dap idx ptr =
     (let ix = BitsToIndex idx; off = nat (BitsToOffset idx)
      in if idx < 0 \<or> nat idx \<ge> length (ptr_array dap) \<or> nat ix \<ge> length (available dap)
         then Inl OutOfBounds
         else
           let w = available dap ! nat ix;
               dap1 = dap\<lparr>ptr_array := (ptr_array dap)[nat idx := ptr]\<rparr>;
               dap2 = (if ptr \<noteq> None
                       then dap1\<lparr>available := (available dap)[nat ix := w OR push_bit off 1]\<rparr>
                       else dap1\<lparr>available := (available dap)[nat ix := w AND NOT (push_bit off 1)],
                                 avail_ix := (if ix < avail_ix dap then ix else avail_ix dap)\<rparr>);
               dap3 = (if num_entries dap2 \<le> idx then dap2\<lparr>num_entries := wrap32 (idx + 1)\<rparr>
                       else dap2)
           in Inr (1, dap3))"

definition DynArraySet :: "bool \<Rightarrow> bool \<Rightarrow> 'a DynArray \<Rightarrow> int \<Rightarrow> 'a option
    \<Rightarrow> (int \<times> 'a DynArray) result" where
  "DynArraySet ok1 ok2 dap idx ptr =
     (case grow_space idx (ptr_array_space dap) of
        None \<Rightarrow> Inl Diverges
      | Some None \<Rightarrow> Inr (0, dap)
      | Some (Some desired_space) \<Rightarrow>
          bind_result (set_grow ok1 ok2 dap desired_space)
            (\<lambda>(grown, dap1). if grown then set_slot dap1 idx ptr else Inr (0, dap1)))"

text \<open>The scan for the first word that is not all ones.\<close>

function scan_avail :: "u32 list \<Rightarrow> int \<Rightarrow> int \<Rightarrow> int result" where
  "scan_avail av ix last_ix =
     (if ix < last_ix
      then if ix < 0 \<or> nat ix \<ge> length av then Inl OutOfBounds
           else if NOT (av ! nat ix) \<noteq> 0 then Inr ix
           else scan_avail av (ix + 1) last_ix
      else Inr ix)"
  by pat_completeness auto
termination by (relation "measure (\<lambda>(av, ix, last_ix). nat (last_ix - ix))") auto

declare grow_space.simps [code]

declare scan_avail.simps [simp del]

definition DynArrayFirstAvail :: "'a DynArray \<Rightarrow> (int \<times> 'a DynArray) result" where
  "DynArrayFirstAvail dap =
     (let last_ix = BitsToAllocWords (ptr_array_space dap)
      in bind_result (scan_avail (available dap) (avail_ix dap) last_ix)
           (\<lambda>ix. if ix < last_ix
                 then Inr (wrap32 (int (ffs (NOT (available dap ! nat ix))) - 1 + wrap32 (push_bit 5 ix)),
                           dap\<lparr>avail_ix := ix\<rparr>)
                 else Inr (ptr_array_space dap, dap)))"


section \<open>Index arithmetic\<close>

lemma BitsToAllocWords_eq:
  "0 \<le> n \<Longrightarrow> n \<le> 1073741824 \<Longrightarrow> BitsToAllocWords n = (n + 31) div 32"
  by (simp add: BitsToAllocWords_def kBitsPerWord_def wrap32_id drop_bit_eq_div)

lemma nat_BitsToAllocWords:
  "0 \<le> n \<Longrightarrow> n \<le> 1073741824 \<Longrightarrow> nat (BitsToAllocWords n) = (nat n + 31) div 32"
  by (simp add: BitsToAllocWords_eq nat_div_distrib nat_add_distrib)

lemma nat_BitsToIndex: "0 \<le> n \<Longrightarrow> nat (BitsToIndex n) = nat n div 32"
  by (simp add: BitsToIndex_def drop_bit_eq_div nat_div_distrib)

lemma nat_BitsToOffset: "0 \<le> n \<Longrightarrow> nat (BitsToOffset n) = nat n mod 32"
proof -
  assume "0 \<le> n"
  have "n AND 31 = n mod 32"
    using take_bit_eq_mask [of 5 n] by (simp add: take_bit_eq_mod mask_eq_exp_minus_1)
  then show ?thesis
    using \<open>0 \<le> n\<close> by (simp add: BitsToOffset_def kBitsPerWord_def nat_mod_distrib)
qed

text \<open>The number of words covers the bits, and wastes fewer than 32 of them.\<close>

lemma words_cover: "(n::nat) \<le> 32 * ((n + 31) div 32)" "32 * ((n + 31) div 32) < n + 32"
  by presburger+

section \<open>The size loop\<close>

lemma grow_space_spec:
  assumes "0 < d" "d < 1073741824" "idx < slot_limit"
  shows "\<exists>e. grow_space idx d = Some (Some e) \<and> idx < e \<and> d \<le> e \<and> e < 1073741824"
  using assms
proof (induction "nat (idx + 1 - d)" arbitrary: d rule: less_induct)
  case less
  show ?case
  proof (cases "idx \<ge> d")
    case True
    then have d: "d < 536870912" using less.prems by (simp add: slot_limit_def)
    have tmp: "wrap32 (2 * d) = 2 * d" using less.prems d by (intro wrap32_id) auto
    have step: "grow_space idx d = grow_space idx (2 * d)"
      using True less.prems by (subst grow_space.simps) (simp add: tmp Let_def)
    show ?thesis
    proof (cases "idx \<ge> 2 * d")
      case True
      then have "\<exists>e. grow_space idx (2 * d) = Some (Some e) \<and> idx < e \<and> 2 * d \<le> e \<and> e < 1073741824"
        using less.prems d by (intro less.hyps) auto
      then obtain e where "grow_space idx (2 * d) = Some (Some e)" "idx < e" "2 * d \<le> e" "e < 1073741824"
        by blast
      then show ?thesis using step less.prems by (intro exI [of _ e]) simp
    next
      case False
      then have "grow_space idx (2 * d) = Some (Some (2 * d))" by (subst grow_space.simps) simp
      then show ?thesis using step False d less.prems
        by (intro exI [of _ "2 * d"]) (simp add: slot_limit_def)
    qed
  next
    case False
    then show ?thesis using less.prems by (subst grow_space.simps) simp
  qed
qed

lemma grow_space_enough: "idx < d \<Longrightarrow> grow_space idx d = Some (Some d)"
  by (subst grow_space.simps) simp

section \<open>Invariant and abstract view\<close>

definition dyn_inv :: "'a DynArray \<Rightarrow> bool" where
  "dyn_inv d \<longleftrightarrow>
     0 < ptr_array_space d \<and> ptr_array_space d < 1073741824 \<and>
     0 \<le> num_entries d \<and> num_entries d \<le> ptr_array_space d \<and>
     ptr_array_space d \<le> int (length (ptr_array d)) \<and>
     length (available d) = (nat (ptr_array_space d) + 31) div 32 \<and>
     (\<forall>i < 32 * length (available d). tbl_bit (available d) i \<longleftrightarrow>
        int i < ptr_array_space d \<and> ptr_array d ! i \<noteq> None) \<and>
     (\<forall>i. num_entries d \<le> int i \<and> int i < ptr_array_space d \<longrightarrow> ptr_array d ! i = None) \<and>
     0 \<le> avail_ix d \<and> avail_ix d \<le> int (length (available d)) \<and>
     (\<forall>k < nat (avail_ix d). NOT (available d ! k) = 0)"

text \<open>The table as a partial function on C ints.\<close>

definition dyn_lookup :: "'a DynArray \<Rightarrow> int \<Rightarrow> 'a option" where
  "dyn_lookup d i = (if 0 \<le> i \<and> i < num_entries d then ptr_array d ! nat i else None)"

lemma dyn_lookup_space:
  "dyn_inv d \<Longrightarrow> 0 \<le> i \<Longrightarrow> i < ptr_array_space d \<Longrightarrow> dyn_lookup d i = ptr_array d ! nat i"
  by (auto simp: dyn_inv_def dyn_lookup_def dest!: spec [of _ "nat i"])

lemma DynArrayGet_lookup:
  assumes "dyn_inv d" "-2147483648 \<le> i" "i < 2147483648"
  shows "DynArrayGet d i = Inr (dyn_lookup d i)"
proof -
  have n: "num_entries d mod 4294967296 = num_entries d" and le: "num_entries d < 1073741824"
    using assms(1) by (auto simp: dyn_inv_def)
  show ?thesis
  proof (cases "0 \<le> i")
    case True
    then have "i mod 4294967296 = i" using assms by simp
    then show ?thesis using True assms(1)
      by (auto simp: DynArrayGet_def n dyn_lookup_def dyn_inv_def)
  next
    case False
    have "i mod 4294967296 = (i + 4294967296) mod 4294967296" by simp
    also have "\<dots> = i + 4294967296" using False assms by (intro mod_pos_pos_trivial) auto
    finally have "i mod 4294967296 = i + 4294967296" .
    then show ?thesis using False assms le by (simp add: DynArrayGet_def n dyn_lookup_def)
  qed
qed

lemma DynArrayCtor_inv:
  assumes "DynArrayCtor ok1 ok2 n = Some d" "n \<le> 536870912"
  shows "dyn_inv d" "dyn_lookup d = (\<lambda>_. None)"
proof -
  define m where "m = (if n \<le> 0 then 32 else n)"
  have m: "0 < m" "m \<le> 536870912" using assms(2) by (auto simp: m_def)
  have d: "d = \<lparr>num_entries = 0, ptr_array = replicate (nat m) None, ptr_array_space = m,
              available = replicate ((nat m + 31) div 32) 0, avail_ix = 0\<rparr>"
    using assms(1) m by (auto simp: DynArrayCtor_def m_def Let_def nat_BitsToAllocWords split: if_splits)
  have empty: "replicate (nat m) None ! i = None" if "int i < m" for i
    using that by (simp add: zless_nat_eq_int_zless)
  show "dyn_inv d"
    unfolding dyn_inv_def d by (intro conjI allI impI) (use m empty in \<open>simp_all add: mult.commute\<close>)
  show "dyn_lookup d = (\<lambda>_. None)" by (auto simp: d dyn_lookup_def fun_eq_iff)
qed


section \<open>Setting a slot\<close>

lemma set_grow_spec:
  assumes inv: "dyn_inv d" and e: "ptr_array_space d \<le> e" "e < 1073741824"
  obtains b d' where "set_grow ok1 ok2 d e = Inr (b, d')" "dyn_inv d'" "dyn_lookup d' = dyn_lookup d"
    "b \<Longrightarrow> ptr_array_space d' = e" "ok1 \<Longrightarrow> ok2 \<Longrightarrow> b" "ptr_array_space d = e \<Longrightarrow> b"
proof (cases "e = ptr_array_space d \<or> \<not> ok1")
  case True
  then show ?thesis using inv that [of "e = ptr_array_space d" d] by (auto simp: set_grow_def)
next
  case False
  define s where "s = ptr_array_space d"
  define arr where "arr = take (nat s) (ptr_array d) @ replicate (nat (e - s)) None"
  define d1 where "d1 = d\<lparr>ptr_array := arr\<rparr>"
  from inv have s: "0 < s" "s < 1073741824" "nat s \<le> length (ptr_array d)"
    by (auto simp: dyn_inv_def s_def)
  have len: "length arr = nat e" using s e by (simp add: arr_def s_def)
  have arr_old: "arr ! i = ptr_array d ! i" if "int i < s" for i
    using that s by (simp add: arr_def nth_append zless_nat_eq_int_zless)
  have arr_new: "arr ! i = None" if "s \<le> int i" "int i < e" for i
    using that s by (simp add: arr_def nth_append zless_nat_eq_int_zless)
  have look1: "dyn_lookup d1 = dyn_lookup d"
    using inv by (auto simp: fun_eq_iff dyn_lookup_def d1_def arr_old dyn_inv_def s_def)
  have inv1: "dyn_inv d1"
    using inv e by (auto simp: dyn_inv_def d1_def len arr_old s_def)
  show ?thesis
  proof (cases ok2)
    case no: False
    have "set_grow ok1 ok2 d e = Inr (False, d1)"
      using False no e by (simp add: set_grow_def d1_def arr_def s_def Let_def)
    then show ?thesis using that inv1 look1 no False by blast
  next
    case True
    define n where "n = (nat s + 31) div 32"
    define n' where "n' = (nat e + 31) div 32"
    have lav: "length (available d) = n" using inv by (simp add: dyn_inv_def n_def s_def)
    have nn: "n \<le> n'" using e by (simp add: n_def n'_def s_def div_le_mono nat_mono)
    define d2 where "d2 = d1\<lparr>available := available d @ replicate (n' - n) 0, ptr_array_space := e\<rparr>"
    have nw: "nat (BitsToAllocWords e - BitsToAllocWords s) = n' - n"
      using s e by (simp add: nat_diff_distrib' BitsToAllocWords_eq n_def n'_def s_def
          nat_div_distrib nat_add_distrib)
    have res: "set_grow ok1 ok2 d e = Inr (True, d2)"
      using False True e s nw lav
      by (simp add: set_grow_def d2_def d1_def arr_def s_def Let_def nat_BitsToAllocWords n_def)
    have "dyn_lookup d2 = dyn_lookup d1" by (simp add: fun_eq_iff dyn_lookup_def d2_def)
    then have look2: "dyn_lookup d2 = dyn_lookup d" using look1 by simp
    have bits: "tbl_bit (available d2) i \<longleftrightarrow> int i < e \<and> arr ! i \<noteq> None" if "i < 32 * n'" for i
    proof -
      have "tbl_bit (available d2) i \<longleftrightarrow> i < n * 32 \<and> tbl_bit (available d) i"
        using tbl_bit_append_zeros [of i "available d" "n' - n"] that nn
        by (simp add: d2_def lav mult.commute)
      also have "\<dots> \<longleftrightarrow> i < n * 32 \<and> int i < s \<and> ptr_array d ! i \<noteq> None"
        using inv lav by (auto simp: dyn_inv_def s_def)
      also have "\<dots> \<longleftrightarrow> int i < e \<and> arr ! i \<noteq> None"
        using words_cover(1) [of "nat s"] e arr_old [of i] arr_new [of i]
        by (cases "int i < s") (auto simp: n_def s_def)
      finally show ?thesis .
    qed
    have full: "NOT (available d2 ! k) = 0" if "k < nat (avail_ix d)" for k
      using inv that by (auto simp: dyn_inv_def d2_def nth_append)
    have "dyn_inv d2"
      unfolding dyn_inv_def
    proof (intro conjI allI impI)
      show "length (available d2) = (nat (ptr_array_space d2) + 31) div 32"
        using lav nn by (simp add: d2_def n'_def)
      show "tbl_bit (available d2) i \<longleftrightarrow> int i < ptr_array_space d2 \<and> ptr_array d2 ! i \<noteq> None"
        if "i < 32 * length (available d2)" for i
        using bits [of i] that lav nn by (simp add: d2_def d1_def)
      show "ptr_array d2 ! i = None" if "num_entries d2 \<le> int i \<and> int i < ptr_array_space d2" for i
        using that inv arr_old [of i] arr_new [of i]
        by (cases "int i < s") (auto simp: d2_def d1_def dyn_inv_def s_def)
    qed (use inv e len full lav nn in \<open>auto simp: d2_def d1_def dyn_inv_def s_def\<close>)
    then show ?thesis using that [of True d2] res look2 by (simp add: d2_def)
  qed
qed


text \<open>The three fields that a store writes, in the invariant's own terms.\<close>

definition stored :: "'a DynArray \<Rightarrow> nat \<Rightarrow> 'a option \<Rightarrow> 'a DynArray" where
  "stored d n p = d\<lparr>
     num_entries := (if num_entries d \<le> int n then int n + 1 else num_entries d),
     ptr_array := (ptr_array d)[n := p],
     available := (available d)[n div 32 :=
        (if p \<noteq> None then available d ! (n div 32) OR 2 ^ (n mod 32)
         else available d ! (n div 32) AND NOT (2 ^ (n mod 32)))],
     avail_ix := (if p = None \<and> int (n div 32) < avail_ix d then int (n div 32) else avail_ix d)\<rparr>"

lemma slot_in_range:
  assumes "dyn_inv d" "int n < ptr_array_space d"
  shows "n < length (ptr_array d)" "n div 32 < length (available d)" "n < 32 * length (available d)"
proof -
  have "n < nat (ptr_array_space d)" "0 \<le> ptr_array_space d" using assms by auto
  moreover have len: "length (available d) = (nat (ptr_array_space d) + 31) div 32"
    using assms(1) by (simp add: dyn_inv_def)
  ultimately show "n < 32 * length (available d)"
    using words_cover(1) [of "nat (ptr_array_space d)"] by linarith
  then show "n div 32 < length (available d)" by (simp add: less_mult_imp_div_less mult.commute)
  show "n < length (ptr_array d)" using assms by (auto simp: dyn_inv_def)
qed

lemma set_slot_stored:
  assumes "dyn_inv d" "int n < ptr_array_space d"
  shows "set_slot d (int n) p = Inr (1, stored d n p)"
proof -
  have "wrap32 (int n + 1) = int n + 1"
    using assms by (intro wrap32_id) (auto simp: dyn_inv_def)
  moreover have "BitsToIndex (int n) = int (n div 32)"
    by (simp add: BitsToIndex_def drop_bit_eq_div zdiv_int)
  moreover have "nat (BitsToOffset (int n)) = n mod 32" by (simp add: nat_BitsToOffset)
  ultimately show ?thesis
    using slot_in_range [OF assms] by (auto simp: set_slot_def stored_def Let_def)
qed

lemma stored_bit:
  assumes "dyn_inv d" "int n < ptr_array_space d"
  shows "tbl_bit (available (stored d n p)) i \<longleftrightarrow> (if i = n then p \<noteq> None else tbl_bit (available d) i)"
  using tbl_bit_set [of n "available d" i] tbl_bit_clear [of n "available d" i] slot_in_range [OF assms]
  by (auto simp: stored_def)

lemma stored_full:
  assumes inv: "dyn_inv d" and n: "int n < ptr_array_space d" and k: "k < nat (avail_ix (stored d n p))"
  shows "NOT (available (stored d n p) ! k) = 0"
proof -
  have "k < nat (avail_ix d)" using k by (auto simp: stored_def split: if_splits)
  then have old: "NOT (available d ! k) = 0" using inv by (simp add: dyn_inv_def)
  show ?thesis
  proof (cases "k = n div 32")
    case True
    then have "p \<noteq> None" using k by (auto simp: stored_def split: if_splits)
    moreover have "available d ! k = - 1" using old by (metis bit.double_compl bit.compl_zero)
    ultimately show ?thesis using True slot_in_range [OF inv n] by (simp add: stored_def)
  next
    case False
    then show ?thesis using old by (simp add: stored_def)
  qed
qed

lemma stored_inv:
  assumes inv: "dyn_inv d" and n: "int n < ptr_array_space d"
  shows "dyn_inv (stored d n p)"
  unfolding dyn_inv_def
proof (intro conjI allI impI)
  fix i
  show "tbl_bit (available (stored d n p)) i \<longleftrightarrow>
      int i < ptr_array_space (stored d n p) \<and> ptr_array (stored d n p) ! i \<noteq> None"
    if "i < 32 * length (available (stored d n p))"
    using that inv n slot_in_range [OF inv n]
    by (auto simp: stored_bit [OF inv n] dyn_inv_def) (auto simp: stored_def nth_list_update)
  show "ptr_array (stored d n p) ! i = None"
    if "num_entries (stored d n p) \<le> int i \<and> int i < ptr_array_space (stored d n p)"
    using that inv by (auto simp: stored_def dyn_inv_def nth_list_update split: if_splits)
  show "NOT (available (stored d n p) ! i) = 0" if "i < nat (avail_ix (stored d n p))"
    using stored_full [OF inv n that] .
qed (use inv n in \<open>auto simp: dyn_inv_def stored_def\<close>)

lemma stored_lookup:
  assumes inv: "dyn_inv d" and n: "int n < ptr_array_space d"
  shows "dyn_lookup (stored d n p) = (dyn_lookup d)(int n := p)"
proof
  fix i
  show "dyn_lookup (stored d n p) i = ((dyn_lookup d)(int n := p)) i"
  proof (cases "0 \<le> i \<and> i < ptr_array_space d")
    case True
    then show ?thesis
      using dyn_lookup_space [OF inv, of i] dyn_lookup_space [OF stored_inv [OF inv n], of i p]
        slot_in_range [OF inv n]
      by (auto simp: stored_def nth_list_update)
  next
    case False
    then show ?thesis using inv n by (auto simp: dyn_lookup_def stored_def dyn_inv_def)
  qed
qed

text \<open>\<open>DynArraySet\<close> on any slot below the limit: it returns, keeps the invariant, and
  either stores exactly the slot or changes no slot; it can fail only when it has to grow
  and an allocation fails.\<close>

lemma DynArraySet_spec:
  assumes inv: "dyn_inv d"
    and idx: "0 \<le> idx" "idx < slot_limit"
  obtains r d' where "DynArraySet ok1 ok2 d idx p = Inr (r, d')" "dyn_inv d'"
    "r \<noteq> 0 \<Longrightarrow> dyn_lookup d' = (dyn_lookup d)(idx := p)"
    "r = 0 \<Longrightarrow> dyn_lookup d' = dyn_lookup d"
    "ok1 \<Longrightarrow> ok2 \<Longrightarrow> r = 1" "idx < ptr_array_space d \<Longrightarrow> r = 1"
proof -
  have "0 < ptr_array_space d" "ptr_array_space d < 1073741824" using inv by (auto simp: dyn_inv_def)
  then obtain e where e: "grow_space idx (ptr_array_space d) = Some (Some e)" "idx < e"
      "ptr_array_space d \<le> e" "e < 1073741824"
    using grow_space_spec idx(2) by metis
  obtain b d1 where g: "set_grow ok1 ok2 d e = Inr (b, d1)" "dyn_inv d1" "dyn_lookup d1 = dyn_lookup d"
      "b \<Longrightarrow> ptr_array_space d1 = e" "ok1 \<Longrightarrow> ok2 \<Longrightarrow> b" "ptr_array_space d = e \<Longrightarrow> b"
    using set_grow_spec [OF inv e(3,4)] by metis
  have b: "b" if "idx < ptr_array_space d"
    using that e(1) g(6) by (simp add: grow_space_enough)
  show ?thesis
  proof (cases b)
    case True
    define n where "n = nat idx"
    have n: "int n = idx" "int n < ptr_array_space d1" using idx e(2) g(4) True by (auto simp: n_def)
    have "DynArraySet ok1 ok2 d idx p = Inr (1, stored d1 n p)"
      using set_slot_stored [OF g(2) n(2)] n(1) True by (simp add: DynArraySet_def e g)
    then show ?thesis
      using that stored_inv [OF g(2) n(2)] stored_lookup [OF g(2) n(2)] g(3) n(1) by auto
  next
    case False
    then have "DynArraySet ok1 ok2 d idx p = Inr (0, d1)" by (simp add: DynArraySet_def e g)
    then show ?thesis using that [of 0 d1] False g b by auto
  qed
qed


section \<open>The first available slot\<close>

lemma scan_avail_spec:
  assumes "0 \<le> ix" "ix \<le> last_ix" "last_ix \<le> int (length av)"
  shows "\<exists>k. scan_avail av ix last_ix = Inr k \<and> ix \<le> k \<and> k \<le> last_ix \<and>
    (\<forall>j. ix \<le> j \<and> j < k \<longrightarrow> NOT (av ! nat j) = 0) \<and> (k < last_ix \<longrightarrow> NOT (av ! nat k) \<noteq> 0)"
  using assms
proof (induction av ix last_ix rule: scan_avail.induct)
  case (1 av ix last_ix)
  show ?case
  proof (cases "ix < last_ix \<and> NOT (av ! nat ix) = 0")
    case True
    have "\<exists>k. scan_avail av (ix + 1) last_ix = Inr k \<and> ix + 1 \<le> k \<and> k \<le> last_ix \<and>
      (\<forall>j. ix + 1 \<le> j \<and> j < k \<longrightarrow> NOT (av ! nat j) = 0) \<and> (k < last_ix \<longrightarrow> NOT (av ! nat k) \<noteq> 0)"
      using True "1.prems" by (intro "1.IH") auto
    then obtain k where k: "scan_avail av (ix + 1) last_ix = Inr k" "ix + 1 \<le> k" "k \<le> last_ix"
        "\<forall>j. ix + 1 \<le> j \<and> j < k \<longrightarrow> NOT (av ! nat j) = 0" "k < last_ix \<longrightarrow> NOT (av ! nat k) \<noteq> 0"
      by blast
    have "scan_avail av ix last_ix = Inr k"
      using True k(1) "1.prems" by (subst scan_avail.simps) auto
    moreover have "NOT (av ! nat j) = 0" if "ix \<le> j" "j < k" for j
      using that True k(4) by (cases "j = ix") auto
    ultimately show ?thesis using k by (intro exI [of _ k]) auto
  next
    case False
    then show ?thesis using "1.prems" by (subst scan_avail.simps) (auto intro!: exI [of _ ix])
  qed
qed

lemma tbl_bit_full:
  "NOT (t ! (i div 32)) = 0 \<Longrightarrow> tbl_bit t i" for t :: "u32 list"
  using not_word_nonzero_iff [of "t ! (i div 32)"] by (auto simp: tbl_bit_def)

lemma first_avail_word:
  fixes w :: u32
  assumes "NOT w \<noteq> 0"
  obtains b where "ffs (NOT w) = Suc b" "b < 32" "\<not> bit w b" "\<And>c. c < b \<Longrightarrow> bit w c"
proof -
  obtain b where b: "ffs (NOT w) = Suc b" "b < LENGTH(32)" "bit (NOT w) b"
      "\<And>c. c < b \<Longrightarrow> \<not> bit (NOT w) c"
    using ffs_least [OF assms] by blast
  then show ?thesis using that by (force simp: bit_not_iff)
qed

lemma DynArrayFirstAvail_spec:
  assumes inv: "dyn_inv d"
  obtains n d' where "DynArrayFirstAvail d = Inr (n, d')" "dyn_inv d'" "dyn_lookup d' = dyn_lookup d"
    "0 \<le> n" "dyn_lookup d n = None" "\<And>i. 0 \<le> i \<Longrightarrow> i < n \<Longrightarrow> dyn_lookup d i \<noteq> None"
proof -
  define s where "s = ptr_array_space d"
  define L where "L = int (length (available d))"
  have s: "0 < s" "s < 1073741824" and ix: "0 \<le> avail_ix d" "avail_ix d \<le> L"
    and len: "length (available d) = (nat s + 31) div 32"
    using inv by (auto simp: dyn_inv_def s_def L_def)
  have last: "BitsToAllocWords s = L" using s len
    by (simp add: BitsToAllocWords_eq L_def nat_add_distrib zdiv_int)
  have L32: "32 * L < s + 32" using words_cover(2) [of "nat s"] s by (simp add: L_def len)
  obtain k where k: "scan_avail (available d) (avail_ix d) L = Inr k" "avail_ix d \<le> k" "k \<le> L"
      "\<forall>j. avail_ix d \<le> j \<and> j < k \<longrightarrow> NOT (available d ! nat j) = 0"
      "k < L \<longrightarrow> NOT (available d ! nat k) \<noteq> 0"
    using scan_avail_spec [of "avail_ix d" L "available d"] ix by (auto simp: L_def)
  have full: "NOT (available d ! j) = 0" if "j < nat k" for j
    using k(4) [rule_format, of "int j"] inv that
    by (cases "int j < avail_ix d") (auto simp: dyn_inv_def zless_nat_eq_int_zless)
  have bit_iff: "tbl_bit (available d) i \<longleftrightarrow> int i < s \<and> dyn_lookup d (int i) \<noteq> None"
    if "i < 32 * length (available d)" for i
    using that inv dyn_lookup_space [OF inv, of "int i"] by (auto simp: dyn_inv_def s_def)
  have used: "dyn_lookup d i \<noteq> None \<and> i < s" if "0 \<le> i" "i < 32 * k" for i
  proof -
    have "nat i div 32 < nat k" using that by (simp add: div_less_iff_less_mult nat_less_iff)
    then have "tbl_bit (available d) (nat i)" using full by (intro tbl_bit_full) simp
    moreover have "nat i < 32 * length (available d)" using that k(3) by (simp add: L_def nat_less_iff)
    ultimately show ?thesis using bit_iff [of "nat i"] that by simp
  qed
  show ?thesis
  proof (cases "k < L")
    case True
    define w where "w = available d ! nat k"
    obtain b where b: "ffs (NOT w) = Suc b" "b < 32" "\<not> bit w b" "\<And>c. c < b \<Longrightarrow> bit w c"
      using first_avail_word [of w] k(5) True by (auto simp: w_def)
    define n where "n = 32 * nat k + b"
    have k0: "0 \<le> k" using ix k by simp
    have in_w: "tbl_bit (available d) (32 * nat k + c) \<longleftrightarrow> bit w c" if "c < 32" for c
      using that by (simp add: tbl_bit_def w_def)
    have nL: "n < 32 * length (available d)" using True b k0 by (simp add: n_def L_def)
    have "k * 32 < 2147483648" using True L32 s by simp
    then have wr: "wrap32 (push_bit 5 k) = 32 * k" "wrap32 (int b + 32 * k) = int n"
      using k0 b True L32 s by (simp_all add: push_bit_eq_mult wrap32_id n_def)
    define d' where "d' = d\<lparr>avail_ix := k\<rparr>"
    have res: "DynArrayFirstAvail d = Inr (int n, d')"
      using True b wr unfolding DynArrayFirstAvail_def s_def [symmetric] last
      by (simp add: k(1) w_def [symmetric] d'_def Let_def)
    have "dyn_inv d'" using inv k0 k(3) full by (auto simp: dyn_inv_def d'_def L_def)
    moreover have "dyn_lookup d' = dyn_lookup d" by (auto simp: dyn_lookup_def d'_def fun_eq_iff)
    moreover have "dyn_lookup d (int n) = None"
    proof (rule ccontr)
      assume "dyn_lookup d (int n) \<noteq> None"
      moreover from this have "int n < s" using inv by (auto simp: dyn_lookup_def dyn_inv_def s_def split: if_splits)
      ultimately show False using bit_iff [OF nL] in_w [of b] b by (simp add: n_def)
    qed
    moreover have "dyn_lookup d i \<noteq> None" if i: "0 \<le> i" "i < int n" for i
    proof (cases "i < 32 * k")
      case False
      then have "nat i - 32 * nat k < b" using i k0 by (simp add: n_def)
      moreover have "32 * nat k + (nat i - 32 * nat k) = nat i" using False i k0 by simp
      ultimately have "tbl_bit (available d) (nat i)" using in_w [of "nat i - 32 * nat k"] b by simp
      then show ?thesis using bit_iff [of "nat i"] i nL by simp
    qed (use used i in blast)
    ultimately show ?thesis using that [OF res] by simp
  next
    case False
    then have kL: "k = L" using k(3) by simp
    have "s \<le> 32 * k" using words_cover(1) [of "nat s"] s by (simp add: kL L_def len)
    then have "dyn_lookup d i \<noteq> None" if "0 \<le> i" "i < s" for i using used that by simp
    moreover have "dyn_lookup d s = None" using inv by (auto simp: dyn_lookup_def dyn_inv_def s_def)
    moreover have "DynArrayFirstAvail d = Inr (s, d)"
      unfolding DynArrayFirstAvail_def s_def [symmetric] last by (simp add: k(1) kL Let_def s_def)
    ultimately show ?thesis using that [of s d] inv s by simp
  qed
qed


section \<open>dyn\_array.c provides the slot table\<close>

lemma dyn_lookup_finite: "finite {i. dyn_lookup d i \<noteq> None}"
  by (rule finite_subset [of _ "{0..<num_entries d}"]) (auto simp: dyn_lookup_def split: if_splits)

interpretation da: slot_table dyn_inv dyn_lookup "DynArraySet ok1 ok2" DynArrayFirstAvail for ok1 ok2
proof unfold_locales
  fix t :: "'a DynArray" and i p r t'
  assume inv: "dyn_inv t" and i: "0 \<le> i" "i < slot_limit"
  note spec = DynArraySet_spec [OF inv i, of ok1 ok2 p]
  show "\<exists>r t'. DynArraySet ok1 ok2 t i p = Inr (r, t')" by (rule spec) blast
  assume "DynArraySet ok1 ok2 t i p = Inr (r, t')"
  then show "dyn_inv t'" and "r \<noteq> 0 \<Longrightarrow> dyn_lookup t' = (dyn_lookup t)(i := p)"
    and "r = 0 \<Longrightarrow> dyn_lookup t' = dyn_lookup t"
    by (rule_tac [!] spec) auto
next
  fix t :: "'a DynArray" and n t'
  assume inv: "dyn_inv t"
  note spec = DynArrayFirstAvail_spec [OF inv]
  show "\<exists>n t'. DynArrayFirstAvail t = Inr (n, t')" by (rule spec) blast
  show "finite {i. dyn_lookup t i \<noteq> None}" by (rule dyn_lookup_finite)
  show "dyn_lookup t i = None" if "i < 0" for i using that by (simp add: dyn_lookup_def)
  assume "DynArrayFirstAvail t = Inr (n, t')"
  then show "dyn_inv t'" "dyn_lookup t' = dyn_lookup t" "0 \<le> n" "dyn_lookup t n = None"
    "\<And>i. 0 \<le> i \<Longrightarrow> i < n \<Longrightarrow> dyn_lookup t i \<noteq> None"
    by (rule_tac [!] spec) auto
qed


section \<open>Properties\<close>

text \<open>The arrays a program can build: constructed, then stored into and searched.\<close>

inductive dyn_reachable :: "'a DynArray \<Rightarrow> bool" where
  ctor: "DynArrayCtor ok1 ok2 n = Some d \<Longrightarrow> n \<le> slot_limit \<Longrightarrow> dyn_reachable d"
| set: "dyn_reachable d \<Longrightarrow> 0 \<le> i \<Longrightarrow> i < slot_limit \<Longrightarrow> DynArraySet ok1 ok2 d i p = Inr (r, d') \<Longrightarrow>
    dyn_reachable d'"
| first_avail: "dyn_reachable d \<Longrightarrow> DynArrayFirstAvail d = Inr (n, d') \<Longrightarrow> dyn_reachable d'"

lemma dyn_reachable_inv: "dyn_reachable d \<Longrightarrow> dyn_inv d"
proof (induction rule: dyn_reachable.induct)
  case (ctor ok1 ok2 n d)
  then show ?case by (intro DynArrayCtor_inv(1)) (auto simp: slot_limit_def)
next
  case (set d i ok1 ok2 p r d')
  then show ?case using da.store_inv by blast
next
  case (first_avail d n d')
  then show ?case using da.first_avail_inv by blast
qed

text \<open>C26: After \<open>DynArraySet\<close> has reported success, \<open>DynArrayGet\<close> returns the stored
  pointer at that index and at every other index what it returned before; this holds for
  every array that \<open>DynArrayCtor\<close>, \<open>DynArraySet\<close> and \<open>DynArrayFirstAvail\<close> can build,
  whether or not the store had to grow the array.\<close>

theorem DynArraySet_then_Get:
  assumes "dyn_reachable d" "0 \<le> i" "i < slot_limit" "DynArraySet ok1 ok2 d i p = Inr (r, d')" "r \<noteq> 0"
    and "-2147483648 \<le> j" "j < 2147483648"
  shows "DynArrayGet d' j = (if j = i then Inr p else DynArrayGet d j)"
proof -
  have inv: "dyn_inv d" using assms(1) by (rule dyn_reachable_inv)
  have "dyn_inv d'" "dyn_lookup d' = (dyn_lookup d)(i := p)"
    using da.store_inv [OF inv assms(2-4)] da.store_ok [OF inv assms(2-5)] by auto
  then show ?thesis using inv assms(6,7) by (simp add: DynArrayGet_lookup)
qed

text \<open>C29: Storing below index \<open>2 ^ 29\<close> never touches memory outside the array and always
  returns; it reports failure only if an allocation failed, and then no slot has changed.\<close>

theorem DynArraySet_safe:
  assumes "dyn_reachable d" "0 \<le> i" "i < slot_limit"
  shows "\<exists>r d'. DynArraySet ok1 ok2 d i p = Inr (r, d') \<and>
    (r = 1 \<or> r = 0 \<and> \<not> (ok1 \<and> ok2) \<and>
      (\<forall>j \<in> {-2147483648..<2147483648}. DynArrayGet d' j = DynArrayGet d j))"
proof -
  have inv: "dyn_inv d" using assms(1) by (rule dyn_reachable_inv)
  obtain r d' where r: "DynArraySet ok1 ok2 d i p = Inr (r, d')" "dyn_inv d'"
      "r = 0 \<Longrightarrow> dyn_lookup d' = dyn_lookup d" "ok1 \<Longrightarrow> ok2 \<Longrightarrow> r = 1"
    by (rule DynArraySet_spec [OF inv assms(2,3), of ok1 ok2 p]) blast
  have "r = 1 \<or> r = 0"
    using r(1) by (auto simp: DynArraySet_def bind_result_eq_Inr set_slot_def Let_def
        split: option.splits if_splits)
  then show ?thesis using r inv by (intro exI conjI) (auto simp: DynArrayGet_lookup)
qed

text \<open>C28: \<open>DynArrayFirstAvail\<close> returns the lowest index whose slot is empty, although it
  starts at the hint \<open>avail_ix\<close> and looks only at the bit table; it changes no slot.\<close>

theorem DynArrayFirstAvail_least:
  assumes "dyn_reachable d"
  shows "\<exists>n d'. DynArrayFirstAvail d = Inr (n, d') \<and> 0 \<le> n \<and> n < 2147483648 \<and>
    DynArrayGet d n = Inr None \<and>
    (\<forall>i. 0 \<le> i \<and> i < n \<longrightarrow> (\<exists>p. DynArrayGet d i = Inr (Some p))) \<and>
    (\<forall>j \<in> {-2147483648..<2147483648}. DynArrayGet d' j = DynArrayGet d j)"
proof -
  have inv: "dyn_inv d" using assms by (rule dyn_reachable_inv)
  obtain n d' where n: "DynArrayFirstAvail d = Inr (n, d')" "dyn_inv d'" "dyn_lookup d' = dyn_lookup d"
      "0 \<le> n" "dyn_lookup d n = None" "\<And>i. 0 \<le> i \<Longrightarrow> i < n \<Longrightarrow> dyn_lookup d i \<noteq> None"
    by (rule DynArrayFirstAvail_spec [OF inv]) blast
  have lt: "n < 2147483648"
  proof (rule ccontr)
    assume "\<not> n < 2147483648"
    then have "dyn_lookup d 2147483647 \<noteq> None" by (intro n(6)) auto
    then show False using inv by (auto simp: dyn_lookup_def dyn_inv_def split: if_splits)
  qed
  have "\<exists>p. DynArrayGet d i = Inr (Some p)" if "0 \<le> i" "i < n" for i
    using n(6) [OF that] that lt inv by (simp add: DynArrayGet_lookup)
  then show ?thesis
    using n lt inv by (intro exI [of _ n] exI [of _ d'] conjI) (auto simp: DynArrayGet_lookup)
qed

text \<open>A concrete array: two slots, then slot 5 is set, so the array grows to 8.\<close>

definition dyn_demo :: "nat DynArray" where
  "dyn_demo = \<lparr>num_entries = 0, ptr_array = [None, None], ptr_array_space = 2,
               available = [0], avail_ix = 0\<rparr>"

definition dyn_demo5 :: "nat DynArray" where
  "dyn_demo5 = \<lparr>num_entries = 6, ptr_array = [None, None, None, None, None, Some 7, None, None],
                ptr_array_space = 8, available = [32], avail_ix = 0\<rparr>"

lemma dyn_demo_reachable: "dyn_reachable dyn_demo"
  by (rule dyn_reachable.ctor [of True True 2])
    (simp_all add: DynArrayCtor_def dyn_demo_def BitsToAllocWords_eq slot_limit_def numeral_2_eq_2)

lemma dyn_demo_set: "DynArraySet True True dyn_demo 5 (Some 7) = Inr (1, dyn_demo5)"
  by code_simp

lemma dyn_demo5_reachable: "dyn_reachable dyn_demo5"
  by (rule dyn_reachable.set [OF dyn_demo_reachable _ _ dyn_demo_set]) (simp_all add: slot_limit_def)

theorem DynArraySet_then_Get_witness:
  "DynArrayGet dyn_demo5 5 = Inr (Some 7) \<and> DynArrayGet dyn_demo5 4 = DynArrayGet dyn_demo 4"
  using DynArraySet_then_Get [OF dyn_demo_reachable _ _ dyn_demo_set, of 5]
    DynArraySet_then_Get [OF dyn_demo_reachable _ _ dyn_demo_set, of 4]
  by (simp add: slot_limit_def)

theorem DynArraySet_safe_witness:
  "\<exists>r d'. DynArraySet False True dyn_demo 5 (Some 7) = Inr (r, d') \<and>
    (r = 1 \<or> r = 0 \<and> (\<forall>j \<in> {-2147483648..<2147483648}. DynArrayGet d' j = DynArrayGet dyn_demo j))"
  using DynArraySet_safe [OF dyn_demo_reachable, of 5 False True "Some 7"] by (auto simp: slot_limit_def)

theorem DynArrayFirstAvail_least_witness:
  "\<exists>n d'. DynArrayFirstAvail dyn_demo5 = Inr (n, d') \<and> DynArrayGet dyn_demo5 n = Inr None"
  using DynArrayFirstAvail_least [OF dyn_demo5_reachable] by blast

end
