(* ===== verification/Desc_Refs.thy ===== *)
theory Desc_Refs
  imports Nacl_Prelude
begin

text \<open>
  The reference counts of descriptors (desc/nacl\_desc\_base.c). A pointer is a \<open>nat\<close>; the
  heap of descriptors maps a live object to its \<open>ref_count\<close> and a freed one to \<open>None\<close>, so
  that a use after free is a fault. The invariant \<open>refs_ok\<close> says that every count is the
  number of references that exist; the descriptor table (theory App\_Tables) and the memory
  map (theory Vmmap) keep it.
\<close>

section \<open>Reference counts\<close>

definition NaClDescRef :: "(nat \<Rightarrow> u32 option) \<Rightarrow> nat \<Rightarrow> (nat \<Rightarrow> u32 option) result" where
  "NaClDescRef h ndp = (case h ndp of
      None \<Rightarrow> Inl OutOfBounds
    | Some n \<Rightarrow> if n + 1 = 0 then Inl LogFatal else Inr (h(ndp \<mapsto> n + 1)))"

definition NaClDescUnref :: "(nat \<Rightarrow> u32 option) \<Rightarrow> nat \<Rightarrow> (nat \<Rightarrow> u32 option) result" where
  "NaClDescUnref h ndp = (case h ndp of
      None \<Rightarrow> Inl OutOfBounds
    | Some n \<Rightarrow>
        if n = 0 then Inl LogFatal
        else if n - 1 = 0 then Inr (h(ndp := None))  \<comment> \<open>Dtor and free\<close>
        else Inr (h(ndp \<mapsto> n - 1)))"

section \<open>The reference-count invariant\<close>

text \<open>\<open>tot p\<close> is the number of references to \<open>p\<close> that exist: a live object's count, and none
  to a freed object.\<close>

definition refs_ok :: "(nat \<Rightarrow> nat) \<Rightarrow> (nat \<Rightarrow> u32 option) \<Rightarrow> bool" where
  "refs_ok tot h \<longleftrightarrow> (\<forall>p. case h p of None \<Rightarrow> tot p = 0 | Some n \<Rightarrow> 0 < unat n \<and> unat n = tot p)"

lemma refs_ok_live: "refs_ok tot h \<Longrightarrow> 0 < tot p \<Longrightarrow> \<exists>n. h p = Some n \<and> unat n = tot p"
  by (auto simp: refs_ok_def dest!: spec [of _ p] split: option.splits)

lemma refs_ok_upd:
  "refs_ok tot h \<Longrightarrow> case v of None \<Rightarrow> k = 0 | Some n \<Rightarrow> 0 < unat n \<and> unat n = k \<Longrightarrow>
    refs_ok (tot(p := k)) (h(p := v))"
  unfolding refs_ok_def
proof
  fix q
  assume all: "\<forall>q. case h q of None \<Rightarrow> tot q = 0 | Some n \<Rightarrow> 0 < unat n \<and> unat n = tot q"
    and v: "case v of None \<Rightarrow> k = 0 | Some n \<Rightarrow> 0 < unat n \<and> unat n = k"
  show "case (h(p := v)) q of None \<Rightarrow> (tot(p := k)) q = 0
      | Some n \<Rightarrow> 0 < unat n \<and> unat n = (tot(p := k)) q"
    using v all [rule_format, of q] by (cases "q = p") (auto split: option.splits)
qed

lemma unat_minus_1: "0 < unat n \<Longrightarrow> unat (n - 1) = unat n - 1" for n :: u32
  by (rule unat_minus_one) auto

text \<open>A reference taken or dropped by the runtime.\<close>

lemma NaClDescRef_ok:
  assumes ok: "refs_ok tot h" and live: "0 < tot p" and lim: "tot p < 4294967295"
  shows "\<exists>h'. NaClDescRef h p = Inr h' \<and> refs_ok (tot(p := Suc (tot p))) h'"
proof -
  obtain n where n: "h p = Some n" "unat n = tot p" using refs_ok_live [OF ok live] by blast
  have u: "unat (n + 1) = Suc (unat n)" using n(2) lim by (simp add: unat_word_ariths)
  then have "n + 1 \<noteq> 0" by auto
  then have "NaClDescRef h p = Inr (h(p \<mapsto> n + 1))" using n(1) by (simp add: NaClDescRef_def)
  moreover have "refs_ok (tot(p := Suc (tot p))) (h(p \<mapsto> n + 1))"
    by (rule refs_ok_upd [OF ok]) (use u n(2) in simp)
  ultimately show ?thesis by blast
qed

lemma NaClDescUnref_ok:
  assumes ok: "refs_ok tot h" and live: "0 < tot p"
  shows "\<exists>h'. NaClDescUnref h p = Inr h' \<and> refs_ok (tot(p := tot p - 1)) h'"
proof -
  obtain n where n: "h p = Some n" "unat n = tot p" using refs_ok_live [OF ok live] by blast
  have pos: "0 < unat n" and nz: "n \<noteq> 0" using n(2) live by auto
  show ?thesis
  proof (cases "n - 1 = 0")
    case True
    then have "tot p - 1 = 0" using unat_minus_1 [OF pos] n(2) by simp
    then have "refs_ok (tot(p := tot p - 1)) (h(p := None))"
      by (intro refs_ok_upd [OF ok]) simp
    then show ?thesis using True n(1) nz by (simp add: NaClDescUnref_def)
  next
    case False
    then have "0 < unat (n - 1)" by (simp add: unat_gt_0)
    then have "refs_ok (tot(p := tot p - 1)) (h(p \<mapsto> n - 1))"
      using n(2) unat_minus_1 [OF pos] by (intro refs_ok_upd [OF ok]) simp
    then show ?thesis using False n(1) nz by (simp add: NaClDescUnref_def)
  qed
qed

lemma NaClDescRef_Inr:
  assumes ok: "refs_ok tot h" and live: "0 < tot p" and res: "NaClDescRef h p = Inr h'"
  shows "refs_ok (tot(p := Suc (tot p))) h'"
proof -
  obtain n where n: "h p = Some n" "unat n = tot p" using refs_ok_live [OF ok live] by blast
  then have "n + 1 \<noteq> 0" "h' = h(p \<mapsto> n + 1)"
    using res by (auto simp: NaClDescRef_def split: if_splits)
  moreover from this(1) have "unat (n + 1) = Suc (unat n)"
    by (simp add: unatSuc add.commute)
  ultimately show ?thesis using n(2) by (auto intro: refs_ok_upd [OF ok])
qed

end
