(* ===== verification/App_Tables.thy ===== *)
theory App_Tables
  imports Dyn_Array Desc_Refs
begin

text \<open>
  The descriptor table and the thread table of a NaCl application
  (service\_runtime/sel\_ldr.c) with the reference counts of the descriptors
  (desc/nacl\_desc\_base.c). A pointer is a \<open>nat\<close>; \<open>refs\<close> maps a live descriptor object
  to its \<open>ref_count\<close> and a freed one to \<open>None\<close>. The two mutexes are the flags
  \<open>desc_mu\<close> and \<open>threads_mu\<close>: locking a held mutex blocks for ever.
\<close>

section \<open>State\<close>

record NaClApp =
  desc_tbl :: "nat DynArray"
  threads :: "nat DynArray"
  num_threads :: int
  desc_mu :: bool
  threads_mu :: bool
  refs :: "nat \<Rightarrow> u32 option"

section \<open>Descriptor table\<close>

definition NaClGetDescMu :: "NaClApp \<Rightarrow> int \<Rightarrow> (nat option \<times> NaClApp) result" where
  "NaClGetDescMu nap d =
     bind_result (DynArrayGet (desc_tbl nap) d) (\<lambda>res. case res of
        None \<Rightarrow> Inr (None, nap)
      | Some ndp \<Rightarrow> bind_result (NaClDescRef (refs nap) ndp)
                      (\<lambda>h. Inr (Some ndp, nap\<lparr>refs := h\<rparr>)))"

definition NaClSetDescMu :: "bool \<Rightarrow> bool \<Rightarrow> NaClApp \<Rightarrow> int \<Rightarrow> nat option \<Rightarrow> NaClApp result" where
  "NaClSetDescMu ok1 ok2 nap d ndp =
     bind_result (DynArrayGet (desc_tbl nap) d) (\<lambda>res.
     bind_result (case res of None \<Rightarrow> Inr (refs nap) | Some old \<Rightarrow> NaClDescUnref (refs nap) old) (\<lambda>h.
     bind_result (DynArraySet ok1 ok2 (desc_tbl nap) d ndp) (\<lambda>(r, t).
        if r = 0 then Inl LogFatal else Inr (nap\<lparr>desc_tbl := t, refs := h\<rparr>))))"

definition NaClSetAvailMu :: "bool \<Rightarrow> bool \<Rightarrow> NaClApp \<Rightarrow> nat \<Rightarrow> (int \<times> NaClApp) result" where
  "NaClSetAvailMu ok1 ok2 nap ndp =
     bind_result (DynArrayFirstAvail (desc_tbl nap)) (\<lambda>(pos, t).
        if pos < 0 then Inl LogFatal
        else bind_result (NaClSetDescMu ok1 ok2 (nap\<lparr>desc_tbl := t\<rparr>) pos (Some ndp))
               (\<lambda>nap'. Inr (pos, nap')))"

definition with_desc_mu :: "NaClApp \<Rightarrow> (NaClApp \<Rightarrow> ('a \<times> NaClApp) result) \<Rightarrow> ('a \<times> NaClApp) result" where
  "with_desc_mu nap f =
     (if desc_mu nap then Inl Diverges
      else bind_result (f (nap\<lparr>desc_mu := True\<rparr>)) (\<lambda>(a, nap'). Inr (a, nap'\<lparr>desc_mu := False\<rparr>)))"

definition NaClGetDesc :: "NaClApp \<Rightarrow> int \<Rightarrow> (nat option \<times> NaClApp) result" where
  "NaClGetDesc nap d = with_desc_mu nap (\<lambda>nap. NaClGetDescMu nap d)"

definition NaClSetDesc :: "bool \<Rightarrow> bool \<Rightarrow> NaClApp \<Rightarrow> int \<Rightarrow> nat option \<Rightarrow> (unit \<times> NaClApp) result" where
  "NaClSetDesc ok1 ok2 nap d ndp =
     with_desc_mu nap (\<lambda>nap. bind_result (NaClSetDescMu ok1 ok2 nap d ndp) (\<lambda>nap'. Inr ((), nap')))"

definition NaClSetAvail :: "bool \<Rightarrow> bool \<Rightarrow> NaClApp \<Rightarrow> nat \<Rightarrow> (int \<times> NaClApp) result" where
  "NaClSetAvail ok1 ok2 nap ndp = with_desc_mu nap (\<lambda>nap. NaClSetAvailMu ok1 ok2 nap ndp)"

section \<open>Thread table\<close>

definition NaClAddThreadMu :: "bool \<Rightarrow> bool \<Rightarrow> NaClApp \<Rightarrow> nat \<Rightarrow> (int \<times> NaClApp) result" where
  "NaClAddThreadMu ok1 ok2 nap natp =
     bind_result (DynArrayFirstAvail (threads nap)) (\<lambda>(pos, t).
        if pos < 0 then Inl LogFatal
        else bind_result (DynArraySet ok1 ok2 t pos (Some natp)) (\<lambda>(r, t').
          if r = 0 then Inl LogFatal
          else Inr (pos, nap\<lparr>threads := t', num_threads := wrap32 (num_threads nap + 1)\<rparr>)))"

definition with_threads_mu ::
    "NaClApp \<Rightarrow> (NaClApp \<Rightarrow> ('a \<times> NaClApp) result) \<Rightarrow> ('a \<times> NaClApp) result" where
  "with_threads_mu nap f =
     (if threads_mu nap then Inl Diverges
      else bind_result (f (nap\<lparr>threads_mu := True\<rparr>))
             (\<lambda>(a, nap'). Inr (a, nap'\<lparr>threads_mu := False\<rparr>)))"

definition NaClAddThread :: "bool \<Rightarrow> bool \<Rightarrow> NaClApp \<Rightarrow> nat \<Rightarrow> (int \<times> NaClApp) result" where
  "NaClAddThread ok1 ok2 nap natp = with_threads_mu nap (\<lambda>nap. NaClAddThreadMu ok1 ok2 nap natp)"

definition NaClRemoveThreadMu :: "bool \<Rightarrow> bool \<Rightarrow> NaClApp \<Rightarrow> int \<Rightarrow> NaClApp result" where
  "NaClRemoveThreadMu ok1 ok2 nap thread_num =
     bind_result (DynArrayGet (threads nap) thread_num) (\<lambda>res.
        if res = None then Inl LogFatal
        else if num_threads nap = 0 then Inl LogFatal
        else bind_result (DynArraySet ok1 ok2 (threads nap) thread_num None) (\<lambda>(r, t).
          if r = 0 then Inl LogFatal
          else Inr (nap\<lparr>threads := t, num_threads := wrap32 (num_threads nap - 1)\<rparr>)))"

definition NaClRemoveThread :: "bool \<Rightarrow> bool \<Rightarrow> NaClApp \<Rightarrow> int \<Rightarrow> (unit \<times> NaClApp) result" where
  "NaClRemoveThread ok1 ok2 nap thread_num =
     with_threads_mu nap (\<lambda>nap. bind_result (NaClRemoveThreadMu ok1 ok2 nap thread_num)
                                   (\<lambda>nap'. Inr ((), nap')))"

definition NaClGetThreadMu :: "NaClApp \<Rightarrow> int \<Rightarrow> nat option result" where
  "NaClGetThreadMu nap thread_num = DynArrayGet (threads nap) thread_num"

lemmas locked_defs = with_desc_mu_def with_threads_mu_def NaClGetDesc_def NaClSetDesc_def
  NaClSetAvail_def NaClAddThread_def NaClRemoveThread_def

section \<open>The reference-count invariant\<close>

text \<open>How many table entries hold a descriptor; with the references that the rest of the
  runtime holds (\<open>ext\<close>) that is a live object's count, and a freed object has none.\<close>

definition holders :: "(int \<Rightarrow> nat option) \<Rightarrow> nat \<Rightarrow> nat" where
  "holders f p = card {i. f i = Some p}"

definition ref_total :: "(nat \<Rightarrow> nat) \<Rightarrow> (int \<Rightarrow> nat option) \<Rightarrow> nat \<Rightarrow> nat" where
  "ref_total ext f p = holders f p + ext p"

definition app_inv :: "(nat \<Rightarrow> nat) \<Rightarrow> NaClApp \<Rightarrow> bool" where
  "app_inv ext nap \<longleftrightarrow> dyn_inv (desc_tbl nap) \<and> dyn_inv (threads nap) \<and>
     refs_ok (ref_total ext (dyn_lookup (desc_tbl nap))) (refs nap) \<and>
     num_threads nap = int (card {i. dyn_lookup (threads nap) i \<noteq> None})"

lemma holders_upd:
  assumes "finite {i. f i \<noteq> None}"
  shows "holders (f(d := x)) p + (if f d = Some p then 1 else 0) =
    holders f p + (if x = Some p then 1 else 0)"
proof -
  have fin: "finite {i. f i = Some p}" by (rule finite_subset [OF _ assms]) auto
  have "{i. (f(d := x)) i = Some p} =
      (if x = Some p then insert d ({i. f i = Some p} - {d}) else {i. f i = Some p} - {d})"
    by auto
  moreover have "card ({i. f i = Some p} - {d}) + (if f d = Some p then 1 else 0) = card {i. f i = Some p}"
    using fin card_Suc_Diff1 [of "{i. f i = Some p}" d] by (cases "f d = Some p") auto
  moreover have "card (insert d ({i. f i = Some p} - {d})) = Suc (card ({i. f i = Some p} - {d}))"
    using fin by (subst card_insert_disjoint) simp_all
  ultimately show ?thesis unfolding holders_def by (cases "x = Some p") simp_all
qed

lemma holders_pos:
  assumes "finite {i. f i \<noteq> None}" "f d = Some p"
  shows "0 < holders f p"
proof -
  have "finite {i. f i = Some p}" by (rule finite_subset [OF _ assms(1)]) auto
  then show ?thesis using assms(2) by (auto simp: holders_def card_gt_0_iff)
qed

section \<open>The operations keep the invariant\<close>

definition take_ref :: "nat option \<Rightarrow> (nat \<Rightarrow> nat) \<Rightarrow> nat \<Rightarrow> nat" where
  "take_ref ndp ext = (case ndp of None \<Rightarrow> ext | Some p \<Rightarrow> ext(p := Suc (ext p)))"

definition give_ref :: "nat option \<Rightarrow> (nat \<Rightarrow> nat) \<Rightarrow> nat \<Rightarrow> nat" where
  "give_ref ndp ext = (case ndp of None \<Rightarrow> ext | Some p \<Rightarrow> ext(p := ext p - 1))"

lemma NaClGetDescMu_ok:
  assumes inv: "app_inv ext nap" and d: "-2147483648 \<le> d" "d < 2147483648"
    and lim: "\<And>p. ref_total ext (dyn_lookup (desc_tbl nap)) p < 4294967295"
  shows "\<exists>nap'. NaClGetDescMu nap d = Inr (dyn_lookup (desc_tbl nap) d, nap') \<and>
    nap'\<lparr>refs := refs nap\<rparr> = nap \<and> app_inv (take_ref (dyn_lookup (desc_tbl nap) d) ext) nap'"
proof (cases "dyn_lookup (desc_tbl nap) d")
  case None
  then show ?thesis
    using inv d by (auto simp: NaClGetDescMu_def app_inv_def DynArrayGet_lookup take_ref_def)
next
  case (Some p)
  let ?f = "dyn_lookup (desc_tbl nap)"
  have "0 < ref_total ext ?f p" using holders_pos [OF dyn_lookup_finite Some] by (simp add: ref_total_def)
  then obtain h' where h': "NaClDescRef (refs nap) p = Inr h'"
      "refs_ok ((ref_total ext ?f)(p := Suc (ref_total ext ?f p))) h'"
    using NaClDescRef_ok [of "ref_total ext ?f" "refs nap" p] inv lim [of p] by (auto simp: app_inv_def)
  moreover have "(ref_total ext ?f)(p := Suc (ref_total ext ?f p)) = ref_total (take_ref (Some p) ext) ?f"
    by (auto simp: ref_total_def take_ref_def fun_eq_iff)
  ultimately show ?thesis
    using inv d Some by (auto simp: NaClGetDescMu_def app_inv_def DynArrayGet_lookup)
qed

text \<open>A store gives the table the caller's reference to the new descriptor and releases
  the table's reference to the old one.\<close>

lemma ref_total_store:
  assumes "\<And>p. ndp = Some p \<Longrightarrow> 0 < ext p" and fin: "finite {i. f i \<noteq> None}"
  shows "ref_total (give_ref ndp ext) (f(d := ndp)) p + (if f d = Some p then 1 else 0) = ref_total ext f p"
proof -
  have "give_ref ndp ext p + (if ndp = Some p then 1 else 0) = ext p"
  proof (cases ndp)
    case (Some q)
    then show ?thesis using assms(1) [of q] by (auto simp: give_ref_def)
  qed (simp add: give_ref_def)
  then show ?thesis
    using holders_upd [OF fin, of d ndp p] unfolding ref_total_def by linarith
qed

lemma unref_stored:
  assumes ok: "refs_ok (ref_total ext f) h" and fin: "finite {i. f i \<noteq> None}"
    and own: "\<And>p. ndp = Some p \<Longrightarrow> 0 < ext p"
  shows "\<exists>h'. (case f d of None \<Rightarrow> Inr h | Some old \<Rightarrow> NaClDescUnref h old) = Inr h' \<and>
    refs_ok (ref_total (give_ref ndp ext) (f(d := ndp))) h'"
proof -
  let ?t = "ref_total (give_ref ndp ext) (f(d := ndp))"
  have sum: "?t p + (if f d = Some p then 1 else 0) = ref_total ext f p" for p
    by (rule ref_total_store [OF own fin])
  show ?thesis
  proof (cases "f d")
    case None
    then have "?t = ref_total ext f" using sum by (simp add: fun_eq_iff)
    then show ?thesis using None ok by simp
  next
    case (Some old)
    have "?t = (ref_total ext f)(old := ref_total ext f old - 1)"
    proof
      show "?t p = ((ref_total ext f)(old := ref_total ext f old - 1)) p" for p
        using sum [of p] Some by (auto split: if_splits)
    qed
    moreover have "0 < ref_total ext f old" using holders_pos [OF fin Some] by (simp add: ref_total_def)
    ultimately show ?thesis using NaClDescUnref_ok [OF ok] Some by simp
  qed
qed

lemma NaClSetDescMu_ok:
  assumes inv: "app_inv ext nap" and d: "0 \<le> d" "d < slot_limit"
    and own: "\<And>p. ndp = Some p \<Longrightarrow> 0 < ext p"
  shows "(\<exists>t h. NaClSetDescMu ok1 ok2 nap d ndp = Inr (nap\<lparr>desc_tbl := t, refs := h\<rparr>) \<and>
      app_inv (give_ref ndp ext) (nap\<lparr>desc_tbl := t, refs := h\<rparr>) \<and>
      dyn_lookup t = (dyn_lookup (desc_tbl nap))(d := ndp)) \<or>
    NaClSetDescMu ok1 ok2 nap d ndp = Inl LogFatal \<and> \<not> (ok1 \<and> ok2)"
proof -
  define f where "f = dyn_lookup (desc_tbl nap)"
  have di: "dyn_inv (desc_tbl nap)" and ok: "refs_ok (ref_total ext f) (refs nap)"
    using inv by (simp_all add: app_inv_def f_def)
  have get: "DynArrayGet (desc_tbl nap) d = Inr (f d)"
    unfolding f_def using di d by (intro DynArrayGet_lookup) (auto simp: slot_limit_def)
  obtain r t where r: "DynArraySet ok1 ok2 (desc_tbl nap) d ndp = Inr (r, t)" "dyn_inv t"
      "r \<noteq> 0 \<Longrightarrow> dyn_lookup t = f(d := ndp)" "ok1 \<Longrightarrow> ok2 \<Longrightarrow> r = 1"
    unfolding f_def by (rule DynArraySet_spec [OF di d, of ok1 ok2 ndp]) blast
  have "finite {i. f i \<noteq> None}" unfolding f_def by (rule dyn_lookup_finite)
  then obtain h' where h': "(case f d of None \<Rightarrow> Inr (refs nap) | Some old \<Rightarrow> NaClDescUnref (refs nap) old) = Inr h'"
      "refs_ok (ref_total (give_ref ndp ext) (f(d := ndp))) h'"
    using unref_stored [OF ok _ own] by blast
  show ?thesis
  proof (cases "r = 0")
    case True
    then have "\<not> (ok1 \<and> ok2)" using r(4) by auto
    then show ?thesis using True r(1) h'(1) get by (simp add: NaClSetDescMu_def)
  next
    case False
    then have "NaClSetDescMu ok1 ok2 nap d ndp = Inr (nap\<lparr>desc_tbl := t, refs := h'\<rparr>)"
      using r(1) h'(1) get by (simp add: NaClSetDescMu_def)
    moreover have "app_inv (give_ref ndp ext) (nap\<lparr>desc_tbl := t, refs := h'\<rparr>)"
      using r(2,3) False h'(2) inv by (simp add: app_inv_def)
    ultimately show ?thesis using r(3) False f_def by blast
  qed
qed


section \<open>The thread table\<close>

lemma first_slot_bound:
  assumes "dyn_inv t" "DynArrayFirstAvail t = Inr (n, t')"
    and room: "int (card {i. dyn_lookup t i \<noteq> None}) < slot_limit"
  shows "0 \<le> n" "n < slot_limit"
proof -
  show "0 \<le> n" using da.first_avail_nonneg assms(1,2) by blast
  have "{0..<n} \<subseteq> {i. dyn_lookup t i \<noteq> None}"
    using da.first_avail_least [OF assms(1,2)] by (auto simp: subset_iff)
  then have "card {0..<n} \<le> card {i. dyn_lookup t i \<noteq> None}"
    by (rule card_mono [OF dyn_lookup_finite])
  then show "n < slot_limit" using room by simp
qed

lemma NaClAddThreadMu_ok:
  assumes inv: "app_inv ext nap" and room: "num_threads nap < slot_limit"
  shows "(\<exists>pos t. NaClAddThreadMu ok1 ok2 nap natp =
        Inr (pos, nap\<lparr>threads := t, num_threads := num_threads nap + 1\<rparr>) \<and>
      app_inv ext (nap\<lparr>threads := t, num_threads := num_threads nap + 1\<rparr>) \<and>
      dyn_lookup (threads nap) pos = None \<and> dyn_lookup t = (dyn_lookup (threads nap))(pos := Some natp)) \<or>
    NaClAddThreadMu ok1 ok2 nap natp = Inl LogFatal \<and> \<not> (ok1 \<and> ok2)"
proof -
  have ti: "dyn_inv (threads nap)"
    and cnt: "num_threads nap = int (card {i. dyn_lookup (threads nap) i \<noteq> None})"
    using inv by (simp_all add: app_inv_def)
  obtain n t1 where fa: "DynArrayFirstAvail (threads nap) = Inr (n, t1)"
    using da.first_avail_total [OF ti] by blast
  have n: "0 \<le> n" "n < slot_limit" using first_slot_bound [OF ti fa] room cnt by simp_all
  have t1: "dyn_inv t1" using da.first_avail_inv [OF ti fa] .
  obtain r t2 where r: "DynArraySet ok1 ok2 t1 n (Some natp) = Inr (r, t2)"
      "ok1 \<Longrightarrow> ok2 \<Longrightarrow> r = 1"
    by (rule DynArraySet_spec [OF t1 n, of ok1 ok2 "Some natp"]) blast
  show ?thesis
  proof (cases "r = 0")
    case True
    then have "\<not> (ok1 \<and> ok2)" using r(2) by auto
    then show ?thesis using True r(1) fa n by (simp add: NaClAddThreadMu_def)
  next
    case False
    note slot = da.alloc_slot [OF ti fa n(2) r(1) False]
    have w: "wrap32 (num_threads nap + 1) = num_threads nap + 1"
      using room cnt by (intro wrap32_id) (auto simp: slot_limit_def)
    have "NaClAddThreadMu ok1 ok2 nap natp =
        Inr (n, nap\<lparr>threads := t2, num_threads := num_threads nap + 1\<rparr>)"
      using False r(1) fa n w by (simp add: NaClAddThreadMu_def)
    moreover have "app_inv ext (nap\<lparr>threads := t2, num_threads := num_threads nap + 1\<rparr>)"
      using inv slot(1) cnt da.used_slots_add [OF ti slot(4) slot(2)] by (simp add: app_inv_def)
    ultimately show ?thesis using slot(2,4) by blast
  qed
qed

lemma NaClRemoveThreadMu_ok:
  assumes inv: "app_inv ext nap" and d: "0 \<le> d" "d < slot_limit"
    and room: "num_threads nap < slot_limit"
    and used: "dyn_lookup (threads nap) d \<noteq> None"
  shows "(\<exists>t. NaClRemoveThreadMu ok1 ok2 nap d =
        Inr (nap\<lparr>threads := t, num_threads := num_threads nap - 1\<rparr>) \<and>
      app_inv ext (nap\<lparr>threads := t, num_threads := num_threads nap - 1\<rparr>) \<and>
      dyn_lookup t = (dyn_lookup (threads nap))(d := None)) \<or>
    NaClRemoveThreadMu ok1 ok2 nap d = Inl LogFatal \<and> \<not> (ok1 \<and> ok2)"
proof -
  have ti: "dyn_inv (threads nap)"
    and cnt: "num_threads nap = int (card {i. dyn_lookup (threads nap) i \<noteq> None})"
    using inv by (simp_all add: app_inv_def)
  have get: "DynArrayGet (threads nap) d = Inr (dyn_lookup (threads nap) d)"
    using ti d by (intro DynArrayGet_lookup) (auto simp: slot_limit_def)
  have pos: "0 < num_threads nap"
    using used cnt dyn_lookup_finite [of "threads nap"] by (auto simp: card_gt_0_iff)
  have w: "wrap32 (num_threads nap - 1) = num_threads nap - 1"
    using pos room by (intro wrap32_id) (auto simp: slot_limit_def)
  obtain r t2 where r: "DynArraySet ok1 ok2 (threads nap) d None = Inr (r, t2)" "dyn_inv t2"
      "r \<noteq> 0 \<Longrightarrow> dyn_lookup t2 = (dyn_lookup (threads nap))(d := None)"
      "ok1 \<Longrightarrow> ok2 \<Longrightarrow> r = 1"
    by (rule DynArraySet_spec [OF ti d, of ok1 ok2 None]) blast
  show ?thesis
  proof (cases "r = 0")
    case True
    then have "\<not> (ok1 \<and> ok2)" using r(4) by auto
    then show ?thesis using True r(1) get used pos by (simp add: NaClRemoveThreadMu_def)
  next
    case False
    note l = r(3) [OF False]
    have "NaClRemoveThreadMu ok1 ok2 nap d =
        Inr (nap\<lparr>threads := t2, num_threads := num_threads nap - 1\<rparr>)"
      using False r(1) get used pos w by (simp add: NaClRemoveThreadMu_def)
    moreover have "int (card {i. dyn_lookup t2 i \<noteq> None}) = num_threads nap - 1"
      using cnt da.used_slots_remove [OF ti used l] by linarith
    then have "app_inv ext (nap\<lparr>threads := t2, num_threads := num_threads nap - 1\<rparr>)"
      using inv r(2) by (simp add: app_inv_def)
    ultimately show ?thesis using l by blast
  qed
qed

lemma NaClSetAvailMu_ok:
  assumes inv: "app_inv ext nap" and own: "0 < ext p"
    and room: "int (card {i. dyn_lookup (desc_tbl nap) i \<noteq> None}) < slot_limit"
  shows "(\<exists>pos t h. NaClSetAvailMu ok1 ok2 nap p = Inr (pos, nap\<lparr>desc_tbl := t, refs := h\<rparr>) \<and>
      app_inv (give_ref (Some p) ext) (nap\<lparr>desc_tbl := t, refs := h\<rparr>) \<and> 0 \<le> pos \<and>
      dyn_lookup (desc_tbl nap) pos = None \<and>
      (\<forall>i. 0 \<le> i \<and> i < pos \<longrightarrow> dyn_lookup (desc_tbl nap) i \<noteq> None) \<and>
      dyn_lookup t = (dyn_lookup (desc_tbl nap))(pos := Some p)) \<or>
    NaClSetAvailMu ok1 ok2 nap p = Inl LogFatal \<and> \<not> (ok1 \<and> ok2)"
proof -
  have ti: "dyn_inv (desc_tbl nap)" using inv by (simp add: app_inv_def)
  obtain n t1 where fa: "DynArrayFirstAvail (desc_tbl nap) = Inr (n, t1)"
    using da.first_avail_total [OF ti] by blast
  note n = first_slot_bound [OF ti fa room]
  note t1 = da.first_avail_inv [OF ti fa] da.first_avail_lookup [OF ti fa]
  have inv1: "app_inv ext (nap\<lparr>desc_tbl := t1\<rparr>)" using inv t1 by (simp add: app_inv_def)
  have eq: "NaClSetAvailMu ok1 ok2 nap p =
      bind_result (NaClSetDescMu ok1 ok2 (nap\<lparr>desc_tbl := t1\<rparr>) n (Some p)) (\<lambda>nap'. Inr (n, nap'))"
    using fa n by (simp add: NaClSetAvailMu_def)
  consider (ok) t h where
        "NaClSetDescMu ok1 ok2 (nap\<lparr>desc_tbl := t1\<rparr>) n (Some p) = Inr (nap\<lparr>desc_tbl := t, refs := h\<rparr>)"
        "app_inv (give_ref (Some p) ext) (nap\<lparr>desc_tbl := t, refs := h\<rparr>)"
        "dyn_lookup t = (dyn_lookup (desc_tbl nap))(n := Some p)"
    | (failed) "NaClSetDescMu ok1 ok2 (nap\<lparr>desc_tbl := t1\<rparr>) n (Some p) = Inl LogFatal" "\<not> (ok1 \<and> ok2)"
    using NaClSetDescMu_ok [OF inv1 n, of "Some p" ok1 ok2] own t1(2) by auto
  then show ?thesis
  proof cases
    case ok
    then show ?thesis
      using eq n(1) da.first_avail_free [OF ti fa] da.first_avail_least [OF ti fa] by auto
  qed (simp add: eq)
qed

section \<open>The applications a run can build\<close>

text \<open>
  \<open>NaClAppCtor\<close> makes both tables with two slots; then the runtime creates descriptor
  objects (a count of one, held outside the table), takes and drops references, and calls
  the table operations. \<open>ext p\<close> is the number of references to \<open>p\<close> held outside the table.
\<close>

inductive app_reachable :: "(nat \<Rightarrow> nat) \<Rightarrow> NaClApp \<Rightarrow> bool" where
  ctor: "DynArrayCtor ok1 ok2 2 = Some t \<Longrightarrow> DynArrayCtor ok3 ok4 2 = Some ths \<Longrightarrow>
    app_reachable (\<lambda>_. 0) \<lparr>desc_tbl = t, threads = ths, num_threads = 0, desc_mu = False,
      threads_mu = False, refs = \<lambda>_. None\<rparr>"
| new_desc: "app_reachable ext nap \<Longrightarrow> refs nap p = None \<Longrightarrow>
    app_reachable (ext(p := 1)) (nap\<lparr>refs := (refs nap)(p \<mapsto> 1)\<rparr>)"
| desc_ref: "app_reachable ext nap \<Longrightarrow> 0 < ext p \<Longrightarrow> NaClDescRef (refs nap) p = Inr h \<Longrightarrow>
    app_reachable (ext(p := ext p + 1)) (nap\<lparr>refs := h\<rparr>)"
| desc_unref: "app_reachable ext nap \<Longrightarrow> 0 < ext p \<Longrightarrow> NaClDescUnref (refs nap) p = Inr h \<Longrightarrow>
    app_reachable (ext(p := ext p - 1)) (nap\<lparr>refs := h\<rparr>)"
| get_desc: "app_reachable ext nap \<Longrightarrow> -2147483648 \<le> d \<Longrightarrow> d < 2147483648 \<Longrightarrow>
    NaClGetDesc nap d = Inr (res, nap') \<Longrightarrow> app_reachable (take_ref res ext) nap'"
| set_desc: "app_reachable ext nap \<Longrightarrow> 0 \<le> d \<Longrightarrow> d < slot_limit \<Longrightarrow>
    (\<And>p. ndp = Some p \<Longrightarrow> 0 < ext p) \<Longrightarrow> NaClSetDesc ok1 ok2 nap d ndp = Inr ((), nap') \<Longrightarrow>
    app_reachable (give_ref ndp ext) nap'"
| set_avail: "app_reachable ext nap \<Longrightarrow> 0 < ext p \<Longrightarrow>
    int (card {i. dyn_lookup (desc_tbl nap) i \<noteq> None}) < slot_limit \<Longrightarrow>
    NaClSetAvail ok1 ok2 nap p = Inr (d, nap') \<Longrightarrow> app_reachable (give_ref (Some p) ext) nap'"
| add_thread: "app_reachable ext nap \<Longrightarrow> num_threads nap < slot_limit \<Longrightarrow>
    NaClAddThread ok1 ok2 nap natp = Inr (d, nap') \<Longrightarrow> app_reachable ext nap'"
| remove_thread: "app_reachable ext nap \<Longrightarrow> 0 \<le> d \<Longrightarrow> d < slot_limit \<Longrightarrow>
    num_threads nap < slot_limit \<Longrightarrow> NaClRemoveThread ok1 ok2 nap d = Inr ((), nap') \<Longrightarrow>
    app_reachable ext nap'"

definition app_idle :: "NaClApp \<Rightarrow> bool" where
  "app_idle nap \<longleftrightarrow> \<not> desc_mu nap \<and> \<not> threads_mu nap"

lemma app_inv_mu [simp]:
  "app_inv ext (nap\<lparr>desc_mu := b\<rparr>) = app_inv ext nap"
  "app_inv ext (nap\<lparr>threads_mu := b\<rparr>) = app_inv ext nap"
  by (simp_all add: app_inv_def)


lemma ref_total_take: "(ref_total ext f)(p := Suc (ref_total ext f p)) = ref_total (ext(p := Suc (ext p))) f"
  by (auto simp: ref_total_def fun_eq_iff)

lemma ref_total_drop:
  "0 < ext p \<Longrightarrow> (ref_total ext f)(p := ref_total ext f p - 1) = ref_total (ext(p := ext p - 1)) f"
  by (auto simp: ref_total_def fun_eq_iff)

lemma entry_live:
  assumes "app_inv ext nap" "dyn_lookup (desc_tbl nap) d = Some p"
  shows "0 < ref_total ext (dyn_lookup (desc_tbl nap)) p" "\<exists>n. refs nap p = Some n"
proof -
  show pos: "0 < ref_total ext (dyn_lookup (desc_tbl nap)) p"
    using holders_pos [OF dyn_lookup_finite assms(2)] by (simp add: ref_total_def)
  have "refs_ok (ref_total ext (dyn_lookup (desc_tbl nap))) (refs nap)"
    using assms(1) by (simp add: app_inv_def)
  then show "\<exists>n. refs nap p = Some n" using refs_ok_live pos by blast
qed

lemma NaClGetDescMu_inv:
  assumes inv: "app_inv ext nap" and d: "-2147483648 \<le> d" "d < 2147483648"
    and res: "NaClGetDescMu nap d = Inr (r, nap')"
  shows "r = dyn_lookup (desc_tbl nap) d" "app_inv (take_ref r ext) nap'" "nap'\<lparr>refs := refs nap\<rparr> = nap"
proof -
  have get: "DynArrayGet (desc_tbl nap) d = Inr (dyn_lookup (desc_tbl nap) d)"
    using inv d by (intro DynArrayGet_lookup) (auto simp: app_inv_def)
  have "r = dyn_lookup (desc_tbl nap) d \<and> app_inv (take_ref r ext) nap' \<and> nap'\<lparr>refs := refs nap\<rparr> = nap"
  proof (cases "dyn_lookup (desc_tbl nap) d")
    case None
    then show ?thesis using res get inv by (auto simp: NaClGetDescMu_def take_ref_def)
  next
    case (Some p)
    then obtain h where h: "NaClDescRef (refs nap) p = Inr h" "r = Some p" "nap' = nap\<lparr>refs := h\<rparr>"
      using res get by (auto simp: NaClGetDescMu_def bind_result_eq_Inr)
    have "refs_ok (ref_total ext (dyn_lookup (desc_tbl nap))) (refs nap)"
      using inv by (simp add: app_inv_def)
    from NaClDescRef_Inr [OF this entry_live(1) [OF inv Some] h(1)]
    have "refs_ok (ref_total (ext(p := Suc (ext p))) (dyn_lookup (desc_tbl nap))) h"
      by (simp only: ref_total_take)
    then show ?thesis using h Some inv by (simp add: app_inv_def take_ref_def)
  qed
  then show "r = dyn_lookup (desc_tbl nap) d" "app_inv (take_ref r ext) nap'" "nap'\<lparr>refs := refs nap\<rparr> = nap"
    by blast+
qed

lemma with_desc_mu_Inr:
  "with_desc_mu nap f = Inr (a, nap') \<longleftrightarrow>
    \<not> desc_mu nap \<and> (\<exists>n. f (nap\<lparr>desc_mu := True\<rparr>) = Inr (a, n) \<and> nap' = n\<lparr>desc_mu := False\<rparr>)"
  by (auto simp: with_desc_mu_def bind_result_eq_Inr)

lemma with_threads_mu_Inr:
  "with_threads_mu nap f = Inr (a, nap') \<longleftrightarrow>
    \<not> threads_mu nap \<and> (\<exists>n. f (nap\<lparr>threads_mu := True\<rparr>) = Inr (a, n) \<and> nap' = n\<lparr>threads_mu := False\<rparr>)"
  by (auto simp: with_threads_mu_def bind_result_eq_Inr)

lemma DynArrayCtor_empty:
  assumes "DynArrayCtor ok1 ok2 2 = Some t"
  shows "dyn_inv t" "dyn_lookup t = (\<lambda>_. None)"
proof -
  show "dyn_inv t" using DynArrayCtor_inv(1) [OF assms] by simp
  show "dyn_lookup t = (\<lambda>_. None)"
    using assms by (auto simp: DynArrayCtor_def dyn_lookup_def fun_eq_iff Let_def split: if_splits)
qed

lemma app_reachable_inv: "app_reachable ext nap \<Longrightarrow> app_inv ext nap \<and> app_idle nap"
proof (induction rule: app_reachable.induct)
  case (ctor ok1 ok2 t ok3 ok4 ths)
  show ?case using DynArrayCtor_empty [OF ctor(1)] DynArrayCtor_empty [OF ctor(2)]
    by (simp add: app_inv_def app_idle_def refs_ok_def ref_total_def holders_def)
next
  case (new_desc ext nap p)
  let ?f = "dyn_lookup (desc_tbl nap)"
  have ok: "refs_ok (ref_total ext ?f) (refs nap)" using new_desc by (simp add: app_inv_def)
  have "ref_total ext ?f p = 0" using ok new_desc(2) by (auto simp: refs_ok_def dest!: spec [of _ p])
  then have "ref_total (ext(p := 1)) ?f = (ref_total ext ?f)(p := 1)"
    by (auto simp: ref_total_def fun_eq_iff)
  then have "refs_ok (ref_total (ext(p := 1)) ?f) ((refs nap)(p \<mapsto> 1))"
    by (metis (mono_tags, lifting) refs_ok_upd [OF ok] less_numeral_extra(1) option.simps(5) unat_1)
  then show ?case using new_desc by (simp add: app_inv_def app_idle_def fun_upd_def)
next
  case (desc_ref ext nap p h)
  have "refs_ok (ref_total (ext(p := Suc (ext p))) (dyn_lookup (desc_tbl nap))) h"
    using NaClDescRef_Inr [OF _ _ desc_ref(3), of "ref_total ext (dyn_lookup (desc_tbl nap))"] desc_ref
    by (simp add: ref_total_take app_inv_def) (simp add: ref_total_def)
  then show ?case using desc_ref by (simp add: app_inv_def app_idle_def fun_upd_def)
next
  case (desc_unref ext nap p h)
  have pos: "0 < ref_total ext (dyn_lookup (desc_tbl nap)) p" using desc_unref by (simp add: ref_total_def)
  have ok: "refs_ok (ref_total ext (dyn_lookup (desc_tbl nap))) (refs nap)"
    using desc_unref by (simp add: app_inv_def)
  have "refs_ok ((ref_total ext (dyn_lookup (desc_tbl nap)))
      (p := ref_total ext (dyn_lookup (desc_tbl nap)) p - 1)) h"
    using NaClDescUnref_ok [OF ok pos] desc_unref(3) by simp
  then have "refs_ok (ref_total (ext(p := ext p - 1)) (dyn_lookup (desc_tbl nap))) h"
    by (simp only: ref_total_drop [where ext = ext and p = p, OF desc_unref(2)])
  then show ?case using desc_unref by (simp add: app_inv_def app_idle_def fun_upd_def)
next
  case (get_desc ext nap d res nap')
  then obtain n where n: "NaClGetDescMu (nap\<lparr>desc_mu := True\<rparr>) d = Inr (res, n)"
      "nap' = n\<lparr>desc_mu := False\<rparr>"
    by (auto simp: NaClGetDesc_def with_desc_mu_Inr)
  have "app_inv ext (nap\<lparr>desc_mu := True\<rparr>)" using get_desc by simp
  note mu = NaClGetDescMu_inv(2,3) [OF this get_desc(2,3) n(1)]
  have "threads_mu n = threads_mu nap" using arg_cong [OF mu(2), of threads_mu] by simp
  then show ?case using n(2) mu(1) get_desc by (simp add: app_idle_def)
next
  case (set_desc ext nap d ndp ok1 ok2 nap')
  then show ?case
    using NaClSetDescMu_ok [of ext "nap\<lparr>desc_mu := True\<rparr>" d ndp ok1 ok2]
    by (auto simp: NaClSetDesc_def with_desc_mu_Inr bind_result_eq_Inr app_idle_def)
next
  case (set_avail ext nap p ok1 ok2 d nap')
  then show ?case
    using NaClSetAvailMu_ok [of ext "nap\<lparr>desc_mu := True\<rparr>" p ok1 ok2]
    by (auto simp: NaClSetAvail_def with_desc_mu_Inr app_idle_def)
next
  case (add_thread ext nap ok1 ok2 natp d nap')
  then show ?case
    using NaClAddThreadMu_ok [of ext "nap\<lparr>threads_mu := True\<rparr>" ok1 ok2 natp]
    by (auto simp: NaClAddThread_def with_threads_mu_Inr app_idle_def)
next
  case (remove_thread ext nap d ok1 ok2 nap')
  then obtain n where n: "NaClRemoveThreadMu ok1 ok2 (nap\<lparr>threads_mu := True\<rparr>) d = Inr n"
      "nap' = n\<lparr>threads_mu := False\<rparr>"
    by (auto simp: NaClRemoveThread_def with_threads_mu_Inr bind_result_eq_Inr)
  have "dyn_lookup (threads nap) d \<noteq> None"
  proof
    assume "dyn_lookup (threads nap) d = None"
    then have "DynArrayGet (threads nap) d = Inr None"
      using remove_thread by (subst DynArrayGet_lookup) (auto simp: app_inv_def slot_limit_def)
    then show False using n(1) by (simp add: NaClRemoveThreadMu_def)
  qed
  then show ?case
    using NaClRemoveThreadMu_ok [of ext "nap\<lparr>threads_mu := True\<rparr>" d ok1 ok2] remove_thread n
    by (auto simp: app_idle_def)
qed


section \<open>Properties\<close>

text \<open>C12: The reference count of every live descriptor is exactly the number of table slots
  that hold it plus the references held outside the table, and a freed descriptor is in no
  slot: along every sequence of descriptor and thread operations.\<close>

theorem app_refcounts:
  assumes "app_reachable ext nap"
  shows "case refs nap p of
      Some n \<Rightarrow> unat n = card {d. dyn_lookup (desc_tbl nap) d = Some p} + ext p \<and> 0 < unat n
    | None \<Rightarrow> (\<forall>d. dyn_lookup (desc_tbl nap) d \<noteq> Some p) \<and> ext p = 0"
proof -
  have inv: "app_inv ext nap" using app_reachable_inv [OF assms] by simp
  then have "case refs nap p of None \<Rightarrow> ref_total ext (dyn_lookup (desc_tbl nap)) p = 0
      | Some n \<Rightarrow> 0 < unat n \<and> unat n = ref_total ext (dyn_lookup (desc_tbl nap)) p"
    by (simp add: app_inv_def refs_ok_def)
  then show ?thesis
    using entry_live(2) [OF inv]
    by (cases "refs nap p") (fastforce simp: ref_total_def holders_def)+
qed

text \<open>C16: \<open>NaClGetDesc\<close> never touches a freed descriptor. For an empty slot it returns NULL and
  changes nothing. For the descriptor \<open>p\<close> of an occupied slot, whose count \<open>n\<close> is the number of its owners
  (slots of the table and outside references), it returns \<open>p\<close> and adds one to the count, and to nothing
  else; it aborts exactly when the count would overflow 32 bits. Both mutexes are released again.\<close>

theorem NaClGetDesc_safe:
  assumes "app_reachable ext nap" "-2147483648 \<le> d" "d < 2147483648"
  shows "app_idle nap \<and>
    (case dyn_lookup (desc_tbl nap) d of
       None \<Rightarrow> NaClGetDesc nap d = Inr (None, nap)
     | Some p \<Rightarrow> \<exists>n. refs nap p = Some n \<and> 0 < unat n \<and>
         unat n = card {i. dyn_lookup (desc_tbl nap) i = Some p} + ext p \<and>
         NaClGetDesc nap d =
           (if unat n = 4294967295 then Inl LogFatal else Inr (Some p, nap\<lparr>refs := (refs nap)(p \<mapsto> n + 1)\<rparr>)))"
proof -
  have inv: "app_inv ext nap" "app_idle nap" using app_reachable_inv [OF assms(1)] by auto
  have mu: "\<not> desc_mu nap" using inv by (simp add: app_idle_def)
  have get: "DynArrayGet (desc_tbl nap) d = Inr (dyn_lookup (desc_tbl nap) d)"
    using inv assms(2,3) by (intro DynArrayGet_lookup) (auto simp: app_inv_def)
  show ?thesis
  proof (cases "dyn_lookup (desc_tbl nap) d")
    case None
    then have "NaClGetDesc nap d = Inr (None, nap)"
      using get mu by (simp add: NaClGetDesc_def with_desc_mu_def NaClGetDescMu_def)
    then show ?thesis using inv(2) None by simp
  next
    case (Some p)
    have "refs_ok (ref_total ext (dyn_lookup (desc_tbl nap))) (refs nap)" using inv(1) by (simp add: app_inv_def)
    then obtain n where n: "refs nap p = Some n" "unat n = ref_total ext (dyn_lookup (desc_tbl nap)) p"
      using refs_ok_live entry_live(1) [OF inv(1) Some] by blast
    have "n + 1 = 0 \<longleftrightarrow> unat n = 4294967295"
    proof -
      have "(- 1 :: u32) = 0xffffffff" by simp
      then have "unat (- 1 :: u32) = unat (0xffffffff :: u32)" by (rule arg_cong)
      also have "\<dots> = 4294967295" by simp
      finally have "unat (- 1 :: u32) = 4294967295" .
      then have "n = - 1 \<longleftrightarrow> unat n = 4294967295" by (metis word_unat_eq_iff)
      then show ?thesis by (simp only: eq_neg_iff_add_eq_0)
    qed
    then have "NaClGetDesc nap d =
        (if unat n = 4294967295 then Inl LogFatal else Inr (Some p, nap\<lparr>refs := (refs nap)(p \<mapsto> n + 1)\<rparr>))"
      using get mu Some n by (simp add: NaClGetDesc_def with_desc_mu_def NaClGetDescMu_def NaClDescRef_def)
    then show ?thesis
      using inv(2) Some n entry_live(1) [OF inv(1) Some] by (simp add: ref_total_def holders_def)
  qed
qed

text \<open>An empty slot is filled without touching a count.\<close>

lemma NaClSetAvailMu_refs:
  assumes inv: "app_inv ext nap" and room: "int (card {i. dyn_lookup (desc_tbl nap) i \<noteq> None}) < slot_limit"
    and res: "NaClSetAvailMu ok1 ok2 nap p = Inr (d, nap')"
  shows "refs nap' = refs nap"
proof -
  have ti: "dyn_inv (desc_tbl nap)" using inv by (simp add: app_inv_def)
  obtain t1 where fa: "DynArrayFirstAvail (desc_tbl nap) = Inr (d, t1)" and
      set: "NaClSetDescMu ok1 ok2 (nap\<lparr>desc_tbl := t1\<rparr>) d (Some p) = Inr nap'"
    using res by (auto simp: NaClSetAvailMu_def bind_result_eq_Inr split: if_splits)
  note n = first_slot_bound [OF ti fa room]
  have "DynArrayGet t1 d = Inr (dyn_lookup t1 d)"
    using n da.first_avail_inv [OF ti fa] by (intro DynArrayGet_lookup) (auto simp: slot_limit_def)
  moreover have "dyn_lookup t1 d = None" using da.first_avail_lookup [OF ti fa] da.first_avail_free [OF ti fa] by simp
  ultimately show ?thesis using set by (auto simp: NaClSetDescMu_def bind_result_eq_Inr split: if_splits)
qed

text \<open>C17: \<open>NaClSetAvail\<close> stores the descriptor at the lowest empty slot and returns its
  number. Nothing else changes: every other slot, every reference count (the caller's reference
  becomes the table's), the thread table and the mutexes are as before. It aborts only when memory
  runs out.\<close>

theorem NaClSetAvail_lowest:
  assumes "app_reachable ext nap" "0 < ext p"
    and "int (card {i. dyn_lookup (desc_tbl nap) i \<noteq> None}) < slot_limit"
  shows "(\<exists>d t. NaClSetAvail ok1 ok2 nap p = Inr (d, nap\<lparr>desc_tbl := t\<rparr>) \<and> 0 \<le> d \<and>
      dyn_lookup (desc_tbl nap) d = None \<and>
      (\<forall>i. 0 \<le> i \<and> i < d \<longrightarrow> dyn_lookup (desc_tbl nap) i \<noteq> None) \<and>
      dyn_lookup t = (dyn_lookup (desc_tbl nap))(d := Some p) \<and>
      app_inv (ext(p := ext p - 1)) (nap\<lparr>desc_tbl := t\<rparr>)) \<or>
    NaClSetAvail ok1 ok2 nap p = Inl LogFatal \<and> \<not> (ok1 \<and> ok2)"
proof -
  let ?nap = "nap\<lparr>desc_mu := True\<rparr>"
  have inv: "app_inv ext ?nap" "\<not> desc_mu nap"
    using app_reachable_inv [OF assms(1)] by (auto simp: app_idle_def)
  consider (ok) d t h where "NaClSetAvailMu ok1 ok2 ?nap p = Inr (d, ?nap\<lparr>desc_tbl := t, refs := h\<rparr>)"
      "app_inv (give_ref (Some p) ext) (?nap\<lparr>desc_tbl := t, refs := h\<rparr>)" "0 \<le> d"
      "dyn_lookup (desc_tbl nap) d = None"
      "\<forall>i. 0 \<le> i \<and> i < d \<longrightarrow> dyn_lookup (desc_tbl nap) i \<noteq> None"
      "dyn_lookup t = (dyn_lookup (desc_tbl nap))(d := Some p)"
    | (failed) "NaClSetAvailMu ok1 ok2 ?nap p = Inl LogFatal" "\<not> (ok1 \<and> ok2)"
    using NaClSetAvailMu_ok [OF inv(1) assms(2), of ok1 ok2] assms(3) by auto
  then show ?thesis
  proof cases
    case ok
    have h: "h = refs nap" using NaClSetAvailMu_refs [OF inv(1) _ ok(1)] assms(3) by simp
    have same: "?nap\<lparr>desc_tbl := t, refs := h, desc_mu := False\<rparr> = nap\<lparr>desc_tbl := t\<rparr>"
      using inv(2) by (simp add: h)
    have "NaClSetAvail ok1 ok2 nap p = Inr (d, nap\<lparr>desc_tbl := t\<rparr>)"
      using ok(1) inv(2) same by (simp add: NaClSetAvail_def with_desc_mu_def)
    moreover have "app_inv (ext(p := ext p - 1)) (nap\<lparr>desc_tbl := t\<rparr>)"
      using ok(2) h by (simp add: app_inv_def give_ref_def)
    ultimately show ?thesis using ok(3-6) by blast
  qed (use inv(2) in \<open>simp add: NaClSetAvail_def with_desc_mu_def\<close>)
qed

text \<open>C37: \<open>num_threads\<close> is always the number of occupied slots of the thread table, so the
  "cannot be 0" abort of \<open>NaClRemoveThread\<close> never happens: removing an occupied slot
  succeeds and empties it, unless memory runs out.\<close>

theorem NaClRemoveThread_counts:
  assumes "app_reachable ext nap" "0 \<le> d" "d < slot_limit" "num_threads nap < slot_limit"
    and "dyn_lookup (threads nap) d \<noteq> None"
  shows "num_threads nap = int (card {i. dyn_lookup (threads nap) i \<noteq> None}) \<and>
    ((\<exists>nap'. NaClRemoveThread ok1 ok2 nap d = Inr ((), nap') \<and>
        num_threads nap' = num_threads nap - 1 \<and>
        dyn_lookup (threads nap') = (dyn_lookup (threads nap))(d := None)) \<or>
      NaClRemoveThread ok1 ok2 nap d = Inl LogFatal \<and> \<not> (ok1 \<and> ok2))"
proof -
  let ?nap = "nap\<lparr>threads_mu := True\<rparr>"
  have inv: "app_inv ext ?nap" "\<not> threads_mu nap"
    using app_reachable_inv [OF assms(1)] by (auto simp: app_idle_def)
  then show ?thesis
    using NaClRemoveThreadMu_ok [OF inv(1) assms(2,3), of ok1 ok2] assms(4,5)
    by (auto simp: NaClRemoveThread_def with_threads_mu_def app_inv_def)
qed

section \<open>A concrete application\<close>

definition app_demo :: NaClApp where
  "app_demo = \<lparr>desc_tbl = dyn_demo, threads = dyn_demo, num_threads = 0, desc_mu = False,
      threads_mu = False, refs = (\<lambda>_. None)(9 \<mapsto> 1)\<rparr>"

definition app_demo_set :: NaClApp where
  "app_demo_set = app_demo\<lparr>desc_tbl := dyn_demo\<lparr>num_entries := 1, ptr_array := [Some 9, None],
      available := [1]\<rparr>\<rparr>"

definition app_demo_thread :: NaClApp where
  "app_demo_thread = app_demo\<lparr>threads := dyn_demo\<lparr>num_entries := 1, ptr_array := [Some 4, None],
      available := [1]\<rparr>, num_threads := 1\<rparr>"

lemma app_demo_reachable: "app_reachable ((\<lambda>_. 0)(9 := 1)) app_demo"
proof -
  have c: "DynArrayCtor True True 2 = Some dyn_demo" by code_simp
  show ?thesis
    using app_reachable.new_desc [OF app_reachable.ctor [OF c c], of 9] by (simp add: app_demo_def)
qed

lemma dyn_demo_lookup: "dyn_lookup dyn_demo = (\<lambda>_. None)"
  by (auto simp: dyn_lookup_def dyn_demo_def)

lemma app_demo_avail: "NaClSetAvail True True app_demo 9 = Inr (0, app_demo_set)"
proof -
  have "DynArrayFirstAvail dyn_demo = Inr (0, dyn_demo)" by code_simp
  moreover have "DynArrayGet dyn_demo 0 = Inr None" by code_simp
  moreover have "DynArraySet True True dyn_demo 0 (Some (9::nat)) =
      Inr (1, dyn_demo\<lparr>num_entries := 1, ptr_array := [Some 9, None], available := [1]\<rparr>)" by code_simp
  ultimately show ?thesis
    by (simp add: NaClSetAvail_def with_desc_mu_def NaClSetAvailMu_def NaClSetDescMu_def app_demo_def
        app_demo_set_def)
qed

lemma app_demo_set_reachable: "app_reachable ((\<lambda>_. 0)(9 := 0)) app_demo_set"
  using app_reachable.set_avail [OF app_demo_reachable _ _ app_demo_avail]
  by (simp add: dyn_demo_lookup app_demo_def give_ref_def slot_limit_def)

lemma app_demo_add: "NaClAddThread True True app_demo 4 = Inr (0, app_demo_thread)"
proof -
  have "DynArrayFirstAvail dyn_demo = Inr (0, dyn_demo)" by code_simp
  moreover have "DynArraySet True True dyn_demo 0 (Some (4::nat)) =
      Inr (1, dyn_demo\<lparr>num_entries := 1, ptr_array := [Some 4, None], available := [1]\<rparr>)" by code_simp
  ultimately show ?thesis
    by (simp add: NaClAddThread_def with_threads_mu_def NaClAddThreadMu_def app_demo_def
        app_demo_thread_def wrap32_id)
qed

theorem app_refcounts_witness:
  "case refs app_demo_set 9 of
      Some n \<Rightarrow> unat n = card {d. dyn_lookup (desc_tbl app_demo_set) d = Some 9} + 0 \<and> 0 < unat n
    | None \<Rightarrow> False"
  using app_refcounts [OF app_demo_set_reachable, of 9]
  by (simp add: app_demo_set_def app_demo_def)

theorem NaClGetDesc_safe_witness:
  "NaClGetDesc app_demo_set 0 = Inr (Some 9, app_demo_set\<lparr>refs := (refs app_demo_set)(9 \<mapsto> 2)\<rparr>)"
proof -
  have "dyn_lookup (desc_tbl app_demo_set) 0 = Some 9" "refs app_demo_set 9 = Some 1"
    by (simp_all add: app_demo_set_def app_demo_def dyn_demo_def dyn_lookup_def)
  then show ?thesis
    using NaClGetDesc_safe [OF app_demo_set_reachable, of 0] by simp
qed

theorem NaClSetAvail_lowest_witness:
  "\<exists>d t. NaClSetAvail True True app_demo 9 = Inr (d, app_demo\<lparr>desc_tbl := t\<rparr>) \<and>
    dyn_lookup t = (\<lambda>_. None)(d := Some 9)"
proof -
  have "desc_tbl app_demo = dyn_demo" by (simp add: app_demo_def)
  then show ?thesis
    using NaClSetAvail_lowest [OF app_demo_reachable, of 9 True True]
    by (auto simp: dyn_demo_lookup slot_limit_def)
qed

theorem NaClRemoveThread_counts_witness:
  "\<exists>nap'. NaClRemoveThread True True app_demo_thread 0 = Inr ((), nap') \<and> num_threads nap' = 0"
proof -
  have "app_reachable ((\<lambda>_. 0)(9 := 1)) app_demo_thread"
    using app_reachable.add_thread [OF app_demo_reachable _ app_demo_add]
    by (simp add: app_demo_def slot_limit_def)
  moreover have "num_threads app_demo_thread = 1" "dyn_lookup (threads app_demo_thread) 0 \<noteq> None"
    by (simp_all add: app_demo_thread_def app_demo_def dyn_demo_def dyn_lookup_def)
  ultimately show ?thesis
    using NaClRemoveThread_counts [of "(\<lambda>_. 0)(9 := 1)" app_demo_thread 0 True True]
    by (auto simp: slot_limit_def)
qed

end
