(* ===== verification/C_Sort.thy ===== *)
theory C_Sort
  imports Nacl_Prelude "HOL-Library.Multiset"
begin

text \<open>
  The two sorting functions of the C library that sel\_mem.c calls. The locale states what
  the C standard promises of \<open>qsort\<close> and \<open>bsearch\<close> for a comparison function given as a
  C int; what the memory map needs is proved from that contract alone. The executable
  models (an insertion sort and glibc's binary search) satisfy it; for keys without
  duplicates every \<open>qsort\<close> gives the same array (\<open>qsort_determined\<close>).
\<close>

section \<open>The models\<close>

fun cmp_insert :: "('a \<Rightarrow> 'a \<Rightarrow> int) \<Rightarrow> 'a \<Rightarrow> 'a list \<Rightarrow> 'a list" where
  "cmp_insert cmp x [] = [x]"
| "cmp_insert cmp x (y # ys) = (if cmp x y \<le> 0 then x # y # ys else y # cmp_insert cmp x ys)"

definition qsort :: "('a \<Rightarrow> 'a \<Rightarrow> int) \<Rightarrow> 'a list \<Rightarrow> 'a list" where
  "qsort cmp xs = foldr (cmp_insert cmp) xs []"

function bsearch_loop :: "('a \<Rightarrow> int) \<Rightarrow> 'a list \<Rightarrow> nat \<Rightarrow> nat \<Rightarrow> nat option" where
  "bsearch_loop key xs l u =
     (if l < u then
        let idx = (l + u) div 2; c = key (xs ! idx)
        in if c < 0 then bsearch_loop key xs l idx
           else if c > 0 then bsearch_loop key xs (idx + 1) u
           else Some idx
      else None)"
  by pat_completeness auto
termination by (relation "measure (\<lambda>(_, _, l, u). u - l)") auto

declare bsearch_loop.simps [simp del]

definition bsearch :: "('a \<Rightarrow> int) \<Rightarrow> 'a list \<Rightarrow> nat option" where
  "bsearch key xs = bsearch_loop key xs 0 (length xs)"

section \<open>The contract\<close>

text \<open>The comparison function orders the elements of a set.\<close>

definition cmp_orders :: "('a \<Rightarrow> 'a \<Rightarrow> int) \<Rightarrow> 'a set \<Rightarrow> bool" where
  "cmp_orders cmp A \<longleftrightarrow>
     (\<forall>x\<in>A. \<forall>y\<in>A. cmp x y \<le> 0 \<or> cmp y x \<le> 0) \<and>
     (\<forall>x\<in>A. \<forall>y\<in>A. \<forall>z\<in>A. cmp x y \<le> 0 \<longrightarrow> cmp y z \<le> 0 \<longrightarrow> cmp x z \<le> 0)"

text \<open>The array is arranged for the key: elements below it, then equal ones, then above.\<close>

definition partitioned :: "('a \<Rightarrow> int) \<Rightarrow> 'a list \<Rightarrow> bool" where
  "partitioned key xs \<longleftrightarrow> sorted_wrt (\<lambda>x y. sgn (key y) \<le> sgn (key x)) xs"

locale c_sort =
  fixes sort_by :: "('a \<Rightarrow> 'a \<Rightarrow> int) \<Rightarrow> 'a list \<Rightarrow> 'a list"
    and search_by :: "('a \<Rightarrow> int) \<Rightarrow> 'a list \<Rightarrow> nat option"
  assumes sort_mset: "mset (sort_by cmp xs) = mset xs"
    and sort_sorted: "cmp_orders cmp (set xs) \<Longrightarrow> sorted_wrt (\<lambda>x y. cmp x y \<le> 0) (sort_by cmp xs)"
    and search_found: "partitioned key xs \<Longrightarrow> search_by key xs = Some i \<Longrightarrow>
        i < length xs \<and> key (xs ! i) = 0"
    and search_none: "partitioned key xs \<Longrightarrow> search_by key xs = None \<Longrightarrow> x \<in> set xs \<Longrightarrow> key x \<noteq> 0"
begin

lemma sort_set: "set (sort_by cmp xs) = set xs"
  by (rule mset_eq_setD [OF sort_mset])

lemma sort_length: "length (sort_by cmp xs) = length xs"
  by (rule mset_eq_length [OF sort_mset])

lemma sort_key:
  assumes "\<And>x y. x \<in> set xs \<Longrightarrow> y \<in> set xs \<Longrightarrow> cmp x y \<le> 0 \<longleftrightarrow> (f x :: 'k::linorder) \<le> f y"
  shows "sorted (map f (sort_by cmp xs))"
proof -
  have "cmp_orders cmp (set xs)" by (auto simp: cmp_orders_def assms)
  have "sorted_wrt (\<lambda>x y. f x \<le> f y) (sort_by cmp xs)"
    by (rule sorted_wrt_mono_rel [OF _ sort_sorted [OF \<open>cmp_orders cmp (set xs)\<close>]])
      (simp add: sort_set assms)
  then show ?thesis by (simp add: sorted_map)
qed

lemma search_iff:
  assumes "partitioned key xs"
  shows "(\<exists>i. search_by key xs = Some i) \<longleftrightarrow> (\<exists>x\<in>set xs. key x = 0)"
  using search_found [OF assms] search_none [OF assms]
  by (cases "search_by key xs") (auto dest: nth_mem)

end

section \<open>The models keep the contract\<close>

lemma cmp_insert_mset [simp]: "mset (cmp_insert cmp x xs) = add_mset x (mset xs)"
  by (induction xs) auto

lemma cmp_insert_set [simp]: "set (cmp_insert cmp x xs) = insert x (set xs)"
  by (induction xs) auto

lemma qsort_mset: "mset (qsort cmp xs) = mset xs"
  by (induction xs) (simp_all add: qsort_def)

lemma cmp_orders_subset: "cmp_orders cmp A \<Longrightarrow> B \<subseteq> A \<Longrightarrow> cmp_orders cmp B"
  unfolding cmp_orders_def by (meson subsetD)

lemma cmp_insert_sorted:
  assumes "cmp_orders cmp (insert x (set ys))" "sorted_wrt (\<lambda>x y. cmp x y \<le> 0) ys"
  shows "sorted_wrt (\<lambda>x y. cmp x y \<le> 0) (cmp_insert cmp x ys)"
  using assms
proof (induction ys)
  case (Cons y ys)
  have ord: "cmp_orders cmp (insert x (set ys))"
    by (rule cmp_orders_subset [OF Cons.prems(1)]) auto
  show ?case
  proof (cases "cmp x y \<le> 0")
    case True
    have "cmp x z \<le> 0" if z: "z \<in> set ys" for z
    proof -
      have "cmp y z \<le> 0" using Cons.prems(2) z by simp
      then show ?thesis using Cons.prems(1) True z unfolding cmp_orders_def by (meson insertCI list.set_intros)
    qed
    then show ?thesis using True Cons.prems(2) by simp
  next
    case False
    then have "cmp y x \<le> 0"
      using Cons.prems(1) unfolding cmp_orders_def by (meson insertCI list.set_intros(1))
    then show ?thesis using False Cons.IH [OF ord] Cons.prems(2) by simp
  qed
qed simp

lemma qsort_sorted: "cmp_orders cmp (set xs) \<Longrightarrow> sorted_wrt (\<lambda>x y. cmp x y \<le> 0) (qsort cmp xs)"
proof (induction xs)
  case (Cons x xs)
  have "set (qsort cmp xs) = set xs" by (rule mset_eq_setD [OF qsort_mset])
  moreover have "sorted_wrt (\<lambda>x y. cmp x y \<le> 0) (qsort cmp xs)"
    using Cons cmp_orders_subset [of cmp "set (x # xs)" "set xs"] by auto
  ultimately show ?case
    using cmp_insert_sorted [of cmp x "qsort cmp xs"] Cons.prems by (simp add: qsort_def)
qed (simp add: qsort_def)

lemma partitioned_nth:
  "partitioned key xs \<Longrightarrow> i \<le> j \<Longrightarrow> j < length xs \<Longrightarrow> sgn (key (xs ! j)) \<le> sgn (key (xs ! i))"
  by (cases "i = j") (auto simp: partitioned_def sorted_wrt_iff_nth_less)

lemma bsearch_loop_spec:
  assumes "partitioned key xs" "u \<le> length xs"
    and "\<And>i. i < length xs \<Longrightarrow> key (xs ! i) = 0 \<Longrightarrow> l \<le> i \<and> i < u"
  shows "case bsearch_loop key xs l u of
      Some i \<Rightarrow> i < length xs \<and> key (xs ! i) = 0
    | None \<Rightarrow> (\<forall>i < length xs. key (xs ! i) \<noteq> 0)"
  using assms
proof (induction key xs l u rule: bsearch_loop.induct)
  case (1 key xs l u)
  define m where "m = (l + u) div 2"
  consider "\<not> l < u" | "l < u" "key (xs ! m) < 0" | "l < u" "key (xs ! m) > 0" | "l < u" "key (xs ! m) = 0"
    by linarith
  then show ?case
  proof cases
    case 1
    then have "key (xs ! i) \<noteq> 0" if "i < length xs" for i using "1.prems"(3) [OF that] by linarith
    then show ?thesis using 1 by (simp add: bsearch_loop.simps)
  next
    case 2
    have "i < m" if "i < length xs" "key (xs ! i) = 0" for i
      using partitioned_nth [OF "1.prems"(1), of m i] 2 that by (cases "i < m") auto
    then have "case bsearch_loop key xs l m of
        Some i \<Rightarrow> i < length xs \<and> key (xs ! i) = 0 | None \<Rightarrow> (\<forall>i < length xs. key (xs ! i) \<noteq> 0)"
      using "1.prems" 2 by (intro "1.IH"(1)) (auto simp: m_def)
    then show ?thesis using 2 by (simp add: bsearch_loop.simps [of key xs l u] m_def [symmetric] Let_def)
  next
    case 3
    have mu: "m < length xs" using 3 "1.prems"(2) by (simp add: m_def)
    have "m < i" if "i < length xs" "key (xs ! i) = 0" for i
      using partitioned_nth [OF "1.prems"(1), of i m] 3 mu that by (cases "m < i") auto
    then have "case bsearch_loop key xs (m + 1) u of
        Some i \<Rightarrow> i < length xs \<and> key (xs ! i) = 0 | None \<Rightarrow> (\<forall>i < length xs. key (xs ! i) \<noteq> 0)"
      using "1.prems" 3 by (intro "1.IH"(2)) (auto simp: m_def Suc_le_eq)
    then show ?thesis using 3 by (simp add: bsearch_loop.simps [of key xs l u] m_def [symmetric] Let_def)
  next
    case 4
    then show ?thesis using "1.prems"(2)
      by (simp add: bsearch_loop.simps [of key xs l u] m_def [symmetric] Let_def) (simp add: m_def)
  qed
qed

lemma bsearch_spec:
  assumes "partitioned key xs"
  shows "case bsearch key xs of
      Some i \<Rightarrow> i < length xs \<and> key (xs ! i) = 0
    | None \<Rightarrow> (\<forall>i < length xs. key (xs ! i) \<noteq> 0)"
  unfolding bsearch_def by (rule bsearch_loop_spec [OF assms]) auto

interpretation libc: c_sort qsort bsearch
proof unfold_locales
  fix cmp :: "'a \<Rightarrow> 'a \<Rightarrow> int" and key :: "'a \<Rightarrow> int" and xs :: "'a list" and i x
  show "mset (qsort cmp xs) = mset xs" by (rule qsort_mset)
  show "cmp_orders cmp (set xs) \<Longrightarrow> sorted_wrt (\<lambda>x y. cmp x y \<le> 0) (qsort cmp xs)"
    by (rule qsort_sorted)
  assume part: "partitioned key xs"
  show "bsearch key xs = Some i \<Longrightarrow> i < length xs \<and> key (xs ! i) = 0"
    using bsearch_spec [OF part] by simp
  show "bsearch key xs = None \<Longrightarrow> x \<in> set xs \<Longrightarrow> key x \<noteq> 0"
    using bsearch_spec [OF part] by (auto simp: in_set_conv_nth)
qed

text \<open>With distinct keys the sorted array does not depend on the algorithm.\<close>

lemma qsort_determined:
  assumes "\<And>x y. x \<in> set xs \<Longrightarrow> y \<in> set xs \<Longrightarrow> cmp x y \<le> 0 \<longleftrightarrow> (f x :: 'k::linorder) \<le> f y"
    and "inj_on f (set xs)" and "mset ys = mset xs" "sorted (map f ys)"
  shows "qsort cmp xs = ys"
proof (rule map_inj_on [where f = f])
  have "mset (map f (qsort cmp xs)) = mset (map f ys)"
    by (simp add: libc.sort_mset assms(3))
  then show "map f (qsort cmp xs) = map f ys"
    using libc.sort_key [of xs cmp f] assms(1,4) by (metis properties_for_sort)
  show "inj_on f (set (qsort cmp xs) \<union> set ys)"
    using assms(2) mset_eq_setD [OF assms(3)] by (simp add: libc.sort_set)
qed

end
