(* ===== verification/Vmmap.thy ===== *)
theory Vmmap
  imports C_Sort Desc_Refs Page_Util
begin

text \<open>
  The virtual memory map of a NaCl application (service\_runtime/sel\_mem.c) and its memory
  objects (nacl\_memory\_object.c): an unordered array of pointers to entries, each a run of
  pages with its protection and the descriptor bytes that back it, sorted on demand,
  entries being deleted by a mark that \<open>NaClVmmapRemoveMarked\<close> sweeps. The field
  \<open>desc_refs\<close> is not in the C struct: it is the heap of reference counts of theory
  Desc\_Refs, which every memory object takes part in. An entry belongs to one slot, so
  a slot holds the entry itself; \<open>None\<close> is NULL. \<open>ok\<close> says which allocations succeed.
  On the 32-bit build \<open>uintptr_t\<close>, \<open>size_t\<close> and \<open>off_t\<close> have 32 bits.
\<close>

section \<open>State\<close>

record NaClMemObj =
  ndp :: nat
  nbytes :: u32
  offset :: u32

record NaClVmmapEntry =
  page_num :: u32
  npages :: u32
  prot :: int
  nmop :: "NaClMemObj option"
  removed :: bool

record NaClVmmap =
  vmentry :: "NaClVmmapEntry option list"
  nvalid :: nat
  vm_size :: nat
  is_sorted :: bool
  desc_refs :: "nat \<Rightarrow> u32 option"

text \<open>Reading \<open>self->vmentry[i]\<close> to follow the pointer, and writing a slot.\<close>

definition entry_at :: "NaClVmmap \<Rightarrow> nat \<Rightarrow> NaClVmmapEntry result" where
  "entry_at m i =
     (if i < length (vmentry m)
      then (case vmentry m ! i of None \<Rightarrow> Inl NullDeref | Some e \<Rightarrow> Inr e)
      else Inl OutOfBounds)"

definition set_slot_at :: "NaClVmmap \<Rightarrow> nat \<Rightarrow> NaClVmmapEntry option \<Rightarrow> NaClVmmap" where
  "set_slot_at m i v = m\<lparr>vmentry := (vmentry m)[i := v]\<rparr>"

section \<open>Memory objects\<close>

definition NaClMemObjCtor :: "(nat \<Rightarrow> u32 option) \<Rightarrow> nat option \<Rightarrow> u32 \<Rightarrow> u32
    \<Rightarrow> (NaClMemObj \<times> (nat \<Rightarrow> u32 option)) result" where
  "NaClMemObjCtor h d nb off = (case d of
      None \<Rightarrow> Inl LogFatal
    | Some p \<Rightarrow> bind_result (NaClDescRef h p) (\<lambda>h'. Inr (\<lparr>ndp = p, nbytes = nb, offset = off\<rparr>, h')))"

definition NaClMemObjCopyCtorOff :: "(nat \<Rightarrow> u32 option) \<Rightarrow> NaClMemObj \<Rightarrow> u32
    \<Rightarrow> (NaClMemObj \<times> (nat \<Rightarrow> u32 option)) result" where
  "NaClMemObjCopyCtorOff h src additional =
     bind_result (NaClDescRef h (ndp src)) (\<lambda>h'.
       Inr (\<lparr>ndp = ndp src, nbytes = nbytes src, offset = offset src + additional\<rparr>, h'))"

definition NaClMemObjDtor :: "(nat \<Rightarrow> u32 option) \<Rightarrow> NaClMemObj \<Rightarrow> (nat \<Rightarrow> u32 option) result" where
  "NaClMemObjDtor h o1 = NaClDescUnref h (ndp o1)"

definition NaClMemObjMake :: "bool \<Rightarrow> (nat \<Rightarrow> u32 option) \<Rightarrow> nat option \<Rightarrow> u32 \<Rightarrow> u32
    \<Rightarrow> (NaClMemObj option \<times> (nat \<Rightarrow> u32 option)) result" where
  "NaClMemObjMake ok h d nb off =
     (if d = None then Inr (None, h)
      else if \<not> ok then Inl LogFatal
      else bind_result (NaClMemObjCtor h d nb off) (\<lambda>(o1, h'). Inr (Some o1, h')))"

definition NaClMemObjSplit :: "bool \<Rightarrow> (nat \<Rightarrow> u32 option) \<Rightarrow> NaClMemObj option \<Rightarrow> u32
    \<Rightarrow> (NaClMemObj option \<times> (nat \<Rightarrow> u32 option)) result" where
  "NaClMemObjSplit ok h orig additional = (case orig of
      None \<Rightarrow> Inr (None, h)
    | Some src \<Rightarrow>
        if \<not> ok then Inl LogFatal
        else bind_result (NaClMemObjCopyCtorOff h src additional) (\<lambda>(o1, h'). Inr (Some o1, h')))"

definition NaClMemObjIncOffset :: "NaClMemObj option \<Rightarrow> u32 \<Rightarrow> NaClMemObj option" where
  "NaClMemObjIncOffset o1 additional = map_option (\<lambda>src. src\<lparr>offset := offset src + additional\<rparr>) o1"

section \<open>Entries\<close>

definition NaClVmmapEntryMake :: "bool \<Rightarrow> u32 \<Rightarrow> u32 \<Rightarrow> int \<Rightarrow> NaClMemObj option \<Rightarrow> NaClVmmapEntry option" where
  "NaClVmmapEntryMake ok pn n pr o1 =
     (if \<not> ok then None
      else Some \<lparr>page_num = pn, npages = n, prot = pr, nmop = o1, removed = False\<rparr>)"

definition NaClVmmapEntryFree :: "(nat \<Rightarrow> u32 option) \<Rightarrow> NaClVmmapEntry \<Rightarrow> (nat \<Rightarrow> u32 option) result" where
  "NaClVmmapEntryFree h e = (case nmop e of None \<Rightarrow> Inr h | Some o1 \<Rightarrow> NaClMemObjDtor h o1)"

definition START_ENTRIES :: nat where "START_ENTRIES = 5"

definition NaClVmmapCtor :: "bool \<Rightarrow> (nat \<Rightarrow> u32 option) \<Rightarrow> (int \<times> NaClVmmap) result" where
  "NaClVmmapCtor ok h =
     (let m = \<lparr>vmentry = (if ok then replicate START_ENTRIES None else []), nvalid = 0,
               vm_size = START_ENTRIES, is_sorted = True, desc_refs = h\<rparr>
      in Inr (if ok then 1 else 0, m))"

fun free_entries :: "NaClVmmap \<Rightarrow> nat \<Rightarrow> nat \<Rightarrow> (nat \<Rightarrow> u32 option) \<Rightarrow> (nat \<Rightarrow> u32 option) result" where
  "free_entries m i 0 h = Inr h"
| "free_entries m i (Suc k) h =
     bind_result (entry_at m i) (\<lambda>e.
     bind_result (NaClVmmapEntryFree h e) (\<lambda>h'. free_entries m (i + 1) k h'))"

definition NaClVmmapDtor :: "NaClVmmap \<Rightarrow> NaClVmmap result" where
  "NaClVmmapDtor m =
     bind_result (free_entries m 0 (nvalid m) (desc_refs m)) (\<lambda>h. Inr (m\<lparr>vmentry := [], desc_refs := h\<rparr>))"

definition NaClVmmapCmpEntries :: "NaClVmmapEntry \<Rightarrow> NaClVmmapEntry \<Rightarrow> int" where
  "NaClVmmapCmpEntries left right = sint (page_num left - page_num right)"

section \<open>Sweeping the marked entries\<close>

text \<open>\<open>NaClVmmapEntryFree(self->vmentry[i]); self->vmentry[i] = v\<close>.\<close>

definition free_slot :: "NaClVmmap \<Rightarrow> nat \<Rightarrow> NaClVmmapEntry option \<Rightarrow> NaClVmmap result" where
  "free_slot m i v =
     bind_result (entry_at m i) (\<lambda>e.
     bind_result (NaClVmmapEntryFree (desc_refs m) e) (\<lambda>h.
       Inr ((set_slot_at m i v)\<lparr>desc_refs := h\<rparr>)))"

fun trim_marked :: "NaClVmmap \<Rightarrow> nat \<Rightarrow> (NaClVmmap \<times> nat) result" where
  "trim_marked m 0 = Inr (m, 0)"
| "trim_marked m (Suc lst) =
     bind_result (entry_at m lst) (\<lambda>e.
       if removed e
       then bind_result (free_slot m lst None) (\<lambda>m'. trim_marked m' lst)
       else Inr (m, lst))"

text \<open>\<open>while (--lst > i && ...->removed)\<close>; it is entered with \<open>lst > i\<close>.\<close>

fun back_up :: "NaClVmmap \<Rightarrow> nat \<Rightarrow> nat \<Rightarrow> (NaClVmmap \<times> nat) result" where
  "back_up m i 0 = Inr (m, 0)"
| "back_up m i (Suc lst) =
     (if lst > i
      then bind_result (entry_at m lst) (\<lambda>e.
             if removed e
             then bind_result (free_slot m lst None) (\<lambda>m'. back_up m' i lst)
             else Inr (m, lst))
      else Inr (m, lst))"

lemma back_up_le: "back_up m i lst = Inr (m', lst') \<Longrightarrow> lst' \<le> lst"
  by (induction m i lst arbitrary: m' lst' rule: back_up.induct)
    (fastforce simp: bind_result_eq_Inr split: if_splits)+

function sweep_marked :: "NaClVmmap \<Rightarrow> nat \<Rightarrow> nat \<Rightarrow> (NaClVmmap \<times> nat) result" where
  "sweep_marked m i lst =
     (if i < lst
      then bind_result (entry_at m i) (\<lambda>e.
             if \<not> removed e then sweep_marked m (i + 1) lst
             else if lst < length (vmentry m)
             then bind_result (free_slot m i (vmentry m ! lst)) (\<lambda>m1.
                  bind_result (back_up (set_slot_at m1 lst None) i lst) (\<lambda>(m2, lst').
                    sweep_marked m2 (i + 1) lst'))
             else Inl OutOfBounds)
      else Inr (m, lst))"
  by pat_completeness auto
termination
  by (relation "measure (\<lambda>(m, i, lst). lst - i)") (auto dest: back_up_le)

declare sweep_marked.simps [simp del]

definition NaClVmmapRemoveMarked :: "NaClVmmap \<Rightarrow> NaClVmmap result" where
  "NaClVmmapRemoveMarked m =
     (if nvalid m = 0 then Inr m
      else bind_result (trim_marked m (nvalid m)) (\<lambda>(m1, lst).
           bind_result (if lst = 0 then bind_result (entry_at m1 0) (\<lambda>e. Inr (removed e)) else Inr False)
             (\<lambda>none_left.
           if none_left then Inl LogFatal
           else if \<not> lst < nvalid m1 then Inl CheckFailed
           else bind_result (entry_at m1 lst) (\<lambda>e.
           if removed e then Inl CheckFailed
           else bind_result (sweep_marked m1 0 lst) (\<lambda>(m2, lst').
             Inr (m2\<lparr>nvalid := lst' + 1, is_sorted := False\<rparr>))))))"

section \<open>Sorting, adding, updating\<close>

text \<open>The first \<open>nvalid\<close> entries, as \<open>qsort\<close> and \<open>bsearch\<close> see them through the pointers.\<close>

definition valid_entries :: "NaClVmmap \<Rightarrow> NaClVmmapEntry list result" where
  "valid_entries m =
     (if nvalid m > length (vmentry m) then Inl OutOfBounds
      else if None \<in> set (take (nvalid m) (vmentry m)) then Inl NullDeref
      else Inr (map the (take (nvalid m) (vmentry m))))"

definition NaClVmmapMakeSorted :: "NaClVmmap \<Rightarrow> NaClVmmap result" where
  "NaClVmmapMakeSorted m =
     (if is_sorted m then Inr m
      else bind_result (NaClVmmapRemoveMarked m) (\<lambda>m1.
           bind_result (valid_entries m1) (\<lambda>es.
             Inr (m1\<lparr>vmentry := map Some (qsort NaClVmmapCmpEntries es) @ drop (nvalid m1) (vmentry m1),
                     is_sorted := True\<rparr>))))"

text \<open>The size doubles; \<open>new_size * sizeof *new_map\<close> is a 32-bit product. A failed
  \<open>NaClVmmapEntryMake\<close> is not noticed: a NULL is stored.\<close>

definition NaClVmmapAdd :: "bool \<Rightarrow> bool \<Rightarrow> NaClVmmap \<Rightarrow> u32 \<Rightarrow> u32 \<Rightarrow> int \<Rightarrow> NaClMemObj option
    \<Rightarrow> (int \<times> NaClVmmap) result" where
  "NaClVmmapAdd ok_map ok_entry m pn n pr o1 =
     bind_result
       (if nvalid m = vm_size m
        then if \<not> ok_map then Inr (0 :: int, m)
             else if 8 * vm_size m \<ge> 4294967296 then Inl OutOfBounds
             else Inr (1, m\<lparr>vmentry := take (2 * vm_size m) (vmentry m @ replicate (vm_size m) None),
                           vm_size := 2 * vm_size m\<rparr>)
        else Inr (1, m))
       (\<lambda>(r, m1).
          if r = 0 then Inr (0, m1)
          else if nvalid m1 < length (vmentry m1)
          then Inr (1, (set_slot_at m1 (nvalid m1) (NaClVmmapEntryMake ok_entry pn n pr o1))
                         \<lparr>nvalid := nvalid m1 + 1, is_sorted := False\<rparr>)
          else Inl OutOfBounds)"

lemma set_slot_at_simps [simp]:
  "nvalid (set_slot_at m i v) = nvalid m" "vm_size (set_slot_at m i v) = vm_size m"
  "is_sorted (set_slot_at m i v) = is_sorted m" "desc_refs (set_slot_at m i v) = desc_refs m"
  "vmentry (set_slot_at m i v) = (vmentry m)[i := v]"
  by (simp_all add: set_slot_at_def)

function update_loop :: "(nat \<Rightarrow> bool) \<Rightarrow> u32 \<Rightarrow> u32 \<Rightarrow> NaClVmmap \<Rightarrow> nat \<Rightarrow> NaClVmmap result" where
  "update_loop ok pn new_end m i =
     (if i < nvalid m then
        bind_result (entry_at m i) (\<lambda>ent.
          let ent_end_page = page_num ent + npages ent;
              additional_offset = push_bit NACL_PAGESHIFT (new_end - page_num ent)
          in if page_num ent < pn \<and> new_end < ent_end_page
             then bind_result (NaClMemObjSplit (ok 0) (desc_refs m) (nmop ent) additional_offset)
               (\<lambda>(o1, h).
                bind_result (NaClVmmapAdd (ok 1) (ok 2) (m\<lparr>desc_refs := h\<rparr>) new_end (ent_end_page - new_end)
                               (prot ent) o1) (\<lambda>(r, m1).
                  if r = 0 then Inl LogFatal
                  else Inr (set_slot_at m1 i (Some (ent\<lparr>npages := pn - page_num ent\<rparr>)))))
             else if page_num ent < pn \<and> pn < ent_end_page
             then update_loop ok pn new_end (set_slot_at m i (Some (ent\<lparr>npages := pn - page_num ent\<rparr>))) (i + 1)
             else if page_num ent < new_end \<and> new_end < ent_end_page
             then Inr (set_slot_at m i (Some (ent\<lparr>nmop := NaClMemObjIncOffset (nmop ent) additional_offset,
                                                  page_num := new_end, npages := ent_end_page - new_end\<rparr>)))
             else if pn \<le> page_num ent \<and> ent_end_page \<le> new_end
             then update_loop ok pn new_end (set_slot_at m i (Some (ent\<lparr>removed := True\<rparr>))) (i + 1)
             else if \<not> (new_end \<le> page_num ent \<or> ent_end_page \<le> pn) then Inl CheckFailed
             else update_loop ok pn new_end m (i + 1))
      else Inr m)"
  by pat_completeness auto
termination by (relation "measure (\<lambda>(ok, pn, new_end, m, i). nvalid m - i)") auto

declare update_loop.simps [simp del]

definition NaClVmmapUpdate :: "(nat \<Rightarrow> bool) \<Rightarrow> NaClVmmap \<Rightarrow> u32 \<Rightarrow> u32 \<Rightarrow> int \<Rightarrow> NaClMemObj option \<Rightarrow> bool
    \<Rightarrow> NaClVmmap result" where
  "NaClVmmapUpdate ok m pn n pr o1 remove =
     (let new_region_end_page = pn + n
      in bind_result (NaClVmmapMakeSorted m) (\<lambda>m1.
         if \<not> n > 0 then Inl CheckFailed
         else bind_result (update_loop ok pn new_region_end_page m1 0) (\<lambda>m2.
              bind_result
                (if \<not> remove
                 then bind_result (NaClVmmapAdd (ok 3) (ok 4) m2 pn n pr o1) (\<lambda>(r, m3).
                        if r = 0 then Inl LogFatal else Inr m3)
                 else Inr m2) NaClVmmapRemoveMarked)))"

section \<open>Searching\<close>

definition NaClVmmapContainCmpEntries :: "u32 \<Rightarrow> NaClVmmapEntry \<Rightarrow> int" where
  "NaClVmmapContainCmpEntries key ent =
     (if key < page_num ent then -1
      else if key < page_num ent + npages ent then 0
      else 1)"

definition find_index :: "NaClVmmap \<Rightarrow> u32 \<Rightarrow> (nat option \<times> NaClVmmap) result" where
  "find_index m pnum =
     bind_result (NaClVmmapMakeSorted m) (\<lambda>m1.
     bind_result (valid_entries m1) (\<lambda>es. Inr (bsearch (NaClVmmapContainCmpEntries pnum) es, m1)))"

definition NaClVmmapFindPage :: "NaClVmmap \<Rightarrow> u32 \<Rightarrow> (NaClVmmapEntry option \<times> NaClVmmap) result" where
  "NaClVmmapFindPage m pnum =
     bind_result (find_index m pnum) (\<lambda>(r, m1). case r of
         None \<Rightarrow> Inr (None, m1)
       | Some i \<Rightarrow> bind_result (entry_at m1 i) (\<lambda>e. Inr (Some e, m1)))"

text \<open>An iterator is a map and an index; here the index, next to the map.\<close>

definition NaClVmmapFindPageIter :: "NaClVmmap \<Rightarrow> u32 \<Rightarrow> (nat \<times> NaClVmmap) result" where
  "NaClVmmapFindPageIter m pnum =
     bind_result (find_index m pnum) (\<lambda>(r, m1). case r of
         None \<Rightarrow> Inr (nvalid m1, m1)
       | Some i \<Rightarrow> Inr (i, m1))"

definition NaClVmmapIterAtEnd :: "NaClVmmap \<Rightarrow> nat \<Rightarrow> bool" where
  "NaClVmmapIterAtEnd m ix \<longleftrightarrow> ix \<ge> nvalid m"

definition NaClVmmapIterStar :: "NaClVmmap \<Rightarrow> nat \<Rightarrow> NaClVmmapEntry option result" where
  "NaClVmmapIterStar m ix = (if ix < length (vmentry m) then Inr (vmentry m ! ix) else Inl OutOfBounds)"

definition NaClVmmapIterIncr :: "nat \<Rightarrow> nat" where
  "NaClVmmapIterIncr ix = ix + 1"

text \<open>\<open>free\<close>, not \<open>NaClVmmapEntryFree\<close>: the memory object keeps its reference.\<close>

definition NaClVmmapIterErase :: "NaClVmmap \<Rightarrow> nat \<Rightarrow> NaClVmmap result" where
  "NaClVmmapIterErase m ix =
     (if nvalid m = 0 \<or> ix \<ge> length (vmentry m) \<or> nvalid m > length (vmentry m) then Inl OutOfBounds
      else Inr ((set_slot_at m ix (vmentry m ! (nvalid m - 1)))
                  \<lparr>nvalid := nvalid m - 1, is_sorted := False\<rparr>))"

definition NaClVmmapVisit :: "NaClVmmap \<Rightarrow> ('s \<Rightarrow> NaClVmmapEntry \<Rightarrow> 's) \<Rightarrow> 's \<Rightarrow> ('s \<times> NaClVmmap) result" where
  "NaClVmmapVisit m fn s =
     bind_result (NaClVmmapMakeSorted m) (\<lambda>m1.
     bind_result (valid_entries m1) (\<lambda>es. Inr (foldl fn s es, m1)))"

text \<open>\<open>for (i = self->nvalid; --i > 0; )\<close>: the argument is the value of \<open>i\<close> before the
  decrement; the body runs for \<open>i - 1\<close>, \<open>i - 2\<close>, \<open>...\<close>, 1. The two pages of the gap below entry
  \<open>i\<close> are the end of the entry before it and its own start, adjusted by \<open>lo\<close> and \<open>hi\<close>.\<close>

fun find_down :: "(u32 \<Rightarrow> u32) \<Rightarrow> (u32 \<Rightarrow> u32) \<Rightarrow> bool \<Rightarrow> NaClVmmap \<Rightarrow> u32 \<Rightarrow> nat \<Rightarrow> u32 result" where
  "find_down lo hi aligned m num_pages 0 = Inl OutOfBounds"
| "find_down lo hi aligned m num_pages (Suc 0) = Inr 0"
| "find_down lo hi aligned m num_pages (Suc (Suc k)) =
     bind_result (entry_at m k) (\<lambda>vmep.
     bind_result (entry_at m (Suc k)) (\<lambda>cur.
       let end_page = lo (page_num vmep + npages vmep);
           start_page = hi (page_num cur)
       in if aligned \<and> start_page \<le> end_page then find_down lo hi aligned m num_pages (Suc k)
          else if start_page - end_page \<ge> num_pages then Inr (start_page - num_pages)
          else find_down lo hi aligned m num_pages (Suc k)))"

definition NaClVmmapFindSpace :: "NaClVmmap \<Rightarrow> u32 \<Rightarrow> (u32 \<times> NaClVmmap) result" where
  "NaClVmmapFindSpace m num_pages =
     (if 0 = nvalid m then Inr (0, m)
      else bind_result (NaClVmmapMakeSorted m) (\<lambda>m1.
           bind_result (find_down id id False m1 num_pages (nvalid m1)) (\<lambda>r. Inr (r, m1))))"

definition NaClVmmapFindMapSpace :: "NaClVmmap \<Rightarrow> u32 \<Rightarrow> (u32 \<times> NaClVmmap) result" where
  "NaClVmmapFindMapSpace m num_pages =
     (if 0 = nvalid m then Inr (0, m)
      else bind_result (NaClVmmapMakeSorted m) (\<lambda>m1.
           let num_pages = NaClRoundPageNumUpToMapMultiple num_pages
           in bind_result (find_down NaClRoundPageNumUpToMapMultiple NaClTruncPageNumDownToMapMultiple
                (NACL_MAP_PAGESHIFT > NACL_PAGESHIFT) m1 num_pages (nvalid m1)) (\<lambda>r. Inr (r, m1))))"

function find_above :: "NaClVmmap \<Rightarrow> u32 \<Rightarrow> u32 \<Rightarrow> nat \<Rightarrow> u32 result" where
  "find_above m usr_page num_pages i =
     (if i < nvalid m then
        bind_result (entry_at m (i - 1)) (\<lambda>vmep.
        bind_result (entry_at m i) (\<lambda>cur.
          let end_page = NaClRoundPageNumUpToMapMultiple (page_num vmep + npages vmep);
              start_page = NaClTruncPageNumDownToMapMultiple (page_num cur)
          in if start_page \<le> end_page then find_above m usr_page num_pages (i + 1)
             else let end_page = (if end_page \<le> usr_page \<and> usr_page < start_page then usr_page else end_page)
                  in if usr_page \<le> end_page \<and> start_page - end_page \<ge> num_pages then Inr end_page
                     else find_above m usr_page num_pages (i + 1)))
      else Inr 0)"
  by pat_completeness auto
termination by (relation "measure (\<lambda>(m, _, _, i). nvalid m - i)") auto

declare find_above.simps [simp del]

definition NaClVmmapFindMapSpaceAboveHint :: "NaClVmmap \<Rightarrow> u32 \<Rightarrow> u32 \<Rightarrow> (u32 \<times> NaClVmmap) result" where
  "NaClVmmapFindMapSpaceAboveHint m uaddr num_pages =
     bind_result (NaClVmmapMakeSorted m) (\<lambda>m1.
       let usr_page = drop_bit NACL_PAGESHIFT uaddr;
           num_pages = NaClRoundPageNumUpToMapMultiple num_pages
       in bind_result (find_above m1 usr_page num_pages 1) (\<lambda>r. Inr (r, m1)))"

end
