(* ===== verification/Vmmap_Sweep.thy ===== *)
theory Vmmap_Sweep
  imports Vmmap
begin

text \<open>
  The sweep of marked entries (\<open>NaClVmmapRemoveMarked\<close>) and the sort keep exactly the
  unmarked entries, in some order, and give back exactly the descriptor references of the
  entries they free. When every entry is marked the sweep dereferences NULL.
\<close>

section \<open>The entries in use\<close>

definition ents :: "NaClVmmap \<Rightarrow> nat \<Rightarrow> NaClVmmapEntry list" where
  "ents m n = map the (take n (vmentry m))"

definition full :: "NaClVmmap \<Rightarrow> nat \<Rightarrow> bool" where
  "full m n \<longleftrightarrow> n \<le> length (vmentry m) \<and> None \<notin> set (take n (vmentry m))"

lemma full_nth: "full m n \<Longrightarrow> i < n \<Longrightarrow> vmentry m ! i = Some (ents m n ! i)"
proof -
  assume f: "full m n" "i < n"
  then have "vmentry m ! i \<in> set (take n (vmentry m))"
    by (auto simp: full_def in_set_conv_nth intro!: exI [of _ i])
  then have "vmentry m ! i \<noteq> None" using f(1) unfolding full_def by metis
  then show ?thesis using f by (auto simp: ents_def full_def)
qed

lemma ents_length [simp]: "full m n \<Longrightarrow> length (ents m n) = n"
  by (simp add: ents_def full_def)

lemma full_entry_at: "full m n \<Longrightarrow> i < n \<Longrightarrow> entry_at m i = Inr (ents m n ! i)"
  using full_nth [of m n i] by (auto simp: entry_at_def full_def)

lemma full_map_Some: "full m n \<longleftrightarrow> take n (vmentry m) = map Some (ents m n) \<and> n \<le> length (vmentry m)"
proof
  assume f: "full m n"
  then have "length (take n (vmentry m)) = n" by (simp add: full_def)
  then have "take n (vmentry m) = map Some (ents m n)"
    using f full_nth [OF f] by (intro nth_equalityI) simp_all
  then show "take n (vmentry m) = map Some (ents m n) \<and> n \<le> length (vmentry m)" using f by (simp add: full_def)
next
  assume a: "take n (vmentry m) = map Some (ents m n) \<and> n \<le> length (vmentry m)"
  then have "set (take n (vmentry m)) = Some ` set (ents m n)" by (metis list.set_map)
  then show "full m n" using a by (auto simp: full_def)
qed

lemma fullI: "take n (vmentry m) = map Some es \<Longrightarrow> length es = n \<Longrightarrow> full m n \<and> ents m n = es"
proof -
  assume a: "take n (vmentry m) = map Some es" "length es = n"
  then have "ents m n = es" by (simp add: ents_def comp_def)
  moreover have "n \<le> length (vmentry m)"
    using arg_cong [OF a(1), of length] a(2) by simp
  ultimately show ?thesis using a(1) by (simp add: full_map_Some)
qed

lemma full_valid_entries: "full m (nvalid m) \<Longrightarrow> valid_entries m = Inr (ents m (nvalid m))"
  by (simp add: valid_entries_def full_def ents_def)

lemma full_Suc:
  assumes "full m (Suc n)"
  shows "full m n" "ents m (Suc n) = ents m n @ [the (vmentry m ! n)]"
  using assms by (auto simp: full_def ents_def take_Suc_conv_app_nth)

section \<open>References held by entries\<close>

definition owns :: "NaClVmmapEntry \<Rightarrow> nat \<Rightarrow> nat" where
  "owns e p = (case nmop e of None \<Rightarrow> 0 | Some o1 \<Rightarrow> if ndp o1 = p then 1 else 0)"

definition held :: "NaClVmmapEntry multiset \<Rightarrow> nat \<Rightarrow> nat" where
  "held M p = (\<Sum>e\<in>#M. owns e p)"

definition live :: "NaClVmmapEntry multiset \<Rightarrow> NaClVmmapEntry multiset" where
  "live M = filter_mset (\<lambda>e. \<not> removed e) M"

lemma held_simps [simp]:
  "held {#} p = 0" "held (add_mset e M) p = owns e p + held M p" "held (M + N) p = held M p + held N p"
  by (simp_all add: held_def)

lemma live_simps [simp]:
  "live {#} = {#}" "live (add_mset e M) = (if removed e then live M else add_mset e (live M))"
  "live (M + N) = live M + live N"
  by (simp_all add: live_def)

text \<open>The state during a sweep: slots below \<open>n\<close> hold entries, and the reference counts are
  those entries' references and \<open>ext\<close>.\<close>

definition sweeping :: "(nat \<Rightarrow> nat) \<Rightarrow> NaClVmmap \<Rightarrow> nat \<Rightarrow> bool" where
  "sweeping ext m n \<longleftrightarrow> full m n \<and> refs_ok (\<lambda>p. held (mset (ents m n)) p + ext p) (desc_refs m)"

definition same_shape :: "NaClVmmap \<Rightarrow> NaClVmmap \<Rightarrow> bool" where
  "same_shape m m' \<longleftrightarrow> nvalid m' = nvalid m \<and> vm_size m' = vm_size m \<and>
     length (vmentry m') = length (vmentry m) \<and> is_sorted m' = is_sorted m"

lemma same_shape_refl [simp]: "same_shape m m" by (simp add: same_shape_def)

lemma same_shape_trans: "same_shape a b \<Longrightarrow> same_shape b c \<Longrightarrow> same_shape a c"
  by (simp add: same_shape_def)

lemma EntryFree_ok:
  assumes "refs_ok (\<lambda>p. owns e p + f p) h"
  shows "\<exists>h'. NaClVmmapEntryFree h e = Inr h' \<and> refs_ok f h'"
proof (cases "nmop e")
  case None
  then show ?thesis using assms by (simp add: NaClVmmapEntryFree_def owns_def)
next
  case (Some o1)
  let ?t = "\<lambda>p. owns e p + f p"
  have "?t (ndp o1) = Suc (f (ndp o1))" using Some by (simp add: owns_def)
  moreover have "?t(ndp o1 := ?t (ndp o1) - 1) = f"
    using Some by (auto simp: owns_def fun_eq_iff)
  ultimately show ?thesis
    using NaClDescUnref_ok [OF assms, of "ndp o1"] Some
    by (simp add: NaClVmmapEntryFree_def NaClMemObjDtor_def)
qed

lemma free_slot_ok:
  assumes full: "full m n" and i: "i < n"
    and refs: "refs_ok (\<lambda>p. owns (ents m n ! i) p + f p) (desc_refs m)"
  shows "\<exists>h. free_slot m i v = Inr ((set_slot_at m i v)\<lparr>desc_refs := h\<rparr>) \<and> refs_ok f h"
  using EntryFree_ok [OF refs] full_entry_at [OF full i] by (auto simp: free_slot_def)

lemma free_last_slot:
  assumes "sweeping ext m (Suc n)"
  shows "\<exists>m'. free_slot m n None = Inr m' \<and> sweeping ext m' n \<and> ents m' n = ents m n \<and> same_shape m m' \<and>
    vmentry m' ! n = None"
proof -
  have full: "full m (Suc n)" and n: "full m n" using assms full_Suc by (auto simp: sweeping_def)
  have e: "ents m (Suc n) = ents m n @ [ents m (Suc n) ! n]"
    using full_Suc [OF full] full_nth [OF full, of n] by simp
  have "(\<lambda>p. held (mset (ents m (Suc n))) p + ext p) =
      (\<lambda>p. owns (ents m (Suc n) ! n) p + (held (mset (ents m n)) p + ext p))"
    by (subst e) (simp add: fun_eq_iff)
  then have "refs_ok (\<lambda>p. owns (ents m (Suc n) ! n) p + (held (mset (ents m n)) p + ext p)) (desc_refs m)"
    using assms by (simp add: sweeping_def)
  from free_slot_ok [OF full _ this, of None] obtain h where h:
    "free_slot m n None = Inr ((set_slot_at m n None)\<lparr>desc_refs := h\<rparr>)"
    "refs_ok (\<lambda>p. held (mset (ents m n)) p + ext p) h" by auto
  let ?m' = "(set_slot_at m n None)\<lparr>desc_refs := h\<rparr>"
  have "full ?m' n" "ents ?m' n = ents m n" "vmentry ?m' ! n = None"
    using n full by (auto simp: full_def ents_def)
  then show ?thesis using h by (auto simp: sweeping_def same_shape_def)
qed

section \<open>The three loops\<close>

lemma trim_marked_spec:
  "sweeping ext m n \<Longrightarrow>
   \<exists>m' l. trim_marked m n = Inr (m', l) \<and> same_shape m m' \<and>
    (if live (mset (ents m n)) = {#} then l = 0 \<and> (0 < n \<longrightarrow> vmentry m' ! 0 = None)
     else l < n \<and> sweeping ext m' (Suc l) \<and> \<not> removed (ents m' (Suc l) ! l) \<and>
       live (mset (ents m' (Suc l))) = live (mset (ents m n)))"
proof (induction m n rule: trim_marked.induct)
  case (1 m)
  then show ?case by (simp add: ents_def)
next
  case (2 m n)
  have full: "full m (Suc n)" using 2(2) by (simp add: sweeping_def)
  define e where "e = ents m (Suc n) ! n"
  have at: "entry_at m n = Inr e" using full_entry_at [OF full, of n] by (simp add: e_def)
  have app: "ents m (Suc n) = ents m n @ [e]"
    using full_Suc [OF full] full_nth [OF full, of n] by (simp add: e_def)
  show ?case
  proof (cases "removed e")
    case True
    obtain m1 where m1: "free_slot m n None = Inr m1" "sweeping ext m1 n" "ents m1 n = ents m n"
        "same_shape m m1" "vmentry m1 ! n = None"
      using free_last_slot [OF 2(2)] by blast
    obtain m' l where m': "trim_marked m1 n = Inr (m', l)" "same_shape m1 m'"
        "if live (mset (ents m1 n)) = {#} then l = 0 \<and> (0 < n \<longrightarrow> vmentry m' ! 0 = None)
         else l < n \<and> sweeping ext m' (Suc l) \<and> \<not> removed (ents m' (Suc l) ! l) \<and>
           live (mset (ents m' (Suc l))) = live (mset (ents m1 n))"
      using "2.IH" [OF at True m1(1,2)] by blast
    have zero: "n = 0 \<Longrightarrow> vmentry m' ! 0 = None" using m'(1) m1(5) by simp
    have lv: "live (mset (ents m (Suc n))) = live (mset (ents m1 n))" using app True m1(3) by simp
    have tr: "trim_marked m (Suc n) = Inr (m', l)" using at True m1(1) m'(1) by simp
    show ?thesis
    proof (cases "live (mset (ents m1 n)) = {#}")
      case True
      then show ?thesis using m'(3) zero tr lv same_shape_trans [OF m1(4) m'(2)] by (cases n) simp_all
    next
      case False
      then show ?thesis using m'(3) tr lv same_shape_trans [OF m1(4) m'(2)] by simp
    qed
  next
    case False
    then show ?thesis using at app 2(2) by (simp add: nth_append full_Suc(1) [OF full])
  qed
qed

lemma back_up_spec:
  "sweeping ext m n \<Longrightarrow> i < n \<Longrightarrow> \<not> removed (ents m n ! i) \<Longrightarrow>
   \<exists>m' l. back_up m i n = Inr (m', l) \<and> same_shape m m' \<and> i \<le> l \<and> l < n \<and>
     sweeping ext m' (Suc l) \<and> \<not> removed (ents m' (Suc l) ! l) \<and>
     take (Suc i) (ents m' (Suc l)) = take (Suc i) (ents m n) \<and>
     live (mset (ents m' (Suc l))) = live (mset (ents m n))"
proof (induction m i n rule: back_up.induct)
  case (1 m i)
  then show ?case by simp
next
  case (2 m i n)
  have full: "full m (Suc n)" using 2(2) by (simp add: sweeping_def)
  define e where "e = ents m (Suc n) ! n"
  have at: "entry_at m n = Inr e" using full_entry_at [OF full, of n] by (simp add: e_def)
  have app: "ents m (Suc n) = ents m n @ [e]"
    using full_Suc [OF full] full_nth [OF full, of n] by (simp add: e_def)
  have len: "length (ents m n) = n" using full_Suc(1) [OF full] by simp
  show ?case
  proof (cases "n > i")
    case False
    then have "n = i" using 2(3) by simp
    then show ?thesis using 2(2,4) by simp
  next
    case True
    show ?thesis
    proof (cases "removed e")
      case False
      have "ents m (Suc n) ! n = e" "\<not> removed (ents m (Suc n) ! n)"
        using False by (simp_all add: e_def)
      then show ?thesis using at True False 2(2)
        by (intro exI [of _ m] exI [of _ n]) simp
    next
      case rem: True
      obtain m1 where m1: "free_slot m n None = Inr m1" "sweeping ext m1 n" "ents m1 n = ents m n"
          "same_shape m m1"
        using free_last_slot [OF 2(2)] by blast
      have "\<not> removed (ents m1 n ! i)" using 2(4) app m1(3) len True by (simp add: nth_append)
      from "2.IH" [OF True at rem m1(1,2) True this] obtain m' l where m':
          "back_up m1 i n = Inr (m', l)" "same_shape m1 m'" "i \<le> l" "l < n" "sweeping ext m' (Suc l)"
          "\<not> removed (ents m' (Suc l) ! l)" "take (Suc i) (ents m' (Suc l)) = take (Suc i) (ents m1 n)"
          "live (mset (ents m' (Suc l))) = live (mset (ents m1 n))" by blast
      moreover have "back_up m i (Suc n) = Inr (m', l)" using at True rem m1(1) m'(1) by simp
      moreover have "take (Suc i) (ents m (Suc n)) = take (Suc i) (ents m1 n)"
        using app m1(3) len True by simp
      moreover have "live (mset (ents m (Suc n))) = live (mset (ents m1 n))" using app m1(3) rem by simp
      ultimately show ?thesis
        using same_shape_trans [OF m1(4) m'(2)] by (intro exI [of _ m'] exI [of _ l]) simp
    qed
  qed
qed

text \<open>Moving the last entry into the slot of a marked one.\<close>

lemma move_last_down:
  assumes sw: "sweeping ext m (Suc n)" and i: "i < n"
  shows "\<exists>h. free_slot m i (vmentry m ! n) = Inr ((set_slot_at m i (vmentry m ! n))\<lparr>desc_refs := h\<rparr>) \<and>
    (let m1 = set_slot_at ((set_slot_at m i (vmentry m ! n))\<lparr>desc_refs := h\<rparr>) n None in
       sweeping ext m1 n \<and> same_shape m m1 \<and>
       ents m1 n = (ents m n)[i := ents m (Suc n) ! n] \<and>
       mset (ents m (Suc n)) = add_mset (ents m (Suc n) ! i) (mset (ents m1 n)))"
proof -
  have full: "full m (Suc n)" using sw by (simp add: sweeping_def)
  note n = full_Suc [OF full]
  define x where "x = ents m (Suc n) ! n"
  have x: "vmentry m ! n = Some x" using full_nth [OF full, of n] by (simp add: x_def)
  have app: "ents m (Suc n) = ents m n @ [x]" using n(2) x by simp
  have len: "length (ents m n) = n" using n(1) by simp
  let ?es = "(ents m n)[i := x]"
  have ei: "ents m (Suc n) ! i = ents m n ! i" using app len i by (simp add: nth_append)
  have ms: "mset (ents m (Suc n)) = add_mset (ents m (Suc n) ! i) (mset ?es)"
    unfolding ei using len i by (simp add: app mset_update)
  have "refs_ok (\<lambda>p. owns (ents m (Suc n) ! i) p + (held (mset ?es) p + ext p)) (desc_refs m)"
    using sw unfolding sweeping_def ms by (simp add: add.assoc)
  from free_slot_ok [OF full _ this, of "vmentry m ! n"] i obtain h where h:
    "free_slot m i (vmentry m ! n) = Inr ((set_slot_at m i (vmentry m ! n))\<lparr>desc_refs := h\<rparr>)"
    "refs_ok (\<lambda>p. held (mset ?es) p + ext p) h" by auto
  define m1 where "m1 = set_slot_at ((set_slot_at m i (vmentry m ! n))\<lparr>desc_refs := h\<rparr>) n None"
  have "take n (vmentry m1) = (take n (vmentry m))[i := Some x]"
    using i x by (simp add: m1_def) (simp add: take_update_swap)
  also have "\<dots> = map Some ?es" using n(1) by (simp add: full_map_Some map_update)
  finally have "full m1 n \<and> ents m1 n = ?es" using len by (intro fullI) auto
  then have "sweeping ext m1 n" "ents m1 n = ?es" using h(2) by (simp_all add: sweeping_def m1_def)
  moreover have "same_shape m m1" by (simp add: same_shape_def m1_def)
  ultimately show ?thesis using h(1) ms unfolding x_def [symmetric] m1_def [symmetric] Let_def
    by (intro exI [of _ h]) (simp add: m1_def)
qed

lemma sweep_marked_spec:
  "sweeping ext m (Suc n) \<Longrightarrow> \<not> removed (ents m (Suc n) ! n) \<Longrightarrow>
   (\<And>j. j < i \<Longrightarrow> j \<le> n \<Longrightarrow> \<not> removed (ents m (Suc n) ! j)) \<Longrightarrow>
   \<exists>m' l. sweep_marked m i n = Inr (m', l) \<and> same_shape m m' \<and> l \<le> n \<and> sweeping ext m' (Suc l) \<and>
     mset (ents m' (Suc l)) = live (mset (ents m (Suc n)))"
proof (induction m i n rule: sweep_marked.induct)
  case (1 m i n)
  have full: "full m (Suc n)" using "1.prems"(1) by (simp add: sweeping_def)
  show ?case
  proof (cases "i < n")
    case False
    have "\<not> removed e" if mem: "e \<in> set (ents m (Suc n))" for e
    proof -
      obtain j where "j < length (ents m (Suc n))" "e = ents m (Suc n) ! j"
        using mem by (auto simp: in_set_conv_nth)
      moreover from this have "j \<le> n" using ents_length [OF full] by linarith
      ultimately have "j \<le> n" "e = ents m (Suc n) ! j" by simp_all
      then show ?thesis using "1.prems"(2,3) False by (cases "j = n") simp_all
    qed
    then have "live (mset (ents m (Suc n))) = mset (ents m (Suc n))"
      by (simp add: live_def filter_mset_eq_conv)
    then show ?thesis using False "1.prems"(1) by (simp add: sweep_marked.simps)
  next
    case True
    let ?e = "ents m (Suc n) ! i"
    have at: "entry_at m i = Inr ?e" using full_entry_at [OF full, of i] True by simp
    show ?thesis
    proof (cases "removed ?e")
      case False
      have "\<not> removed (ents m (Suc n) ! j)" if "j < i + 1" "j \<le> n" for j
        using that False "1.prems"(3) by (cases "j = i") auto
      from "1.IH"(1) [OF True at False "1.prems"(1,2) this] show ?thesis
        using True False at by (simp add: sweep_marked.simps [of m i n])
    next
      case rem: True
      have nlen: "n < length (vmentry m)" using full by (simp add: full_def)
      obtain h where h: "free_slot m i (vmentry m ! n) = Inr ((set_slot_at m i (vmentry m ! n))\<lparr>desc_refs := h\<rparr>)"
          "let m1 = set_slot_at ((set_slot_at m i (vmentry m ! n))\<lparr>desc_refs := h\<rparr>) n None in
             sweeping ext m1 n \<and> same_shape m m1 \<and> ents m1 n = (ents m n)[i := ents m (Suc n) ! n] \<and>
             mset (ents m (Suc n)) = add_mset ?e (mset (ents m1 n))"
        using move_last_down [OF "1.prems"(1) True] by blast
      define m0 where "m0 = (set_slot_at m i (vmentry m ! n))\<lparr>desc_refs := h\<rparr>"
      define m1 where "m1 = set_slot_at m0 n None"
      have m1: "sweeping ext m1 n" "same_shape m m1" "ents m1 n = (ents m n)[i := ents m (Suc n) ! n]"
          "mset (ents m (Suc n)) = add_mset ?e (mset (ents m1 n))"
        using h(2) by (simp_all add: m1_def m0_def Let_def)
      have len: "length (ents m n) = n" using full_Suc(1) [OF full] by simp
      have "\<not> removed (ents m1 n ! i)" using m1(3) True len "1.prems"(2) by simp
      from back_up_spec [OF m1(1) True this] obtain m2 l where m2: "back_up m1 i n = Inr (m2, l)"
          "same_shape m1 m2" "i \<le> l" "l < n" "sweeping ext m2 (Suc l)" "\<not> removed (ents m2 (Suc l) ! l)"
          "take (Suc i) (ents m2 (Suc l)) = take (Suc i) (ents m1 n)"
          "live (mset (ents m2 (Suc l))) = live (mset (ents m1 n))" by blast
      have pre: "\<not> removed (ents m2 (Suc l) ! j)" if "j < i + 1" "j \<le> l" for j
      proof -
        have "ents m2 (Suc l) ! j = ents m1 n ! j"
          using arg_cong [OF m2(7), of "\<lambda>xs. xs ! j"] that by simp
        moreover have "\<not> removed (ents m1 n ! j)"
        proof (cases "j = i")
          case True
          then show ?thesis using m1(3) \<open>i < n\<close> len "1.prems"(2) by simp
        next
          case False
          then have "ents m1 n ! j = ents m (Suc n) ! j"
            using m1(3) that True len full_Suc(2) [OF full] by (simp add: nth_append)
          then show ?thesis using False that True "1.prems"(3) by simp
        qed
        ultimately show ?thesis by simp
      qed
      have "\<exists>m' l'. sweep_marked m2 (i + 1) l = Inr (m', l') \<and> same_shape m2 m' \<and> l' \<le> l \<and>
          sweeping ext m' (Suc l') \<and> mset (ents m' (Suc l')) = live (mset (ents m2 (Suc l)))"
        using "1.IH"(2) [OF True at _ nlen h(1), of "(m2, l)" m2 l] rem m2(1,5,6) pre
        by (simp add: m1_def m0_def)
      then obtain m' l' where m': "sweep_marked m2 (i + 1) l = Inr (m', l')" "same_shape m2 m'"
          "l' \<le> l" "sweeping ext m' (Suc l')" "mset (ents m' (Suc l')) = live (mset (ents m2 (Suc l)))"
        by blast
      have "sweep_marked m i n = Inr (m', l')"
        using True at rem nlen h(1) m2(1) m'(1)
        by (simp add: sweep_marked.simps [of m i n] m1_def m0_def)
      moreover have "same_shape m m'"
        using m1(2) m2(2) m'(2) same_shape_trans by blast
      moreover have "mset (ents m' (Suc l')) = live (mset (ents m (Suc n)))"
        using m'(5) m2(8) m1(4) rem by simp
      ultimately show ?thesis using m'(3,4) m2(4) by (intro exI [of _ m'] exI [of _ l']) simp
    qed
  qed
qed

section \<open>RemoveMarked\<close>

lemma RemoveMarked_spec:
  assumes sw: "sweeping ext m (nvalid m)" and some: "live (mset (ents m (nvalid m))) \<noteq> {#}"
  shows "\<exists>m'. NaClVmmapRemoveMarked m = Inr m' \<and> sweeping ext m' (nvalid m') \<and>
    mset (ents m' (nvalid m')) = live (mset (ents m (nvalid m))) \<and>
    vm_size m' = vm_size m \<and> length (vmentry m') = length (vmentry m) \<and>
    0 < nvalid m' \<and> nvalid m' \<le> nvalid m \<and> \<not> is_sorted m'"
proof -
  have "ents m 0 = []" by (simp add: ents_def)
  then have pos: "0 < nvalid m" using some by (cases "nvalid m") auto
  obtain m1 l where m1: "trim_marked m (nvalid m) = Inr (m1, l)" "same_shape m m1" "l < nvalid m"
      "sweeping ext m1 (Suc l)" "\<not> removed (ents m1 (Suc l) ! l)"
      "live (mset (ents m1 (Suc l))) = live (mset (ents m (nvalid m)))"
    using trim_marked_spec [OF sw] some by auto
  obtain m2 l' where m2: "sweep_marked m1 0 l = Inr (m2, l')" "same_shape m1 m2" "l' \<le> l"
      "sweeping ext m2 (Suc l')" "mset (ents m2 (Suc l')) = live (mset (ents m1 (Suc l)))"
    using sweep_marked_spec [OF m1(4,5), of 0] by auto
  have full: "full m1 (Suc l)" using m1(4) by (simp add: sweeping_def)
  have at: "entry_at m1 l = Inr (ents m1 (Suc l) ! l)" by (rule full_entry_at [OF full]) simp
  have zero: "(if l = 0 then bind_result (entry_at m1 0) (\<lambda>e. Inr (removed e)) else Inr False) = Inr False"
    using at m1(5) by (cases l) simp_all
  have "l < nvalid m1" using m1(2,3) by (simp add: same_shape_def)
  then have "NaClVmmapRemoveMarked m = Inr (m2\<lparr>nvalid := l' + 1, is_sorted := False\<rparr>)"
    using pos m1(1,5) m2(1) at zero by (simp add: NaClVmmapRemoveMarked_def del: if_split)
  moreover have "sweeping ext (m2\<lparr>nvalid := l' + 1, is_sorted := False\<rparr>) (Suc l')"
    "ents (m2\<lparr>nvalid := l' + 1, is_sorted := False\<rparr>) (Suc l') = ents m2 (Suc l')"
    using m2(4) by (simp_all add: sweeping_def full_def ents_def)
  ultimately show ?thesis
    using m1(2,3,6) m2(2,3,5) by (intro exI conjI) (assumption | simp add: same_shape_def)+
qed

lemma RemoveMarked_all_marked:
  assumes "sweeping ext m (nvalid m)" "0 < nvalid m" "live (mset (ents m (nvalid m))) = {#}"
  shows "NaClVmmapRemoveMarked m = Inl NullDeref"
proof -
  obtain m1 where m1: "trim_marked m (nvalid m) = Inr (m1, 0)" "vmentry m1 ! 0 = None" "same_shape m m1"
    using trim_marked_spec [OF assms(1)] assms(2,3) by auto
  have "0 < length (vmentry m1)"
    using m1(3) assms(1,2) by (auto simp: same_shape_def sweeping_def full_def)
  then have "entry_at m1 0 = Inl NullDeref" using m1(2) by (simp add: entry_at_def)
  then show ?thesis using m1(1) assms(2) by (simp add: NaClVmmapRemoveMarked_def)
qed

end
