(* ===== verification/Vmmap_Update.thy ===== *)
theory Vmmap_Update
  imports Vmmap_Sweep
begin

text \<open>
  What \<open>NaClVmmapUpdate\<close> does to the address space. The abstract memory map \<open>vm_view\<close> sends
  a page to its protection and to the descriptor bytes that back it; \<open>vm_inv\<close> says that the
  entries cover no page twice and that the reference counts are exact. The loop that cuts
  the existing entries is refined to \<open>cut_at\<close>, entry by entry.
\<close>

section \<open>Geometry\<close>

definition page_limit :: nat where "page_limit = 1048576"  \<comment> \<open>pages of a 32-bit address space\<close>

definition e_start :: "NaClVmmapEntry \<Rightarrow> nat" where "e_start e = unat (page_num e)"
definition e_end :: "NaClVmmapEntry \<Rightarrow> nat" where "e_end e = unat (page_num e) + unat (npages e)"

definition good_entry :: "NaClVmmapEntry \<Rightarrow> bool" where
  "good_entry e \<longleftrightarrow> \<not> removed e \<and> 0 < unat (npages e) \<and> e_end e \<le> page_limit"

definition covers :: "NaClVmmapEntry \<Rightarrow> nat \<Rightarrow> bool" where
  "covers e q \<longleftrightarrow> e_start e \<le> q \<and> q < e_end e"

definition once :: "NaClVmmapEntry multiset \<Rightarrow> bool" where
  "once M \<longleftrightarrow> (\<forall>q. size {#e \<in># M. covers e q#} \<le> 1)"

definition gapped :: "NaClVmmapEntry list \<Rightarrow> bool" where
  "gapped es \<longleftrightarrow> sorted_wrt (\<lambda>e f. e_end e \<le> e_start f) es"

definition backing :: "NaClVmmapEntry \<Rightarrow> nat \<Rightarrow> (nat \<times> u32) option" where
  "backing e q = map_option (\<lambda>o1. (ndp o1, offset o1 + of_nat ((q - e_start e) * 4096))) (nmop e)"

definition vm_view :: "NaClVmmap \<Rightarrow> nat \<Rightarrow> (int \<times> (nat \<times> u32) option) option" where
  "vm_view m q = map_option (\<lambda>e. (prot e, backing e q)) (List.find (\<lambda>e. covers e q) (ents m (nvalid m)))"

definition vm_inv :: "(nat \<Rightarrow> nat) \<Rightarrow> NaClVmmap \<Rightarrow> bool" where
  "vm_inv ext m \<longleftrightarrow> sweeping ext m (nvalid m) \<and> length (vmentry m) = vm_size m \<and>
     0 < vm_size m \<and> vm_size m \<le> 4 * page_limit \<and>
     (\<forall>e \<in> set (ents m (nvalid m)). good_entry e) \<and> once (mset (ents m (nvalid m))) \<and>
     (is_sorted m \<longrightarrow> gapped (ents m (nvalid m)))"

lemma good_end: "good_entry e \<Longrightarrow> unat (page_num e + npages e) = e_end e"
  by (simp add: good_entry_def e_end_def page_limit_def unat_plus_u32)

lemma once_add:
  "once (add_mset e M) \<longleftrightarrow> once M \<and> (\<forall>q. covers e q \<longrightarrow> (\<forall>f \<in># M. \<not> covers f q))"
proof -
  have "size {#f \<in># add_mset e M. covers f q#} \<le> 1 \<longleftrightarrow>
      size {#f \<in># M. covers f q#} \<le> 1 \<and> (covers e q \<longrightarrow> (\<forall>f \<in># M. \<not> covers f q))" for q
  proof (cases "covers e q")
    case True
    have "size {#f \<in># M. covers f q#} = 0 \<longleftrightarrow> (\<forall>f \<in># M. \<not> covers f q)" by auto
    moreover have "size {#f \<in># add_mset e M. covers f q#} = Suc (size {#f \<in># M. covers f q#})"
      using True by simp
    ultimately show ?thesis using True by (metis One_nat_def Suc_le_mono le_0_eq le_SucI)
  qed simp
  then show ?thesis unfolding once_def by blast
qed

lemma once_unique:
  "once (mset es) \<Longrightarrow> e \<in> set es \<Longrightarrow> covers e q \<Longrightarrow> List.find (\<lambda>e. covers e q) es = Some e"
proof (induction es)
  case (Cons x es)
  then show ?case by (cases "x = e") (auto simp: once_add)
qed simp

lemma vm_view_Some:
  assumes "once (mset (ents m (nvalid m)))"
  shows "vm_view m q = Some v \<longleftrightarrow> (\<exists>e \<in># mset (ents m (nvalid m)). covers e q \<and> v = (prot e, backing e q))"
proof
  assume "vm_view m q = Some v"
  then obtain e where e: "List.find (\<lambda>e. covers e q) (ents m (nvalid m)) = Some e" "v = (prot e, backing e q)"
    by (auto simp: vm_view_def)
  then have "e \<in> set (ents m (nvalid m)) \<and> covers e q" by (auto simp: find_Some_iff)
  then show "\<exists>e \<in># mset (ents m (nvalid m)). covers e q \<and> v = (prot e, backing e q)"
    using e(2) by auto
next
  assume "\<exists>e \<in># mset (ents m (nvalid m)). covers e q \<and> v = (prot e, backing e q)"
  then obtain e where "e \<in> set (ents m (nvalid m))" "covers e q" "v = (prot e, backing e q)" by auto
  then show "vm_view m q = Some v" using once_unique [OF assms] by (simp add: vm_view_def)
qed

lemma once_sum:
  "(\<Sum>e\<in>#M. card {q. q < L \<and> covers e q}) = (\<Sum>q<L. size {#e \<in># M. covers e q#})"
proof (induction M)
  case (add e M)
  have "card {q. q < L \<and> covers e q} = (\<Sum>q<L. if covers e q then 1 else 0)"
    by (simp add: sum.If_cases Int_def lessThan_def)
  moreover have "(\<Sum>q<L. size {#f \<in># add_mset e M. covers f q#}) =
      (\<Sum>q<L. (if covers e q then 1 else 0) + size {#f \<in># M. covers f q#})"
    by (rule sum.cong) auto
  ultimately show ?case using add by (simp add: sum.distrib)
qed simp

lemma once_size:
  assumes "once M" "\<And>e. e \<in># M \<Longrightarrow> good_entry e"
  shows "size M \<le> page_limit"
proof -
  have "1 \<le> card {q. q < page_limit \<and> covers e q}" if "e \<in># M" for e
  proof -
    have "e_start e \<in> {q. q < page_limit \<and> covers e q}"
      using assms(2) [OF that] by (simp add: good_entry_def covers_def e_start_def e_end_def)
    then have "{q. q < page_limit \<and> covers e q} \<noteq> {}" by blast
    then show ?thesis by (simp add: Suc_le_eq card_gt_0_iff)
  qed
  then have "(\<Sum>e\<in>#M. 1) \<le> (\<Sum>e\<in>#M. card {q. q < page_limit \<and> covers e q})"
    by (rule sum_mset_mono)
  also have "\<dots> \<le> (\<Sum>q<page_limit. 1)"
    unfolding once_sum using assms(1) by (intro sum_mono) (simp add: once_def)
  finally show ?thesis by simp
qed

section \<open>Sorting\<close>

lemma sint_diff_u32:
  fixes a b :: u32
  assumes "unat a < 2147483648" "unat b < 2147483648"
  shows "sint (a - b) = int (unat a) - int (unat b)"
proof -
  have "a - b = word_of_int (int (unat a) - int (unat b))"
    by (simp flip: wi_hom_sub)
  then have "sint (a - b) = signed_take_bit 31 (int (unat a) - int (unat b))"
    by (simp only: sint_sbintrunc') simp
  also have "\<dots> = int (unat a) - int (unat b)"
  proof (rule signed_take_bit_int_eq_self)
    have "(2::int) ^ 31 = 2147483648" by simp
    then show "- (2 ^ 31) \<le> int (unat a) - int (unat b)" "int (unat a) - int (unat b) < 2 ^ 31"
      using assms by linarith+
  qed
  finally show ?thesis .
qed

lemma NaClVmmapCmpEntries_le:
  "good_entry x \<Longrightarrow> good_entry y \<Longrightarrow> NaClVmmapCmpEntries x y \<le> 0 \<longleftrightarrow> e_start x \<le> e_start y"
  using sint_diff_u32 [of "page_num x" "page_num y"]
  unfolding NaClVmmapCmpEntries_def good_entry_def e_start_def e_end_def page_limit_def by linarith

lemma sorted_gapped:
  "sorted (map e_start es) \<Longrightarrow> once (mset es) \<Longrightarrow> \<forall>e \<in> set es. good_entry e \<Longrightarrow> gapped es"
proof (induction es)
  case (Cons x es)
  have "e_end x \<le> e_start y" if y: "y \<in> set es" for y
  proof (rule ccontr)
    assume "\<not> e_end x \<le> e_start y"
    then have "covers x (e_start y)" "covers y (e_start y)"
      using Cons.prems y by (auto simp: covers_def good_entry_def e_start_def e_end_def)
    then show False using Cons.prems(2) y by (auto simp: once_add)
  qed
  then show ?case using Cons by (auto simp: gapped_def once_add)
qed (simp add: gapped_def)

lemma live_good: "(\<And>e. e \<in># M \<Longrightarrow> good_entry e) \<Longrightarrow> live M = M"
  by (simp add: live_def filter_mset_eq_conv good_entry_def)

lemma MakeSorted_spec:
  assumes inv: "vm_inv ext m"
  shows "\<exists>m'. NaClVmmapMakeSorted m = Inr m' \<and> vm_inv ext m' \<and> gapped (ents m' (nvalid m')) \<and>
    mset (ents m' (nvalid m')) = mset (ents m (nvalid m)) \<and> is_sorted m' \<and> nvalid m' = nvalid m"
proof (cases "is_sorted m")
  case True
  then show ?thesis using inv by (simp add: NaClVmmapMakeSorted_def vm_inv_def)
next
  case False
  let ?M = "mset (ents m (nvalid m))"
  have good: "\<And>e. e \<in># ?M \<Longrightarrow> good_entry e" using inv by (simp add: vm_inv_def)
  have sw: "sweeping ext m (nvalid m)" using inv by (simp add: vm_inv_def)
  have "\<exists>m1. NaClVmmapRemoveMarked m = Inr m1 \<and> sweeping ext m1 (nvalid m1) \<and>
      mset (ents m1 (nvalid m1)) = ?M \<and> vm_size m1 = vm_size m \<and> length (vmentry m1) = length (vmentry m)"
  proof (cases "nvalid m = 0")
    case True
    then show ?thesis using sw by (simp add: NaClVmmapRemoveMarked_def)
  next
    case False
    have lv: "live ?M = ?M" by (rule live_good [OF good])
    moreover have "length (ents m (nvalid m)) = nvalid m" using sw by (simp add: sweeping_def)
    then have "ents m (nvalid m) \<noteq> []" using False by auto
    ultimately have "live ?M \<noteq> {#}" by simp
    then show ?thesis using RemoveMarked_spec [OF sw] unfolding lv by blast
  qed
  then obtain m1 where m1: "NaClVmmapRemoveMarked m = Inr m1" "sweeping ext m1 (nvalid m1)"
      "mset (ents m1 (nvalid m1)) = ?M" "vm_size m1 = vm_size m" "length (vmentry m1) = length (vmentry m)"
    by blast
  have full: "full m1 (nvalid m1)" using m1(2) by (simp add: sweeping_def)
  define es where "es = qsort NaClVmmapCmpEntries (ents m1 (nvalid m1))"
  define m' where "m' = m1\<lparr>vmentry := map Some es @ drop (nvalid m1) (vmentry m1), is_sorted := True\<rparr>"
  have es: "mset es = ?M" "length es = nvalid m1"
    using m1(3) full by (simp_all add: es_def libc.sort_mset libc.sort_length)
  have nv: "nvalid m1 = nvalid m"
    using arg_cong [OF m1(3), of size] full sw by (simp add: sweeping_def)
  have "full m' (nvalid m') \<and> ents m' (nvalid m') = es"
    using es(2) by (intro fullI) (simp_all add: m'_def)
  then have f': "full m' (nvalid m')" "ents m' (nvalid m') = es" by simp_all
  have "sorted (map e_start es)"
    unfolding es_def using good m1(3) mset_eq_setD [OF m1(3)]
    by (intro libc.sort_key) (auto intro!: NaClVmmapCmpEntries_le)
  then have gap: "gapped es"
    using inv es(1) good mset_eq_setD [OF es(1)] by (intro sorted_gapped) (auto simp: vm_inv_def)
  have "NaClVmmapMakeSorted m = Inr m'"
    using False m1(1) full_valid_entries [OF full] by (simp add: NaClVmmapMakeSorted_def m'_def es_def)
  moreover have "sweeping ext m' (nvalid m')"
    using f' m1(2,3) es(1) by (simp add: sweeping_def m'_def)
  moreover have "length (vmentry m') = vm_size m'" "vm_size m' = vm_size m"
    using inv m1(4,5) es(2) full by (simp_all add: m'_def vm_inv_def full_def)
  ultimately show ?thesis
    using f' es(1) gap good inv nv mset_eq_setD [OF es(1)]
    by (intro exI [of _ m']) (simp add: vm_inv_def, simp add: m'_def)
qed

section \<open>Cutting the entries\<close>

text \<open>What the loop leaves of one entry when the pages from \<open>pn\<close> to \<open>ne\<close> are replaced: the
  entry itself when it does not meet them, else its part below and its part above, the
  latter with the offset of its backing moved along.\<close>

definition cut_at :: "u32 \<Rightarrow> u32 \<Rightarrow> NaClVmmapEntry \<Rightarrow> NaClVmmapEntry multiset" where
  "cut_at pn ne e =
     (if e_end e \<le> unat pn \<or> unat ne \<le> e_start e then {#e#}
      else (if e_start e < unat pn then {#e\<lparr>npages := pn - page_num e\<rparr>#} else {#}) +
           (if unat ne < e_end e
            then {#e\<lparr>page_num := ne, npages := page_num e + npages e - ne,
                     nmop := NaClMemObjIncOffset (nmop e) (push_bit NACL_PAGESHIFT (ne - page_num e))\<rparr>#}
            else {#}))"

definition cut_all :: "u32 \<Rightarrow> u32 \<Rightarrow> NaClVmmapEntry multiset \<Rightarrow> NaClVmmapEntry multiset" where
  "cut_all pn ne M = sum_mset (image_mset (cut_at pn ne) M)"

lemma cut_all_simps [simp]:
  "cut_all pn ne {#} = {#}" "cut_all pn ne (add_mset e M) = cut_at pn ne e + cut_all pn ne M"
  by (simp_all add: cut_all_def)

lemma cut_all_above:
  "(\<And>e. e \<in># M \<Longrightarrow> unat ne \<le> e_start e) \<Longrightarrow> cut_all pn ne M = M"
  by (induction M) (simp_all add: cut_at_def)

lemma owns_upd [simp]:
  "owns (e\<lparr>npages := x\<rparr>) p = owns e p" "owns (e\<lparr>removed := b\<rparr>) p = owns e p"
  "owns (e\<lparr>page_num := y\<rparr>) p = owns e p" "owns (e\<lparr>nmop := NaClMemObjIncOffset (nmop e) k\<rparr>) p = owns e p"
  by (auto simp: owns_def NaClMemObjIncOffset_def split: option.splits)

section \<open>Adding an entry\<close>

lemma NaClVmmapAdd_ok:
  assumes full: "full m (nvalid m)" and len: "length (vmentry m) = vm_size m"
    and sz: "0 < vm_size m" "vm_size m \<le> 4 * page_limit" and ok: "ok1" "ok2"
    and room: "nvalid m \<le> 2 * page_limit"
  shows "\<exists>m'. NaClVmmapAdd ok1 ok2 m pn n pr o1 = Inr (1, m') \<and> nvalid m' = Suc (nvalid m) \<and>
    full m' (nvalid m') \<and>
    ents m' (nvalid m') = ents m (nvalid m) @ [\<lparr>page_num = pn, npages = n, prot = pr, nmop = o1, removed = False\<rparr>] \<and>
    desc_refs m' = desc_refs m \<and> length (vmentry m') = vm_size m' \<and> 0 < vm_size m' \<and>
    vm_size m' \<le> 4 * page_limit \<and> \<not> is_sorted m'"
proof -
  define m1 where "m1 = (if nvalid m = vm_size m
      then m\<lparr>vmentry := take (2 * vm_size m) (vmentry m @ replicate (vm_size m) None), vm_size := 2 * vm_size m\<rparr>
      else m)"
  have grow: "(if nvalid m = vm_size m
        then if \<not> ok1 then Inr (0, m) else if 8 * vm_size m \<ge> 4294967296 then Inl OutOfBounds
             else Inr (1, m\<lparr>vmentry := take (2 * vm_size m) (vmentry m @ replicate (vm_size m) None),
                           vm_size := 2 * vm_size m\<rparr>)
        else Inr (1, m)) = Inr (1 :: int, m1)"
    using ok sz by (simp add: m1_def page_limit_def)
  have nv: "nvalid m \<le> vm_size m" using full len by (simp add: full_def)
  have m1: "take (nvalid m) (vmentry m1) = take (nvalid m) (vmentry m)" "nvalid m1 = nvalid m"
      "desc_refs m1 = desc_refs m" "length (vmentry m1) = vm_size m1" "nvalid m < length (vmentry m1)"
      "vm_size m1 \<le> 4 * page_limit"
    using len sz room nv by (auto simp: m1_def)
  let ?e = "\<lparr>page_num = pn, npages = n, prot = pr, nmop = o1, removed = False\<rparr>"
  let ?m' = "(set_slot_at m1 (nvalid m) (Some ?e))\<lparr>nvalid := nvalid m + 1, is_sorted := False\<rparr>"
  have "NaClVmmapAdd ok1 ok2 m pn n pr o1 = Inr (1, ?m')"
    unfolding NaClVmmapAdd_def grow using m1 ok by (simp add: NaClVmmapEntryMake_def)
  moreover have "full ?m' (Suc (nvalid m)) \<and> ents ?m' (Suc (nvalid m)) = ents m (nvalid m) @ [?e]"
  proof (rule fullI)
    show "take (Suc (nvalid m)) (vmentry ?m') = map Some (ents m (nvalid m) @ [?e])"
      using m1(1,5) full by (simp add: take_Suc_conv_app_nth full_map_Some)
  qed (use full in simp)
  ultimately show ?thesis using m1 sz by (intro exI [of _ ?m']) (auto simp: m1_def)
qed

lemma set_entry:
  assumes "full m n" "i < n"
  shows "full (set_slot_at m i (Some e)) n" "ents (set_slot_at m i (Some e)) n = (ents m n)[i := e]"
proof -
  have "full (set_slot_at m i (Some e)) n \<and> ents (set_slot_at m i (Some e)) n = (ents m n)[i := e]"
    using assms by (intro fullI) (simp_all add: take_update_swap full_map_Some map_update)
  then show "full (set_slot_at m i (Some e)) n" "ents (set_slot_at m i (Some e)) n = (ents m n)[i := e]"
    by simp_all
qed

section \<open>The loop cuts every entry\<close>

lemma sweeping_set_entry:
  assumes sw: "sweeping ext m n" and es: "ents m n = s @ e # t" and ow: "owns e' = owns e"
  shows "sweeping ext (set_slot_at m (length s) (Some e')) n"
    "ents (set_slot_at m (length s) (Some e')) n = s @ e' # t"
proof -
  have full: "full m n" using sw by (simp add: sweeping_def)
  have lt: "length s < n" using ents_length [OF full] es by simp
  have "ents (set_slot_at m (length s) (Some e')) n = s @ e' # t"
    using set_entry(2) [OF full lt] es by simp
  moreover from this have "held (mset (ents (set_slot_at m (length s) (Some e')) n)) = held (mset (ents m n))"
    using es ow by (simp add: fun_eq_iff)
  ultimately show "ents (set_slot_at m (length s) (Some e')) n = s @ e' # t"
    "sweeping ext (set_slot_at m (length s) (Some e')) n"
    using set_entry(1) [OF full lt] sw by (simp_all add: sweeping_def)
qed

definition vm_sized :: "NaClVmmap \<Rightarrow> bool" where
  "vm_sized m \<longleftrightarrow> length (vmentry m) = vm_size m \<and> 0 < vm_size m \<and> vm_size m \<le> 4 * page_limit"

lemma vm_sized_set_slot [simp]: "vm_sized (set_slot_at m i v) = vm_sized m"
  by (simp add: vm_sized_def)

text \<open>Splitting the backing takes one more reference, at the new offset.\<close>

lemma NaClMemObjSplit_ok:
  assumes "ok" and refs: "refs_ok (\<lambda>p. owns e p + f p) h" and lim: "\<And>p. owns e p + f p < 4294967295"
  shows "\<exists>h'. NaClMemObjSplit ok h (nmop e) k = Inr (NaClMemObjIncOffset (nmop e) k, h') \<and>
    refs_ok (\<lambda>p. owns e p + (owns e p + f p)) h'"
proof (cases "nmop e")
  case None
  then show ?thesis using refs by (simp add: NaClMemObjSplit_def NaClMemObjIncOffset_def owns_def)
next
  case (Some o1)
  let ?t = "\<lambda>p. owns e p + f p"
  have pos: "0 < ?t (ndp o1)" using Some by (simp add: owns_def)
  obtain h' where h': "NaClDescRef h (ndp o1) = Inr h'" "refs_ok (?t(ndp o1 := Suc (?t (ndp o1)))) h'"
    using NaClDescRef_ok [OF refs pos lim] by blast
  have "?t(ndp o1 := Suc (?t (ndp o1))) = (\<lambda>p. owns e p + (owns e p + f p))"
    using Some by (auto simp: owns_def fun_eq_iff)
  then show ?thesis
    using h' Some assms(1) by (simp add: NaClMemObjSplit_def NaClMemObjCopyCtorOff_def NaClMemObjIncOffset_def)
qed

lemma update_split:
  assumes sw: "sweeping ext m (nvalid m)" and es: "ents m (nvalid m) = s @ e # t" and sz: "vm_sized m"
    and ok: "ok0" "ok1" "ok2" and room: "nvalid m \<le> page_limit"
    and lim: "\<And>p. held (mset (s @ e # t)) p + ext p < 4294967295" and e': "owns e' = owns e"
  shows "\<exists>h m1. NaClMemObjSplit ok0 (desc_refs m) (nmop e) k = Inr (NaClMemObjIncOffset (nmop e) k, h) \<and>
    NaClVmmapAdd ok1 ok2 (m\<lparr>desc_refs := h\<rparr>) pn n pr (NaClMemObjIncOffset (nmop e) k) = Inr (1, m1) \<and>
    sweeping ext (set_slot_at m1 (length s) (Some e')) (nvalid m1) \<and> vm_sized m1 \<and>
    nvalid m1 = Suc (nvalid m) \<and>
    ents (set_slot_at m1 (length s) (Some e')) (nvalid m1) =
      s @ e' # t @ [\<lparr>page_num = pn, npages = n, prot = pr, nmop = NaClMemObjIncOffset (nmop e) k, removed = False\<rparr>]"
proof -
  define f where "f p = held (mset (s @ t)) p + ext p" for p
  have tot: "(\<lambda>p. held (mset (ents m (nvalid m))) p + ext p) = (\<lambda>p. owns e p + f p)"
    by (simp add: es f_def fun_eq_iff)
  have "refs_ok (\<lambda>p. owns e p + f p) (desc_refs m)" using sw unfolding sweeping_def tot by blast
  moreover have "\<And>p. owns e p + f p < 4294967295" using lim by (simp add: f_def algebra_simps)
  ultimately obtain h where h: "NaClMemObjSplit ok0 (desc_refs m) (nmop e) k = Inr (NaClMemObjIncOffset (nmop e) k, h)"
      "refs_ok (\<lambda>p. owns e p + (owns e p + f p)) h"
    using NaClMemObjSplit_ok [OF ok(1)] by blast
  let ?new = "\<lparr>page_num = pn, npages = n, prot = pr, nmop = NaClMemObjIncOffset (nmop e) k, removed = False\<rparr>"
  let ?mh = "m\<lparr>desc_refs := h\<rparr>"
  have "full ?mh (nvalid ?mh)" "ents ?mh (nvalid ?mh) = s @ e # t"
    using sw es by (simp_all add: sweeping_def full_def ents_def)
  then obtain m1 where m1: "NaClVmmapAdd ok1 ok2 ?mh pn n pr (NaClMemObjIncOffset (nmop e) k) = Inr (1, m1)"
      "nvalid m1 = Suc (nvalid m)" "full m1 (nvalid m1)" "ents m1 (nvalid m1) = s @ e # t @ [?new]"
      "desc_refs m1 = h" "vm_sized m1"
    using NaClVmmapAdd_ok [of ?mh ok1 ok2 pn n pr "NaClMemObjIncOffset (nmop e) k"] sz ok room
    by (auto simp: vm_sized_def)
  have "owns ?new = owns e" by (auto simp: owns_def NaClMemObjIncOffset_def fun_eq_iff split: option.splits)
  then have "(\<lambda>p. held (mset (ents m1 (nvalid m1))) p + ext p) = (\<lambda>p. owns e p + (owns e p + f p))"
    by (simp add: m1(4) f_def fun_eq_iff)
  then have "sweeping ext m1 (nvalid m1)" using m1(3,5) h(2) by (simp add: sweeping_def)
  note set = sweeping_set_entry [OF this m1(4) e']
  show ?thesis using h(1) m1(1,2,6) set by blast
qed

lemma update_loop_spec:
  assumes ok: "ok 0" "ok 1" "ok 2" and reg: "unat pn < unat ne" "unat ne \<le> page_limit"
  shows "sweeping ext m (nvalid m) \<Longrightarrow> ents m (nvalid m) = s @ t \<Longrightarrow> i = length s \<Longrightarrow> gapped t \<Longrightarrow>
    \<forall>e \<in> set t. good_entry e \<Longrightarrow> vm_sized m \<Longrightarrow> nvalid m \<le> page_limit \<Longrightarrow>
    (\<And>p. held (mset (s @ t)) p + ext p < 4294967295) \<Longrightarrow>
    \<exists>m'. update_loop ok pn ne m i = Inr m' \<and> sweeping ext m' (nvalid m') \<and> vm_sized m' \<and>
      nvalid m \<le> nvalid m' \<and> nvalid m' \<le> nvalid m + 1 \<and> live (mset (ents m' (nvalid m'))) = live (mset s) + cut_all pn ne (mset t)"
proof (induction t arbitrary: m s i)
  case Nil
  have "length (ents m (nvalid m)) = nvalid m" using Nil.prems(1) by (simp add: sweeping_def)
  then have "i = nvalid m" using Nil.prems(2,3) by simp
  then show ?case using Nil by (simp add: update_loop.simps)
next
  case (Cons e t)
  have full: "full m (nvalid m)" using Cons.prems(1) by (simp add: sweeping_def)
  have i: "i < nvalid m" using Cons.prems(2,3) ents_length [OF full] by simp
  have at: "entry_at m i = Inr e" using full_entry_at [OF full i] Cons.prems(2,3) by simp
  have good: "good_entry e" using Cons.prems(5) by simp
  have above: "e_end e \<le> e_start f" if "f \<in> set t" for f using Cons.prems(4) that by (simp add: gapped_def)
  have lt: "live (mset t) = mset t" using Cons.prems(5) by (intro live_good) auto
  have conds: "page_num e < pn \<longleftrightarrow> e_start e < unat pn" "ne < page_num e + npages e \<longleftrightarrow> unat ne < e_end e"
    "pn < page_num e + npages e \<longleftrightarrow> unat pn < e_end e" "page_num e < ne \<longleftrightarrow> e_start e < unat ne"
    "pn \<le> page_num e \<longleftrightarrow> unat pn \<le> e_start e" "page_num e + npages e \<le> ne \<longleftrightarrow> e_end e \<le> unat ne"
    "ne \<le> page_num e \<longleftrightarrow> unat ne \<le> e_start e" "page_num e + npages e \<le> pn \<longleftrightarrow> e_end e \<le> unat pn"
    by (simp_all add: word_less_nat_alt word_le_nat_alt good_end [OF good] e_start_def)
  have nonempty: "e_start e < e_end e" and ne: "\<not> removed e"
    using good by (simp_all add: good_entry_def e_start_def e_end_def)
  note unfold = update_loop.simps [of ok pn ne m i]
  have continue: "\<exists>m'. update_loop ok pn ne m1 (i + 1) = Inr m' \<and> sweeping ext m' (nvalid m') \<and> vm_sized m' \<and>
      nvalid m \<le> nvalid m' \<and> nvalid m' \<le> nvalid m + 1 \<and>
      live (mset (ents m' (nvalid m'))) = live (mset s) + cut_all pn ne (mset (e # t))"
    if m1: "m1 = set_slot_at m i (Some e')" and ow: "owns e' = owns e" and c: "live {#e'#} = cut_at pn ne e" for m1 e'
  proof -
    note st = sweeping_set_entry [OF Cons.prems(1,2) ow, folded Cons.prems(3) m1]
    have nv: "nvalid m1 = nvalid m" by (simp add: m1)
    have "held (mset ((s @ [e']) @ t)) p + ext p < 4294967295" for p
      using Cons.prems(8) [of p] ow by simp
    then obtain m' where m': "update_loop ok pn ne m1 (i + 1) = Inr m'" "sweeping ext m' (nvalid m')"
        "vm_sized m'" "nvalid m1 \<le> nvalid m'" "nvalid m' \<le> nvalid m1 + 1"
        "live (mset (ents m' (nvalid m'))) = live (mset (s @ [e'])) + cut_all pn ne (mset t)"
      using Cons.IH [of m1 "s @ [e']" "i + 1"] st nv Cons.prems(3-7) by (auto simp: gapped_def m1)
    moreover have "live (mset (s @ [e'])) + cut_all pn ne (mset t) =
        live (mset s) + cut_all pn ne (mset (e # t))"
      using c by (auto simp: ac_simps split: if_splits)
    ultimately show ?thesis using nv by auto
  qed
  consider (split) "e_start e < unat pn" "unat ne < e_end e"
    | (below) "e_start e < unat pn" "unat pn < e_end e" "e_end e \<le> unat ne"
    | (above) "unat pn \<le> e_start e" "e_start e < unat ne" "unat ne < e_end e"
    | (inside) "unat pn \<le> e_start e" "e_end e \<le> unat ne"
    | (apart) "unat ne \<le> e_start e \<or> e_end e \<le> unat pn"
    by linarith
  then show ?case
  proof cases
    case split
    let ?k = "push_bit NACL_PAGESHIFT (ne - page_num e)"
    let ?e' = "e\<lparr>npages := pn - page_num e\<rparr>"
    let ?new = "\<lparr>page_num = ne, npages = page_num e + npages e - ne, prot = prot e,
        nmop = NaClMemObjIncOffset (nmop e) ?k, removed = False\<rparr>"
    have ow: "owns ?e' = owns e" by (simp add: fun_eq_iff)
    obtain h m1 where h: "NaClMemObjSplit (ok 0) (desc_refs m) (nmop e) ?k = Inr (NaClMemObjIncOffset (nmop e) ?k, h)"
        "NaClVmmapAdd (ok 1) (ok 2) (m\<lparr>desc_refs := h\<rparr>) ne (page_num e + npages e - ne) (prot e)
           (NaClMemObjIncOffset (nmop e) ?k) = Inr (1, m1)"
        "sweeping ext (set_slot_at m1 (length s) (Some ?e')) (nvalid m1)" "vm_sized m1"
        "nvalid m1 = Suc (nvalid m)"
        "ents (set_slot_at m1 (length s) (Some ?e')) (nvalid m1) = s @ ?e' # t @ [?new]"
      using update_split [OF Cons.prems(1,2,6) ok Cons.prems(7,8) ow] by blast
    have "?new = e\<lparr>page_num := ne, npages := page_num e + npages e - ne,
        nmop := NaClMemObjIncOffset (nmop e) ?k\<rparr>" using ne by (cases e) simp
    then have "cut_at pn ne e = {#?e', ?new#}" using split reg by (simp add: cut_at_def)
    moreover have "cut_all pn ne (mset t) = mset t"
      using above split(2) by (intro cut_all_above) (force dest: above)
    ultimately have "live (mset (s @ ?e' # t @ [?new])) = live (mset s) + cut_all pn ne (mset (e # t))"
      using lt ne by simp
    moreover have "update_loop ok pn ne m i = Inr (set_slot_at m1 (length s) (Some ?e'))"
      unfolding unfold using i at conds split h(1,2) Cons.prems(3) by (simp add: Let_def)
    ultimately show ?thesis using h(3-6) by simp
  next
    case below
    have "update_loop ok pn ne m i = update_loop ok pn ne (set_slot_at m i (Some (e\<lparr>npages := pn - page_num e\<rparr>))) (i + 1)"
      unfolding unfold using i at conds below by (simp add: Let_def)
    moreover have "live {#e\<lparr>npages := pn - page_num e\<rparr>#} = cut_at pn ne e"
      using below reg ne by (simp add: cut_at_def)
    ultimately show ?thesis using continue [OF refl] by (simp add: fun_eq_iff)
  next
    case above
    let ?e' = "e\<lparr>nmop := NaClMemObjIncOffset (nmop e) (push_bit NACL_PAGESHIFT (ne - page_num e)),
        page_num := ne, npages := page_num e + npages e - ne\<rparr>"
    have ow: "owns ?e' = owns e" by (simp add: fun_eq_iff)
    note st = sweeping_set_entry [OF Cons.prems(1,2) ow, folded Cons.prems(3)]
    have "update_loop ok pn ne m i = Inr (set_slot_at m i (Some ?e'))"
      unfolding unfold using i at conds above by (simp add: Let_def)
    moreover have "cut_all pn ne (mset t) = mset t"
      using above(3) \<open>\<And>f. f \<in> set t \<Longrightarrow> e_end e \<le> e_start f\<close> by (intro cut_all_above) force
    then have "live (mset (s @ ?e' # t)) = live (mset s) + cut_all pn ne (mset (e # t))"
      using above lt ne nonempty by (simp add: cut_at_def)
    ultimately show ?thesis using st Cons.prems(6) by simp
  next
    case inside
    have "update_loop ok pn ne m i = update_loop ok pn ne (set_slot_at m i (Some (e\<lparr>removed := True\<rparr>))) (i + 1)"
      unfolding unfold using i at conds inside nonempty by (simp add: Let_def)
    moreover have "live {#e\<lparr>removed := True\<rparr>#} = cut_at pn ne e"
      using inside nonempty by (simp add: cut_at_def)
    ultimately show ?thesis using continue [OF refl] by (simp add: fun_eq_iff)
  next
    case apart
    have "vmentry m ! i = Some e" using full_nth [OF full i] Cons.prems(2,3) by simp
    then have "(vmentry m)[i := Some e] = vmentry m" by (metis list_update_id)
    then have "set_slot_at m i (Some e) = m" by (simp add: set_slot_at_def)
    moreover have "update_loop ok pn ne m i = update_loop ok pn ne m (i + 1)"
    proof (cases "unat ne \<le> e_start e")
      case True
      then have "\<not> e_start e < unat ne" "\<not> e_start e < unat pn" "\<not> e_end e \<le> unat ne"
        using nonempty reg(1) by linarith+
      then show ?thesis unfolding unfold using i at conds True by (simp add: Let_def)
    next
      case False
      then have "e_end e \<le> unat pn" "\<not> unat pn < e_end e" "\<not> unat ne < e_end e" "\<not> unat pn \<le> e_start e"
        using apart nonempty reg(1) by linarith+
      then show ?thesis unfolding unfold using i at conds by (simp add: Let_def)
    qed
    moreover have "live {#e#} = cut_at pn ne e" using apart ne by (auto simp: cut_at_def)
    ultimately show ?thesis using continue [of "set_slot_at m i (Some e)" e] by simp
  qed
qed

section \<open>The cut map\<close>

text \<open>The upper part of a cut entry covers the pages from the end of the region on and keeps
  their backing.\<close>

lemma cut_entry:
  assumes good: "good_entry e" and reg: "unat pn < unat ne" and f: "f \<in># cut_at pn ne e"
  shows "good_entry f" "covers f q \<Longrightarrow> covers e q \<and> \<not> (unat pn \<le> q \<and> q < unat ne)"
    "covers f q \<Longrightarrow> prot f = prot e \<and> backing f q = backing e q" "owns f = owns e"
proof -
  have lim: "e_end e \<le> page_limit" "0 < unat (npages e)" "\<not> removed e" using good by (simp_all add: good_entry_def)
  have sum: "unat (page_num e + npages e) = e_end e" by (rule good_end [OF good])
  let ?low = "e\<lparr>npages := pn - page_num e\<rparr>"
  let ?k = "push_bit NACL_PAGESHIFT (ne - page_num e)"
  let ?up = "e\<lparr>page_num := ne, npages := page_num e + npages e - ne, nmop := NaClMemObjIncOffset (nmop e) ?k\<rparr>"
  consider (apart) "e_end e \<le> unat pn \<or> unat ne \<le> e_start e" "f = e"
    | (low) "e_start e < unat pn" "unat pn < e_end e" "f = ?low"
    | (up) "unat ne < e_end e" "e_start e < unat ne" "f = ?up"
  proof (cases "e_end e \<le> unat pn \<or> unat ne \<le> e_start e")
    case True
    then show ?thesis using f that(1) by (simp add: cut_at_def)
  next
    case False
    then consider "e_start e < unat pn" "f = ?low" | "unat ne < e_end e" "f = ?up"
      using f by (auto simp: cut_at_def split: if_splits)
    then show ?thesis using that(2,3) False by cases simp_all
  qed
  then have "good_entry f \<and> (\<forall>q. covers f q \<longrightarrow> covers e q \<and> \<not> (unat pn \<le> q \<and> q < unat ne) \<and>
      prot f = prot e \<and> backing f q = backing e q) \<and> owns f = owns e"
  proof cases
    case apart
    then show ?thesis using good by (auto simp: covers_def)
  next
    case low
    have s: "unat (pn - page_num e) = unat pn - e_start e"
      using low(1) by (simp add: unat_minus_u32 e_start_def)
    have geo: "e_start f = e_start e" "e_end f = unat pn"
      using low s by (simp_all add: e_start_def e_end_def)
    have "good_entry f" using low s lim geo by (simp add: good_entry_def)
    moreover have "owns f = owns e" "prot f = prot e" "\<And>q. backing f q = backing e q"
      using low(3) by (simp_all add: fun_eq_iff backing_def e_start_def)
    ultimately show ?thesis using low(1,2) geo by (simp add: covers_def)
  next
    case up
    have s: "unat (page_num e + npages e - ne) = e_end e - unat ne"
      using up(1) sum by (simp add: unat_minus_u32)
    have geo: "e_start f = unat ne" "e_end f = e_end e"
      using up s by (simp_all add: e_start_def e_end_def)
    have "good_entry f" using up s lim geo by (simp add: good_entry_def)
    moreover have "backing f q = backing e q" if "unat ne \<le> q" for q
    proof -
      have d: "unat (ne - page_num e) = unat ne - e_start e"
        using up(2) by (simp add: unat_minus_u32 e_start_def)
      have "?k = of_nat ((unat ne - e_start e) * 4096)"
        by (simp add: push_bit_eq_mult NACL_PAGESHIFT_def flip: d)
      then have "?k + of_nat ((q - unat ne) * 4096) = of_nat ((q - e_start e) * 4096)"
        using that up(2) by (simp flip: of_nat_add add_mult_distrib del: of_nat_mult)
      then show ?thesis
        using up(3) geo(1) by (cases "nmop e") (simp_all add: backing_def NaClMemObjIncOffset_def add.assoc)
    qed
    moreover have "owns f = owns e"
      unfolding up(3) by (cases "nmop e") (simp_all add: owns_def NaClMemObjIncOffset_def fun_eq_iff)
    moreover have "prot f = prot e" using up(3) by simp
    ultimately show ?thesis using up(1,2) geo by (simp add: covers_def)
  qed
  then show "good_entry f" "covers f q \<Longrightarrow> covers e q \<and> \<not> (unat pn \<le> q \<and> q < unat ne)"
    "covers f q \<Longrightarrow> prot f = prot e \<and> backing f q = backing e q" "owns f = owns e" by blast+
qed

lemma cut_covers:
  assumes good: "good_entry e" and reg: "unat pn < unat ne"
  shows "size {#f \<in># cut_at pn ne e. covers f q#} =
    (if covers e q \<and> \<not> (unat pn \<le> q \<and> q < unat ne) then 1 else 0)"
proof -
  have sum: "unat (page_num e + npages e) = e_end e" by (rule good_end [OF good])
  have s: "e_start e < unat pn \<Longrightarrow> unat (pn - page_num e) = unat pn - e_start e"
    by (simp add: unat_minus_u32 e_start_def)
  have u: "unat ne < e_end e \<Longrightarrow> unat (page_num e + npages e - ne) = e_end e - unat ne"
    using sum by (simp add: unat_minus_u32)
  have low: "covers (e\<lparr>npages := pn - page_num e\<rparr>) q \<longleftrightarrow> e_start e \<le> q \<and> q < unat pn" if "e_start e < unat pn"
    using s [OF that] that by (simp add: covers_def e_start_def e_end_def)
  have up: "covers (e\<lparr>page_num := ne, npages := page_num e + npages e - ne, nmop := x\<rparr>) q \<longleftrightarrow>
      unat ne \<le> q \<and> q < e_end e" if "unat ne < e_end e" for x
    using u [OF that] that by (simp add: covers_def e_start_def e_end_def)
  show ?thesis
  proof (cases "e_end e \<le> unat pn \<or> unat ne \<le> e_start e")
    case True
    then show ?thesis by (auto simp: cut_at_def covers_def)
  next
    case False
    let ?L = "if e_start e < unat pn then {#e\<lparr>npages := pn - page_num e\<rparr>#} else {#}"
    let ?U = "if unat ne < e_end e then {#e\<lparr>page_num := ne, npages := page_num e + npages e - ne,
        nmop := NaClMemObjIncOffset (nmop e) (push_bit NACL_PAGESHIFT (ne - page_num e))\<rparr>#} else {#}"
    have "size {#f \<in># ?L. covers f q#} = (if e_start e \<le> q \<and> q < unat pn then 1 else 0)"
      using low by (cases "e_start e < unat pn") simp_all
    moreover have "size {#f \<in># ?U. covers f q#} = (if unat ne \<le> q \<and> q < e_end e then 1 else 0)"
      using up by (cases "unat ne < e_end e") simp_all
    moreover have "cut_at pn ne e = ?L + ?U" using False by (simp add: cut_at_def)
    ultimately have "size {#f \<in># cut_at pn ne e. covers f q#} =
        (if e_start e \<le> q \<and> q < unat pn then 1 else 0) + (if unat ne \<le> q \<and> q < e_end e then 1 else 0)"
      by (simp only: filter_union_mset size_union)
    then show ?thesis using reg False by (auto simp: covers_def [of e])
  qed
qed

lemma cut_all_mem: "f \<in># cut_all pn ne M \<longleftrightarrow> (\<exists>e \<in># M. f \<in># cut_at pn ne e)"
  by (induction M) auto

lemma cut_all_covers:
  assumes "\<And>e. e \<in># M \<Longrightarrow> good_entry e" and "unat pn < unat ne"
  shows "size {#f \<in># cut_all pn ne M. covers f q#} =
    (if unat pn \<le> q \<and> q < unat ne then 0 else size {#e \<in># M. covers e q#})"
  using assms(1)
proof (induction M)
  case (add e M)
  then show ?case using cut_covers [of e pn ne q] assms(2) by simp
qed simp

section \<open>Update\<close>

text \<open>The reference that the new entry's memory object holds was the caller's.\<close>

definition hand_over :: "NaClMemObj option \<Rightarrow> (nat \<Rightarrow> nat) \<Rightarrow> nat \<Rightarrow> nat" where
  "hand_over o1 ext p = ext p - (case o1 of None \<Rightarrow> 0 | Some x \<Rightarrow> if ndp x = p then 1 else 0)"

lemma in_once_view_None:
  "vm_view m q = None \<longleftrightarrow> (\<forall>e \<in># mset (ents m (nvalid m)). \<not> covers e q)"
  by (auto simp: vm_view_def find_None_iff)

lemma view_covered: "vm_view m q = None \<longleftrightarrow> size {#e \<in># mset (ents m (nvalid m)). covers e q#} = 0"
  unfolding in_once_view_None by auto

lemma vm_view_cut:
  assumes inv: "vm_inv ext m" and reg: "unat pn < unat ne"
    and inv': "once (mset (ents m' (nvalid m')))"
    and es: "mset (ents m' (nvalid m')) = cut_all pn ne (mset (ents m (nvalid m))) + N"
    and new: "\<And>f q. f \<in># N \<Longrightarrow> covers f q \<Longrightarrow> unat pn \<le> q \<and> q < unat ne"
    and q: "\<not> (unat pn \<le> q \<and> q < unat ne)"
  shows "vm_view m' q = vm_view m q"
proof -
  let ?M = "mset (ents m (nvalid m))"
  have good: "\<And>e. e \<in># ?M \<Longrightarrow> good_entry e" and once: "once ?M" using inv by (simp_all add: vm_inv_def)
  have orig: "\<exists>e \<in># ?M. covers e q \<and> prot f = prot e \<and> backing f q = backing e q"
    if f: "f \<in># mset (ents m' (nvalid m'))" "covers f q" for f
  proof -
    have "f \<in># cut_all pn ne ?M" using f new [of f q] q unfolding es by auto
    then obtain e where "e \<in># ?M" "f \<in># cut_at pn ne e" by (auto simp: cut_all_mem)
    then show ?thesis using cut_entry [OF good reg] f(2) by blast
  qed
  show ?thesis
  proof (cases "vm_view m q")
    case None
    then have "vm_view m' q = None" using orig unfolding in_once_view_None by blast
    then show ?thesis using None by simp
  next
    case (Some v)
    have "size {#e \<in># ?M. covers e q#} \<noteq> 0" using Some view_covered [of m q] by simp
    then have "size {#f \<in># cut_all pn ne ?M. covers f q#} \<noteq> 0"
      using cut_all_covers [OF good reg, of ?M q] q by simp
    then have "{#f \<in># cut_all pn ne ?M. covers f q#} \<noteq> {#}" by (metis size_empty)
    then obtain f where f: "f \<in># mset (ents m' (nvalid m'))" "covers f q" unfolding es by auto
    from orig [OF f] obtain e where e: "e \<in># ?M" "covers e q" "prot f = prot e" "backing f q = backing e q"
      by blast
    have "vm_view m q = Some (prot e, backing e q)" using e(1,2) vm_view_Some [OF once] by blast
    moreover have "vm_view m' q = Some (prot e, backing e q)"
      using f e(3,4) vm_view_Some [OF inv'] by metis
    ultimately show ?thesis by simp
  qed
qed

lemma update_before_sweep:
  assumes inv: "vm_inv ext m" and reg: "0 < unat n" "unat pn + unat n \<le> page_limit"
    and ok: "\<And>k. ok k" and lim: "\<And>p. held (mset (ents m (nvalid m))) p + ext p < 4294967295"
    and own: "\<And>x. \<not> remove \<Longrightarrow> o1 = Some x \<Longrightarrow> 0 < ext (ndp x)"
  shows "\<exists>m3. NaClVmmapUpdate ok m pn n pr o1 remove = NaClVmmapRemoveMarked m3 \<and>
    sweeping (if remove then ext else hand_over o1 ext) m3 (nvalid m3) \<and> vm_sized m3 \<and>
    (0 < nvalid m \<longrightarrow> 0 < nvalid m3) \<and>
    live (mset (ents m3 (nvalid m3))) = cut_all pn (pn + n) (mset (ents m (nvalid m))) +
      (if remove then {#} else {#\<lparr>page_num = pn, npages = n, prot = pr, nmop = o1, removed = False\<rparr>#})"
proof -
  let ?new = "\<lparr>page_num = pn, npages = n, prot = pr, nmop = o1, removed = False\<rparr>"
  have ne: "unat (pn + n) = unat pn + unat n" using reg by (simp add: unat_plus_u32 page_limit_def)
  obtain m1 where m1: "NaClVmmapMakeSorted m = Inr m1" "vm_inv ext m1" "gapped (ents m1 (nvalid m1))"
      "mset (ents m1 (nvalid m1)) = mset (ents m (nvalid m))" "nvalid m1 = nvalid m"
    using MakeSorted_spec [OF inv] by blast
  have sw1: "sweeping ext m1 (nvalid m1)" and good: "\<forall>e \<in> set (ents m1 (nvalid m1)). good_entry e"
    using m1(2) by (simp_all add: vm_inv_def)
  have "size (mset (ents m1 (nvalid m1))) \<le> page_limit"
    using m1(2) by (intro once_size) (simp_all add: vm_inv_def)
  then have room: "nvalid m1 \<le> page_limit" using sw1 by (simp add: sweeping_def)
  have "\<exists>m'. update_loop ok pn (pn + n) m1 0 = Inr m' \<and> sweeping ext m' (nvalid m') \<and> vm_sized m' \<and>
      nvalid m1 \<le> nvalid m' \<and> nvalid m' \<le> nvalid m1 + 1 \<and>
      live (mset (ents m' (nvalid m'))) = live (mset []) + cut_all pn (pn + n) (mset (ents m1 (nvalid m1)))"
    using m1 sw1 good room ok reg ne lim
    by (intro update_loop_spec) (simp_all add: vm_inv_def vm_sized_def)
  then obtain m2 where m2: "update_loop ok pn (pn + n) m1 0 = Inr m2" "sweeping ext m2 (nvalid m2)" "vm_sized m2"
      "nvalid m1 \<le> nvalid m2" "nvalid m2 \<le> nvalid m1 + 1"
      "live (mset (ents m2 (nvalid m2))) = cut_all pn (pn + n) (mset (ents m (nvalid m)))"
    using m1(4) by auto
  have nz: "0 < n" using reg(1) by (simp add: word_less_nat_alt)
  show ?thesis
  proof (cases remove)
    case True
    then have "NaClVmmapUpdate ok m pn n pr o1 remove = NaClVmmapRemoveMarked m2"
      using m1(1) m2(1) nz by (simp add: NaClVmmapUpdate_def Let_def)
    then show ?thesis using True m2 m1(5) by (intro exI [of _ m2]) simp
  next
    case False
    have "full m2 (nvalid m2)" "nvalid m2 \<le> 2 * page_limit"
      using m2(2,5) room by (simp_all add: sweeping_def page_limit_def)
    then obtain m3 where m3: "NaClVmmapAdd (ok 3) (ok 4) m2 pn n pr o1 = Inr (1, m3)"
        "nvalid m3 = Suc (nvalid m2)" "full m3 (nvalid m3)" "ents m3 (nvalid m3) = ents m2 (nvalid m2) @ [?new]"
        "desc_refs m3 = desc_refs m2" "vm_sized m3"
      using NaClVmmapAdd_ok [of m2 "ok 3" "ok 4" pn n pr o1] ok m2(3) by (auto simp: vm_sized_def)
    have "(\<lambda>p. held (mset (ents m3 (nvalid m3))) p + hand_over o1 ext p) =
        (\<lambda>p. held (mset (ents m2 (nvalid m2))) p + ext p)"
      using own False by (cases o1) (auto simp: m3(4) owns_def hand_over_def fun_eq_iff)
    then have "sweeping (hand_over o1 ext) m3 (nvalid m3)" using m3(3,5) m2(2) by (simp add: sweeping_def)
    moreover have "NaClVmmapUpdate ok m pn n pr o1 remove = NaClVmmapRemoveMarked m3"
      using False m1(1) m2(1) nz m3(1) by (simp add: NaClVmmapUpdate_def Let_def)
    ultimately show ?thesis using False m2(6) m3(2,4,6) by (intro exI [of _ m3]) simp
  qed
qed

section \<open>Properties\<close>

lemma update_view:
  assumes inv: "vm_inv ext m" and reg: "0 < unat n" "unat pn + unat n \<le> page_limit"
    and ok: "\<And>k. ok k" and lim: "\<And>p. held (mset (ents m (nvalid m))) p + ext p < 4294967295"
    and own: "\<And>x. \<not> remove \<Longrightarrow> o1 = Some x \<Longrightarrow> 0 < ext (ndp x)"
    and left: "remove \<Longrightarrow> \<exists>q v. vm_view m q = Some v \<and> \<not> (unat pn \<le> q \<and> q < unat pn + unat n)"
  shows "\<exists>m'. NaClVmmapUpdate ok m pn n pr o1 remove = Inr m' \<and>
    vm_inv (if remove then ext else hand_over o1 ext) m' \<and>
    (\<forall>q. vm_view m' q =
      (if unat pn \<le> q \<and> q < unat pn + unat n
       then if remove then None
            else Some (pr, map_option (\<lambda>x. (ndp x, offset x + of_nat ((q - unat pn) * 4096))) o1)
       else vm_view m q))"
proof -
  let ?M = "mset (ents m (nvalid m))"
  let ?new = "\<lparr>page_num = pn, npages = n, prot = pr, nmop = o1, removed = False\<rparr>"
  let ?N = "if remove then {#} else {#?new#}"
  let ?ext = "if remove then ext else hand_over o1 ext"
  let ?in = "\<lambda>q. unat pn \<le> q \<and> q < unat (pn + n)"
  have ne: "unat (pn + n) = unat pn + unat n" using reg by (simp add: unat_plus_u32 page_limit_def)
  have region: "unat pn < unat (pn + n)" using reg ne by simp
  have good: "\<And>e. e \<in># ?M \<Longrightarrow> good_entry e" and once: "once ?M" using inv by (simp_all add: vm_inv_def)
  have new_covers: "covers ?new q \<longleftrightarrow> ?in q" for q by (simp add: covers_def e_start_def e_end_def ne)
  have new_good: "good_entry ?new" using reg by (simp add: good_entry_def e_end_def)
  obtain m3 where m3: "NaClVmmapUpdate ok m pn n pr o1 remove = NaClVmmapRemoveMarked m3"
      "sweeping ?ext m3 (nvalid m3)" "vm_sized m3"
      "live (mset (ents m3 (nvalid m3))) = cut_all pn (pn + n) ?M + ?N"
    using update_before_sweep [where ok = ok and remove = remove and ?o1.0 = o1 and pr = pr, OF inv reg ok lim own]
    by blast
  have outside: "size {#f \<in># cut_all pn (pn + n) ?M. covers f q#} = size {#e \<in># ?M. covers e q#}"
    if "\<not> ?in q" for q using cut_all_covers [OF good region, of ?M q] that by simp
  have "cut_all pn (pn + n) ?M + ?N \<noteq> {#}"
  proof (cases remove)
    case True
    then obtain q v where q: "vm_view m q = Some v" "\<not> ?in q" using left ne by auto
    then have "size {#e \<in># ?M. covers e q#} \<noteq> 0" using view_covered [of m q] by simp
    then show ?thesis using outside [OF q(2)] by auto
  qed simp
  then obtain m' where m': "NaClVmmapRemoveMarked m3 = Inr m'" "sweeping ?ext m' (nvalid m')"
      "mset (ents m' (nvalid m')) = cut_all pn (pn + n) ?M + ?N" "vm_size m' = vm_size m3"
      "length (vmentry m') = length (vmentry m3)" "\<not> is_sorted m'"
    using RemoveMarked_spec [OF m3(2)] unfolding m3(4) by blast
  have es: "set (ents m' (nvalid m')) = set_mset (cut_all pn (pn + n) ?M + ?N)"
    using m'(3) by (metis set_mset_mset)
  have good': "\<forall>e \<in> set (ents m' (nvalid m')). good_entry e"
    unfolding es using cut_entry(1) [OF good region] new_good by (auto simp: cut_all_mem split: if_splits)
  have once': "once (mset (ents m' (nvalid m')))"
    unfolding m'(3) once_def
  proof
    fix q
    have "size {#e \<in># ?M. covers e q#} \<le> 1" using once by (simp add: once_def)
    moreover have "size {#f \<in># ?N. covers f q#} \<le> 1" "\<not> ?in q \<Longrightarrow> size {#f \<in># ?N. covers f q#} = 0"
      by (simp_all add: new_covers)
    moreover have "?in q \<Longrightarrow> size {#f \<in># cut_all pn (pn + n) ?M. covers f q#} = 0"
      using cut_all_covers [OF good region, of ?M q] by simp
    ultimately show "size {#f \<in># cut_all pn (pn + n) ?M + ?N. covers f q#} \<le> 1"
      unfolding filter_union_mset size_union using outside [of q] by linarith
  qed
  have "vm_inv ?ext m'"
    using m'(2,4-6) m3(3) good' once' by (simp add: vm_inv_def vm_sized_def)
  moreover have "vm_view m' q = (if ?in q then if remove then None
      else Some (pr, map_option (\<lambda>x. (ndp x, offset x + of_nat ((q - unat pn) * 4096))) o1)
      else vm_view m q)" for q
  proof (cases "?in q")
    case False
    have new: "?in r" if "f \<in># ?N" "covers f r" for f r using that new_covers by (auto split: if_splits)
    have "vm_view m' q = vm_view m q"
      by (rule vm_view_cut [OF inv region once' m'(3) _ False]) (rule new)
    then show ?thesis unfolding if_not_P [OF False] .
  next
    case True
    show ?thesis
    proof (cases remove)
      case rem: True
      have "size {#f \<in># cut_all pn (pn + n) ?M. covers f q#} = 0"
        using cut_all_covers [OF good region, of ?M q] True by simp
      then have "vm_view m' q = None" unfolding in_once_view_None m'(3) using rem by auto
      then show ?thesis using rem True by simp
    next
      case False
      then have "?new \<in># mset (ents m' (nvalid m'))" unfolding m'(3) by simp
      then have "vm_view m' q = Some (prot ?new, backing ?new q)"
        using vm_view_Some [OF once'] new_covers True by blast
      then show ?thesis using False True by (simp add: backing_def e_start_def)
    qed
  qed
  ultimately show ?thesis using m3(1) m'(1) by (intro exI [of _ m']) (simp add: ne)
qed

text \<open>C2: \<open>NaClVmmapUpdate\<close> changes the address space exactly on its region: those pages get
  the new protection and backing (or become unmapped), every other page keeps its protection
  and the very bytes of the descriptor that backed it, even when its entry is split in two;
  no page becomes covered twice and every reference count stays exact.\<close>

theorem NaClVmmapUpdate_view:
  assumes inv: "vm_inv ext m" and reg: "0 < unat n" "unat pn + unat n \<le> page_limit"
    and ok: "\<And>k. ok k" and lim: "\<And>p. held (mset (ents m (nvalid m))) p + ext p < 4294967295"
    and own: "\<And>x. \<not> remove \<Longrightarrow> o1 = Some x \<Longrightarrow> 0 < ext (ndp x)"
    and left: "remove \<Longrightarrow> \<exists>q v. vm_view m q = Some v \<and> \<not> (unat pn \<le> q \<and> q < unat pn + unat n)"
  shows "\<exists>m'. NaClVmmapUpdate ok m pn n pr o1 remove = Inr m' \<and>
    vm_inv (if remove then ext else hand_over o1 ext) m' \<and>
    (\<forall>q. vm_view m' q =
      (if unat pn \<le> q \<and> q < unat pn + unat n
       then if remove then None
            else Some (pr, map_option (\<lambda>x. (ndp x, offset x + of_nat ((q - unat pn) * 4096))) o1)
       else vm_view m q))"
  by (rule update_view [OF assms])

text \<open>C38: A removal that leaves no page mapped does not end in the "No valid entries in VM
  map" message of \<open>NaClVmmapRemoveMarked\<close>: the first loop has already stored NULL in slot 0,
  and testing \<open>self->vmentry[0]->removed\<close> dereferences it.\<close>

theorem NaClVmmapUpdate_remove_all:
  assumes inv: "vm_inv ext m" and reg: "0 < unat n" "unat pn + unat n \<le> page_limit"
    and ok: "\<And>k. ok k" and lim: "\<And>p. held (mset (ents m (nvalid m))) p + ext p < 4294967295"
    and some: "0 < nvalid m"
    and all: "\<And>q v. vm_view m q = Some v \<Longrightarrow> unat pn \<le> q \<and> q < unat pn + unat n"
  shows "NaClVmmapUpdate ok m pn n pr o1 True = Inl NullDeref"
proof -
  let ?M = "mset (ents m (nvalid m))"
  have ne: "unat (pn + n) = unat pn + unat n" using reg by (simp add: unat_plus_u32 page_limit_def)
  have good: "\<And>e. e \<in># ?M \<Longrightarrow> good_entry e" and once: "once ?M" using inv by (simp_all add: vm_inv_def)
  obtain m3 where m3: "NaClVmmapUpdate ok m pn n pr o1 True = NaClVmmapRemoveMarked m3"
      "sweeping ext m3 (nvalid m3)" "0 < nvalid m3"
      "live (mset (ents m3 (nvalid m3))) = cut_all pn (pn + n) ?M"
    using update_before_sweep [where ok = ok and remove = True and ?o1.0 = o1 and pr = pr, OF inv reg ok lim] some
    by auto
  have "cut_at pn (pn + n) e = {#}" if e: "e \<in># ?M" for e
  proof -
    have g: "e_start e < e_end e" using good [OF e] by (simp add: good_entry_def e_start_def e_end_def)
    have "unat pn \<le> q \<and> q < unat (pn + n)" if "covers e q" for q
      using all vm_view_Some [OF once] e that unfolding ne by blast
    from this [of "e_start e"] this [of "e_end e - 1"]
    have "unat pn \<le> e_start e" "e_end e - 1 < unat (pn + n)" using g by (simp_all add: covers_def)
    then show ?thesis using g by (auto simp: cut_at_def)
  qed
  then have "cut_all pn (pn + n) ?M = {#}" by (auto simp: cut_all_def)
  then show ?thesis using RemoveMarked_all_marked [OF m3(2,3)] m3(1,4) by simp
qed

text \<open>\<open>NaClVmmapAdd\<close> reports success also when \<open>NaClVmmapEntryMake\<close> ran out of memory: a NULL
  is in the array, and the next sort dereferences it.\<close>

theorem NaClVmmapAdd_unchecked_entry:
  assumes inv: "vm_inv ext m" and room: "nvalid m < vm_size m"
  shows "\<exists>m'. NaClVmmapAdd ok_map False m pn n pr o1 = Inr (1, m') \<and>
    NaClVmmapMakeSorted m' = Inl NullDeref"
proof -
  let ?m' = "(set_slot_at m (nvalid m) None)\<lparr>nvalid := nvalid m + 1, is_sorted := False\<rparr>"
  have lt: "nvalid m < length (vmentry m)" using inv room by (simp add: vm_inv_def)
  then have "NaClVmmapAdd ok_map False m pn n pr o1 = Inr (1, ?m')"
    using room by (simp add: NaClVmmapAdd_def NaClVmmapEntryMake_def)
  moreover have "entry_at ?m' (nvalid m) = Inl NullDeref" using lt by (simp add: entry_at_def)
  then have "NaClVmmapMakeSorted ?m' = Inl NullDeref"
    by (simp add: NaClVmmapMakeSorted_def NaClVmmapRemoveMarked_def)
  ultimately show ?thesis by blast
qed

lemma NaClVmmapCtor_inv:
  assumes "NaClVmmapCtor True h = Inr (r, m)" "refs_ok ext h"
  shows "r = 1 \<and> vm_inv ext m \<and> vm_view m q = None"
  using assms by (auto simp: NaClVmmapCtor_def vm_inv_def sweeping_def full_def ents_def once_def
      gapped_def vm_view_def START_ENTRIES_def page_limit_def)

section \<open>A concrete map\<close>

text \<open>Pages 16 to 47 backed by descriptor 3 from offset 65536.\<close>

definition vm_demo_entry :: NaClVmmapEntry where
  "vm_demo_entry = \<lparr>page_num = 16, npages = 32, prot = 3,
     nmop = Some \<lparr>ndp = 3, nbytes = 131072, offset = 65536\<rparr>, removed = False\<rparr>"

definition vm_demo :: NaClVmmap where
  "vm_demo = \<lparr>vmentry = [Some vm_demo_entry, None, None, None, None], nvalid = 1, vm_size = 5,
     is_sorted = False, desc_refs = (\<lambda>_. None)(3 \<mapsto> 1)\<rparr>"

lemma vm_demo_ents: "ents vm_demo (nvalid vm_demo) = [vm_demo_entry]"
  by (simp add: vm_demo_def ents_def)

lemma vm_demo_nvalid: "nvalid vm_demo = 1"
  by (simp add: vm_demo_def)

lemma vm_demo_held: "held (mset (ents vm_demo (nvalid vm_demo))) p = (if p = 3 then 1 else 0)"
  by (simp add: vm_demo_ents vm_demo_entry_def owns_def)

lemma vm_demo_lim: "held (mset (ents vm_demo (nvalid vm_demo))) p + 0 < 4294967295"
  by (simp only: vm_demo_held) simp

lemma vm_demo_inv: "vm_inv (\<lambda>_. 0) vm_demo"
proof -
  have "sweeping (\<lambda>_. 0) vm_demo (nvalid vm_demo)"
    unfolding sweeping_def vm_demo_held by (simp add: full_def refs_ok_def vm_demo_def)
  moreover have "good_entry vm_demo_entry"
    by (simp add: good_entry_def e_end_def page_limit_def vm_demo_entry_def)
  ultimately show ?thesis
    unfolding vm_inv_def vm_demo_ents
    by (simp add: once_add once_def gapped_def) (simp add: vm_demo_def page_limit_def)
qed

lemma vm_demo_view:
  "vm_view vm_demo q = (if 16 \<le> q \<and> q < 48 then Some (3, Some (3, 65536 + of_nat ((q - 16) * 4096))) else None)"
  unfolding vm_view_def vm_demo_ents
  by (simp add: covers_def e_start_def e_end_def backing_def vm_demo_entry_def)

theorem NaClVmmapUpdate_view_witness:
  "\<exists>m'. NaClVmmapUpdate (\<lambda>_. True) vm_demo 20 4 1 None False = Inr m' \<and> vm_view m' 21 = Some (1, None) \<and>
    vm_view m' 30 = Some (3, Some (3, 65536 + 14 * 4096))"
proof -
  note update = NaClVmmapUpdate_view [where ok = "\<lambda>_. True" and pn = 20 and n = 4 and pr = 1
    and ?o1.0 = None and remove = False, OF vm_demo_inv _ _ _ vm_demo_lim]
  obtain m' where m': "NaClVmmapUpdate (\<lambda>_. True) vm_demo 20 4 1 None False = Inr m'"
    "\<forall>q. vm_view m' q = (if 20 \<le> q \<and> q < 24 then Some (1, None) else vm_view vm_demo q)"
    using update by (auto simp: page_limit_def cong: if_cong)
  then show ?thesis using m'(2) [rule_format, of 21] m'(2) [rule_format, of 30] by (simp add: vm_demo_view)
qed

theorem NaClVmmapUpdate_remove_all_witness:
  "NaClVmmapUpdate (\<lambda>_. True) vm_demo 0 64 1 None True = Inl NullDeref"
  by (rule NaClVmmapUpdate_remove_all [OF vm_demo_inv _ _ _ vm_demo_lim])
    (auto simp: page_limit_def vm_demo_view vm_demo_nvalid split: if_splits)

theorem NaClVmmapAdd_unchecked_entry_witness:
  "\<exists>m'. NaClVmmapAdd True False vm_demo 100 1 3 None = Inr (1, m') \<and> NaClVmmapMakeSorted m' = Inl NullDeref"
  by (rule NaClVmmapAdd_unchecked_entry [OF vm_demo_inv]) (simp add: vm_demo_def)

end
