(* ===== verification/Vmmap_Search.thy ===== *)
theory Vmmap_Search
  imports Vmmap_Update
begin

text \<open>
  The searches of the memory map: \<open>NaClVmmapFindPage\<close> by binary search, and the three linear
  searches for free address space. A search may sort the map, which changes no page.
\<close>

section \<open>Sorting changes no page\<close>

lemma vm_view_mset:
  assumes "once (mset (ents m (nvalid m)))" "mset (ents m' (nvalid m')) = mset (ents m (nvalid m))"
  shows "vm_view m' q = vm_view m q"
proof (cases "vm_view m q")
  case None
  then have "vm_view m' q = None" unfolding in_once_view_None assms(2) by simp
  then show ?thesis using None by simp
next
  case (Some v)
  have "once (mset (ents m' (nvalid m')))" using assms by simp
  then show ?thesis using Some vm_view_Some [OF assms(1), of q v] vm_view_Some [of m' q v] assms(2) by simp
qed

lemma MakeSorted_view:
  assumes "vm_inv ext m"
  shows "\<exists>m'. NaClVmmapMakeSorted m = Inr m' \<and> vm_inv ext m' \<and> gapped (ents m' (nvalid m')) \<and>
    vm_view m' = vm_view m \<and> nvalid m' = nvalid m \<and> full m' (nvalid m')"
proof -
  obtain m' where m': "NaClVmmapMakeSorted m = Inr m'" "vm_inv ext m'" "gapped (ents m' (nvalid m'))"
      "mset (ents m' (nvalid m')) = mset (ents m (nvalid m))" "nvalid m' = nvalid m"
    using MakeSorted_spec [OF assms] by blast
  moreover have "vm_view m' = vm_view m"
    using vm_view_mset [OF _ m'(4)] assms by (intro ext) (simp add: vm_inv_def)
  moreover have "full m' (nvalid m')" using m'(2) by (simp add: vm_inv_def sweeping_def)
  ultimately show ?thesis by blast
qed

section \<open>Finding a page\<close>

lemma contain_key:
  assumes "good_entry e"
  shows "NaClVmmapContainCmpEntries p e =
    (if unat p < e_start e then -1 else if unat p < e_end e then 0 else 1)"
  using good_end [OF assms] by (simp add: NaClVmmapContainCmpEntries_def word_less_nat_alt e_start_def)

lemma contain_partitioned:
  "gapped es \<Longrightarrow> \<forall>e \<in> set es. good_entry e \<Longrightarrow> partitioned (NaClVmmapContainCmpEntries p) es"
proof -
  assume gap: "gapped es" and good: "\<forall>e \<in> set es. good_entry e"
  have "sorted_wrt (\<lambda>x y. sgn (NaClVmmapContainCmpEntries p y) \<le> sgn (NaClVmmapContainCmpEntries p x)) es"
  proof (rule sorted_wrt_mono_rel [OF _ gap [unfolded gapped_def]])
    fix x y assume xy: "x \<in> set es" "y \<in> set es" "e_end x \<le> e_start y"
    have "e_start y < e_end y" using good xy by (simp add: good_entry_def e_start_def e_end_def)
    moreover have "e_start x \<le> e_end x" by (simp add: e_start_def e_end_def)
    ultimately show "sgn (NaClVmmapContainCmpEntries p y) \<le> sgn (NaClVmmapContainCmpEntries p x)"
      using xy good by (simp add: contain_key)
  qed
  then show ?thesis by (simp add: partitioned_def)
qed

lemma find_index_spec:
  assumes inv: "vm_inv ext m"
  shows "\<exists>r m'. find_index m p = Inr (r, m') \<and> vm_inv ext m' \<and> gapped (ents m' (nvalid m')) \<and>
    vm_view m' = vm_view m \<and> full m' (nvalid m') \<and>
    (case r of
       None \<Rightarrow> vm_view m (unat p) = None
     | Some i \<Rightarrow> i < nvalid m' \<and> covers (ents m' (nvalid m') ! i) (unat p) \<and>
         vm_view m (unat p) = Some (prot (ents m' (nvalid m') ! i), backing (ents m' (nvalid m') ! i) (unat p)))"
proof -
  obtain m' where m': "NaClVmmapMakeSorted m = Inr m'" "vm_inv ext m'" "gapped (ents m' (nvalid m'))"
      "vm_view m' = vm_view m" "full m' (nvalid m')"
    using MakeSorted_view [OF inv] by blast
  let ?es = "ents m' (nvalid m')"
  have good: "\<forall>e \<in> set ?es. good_entry e" and once: "once (mset ?es)" using m'(2) by (simp_all add: vm_inv_def)
  note part = contain_partitioned [OF m'(3) good, of p]
  have zero: "NaClVmmapContainCmpEntries p e = 0 \<longleftrightarrow> covers e (unat p)" if "e \<in> set ?es" for e
    using good that by (simp add: contain_key covers_def)
  have found: "find_index m p = Inr (bsearch (NaClVmmapContainCmpEntries p) ?es, m')"
    using m'(1,5) by (simp add: find_index_def full_valid_entries)
  show ?thesis
  proof (cases "bsearch (NaClVmmapContainCmpEntries p) ?es")
    case None
    have "vm_view m' (unat p) = None"
      using libc.search_none [OF part None] zero by (simp add: in_once_view_None)
    then show ?thesis using None found m' by simp
  next
    case (Some i)
    have i: "i < length ?es" "NaClVmmapContainCmpEntries p (?es ! i) = 0"
      using libc.search_found [OF part Some] by simp_all
    have e: "?es ! i \<in> set ?es" using i(1) by simp
    have c: "covers (?es ! i) (unat p)" using zero [OF e] i(2) by simp
    have "vm_view m' (unat p) = Some (prot (?es ! i), backing (?es ! i) (unat p))"
      using vm_view_Some [OF once] e c by auto
    then show ?thesis using Some found m' c i(1) by simp
  qed
qed

text \<open>C24: \<open>NaClVmmapFindPage\<close> returns the one entry that covers the page, and NULL exactly
  when the page is not mapped; it may sort the array but changes no page.\<close>

theorem NaClVmmapFindPage_correct:
  assumes inv: "vm_inv ext m"
  shows "\<exists>r m'. NaClVmmapFindPage m p = Inr (r, m') \<and> vm_inv ext m' \<and> vm_view m' = vm_view m \<and>
    (case r of
       None \<Rightarrow> vm_view m (unat p) = None
     | Some e \<Rightarrow> vm_view m (unat p) = Some (prot e, backing e (unat p)) \<and> covers e (unat p))"
proof -
  obtain r m' where m': "find_index m p = Inr (r, m')" "vm_inv ext m'" "vm_view m' = vm_view m" "full m' (nvalid m')"
      "case r of None \<Rightarrow> vm_view m (unat p) = None
       | Some i \<Rightarrow> i < nvalid m' \<and> covers (ents m' (nvalid m') ! i) (unat p) \<and>
           vm_view m (unat p) = Some (prot (ents m' (nvalid m') ! i), backing (ents m' (nvalid m') ! i) (unat p))"
    using find_index_spec [OF inv] by blast
  then show ?thesis using full_entry_at [OF m'(4)] by (cases r) (auto simp: NaClVmmapFindPage_def)
qed

section \<open>Gaps\<close>

lemma gapped_nth:
  "gapped es \<Longrightarrow> i < j \<Longrightarrow> j < length es \<Longrightarrow> e_end (es ! i) \<le> e_start (es ! j)"
  by (simp add: gapped_def sorted_wrt_iff_nth_less)

lemma view_None_nth:
  "full m (nvalid m) \<Longrightarrow> vm_view m q = None \<longleftrightarrow> (\<forall>i < nvalid m. \<not> covers (ents m (nvalid m) ! i) q)"
  unfolding in_once_view_None set_mset_mset by (metis (no_types, lifting) ents_length in_set_conv_nth)

text \<open>Between two neighbours nothing is mapped.\<close>

lemma gap_free:
  assumes gap: "gapped (ents m (nvalid m))" and full: "full m (nvalid m)"
    and i: "0 < i" "i < nvalid m"
    and q: "e_end (ents m (nvalid m) ! (i - 1)) \<le> q" "q < e_start (ents m (nvalid m) ! i)"
  shows "vm_view m q = None"
  unfolding view_None_nth [OF full]
proof (intro allI impI)
  fix j assume j: "j < nvalid m"
  let ?es = "ents m (nvalid m)"
  have len: "length ?es = nvalid m" using full by simp
  consider "j < i - 1" | "j = i - 1" | "j = i" | "i < j" using i by linarith
  then show "\<not> covers (?es ! j) q"
  proof cases
    case 1
    then have "e_end (?es ! j) \<le> e_start (?es ! (i - 1))" using gapped_nth [OF gap] i len by simp
    then show ?thesis using q(1) by (simp add: covers_def e_start_def e_end_def)
  next
    case 4
    then have "e_end (?es ! i) \<le> e_start (?es ! j)" using gapped_nth [OF gap] j len by simp
    then show ?thesis using q(2) by (simp add: covers_def e_start_def e_end_def)
  qed (use q in \<open>simp_all add: covers_def\<close>)
qed

text \<open>A free window between two mapped pages lies in the gap between two neighbours.\<close>

lemma window_in_gap:
  assumes gap: "gapped (ents m (nvalid m))" and full: "full m (nvalid m)"
    and below: "p < a" "vm_view m p \<noteq> None" and above: "a + n \<le> r" "vm_view m r \<noteq> None"
    and good: "\<forall>e \<in> set (ents m (nvalid m)). good_entry e"
    and free: "\<And>q. a \<le> q \<Longrightarrow> q < a + n \<Longrightarrow> vm_view m q = None" and n: "0 < n"
  shows "\<exists>i. 0 < i \<and> i < nvalid m \<and> e_end (ents m (nvalid m) ! (i - 1)) \<le> a \<and>
    a + n \<le> e_start (ents m (nvalid m) ! i)"
proof -
  let ?es = "ents m (nvalid m)"
  obtain b where b: "b < nvalid m" "covers (?es ! b) p"
    using below(2) view_None_nth [OF full, of p] by auto
  obtain c where c: "c < nvalid m" "covers (?es ! c) r"
    using above(2) view_None_nth [OF full, of r] by auto
  define i where "i = (LEAST i. i < nvalid m \<and> a \<le> e_start (?es ! i))"
  have uncov: "\<not> covers (?es ! j) q" if "j < nvalid m" "a \<le> q" "q < a + n" for j q
    using free [OF that(2,3)] that(1) view_None_nth [OF full] by blast
  have "a \<le> e_start (?es ! c)"
  proof (rule ccontr)
    assume "\<not> a \<le> e_start (?es ! c)"
    then have "covers (?es ! c) a" using c(2) above(1) by (simp add: covers_def)
    then show False using uncov [OF c(1), of a] n by simp
  qed
  then have i: "i < nvalid m" "a \<le> e_start (?es ! i)"
    using LeastI [of "\<lambda>i. i < nvalid m \<and> a \<le> e_start (?es ! i)" c] c(1) by (simp_all add: i_def)
  have "e_start (?es ! b) < a" using b(2) below(1) by (simp add: covers_def)
  then have "b \<noteq> i" using i(2) by auto
  moreover have "\<not> i < b"
  proof
    assume "i < b"
    then have "e_end (?es ! i) \<le> e_start (?es ! b)" using gapped_nth [OF gap] b(1) full by simp
    then show False using i(2) \<open>e_start (?es ! b) < a\<close> by (simp add: e_start_def e_end_def)
  qed
  ultimately have pos: "0 < i" by simp
  then have "\<not> (i - 1 < nvalid m \<and> a \<le> e_start (?es ! (i - 1)))"
    using not_less_Least [of "i - 1" "\<lambda>i. i < nvalid m \<and> a \<le> e_start (?es ! i)"] by (simp add: i_def)
  moreover have "i - 1 < nvalid m" using i(1) by linarith
  ultimately have "e_start (?es ! (i - 1)) < a" by linarith
  then have "e_end (?es ! (i - 1)) \<le> a"
    using uncov [of "i - 1" a] i(1) n by (simp add: covers_def not_less)
  moreover have "a + n \<le> e_start (?es ! i)"
  proof (rule ccontr)
    assume lt: "\<not> a + n \<le> e_start (?es ! i)"
    have "?es ! i \<in> set ?es" using i(1) full by simp
    then have "e_start (?es ! i) < e_end (?es ! i)"
      using good by (simp add: good_entry_def e_start_def e_end_def)
    moreover have "\<not> covers (?es ! i) (e_start (?es ! i))" using uncov [OF i(1,2)] lt by simp
    ultimately show False by (simp add: covers_def)
  qed
  ultimately show ?thesis using pos i(1) by blast
qed

section \<open>Searching downwards\<close>

text \<open>\<open>Lo\<close> and \<open>Hi\<close> are what \<open>lo\<close> and \<open>hi\<close> compute on page numbers: the identity, or rounding
  to the mapping unit of 16 pages. A gap serves when the rounded gap holds \<open>n\<close> pages.\<close>

definition gap_serves :: "(nat \<Rightarrow> nat) \<Rightarrow> (nat \<Rightarrow> nat) \<Rightarrow> NaClVmmap \<Rightarrow> nat \<Rightarrow> nat \<Rightarrow> bool" where
  "gap_serves Lo Hi m n i \<longleftrightarrow>
     Lo (e_end (ents m (nvalid m) ! (i - 1))) + n \<le> Hi (e_start (ents m (nvalid m) ! i))"

lemma find_down_spec:
  assumes full: "full m (nvalid m)" and good: "\<forall>e \<in> set (ents m (nvalid m)). good_entry e"
    and gap: "gapped (ents m (nvalid m))"
    and lo: "\<And>w. unat w \<le> page_limit \<Longrightarrow> unat (lo w) = Lo (unat w)"
    and hi: "\<And>w. unat w \<le> page_limit \<Longrightarrow> unat (hi w) = Hi (unat w)"
    and mono: "\<not> aligned \<Longrightarrow> \<forall>a b. a \<le> b \<longrightarrow> Lo a \<le> Hi b" and n: "0 < unat n"
  shows "k < nvalid m \<Longrightarrow> \<exists>r. find_down lo hi aligned m n (Suc k) = Inr r \<and>
    (unat r = 0 \<and> (\<forall>i. 0 < i \<and> i \<le> k \<longrightarrow> \<not> gap_serves Lo Hi m (unat n) i) \<or>
     (\<exists>i. 0 < i \<and> i \<le> k \<and> gap_serves Lo Hi m (unat n) i \<and>
        unat r + unat n = Hi (e_start (ents m (nvalid m) ! i)) \<and>
        (\<forall>j. i < j \<and> j \<le> k \<longrightarrow> \<not> gap_serves Lo Hi m (unat n) j)))"
proof (induction k)
  case 0
  show ?case by simp
next
  case (Suc k)
  let ?es = "ents m (nvalid m)"
  have len: "length ?es = nvalid m" using full by simp
  have in_es: "?es ! k \<in> set ?es" "?es ! Suc k \<in> set ?es" using Suc.prems len by simp_all
  then have g: "good_entry (?es ! k)" "good_entry (?es ! Suc k)" using good by simp_all
  have at: "entry_at m k = Inr (?es ! k)" "entry_at m (Suc k) = Inr (?es ! Suc k)"
    using full_entry_at [OF full] Suc.prems by simp_all
  define a where "a = lo (page_num (?es ! k) + npages (?es ! k))"
  define b where "b = hi (page_num (?es ! Suc k))"
  have end_le: "unat (page_num (?es ! k) + npages (?es ! k)) = e_end (?es ! k)" "e_end (?es ! k) \<le> page_limit"
    using good_end [OF g(1)] g(1) by (simp_all add: good_entry_def)
  have start_le: "e_start (?es ! Suc k) \<le> page_limit" using g(2) by (simp add: good_entry_def e_end_def e_start_def)
  have a: "unat a = Lo (e_end (?es ! k))" using lo end_le by (simp add: a_def)
  have b: "unat b = Hi (e_start (?es ! Suc k))" using hi start_le by (simp add: b_def e_start_def)
  have ord: "\<not> aligned \<Longrightarrow> unat a \<le> unat b"
    using mono gapped_nth [OF gap, of k "Suc k"] Suc.prems len by (simp add: a b)
  have serves: "gap_serves Lo Hi m (unat n) (Suc k) \<longleftrightarrow> unat a + unat n \<le> unat b"
    by (simp add: gap_serves_def a b)
  have unfold: "find_down lo hi aligned m n (Suc (Suc k)) =
      (if aligned \<and> b \<le> a then find_down lo hi aligned m n (Suc k)
       else if b - a \<ge> n then Inr (b - n) else find_down lo hi aligned m n (Suc k))"
    using at by (simp add: Let_def a_def b_def)
  show ?case
  proof (cases "unat a + unat n \<le> unat b")
    case True
    have d: "unat (b - a) = unat b - unat a" "unat (b - n) = unat b - unat n"
      using True by (simp_all add: unat_minus_u32)
    have "\<not> b \<le> a" "b - a \<ge> n" using True n d by (simp_all add: word_le_nat_alt)
    then have "find_down lo hi aligned m n (Suc (Suc k)) = Inr (b - n)" using unfold by simp
    then show ?thesis using True d(2) serves b by (intro exI [of _ "b - n"]) (auto intro!: exI [of _ "Suc k"])
  next
    case False
    have "\<not> (aligned \<and> b \<le> a) \<Longrightarrow> \<not> b - a \<ge> n"
    proof -
      assume "\<not> (aligned \<and> b \<le> a)"
      then have "unat a \<le> unat b" using ord by (auto simp: word_le_nat_alt)
      then show "\<not> b - a \<ge> n" using False by (simp add: word_le_nat_alt unat_minus_u32)
    qed
    then have eq: "find_down lo hi aligned m n (Suc (Suc k)) = find_down lo hi aligned m n (Suc k)"
      using unfold by auto
    obtain r where r: "find_down lo hi aligned m n (Suc k) = Inr r"
      "unat r = 0 \<and> (\<forall>i. 0 < i \<and> i \<le> k \<longrightarrow> \<not> gap_serves Lo Hi m (unat n) i) \<or>
       (\<exists>i. 0 < i \<and> i \<le> k \<and> gap_serves Lo Hi m (unat n) i \<and>
          unat r + unat n = Hi (e_start (?es ! i)) \<and>
          (\<forall>j. i < j \<and> j \<le> k \<longrightarrow> \<not> gap_serves Lo Hi m (unat n) j))"
      using Suc.IH Suc.prems by auto
    have no: "\<not> gap_serves Lo Hi m (unat n) (Suc k)" using False serves by simp
    from r(2) have "unat r = 0 \<and> (\<forall>i. 0 < i \<and> i \<le> Suc k \<longrightarrow> \<not> gap_serves Lo Hi m (unat n) i) \<or>
       (\<exists>i. 0 < i \<and> i \<le> Suc k \<and> gap_serves Lo Hi m (unat n) i \<and>
          unat r + unat n = Hi (e_start (?es ! i)) \<and>
          (\<forall>j. i < j \<and> j \<le> Suc k \<longrightarrow> \<not> gap_serves Lo Hi m (unat n) j))"
      using no by (metis le_Suc_eq)
    then show ?thesis using eq r(1) by auto
  qed
qed

text \<open>A run of \<open>n\<close> unmapped pages from \<open>a\<close> that lies between mapped pages, and what both downward searches
  return: the highest such run with an admissible first page, or 0 when there is none.\<close>

definition free_run :: "NaClVmmap \<Rightarrow> nat \<Rightarrow> nat \<Rightarrow> bool" where
  "free_run m n a \<longleftrightarrow> (\<exists>p < a. vm_view m p \<noteq> None) \<and> (\<exists>p \<ge> a + n. vm_view m p \<noteq> None) \<and>
     (\<forall>q. a \<le> q \<and> q < a + n \<longrightarrow> vm_view m q = None)"

definition search_result :: "NaClVmmap \<Rightarrow> (nat \<Rightarrow> bool) \<Rightarrow> nat \<Rightarrow> nat \<Rightarrow> bool" where
  "search_result m al n r \<longleftrightarrow>
     (if r = 0 then \<nexists>a. al a \<and> free_run m n a
      else al r \<and> free_run m n r \<and> (\<forall>a. al a \<and> free_run m n a \<longrightarrow> a \<le> r))"

text \<open>A run in the gap below entry \<open>i\<close>, and conversely.\<close>

lemma gap_free_run:
  assumes gap: "gapped (ents m (nvalid m))" and full: "full m (nvalid m)"
    and good: "\<forall>e \<in> set (ents m (nvalid m)). good_entry e" and i: "0 < i" "i < nvalid m"
    and r: "e_end (ents m (nvalid m) ! (i - 1)) \<le> r" "r + n \<le> e_start (ents m (nvalid m) ! i)"
  shows "0 < r" "free_run m n r"
proof -
  let ?es = "ents m (nvalid m)"
  have mem: "?es ! (i - 1) \<in> set ?es" "?es ! i \<in> set ?es" using i full by simp_all
  then have g: "good_entry (?es ! (i - 1))" "good_entry (?es ! i)" using good by simp_all
  have pos: "0 < e_end (?es ! (i - 1))" using g(1) by (simp add: good_entry_def e_end_def)
  then show "0 < r" using r(1) by linarith
  have "covers (?es ! (i - 1)) (e_end (?es ! (i - 1)) - 1)" "covers (?es ! i) (e_start (?es ! i))"
    using g by (auto simp: covers_def good_entry_def e_start_def e_end_def)
  then have "vm_view m (e_end (?es ! (i - 1)) - 1) \<noteq> None" "vm_view m (e_start (?es ! i)) \<noteq> None"
    using mem unfolding in_once_view_None by auto
  moreover have "e_end (?es ! (i - 1)) - 1 < r" using pos r(1) by linarith
  moreover have "vm_view m q = None" if "r \<le> q" "q < r + n" for q
    using gap_free [OF gap full i, of q] r that by simp
  ultimately show "free_run m n r" using r(2) unfolding free_run_def by blast
qed

lemma free_run_in_gap:
  assumes gap: "gapped (ents m (nvalid m))" and full: "full m (nvalid m)"
    and good: "\<forall>e \<in> set (ents m (nvalid m)). good_entry e" and run: "free_run m n a" and n: "0 < n"
  shows "\<exists>i. 0 < i \<and> i < nvalid m \<and> e_end (ents m (nvalid m) ! (i - 1)) \<le> a \<and>
    a + n \<le> e_start (ents m (nvalid m) ! i)"
proof -
  obtain p p' where "p < a" "vm_view m p \<noteq> None" "a + n \<le> p'" "vm_view m p' \<noteq> None"
      "\<And>q. a \<le> q \<Longrightarrow> q < a + n \<Longrightarrow> vm_view m q = None"
    using run unfolding free_run_def by blast
  then show ?thesis by (rule window_in_gap [OF gap full _ _ _ _ good _ n])
qed

text \<open>Where the entries are in order, so are the runs below them.\<close>

lemma gaps_in_order:
  assumes gap: "gapped (ents m (nvalid m))" and full: "full m (nvalid m)" and ij: "i < j" "j < nvalid m"
  shows "e_start (ents m (nvalid m) ! i) \<le> e_end (ents m (nvalid m) ! (j - 1))"
proof (cases "i = j - 1")
  case True
  then show ?thesis by (simp add: e_start_def e_end_def)
next
  case False
  then have "e_end (ents m (nvalid m) ! i) \<le> e_start (ents m (nvalid m) ! (j - 1))"
    using gapped_nth [OF gap, of i "j - 1"] ij full by simp
  then show ?thesis by (simp add: e_start_def e_end_def)
qed

lemma find_down_result:
  assumes inv: "vm_inv ext m" and gap: "gapped (ents m (nvalid m))" and nv: "0 < nvalid m"
    and lo: "\<And>w. unat w \<le> page_limit \<Longrightarrow> unat (lo w) = Lo (unat w)"
    and hi: "\<And>w. unat w \<le> page_limit \<Longrightarrow> unat (hi w) = Hi (unat w)"
    and mono: "\<not> aligned \<Longrightarrow> \<forall>a b. a \<le> b \<longrightarrow> Lo a \<le> Hi b" and n: "0 < unat n"
    and Lo: "\<And>e. e \<le> Lo e" and Hi: "\<And>s. Hi s \<le> s"
    and al: "\<And>e a. al a \<Longrightarrow> e \<le> a \<Longrightarrow> Lo e \<le> a" "\<And>s a. al a \<Longrightarrow> a \<le> s \<Longrightarrow> a \<le> Hi s"
    and al_n: "\<And>a. al a \<Longrightarrow> al (a + unat n)" "\<And>a s. a + unat n = Hi s \<Longrightarrow> al a"
  shows "\<exists>r. find_down lo hi aligned m n (nvalid m) = Inr r \<and> search_result m al (unat n) (unat r)"
proof -
  let ?es = "ents m (nvalid m)"
  have full: "full m (nvalid m)" and good: "\<forall>e \<in> set ?es. good_entry e" and once: "once (mset ?es)"
    using inv by (simp_all add: vm_inv_def sweeping_def)
  obtain k where k: "nvalid m = Suc k" using nv by (cases "nvalid m") auto
  obtain r where r: "find_down lo hi aligned m n (nvalid m) = Inr r"
    "unat r = 0 \<and> (\<forall>i. 0 < i \<and> i \<le> k \<longrightarrow> \<not> gap_serves Lo Hi m (unat n) i) \<or>
     (\<exists>i. 0 < i \<and> i \<le> k \<and> gap_serves Lo Hi m (unat n) i \<and>
        unat r + unat n = Hi (e_start (?es ! i)) \<and>
        (\<forall>j. i < j \<and> j \<le> k \<longrightarrow> \<not> gap_serves Lo Hi m (unat n) j))"
    using find_down_spec [where lo = lo and hi = hi and Lo = Lo and Hi = Hi and aligned = aligned and k = k,
        OF full good gap lo hi mono n] k by auto
  have in_gap: "\<exists>i. 0 < i \<and> i \<le> k \<and> gap_serves Lo Hi m (unat n) i \<and> a + unat n \<le> Hi (e_start (?es ! i)) \<and>
      a + unat n \<le> e_start (?es ! i)" if a: "al a" "free_run m (unat n) a" for a
  proof -
    obtain i where i: "0 < i" "i < nvalid m" "e_end (?es ! (i - 1)) \<le> a" "a + unat n \<le> e_start (?es ! i)"
      using free_run_in_gap [OF gap full good a(2) n] by blast
    have "Lo (e_end (?es ! (i - 1))) \<le> a" "a + unat n \<le> Hi (e_start (?es ! i))"
      using al(1) [OF a(1) i(3)] al(2) [OF al_n(1) [OF a(1)] i(4)] by simp_all
    then show ?thesis using i k by (intro exI [of _ i]) (simp add: gap_serves_def)
  qed
  have "search_result m al (unat n) (unat r)"
    using r(2)
  proof (elim disjE exE conjE)
    assume z: "unat r = 0" and none: "\<forall>i. 0 < i \<and> i \<le> k \<longrightarrow> \<not> gap_serves Lo Hi m (unat n) i"
    then show ?thesis unfolding search_result_def if_P [OF z] using in_gap by blast
  next
    fix i assume i: "0 < i" "i \<le> k" and serves: "gap_serves Lo Hi m (unat n) i"
      and ri: "unat r + unat n = Hi (e_start (?es ! i))" and top: "\<forall>j. i < j \<and> j \<le> k \<longrightarrow> \<not> gap_serves Lo Hi m (unat n) j"
    have lo_r: "e_end (?es ! (i - 1)) \<le> unat r"
      using serves ri Lo [of "e_end (?es ! (i - 1))"] by (simp add: gap_serves_def)
    have hi_r: "unat r + unat n \<le> e_start (?es ! i)" using ri Hi by metis
    have ik: "i < nvalid m" using i k by simp
    note run = gap_free_run [OF gap full good i(1) ik lo_r hi_r]
    have "a \<le> unat r" if a: "al a" "free_run m (unat n) a" for a
    proof -
      obtain j where j: "0 < j" "j \<le> k" "gap_serves Lo Hi m (unat n) j" "a + unat n \<le> Hi (e_start (?es ! j))"
          "a + unat n \<le> e_start (?es ! j)"
        using in_gap [OF a] by blast
      show ?thesis
      proof (cases "j = i")
        case False
        then have "j < i" using top j(2,3) by (metis linorder_neqE_nat)
        then show ?thesis using gaps_in_order [OF gap full _ ik, of j] j(5) lo_r by linarith
      qed (use j(4) ri in simp)
    qed
    moreover have "al (unat r)" using al_n(2) ri by blast
    ultimately show ?thesis unfolding search_result_def using run by simp
  qed
  then show ?thesis using r(1) by blast
qed

lemma search_result_cong: "vm_view m' = vm_view m \<Longrightarrow> search_result m' al n r = search_result m al n r"
  by (simp add: search_result_def free_run_def)

text \<open>C32: \<open>NaClVmmapFindSpace\<close> returns the first page of the highest run of \<open>num_pages\<close> unmapped pages
  that lies between mapped pages (one below it and one above it), and 0 exactly when there is no such run; the
  search changes no page.\<close>

theorem NaClVmmapFindSpace_correct:
  assumes inv: "vm_inv ext m" and n: "0 < unat n" and nv: "0 < nvalid m"
  shows "\<exists>r m'. NaClVmmapFindSpace m n = Inr (r, m') \<and> vm_inv ext m' \<and> vm_view m' = vm_view m \<and>
    search_result m (\<lambda>_. True) (unat n) (unat r)"
proof -
  obtain m' where m': "NaClVmmapMakeSorted m = Inr m'" "vm_inv ext m'" "gapped (ents m' (nvalid m'))"
      "vm_view m' = vm_view m" "nvalid m' = nvalid m"
    using MakeSorted_view [OF inv] by blast
  have "\<exists>r. find_down id id False m' n (nvalid m') = Inr r \<and> search_result m' (\<lambda>_. True) (unat n) (unat r)"
    by (rule find_down_result [where Lo = id and Hi = id, OF m'(2,3) _ _ _ _ n]) (use m'(5) nv in auto)
  then show ?thesis
    using m' nv search_result_cong [OF m'(4)] by (auto simp: NaClVmmapFindSpace_def)
qed

text \<open>The number of pages that \<open>NaClVmmapFindMapSpace\<close> looks for: \<open>num_pages\<close> rounded up to
  the 16 pages of a mapping unit.\<close>

definition map_units :: "nat \<Rightarrow> nat" where
  "map_units n = (n + 15) div 16 * 16"

lemma map_units_16: "16 dvd map_units n" "n \<le> map_units n"
  by (simp_all add: map_units_def)

lemma map_units_aligned: "16 dvd a \<Longrightarrow> n \<le> a \<Longrightarrow> map_units n \<le> a"
  by (auto simp: map_units_def elim!: dvdE)

lemma find_map_space:
  assumes inv: "vm_inv ext m" and n: "0 < unat n" "unat n \<le> page_limit" and nv: "0 < nvalid m"
  shows "\<exists>r m'. NaClVmmapFindMapSpace m n = Inr (r, m') \<and> vm_inv ext m' \<and> vm_view m' = vm_view m \<and>
    search_result m (\<lambda>a. 16 dvd a) (map_units (unat n)) (unat r)"
proof -
  obtain m' where m': "NaClVmmapMakeSorted m = Inr m'" "vm_inv ext m'" "gapped (ents m' (nvalid m'))"
      "vm_view m' = vm_view m" "nvalid m' = nvalid m"
    using MakeSorted_view [OF inv] by blast
  let ?n = "NaClRoundPageNumUpToMapMultiple n"
  have un: "unat ?n = map_units (unat n)"
    using NaClRoundPageNumUp_unat [of n] n(2) by (simp add: map_units_def page_limit_def)
  have pos: "0 < unat ?n" unfolding un using n(1) map_units_16(2) [of "unat n"] by linarith
  have d16: "16 dvd unat ?n" unfolding un by (rule map_units_16)
  have "\<exists>r. find_down NaClRoundPageNumUpToMapMultiple NaClTruncPageNumDownToMapMultiple True m' ?n (nvalid m') = Inr r \<and>
      search_result m' (\<lambda>a. 16 dvd a) (unat ?n) (unat r)"
  proof (rule find_down_result [where Lo = map_units and Hi = "\<lambda>s. s div 16 * 16", OF m'(2,3) _ _ _ _ pos])
    fix w :: u32
    show "unat w \<le> page_limit \<Longrightarrow> unat (NaClRoundPageNumUpToMapMultiple w) = map_units (unat w)"
      using NaClRoundPageNumUp_unat [of w] by (simp add: map_units_def page_limit_def)
    show "unat (NaClTruncPageNumDownToMapMultiple w) = unat w div 16 * 16"
      by (rule NaClTruncPageNumDown_unat)
  next
    fix a e s :: nat
    show "16 dvd a \<Longrightarrow> e \<le> a \<Longrightarrow> map_units e \<le> a" by (rule map_units_aligned)
    show "16 dvd a \<Longrightarrow> a \<le> s \<Longrightarrow> a \<le> s div 16 * 16" by (auto elim!: dvdE)
    show "16 dvd a \<Longrightarrow> 16 dvd a + unat ?n" using d16 by simp
    assume "a + unat ?n = s div 16 * 16"
    then have "16 dvd a + unat ?n" by simp
    then show "16 dvd a" using d16 dvd_add_left_iff by blast
  qed (use m'(5) nv map_units_16 in simp_all)
  then show ?thesis
    using m' nv search_result_cong [OF m'(4)] unfolding un
    by (auto simp: NaClVmmapFindMapSpace_def NACL_MAP_PAGESHIFT_def NACL_PAGESHIFT_def)
qed

text \<open>C19: \<open>NaClVmmapFindMapSpace\<close> does the same for mappings: it returns the first page of the highest
  run that starts on a 64 KB boundary, holds the whole 64 KB units that \<open>num_pages\<close> needs and lies
  between mapped pages, and 0 exactly when there is no such run.\<close>

theorem NaClVmmapFindMapSpace_correct:
  assumes inv: "vm_inv ext m" and n: "0 < unat n" "unat n \<le> page_limit" and nv: "0 < nvalid m"
  shows "\<exists>r m'. NaClVmmapFindMapSpace m n = Inr (r, m') \<and> vm_inv ext m' \<and> vm_view m' = vm_view m \<and>
    search_result m (\<lambda>a. 16 dvd a) (map_units (unat n)) (unat r)"
  by (rule find_map_space [OF assms])

section \<open>Searching upwards from a hint\<close>








section \<open>A concrete map with a gap\<close>

definition vm_demo_top :: NaClVmmapEntry where
  "vm_demo_top = \<lparr>page_num = 1000, npages = 24, prot = 3, nmop = None, removed = False\<rparr>"

definition vm_demo2 :: NaClVmmap where
  "vm_demo2 = \<lparr>vmentry = [Some vm_demo_top, Some vm_demo_entry, None, None, None], nvalid = 2, vm_size = 5,
     is_sorted = False, desc_refs = (\<lambda>_. None)(3 \<mapsto> 1)\<rparr>"

lemma vm_demo2_ents: "ents vm_demo2 (nvalid vm_demo2) = [vm_demo_top, vm_demo_entry]"
  by (simp add: vm_demo2_def ents_def)

lemma vm_demo2_nvalid: "nvalid vm_demo2 = 2" by (simp add: vm_demo2_def)

lemma vm_demo2_inv: "vm_inv (\<lambda>_. 0) vm_demo2"
proof -
  have "held (mset (ents vm_demo2 (nvalid vm_demo2))) p = (if p = 3 then 1 else 0)" for p
    by (simp add: vm_demo2_ents vm_demo_entry_def vm_demo_top_def owns_def)
  then have "sweeping (\<lambda>_. 0) vm_demo2 (nvalid vm_demo2)"
    by (simp only: sweeping_def) (simp add: full_def refs_ok_def vm_demo2_def numeral_2_eq_2)
  moreover have "good_entry vm_demo_entry" "good_entry vm_demo_top"
    by (simp_all add: good_entry_def e_end_def page_limit_def vm_demo_entry_def vm_demo_top_def)
  moreover have "once (mset [vm_demo_top, vm_demo_entry])"
    by (simp add: once_add once_def covers_def e_start_def e_end_def vm_demo_entry_def vm_demo_top_def)
  ultimately show ?thesis
    unfolding vm_inv_def vm_demo2_ents by (simp add: vm_demo2_def page_limit_def)
qed

lemma vm_demo2_view:
  "vm_view vm_demo2 q = (if 1000 \<le> q \<and> q < 1024 then Some (3, None)
     else if 16 \<le> q \<and> q < 48 then Some (3, Some (3, 65536 + of_nat ((q - 16) * 4096))) else None)"
  unfolding vm_view_def vm_demo2_ents
  by (simp add: covers_def e_start_def e_end_def backing_def vm_demo_entry_def vm_demo_top_def)

theorem NaClVmmapFindPage_correct_witness:
  "\<exists>e m'. NaClVmmapFindPage vm_demo2 20 = Inr (Some e, m') \<and> vm_view m' = vm_view vm_demo2 \<and> covers e 20"
  using NaClVmmapFindPage_correct [OF vm_demo2_inv, of 20]
  by (auto simp: vm_demo2_view split: option.splits)

theorem NaClVmmapFindSpace_correct_witness:
  "\<exists>r m'. NaClVmmapFindSpace vm_demo2 100 = Inr (r, m') \<and> search_result vm_demo2 (\<lambda>_. True) 100 (unat r)"
  using NaClVmmapFindSpace_correct [OF vm_demo2_inv, of 100] by (auto simp: vm_demo2_nvalid)

theorem NaClVmmapFindMapSpace_correct_witness:
  "\<exists>r m'. NaClVmmapFindMapSpace vm_demo2 100 = Inr (r, m') \<and> search_result vm_demo2 (\<lambda>a. 16 dvd a) 112 (unat r)"
  using NaClVmmapFindMapSpace_correct [OF vm_demo2_inv, of 100]
  by (auto simp: vm_demo2_nvalid page_limit_def map_units_def)


end
