(* ===== verification/App_Space.thy ===== *)
theory App_Space
  imports App_Tables Vmmap_Search
begin

text \<open>
  The address space of a NaCl application and the translation of its addresses
  (service\_runtime/sel\_ldr-inl.h, sel\_ldr.h). \<open>NaClAppSpace\<close> joins the descriptor and
  thread tables (theory App\_Tables) with the memory map (theory Vmmap), which share one heap
  of reference counts, kept in the tables; \<open>vmap\<close> is the map on that heap. \<open>host_log\<close> is not
  in the C struct: it lists the calls by which the runtime has changed the host's mappings.
  The thread that makes a system call is part of the state.
\<close>

section \<open>State\<close>

datatype host_op =
    Mmap u32 u32 u32 u32 "int option" u32  \<comment> \<open>\<open>mmap\<close>: address, length, prot, flags, descriptor, offset\<close>
  | ImcMap u32 u32 u32 u32 int u32         \<comment> \<open>\<open>NaClMap\<close> of the IMC library\<close>
  | Madvise u32 u32 u32                    \<comment> \<open>\<open>madvise\<close>: address, length, advice\<close>
  | Mprotect u32 u32 u32                   \<comment> \<open>\<open>mprotect\<close>: address, length, prot\<close>

datatype NaClAppThreadState = NACL_APP_THREAD_ALIVE | NACL_APP_THREAD_SUICIDE_PENDING | NACL_APP_THREAD_DEAD

record NaClAppSpace =
  tables :: NaClApp
  mem_map :: NaClVmmap
  mu :: bool
  addr_bits :: nat
  mem_start :: u32
  xlate_base :: u32
  text_region_bytes :: u32
  data_end :: u32
  break_addr :: u32
  thread_state :: NaClAppThreadState
  holding_sr_locks :: bool
  host_log :: "host_op list"

definition vmap :: "NaClAppSpace \<Rightarrow> NaClVmmap" where
  "vmap nap = (mem_map nap)\<lparr>desc_refs := refs (tables nap)\<rparr>"

definition put_vmap :: "NaClAppSpace \<Rightarrow> NaClVmmap \<Rightarrow> NaClAppSpace" where
  "put_vmap nap m = nap\<lparr>mem_map := m, tables := (tables nap)\<lparr>refs := desc_refs m\<rparr>\<rparr>"

section \<open>Address translation\<close>

definition kNaClBadAddress :: u32 where "kNaClBadAddress = NOT 0"

definition space_size :: "NaClAppSpace \<Rightarrow> u32" where  \<comment> \<open>\<open>1U << nap->addr_bits\<close>\<close>
  "space_size nap = push_bit (addr_bits nap) 1"

definition NaClUserToSysAddrNullOkay :: "NaClAppSpace \<Rightarrow> u32 \<Rightarrow> u32" where
  "NaClUserToSysAddrNullOkay nap uaddr =
     (if uaddr \<ge> space_size nap then kNaClBadAddress else uaddr + xlate_base nap)"

definition NaClUserToSysAddr :: "NaClAppSpace \<Rightarrow> u32 \<Rightarrow> u32" where
  "NaClUserToSysAddr nap uaddr =
     (if 0 = uaddr \<or> uaddr \<ge> space_size nap then kNaClBadAddress else uaddr + xlate_base nap)"

definition NaClSysToUserAddr :: "NaClAppSpace \<Rightarrow> u32 \<Rightarrow> u32" where
  "NaClSysToUserAddr nap sysaddr =
     (if sysaddr < mem_start nap \<or> sysaddr \<ge> mem_start nap + space_size nap then kNaClBadAddress
      else sysaddr - xlate_base nap)"

definition NaClUserToSysAddrRange :: "NaClAppSpace \<Rightarrow> u32 \<Rightarrow> u32 \<Rightarrow> u32" where
  "NaClUserToSysAddrRange nap uaddr cnt =
     (if 0 = uaddr then kNaClBadAddress
      else let end_addr = uaddr + cnt
           in if end_addr < uaddr then kNaClBadAddress
              else if end_addr \<ge> space_size nap then kNaClBadAddress
              else uaddr + xlate_base nap)"

definition NaClUserToSys :: "NaClAppSpace \<Rightarrow> u32 \<Rightarrow> u32 result" where
  "NaClUserToSys nap uaddr =
     (if 0 = uaddr \<or> uaddr \<ge> space_size nap then Inl LogFatal else Inr (uaddr + xlate_base nap))"

definition NaClSysToUser :: "NaClAppSpace \<Rightarrow> u32 \<Rightarrow> u32 result" where
  "NaClSysToUser nap sysaddr =
     (if sysaddr < mem_start nap \<or> sysaddr \<ge> mem_start nap + space_size nap then Inl LogFatal
      else Inr (sysaddr - xlate_base nap))"

text \<open>\<open>addr & ~(uintptr_t)((1 << nap->align_boundary) - 1)\<close>: on x86 the shift counts modulo
  32 (in C a count of 32 is undefined).\<close>

definition NaClSandboxAddr :: "nat \<Rightarrow> u32 \<Rightarrow> u32" where
  "NaClSandboxAddr align_boundary addr = addr AND NOT (push_bit (align_boundary mod 32) 1 - 1)"

section \<open>Entering and leaving a system call\<close>

definition NaClSysCommonThreadSyscallEnter :: "NaClAppSpace \<Rightarrow> NaClAppSpace" where
  "NaClSysCommonThreadSyscallEnter nap = nap\<lparr>holding_sr_locks := True\<rparr>"

definition NaClSysCommonThreadSyscallLeave :: "NaClAppSpace \<Rightarrow> NaClAppSpace result" where
  "NaClSysCommonThreadSyscallLeave nap =
     (let nap = nap\<lparr>holding_sr_locks := False\<rparr>
      in case thread_state nap of
           NACL_APP_THREAD_ALIVE \<Rightarrow> Inr nap
         | NACL_APP_THREAD_SUICIDE_PENDING \<Rightarrow> Inl ThreadExit
         | NACL_APP_THREAD_DEAD \<Rightarrow> Inl LogFatal)"

section \<open>The invariant\<close>

text \<open>\<open>outside\<close> counts the references that neither the descriptor table nor the memory map
  holds.\<close>

definition table_refs :: "NaClAppSpace \<Rightarrow> nat \<Rightarrow> nat" where
  "table_refs nap = holders (dyn_lookup (desc_tbl (tables nap)))"

definition map_refs :: "NaClAppSpace \<Rightarrow> nat \<Rightarrow> nat" where
  "map_refs nap = held (mset (ents (mem_map nap) (nvalid (mem_map nap))))"

definition geometry :: "NaClAppSpace \<Rightarrow> bool" where
  "geometry nap \<longleftrightarrow> xlate_base nap = mem_start nap \<and> 18 \<le> addr_bits nap \<and> addr_bits nap < 32 \<and>
     unat (mem_start nap) + 2 ^ addr_bits nap < 4294967296 \<and>
     131072 + unat (text_region_bytes nap) \<le> 2 ^ addr_bits nap"

definition text_end :: "NaClAppSpace \<Rightarrow> nat" where
  "text_end nap = 131072 + unat (text_region_bytes nap)"

definition space_inv :: "(nat \<Rightarrow> nat) \<Rightarrow> NaClAppSpace \<Rightarrow> bool" where
  "space_inv outside nap \<longleftrightarrow> geometry nap \<and>
     app_inv (\<lambda>p. map_refs nap p + outside p) (tables nap) \<and>
     vm_inv (\<lambda>p. table_refs nap p + outside p) (vmap nap)"


section \<open>The two views of the heap\<close>

lemma vmap_simps [simp]:
  "nvalid (vmap nap) = nvalid (mem_map nap)" "vmentry (vmap nap) = vmentry (mem_map nap)"
  "desc_refs (vmap nap) = refs (tables nap)" "is_sorted (vmap nap) = is_sorted (mem_map nap)"
  "vm_size (vmap nap) = vm_size (mem_map nap)"
  by (simp_all add: vmap_def)

lemma ents_vmap: "ents (vmap nap) n = ents (mem_map nap) n" "full (vmap nap) n = full (mem_map nap) n"
  by (simp_all add: ents_def full_def)

lemma put_vmap_simps [simp]:
  "vmap (put_vmap nap m) = m" "mem_map (put_vmap nap m) = m" "host_log (put_vmap nap m) = host_log nap"
  "table_refs (put_vmap nap m) = table_refs nap" "geometry (put_vmap nap m) = geometry nap"
  "mem_start (put_vmap nap m) = mem_start nap" "addr_bits (put_vmap nap m) = addr_bits nap"
  "map_refs (put_vmap nap m) = held (mset (ents m (nvalid m)))"
  by (simp_all add: put_vmap_def vmap_def table_refs_def geometry_def map_refs_def)

lemma map_refs_vmap: "map_refs nap = held (mset (ents (vmap nap) (nvalid (vmap nap))))"
  by (simp add: map_refs_def ents_vmap)

lemma space_inv_put:
  assumes inv: "space_inv out0 nap" and m: "vm_inv (\<lambda>p. table_refs nap p + out p) m"
  shows "space_inv out (put_vmap nap m)"
proof -
  have "refs_ok (\<lambda>p. held (mset (ents m (nvalid m))) p + (table_refs nap p + out p)) (desc_refs m)"
    using m by (simp add: vm_inv_def sweeping_def)
  then have "refs_ok (ref_total (\<lambda>p. held (mset (ents m (nvalid m))) p + out p) (dyn_lookup (desc_tbl (tables nap)))) (desc_refs m)"
    by (simp add: ref_total_def [abs_def] table_refs_def add.left_commute)
  then show ?thesis
    using inv m by (simp add: space_inv_def app_inv_def) (simp add: put_vmap_def)
qed

lemma space_inv_refs:
  assumes inv: "space_inv out0 nap" and h: "refs_ok (\<lambda>p. map_refs nap p + (table_refs nap p + out p)) h"
  shows "space_inv out (nap\<lparr>tables := (tables nap)\<lparr>refs := h\<rparr>\<rparr>)"
proof -
  let ?n = "nap\<lparr>tables := (tables nap)\<lparr>refs := h\<rparr>\<rparr>"
  have same: "map_refs ?n = map_refs nap" "table_refs ?n = table_refs nap" "geometry ?n = geometry nap"
      "vmap ?n = (vmap nap)\<lparr>desc_refs := h\<rparr>"
    by (simp_all add: map_refs_def table_refs_def geometry_def vmap_def)
  have "refs_ok (ref_total (\<lambda>p. map_refs nap p + out p) (dyn_lookup (desc_tbl (tables nap)))) h"
    using h by (simp add: ref_total_def [abs_def] table_refs_def add.left_commute)
  moreover have "sweeping (\<lambda>p. table_refs nap p + out p) ((vmap nap)\<lparr>desc_refs := h\<rparr>) (nvalid (vmap nap))"
    using inv h by (simp add: space_inv_def vm_inv_def sweeping_def map_refs_vmap ents_def full_def)
  ultimately show ?thesis
    using inv unfolding space_inv_def same
    by (simp add: app_inv_def vm_inv_def ents_def)
qed

lemma space_inv_total:
  assumes "space_inv out nap"
  shows "refs_ok (\<lambda>p. map_refs nap p + (table_refs nap p + out p)) (refs (tables nap))"
  using assms by (simp add: space_inv_def vm_inv_def sweeping_def map_refs_vmap)


section \<open>Translation is the addition of the base\<close>

lemma unat_space_size: "geometry nap \<Longrightarrow> unat (space_size nap) = 2 ^ addr_bits nap"
  by (simp add: space_size_def geometry_def unat_exp32 push_bit_eq_mult)

lemma unat_sys:
  assumes "geometry nap" "unat u \<le> 2 ^ addr_bits nap"
  shows "unat (u + mem_start nap) = unat u + unat (mem_start nap)"
  using assms by (simp add: geometry_def unat_plus_u32)

lemma NaClUserToSys_ok:
  assumes g: "geometry nap" and u: "0 < unat u" "unat u < 2 ^ addr_bits nap"
  shows "NaClUserToSys nap u = Inr (u + mem_start nap)"
  using assms unat_space_size [OF g] by (auto simp: NaClUserToSys_def geometry_def word_le_nat_alt)

lemma NaClSysToUser_ok:
  assumes g: "geometry nap" and u: "unat u < 2 ^ addr_bits nap"
  shows "NaClSysToUser nap (u + mem_start nap) = Inr u"
proof -
  have "unat (space_size nap + mem_start nap) = 2 ^ addr_bits nap + unat (mem_start nap)"
    using unat_sys [OF g, of "space_size nap"] unat_space_size [OF g] by simp
  then show ?thesis
    using g u unat_sys [OF g, of u]
    by (simp add: NaClSysToUser_def geometry_def word_less_nat_alt word_le_nat_alt add.commute)
qed

section \<open>A step that is confined to a region\<close>

text \<open>An operation that touches only the bytes \<open>[lo, hi)\<close> and makes nothing executable.\<close>

fun op_start :: "host_op \<Rightarrow> nat" where
  "op_start (Mmap a n pr fl d off) = unat a"
| "op_start (ImcMap a n pr fl h off) = unat a"
| "op_start (Madvise a n adv) = unat a"
| "op_start (Mprotect a n pr) = unat a"

fun op_len :: "host_op \<Rightarrow> nat" where
  "op_len (Mmap a n pr fl d off) = unat n"
| "op_len (ImcMap a n pr fl h off) = unat n"
| "op_len (Madvise a n adv) = unat n"
| "op_len (Mprotect a n pr) = unat n"

fun op_prot :: "host_op \<Rightarrow> u32" where
  "op_prot (Mmap a n pr fl d off) = pr"
| "op_prot (ImcMap a n pr fl h off) = pr"
| "op_prot (Madvise a n adv) = 0"
| "op_prot (Mprotect a n pr) = pr"

definition no_exec :: "u32 \<Rightarrow> bool" where
  "no_exec pr \<longleftrightarrow> pr AND 4 = 0"  \<comment> \<open>\<open>PROT_EXEC\<close>\<close>

definition confined :: "nat \<Rightarrow> nat \<Rightarrow> host_op \<Rightarrow> bool" where
  "confined lo hi op \<longleftrightarrow> lo \<le> op_start op \<and> op_start op + op_len op \<le> hi \<and> no_exec (op_prot op)"

text \<open>Addresses of the application: the log grows by confined operations, and the map changes
  only inside, to mappings without \<open>PROT_EXEC\<close>; nothing else of the application changes but
  reference counts.\<close>

definition logged :: "nat \<Rightarrow> nat \<Rightarrow> NaClAppSpace \<Rightarrow> NaClAppSpace \<Rightarrow> bool" where
  "logged lo hi nap nap' \<longleftrightarrow> (\<exists>ops. host_log nap' = host_log nap @ ops \<and>
     (\<forall>op \<in> set ops. confined (unat (mem_start nap) + lo) (unat (mem_start nap) + hi) op))"

definition in_pages :: "nat \<Rightarrow> nat \<Rightarrow> nat \<Rightarrow> bool" where
  "in_pages lo hi q \<longleftrightarrow> lo \<le> q * 4096 \<and> q * 4096 < hi"

definition remapped :: "nat \<Rightarrow> nat \<Rightarrow> NaClAppSpace \<Rightarrow> NaClAppSpace \<Rightarrow> bool" where
  "remapped lo hi nap nap' \<longleftrightarrow> (\<forall>q. vm_view (vmap nap') q = vm_view (vmap nap) q \<or> in_pages lo hi q \<and>
     (case vm_view (vmap nap') q of None \<Rightarrow> True | Some (pr, _) \<Rightarrow> no_exec (word_of_int pr)))"

definition only_maps :: "NaClAppSpace \<Rightarrow> NaClAppSpace \<Rightarrow> bool" where
  "only_maps nap nap' \<longleftrightarrow>
     (\<exists>h m l. nap' = nap\<lparr>tables := (tables nap)\<lparr>refs := h\<rparr>, mem_map := m, host_log := l\<rparr>)"

definition confined_step :: "nat \<Rightarrow> nat \<Rightarrow> NaClAppSpace \<Rightarrow> NaClAppSpace \<Rightarrow> bool" where
  "confined_step lo hi nap nap' \<longleftrightarrow> logged lo hi nap nap' \<and> remapped lo hi nap nap' \<and> only_maps nap nap'"

lemma only_mapsI: "nap' = nap\<lparr>tables := (tables nap)\<lparr>refs := h\<rparr>, mem_map := m, host_log := l\<rparr> \<Longrightarrow> only_maps nap nap'"
  unfolding only_maps_def by blast

lemma only_maps_put: "only_maps nap (put_vmap nap m)"
  by (rule only_mapsI [where h = "desc_refs m" and m = m and l = "host_log nap"]) (simp add: put_vmap_def)

lemma only_maps_log: "only_maps nap (nap\<lparr>host_log := l\<rparr>)"
  by (rule only_mapsI [where h = "refs (tables nap)" and m = "mem_map nap" and l = l]) simp

lemma only_maps_refs: "only_maps nap (nap\<lparr>tables := (tables nap)\<lparr>refs := h\<rparr>\<rparr>)"
  by (rule only_mapsI [where h = h and m = "mem_map nap" and l = "host_log nap"]) simp

lemma only_maps_refl [simp]: "only_maps nap nap"
  using only_maps_log [of nap "host_log nap"] by simp

lemma only_maps_same:
  assumes "only_maps nap nap'"
  shows "mem_start nap' = mem_start nap" "addr_bits nap' = addr_bits nap" "geometry nap' = geometry nap"
    "table_refs nap' = table_refs nap" "text_region_bytes nap' = text_region_bytes nap" "mu nap' = mu nap"
    "space_size nap' = space_size nap" "thread_state nap' = thread_state nap"
    "break_addr nap' = break_addr nap" "data_end nap' = data_end nap" "desc_mu (tables nap') = desc_mu (tables nap)"
    "xlate_base nap' = xlate_base nap" "text_end nap' = text_end nap"
proof -
  obtain h m l where eq: "nap' = nap\<lparr>tables := (tables nap)\<lparr>refs := h\<rparr>, mem_map := m, host_log := l\<rparr>"
    using assms unfolding only_maps_def by blast
  show "mem_start nap' = mem_start nap" "addr_bits nap' = addr_bits nap" "geometry nap' = geometry nap"
    "table_refs nap' = table_refs nap" "text_region_bytes nap' = text_region_bytes nap" "mu nap' = mu nap"
    "space_size nap' = space_size nap" "thread_state nap' = thread_state nap"
    "break_addr nap' = break_addr nap" "data_end nap' = data_end nap" "desc_mu (tables nap') = desc_mu (tables nap)"
    "xlate_base nap' = xlate_base nap" "text_end nap' = text_end nap"
    unfolding eq by (simp_all add: geometry_def table_refs_def space_size_def text_end_def)
qed

lemma only_maps_trans:
  assumes "only_maps a b" "only_maps b c" shows "only_maps a c"
proof -
  obtain h m l where b: "b = a\<lparr>tables := (tables a)\<lparr>refs := h\<rparr>, mem_map := m, host_log := l\<rparr>"
    using assms(1) unfolding only_maps_def by blast
  obtain h' m' l' where c: "c = b\<lparr>tables := (tables b)\<lparr>refs := h'\<rparr>, mem_map := m', host_log := l'\<rparr>"
    using assms(2) unfolding only_maps_def by blast
  show ?thesis
    by (rule only_mapsI [where h = h' and m = m' and l = l']) (simp add: b c)
qed

lemma logged_refl [simp]: "logged lo hi nap nap"
  by (simp add: logged_def)

lemma logged_trans:
  assumes "logged lo hi a b" "logged lo hi b c" "mem_start b = mem_start a"
  shows "logged lo hi a c"
proof -
  let ?in = "confined (unat (mem_start a) + lo) (unat (mem_start a) + hi)"
  obtain x y where "host_log b = host_log a @ x" "\<forall>op \<in> set x. ?in op" "host_log c = host_log b @ y" "\<forall>op \<in> set y. ?in op"
    using assms unfolding logged_def by auto
  then show ?thesis unfolding logged_def by (intro exI [of _ "x @ y"]) auto
qed

lemma confined_mono: "confined lo hi op \<Longrightarrow> lo' \<le> lo \<Longrightarrow> hi \<le> hi' \<Longrightarrow> confined lo' hi' op"
  by (simp add: confined_def)

lemma logged_mono: "logged lo hi a b \<Longrightarrow> lo' \<le> lo \<Longrightarrow> hi \<le> hi' \<Longrightarrow> logged lo' hi' a b"
  unfolding logged_def by (elim exE conjE, intro exI conjI) (auto intro: confined_mono)

lemma remapped_refl [simp]: "remapped lo hi nap nap"
  by (simp add: remapped_def)

lemma remapped_trans: "remapped lo hi a b \<Longrightarrow> remapped lo hi b c \<Longrightarrow> remapped lo hi a c"
  unfolding remapped_def
proof
  fix q
  assume "\<forall>q. vm_view (vmap b) q = vm_view (vmap a) q \<or> in_pages lo hi q \<and>
      (case vm_view (vmap b) q of None \<Rightarrow> True | Some (pr, _) \<Rightarrow> no_exec (word_of_int pr))"
    and "\<forall>q. vm_view (vmap c) q = vm_view (vmap b) q \<or> in_pages lo hi q \<and>
      (case vm_view (vmap c) q of None \<Rightarrow> True | Some (pr, _) \<Rightarrow> no_exec (word_of_int pr))"
  from this [THEN spec, of q] show "vm_view (vmap c) q = vm_view (vmap a) q \<or> in_pages lo hi q \<and>
      (case vm_view (vmap c) q of None \<Rightarrow> True | Some (pr, _) \<Rightarrow> no_exec (word_of_int pr))"
    by auto
qed

lemma remapped_mono: "remapped lo hi a b \<Longrightarrow> lo' \<le> lo \<Longrightarrow> hi \<le> hi' \<Longrightarrow> remapped lo' hi' a b"
  unfolding remapped_def in_pages_def by (erule all_forward) auto

lemma remapped_eq: "vm_view (vmap b) = vm_view (vmap a) \<Longrightarrow> remapped lo hi a b"
  by (simp add: remapped_def)

lemma confined_step_refl [simp]: "confined_step lo hi nap nap"
  by (simp add: confined_step_def)

lemma confined_step_trans: "confined_step lo hi a b \<Longrightarrow> confined_step lo hi b c \<Longrightarrow> confined_step lo hi a c"
  unfolding confined_step_def
  using only_maps_trans remapped_trans logged_trans only_maps_same(1) by blast

lemma confined_step_mono: "confined_step lo hi a b \<Longrightarrow> lo' \<le> lo \<Longrightarrow> hi \<le> hi' \<Longrightarrow> confined_step lo' hi' a b"
  unfolding confined_step_def using logged_mono remapped_mono by blast

lemma confined_step_log:
  assumes "\<forall>op \<in> set ops. confined (unat (mem_start nap) + lo) (unat (mem_start nap) + hi) op"
  shows "confined_step lo hi nap (nap\<lparr>host_log := host_log nap @ ops\<rparr>)"
  using assms only_maps_log [of nap] by (auto simp: confined_step_def logged_def remapped_def vmap_def)

section \<open>References stay few\<close>

definition few :: "(nat \<Rightarrow> nat) \<Rightarrow> NaClAppSpace \<Rightarrow> bool" where
  "few out nap \<longleftrightarrow> (\<forall>p. table_refs nap p + out p < 4000000000)"

lemma held_le: "held M p \<le> size M"
  by (induction M) (auto simp: owns_def split: option.splits)

lemma map_refs_le:
  assumes "space_inv out nap" shows "map_refs nap p \<le> page_limit"
proof -
  let ?M = "mset (ents (vmap nap) (nvalid (vmap nap)))"
  have "size ?M \<le> page_limit"
    by (rule once_size) (use assms in \<open>auto simp: space_inv_def vm_inv_def\<close>)
  then show ?thesis using held_le [of ?M p] by (simp add: map_refs_vmap)
qed

end
