(* ===== verification/Host_Map.thy ===== *)
theory Host_Map
  imports App_Space
begin

text \<open>
  Mapping host memory into the address space: \<open>NaClHostDescMap\<close> (shared/platform/linux), the
  \<open>Map\<close> and \<open>Fstat\<close> methods of the descriptor classes (desc/nacl\_desc\_io.c,
  nacl\_desc\_imc\_shm.c, nacl\_desc\_base.c) and \<open>NaClCommonUtilUpdateAddrMap\<close>. The host is a
  parameter: its answer to a call may depend on all earlier ones. The locale \<open>mapper\<close> is the
  contract that every \<open>Map\<close> method keeps: the calls it makes stay in whole 64 KB units of
  the region asked for, and map nothing executable.
\<close>

section \<open>Protection and flags\<close>

definition NACL_ABI_PROT_READ :: u32 where "NACL_ABI_PROT_READ = 1"
definition NACL_ABI_PROT_WRITE :: u32 where "NACL_ABI_PROT_WRITE = 2"
definition NACL_ABI_PROT_EXEC :: u32 where "NACL_ABI_PROT_EXEC = 4"
definition NACL_ABI_MAP_SHARED :: u32 where "NACL_ABI_MAP_SHARED = 1"
definition NACL_ABI_MAP_PRIVATE :: u32 where "NACL_ABI_MAP_PRIVATE = 2"
definition NACL_ABI_MAP_FIXED :: u32 where "NACL_ABI_MAP_FIXED = 0x10"
definition NACL_ABI_MAP_ANONYMOUS :: u32 where "NACL_ABI_MAP_ANONYMOUS = 0x20"

lemmas prot_consts = NACL_ABI_PROT_READ_def NACL_ABI_PROT_WRITE_def NACL_ABI_PROT_EXEC_def
  NACL_ABI_MAP_SHARED_def NACL_ABI_MAP_PRIVATE_def NACL_ABI_MAP_FIXED_def NACL_ABI_MAP_ANONYMOUS_def

text \<open>On Linux the host's constants are the same.\<close>

definition NaClProtMap :: "u32 \<Rightarrow> u32" where
  "NaClProtMap abi_prot =
     (if abi_prot AND NACL_ABI_PROT_READ \<noteq> 0 then NACL_ABI_PROT_READ else 0) OR
     (if abi_prot AND NACL_ABI_PROT_WRITE \<noteq> 0 then NACL_ABI_PROT_WRITE else 0) OR
     (if abi_prot AND NACL_ABI_PROT_EXEC \<noteq> 0 then NACL_ABI_PROT_EXEC else 0)"

definition NaClMapFlagMap :: "u32 \<Rightarrow> u32" where
  "NaClMapFlagMap flags =
     (if flags AND NACL_ABI_MAP_SHARED \<noteq> 0 then NACL_ABI_MAP_SHARED else 0) OR
     (if flags AND NACL_ABI_MAP_PRIVATE \<noteq> 0 then NACL_ABI_MAP_PRIVATE else 0) OR
     (if flags AND NACL_ABI_MAP_FIXED \<noteq> 0 then NACL_ABI_MAP_FIXED else 0) OR
     (if flags AND NACL_ABI_MAP_ANONYMOUS \<noteq> 0 then NACL_ABI_MAP_ANONYMOUS else 0)"

definition NACL_ABI_EBADF :: int where "NACL_ABI_EBADF = 9"
definition NACL_ABI_ENOMEM :: int where "NACL_ABI_ENOMEM = 12"
definition NACL_ABI_EFAULT :: int where "NACL_ABI_EFAULT = 14"
definition NACL_ABI_EINVAL :: int where "NACL_ABI_EINVAL = 22"
definition NACL_ABI_E_MOVE_ADDRESS_SPACE :: int where "NACL_ABI_E_MOVE_ADDRESS_SPACE = 0x40000000"

definition neg_errno :: "int \<Rightarrow> u32" where "neg_errno e = word_of_int (- e)"

definition NaClIsNegErrno :: "u32 \<Rightarrow> bool" where "NaClIsNegErrno val \<longleftrightarrow> val \<ge> 0xffff0000"

section \<open>The host\<close>

text \<open>\<open>host log op\<close>: after the calls \<open>log\<close>, the call \<open>op\<close> fails with an \<open>errno\<close> (given as
  its NaCl number) or returns an address.\<close>

type_synonym host_fn = "host_op list \<Rightarrow> host_op \<Rightarrow> int + u32"

definition NaClHostDescMap ::
    "host_fn \<Rightarrow> int option \<Rightarrow> u32 \<Rightarrow> u32 \<Rightarrow> u32 \<Rightarrow> u32 \<Rightarrow> u32 \<Rightarrow> host_op list \<Rightarrow> (u32 \<times> host_op list) result" where
  "NaClHostDescMap host d start_addr len pr flags off log =
     (if d = None \<and> flags AND NACL_ABI_MAP_ANONYMOUS = 0 then Inl LogFatal
      else
        let pr = pr AND (NACL_ABI_PROT_READ OR NACL_ABI_PROT_WRITE);
            flags = (flags AND NACL_ABI_MAP_ANONYMOUS) OR (NACL_ABI_MAP_FIXED OR NACL_ABI_MAP_PRIVATE);
            desc = (if flags AND NACL_ABI_MAP_ANONYMOUS \<noteq> 0 then None else d);
            op = Mmap start_addr len (NaClProtMap pr) (NaClMapFlagMap flags) desc off
        in case host log op of
             Inl e \<Rightarrow> Inr (neg_errno e, log @ [op])
           | Inr a \<Rightarrow> if a \<noteq> start_addr then Inl LogFatal else Inr (start_addr, log @ [op]))"

section \<open>Descriptor classes\<close>

text \<open>The classes whose \<open>Map\<close> is implemented: a host file, with its host descriptor, and IMC
  shared memory, with its handle and size.\<close>

datatype NaClDesc = HostIo int | ImcShm int u32 | OtherDesc

definition NaClDescIoDescMap ::
    "host_fn \<Rightarrow> int option \<Rightarrow> u32 \<Rightarrow> u32 \<Rightarrow> u32 \<Rightarrow> u32 \<Rightarrow> u32 \<Rightarrow> host_op list \<Rightarrow> (u32 \<times> host_op list) result" where
  "NaClDescIoDescMap host d start_addr len pr flags off log =
     (if NOT (NACL_ABI_PROT_READ OR NACL_ABI_PROT_WRITE) AND pr \<noteq> 0 then Inr (neg_errno NACL_ABI_EINVAL, log)
      else NaClHostDescMap host d start_addr len pr flags off log)"

text \<open>The loop of \<open>NaClDescImcShmMap\<close>, one 64 KB unit at a time. \<open>NACL_PROT_*\<close> are the
  \<open>PROT_*\<close> bits, \<open>NACL_MAP_SHARED | NACL_MAP_FIXED\<close> is 5.\<close>

partial_function (option) shm_loop ::
    "host_fn \<Rightarrow> int \<Rightarrow> u32 \<Rightarrow> u32 \<Rightarrow> u32 \<Rightarrow> u32 \<Rightarrow> u32 \<Rightarrow> host_op list \<Rightarrow> (u32 \<times> host_op list) result option" where
  "shm_loop host h start_addr pr addr end_addr off log =
     (if addr < end_addr then
        let op = ImcMap addr NACL_MAP_PAGESIZE pr 5 h off
        in case host log op of
             Inl e \<Rightarrow> Some (Inr (neg_errno NACL_ABI_E_MOVE_ADDRESS_SPACE, log @ [op]))
           | Inr a \<Rightarrow> if a \<noteq> addr then Some (Inl LogFatal)
                      else shm_loop host h start_addr pr (addr + NACL_MAP_PAGESIZE) end_addr
                             (off + NACL_MAP_PAGESIZE) (log @ [op])
      else Some (Inr (start_addr, log)))"

declare shm_loop.simps [code]

definition NaClDescImcShmMap ::
    "host_fn \<Rightarrow> int \<Rightarrow> u32 \<Rightarrow> u32 \<Rightarrow> u32 \<Rightarrow> u32 \<Rightarrow> u32 \<Rightarrow> host_op list \<Rightarrow> (u32 \<times> host_op list) result" where
  "NaClDescImcShmMap host h start_addr len pr flags off log =
     (if pr = 0 then Inr (neg_errno NACL_ABI_EINVAL, log)
      else if NOT (NACL_ABI_PROT_READ OR NACL_ABI_PROT_WRITE) AND pr \<noteq> 0 then Inr (neg_errno NACL_ABI_EINVAL, log)
      else let imc_prot = (if NACL_ABI_PROT_READ AND pr \<noteq> 0 then 1 else 0) OR
                          (if NACL_ABI_PROT_WRITE AND pr \<noteq> 0 then 2 else 0)
           in case shm_loop host h start_addr imc_prot start_addr (start_addr + len) off log of
                None \<Rightarrow> Inl Diverges
              | Some r \<Rightarrow> r)"

definition NaClDescMapNotImplemented ::
    "u32 \<Rightarrow> u32 \<Rightarrow> u32 \<Rightarrow> u32 \<Rightarrow> u32 \<Rightarrow> host_op list \<Rightarrow> (u32 \<times> host_op list) result" where
  "NaClDescMapNotImplemented start_addr len pr flags off log = Inr (neg_errno NACL_ABI_EINVAL, log)"

text \<open>\<open>(*ndp->vtbl->Map)\<close> and \<open>(*ndp->vtbl->Fstat)\<close>; \<open>host_fstat\<close> gives \<open>errno\<close> or \<open>st_size\<close>.\<close>

fun desc_Map ::
    "host_fn \<Rightarrow> NaClDesc \<Rightarrow> u32 \<Rightarrow> u32 \<Rightarrow> u32 \<Rightarrow> u32 \<Rightarrow> u32 \<Rightarrow> host_op list \<Rightarrow> (u32 \<times> host_op list) result" where
  "desc_Map host (HostIo d) = NaClDescIoDescMap host (Some d)"
| "desc_Map host (ImcShm h n) = NaClDescImcShmMap host h"
| "desc_Map host OtherDesc = NaClDescMapNotImplemented"

fun desc_Fstat :: "(int \<Rightarrow> int + u32) \<Rightarrow> NaClDesc \<Rightarrow> int \<times> u32" where
  "desc_Fstat host_fstat (HostIo d) = (case host_fstat d of Inl e \<Rightarrow> (- e, 0) | Inr sz \<Rightarrow> (0, sz))"
| "desc_Fstat host_fstat (ImcShm h n) = (0, n)"
| "desc_Fstat host_fstat OtherDesc = (- NACL_ABI_EINVAL, 0)"

section \<open>Recording a mapping\<close>

text \<open>\<open>ok\<close> says which allocations succeed: 0 to 4 inside the update, 5 the memory object.\<close>

definition NaClCommonUtilUpdateAddrMap ::
    "(nat \<Rightarrow> bool) \<Rightarrow> NaClAppSpace \<Rightarrow> u32 \<Rightarrow> u32 \<Rightarrow> u32 \<Rightarrow> nat option \<Rightarrow> u32 \<Rightarrow> u32 \<Rightarrow> bool \<Rightarrow> NaClAppSpace result" where
  "NaClCommonUtilUpdateAddrMap ok nap sysaddr nb sysprot bdesc backing_bytes offset_bytes delete_mem =
     bind_result (NaClSysToUser nap sysaddr) (\<lambda>usraddr.
     bind_result
       (if bdesc \<noteq> None \<and> delete_mem then Inl LogFatal
        else if bdesc = None then Inr (None, refs (tables nap))
        else NaClMemObjMake (ok 5) (refs (tables nap)) bdesc backing_bytes offset_bytes) (\<lambda>(o1, h).
     bind_result (NaClVmmapUpdate ok ((mem_map nap)\<lparr>desc_refs := h\<rparr>) (drop_bit NACL_PAGESHIFT usraddr)
                    (drop_bit NACL_PAGESHIFT nb) (sint sysprot) o1 delete_mem) (\<lambda>m.
       Inr (put_vmap nap m))))"

section \<open>The contract of a mapping method\<close>

text \<open>Whole 64 KB units.\<close>

definition units :: "nat \<Rightarrow> nat" where
  "units n = (n + 65535) div 65536 * 65536"

lemma units_le: "n \<le> units n"
  using div_mult_mod_eq [of "n + 65535" 65536] mod_less_divisor [of 65536 "n + 65535"]
  unfolding units_def by linarith

lemma units_room: "k * 65536 < n \<Longrightarrow> k * 65536 + 65536 \<le> units n"
proof -
  assume "k * 65536 < n"
  then have "Suc k \<le> (n + 65535) div 65536" by (simp add: less_eq_div_iff_mult_less_eq)
  then show ?thesis unfolding units_def by simp
qed

lemma confined_log: "confined lo hi op \<Longrightarrow> \<exists>ops. log @ [op] = log @ ops \<and> (\<forall>op \<in> set ops. confined lo hi op)"
  by (intro exI [of _ "[op]"]) simp

locale mapper =
  fixes Map :: "u32 \<Rightarrow> u32 \<Rightarrow> u32 \<Rightarrow> u32 \<Rightarrow> u32 \<Rightarrow> host_op list \<Rightarrow> (u32 \<times> host_op list) result"
  assumes calls: "unat a + units (unat n) < 4294967296 \<Longrightarrow> Map a n pr fl off log = Inr (r, log') \<Longrightarrow>
      \<exists>ops. log' = log @ ops \<and> (\<forall>op \<in> set ops. confined (unat a) (unat a + units (unat n)) op)"
    and stops: "unat a + units (unat n) < 4294967296 \<Longrightarrow> Map a n pr fl off log = Inl f \<Longrightarrow> f = LogFatal"
begin

lemma cases:
  assumes "unat a + units (unat n) < 4294967296"
  obtains "Map a n pr fl off log = Inl LogFatal"
  | r ops where "Map a n pr fl off log = Inr (r, log @ ops)"
      "\<forall>op \<in> set ops. confined (unat a) (unat a + units (unat n)) op"
proof (cases "Map a n pr fl off log")
  case (Inl f)
  then show ?thesis using stops [OF assms Inl] that(1) by simp
next
  case (Inr p)
  then obtain r log' where "Map a n pr fl off log = Inr (r, log')" by (cases p) auto
  with calls [OF assms this] that(2) show ?thesis by auto
qed

end

lemma NaClProtMap_rw: "no_exec (NaClProtMap (pr AND (NACL_ABI_PROT_READ OR NACL_ABI_PROT_WRITE)))"
proof -
  have "(pr AND 3) AND 4 = (0 :: u32)" by (simp add: and.assoc)
  then show ?thesis by (auto simp: NaClProtMap_def no_exec_def prot_consts and.assoc)
qed

lemma NaClProtMap_no_exec: "no_exec pr \<Longrightarrow> no_exec (NaClProtMap pr)"
  by (auto simp: NaClProtMap_def no_exec_def prot_consts)

lemma NaClHostDescMap_outcomes:
  "NaClHostDescMap host d a n pr fl off log = Inl LogFatal \<or>
    (\<exists>r op. NaClHostDescMap host d a n pr fl off log = Inr (r, log @ [op]) \<and> confined (unat a) (unat a + unat n) op)"
  using NaClProtMap_rw [of pr]
  by (auto simp: NaClHostDescMap_def Let_def confined_def split: sum.splits)

lemma HostDescMap_mapper: "mapper (NaClHostDescMap host d)"
proof
  fix a n pr fl off log
  note outcome = NaClHostDescMap_outcomes [of host d a n pr fl off log]
  show "NaClHostDescMap host d a n pr fl off log = Inl f \<Longrightarrow> f = LogFatal" for f
    using outcome by auto
  show "\<exists>ops. log' = log @ ops \<and> (\<forall>op \<in> set ops. confined (unat a) (unat a + units (unat n)) op)"
    if r: "NaClHostDescMap host d a n pr fl off log = Inr (r, log')" for r log'
  proof -
    obtain op where "log' = log @ [op]" "confined (unat a) (unat a + unat n) op" using outcome r by auto
    moreover have "confined (unat a) (unat a + units (unat n)) op"
      using calculation(2) confined_mono [of "unat a" "unat a + unat n" op "unat a"] units_le [of "unat n"] by simp
    ultimately show ?thesis using confined_log by simp
  qed
qed

interpretation host: mapper "NaClHostDescMap host d" for host d
  by (rule HostDescMap_mapper)

interpretation io: mapper "NaClDescIoDescMap host d" for host d
  by unfold_locales (auto simp: NaClDescIoDescMap_def dest: host.calls host.stops split: if_splits)

interpretation other: mapper NaClDescMapNotImplemented
  by unfold_locales (auto simp: NaClDescMapNotImplemented_def)

section \<open>Shared memory keeps the contract\<close>

text \<open>The units are mapped one by one, the last one whole, although it may reach beyond the
  length asked for.\<close>

lemma shm_loop_spec:
  assumes room: "unat start + units n < 4294967296" and e: "unat end_addr = unat start + n"
    and pr: "no_exec pr"
  shows "unat addr = unat start + k * 65536 \<Longrightarrow>
    \<exists>r. shm_loop host h start pr addr end_addr off log = Some r \<and>
      (case r of Inl f \<Rightarrow> f = LogFatal
       | Inr (v, log') \<Rightarrow> \<exists>ops. log' = log @ ops \<and> (\<forall>op \<in> set ops. confined (unat start) (unat start + units n) op))"
proof (induction "unat start + units n - unat addr" arbitrary: addr k off log rule: less_induct)
  case less
  show ?case
  proof (cases "addr < end_addr")
    case False
    then show ?thesis by (subst shm_loop.simps) simp
  next
    case True
    let ?op = "ImcMap addr NACL_MAP_PAGESIZE pr 5 h off"
    have size: "unat NACL_MAP_PAGESIZE = 65536" by (simp add: page_consts)
    have "k * 65536 < n" using True less.prems e by (simp add: word_less_nat_alt)
    note next_unit = units_room [OF this]
    have here: "confined (unat start) (unat start + units n) ?op"
      using less.prems next_unit pr size by (simp add: confined_def)
    have next_addr: "unat (addr + NACL_MAP_PAGESIZE) = unat start + Suc k * 65536"
      using less.prems next_unit room size by (simp add: unat_plus_u32)
    have smaller: "unat start + units n - unat (addr + NACL_MAP_PAGESIZE) < unat start + units n - unat addr"
      using next_addr less.prems next_unit by simp
    from less.hyps [OF smaller next_addr, of "off + NACL_MAP_PAGESIZE" "log @ [?op]"]
    obtain r where r: "shm_loop host h start pr (addr + NACL_MAP_PAGESIZE) end_addr (off + NACL_MAP_PAGESIZE) (log @ [?op]) = Some r"
      "case r of Inl f \<Rightarrow> f = LogFatal
       | Inr (v, log') \<Rightarrow> \<exists>ops. log' = (log @ [?op]) @ ops \<and> (\<forall>op \<in> set ops. confined (unat start) (unat start + units n) op)"
      by blast
    have grown: "\<exists>ops. log' = log @ ops \<and> (\<forall>op \<in> set ops. confined (unat start) (unat start + units n) op)"
      if "log' = (log @ [?op]) @ ops" "\<forall>op \<in> set ops. confined (unat start) (unat start + units n) op" for log' ops
      using that here by (intro exI [of _ "?op # ops"]) simp
    show ?thesis
      using r(2) here grown
      by (subst shm_loop.simps) (fastforce simp: True Let_def r(1) intro: confined_log split: sum.splits)
  qed
qed

lemma imc_prot_no_exec: "no_exec ((if P then 1 else 0) OR (if Q then 2 else 0))"
  by (auto simp: no_exec_def)

lemma ImcShm_outcome:
  assumes "unat a + units (unat n) < 4294967296"
  shows "case NaClDescImcShmMap host h a n pr fl off log of Inl f \<Rightarrow> f = LogFatal
       | Inr (v, log') \<Rightarrow> \<exists>ops. log' = log @ ops \<and> (\<forall>op \<in> set ops. confined (unat a) (unat a + units (unat n)) op)"
proof -
  have e: "unat (a + n) = unat a + unat n"
    using assms units_le [of "unat n"] by (simp add: unat_plus_u32)
  define imc where "imc = (if NACL_ABI_PROT_READ AND pr \<noteq> 0 then 1 else 0) OR (if NACL_ABI_PROT_WRITE AND pr \<noteq> 0 then 2 else (0 :: u32))"
  have "no_exec imc" unfolding imc_def by (rule imc_prot_no_exec)
  from shm_loop_spec [OF assms e this, of a 0 host h off log]
  obtain r where "shm_loop host h a imc a (a + n) off log = Some r"
    "case r of Inl f \<Rightarrow> f = LogFatal
       | Inr (v, log') \<Rightarrow> \<exists>ops. log' = log @ ops \<and> (\<forall>op \<in> set ops. confined (unat a) (unat a + units (unat n)) op)"
    by auto
  then show ?thesis
    unfolding NaClDescImcShmMap_def imc_def [symmetric] by simp
qed

interpretation shm: mapper "NaClDescImcShmMap host h" for host h
  by unfold_locales (use ImcShm_outcome in \<open>fastforce split: sum.splits\<close>)+

text \<open>The method that \<open>mmap\<close> calls, whatever the class of the descriptor.\<close>

lemma desc_Map_mapper: "mapper (desc_Map host d)"
  by (cases d) (simp_all add: io.mapper_axioms shm.mapper_axioms other.mapper_axioms)

interpretation any: mapper "desc_Map host d" for host d
  by (rule desc_Map_mapper)

end
