(* ===== verification/Sys_Mmap.thy ===== *)
theory Sys_Mmap
  imports Host_Map
begin

text \<open>
  The system calls that change the address space: \<open>mmap\<close> and \<open>brk\<close>
  (service\_runtime/nacl\_syscall\_common.c) and \<open>munmap\<close> (linux/nacl\_syscall\_impl.c). Each
  returns the value for the application and the new state; \<open>Inl\<close> means that the call does
  not return. \<open>sys_env\<close> holds what the calls do not change: the host, the descriptor objects
  and which allocations succeed.
\<close>

record sys_env =
  host_of :: host_fn
  fstat_of :: "int \<Rightarrow> int + u32"
  desc_of :: "nat \<Rightarrow> NaClDesc"
  ok_of :: "nat \<Rightarrow> bool"

section \<open>mmap\<close>

definition NaClSysCommonAddrRangeContainsExecutablePages_mu :: "NaClAppSpace \<Rightarrow> u32 \<Rightarrow> u32 \<Rightarrow> bool" where
  "NaClSysCommonAddrRangeContainsExecutablePages_mu nap usraddr len \<longleftrightarrow>
     NaClTruncAllocPage usraddr < NACL_TRAMPOLINE_END + text_region_bytes nap"

text \<open>The size of the file, and the bytes of it that can be mapped, rounded to host pages and
  to 64 KB units; \<open>Inl\<close> is an early return.\<close>

definition mmap_file_bytes :: "sys_env \<Rightarrow> nat option \<Rightarrow> u32 \<Rightarrow> u32 + u32 \<times> u32 \<times> u32" where
  "mmap_file_bytes env desc off = (case desc of
       None \<Rightarrow> Inr (0x7fffffff, 0x7fffffff, 0x7fffffff)
     | Some p \<Rightarrow>
         let (rv, file_size) = desc_Fstat (fstat_of env) (desc_of env p)
         in if rv \<noteq> 0 then Inl (word_of_int rv)
            else if file_size <s off then Inl (neg_errno NACL_ABI_EINVAL)
            else let file_bytes = NaClRoundHostAllocPage (file_size - off);
                     alloc_rounded_file_bytes = NaClRoundAllocPage file_bytes
                 in if alloc_rounded_file_bytes = 0 \<and> file_bytes \<noteq> 0 then Inl (neg_errno NACL_ABI_ENOMEM)
                    else Inr (file_size, file_bytes, alloc_rounded_file_bytes))"

text \<open>Without \<open>MAP_FIXED\<close> the runtime picks the address; \<open>None\<close> is "no room".\<close>

definition mmap_pick :: "NaClAppSpace \<Rightarrow> u32 \<Rightarrow> u32 \<Rightarrow> u32 \<Rightarrow> (u32 option \<times> NaClAppSpace) result" where
  "mmap_pick nap flags usraddr alloc_len =
     (if flags AND NACL_ABI_MAP_FIXED \<noteq> 0 then Inr (Some usraddr, nap)
      else
        let n = drop_bit NACL_PAGESHIFT alloc_len
        in bind_result
             (if usraddr = 0 then NaClVmmapFindMapSpace (vmap nap) n
              else bind_result (NaClVmmapFindMapSpaceAboveHint (vmap nap) usraddr n) (\<lambda>(usrpage, m).
                     if usrpage = 0 then NaClVmmapFindMapSpace m n else Inr (usrpage, m)))
             (\<lambda>(usrpage, m).
                Inr (if usrpage = 0 then None else Some (push_bit NACL_PAGESHIFT usrpage), put_vmap nap m)))"

definition mmap_refused :: "NaClAppSpace \<Rightarrow> u32 \<Rightarrow> u32 \<Rightarrow> u32 \<Rightarrow> bool" where
  "mmap_refused nap usraddr alloc_len len \<longleftrightarrow>
     usraddr \<ge> space_size nap \<or> usraddr + alloc_len < usraddr \<or> usraddr + alloc_len > space_size nap \<or>
     NaClSysCommonAddrRangeContainsExecutablePages_mu nap usraddr len"

definition update_map ::
    "sys_env \<Rightarrow> NaClAppSpace \<Rightarrow> u32 \<Rightarrow> u32 \<Rightarrow> u32 \<Rightarrow> nat option \<Rightarrow> u32 \<Rightarrow> u32 \<Rightarrow> NaClAppSpace result" where
  "update_map env nap sysaddr nb sysprot bdesc bb off =
     NaClCommonUtilUpdateAddrMap (ok_of env) nap sysaddr nb sysprot bdesc bb off False"

text \<open>\<open>[0, length)\<close> from the file or anonymous memory, through a \<open>Map\<close> method.\<close>

type_synonym map_fn = "u32 \<Rightarrow> u32 \<Rightarrow> u32 \<Rightarrow> u32 \<Rightarrow> u32 \<Rightarrow> host_op list \<Rightarrow> (u32 \<times> host_op list) result"

definition map_segment ::
    "sys_env \<Rightarrow> map_fn \<Rightarrow> NaClAppSpace \<Rightarrow> nat option \<Rightarrow> u32 \<Rightarrow> u32 \<Rightarrow> u32 \<Rightarrow> u32 \<Rightarrow> u32 \<Rightarrow> u32 \<Rightarrow> NaClAppSpace result" where
  "map_segment env Map nap desc sysaddr len pr flags file_size off =
     bind_result (Map sysaddr len pr flags off (host_log nap)) (\<lambda>(map_result, log).
       if NaClIsNegErrno map_result then Inl LogFatal
       else if map_result \<noteq> sysaddr then Inl LogFatal
       else let nap = nap\<lparr>host_log := log\<rparr> in
         if pr = 0 then update_map env nap sysaddr len 0 None file_size off
         else update_map env nap sysaddr len (NaClProtMap pr) desc file_size off)"

definition the_Map :: "sys_env \<Rightarrow> nat option \<Rightarrow> map_fn" where
  "the_Map env desc = (case desc of
       None \<Rightarrow> NaClDescIoDescMap (host_of env) None
     | Some p \<Rightarrow> desc_Map (host_of env) (desc_of env p))"

text \<open>Zero-filled pages, then inaccessible ones; only the failure of the first is reported.\<close>

definition map_anonymous ::
    "sys_env \<Rightarrow> NaClAppSpace \<Rightarrow> u32 \<Rightarrow> u32 \<Rightarrow> u32 \<Rightarrow> (u32 \<times> NaClAppSpace) result" where
  "map_anonymous env nap addr map_len pr =
     bind_result (NaClHostDescMap (host_of env) None addr map_len pr
                    (NACL_ABI_MAP_ANONYMOUS OR NACL_ABI_MAP_PRIVATE) 0 (host_log nap))
       (\<lambda>(r, log). Inr (r, nap\<lparr>host_log := log\<rparr>))"

definition map_zero_fill ::
    "sys_env \<Rightarrow> NaClAppSpace \<Rightarrow> u32 \<Rightarrow> u32 \<Rightarrow> u32 \<Rightarrow> (u32 option \<times> NaClAppSpace) result" where
  "map_zero_fill env nap addr map_len pr =
     bind_result (map_anonymous env nap addr map_len pr) (\<lambda>(r, nap).
       if NaClIsNegErrno r then Inr (Some r, nap)
       else bind_result (update_map env nap addr map_len (NaClProtMap pr) None 0 0) (\<lambda>nap. Inr (None, nap)))"

definition map_inaccessible :: "sys_env \<Rightarrow> NaClAppSpace \<Rightarrow> u32 \<Rightarrow> u32 \<Rightarrow> NaClAppSpace result" where
  "map_inaccessible env nap addr map_len =
     bind_result (map_anonymous env nap addr map_len 0) (\<lambda>(r, nap).
       update_map env nap addr map_len 0 None 0 0)"

definition mmap_map ::
    "sys_env \<Rightarrow> NaClAppSpace \<Rightarrow> nat option \<Rightarrow> u32 \<Rightarrow> u32 \<Rightarrow> u32 \<Rightarrow> u32 \<Rightarrow> u32 \<Rightarrow> u32 \<Rightarrow> u32 \<Rightarrow> u32
      \<Rightarrow> (u32 \<times> NaClAppSpace) result" where
  "mmap_map env nap desc usraddr len start_of_inaccessible alloc_len pr flags file_size off =
     bind_result (NaClUserToSys nap usraddr) (\<lambda>sysaddr.
     bind_result
       (if len > 0 then map_segment env (the_Map env desc) nap desc sysaddr len pr flags file_size off
        else Inr nap) (\<lambda>nap.
     bind_result
       (if len < start_of_inaccessible
        then map_zero_fill env nap (sysaddr + len) (start_of_inaccessible - len) pr
        else Inr (None, nap)) (\<lambda>(failed, nap).
     case failed of Some r \<Rightarrow> Inr (r, nap)
     | None \<Rightarrow>
         bind_result
           (if start_of_inaccessible < alloc_len
            then map_inaccessible env nap (sysaddr + start_of_inaccessible) (alloc_len - start_of_inaccessible)
            else Inr nap) (\<lambda>nap. Inr (usraddr, nap)))))"

text \<open>What runs under the application's lock.\<close>

definition mmap_locked ::
    "sys_env \<Rightarrow> NaClAppSpace \<Rightarrow> nat option \<Rightarrow> u32 \<Rightarrow> u32 \<Rightarrow> u32 \<Rightarrow> u32 \<Rightarrow> u32 \<Rightarrow> u32 \<Rightarrow> u32 \<Rightarrow> u32
      \<Rightarrow> (u32 \<times> NaClAppSpace) result" where
  "mmap_locked env nap desc usraddr len start_of_inaccessible alloc_len pr flags file_size off =
     bind_result (mmap_pick nap flags usraddr alloc_len) (\<lambda>(picked, nap).
       case picked of None \<Rightarrow> Inr (neg_errno NACL_ABI_ENOMEM, nap)
       | Some usraddr \<Rightarrow>
           if mmap_refused nap usraddr alloc_len len then Inr (neg_errno NACL_ABI_EINVAL, nap)
           else
             let flags = flags OR NACL_ABI_MAP_FIXED; pr = pr AND NOT NACL_ABI_PROT_EXEC
             in if (flags AND NACL_ABI_MAP_SHARED = 0) = (flags AND NACL_ABI_MAP_PRIVATE = 0)
                then Inr (neg_errno NACL_ABI_EINVAL, nap)
                else mmap_map env nap desc usraddr len start_of_inaccessible alloc_len pr flags file_size off)"

definition size_min :: "u32 \<Rightarrow> u32 \<Rightarrow> u32" where "size_min a b = (if a < b then a else b)"

definition mmap_body ::
    "sys_env \<Rightarrow> NaClAppSpace \<Rightarrow> nat option \<Rightarrow> u32 \<Rightarrow> u32 \<Rightarrow> u32 \<Rightarrow> u32 \<Rightarrow> u32 \<Rightarrow> (u32 \<times> NaClAppSpace) result" where
  "mmap_body env nap desc usraddr len pr flags off =
     (let usraddr = (if \<not> NaClIsAllocPageMultiple usraddr then NaClRoundAllocPage usraddr else usraddr)
      in if \<not> NaClIsAllocPageMultiple off then Inr (neg_errno NACL_ABI_EINVAL, nap)
         else if len = 0 then Inr (neg_errno NACL_ABI_EINVAL, nap)
         else
           let alloc_len = NaClRoundAllocPage len
           in case mmap_file_bytes env desc off of
                Inl r \<Rightarrow> Inr (r, nap)
              | Inr (file_size, file_bytes, alloc_rounded_file_bytes) \<Rightarrow>
                  if mu nap then Inl Diverges
                  else bind_result
                         (mmap_locked env (nap\<lparr>mu := True\<rparr>) desc usraddr (size_min alloc_len file_bytes)
                            (size_min alloc_len alloc_rounded_file_bytes) alloc_len pr flags file_size off)
                         (\<lambda>(r, nap). Inr (r, nap\<lparr>mu := False\<rparr>)))"

definition unref_desc :: "NaClAppSpace \<Rightarrow> nat option \<Rightarrow> NaClAppSpace result" where
  "unref_desc nap desc = (case desc of None \<Rightarrow> Inr nap
     | Some p \<Rightarrow> bind_result (NaClDescUnref (refs (tables nap)) p) (\<lambda>h. Inr (nap\<lparr>tables := (tables nap)\<lparr>refs := h\<rparr>\<rparr>)))"

definition get_desc :: "NaClAppSpace \<Rightarrow> int \<Rightarrow> (nat option \<times> NaClAppSpace) result" where
  "get_desc nap d = bind_result (NaClGetDesc (tables nap) d) (\<lambda>(desc, t). Inr (desc, nap\<lparr>tables := t\<rparr>))"

definition NaClCommonSysMmap ::
    "sys_env \<Rightarrow> NaClAppSpace \<Rightarrow> u32 \<Rightarrow> u32 \<Rightarrow> u32 \<Rightarrow> u32 \<Rightarrow> int \<Rightarrow> u32 \<Rightarrow> (u32 \<times> NaClAppSpace) result" where
  "NaClCommonSysMmap env nap start len pr flags d off =
     (let nap = NaClSysCommonThreadSyscallEnter nap;
          flags = flags AND (NACL_ABI_MAP_FIXED OR NACL_ABI_MAP_SHARED OR NACL_ABI_MAP_PRIVATE OR NACL_ABI_MAP_ANONYMOUS);
          anonymous = (flags AND NACL_ABI_MAP_ANONYMOUS \<noteq> 0)
      in bind_result (if anonymous then Inr (None, nap) else get_desc nap d) (\<lambda>(desc, nap).
         bind_result
           (if \<not> anonymous \<and> desc = None then Inr (neg_errno NACL_ABI_EBADF, nap)
            else mmap_body env nap desc start len pr flags off) (\<lambda>(retval, nap).
         bind_result (unref_desc nap desc) (\<lambda>nap.
         bind_result (NaClSysCommonThreadSyscallLeave nap) (\<lambda>nap. Inr (retval, nap))))))"

section \<open>munmap\<close>

text \<open>\<open>start\<close> is not the null page, so the region is \<open>[start, start + length)\<close>.\<close>

definition munmap_locked :: "sys_env \<Rightarrow> NaClAppSpace \<Rightarrow> u32 \<Rightarrow> u32 \<Rightarrow> u32 \<Rightarrow> (u32 \<times> NaClAppSpace) result" where
  "munmap_locked env nap start sysaddr len =
     (if NaClSysCommonAddrRangeContainsExecutablePages_mu nap start len then Inr (neg_errno NACL_ABI_EINVAL, nap)
      else
        let op = Mmap sysaddr len 0 (NACL_ABI_MAP_PRIVATE OR NACL_ABI_MAP_ANONYMOUS OR NACL_ABI_MAP_FIXED) None 0;
            answer = host_of env (host_log nap) op;
            nap = nap\<lparr>host_log := host_log nap @ [op]\<rparr>
        in case answer of
             Inl e \<Rightarrow> Inr (neg_errno e, nap)
           | Inr a \<Rightarrow>
               bind_result (NaClSysToUser nap sysaddr) (\<lambda>usraddr.
               bind_result (NaClVmmapUpdate (ok_of env) (vmap nap) (drop_bit NACL_PAGESHIFT usraddr)
                              (drop_bit NACL_PAGESHIFT len) 0 None True) (\<lambda>m.
                 Inr (0, put_vmap nap m))))"

definition munmap_body :: "sys_env \<Rightarrow> NaClAppSpace \<Rightarrow> u32 \<Rightarrow> u32 \<Rightarrow> (u32 \<times> NaClAppSpace) result" where
  "munmap_body env nap start len =
     (if \<not> NaClIsAllocPageMultiple start then Inr (neg_errno NACL_ABI_EINVAL, nap)
      else if len = 0 then Inr (neg_errno NACL_ABI_EINVAL, nap)
      else
        let len = NaClRoundAllocPage len;
            sysaddr = NaClUserToSysAddrRange nap start len
        in if sysaddr = kNaClBadAddress then Inr (neg_errno NACL_ABI_EFAULT, nap)
           else if mu nap then Inl Diverges
           else bind_result (munmap_locked env (nap\<lparr>mu := True\<rparr>) start sysaddr len)
                  (\<lambda>(r, nap). Inr (r, nap\<lparr>mu := False\<rparr>)))"

definition NaClSysMunmap :: "sys_env \<Rightarrow> NaClAppSpace \<Rightarrow> u32 \<Rightarrow> u32 \<Rightarrow> (u32 \<times> NaClAppSpace) result" where
  "NaClSysMunmap env nap start len =
     bind_result (munmap_body env (NaClSysCommonThreadSyscallEnter nap) start len) (\<lambda>(retval, nap).
     bind_result (NaClSysCommonThreadSyscallLeave nap) (\<lambda>nap. Inr (retval, nap)))"

section \<open>brk\<close>

text \<open>The break moves into pages that the entry of the current break does not cover yet:
  \<open>ent\<close>, at index \<open>ix\<close>, is extended up to the last whole 64 KB unit.\<close>

definition extend_break :: "sys_env \<Rightarrow> NaClAppSpace \<Rightarrow> nat \<Rightarrow> NaClVmmapEntry \<Rightarrow> u32 \<Rightarrow> u32 \<Rightarrow> (u32 \<times> NaClAppSpace) result" where
  "extend_break env nap ix ent last_internal_page new_break =
     (let start_new_region = push_bit NACL_PAGESHIFT (page_num ent + npages ent);
          ent' = ent\<lparr>npages := last_internal_page - page_num ent + 1\<rparr>;
          nap = nap\<lparr>mem_map := set_slot_at (mem_map nap) ix (Some ent')\<rparr>;
          region_size = push_bit NACL_PAGESHIFT (last_internal_page + 1) - start_new_region
      in bind_result (NaClUserToSys nap start_new_region) (\<lambda>sysaddr.
           let op = Mprotect sysaddr region_size (NACL_ABI_PROT_READ OR NACL_ABI_PROT_WRITE)
           in case host_of env (host_log nap) op of
                Inl e \<Rightarrow> Inl LogFatal
              | Inr _ \<Rightarrow> Inr (new_break, nap\<lparr>host_log := host_log nap @ [op], break_addr := new_break\<rparr>)))"

text \<open>\<open>rv\<close> is the old break, the value returned on failure.\<close>

definition grow_break :: "sys_env \<Rightarrow> NaClAppSpace \<Rightarrow> u32 \<Rightarrow> u32 \<Rightarrow> (u32 \<times> NaClAppSpace) result" where
  "grow_break env nap rv new_break =
     bind_result (NaClUserToSys nap (break_addr nap)) (\<lambda>sys_break.
       let usr_last_data_page = drop_bit NACL_PAGESHIFT (break_addr nap - 1);
           usr_new_last_data_page = drop_bit NACL_PAGESHIFT (new_break - 1);
           last_internal_page = drop_bit NACL_PAGESHIFT (NaClRoundAllocPage new_break - 1)
       in bind_result (NaClVmmapFindPageIter (vmap nap) usr_last_data_page) (\<lambda>(ix, m).
            let nap = put_vmap nap m in
            if NaClVmmapIterAtEnd m ix then Inl LogFatal
            else bind_result (NaClVmmapIterStar m ix) (\<lambda>star. case star of None \<Rightarrow> Inl NullDeref
              | Some ent \<Rightarrow>
                  if usr_new_last_data_page < page_num ent + npages ent
                  then Inr (new_break, nap\<lparr>break_addr := new_break\<rparr>)
                  else
                    let ix' = NaClVmmapIterIncr ix in
                    bind_result
                      (if NaClVmmapIterAtEnd m ix' then Inr False
                       else bind_result (NaClVmmapIterStar m ix') (\<lambda>star. case star of None \<Rightarrow> Inl NullDeref
                              | Some next_ent \<Rightarrow> Inr (page_num next_ent \<le> last_internal_page)))
                      (\<lambda>runs_into. if runs_into then Inr (rv, nap)
                         else extend_break env nap ix ent last_internal_page new_break))))"

definition brk_locked :: "sys_env \<Rightarrow> NaClAppSpace \<Rightarrow> u32 \<Rightarrow> u32 \<Rightarrow> (u32 \<times> NaClAppSpace) result" where
  "brk_locked env nap rv new_break =
     (if new_break < data_end nap then Inr (rv, nap)
      else if new_break \<le> break_addr nap then Inr (rv, nap\<lparr>break_addr := new_break\<rparr>)
      else grow_break env nap rv new_break)"

definition NaClSetBreak :: "sys_env \<Rightarrow> NaClAppSpace \<Rightarrow> u32 \<Rightarrow> (u32 \<times> NaClAppSpace) result" where
  "NaClSetBreak env nap new_break =
     (let rv = break_addr nap; nap = NaClSysCommonThreadSyscallEnter nap
      in bind_result
           (if NaClUserToSysAddr nap new_break = kNaClBadAddress then Inr (rv, nap)
            else if mu nap then Inl Diverges
            else bind_result (brk_locked env (nap\<lparr>mu := True\<rparr>) rv new_break) (\<lambda>(r, nap). Inr (r, nap\<lparr>mu := False\<rparr>)))
           (\<lambda>(r, nap). bind_result (NaClSysCommonThreadSyscallLeave nap) (\<lambda>nap. Inr (r, nap))))"

end
