(* ===== verification/Sel_Space.thy ===== *)
theory Sel_Space
  imports Sel_Elf Sys_Mmap
begin

text \<open>
  The address space of a module being loaded (service\_runtime/sel\_addrspace.c,
  arch/x86/sel\_addrspace\_x86.c, linux/sel\_memory.c): it is allocated as one readable, writable
  and executable block, the hole between data and stack is given back, and after the load the
  regions get their final protection and their entries in the memory map.
\<close>

section \<open>The application while it is loaded\<close>

record NaClAppLoad =
  space :: NaClAppSpace
  image :: memory
  stack_size :: u32
  entry_pt :: u32
  align_boundary :: int
  elf_hdr :: Elf32_Ehdr
  phdrs :: "Elf32_Phdr list"
  springboard_addr :: u32

definition NACL_MAX_ADDR_BITS :: nat where "NACL_MAX_ADDR_BITS = 8 + 17"
definition PROT_RWX :: u32 where
  "PROT_RWX = NACL_ABI_PROT_EXEC OR NACL_ABI_PROT_READ OR NACL_ABI_PROT_WRITE"

text \<open>Calls of the host: the log grows, an error is the negative \<open>errno\<close>.\<close>

definition host_call :: "sys_env \<Rightarrow> NaClAppSpace \<Rightarrow> host_op \<Rightarrow> (int + u32) \<times> NaClAppSpace" where
  "host_call env sp op = (host_of env (host_log sp) op, sp\<lparr>host_log := host_log sp @ [op]\<rparr>)"

definition NaCl_mprotect :: "sys_env \<Rightarrow> NaClAppSpace \<Rightarrow> u32 \<Rightarrow> u32 \<Rightarrow> u32 \<Rightarrow> int \<times> NaClAppSpace" where
  "NaCl_mprotect env sp addr len pr =
     (case host_call env sp (Mprotect addr len pr) of
        (Inl e, sp) \<Rightarrow> (- e, sp)
      | (Inr _, sp) \<Rightarrow> (0, sp))"

definition MADV_DONTNEED :: u32 where "MADV_DONTNEED = 4"

definition NaCl_madvise :: "sys_env \<Rightarrow> NaClAppSpace \<Rightarrow> u32 \<Rightarrow> u32 \<Rightarrow> u32 \<Rightarrow> int \<times> NaClAppSpace" where
  "NaCl_madvise env sp addr len advice =
     (case host_call env sp (Madvise addr len advice) of
        (Inl e, sp) \<Rightarrow> (- e, sp)
      | (Inr _, sp) \<Rightarrow> (0, sp))"

text \<open>Private anonymous memory at an address of the host's choice, or at \<open>p\<close>; it is zero. The
  failure is \<open>-ENOMEM\<close> whatever the reason.\<close>

definition NaCl_page_alloc_intern ::
    "sys_env \<Rightarrow> NaClAppLoad \<Rightarrow> u32 \<Rightarrow> u32 \<Rightarrow> int \<times> u32 \<times> NaClAppLoad" where
  "NaCl_page_alloc_intern env nap p sz =
     (let map_flags = (NACL_ABI_MAP_PRIVATE OR NACL_ABI_MAP_ANONYMOUS) OR
                      (if p \<noteq> 0 then NACL_ABI_MAP_FIXED else 0)
      in case host_call env (space nap) (Mmap p sz PROT_RWX map_flags None 0) of
           (Inl e, sp) \<Rightarrow> (- NACL_ABI_ENOMEM, p, nap\<lparr>space := sp\<rparr>)
         | (Inr addr, sp) \<Rightarrow>
             (if addr = 0 then (- NACL_ABI_ENOMEM, p, nap\<lparr>space := sp\<rparr>)
              else (0, addr, nap\<lparr>space := sp, image := fill_bytes (image nap) (unat addr) 0 (unat sz)\<rparr>)))"

definition NaCl_page_alloc :: "sys_env \<Rightarrow> NaClAppLoad \<Rightarrow> u32 \<Rightarrow> int \<times> u32 \<times> NaClAppLoad" where
  "NaCl_page_alloc env nap sz = NaCl_page_alloc_intern env nap 0 sz"

definition NaClAllocateSpace :: "sys_env \<Rightarrow> NaClAppLoad \<Rightarrow> u32 \<Rightarrow> NaClErrorCode \<times> u32 \<times> NaClAppLoad" where
  "NaClAllocateSpace env nap sz =
     (case NaCl_page_alloc env nap sz of (rv, mem, nap) \<Rightarrow>
        (if rv \<noteq> 0 then LOAD_NO_MEMORY else LOAD_OK, mem, nap))"

section \<open>Results\<close>

text \<open>\<open>if (err != LOAD_OK) return err;\<close> between two steps.\<close>

type_synonym 's load_result = "(NaClErrorCode \<times> 's) result"

definition and_then :: "'s load_result \<Rightarrow> ('s \<Rightarrow> 's load_result) \<Rightarrow> 's load_result" where
  "and_then r f = bind_result r (\<lambda>(err, s). if err \<noteq> LOAD_OK then Inr (err, s) else f s)"

lemma and_then_ok: "and_then r f = Inr (LOAD_OK, s') \<longleftrightarrow> (\<exists>s. r = Inr (LOAD_OK, s) \<and> f s = Inr (LOAD_OK, s'))"
  by (auto simp: and_then_def bind_result_eq_Inr split: if_splits)

text \<open>A step on the address space of the application.\<close>

definition on_space :: "NaClAppLoad \<Rightarrow> NaClAppSpace load_result \<Rightarrow> NaClAppLoad load_result" where
  "on_space nap r = bind_result r (\<lambda>(err, sp). Inr (err, nap\<lparr>space := sp\<rparr>))"

lemma on_space_ok: "on_space nap r = Inr (LOAD_OK, nap') \<longleftrightarrow> (\<exists>sp. r = Inr (LOAD_OK, sp) \<and> nap' = nap\<lparr>space := sp\<rparr>)"
  by (auto simp: on_space_def bind_result_eq_Inr)

section \<open>Allocation\<close>

text \<open>The block is at \<open>mem\<close>; the hole between the data and the stack loses its pages and its
  protection.\<close>

definition make_hole :: "sys_env \<Rightarrow> NaClAppSpace \<Rightarrow> u32 \<Rightarrow> u32 \<Rightarrow> NaClErrorCode \<times> NaClAppSpace" where
  "make_hole env sp hole_start hole_size =
     (if hole_size = 0 then (LOAD_OK, sp)
      else case NaCl_madvise env sp (mem_start sp + hole_start) hole_size MADV_DONTNEED of (err, sp) \<Rightarrow>
        if err \<noteq> 0 then (LOAD_MADVISE_FAIL, sp)
        else case NaCl_mprotect env sp (mem_start sp + hole_start) hole_size 0 of (err, sp) \<Rightarrow>
          (if err \<noteq> 0 then LOAD_MPROTECT_FAIL else LOAD_OK, sp))"

definition NaClAllocAddrSpace :: "sys_env \<Rightarrow> NaClAppLoad \<Rightarrow> NaClErrorCode \<times> NaClAppLoad" where
  "NaClAllocAddrSpace env nap =
     (case NaClAllocateSpace env nap (space_size (space nap)) of (rv, mem, nap) \<Rightarrow>
        if rv \<noteq> LOAD_OK then (rv, nap)
        else
          let nap = nap\<lparr>space := (space nap)\<lparr>mem_start := mem, xlate_base := mem\<rparr>\<rparr>;
              hole_start = NaClRoundAllocPage (data_end (space nap));
              stack_start = NaClTruncAllocPage (space_size (space nap) - stack_size nap)
          in if stack_start < hole_start then (LOAD_DATA_OVERLAPS_STACK_SECTION, nap)
             else case make_hole env (space nap) hole_start (NaClTruncAllocPage (stack_start - hole_start)) of
                    (rv, sp) \<Rightarrow> (rv, nap\<lparr>space := sp\<rparr>))"

section \<open>Protection\<close>

text \<open>One region: the host's protection, then an entry of the memory map; \<open>k\<close> numbers the
  allocations.\<close>

definition protect_region ::
    "sys_env \<Rightarrow> nat \<Rightarrow> NaClAppSpace \<Rightarrow> u32 \<Rightarrow> u32 \<Rightarrow> u32 \<Rightarrow> u32 \<Rightarrow> NaClAppSpace load_result" where
  "protect_region env k sp start_addr prot_size map_pages pr =
     (case NaCl_mprotect env sp start_addr prot_size pr of (err, sp) \<Rightarrow>
        if err \<noteq> 0 then Inr (LOAD_MPROTECT_FAIL, sp)
        else bind_result (NaClVmmapAdd (ok_of env k) (ok_of env (k + 1)) (vmap sp)
                            (drop_bit NACL_PAGESHIFT (start_addr - mem_start sp)) map_pages (sint pr) None)
               (\<lambda>(r, m). Inr (if r = 0 then LOAD_MPROTECT_FAIL else LOAD_OK, put_vmap sp m)))"

definition NaClMprotectNullRegion :: "sys_env \<Rightarrow> NaClAppSpace \<Rightarrow> u32 \<Rightarrow> NaClAppSpace load_result" where
  "NaClMprotectNullRegion env sp start_addr =
     protect_region env 0 sp start_addr NACL_SYSCALL_START_ADDR (drop_bit NACL_PAGESHIFT NACL_SYSCALL_START_ADDR) 0"

text \<open>The trampolines and the text, the data up to the end of its last 64 KB unit, the stack.\<close>

definition text_region_size :: "NaClAppSpace \<Rightarrow> u32" where
  "text_region_size sp = NaClRoundPage (NACL_TRAMPOLINE_END - NACL_SYSCALL_START_ADDR + text_region_bytes sp)"

definition protect_text :: "sys_env \<Rightarrow> NaClAppSpace \<Rightarrow> NaClAppSpace load_result" where
  "protect_text env sp =
     protect_region env 2 sp (mem_start sp + NACL_SYSCALL_START_ADDR) (text_region_size sp)
       (drop_bit NACL_PAGESHIFT (text_region_size sp)) (NACL_ABI_PROT_READ OR NACL_ABI_PROT_EXEC)"

definition protect_data :: "sys_env \<Rightarrow> NaClAppSpace \<Rightarrow> NaClAppSpace load_result" where
  "protect_data env sp =
     (let start_addr = NaClRoundPage (mem_start sp + NACL_SYSCALL_START_ADDR + text_region_size sp);
          region_size = NaClRoundPage (NaClRoundAllocPage (data_end sp) + mem_start sp - start_addr)
      in protect_region env 4 sp start_addr region_size (drop_bit NACL_PAGESHIFT region_size)
           (NACL_ABI_PROT_READ OR NACL_ABI_PROT_WRITE))"

definition protect_stack :: "sys_env \<Rightarrow> u32 \<Rightarrow> NaClAppSpace \<Rightarrow> NaClAppSpace load_result" where
  "protect_stack env stack sp =
     protect_region env 6 sp (mem_start sp + NaClTruncAllocPage (space_size sp - stack))
       (NaClRoundAllocPage stack) (drop_bit NACL_PAGESHIFT stack) (NACL_ABI_PROT_READ OR NACL_ABI_PROT_WRITE)"

definition NaClMemoryProtection :: "sys_env \<Rightarrow> NaClAppLoad \<Rightarrow> NaClAppLoad load_result" where
  "NaClMemoryProtection env nap =
     on_space nap
       (and_then (and_then (and_then
          (NaClMprotectNullRegion env (space nap) (mem_start (space nap)))
          (protect_text env))
          (protect_data env))
          (protect_stack env (stack_size nap)))"

end
