(* ===== verification/Nc_Decode.thy ===== *)
theory Nc_Decode
  imports Nacl_Prelude
begin

text \<open>
  The table-driven instruction decoder of the validator (validator\_x86/ncdecode.c and the
  types of ncdecode.h), for the 32-bit build (\<open>NACL_TARGET_SUBARCH\<close> 32). The decoding
  tables are generated at build time (gen/.../ncdecodetab.h): they are the parameter
  \<open>decode_tables\<close>. Pointers into the segment are offsets from its first byte; the memory
  is a function of the offset, because the decoder looks ahead past the segment before it
  checks that the instruction fits. A call of \<open>ErrorInternal\<close> is counted in
  \<open>internal_errors\<close>; the segment loop hands the count to the client's callback before the
  instruction's own action, in the order of the C calls. \<open>opinfo\<close> is \<open>null_opinfo\<close>
  between \<open>InitDecoder\<close> and \<open>ConsumeOpcodeBytes\<close>, where nothing reads it.
\<close>

section \<open>Types and constants\<close>

datatype NaClInstType =
    NACLi_UNDEFINED | NACLi_ILLEGAL | NACLi_INVALID | NACLi_SYSTEM | NACLi_386 | NACLi_386L
  | NACLi_386R | NACLi_386RE | NACLi_JMP8 | NACLi_JMPZ | NACLi_INDIRECT | NACLi_OPINMRM
  | NACLi_RETURN | NACLi_SFENCE_CLFLUSH | NACLi_CMPXCHG8B | NACLi_CMPXCHG16B | NACLi_CMOV
  | NACLi_RDMSR | NACLi_RDTSC | NACLi_RDTSCP | NACLi_SYSCALL | NACLi_SYSENTER | NACLi_X87
  | NACLi_MMX | NACLi_MMXSSE2 | NACLi_3DNOW | NACLi_EMMX | NACLi_E3DNOW | NACLi_SSE
  | NACLi_SSE2 | NACLi_SSE2x | NACLi_SSE3 | NACLi_SSE4A | NACLi_SSE41 | NACLi_SSE42
  | NACLi_MOVBE | NACLi_POPCNT | NACLi_LZCNT | NACLi_LONGMODE | NACLi_SVM | NACLi_SSSE3
  | NACLi_3BYTE | NACLi_FCMOV

datatype NCDecodeImmediateType =
    IMM_UNKNOWN | IMM_NONE | IMM_FIXED1 | IMM_FIXED2 | IMM_FIXED3 | IMM_FIXED4 | IMM_DATAV
  | IMM_ADDRV | IMM_GROUP3_F6 | IMM_GROUP3_F7 | IMM_FARPTR | IMM_MOV_DATAV

definition kPrefixSEGCS :: u32 where "kPrefixSEGCS = 0x0001"
definition kPrefixSEGGS :: u32 where "kPrefixSEGGS = 0x0008"
definition kPrefixDATA16 :: u32 where "kPrefixDATA16 = 0x0010"
definition kPrefixADDR16 :: u32 where "kPrefixADDR16 = 0x0020"
definition kPrefixREPNE :: u32 where "kPrefixREPNE = 0x0040"
definition kPrefixREP :: u32 where "kPrefixREP = 0x0080"
definition kPrefixLOCK :: u32 where "kPrefixLOCK = 0x0100"
definition kPrefixSEGDS :: u32 where "kPrefixSEGDS = 0x0400"

definition kTwoByteOpcodeByte1 :: u8 where "kTwoByteOpcodeByte1 = 0x0f"
definition k3DNowOpcodeByte2 :: u8 where "k3DNowOpcodeByte2 = 0x0f"
definition kMaxPrefixBytes :: nat where "kMaxPrefixBytes = 4"
definition kDecodeBufferSize :: nat where "kDecodeBufferSize = 4"

text \<open>Sizes of immediates: with the data16 prefix, with the addr16 prefix, without either.\<close>

fun kImmTypeToSize66 :: "NCDecodeImmediateType \<Rightarrow> nat" where
  "kImmTypeToSize66 IMM_UNKNOWN = 0" | "kImmTypeToSize66 IMM_NONE = 0"
| "kImmTypeToSize66 IMM_FIXED1 = 1" | "kImmTypeToSize66 IMM_FIXED2 = 2"
| "kImmTypeToSize66 IMM_FIXED3 = 3" | "kImmTypeToSize66 IMM_FIXED4 = 4"
| "kImmTypeToSize66 IMM_DATAV = 2" | "kImmTypeToSize66 IMM_ADDRV = 4"
| "kImmTypeToSize66 IMM_GROUP3_F6 = 0" | "kImmTypeToSize66 IMM_GROUP3_F7 = 0"
| "kImmTypeToSize66 IMM_FARPTR = 6" | "kImmTypeToSize66 IMM_MOV_DATAV = 2"

fun kImmTypeToSize67 :: "NCDecodeImmediateType \<Rightarrow> nat" where
  "kImmTypeToSize67 IMM_UNKNOWN = 0" | "kImmTypeToSize67 IMM_NONE = 0"
| "kImmTypeToSize67 IMM_FIXED1 = 1" | "kImmTypeToSize67 IMM_FIXED2 = 2"
| "kImmTypeToSize67 IMM_FIXED3 = 3" | "kImmTypeToSize67 IMM_FIXED4 = 4"
| "kImmTypeToSize67 IMM_DATAV = 4" | "kImmTypeToSize67 IMM_ADDRV = 2"
| "kImmTypeToSize67 IMM_GROUP3_F6 = 0" | "kImmTypeToSize67 IMM_GROUP3_F7 = 0"
| "kImmTypeToSize67 IMM_FARPTR = 4" | "kImmTypeToSize67 IMM_MOV_DATAV = 4"

fun kImmTypeToSize :: "NCDecodeImmediateType \<Rightarrow> nat" where
  "kImmTypeToSize IMM_UNKNOWN = 0" | "kImmTypeToSize IMM_NONE = 0"
| "kImmTypeToSize IMM_FIXED1 = 1" | "kImmTypeToSize IMM_FIXED2 = 2"
| "kImmTypeToSize IMM_FIXED3 = 3" | "kImmTypeToSize IMM_FIXED4 = 4"
| "kImmTypeToSize IMM_DATAV = 4" | "kImmTypeToSize IMM_ADDRV = 4"
| "kImmTypeToSize IMM_GROUP3_F6 = 0" | "kImmTypeToSize IMM_GROUP3_F7 = 0"
| "kImmTypeToSize IMM_FARPTR = 6" | "kImmTypeToSize IMM_MOV_DATAV = 4"

record OpInfo =
  insttype :: NaClInstType
  hasmrmbyte :: u8
  op_immtype :: NCDecodeImmediateType
  opinmrm :: u8

record InstInfo =
  vaddr :: u32
  maddr :: nat
  prefixbytes :: nat
  hasopbyte2 :: bool
  hasopbyte3 :: bool
  hassibbyte :: bool
  mrm :: u8
  immtype :: NCDecodeImmediateType
  dispbytes :: nat
  inst_length :: nat
  prefixmask :: u32
  rexprefix :: u8

record NCDecoderState =
  mpc :: nat
  nextbyte :: nat
  vpc :: u32
  opinfo :: OpInfo
  inst :: InstInfo
  internal_errors :: nat

definition null_opinfo :: OpInfo where
  "null_opinfo = \<lparr>insttype = NACLi_UNDEFINED, hasmrmbyte = 0, op_immtype = IMM_UNKNOWN, opinmrm = 0\<rparr>"

definition modrm_mod :: "u8 \<Rightarrow> u8" where "modrm_mod modrm = (drop_bit 6 modrm) AND 0x03"
definition modrm_rm :: "u8 \<Rightarrow> u8" where "modrm_rm modrm = modrm AND 0x07"
definition modrm_reg :: "u8 \<Rightarrow> u8" where "modrm_reg modrm = (drop_bit 3 modrm) AND 0x07"
definition modrm_opcode :: "u8 \<Rightarrow> u8" where "modrm_opcode modrm = modrm_reg modrm"
definition sib_ss :: "u8 \<Rightarrow> u8" where "sib_ss sib = (drop_bit 6 sib) AND 0x03"
definition sib_index :: "u8 \<Rightarrow> u8" where "sib_index sib = (drop_bit 3 sib) AND 0x07"
definition sib_base :: "u8 \<Rightarrow> u8" where "sib_base sib = sib AND 0x07"

text \<open>The generated tables. A two-dimensional table takes two indices.\<close>

record decode_tables =
  kPrefixTable :: "u8 \<Rightarrow> u32"
  kDecode1ByteOp :: "u8 \<Rightarrow> OpInfo"
  kDecode0FXXOp :: "u8 \<Rightarrow> OpInfo"
  kDecode660FXXOp :: "u8 \<Rightarrow> OpInfo"
  kDecodeF20FXXOp :: "u8 \<Rightarrow> OpInfo"
  kDecodeF30FXXOp :: "u8 \<Rightarrow> OpInfo"
  kDecode0F38Op :: "u8 \<Rightarrow> OpInfo"
  kDecode660F38Op :: "u8 \<Rightarrow> OpInfo"
  kDecodeF20F38Op :: "u8 \<Rightarrow> OpInfo"
  kDecode0F3AOp :: "u8 \<Rightarrow> OpInfo"
  kDecode660F3AOp :: "u8 \<Rightarrow> OpInfo"
  kDecode0F0FOp :: "u8 \<Rightarrow> OpInfo"
  kDecodeX87Op :: "u8 \<Rightarrow> u8 \<Rightarrow> OpInfo"
  kDecodeModRMOp :: "u8 \<Rightarrow> u8 \<Rightarrow> OpInfo"

section \<open>Decoding one instruction\<close>

definition ErrorInternal :: "NCDecoderState \<Rightarrow> NCDecoderState" where
  "ErrorInternal mstate = mstate\<lparr>internal_errors := internal_errors mstate + 1\<rparr>"

definition InitDecoder :: "NCDecoderState \<Rightarrow> NCDecoderState" where
  "InitDecoder mstate = mstate\<lparr>
     inst := \<lparr>vaddr = vpc mstate, maddr = mpc mstate, prefixbytes = 0, hasopbyte2 = False,
              hasopbyte3 = False, hassibbyte = False, mrm = 0, immtype = IMM_UNKNOWN,
              dispbytes = 0, inst_length = 0, prefixmask = 0, rexprefix = 0\<rparr>,
     opinfo := null_opinfo, internal_errors := 0\<rparr>"

definition ExtractOperandSize :: "NCDecoderState \<Rightarrow> nat" where
  "ExtractOperandSize mstate = (if prefixmask (inst mstate) AND kPrefixDATA16 \<noteq> 0 then 2 else 4)"

fun consume_prefixes :: "decode_tables \<Rightarrow> memory \<Rightarrow> nat \<Rightarrow> NCDecoderState \<Rightarrow> NCDecoderState" where
  "consume_prefixes T mem 0 mstate = mstate"
| "consume_prefixes T mem (Suc k) mstate =
     (let nb = mem (nextbyte mstate); prefix_form = kPrefixTable T nb
      in if prefix_form = 0 then mstate
         else consume_prefixes T mem k
           (mstate\<lparr>inst := (inst mstate)\<lparr>prefixmask := prefixmask (inst mstate) OR prefix_form,
                                       prefixbytes := prefixbytes (inst mstate) + 1\<rparr>,
                   nextbyte := nextbyte mstate + 1\<rparr>))"

definition ConsumePrefixBytes :: "decode_tables \<Rightarrow> memory \<Rightarrow> NCDecoderState \<Rightarrow> NCDecoderState" where
  "ConsumePrefixBytes T mem mstate = consume_prefixes T mem kMaxPrefixBytes mstate"

definition GetExtendedOpInfo :: "decode_tables \<Rightarrow> NCDecoderState \<Rightarrow> u8 \<Rightarrow> OpInfo \<times> NCDecoderState" where
  "GetExtendedOpInfo T mstate opbyte2 =
     (let pm = prefixmask (inst mstate)
      in if pm AND (kPrefixDATA16 OR kPrefixREPNE OR kPrefixREP) = 0 then (kDecode0FXXOp T opbyte2, mstate)
         else if pm AND kPrefixDATA16 \<noteq> 0 then (kDecode660FXXOp T opbyte2, mstate)
         else if pm AND kPrefixREPNE \<noteq> 0 then (kDecodeF20FXXOp T opbyte2, mstate)
         else if pm AND kPrefixREP \<noteq> 0 then (kDecodeF30FXXOp T opbyte2, mstate)
         else (opinfo mstate, ErrorInternal mstate))"

definition GetX87OpInfo :: "decode_tables \<Rightarrow> memory \<Rightarrow> NCDecoderState \<Rightarrow> NCDecoderState" where
  "GetX87OpInfo T mem mstate =
     (let op1 = mem (maddr (inst mstate) + prefixbytes (inst mstate))
      in if op1 < 0xd8 \<or> op1 > 0xdf
         then (if op1 \<noteq> 0x9b then ErrorInternal mstate else mstate)
         else mstate\<lparr>opinfo := kDecodeX87Op T (op1 - 0xd8) (mrm (inst mstate))\<rparr>)"

text \<open>The third opcode byte.\<close>

definition consume_opcode3 :: "decode_tables \<Rightarrow> memory \<Rightarrow> u8 \<Rightarrow> NCDecoderState \<Rightarrow> NCDecoderState" where
  "consume_opcode3 T mem opcode2 mstate =
     (let opcode3 = mem (nextbyte mstate);
          pm = prefixmask (inst mstate);
          mstate = mstate\<lparr>nextbyte := nextbyte mstate + 1, inst := (inst mstate)\<lparr>hasopbyte3 := True\<rparr>\<rparr>
      in if opcode2 = 0x38 then
           (if pm AND kPrefixDATA16 \<noteq> 0 then mstate\<lparr>opinfo := kDecode660F38Op T opcode3\<rparr>
            else if pm AND kPrefixREPNE \<noteq> 0 then mstate\<lparr>opinfo := kDecodeF20F38Op T opcode3\<rparr>
            else if pm = 0 then mstate\<lparr>opinfo := kDecode0F38Op T opcode3\<rparr>
            else ErrorInternal mstate)
         else if opcode2 = 0x3a then
           (if pm AND kPrefixDATA16 \<noteq> 0 then mstate\<lparr>opinfo := kDecode660F3AOp T opcode3\<rparr>
            else if pm = 0 then mstate\<lparr>opinfo := kDecode0F3AOp T opcode3\<rparr>
            else ErrorInternal mstate)
         else ErrorInternal mstate)"

definition ConsumeOpcodeBytes :: "decode_tables \<Rightarrow> memory \<Rightarrow> NCDecoderState \<Rightarrow> NCDecoderState" where
  "ConsumeOpcodeBytes T mem mstate =
     (let opcode = mem (nextbyte mstate);
          mstate = mstate\<lparr>opinfo := kDecode1ByteOp T opcode, nextbyte := nextbyte mstate + 1\<rparr>;
          mstate =
            (if opcode = kTwoByteOpcodeByte1 then
               let opcode2 = mem (nextbyte mstate);
                   (oi, mstate) = GetExtendedOpInfo T mstate opcode2;
                   mstate = mstate\<lparr>opinfo := oi, inst := (inst mstate)\<lparr>hasopbyte2 := True\<rparr>,
                                   nextbyte := nextbyte mstate + 1\<rparr>
               in if insttype (opinfo mstate) = NACLi_3BYTE then consume_opcode3 T mem opcode2 mstate
                  else mstate
             else mstate)
      in mstate\<lparr>inst := (inst mstate)\<lparr>immtype := op_immtype (opinfo mstate)\<rparr>\<rparr>)"

text \<open>\<open>ConsumeModRM\<close>: the opcode held in the Mod/RM byte, then the displacement. The
  \<open>assert(0)\<close> for an instruction of unknown immediate is a failed check.\<close>

definition modrm_group :: "decode_tables \<Rightarrow> NCDecoderState \<Rightarrow> NCDecoderState result" where
  "modrm_group T mstate =
     (let m = mrm (inst mstate)
      in if opinmrm (opinfo mstate) \<noteq> 0 then
           let mopinfo = kDecodeModRMOp T (opinmrm (opinfo mstate)) (modrm_opcode m);
               mstate = mstate\<lparr>opinfo := mopinfo\<rparr>
           in if immtype (inst mstate) = IMM_UNKNOWN then Inl CheckFailed
              else if modrm_opcode m = 0 \<and> immtype (inst mstate) = IMM_GROUP3_F6
              then Inr (mstate\<lparr>inst := (inst mstate)\<lparr>immtype := IMM_FIXED1\<rparr>\<rparr>)
              else if modrm_opcode m = 0 \<and> immtype (inst mstate) = IMM_GROUP3_F7
              then Inr (mstate\<lparr>inst := (inst mstate)\<lparr>immtype := IMM_DATAV\<rparr>\<rparr>)
              else Inr mstate
         else Inr mstate)"

definition modrm_disp16 :: "u8 \<Rightarrow> nat" where
  "modrm_disp16 m =
     (if modrm_mod m = 0 then (if modrm_rm m = 0x06 then 2 else 0)
      else if modrm_mod m = 1 then 1 else if modrm_mod m = 2 then 2 else 0)"

definition modrm_disp32 :: "u8 \<Rightarrow> nat" where
  "modrm_disp32 m =
     (if modrm_mod m = 0 then (if modrm_rm m = 0x05 then 4 else 0)
      else if modrm_mod m = 1 then 1 else if modrm_mod m = 2 then 4 else 0)"

definition modrm_byte :: "decode_tables \<Rightarrow> memory \<Rightarrow> NCDecoderState \<Rightarrow> NCDecoderState" where
  "modrm_byte T mem mstate =
     (let mstate = mstate\<lparr>inst := (inst mstate)\<lparr>mrm := mem (nextbyte mstate)\<rparr>, nextbyte := nextbyte mstate + 1\<rparr>
      in if insttype (opinfo mstate) = NACLi_X87 then GetX87OpInfo T mem mstate else mstate)"

definition modrm_disp :: "NCDecoderState \<Rightarrow> NCDecoderState" where
  "modrm_disp mstate =
     (let m = mrm (inst mstate)
      in if prefixmask (inst mstate) AND kPrefixADDR16 \<noteq> 0
         then mstate\<lparr>inst := (inst mstate)\<lparr>dispbytes := modrm_disp16 m, hassibbyte := False\<rparr>\<rparr>
         else mstate\<lparr>inst := (inst mstate)\<lparr>dispbytes := modrm_disp32 m,
                hassibbyte := (modrm_rm m = 0x04 \<and> modrm_mod m \<noteq> 3)\<rparr>\<rparr>)"

definition ConsumeModRM :: "decode_tables \<Rightarrow> memory \<Rightarrow> NCDecoderState \<Rightarrow> NCDecoderState result" where
  "ConsumeModRM T mem mstate =
     (if hasmrmbyte (opinfo mstate) \<noteq> 0
      then bind_result (modrm_group T (modrm_byte T mem mstate)) (\<lambda>mstate. Inr (modrm_disp mstate))
      else Inr mstate)"

definition ConsumeSIB :: "memory \<Rightarrow> NCDecoderState \<Rightarrow> NCDecoderState" where
  "ConsumeSIB mem mstate =
     (if hassibbyte (inst mstate) then
        let sib = mem (nextbyte mstate);
            mstate = mstate\<lparr>nextbyte := nextbyte mstate + 1\<rparr>;
            md = modrm_mod (mrm (inst mstate))
        in if sib_base sib = 0x05 then
             (if md = 0 then mstate\<lparr>inst := (inst mstate)\<lparr>dispbytes := 4\<rparr>\<rparr>
              else if md = 1 then mstate\<lparr>inst := (inst mstate)\<lparr>dispbytes := 1\<rparr>\<rparr>
              else if md = 2 then mstate\<lparr>inst := (inst mstate)\<lparr>dispbytes := 4\<rparr>\<rparr>
              else ErrorInternal mstate)
           else mstate
      else mstate)"

definition imm_size :: "NCDecoderState \<Rightarrow> nat" where
  "imm_size mstate =
     (if immtype (inst mstate) = IMM_MOV_DATAV then ExtractOperandSize mstate
      else if prefixmask (inst mstate) AND kPrefixDATA16 \<noteq> 0 then kImmTypeToSize66 (immtype (inst mstate))
      else if prefixmask (inst mstate) AND kPrefixADDR16 \<noteq> 0 then kImmTypeToSize67 (immtype (inst mstate))
      else kImmTypeToSize (immtype (inst mstate)))"

text \<open>\<open>length\<close> is a byte: the distance from the start is taken modulo 256.\<close>

definition ConsumeID :: "NCDecoderState \<Rightarrow> NCDecoderState" where
  "ConsumeID mstate =
     (let mstate = (if immtype (inst mstate) = IMM_UNKNOWN then ErrorInternal mstate else mstate);
          mstate = mstate\<lparr>nextbyte := nextbyte mstate + imm_size mstate + dispbytes (inst mstate)\<rparr>
      in mstate\<lparr>inst := (inst mstate)\<lparr>inst_length := (nextbyte mstate - mpc mstate) mod 256\<rparr>\<rparr>)"

definition MaybeGet3ByteOpInfo :: "decode_tables \<Rightarrow> memory \<Rightarrow> NCDecoderState \<Rightarrow> NCDecoderState" where
  "MaybeGet3ByteOpInfo T mem mstate =
     (if insttype (opinfo mstate) = NACLi_3DNOW then
        let opbyte1 = mem (mpc mstate + prefixbytes (inst mstate));
            opbyte2 = mem (mpc mstate + prefixbytes (inst mstate) + 1);
            immbyte = mem (mpc mstate + inst_length (inst mstate) - 1)
        in if opbyte1 = kTwoByteOpcodeByte1 \<and> opbyte2 = k3DNowOpcodeByte2
           then mstate\<lparr>opinfo := kDecode0F0FOp T immbyte\<rparr>
           else mstate
      else mstate)"

text \<open>The six calls that the segment loop makes for one instruction.\<close>

definition decode_inst :: "decode_tables \<Rightarrow> memory \<Rightarrow> NCDecoderState \<Rightarrow> NCDecoderState result" where
  "decode_inst T mem mstate =
     bind_result (ConsumeModRM T mem (ConsumeOpcodeBytes T mem (ConsumePrefixBytes T mem (InitDecoder mstate))))
       (\<lambda>m. Inr (MaybeGet3ByteOpInfo T mem (ConsumeID (ConsumeSIB mem m))))"

section \<open>Decoding a segment\<close>

text \<open>The client of the decoder. The action sees the decode buffer and its own index in it,
  and may write the segment.\<close>

record 'v callbacks =
  g_DecoderAction :: "NCDecoderState list \<Rightarrow> nat \<Rightarrow> memory \<Rightarrow> 'v \<Rightarrow> memory \<times> 'v"
  g_NewSegment :: "'v \<Rightarrow> 'v"
  g_SegFault :: "'v \<Rightarrow> 'v"
  g_InternalError :: "'v \<Rightarrow> 'v"

definition NCDecodeRegisterCallbacks ::
    "'v callbacks \<Rightarrow> (NCDecoderState list \<Rightarrow> nat \<Rightarrow> memory \<Rightarrow> 'v \<Rightarrow> memory \<times> 'v) option \<Rightarrow> ('v \<Rightarrow> 'v) option
      \<Rightarrow> ('v \<Rightarrow> 'v) option \<Rightarrow> ('v \<Rightarrow> 'v) option \<Rightarrow> 'v callbacks" where
  "NCDecodeRegisterCallbacks g decoderaction newsegment segfault internalerror =
     \<lparr>g_DecoderAction = (case decoderaction of None \<Rightarrow> g_DecoderAction g | Some f \<Rightarrow> f),
      g_NewSegment = (case newsegment of None \<Rightarrow> g_NewSegment g | Some f \<Rightarrow> f),
      g_SegFault = (case segfault of None \<Rightarrow> g_SegFault g | Some f \<Rightarrow> f),
      g_InternalError = (case internalerror of None \<Rightarrow> g_InternalError g | Some f \<Rightarrow> f)\<rparr>"

definition PreviousInst :: "NCDecoderState list \<Rightarrow> nat \<Rightarrow> int \<Rightarrow> NCDecoderState" where
  "PreviousInst decodebuffer dbindex nindex =
     decodebuffer ! nat ((int dbindex + nindex + int kDecodeBufferSize) AND (int kDecodeBufferSize - 1))"

definition blank_state :: "nat \<Rightarrow> u32 \<Rightarrow> NCDecoderState" where
  "blank_state a p = \<lparr>mpc = a, nextbyte = a, vpc = p, opinfo = null_opinfo,
     inst = \<lparr>vaddr = 0, maddr = 0, prefixbytes = 0, hasopbyte2 = False, hasopbyte3 = False,
             hassibbyte = False, mrm = 0, immtype = IMM_UNKNOWN, dispbytes = 0, inst_length = 0,
             prefixmask = 0, rexprefix = 0\<rparr>,
     internal_errors = 0\<rparr>"

text \<open>The loop; \<open>None\<close> when it does not end (only if the program counter wraps).\<close>

partial_function (option) segment_loop ::
    "'v callbacks \<Rightarrow> decode_tables \<Rightarrow> u32 \<Rightarrow> NCDecoderState list \<Rightarrow> nat \<Rightarrow> memory \<Rightarrow> 'v
      \<Rightarrow> (memory \<times> 'v) result option" where
  "segment_loop g T vlimit buf dbindex mem v =
     (if vpc (buf ! dbindex) < vlimit then
        (case decode_inst T mem (buf ! dbindex) of
           Inl f \<Rightarrow> Some (Inl f)
         | Inr mstate \<Rightarrow>
             let v1 = (g_InternalError g ^^ internal_errors mstate) v;
                 newpc = vpc mstate + of_nat (inst_length (inst mstate));
                 buf1 = buf[dbindex := mstate]
             in if newpc > vlimit then Some (Inr (mem, g_SegFault g v1))
                else
                  let r = g_DecoderAction g buf1 dbindex mem v1;
                      next = (dbindex + 1) AND (kDecodeBufferSize - 1)
                  in segment_loop g T vlimit
                       (buf1[next := (buf1 ! next)\<lparr>vpc := newpc, mpc := mpc mstate + inst_length (inst mstate),
                                                  nextbyte := nextbyte mstate\<rparr>])
                       next (fst r) (snd r))
      else Some (Inr (mem, v)))"

declare segment_loop.simps [code]

definition NCDecodeSegment ::
    "'v callbacks \<Rightarrow> decode_tables \<Rightarrow> memory \<Rightarrow> u32 \<Rightarrow> u32 \<Rightarrow> 'v \<Rightarrow> (memory \<times> 'v) result option" where
  "NCDecodeSegment g T mem vbase sz v =
     (let vlimit = vbase + sz;
          decodebuffer = replicate kDecodeBufferSize (blank_state 0 0);
          decodebuffer = decodebuffer[0 := (decodebuffer ! 0)\<lparr>mpc := 0, nextbyte := 0, vpc := vbase\<rparr>]
      in segment_loop g T vlimit decodebuffer 0 mem (g_NewSegment g v))"

section \<open>One instruction: extent and locality\<close>

text \<open>Decoding starts at offset \<open>a\<close> and address \<open>p\<close>; the reads so far are in \<open>a + lo .. a + hi\<close>.\<close>

definition dec_at :: "nat \<Rightarrow> u32 \<Rightarrow> nat \<Rightarrow> nat \<Rightarrow> NCDecoderState \<Rightarrow> bool" where
  "dec_at a p lo hi m \<longleftrightarrow> mpc m = a \<and> vpc m = p \<and> vaddr (inst m) = p \<and> maddr (inst m) = a \<and>
     a + lo \<le> nextbyte m \<and> nextbyte m \<le> a + hi \<and> dispbytes (inst m) \<le> 4"

lemma dec_at_init:
  "nextbyte m = mpc m \<Longrightarrow> dec_at (mpc m) (vpc m) 0 0 (InitDecoder m)"
  by (simp add: dec_at_def InitDecoder_def)

lemma dec_at_prefixes:
  "dec_at a p lo hi m \<Longrightarrow> dec_at a p lo (hi + k) (consume_prefixes T mem k m)"
proof (induction k arbitrary: m hi)
  case (Suc k)
  show ?case
  proof (cases "kPrefixTable T (mem (nextbyte m)) = 0")
    case True
    then show ?thesis using Suc.prems by (simp add: dec_at_def)
  next
    case False
    let ?m = "m\<lparr>inst := (inst m)\<lparr>prefixmask := prefixmask (inst m) OR kPrefixTable T (mem (nextbyte m)),
        prefixbytes := prefixbytes (inst m) + 1\<rparr>, nextbyte := nextbyte m + 1\<rparr>"
    have "dec_at a p lo (Suc hi) ?m" using Suc.prems by (simp add: dec_at_def)
    from Suc.IH [OF this] show ?thesis using False by (simp add: Let_def)
  qed
qed simp

lemma dec_at_opcode3:
  "dec_at a p lo hi m \<Longrightarrow> dec_at a p (lo + 1) (hi + 1) (consume_opcode3 T mem b m)"
  by (simp add: dec_at_def consume_opcode3_def Let_def ErrorInternal_def)

lemma dec_at_extended:
  "GetExtendedOpInfo T m b = (oi, m') \<Longrightarrow> dec_at a p lo hi m \<Longrightarrow> dec_at a p lo hi m'"
  by (auto simp: GetExtendedOpInfo_def Let_def dec_at_def ErrorInternal_def split: if_splits)

lemma dec_at_mono: "dec_at a p lo hi m \<Longrightarrow> lo' \<le> lo \<Longrightarrow> hi \<le> hi' \<Longrightarrow> dec_at a p lo' hi' m"
  by (simp add: dec_at_def)

lemma dec_at_opcode:
  assumes "dec_at a p lo hi m"
  shows "dec_at a p (lo + 1) (hi + 3) (ConsumeOpcodeBytes T mem m)"
proof -
  define m1 where "m1 = m\<lparr>opinfo := kDecode1ByteOp T (mem (nextbyte m)), nextbyte := nextbyte m + 1\<rparr>"
  have m1: "dec_at a p (lo + 1) (hi + 1) m1" using assms by (simp add: dec_at_def m1_def)
  have imm: "dec_at a p lo' hi' (x\<lparr>inst := (inst x)\<lparr>immtype := t\<rparr>\<rparr>) = dec_at a p lo' hi' x" for x lo' hi' t
    by (simp add: dec_at_def)
  show ?thesis
  proof (cases "mem (nextbyte m) = kTwoByteOpcodeByte1")
    case False
    then show ?thesis using assms by (simp add: ConsumeOpcodeBytes_def Let_def dec_at_def)
  next
    case True
    obtain oi m2 where e: "GetExtendedOpInfo T m1 (mem (nextbyte m1)) = (oi, m2)" by fastforce
    define m3 where "m3 = m2\<lparr>opinfo := oi, inst := (inst m2)\<lparr>hasopbyte2 := True\<rparr>, nextbyte := nextbyte m2 + 1\<rparr>"
    have "dec_at a p (lo + 1) (hi + 1) m2" by (rule dec_at_extended [OF e m1])
    then have m3: "dec_at a p (lo + 1) (hi + 2) m3" by (simp add: dec_at_def m3_def)
    have A: "dec_at a p (lo + 1) (hi + 3) (consume_opcode3 T mem (mem (nextbyte m1)) m3)"
      using dec_at_opcode3 [OF m3] by (rule dec_at_mono) simp_all
    have B: "dec_at a p (lo + 1) (hi + 3) m3" using m3 by (simp add: dec_at_mono)
    have e': "GetExtendedOpInfo T (m\<lparr>opinfo := kDecode1ByteOp T kTwoByteOpcodeByte1, nextbyte := Suc (nextbyte m)\<rparr>)
               (mem (Suc (nextbyte m))) = (oi, m2)"
      using e True by (simp add: m1_def)
    show ?thesis
      using A [unfolded m3_def m1_def] B [unfolded m3_def] True e'
      by (simp add: ConsumeOpcodeBytes_def Let_def imm)
  qed
qed

lemma modrm_group_frame:
  "modrm_group T m = Inr m' \<Longrightarrow>
     mpc m' = mpc m \<and> vpc m' = vpc m \<and> nextbyte m' = nextbyte m \<and> vaddr (inst m') = vaddr (inst m) \<and>
     maddr (inst m') = maddr (inst m) \<and> dispbytes (inst m') = dispbytes (inst m) \<and>
     mrm (inst m') = mrm (inst m) \<and> internal_errors m' = internal_errors m \<and>
     prefixmask (inst m') = prefixmask (inst m) \<and> prefixbytes (inst m') = prefixbytes (inst m)"
  by (auto simp: modrm_group_def Let_def split: if_splits)

lemma modrm_disp_le: "modrm_disp16 m \<le> 4" "modrm_disp32 m \<le> 4"
  by (simp_all add: modrm_disp16_def modrm_disp32_def)

lemma GetX87OpInfo_frame:
  "mpc (GetX87OpInfo T mem m) = mpc m" "vpc (GetX87OpInfo T mem m) = vpc m"
  "nextbyte (GetX87OpInfo T mem m) = nextbyte m" "inst (GetX87OpInfo T mem m) = inst m"
  by (simp_all add: GetX87OpInfo_def Let_def ErrorInternal_def)

lemma dec_at_modrm:
  assumes "dec_at a p lo hi m" and r: "ConsumeModRM T mem m = Inr m'"
  shows "dec_at a p lo (hi + 1) m'"
proof (cases "hasmrmbyte (opinfo m) = 0")
  case True
  then show ?thesis using assms by (simp add: ConsumeModRM_def dec_at_def)
next
  case False
  have m2: "dec_at a p lo (hi + 1) (modrm_byte T mem m)"
    using assms(1) by (simp add: modrm_byte_def Let_def dec_at_def GetX87OpInfo_frame)
  from r False obtain m3 where g: "modrm_group T (modrm_byte T mem m) = Inr m3" and m': "m' = modrm_disp m3"
    by (auto simp: ConsumeModRM_def bind_result_eq_Inr)
  have "dec_at a p lo (hi + 1) m3"
    using m2 modrm_group_frame [OF g] by (simp add: dec_at_def)
  then show ?thesis using modrm_disp_le by (simp add: m' modrm_disp_def Let_def dec_at_def)
qed

lemma dec_at_sib: "dec_at a p lo hi m \<Longrightarrow> dec_at a p lo (hi + 1) (ConsumeSIB mem m)"
  by (simp add: dec_at_def ConsumeSIB_def Let_def ErrorInternal_def)

lemma kImmTypeToSize_le: "kImmTypeToSize66 t \<le> 6" "kImmTypeToSize67 t \<le> 6" "kImmTypeToSize t \<le> 6"
  by (cases t; simp)+

lemma imm_size_le: "imm_size m \<le> 6"
  using kImmTypeToSize_le by (simp add: imm_size_def ExtractOperandSize_def)

text \<open>A decoded instruction: where it is, how long it is, and where the next one starts.\<close>

definition decoded :: "nat \<Rightarrow> u32 \<Rightarrow> NCDecoderState \<Rightarrow> bool" where
  "decoded a p m \<longleftrightarrow> mpc m = a \<and> vpc m = p \<and> vaddr (inst m) = p \<and> maddr (inst m) = a \<and>
     1 \<le> inst_length (inst m) \<and> inst_length (inst m) \<le> 19 \<and> nextbyte m = a + inst_length (inst m)"

lemma decoded_id:
  assumes "dec_at a p 1 9 m"
  shows "decoded a p (ConsumeID m)"
proof -
  define m1 where "m1 = (if immtype (inst m) = IMM_UNKNOWN then ErrorInternal m else m)"
  define n where "n = nextbyte m1 + imm_size m1 + dispbytes (inst m1)"
  have m1: "dec_at a p 1 9 m1" using assms by (simp add: m1_def dec_at_def ErrorInternal_def)
  then have n: "a + 1 \<le> n" "n \<le> a + 19"
    using imm_size_le [of m1] by (auto simp: n_def dec_at_def)
  then have "(n - a) mod 256 = n - a" by simp
  moreover have "ConsumeID m = m1\<lparr>nextbyte := n, inst := (inst m1)\<lparr>inst_length := (n - mpc m1) mod 256\<rparr>\<rparr>"
    by (simp add: ConsumeID_def Let_def m1_def n_def)
  ultimately show ?thesis using m1 n by (auto simp: decoded_def dec_at_def)
qed

lemma decoded_3byte: "decoded a p m \<Longrightarrow> decoded a p (MaybeGet3ByteOpInfo T mem m)"
  by (simp add: decoded_def MaybeGet3ByteOpInfo_def Let_def)

lemma decode_inst_decoded:
  assumes "nextbyte m = mpc m" and "decode_inst T mem m = Inr m'"
  shows "decoded (mpc m) (vpc m) m'"
proof -
  define m1 where "m1 = ConsumeOpcodeBytes T mem (ConsumePrefixBytes T mem (InitDecoder m))"
  have "dec_at (mpc m) (vpc m) 0 4 (ConsumePrefixBytes T mem (InitDecoder m))"
    using dec_at_prefixes [OF dec_at_init [OF assms(1)], of kMaxPrefixBytes T mem]
    by (simp add: ConsumePrefixBytes_def kMaxPrefixBytes_def)
  from dec_at_opcode [OF this] have m1: "dec_at (mpc m) (vpc m) 1 7 m1" by (simp add: m1_def)
  from assms(2) obtain m2 where m2: "ConsumeModRM T mem m1 = Inr m2"
    and m': "m' = MaybeGet3ByteOpInfo T mem (ConsumeID (ConsumeSIB mem m2))"
    by (auto simp: decode_inst_def m1_def [symmetric] bind_result_eq_Inr)
  have "dec_at (mpc m) (vpc m) 1 8 m2" using dec_at_modrm [OF m1 m2] by simp
  from dec_at_sib [OF this] have "dec_at (mpc m) (vpc m) 1 9 (ConsumeSIB mem m2)" by simp
  from decoded_3byte [OF decoded_id [OF this]] show ?thesis by (simp add: m')
qed

text \<open>What the buffer slot held before does not matter.\<close>

lemma decode_inst_fresh:
  assumes "nextbyte m = mpc m"
  shows "decode_inst T mem m = decode_inst T mem (blank_state (mpc m) (vpc m))"
proof -
  have "InitDecoder m = InitDecoder (blank_state (mpc m) (vpc m))"
    using assms by (simp add: InitDecoder_def blank_state_def)
  then show ?thesis by (simp add: decode_inst_def)
qed


definition agree_from :: "nat \<Rightarrow> memory \<Rightarrow> memory \<Rightarrow> bool" where
  "agree_from a mem mem' \<longleftrightarrow> (\<forall>i. a \<le> i \<longrightarrow> mem i = mem' i)"

lemma agree_fromD: "agree_from a mem mem' \<Longrightarrow> a \<le> i \<Longrightarrow> mem i = mem' i"
  by (simp add: agree_from_def)

lemma consume_prefixes_local:
  "agree_from a mem mem' \<Longrightarrow> a \<le> nextbyte m \<Longrightarrow> consume_prefixes T mem k m = consume_prefixes T mem' k m"
proof (induction k arbitrary: m)
  case (Suc k)
  have e: "mem (nextbyte m) = mem' (nextbyte m)" by (rule agree_fromD [OF Suc.prems])
  show ?case using Suc.prems by (simp add: Let_def e Suc.IH)
qed simp

lemma ConsumeOpcodeBytes_local:
  assumes "agree_from a mem mem'" and "a \<le> nextbyte m"
  shows "ConsumeOpcodeBytes T mem m = ConsumeOpcodeBytes T mem' m"
proof -
  have e: "mem i = mem' i" if "nextbyte m \<le> i" for i
    using assms agree_fromD that by (meson order_trans)
  have nb: "nextbyte (snd (GetExtendedOpInfo T m1 b)) = nextbyte m1" for m1 b
    by (simp add: GetExtendedOpInfo_def Let_def ErrorInternal_def)
  have op3: "consume_opcode3 T mem b m1 = consume_opcode3 T mem' b m1" if "nextbyte m \<le> nextbyte m1" for b m1
    using e [OF that] by (simp add: consume_opcode3_def)
  show ?thesis
    unfolding ConsumeOpcodeBytes_def Let_def
    by (simp add: e op3 nb case_prod_beta cong: if_cong)
qed

lemma ConsumeModRM_local:
  assumes "agree_from a mem mem'" and "a \<le> nextbyte m" and "a \<le> maddr (inst m)"
  shows "ConsumeModRM T mem m = ConsumeModRM T mem' m"
proof -
  have e: "mem i = mem' i" if "a \<le> i" for i by (rule agree_fromD [OF assms(1) that])
  have "GetX87OpInfo T mem m1 = GetX87OpInfo T mem' m1" if "a \<le> maddr (inst m1)" for m1
    using e [of "maddr (inst m1) + prefixbytes (inst m1)"] that by (simp add: GetX87OpInfo_def)
  then have "modrm_byte T mem m = modrm_byte T mem' m"
    using assms e [OF assms(2)] by (simp add: modrm_byte_def Let_def)
  then show ?thesis by (simp add: ConsumeModRM_def)
qed

lemma ConsumeSIB_local:
  "agree_from a mem mem' \<Longrightarrow> a \<le> nextbyte m \<Longrightarrow> ConsumeSIB mem m = ConsumeSIB mem' m"
  by (simp add: ConsumeSIB_def agree_fromD)

lemma MaybeGet3ByteOpInfo_local:
  assumes "agree_from a mem mem'" and "decoded a p m"
  shows "MaybeGet3ByteOpInfo T mem m = MaybeGet3ByteOpInfo T mem' m"
proof -
  have e: "mem i = mem' i" if "a \<le> i" for i by (rule agree_fromD [OF assms(1) that])
  have "mpc m = a" "1 \<le> inst_length (inst m)" using assms(2) by (simp_all add: decoded_def)
  then show ?thesis by (simp add: MaybeGet3ByteOpInfo_def Let_def e)
qed

lemma decode_inst_local:
  assumes "agree_from (mpc m) mem mem'" and "nextbyte m = mpc m"
  shows "decode_inst T mem m = decode_inst T mem' m"
proof -
  define m0 where "m0 = ConsumePrefixBytes T mem (InitDecoder m)"
  define m1 where "m1 = ConsumeOpcodeBytes T mem m0"
  have init: "dec_at (mpc m) (vpc m) 0 0 (InitDecoder m)" by (rule dec_at_init [OF assms(2)])
  have d0: "dec_at (mpc m) (vpc m) 0 4 m0"
    using dec_at_prefixes [OF init, of kMaxPrefixBytes T mem]
    by (simp add: m0_def ConsumePrefixBytes_def kMaxPrefixBytes_def)
  have d1: "dec_at (mpc m) (vpc m) 1 7 m1" using dec_at_opcode [OF d0] by (simp add: m1_def)
  have e0: "ConsumePrefixBytes T mem' (InitDecoder m) = m0"
    unfolding m0_def ConsumePrefixBytes_def
    by (rule consume_prefixes_local [OF assms(1), symmetric]) (use init in \<open>simp add: dec_at_def\<close>)
  have e1: "ConsumeOpcodeBytes T mem' m0 = m1"
    unfolding m1_def
    by (rule ConsumeOpcodeBytes_local [OF assms(1), symmetric]) (use d0 in \<open>simp add: dec_at_def\<close>)
  have e2: "ConsumeModRM T mem' m1 = ConsumeModRM T mem m1"
    by (rule ConsumeModRM_local [OF assms(1), symmetric]) (use d1 in \<open>simp_all add: dec_at_def\<close>)
  have e3: "MaybeGet3ByteOpInfo T mem (ConsumeID (ConsumeSIB mem m2))
              = MaybeGet3ByteOpInfo T mem' (ConsumeID (ConsumeSIB mem' m2))"
    if "ConsumeModRM T mem m1 = Inr m2" for m2
  proof -
    have d2: "dec_at (mpc m) (vpc m) 1 8 m2" using dec_at_modrm [OF d1 that] by simp
    have sib: "ConsumeSIB mem m2 = ConsumeSIB mem' m2"
      by (rule ConsumeSIB_local [OF assms(1)]) (use d2 in \<open>simp add: dec_at_def\<close>)
    have "dec_at (mpc m) (vpc m) 1 9 (ConsumeSIB mem m2)" using dec_at_sib [OF d2, of mem] by simp
    from MaybeGet3ByteOpInfo_local [OF assms(1) decoded_id [OF this]] show ?thesis by (simp add: sib)
  qed
  show ?thesis
    unfolding decode_inst_def e0 e1 e2 m0_def [symmetric] m1_def [symmetric]
    by (cases "ConsumeModRM T mem m1") (simp_all add: bind_result_simps e3)
qed

end
