(* ===== verification/Nc_Segment.thy ===== *)
theory Nc_Segment
  imports Nc_Decode
begin

text \<open>
  The segment loop of the decoder (\<open>NCDecodeSegment\<close> of validator\_x86/ncdecode.c) and the
  contract between the decoder and its client. \<open>trace_from\<close> says what the loop visits: a
  sequence of instructions, each decoded from the original bytes at the place where its
  predecessor ends. The locale \<open>decoder_client\<close> states what the client's callbacks promise
  (they keep \<open>Keep\<close>, failures are never forgotten, the action writes nothing after the current instruction, it
  keeps the client's invariant); inside it, \<open>NCDecodeSegment_trace\<close> shows that the loop ends and
  that it either failed or has visited exactly the instructions of the segment, with the
  client's invariant established.
\<close>

section \<open>Traces\<close>

fun trace_from :: "decode_tables \<Rightarrow> memory \<Rightarrow> nat \<Rightarrow> u32 \<Rightarrow> NCDecoderState list \<Rightarrow> nat \<Rightarrow> bool" where
  "trace_from T mem a p [] e = (a = e)"
| "trace_from T mem a p (m # ms) e =
     (decode_inst T mem (blank_state a p) = Inr m \<and> internal_errors m = 0 \<and>
      trace_from T mem (a + inst_length (inst m)) (p + of_nat (inst_length (inst m))) ms e)"

lemma decode_inst_blank: "decode_inst T mem (blank_state a p) = Inr m \<Longrightarrow> decoded a p m"
  using decode_inst_decoded [of "blank_state a p" T mem m] by (simp add: blank_state_def)

lemma trace_from_le: "trace_from T mem a p ms e \<Longrightarrow> a \<le> e"
  by (induction ms arbitrary: a p) fastforce+

lemma vpc_step:
  "a + (l::nat) \<le> e \<Longrightarrow> p + of_nat l + of_nat (e - (a + l)) = (p + of_nat (e - a) :: u32)"
  by (simp add: of_nat_diff)

lemma trace_from_snoc:
  "trace_from T mem a p ms e \<Longrightarrow> decode_inst T mem (blank_state e (p + of_nat (e - a))) = Inr m \<Longrightarrow>
     internal_errors m = 0 \<Longrightarrow> trace_from T mem a p (ms @ [m]) (e + inst_length (inst m))"
proof (induction ms arbitrary: a p)
  case (Cons x ms)
  have t: "trace_from T mem (a + inst_length (inst x)) (p + of_nat (inst_length (inst x))) ms e"
    using Cons.prems(1) by simp
  have "decode_inst T mem (blank_state e (p + of_nat (inst_length (inst x))
          + of_nat (e - (a + inst_length (inst x))))) = Inr m"
    unfolding vpc_step [OF trace_from_le [OF t]] by (rule Cons.prems(2))
  from Cons.IH [OF t this Cons.prems(3)] show ?case using Cons.prems(1) by simp
qed simp

lemma trace_from_mem:
  assumes "trace_from T mem a p ms e" and "m \<in> set ms"
  shows "decode_inst T mem (blank_state (mpc m) (vpc m)) = Inr m \<and> a \<le> mpc m \<and> internal_errors m = 0 \<and>
         mpc m + inst_length (inst m) \<le> e \<and> vpc m = p + of_nat (mpc m - a)"
  using assms
proof (induction ms arbitrary: a p)
  case (Cons x ms)
  have dx: "decode_inst T mem (blank_state a p) = Inr x" using Cons.prems(1) by simp
  have x: "mpc x = a" "vpc x = p" using decode_inst_blank [OF dx] by (simp_all add: decoded_def)
  have t: "trace_from T mem (a + inst_length (inst x)) (p + of_nat (inst_length (inst x))) ms e"
    using Cons.prems(1) by simp
  show ?case
  proof (cases "m = x")
    case True
    then show ?thesis using Cons.prems(1) dx x trace_from_le [OF t] by simp
  next
    case False
    then have "m \<in> set ms" using Cons.prems(2) by simp
    note ih = Cons.IH [OF t this]
    have "vpc m = p + of_nat (mpc m - a)" using ih vpc_step by metis
    then show ?thesis using ih by (metis add_leE)
  qed
qed simp

lemma trace_from_next:
  "trace_from T mem a p (xs @ m # m' # ys) e \<Longrightarrow> mpc m' = mpc m + inst_length (inst m)"
proof (induction xs arbitrary: a p)
  case Nil
  then show ?case using decode_inst_blank by (auto simp: decoded_def)
next
  case (Cons x xs)
  from Cons.prems have "trace_from T mem (a + inst_length (inst x)) (p + of_nat (inst_length (inst x)))
      (xs @ m # m' # ys) e" by simp
  then show ?case by (rule Cons.IH)
qed

lemma trace_from_last:
  "trace_from T mem a p (xs @ [m]) e \<Longrightarrow> mpc m + inst_length (inst m) = e"
proof (induction xs arbitrary: a p)
  case Nil
  then show ?case using decode_inst_blank by (auto simp: decoded_def)
next
  case (Cons x xs)
  from Cons.prems have "trace_from T mem (a + inst_length (inst x)) (p + of_nat (inst_length (inst x)))
      (xs @ [m]) e" by simp
  then show ?case by (rule Cons.IH)
qed

lemma trace_from_first: "trace_from T mem a p (m # ms) e \<Longrightarrow> mpc m = a \<and> vpc m = p"
  using decode_inst_blank by (auto simp: decoded_def)

text \<open>Every offset of the segment lies in exactly one instruction.\<close>

lemma trace_from_cover:
  "trace_from T mem a p ms e \<Longrightarrow> a \<le> i \<Longrightarrow> i < e \<Longrightarrow>
     \<exists>m \<in> set ms. mpc m \<le> i \<and> i < mpc m + inst_length (inst m)"
proof (induction ms arbitrary: a p)
  case (Cons x ms)
  have "mpc x = a" using trace_from_first [OF Cons.prems(1)] by simp
  then show ?case
    using Cons by (cases "i < a + inst_length (inst x)") fastforce+
qed simp

lemma trace_from_sorted:
  "trace_from T mem a p ms e \<Longrightarrow> sorted_wrt (\<lambda>m m'. mpc m + inst_length (inst m) \<le> mpc m') ms"
proof (induction ms arbitrary: a p)
  case (Cons x ms)
  have "mpc x = a" using trace_from_first [OF Cons.prems(1)] by simp
  then show ?case using Cons trace_from_mem by fastforce
qed simp


section \<open>The contract of a client\<close>

definition prev_is :: "NCDecoderState list \<Rightarrow> NCDecoderState \<Rightarrow> bool" where
  "prev_is ms prev \<longleftrightarrow> (if ms = [] then inst_length (inst prev) = 0 else prev = last ms)"

text \<open>The situation in which the action is called: \<open>ms\<close> has been visited, \<open>m\<close> is the current
  instruction, the bytes from \<open>m\<close> on are still the original ones.\<close>

definition action_call ::
    "decode_tables \<Rightarrow> memory \<Rightarrow> u32 \<Rightarrow> nat \<Rightarrow> NCDecoderState list \<Rightarrow> NCDecoderState \<Rightarrow> NCDecoderState list
      \<Rightarrow> nat \<Rightarrow> memory \<Rightarrow> bool" where
  "action_call T orig vbase lim ms m buf i mem \<longleftrightarrow>
     trace_from T orig 0 vbase ms (mpc m) \<and>
     decode_inst T orig (blank_state (mpc m) (vpc m)) = Inr m \<and> internal_errors m = 0 \<and>
     vpc m = vbase + of_nat (mpc m) \<and> mpc m + inst_length (inst m) \<le> lim \<and>
     unat vbase + lim + 19 < 2 ^ 32 \<and>
     i < length buf \<and> buf ! i = m \<and> prev_is ms (PreviousInst buf i (- 1)) \<and> agree_from (mpc m) mem orig"

lemma PreviousInst_1: "i < 4 \<Longrightarrow> PreviousInst buf i (- 1) = buf ! ((i + 3) mod 4)"
proof -
  assume "i < 4"
  then have "i = 0 \<or> i = 1 \<or> i = 2 \<or> i = 3" by linarith
  then show ?thesis by (auto simp: PreviousInst_def kDecodeBufferSize_def)
qed

lemma and_3_nat: "(n :: nat) AND 3 = n mod 4"
  using take_bit_eq_mask [of 2 n] by (simp add: take_bit_eq_mod mask_eq_exp_minus_1)

lemma next_slot: "i < 4 \<Longrightarrow> (i + 1) AND (kDecodeBufferSize - 1) = (i + 1) mod 4"
proof -
  assume "i < 4"
  then have "i = 0 \<or> i = 1 \<or> i = 2 \<or> i = 3" by linarith
  then show ?thesis unfolding kDecodeBufferSize_def by (elim disjE) (simp_all add: and_3_nat)
qed

text \<open>The loop is about to decode the instruction at offset \<open>e\<close> in slot \<open>i\<close>.\<close>

definition at_slot :: "u32 \<Rightarrow> NCDecoderState list \<Rightarrow> nat \<Rightarrow> nat \<Rightarrow> bool" where
  "at_slot vbase buf i e \<longleftrightarrow> length buf = 4 \<and> i < 4 \<and> mpc (buf ! i) = e \<and> nextbyte (buf ! i) = e \<and>
     vpc (buf ! i) = vbase + of_nat e"

lemma at_slot_prev:
  "at_slot vbase buf i e \<Longrightarrow> PreviousInst (buf[i := m]) i (- 1) = buf ! ((i + 3) mod 4)"
  using PreviousInst_1 [of i "buf[i := m]"]
  by (cases "(i + 3) mod 4 = i") (auto simp: at_slot_def nth_list_update, presburger+)

lemma at_slot_next:
  assumes s: "at_slot vbase buf i e" and d: "decoded e (vbase + of_nat e) m"
    and k: "k = (i + 1) mod 4"
    and buf': "buf' = (buf[i := m])[k := (buf[i := m] ! k)\<lparr>vpc := vpc m + of_nat (inst_length (inst m)),
        mpc := mpc m + inst_length (inst m), nextbyte := nextbyte m\<rparr>]"
  shows "at_slot vbase buf' k (e + inst_length (inst m))" "buf' ! ((k + 3) mod 4) = m"
proof -
  have i: "i < 4" "length buf = 4" using s by (simp_all add: at_slot_def)
  then have "(k + 3) mod 4 = i" "k \<noteq> i" "k < 4" unfolding k by presburger+
  then show "at_slot vbase buf' k (e + inst_length (inst m))" "buf' ! ((k + 3) mod 4) = m"
    using i d by (simp_all add: buf' at_slot_def decoded_def add.assoc)
qed

text \<open>Addresses do not wrap around below the limit.\<close>

lemma unat_vpc: "unat (p :: u32) + e < 2 ^ 32 \<Longrightarrow> unat (p + of_nat e) = unat p + e"
  using unat_plus_u32 [of p "of_nat e"] by (simp add: unat_of_nat)

locale decoder_client =
  fixes g :: "'v callbacks" and T :: decode_tables and orig :: memory and vbase :: u32 and lim :: nat
    and Keep :: "'v \<Rightarrow> bool" and failed :: "'v \<Rightarrow> bool" and Inv :: "NCDecoderState list \<Rightarrow> memory \<Rightarrow> 'v \<Rightarrow> bool"
  assumes internal_error_keep: "Keep v \<Longrightarrow> Keep (g_InternalError g v)"
    and segfault_keep: "Keep v \<Longrightarrow> Keep (g_SegFault g v)"
    and action_keep: "Keep v \<Longrightarrow> Keep (snd (g_DecoderAction g buf i mem v))"
    and internal_error_failed: "failed (g_InternalError g v)"
    and segfault_failed: "failed (g_SegFault g v)"
    and action_failed: "failed v \<Longrightarrow> failed (snd (g_DecoderAction g buf i mem v))"
    and action_writes: "i < length buf \<Longrightarrow>
      mpc (buf ! i) = maddr (inst (buf ! i)) \<Longrightarrow>
      mpc (buf ! i) + inst_length (inst (buf ! i)) \<le> j \<Longrightarrow>
      fst (g_DecoderAction g buf i mem v) j = mem j"
    and action_inv: "action_call T orig vbase lim ms m buf i mem \<Longrightarrow> Inv ms mem v \<Longrightarrow>
      failed (snd (g_DecoderAction g buf i mem v)) \<or>
      Inv (ms @ [m]) (fst (g_DecoderAction g buf i mem v)) (snd (g_DecoderAction g buf i mem v))"
begin

lemma internal_errors_failed: "failed v \<or> 0 < n \<Longrightarrow> failed ((g_InternalError g ^^ n) v)"
  by (induction n) (auto simp: internal_error_failed)

lemma internal_errors_keep: "Keep v \<Longrightarrow> Keep ((g_InternalError g ^^ n) v)"
  by (induction n) (simp_all add: internal_error_keep)

lemma segment_loop_trace:
  assumes size: "unat vbase + lim + 19 < 2 ^ 32"
  shows "at_slot vbase buf i e \<Longrightarrow> e \<le> lim \<Longrightarrow> agree_from e mem orig \<Longrightarrow>
     Keep v \<Longrightarrow> failed v \<or> trace_from T orig 0 vbase ms e \<and> prev_is ms (buf ! ((i + 3) mod 4)) \<and> Inv ms mem v \<Longrightarrow>
     \<exists>r. segment_loop g T (vbase + of_nat lim) buf i mem v = Some r \<and>
         (\<forall>mem' v'. r = Inr (mem', v') \<longrightarrow> Keep v' \<and>
            (failed v' \<or> (\<exists>ms'. trace_from T orig 0 vbase ms' lim \<and> Inv ms' mem' v')))"
proof (induction "lim - e" arbitrary: ms buf i e mem v rule: less_induct)
  case less
  note slot = less.prems(1) and le = less.prems(2) and agree = less.prems(3)
    and keep = less.prems(4) and inv = less.prems(5)
  have slot': "mpc (buf ! i) = e" "nextbyte (buf ! i) = e" "vpc (buf ! i) = vbase + of_nat e"
    and i: "i < 4" "length buf = 4" using slot by (simp_all add: at_slot_def)
  have lim: "unat (vbase + of_nat lim) = unat vbase + lim" using size by (simp add: unat_vpc)
  have pc: "unat (vbase + of_nat e) = unat vbase + e" using size le by (simp add: unat_vpc)
  show ?case
  proof (cases "e < lim")
    case False
    then have e: "e = lim" using le by simp
    then have "\<not> vpc (buf ! i) < vbase + of_nat lim" using slot' by simp
    then have "segment_loop g T (vbase + of_nat lim) buf i mem v = Some (Inr (mem, v))"
      by (simp add: segment_loop.simps)
    then show ?thesis using inv e keep by auto
  next
    case True
    then have run: "vpc (buf ! i) < vbase + of_nat lim" using slot' lim pc by (simp add: word_less_nat_alt)
    have dec: "decode_inst T mem (buf ! i) = decode_inst T orig (blank_state e (vbase + of_nat e))"
      using decode_inst_local [of "buf ! i" mem orig T] decode_inst_fresh [of "buf ! i" T orig] slot' agree
      by simp
    show ?thesis
    proof (cases "decode_inst T mem (buf ! i)")
      case (Inl f)
      then show ?thesis using run by (simp add: segment_loop.simps)
    next
      case (Inr m)
      have d: "decoded e (vbase + of_nat e) m" using decode_inst_blank Inr dec by simp
      have m: "mpc m = e" "vpc m = vbase + of_nat e" "maddr (inst m) = e" "inst_length (inst m) \<le> 19"
        "1 \<le> inst_length (inst m)" using d by (simp_all add: decoded_def)
      define l where "l = inst_length (inst m)"
      have l: "1 \<le> l" "l \<le> 19" using m by (simp_all add: l_def)
      define v1 where "v1 = (g_InternalError g ^^ internal_errors m) v"
      have v1: "v1 = v" if "internal_errors m = 0" using that by (simp add: v1_def)
      have v1_failed: "failed v1" if "failed v \<or> 0 < internal_errors m"
        unfolding v1_def by (rule internal_errors_failed [OF that])
      have keep1: "Keep v1" unfolding v1_def by (rule internal_errors_keep [OF keep])
      have newpc: "unat (vpc m + of_nat l) = unat vbase + (e + l)"
        using size le l m unat_vpc [of vbase "e + l"] by (simp add: add.assoc)
      show ?thesis
      proof (cases "e + l \<le> lim")
        case False
        then have "vpc m + of_nat l > vbase + of_nat lim" using newpc lim by (simp add: word_less_nat_alt)
        then have "segment_loop g T (vbase + of_nat lim) buf i mem v = Some (Inr (mem, g_SegFault g v1))"
          using run Inr by (simp add: segment_loop.simps Let_def l_def v1_def)
        then show ?thesis using segfault_keep [OF keep1] by (auto simp: segfault_failed)
      next
        case True
        then have fits: "\<not> vpc m + of_nat l > vbase + of_nat lim" using newpc lim by (simp add: word_less_nat_alt)
        define r where "r = g_DecoderAction g (buf[i := m]) i mem v1"
        define k where "k = (i + 1) mod 4"
        define buf' where "buf' = (buf[i := m])[k := (buf[i := m] ! k)\<lparr>vpc := vpc m + of_nat (inst_length (inst m)),
          mpc := mpc m + inst_length (inst m), nextbyte := nextbyte m\<rparr>]"
        have step: "segment_loop g T (vbase + of_nat lim) buf i mem v =
            segment_loop g T (vbase + of_nat lim) buf' k (fst r) (snd r)"
          using run Inr fits i next_slot [OF i(1)]
          by (subst segment_loop.simps) (simp add: Let_def l_def v1_def r_def k_def buf'_def)
        note next_slot = at_slot_next [OF slot d k_def buf'_def, folded l_def]
        have agree1: "agree_from (e + l) (fst r) orig"
          using action_writes [of i "buf[i := m]" _ mem v1] agree m i
          by (auto simp: agree_from_def r_def l_def)
        have less1: "lim - (e + l) < lim - e" using l True by simp
        have "\<exists>ms1. failed (snd r) \<or> trace_from T orig 0 vbase ms1 (e + l) \<and> prev_is ms1 m \<and> Inv ms1 (fst r) (snd r)"
        proof (cases "failed v1")
          case True
          then show ?thesis using action_failed by (auto simp: r_def)
        next
          case False
          then have z: "internal_errors m = 0" and "\<not> failed v" using v1_failed by auto
          then have tr: "trace_from T orig 0 vbase ms e" and prev: "prev_is ms (buf ! ((i + 3) mod 4))"
            and inv1: "Inv ms mem v1" using inv v1 by simp_all
          have "trace_from T orig 0 vbase (ms @ [m]) (e + l)"
            using trace_from_snoc [OF tr, of m] Inr dec z by (simp add: l_def)
          moreover have call: "action_call T orig vbase lim ms m (buf[i := m]) i mem"
            using tr m Inr dec z True size i agree prev at_slot_prev [OF slot, of m]
            by (simp add: action_call_def l_def)
          moreover have "failed (snd r) \<or> Inv (ms @ [m]) (fst r) (snd r)"
            unfolding r_def by (rule action_inv [OF call inv1])
          moreover have "prev_is (ms @ [m]) m" by (simp add: prev_is_def)
          ultimately show ?thesis by blast
        qed
        then obtain ms1 where "failed (snd r) \<or> trace_from T orig 0 vbase ms1 (e + l) \<and>
            prev_is ms1 (buf' ! ((k + 3) mod 4)) \<and> Inv ms1 (fst r) (snd r)"
          unfolding next_slot(2) by blast
        from less.hyps [OF less1 next_slot(1) True agree1 _ this] show ?thesis
          unfolding step using action_keep [OF keep1] by (simp add: r_def)
      qed
    qed
  qed
qed

theorem NCDecodeSegment_trace:
  assumes "unat vbase + lim + 19 < 2 ^ 32" and keep: "Keep (g_NewSegment g v)"
    and "failed (g_NewSegment g v) \<or> Inv [] orig (g_NewSegment g v)"
  shows "\<exists>r. NCDecodeSegment g T orig vbase (of_nat lim) v = Some r \<and>
     (\<forall>mem' v'. r = Inr (mem', v') \<longrightarrow> Keep v' \<and>
        (failed v' \<or> (\<exists>ms. trace_from T orig 0 vbase ms lim \<and> Inv ms mem' v')))"
proof -
  define b where "b = blank_state 0 0"
  define buf where "buf = [b\<lparr>mpc := 0, nextbyte := 0, vpc := vbase\<rparr>, b, b, b]"
  have "replicate kDecodeBufferSize b = [b, b, b, b]" by (simp add: kDecodeBufferSize_def numeral_eq_Suc)
  then have seg: "NCDecodeSegment g T orig vbase (of_nat lim) v =
      segment_loop g T (vbase + of_nat lim) buf 0 orig (g_NewSegment g v)"
    by (simp add: NCDecodeSegment_def b_def [symmetric] buf_def)
  have prev: "prev_is [] (buf ! ((0 + 3) mod 4))"
    by (simp add: buf_def prev_is_def b_def blank_state_def)
  have slot: "at_slot vbase buf 0 0" by (simp add: buf_def at_slot_def)
  have inv: "failed (g_NewSegment g v) \<or> trace_from T orig 0 vbase [] 0 \<and> prev_is [] (buf ! ((0 + 3) mod 4)) \<and>
      Inv [] orig (g_NewSegment g v)"
    using assms(3) prev by simp
  have agree: "agree_from 0 orig orig" by (simp add: agree_from_def)
  show ?thesis
    unfolding seg by (rule segment_loop_trace [OF assms(1) slot le0 agree keep inv])
qed

end

end
