(* ===== verification/Nc_Cpuid.thy ===== *)
theory Nc_Cpuid
  imports Nacl_Prelude
begin

text \<open>
  CPU feature detection (validator\_x86/nacl\_cpuid.c). The two inline assembly routines are the
  parameters \<open>hascpuid\<close> and \<open>cpuid\<close> (leaf to EAX, EBX, ECX, EDX); the C code caches the answers in
  static variables, which a deterministic \<open>cpuid\<close> makes invisible. \<open>GetCPUFeatures\<close> fills in the
  feature record that decides which instructions the validator squashes.
\<close>

record CPUFeatures =
  f_386 :: bool
  f_x87 :: bool
  f_MMX :: bool
  f_SSE :: bool
  f_SSE2 :: bool
  f_SSE3 :: bool
  f_SSSE3 :: bool
  f_SSE41 :: bool
  f_SSE42 :: bool
  f_MOVBE :: bool
  f_POPCNT :: bool
  f_CX8 :: bool
  f_CX16 :: bool
  f_CMOV :: bool
  f_MON :: bool
  f_FXSR :: bool
  f_CLFLUSH :: bool
  f_TSC :: bool
  f_MSR :: bool
  f_VME :: bool
  f_PSN :: bool
  f_VMX :: bool
  f_3DNOW :: bool
  f_EMMX :: bool
  f_E3DNOW :: bool
  f_LZCNT :: bool
  f_SSE4A :: bool
  f_LM :: bool
  f_SVM :: bool

datatype CPUFeatureID =
    CPUFeature_386 | CPUFeature_x87 | CPUFeature_MMX | CPUFeature_SSE | CPUFeature_SSE2
  | CPUFeature_SSE3 | CPUFeature_SSSE3 | CPUFeature_SSE41 | CPUFeature_SSE42 | CPUFeature_MOVBE
  | CPUFeature_POPCNT | CPUFeature_CX8 | CPUFeature_CX16 | CPUFeature_CMOV | CPUFeature_MON
  | CPUFeature_FXSR | CPUFeature_CLFLUSH | CPUFeature_MSR | CPUFeature_TSC | CPUFeature_VME
  | CPUFeature_PSN | CPUFeature_VMX | CPUFeature_3DNOW | CPUFeature_EMMX | CPUFeature_E3DNOW
  | CPUFeature_LZCNT | CPUFeature_SSE4A | CPUFeature_LM | CPUFeature_SVM

text \<open>The index of a register in the feature vector: leaf 1, then leaf 0x80000001.\<close>

datatype CPUFeatureReg =
    CFReg_EAX_I | CFReg_EBX_I | CFReg_ECX_I | CFReg_EDX_I
  | CFReg_EAX_A | CFReg_EBX_A | CFReg_ECX_A | CFReg_EDX_A

definition CPUID_EDX_x87 :: u32 where "CPUID_EDX_x87 = 0x00000001"
definition CPUID_EDX_VME :: u32 where "CPUID_EDX_VME = 0x00000002"
definition CPUID_EDX_TSC :: u32 where "CPUID_EDX_TSC = 0x00000010"
definition CPUID_EDX_MSR :: u32 where "CPUID_EDX_MSR = 0x00000020"
definition CPUID_EDX_CX8 :: u32 where "CPUID_EDX_CX8 = 0x00000100"
definition CPUID_EDX_CMOV :: u32 where "CPUID_EDX_CMOV = 0x00008000"
definition CPUID_EDX_PSN :: u32 where "CPUID_EDX_PSN = 0x00040000"
definition CPUID_EDX_CLFLUSH :: u32 where "CPUID_EDX_CLFLUSH = 0x00080000"
definition CPUID_EDX_MMX :: u32 where "CPUID_EDX_MMX = 0x00800000"
definition CPUID_EDX_FXSR :: u32 where "CPUID_EDX_FXSR = 0x01000000"
definition CPUID_EDX_SSE :: u32 where "CPUID_EDX_SSE = 0x02000000"
definition CPUID_EDX_SSE2 :: u32 where "CPUID_EDX_SSE2 = 0x04000000"
definition CPUID_ECX_SSE3 :: u32 where "CPUID_ECX_SSE3 = 0x00000001"
definition CPUID_ECX_MON :: u32 where "CPUID_ECX_MON = 0x00000008"
definition CPUID_ECX_VMX :: u32 where "CPUID_ECX_VMX = 0x00000020"
definition CPUID_ECX_SSSE3 :: u32 where "CPUID_ECX_SSSE3 = 0x00000200"
definition CPUID_ECX_CX16 :: u32 where "CPUID_ECX_CX16 = 0x00002000"
definition CPUID_ECX_SSE41 :: u32 where "CPUID_ECX_SSE41 = 0x00080000"
definition CPUID_ECX_SSE42 :: u32 where "CPUID_ECX_SSE42 = 0x00100000"
definition CPUID_ECX_MOVBE :: u32 where "CPUID_ECX_MOVBE = 0x00400000"
definition CPUID_ECX_POPCNT :: u32 where "CPUID_ECX_POPCNT = 0x00800000"
definition CPUID_EDX_EMMX :: u32 where "CPUID_EDX_EMMX = 0x00400000"
definition CPUID_EDX_LM :: u32 where "CPUID_EDX_LM = 0x20000000"
definition CPUID_EDX_E3DN :: u32 where "CPUID_EDX_E3DN = 0x40000000"
definition CPUID_EDX_3DN :: u32 where "CPUID_EDX_3DN = 0x80000000"
definition CPUID_ECX_SVM :: u32 where "CPUID_ECX_SVM = 0x00000004"
definition CPUID_ECX_ABM :: u32 where "CPUID_ECX_ABM = 0x00000020"
definition CPUID_ECX_SSE4A :: u32 where "CPUID_ECX_SSE4A = 0x00000040"

fun CPUFeatureDescriptions :: "CPUFeatureID \<Rightarrow> CPUFeatureReg \<times> u32" where
  "CPUFeatureDescriptions CPUFeature_386 = (CFReg_EDX_I, CPUID_EDX_VME)"
| "CPUFeatureDescriptions CPUFeature_x87 = (CFReg_EDX_I, CPUID_EDX_x87)"
| "CPUFeatureDescriptions CPUFeature_MMX = (CFReg_EDX_I, CPUID_EDX_MMX)"
| "CPUFeatureDescriptions CPUFeature_SSE = (CFReg_EDX_I, CPUID_EDX_SSE)"
| "CPUFeatureDescriptions CPUFeature_SSE2 = (CFReg_EDX_I, CPUID_EDX_SSE2)"
| "CPUFeatureDescriptions CPUFeature_SSE3 = (CFReg_ECX_I, CPUID_ECX_SSE3)"
| "CPUFeatureDescriptions CPUFeature_SSSE3 = (CFReg_ECX_I, CPUID_ECX_SSSE3)"
| "CPUFeatureDescriptions CPUFeature_SSE41 = (CFReg_ECX_I, CPUID_ECX_SSE41)"
| "CPUFeatureDescriptions CPUFeature_SSE42 = (CFReg_ECX_I, CPUID_ECX_SSE42)"
| "CPUFeatureDescriptions CPUFeature_MOVBE = (CFReg_ECX_I, CPUID_ECX_MOVBE)"
| "CPUFeatureDescriptions CPUFeature_POPCNT = (CFReg_ECX_I, CPUID_ECX_POPCNT)"
| "CPUFeatureDescriptions CPUFeature_CX8 = (CFReg_EDX_I, CPUID_EDX_CX8)"
| "CPUFeatureDescriptions CPUFeature_CX16 = (CFReg_ECX_I, CPUID_ECX_CX16)"
| "CPUFeatureDescriptions CPUFeature_CMOV = (CFReg_EDX_I, CPUID_EDX_CMOV)"
| "CPUFeatureDescriptions CPUFeature_MON = (CFReg_ECX_I, CPUID_ECX_MON)"
| "CPUFeatureDescriptions CPUFeature_FXSR = (CFReg_EDX_I, CPUID_EDX_FXSR)"
| "CPUFeatureDescriptions CPUFeature_CLFLUSH = (CFReg_EDX_I, CPUID_EDX_CLFLUSH)"
| "CPUFeatureDescriptions CPUFeature_MSR = (CFReg_EDX_I, CPUID_EDX_MSR)"
| "CPUFeatureDescriptions CPUFeature_TSC = (CFReg_EDX_I, CPUID_EDX_TSC)"
| "CPUFeatureDescriptions CPUFeature_VME = (CFReg_EDX_I, CPUID_EDX_VME)"
| "CPUFeatureDescriptions CPUFeature_PSN = (CFReg_EDX_I, CPUID_EDX_PSN)"
| "CPUFeatureDescriptions CPUFeature_VMX = (CFReg_ECX_I, CPUID_ECX_VMX)"
| "CPUFeatureDescriptions CPUFeature_3DNOW = (CFReg_EDX_A, CPUID_EDX_3DN)"
| "CPUFeatureDescriptions CPUFeature_EMMX = (CFReg_EDX_A, CPUID_EDX_EMMX)"
| "CPUFeatureDescriptions CPUFeature_E3DNOW = (CFReg_EDX_A, CPUID_EDX_E3DN)"
| "CPUFeatureDescriptions CPUFeature_LZCNT = (CFReg_ECX_A, CPUID_ECX_ABM)"
| "CPUFeatureDescriptions CPUFeature_SSE4A = (CFReg_ECX_A, CPUID_ECX_SSE4A)"
| "CPUFeatureDescriptions CPUFeature_LM = (CFReg_EDX_A, CPUID_EDX_LM)"
| "CPUFeatureDescriptions CPUFeature_SVM = (CFReg_ECX_A, CPUID_ECX_SVM)"

type_synonym cpuid_fn = "u32 \<Rightarrow> u32 \<times> u32 \<times> u32 \<times> u32"

text \<open>The vendor string: the bytes of EBX, EDX, ECX of leaf 0, then a zero word.\<close>

definition word_bytes :: "u32 \<Rightarrow> u8 list" where
  "word_bytes w = [ucast w, ucast (drop_bit 8 w), ucast (drop_bit 16 w), ucast (drop_bit 24 w)]"

definition CPUVersionID :: "cpuid_fn \<Rightarrow> u8 list" where
  "CPUVersionID cpuid = (case cpuid 0 of (a, b, c, d) \<Rightarrow>
     word_bytes b @ word_bytes d @ word_bytes c @ word_bytes 0)"

fun CPUFeatureVector :: "cpuid_fn \<Rightarrow> CPUFeatureReg \<Rightarrow> u32" where
  "CPUFeatureVector cpuid CFReg_EAX_I = fst (cpuid 1)"
| "CPUFeatureVector cpuid CFReg_EBX_I = fst (snd (cpuid 1))"
| "CPUFeatureVector cpuid CFReg_ECX_I = fst (snd (snd (cpuid 1)))"
| "CPUFeatureVector cpuid CFReg_EDX_I = snd (snd (snd (cpuid 1)))"
| "CPUFeatureVector cpuid CFReg_EAX_A = fst (cpuid 0x80000001)"
| "CPUFeatureVector cpuid CFReg_EBX_A = fst (snd (cpuid 0x80000001))"
| "CPUFeatureVector cpuid CFReg_ECX_A = fst (snd (snd (cpuid 0x80000001)))"
| "CPUFeatureVector cpuid CFReg_EDX_A = snd (snd (snd (cpuid 0x80000001)))"

definition CheckCPUFeature :: "cpuid_fn \<Rightarrow> CPUFeatureID \<Rightarrow> bool" where
  "CheckCPUFeature cpuid fid = (case CPUFeatureDescriptions fid of (reg, msk) \<Rightarrow>
     CPUFeatureVector cpuid reg AND msk \<noteq> 0)"

text \<open>\<open>strncmp\<close> on byte strings, as an equality test.\<close>

fun strncmp_eq :: "nat \<Rightarrow> u8 list \<Rightarrow> u8 list \<Rightarrow> bool" where
  "strncmp_eq 0 s t = True"
| "strncmp_eq (Suc n) (a # s) (b # t) = (a = b \<and> (a = 0 \<or> strncmp_eq n s t))"
| "strncmp_eq (Suc n) s t = (s = [] \<and> t = [])"

definition Intel_CPUID0 :: "u8 list" where
  "Intel_CPUID0 = [0x47, 0x65, 0x6e, 0x75, 0x69, 0x6e, 0x65, 0x49, 0x6e, 0x74, 0x65, 0x6c, 0]"
definition AMD_CPUID0 :: "u8 list" where
  "AMD_CPUID0 = [0x41, 0x75, 0x74, 0x68, 0x65, 0x6e, 0x74, 0x69, 0x63, 0x41, 0x4d, 0x44, 0]"

definition Check386CPU :: "bool \<Rightarrow> cpuid_fn \<Rightarrow> bool" where
  "Check386CPU hascpuid cpuid =
     (if \<not> hascpuid then False
      else let cpuversionid = CPUVersionID cpuid
        in if strncmp_eq 12 cpuversionid Intel_CPUID0 then CheckCPUFeature cpuid CPUFeature_386
           else if strncmp_eq 12 cpuversionid AMD_CPUID0 then CheckCPUFeature cpuid CPUFeature_386
           else False)"

definition GetCPUFeatures :: "bool \<Rightarrow> cpuid_fn \<Rightarrow> CPUFeatures \<Rightarrow> CPUFeatures" where
  "GetCPUFeatures hascpuid cpuid cpuf =
     (let cpuf = cpuf\<lparr>f_386 := Check386CPU hascpuid cpuid\<rparr>;
          check = CheckCPUFeature cpuid
      in if \<not> f_386 cpuf then cpuf
         else \<lparr>f_386 = f_386 cpuf, f_x87 = check CPUFeature_x87, f_MMX = check CPUFeature_MMX,
           f_SSE = check CPUFeature_SSE, f_SSE2 = check CPUFeature_SSE2, f_SSE3 = check CPUFeature_SSE3,
           f_SSSE3 = check CPUFeature_SSSE3, f_SSE41 = check CPUFeature_SSE41,
           f_SSE42 = check CPUFeature_SSE42, f_MOVBE = check CPUFeature_MOVBE,
           f_POPCNT = check CPUFeature_POPCNT, f_CX8 = check CPUFeature_CX8,
           f_CX16 = check CPUFeature_CX16, f_CMOV = check CPUFeature_CMOV,
           f_MON = check CPUFeature_MON, f_FXSR = check CPUFeature_FXSR,
           f_CLFLUSH = check CPUFeature_CLFLUSH, f_TSC = check CPUFeature_TSC,
           f_MSR = check CPUFeature_MSR, f_VME = check CPUFeature_VME, f_PSN = check CPUFeature_PSN,
           f_VMX = check CPUFeature_VMX, f_3DNOW = check CPUFeature_3DNOW,
           f_EMMX = check CPUFeature_EMMX, f_E3DNOW = check CPUFeature_E3DNOW,
           f_LZCNT = check CPUFeature_LZCNT, f_SSE4A = check CPUFeature_SSE4A,
           f_LM = check CPUFeature_LM, f_SVM = check CPUFeature_SVM\<rparr>)"

section \<open>Which processors are accepted\<close>

lemma strncmp_eq_iff:
  "length s = n \<Longrightarrow> length t = n \<Longrightarrow> 0 \<notin> set t \<Longrightarrow> strncmp_eq n (s @ s') (t @ t') \<longleftrightarrow> s = t"
proof (induction n arbitrary: s t)
  case (Suc n)
  then obtain a s1 b t1 where "s = a # s1" "t = b # t1" by (metis length_Suc_conv)
  then show ?case using Suc by auto
qed simp

definition vendor_bytes :: "cpuid_fn \<Rightarrow> u8 list" where
  "vendor_bytes cpuid = take 12 (CPUVersionID cpuid)"

lemma vendor_cmp:
  assumes "length v = 12" and "0 \<notin> set v"
  shows "strncmp_eq 12 (CPUVersionID cpuid) (v @ [0]) \<longleftrightarrow> vendor_bytes cpuid = v"
proof -
  have "CPUVersionID cpuid = vendor_bytes cpuid @ drop 12 (CPUVersionID cpuid)"
    by (simp add: vendor_bytes_def)
  moreover have "length (vendor_bytes cpuid) = 12"
    by (simp add: vendor_bytes_def CPUVersionID_def word_bytes_def split: prod.split)
  ultimately show ?thesis using strncmp_eq_iff [OF _ assms] by metis
qed

lemma Check386CPU_iff:
  "Check386CPU hascpuid cpuid \<longleftrightarrow> hascpuid \<and>
     (vendor_bytes cpuid = butlast Intel_CPUID0 \<or> vendor_bytes cpuid = butlast AMD_CPUID0) \<and>
     bit (CPUFeatureVector cpuid CFReg_EDX_I) 1"
proof -
  have i: "strncmp_eq 12 (CPUVersionID cpuid) Intel_CPUID0 \<longleftrightarrow> vendor_bytes cpuid = butlast Intel_CPUID0"
    using vendor_cmp [of "butlast Intel_CPUID0" cpuid] by (simp add: Intel_CPUID0_def)
  have a: "strncmp_eq 12 (CPUVersionID cpuid) AMD_CPUID0 \<longleftrightarrow> vendor_bytes cpuid = butlast AMD_CPUID0"
    using vendor_cmp [of "butlast AMD_CPUID0" cpuid] by (simp add: AMD_CPUID0_def)
  have "CheckCPUFeature cpuid CPUFeature_386 \<longleftrightarrow> bit (CPUFeatureVector cpuid CFReg_EDX_I) 1"
    using and_exp_nonzero_iff [of 1 "CPUFeatureVector cpuid CFReg_EDX_I"]
    by (simp add: CheckCPUFeature_def CPUID_EDX_VME_def)
  then show ?thesis unfolding Check386CPU_def Let_def i a by auto
qed

lemmas CPUID_masks = CPUID_EDX_x87_def CPUID_EDX_VME_def CPUID_EDX_TSC_def CPUID_EDX_MSR_def CPUID_EDX_CX8_def
  CPUID_EDX_CMOV_def CPUID_EDX_PSN_def CPUID_EDX_CLFLUSH_def CPUID_EDX_MMX_def CPUID_EDX_FXSR_def
  CPUID_EDX_SSE_def CPUID_EDX_SSE2_def CPUID_ECX_SSE3_def CPUID_ECX_MON_def CPUID_ECX_VMX_def
  CPUID_ECX_SSSE3_def CPUID_ECX_CX16_def CPUID_ECX_SSE41_def CPUID_ECX_SSE42_def CPUID_ECX_MOVBE_def
  CPUID_ECX_POPCNT_def CPUID_EDX_EMMX_def CPUID_EDX_LM_def CPUID_EDX_E3DN_def CPUID_EDX_3DN_def
  CPUID_ECX_SVM_def CPUID_ECX_ABM_def CPUID_ECX_SSE4A_def

lemma CheckCPUFeature_bit:
  assumes "CPUFeatureDescriptions fid = (r, 2 ^ k)" and "k < 32"
  shows "CheckCPUFeature cpuid fid \<longleftrightarrow> bit (CPUFeatureVector cpuid r) k"
  using assms and_exp_nonzero_iff [of k "CPUFeatureVector cpuid r"] by (simp add: CheckCPUFeature_def)

text \<open>The four bytes determine the word.\<close>

lemma word_bytes_inject: "word_bytes v = word_bytes w \<longleftrightarrow> v = w"
proof
  assume eq: "word_bytes v = word_bytes w"
  show "v = w"
  proof (rule bit_word_eqI)
    fix n assume "n < LENGTH(32)"
    then have "n < 32" by simp
    have b: "bit v (k + n) = bit w (k + n)" if "(ucast (drop_bit k v) :: u8) = ucast (drop_bit k w)" "n < 8" for k n
      using arg_cong [OF that(1), of "\<lambda>x. bit x n"] that(2) by (simp add: bit_simps)
    have e: "(ucast (drop_bit 0 v) :: u8) = ucast (drop_bit 0 w)" "(ucast (drop_bit 8 v) :: u8) = ucast (drop_bit 8 w)"
        "(ucast (drop_bit 16 v) :: u8) = ucast (drop_bit 16 w)" "(ucast (drop_bit 24 v) :: u8) = ucast (drop_bit 24 w)"
      using eq by (simp_all add: word_bytes_def)
    consider "n < 8" | "8 \<le> n" "n - 8 < 8" | "16 \<le> n" "n - 16 < 8" | "24 \<le> n" "n - 24 < 8" using \<open>n < 32\<close> by linarith
    then show "bit v n = bit w n"
    proof cases
      case 1
      then show ?thesis using b [OF e(1), of n] by simp
    next
      case 2
      then show ?thesis using b [OF e(2), of "n - 8"] by simp
    next
      case 3
      then show ?thesis using b [OF e(3), of "n - 16"] by simp
    next
      case 4
      then show ?thesis using b [OF e(4), of "n - 24"] by simp
    qed
  qed
qed simp

text \<open>The vendor strings as the registers hold them.\<close>

lemma vendor_words:
  assumes "cpuid 0 = (a, b, c, d)"
  shows "vendor_bytes cpuid = butlast Intel_CPUID0 \<longleftrightarrow> b = 0x756e6547 \<and> d = 0x49656e69 \<and> c = 0x6c65746e"
    "vendor_bytes cpuid = butlast AMD_CPUID0 \<longleftrightarrow> b = 0x68747541 \<and> d = 0x69746e65 \<and> c = 0x444d4163"
proof -
  have l: "length (word_bytes w) = 4" for w by (simp add: word_bytes_def)
  have v: "vendor_bytes cpuid = word_bytes b @ word_bytes d @ word_bytes c"
    using assms by (simp add: vendor_bytes_def CPUVersionID_def l)
  have "butlast Intel_CPUID0 = word_bytes 0x756e6547 @ word_bytes 0x49656e69 @ word_bytes 0x6c65746e"
    "butlast AMD_CPUID0 = word_bytes 0x68747541 @ word_bytes 0x69746e65 @ word_bytes 0x444d4163"
    by code_simp+
  then show "vendor_bytes cpuid = butlast Intel_CPUID0 \<longleftrightarrow> b = 0x756e6547 \<and> d = 0x49656e69 \<and> c = 0x6c65746e"
    "vendor_bytes cpuid = butlast AMD_CPUID0 \<longleftrightarrow> b = 0x68747541 \<and> d = 0x69746e65 \<and> c = 0x444d4163"
    unfolding v by (simp_all add: l append_eq_append_conv word_bytes_inject)
qed

text \<open>The bit of each feature.\<close>

lemma feature_bits:
  assumes l1: "cpuid 1 = (a1, b1, c1, d1)" and l8: "cpuid 0x80000001 = (a8, b8, c8, d8)"
  shows "CheckCPUFeature cpuid CPUFeature_x87 \<longleftrightarrow> bit d1 0"
    "CheckCPUFeature cpuid CPUFeature_MMX \<longleftrightarrow> bit d1 23"
    "CheckCPUFeature cpuid CPUFeature_SSE \<longleftrightarrow> bit d1 25"
    "CheckCPUFeature cpuid CPUFeature_SSE2 \<longleftrightarrow> bit d1 26"
    "CheckCPUFeature cpuid CPUFeature_SSE3 \<longleftrightarrow> bit c1 0"
    "CheckCPUFeature cpuid CPUFeature_SSSE3 \<longleftrightarrow> bit c1 9"
    "CheckCPUFeature cpuid CPUFeature_SSE41 \<longleftrightarrow> bit c1 19"
    "CheckCPUFeature cpuid CPUFeature_SSE42 \<longleftrightarrow> bit c1 20"
    "CheckCPUFeature cpuid CPUFeature_MOVBE \<longleftrightarrow> bit c1 22"
    "CheckCPUFeature cpuid CPUFeature_POPCNT \<longleftrightarrow> bit c1 23"
    "CheckCPUFeature cpuid CPUFeature_CX8 \<longleftrightarrow> bit d1 8"
    "CheckCPUFeature cpuid CPUFeature_CX16 \<longleftrightarrow> bit c1 13"
    "CheckCPUFeature cpuid CPUFeature_CMOV \<longleftrightarrow> bit d1 15"
    "CheckCPUFeature cpuid CPUFeature_MON \<longleftrightarrow> bit c1 3"
    "CheckCPUFeature cpuid CPUFeature_FXSR \<longleftrightarrow> bit d1 24"
    "CheckCPUFeature cpuid CPUFeature_CLFLUSH \<longleftrightarrow> bit d1 19"
    "CheckCPUFeature cpuid CPUFeature_TSC \<longleftrightarrow> bit d1 4"
    "CheckCPUFeature cpuid CPUFeature_MSR \<longleftrightarrow> bit d1 5"
    "CheckCPUFeature cpuid CPUFeature_VME \<longleftrightarrow> bit d1 1"
    "CheckCPUFeature cpuid CPUFeature_PSN \<longleftrightarrow> bit d1 18"
    "CheckCPUFeature cpuid CPUFeature_VMX \<longleftrightarrow> bit c1 5"
    "CheckCPUFeature cpuid CPUFeature_3DNOW \<longleftrightarrow> bit d8 31"
    "CheckCPUFeature cpuid CPUFeature_EMMX \<longleftrightarrow> bit d8 22"
    "CheckCPUFeature cpuid CPUFeature_E3DNOW \<longleftrightarrow> bit d8 30"
    "CheckCPUFeature cpuid CPUFeature_LZCNT \<longleftrightarrow> bit c8 5"
    "CheckCPUFeature cpuid CPUFeature_SSE4A \<longleftrightarrow> bit c8 6"
    "CheckCPUFeature cpuid CPUFeature_LM \<longleftrightarrow> bit d8 29"
    "CheckCPUFeature cpuid CPUFeature_SVM \<longleftrightarrow> bit c8 2"
proof -
  have r: "CPUFeatureVector cpuid CFReg_ECX_I = c1" "CPUFeatureVector cpuid CFReg_EDX_I = d1"
    "CPUFeatureVector cpuid CFReg_ECX_A = c8" "CPUFeatureVector cpuid CFReg_EDX_A = d8"
    by (simp_all add: l1 l8)
  note b = CheckCPUFeature_bit [where cpuid = cpuid]
  show "CheckCPUFeature cpuid CPUFeature_x87 \<longleftrightarrow> bit d1 0"
    "CheckCPUFeature cpuid CPUFeature_MMX \<longleftrightarrow> bit d1 23"
    "CheckCPUFeature cpuid CPUFeature_SSE \<longleftrightarrow> bit d1 25"
    "CheckCPUFeature cpuid CPUFeature_SSE2 \<longleftrightarrow> bit d1 26"
    "CheckCPUFeature cpuid CPUFeature_SSE3 \<longleftrightarrow> bit c1 0"
    "CheckCPUFeature cpuid CPUFeature_SSSE3 \<longleftrightarrow> bit c1 9"
    "CheckCPUFeature cpuid CPUFeature_SSE41 \<longleftrightarrow> bit c1 19"
    "CheckCPUFeature cpuid CPUFeature_SSE42 \<longleftrightarrow> bit c1 20"
    "CheckCPUFeature cpuid CPUFeature_MOVBE \<longleftrightarrow> bit c1 22"
    "CheckCPUFeature cpuid CPUFeature_POPCNT \<longleftrightarrow> bit c1 23"
    "CheckCPUFeature cpuid CPUFeature_CX8 \<longleftrightarrow> bit d1 8"
    "CheckCPUFeature cpuid CPUFeature_CX16 \<longleftrightarrow> bit c1 13"
    "CheckCPUFeature cpuid CPUFeature_CMOV \<longleftrightarrow> bit d1 15"
    "CheckCPUFeature cpuid CPUFeature_MON \<longleftrightarrow> bit c1 3"
    "CheckCPUFeature cpuid CPUFeature_FXSR \<longleftrightarrow> bit d1 24"
    "CheckCPUFeature cpuid CPUFeature_CLFLUSH \<longleftrightarrow> bit d1 19"
    "CheckCPUFeature cpuid CPUFeature_TSC \<longleftrightarrow> bit d1 4"
    "CheckCPUFeature cpuid CPUFeature_MSR \<longleftrightarrow> bit d1 5"
    "CheckCPUFeature cpuid CPUFeature_VME \<longleftrightarrow> bit d1 1"
    "CheckCPUFeature cpuid CPUFeature_PSN \<longleftrightarrow> bit d1 18"
    "CheckCPUFeature cpuid CPUFeature_VMX \<longleftrightarrow> bit c1 5"
    "CheckCPUFeature cpuid CPUFeature_3DNOW \<longleftrightarrow> bit d8 31"
    "CheckCPUFeature cpuid CPUFeature_EMMX \<longleftrightarrow> bit d8 22"
    "CheckCPUFeature cpuid CPUFeature_E3DNOW \<longleftrightarrow> bit d8 30"
    "CheckCPUFeature cpuid CPUFeature_LZCNT \<longleftrightarrow> bit c8 5"
    "CheckCPUFeature cpuid CPUFeature_SSE4A \<longleftrightarrow> bit c8 6"
    "CheckCPUFeature cpuid CPUFeature_LM \<longleftrightarrow> bit d8 29"
    "CheckCPUFeature cpuid CPUFeature_SVM \<longleftrightarrow> bit c8 2"
    unfolding r [symmetric] by (rule b; simp add: CPUID_masks)+
qed

text \<open>C39: CPU detection, in terms of what the \<open>cpuid\<close> instruction answers. \<open>GetCPUFeatures\<close> accepts a
  processor exactly when CPUID exists, the registers EBX, EDX, ECX of leaf 0 spell GenuineIntel or
  AuthenticAMD, and bit 1 of EDX of leaf 1 (VME, which the code
  takes for the 386) is set. On an accepted one each of the 28 other features is one
  documented bit of ECX or EDX of leaf 1 or of leaf 0x80000001; on any other nothing but \<open>f_386\<close> is
  written.\<close>

theorem GetCPUFeatures_correct:
  "case (cpuid 0, cpuid 1, cpuid 0x80000001) of ((a0, b0, c0, d0), (a1, b1, c1, d1), (a8, b8, c8, d8)) \<Rightarrow>
     GetCPUFeatures hascpuid cpuid old =
       (if hascpuid \<and> bit d1 1 \<and>
           (b0 = 0x756e6547 \<and> d0 = 0x49656e69 \<and> c0 = 0x6c65746e \<or>
            b0 = 0x68747541 \<and> d0 = 0x69746e65 \<and> c0 = 0x444d4163)
        then \<lparr>f_386 = True, f_x87 = bit d1 0, f_MMX = bit d1 23, f_SSE = bit d1 25,
             f_SSE2 = bit d1 26, f_SSE3 = bit c1 0, f_SSSE3 = bit c1 9, f_SSE41 = bit c1 19,
             f_SSE42 = bit c1 20, f_MOVBE = bit c1 22, f_POPCNT = bit c1 23, f_CX8 = bit d1 8,
             f_CX16 = bit c1 13, f_CMOV = bit d1 15, f_MON = bit c1 3, f_FXSR = bit d1 24,
             f_CLFLUSH = bit d1 19, f_TSC = bit d1 4, f_MSR = bit d1 5, f_VME = bit d1 1, f_PSN = bit d1 18,
             f_VMX = bit c1 5, f_3DNOW = bit d8 31, f_EMMX = bit d8 22, f_E3DNOW = bit d8 30,
             f_LZCNT = bit c8 5, f_SSE4A = bit c8 6, f_LM = bit d8 29, f_SVM = bit c8 2\<rparr>
        else old\<lparr>f_386 := False\<rparr>)"
proof -
  obtain a0 b0 c0 d0 where l0: "cpuid 0 = (a0, b0, c0, d0)" by (cases "cpuid 0")
  obtain a1 b1 c1 d1 where l1: "cpuid 1 = (a1, b1, c1, d1)" by (cases "cpuid 1")
  obtain a8 b8 c8 d8 where l8: "cpuid 0x80000001 = (a8, b8, c8, d8)" by (cases "cpuid 0x80000001")
  have r: "CPUFeatureVector cpuid CFReg_EDX_I = d1" by (simp add: l1)
  note checks = feature_bits [where cpuid = cpuid, OF l1 l8]
  have ok: "Check386CPU hascpuid cpuid \<longleftrightarrow> hascpuid \<and> bit d1 1 \<and>
      (b0 = 0x756e6547 \<and> d0 = 0x49656e69 \<and> c0 = 0x6c65746e \<or> b0 = 0x68747541 \<and> d0 = 0x69746e65 \<and> c0 = 0x444d4163)"
    unfolding Check386CPU_iff vendor_words [where cpuid = cpuid, OF l0] r by blast
  show ?thesis
    unfolding l0 l1 l8 prod.case ok [symmetric] by (simp add: GetCPUFeatures_def Let_def checks)
qed

end
