(* ===== verification/Nc_Validate.thy ===== *)
theory Nc_Validate
  imports Nc_Segment Nc_Cpuid
begin

text \<open>
  The validator proper (validator\_x86/ncvalidate.c, its state of ncvalidate\_internaltypes.h) and
  its caller \<open>NaClValidateImage\<close> (service\_runtime/arch/x86/sel\_validate\_image.c). The two address
  tables are the byte lists the C code allocates; printing has no state and is left out. The
  action also returns the segment, because an instruction that the processor does not support is
  overwritten with HLT.
\<close>

section \<open>State\<close>

record SummaryStats =
  instructions :: u32
  checktarget :: u32
  targetindirect :: u32
  segments :: u32
  badtarget :: u32
  unsafeindirect :: u32
  returns :: u32
  illegalinst :: u32
  badalignment :: u32
  segfaults :: u32
  badprefix :: u32
  badinstlength :: u32
  missingfullstop :: u32
  internalerrors :: u32
  badcpu :: u32
  sawfailure :: int

record NCValidatorState =
  cpufeatures :: CPUFeatures
  iadrbase :: u32
  iadrlimit :: u32
  alignment :: u8
  alignmask :: u32
  stats :: SummaryStats
  opcodehisto :: "u32 list"
  vttable :: "u8 list"
  kttable :: "u8 list"

definition zero_stats :: SummaryStats where
  "zero_stats = \<lparr>instructions = 0, checktarget = 0, targetindirect = 0, segments = 0, badtarget = 0,
     unsafeindirect = 0, returns = 0, illegalinst = 0, badalignment = 0, segfaults = 0, badprefix = 0,
     badinstlength = 0, missingfullstop = 0, internalerrors = 0, badcpu = 0, sawfailure = 0\<rparr>"

definition no_features :: CPUFeatures where
  "no_features = \<lparr>f_386 = False, f_x87 = False, f_MMX = False, f_SSE = False, f_SSE2 = False,
     f_SSE3 = False, f_SSSE3 = False, f_SSE41 = False, f_SSE42 = False, f_MOVBE = False,
     f_POPCNT = False, f_CX8 = False, f_CX16 = False, f_CMOV = False, f_MON = False, f_FXSR = False,
     f_CLFLUSH = False, f_TSC = False, f_MSR = False, f_VME = False, f_PSN = False, f_VMX = False,
     f_3DNOW = False, f_EMMX = False, f_E3DNOW = False, f_LZCNT = False, f_SSE4A = False,
     f_LM = False, f_SVM = False\<rparr>"

text \<open>What \<open>calloc\<close> returns.\<close>

definition calloc_state :: NCValidatorState where
  "calloc_state = \<lparr>cpufeatures = no_features, iadrbase = 0, iadrlimit = 0, alignment = 0, alignmask = 0,
     stats = zero_stats, opcodehisto = replicate 256 0, vttable = [], kttable = []\<rparr>"

definition OpcodeHisto :: "u8 \<Rightarrow> NCValidatorState \<Rightarrow> NCValidatorState" where
  "OpcodeHisto byte1 vstate = vstate\<lparr>opcodehisto :=
     (opcodehisto vstate)[unat byte1 := opcodehisto vstate ! unat byte1 + 1]\<rparr>"

definition InitOpcodeHisto :: "NCValidatorState \<Rightarrow> NCValidatorState" where
  "InitOpcodeHisto vstate = vstate\<lparr>opcodehisto := replicate 256 0\<rparr>"

section \<open>Statistics\<close>

definition Stats_Inst :: "NCValidatorState \<Rightarrow> NCValidatorState" where
  "Stats_Inst v = v\<lparr>stats := (stats v)\<lparr>instructions := instructions (stats v) + 1\<rparr>\<rparr>"
definition Stats_CheckTarget :: "NCValidatorState \<Rightarrow> NCValidatorState" where
  "Stats_CheckTarget v = v\<lparr>stats := (stats v)\<lparr>checktarget := checktarget (stats v) + 1\<rparr>\<rparr>"
definition Stats_TargetIndirect :: "NCValidatorState \<Rightarrow> NCValidatorState" where
  "Stats_TargetIndirect v = v\<lparr>stats := (stats v)\<lparr>targetindirect := targetindirect (stats v) + 1\<rparr>\<rparr>"
definition Stats_SawFailure :: "NCValidatorState \<Rightarrow> NCValidatorState" where
  "Stats_SawFailure v = v\<lparr>stats := (stats v)\<lparr>sawfailure := 1\<rparr>\<rparr>"
definition Stats_InternalError :: "NCValidatorState \<Rightarrow> NCValidatorState" where
  "Stats_InternalError v =
     Stats_SawFailure (v\<lparr>stats := (stats v)\<lparr>internalerrors := internalerrors (stats v) + 1\<rparr>\<rparr>)"
definition Stats_BadCPU :: "NCValidatorState \<Rightarrow> NCValidatorState" where
  "Stats_BadCPU v = Stats_SawFailure (v\<lparr>stats := (stats v)\<lparr>badcpu := badcpu (stats v) + 1\<rparr>\<rparr>)"
definition Stats_BadAlignment :: "NCValidatorState \<Rightarrow> NCValidatorState" where
  "Stats_BadAlignment v =
     Stats_SawFailure (v\<lparr>stats := (stats v)\<lparr>badalignment := badalignment (stats v) + 1\<rparr>\<rparr>)"
definition Stats_SegFault :: "NCValidatorState \<Rightarrow> NCValidatorState" where
  "Stats_SegFault v = Stats_SawFailure (v\<lparr>stats := (stats v)\<lparr>segfaults := segfaults (stats v) + 1\<rparr>\<rparr>)"
definition Stats_NewSegment :: "NCValidatorState \<Rightarrow> NCValidatorState" where
  "Stats_NewSegment v =
     (let v = v\<lparr>stats := (stats v)\<lparr>segments := segments (stats v) + 1\<rparr>\<rparr>
      in if segments (stats v) > 1 then Stats_SawFailure v else v)"
definition Stats_BadTarget :: "NCValidatorState \<Rightarrow> NCValidatorState" where
  "Stats_BadTarget v = Stats_SawFailure (v\<lparr>stats := (stats v)\<lparr>badtarget := badtarget (stats v) + 1\<rparr>\<rparr>)"
definition Stats_UnsafeIndirect :: "NCValidatorState \<Rightarrow> NCValidatorState" where
  "Stats_UnsafeIndirect v =
     Stats_SawFailure (v\<lparr>stats := (stats v)\<lparr>unsafeindirect := unsafeindirect (stats v) + 1\<rparr>\<rparr>)"
definition Stats_MissingFullStop :: "NCValidatorState \<Rightarrow> NCValidatorState" where
  "Stats_MissingFullStop v =
     Stats_SawFailure (v\<lparr>stats := (stats v)\<lparr>missingfullstop := missingfullstop (stats v) + 1\<rparr>\<rparr>)"
definition Stats_Return :: "NCValidatorState \<Rightarrow> NCValidatorState" where
  "Stats_Return v =
     Stats_SawFailure (Stats_UnsafeIndirect (v\<lparr>stats := (stats v)\<lparr>returns := returns (stats v) + 1\<rparr>\<rparr>))"
definition Stats_IllegalInst :: "NCValidatorState \<Rightarrow> NCValidatorState" where
  "Stats_IllegalInst v =
     Stats_SawFailure (v\<lparr>stats := (stats v)\<lparr>illegalinst := illegalinst (stats v) + 1\<rparr>\<rparr>)"
definition Stats_BadPrefix :: "NCValidatorState \<Rightarrow> NCValidatorState" where
  "Stats_BadPrefix v =
     Stats_SawFailure (v\<lparr>stats := (stats v)\<lparr>badprefix := badprefix (stats v) + 1,
                                            illegalinst := illegalinst (stats v) + 1\<rparr>\<rparr>)"
definition Stats_BadInstLength :: "NCValidatorState \<Rightarrow> NCValidatorState" where
  "Stats_BadInstLength v =
     Stats_SawFailure (v\<lparr>stats := (stats v)\<lparr>badinstlength := badinstlength (stats v) + 1\<rparr>\<rparr>)"

text \<open>The static flag \<open>inited\<close> is passed and returned; \<open>segfaults\<close> is not among the fields reset.\<close>

definition Stats_Init :: "bool \<Rightarrow> NCValidatorState \<Rightarrow> bool \<times> NCValidatorState" where
  "Stats_Init inited v =
     (if inited then (inited, v)
      else (True, InitOpcodeHisto (v\<lparr>stats := zero_stats\<lparr>segfaults := segfaults (stats v)\<rparr>\<rparr>)))"

section \<open>Address tables\<close>

definition iadrmasks :: "u8 list" where
  "iadrmasks = [0x01, 0x02, 0x04, 0x08, 0x10, 0x20, 0x40, 0x80]"
definition IATOffset :: "u32 \<Rightarrow> nat" where "IATOffset ia = unat (drop_bit 3 ia)"
definition IATMask :: "u32 \<Rightarrow> u8" where "IATMask ia = iadrmasks ! unat (ia AND 0x7)"
definition SetAdrTable :: "u32 \<Rightarrow> u8 list \<Rightarrow> u8 list" where
  "SetAdrTable ioff tbl = tbl[IATOffset ioff := (tbl ! IATOffset ioff) OR IATMask ioff]"
definition ClearAdrTable :: "u32 \<Rightarrow> u8 list \<Rightarrow> u8 list" where
  "ClearAdrTable ioff tbl = tbl[IATOffset ioff := (tbl ! IATOffset ioff) AND NOT (IATMask ioff)]"
definition GetAdrTable :: "u32 \<Rightarrow> u8 list \<Rightarrow> bool" where
  "GetAdrTable ioff tbl \<longleftrightarrow> (tbl ! IATOffset ioff) AND IATMask ioff \<noteq> 0"

fun BadPrefixMask :: "NaClInstType \<Rightarrow> u32" where
  "BadPrefixMask NACLi_386 = NOT (kPrefixDATA16 OR kPrefixSEGGS)"
| "BadPrefixMask NACLi_386L = NOT (kPrefixDATA16 OR kPrefixLOCK)"
| "BadPrefixMask NACLi_386R = NOT (kPrefixDATA16 OR kPrefixREP)"
| "BadPrefixMask NACLi_386RE = NOT (kPrefixDATA16 OR kPrefixREP OR kPrefixREPNE)"
| "BadPrefixMask NACLi_JMP8 = NOT (kPrefixSEGCS OR kPrefixSEGDS)"
| "BadPrefixMask NACLi_JMPZ = NOT (kPrefixSEGCS OR kPrefixSEGDS)"
| "BadPrefixMask NACLi_CMPXCHG8B = NOT kPrefixLOCK"
| "BadPrefixMask _ = 0xffffffff"

text \<open>\<open>NACL_INSTR_BLOCK_SIZE\<close> of nacl\_config.h (block shift 5).\<close>

definition NACL_INSTR_BLOCK_SIZE :: u32 where "NACL_INSTR_BLOCK_SIZE = 32"

text \<open>\<open>NCValidateInit\<close>. The three allocations succeed or fail as \<open>mem\<close> says.\<close>

definition NCValidateInit ::
    "bool \<Rightarrow> bool \<times> bool \<times> bool \<Rightarrow> u32 \<Rightarrow> u32 \<Rightarrow> u8 \<Rightarrow> bool \<times> NCValidatorState option" where
  "NCValidateInit inited mem vbase vlimit align =
     (let alignbase = vbase AND NOT (ucast align);
          (state_ok, vt_ok, kt_ok) = mem
      in if vlimit \<le> vbase then (inited, None)
         else if align \<noteq> 16 \<and> align \<noteq> 32 then (inited, None)
         else if \<not> state_ok then (inited, None)
         else let n = IATOffset (vlimit - alignbase) + 1;
                  vstate = calloc_state\<lparr>iadrbase := alignbase, iadrlimit := vlimit, alignment := align,
                     alignmask := ucast align - 1, vttable := replicate n 0, kttable := replicate n 0\<rparr>
         in if \<not> vt_ok \<or> \<not> kt_ok then (inited, None)
            else let (inited, vstate) = Stats_Init inited vstate in (inited, Some vstate))"

definition RememberIP :: "u32 \<Rightarrow> NCValidatorState \<Rightarrow> NCValidatorState" where
  "RememberIP ip vstate =
     (let ioffset = ip - iadrbase vstate
      in if ip < iadrbase vstate \<or> ip \<ge> iadrlimit vstate then Stats_BadTarget vstate
         else if GetAdrTable ioffset (vttable vstate) then Stats_InternalError vstate
         else let vstate = Stats_Inst vstate in vstate\<lparr>vttable := SetAdrTable ioffset (vttable vstate)\<rparr>)"

definition RememberTP :: "u32 \<Rightarrow> NCValidatorState \<Rightarrow> NCValidatorState" where
  "RememberTP target vstate =
     (let ioffset = target - iadrbase vstate
      in if target < iadrlimit vstate then
           (if target \<ge> iadrbase vstate then vstate\<lparr>kttable := SetAdrTable ioffset (kttable vstate)\<rparr>
            else if target \<ge> iadrbase vstate - NACL_TRAMPOLINE_END \<and> target AND (NACL_INSTR_BLOCK_SIZE - 1) = 0
            then vstate
            else Stats_BadTarget vstate)
         else Stats_BadTarget vstate)"

definition ForgetIP :: "u32 \<Rightarrow> NCValidatorState \<Rightarrow> NCValidatorState" where
  "ForgetIP ip vstate =
     (let ioffset = ip - iadrbase vstate
      in if ip < iadrbase vstate \<or> ip \<ge> iadrlimit vstate then Stats_BadTarget vstate
         else vstate\<lparr>vttable := ClearAdrTable ioffset (vttable vstate)\<rparr>)"

section \<open>Finishing\<close>

text \<open>The first loop of \<open>NCValidateFinish\<close> counts up to a 32-bit bound by one; the second adds the
  alignment, and does not end if the sum wraps around.\<close>

definition check_target :: "u32 \<Rightarrow> NCValidatorState \<Rightarrow> NCValidatorState" where
  "check_target offset vstate =
     (if GetAdrTable offset (kttable vstate) then
        let vstate = Stats_CheckTarget vstate
        in if \<not> GetAdrTable offset (vttable vstate) then Stats_BadTarget vstate else vstate
      else vstate)"

definition check_targets :: "NCValidatorState \<Rightarrow> NCValidatorState" where
  "check_targets vstate =
     fold (\<lambda>i. check_target (of_nat i)) [0..<unat (iadrlimit vstate - iadrbase vstate)] vstate"

partial_function (option) check_blocks :: "u32 \<Rightarrow> NCValidatorState \<Rightarrow> NCValidatorState option" where
  "check_blocks offset vstate =
     (if offset < iadrlimit vstate - iadrbase vstate then
        let vstate' = (if \<not> GetAdrTable offset (vttable vstate) then Stats_BadAlignment vstate else vstate)
        in check_blocks (offset + ucast (alignment vstate')) vstate'
      else Some vstate)"

declare check_blocks.simps [code]

definition NCValidateFinish :: "NCValidatorState option \<Rightarrow> (int \<times> NCValidatorState option) option" where
  "NCValidateFinish vs =
     (case vs of None \<Rightarrow> Some (1, None)
      | Some vstate \<Rightarrow>
          let vstate = check_targets vstate;
              vstate = (if iadrbase vstate AND alignmask vstate \<noteq> 0 then Stats_BadAlignment vstate else vstate)
          in (case check_blocks 0 vstate of None \<Rightarrow> None
              | Some vstate \<Rightarrow> Some (sawfailure (stats vstate), Some vstate)))"

section \<open>One instruction\<close>

definition ValidateSFenceClFlush :: "memory \<Rightarrow> NCDecoderState \<Rightarrow> NCValidatorState \<Rightarrow> bool" where
  "ValidateSFenceClFlush mem mstate vstate =
     (if modrm_mod (mem (maddr (inst mstate) + 2)) = 3 then \<not> f_FXSR (cpufeatures vstate)
      else \<not> f_CLFLUSH (cpufeatures vstate))"

definition ValidateCallAlignment :: "NCDecoderState \<Rightarrow> NCValidatorState \<Rightarrow> NCValidatorState" where
  "ValidateCallAlignment mstate vstate =
     (let fallthru = vaddr (inst mstate) + of_nat (inst_length (inst mstate))
      in if fallthru AND alignmask vstate \<noteq> 0 then Stats_BadAlignment vstate else vstate)"

definition ValidateJmp8 :: "memory \<Rightarrow> NCDecoderState \<Rightarrow> NCValidatorState \<Rightarrow> NCValidatorState" where
  "ValidateJmp8 mem mstate vstate =
     (let opcode = mem (maddr (inst mstate) + prefixbytes (inst mstate));
          offset = scast (mem (maddr (inst mstate) + prefixbytes (inst mstate) + 1)) :: u32;
          target = vaddr (inst mstate) + of_nat (inst_length (inst mstate)) + offset;
          vstate = Stats_CheckTarget vstate
      in if opcode AND 0xf0 = 0x70 \<or> opcode = 0xeb \<or>
            opcode = 0xe0 \<or> opcode = 0xe1 \<or> opcode = 0xe2 \<or> opcode = 0xe3
         then RememberTP target vstate
         else Stats_InternalError vstate)"

text \<open>\<open>*(int32_t *)\<close>: little-endian.\<close>

definition read_int32 :: "memory \<Rightarrow> nat \<Rightarrow> u32" where
  "read_int32 mem a = ucast (mem a) OR push_bit 8 (ucast (mem (a + 1))) OR
     push_bit 16 (ucast (mem (a + 2))) OR push_bit 24 (ucast (mem (a + 3)))"

definition ValidateJmpz :: "memory \<Rightarrow> NCDecoderState \<Rightarrow> NCValidatorState \<Rightarrow> NCValidatorState" where
  "ValidateJmpz mem mstate vstate =
     (let opcode = maddr (inst mstate) + prefixbytes (inst mstate);
          next_pc = vaddr (inst mstate) + of_nat (inst_length (inst mstate));
          vstate = Stats_CheckTarget vstate
      in if mem opcode = 0xe8 \<or> mem opcode = 0xe9 then
           let vstate = RememberTP (next_pc + read_int32 mem (opcode + 1)) vstate
           in if mem opcode = 0xe8 then ValidateCallAlignment mstate vstate else vstate
         else if mem opcode = 0x0f then
           (if mem (opcode + 1) AND 0xf0 = 0x80
            then RememberTP (next_pc + read_int32 mem (opcode + 2)) vstate
            else vstate)
         else Stats_InternalError vstate)"

definition kReg_ESP :: u8 where "kReg_ESP = 4"

definition indirect5_ok :: "memory \<Rightarrow> NCDecoderState \<Rightarrow> NCDecoderState \<Rightarrow> u32 \<Rightarrow> bool" where
  "indirect5_ok mem andinst mstate amask =
     (let jmpopcode = maddr (inst mstate);
          andopcode = maddr (inst andinst);
          mrm = mem (jmpopcode + 1);
          targetreg = modrm_rm mrm
      in prefixbytes (inst mstate) = 0 \<and> prefixbytes (inst andinst) = 0 \<and>
         mem jmpopcode = 0xff \<and> (modrm_reg mrm = 2 \<or> modrm_reg mrm = 4) \<and>
         modrm_mod mrm = 3 \<and> targetreg \<noteq> kReg_ESP \<and>
         mem andopcode = 0x83 \<and> mem (andopcode + 1) = 0xe0 OR targetreg \<and>
         ucast (mem (andopcode + 2)) = 0x0ff AND NOT amask)"

definition ValidateIndirect5 ::
    "memory \<Rightarrow> NCDecoderState list \<Rightarrow> nat \<Rightarrow> NCValidatorState \<Rightarrow> NCValidatorState" where
  "ValidateIndirect5 mem buf dbindex vstate =
     (let mstate = buf ! dbindex;
          andinst = PreviousInst buf dbindex (- 1)
      in if inst_length (inst andinst) = 0 then Stats_UnsafeIndirect vstate
         else
           let vstate = Stats_TargetIndirect (Stats_CheckTarget vstate)
           in if indirect5_ok mem andinst mstate (alignmask vstate) then
                let vstate = ForgetIP (vaddr (inst mstate)) vstate
                in if modrm_reg (mem (maddr (inst mstate) + 1)) = 2
                   then ValidateCallAlignment mstate vstate else vstate
              else Stats_UnsafeIndirect vstate)"

definition kMaxValPrefixBytes :: nat where "kMaxValPrefixBytes = 1"
definition kMaxValidInstLength :: u32 where "kMaxValidInstLength = 11"
definition kNaClFullStop :: u8 where "kNaClFullStop = 0xf4"

definition prefix_ok :: "NCDecoderState \<Rightarrow> bool" where
  "prefix_ok mstate \<longleftrightarrow>
     prefixbytes (inst mstate) = 0 \<or>
     (prefixbytes (inst mstate) \<le> kMaxValPrefixBytes \<and>
      (if hasopbyte2 (inst mstate)
       then (if prefixmask (inst mstate) AND kPrefixLOCK \<noteq> 0
             then insttype (opinfo mstate) = NACLi_386L \<or> insttype (opinfo mstate) = NACLi_CMPXCHG8B
             else True)
       else prefixmask (inst mstate) AND BadPrefixMask (insttype (opinfo mstate)) = 0))"

definition length_ok :: "NCDecoderState \<Rightarrow> bool" where
  "length_ok mstate \<longleftrightarrow>
     \<not> word_of_int (int (inst_length (inst mstate)) - int (prefixbytes (inst mstate))) > kMaxValidInstLength"

text \<open>The \<open>switch\<close> of \<open>ValidateInst\<close>: the new state and \<open>squashme\<close>.\<close>

fun validate_switch ::
    "NaClInstType \<Rightarrow> memory \<Rightarrow> NCDecoderState list \<Rightarrow> nat \<Rightarrow> NCValidatorState \<Rightarrow> NCValidatorState \<times> bool" where
  "validate_switch NACLi_386 mem buf i v = (v, False)"
| "validate_switch NACLi_386L mem buf i v = (v, False)"
| "validate_switch NACLi_386R mem buf i v = (v, False)"
| "validate_switch NACLi_386RE mem buf i v = (v, False)"
| "validate_switch NACLi_JMP8 mem buf i v = (ValidateJmp8 mem (buf ! i) v, False)"
| "validate_switch NACLi_JMPZ mem buf i v = (ValidateJmpz mem (buf ! i) v, False)"
| "validate_switch NACLi_INDIRECT mem buf i v = (ValidateIndirect5 mem buf i v, False)"
| "validate_switch NACLi_X87 mem buf i v = (v, \<not> f_x87 (cpufeatures v))"
| "validate_switch NACLi_SFENCE_CLFLUSH mem buf i v = (v, ValidateSFenceClFlush mem (buf ! i) v)"
| "validate_switch NACLi_CMPXCHG8B mem buf i v = (v, \<not> f_CX8 (cpufeatures v))"
| "validate_switch NACLi_CMOV mem buf i v = (v, \<not> f_CMOV (cpufeatures v))"
| "validate_switch NACLi_FCMOV mem buf i v = (v, \<not> (f_CMOV (cpufeatures v) \<and> f_x87 (cpufeatures v)))"
| "validate_switch NACLi_RDTSC mem buf i v = (v, \<not> f_TSC (cpufeatures v))"
| "validate_switch NACLi_MMX mem buf i v = (v, \<not> f_MMX (cpufeatures v))"
| "validate_switch NACLi_MMXSSE2 mem buf i v = (v, \<not> (f_MMX (cpufeatures v) \<or> f_SSE2 (cpufeatures v)))"
| "validate_switch NACLi_SSE mem buf i v = (v, \<not> f_SSE (cpufeatures v))"
| "validate_switch NACLi_SSE2 mem buf i v = (v, \<not> f_SSE2 (cpufeatures v))"
| "validate_switch NACLi_SSE3 mem buf i v = (v, \<not> f_SSE3 (cpufeatures v))"
| "validate_switch NACLi_SSE4A mem buf i v = (v, \<not> f_SSE4A (cpufeatures v))"
| "validate_switch NACLi_SSE41 mem buf i v = (v, \<not> f_SSE41 (cpufeatures v))"
| "validate_switch NACLi_SSE42 mem buf i v = (v, \<not> f_SSE42 (cpufeatures v))"
| "validate_switch NACLi_MOVBE mem buf i v = (v, \<not> f_MOVBE (cpufeatures v))"
| "validate_switch NACLi_POPCNT mem buf i v = (v, \<not> f_POPCNT (cpufeatures v))"
| "validate_switch NACLi_LZCNT mem buf i v = (v, \<not> f_LZCNT (cpufeatures v))"
| "validate_switch NACLi_SSSE3 mem buf i v = (v, \<not> f_SSSE3 (cpufeatures v))"
| "validate_switch NACLi_3DNOW mem buf i v = (v, \<not> f_3DNOW (cpufeatures v))"
| "validate_switch NACLi_E3DNOW mem buf i v = (v, \<not> f_E3DNOW (cpufeatures v))"
| "validate_switch NACLi_SSE2x mem buf i v =
     (if prefixmask (inst (buf ! i)) AND kPrefixDATA16 = 0 then Stats_BadPrefix v else v,
      \<not> f_SSE2 (cpufeatures v))"
| "validate_switch NACLi_RETURN mem buf i v = (Stats_IllegalInst (Stats_Return v), False)"
| "validate_switch NACLi_EMMX mem buf i v = (Stats_IllegalInst v, False)"
| "validate_switch NACLi_INVALID mem buf i v = (Stats_IllegalInst v, False)"
| "validate_switch NACLi_ILLEGAL mem buf i v = (Stats_IllegalInst v, False)"
| "validate_switch NACLi_SYSTEM mem buf i v = (Stats_IllegalInst v, False)"
| "validate_switch NACLi_RDMSR mem buf i v = (Stats_IllegalInst v, False)"
| "validate_switch NACLi_RDTSCP mem buf i v = (Stats_IllegalInst v, False)"
| "validate_switch NACLi_SYSCALL mem buf i v = (Stats_IllegalInst v, False)"
| "validate_switch NACLi_SYSENTER mem buf i v = (Stats_IllegalInst v, False)"
| "validate_switch NACLi_LONGMODE mem buf i v = (Stats_IllegalInst v, False)"
| "validate_switch NACLi_SVM mem buf i v = (Stats_IllegalInst v, False)"
| "validate_switch NACLi_OPINMRM mem buf i v = (Stats_IllegalInst v, False)"
| "validate_switch NACLi_3BYTE mem buf i v = (Stats_IllegalInst v, False)"
| "validate_switch NACLi_CMPXCHG16B mem buf i v = (Stats_IllegalInst v, False)"
| "validate_switch NACLi_UNDEFINED mem buf i v = (Stats_InternalError (Stats_IllegalInst v), False)"

definition memset :: "memory \<Rightarrow> nat \<Rightarrow> u8 \<Rightarrow> nat \<Rightarrow> memory" where
  "memset mem a c n = (\<lambda>i. if a \<le> i \<and> i < a + n then c else mem i)"

definition ValidateInst ::
    "NCDecoderState list \<Rightarrow> nat \<Rightarrow> memory \<Rightarrow> NCValidatorState \<Rightarrow> memory \<times> NCValidatorState" where
  "ValidateInst buf dbindex mem vstate =
     (let mstate = buf ! dbindex;
          vstate = OpcodeHisto (mem (maddr (inst mstate) + prefixbytes (inst mstate))) vstate;
          vstate = RememberIP (vaddr (inst mstate)) vstate;
          vstate = (if prefix_ok mstate then vstate else Stats_BadPrefix vstate);
          vstate = (if length_ok mstate then vstate else Stats_BadInstLength vstate);
          (vstate, squashme) = validate_switch (insttype (opinfo mstate)) mem buf dbindex vstate
      in (if squashme then memset mem (maddr (inst mstate)) kNaClFullStop (inst_length (inst mstate)) else mem,
          vstate))"

section \<open>A segment and an image\<close>

definition validator_callbacks :: "NCValidatorState callbacks" where
  "validator_callbacks = NCDecodeRegisterCallbacks
     \<lparr>g_DecoderAction = (\<lambda>buf i mem v. (mem, v)), g_NewSegment = id, g_SegFault = id, g_InternalError = id\<rparr>
     (Some ValidateInst) (Some Stats_NewSegment) (Some Stats_SegFault) (Some Stats_InternalError)"

definition NCValidateSegment ::
    "bool \<times> cpuid_fn \<Rightarrow> decode_tables \<Rightarrow> memory \<Rightarrow> u32 \<Rightarrow> u32 \<Rightarrow> NCValidatorState
      \<Rightarrow> (memory \<times> NCValidatorState) result option" where
  "NCValidateSegment cpu T mbase vbase sz vstate =
     (if sz = 0 then Some (Inr (mbase, Stats_SegFault (Stats_MissingFullStop vstate)))
      else
        let vstate = vstate\<lparr>cpufeatures := GetCPUFeatures (fst cpu) (snd cpu) (cpufeatures vstate)\<rparr>
        in if \<not> f_386 (cpufeatures vstate) then Some (Inr (mbase, Stats_BadCPU vstate))
           else (case NCDecodeSegment validator_callbacks T mbase vbase (sz - 1) vstate of
               None \<Rightarrow> None
             | Some (Inl f) \<Rightarrow> Some (Inl f)
             | Some (Inr (mbase, vstate)) \<Rightarrow>
                 Some (Inr (mbase, if mbase (unat (sz - 1)) \<noteq> kNaClFullStop
                                   then Stats_MissingFullStop vstate else vstate))))"

text \<open>\<open>NaClValidateImage\<close>: the application's \<open>mem_start\<close>, \<open>text_region_bytes\<close> and
  \<open>align_boundary\<close>, the debugging flag \<open>g_ignore_validator_result\<close>, and the bytes from
  \<open>mem_start + NACL_TRAMPOLINE_END\<close> on. \<open>align_boundary\<close> is an \<open>int\<close>, passed as a byte.\<close>

definition NaClValidateImage ::
    "bool \<times> cpuid_fn \<Rightarrow> decode_tables \<Rightarrow> bool \<Rightarrow> bool \<Rightarrow> bool \<times> bool \<times> bool \<Rightarrow> u32 \<Rightarrow> u32 \<Rightarrow> int \<Rightarrow> memory
      \<Rightarrow> (memory \<times> NaClErrorCode) result option" where
  "NaClValidateImage cpu T ignore inited mem_ok mem_start text_region_bytes align_boundary mem =
     (let memp = mem_start + NACL_TRAMPOLINE_END;
          regionsize = text_region_bytes;
          endp = memp + regionsize
      in if endp < memp then Some (Inr (mem, LOAD_NO_MEMORY))
         else (case snd (NCValidateInit inited mem_ok memp endp (word_of_int align_boundary)) of
             None \<Rightarrow> Some (Inr (mem, LOAD_BAD_FILE))
           | Some vstate \<Rightarrow>
               (case NCValidateSegment cpu T mem memp regionsize vstate of
                  None \<Rightarrow> None
                | Some (Inl f) \<Rightarrow> Some (Inl f)
                | Some (Inr (mem, vstate)) \<Rightarrow>
                    (case NCValidateFinish (Some vstate) of
                       None \<Rightarrow> None
                     | Some (rc, _) \<Rightarrow>
                         Some (Inr (mem, if rc = 0 then LOAD_OK
                                         else if ignore then LOAD_OK
                                         else LOAD_VALIDATION_FAILED))))))"

end
