(* ===== verification/Sel_Load.thy ===== *)
theory Sel_Load
  imports Sel_Space Nc_Validate
begin

text \<open>
  Loading a module (service\_runtime/sel\_ldr\_standard.c, sel\_load\_image.c,
  arch/x86/sel\_ldr\_x86.c, gio\_mem.c): the headers are read and checked, the address space is
  allocated, the segments are read into it, the text is validated, the trampolines and the
  springboard are installed, and the memory is protected.
\<close>

section \<open>Files in memory\<close>

text \<open>\<open>Read\<close> returns its result and the bytes it has stored, \<open>Seek\<close> sets the position
  (\<open>SEEK_SET\<close>).\<close>

record 'g gio_vtbl =
  Read :: "'g \<Rightarrow> nat \<Rightarrow> int \<times> u8 list \<times> 'g"
  Seek :: "'g \<Rightarrow> u32 \<Rightarrow> int \<times> 'g"

record GioMemoryFile =
  buffer :: "u8 list"
  curpos :: nat

definition GioMemoryFileCtor :: "u8 list \<Rightarrow> GioMemoryFile" where
  "GioMemoryFileCtor buf = \<lparr>buffer = buf, curpos = 0\<rparr>"

definition GioMemoryFileRead :: "GioMemoryFile \<Rightarrow> nat \<Rightarrow> int \<times> u8 list \<times> GioMemoryFile" where
  "GioMemoryFileRead self n =
     (let remain = length (buffer self) - curpos self;
          n = (if n > remain then remain else n)
      in if n = 0 then (0, [], self)
         else (int n, take n (drop (curpos self) (buffer self)), self\<lparr>curpos := curpos self + n\<rparr>))"

definition GioMemoryFileSeek :: "GioMemoryFile \<Rightarrow> u32 \<Rightarrow> int \<times> GioMemoryFile" where
  "GioMemoryFileSeek self off =
     (if unat off > length (buffer self) then (-1, self)
      else (sint off, self\<lparr>curpos := unat off\<rparr>))"

definition kGioMemoryFileVtbl :: "GioMemoryFile gio_vtbl" where
  "kGioMemoryFileVtbl = \<lparr>Read = GioMemoryFileRead, Seek = GioMemoryFileSeek\<rparr>"

section \<open>What the loader is given\<close>

text \<open>The calls of the host and the allocations, the processor and the decoding tables of the
  validator, and the generated code templates, at their addresses in the process.\<close>

record load_env =
  sys_of :: sys_env
  phdrs_ok :: bool
  cpu_of :: "bool \<times> cpuid_fn"
  tables_of :: decode_tables
  g_ignore_validator_result :: bool
  inited_of :: bool
  mem_ok_of :: "bool \<times> bool \<times> bool"
  kTrampolineCode :: u32
  tramp_size :: u32
  NACL_TRAMP_CSEG_PATCH :: u32
  NACL_TRAMP_DSEG_PATCH :: u32
  NaClSyscallSeg :: u32
  nacl_global_cs :: u16
  nacl_global_ds :: u16
  kSpringboardCode :: u32
  springboard_size :: u32

definition NACL_HALT_OPCODE :: u8 where "NACL_HALT_OPCODE = 0xf4"
definition NACL_HALT_LEN :: u32 where "NACL_HALT_LEN = 1"
definition NACL_SYSCALL_BLOCK_SHIFT :: nat where "NACL_SYSCALL_BLOCK_SHIFT = 5"
definition NACL_SYSCALL_BLOCK_SIZE :: u32 where "NACL_SYSCALL_BLOCK_SIZE = push_bit NACL_SYSCALL_BLOCK_SHIFT 1"
definition NACL_MAX_PROGRAM_HEADERS :: u16 where "NACL_MAX_PROGRAM_HEADERS = 128"

section \<open>The segments\<close>

definition will_load :: "Elf32_Phdr \<Rightarrow> bool" where
  "will_load php \<longleftrightarrow> p_flags php AND PF_OS_WILL_LOAD \<noteq> 0"

fun load_segments :: "'g gio_vtbl \<Rightarrow> 'g \<Rightarrow> NaClAppLoad \<Rightarrow> Elf32_Phdr list \<Rightarrow> ('g \<times> NaClAppLoad) load_result" where
  "load_segments vt gp nap [] = Inr (LOAD_OK, gp, nap)"
| "load_segments vt gp nap (php # phps) =
     (if \<not> will_load php then load_segments vt gp nap phps
      else
        let end_vaddr = p_vaddr php + p_filesz php
        in if end_vaddr < p_vaddr php then Inl LogFatal
           else if end_vaddr \<ge> space_size (space nap) then Inl LogFatal
           else
             let paddr = mem_start (space nap) + p_vaddr php
             in case Seek vt gp (p_offset php) of (r, gp) \<Rightarrow>
                  if r = -1 then Inr (LOAD_SEGMENT_BAD_PARAM, gp, nap)
                  else case Read vt gp (unat (p_filesz php)) of (r, bs, gp) \<Rightarrow>
                    let nap = nap\<lparr>image := store_bytes (image nap) (unat paddr) bs\<rparr>
                    in if word_of_int r \<noteq> p_filesz php then Inr (LOAD_SEGMENT_BAD_PARAM, gp, nap)
                       else load_segments vt gp nap phps)"

definition NaClFillMemoryRegionWithHalt :: "memory \<Rightarrow> u32 \<Rightarrow> u32 \<Rightarrow> memory result" where
  "NaClFillMemoryRegionWithHalt m start sz =
     (if sz mod NACL_HALT_LEN \<noteq> 0 then Inl CheckFailed
      else Inr (fill_bytes m (unat start) NACL_HALT_OPCODE (unat sz)))"

definition NaClFillTrampolineRegion :: "NaClAppLoad \<Rightarrow> NaClAppLoad result" where
  "NaClFillTrampolineRegion nap =
     bind_result (NaClFillMemoryRegionWithHalt (image nap) (mem_start (space nap)) NACL_TRAMPOLINE_END)
       (\<lambda>m. Inr (nap\<lparr>image := m\<rparr>))"

definition NaClFillEndOfTextRegion :: "NaClAppLoad \<Rightarrow> NaClAppLoad result" where
  "NaClFillEndOfTextRegion nap =
     (let sp = space nap;
          page_pad = NaClRoundPage (text_region_bytes sp) - text_region_bytes sp
      in if \<not> page_pad < NACL_PAGESIZE then Inl CheckFailed
         else bind_result (NaClFillMemoryRegionWithHalt (image nap)
                             (mem_start sp + NACL_TRAMPOLINE_END + text_region_bytes sp) page_pad)
                (\<lambda>m. Inr (nap\<lparr>image := m, space := sp\<lparr>text_region_bytes := text_region_bytes sp + page_pad\<rparr>\<rparr>)))"

definition NaClLoadImage :: "'g gio_vtbl \<Rightarrow> 'g \<Rightarrow> NaClAppLoad \<Rightarrow> ('g \<times> NaClAppLoad) load_result" where
  "NaClLoadImage vt gp nap =
     and_then (load_segments vt gp nap (phdrs nap))
       (\<lambda>(gp, nap). bind_result (NaClFillEndOfTextRegion nap) (\<lambda>nap. Inr (LOAD_OK, gp, nap)))"

section \<open>Trampolines and springboard\<close>

definition NaClPatchOneTrampoline :: "load_env \<Rightarrow> memory \<Rightarrow> u32 \<Rightarrow> memory" where
  "NaClPatchOneTrampoline env m target_addr =
     NaClApplyPatchToMemory m
       \<lparr>rel32 = [],
        abs32 = [\<lparr>target = kTrampolineCode env + NACL_TRAMP_CSEG_PATCH env - 6, patch_value = NaClSyscallSeg env\<rparr>,
                 \<lparr>target = kTrampolineCode env + NACL_TRAMP_DSEG_PATCH env - 4, patch_value = ucast (nacl_global_ds env)\<rparr>],
        abs16 = [\<lparr>target = kTrampolineCode env + NACL_TRAMP_CSEG_PATCH env - 2, patch_value = ucast (nacl_global_cs env)\<rparr>],
        dst = target_addr, src = kTrampolineCode env, nbytes_patch = tramp_size env\<rparr>"

definition NaClLoadTrampoline :: "load_env \<Rightarrow> NaClAppLoad \<Rightarrow> NaClAppLoad result" where
  "NaClLoadTrampoline env nap =
     bind_result (NaClFillTrampolineRegion nap) (\<lambda>nap.
       let num_syscalls = unat ((NACL_TRAMPOLINE_END - NACL_SYSCALL_START_ADDR) div NACL_SYSCALL_BLOCK_SIZE) - 1;
           base = mem_start (space nap) + NACL_SYSCALL_START_ADDR
       in Inr (nap\<lparr>image := foldl (\<lambda>m i. NaClPatchOneTrampoline env m (base + of_nat i * NACL_SYSCALL_BLOCK_SIZE))
                              (image nap) [0..<num_syscalls]\<rparr>))"

definition NaClLoadTlsHook :: "NaClAppLoad \<Rightarrow> NaClAppLoad" where
  "NaClLoadTlsHook nap = nap"

definition NaClLoadSpringboard :: "load_env \<Rightarrow> NaClAppLoad \<Rightarrow> NaClAppLoad" where
  "NaClLoadSpringboard env nap =
     (let addr = NACL_TRAMPOLINE_END - word_of_int (align_boundary nap)
      in nap\<lparr>image := NaClApplyPatchToMemory (image nap)
                        \<lparr>rel32 = [], abs32 = [], abs16 = [], dst = mem_start (space nap) + addr,
                         src = kSpringboardCode env, nbytes_patch = springboard_size env\<rparr>,
             springboard_addr := addr + NACL_HALT_LEN\<rparr>)"

section \<open>The headers\<close>

definition NaClProcessPhdrs :: "NaClAppLoad \<Rightarrow> NaClErrorCode \<times> NaClAppLoad" where
  "NaClProcessPhdrs nap =
     (let sp = space nap
      in case process_phdrs (addr_bits sp)
                \<lparr>seen_seg = replicate (length nacl_phdr_check_data) 0, max_vaddr = NACL_TRAMPOLINE_END,
                 text_bytes = text_region_bytes sp\<rparr> (phdrs nap) of (err, phps, s) \<Rightarrow>
           let nap = nap\<lparr>phdrs := phps, space := sp\<lparr>text_region_bytes := text_bytes s\<rparr>\<rparr>
           in if err \<noteq> LOAD_OK then (err, nap)
              else if \<not> required_seen (seen_seg s) then (LOAD_REQUIRED_SEG_MISSING, nap)
              else (LOAD_OK, nap\<lparr>space := (space nap)\<lparr>data_end := max_vaddr s, break_addr := max_vaddr s\<rparr>\<rparr>))"

definition NaClAddrIsValidEntryPt :: "NaClAppLoad \<Rightarrow> u32 \<Rightarrow> bool" where
  "NaClAddrIsValidEntryPt nap addr \<longleftrightarrow>
     addr AND (word_of_int (align_boundary nap) - 1) = 0 \<and>
     addr < NACL_TRAMPOLINE_END + text_region_bytes (space nap)"

text \<open>Program header number \<open>cur_ph\<close>, of the \<open>n\<close> that remain.\<close>

fun read_phdrs ::
    "'g gio_vtbl \<Rightarrow> Elf32_Ehdr \<Rightarrow> 'g \<Rightarrow> nat \<Rightarrow> nat \<Rightarrow> Elf32_Phdr list \<Rightarrow> NaClErrorCode \<times> 'g \<times> Elf32_Phdr list" where
  "read_phdrs vt hdr gp cur_ph 0 phps = (LOAD_OK, gp, phps)"
| "read_phdrs vt hdr gp cur_ph (Suc n) phps =
     (case Seek vt gp (e_phoff hdr + of_nat cur_ph * ucast (e_phentsize hdr)) of (r, gp) \<Rightarrow>
        if r = -1 then (LOAD_BAD_SECT, gp, phps)
        else case Read vt gp PHDR_SIZE of (r, bs, gp) \<Rightarrow>
          if r \<noteq> int PHDR_SIZE then (LOAD_BAD_SECT, gp, phps)
          else read_phdrs vt hdr gp (cur_ph + 1) n (phps @ [Phdr_of bs]))"

text \<open>The alignment of the code; \<open>None\<close> when both bits are set.\<close>

definition the_align_boundary :: "Elf32_Ehdr \<Rightarrow> int option" where
  "the_align_boundary hdr =
     (let eflags = e_flags hdr AND EF_NACL_ALIGN_MASK
      in if eflags = 0 then Some 32
         else if eflags = EF_NACL_ALIGN_16 then Some 16
         else if eflags = EF_NACL_ALIGN_32 then Some 32
         else None)"

text \<open>Up to the scan of the program headers.\<close>

definition load_headers ::
    "'g gio_vtbl \<Rightarrow> load_env \<Rightarrow> NaClAbiMismatchOption \<Rightarrow> 'g \<Rightarrow> NaClAppLoad \<Rightarrow> ('g \<times> NaClAppLoad) load_result" where
  "load_headers vt env abi gp nap =
     (if addr_bits (space nap) > NACL_MAX_ADDR_BITS then Inr (LOAD_ADDR_SPACE_TOO_BIG, gp, nap)
      else
        let nap = nap\<lparr>stack_size := NaClRoundAllocPage (stack_size nap)\<rparr>
        in case Read vt gp EHDR_SIZE of (r, bs, gp) \<Rightarrow>
          let hdr = Ehdr_of (overlay bs (Ehdr_bytes (elf_hdr nap)));
              nap = nap\<lparr>elf_hdr := hdr\<rparr>
          in if r \<noteq> int EHDR_SIZE then Inr (LOAD_READ_ERROR, gp, nap)
             else if NaClValidateElfHeader hdr abi \<noteq> LOAD_OK then Inr (NaClValidateElfHeader hdr abi, gp, nap)
             else
               let nap = nap\<lparr>entry_pt := e_entry hdr\<rparr>
               in case the_align_boundary hdr of
                    None \<Rightarrow> Inr (LOAD_BAD_ABI, gp, nap)
                  | Some b \<Rightarrow>
                      let nap = nap\<lparr>align_boundary := b\<rparr>
                      in if e_phnum hdr > NACL_MAX_PROGRAM_HEADERS then Inr (LOAD_TOO_MANY_SECT, gp, nap)
                         else if \<not> phdrs_ok env then Inr (LOAD_NO_MEMORY, gp, nap\<lparr>phdrs := []\<rparr>)
                         else if unat (e_phentsize hdr) < PHDR_SIZE then Inr (LOAD_BAD_SECT, gp, nap\<lparr>phdrs := []\<rparr>)
                         else case read_phdrs vt hdr gp 0 (unat (e_phnum hdr)) [] of (err, gp, phps) \<Rightarrow>
                           Inr (err, gp, nap\<lparr>phdrs := phps\<rparr>))"

section \<open>The whole load\<close>

text \<open>The validator numbers the bytes from the start of the text.\<close>

definition validate_image :: "load_env \<Rightarrow> NaClAppLoad \<Rightarrow> NaClAppLoad load_result" where
  "validate_image env nap =
     (let base = unat (mem_start (space nap) + NACL_TRAMPOLINE_END)
      in case NaClValidateImage (cpu_of env) (tables_of env) (g_ignore_validator_result env) (inited_of env)
             (mem_ok_of env) (mem_start (space nap)) (text_region_bytes (space nap)) (align_boundary nap)
             (\<lambda>i. image nap (base + i)) of
        None \<Rightarrow> Inl Diverges
      | Some r \<Rightarrow> bind_result r (\<lambda>(m, err).
          Inr (err, nap\<lparr>image := \<lambda>x. if x < base then image nap x else m (x - base)\<rparr>)))"

text \<open>From the entry point on, without the file.\<close>

definition install :: "load_env \<Rightarrow> NaClAppLoad \<Rightarrow> NaClAppLoad load_result" where
  "install env nap =
     and_then (validate_image env nap) (\<lambda>nap.
     bind_result (NaClLoadTrampoline env nap) (\<lambda>nap.
     NaClMemoryProtection (sys_of env) (NaClLoadSpringboard env (NaClLoadTlsHook nap))))"

definition NaClAppLoadFile ::
    "'g gio_vtbl \<Rightarrow> load_env \<Rightarrow> 'g \<Rightarrow> NaClAppLoad \<Rightarrow> NaClAbiMismatchOption \<Rightarrow> ('g \<times> NaClAppLoad) load_result" where
  "NaClAppLoadFile vt env gp nap abi_mismatch_option =
     and_then (load_headers vt env abi_mismatch_option gp nap) (\<lambda>(gp, nap).
       case NaClProcessPhdrs nap of (err, nap) \<Rightarrow>
       if err \<noteq> LOAD_OK then Inr (err, gp, nap)
       else if \<not> NaClAddrIsValidEntryPt nap (entry_pt nap) then Inr (LOAD_BAD_ENTRY, gp, nap)
       else case NaClAllocAddrSpace (sys_of env) nap of (err, nap) \<Rightarrow>
         if err \<noteq> LOAD_OK then Inr (err, gp, nap)
         else and_then (NaClLoadImage vt gp nap) (\<lambda>(gp, nap).
           bind_result (install env nap) (\<lambda>(err, nap). Inr (err, gp, nap))))"

end
