(* ===== verification/Sel_Elf_Props.thy ===== *)
theory Sel_Elf_Props
  imports Sel_Load
begin

text \<open>
  Headers written to bytes and read back are the same, and what the scan of the program headers
  establishes: every segment that will be loaded lies between the trampolines and the end of the
  address space, only the text is executable, and text and data end where the scan says.
\<close>

section \<open>Reading back a header\<close>

lemma half_at_append [simp]: "length xs \<le> i \<Longrightarrow> half_at (xs @ ys) i = half_at ys (i - length xs)"
  by (simp add: half_at_def nth_append Suc_diff_le)

lemma word_at_append [simp]: "length xs \<le> i \<Longrightarrow> word_at (xs @ ys) i = word_at ys (i - length xs)"
  by (simp add: word_at_def nth_append Suc_diff_le)

lemma half_at_bytes [simp]: "half_at (le16_bytes v) 0 = v" "half_at (le16_bytes v @ ys) 0 = v"
  using join16 [of v] by (simp_all add: half_at_def le16_bytes_def)

lemma word_at_bytes [simp]: "word_at (le32_bytes v) 0 = v" "word_at (le32_bytes v @ ys) 0 = v"
  using join32 [of v] by (simp_all add: word_at_def le32_bytes_def numeral_2_eq_2 numeral_3_eq_3)

lemma length_field_bytes [simp]: "length (le16_bytes v) = 2" "length (le32_bytes w) = 4"
  by (simp_all add: le16_bytes_def le32_bytes_def)

lemma Ehdr_of_bytes: "length (e_ident h) = 16 \<Longrightarrow> Ehdr_of (Ehdr_bytes h) = h"
  by (simp add: Ehdr_of_def Ehdr_bytes_def)

lemma Phdr_of_bytes: "Phdr_of (Phdr_bytes p) = p"
  by (simp add: Phdr_of_def Phdr_bytes_def)

section \<open>The scan of the program headers\<close>

text \<open>A loaded segment lies above the trampolines and inside the address space, and below
  \<open>top\<close>.\<close>

definition segment_ok :: "nat \<Rightarrow> u32 \<Rightarrow> Elf32_Phdr \<Rightarrow> bool" where
  "segment_ok bits limit p \<longleftrightarrow> NACL_TRAMPOLINE_END \<le> p_vaddr p \<and> p_filesz p \<le> p_memsz p \<and>
     unat (p_vaddr p) + unat (p_memsz p) < 2 ^ bits \<and> unat (p_vaddr p) + unat (p_memsz p) \<le> unat limit"

lemma check_bounds_ok:
  assumes "check_bounds bits c p = LOAD_OK" "bits < 32"
  shows "segment_ok bits (p_vaddr p + p_memsz p) p" "chk_vaddr c \<noteq> 0 \<Longrightarrow> p_vaddr p = chk_vaddr c"
proof -
  have c: "chk_vaddr c \<noteq> 0 \<longrightarrow> chk_vaddr c = p_vaddr p" "NACL_TRAMPOLINE_END \<le> p_vaddr p"
      "p_vaddr p \<le> p_vaddr p + p_memsz p" "p_vaddr p + p_memsz p < push_bit bits 1" "p_filesz p \<le> p_memsz p"
    using assms(1) by (auto simp: check_bounds_def split: if_splits)
  have "unat (p_vaddr p + p_memsz p) = unat (p_vaddr p) + unat (p_memsz p)"
    using c(3) by (simp add: unat_plus_simple)
  moreover have "unat (push_bit bits 1 :: u32) = 2 ^ bits"
    using assms(2) by (simp add: unat_exp32 push_bit_eq_mult)
  ultimately show "segment_ok bits (p_vaddr p + p_memsz p) p"
    using c by (simp add: segment_ok_def word_less_nat_alt)
  show "chk_vaddr c \<noteq> 0 \<Longrightarrow> p_vaddr p = chk_vaddr c" using c(1) by simp
qed

lemma find_check_Some:
  assumes "find_check php cs k = Some (j, c)"
  shows "k \<le> j \<and> j < k + length cs \<and> c = cs ! (j - k) \<and> p_type php = chk_type c \<and> p_flags php = chk_flags c"
  using assms
proof (induction cs arbitrary: k)
  case (Cons d cs)
  show ?case
  proof (cases "p_type php = chk_type d \<and> p_flags php = chk_flags d")
    case False
    have "find_check php cs (k + 1) = Some (j, c)"
      by (rule Cons.prems [unfolded find_check.simps if_not_P [OF False]])
    from Cons.IH [OF this] show ?thesis by (auto simp: nth_Cons' Suc_le_eq)
  qed (use Cons.prems in auto)
qed simp

text \<open>The rows of the table.\<close>

lemma check_rows:
  assumes "find_check php nacl_phdr_check_data 0 = Some (j, c)"
  shows "j < 5" "chk_action c = PCA_IGNORE \<longleftrightarrow> j = 0" "chk_action c = PCA_TEXT_CHECK \<longleftrightarrow> j = 1"
    "j = 1 \<Longrightarrow> chk_vaddr c = NACL_TRAMPOLINE_END" "p_flags php = chk_flags c" "chk_flags c AND PF_OS_WILL_LOAD = 0"
    "chk_flags c AND PF_X \<noteq> 0 \<longleftrightarrow> j = 1"
proof -
  have r: "j < 5" "c = nacl_phdr_check_data ! j" "p_flags php = chk_flags c"
    using find_check_Some [OF assms] by (simp_all add: nacl_phdr_check_data_def)
  then show "j < 5" "p_flags php = chk_flags c" by simp_all
  have "j \<in> {0, 1, 2, 3, 4}" using r(1) by auto
  then show "chk_action c = PCA_IGNORE \<longleftrightarrow> j = 0" "chk_action c = PCA_TEXT_CHECK \<longleftrightarrow> j = 1"
    "j = 1 \<Longrightarrow> chk_vaddr c = NACL_TRAMPOLINE_END" "chk_flags c AND PF_OS_WILL_LOAD = 0" "chk_flags c AND PF_X \<noteq> 0 \<longleftrightarrow> j = 1"
    unfolding r(2) by (auto simp: nacl_phdr_check_data_def PF_R_def PF_W_def PF_X_def PF_OS_WILL_LOAD_value)
qed

lemma no_os_flags: "(w AND NOT PF_MASKOS) AND PF_OS_WILL_LOAD = 0"
proof -
  have "NOT PF_MASKOS AND PF_OS_WILL_LOAD = (0 :: u32)" by (simp add: PF_MASKOS_def PF_OS_WILL_LOAD_value)
  then show ?thesis by (simp add: and.assoc)
qed

text \<open>What a scan has established: loaded segments are in their place, and when the text has been
  seen it is at its address with the recorded size, and it is the only executable segment.\<close>

definition scanned :: "nat \<Rightarrow> phdr_scan \<Rightarrow> Elf32_Phdr \<Rightarrow> bool" where
  "scanned bits s p \<longleftrightarrow> will_load p \<longrightarrow> segment_ok bits (max_vaddr s) p \<and>
     (p_flags p AND PF_X \<noteq> 0 \<longrightarrow> seen_seg s ! 1 \<noteq> 0 \<and> p_vaddr p = NACL_TRAMPOLINE_END \<and> p_filesz p = text_bytes s)"

definition scan_wf :: "nat \<Rightarrow> phdr_scan \<Rightarrow> bool" where
  "scan_wf bits s \<longleftrightarrow> length (seen_seg s) = 5 \<and> NACL_TRAMPOLINE_END \<le> max_vaddr s \<and> unat (max_vaddr s) < 2 ^ bits \<and>
     (seen_seg s ! 1 \<noteq> 0 \<longrightarrow> 131072 + unat (text_bytes s) \<le> unat (max_vaddr s))"

definition scan_le :: "phdr_scan \<Rightarrow> phdr_scan \<Rightarrow> bool" where
  "scan_le s s' \<longleftrightarrow> max_vaddr s \<le> max_vaddr s' \<and>
     (seen_seg s ! 1 \<noteq> 0 \<longrightarrow> seen_seg s' ! 1 \<noteq> 0 \<and> text_bytes s' = text_bytes s)"

lemma scan_le_refl: "scan_le s s"
  by (simp add: scan_le_def)

lemma scan_le_trans: "scan_le a b \<Longrightarrow> scan_le b c \<Longrightarrow> scan_le a c"
  by (auto simp: scan_le_def)

lemma scanned_mono: "scanned bits s p \<Longrightarrow> scan_le s s' \<Longrightarrow> scanned bits s' p"
  by (auto simp: scanned_def scan_le_def segment_ok_def word_le_nat_alt)

lemma process_phdr_ok:
  assumes ok: "process_phdr bits s php = (LOAD_OK, php', s')" and wf: "scan_wf bits s" and bits: "bits < 32"
  shows "scan_wf bits s' \<and> scan_le s s' \<and> scanned bits s' php'"
proof (cases "find_check (php\<lparr>p_flags := p_flags php AND NOT PF_MASKOS\<rparr>) nacl_phdr_check_data 0")
  case None
  then have "php' = php\<lparr>p_flags := p_flags php AND NOT PF_MASKOS\<rparr>" "s' = s"
    using ok by (auto simp: process_phdr_def Let_def split: if_splits)
  then show ?thesis using wf no_os_flags by (simp add: scan_le_refl scanned_def will_load_def)
next
  case (Some jc)
  obtain j c where jc: "jc = (j, c)" by (cases jc)
  let ?p = "php\<lparr>p_flags := p_flags php AND NOT PF_MASKOS\<rparr>"
  note row = check_rows [OF Some [unfolded jc]]
  have new: "seen_seg s ! j = 0" using ok Some jc by (auto simp: process_phdr_def Let_def split: if_splits)
  let ?s1 = "s\<lparr>seen_seg := (seen_seg s)[j := 1]\<rparr>"
  have len: "length (seen_seg s) = 5" using wf by (simp add: scan_wf_def)
  show ?thesis
  proof (cases "j = 0 \<or> p_memsz php = 0")
    case True
    then have "s' = ?s1" "php' = ?p" "j \<noteq> 1"
      using ok Some jc new row(2,3) by (auto simp: process_phdr_def Let_def split: if_splits)
    moreover from this have "\<not> will_load php'" using row(5,6) by (simp add: will_load_def)
    ultimately show ?thesis using wf by (simp add: scan_wf_def scan_le_def scanned_def)
  next
    case False
    then have cb: "check_bounds bits c ?p = LOAD_OK"
      using ok Some jc new row(2) by (auto simp: process_phdr_def Let_def split: if_splits)
    note seg = check_bounds_ok [OF cb bits]
    let ?top = "p_vaddr php + p_memsz php"
    let ?s2 = "if max_vaddr s < ?top then ?s1\<lparr>max_vaddr := ?top\<rparr> else ?s1"
    have res: "php' = ?p\<lparr>p_flags := p_flags ?p OR PF_OS_WILL_LOAD\<rparr>"
        "s' = (if j = 1 then ?s2\<lparr>text_bytes := p_filesz php\<rparr> else ?s2)"
      using ok Some jc new False cb row(2,3) by (auto simp: process_phdr_def Let_def split: if_splits)
    have e: "unat ?top = unat (p_vaddr php) + unat (p_memsz php)" "unat ?top < 2 ^ bits"
      using seg(1) bits power_strict_increasing [of bits 32 "2 :: nat"] by (simp_all add: segment_ok_def unat_plus_u32)
    have top: "?top \<le> max_vaddr s'" "max_vaddr s \<le> max_vaddr s'" "max_vaddr s' = max_vaddr s \<or> max_vaddr s' = ?top"
      unfolding res by auto
    have seen: "seen_seg s' = (seen_seg s)[j := 1]" unfolding res by simp
    have flags: "p_flags php' AND PF_X \<noteq> 0 \<longleftrightarrow> j = 1"
    proof -
      have "PF_OS_WILL_LOAD AND PF_X = 0" by (simp add: PF_OS_WILL_LOAD_value PF_X_def)
      then have "p_flags php' AND PF_X = chk_flags c AND PF_X"
        unfolding res using row(5) by (simp add: bit.conj_disj_distrib2)
      then show ?thesis using row(7) by simp
    qed
    have same: "segment_ok bits (max_vaddr s') php'"
      using seg(1) top(1) e(1) by (simp add: segment_ok_def res(1) word_le_nat_alt)
    show ?thesis
    proof (cases "j = 1")
      case True
      have v: "p_vaddr php = NACL_TRAMPOLINE_END" "text_bytes s' = p_filesz php"
        using seg(2) row(4) True by (simp_all add: NACL_TRAMPOLINE_END_def res)
      have "131072 + unat (p_filesz php) \<le> unat ?top"
        using seg(1) v(1) e(1) by (simp add: segment_ok_def word_le_nat_alt NACL_TRAMPOLINE_END_def)
      then have "131072 + unat (text_bytes s') \<le> unat (max_vaddr s')"
        using top(1) v(2) by (simp add: word_le_nat_alt)
      then show ?thesis
        using wf top e(2) same v seen len new True
        by (auto simp: scan_wf_def scan_le_def scanned_def res(1))
    next
      case False
      then have t: "text_bytes s' = text_bytes s" unfolding res by simp
      then show ?thesis
        using wf top e(2) same seen len flags False
        by (auto simp: scan_wf_def scan_le_def scanned_def word_le_nat_alt)
    qed
  qed
qed

lemma process_phdrs_ok:
  assumes "process_phdrs bits s phps = (LOAD_OK, phps', s')" "scan_wf bits s" "bits < 32"
  shows "scan_wf bits s' \<and> scan_le s s' \<and> (\<forall>p \<in> set phps'. scanned bits s' p)"
  using assms(1,2)
proof (induction phps arbitrary: s phps')
  case (Cons php phps)
  obtain err q s1 where one: "process_phdr bits s php = (err, q, s1)" by (cases "process_phdr bits s php")
  then have ok: "err = LOAD_OK" using Cons.prems(1) by (auto split: if_splits)
  obtain qs where rest: "process_phdrs bits s1 phps = (LOAD_OK, qs, s')" "phps' = q # qs"
    using Cons.prems(1) one ok by (auto split: prod.splits)
  have first: "scan_wf bits s1" "scan_le s s1" "scanned bits s1 q"
    using process_phdr_ok [OF one [unfolded ok] Cons.prems(2) assms(3)] by blast+
  show ?case
    using Cons.IH [OF rest(1) first(1)] first scan_le_trans scanned_mono rest(2) by auto
qed (use assms scan_le_refl in auto)

end
