(* ===== verification/Sys_Mmap_Safe.thy ===== *)
theory Sys_Mmap_Safe
  imports Sys_Mmap
begin

text \<open>
  What \<open>mmap\<close> and \<open>munmap\<close> do to the address space, whatever the host answers: every call to
  the host and every change of the memory map stays between the end of the text and the end
  of the address space, nothing becomes executable, the memory map stays well formed and
  every reference count exact.
\<close>

section \<open>Pages\<close>

lemma unat_page: "unat (drop_bit NACL_PAGESHIFT w) = unat w div 4096" for w :: u32
proof -
  have "unat (drop_bit NACL_PAGESHIFT w) = drop_bit 12 (unat w)"
    unfolding NACL_PAGESHIFT_def by (rule unat_drop_bit_eq)
  then show ?thesis by (simp add: drop_bit_eq_div)
qed

lemma pages_iff:
  assumes "a mod 4096 = 0" "b mod 4096 = 0"
  shows "a div 4096 \<le> q \<and> q < a div 4096 + b div 4096 \<longleftrightarrow> in_pages a (a + b) q"
  using assms by (auto simp: in_pages_def mod_eq_0_iff_dvd elim!: dvdE)

lemma exec_bits: "word_of_int (sint pr) = pr" for pr :: u32
  by simp

section \<open>Recording a mapping\<close>

lemma make_object:
  assumes inv: "space_inv out nap" and few: "few out nap" and ok: "ok 5"
    and live: "\<And>p. bdesc = Some p \<Longrightarrow> 0 < out p"
  shows "\<exists>o1 h. (if bdesc \<noteq> None \<and> False then Inl LogFatal
        else if bdesc = None then Inr (None, refs (tables nap))
        else NaClMemObjMake (ok 5) (refs (tables nap)) bdesc bb off) = Inr (o1, h) \<and>
      space_inv (take_ref bdesc out) (nap\<lparr>tables := (tables nap)\<lparr>refs := h\<rparr>\<rparr>) \<and> map_option ndp o1 = bdesc"
proof (cases bdesc)
  case None
  then show ?thesis using inv by (simp add: take_ref_def)
next
  case (Some p)
  let ?tot = "\<lambda>p. map_refs nap p + (table_refs nap p + out p)"
  have "?tot p < 4294967295" "0 < ?tot p"
    using map_refs_le [OF inv, of p] few live [OF Some] by (auto simp: few_def page_limit_def dest: spec [of _ p])
  then obtain h where h: "NaClDescRef (refs (tables nap)) p = Inr h" "refs_ok (?tot(p := Suc (?tot p))) h"
    using NaClDescRef_ok [OF space_inv_total [OF inv], of p] by auto
  have "?tot(p := Suc (?tot p)) = (\<lambda>q. map_refs nap q + (table_refs nap q + take_ref bdesc out q))"
    using Some by (auto simp: take_ref_def fun_eq_iff)
  then have "space_inv (take_ref bdesc out) (nap\<lparr>tables := (tables nap)\<lparr>refs := h\<rparr>\<rparr>)"
    using space_inv_refs [OF inv] h(2) by simp
  then show ?thesis using Some h(1) ok by (simp add: NaClMemObjMake_def NaClMemObjCtor_def)
qed

lemma UpdateAddrMap_step:
  assumes inv: "space_inv out nap" and few: "few out nap" and ok: "\<And>k. ok k"
    and u: "unat u mod 4096 = 0" "unat n mod 4096 = 0" "0 < unat n" "unat u + unat n \<le> 2 ^ addr_bits nap"
    and live: "\<And>p. bdesc = Some p \<Longrightarrow> 0 < out p" and pr: "no_exec pr"
  shows "\<exists>nap'. NaClCommonUtilUpdateAddrMap ok nap (u + mem_start nap) n pr bdesc bb off False = Inr nap' \<and>
    space_inv out nap' \<and> confined_step (unat u) (unat u + unat n) nap nap' \<and>
    (\<forall>q. in_pages (unat u) (unat u + unat n) q \<longrightarrow> (\<exists>b. vm_view (vmap nap') q = Some (sint pr, b)))"
proof -
  have g: "geometry nap" using inv by (simp add: space_inv_def)
  have user: "NaClSysToUser nap (u + mem_start nap) = Inr u" using NaClSysToUser_ok [OF g] u by simp
  let ?mk = "if bdesc \<noteq> None \<and> False then Inl LogFatal
        else if bdesc = None then Inr (None, refs (tables nap))
        else NaClMemObjMake (ok 5) (refs (tables nap)) bdesc bb off"
  have "\<exists>o1 h. ?mk = Inr (o1, h) \<and>
      space_inv (take_ref bdesc out) (nap\<lparr>tables := (tables nap)\<lparr>refs := h\<rparr>\<rparr>) \<and> map_option ndp o1 = bdesc"
    by (rule make_object [OF inv few ok live])
  then obtain o1 h where o1: "?mk = Inr (o1, h)"
      "space_inv (take_ref bdesc out) (nap\<lparr>tables := (tables nap)\<lparr>refs := h\<rparr>\<rparr>)" "map_option ndp o1 = bdesc"
    by (elim exE conjE)
  let ?nap1 = "nap\<lparr>tables := (tables nap)\<lparr>refs := h\<rparr>\<rparr>" and ?ext = "\<lambda>p. table_refs nap p + take_ref bdesc out p"
  have vm1: "vmap ?nap1 = (mem_map nap)\<lparr>desc_refs := h\<rparr>" by (simp add: vmap_def)
  have t1: "table_refs ?nap1 = table_refs nap" by (simp add: table_refs_def)
  have inv1: "vm_inv ?ext ((mem_map nap)\<lparr>desc_refs := h\<rparr>)" using o1(2) by (simp add: space_inv_def vm1 t1)
  have lim: "held (mset (ents ((mem_map nap)\<lparr>desc_refs := h\<rparr>) (nvalid ((mem_map nap)\<lparr>desc_refs := h\<rparr>)))) p + ?ext p < 4294967295" for p
    using map_refs_le [OF inv, of p] few
    by (auto simp: few_def page_limit_def map_refs_def ents_def take_ref_def split: option.splits dest!: spec [of _ p])
  have size: "2 ^ addr_bits nap \<le> (4294967296 :: nat)"
    using g power_increasing [of "addr_bits nap" 32 "2 :: nat"] by (simp add: geometry_def)
  have reg: "0 < unat (drop_bit NACL_PAGESHIFT n)"
      "unat (drop_bit NACL_PAGESHIFT u) + unat (drop_bit NACL_PAGESHIFT n) \<le> page_limit"
    using u size by (auto simp: unat_page page_limit_def mod_eq_0_iff_dvd elim!: dvdE)
  have own: "0 < ?ext (ndp x)" if "o1 = Some x" for x
    using o1(3) that live by (auto simp: take_ref_def)
  obtain m' where m': "NaClVmmapUpdate ok ((mem_map nap)\<lparr>desc_refs := h\<rparr>) (drop_bit NACL_PAGESHIFT u)
        (drop_bit NACL_PAGESHIFT n) (sint pr) o1 False = Inr m'"
      "vm_inv (hand_over o1 ?ext) m'"
      "\<And>q. vm_view m' q = (if in_pages (unat u) (unat u + unat n) q
        then Some (sint pr, map_option (\<lambda>x. (ndp x, offset x + of_nat ((q - unat (drop_bit NACL_PAGESHIFT u)) * 4096))) o1)
        else vm_view ((mem_map nap)\<lparr>desc_refs := h\<rparr>) q)"
    using update_view [where ok = ok and ?o1.0 = o1 and remove = False and pr = "sint pr", OF inv1 reg ok lim own]
    unfolding unat_page pages_iff [OF u(1,2)] by auto
  have "hand_over o1 ?ext = (\<lambda>p. table_refs nap p + out p)"
    using o1(3) by (auto simp: hand_over_def take_ref_def fun_eq_iff split: option.splits)
  with m'(2) have "space_inv out (put_vmap nap m')" using space_inv_put [OF inv] by simp
  moreover have "vm_view ((mem_map nap)\<lparr>desc_refs := h\<rparr>) = vm_view (vmap nap)"
    by (simp add: vm_view_def [abs_def] ents_def vmap_def)
  then have "remapped (unat u) (unat u + unat n) nap (put_vmap nap m')"
    using m'(3) pr by (simp add: remapped_def)
  then have "confined_step (unat u) (unat u + unat n) nap (put_vmap nap m')"
    by (simp add: confined_step_def logged_def only_maps_put)
  moreover have "NaClCommonUtilUpdateAddrMap ok nap (u + mem_start nap) n pr bdesc bb off False = Inr (put_vmap nap m')"
    using o1(1) m'(1) unfolding NaClCommonUtilUpdateAddrMap_def user by simp
  ultimately show ?thesis using m'(3) by auto
qed

section \<open>Outcomes of a step\<close>

text \<open>A step either aborts the process or ends in a good state that it reached by confined
  changes.\<close>

definition good_step :: "(nat \<Rightarrow> nat) \<Rightarrow> nat \<Rightarrow> nat \<Rightarrow> NaClAppSpace \<Rightarrow> NaClAppSpace \<Rightarrow> bool" where
  "good_step out lo hi nap nap' \<longleftrightarrow> space_inv out nap' \<and> confined_step lo hi nap nap'"

definition goes1 :: "(nat \<Rightarrow> nat) \<Rightarrow> nat \<Rightarrow> nat \<Rightarrow> NaClAppSpace \<Rightarrow> NaClAppSpace result \<Rightarrow> bool" where
  "goes1 out lo hi nap r \<longleftrightarrow> (case r of Inl f \<Rightarrow> f = LogFatal | Inr nap' \<Rightarrow> good_step out lo hi nap nap')"

definition goes :: "(nat \<Rightarrow> nat) \<Rightarrow> nat \<Rightarrow> nat \<Rightarrow> NaClAppSpace \<Rightarrow> ('a \<times> NaClAppSpace) result \<Rightarrow> bool" where
  "goes out lo hi nap r \<longleftrightarrow> (case r of Inl f \<Rightarrow> f = LogFatal | Inr (a, nap') \<Rightarrow> good_step out lo hi nap nap')"

lemma goes_simps [simp]:
  "goes1 out lo hi nap (Inl f) \<longleftrightarrow> f = LogFatal" "goes1 out lo hi nap (Inr nap') \<longleftrightarrow> good_step out lo hi nap nap'"
  "goes out lo hi nap (Inl f) \<longleftrightarrow> f = LogFatal" "goes out lo hi nap (Inr (a, nap')) \<longleftrightarrow> good_step out lo hi nap nap'"
  by (simp_all add: goes1_def goes_def)

lemma goes1_bind:
  assumes "goes1 out lo hi nap r" "\<And>nap'. r = Inr nap' \<Longrightarrow> good_step out lo hi nap nap' \<Longrightarrow> goes out lo hi nap (f nap')"
  shows "goes out lo hi nap (bind_result r f)"
  using assms by (cases r) auto

lemma goes_bind:
  assumes "goes out lo hi nap r"
    "\<And>a nap'. r = Inr (a, nap') \<Longrightarrow> good_step out lo hi nap nap' \<Longrightarrow> goes out lo hi nap (f (a, nap'))"
  shows "goes out lo hi nap (bind_result r f)"
  using assms by (cases r) auto

lemma goes_bind1:
  assumes "goes out lo hi nap r"
    "\<And>a nap'. r = Inr (a, nap') \<Longrightarrow> good_step out lo hi nap nap' \<Longrightarrow> goes1 out lo hi nap (f (a, nap'))"
  shows "goes1 out lo hi nap (bind_result r f)"
  using assms by (cases r) auto

lemma good_step_trans: "good_step out lo hi a b \<Longrightarrow> good_step out lo hi b c \<Longrightarrow> good_step out lo hi a c"
  unfolding good_step_def using confined_step_trans by blast

lemma good_step_mono: "good_step out lo hi a b \<Longrightarrow> lo' \<le> lo \<Longrightarrow> hi \<le> hi' \<Longrightarrow> good_step out lo' hi' a b"
  unfolding good_step_def using confined_step_mono by blast

lemma goes1_after: "good_step out lo hi a b \<Longrightarrow> goes1 out lo hi b r \<Longrightarrow> goes1 out lo hi a r"
  using good_step_trans by (auto simp: goes1_def split: sum.splits)

lemma goes_after: "good_step out lo hi a b \<Longrightarrow> goes out lo hi b r \<Longrightarrow> goes out lo hi a r"
  using good_step_trans by (auto simp: goes_def split: sum.splits prod.splits)

lemma good_step_few:
  assumes "good_step out lo hi nap nap'"
  shows "few out nap' = few out nap" "geometry nap' = geometry nap" "addr_bits nap' = addr_bits nap"
    "mem_start nap' = mem_start nap" "space_inv out nap'"
  using assms only_maps_same [of nap nap'] by (auto simp: good_step_def confined_step_def few_def)

lemma space_inv_log: "space_inv out (nap\<lparr>host_log := l\<rparr>) \<longleftrightarrow> space_inv out nap"
  by (simp add: space_inv_def geometry_def map_refs_def table_refs_def vmap_def [abs_def])

lemma good_step_log:
  assumes "space_inv out nap" "\<forall>op \<in> set ops. confined (unat (mem_start nap) + lo) (unat (mem_start nap) + hi) op"
  shows "good_step out lo hi nap (nap\<lparr>host_log := host_log nap @ ops\<rparr>)"
  unfolding good_step_def using confined_step_log [OF assms(2)] assms(1) by (simp add: space_inv_log)

section \<open>The parts of mmap\<close>

text \<open>A region \<open>[u, u + n)\<close> of whole pages of the application.\<close>

definition region :: "NaClAppSpace \<Rightarrow> u32 \<Rightarrow> u32 \<Rightarrow> bool" where
  "region nap u n \<longleftrightarrow> unat u mod 4096 = 0 \<and> unat n mod 4096 = 0 \<and> 0 < unat n \<and>
     unat u + unat n \<le> 2 ^ addr_bits nap"

lemma update_map_goes:
  assumes inv: "space_inv out nap" and few: "few out nap" and ok: "\<And>k. ok_of env k"
    and reg: "region nap u n" and live: "\<And>p. bdesc = Some p \<Longrightarrow> 0 < out p" and pr: "no_exec pr"
  shows "goes1 out (unat u) (unat u + unat n) nap (update_map env nap (u + mem_start nap) n pr bdesc bb off)"
proof -
  obtain nap' where "NaClCommonUtilUpdateAddrMap (ok_of env) nap (u + mem_start nap) n pr bdesc bb off False = Inr nap'"
      "space_inv out nap'" "confined_step (unat u) (unat u + unat n) nap nap'"
    using UpdateAddrMap_step [where ok = "ok_of env" and u = u and n = n and bb = bb and off = off, OF inv few ok _ _ _ _ live pr]
      reg unfolding region_def by auto
  then show ?thesis by (simp add: update_map_def good_step_def)
qed

lemma region_sys:
  assumes g: "geometry nap" and reg: "region nap u n"
  shows "unat (u + mem_start nap) = unat (mem_start nap) + unat u"
  using unat_sys [OF g, of u] reg by (simp add: region_def)

context mapper
begin

text \<open>Any \<open>Map\<close> method that keeps the contract.\<close>

lemma map_segment_goes:
  assumes inv: "space_inv out nap" and few: "few out nap" and ok: "\<And>k. ok_of env k"
    and reg: "region nap u n" and hi: "unat u + units (unat n) \<le> 2 ^ addr_bits nap"
    and live: "\<And>p. desc = Some p \<Longrightarrow> 0 < out p" and pr: "no_exec pr"
  shows "goes1 out (unat u) (unat u + units (unat n)) nap
    (map_segment env Map nap desc (u + mem_start nap) n pr fl file_size off)"
proof -
  have g: "geometry nap" using inv by (simp add: space_inv_def)
  have su: "unat (u + mem_start nap) = unat (mem_start nap) + unat u" by (rule region_sys [OF g reg])
  have "unat (u + mem_start nap) + units (unat n) < 4294967296" using su hi g by (simp add: geometry_def)
  then show ?thesis
  proof (cases rule: cases [where fl = fl and pr = pr and off = off and log = "host_log nap"])
    case 1
    then show ?thesis by (simp add: map_segment_def)
  next
    case (2 r ops)
    let ?nap = "nap\<lparr>host_log := host_log nap @ ops\<rparr>"
    have step: "good_step out (unat u) (unat u + units (unat n)) nap ?nap"
      by (rule good_step_log [OF inv]) (use 2(2) su in \<open>simp add: add.assoc\<close>)
    note now = good_step_few [OF step]
    have upd: "goes1 out (unat u) (unat u + units (unat n)) nap (update_map env ?nap (u + mem_start nap) n p bdesc bb off)"
      if "no_exec p" "\<And>q. bdesc = Some q \<Longrightarrow> 0 < out q" for p bdesc bb
    proof -
      have "region ?nap u n" using reg by (simp add: region_def)
      moreover have "few out ?nap" using now few by simp
      ultimately have "goes1 out (unat u) (unat u + unat n) ?nap (update_map env ?nap (u + mem_start ?nap) n p bdesc bb off)"
        using update_map_goes [OF now(5) _ ok _ that(2) that(1)] by simp
      then have "goes1 out (unat u) (unat u + units (unat n)) ?nap (update_map env ?nap (u + mem_start nap) n p bdesc bb off)"
        using good_step_mono [of out "unat u" "unat u + unat n"] units_le [of "unat n"]
        by (simp add: goes1_def split: sum.splits)
      then show ?thesis by (rule goes1_after [OF step])
    qed
    have "goes1 out (unat u) (unat u + units (unat n)) nap (update_map env ?nap (u + mem_start nap) n 0 None file_size off)"
      by (rule upd) (simp_all add: no_exec_def)
    moreover have "goes1 out (unat u) (unat u + units (unat n)) nap
        (update_map env ?nap (u + mem_start nap) n (NaClProtMap pr) desc file_size off)"
      by (rule upd) (use live NaClProtMap_no_exec [OF pr] in simp_all)
    ultimately show ?thesis
      using 2(1) by (auto simp: map_segment_def Let_def)
  qed
qed

end

lemma the_Map_mapper: "mapper (the_Map env desc)"
  by (cases desc) (simp_all add: the_Map_def io.mapper_axioms any.mapper_axioms)

text \<open>Zero-filled and inaccessible pages.\<close>

lemma map_anonymous_goes:
  assumes inv: "space_inv out nap" and reg: "region nap u n"
  shows "goes out (unat u) (unat u + unat n) nap (map_anonymous env nap (u + mem_start nap) n pr)"
proof -
  have g: "geometry nap" using inv by (simp add: space_inv_def)
  note su = region_sys [OF g reg]
  have "good_step out (unat u) (unat u + unat n) nap (nap\<lparr>host_log := host_log nap @ [op]\<rparr>)"
    if "confined (unat (u + mem_start nap)) (unat (u + mem_start nap) + unat n) op" for op
    by (rule good_step_log [OF inv]) (use that su in \<open>simp add: add.assoc\<close>)
  then show ?thesis
    using NaClHostDescMap_outcomes [of "host_of env" None "u + mem_start nap" n pr
        "NACL_ABI_MAP_ANONYMOUS OR NACL_ABI_MAP_PRIVATE" 0 "host_log nap"]
    by (auto simp: map_anonymous_def)
qed

lemma map_zero_fill_goes:
  assumes inv: "space_inv out nap" and few: "few out nap" and ok: "\<And>k. ok_of env k"
    and reg: "region nap u n" and pr: "no_exec pr"
  shows "goes out (unat u) (unat u + unat n) nap (map_zero_fill env nap (u + mem_start nap) n pr)"
  unfolding map_zero_fill_def
proof (rule goes_bind [OF map_anonymous_goes [OF inv reg]], simp split del: if_split)
  fix r :: u32 and nap'
  assume step: "good_step out (unat u) (unat u + unat n) nap nap'"
  note now = good_step_few [OF step]
  have "goes1 out (unat u) (unat u + unat n) nap' (update_map env nap' (u + mem_start nap) n (NaClProtMap pr) None 0 0)"
    using update_map_goes [OF now(5) _ ok _ _ NaClProtMap_no_exec [OF pr], of u n None] few reg now(2-4)
    by (simp add: now(1) region_def)
  then have "goes1 out (unat u) (unat u + unat n) nap (update_map env nap' (u + mem_start nap) n (NaClProtMap pr) None 0 0)"
    by (rule goes1_after [OF step])
  then show "goes out (unat u) (unat u + unat n) nap
      (if NaClIsNegErrno r then Inr (Some r, nap')
       else bind_result (update_map env nap' (u + mem_start nap) n (NaClProtMap pr) None 0 0) (\<lambda>nap. Inr (None, nap)))"
    using step by (simp add: goes1_bind)
qed

lemma map_inaccessible_goes:
  assumes inv: "space_inv out nap" and few: "few out nap" and ok: "\<And>k. ok_of env k" and reg: "region nap u n"
  shows "goes1 out (unat u) (unat u + unat n) nap (map_inaccessible env nap (u + mem_start nap) n)"
  unfolding map_inaccessible_def
proof (rule goes_bind1 [OF map_anonymous_goes [OF inv reg]], simp)
  fix nap'
  assume step: "good_step out (unat u) (unat u + unat n) nap nap'"
  note now = good_step_few [OF step]
  have "goes1 out (unat u) (unat u + unat n) nap' (update_map env nap' (u + mem_start nap) n 0 None 0 0)"
    using update_map_goes [OF now(5) _ ok _ _ , of u n None 0] few reg now(2-4)
    by (simp add: now(1) region_def no_exec_def)
  then show "goes1 out (unat u) (unat u + unat n) nap (update_map env nap' (u + mem_start nap) n 0 None 0 0)"
    by (rule goes1_after [OF step])
qed

text \<open>The three parts of a mapping: \<open>[0, length)\<close>, \<open>[length, start_of_inaccessible)\<close> and the
  rest of the region.\<close>

lemma goes_mono: "goes out lo hi nap r \<Longrightarrow> lo' \<le> lo \<Longrightarrow> hi \<le> hi' \<Longrightarrow> goes out lo' hi' nap r"
  using good_step_mono by (auto simp: goes_def split: sum.splits prod.splits)

lemma goes1_mono: "goes1 out lo hi nap r \<Longrightarrow> lo' \<le> lo \<Longrightarrow> hi \<le> hi' \<Longrightarrow> goes1 out lo' hi' nap r"
  using good_step_mono by (auto simp: goes1_def split: sum.splits)

lemma units_within: "n \<le> m \<Longrightarrow> m mod 65536 = 0 \<Longrightarrow> units n \<le> m"
  by (auto simp: units_def mod_eq_0_iff_dvd elim!: dvdE)

lemma region_part:
  assumes "geometry nap" "region nap u m" "unat a mod 4096 = 0" "a < b" "b \<le> m" "unat b mod 4096 = 0"
  shows "region nap (u + a) (b - a)" "unat (u + a) = unat u + unat a" "unat (b - a) = unat b - unat a"
proof -
  have le: "unat a < unat b" "unat b \<le> unat m" using assms by (simp_all add: word_less_nat_alt word_le_nat_alt)
  have m: "unat u + unat m \<le> 2 ^ addr_bits nap" "unat u mod 4096 = 0" using assms(2) by (simp_all add: region_def)
  show b: "unat (b - a) = unat b - unat a" using assms(4) by (simp add: unat_sub)
  have "(unat b - unat a) mod 4096 = 0" "(unat u + unat a) mod 4096 = 0"
    using assms(3,6) m(2) le by (auto simp: mod_eq_0_iff_dvd)
  moreover
  show ua: "unat (u + a) = unat u + unat a"
    using assms(1) m(1) le by (simp add: geometry_def unat_plus_u32)
  ultimately show "region nap (u + a) (b - a)"
    using m le by (simp add: region_def b)
qed

lemma goes_part:
  assumes step: "good_step out (unat u) (unat u + unat m) nap nap'"
    and g: "geometry nap" and few: "few out nap" and reg: "region nap u m"
    and ab: "unat a mod 4096 = 0" "a < b" "b \<le> m" "unat b mod 4096 = 0"
    and f: "region nap' (u + a) (b - a) \<Longrightarrow> space_inv out nap' \<Longrightarrow> few out nap' \<Longrightarrow>
      goes out (unat (u + a)) (unat (u + a) + unat (b - a)) nap' r"
  shows "goes out (unat u) (unat u + unat m) nap r"
proof -
  note now = good_step_few [OF step]
  have g': "geometry nap'" and reg': "region nap' u m" using g reg by (simp_all add: now region_def)
  note p = region_part [OF g' reg' ab]
  have "unat (b - a) + unat a \<le> unat m" using p(3) ab by (simp add: word_le_nat_alt word_less_nat_alt)
  then have "goes out (unat u) (unat u + unat m) nap' r"
    using goes_mono [OF f [OF p(1) now(5)]] few p(2) by (simp add: now)
  then show ?thesis by (rule goes_after [OF step])
qed

text \<open>Each part, after steps inside the region.\<close>

lemma mmap_backed_goes:
  assumes inv: "space_inv out nap" and few: "few out nap" and ok: "\<And>k. ok_of env k"
    and reg: "region nap u m" and unit: "unat m mod 65536 = 0"
    and len: "len \<le> m" "unat len mod 4096 = 0"
    and live: "\<And>p. desc = Some p \<Longrightarrow> 0 < out p" and pr: "no_exec pr"
  shows "goes1 out (unat u) (unat u + unat m) nap
    (if len > 0 then map_segment env (the_Map env desc) nap desc (u + mem_start nap) len pr fl fs off else Inr nap)"
proof (cases "len > 0")
  case True
  have "units (unat len) \<le> unat m"
    using units_within [OF _ unit] len(1) by (simp add: word_le_nat_alt)
  moreover have "region nap u len"
    using reg len True by (simp add: region_def word_le_nat_alt word_less_nat_alt)
  ultimately show ?thesis
    using goes1_mono [OF mapper.map_segment_goes [OF the_Map_mapper inv few ok _ _ live pr, of u len]] True reg
    by (simp add: region_def)
qed (simp add: good_step_def inv)

lemma mmap_zero_goes:
  assumes step: "good_step out (unat u) (unat u + unat m) nap nap'" and g: "geometry nap" and few: "few out nap"
    and ok: "\<And>k. ok_of env k" and reg: "region nap u m" and len: "unat len mod 4096 = 0"
    and start: "start \<le> m" "unat start mod 4096 = 0" and pr: "no_exec pr"
  shows "goes out (unat u) (unat u + unat m) nap
    (if len < start then map_zero_fill env nap' (u + mem_start nap + len) (start - len) pr else Inr (None, nap'))"
    (is "goes out (unat u) (unat u + unat m) nap (?zero nap')")
proof (cases "len < start")
  case True
  note now = good_step_few [OF step]
  have eq: "u + mem_start nap + len = u + len + mem_start nap'" by (simp add: now)
  show ?thesis
  proof (rule goes_part [OF step g few reg len True start])
    assume "region nap' (u + len) (start - len)" "space_inv out nap'" "few out nap'"
    from map_zero_fill_goes [OF this(2,3) ok this(1) pr] True
    show "goes out (unat (u + len)) (unat (u + len) + unat (start - len)) nap' (?zero nap')"
      unfolding eq by simp
  qed
qed (use step in simp)

lemma mmap_rest_goes:
  assumes step: "good_step out (unat u) (unat u + unat m) nap nap'" and g: "geometry nap" and few: "few out nap"
    and ok: "\<And>k. ok_of env k" and reg: "region nap u m" and start: "unat start mod 4096 = 0"
  shows "goes out (unat u) (unat u + unat m) nap (bind_result (if start < m
        then map_inaccessible env nap' (u + mem_start nap + start) (m - start)
        else Inr nap') (\<lambda>nap. Inr (u, nap)))" (is "goes out (unat u) (unat u + unat m) nap (?inacc nap')")
proof (cases "start < m")
  case True
  note now = good_step_few [OF step]
  have eq: "u + mem_start nap + start = u + start + mem_start nap'" by (simp add: now)
  show ?thesis
  proof (rule goes_part [OF step g few reg start True order.refl])
    show "unat m mod 4096 = 0" using reg by (simp add: region_def)
    assume "region nap' (u + start) (m - start)" "space_inv out nap'" "few out nap'"
    from map_inaccessible_goes [OF this(2,3) ok this(1)] True
    show "goes out (unat (u + start)) (unat (u + start) + unat (m - start)) nap' (?inacc nap')"
      unfolding eq by (auto simp: goes1_def goes_def split: sum.splits)
  qed
qed (use step in simp)

lemma mmap_map_goes:
  assumes inv: "space_inv out nap" and few: "few out nap" and ok: "\<And>k. ok_of env k"
    and reg: "region nap u alloc_len" and unit: "unat alloc_len mod 65536 = 0" and u0: "0 < unat u"
    and len: "len \<le> alloc_len" "unat len mod 4096 = 0" and start: "start \<le> alloc_len" "unat start mod 4096 = 0"
    and live: "\<And>p. desc = Some p \<Longrightarrow> 0 < out p" and pr: "no_exec pr"
  shows "goes out (unat u) (unat u + unat alloc_len) nap (mmap_map env nap desc u len start alloc_len pr fl fs off)"
proof -
  have g: "geometry nap" using inv by (simp add: space_inv_def)
  have "unat u < 2 ^ addr_bits nap" using reg by (simp add: region_def)
  note sys = NaClUserToSys_ok [OF g u0 this]
  have backed: "goes1 out (unat u) (unat u + unat alloc_len) nap
      (if len > 0 then map_segment env (the_Map env desc) nap desc (u + mem_start nap) len pr fl fs off else Inr nap)"
    by (rule mmap_backed_goes [OF inv few ok reg unit len]) (use live pr in simp_all)
  have zero: "goes out (unat u) (unat u + unat alloc_len) nap
      (if len < start then map_zero_fill env nap' (u + mem_start nap + len) (start - len) pr else Inr (None, nap'))"
    if "good_step out (unat u) (unat u + unat alloc_len) nap nap'" for nap'
    by (rule mmap_zero_goes [OF that g few ok reg len(2) start pr])
  show ?thesis
    unfolding mmap_map_def sys bind_result_simps
  proof (rule goes1_bind [OF backed], rule goes_bind [OF zero], assumption)
    fix failed nap'
    assume step: "good_step out (unat u) (unat u + unat alloc_len) nap nap'"
    show "goes out (unat u) (unat u + unat alloc_len) nap (case (failed, nap') of (failed, napx) \<Rightarrow> case failed of
        None \<Rightarrow> bind_result (if start < alloc_len
            then map_inaccessible env napx (u + mem_start nap + start) (alloc_len - start)
            else Inr napx) (\<lambda>nap. Inr (u, nap))
      | Some r \<Rightarrow> Inr (r, napx))"
      using mmap_rest_goes [OF step g few ok reg start(2)] step by (cases failed) simp_all
  qed
qed

section \<open>What is mapped\<close>

text \<open>The pages of a region are mapped, and no page has been unmapped.\<close>

definition also_mapped :: "nat \<Rightarrow> nat \<Rightarrow> NaClAppSpace \<Rightarrow> NaClAppSpace \<Rightarrow> bool" where
  "also_mapped lo hi nap nap' \<longleftrightarrow>
     (\<forall>q. in_pages lo hi q \<or> vm_view (vmap nap) q \<noteq> None \<longrightarrow> vm_view (vmap nap') q \<noteq> None)"

lemma vmap_log [simp]: "vmap (nap\<lparr>host_log := l\<rparr>) = vmap nap"
  by (simp add: vmap_def)

lemma update_map_maps:
  assumes inv: "space_inv out nap" and few: "few out nap" and ok: "\<And>k. ok_of env k"
    and reg: "region nap u n" and live: "\<And>p. bdesc = Some p \<Longrightarrow> 0 < out p" and pr: "no_exec pr"
    and res: "update_map env nap (u + mem_start nap) n pr bdesc bb off = Inr nap'"
  shows "also_mapped (unat u) (unat u + unat n) nap nap'"
proof -
  have "remapped (unat u) (unat u + unat n) nap nap'"
      "\<And>q. in_pages (unat u) (unat u + unat n) q \<Longrightarrow> \<exists>b. vm_view (vmap nap') q = Some (sint pr, b)"
    using UpdateAddrMap_step [where ok = "ok_of env" and u = u and n = n and bdesc = bdesc and bb = bb and off = off, OF inv few ok _ _ _ _ live pr]
      reg res unfolding region_def update_map_def by (auto simp: confined_step_def)
  then show ?thesis unfolding also_mapped_def remapped_def by (metis option.distinct(1))
qed

text \<open>The same after calls of the host.\<close>

lemma update_logged_maps:
  assumes "space_inv out nap" "few out nap" "\<And>k. ok_of env k" "region nap u n"
    "\<And>p. bdesc = Some p \<Longrightarrow> 0 < out p" "no_exec pr" "a = u + mem_start nap"
    and "update_map env (nap\<lparr>host_log := l\<rparr>) a n pr bdesc bb off = Inr nap'"
  shows "also_mapped (unat u) (unat u + unat n) nap nap'"
proof -
  have "also_mapped (unat u) (unat u + unat n) (nap\<lparr>host_log := l\<rparr>) nap'"
    by (rule update_map_maps [where out = out and bdesc = bdesc and pr = pr and bb = bb and off = off and env = env])
      (use assms in \<open>simp_all add: space_inv_log few_def table_refs_def region_def\<close>)
  then show ?thesis by (simp add: also_mapped_def)
qed

lemma map_segment_maps:
  assumes h: "space_inv out nap" "few out nap" "\<And>k. ok_of env k" "region nap u n"
    and live: "\<And>p. desc = Some p \<Longrightarrow> 0 < out p" and pr: "no_exec pr"
    and res: "map_segment env M nap desc (u + mem_start nap) n pr fl fs off = Inr nap'"
  shows "also_mapped (unat u) (unat u + unat n) nap nap'"
proof (cases "pr = 0")
  case True
  then obtain l where "update_map env (nap\<lparr>host_log := l\<rparr>) (u + mem_start nap) n 0 None fs off = Inr nap'"
    using res by (auto simp: map_segment_def Let_def bind_result_eq_Inr split: if_splits)
  then show ?thesis using update_logged_maps [OF h, of None 0] by (simp add: no_exec_def)
next
  case False
  then obtain l where "update_map env (nap\<lparr>host_log := l\<rparr>) (u + mem_start nap) n (NaClProtMap pr) desc fs off = Inr nap'"
    using res by (auto simp: map_segment_def Let_def bind_result_eq_Inr split: if_splits)
  then show ?thesis using update_logged_maps [OF h live NaClProtMap_no_exec [OF pr]] by simp
qed

lemma map_zero_fill_maps:
  assumes h: "space_inv out nap" "few out nap" "\<And>k. ok_of env k" "region nap u n" and pr: "no_exec pr"
    and res: "map_zero_fill env nap (u + mem_start nap) n pr = Inr (None, nap')"
  shows "also_mapped (unat u) (unat u + unat n) nap nap'"
proof -
  obtain l where "update_map env (nap\<lparr>host_log := l\<rparr>) (u + mem_start nap) n (NaClProtMap pr) None 0 0 = Inr nap'"
    using res by (auto simp: map_zero_fill_def map_anonymous_def bind_result_eq_Inr split: if_splits)
  then show ?thesis using update_logged_maps [OF h, of None] NaClProtMap_no_exec [OF pr] by simp
qed

lemma map_inaccessible_maps:
  assumes h: "space_inv out nap" "few out nap" "\<And>k. ok_of env k" "region nap u n"
    and res: "map_inaccessible env nap (u + mem_start nap) n = Inr nap'"
  shows "also_mapped (unat u) (unat u + unat n) nap nap'"
proof -
  obtain l where "update_map env (nap\<lparr>host_log := l\<rparr>) (u + mem_start nap) n 0 None 0 0 = Inr nap'"
    using res by (auto simp: map_inaccessible_def map_anonymous_def bind_result_eq_Inr)
  then show ?thesis using update_logged_maps [OF h, of None 0] by (simp add: no_exec_def)
qed

lemma also_mapped_trans:
  "also_mapped a b x y \<Longrightarrow> also_mapped c d y z \<Longrightarrow>
    (\<And>q. in_pages lo hi q \<Longrightarrow> in_pages a b q \<or> in_pages c d q) \<Longrightarrow> also_mapped lo hi x z"
  unfolding also_mapped_def by blast

lemma also_mapped_refl [simp]: "hi \<le> lo \<Longrightarrow> also_mapped lo hi x x"
  by (auto simp: also_mapped_def in_pages_def)

text \<open>The three parts leave no hole.\<close>

lemma mmap_map_maps:
  assumes inv: "space_inv out nap" and few: "few out nap" and ok: "\<And>k. ok_of env k"
    and reg: "region nap u m" and unit: "unat m mod 65536 = 0" and u0: "0 < unat u"
    and len: "len \<le> m" "unat len mod 4096 = 0" and start: "start \<le> m" "unat start mod 4096 = 0"
    and live: "\<And>p. desc = Some p \<Longrightarrow> 0 < out p" and pr: "no_exec pr"
    and res: "mmap_map env nap desc u len start m pr fl fs off = Inr (r, nap')" "\<not> NaClIsNegErrno r"
  shows "also_mapped (unat u) (unat u + unat m) nap nap'"
proof -
  let ?R = "good_step out (unat u) (unat u + unat m)"
  have g: "geometry nap" using inv by (simp add: space_inv_def)
  have "unat u < 2 ^ addr_bits nap" using reg by (simp add: region_def)
  note sys = NaClUserToSys_ok [OF g u0 this]
  obtain failed nap1 nap2 where one: "(if len > 0 then map_segment env (the_Map env desc) nap desc (u + mem_start nap) len pr fl fs off
          else Inr nap) = Inr nap1"
      and two: "(if len < start then map_zero_fill env nap1 (u + mem_start nap + len) (start - len) pr else Inr (None, nap1)) =
        Inr (failed, nap2)"
      and rest: "(case failed of Some r \<Rightarrow> Inr (r, nap2) | None \<Rightarrow> bind_result (if start < m
            then map_inaccessible env nap2 (u + mem_start nap + start) (m - start) else Inr nap2) (\<lambda>nap. Inr (u, nap))) = Inr (r, nap')"
    using res(1) by (auto simp: mmap_map_def sys bind_result_eq_Inr)
  have failed: "failed = None"
    using two rest res(2) by (auto simp: map_zero_fill_def bind_result_eq_Inr split: if_splits)
  have three: "(if start < m then map_inaccessible env nap2 (u + mem_start nap + start) (m - start) else Inr nap2) = Inr nap'"
    using rest by (auto simp: failed bind_result_eq_Inr)
  have "goes1 out (unat u) (unat u + unat m) nap (Inr nap1)"
    unfolding one [symmetric] by (rule mmap_backed_goes [OF inv few ok reg unit len]) (use live pr in simp_all)
  then have s1: "?R nap nap1" by simp
  have "goes out (unat u) (unat u + unat m) nap (Inr (failed, nap2))"
    unfolding two [symmetric] by (rule mmap_zero_goes [OF s1 g few ok reg len(2) start pr])
  then have s2: "?R nap nap2" by simp
  note n1 = good_step_few [OF s1] and n2 = good_step_few [OF s2]
  have m1: "also_mapped (unat u) (unat u + unat len) nap nap1"
  proof (cases "len > 0")
    case True
    have "region nap u len" using reg len True by (simp add: region_def word_le_nat_alt word_less_nat_alt)
    moreover have "map_segment env (the_Map env desc) nap desc (u + mem_start nap) len pr fl fs off = Inr nap1"
      using one True by simp
    ultimately show ?thesis using map_segment_maps [OF inv few ok _ live pr] by blast
  qed (use one in \<open>simp add: word_less_nat_alt\<close>)
  have at: "also_mapped (unat u + unat a) (unat u + unat b) x y"
    if "also_mapped (unat (u + a)) (unat (u + a) + unat (b - a)) x y" "a < b" "b \<le> m" "unat a mod 4096 = 0" "unat b mod 4096 = 0"
    for a b x y
    using that region_part [OF g reg that(4,2,3,5)] by (simp add: word_less_nat_alt)
  have m2: "also_mapped (unat u + unat len) (unat u + unat start) nap1 nap2"
  proof (cases "len < start")
    case True
    have z: "map_zero_fill env nap1 (u + len + mem_start nap1) (start - len) pr = Inr (None, nap2)"
      using two True by (simp add: failed n1 add.commute add.left_commute)
    have "region nap1 (u + len) (start - len)"
      by (rule region_part [OF _ _ len(2) True start]) (use g reg in \<open>simp_all add: n1 region_def\<close>)
    from map_zero_fill_maps [OF n1(5) _ ok this pr z] few show ?thesis
      by (intro at) (use n1 True len start in simp_all)
  qed (use two in \<open>simp add: failed word_less_nat_alt not_less\<close>)
  have m3: "also_mapped (unat u + unat start) (unat u + unat m) nap2 nap'"
  proof (cases "start < m")
    case True
    have z: "map_inaccessible env nap2 (u + start + mem_start nap2) (m - start) = Inr nap'"
      using three True by (simp add: n2 add.commute add.left_commute)
    have mm: "unat m mod 4096 = 0" using reg by (simp add: region_def)
    have "region nap2 (u + start) (m - start)"
      by (rule region_part [OF _ _ start(2) True order.refl mm]) (use g reg in \<open>simp_all add: n2 region_def\<close>)
    from map_inaccessible_maps [OF n2(5) _ ok this z] few show ?thesis
      by (intro at) (use n2 True start mm in simp_all)
  qed (use three in \<open>simp add: word_less_nat_alt not_less\<close>)
  have "also_mapped (unat u) (max (unat u + unat len) (unat u + unat start)) nap nap2"
    by (rule also_mapped_trans [OF m1 m2]) (auto simp: in_pages_def)
  then show ?thesis by (rule also_mapped_trans [OF _ m3]) (auto simp: in_pages_def)
qed

end
