(* ===== verification/Sys_Mmap_Props.thy ===== *)
theory Sys_Mmap_Props
  imports Sys_Mmap_Safe
begin

text \<open>
  The system calls as a whole: \<open>mmap\<close> and \<open>munmap\<close> from the entry to the return to the
  application, and any sequence of them.
\<close>

section \<open>Choosing the address\<close>

lemma find_down_total:
  assumes "full m (Suc k)" shows "\<exists>r. find_down lo hi al m n (Suc k) = Inr r"
  using assms
proof (induction k)
  case (Suc k)
  have "full m (Suc k)" using full_Suc(1) [OF Suc.prems] .
  moreover have "entry_at m k = Inr (ents m (Suc (Suc k)) ! k)" "entry_at m (Suc k) = Inr (ents m (Suc (Suc k)) ! Suc k)"
    using full_entry_at [OF Suc.prems] by simp_all
  ultimately show ?case using Suc.IH by (cases al) (auto simp: Let_def)
qed simp

lemma find_above_total:
  assumes full: "full m (nvalid m)" and i: "0 < i"
  shows "\<exists>r. find_above m usr n i = Inr r"
  using i
proof (induction "nvalid m - i" arbitrary: i rule: less_induct)
  case less
  show ?case
  proof (cases "i < nvalid m")
    case True
    then have "entry_at m (i - 1) = Inr (ents m (nvalid m) ! (i - 1))" "entry_at m i = Inr (ents m (nvalid m) ! i)"
      using full_entry_at [OF full] less.prems by simp_all
    moreover have "\<exists>r. find_above m usr n (i + 1) = Inr r" using less.hyps [of "i + 1"] True by simp
    ultimately show ?thesis by (subst find_above.simps) (simp add: Let_def True)
  qed (subst find_above.simps, simp)
qed

text \<open>Even a search for no pages at all returns.\<close>

lemma FindMapSpace_returns:
  assumes inv: "vm_inv ext m"
  shows "\<exists>r m'. NaClVmmapFindMapSpace m n = Inr (r, m') \<and> vm_inv ext m' \<and> vm_view m' = vm_view m"
proof (cases "nvalid m")
  case 0
  then show ?thesis using inv by (simp add: NaClVmmapFindMapSpace_def)
next
  case (Suc k)
  obtain m' where m': "NaClVmmapMakeSorted m = Inr m'" "vm_inv ext m'" "vm_view m' = vm_view m"
      "nvalid m' = nvalid m" "full m' (nvalid m')"
    using MakeSorted_view [OF inv] by blast
  moreover obtain r where "find_down NaClRoundPageNumUpToMapMultiple NaClTruncPageNumDownToMapMultiple
      (NACL_MAP_PAGESHIFT > NACL_PAGESHIFT) m' (NaClRoundPageNumUpToMapMultiple n) (nvalid m') = Inr r"
    using find_down_total [of m' k] m'(4,5) Suc by fastforce
  ultimately show ?thesis using Suc by (auto simp: NaClVmmapFindMapSpace_def Let_def)
qed

lemma FindMapSpaceAboveHint_returns:
  assumes inv: "vm_inv ext m"
  shows "\<exists>r m'. NaClVmmapFindMapSpaceAboveHint m u n = Inr (r, m') \<and> vm_inv ext m' \<and> vm_view m' = vm_view m"
proof -
  obtain m' where m': "NaClVmmapMakeSorted m = Inr m'" "vm_inv ext m'" "vm_view m' = vm_view m"
      "full m' (nvalid m')"
    using MakeSorted_view [OF inv] by blast
  moreover obtain r where "find_above m' (drop_bit NACL_PAGESHIFT u) (NaClRoundPageNumUpToMapMultiple n) 1 = Inr r"
    using find_above_total [OF m'(4)] by fastforce
  ultimately show ?thesis by (auto simp: NaClVmmapFindMapSpaceAboveHint_def Let_def)
qed

lemma unit_page: "k mod 65536 = 0 \<Longrightarrow> k mod 4096 = 0" for k :: nat
  by (auto simp: mod_eq_0_iff_dvd elim: dvd_trans [rotated])

text \<open>Whatever the searches find is a multiple of a mapping unit, if the hint is one.\<close>

definition unit_page_num :: "u32 \<Rightarrow> bool" where
  "unit_page_num w \<longleftrightarrow> 16 dvd unat w"

lemma unit_page_num_round:
  "unit_page_num 0" "unit_page_num (NaClRoundPageNumUpToMapMultiple w)" "unit_page_num (NaClTruncPageNumDownToMapMultiple w)"
  "unit_page_num a \<Longrightarrow> unit_page_num b \<Longrightarrow> unit_page_num (a - b)"
proof -
  have m: "16 dvd unat (v AND NOT (mask 4))" for v :: u32
    using unat_and_not_mask [of v 4] by (simp add: mask_eq_decr_exp)
  show "unit_page_num 0" by (simp add: unit_page_num_def)
  show "unit_page_num (NaClRoundPageNumUpToMapMultiple w)" "unit_page_num (NaClTruncPageNumDownToMapMultiple w)"
    using m by (simp_all add: mask_eq_decr_exp unit_page_num_def NaClRoundPageNumUpToMapMultiple_def NaClTruncPageNumDownToMapMultiple_def page_consts)
  assume ab: "unit_page_num a" "unit_page_num b"
  have "unat (a - b) = (if unat b \<le> unat a then unat a - unat b else unat a + 4294967296 - unat b)"
    by (simp add: unat_sub_if_size word_size)
  moreover have "16 dvd unat a + 4294967296" using ab by (simp add: unit_page_num_def)
  ultimately show "unit_page_num (a - b)" using ab unfolding unit_page_num_def by (metis dvd_diff_nat)
qed

lemma find_down_unit:
  assumes "unit_page_num n"
  shows "find_down NaClRoundPageNumUpToMapMultiple NaClTruncPageNumDownToMapMultiple al m n (Suc k) = Inr r \<Longrightarrow> unit_page_num r"
proof (induction k)
  case (Suc k)
  obtain x y where "entry_at m k = Inr x" "entry_at m (Suc k) = Inr y" using Suc.prems by (auto simp: bind_result_eq_Inr)
  then show ?case
    using Suc.prems Suc.IH unit_page_num_round(3,4) assms by (auto simp: Let_def simp del: find_down.simps(3) simp add: find_down.simps(3) split: if_splits)
qed (simp add: unit_page_num_round)

lemma find_above_unit:
  assumes u: "unit_page_num u"
  shows "find_above m u n i = Inr r \<Longrightarrow> unit_page_num r"
proof (induction "nvalid m - i" arbitrary: i rule: less_induct)
  case less
  show ?case
  proof (cases "i < nvalid m")
    case True
    have run: "find_above m u n i = Inr r" by (rule less.prems)
    obtain x y where e: "entry_at m (i - 1) = Inr x" "entry_at m i = Inr y"
      using run True by (subst (asm) find_above.simps) (auto simp: bind_result_eq_Inr)
    define a where "a = NaClRoundPageNumUpToMapMultiple (page_num x + npages x)"
    define b where "b = NaClTruncPageNumDownToMapMultiple (page_num y)"
    define c where "c = (if a \<le> u \<and> u < b then u else a)"
    have step: "find_above m u n i = (if b \<le> a then find_above m u n (i + 1)
        else if u \<le> c \<and> b - c \<ge> n then Inr c else find_above m u n (i + 1))"
      by (simp only: find_above.simps [of m u n i] True e if_True bind_result_simps Let_def a_def b_def c_def)
    have "unit_page_num c" using u unit_page_num_round(2) by (simp add: c_def a_def)
    then show ?thesis using run less.hyps [of "i + 1"] True unfolding step by (auto split: if_splits)
  qed (use less.prems in \<open>simp add: find_above.simps [of m u n i] unit_page_num_round\<close>)
qed

lemma push_page_mod:
  assumes "unit_page_num w" shows "unat (push_bit NACL_PAGESHIFT w) mod 65536 = 0"
proof -
  have "unat (push_bit NACL_PAGESHIFT w) = unat w * 4096 mod 4294967296"
    by (simp add: push_bit_eq_mult NACL_PAGESHIFT_def unat_word_ariths)
  moreover have "(65536 :: nat) dvd unat w * 4096" using assms by (auto simp: unit_page_num_def elim!: dvdE)
  ultimately show ?thesis by (simp add: mod_mod_cancel [of 65536 4294967296] mod_eq_0_iff_dvd)
qed

lemma FindMapSpace_unit:
  assumes "NaClVmmapFindMapSpace m n = Inr (r, m')" shows "unit_page_num r"
proof (cases "nvalid m")
  case 0
  then show ?thesis using assms by (simp add: NaClVmmapFindMapSpace_def unit_page_num_round)
next
  case (Suc k)
  obtain m1 where "find_down NaClRoundPageNumUpToMapMultiple NaClTruncPageNumDownToMapMultiple
      (NACL_MAP_PAGESHIFT > NACL_PAGESHIFT) m1 (NaClRoundPageNumUpToMapMultiple n) (nvalid m1) = Inr r"
    using assms Suc by (auto simp: NaClVmmapFindMapSpace_def Let_def bind_result_eq_Inr)
  then show ?thesis using find_down_unit [OF unit_page_num_round(2)] by (cases "nvalid m1") auto
qed

lemma FindMapSpaceAboveHint_unit:
  assumes "NaClVmmapFindMapSpaceAboveHint m u n = Inr (r, m')" "unat u mod 65536 = 0"
  shows "unit_page_num r"
proof -
  have "unat (drop_bit 12 u) = drop_bit 12 (unat u)" by (rule unat_drop_bit_eq)
  then have "unat (drop_bit 12 u) = unat u div 4096" by (simp only: drop_bit_eq_div) simp
  moreover obtain c where "unat u = 65536 * c" using assms(2) by (auto simp: mod_eq_0_iff_dvd elim: dvdE)
  ultimately have "unit_page_num (drop_bit NACL_PAGESHIFT u)" by (simp add: unit_page_num_def NACL_PAGESHIFT_def)
  then show ?thesis
    using assms(1) find_above_unit by (auto simp: NaClVmmapFindMapSpaceAboveHint_def Let_def bind_result_eq_Inr)
qed

lemma good_step_put:
  assumes inv: "space_inv out nap" and m: "vm_inv (\<lambda>p. table_refs nap p + out p) m"
    and same: "vm_view m = vm_view (vmap nap)"
  shows "good_step out lo hi nap (put_vmap nap m)"
  using space_inv_put [OF inv m] same
  by (simp add: good_step_def confined_step_def logged_def only_maps_put remapped_def)

lemma mmap_pick_goes:
  assumes inv: "space_inv out nap" and u: "unat usraddr mod 65536 = 0"
  shows "\<exists>r nap'. mmap_pick nap flags usraddr alloc_len = Inr (r, nap') \<and> (\<forall>lo hi. good_step out lo hi nap nap') \<and>
    (\<forall>u. r = Some u \<longrightarrow> unat u mod 65536 = 0)"
proof (cases "flags AND NACL_ABI_MAP_FIXED = 0")
  case False
  then show ?thesis using inv u by (simp add: mmap_pick_def good_step_def)
next
  case True
  let ?n = "drop_bit NACL_PAGESHIFT alloc_len" and ?ext = "\<lambda>p. table_refs nap p + out p"
  have vm: "vm_inv ?ext (vmap nap)" using inv by (simp add: space_inv_def)
  have "\<exists>r m. (if usraddr = 0 then NaClVmmapFindMapSpace (vmap nap) ?n
      else bind_result (NaClVmmapFindMapSpaceAboveHint (vmap nap) usraddr ?n) (\<lambda>(usrpage, m).
             if usrpage = 0 then NaClVmmapFindMapSpace m ?n else Inr (usrpage, m))) = Inr (r, m) \<and>
      vm_inv ?ext m \<and> vm_view m = vm_view (vmap nap) \<and> unit_page_num r"
  proof (cases "usraddr = 0")
    case True
    then show ?thesis using FindMapSpace_returns [OF vm, of ?n] FindMapSpace_unit by fastforce
  next
    case False
    obtain r m where "NaClVmmapFindMapSpaceAboveHint (vmap nap) usraddr ?n = Inr (r, m)" "vm_inv ?ext m"
        "vm_view m = vm_view (vmap nap)"
      using FindMapSpaceAboveHint_returns [OF vm] by blast
    moreover obtain r' m' where "NaClVmmapFindMapSpace m ?n = Inr (r', m')" "vm_inv ?ext m'" "vm_view m' = vm_view m"
      using FindMapSpace_returns [OF calculation(2)] by blast
    ultimately show ?thesis
      using False FindMapSpace_unit FindMapSpaceAboveHint_unit [OF _ u] by (cases "r = 0") auto
  qed
  then obtain r m where "mmap_pick nap flags usraddr alloc_len =
        Inr (if r = 0 then None else Some (push_bit NACL_PAGESHIFT r), put_vmap nap m)"
      "vm_inv ?ext m" "vm_view m = vm_view (vmap nap)" "unit_page_num r"
    using True unfolding mmap_pick_def by (auto simp: Let_def)
  then show ?thesis using good_step_put [OF inv] push_page_mod by auto
qed

section \<open>Under the lock\<close>

lemma unat_text_end: "geometry nap \<Longrightarrow> unat (NACL_TRAMPOLINE_END + text_region_bytes nap) = text_end nap"
  using power_increasing [of "addr_bits nap" 31 "2 :: nat"]
  by (simp add: geometry_def text_end_def NACL_TRAMPOLINE_END_def unat_plus_u32)

lemma not_executable:
  assumes g: "geometry nap" and ok: "\<not> NaClSysCommonAddrRangeContainsExecutablePages_mu nap u len"
  shows "text_end nap \<le> unat u"
proof -
  have "text_end nap \<le> unat (NaClTruncAllocPage u)"
    using ok unat_text_end [OF g]
    by (simp add: NaClSysCommonAddrRangeContainsExecutablePages_mu_def word_less_nat_alt)
  then show ?thesis using div_times_less_eq_dividend [of "unat u" 65536] by (simp add: NaClTruncAllocPage_unat)
qed

lemma not_refused:
  assumes g: "geometry nap" and ok: "\<not> mmap_refused nap u alloc_len len"
  shows "text_end nap \<le> unat u" "unat u + unat alloc_len \<le> 2 ^ addr_bits nap"
proof -
  show "text_end nap \<le> unat u" using ok by (intro not_executable [OF g, of u len]) (simp add: mmap_refused_def)
  have "u \<le> u + alloc_len" using ok by (simp add: mmap_refused_def not_less)
  then have "unat (u + alloc_len) = unat u + unat alloc_len" by (simp add: unat_plus_simple)
  then show "unat u + unat alloc_len \<le> 2 ^ addr_bits nap"
    using ok unat_space_size [OF g] by (simp add: mmap_refused_def word_less_nat_alt)
qed

lemma errno_simps [simp]:
  "NaClIsNegErrno (neg_errno NACL_ABI_EINVAL)" "NaClIsNegErrno (neg_errno NACL_ABI_ENOMEM)"
  "NaClIsNegErrno (neg_errno NACL_ABI_EBADF)" "NaClIsNegErrno (neg_errno NACL_ABI_EFAULT)"
  by (simp_all add: NaClIsNegErrno_def neg_errno_def NACL_ABI_EINVAL_def NACL_ABI_ENOMEM_def
    NACL_ABI_EBADF_def NACL_ABI_EFAULT_def)

lemma mmap_map_value:
  "mmap_map env nap desc u len start alloc_len pr fl fs off = Inr (r, nap') \<Longrightarrow> r = u \<or> NaClIsNegErrno r"
  unfolding mmap_map_def
  by (auto simp: bind_result_eq_Inr map_zero_fill_def split: if_splits option.splits)

lemma mmap_map_nothing:
  assumes "geometry nap" "0 < unat u" "unat u < 2 ^ addr_bits nap"
  shows "mmap_map env nap desc u 0 0 0 pr fl fs off = Inr (u, nap)"
  using NaClUserToSys_ok [OF assms] by (simp add: mmap_map_def)

text \<open>What a call may have done when it returns \<open>r\<close>: on success its region starts at \<open>r\<close>, on a 64 KB
  boundary, has \<open>n\<close> bytes, and (for a call that maps) is mapped; in any case it lies above the text,
  inside the address space.\<close>

definition all_mapped :: "nat \<Rightarrow> nat \<Rightarrow> NaClAppSpace \<Rightarrow> bool" where
  "all_mapped lo hi nap \<longleftrightarrow> (\<forall>q. in_pages lo hi q \<longrightarrow> vm_view (vmap nap) q \<noteq> None)"

definition placed :: "bool \<Rightarrow> (nat \<Rightarrow> nat) \<Rightarrow> nat \<Rightarrow> NaClAppSpace \<Rightarrow> u32 \<Rightarrow> NaClAppSpace \<Rightarrow> bool" where
  "placed maps out n nap r nap' \<longleftrightarrow> (\<exists>lo hi. text_end nap \<le> lo \<and> hi \<le> 2 ^ addr_bits nap \<and>
     good_step out lo hi nap nap' \<and> (NaClIsNegErrno r \<or> unat r = lo \<and> hi = lo + n \<and> lo mod 65536 = 0 \<and>
       (maps \<longrightarrow> all_mapped lo hi nap')))"

definition places :: "(nat \<Rightarrow> nat) \<Rightarrow> nat \<Rightarrow> NaClAppSpace \<Rightarrow> (u32 \<times> NaClAppSpace) result \<Rightarrow> bool" where
  "places out n nap res \<longleftrightarrow> (case res of Inl f \<Rightarrow> f = LogFatal | Inr (r, nap') \<Rightarrow> placed True out n nap r nap')"

lemma places_simps [simp]:
  "places out n nap (Inl f) \<longleftrightarrow> f = LogFatal" "places out n nap (Inr (r, nap')) \<longleftrightarrow> placed True out n nap r nap'"
  by (simp_all add: places_def)

lemma placed_by:
  assumes "text_end nap \<le> lo" "hi \<le> 2 ^ addr_bits nap" "good_step out lo hi nap nap'"
    "NaClIsNegErrno r \<or> unat r = lo \<and> hi = lo + n \<and> lo mod 65536 = 0 \<and> (maps \<longrightarrow> all_mapped lo hi nap')"
  shows "placed maps out n nap r nap'"
  unfolding placed_def by (intro exI conjI) (rule assms)+

lemma placedI:
  assumes "good_step out lo (lo + n) nap nap'" "text_end nap \<le> lo" "lo + n \<le> 2 ^ addr_bits nap"
    "NaClIsNegErrno r \<or> unat r = lo \<and> lo mod 65536 = 0 \<and> (maps \<longrightarrow> all_mapped lo (lo + n) nap')"
  shows "placed maps out n nap r nap'"
  by (rule placed_by [OF assms(2,3,1)]) (use assms(4) in simp)

lemma placed_error:
  "geometry nap \<Longrightarrow> good_step out (text_end nap) (text_end nap) nap nap' \<Longrightarrow> NaClIsNegErrno r \<Longrightarrow> placed maps out n nap r nap'"
  unfolding placed_def geometry_def text_end_def by blast

lemma placed_after:
  assumes "\<And>lo hi. good_step out lo hi nap nap1" "placed maps out n nap1 r nap'"
  shows "placed maps out n nap r nap'"
proof -
  have "text_end nap1 = text_end nap" "addr_bits nap1 = addr_bits nap"
    using assms(1) [of 0 0] only_maps_same [of nap nap1] by (simp_all add: good_step_def confined_step_def)
  then obtain lo hi where lo: "text_end nap \<le> lo" "hi \<le> 2 ^ addr_bits nap" "good_step out lo hi nap1 nap'"
      "NaClIsNegErrno r \<or> unat r = lo \<and> hi = lo + n \<and> lo mod 65536 = 0 \<and> (maps \<longrightarrow> all_mapped lo hi nap')"
    using assms(2) unfolding placed_def by auto
  show ?thesis by (rule placed_by [OF lo(1,2) good_step_trans [OF assms(1) lo(3)] lo(4)])
qed

lemma mmap_locked_places:
  assumes inv: "space_inv out nap" and few: "few out nap" and ok: "\<And>k. ok_of env k"
    and u: "unat usraddr mod 65536 = 0" and unit: "unat alloc_len mod 65536 = 0"
    and len: "len \<le> alloc_len" "unat alloc_len < 2147483647 \<Longrightarrow> unat len mod 4096 = 0"
    and start: "start \<le> alloc_len" "unat alloc_len < 2147483647 \<Longrightarrow> unat start mod 4096 = 0"
    and live: "\<And>p. desc = Some p \<Longrightarrow> 0 < out p"
  shows "places out (unat alloc_len) nap (mmap_locked env nap desc usraddr len start alloc_len pr fl fs off)"
proof -
  obtain picked nap1 where pick: "mmap_pick nap fl usraddr alloc_len = Inr (picked, nap1)"
      "\<And>lo hi. good_step out lo hi nap nap1" "\<And>u. picked = Some u \<Longrightarrow> unat u mod 65536 = 0"
    using mmap_pick_goes [OF inv u, of fl alloc_len] by blast
  note now = good_step_few [OF pick(2)]
  have g: "geometry nap1" using now inv by (simp add: space_inv_def)
  have refuse: "placed True out (unat alloc_len) nap (neg_errno NACL_ABI_EINVAL) nap1"
    "placed True out (unat alloc_len) nap (neg_errno NACL_ABI_ENOMEM) nap1"
    using placed_error [OF _ pick(2)] g now by simp_all
  have map: "places out (unat alloc_len) nap (mmap_map env nap1 desc v len start alloc_len p fl' fs off)"
    if v: "picked = Some v" "\<not> mmap_refused nap1 v alloc_len len" and p: "no_exec p" for v p fl'
  proof -
    note at = not_refused [OF g v(2)]
    have top: "unat alloc_len < 2147483647" "0 < unat v" "unat v < 2 ^ addr_bits nap1 \<or> unat alloc_len = 0"
      using at g power_increasing [of "addr_bits nap1" 31 "2 :: nat"] by (auto simp: geometry_def text_end_def)
    have "goes out (unat v) (unat v + unat alloc_len) nap1 (mmap_map env nap1 desc v len start alloc_len p fl' fs off) \<and>
      (\<forall>r nap'. mmap_map env nap1 desc v len start alloc_len p fl' fs off = Inr (r, nap') \<longrightarrow>
        NaClIsNegErrno r \<or> all_mapped (unat v) (unat v + unat alloc_len) nap')"
    proof (cases "alloc_len = 0")
      case True
      then have "len = 0" "start = 0" using len(1) start(1) by (simp_all add: word_le_0_iff)
      moreover have "unat v < 2 ^ addr_bits nap1" using v(2) unat_space_size [OF g]
        by (simp add: mmap_refused_def word_less_nat_alt not_le)
      ultimately show ?thesis
        using mmap_map_nothing [OF g top(2)] True now by (auto simp: good_step_def all_mapped_def in_pages_def)
    next
      case False
      then have reg: "region nap1 v alloc_len"
        using pick(3) [OF v(1)] unit unit_page at(2) by (auto simp: region_def unat_gt_0)
      have "few out nap1" using few now by simp
      note given = now(5) this ok reg unit top(2) len(1) len(2) [OF top(1)] start(1) start(2) [OF top(1)] live p
      have "also_mapped (unat v) (unat v + unat alloc_len) nap1 nap'"
        if "mmap_map env nap1 desc v len start alloc_len p fl' fs off = Inr (r, nap')" "\<not> NaClIsNegErrno r" for r nap'
        using mmap_map_maps [OF given that] by simp
      then show ?thesis
        using mmap_map_goes [OF given] unfolding also_mapped_def all_mapped_def by blast
    qed
    moreover have "unat v mod 65536 = 0" using pick(3) [OF v(1)] .
    ultimately have "places out (unat alloc_len) nap1 (mmap_map env nap1 desc v len start alloc_len p fl' fs off)"
      using mmap_map_value [of env nap1 desc v len start alloc_len p fl' fs off] at
      unfolding goes_def places_def by (cases "mmap_map env nap1 desc v len start alloc_len p fl' fs off")
        (auto intro!: placedI)
    then show ?thesis
      using placed_after [OF pick(2)] by (auto simp: places_def split: sum.splits)
  qed
  have ne: "no_exec (pr AND NOT NACL_ABI_PROT_EXEC)" by (simp add: no_exec_def prot_consts and.assoc)
  show ?thesis
    unfolding mmap_locked_def pick(1) bind_result_simps
    using refuse map [OF _ _ ne] by (auto simp: Let_def split: option.splits)
qed

section \<open>Locks, references and the thread\<close>

lemma space_inv_flags [simp]:
  "space_inv out (nap\<lparr>mu := b\<rparr>) = space_inv out nap"
  "space_inv out (nap\<lparr>holding_sr_locks := b\<rparr>) = space_inv out nap"
  by (simp_all add: space_inv_def geometry_def map_refs_def table_refs_def vmap_def)

lemma flags_simps [simp]:
  "few out (nap\<lparr>mu := b\<rparr>) = few out nap" "few out (nap\<lparr>holding_sr_locks := b\<rparr>) = few out nap"
  "text_end (nap\<lparr>mu := b\<rparr>) = text_end nap" "text_end (nap\<lparr>holding_sr_locks := b\<rparr>) = text_end nap"
  "vmap (nap\<lparr>mu := b\<rparr>) = vmap nap" "vmap (nap\<lparr>holding_sr_locks := b\<rparr>) = vmap nap"
  "geometry (nap\<lparr>mu := b\<rparr>) = geometry nap" "geometry (nap\<lparr>holding_sr_locks := b\<rparr>) = geometry nap"
  by (simp_all add: few_def table_refs_def text_end_def vmap_def geometry_def)

lemma only_maps_flags:
  "only_maps (nap\<lparr>mu := True\<rparr>) nap' \<Longrightarrow> \<not> mu nap \<Longrightarrow> only_maps nap (nap'\<lparr>mu := False\<rparr>)"
  "only_maps (nap\<lparr>holding_sr_locks := True\<rparr>) nap' \<Longrightarrow> \<not> holding_sr_locks nap \<Longrightarrow>
    only_maps nap (nap'\<lparr>holding_sr_locks := False\<rparr>)"
proof -
  assume "only_maps (nap\<lparr>mu := True\<rparr>) nap'" "\<not> mu nap"
  then obtain h m l where "nap' = nap\<lparr>mu := True\<rparr>\<lparr>tables := (tables (nap\<lparr>mu := True\<rparr>))\<lparr>refs := h\<rparr>, mem_map := m, host_log := l\<rparr>"
    unfolding only_maps_def by blast
  with \<open>\<not> mu nap\<close> show "only_maps nap (nap'\<lparr>mu := False\<rparr>)"
    by (intro only_mapsI [where h = h and m = m and l = l]) simp
next
  assume "only_maps (nap\<lparr>holding_sr_locks := True\<rparr>) nap'" "\<not> holding_sr_locks nap"
  then obtain h m l where "nap' = nap\<lparr>holding_sr_locks := True\<rparr>
      \<lparr>tables := (tables (nap\<lparr>holding_sr_locks := True\<rparr>))\<lparr>refs := h\<rparr>, mem_map := m, host_log := l\<rparr>"
    unfolding only_maps_def by blast
  with \<open>\<not> holding_sr_locks nap\<close> show "only_maps nap (nap'\<lparr>holding_sr_locks := False\<rparr>)"
    by (intro only_mapsI [where h = h and m = m and l = l]) simp
qed

lemma confined_step_flags:
  "confined_step lo hi (nap\<lparr>mu := True\<rparr>) nap' \<Longrightarrow> \<not> mu nap \<Longrightarrow> confined_step lo hi nap (nap'\<lparr>mu := False\<rparr>)"
  "confined_step lo hi (nap\<lparr>holding_sr_locks := True\<rparr>) nap' \<Longrightarrow> \<not> holding_sr_locks nap \<Longrightarrow>
    confined_step lo hi nap (nap'\<lparr>holding_sr_locks := False\<rparr>)"
  using only_maps_flags by (auto simp: confined_step_def logged_def remapped_def)

lemma placed_mu:
  "placed maps out n (nap\<lparr>mu := True\<rparr>) r nap' \<Longrightarrow> \<not> mu nap \<Longrightarrow> placed maps out n nap r (nap'\<lparr>mu := False\<rparr>)"
proof -
  assume mu: "\<not> mu nap" and "placed maps out n (nap\<lparr>mu := True\<rparr>) r nap'"
  then obtain lo hi where lo: "text_end nap \<le> lo" "hi \<le> 2 ^ addr_bits nap" "space_inv out nap'"
      "confined_step lo hi (nap\<lparr>mu := True\<rparr>) nap'"
      "NaClIsNegErrno r \<or> unat r = lo \<and> hi = lo + n \<and> lo mod 65536 = 0 \<and> (maps \<longrightarrow> all_mapped lo hi nap')"
    by (auto simp: placed_def good_step_def)
  have "NaClIsNegErrno r \<or> unat r = lo \<and> hi = lo + n \<and> lo mod 65536 = 0 \<and> (maps \<longrightarrow> all_mapped lo hi (nap'\<lparr>mu := False\<rparr>))"
    using lo(5) by (simp add: all_mapped_def)
  moreover have "good_step out lo hi nap (nap'\<lparr>mu := False\<rparr>)"
    using lo(3) confined_step_flags(1) [OF lo(4) mu] by (simp add: good_step_def)
  ultimately show "placed maps out n nap r (nap'\<lparr>mu := False\<rparr>)"
    using lo(1,2) by (intro placed_by [where lo = lo and hi = hi]) simp_all
qed

lemma vm_view_refs: "vm_view (vmap (nap\<lparr>tables := (tables nap)\<lparr>refs := h\<rparr>\<rparr>)) = vm_view (vmap nap)"
  by (simp add: vm_view_def [abs_def] ents_def vmap_def)

lemma confined_step_refs:
  "confined_step lo hi nap (nap\<lparr>tables := (tables nap)\<lparr>refs := h\<rparr>\<rparr>)"
  using vm_view_refs by (simp add: confined_step_def logged_def remapped_def only_maps_refs)

text \<open>Taking a descriptor from the table: a reference that the system call holds.\<close>

lemma get_desc_step:
  assumes inv: "space_inv out nap" and few: "few out nap" and mu: "\<not> desc_mu (tables nap)"
    and d: "-2147483648 \<le> d" "d < 2147483648"
  shows "\<exists>desc h. get_desc nap d = Inr (desc, nap\<lparr>tables := (tables nap)\<lparr>refs := h\<rparr>\<rparr>) \<and>
    space_inv (take_ref desc out) (nap\<lparr>tables := (tables nap)\<lparr>refs := h\<rparr>\<rparr>) \<and>
    desc = dyn_lookup (desc_tbl (tables nap)) d"
proof -
  let ?t = "(tables nap)\<lparr>desc_mu := True\<rparr>" and ?f = "dyn_lookup (desc_tbl (tables nap))"
  let ?ext = "\<lambda>p. map_refs nap p + out p"
  have a: "app_inv ?ext ?t" using inv by (simp add: space_inv_def app_inv_def)
  have lim: "ref_total ?ext (dyn_lookup (desc_tbl ?t)) p < 4294967295" for p
    using map_refs_le [OF inv, of p] few [unfolded few_def table_refs_def, THEN spec, of p]
    by (simp add: ref_total_def page_limit_def)
  obtain t' where t': "NaClGetDescMu ?t d = Inr (?f d, t')" "t'\<lparr>refs := refs ?t\<rparr> = ?t" "app_inv (take_ref (?f d) ?ext) t'"
    using NaClGetDescMu_ok [OF a d lim] by auto
  define h where "h = refs t'"
  have "t' = ?t\<lparr>refs := h\<rparr>" unfolding h_def using t'(2) by (cases t'; cases "tables nap"; simp)
  then have "NaClGetDesc (tables nap) d = Inr (?f d, (tables nap)\<lparr>refs := h\<rparr>)"
    using t'(1) mu by (simp add: NaClGetDesc_def with_desc_mu_def)
  moreover have total: "refs_ok (\<lambda>p. map_refs nap p + (table_refs nap p + take_ref (?f d) out p)) h"
  proof -
    have "refs_ok (ref_total (take_ref (?f d) ?ext) ?f) h"
      using t'(3) \<open>t' = _\<close> by (simp add: app_inv_def)
    moreover have "ref_total (take_ref (?f d) ?ext) ?f = (\<lambda>p. map_refs nap p + (table_refs nap p + take_ref (?f d) out p))"
      by (auto simp: ref_total_def table_refs_def take_ref_def fun_eq_iff split: option.splits)
    ultimately show ?thesis by simp
  qed
  have "space_inv (take_ref (?f d) out) (nap\<lparr>tables := (tables nap)\<lparr>refs := h\<rparr>\<rparr>)"
    by (rule space_inv_refs [OF inv total])
  ultimately show ?thesis by (intro exI [of _ "?f d"] exI [of _ h]) (simp add: get_desc_def)
qed

lemma unref_desc_step:
  assumes inv: "space_inv (take_ref desc out) nap"
  shows "\<exists>h. unref_desc nap desc = Inr (nap\<lparr>tables := (tables nap)\<lparr>refs := h\<rparr>\<rparr>) \<and>
    space_inv out (nap\<lparr>tables := (tables nap)\<lparr>refs := h\<rparr>\<rparr>)"
proof (cases desc)
  case None
  then show ?thesis using inv by (intro exI [of _ "refs (tables nap)"]) (simp add: unref_desc_def take_ref_def)
next
  case (Some p)
  let ?tot = "\<lambda>q. map_refs nap q + (table_refs nap q + take_ref desc out q)"
  have "0 < ?tot p" using Some by (simp add: take_ref_def)
  then obtain h where h: "NaClDescUnref (refs (tables nap)) p = Inr h" "refs_ok (?tot(p := ?tot p - 1)) h"
    using NaClDescUnref_ok [OF space_inv_total [OF inv], of p] by auto
  have "?tot(p := ?tot p - 1) = (\<lambda>q. map_refs nap q + (table_refs nap q + out q))"
    using Some by (auto simp: take_ref_def fun_eq_iff)
  then have "space_inv out (nap\<lparr>tables := (tables nap)\<lparr>refs := h\<rparr>\<rparr>)" using space_inv_refs [OF inv] h(2) by metis
  then show ?thesis using h(1) Some by (intro exI [of _ h]) (simp add: unref_desc_def)
qed

section \<open>mmap\<close>

lemma alloc_page_mod: "unat (NaClRoundAllocPage w) mod 65536 = 0" "unat (NaClRoundPage w) mod 4096 = 0"
  "NaClIsAllocPageMultiple w \<Longrightarrow> unat w mod 65536 = 0"
proof -
  have "unat (NaClRoundAllocPage w) = unat (w + NACL_MAP_PAGESIZE - 1) div 65536 * 65536"
    using unat_and_not_mask [of "w + NACL_MAP_PAGESIZE - 1" 16] by (simp add: NaClRoundAllocPage_def page_consts)
  then show "unat (NaClRoundAllocPage w) mod 65536 = 0" by simp
  have "unat (NaClRoundPage w) = unat (w + NACL_PAGESIZE - 1) div 4096 * 4096"
    using unat_and_not_mask [of "w + NACL_PAGESIZE - 1" 12] by (simp add: NaClRoundPage_def page_consts)
  then show "unat (NaClRoundPage w) mod 4096 = 0" by simp
  show "NaClIsAllocPageMultiple w \<Longrightarrow> unat w mod 65536 = 0" by (simp add: NaClIsAllocPageMultiple_iff mod_eq_0_iff_dvd)
qed

lemma mmap_file_bytes_mod:
  assumes "mmap_file_bytes env desc off = Inr (fs, fb, afb)" "unat alloc_len mod 65536 = 0" "unat alloc_len < 2147483647"
  shows "unat (size_min alloc_len fb) mod 4096 = 0" "unat (size_min alloc_len afb) mod 4096 = 0"
  using assms unit_page [OF assms(2)] alloc_page_mod(2) unit_page [OF alloc_page_mod(1)]
  by (auto simp: mmap_file_bytes_def size_min_def NaClRoundHostAllocPage_def Let_def word_less_nat_alt
    split: option.splits prod.splits if_splits)

lemma size_min_le: "size_min a b \<le> a" for a :: u32
  by (auto simp: size_min_def)

lemma mmap_body_places:
  assumes inv: "space_inv out nap" and few: "few out nap" and ok: "\<And>k. ok_of env k" and mu: "\<not> mu nap"
    and live: "\<And>p. desc = Some p \<Longrightarrow> 0 < out p"
    and stat: "\<And>p rv sz. desc = Some p \<Longrightarrow> desc_Fstat (fstat_of env) (desc_of env p) = (rv, sz) \<Longrightarrow> rv \<noteq> 0 \<Longrightarrow>
        NaClIsNegErrno (word_of_int rv)"
  shows "places out (unat (NaClRoundAllocPage len)) nap (mmap_body env nap desc usraddr len pr fl off)"
proof -
  have g: "geometry nap" using inv by (simp add: space_inv_def)
  have here: "placed True out n nap r nap" if "NaClIsNegErrno r" for n r
    by (rule placed_error [OF g _ that]) (simp add: good_step_def inv)
  define u where "u = (if \<not> NaClIsAllocPageMultiple usraddr then NaClRoundAllocPage usraddr else usraddr)"
  have u: "unat u mod 65536 = 0" unfolding u_def using alloc_page_mod(1,3) by auto
  let ?n = "NaClRoundAllocPage len"
  show ?thesis
  proof (cases "mmap_file_bytes env desc off")
    case (Inl r)
    have "NaClIsNegErrno r"
      using Inl stat by (auto simp: mmap_file_bytes_def Let_def split: option.splits prod.splits if_splits)
    then show ?thesis using here Inl by (simp add: mmap_body_def Let_def)
  next
    case (Inr t)
    obtain fs fb afb where t: "t = (fs, fb, afb)" by (cases t) auto
    let ?locked = "mmap_locked env (nap\<lparr>mu := True\<rparr>) desc u (size_min ?n fb) (size_min ?n afb) ?n pr fl fs off"
    note bytes = mmap_file_bytes_mod [OF Inr [unfolded t] alloc_page_mod(1) [of len]]
    have "places out (unat ?n) (nap\<lparr>mu := True\<rparr>) ?locked"
      by (rule mmap_locked_places [OF _ _ ok u alloc_page_mod(1) size_min_le bytes(1) size_min_le bytes(2) live])
        (use inv few in simp_all)
    then have "places out (unat ?n) nap (bind_result ?locked (\<lambda>(r, nap). Inr (r, nap\<lparr>mu := False\<rparr>)))"
      using placed_mu [OF _ mu] by (cases ?locked) auto
    then show ?thesis
      using Inr t mu here u_def by (simp add: mmap_body_def Let_def)
  qed
qed

text \<open>No lock is held and the calling thread lives.\<close>

definition idle :: "NaClAppSpace \<Rightarrow> bool" where
  "idle nap \<longleftrightarrow> \<not> mu nap \<and> \<not> desc_mu (tables nap) \<and> \<not> holding_sr_locks nap \<and> thread_state nap = NACL_APP_THREAD_ALIVE"

text \<open>Allocations succeed, the host's calls fail with error numbers, and \<open>mmap\<close> of no bytes
  fails (\<open>EINVAL\<close>).\<close>

definition env_ok :: "sys_env \<Rightarrow> bool" where
  "env_ok env \<longleftrightarrow> (\<forall>k. ok_of env k) \<and> (\<forall>d e. fstat_of env d = Inl e \<longrightarrow> 0 < e \<and> e < 65536) \<and>
     (\<forall>log op e. host_of env log op = Inl e \<longrightarrow> 0 < e \<and> e < 65536) \<and>
     (\<forall>log a pr fl d off. isl (host_of env log (Mmap a 0 pr fl d off)))"

lemma small_errno: "0 < e \<Longrightarrow> e < 65536 \<Longrightarrow> NaClIsNegErrno (word_of_int (- e))"
proof -
  assume e: "0 < e" "e < 65536"
  have "uint (word_of_int (- e) :: u32) = (- e) mod 4294967296" by (simp only: uint_word_of_int) simp
  also have "\<dots> = 4294967296 - e" using e by (subst zmod_zminus1_eq_if) auto
  finally show ?thesis using e by (simp add: NaClIsNegErrno_def word_le_def)
qed

lemma desc_Fstat_errno:
  assumes "env_ok env" "desc_Fstat (fstat_of env) d = (rv, sz)" "rv \<noteq> 0"
  shows "NaClIsNegErrno (word_of_int rv)"
proof -
  have "NaClIsNegErrno (- 22)" by (simp add: NaClIsNegErrno_def)
  then show ?thesis
    using assms small_errno by (cases d) (auto simp: env_ok_def NACL_ABI_EINVAL_def split: sum.splits)
qed

lemma idle_only_maps: "only_maps nap nap' \<Longrightarrow> idle nap' \<longleftrightarrow> idle nap"
proof -
  assume "only_maps nap nap'"
  then obtain h m l where "nap' = nap\<lparr>tables := (tables nap)\<lparr>refs := h\<rparr>, mem_map := m, host_log := l\<rparr>"
    unfolding only_maps_def by blast
  then show ?thesis by (simp add: idle_def)
qed

lemma leave_alive:
  "thread_state nap = NACL_APP_THREAD_ALIVE \<Longrightarrow>
    NaClSysCommonThreadSyscallLeave nap = Inr (nap\<lparr>holding_sr_locks := False\<rparr>)"
  by (simp add: NaClSysCommonThreadSyscallLeave_def)

text \<open>The end of every system call: the reference goes back, the thread leaves.\<close>

lemma leave_placed:
  assumes idle: "idle nap"
    and first: "\<And>lo hi. confined_step lo hi (nap\<lparr>holding_sr_locks := True\<rparr>) nap1"
    and body: "placed maps (take_ref desc out) n nap1 r nap2"
  shows "\<exists>nap'. bind_result (unref_desc nap2 desc) (\<lambda>nap.
      bind_result (NaClSysCommonThreadSyscallLeave nap) (\<lambda>nap. Inr (r, nap))) = Inr (r, nap') \<and> placed maps out n nap r nap'"
proof -
  let ?nap0 = "nap\<lparr>holding_sr_locks := True\<rparr>"
  have same: "text_end nap1 = text_end nap" "addr_bits nap1 = addr_bits nap"
    using first only_maps_same [of ?nap0 nap1] by (simp_all add: confined_step_def)
  obtain lo hi where lo: "text_end nap \<le> lo" "hi \<le> 2 ^ addr_bits nap" "space_inv (take_ref desc out) nap2"
      "confined_step lo hi nap1 nap2"
      "NaClIsNegErrno r \<or> unat r = lo \<and> hi = lo + n \<and> lo mod 65536 = 0 \<and> (maps \<longrightarrow> all_mapped lo hi nap2)"
    using body by (auto simp: placed_def good_step_def same)
  obtain h where h: "unref_desc nap2 desc = Inr (nap2\<lparr>tables := (tables nap2)\<lparr>refs := h\<rparr>\<rparr>)"
      "space_inv out (nap2\<lparr>tables := (tables nap2)\<lparr>refs := h\<rparr>\<rparr>)"
    using unref_desc_step [OF lo(3)] by blast
  let ?nap3 = "nap2\<lparr>tables := (tables nap2)\<lparr>refs := h\<rparr>\<rparr>"
  have step: "confined_step lo hi ?nap0 ?nap3"
    using confined_step_trans [OF confined_step_trans [OF first lo(4)] confined_step_refs] .
  then have "thread_state ?nap3 = NACL_APP_THREAD_ALIVE"
    using only_maps_same(8) [of ?nap0 ?nap3] idle by (simp add: confined_step_def idle_def)
  moreover have "confined_step lo hi nap (?nap3\<lparr>holding_sr_locks := False\<rparr>)"
    using confined_step_flags(2) [OF step] idle by (simp add: idle_def)
  moreover have "all_mapped lo hi (?nap3\<lparr>holding_sr_locks := False\<rparr>) = all_mapped lo hi nap2"
    by (simp add: all_mapped_def vm_view_refs)
  ultimately have "placed maps out n nap r (?nap3\<lparr>holding_sr_locks := False\<rparr>)"
    using h(2) lo(5) by (intro placed_by [OF lo(1,2)]) (simp_all add: good_step_def)
  then show ?thesis using h(1) \<open>thread_state ?nap3 = _\<close> by (simp add: leave_alive)
qed

lemma mmap_places:
  assumes inv: "space_inv out nap" and few: "few out nap" and env: "env_ok env" and idle: "idle nap"
    and d: "-2147483648 \<le> d" "d < 2147483648"
    and few2: "\<And>p. few (take_ref (Some p) out) nap"
  shows "places out (unat (NaClRoundAllocPage len)) nap (NaClCommonSysMmap env nap start len pr flags d off)"
proof -
  let ?nap0 = "nap\<lparr>holding_sr_locks := True\<rparr>" and ?n = "unat (NaClRoundAllocPage len)"
  let ?fl = "flags AND (NACL_ABI_MAP_FIXED OR NACL_ABI_MAP_SHARED OR NACL_ABI_MAP_PRIVATE OR NACL_ABI_MAP_ANONYMOUS)"
  have few': "few (take_ref desc out) nap" for desc using few few2 by (cases desc) (simp_all add: take_ref_def)
  have inv0: "space_inv out ?nap0" "few out ?nap0" using inv few by simp_all
  have "\<exists>desc h. (if ?fl AND NACL_ABI_MAP_ANONYMOUS \<noteq> 0 then Inr (None, ?nap0) else get_desc ?nap0 d) =
        Inr (desc, ?nap0\<lparr>tables := (tables ?nap0)\<lparr>refs := h\<rparr>\<rparr>) \<and>
      space_inv (take_ref desc out) (?nap0\<lparr>tables := (tables ?nap0)\<lparr>refs := h\<rparr>\<rparr>)"
  proof (cases "?fl AND NACL_ABI_MAP_ANONYMOUS = 0")
    case True
    then show ?thesis using get_desc_step [OF inv0 _ d] idle by (auto simp: idle_def)
  next
    case False
    then show ?thesis
      using inv0(1) by (intro exI [of _ None] exI [of _ "refs (tables nap)"]) (simp add: take_ref_def)
  qed
  then obtain desc h where desc: "(if ?fl AND NACL_ABI_MAP_ANONYMOUS \<noteq> 0 then Inr (None, ?nap0) else get_desc ?nap0 d) =
        Inr (desc, ?nap0\<lparr>tables := (tables ?nap0)\<lparr>refs := h\<rparr>\<rparr>)"
      "space_inv (take_ref desc out) (?nap0\<lparr>tables := (tables ?nap0)\<lparr>refs := h\<rparr>\<rparr>)"
    by blast
  let ?nap1 = "?nap0\<lparr>tables := (tables ?nap0)\<lparr>refs := h\<rparr>\<rparr>"
  have g: "geometry ?nap1" using desc(2) by (simp add: space_inv_def)
  have few1: "few (take_ref desc out) ?nap1" using few' by (simp add: few_def table_refs_def)
  have mu1: "\<not> mu ?nap1" using idle by (simp add: idle_def)
  have live: "0 < take_ref desc out p" if "desc = Some p" for p using that by (simp add: take_ref_def)
  have okk: "\<And>k. ok_of env k" using env by (simp add: env_ok_def)
  define body where "body = (if \<not> ?fl AND NACL_ABI_MAP_ANONYMOUS \<noteq> 0 \<and> desc = None then Inr (neg_errno NACL_ABI_EBADF, ?nap1)
      else mmap_body env ?nap1 desc start len pr ?fl off)"
  have places: "places (take_ref desc out) ?n ?nap1 body"
    unfolding body_def
    using mmap_body_places [OF desc(2) few1 okk mu1 live desc_Fstat_errno [OF env]]
      placed_error [OF g, of "take_ref desc out" ?nap1] desc(2)
    by (auto simp: good_step_def)
  have run: "NaClCommonSysMmap env nap start len pr flags d off = bind_result body (\<lambda>(retval, nap).
      bind_result (unref_desc nap desc) (\<lambda>nap.
      bind_result (NaClSysCommonThreadSyscallLeave nap) (\<lambda>nap. Inr (retval, nap))))"
    unfolding NaClCommonSysMmap_def NaClSysCommonThreadSyscallEnter_def Let_def desc(1) bind_result_simps
      prod.case body_def by (rule refl)
  show ?thesis
  proof (cases body)
    case (Inl f)
    then show ?thesis using places by (simp add: run)
  next
    case (Inr p)
    obtain r nap2 where p: "p = (r, nap2)" by (cases p)
    have "placed True (take_ref desc out) ?n ?nap1 r nap2" using places Inr p by simp
    from leave_placed [OF idle confined_step_refs this] Inr p show ?thesis by (auto simp: run)
  qed
qed

section \<open>munmap\<close>

lemma unmap_step:
  assumes inv: "space_inv out nap" and few: "few out nap" and ok: "\<And>k. ok k" and reg: "region nap u n"
    and above: "131072 \<le> unat u" and tramp: "vm_view (vmap nap) 16 \<noteq> None"
  shows "\<exists>m'. NaClVmmapUpdate ok (vmap nap) (drop_bit NACL_PAGESHIFT u) (drop_bit NACL_PAGESHIFT n) 0 None True = Inr m' \<and>
    good_step out (unat u) (unat u + unat n) nap (put_vmap nap m') \<and>
    (\<forall>q. in_pages (unat u) (unat u + unat n) q \<longrightarrow> vm_view m' q = None)"
proof -
  let ?ext = "\<lambda>p. table_refs nap p + out p"
  have g: "geometry nap" and vm: "vm_inv ?ext (vmap nap)" using inv by (simp_all add: space_inv_def)
  have size: "2 ^ addr_bits nap \<le> (4294967296 :: nat)"
    using g power_increasing [of "addr_bits nap" 32 "2 :: nat"] by (simp add: geometry_def)
  note r = reg [unfolded region_def]
  have bounds: "0 < unat (drop_bit NACL_PAGESHIFT n)"
      "unat (drop_bit NACL_PAGESHIFT u) + unat (drop_bit NACL_PAGESHIFT n) \<le> page_limit"
    using r size by (auto simp: unat_page page_limit_def mod_eq_0_iff_dvd elim!: dvdE)
  have lim: "held (mset (ents (vmap nap) (nvalid (vmap nap)))) p + ?ext p < 4294967295" for p
    using map_refs_le [OF inv, of p] few [unfolded few_def, THEN spec, of p]
    by (simp add: map_refs_vmap page_limit_def)
  have left: "\<exists>q v. vm_view (vmap nap) q = Some v \<and>
      \<not> (unat (drop_bit NACL_PAGESHIFT u) \<le> q \<and> q < unat (drop_bit NACL_PAGESHIFT u) + unat (drop_bit NACL_PAGESHIFT n))"
    using tramp above by (intro exI [of _ 16]) (auto simp: unat_page)
  obtain m' where m': "NaClVmmapUpdate ok (vmap nap) (drop_bit NACL_PAGESHIFT u) (drop_bit NACL_PAGESHIFT n) 0 None True = Inr m'"
      "vm_inv ?ext m'" "\<And>q. vm_view m' q = (if in_pages (unat u) (unat u + unat n) q then None else vm_view (vmap nap) q)"
    using update_view [where ok = ok and ?o1.0 = None and remove = True and pr = 0, OF vm bounds ok lim _ left]
    unfolding unat_page using r pages_iff [of "unat u" "unat n"] by auto
  have "remapped (unat u) (unat u + unat n) nap (put_vmap nap m')" using m'(3) by (simp add: remapped_def)
  then have "good_step out (unat u) (unat u + unat n) nap (put_vmap nap m')"
    using space_inv_put [OF inv m'(2)] by (simp add: good_step_def confined_step_def logged_def only_maps_put)
  then show ?thesis using m'(1,3) by auto
qed

lemma range_ok:
  assumes g: "geometry nap" and ok: "NaClUserToSysAddrRange nap u n \<noteq> kNaClBadAddress"
  shows "0 < unat u" "unat u + unat n < 2 ^ addr_bits nap" "NaClUserToSysAddrRange nap u n = u + mem_start nap"
proof -
  have c: "u \<noteq> 0" "u \<le> u + n" "u + n < space_size nap" "NaClUserToSysAddrRange nap u n = u + xlate_base nap"
    using ok by (auto simp: NaClUserToSysAddrRange_def Let_def not_less not_le split: if_splits)
  then have "unat (u + n) = unat u + unat n" by (simp add: unat_plus_simple)
  then show "0 < unat u" "unat u + unat n < 2 ^ addr_bits nap" "NaClUserToSysAddrRange nap u n = u + mem_start nap"
    using c unat_space_size [OF g] g by (simp_all add: word_less_nat_alt unat_gt_0 geometry_def)
qed

text \<open>\<open>munmap\<close> returns 0 for its own start address.\<close>

definition unmapped :: "u32 \<Rightarrow> nat \<Rightarrow> u32 \<Rightarrow> NaClAppSpace \<Rightarrow> bool" where
  "unmapped start n r nap' \<longleftrightarrow>
     (r = 0 \<longrightarrow> (\<forall>q. in_pages (unat start) (unat start + n) q \<longrightarrow> vm_view (vmap nap') q = None))"

lemma neg_not_zero: "NaClIsNegErrno r \<Longrightarrow> r \<noteq> 0"
  by (auto simp: NaClIsNegErrno_def)

lemma munmap_locked_frees:
  assumes inv: "space_inv out nap" and few: "few out nap" and env: "env_ok env"
    and tramp: "vm_view (vmap nap) 16 \<noteq> None" and start: "unat start mod 65536 = 0" "0 < unat start"
    and len: "unat n mod 65536 = 0" "unat start + unat n < 2 ^ addr_bits nap"
  shows "\<exists>r nap'. munmap_locked env nap start (start + mem_start nap) n = Inr (r, nap') \<and>
    placed False out (unat n) nap (if r = 0 then start else r) nap' \<and> unmapped start (unat n) r nap'"
proof -
  have g: "geometry nap" using inv by (simp add: space_inv_def)
  let ?op = "Mmap (start + mem_start nap) n 0 (NACL_ABI_MAP_PRIVATE OR NACL_ABI_MAP_ANONYMOUS OR NACL_ABI_MAP_FIXED) None 0"
  let ?nap = "nap\<lparr>host_log := host_log nap @ [?op]\<rparr>"
  have ok: "\<And>k. ok_of env k" using env by (simp add: env_ok_def)
  show ?thesis
  proof (cases "NaClSysCommonAddrRangeContainsExecutablePages_mu nap start n")
    case True
    have "neg_errno NACL_ABI_EINVAL \<noteq> 0" using neg_not_zero [OF errno_simps(1)] .
    then show ?thesis
      using True placed_error [OF g, of out nap] inv by (simp add: munmap_locked_def good_step_def unmapped_def)
  next
    case False
    note above = not_executable [OF g False]
    have sys: "unat (start + mem_start nap) = unat (mem_start nap) + unat start"
      using unat_sys [OF g, of start] len by simp
    have step: "good_step out (unat start) (unat start + unat n) nap ?nap"
      using good_step_log [OF inv, of "[?op]"] sys by (simp add: confined_def no_exec_def)
    show ?thesis
    proof (cases "host_of env (host_log nap) ?op")
      case (Inl e)
      have "0 < e" "e < 65536" using env Inl by (auto simp: env_ok_def)
      then have neg: "NaClIsNegErrno (neg_errno e)" using small_errno [of e] by (simp add: neg_errno_def)
      then have "placed False out (unat n) nap (neg_errno e) ?nap"
        using placedI [OF step above, where r = "neg_errno e" and maps = False] len(2) by simp
      then show ?thesis
        using False Inl neg_not_zero [OF neg] by (simp add: munmap_locked_def Let_def unmapped_def)
    next
      case (Inr a)
      have "n \<noteq> 0" using env Inr unfolding env_ok_def by (metis Inr isl_def sum.distinct(1))
      then have reg: "region ?nap start n"
        using start len unit_page by (simp add: region_def unat_gt_0)
      have user: "NaClSysToUser ?nap (start + mem_start nap) = Inr start"
        using NaClSysToUser_ok [of ?nap start] g len(2) by (simp add: geometry_def)
      have few': "few out ?nap" "space_inv out ?nap" "vm_view (vmap ?nap) 16 \<noteq> None"
        using few inv tramp by (simp_all add: few_def table_refs_def space_inv_log)
      have "131072 \<le> unat start" using above by (simp add: text_end_def)
      from unmap_step [where ok = "ok_of env", OF few'(2,1) ok reg this few'(3)] obtain m' where
        m': "NaClVmmapUpdate (ok_of env) (vmap ?nap) (drop_bit NACL_PAGESHIFT start) (drop_bit NACL_PAGESHIFT n) 0 None True = Inr m'"
          "good_step out (unat start) (unat start + unat n) ?nap (put_vmap ?nap m')"
          "\<forall>q. in_pages (unat start) (unat start + unat n) q \<longrightarrow> vm_view m' q = None" by blast
      have "munmap_locked env nap start (start + mem_start nap) n = Inr (0, put_vmap ?nap m')"
        using False Inr user m'(1) by (simp add: munmap_locked_def Let_def)
      moreover have "placed False out (unat n) nap start (put_vmap ?nap m')"
        using placedI [OF good_step_trans [OF step m'(2)] above, where r = start and maps = False] len(2) start(1) by simp
      ultimately show ?thesis using m'(3) by (simp add: unmapped_def)
    qed
  qed
qed

lemma munmap_frees:
  assumes inv: "space_inv out nap" and few: "few out nap" and env: "env_ok env" and idle: "idle nap"
    and tramp: "vm_view (vmap nap) 16 \<noteq> None"
  shows "\<exists>r nap'. NaClSysMunmap env nap start len = Inr (r, nap') \<and>
    placed False out (unat (NaClRoundAllocPage len)) nap (if r = 0 then start else r) nap' \<and>
    unmapped start (unat (NaClRoundAllocPage len)) r nap'"
proof -
  let ?nap0 = "nap\<lparr>holding_sr_locks := True\<rparr>" and ?n = "NaClRoundAllocPage len"
  have g: "geometry nap" using inv by (simp add: space_inv_def)
  have refuse: "placed False out m ?nap0 r ?nap0" if "NaClIsNegErrno r" for r m
    by (rule placed_error [OF _ _ that]) (simp_all add: g good_step_def inv)
  have "\<exists>r nap'. munmap_body env ?nap0 start len = Inr (r, nap') \<and>
      placed False out (unat ?n) ?nap0 (if r = 0 then start else r) nap' \<and> unmapped start (unat ?n) r nap'"
  proof (cases "NaClIsAllocPageMultiple start \<and> len \<noteq> 0 \<and> NaClUserToSysAddrRange ?nap0 start ?n \<noteq> kNaClBadAddress")
    case False
    then show ?thesis
      using refuse neg_not_zero [OF errno_simps(1)] neg_not_zero [OF errno_simps(4)]
      by (auto simp: munmap_body_def Let_def unmapped_def)
  next
    case True
    have start: "unat start mod 65536 = 0" using True alloc_page_mod(3) by simp
    have g0: "geometry ?nap0" using g by simp
    note range = range_ok [OF g0 conjunct2 [OF conjunct2 [OF True]]]
    obtain r nap' where r: "munmap_locked env (?nap0\<lparr>mu := True\<rparr>) start (start + mem_start ?nap0) ?n = Inr (r, nap')"
        "placed False out (unat ?n) (?nap0\<lparr>mu := True\<rparr>) (if r = 0 then start else r) nap'" "unmapped start (unat ?n) r nap'"
      using munmap_locked_frees [of out "?nap0\<lparr>mu := True\<rparr>" env start ?n] inv few env tramp start range alloc_page_mod(1)
      by auto
    have "\<not> mu ?nap0" using idle by (simp add: idle_def)
    then have "munmap_body env ?nap0 start len = Inr (r, nap'\<lparr>mu := False\<rparr>)"
      using True r(1) range(3) by (simp add: munmap_body_def Let_def)
    moreover have "placed False out (unat ?n) ?nap0 (if r = 0 then start else r) (nap'\<lparr>mu := False\<rparr>)"
      by (rule placed_mu [OF r(2) \<open>\<not> mu ?nap0\<close>])
    ultimately show ?thesis using r(3) by (simp add: unmapped_def)
  qed
  then obtain r nap2 where body: "munmap_body env ?nap0 start len = Inr (r, nap2)"
      "placed False out (unat ?n) ?nap0 (if r = 0 then start else r) nap2" "unmapped start (unat ?n) r nap2"
    by blast
  have "placed False (take_ref None out) (unat ?n) ?nap0 (if r = 0 then start else r) nap2"
    using body(2) by (simp add: take_ref_def)
  from leave_placed [OF idle confined_step_refl this] obtain nap' where
    "NaClSysCommonThreadSyscallLeave nap2 = Inr nap'" "placed False out (unat ?n) nap (if r = 0 then start else r) nap'"
    by (auto simp: unref_desc_def bind_result_eq_Inr)
  moreover from this(1) have "vmap nap' = vmap nap2"
    by (auto simp: NaClSysCommonThreadSyscallLeave_def Let_def split: NaClAppThreadState.splits)
  ultimately show ?thesis
    using body(1,3) by (simp add: NaClSysMunmap_def NaClSysCommonThreadSyscallEnter_def unmapped_def)
qed

end
