(* ===== verification/Sys_Brk.thy ===== *)
theory Sys_Brk
  imports Sys_Mmap_Props
begin

text \<open>
  What \<open>brk\<close> does: a break that moves inside its entry moves only the break, one that moves
  beyond extends the entry over free pages up to a 64 KB boundary, and anything else leaves
  the address space as it is.
\<close>

section \<open>Extending an entry in place\<close>

lemma gapped_once:
  assumes "gapped es" "\<forall>e \<in> set es. good_entry e" shows "once (mset es)"
  using assms
proof (induction es)
  case (Cons e es)
  have "\<not> covers f q" if "f \<in> set es" "covers e q" for f q
    using Cons.prems(1) that by (auto simp: gapped_def covers_def)
  then show ?case using Cons by (simp add: once_add gapped_def)
qed (simp add: once_def)

definition widened :: "NaClVmmapEntry \<Rightarrow> u32 \<Rightarrow> NaClVmmapEntry" where
  "widened ent lst = ent\<lparr>npages := lst - page_num ent + 1\<rparr>"

lemma widened_end:
  assumes "good_entry ent" "e_end ent \<le> unat lst" "unat lst < page_limit"
  shows "e_start (widened ent lst) = e_start ent" "e_end (widened ent lst) = unat lst + 1" "good_entry (widened ent lst)"
    "covers (widened ent lst) q \<longleftrightarrow> covers ent q \<or> e_end ent \<le> q \<and> q \<le> unat lst"
proof -
  have le: "unat (page_num ent) < e_end ent" "e_end ent \<le> page_limit" "\<not> removed ent"
    using assms(1) by (auto simp: good_entry_def e_end_def)
  then have "page_num ent \<le> lst" using assms(2) by (simp add: word_le_nat_alt)
  then have "unat (lst - page_num ent) = unat lst - unat (page_num ent)" by (simp add: unat_sub)
  then have "unat (lst - page_num ent + 1) = unat lst - unat (page_num ent) + 1"
    using assms(3) by (simp add: unat_plus_u32 page_limit_def)
  then show st: "e_start (widened ent lst) = e_start ent" "e_end (widened ent lst) = unat lst + 1"
    using le assms(2) by (simp_all add: widened_def e_start_def e_end_def)
  show "good_entry (widened ent lst)"
    using st le assms(2,3) by (simp add: good_entry_def) (simp add: widened_def e_end_def page_limit_def)
  show "covers (widened ent lst) q \<longleftrightarrow> covers ent q \<or> e_end ent \<le> q \<and> q \<le> unat lst"
    using st le assms(2) by (auto simp: covers_def e_start_def)
qed

lemma gapped_update:
  assumes "gapped es" "i < length es" "e_start e' = e_start (es ! i)" "\<forall>f \<in> set es. good_entry f"
    and "\<And>j. i < j \<Longrightarrow> j < length es \<Longrightarrow> e_end e' \<le> e_start (es ! j)"
  shows "gapped (es[i := e'])"
  unfolding gapped_def sorted_wrt_iff_nth_less
proof (intro allI impI)
  fix a b assume "a < b" "b < length (es[i := e'])"
  then show "e_end (es[i := e'] ! a) \<le> e_start (es[i := e'] ! b)"
    using assms(2,3,5) gapped_nth [OF assms(1), of a b] by (cases "a = i"; cases "b = i") auto
qed

lemma widen_entry:
  assumes inv: "vm_inv ext m" and gap: "gapped (ents m (nvalid m))" and i: "i < nvalid m"
    and ent: "ent = ents m (nvalid m) ! i" and lst: "e_end ent \<le> unat lst" "unat lst < page_limit"
    and free: "i + 1 < nvalid m \<Longrightarrow> unat lst < e_start (ents m (nvalid m) ! (i + 1))"
  shows "vm_inv ext (set_slot_at m i (Some (widened ent lst)))"
    "vm_view (set_slot_at m i (Some (widened ent lst))) q =
      (if e_end ent \<le> q \<and> q \<le> unat lst then Some (prot ent, backing ent q) else vm_view m q)"
    "e_end ent \<le> q \<and> q \<le> unat lst \<Longrightarrow> vm_view m q = None"
proof -
  let ?es = "ents m (nvalid m)" and ?w = "widened ent lst" and ?m = "set_slot_at m i (Some (widened ent lst))"
  have full: "full m (nvalid m)" and good: "\<forall>e \<in> set ?es. good_entry e" and once: "once (mset ?es)"
    using inv by (simp_all add: vm_inv_def sweeping_def)
  have len: "length ?es = nvalid m" using full by simp
  have mem: "ent \<in> set ?es" unfolding ent using i len by simp
  note w = widened_end [OF good [rule_format, OF mem] lst]
  have "take (nvalid m) ((vmentry m)[i := Some ?w]) = map Some (?es[i := ?w])"
    using full i by (simp add: take_update_swap full_map_Some map_update)
  from fullI [of "nvalid m" ?m, unfolded set_slot_at_simps, OF this]
  have es: "full ?m (nvalid m)" "ents ?m (nvalid m) = ?es[i := ?w]" using len by simp_all
  have later: "e_end ?w \<le> e_start (?es ! j)" if "i < j" "j < length ?es" for j
  proof -
    have "i + 1 < nvalid m" using that len by simp
    from free [OF this] have "e_end ?w \<le> e_start (?es ! (i + 1))" using w(2) by simp
    also have "\<dots> \<le> e_start (?es ! j)"
    proof (cases "i + 1 = j")
      case False
      have "e_start (?es ! (i + 1)) \<le> e_end (?es ! (i + 1))" by (simp add: e_start_def e_end_def)
      also have "\<dots> \<le> e_start (?es ! j)" using gapped_nth [OF gap, of "i + 1" j] False that by simp
      finally show ?thesis .
    qed simp
    finally show ?thesis .
  qed
  have gap': "gapped (?es[i := ?w])"
    by (rule gapped_update [OF gap _ _ good later]) (use i len w(1) ent in auto)
  have good': "\<forall>e \<in> set (?es[i := ?w]). good_entry e" using good w(3) by (auto dest!: set_update_subset_insert [THEN subsetD])
  note once' = gapped_once [OF gap' good']
  have owner: "mset (?es[i := ?w]) = add_mset ?w (mset ?es - {#ent#})"
    using i len ent by (simp add: mset_update)
  have "held (mset (?es[i := ?w])) p = held (mset ?es) p" for p
  proof -
    have "mset ?es = add_mset ent (mset ?es - {#ent#})" using mem by simp
    then have "held (mset ?es) p = owns ent p + held (mset ?es - {#ent#}) p" by (metis held_simps(2))
    moreover have "owns ?w p = owns ent p" by (simp add: owns_def widened_def)
    ultimately show ?thesis by (simp only: owner held_simps)
  qed
  then show "vm_inv ext ?m"
    using inv es gap' good' once' by (simp add: vm_inv_def sweeping_def)
  have views: "vm_view ?m q = Some v \<longleftrightarrow> (\<exists>e \<in> set (?es[i := ?w]). covers e q \<and> v = (prot e, backing e q))"
    "vm_view m q = Some v \<longleftrightarrow> (\<exists>e \<in> set ?es. covers e q \<and> v = (prot e, backing e q))" for v q
    using vm_view_Some [of ?m q v] vm_view_Some [OF once, of q v] once' es by simp_all
  have same: "prot ?w = prot ent" "backing ?w q = backing ent q"
    by (simp_all add: widened_def backing_def e_start_def)
  have w_in: "?w \<in> set (?es[i := ?w])" using i len by (simp add: set_update_memI)
  show none: "vm_view m q = None" if q: "e_end ent \<le> q \<and> q \<le> unat lst"
  proof (rule ccontr)
    assume "vm_view m q \<noteq> None"
    then obtain j where j: "j < nvalid m" "covers (?es ! j) q" using views(2) len by (auto simp: in_set_conv_nth)
    consider "j < i" | "j = i" | "i < j" by linarith
    then show False
    proof cases
      case 1
      have "e_end (?es ! j) \<le> e_start ent" using gapped_nth [OF gap 1] i len ent by simp
      then show False using j(2) q good mem by (auto simp: covers_def e_start_def e_end_def)
    next
      case 2
      then show False using j(2) q ent by (simp add: covers_def)
    next
      case 3
      then show False using later [OF 3] j q len w(2) by (simp add: covers_def)
    qed
  qed
  show "vm_view ?m q = (if e_end ent \<le> q \<and> q \<le> unat lst then Some (prot ent, backing ent q) else vm_view m q)"
  proof (cases "e_end ent \<le> q \<and> q \<le> unat lst")
    case True
    then have "vm_view ?m q = Some (prot ?w, backing ?w q)" using views(1) w_in w(4) by blast
    then show ?thesis using True same by simp
  next
    case False
    have "vm_view ?m q = Some v \<longleftrightarrow> vm_view m q = Some v" for v
    proof
      assume "vm_view ?m q = Some v"
      then obtain e where e: "e \<in> set (?es[i := ?w])" "covers e q" "v = (prot e, backing e q)" using views(1) by blast
      then consider "e = ?w" | "e \<in> set ?es" using set_update_subset_insert [of ?es i ?w] by blast
      then show "vm_view m q = Some v"
        using views(2) e mem w(4) False same by cases auto
    next
      assume "vm_view m q = Some v"
      then obtain j where j: "j < nvalid m" "covers (?es ! j) q" "v = (prot (?es ! j), backing (?es ! j) q)"
        using views(2) len by (auto simp: in_set_conv_nth)
      show "vm_view ?m q = Some v"
      proof (cases "j = i")
        case True
        then have "covers ?w q" "v = (prot ?w, backing ?w q)" using w(4) j ent same by simp_all
        then show ?thesis using views(1) w_in by blast
      next
        case False
        then have "?es ! j \<in> set (?es[i := ?w])" using j(1) len by (metis length_list_update nth_list_update_neq nth_mem)
        then show ?thesis using views(1) j by blast
      qed
    qed
    then show ?thesis using False by (metis option.exhaust)
  qed
qed

section \<open>Growing the break\<close>

text \<open>Above the text nothing is executable, and the break lies above the text.\<close>

definition data_ok :: "NaClAppSpace \<Rightarrow> bool" where
  "data_ok nap \<longleftrightarrow> text_end nap mod 4096 = 0 \<and> text_end nap < unat (data_end nap) \<and>
     data_end nap \<le> break_addr nap \<and> unat (break_addr nap) < 2 ^ addr_bits nap \<and>
     (\<forall>q pr b. text_end nap \<le> q * 4096 \<longrightarrow> vm_view (vmap nap) q = Some (pr, b) \<longrightarrow> no_exec (word_of_int pr))"

text \<open>Only the break may differ from a confined step.\<close>

definition brk_done :: "(nat \<Rightarrow> nat) \<Rightarrow> NaClAppSpace \<Rightarrow> u32 \<Rightarrow> u32 \<Rightarrow> NaClAppSpace \<Rightarrow> bool" where
  "brk_done out nap new_break r nap' \<longleftrightarrow>
     (\<exists>lo hi. text_end nap \<le> lo \<and> hi \<le> 2 ^ addr_bits nap \<and>
        good_step out lo hi nap (nap'\<lparr>break_addr := break_addr nap\<rparr>)) \<and>
     (break_addr nap' = break_addr nap \<and> r = break_addr nap \<or>
      break_addr nap' = new_break \<and> data_end nap \<le> new_break \<and> (r = new_break \<or> new_break \<le> break_addr nap \<and> r = break_addr nap))"

lemma push_page:
  fixes w :: u32
  assumes "unat w * 4096 < 4294967296"
  shows "unat (push_bit NACL_PAGESHIFT w) = unat w * 4096"
proof -
  have "unat (push_bit NACL_PAGESHIFT w) = unat (w * 4096)" by (simp add: push_bit_eq_mult NACL_PAGESHIFT_def)
  also have "\<dots> = unat w * 4096" using assms by (simp add: unat_word_ariths)
  finally show ?thesis .
qed

lemma last_page:
  assumes "0 < unat nb" "unat nb + 65536 \<le> 4294967296"
  shows "unat (drop_bit NACL_PAGESHIFT (NaClRoundAllocPage nb - 1)) = units (unat nb) div 4096 - 1"
    "(units (unat nb) div 4096 - 1 + 1) * 4096 = units (unat nb)" "(unat nb - 1) div 4096 \<le> units (unat nb) div 4096 - 1"
proof -
  define k where "k = (unat nb + 65535) div 65536"
  have u: "units (unat nb) = k * 65536" "unat (NaClRoundAllocPage nb) = k * 65536"
    using NaClRoundAllocPage_unat [of nb] assms by (simp_all add: units_def k_def)
  have k: "0 < k" "unat nb \<le> k * 65536"
    using assms(1) units_le [of "unat nb"] u by (auto simp: k_def)
  have "unat (NaClRoundAllocPage nb - 1) = k * 65536 - 1" using u k by (simp add: unat_minus_1)
  moreover have "(k * 65536 - 1) div 4096 = k * 16 - 1"
  proof -
    obtain j where "k = Suc j" using k(1) gr0_implies_Suc by blast
    then show ?thesis by simp
  qed
  ultimately show "unat (drop_bit NACL_PAGESHIFT (NaClRoundAllocPage nb - 1)) = units (unat nb) div 4096 - 1"
    by (simp add: unat_page u)
  show "(units (unat nb) div 4096 - 1 + 1) * 4096 = units (unat nb)" using k(1) by (simp add: u)
  have "(unat nb - 1) div 4096 \<le> (k * 65536 - 1) div 4096" using k(2) by (intro div_le_mono) simp
  then show "(unat nb - 1) div 4096 \<le> units (unat nb) div 4096 - 1"
    using \<open>(k * 65536 - 1) div 4096 = k * 16 - 1\<close> by (simp add: u)
qed

lemma extend_break_done:
  assumes inv: "space_inv out nap" and vm: "vm_inv (\<lambda>p. table_refs nap p + out p) m" "vm_view m = vm_view (vmap nap)"
    and gap: "gapped (ents m (nvalid m))" and i: "i < nvalid m" and ent: "ent = ents m (nvalid m) ! i"
    and lst: "e_end ent \<le> unat lst" "(unat lst + 1) * 4096 \<le> 2 ^ addr_bits nap"
    and free: "i + 1 < nvalid m \<Longrightarrow> unat lst < e_start (ents m (nvalid m) ! (i + 1))"
    and low: "text_end nap \<le> e_end ent * 4096" and ne: "no_exec (word_of_int (prot ent))"
  shows "extend_break env (put_vmap nap m) i ent lst nb = Inl LogFatal \<or>
    (\<exists>nap'. extend_break env (put_vmap nap m) i ent lst nb = Inr (nb, nap') \<and> break_addr nap' = nb \<and>
      good_step out (e_end ent * 4096) ((unat lst + 1) * 4096) nap (nap'\<lparr>break_addr := break_addr nap\<rparr>))"
proof -
  let ?m = "set_slot_at m i (Some (widened ent lst))"
  have g: "geometry nap" using inv by (simp add: space_inv_def)
  have size: "2 ^ addr_bits nap \<le> (2147483648 :: nat)"
    using g power_increasing [of "addr_bits nap" 31 "2 :: nat"] by (simp add: geometry_def)
  have lim: "unat lst < page_limit" using lst(2) size by (simp add: page_limit_def)
  note w = widen_entry [OF vm(1) gap i ent lst(1) lim free]
  have good: "good_entry ent" using vm(1) i unfolding ent by (simp add: vm_inv_def sweeping_def)
  let ?new = "push_bit NACL_PAGESHIFT (page_num ent + npages ent)" and ?top = "push_bit NACL_PAGESHIFT (lst + 1)"
  have lst1: "unat (lst + 1) = unat lst + 1" using lim by (simp add: unat_plus_u32 page_limit_def)
  have new: "unat ?new = e_end ent * 4096"
    using push_page [of "page_num ent + npages ent"] good_end [OF good] lst size by simp
  have top: "unat ?top = (unat lst + 1) * 4096" using push_page [of "lst + 1"] lst1 lst size by simp
  have len: "unat (?top - ?new) = (unat lst + 1) * 4096 - e_end ent * 4096"
    using new top lst(1) by (simp add: unat_sub word_le_nat_alt)
  have user: "NaClUserToSys (put_vmap nap ?m) ?new = Inr (?new + mem_start nap)"
    using NaClUserToSys_ok [of "put_vmap nap ?m" ?new] g new lst low by (simp add: text_end_def)
  let ?op = "Mprotect (?new + mem_start nap) (?top - ?new) (NACL_ABI_PROT_READ OR NACL_ABI_PROT_WRITE)"
  have same: "(put_vmap nap m)\<lparr>mem_map := set_slot_at (mem_map (put_vmap nap m)) i (Some (widened ent lst))\<rparr> = put_vmap nap ?m"
    by (simp add: put_vmap_def)
  show ?thesis
  proof (cases "host_of env (host_log nap) ?op")
    case (Inl e)
    then show ?thesis
      unfolding extend_break_def Let_def widened_def [symmetric] same user by simp
  next
    case (Inr a)
    let ?nap' = "(put_vmap nap ?m)\<lparr>host_log := host_log nap @ [?op], break_addr := nb\<rparr>"
    have run: "extend_break env (put_vmap nap m) i ent lst nb = Inr (nb, ?nap')"
      using Inr unfolding extend_break_def Let_def widened_def [symmetric] same user by simp
    have eq: "?nap'\<lparr>break_addr := break_addr nap\<rparr> = (put_vmap nap ?m)\<lparr>host_log := host_log (put_vmap nap ?m) @ [?op]\<rparr>"
      by (simp add: put_vmap_def)
    have "remapped (e_end ent * 4096) ((unat lst + 1) * 4096) nap (put_vmap nap ?m)"
      unfolding remapped_def
    proof
      fix q
      show "vm_view (vmap (put_vmap nap ?m)) q = vm_view (vmap nap) q \<or> in_pages (e_end ent * 4096) ((unat lst + 1) * 4096) q \<and>
          (case vm_view (vmap (put_vmap nap ?m)) q of None \<Rightarrow> True | Some (pr, _) \<Rightarrow> no_exec (word_of_int pr))"
        using w(2) [of q] vm(2) ne by (auto simp: in_pages_def)
    qed
    then have "good_step out (e_end ent * 4096) ((unat lst + 1) * 4096) nap (put_vmap nap ?m)"
      using space_inv_put [OF inv w(1)] by (simp add: good_step_def confined_step_def logged_def only_maps_put)
    moreover have "good_step out (e_end ent * 4096) ((unat lst + 1) * 4096) (put_vmap nap ?m)
        (?nap'\<lparr>break_addr := break_addr nap\<rparr>)"
      unfolding eq
    proof (rule good_step_log [OF space_inv_put [OF inv w(1)]])
      have "unat (?new + mem_start nap) = e_end ent * 4096 + unat (mem_start nap)"
        using unat_sys [OF g, of ?new] new lst by simp
      then show "\<forall>op \<in> set [?op]. confined (unat (mem_start (put_vmap nap ?m)) + e_end ent * 4096)
          (unat (mem_start (put_vmap nap ?m)) + (unat lst + 1) * 4096) op"
        using len lst(1) by (simp add: confined_def no_exec_def prot_consts)
    qed
    ultimately have step: "good_step out (e_end ent * 4096) ((unat lst + 1) * 4096) nap (?nap'\<lparr>break_addr := break_addr nap\<rparr>)"
      by (rule good_step_trans)
    show ?thesis
      by (intro disjI2 exI [of _ ?nap'] conjI, rule run, simp, rule step)
  qed
qed

lemma break_addr_again: "(put_vmap nap m)\<lparr>break_addr := b, break_addr := break_addr nap\<rparr> = put_vmap nap m"
  by (simp add: put_vmap_def)

lemma grow_break_done:
  assumes inv: "space_inv out nap" and data: "data_ok nap"
    and nb: "break_addr nap < nb" "unat nb < 2 ^ addr_bits nap"
  shows "grow_break env nap (break_addr nap) nb = Inl LogFatal \<or>
    (\<exists>r nap'. grow_break env nap (break_addr nap) nb = Inr (r, nap') \<and> brk_done out nap nb r nap')"
proof -
  have g: "geometry nap" and vm: "vm_inv (\<lambda>p. table_refs nap p + out p) (vmap nap)"
    using inv by (simp_all add: space_inv_def)
  let ?b = "break_addr nap" and ?p = "drop_bit NACL_PAGESHIFT (break_addr nap - 1)"
  let ?lst = "drop_bit NACL_PAGESHIFT (NaClRoundAllocPage nb - 1)" and ?new = "drop_bit NACL_PAGESHIFT (nb - 1)"
  have b: "text_end nap < unat ?b" "unat ?b < unat nb" "unat ?b < 2 ^ addr_bits nap"
    using data nb by (auto simp: data_ok_def word_le_nat_alt word_less_nat_alt)
  have user: "NaClUserToSys nap ?b = Inr (?b + mem_start nap)" by (rule NaClUserToSys_ok [OF g]) (use b in auto)
  have p: "unat ?p = (unat ?b - 1) div 4096" "unat ?new = (unat nb - 1) div 4096"
    using b by (simp_all add: unat_page unat_minus_1)
  have size: "unat nb + 65536 \<le> 4294967296"
    using nb(2) g power_increasing [of "addr_bits nap" 31 "2 :: nat"] by (simp add: geometry_def)
  note last = last_page [OF _ size]
  have unit: "units (unat nb) \<le> 2 ^ addr_bits nap"
    using nb(2) g by (intro units_within) (auto simp: geometry_def mod_eq_0_iff_dvd intro: le_imp_power_dvd [of 16 _ "2 :: nat", simplified])
  have above: "text_end nap \<le> unat ?p * 4096"
  proof -
    obtain k where k: "text_end nap = k * 4096" using data by (auto simp: data_ok_def mod_eq_0_iff_dvd elim!: dvdE)
    then have "k \<le> (unat ?b - 1) div 4096" using b(1) by (simp add: less_eq_div_iff_mult_less_eq)
    then show ?thesis by (simp add: p k)
  qed
  have stay: "brk_done out nap nb ?b (put_vmap nap m)" and bump: "brk_done out nap nb nb ((put_vmap nap m)\<lparr>break_addr := nb\<rparr>)"
    if "vm_inv (\<lambda>p. table_refs nap p + out p) m" "vm_view m = vm_view (vmap nap)" for m
  proof -
    have step: "good_step out (text_end nap) (text_end nap) nap (put_vmap nap m)" by (rule good_step_put [OF inv that])
    have room: "text_end nap \<le> 2 ^ addr_bits nap" using g by (simp add: geometry_def text_end_def)
    have id: "(put_vmap nap m)\<lparr>break_addr := ?b\<rparr> = put_vmap nap m" "break_addr (put_vmap nap m) = ?b"
      by (simp_all add: put_vmap_def)
    show "brk_done out nap nb ?b (put_vmap nap m)"
      unfolding brk_done_def id using step room by blast
    have "data_end nap \<le> nb" using data nb(1) unfolding data_ok_def by (meson le_less_trans less_imp_le)
    then show "brk_done out nap nb nb ((put_vmap nap m)\<lparr>break_addr := nb\<rparr>)"
      unfolding brk_done_def break_addr_again using step room by auto
  qed
  obtain r m where m: "find_index (vmap nap) ?p = Inr (r, m)" "vm_inv (\<lambda>p. table_refs nap p + out p) m"
      "gapped (ents m (nvalid m))" "vm_view m = vm_view (vmap nap)" "full m (nvalid m)"
      "case r of None \<Rightarrow> vm_view (vmap nap) (unat ?p) = None
       | Some i \<Rightarrow> i < nvalid m \<and> covers (ents m (nvalid m) ! i) (unat ?p) \<and>
           vm_view (vmap nap) (unat ?p) = Some (prot (ents m (nvalid m) ! i), backing (ents m (nvalid m) ! i) (unat ?p))"
    using find_index_spec [OF vm] by blast
  show ?thesis
  proof (cases r)
    case None
    then show ?thesis
      using m(1) unfolding grow_break_def user NaClVmmapFindPageIter_def by (simp add: NaClVmmapIterAtEnd_def Let_def)
  next
    case (Some i)
    let ?ent = "ents m (nvalid m) ! i"
    have i: "i < nvalid m" "covers ?ent (unat ?p)" "vm_view (vmap nap) (unat ?p) = Some (prot ?ent, backing ?ent (unat ?p))"
      using m(6) Some by simp_all
    have good: "good_entry ?ent" using m(2) i(1) m(5) by (simp add: vm_inv_def)
    have star: "NaClVmmapIterStar m j = Inr (Some (ents m (nvalid m) ! j))" if "j < nvalid m" for j
      using full_nth [OF m(5) that] that m(5) by (auto simp: NaClVmmapIterStar_def full_def)
    have iter: "NaClVmmapFindPageIter (vmap nap) ?p = Inr (i, m)"
      using m(1) Some by (simp add: NaClVmmapFindPageIter_def)
    have start: "grow_break env nap ?b nb =
        (if ?new < page_num ?ent + npages ?ent then Inr (nb, (put_vmap nap m)\<lparr>break_addr := nb\<rparr>)
         else bind_result
            (if NaClVmmapIterAtEnd m (i + 1) then Inr False
             else bind_result (NaClVmmapIterStar m (i + 1)) (\<lambda>star. case star of None \<Rightarrow> Inl NullDeref
                    | Some next_ent \<Rightarrow> Inr (page_num next_ent \<le> ?lst)))
            (\<lambda>runs_into. if runs_into then Inr (?b, put_vmap nap m) else extend_break env (put_vmap nap m) i ?ent ?lst nb))"
      using iter i(1) star [OF i(1)]
      by (simp add: grow_break_def user NaClVmmapIterAtEnd_def NaClVmmapIterIncr_def Let_def)
    show ?thesis
    proof (cases "?new < page_num ?ent + npages ?ent")
      case True
      then show ?thesis using start bump [OF m(2,4)] by simp
    next
      case False
      have e_le: "e_end ?ent \<le> unat ?new" using False good_end [OF good] by (simp add: word_less_nat_alt not_less)
      have lst: "e_end ?ent \<le> unat ?lst" "(unat ?lst + 1) * 4096 = units (unat nb)"
        using e_le last b(2) by (simp_all add: p)
      have low: "text_end nap \<le> e_end ?ent * 4096" using above i(2) by (simp add: covers_def)
      have ne: "no_exec (word_of_int (prot ?ent))" using data above i(3) unfolding data_ok_def by blast
      show ?thesis
      proof (cases "i + 1 < nvalid m \<and> page_num (ents m (nvalid m) ! (i + 1)) \<le> ?lst")
        case True
        then show ?thesis
          using start False star [of "i + 1"] stay [OF m(2,4)] by (simp add: NaClVmmapIterAtEnd_def)
      next
        case no: False
        then have "grow_break env nap ?b nb = extend_break env (put_vmap nap m) i ?ent ?lst nb"
          using start False star [of "i + 1"] by (auto simp: NaClVmmapIterAtEnd_def)
        moreover have "unat ?lst < e_start (ents m (nvalid m) ! (i + 1))" if "i + 1 < nvalid m"
          using no that by (simp add: e_start_def word_le_nat_alt)
        moreover have "data_end nap \<le> nb" using data nb(1) unfolding data_ok_def by (meson le_less_trans less_imp_le)
        ultimately show ?thesis
          using extend_break_done [OF inv m(2,4,3) i(1) refl lst(1) _ _ low ne, of env nb] lst(2) unit low
          unfolding brk_done_def by auto
      qed
    qed
  qed
qed

end
