(* ===== verification/Sys_Calls.thy ===== *)
theory Sys_Calls
  imports Sys_Brk
begin

text \<open>
  Sequences of the memory system calls. Whatever an application asks of \<open>mmap\<close>, \<open>munmap\<close> and
  \<open>brk\<close>, in any order, the trampolines and the text stay mapped as they were, no page above
  them becomes executable, and the host is asked only for changes above the text and inside
  the address space.
\<close>

section \<open>One call of brk\<close>

lemma only_maps_break: "only_maps a b \<Longrightarrow> only_maps (a\<lparr>break_addr := x\<rparr>) (b\<lparr>break_addr := x\<rparr>)"
proof -
  assume "only_maps a b"
  then obtain h m l where b: "b = a\<lparr>tables := (tables a)\<lparr>refs := h\<rparr>, mem_map := m, host_log := l\<rparr>"
    unfolding only_maps_def by blast
  show ?thesis by (rule only_mapsI [where h = h and m = m and l = l]) (simp add: b)
qed

lemma vmap_break [simp]: "vmap (nap\<lparr>break_addr := x\<rparr>) = vmap nap"
  by (simp add: vmap_def)

lemma confined_step_break:
  "confined_step lo hi a b \<Longrightarrow> confined_step lo hi (a\<lparr>break_addr := x\<rparr>) (b\<lparr>break_addr := x\<rparr>)"
  using only_maps_break by (auto simp: confined_step_def logged_def remapped_def)

lemma space_inv_break [simp]: "space_inv out (nap\<lparr>break_addr := x\<rparr>) \<longleftrightarrow> space_inv out nap"
  by (simp add: space_inv_def geometry_def map_refs_def table_refs_def)

lemma data_ok_flags [simp]:
  "data_ok (nap\<lparr>mu := x\<rparr>) \<longleftrightarrow> data_ok nap" "data_ok (nap\<lparr>holding_sr_locks := x\<rparr>) \<longleftrightarrow> data_ok nap"
  by (simp_all add: data_ok_def text_end_def)

lemma break_flags:
  "nap\<lparr>break_addr := x, mu := b\<rparr> = nap\<lparr>mu := b, break_addr := x\<rparr>"
  "nap\<lparr>break_addr := x, holding_sr_locks := b\<rparr> = nap\<lparr>holding_sr_locks := b, break_addr := x\<rparr>"
  by (cases nap, simp)+

text \<open>Releasing a lock that the call took.\<close>

lemma brk_done_mu:
  "brk_done out (nap\<lparr>mu := True\<rparr>) b r nap' \<Longrightarrow> \<not> mu nap \<Longrightarrow> brk_done out nap b r (nap'\<lparr>mu := False\<rparr>)"
  "brk_done out (nap\<lparr>holding_sr_locks := True\<rparr>) b r nap' \<Longrightarrow> \<not> holding_sr_locks nap \<Longrightarrow>
    brk_done out nap b r (nap'\<lparr>holding_sr_locks := False\<rparr>)"
proof -
  assume "brk_done out (nap\<lparr>mu := True\<rparr>) b r nap'" "\<not> mu nap"
  then obtain lo hi where lo: "text_end nap \<le> lo" "hi \<le> 2 ^ addr_bits nap"
      "good_step out lo hi (nap\<lparr>mu := True\<rparr>) (nap'\<lparr>break_addr := break_addr nap\<rparr>)"
      "break_addr nap' = break_addr nap \<and> r = break_addr nap \<or>
       break_addr nap' = b \<and> data_end nap \<le> b \<and> (r = b \<or> b \<le> break_addr nap \<and> r = break_addr nap)"
    by (auto simp: brk_done_def)
  moreover from lo(3) have "good_step out lo hi nap (nap'\<lparr>mu := False, break_addr := break_addr nap\<rparr>)"
    using confined_step_flags(1) [OF conjunct2 [OF lo(3) [unfolded good_step_def]] \<open>\<not> mu nap\<close>]
      lo(3) by (simp add: good_step_def break_flags)
  ultimately show "brk_done out nap b r (nap'\<lparr>mu := False\<rparr>)" unfolding brk_done_def by auto
next
  assume "brk_done out (nap\<lparr>holding_sr_locks := True\<rparr>) b r nap'" "\<not> holding_sr_locks nap"
  then obtain lo hi where lo: "text_end nap \<le> lo" "hi \<le> 2 ^ addr_bits nap"
      "good_step out lo hi (nap\<lparr>holding_sr_locks := True\<rparr>) (nap'\<lparr>break_addr := break_addr nap\<rparr>)"
      "break_addr nap' = break_addr nap \<and> r = break_addr nap \<or>
       break_addr nap' = b \<and> data_end nap \<le> b \<and> (r = b \<or> b \<le> break_addr nap \<and> r = break_addr nap)"
    by (auto simp: brk_done_def)
  moreover from lo(3) have "good_step out lo hi nap (nap'\<lparr>holding_sr_locks := False, break_addr := break_addr nap\<rparr>)"
    using confined_step_flags(2) [OF conjunct2 [OF lo(3) [unfolded good_step_def]] \<open>\<not> holding_sr_locks nap\<close>]
      lo(3) by (simp add: good_step_def break_flags)
  ultimately show "brk_done out nap b r (nap'\<lparr>holding_sr_locks := False\<rparr>)" unfolding brk_done_def by auto
qed

definition brk_result :: "(nat \<Rightarrow> nat) \<Rightarrow> NaClAppSpace \<Rightarrow> u32 \<Rightarrow> (u32 \<times> NaClAppSpace) result \<Rightarrow> bool" where
  "brk_result out nap b res \<longleftrightarrow> res = Inl LogFatal \<or>
     (\<exists>r nap'. res = Inr (r, nap') \<and> brk_done out nap b r nap' \<and> unat (break_addr nap') < 2 ^ addr_bits nap)"

lemma brk_stays:
  assumes "space_inv out nap" shows "brk_done out nap b (break_addr nap) nap"
proof -
  have "good_step out (text_end nap) (text_end nap) nap nap" using assms by (simp add: good_step_def)
  moreover have "text_end nap \<le> 2 ^ addr_bits nap"
    using assms by (simp add: space_inv_def geometry_def text_end_def)
  ultimately show ?thesis unfolding brk_done_def by auto
qed

lemma brk_lowers:
  assumes "space_inv out nap" "data_end nap \<le> b" "b \<le> break_addr nap"
  shows "brk_done out nap b (break_addr nap) (nap\<lparr>break_addr := b\<rparr>)"
proof -
  have "good_step out (text_end nap) (text_end nap) nap nap" using assms by (simp add: good_step_def)
  moreover have "text_end nap \<le> 2 ^ addr_bits nap"
    using assms by (simp add: space_inv_def geometry_def text_end_def)
  ultimately show ?thesis using assms unfolding brk_done_def by auto
qed

lemma brk_locked_result:
  assumes inv: "space_inv out nap" and data: "data_ok nap" and b: "unat b < 2 ^ addr_bits nap"
  shows "brk_result out nap b (brk_locked env nap (break_addr nap) b)"
proof -
  have here: "unat (break_addr nap) < 2 ^ addr_bits nap" using data by (simp add: data_ok_def)
  consider "b < data_end nap" | "data_end nap \<le> b" "b \<le> break_addr nap" | "break_addr nap < b" "\<not> b < data_end nap"
    by fastforce
  then show ?thesis
  proof cases
    case 1
    then show ?thesis using brk_stays [OF inv] here by (simp add: brk_locked_def brk_result_def)
  next
    case 2
    then have "\<not> b < data_end nap" by simp
    then show ?thesis using 2 brk_lowers [OF inv 2] b by (simp add: brk_locked_def brk_result_def)
  next
    case 3
    have "brk_locked env nap (break_addr nap) b = grow_break env nap (break_addr nap) b"
      using 3 by (simp add: brk_locked_def not_le [symmetric])
    moreover have "unat (break_addr nap') < 2 ^ addr_bits nap" if "brk_done out nap b r nap'" for r nap'
      using that here b by (auto simp: brk_done_def)
    ultimately show ?thesis
      using grow_break_done [OF inv data 3(1) b, of env] unfolding brk_result_def by auto
  qed
qed

lemma set_break_result:
  assumes inv: "space_inv out nap" and data: "data_ok nap" and idle: "idle nap"
  shows "brk_result out nap b (NaClSetBreak env nap b)"
proof -
  let ?nap0 = "nap\<lparr>holding_sr_locks := True\<rparr>" and ?rv = "break_addr nap"
  have g: "geometry ?nap0" using inv by (simp add: space_inv_def)
  define body where "body = (if NaClUserToSysAddr ?nap0 b = kNaClBadAddress then Inr (?rv, ?nap0)
      else bind_result (brk_locked env (?nap0\<lparr>mu := True\<rparr>) ?rv b) (\<lambda>(r, nap). Inr (r, nap\<lparr>mu := False\<rparr>)))"
  have run: "NaClSetBreak env nap b = bind_result body (\<lambda>(r, nap).
      bind_result (NaClSysCommonThreadSyscallLeave nap) (\<lambda>nap. Inr (r, nap)))"
    using idle by (simp add: NaClSetBreak_def NaClSysCommonThreadSyscallEnter_def body_def idle_def Let_def)
  have "brk_result out ?nap0 b body"
  proof (cases "NaClUserToSysAddr ?nap0 b = kNaClBadAddress")
    case True
    then show ?thesis using brk_stays [of out ?nap0 b] inv data by (simp add: body_def brk_result_def data_ok_def)
  next
    case False
    then have "b < space_size ?nap0" by (auto simp: NaClUserToSysAddr_def not_le split: if_splits)
    then have b: "unat b < 2 ^ addr_bits nap"
      using unat_space_size [OF g] by (simp add: word_less_nat_alt)
    have "brk_result out (?nap0\<lparr>mu := True\<rparr>) b (brk_locked env (?nap0\<lparr>mu := True\<rparr>) ?rv b)"
      using brk_locked_result [of out "?nap0\<lparr>mu := True\<rparr>" b env] inv data b by simp
    moreover have "\<not> mu ?nap0" using idle by (simp add: idle_def)
    ultimately show ?thesis
      using False brk_done_mu(1) [of out ?nap0] by (fastforce simp: body_def brk_result_def)
  qed
  then consider "body = Inl LogFatal" | r nap' where "body = Inr (r, nap')" "brk_done out ?nap0 b r nap'"
      "unat (break_addr nap') < 2 ^ addr_bits nap"
    unfolding brk_result_def by auto
  then show ?thesis
  proof cases
    case 1
    then show ?thesis by (simp add: run brk_result_def)
  next
    case 2
    then have "only_maps ?nap0 (nap'\<lparr>break_addr := break_addr ?nap0\<rparr>)"
      by (auto simp: brk_done_def good_step_def confined_step_def)
    from only_maps_same(8) [OF this] have "thread_state nap' = NACL_APP_THREAD_ALIVE"
      using idle by (simp add: idle_def)
    moreover have "\<not> holding_sr_locks nap" using idle by (simp add: idle_def)
    ultimately show ?thesis
      using 2 brk_done_mu(2) [OF 2(2)] by (simp add: run leave_alive brk_result_def)
  qed
qed

section \<open>Sequences of calls\<close>

text \<open>A memory system call with its arguments as the application passes them; the descriptor
  is a signed word.\<close>

datatype mem_call =
    MmapCall u32 u32 u32 u32 u32 u32
  | MunmapCall u32 u32
  | BrkCall u32

fun run_call :: "sys_env \<Rightarrow> NaClAppSpace \<Rightarrow> mem_call \<Rightarrow> (u32 \<times> NaClAppSpace) result" where
  "run_call env nap (MmapCall start len pr flags d off) = NaClCommonSysMmap env nap start len pr flags (sint d) off"
| "run_call env nap (MunmapCall start len) = NaClSysMunmap env nap start len"
| "run_call env nap (BrkCall new_break) = NaClSetBreak env nap new_break"

fun run_calls :: "sys_env \<Rightarrow> NaClAppSpace \<Rightarrow> mem_call list \<Rightarrow> (u32 list \<times> NaClAppSpace) result" where
  "run_calls env nap [] = Inr ([], nap)"
| "run_calls env nap (c # cs) =
     bind_result (run_call env nap c) (\<lambda>(r, nap).
     bind_result (run_calls env nap cs) (\<lambda>(rs, nap). Inr (r # rs, nap)))"

text \<open>The state in which an application runs: the invariant holds with room for one more
  reference, the last page of the trampolines is mapped, and nothing above the text is
  executable.\<close>

definition sandboxed :: "(nat \<Rightarrow> nat) \<Rightarrow> NaClAppSpace \<Rightarrow> bool" where
  "sandboxed out nap \<longleftrightarrow> space_inv out nap \<and> few out nap \<and> (\<forall>p. few (take_ref (Some p) out) nap) \<and>
     idle nap \<and> data_ok nap \<and> vm_view (vmap nap) 16 \<noteq> None"

text \<open>What separates two states of a run.\<close>

definition moved :: "NaClAppSpace \<Rightarrow> NaClAppSpace \<Rightarrow> bool" where
  "moved nap nap' \<longleftrightarrow>
     confined_step (text_end nap) (2 ^ addr_bits nap) nap (nap'\<lparr>break_addr := break_addr nap\<rparr>)"

lemma moved_same:
  assumes "moved nap nap'"
  shows "text_end nap' = text_end nap" "addr_bits nap' = addr_bits nap" "mem_start nap' = mem_start nap"
    "table_refs nap' = table_refs nap" "data_end nap' = data_end nap" "geometry nap' = geometry nap"
    "idle nap' = idle nap"
  using only_maps_same [of nap "nap'\<lparr>break_addr := break_addr nap\<rparr>"]
    idle_only_maps [of nap "nap'\<lparr>break_addr := break_addr nap\<rparr>"] assms
  by (auto simp: moved_def confined_step_def text_end_def table_refs_def geometry_def idle_def)

lemma moved_refl: "moved nap nap"
proof -
  have "nap\<lparr>break_addr := break_addr nap\<rparr> = nap" by simp
  then show ?thesis unfolding moved_def by simp
qed

lemma moved_trans:
  assumes "moved a b" "moved b c" shows "moved a c"
proof -
  have "confined_step (text_end a) (2 ^ addr_bits a) (b\<lparr>break_addr := break_addr a\<rparr>) (c\<lparr>break_addr := break_addr a\<rparr>)"
    using confined_step_break [of _ _ b "c\<lparr>break_addr := break_addr b\<rparr>" "break_addr a"] assms(2) moved_same [OF assms(1)]
    by (simp add: moved_def)
  then show ?thesis using assms(1) confined_step_trans unfolding moved_def by blast
qed

lemma moved_text:
  assumes "moved nap nap'" "q * 4096 < text_end nap"
  shows "vm_view (vmap nap') q = vm_view (vmap nap) q"
  using assms by (auto simp: moved_def confined_step_def remapped_def in_pages_def)

lemma moved_data_ok:
  assumes data: "data_ok nap" and moved: "moved nap nap'"
    and brk: "data_end nap \<le> break_addr nap'" "unat (break_addr nap') < 2 ^ addr_bits nap"
  shows "data_ok nap'"
proof -
  have "no_exec (word_of_int pr)"
    if q: "text_end nap \<le> q * 4096" "vm_view (vmap nap') q = Some (pr, b)" for q pr b
  proof -
    have "vm_view (vmap nap') q = vm_view (vmap nap) q \<or>
        (case vm_view (vmap nap') q of None \<Rightarrow> True | Some (pr, _) \<Rightarrow> no_exec (word_of_int pr))"
      using moved by (auto simp: moved_def confined_step_def remapped_def)
    moreover have "\<forall>q pr b. text_end nap \<le> q * 4096 \<longrightarrow> vm_view (vmap nap) q = Some (pr, b) \<longrightarrow> no_exec (word_of_int pr)"
      using data by (simp add: data_ok_def)
    ultimately show ?thesis by (elim disjE) (metis q, simp add: q(2))
  qed
  then show ?thesis
    using data brk moved_same [OF moved] by (simp add: data_ok_def)
qed

lemma sandboxed_moved:
  assumes "sandboxed out nap" "moved nap nap'" "space_inv out nap'"
    and "data_end nap \<le> break_addr nap'" "unat (break_addr nap') < 2 ^ addr_bits nap"
  shows "sandboxed out nap'"
proof -
  have "16 * 4096 < text_end nap" by (simp add: text_end_def)
  from moved_text [OF assms(2) this] show ?thesis
    using assms moved_same [OF assms(2)] moved_data_ok [OF _ assms(2)] by (simp add: sandboxed_def few_def)
qed

lemma placed_moved:
  assumes sand: "sandboxed out nap" and placed: "placed maps out n nap r nap'"
  shows "sandboxed out nap' \<and> moved nap nap'"
proof -
  obtain lo hi where lo: "text_end nap \<le> lo" "hi \<le> 2 ^ addr_bits nap" "good_step out lo hi nap nap'"
    using placed by (auto simp: placed_def)
  then have same: "break_addr nap' = break_addr nap"
    using only_maps_same by (auto simp: good_step_def confined_step_def)
  have "nap'\<lparr>break_addr := break_addr nap\<rparr> = nap'" unfolding same [symmetric] by simp
  then have moved: "moved nap nap'"
    using confined_step_mono lo by (auto simp: moved_def good_step_def)
  moreover have "data_ok nap" "space_inv out nap'" using sand lo(3) by (simp_all add: sandboxed_def good_step_def)
  ultimately show ?thesis
    using sandboxed_moved [OF sand moved] same by (simp add: data_ok_def)
qed

lemma brk_moved:
  assumes sand: "sandboxed out nap" and brk: "brk_done out nap b r nap'" "unat (break_addr nap') < 2 ^ addr_bits nap"
  shows "sandboxed out nap' \<and> moved nap nap'"
proof -
  obtain lo hi where lo: "text_end nap \<le> lo" "hi \<le> 2 ^ addr_bits nap"
      "good_step out lo hi nap (nap'\<lparr>break_addr := break_addr nap\<rparr>)" "break_addr nap' = break_addr nap \<or> data_end nap \<le> break_addr nap'"
    using brk(1) by (auto simp: brk_done_def)
  then have moved: "moved nap nap'"
    using confined_step_mono by (auto simp: moved_def good_step_def)
  moreover have "data_ok nap" using sand by (simp add: sandboxed_def)
  ultimately show ?thesis
    using sandboxed_moved [OF sand moved] lo brk(2) by (auto simp: data_ok_def good_step_def)
qed

lemma call_moves:
  assumes sand: "sandboxed out nap" and env: "env_ok env"
  shows "run_call env nap c = Inl LogFatal \<or>
    (\<exists>r nap'. run_call env nap c = Inr (r, nap') \<and> sandboxed out nap' \<and> moved nap nap')"
proof -
  have s: "space_inv out nap" "few out nap" "\<And>p. few (take_ref (Some p) out) nap" "idle nap" "data_ok nap"
      "vm_view (vmap nap) 16 \<noteq> None"
    using sand by (simp_all add: sandboxed_def)
  show ?thesis
  proof (cases c)
    case (MmapCall start len pr flags d off)
    have d: "-2147483648 \<le> sint d" "sint d < 2147483648"
      using sint_greater_eq [of d] sint_lt [of d] by simp_all
    show ?thesis
      using mmap_places [OF s(1,2) env s(4) d s(3), of len start pr flags off] placed_moved [OF sand] MmapCall
      by (auto simp: places_def split: sum.splits)
  next
    case (MunmapCall start len)
    then show ?thesis using munmap_frees [OF s(1,2) env s(4,6), of start len] placed_moved [OF sand] by auto
  next
    case (BrkCall b)
    then show ?thesis using set_break_result [OF s(1,5,4), of b env] brk_moved [OF sand] by (auto simp: brk_result_def)
  qed
qed

lemma calls_move:
  assumes "sandboxed out nap" "env_ok env"
  shows "run_calls env nap cs = Inl LogFatal \<or>
    (\<exists>rs nap'. run_calls env nap cs = Inr (rs, nap') \<and> sandboxed out nap' \<and> moved nap nap')"
  using assms(1)
proof (induction cs arbitrary: nap)
  case Nil
  then show ?case using moved_refl by simp
next
  case (Cons c cs)
  from call_moves [OF Cons.prems assms(2), of c] show ?case
  proof (elim disjE exE conjE)
    fix r nap1 assume one: "run_call env nap c = Inr (r, nap1)" "sandboxed out nap1" "moved nap nap1"
    from Cons.IH [OF one(2)] show ?thesis
    proof (elim disjE exE conjE)
      fix rs nap2 assume "run_calls env nap1 cs = Inr (rs, nap2)" "sandboxed out nap2" "moved nap1 nap2"
      then show ?thesis using one moved_trans by auto
    qed (use one in simp)
  qed simp
qed

end
