(* ===== verification/Sel_Space_Props.thy ===== *)
theory Sel_Space_Props
  imports Sel_Elf_Props Sys_Calls
begin

text \<open>
  What \<open>NaClAllocAddrSpace\<close> and \<open>NaClMemoryProtection\<close> leave behind: the protection of every page, in
  the memory map (\<open>final_view\<close>) and on the host (\<open>final_protections\<close>), and the state \<open>sandboxed\<close>, from
  which the memory system calls start.
\<close>

section \<open>One protected region\<close>

text \<open>A memory map with \<open>n\<close> entries and room for more.\<close>

definition map_holds :: "NaClAppSpace \<Rightarrow> NaClVmmapEntry list \<Rightarrow> bool" where
  "map_holds sp es \<longleftrightarrow> full (vmap sp) (nvalid (vmap sp)) \<and> ents (vmap sp) (nvalid (vmap sp)) = es \<and>
     length (vmentry (vmap sp)) = vm_size (vmap sp) \<and> 0 < vm_size (vmap sp) \<and> vm_size (vmap sp) \<le> 4 * page_limit"

definition region_entry :: "u32 \<Rightarrow> u32 \<Rightarrow> u32 \<Rightarrow> NaClVmmapEntry" where
  "region_entry pn n pr = \<lparr>page_num = pn, npages = n, prot = sint pr, nmop = None, removed = False\<rparr>"

text \<open>Only the map, not the reference counts, and the log have changed.\<close>

definition grown :: "NaClAppSpace \<Rightarrow> NaClAppSpace \<Rightarrow> bool" where
  "grown sp sp' \<longleftrightarrow> (\<exists>m l. sp' = sp\<lparr>mem_map := m, host_log := l\<rparr>)"

lemma grown_trans: "grown a b \<Longrightarrow> grown b c \<Longrightarrow> grown a c"
  unfolding grown_def by (elim exE) (simp, blast)

lemma grown_same:
  assumes "grown sp sp'"
  shows "tables sp' = tables sp" "mem_start sp' = mem_start sp" "addr_bits sp' = addr_bits sp"
    "text_region_bytes sp' = text_region_bytes sp" "data_end sp' = data_end sp" "break_addr sp' = break_addr sp"
    "geometry sp' = geometry sp" "idle sp' = idle sp" "table_refs sp' = table_refs sp" "space_size sp' = space_size sp"
    "text_end sp' = text_end sp"
proof -
  obtain m l where sp': "sp' = sp\<lparr>mem_map := m, host_log := l\<rparr>" using assms by (auto simp: grown_def)
  show "tables sp' = tables sp" "mem_start sp' = mem_start sp" "addr_bits sp' = addr_bits sp"
    "text_region_bytes sp' = text_region_bytes sp" "data_end sp' = data_end sp" "break_addr sp' = break_addr sp"
    "geometry sp' = geometry sp" "idle sp' = idle sp" "table_refs sp' = table_refs sp" "space_size sp' = space_size sp"
    "text_end sp' = text_end sp"
    unfolding sp' by (simp_all add: geometry_def idle_def table_refs_def space_size_def text_end_def)
qed

lemma protect_region_ok:
  assumes ok: "protect_region env k sp start psize n pr = Inr (LOAD_OK, sp')" and env: "env_ok env"
    and holds: "map_holds sp es" and len: "length es \<le> 2 * page_limit"
  shows "map_holds sp' (es @ [region_entry (drop_bit NACL_PAGESHIFT (start - mem_start sp)) n pr]) \<and> grown sp sp' \<and>
    host_log sp' = host_log sp @ [Mprotect start psize pr]"
proof -
  have okk: "\<And>k. ok_of env k" using env by (simp add: env_ok_def)
  obtain a where host: "host_of env (host_log sp) (Mprotect start psize pr) = Inr a"
  proof (cases "host_of env (host_log sp) (Mprotect start psize pr)")
    case (Inl e)
    have "0 < e" using env Inl unfolding env_ok_def by blast
    then show ?thesis using ok Inl by (simp add: protect_region_def NaCl_mprotect_def host_call_def)
  qed
  let ?sp = "sp\<lparr>host_log := host_log sp @ [Mprotect start psize pr]\<rparr>"
  have run: "protect_region env k sp start psize n pr =
      bind_result (NaClVmmapAdd (ok_of env k) (ok_of env (k + 1)) (vmap sp)
          (drop_bit NACL_PAGESHIFT (start - mem_start sp)) n (sint pr) None)
        (\<lambda>(r, m). Inr (if r = 0 then LOAD_MPROTECT_FAIL else LOAD_OK, put_vmap ?sp m))"
    using host by (simp add: protect_region_def NaCl_mprotect_def host_call_def)
  have h: "full (vmap sp) (nvalid (vmap sp))" "length (vmentry (vmap sp)) = vm_size (vmap sp)" "0 < vm_size (vmap sp)"
      "vm_size (vmap sp) \<le> 4 * page_limit" "ents (vmap sp) (nvalid (vmap sp)) = es"
    using holds by (simp_all add: map_holds_def)
  then have nv: "nvalid (vmap sp) \<le> 2 * page_limit" using ents_length [OF h(1)] len by simp
  obtain m' where m': "NaClVmmapAdd (ok_of env k) (ok_of env (k + 1)) (vmap sp)
        (drop_bit NACL_PAGESHIFT (start - mem_start sp)) n (sint pr) None = Inr (1, m')" "full m' (nvalid m')"
      "ents m' (nvalid m') = es @ [region_entry (drop_bit NACL_PAGESHIFT (start - mem_start sp)) n pr]"
      "desc_refs m' = desc_refs (vmap sp)" "length (vmentry m') = vm_size m'" "0 < vm_size m'" "vm_size m' \<le> 4 * page_limit"
    using NaClVmmapAdd_ok [OF h(1-4) okk okk nv] h(5) unfolding region_entry_def by metis
  then have sp': "sp' = put_vmap ?sp m'" using ok run by simp
  have "map_holds sp' (es @ [region_entry (drop_bit NACL_PAGESHIFT (start - mem_start sp)) n pr])"
    unfolding sp' using m' by (simp add: map_holds_def)
  moreover have "sp' = sp\<lparr>mem_map := m', host_log := host_log sp @ [Mprotect start psize pr]\<rparr>"
    unfolding sp' using m'(4) by (simp add: put_vmap_def)
  ultimately show ?thesis unfolding grown_def by auto
qed

section \<open>The four regions\<close>

text \<open>Before: an empty map, a page-aligned block, whole pages of text, at most as far as the last 64 KB unit of
  the data reaches, and a stack of whole 64 KB units above the data.\<close>

definition ready_to_protect :: "u32 \<Rightarrow> NaClAppSpace \<Rightarrow> bool" where
  "ready_to_protect stack sp \<longleftrightarrow> geometry sp \<and> map_holds sp [] \<and> unat (mem_start sp) mod 4096 = 0 \<and>
     unat (text_region_bytes sp) mod 4096 = 0 \<and> 0 < unat (data_end sp) \<and>
     text_end sp \<le> units (unat (data_end sp)) \<and> break_addr sp = data_end sp \<and> 0 < unat stack \<and> unat stack mod 65536 = 0 \<and>
     units (unat (data_end sp)) + unat stack \<le> 2 ^ addr_bits sp"

definition final_entries :: "nat \<Rightarrow> u32 \<Rightarrow> NaClAppSpace \<Rightarrow> NaClVmmapEntry list" where
  "final_entries hi stack sp =
     [region_entry 0 16 0,
      region_entry 16 (of_nat (text_end sp div 4096 - 16)) 5,
      region_entry (of_nat (text_end sp div 4096)) (of_nat (hi div 4096 - text_end sp div 4096)) 3,
      region_entry (of_nat ((2 ^ addr_bits sp - unat stack) div 4096)) (of_nat (unat stack div 4096)) 3]"

lemma ready_numbers:
  assumes "ready_to_protect stack sp"
  shows "text_end sp mod 4096 = 0" "131072 \<le> text_end sp" "text_end sp \<le> units (unat (data_end sp))"
    "units (unat (data_end sp)) \<le> 2 ^ addr_bits sp - unat stack" "2 ^ addr_bits sp mod (65536 :: nat) = 0"
    "units (unat (data_end sp)) mod 65536 = 0" "unat (mem_start sp) + 2 ^ addr_bits sp < 4294967296"
    "unat stack \<le> 2 ^ addr_bits sp" "2 ^ addr_bits sp \<le> (2147483648 :: nat)"
    "(2 ^ addr_bits sp - unat stack) mod 65536 = 0"
proof -
  note r = assms [unfolded ready_to_protect_def]
  show te: "text_end sp mod 4096 = 0" using r by (simp add: text_end_def mod_add_left_eq [symmetric])
  show "131072 \<le> text_end sp" by (simp add: text_end_def)
  show "text_end sp \<le> units (unat (data_end sp))" using r by simp
  show top: "units (unat (data_end sp)) \<le> 2 ^ addr_bits sp - unat stack" "unat stack \<le> 2 ^ addr_bits sp"
    using r by linarith+
  show m: "2 ^ addr_bits sp mod (65536 :: nat) = 0"
    using r by (simp add: geometry_def mod_eq_0_iff_dvd le_imp_power_dvd [of 16 _ "2 :: nat", simplified])
  show "units (unat (data_end sp)) mod 65536 = 0" by (simp add: units_def)
  show "unat (mem_start sp) + 2 ^ addr_bits sp < 4294967296" "2 ^ addr_bits sp \<le> (2147483648 :: nat)"
    using r power_increasing [of "addr_bits sp" 31 "2 :: nat"] by (simp_all add: geometry_def)
  show "(2 ^ addr_bits sp - unat stack) mod 65536 = 0"
    using m r by (simp add: mod_eq_0_iff_dvd)
qed

lemma word_of_unat: "of_nat (unat w) = w" for w :: u32
  by simp

lemma page_of_nat: "n < 4294967296 \<Longrightarrow> w = of_nat (n div 4096) \<longleftrightarrow> unat w = n div 4096" for w :: u32
  by (auto simp: unat_of_nat word_unat_eq_iff)

text \<open>The calls of the host: no access below the trampolines, the trampolines and the text for reading and
  execution, the data and the stack for reading and writing.\<close>

definition final_protections :: "u32 \<Rightarrow> NaClAppSpace \<Rightarrow> host_op list" where
  "final_protections stack sp =
     [Mprotect (mem_start sp) 0x10000 0,
      Mprotect (mem_start sp + 0x10000) (of_nat (text_end sp - 65536)) (NACL_ABI_PROT_READ OR NACL_ABI_PROT_EXEC),
      Mprotect (mem_start sp + of_nat (text_end sp)) (of_nat (units (unat (data_end sp)) - text_end sp))
        (NACL_ABI_PROT_READ OR NACL_ABI_PROT_WRITE),
      Mprotect (mem_start sp + of_nat (2 ^ addr_bits sp - unat stack)) stack (NACL_ABI_PROT_READ OR NACL_ABI_PROT_WRITE)]"

lemma NaClMemoryProtection_entries:
  assumes ready: "ready_to_protect (stack_size nap) (space nap)" and env: "env_ok env"
    and ok: "NaClMemoryProtection env nap = Inr (LOAD_OK, nap')"
  shows "grown (space nap) (space nap') \<and>
    map_holds (space nap') (final_entries (units (unat (data_end (space nap)))) (stack_size nap) (space nap)) \<and>
    host_log (space nap') = host_log (space nap) @ final_protections (stack_size nap) (space nap)"
proof -
  let ?sp = "space nap" and ?st = "stack_size nap" and ?hi = "units (unat (data_end (space nap)))"
  note n = ready_numbers [OF ready]
  have g: "geometry ?sp" using ready by (simp add: ready_to_protect_def)
  obtain s1 s2 s3 s4 where s: "NaClMprotectNullRegion env ?sp (mem_start ?sp) = Inr (LOAD_OK, s1)"
      "protect_text env s1 = Inr (LOAD_OK, s2)" "protect_data env s2 = Inr (LOAD_OK, s3)"
      "protect_stack env ?st s3 = Inr (LOAD_OK, s4)" "nap' = nap\<lparr>space := s4\<rparr>"
    using ok by (auto simp: NaClMemoryProtection_def on_space_ok and_then_ok)
  have h0: "map_holds ?sp []" using ready by (simp add: ready_to_protect_def)
  from protect_region_ok [OF s(1) [unfolded NaClMprotectNullRegion_def] env h0]
  have h1: "map_holds s1 [region_entry 0 16 0]" and g1: "grown ?sp s1"
      and l1: "host_log s1 = host_log ?sp @ [Mprotect (mem_start ?sp) 0x10000 0]"
    by (simp_all add: NACL_SYSCALL_START_ADDR_def NACL_PAGESHIFT_def)
  note same1 = grown_same [OF g1]
  obtain k where k: "text_end ?sp = k * 4096" using n(1) by (auto simp: mod_eq_0_iff_dvd elim!: dvdE)
  have "65536 \<le> unat ?st" using ready by (intro dvd_imp_le) (simp_all add: ready_to_protect_def mod_eq_0_iff_dvd)
  then have below: "k * 4096 + 65536 \<le> 2 ^ addr_bits ?sp" using n(3,4,8) k by linarith
  have k31: "k * 4096 < 2147483648" using below n(9) by linarith
  have "32 \<le> k" using n(2) k by simp
  note k32 = this k31
  have sum: "unat (NACL_TRAMPOLINE_END - NACL_SYSCALL_START_ADDR + text_region_bytes ?sp) = (k - 16) * 4096"
    using k k32 by (simp add: NACL_TRAMPOLINE_END_def NACL_SYSCALL_START_ADDR_def unat_plus_u32 text_end_def)
  have size: "unat (text_region_size s1) = (k - 16) * 4096"
    using NaClRoundPage_unat [of "NACL_TRAMPOLINE_END - NACL_SYSCALL_START_ADDR + text_region_bytes ?sp"] k32
    unfolding text_region_size_def same1(4) sum by simp
  have "drop_bit NACL_PAGESHIFT (text_region_size s1) = of_nat (text_end ?sp div 4096 - 16)"
    using k32 by (simp add: word_unat_eq_iff unat_page size unat_of_nat k del: of_nat_diff)
  from protect_region_ok [OF s(2) [unfolded protect_text_def] env h1] this
  have h2: "map_holds s2 [region_entry 0 16 0, region_entry 16 (of_nat (text_end ?sp div 4096 - 16)) 5]" and g2: "grown ?sp s2"
      and l2: "host_log s2 = host_log s1 @ [Mprotect (mem_start s1 + NACL_SYSCALL_START_ADDR) (text_region_size s1)
        (NACL_ABI_PROT_READ OR NACL_ABI_PROT_EXEC)]"
    using grown_trans [OF g1] by (simp_all add: NACL_SYSCALL_START_ADDR_def NACL_PAGESHIFT_def prot_consts page_limit_def)
  note same2 = grown_same [OF g2]
  obtain a where a: "unat (mem_start ?sp) = a * 4096"
    using ready by (auto simp: ready_to_protect_def mod_eq_0_iff_dvd elim!: dvdE)
  obtain h where h: "?hi = h * 4096" using n(6) by (auto simp: units_def intro: that [of "16 * ((unat (data_end ?sp) + 65535) div 65536)"])
  have hk: "k \<le> h" "h * 4096 \<le> 2147483648" using n(3,4,9) h k by simp_all
  have room: "a * 4096 + k * 4096 + 4096 \<le> 4294967296" using n(7) a below by linarith
  have size2: "text_region_size s2 = text_region_size s1" by (simp add: text_region_size_def same1 same2)
  obtain c where c: "c = a + k" by blast
  have cr: "c * 4096 + 4096 \<le> 4294967296" using room c by simp
  have "unat (mem_start ?sp + NACL_SYSCALL_START_ADDR + text_region_size s1) = c * 4096"
    using size k32 room a by (simp add: unat_plus_u32 NACL_SYSCALL_START_ADDR_def c)
  moreover define st where "st = NaClRoundPage (mem_start s2 + NACL_SYSCALL_START_ADDR + text_region_size s2)"
  ultimately have st: "unat st = c * 4096"
    using NaClRoundPage_unat [of "mem_start ?sp + NACL_SYSCALL_START_ADDR + text_region_size s1"] cr
    by (simp add: same2 size2)
  have "0 < unat (data_end ?sp)" "unat (data_end ?sp) + 65536 \<le> 4294967296"
    using ready units_le [of "unat (data_end ?sp)"] n(4,9) by (simp_all add: ready_to_protect_def)
  then have de: "unat (NaClRoundAllocPage (data_end ?sp)) = ?hi"
    using NaClRoundAllocPage_unat by (simp add: units_def)
  define rs where "rs = NaClRoundPage (NaClRoundAllocPage (data_end s2) + mem_start s2 - st)"
  have "unat (NaClRoundAllocPage (data_end ?sp) + mem_start ?sp) = h * 4096 + a * 4096"
    using de h a n(4,7) by (simp add: unat_plus_u32)
  then have "unat (NaClRoundAllocPage (data_end s2) + mem_start s2 - st) = (h - k) * 4096"
    unfolding same2 using hk st c by (simp add: unat_sub word_le_nat_alt)
  then have rs: "unat rs = (h - k) * 4096"
    using NaClRoundPage_unat [of "NaClRoundAllocPage (data_end s2) + mem_start s2 - st"] hk
    unfolding rs_def by simp
  have "unat (st - mem_start s2) = k * 4096" using st c a by (simp add: same2 unat_sub word_le_nat_alt)
  then have pages: "drop_bit NACL_PAGESHIFT (st - mem_start s2) = of_nat (text_end ?sp div 4096)"
      "drop_bit NACL_PAGESHIFT rs = of_nat (?hi div 4096 - text_end ?sp div 4096)"
    using hk k h k32 by (simp_all add: word_unat_eq_iff unat_page rs unat_of_nat del: of_nat_diff)
  from protect_region_ok [OF s(3) [unfolded protect_data_def Let_def, folded st_def, folded rs_def] env h2] pages
  have h3: "map_holds s3 (butlast (final_entries ?hi ?st ?sp))" and g3: "grown ?sp s3"
      and l3: "host_log s3 = host_log s2 @ [Mprotect st rs (NACL_ABI_PROT_READ OR NACL_ABI_PROT_WRITE)]"
    using grown_trans [OF g2] by (simp_all add: final_entries_def prot_consts page_limit_def)
  note same3 = grown_same [OF g3]
  have z: "unat (space_size ?sp) = 2 ^ addr_bits ?sp" using unat_space_size [OF g] .
  have "unat (space_size ?sp - ?st) = 2 ^ addr_bits ?sp - unat ?st" using n(8) z by (simp add: unat_sub word_le_nat_alt)
  then have tr: "unat (NaClTruncAllocPage (space_size ?sp - ?st)) = 2 ^ addr_bits ?sp - unat ?st"
    using n(10) by (simp add: NaClTruncAllocPage_unat mod_eq_0_iff_dvd)
  have stack: "drop_bit NACL_PAGESHIFT (mem_start s3 + NaClTruncAllocPage (space_size s3 - ?st) - mem_start s3)
        = of_nat ((2 ^ addr_bits ?sp - unat ?st) div 4096)" "drop_bit NACL_PAGESHIFT ?st = of_nat (unat ?st div 4096)"
    using n(9) u32_lt [of ?st] by (simp_all add: same3 word_unat_eq_iff unat_page unat_of_nat tr)
  from protect_region_ok [OF s(4) [unfolded protect_stack_def] env h3] stack
  have end4: "grown ?sp s4" "map_holds s4 (final_entries ?hi ?st ?sp)" "host_log s4 = host_log s3 @
      [Mprotect (mem_start s3 + NaClTruncAllocPage (space_size s3 - ?st)) (NaClRoundAllocPage ?st)
        (NACL_ABI_PROT_READ OR NACL_ABI_PROT_WRITE)]"
    using grown_trans [OF g3] by (simp_all add: final_entries_def prot_consts page_limit_def)
  have st0: "0 < unat ?st" "unat ?st mod 65536 = 0" using ready by (simp_all add: ready_to_protect_def)
  then obtain j where j: "unat ?st = j * 65536" by (auto simp: mod_eq_0_iff_dvd elim!: dvdE)
  have "NaClRoundAllocPage ?st = ?st"
    using NaClRoundAllocPage_unat [of ?st] n(8,9) j by (simp add: word_unat_eq_iff)
  moreover have "NaClTruncAllocPage (space_size ?sp - ?st) = of_nat (2 ^ addr_bits ?sp - unat ?st)"
    unfolding tr [symmetric] by (rule word_of_unat [symmetric])
  moreover have "text_region_size s1 = of_nat (text_end ?sp - 65536)"
  proof -
    have "text_end ?sp - 65536 = unat (text_region_size s1)" unfolding size k by (simp add: diff_mult_distrib)
    then show ?thesis by (simp only: word_of_unat)
  qed
  moreover have "st = mem_start ?sp + of_nat (text_end ?sp)"
  proof -
    have "unat st = unat (mem_start ?sp) + text_end ?sp" unfolding st a k c by simp
    then have "of_nat (unat st) = (of_nat (unat (mem_start ?sp)) + of_nat (text_end ?sp) :: u32)" by (simp only: of_nat_add)
    then show ?thesis by (simp only: word_of_unat)
  qed
  moreover have "rs = of_nat (?hi - text_end ?sp)"
  proof -
    have "?hi - text_end ?sp = unat rs" unfolding rs h k by (simp add: diff_mult_distrib)
    then show ?thesis by (simp only: word_of_unat)
  qed
  ultimately have "host_log s4 = host_log ?sp @ final_protections ?st ?sp"
    unfolding end4(3) l3 l2 l1 by (simp add: final_protections_def same1 same3 NACL_SYSCALL_START_ADDR_def)
  then show ?thesis using end4(1,2) by (simp add: s(5))
qed

section \<open>The result is a sandbox\<close>

lemma region_entry_pages:
  assumes "a < b" "b \<le> page_limit"
  shows "e_start (region_entry (of_nat a) (of_nat (b - a)) pr) = a"
    "e_end (region_entry (of_nat a) (of_nat (b - a)) pr) = b"
    "good_entry (region_entry (of_nat a) (of_nat (b - a)) pr)"
  using assms by (simp_all add: region_entry_def e_start_def e_end_def good_entry_def page_limit_def unat_of_nat del: of_nat_diff)

lemma region_entry_simps [simp]:
  "prot (region_entry pn n pr) = sint pr" "nmop (region_entry pn n pr) = None" "owns (region_entry pn n pr) p = 0"
  by (simp_all add: region_entry_def owns_def)

text \<open>The page numbers at which the four entries begin and end.\<close>

lemma final_entries_pages:
  assumes "ready_to_protect stack sp"
  defines "k \<equiv> text_end sp div 4096" and "h \<equiv> units (unat (data_end sp)) div 4096"
    and "s \<equiv> (2 ^ addr_bits sp - unat stack) div 4096" and "z \<equiv> 2 ^ addr_bits sp div 4096"
  shows "final_entries (units (unat (data_end sp))) stack sp =
      [region_entry (of_nat 0) (of_nat (16 - 0)) 0, region_entry (of_nat 16) (of_nat (k - 16)) 5,
       region_entry (of_nat k) (of_nat (h - k)) 3, region_entry (of_nat s) (of_nat (z - s)) 3]"
    "32 \<le> k" "k \<le> h" "h \<le> s" "s < z" "z \<le> page_limit"
proof -
  note n = ready_numbers [OF assms(1)]
  have st: "0 < unat stack" "unat stack mod 65536 = 0" using assms(1) by (simp_all add: ready_to_protect_def)
  show "32 \<le> k" using n(2) unfolding k_def by (simp add: less_eq_div_iff_mult_less_eq)
  have "text_end sp div 4096 * 4096 = text_end sp" using n(1) by (simp add: mod_eq_0_iff_dvd)
  moreover have hi: "h * 4096 = units (unat (data_end sp))"
    using n(6) unfolding h_def by (auto simp: mod_eq_0_iff_dvd elim!: dvdE)
  ultimately show "k \<le> h" using n(3) unfolding k_def by linarith
  have s: "s * 4096 = 2 ^ addr_bits sp - unat stack"
    using n(10) unfolding s_def by (auto simp: mod_eq_0_iff_dvd elim!: dvdE)
  have z: "z * 4096 = 2 ^ addr_bits sp"
    using n(5) unfolding z_def by (auto simp: mod_eq_0_iff_dvd elim!: dvdE)
  show "h \<le> s" "s < z" using hi s z n(4,8) st(1) by linarith+
  show "z \<le> page_limit" using z n(9) by (simp add: page_limit_def)
  have "unat stack div 4096 = z - s"
  proof -
    obtain j where "unat stack = j * 65536" using st(2) by (auto simp: mod_eq_0_iff_dvd elim!: dvdE)
    moreover from this have "(z - s) * 4096 = j * 65536" using s z n(8) by (simp add: diff_mult_distrib)
    ultimately show ?thesis by simp
  qed
  then show "final_entries (units (unat (data_end sp))) stack sp =
      [region_entry (of_nat 0) (of_nat (16 - 0)) 0, region_entry (of_nat 16) (of_nat (k - 16)) 5,
       region_entry (of_nat k) (of_nat (h - k)) 3, region_entry (of_nat s) (of_nat (z - s)) 3]"
    by (simp add: final_entries_def k_def h_def s_def del: of_nat_diff)
qed

text \<open>A memory map of entries in order, none of which refers to a descriptor.\<close>

lemma map_holds_inv:
  assumes holds: "map_holds sp es" and app: "app_inv out (tables sp)" and g: "geometry sp"
    and es: "\<forall>e \<in> set es. good_entry e \<and> nmop e = None" "gapped es"
  shows "space_inv out sp"
proof -
  have h: "full (vmap sp) (nvalid (vmap sp))" "ents (vmap sp) (nvalid (vmap sp)) = es"
      "length (vmentry (vmap sp)) = vm_size (vmap sp)" "0 < vm_size (vmap sp)" "vm_size (vmap sp) \<le> 4 * page_limit"
    using holds by (simp_all add: map_holds_def)
  have none: "held (mset es) p = 0" for p
    using es(1) by (induction es) (auto simp: owns_def)
  have refs: "refs_ok (\<lambda>p. table_refs sp p + out p) (refs (tables sp))"
    using app by (simp add: app_inv_def ref_total_def [abs_def] table_refs_def)
  have "sweeping (\<lambda>p. table_refs sp p + out p) (vmap sp) (nvalid (vmap sp))"
    unfolding sweeping_def h(2) none using h(1) refs by simp
  then have "vm_inv (\<lambda>p. table_refs sp p + out p) (vmap sp)"
    unfolding vm_inv_def h(2) using h(3-5) es gapped_once by simp
  moreover have "map_refs sp p = 0" for p unfolding map_refs_vmap h(2) none by simp
  ultimately show ?thesis using app g by (simp add: space_inv_def)
qed

text \<open>The memory map after the load, page by page: nothing of the first 64 KB is accessible, the trampolines and
  the text can be read and executed but not written, the data up to its last 64 KB unit and the stack can be
  read and written but not executed, and nothing else is mapped.\<close>

definition final_view :: "u32 \<Rightarrow> NaClAppSpace \<Rightarrow> nat \<Rightarrow> (int \<times> (nat \<times> u32) option) option" where
  "final_view stack sp q =
     (if q < 16 then Some (0, None)
      else if q * 4096 < text_end sp then Some (sint (NACL_ABI_PROT_READ OR NACL_ABI_PROT_EXEC), None)
      else if q * 4096 < units (unat (data_end sp)) \<or> 2 ^ addr_bits sp - unat stack \<le> q * 4096 \<and> q * 4096 < 2 ^ addr_bits sp
        then Some (sint (NACL_ABI_PROT_READ OR NACL_ABI_PROT_WRITE), None)
      else None)"

lemma covers_region:
  assumes "a \<le> b" "b \<le> page_limit"
  shows "covers (region_entry (of_nat a) (of_nat (b - a)) pr) q \<longleftrightarrow> a \<le> q \<and> q < b"
proof (cases "a = b")
  case False
  then show ?thesis using region_entry_pages [of a b] assms by (simp add: covers_def)
qed (auto simp: covers_def region_entry_def e_start_def e_end_def)

lemma final_entries_view:
  assumes ready: "ready_to_protect stack sp" and holds: "map_holds sp' (final_entries (units (unat (data_end sp))) stack sp)"
  shows "vm_view (vmap sp') q = final_view stack sp q"
proof -
  define k where "k = text_end sp div 4096"
  define h where "h = units (unat (data_end sp)) div 4096"
  define s where "s = (2 ^ addr_bits sp - unat stack) div 4096"
  define z :: nat where "z = 2 ^ addr_bits sp div 4096"
  note pages = final_entries_pages [OF ready, folded k_def h_def s_def z_def]
  note n = ready_numbers [OF ready]
  have eqs: "text_end sp = k * 4096" "units (unat (data_end sp)) = h * 4096" "2 ^ addr_bits sp - unat stack = s * 4096"
      "(2 :: nat) ^ addr_bits sp = z * 4096"
    using n(1) unit_page [OF n(5)] unit_page [OF n(6)] unit_page [OF n(10)]
    by (simp_all add: k_def h_def s_def z_def mod_eq_0_iff_dvd)
  have lim: "k \<le> page_limit" "h \<le> page_limit" "s \<le> page_limit" "(16 :: nat) \<le> k" "(0 :: nat) \<le> 16" "(16 :: nat) \<le> page_limit"
      "s \<le> z"
    using pages(2-6) by (simp_all add: page_limit_def)
  note c = covers_region [OF lim(5,6)] covers_region [OF lim(4,1)]
    covers_region [OF pages(3) lim(2)] covers_region [OF lim(7) pages(6)]
  have "vm_view (vmap sp') q = map_option (\<lambda>e. (prot e, backing e q)) (List.find (\<lambda>e. covers e q)
      [region_entry (of_nat 0) (of_nat (16 - 0)) 0, region_entry (of_nat 16) (of_nat (k - 16)) 5,
       region_entry (of_nat k) (of_nat (h - k)) 3, region_entry (of_nat s) (of_nat (z - s)) 3])"
    using holds unfolding pages(1) by (simp only: vm_view_def map_holds_def)
  also have "\<dots> = (if q < 16 then Some (0, None) else if q < k then Some (5, None)
      else if q < h \<or> s \<le> q \<and> q < z then Some (3, None) else None)"
    unfolding find.simps c by (auto simp: backing_def simp del: of_nat_diff of_nat_numeral)
  finally show ?thesis unfolding final_view_def eqs(1-3) unfolding eqs(4) by (simp add: prot_consts)
qed

text \<open>What the loader must have left alone: tables with exact reference counts and room, and no
  lock held.\<close>

definition calm :: "(nat \<Rightarrow> nat) \<Rightarrow> NaClAppSpace \<Rightarrow> bool" where
  "calm out sp \<longleftrightarrow> app_inv out (tables sp) \<and> idle sp \<and> few out sp \<and> (\<forall>p. few (take_ref (Some p) out) sp)"

lemma protection_layout:
  assumes ready: "ready_to_protect (stack_size nap) (space nap)" and env: "env_ok env"
    and ok: "NaClMemoryProtection env nap = Inr (LOAD_OK, nap')"
  shows "vm_view (vmap (space nap')) = final_view (stack_size nap) (space nap)"
    "host_log (space nap') = host_log (space nap) @ final_protections (stack_size nap) (space nap)"
    "grown (space nap) (space nap')"
  using NaClMemoryProtection_entries [OF ready env ok] final_entries_view [OF ready] by auto

lemma protection_sandboxes:
  assumes ready: "ready_to_protect (stack_size nap) (space nap)" and calm: "calm out (space nap)" and env: "env_ok env"
    and ok: "NaClMemoryProtection env nap = Inr (LOAD_OK, nap')"
    and data: "text_end (space nap) < unat (data_end (space nap))"
  shows "sandboxed out (space nap')"
proof -
  let ?sp = "space nap" and ?sp' = "space nap'"
  define k where "k = text_end ?sp div 4096"
  define h where "h = units (unat (data_end ?sp)) div 4096"
  define s where "s = (2 ^ addr_bits ?sp - unat (stack_size nap)) div 4096"
  define z :: nat where "z = 2 ^ addr_bits ?sp div 4096"
  note pages = final_entries_pages [OF ready, folded k_def h_def s_def z_def]
  have grown: "grown ?sp ?sp'" and holds: "map_holds ?sp' (final_entries (units (unat (data_end ?sp))) (stack_size nap) ?sp)"
    using NaClMemoryProtection_entries [OF ready env ok] by blast+
  note same = grown_same [OF grown]
  note n = ready_numbers [OF ready]
  let ?es = "[region_entry (of_nat 0) (of_nat (16 - 0)) 0, region_entry (of_nat 16) (of_nat (k - 16)) 5,
       region_entry (of_nat k) (of_nat (h - k)) 3, region_entry (of_nat s) (of_nat (z - s)) 3]"
  have kh: "k < h"
  proof -
    have "text_end ?sp < units (unat (data_end ?sp))" using data units_le [of "unat (data_end ?sp)"] by simp
    moreover have "units (unat (data_end ?sp)) mod 4096 = 0" using unit_page [OF n(6)] .
    ultimately show ?thesis using n(1) by (auto simp: k_def h_def mod_eq_0_iff_dvd elim!: dvdE)
  qed
  have lim: "(0 :: nat) < 16" "16 < k" "16 \<le> page_limit" "k \<le> page_limit" "h \<le> page_limit"
    using pages(2-6) by (simp_all add: page_limit_def)
  have e1: "e_start (region_entry 0 16 0) = 0" "e_end (region_entry 0 16 0) = 16" "good_entry (region_entry 0 16 0)"
    by (simp_all add: region_entry_def e_start_def e_end_def good_entry_def page_limit_def)
  note e2 = region_entry_pages [OF lim(2,4), of 5, simplified of_nat_numeral]
    and e3 = region_entry_pages [OF kh lim(5), of 3] and e4 = region_entry_pages [OF pages(5,6), of 3]
  have gap: "gapped ?es" using pages(2-5) by (simp add: gapped_def e1 e2 e3 e4 del: of_nat_diff)
  have good: "\<forall>e \<in> set ?es. good_entry e \<and> nmop e = None" using e1 e2 e3 e4 by (simp del: of_nat_diff)
  have g: "geometry ?sp'" using ready same by (simp add: ready_to_protect_def)
  have inv: "space_inv out ?sp'"
    using map_holds_inv [OF holds [unfolded pages(1)] _ g good gap] calm same by (simp add: calm_def)
  note view = protection_layout(1) [OF ready env ok]
  have "vm_view (vmap ?sp') 16 \<noteq> None" using n(2) by (simp add: view final_view_def)
  moreover have "no_exec (word_of_int pr)" if "text_end ?sp \<le> q * 4096" "vm_view (vmap ?sp') q = Some (pr, b)" for q pr b
    using that n(2) by (auto simp: view final_view_def no_exec_def prot_consts split: if_splits)
  ultimately have "data_ok ?sp'"
    using ready data n(1) same n(4,8) units_le [of "unat (data_end ?sp)"]
    unfolding data_ok_def ready_to_protect_def by auto
  then show ?thesis
    using inv calm same \<open>vm_view (vmap ?sp') 16 \<noteq> None\<close> by (simp add: sandboxed_def calm_def few_def)
qed

end
