(* ===== verification/Sys_Example.thy ===== *)
theory Sys_Example
  imports Sel_Space_Props
begin

text \<open>
  A concrete application: 32 MB at \<open>0x10000000\<close>, 64 KB of text, data up to \<open>0x48000\<close>, a stack
  of 1 MB, protected by \<open>NaClMemoryProtection\<close>; its host grants every call but an empty \<open>mmap\<close>.
\<close>

definition demo_host :: host_fn where
  "demo_host log op = (case op of
       Mmap a n pr fl d off \<Rightarrow> if n = 0 then Inl 22 else Inr (if a = 0 then 0x10000000 else a)
     | ImcMap a n pr fl h off \<Rightarrow> Inr a
     | Madvise a n adv \<Rightarrow> Inr 0
     | Mprotect a n pr \<Rightarrow> Inr 0)"

definition demo_env :: sys_env where
  "demo_env = \<lparr>host_of = demo_host, fstat_of = (\<lambda>d. Inr 0), desc_of = (\<lambda>p. OtherDesc), ok_of = (\<lambda>k. True)\<rparr>"

definition demo_fresh :: NaClAppSpace where
  "demo_fresh =
     \<lparr>tables = \<lparr>desc_tbl = dyn_demo, threads = dyn_demo, num_threads = 0, desc_mu = False, threads_mu = False,
                refs = (\<lambda>_. None)\<rparr>,
      mem_map = \<lparr>vmentry = replicate START_ENTRIES None, nvalid = 0, vm_size = START_ENTRIES, is_sorted = True,
                 desc_refs = (\<lambda>_. None)\<rparr>,
      mu = False, addr_bits = 25, mem_start = 0x10000000, xlate_base = 0x10000000, text_region_bytes = 0x10000,
      data_end = 0x48000, break_addr = 0x48000, thread_state = NACL_APP_THREAD_ALIVE, holding_sr_locks = False,
      host_log = []\<rparr>"

definition demo_load :: NaClAppLoad where
  "demo_load =
     \<lparr>space = demo_fresh, image = (\<lambda>_. 0), stack_size = 0x100000, entry_pt = 0x20000, align_boundary = 32,
      elf_hdr = Ehdr_of [], phdrs = [], springboard_addr = 0\<rparr>"

definition demo_space :: NaClAppSpace where
  "demo_space = space (case NaClMemoryProtection demo_env demo_load of Inl f \<Rightarrow> demo_load | Inr (err, nap) \<Rightarrow> nap)"

lemma demo_env_ok: "env_ok demo_env"
  by (auto simp: env_ok_def demo_env_def demo_host_def split: host_op.splits if_splits)

lemma demo_protection: "NaClMemoryProtection demo_env demo_load = Inr (LOAD_OK, demo_load\<lparr>space := demo_space\<rparr>)"
proof -
  have "map_sum id fst (NaClMemoryProtection demo_env demo_load) = Inr LOAD_OK" by code_simp
  moreover have "NaClMemoryProtection demo_env demo_load = on_space demo_load r \<Longrightarrow>
      map_sum id fst (NaClMemoryProtection demo_env demo_load) = Inr LOAD_OK \<Longrightarrow>
      NaClMemoryProtection demo_env demo_load = Inr (LOAD_OK, demo_load\<lparr>space := demo_space\<rparr>)" for r
    by (cases r) (auto simp: on_space_def demo_space_def)
  ultimately show ?thesis unfolding NaClMemoryProtection_def by blast
qed

lemma demo_tables: "app_inv (\<lambda>_. 0) (tables demo_fresh)"
proof -
  have c: "DynArrayCtor True True 2 = Some dyn_demo" by code_simp
  from app_reachable_inv [OF app_reachable.ctor [OF c c]] show ?thesis by (simp add: demo_fresh_def)
qed

lemma demo_calm: "calm (\<lambda>_. 0) demo_fresh"
proof -
  have c: "DynArrayCtor True True 2 = Some dyn_demo" by code_simp
  have "table_refs demo_fresh p = 0" for p
    using DynArrayCtor_empty(2) [OF c] by (simp add: table_refs_def demo_fresh_def holders_def)
  then show ?thesis
    using demo_tables by (simp add: calm_def few_def take_ref_def) (simp add: idle_def demo_fresh_def)
qed

lemma demo_ready: "ready_to_protect (stack_size demo_load) demo_fresh"
  by (simp add: ready_to_protect_def demo_fresh_def demo_load_def geometry_def map_holds_def full_def ents_def
      text_end_def units_def page_limit_def START_ENTRIES_def vmap_def)

lemma demo_data: "text_end demo_fresh < unat (data_end demo_fresh)"
  by (simp add: demo_fresh_def text_end_def)

lemma demo_sandboxed: "sandboxed (\<lambda>_. 0) demo_space"
  using protection_sandboxes [OF _ _ demo_env_ok demo_protection] demo_ready demo_calm demo_data
  by (simp add: demo_load_def)

lemma demo_simps:
  "text_end demo_space = 0x30000" "addr_bits demo_space = 25" "mem_start demo_space = 0x10000000"
  using protection_layout(3) [OF _ demo_env_ok demo_protection] demo_ready grown_same [of demo_fresh demo_space]
  by (simp_all add: demo_load_def) (simp_all add: demo_fresh_def text_end_def)

end
