(* ===== verification/Sys_Props.thy ===== *)
theory Sys_Props
  imports Sys_Example
begin

text \<open>
  The memory system calls and the translation of addresses: what they guarantee to the sandbox.
\<close>

section \<open>A run of calls\<close>

definition demo_calls :: "mem_call list" where
  "demo_calls = [MmapCall 0 0x5000 3 0x22 0xffffffff 0, MmapCall 0x20000 0x10000 7 0x32 0xffffffff 0,
     BrkCall 0x52000, MunmapCall 0x1ef0000 0x10000, BrkCall 0x49000]"

lemma demo_run: "map_sum id fst (run_calls demo_env demo_space demo_calls) = Inr [0x1ef0000, 0xffffffea, 0x52000, 0, 0x52000]"
  by code_simp

lemma demo_run_result:
  "\<exists>nap'. run_calls demo_env demo_space demo_calls = Inr ([0x1ef0000, 0xffffffea, 0x52000, 0, 0x52000], nap')"
  using demo_run by (cases "run_calls demo_env demo_space demo_calls") auto

text \<open>C4: Whatever an application asks of \<open>mmap\<close>, \<open>munmap\<close> and \<open>brk\<close>, in any order and with any
  arguments: the pages of the trampolines and the text stay mapped as they were; no page above
  them is executable; and every call by which the runtime changed the host's mappings lies
  between the end of the text and the end of the address space and makes nothing executable.\<close>

theorem memory_calls_confined:
  assumes "sandboxed out nap" and "env_ok env" and "run_calls env nap cs = Inr (rs, nap')"
  shows "(\<forall>q. q * 4096 < text_end nap \<longrightarrow> vm_view (vmap nap') q = vm_view (vmap nap) q) \<and>
    (\<forall>q pr b. text_end nap \<le> q * 4096 \<longrightarrow> vm_view (vmap nap') q = Some (pr, b) \<longrightarrow> word_of_int pr AND (4 :: u32) = 0) \<and>
    (\<forall>op \<in> set (drop (length (host_log nap)) (host_log nap')).
       unat (mem_start nap) + text_end nap \<le> op_start op \<and>
       op_start op + op_len op \<le> unat (mem_start nap) + 2 ^ addr_bits nap \<and> op_prot op AND 4 = 0)"
proof -
  have s: "sandboxed out nap'" "moved nap nap'" using calls_move [OF assms(1,2), of cs] assms(3) by auto
  have "data_ok nap'" using s(1) by (simp add: sandboxed_def)
  then have "\<forall>q pr b. text_end nap \<le> q * 4096 \<longrightarrow> vm_view (vmap nap') q = Some (pr, b) \<longrightarrow> word_of_int pr AND (4 :: u32) = 0"
    using moved_same(1) [OF s(2)] unfolding data_ok_def no_exec_def by simp
  moreover obtain ops where "host_log nap' = host_log nap @ ops"
      "\<forall>op \<in> set ops. confined (unat (mem_start nap) + text_end nap) (unat (mem_start nap) + 2 ^ addr_bits nap) op"
    using s(2) by (auto simp: moved_def confined_step_def logged_def)
  ultimately show ?thesis using moved_text [OF s(2)] by (auto simp: confined_def no_exec_def)
qed

theorem memory_calls_confined_witness:
  "\<exists>rs nap'. run_calls demo_env demo_space demo_calls = Inr (rs, nap') \<and> hd rs = 0x1ef0000 \<and>
     (\<forall>q. q * 4096 < 0x30000 \<longrightarrow> vm_view (vmap nap') q = vm_view (vmap demo_space) q)"
proof -
  obtain nap' where run: "run_calls demo_env demo_space demo_calls = Inr ([0x1ef0000, 0xffffffea, 0x52000, 0, 0x52000], nap')"
    using demo_run_result by blast
  from memory_calls_confined [OF demo_sandboxed demo_env_ok run] show ?thesis using run by (simp add: demo_simps)
qed

text \<open>C11: Every memory system call from a sandboxed state either aborts the process with a fatal
  message, or returns with the locks free and the whole invariant again: reference counts, memory
  map, break and text.\<close>

theorem memory_call_returns:
  assumes "sandboxed out nap" and "env_ok env"
  shows "run_call env nap c = Inl LogFatal \<or> (\<exists>r nap'. run_call env nap c = Inr (r, nap') \<and> sandboxed out nap')"
  using call_moves [OF assms, of c] by blast

theorem memory_call_returns_witness:
  "run_call demo_env demo_space (BrkCall 0x49000) = Inl LogFatal \<or>
    (\<exists>r nap'. run_call demo_env demo_space (BrkCall 0x49000) = Inr (r, nap') \<and> sandboxed (\<lambda>_. 0) nap')"
  by (rule memory_call_returns [OF demo_sandboxed demo_env_ok])

section \<open>The single calls\<close>

text \<open>\<open>NaClRoundAllocPage\<close> of a length within 64 KB of 4 GB wraps around to 0.\<close>

lemma NaClRoundAllocPage_all:
  "unat (NaClRoundAllocPage len) = (if unat len \<le> 4294901760 then (unat len + 65535) div 65536 * 65536 else 0)"
proof -
  have r: "unat (NaClRoundAllocPage len) = unat (len + 65535) div 65536 * 65536"
    using unat_and_not_mask [of "len + NACL_MAP_PAGESIZE - 1" 16] by (simp add: NaClRoundAllocPage_def page_consts add.commute)
  have "unat (len + 65535) = (if unat len \<le> 4294901760 then unat len + 65535 else unat len + 65535 - 4294967296)"
    using u32_lt [of len] by (simp add: unat_word_ariths le_mod_geq)
  then show ?thesis unfolding r using u32_lt [of len] by simp
qed

text \<open>C14: A successful \<open>mmap\<close> returns, on a 64 KB boundary above the text, the start of a region of \<open>n\<close> bytes
  inside the address space, whatever the hint and the flags; \<open>n\<close> is the length rounded up to whole 64 KB
  units (0 if that wraps around). Every page of the region is mapped afterwards, and none is executable;
  everything outside the region is untouched, in the memory map and on the host.\<close>

theorem NaClCommonSysMmap_region:
  assumes "sandboxed out nap" and "env_ok env"
    and "NaClCommonSysMmap env nap start len pr flags (sint (d :: u32)) off = Inr (r, nap')" and "\<not> NaClIsNegErrno r"
  shows "let n = (if unat len \<le> 4294901760 then (unat len + 65535) div 65536 * 65536 else 0) in
    text_end nap \<le> unat r \<and> unat r + n \<le> 2 ^ addr_bits nap \<and> unat r mod 65536 = 0 \<and>
    (\<forall>q. in_pages (unat r) (unat r + n) q \<longrightarrow>
      (\<exists>p b. vm_view (vmap nap') q = Some (p, b) \<and> no_exec (word_of_int p))) \<and>
    confined_step (unat r) (unat r + n) nap nap'"
proof -
  have s: "space_inv out nap" "few out nap" "\<And>p. few (take_ref (Some p) out) nap" "idle nap"
    using assms(1) by (simp_all add: sandboxed_def)
  have d: "-2147483648 \<le> sint d" "sint d < 2147483648" using sint_greater_eq [of d] sint_lt [of d] by simp_all
  define n where "n = unat (NaClRoundAllocPage len)"
  have p: "placed True out n nap r nap'"
    using mmap_places [OF s(1,2) assms(2) s(4) d s(3), of len start pr flags off] assms(3) by (simp add: n_def)
  then have at: "text_end nap \<le> unat r" "unat r + n \<le> 2 ^ addr_bits nap" "unat r mod 65536 = 0"
      "all_mapped (unat r) (unat r + n) nap'" "confined_step (unat r) (unat r + n) nap nap'"
    using assms(4) by (auto simp: placed_def good_step_def)
  have after: "data_ok nap'" "text_end nap' = text_end nap"
    using placed_moved [OF assms(1) p] moved_same [of nap nap'] by (simp_all add: sandboxed_def)
  have "\<exists>p b. vm_view (vmap nap') q = Some (p, b) \<and> no_exec (word_of_int p)" if q: "in_pages (unat r) (unat r + n) q" for q
  proof -
    obtain p b where v: "vm_view (vmap nap') q = Some (p, b)" using at(4) q unfolding all_mapped_def by fastforce
    moreover have "text_end nap' \<le> q * 4096" using q at(1) after(2) by (simp add: in_pages_def)
    ultimately show ?thesis using after(1) unfolding data_ok_def by blast
  qed
  then show ?thesis unfolding Let_def NaClRoundAllocPage_all [symmetric] n_def [symmetric] using at by blast
qed

theorem NaClCommonSysMmap_region_witness:
  "\<exists>nap'. NaClCommonSysMmap demo_env demo_space 0 0x5000 3 0x22 (-1) 0 = Inr (0x1ef0000, nap') \<and>
    confined_step 0x1ef0000 0x1f00000 demo_space nap' \<and> vm_view (vmap nap') 0x1eff \<noteq> None"
proof -
  have "map_sum id fst (run_call demo_env demo_space (MmapCall 0 0x5000 3 0x22 0xffffffff 0)) = Inr 0x1ef0000"
    by code_simp
  then obtain nap' where run: "NaClCommonSysMmap demo_env demo_space 0 0x5000 3 0x22 (sint (0xffffffff :: u32)) 0 = Inr (0x1ef0000, nap')"
    by (cases "run_call demo_env demo_space (MmapCall 0 0x5000 3 0x22 0xffffffff 0)") auto
  have "\<not> NaClIsNegErrno 0x1ef0000" by (simp add: NaClIsNegErrno_def)
  from NaClCommonSysMmap_region [OF demo_sandboxed demo_env_ok run this]
  have "confined_step 0x1ef0000 0x1f00000 demo_space nap'"
    "\<forall>q. in_pages 0x1ef0000 0x1f00000 q \<longrightarrow> (\<exists>p b. vm_view (vmap nap') q = Some (p, b) \<and> no_exec (word_of_int p))"
    by (simp_all add: Let_def)
  moreover have "in_pages 0x1ef0000 0x1f00000 0x1eff" by (simp add: in_pages_def)
  ultimately show ?thesis using run by fastforce
qed

lemma munmap_start:
  assumes "NaClSysMunmap env nap start len = Inr (0, nap')" shows "start < space_size nap"
proof -
  have e: "neg_errno NACL_ABI_EINVAL \<noteq> 0" "neg_errno NACL_ABI_EFAULT \<noteq> 0"
    using neg_not_zero [OF errno_simps(1)] neg_not_zero [OF errno_simps(4)] .
  let ?nap0 = "NaClSysCommonThreadSyscallEnter nap" and ?n = "NaClRoundAllocPage len"
  have "NaClUserToSysAddrRange ?nap0 start ?n \<noteq> kNaClBadAddress"
    using assms e by (auto simp: NaClSysMunmap_def munmap_body_def Let_def bind_result_eq_Inr split: if_splits)
  then have "start \<le> start + ?n" "start + ?n < space_size ?nap0"
    by (auto simp: NaClUserToSysAddrRange_def Let_def not_less not_le split: if_splits)
  then have "start < space_size ?nap0" by (rule le_less_trans)
  then show ?thesis by (simp add: NaClSysCommonThreadSyscallEnter_def space_size_def)
qed

text \<open>C18: When \<open>munmap\<close> returns 0 the pages of its region, from \<open>start\<close> up to the next 64 KB
  boundary after \<open>len\<close> bytes, are mapped no longer, and no other page has changed; the text and
  the trampolines cannot be unmapped.\<close>

theorem NaClSysMunmap_region:
  assumes "sandboxed out nap" and "env_ok env" and "NaClSysMunmap env nap start len = Inr (0, nap')"
  shows "text_end nap \<le> unat start \<and> (\<forall>q. vm_view (vmap nap') q =
    (if in_pages (unat start) (unat start + unat (NaClRoundAllocPage len)) q then None else vm_view (vmap nap) q))"
proof -
  have s: "space_inv out nap" "few out nap" "idle nap" "vm_view (vmap nap) 16 \<noteq> None"
    using assms(1) by (simp_all add: sandboxed_def)
  let ?n = "unat (NaClRoundAllocPage len)"
  have p: "placed False out ?n nap start nap'" "unmapped start ?n 0 nap'"
    using munmap_frees [OF s(1,2) assms(2) s(3,4), of start len] assms(3) by auto
  have g: "geometry nap" using s(1) by (simp add: space_inv_def)
  have "unat start < 2147483648"
    using munmap_start [OF assms(3)] unat_space_size [OF g] g power_increasing [of "addr_bits nap" 31 "2 :: nat"]
    by (simp add: word_less_nat_alt geometry_def)
  then have "\<not> NaClIsNegErrno start" by (simp add: NaClIsNegErrno_def word_le_nat_alt)
  then have "text_end nap \<le> unat start" "confined_step (unat start) (unat start + ?n) nap nap'"
    using p(1) by (auto simp: placed_def good_step_def)
  moreover from this(2) have "vm_view (vmap nap') q = vm_view (vmap nap) q \<or> in_pages (unat start) (unat start + ?n) q" for q
    by (auto simp: confined_step_def remapped_def)
  ultimately show ?thesis using p(2) by (auto simp: unmapped_def)
qed

theorem NaClSysMunmap_region_witness:
  "\<exists>nap'. NaClSysMunmap demo_env demo_space 0x40000 0x8000 = Inr (0, nap') \<and> vm_view (vmap nap') 0x40 = None"
proof -
  have "map_sum id fst (run_call demo_env demo_space (MunmapCall 0x40000 0x8000)) = Inr 0" by code_simp
  then obtain nap' where run: "NaClSysMunmap demo_env demo_space 0x40000 0x8000 = Inr (0, nap')"
    by (cases "run_call demo_env demo_space (MunmapCall 0x40000 0x8000)") auto
  from NaClSysMunmap_region [OF demo_sandboxed demo_env_ok run] show ?thesis
    using run by (simp add: in_pages_def NaClRoundAllocPage_def page_consts)
qed

text \<open>C21: \<open>brk\<close> aborts, or leaves the break where it was and returns it, or sets it to the address
  asked for, which is then at or above the end of the static data and inside the address space;
  what it returns is the new break, except that a lowered break is answered with the old one.\<close>

theorem NaClSetBreak_result:
  assumes "sandboxed out nap"
  shows "NaClSetBreak env nap b = Inl LogFatal \<or> (\<exists>r nap'. NaClSetBreak env nap b = Inr (r, nap') \<and>
    sandboxed out nap' \<and> unat (break_addr nap') < 2 ^ addr_bits nap \<and>
    (break_addr nap' = break_addr nap \<and> r = break_addr nap \<or>
     break_addr nap' = b \<and> data_end nap \<le> b \<and> (r = b \<or> b \<le> break_addr nap \<and> r = break_addr nap)))"
proof -
  have s: "space_inv out nap" "data_ok nap" "idle nap" using assms by (simp_all add: sandboxed_def)
  show ?thesis
    using set_break_result [OF s, of b env] brk_moved [OF assms] unfolding brk_result_def brk_done_def by metis
qed

theorem NaClSetBreak_result_witness:
  "NaClSetBreak demo_env demo_space 0x52000 = Inl LogFatal \<or>
    (\<exists>r nap'. NaClSetBreak demo_env demo_space 0x52000 = Inr (r, nap') \<and> unat (break_addr nap') < 2 ^ 25)"
  using NaClSetBreak_result [OF demo_sandboxed, of demo_env "0x52000"] demo_simps(2) by auto

lemma bad_address: "unat kNaClBadAddress = 4294967295"
proof -
  have "kNaClBadAddress = 0xffffffff" by (simp add: kNaClBadAddress_def)
  then have "unat kNaClBadAddress = unat (0xffffffff :: u32)" by (rule arg_cong)
  also have "\<dots> = 4294967295" by simp
  finally show ?thesis .
qed

text \<open>A break lowered within the heap takes effect, but the call returns the old break, by which
  the C library of the application takes it to have failed.\<close>

theorem lowered_break_reported_unchanged:
  assumes "idle nap" and "b \<noteq> 0" "b < space_size nap" "unat (xlate_base nap) + unat b < 4294967295"
    and "data_end nap \<le> b" "b \<le> break_addr nap"
  shows "NaClSetBreak env nap b = Inr (break_addr nap, nap\<lparr>break_addr := b\<rparr>)"
proof -
  have "unat (b + xlate_base nap) \<noteq> 4294967295" using assms(4) by (simp add: unat_plus_u32)
  moreover have "unat kNaClBadAddress = 4294967295" by (rule bad_address)
  ultimately have "b + xlate_base nap \<noteq> kNaClBadAddress" by auto
  then show ?thesis
    using assms by (cases nap) (simp add: NaClSetBreak_def NaClSysCommonThreadSyscallEnter_def NaClUserToSysAddr_def
        space_size_def brk_locked_def leave_alive idle_def Let_def not_less [symmetric])
qed

theorem lowered_break_reported_unchanged_witness:
  "NaClSetBreak demo_env (demo_fresh\<lparr>break_addr := 0x50000\<rparr>) 0x49000 = Inr (0x50000, demo_fresh\<lparr>break_addr := 0x49000\<rparr>)"
  using lowered_break_reported_unchanged [of "demo_fresh\<lparr>break_addr := 0x50000\<rparr>" "0x49000" demo_env]
  by (simp add: demo_fresh_def idle_def space_size_def push_bit_eq_mult)

section \<open>Addresses\<close>

text \<open>C23: Translation of addresses. An address of the application is accepted exactly when it is
  neither 0 nor beyond the end of its space; its translation lies in the block the host has given
  the application, and translating it back gives the address again.\<close>

theorem NaClUserToSysAddr_roundtrip:
  assumes "geometry nap"
  shows "(NaClUserToSysAddr nap u \<noteq> kNaClBadAddress \<longleftrightarrow> 0 < unat u \<and> unat u < 2 ^ addr_bits nap) \<and>
    (NaClUserToSysAddr nap u \<noteq> kNaClBadAddress \<longrightarrow>
       unat (NaClUserToSysAddr nap u) = unat (mem_start nap) + unat u \<and>
       NaClSysToUserAddr nap (NaClUserToSysAddr nap u) = u)"
proof -
  have z: "unat (space_size nap) = 2 ^ addr_bits nap" using unat_space_size [OF assms] .
  have x: "xlate_base nap = mem_start nap" "unat (mem_start nap) + 2 ^ addr_bits nap < 4294967296"
    using assms by (simp_all add: geometry_def)
  have bad: "unat kNaClBadAddress = 4294967295" by (rule bad_address)
  have sum: "unat (u + mem_start nap) = unat u + unat (mem_start nap)" if "unat u < 2 ^ addr_bits nap"
    using unat_sys [OF assms, of u] that by simp
  have "unat (mem_start nap + space_size nap) = unat (mem_start nap) + 2 ^ addr_bits nap"
    using z x by (simp add: unat_plus_u32)
  then have again: "NaClSysToUserAddr nap (u + mem_start nap) = u" if "unat u < 2 ^ addr_bits nap"
    using sum that x by (simp add: NaClSysToUserAddr_def word_less_nat_alt word_le_nat_alt)
  show ?thesis
  proof (cases "0 < unat u \<and> unat u < 2 ^ addr_bits nap")
    case True
    then have eq: "NaClUserToSysAddr nap u = u + mem_start nap"
      using z x by (auto simp: NaClUserToSysAddr_def word_le_nat_alt)
    have "unat (u + mem_start nap) \<noteq> unat kNaClBadAddress" using sum True x bad by simp
    then have "u + mem_start nap \<noteq> kNaClBadAddress" by auto
    then show ?thesis using True eq sum again by (simp add: add.commute)
  next
    case False
    then have "NaClUserToSysAddr nap u = kNaClBadAddress"
      using z by (auto simp: NaClUserToSysAddr_def word_le_nat_alt unat_eq_zero)
    then show ?thesis using False by simp
  qed
qed

theorem NaClUserToSysAddr_roundtrip_witness:
  "NaClUserToSysAddr demo_fresh 0x20000 \<noteq> kNaClBadAddress \<and> NaClUserToSysAddr demo_fresh 0x2000000 = kNaClBadAddress"
proof -
  have g: "geometry demo_fresh" by (simp add: demo_fresh_def geometry_def)
  show ?thesis
    using NaClUserToSysAddr_roundtrip [OF g, of "0x20000"] NaClUserToSysAddr_roundtrip [OF g, of "0x2000000"]
    by (simp add: demo_fresh_def)
qed

text \<open>C30: \<open>NaClUserToSysAddrRange\<close> accepts exactly the ranges that do not start at 0 and end below the
  last byte of the address space, computed without wrap-around. An accepted range is translated to the
  start of the block plus its address, so it lies wholly inside the block; any other range, and in
  particular one that ends at the very last byte of the space, gives the bad address.\<close>

theorem NaClUserToSysAddrRange_inside:
  assumes "geometry nap"
  shows "if 0 < unat u \<and> unat u + unat n < 2 ^ addr_bits nap
    then NaClUserToSysAddrRange nap u n \<noteq> kNaClBadAddress \<and>
      unat (NaClUserToSysAddrRange nap u n) = unat (mem_start nap) + unat u \<and>
      unat (NaClUserToSysAddrRange nap u n) + unat n < unat (mem_start nap) + 2 ^ addr_bits nap
    else NaClUserToSysAddrRange nap u n = kNaClBadAddress"
proof (cases "0 < unat u \<and> unat u + unat n < 2 ^ addr_bits nap")
  case True
  have lim: "(2 :: nat) ^ addr_bits nap \<le> 2147483648"
    using assms power_increasing [of "addr_bits nap" 31 "2 :: nat"] by (simp add: geometry_def)
  have e: "unat (u + n) = unat u + unat n" using True lim by (simp add: unat_plus_u32)
  have "u \<noteq> 0" "\<not> u + n < u" "\<not> u + n \<ge> space_size nap"
    using True e unat_space_size [OF assms] by (auto simp: word_less_nat_alt word_le_nat_alt)
  then have r: "NaClUserToSysAddrRange nap u n = u + mem_start nap"
    using assms by (simp add: NaClUserToSysAddrRange_def geometry_def)
  have sys: "unat (u + mem_start nap) = unat (mem_start nap) + unat u" using unat_sys [OF assms, of u] True by simp
  have "unat (u + mem_start nap) \<noteq> unat kNaClBadAddress" using sys True assms bad_address by (simp add: geometry_def)
  then show ?thesis using True r sys by auto
next
  case False
  then have "NaClUserToSysAddrRange nap u n = kNaClBadAddress" using range_ok [OF assms] by blast
  then show ?thesis using False by simp
qed

theorem NaClUserToSysAddrRange_inside_witness:
  "NaClUserToSysAddrRange demo_fresh 0x1ff0000 0x10000 = kNaClBadAddress \<and>
    unat (NaClUserToSysAddrRange demo_fresh 0x1ff0000 0xffff) = 0x11ff0000"
proof -
  have g: "geometry demo_fresh" "unat (mem_start demo_fresh) = 0x10000000" "addr_bits demo_fresh = 25"
    by (simp_all add: demo_fresh_def geometry_def)
  show ?thesis
    using NaClUserToSysAddrRange_inside [OF g(1), of "0x1ff0000" "0x10000"]
      NaClUserToSysAddrRange_inside [OF g(1), of "0x1ff0000" "0xffff"] by (simp add: g(2,3))
qed

text \<open>C27: The return address of a system call is not confined to a block boundary. The loader's
  alignments are 16 and 32; with 32 the mask of \<open>NaClSandboxAddr\<close> clears nothing (the x86 shift
  counts modulo 32), with 16 it clears the low 16 bits instead of the low 4.\<close>

theorem NaClSandboxAddr_no_mask:
  "NaClSandboxAddr 32 addr = addr \<and> unat (NaClSandboxAddr 16 addr) = unat addr div 65536 * 65536"
proof -
  have "NOT (push_bit 16 1 - 1 :: u32) = NOT (mask 16)" by (simp add: mask_eq_decr_exp push_bit_eq_mult)
  then have "unat (NaClSandboxAddr 16 addr) = unat addr div 65536 * 65536"
    using unat_and_not_mask [of addr 16] by (simp add: NaClSandboxAddr_def mask_eq_decr_exp)
  then show ?thesis by (simp add: NaClSandboxAddr_def)
qed

end
