(* ===== verification/Sel_App.thy ===== *)
theory Sel_App
  imports Sel_Load
begin

text \<open>
  The life of an application around the load (service\_runtime/sel\_ldr.c): its construction with
  the default sizes, empty tables and an empty memory map, and the messages for the results of a
  load.
\<close>

section \<open>Construction\<close>

definition NACL_DEFAULT_STACK_MAX :: u32 where "NACL_DEFAULT_STACK_MAX = push_bit 20 16"

definition NaClSyncQueueCtor :: "bool \<Rightarrow> bool \<Rightarrow> bool" where
  "NaClSyncQueueCtor mutex_ok cond_ok \<longleftrightarrow> mutex_ok \<and> cond_ok"

text \<open>\<open>ok k\<close> is the success of allocation or construction number \<open>k\<close>; \<open>None\<close> stands for the result 0,
  after which everything allocated has been freed. The base for translation and the break are not
  set; the reference counts of the descriptors belong to the process.\<close>

definition NaClAppCtor :: "(nat \<Rightarrow> bool) \<Rightarrow> NaClAppLoad \<Rightarrow> NaClAppLoad option" where
  "NaClAppCtor ok nap =
     (case DynArrayCtor (ok 0) (ok 1) 2 of
        None \<Rightarrow> None
      | Some ths \<Rightarrow>
          (case DynArrayCtor (ok 2) (ok 3) 2 of
             None \<Rightarrow> None
           | Some descs \<Rightarrow>
               (case NaClVmmapCtor (ok 4) (refs (tables (space nap))) of
                  Inl f \<Rightarrow> None
                | Inr (r, m) \<Rightarrow>
                    if r = 0 \<or> \<not> ok 5 \<or> \<not> ok 6 \<or> \<not> NaClSyncQueueCtor (ok 7) (ok 8) \<or> \<not> ok 9 \<or> \<not> ok 10 \<or> \<not> ok 11
                    then None
                    else Some (nap\<lparr>stack_size := NACL_DEFAULT_STACK_MAX, entry_pt := 0, phdrs := [],
                      space := (space nap)\<lparr>addr_bits := NACL_MAX_ADDR_BITS, mem_start := 0, text_region_bytes := 0,
                        data_end := 0, mem_map := m, mu := False,
                        tables := \<lparr>desc_tbl = descs, threads = ths, num_threads = 0, desc_mu = False,
                          threads_mu = False, refs = refs (tables (space nap))\<rparr>\<rparr>\<rparr>))))"

section \<open>Messages\<close>

fun NaClErrorString :: "NaClErrorCode \<Rightarrow> string" where
  "NaClErrorString LOAD_OK = ''Ok''"
| "NaClErrorString LOAD_STATUS_UNKNOWN = ''Load status unknown (load incomplete)''"
| "NaClErrorString LOAD_UNSUPPORTED_OS_PLATFORM = ''Operating system platform is not supported''"
| "NaClErrorString LOAD_INTERNAL = ''Internal error''"
| "NaClErrorString LOAD_READ_ERROR = ''Cannot read file''"
| "NaClErrorString LOAD_BAD_ELF_MAGIC = ''Bad ELF header magic number''"
| "NaClErrorString LOAD_NOT_32_BIT = ''Not a 32-bit ELF file''"
| "NaClErrorString LOAD_BAD_ABI = ''ELF file has unexpected OS ABI''"
| "NaClErrorString LOAD_NOT_EXEC = ''ELF file type not executable''"
| "NaClErrorString LOAD_BAD_MACHINE = ''ELF file for wrong architecture''"
| "NaClErrorString LOAD_BAD_ELF_VERS = ''ELF version mismatch''"
| "NaClErrorString LOAD_TOO_MANY_SECT = ''Too many section headers''"
| "NaClErrorString LOAD_BAD_SECT = ''ELF bad sections''"
| "NaClErrorString LOAD_NO_MEMORY = ''Insufficient memory to load file''"
| "NaClErrorString LOAD_SECT_HDR = ''ELF section header string table load error''"
| "NaClErrorString LOAD_ADDR_SPACE_TOO_SMALL = ''Address space too small''"
| "NaClErrorString LOAD_ADDR_SPACE_TOO_BIG = ''Address space too big''"
| "NaClErrorString LOAD_DATA_OVERLAPS_STACK_SECTION = ''Memory '' @ [CHR 0x22] @ ''hole'' @ [CHR 0x22] @
     '' between end of BSS and start of stack is negative in size''"
| "NaClErrorString LOAD_UNLOADABLE = ''Error during loading''"
| "NaClErrorString LOAD_BAD_ELF_TEXT = ''ELF file contains no text segment''"
| "NaClErrorString LOAD_TEXT_SEG_TOO_BIG = ''ELF file text segment too large''"
| "NaClErrorString LOAD_DATA_SEG_TOO_BIG = ''ELF file data segment(s) too large''"
| "NaClErrorString LOAD_MPROTECT_FAIL = ''Cannot protect pages''"
| "NaClErrorString LOAD_MADVISE_FAIL = ''Cannot release unused data segment''"
| "NaClErrorString LOAD_TOO_MANY_SYMBOL_STR = ''Malformed ELF file: too many string tables''"
| "NaClErrorString LOAD_SYMTAB_ENTRY_TOO_SMALL = ''Symbol table entry too small''"
| "NaClErrorString LOAD_NO_SYMTAB = ''No symbol table''"
| "NaClErrorString LOAD_NO_SYMTAB_STRINGS = ''No string table for symbols''"
| "NaClErrorString LOAD_SYMTAB_ENTRY = ''Error entering new symbol into symbol table''"
| "NaClErrorString LOAD_UNKNOWN_SYMBOL_TYPE = ''Unknown symbol type''"
| "NaClErrorString LOAD_SYMTAB_DUP = ''Duplicate entry in symbol table''"
| "NaClErrorString LOAD_REL_ERROR = ''Bad relocation read error''"
| "NaClErrorString LOAD_REL_UNIMPL = ''Relocation type unimplemented''"
| "NaClErrorString LOAD_UNDEF_SYMBOL = ''Undefined external symbol''"
| "NaClErrorString LOAD_BAD_SYMBOL_DATA = ''Bad symbol table data''"
| "NaClErrorString LOAD_BAD_FILE = ''ELF file not accessible''"
| "NaClErrorString LOAD_BAD_ENTRY = ''Bad symbol table entry: not a text symbol/entry point''"
| "NaClErrorString LOAD_SEGMENT_OUTSIDE_ADDRSPACE = ''ELF executable contains a segment which lies outside the assigned address space''"
| "NaClErrorString LOAD_DUP_SEGMENT = ''ELF executable contains a duplicate segment (please run objdump to see which)''"
| "NaClErrorString LOAD_SEGMENT_BAD_LOC = ''ELF executable text/rodata segment has wrong starting address''"
| "NaClErrorString LOAD_BAD_SEGMENT = ''ELF executable contains an unexpected/unallowed segment/flags''"
| "NaClErrorString LOAD_REQUIRED_SEG_MISSING = ''ELF executable missing a required segment (text)''"
| "NaClErrorString LOAD_SEGMENT_BAD_PARAM = ''ELF executable segment header parameter error''"
| "NaClErrorString LOAD_VALIDATION_FAILED = ''Validation failure. File violates Native Client safety rules.''"
| "NaClErrorString SRT_NO_SEG_SEL = ''Service Runtime: cannot allocate segment selector''"

text \<open>No code of the enumeration reaches the \<open>BAD ERROR CODE\<close> behind the \<open>switch\<close>.\<close>

lemma NaClErrorString_known: "NaClErrorString c \<noteq> ''BAD ERROR CODE''"
  by (cases c) simp_all

end
