(* ===== verification/Nc_Table.thy ===== *)
theory Nc_Table
  imports Nc_Decode
begin

text \<open>
  The generator of the decoding tables (validator\_x86/ncdecode\_table.c). Its calls are data
  (\<open>table_call\<close>), one definition per C function that makes them, and \<open>exec_call\<close> is their effect
  on the global tables. \<open>None\<close> in a table is the pointer to \<open>DecodeUndefinedInstInfo\<close>. Every other
  entry is allocated for one byte only, so that an update through the pointer is an update of
  that byte. The disassembly format of an entry and the printing of the tables as C text are left
  out; \<open>PrintDecodeTables\<close> gives the values of the generated arrays. An incompatible update of a
  table of operand kinds, which the program reports and ignores, is counted in \<open>kind_errors\<close>.
\<close>

section \<open>The tables\<close>

datatype RunMode = X86_32 | X86_64

datatype DecodeOpsKind = DECODE_OPS_DEFAULT_64 | DECODE_OPS_DEFAULT_32 | DECODE_OPS_FORCE_64

datatype op_table =
    g_Op1ByteTable | g_Op0FXXMetaTable | g_OpF20FXXTable | g_OpF30FXXTable | g_Op660FXXTable
  | g_Op0F0FTable | g_Op0F38Table | g_Op660F38Table | g_OpF20F38Table | g_Op0F3ATable | g_Op660F3ATable

datatype kind_table = g_OpDecodeOpsKind | g_Op0FDecodeOpsKind | g_ModRMOpDecodeOpsKind u8

definition kPrefixSEGSS :: u32 where "kPrefixSEGSS = 0x0002"
definition kPrefixSEGFS :: u32 where "kPrefixSEGFS = 0x0004"
definition kPrefixSEGES :: u32 where "kPrefixSEGES = 0x0200"
definition kPrefixREX :: u32 where "kPrefixREX = 0x1000"

abbreviation (input) GROUP1 :: u8 where "GROUP1 \<equiv> 1"
abbreviation (input) GROUP2 :: u8 where "GROUP2 \<equiv> 2"
abbreviation (input) GROUP3 :: u8 where "GROUP3 \<equiv> 3"
abbreviation (input) GROUP4 :: u8 where "GROUP4 \<equiv> 4"
abbreviation (input) GROUP5 :: u8 where "GROUP5 \<equiv> 5"
abbreviation (input) GROUP6 :: u8 where "GROUP6 \<equiv> 6"
abbreviation (input) GROUP7 :: u8 where "GROUP7 \<equiv> 7"
abbreviation (input) GROUP8 :: u8 where "GROUP8 \<equiv> 8"
abbreviation (input) GROUP9 :: u8 where "GROUP9 \<equiv> 9"
abbreviation (input) GROUP10 :: u8 where "GROUP10 \<equiv> 10"
abbreviation (input) GROUP11 :: u8 where "GROUP11 \<equiv> 11"
abbreviation (input) GROUP12 :: u8 where "GROUP12 \<equiv> 12"
abbreviation (input) GROUP13 :: u8 where "GROUP13 \<equiv> 13"
abbreviation (input) GROUP14 :: u8 where "GROUP14 \<equiv> 14"
abbreviation (input) GROUP15 :: u8 where "GROUP15 \<equiv> 15"
abbreviation (input) GROUP16 :: u8 where "GROUP16 \<equiv> 16"
abbreviation (input) GROUP17 :: u8 where "GROUP17 \<equiv> 17"
abbreviation (input) GROUP1A :: u8 where "GROUP1A \<equiv> 18"
abbreviation (input) GROUPP :: u8 where "GROUPP \<equiv> 19"

record meta_tables =
  g_Op :: "op_table \<Rightarrow> u8 \<Rightarrow> OpInfo option"
  g_ModRMOpTable :: "u8 \<Rightarrow> u8 \<Rightarrow> OpInfo option"
  g_Op87 :: "u8 \<Rightarrow> u8 \<Rightarrow> OpInfo option"
  g_PrefixTable :: "u8 \<Rightarrow> u32"
  g_OpsKind :: "kind_table \<Rightarrow> u8 \<Rightarrow> DecodeOpsKind"
  kind_errors :: nat

definition DecodeUndefinedInstInfo :: OpInfo where
  "DecodeUndefinedInstInfo =
     \<lparr>insttype = NACLi_UNDEFINED, hasmrmbyte = 0, op_immtype = IMM_NONE, opinmrm = 0\<rparr>"

definition NewMetaDefn :: "u8 \<Rightarrow> NCDecodeImmediateType \<Rightarrow> NaClInstType \<Rightarrow> OpInfo" where
  "NewMetaDefn mrmbyte imm itype =
     \<lparr>insttype = itype, hasmrmbyte = mrmbyte, op_immtype = imm, opinmrm = 0\<rparr>"

definition InitializeGlobalTables :: meta_tables where
  "InitializeGlobalTables = \<lparr>g_Op = (\<lambda>_ _. None), g_ModRMOpTable = (\<lambda>_ _. None), g_Op87 = (\<lambda>_ _. None),
     g_PrefixTable = (\<lambda>_. 0), g_OpsKind = (\<lambda>_ _. DECODE_OPS_DEFAULT_32), kind_errors = 0\<rparr>"

section \<open>Calls\<close>

text \<open>The mode of a call is \<open>None\<close> when the C function passes \<open>FLAGS_run_mode\<close>.\<close>

datatype table_call =
    Encode op_table u8 u8 NCDecodeImmediateType NaClInstType "RunMode option"
  | EncodeMRM u8 u8 NaClInstType "RunMode option"
  | EncodePrefix u8 u32 "RunMode option"
  | SetInMRM op_table u8 u8
  | SetOpsKind kind_table u8 DecodeOpsKind
  | EncodeX87 u8 "string option list" "string option list"
  | SetX87Type u8 u8 NaClInstType

definition mode_on :: "RunMode \<Rightarrow> RunMode option \<Rightarrow> bool" where
  "mode_on FLAGS_run_mode mode \<longleftrightarrow> mode = None \<or> mode = Some FLAGS_run_mode"

definition EncodeModed87Op :: "string option list \<Rightarrow> string option list \<Rightarrow> u8 \<Rightarrow> OpInfo option" where
  "EncodeModed87Op set1 set2 i =
     (if i < 0xc0 then
        (if set1 ! unat (modrm_reg i) = None then Some (NewMetaDefn 1 IMM_NONE NACLi_INVALID)
         else Some (NewMetaDefn 1 IMM_NONE NACLi_X87))
      else
        (if set2 ! unat (i - 0xc0) = None then Some (NewMetaDefn 1 IMM_NONE NACLi_INVALID)
         else Some (NewMetaDefn 1 IMM_NONE NACLi_X87)))"

definition UpdateDecodeOpsKind :: "kind_table \<Rightarrow> u8 \<Rightarrow> DecodeOpsKind \<Rightarrow> meta_tables \<Rightarrow> meta_tables" where
  "UpdateDecodeOpsKind gtbl byte new_kind T =
     (let was_kind = g_OpsKind T gtbl byte;
          T = (if was_kind \<noteq> new_kind \<and> was_kind \<noteq> DECODE_OPS_DEFAULT_32
               then T\<lparr>kind_errors := kind_errors T + 1\<rparr> else T)
      in T\<lparr>g_OpsKind := (g_OpsKind T)(gtbl := (g_OpsKind T gtbl)(byte := new_kind))\<rparr>)"

text \<open>The effect of a call. \<open>SetInMRM\<close> asserts that the entry has been defined.\<close>

fun exec_call :: "RunMode \<Rightarrow> table_call \<Rightarrow> meta_tables \<Rightarrow> meta_tables result" where
  "exec_call flags (Encode tbl byte mrmbyte imm itype mode) T =
     Inr (if mode_on flags mode
          then T\<lparr>g_Op := (g_Op T)(tbl := (g_Op T tbl)(byte := Some (NewMetaDefn mrmbyte imm itype)))\<rparr>
          else T)"
| "exec_call flags (EncodeMRM grp nnn itype mode) T =
     Inr (if mode_on flags mode
          then T\<lparr>g_ModRMOpTable := (g_ModRMOpTable T)
                   (grp := (g_ModRMOpTable T grp)(nnn := Some (NewMetaDefn 1 IMM_NONE itype)))\<rparr>
          else T)"
| "exec_call flags (EncodePrefix byte name mode) T =
     Inr (if mode_on flags mode then T\<lparr>g_PrefixTable := (g_PrefixTable T)(byte := name)\<rparr> else T)"
| "exec_call flags (SetInMRM tbl byte grp) T =
     (case g_Op T tbl byte of None \<Rightarrow> Inl CheckFailed
      | Some e \<Rightarrow> Inr (T\<lparr>g_Op := (g_Op T)(tbl := (g_Op T tbl)(byte := Some (e\<lparr>opinmrm := grp\<rparr>)))\<rparr>))"
| "exec_call flags (SetOpsKind gtbl byte kind) T = Inr (UpdateDecodeOpsKind gtbl byte kind T)"
| "exec_call flags (EncodeX87 tab set1 set2) T =
     Inr (T\<lparr>g_Op87 := (g_Op87 T)(tab := EncodeModed87Op set1 set2)\<rparr>)"
| "exec_call flags (SetX87Type tab byte itype) T =
     (case g_Op87 T tab byte of None \<Rightarrow> Inl NullDeref
      | Some e \<Rightarrow> Inr (T\<lparr>g_Op87 := (g_Op87 T)(tab := (g_Op87 T tab)(byte := Some (e\<lparr>insttype := itype\<rparr>)))\<rparr>))"

fun run_calls :: "RunMode \<Rightarrow> table_call list \<Rightarrow> meta_tables \<Rightarrow> meta_tables result" where
  "run_calls flags [] T = Inr T"
| "run_calls flags (c # cs) T = bind_result (exec_call flags c T) (run_calls flags cs)"

section \<open>The C functions that make the calls\<close>

type_synonym encode_fn = "u8 \<Rightarrow> u8 \<Rightarrow> NCDecodeImmediateType \<Rightarrow> NaClInstType \<Rightarrow> table_call"
type_synonym encode_moded_fn = "u8 \<Rightarrow> u8 \<Rightarrow> NCDecodeImmediateType \<Rightarrow> NaClInstType \<Rightarrow> RunMode \<Rightarrow> table_call"

definition EncodeModedOp :: encode_moded_fn where
  "EncodeModedOp byte mrmbyte imm itype mode = Encode g_Op1ByteTable byte mrmbyte imm itype (Some mode)"
definition EncodeOp :: encode_fn where
  "EncodeOp byte mrmbyte imm itype = Encode g_Op1ByteTable byte mrmbyte imm itype None"
definition EncodeModedPrefixName :: "u8 \<Rightarrow> u32 \<Rightarrow> RunMode \<Rightarrow> table_call" where
  "EncodeModedPrefixName byte name mode = EncodePrefix byte name (Some mode)"
definition EncodePrefixName :: "u8 \<Rightarrow> u32 \<Rightarrow> table_call" where
  "EncodePrefixName byte name = EncodePrefix byte name None"
definition EncodeOpRegs :: encode_fn where
  "EncodeOpRegs byte mrmbyte imm itype = Encode g_Op1ByteTable byte mrmbyte imm itype None"
definition SetOpDefaultSize64 :: "u8 \<Rightarrow> table_call" where
  "SetOpDefaultSize64 byte = SetOpsKind g_OpDecodeOpsKind byte DECODE_OPS_DEFAULT_64"
definition SetOpForceSize64 :: "u8 \<Rightarrow> table_call" where
  "SetOpForceSize64 byte = SetOpsKind g_OpDecodeOpsKind byte DECODE_OPS_FORCE_64"
definition EncodeModedOp0F :: encode_moded_fn where
  "EncodeModedOp0F byte mrmbyte imm itype mode = Encode g_Op0FXXMetaTable byte mrmbyte imm itype (Some mode)"
definition EncodeOp0F :: encode_fn where
  "EncodeOp0F byte mrmbyte imm itype = Encode g_Op0FXXMetaTable byte mrmbyte imm itype None"
definition SetOp0FDefaultSize64 :: "u8 \<Rightarrow> table_call" where
  "SetOp0FDefaultSize64 byte = SetOpsKind g_Op0FDecodeOpsKind byte DECODE_OPS_DEFAULT_64"
definition SetOp0FForceSize64 :: "u8 \<Rightarrow> table_call" where
  "SetOp0FForceSize64 byte = SetOpsKind g_Op0FDecodeOpsKind byte DECODE_OPS_FORCE_64"
definition EncodeOp660F :: encode_fn where
  "EncodeOp660F byte2 mrmbyte imm itype = Encode g_Op660FXXTable byte2 mrmbyte imm itype None"
definition EncodeOpF20F :: encode_fn where
  "EncodeOpF20F byte mrmbyte imm itype = Encode g_OpF20FXXTable byte mrmbyte imm itype None"
definition EncodeOpF30F :: encode_fn where
  "EncodeOpF30F byte mrmbyte imm itype = Encode g_OpF30FXXTable byte mrmbyte imm itype None"
definition EncodeOp0F0F :: encode_fn where
  "EncodeOp0F0F byte mrmbyte imm itype = Encode g_Op0F0FTable byte mrmbyte imm itype None"
definition EncodeOp0F38 :: encode_fn where
  "EncodeOp0F38 byte mrmbyte imm itype = Encode g_Op0F38Table byte mrmbyte imm itype None"
definition EncodeOp660F38 :: encode_fn where
  "EncodeOp660F38 byte mrmbyte imm itype = Encode g_Op660F38Table byte mrmbyte imm itype None"
definition EncodeOpF20F38 :: encode_fn where
  "EncodeOpF20F38 byte mrmbyte imm itype = Encode g_OpF20F38Table byte mrmbyte imm itype None"
definition EncodeOp0F3A :: encode_fn where
  "EncodeOp0F3A byte mrmbyte imm itype = Encode g_Op0F3ATable byte mrmbyte imm itype None"
definition EncodeOp660F3A :: encode_fn where
  "EncodeOp660F3A byte mrmbyte imm itype = Encode g_Op660F3ATable byte mrmbyte imm itype None"
definition EncodeModRMOp :: "u8 \<Rightarrow> u8 \<Rightarrow> NaClInstType \<Rightarrow> table_call" where
  "EncodeModRMOp grp nnn itype = EncodeMRM grp nnn itype None"
definition EncodeModRMOpRegs :: "u8 \<Rightarrow> u8 \<Rightarrow> NaClInstType \<Rightarrow> table_call" where
  "EncodeModRMOpRegs grp nnn itype = EncodeMRM grp nnn itype None"
definition SetModRMOpDefaultSize64 :: "u8 \<Rightarrow> u8 \<Rightarrow> table_call" where
  "SetModRMOpDefaultSize64 grp nnn = SetOpsKind (g_ModRMOpDecodeOpsKind grp) nnn DECODE_OPS_DEFAULT_64"
definition SetModRMOpForceSize64 :: "u8 \<Rightarrow> u8 \<Rightarrow> table_call" where
  "SetModRMOpForceSize64 grp nnn = SetOpsKind (g_ModRMOpDecodeOpsKind grp) nnn DECODE_OPS_FORCE_64"
definition SetOpOpInMRM :: "u8 \<Rightarrow> u8 \<Rightarrow> table_call" where
  "SetOpOpInMRM byte grp = SetInMRM g_Op1ByteTable byte grp"
definition SetOp0FOpInMRM :: "u8 \<Rightarrow> u8 \<Rightarrow> table_call" where
  "SetOp0FOpInMRM byte grp = SetInMRM g_Op0FXXMetaTable byte grp"
definition SetOp66OpInMRM :: "u8 \<Rightarrow> u8 \<Rightarrow> table_call" where
  "SetOp66OpInMRM byte grp = SetInMRM g_Op660FXXTable byte grp"

definition ALUOperandVariants00_05 :: "u8 \<Rightarrow> NaClInstType \<Rightarrow> table_call list" where
  "ALUOperandVariants00_05 base itype =
     [EncodeOp base 1 IMM_NONE itype,
      EncodeOp (base + 1) 1 IMM_NONE itype,
      EncodeOp (base + 2) 1 IMM_NONE itype,
      EncodeOp (base + 3) 1 IMM_NONE itype,
      EncodeOp (base + 4) 0 IMM_FIXED1 itype,
      EncodeOpRegs (base + 5) 0 IMM_DATAV itype]"

definition OneRegVariants00_07 :: "u8 \<Rightarrow> NaClInstType \<Rightarrow> bool \<Rightarrow> table_call list" where
  "OneRegVariants00_07 base itype has_mode_64 =
     concat (map (\<lambda>i. EncodeModedOp (base + i) 0 IMM_NONE itype X86_32 #
       (if has_mode_64
        then [EncodeModedOp (base + i) 0 IMM_NONE itype X86_64, SetOpDefaultSize64 (base + i)]
        else [EncodeModedOp (base + i) 0 IMM_NONE NACLi_ILLEGAL X86_64,
              EncodeModedPrefixName (base + i) kPrefixREX X86_64]))
       [0, 1, 2, 3, 4, 5, 6, 7])"

definition Encode87Op :: "u8 \<Rightarrow> string option list \<Rightarrow> string option list \<Rightarrow> table_call" where
  "Encode87Op g87tab set1 set2 = EncodeX87 g87tab set1 set2"

end
