(* ===== verification/Nc_Table_Data.thy ===== *)
theory Nc_Table_Data
  imports Nc_Table
begin

text \<open>
  The calls that build the decoding tables, in the order of \<open>BuildMetaTables\<close>,
  \<open>BuildSSE4Tables\<close> and \<open>Buildx87Tables\<close> (validator\_x86/ncdecode\_table.c). The long C function
  is split into consecutive lists. A NULL name in the tables of x87 instructions is \<open>None\<close>.
\<close>

definition BuildMetaTables_1 :: "table_call list" where
  "BuildMetaTables_1 =
     ALUOperandVariants00_05 0x00 NACLi_386L @
     ALUOperandVariants00_05 0x08 NACLi_386L @
     ALUOperandVariants00_05 0x10 NACLi_386L @
     ALUOperandVariants00_05 0x18 NACLi_386L @
     ALUOperandVariants00_05 0x20 NACLi_386L @
     ALUOperandVariants00_05 0x28 NACLi_386L @
     ALUOperandVariants00_05 0x30 NACLi_386L @
     ALUOperandVariants00_05 0x38 NACLi_386 @
     [EncodeModedOp 0x06 0 IMM_NONE NACLi_ILLEGAL X86_32,
      EncodeModedOp 0x16 0 IMM_NONE NACLi_ILLEGAL X86_32, EncodeOp 0x26 0 IMM_NONE NACLi_ILLEGAL,
      EncodePrefixName 0x26 kPrefixSEGES, EncodeOp 0x36 0 IMM_NONE NACLi_ILLEGAL,
      EncodePrefixName 0x36 kPrefixSEGSS, EncodeModedOp 0x07 0 IMM_NONE NACLi_ILLEGAL X86_32,
      EncodeModedOp 0x17 0 IMM_NONE NACLi_ILLEGAL X86_32,
      EncodeModedOp 0x27 0 IMM_NONE NACLi_ILLEGAL X86_32,
      EncodeModedOp 0x37 0 IMM_NONE NACLi_ILLEGAL X86_32,
      EncodeModedOp 0x0e 0 IMM_NONE NACLi_ILLEGAL X86_32,
      EncodeModedOp 0x1e 0 IMM_NONE NACLi_ILLEGAL X86_32, EncodeOp 0x2e 0 IMM_NONE NACLi_ILLEGAL,
      EncodePrefixName 0x2e kPrefixSEGCS, EncodeOp 0x3e 0 IMM_NONE NACLi_ILLEGAL,
      EncodePrefixName 0x3e kPrefixSEGDS, EncodeOp 0x0f 0 IMM_NONE NACLi_UNDEFINED,
      EncodeModedOp 0x1f 0 IMM_NONE NACLi_ILLEGAL X86_32, EncodeOp 0x2f 0 IMM_NONE NACLi_ILLEGAL,
      EncodeOp 0x3f 0 IMM_NONE NACLi_ILLEGAL] @
     OneRegVariants00_07 0x40 NACLi_386L False @
     OneRegVariants00_07 0x48 NACLi_386L False @
     OneRegVariants00_07 0x50 NACLi_386 True @
     OneRegVariants00_07 0x58 NACLi_386 True @
     [EncodeModedOp 0x60 0 IMM_NONE NACLi_ILLEGAL X86_32,
      EncodeModedOp 0x61 0 IMM_NONE NACLi_ILLEGAL X86_32,
      EncodeModedOp 0x62 1 IMM_NONE NACLi_ILLEGAL X86_32,
      EncodeModedOp 0x63 1 IMM_NONE NACLi_SYSTEM X86_32, EncodeModedOp 0x63 1 IMM_NONE NACLi_SYSTEM X86_64,
      EncodeOp 0x64 0 IMM_NONE NACLi_ILLEGAL, EncodePrefixName 0x64 kPrefixSEGFS,
      EncodeOp 0x65 0 IMM_NONE NACLi_ILLEGAL, EncodePrefixName 0x65 kPrefixSEGGS,
      EncodeOp 0x66 0 IMM_NONE NACLi_ILLEGAL, EncodePrefixName 0x66 kPrefixDATA16,
      EncodeOp 0x67 0 IMM_NONE NACLi_ILLEGAL, EncodePrefixName 0x67 kPrefixADDR16,
      EncodeOp 0x68 0 IMM_DATAV NACLi_386, SetOpDefaultSize64 0x68, EncodeOp 0x69 1 IMM_DATAV NACLi_386,
      EncodeOp 0x6a 0 IMM_FIXED1 NACLi_386, SetOpDefaultSize64 0x6a, EncodeOp 0x6b 1 IMM_FIXED1 NACLi_386,
      EncodeOp 0x6c 0 IMM_NONE NACLi_ILLEGAL, EncodeOp 0x6d 0 IMM_NONE NACLi_ILLEGAL,
      EncodeOp 0x6e 0 IMM_NONE NACLi_ILLEGAL, EncodeOp 0x6f 0 IMM_NONE NACLi_ILLEGAL,
      EncodeOp 0x70 0 IMM_FIXED1 NACLi_JMP8, SetOpForceSize64 0x70, EncodeOp 0x71 0 IMM_FIXED1 NACLi_JMP8,
      SetOpForceSize64 0x71, EncodeOp 0x72 0 IMM_FIXED1 NACLi_JMP8, SetOpForceSize64 0x72,
      EncodeOp 0x73 0 IMM_FIXED1 NACLi_JMP8, SetOpForceSize64 0x73, EncodeOp 0x74 0 IMM_FIXED1 NACLi_JMP8,
      SetOpForceSize64 0x74, EncodeOp 0x75 0 IMM_FIXED1 NACLi_JMP8, SetOpForceSize64 0x75,
      EncodeOp 0x76 0 IMM_FIXED1 NACLi_JMP8, SetOpForceSize64 0x76, EncodeOp 0x77 0 IMM_FIXED1 NACLi_JMP8,
      SetOpForceSize64 0x77, EncodeOp 0x78 0 IMM_FIXED1 NACLi_JMP8, SetOpForceSize64 0x78,
      EncodeOp 0x79 0 IMM_FIXED1 NACLi_JMP8, SetOpForceSize64 0x79, EncodeOp 0x7a 0 IMM_FIXED1 NACLi_JMP8,
      SetOpForceSize64 0x7a, EncodeOp 0x7b 0 IMM_FIXED1 NACLi_JMP8, SetOpForceSize64 0x7b,
      EncodeOp 0x7c 0 IMM_FIXED1 NACLi_JMP8, SetOpForceSize64 0x7c, EncodeOp 0x7d 0 IMM_FIXED1 NACLi_JMP8,
      SetOpForceSize64 0x7d, EncodeOp 0x7e 0 IMM_FIXED1 NACLi_JMP8, SetOpForceSize64 0x7e,
      EncodeOp 0x7f 0 IMM_FIXED1 NACLi_JMP8, SetOpForceSize64 0x7f,
      EncodeOp 0x80 1 IMM_FIXED1 NACLi_OPINMRM, SetOpOpInMRM 0x80 GROUP1,
      EncodeOp 0x81 1 IMM_DATAV NACLi_OPINMRM, SetOpOpInMRM 0x81 GROUP1,
      EncodeModedOp 0x82 1 IMM_FIXED1 NACLi_ILLEGAL X86_32, EncodeOp 0x83 1 IMM_FIXED1 NACLi_OPINMRM,
      SetOpOpInMRM 0x83 GROUP1, EncodeOp 0x84 1 IMM_NONE NACLi_386, EncodeOp 0x85 1 IMM_NONE NACLi_386,
      EncodeOp 0x86 1 IMM_NONE NACLi_386L, EncodeOp 0x87 1 IMM_NONE NACLi_386L,
      EncodeOp 0x88 1 IMM_NONE NACLi_386, EncodeOp 0x89 1 IMM_NONE NACLi_386,
      EncodeOp 0x8a 1 IMM_NONE NACLi_386, EncodeOp 0x8b 1 IMM_NONE NACLi_386,
      EncodeOp 0x8c 1 IMM_NONE NACLi_ILLEGAL, EncodeOp 0x8d 1 IMM_NONE NACLi_386,
      EncodeOp 0x8e 1 IMM_NONE NACLi_ILLEGAL, EncodeOp 0x8f 1 IMM_NONE NACLi_OPINMRM,
      SetOpOpInMRM 0x8f GROUP1A, SetOpDefaultSize64 0x8f, EncodeOp 0x90 0 IMM_NONE NACLi_386R,
      EncodeOpRegs 0x91 0 IMM_NONE NACLi_386L, EncodeOpRegs 0x92 0 IMM_NONE NACLi_386L,
      EncodeOpRegs 0x93 0 IMM_NONE NACLi_386L, EncodeOpRegs 0x94 0 IMM_NONE NACLi_386L,
      EncodeOpRegs 0x95 0 IMM_NONE NACLi_386L]"

definition BuildMetaTables_2 :: "table_call list" where
  "BuildMetaTables_2 =
     [EncodeOpRegs 0x96 0 IMM_NONE NACLi_386L, EncodeOpRegs 0x97 0 IMM_NONE NACLi_386L,
      EncodeOp 0x98 0 IMM_NONE NACLi_386, EncodeOp 0x99 0 IMM_NONE NACLi_386,
      EncodeModedOp 0x9a 0 IMM_FARPTR NACLi_ILLEGAL X86_32, EncodeOp 0x9b 0 IMM_NONE NACLi_X87,
      EncodeOp 0x9c 0 IMM_NONE NACLi_ILLEGAL, SetOpDefaultSize64 0x9c,
      EncodeOp 0x9d 0 IMM_NONE NACLi_ILLEGAL, SetOpDefaultSize64 0x9d, EncodeOp 0x9e 0 IMM_NONE NACLi_386,
      EncodeOp 0x9f 0 IMM_NONE NACLi_386, EncodeOp 0xa0 0 IMM_ADDRV NACLi_386,
      EncodeOpRegs 0xa1 0 IMM_ADDRV NACLi_386, EncodeOp 0xa2 0 IMM_ADDRV NACLi_386,
      EncodeOpRegs 0xa3 0 IMM_ADDRV NACLi_386, EncodeOp 0xa4 0 IMM_NONE NACLi_386R,
      EncodeOp 0xa5 0 IMM_NONE NACLi_386R, EncodeOp 0xa6 0 IMM_NONE NACLi_386RE,
      EncodeOp 0xa7 0 IMM_NONE NACLi_386RE, EncodeOp 0xa8 0 IMM_FIXED1 NACLi_386,
      EncodeOpRegs 0xa9 0 IMM_DATAV NACLi_386, EncodeOp 0xaa 0 IMM_NONE NACLi_386R,
      EncodeOpRegs 0xab 0 IMM_NONE NACLi_386R, EncodeOp 0xac 0 IMM_NONE NACLi_ILLEGAL,
      EncodeOpRegs 0xad 0 IMM_NONE NACLi_ILLEGAL, EncodeOp 0xae 0 IMM_NONE NACLi_386RE,
      EncodeOpRegs 0xaf 0 IMM_NONE NACLi_386RE, EncodeModedOp 0xb0 0 IMM_FIXED1 NACLi_386 X86_32,
      EncodeModedOp 0xb1 0 IMM_FIXED1 NACLi_386 X86_32, EncodeModedOp 0xb2 0 IMM_FIXED1 NACLi_386 X86_32,
      EncodeModedOp 0xb3 0 IMM_FIXED1 NACLi_386 X86_32, EncodeModedOp 0xb4 0 IMM_FIXED1 NACLi_386 X86_32,
      EncodeModedOp 0xb5 0 IMM_FIXED1 NACLi_386 X86_32, EncodeModedOp 0xb6 0 IMM_FIXED1 NACLi_386 X86_32,
      EncodeModedOp 0xb7 0 IMM_FIXED1 NACLi_386 X86_32, EncodeOp 0xb8 0 IMM_MOV_DATAV NACLi_386,
      EncodeOp 0xb9 0 IMM_MOV_DATAV NACLi_386, EncodeOp 0xba 0 IMM_MOV_DATAV NACLi_386,
      EncodeOp 0xbb 0 IMM_MOV_DATAV NACLi_386, EncodeOp 0xbc 0 IMM_MOV_DATAV NACLi_386,
      EncodeOp 0xbd 0 IMM_MOV_DATAV NACLi_386, EncodeOp 0xbe 0 IMM_MOV_DATAV NACLi_386,
      EncodeOp 0xbf 0 IMM_MOV_DATAV NACLi_386, EncodeOp 0xc0 1 IMM_FIXED1 NACLi_OPINMRM,
      SetOpOpInMRM 0xc0 GROUP2, EncodeOp 0xc1 1 IMM_FIXED1 NACLi_OPINMRM, SetOpOpInMRM 0xc1 GROUP2,
      EncodeOp 0xc2 0 IMM_FIXED2 NACLi_RETURN, SetOpForceSize64 0xc2,
      EncodeOp 0xc3 0 IMM_NONE NACLi_RETURN, SetOpForceSize64 0xc3,
      EncodeModedOp 0xc4 1 IMM_NONE NACLi_ILLEGAL X86_32,
      EncodeModedOp 0xc5 1 IMM_NONE NACLi_ILLEGAL X86_32, EncodeOp 0xc6 1 IMM_FIXED1 NACLi_OPINMRM,
      SetOpOpInMRM 0xc6 GROUP11, EncodeOp 0xc7 1 IMM_DATAV NACLi_OPINMRM, SetOpOpInMRM 0xc7 GROUP11,
      EncodeOp 0xc8 0 IMM_FIXED3 NACLi_ILLEGAL, EncodeOp 0xc9 0 IMM_NONE NACLi_386,
      SetOpDefaultSize64 0xc9, EncodeOp 0xca 0 IMM_FIXED2 NACLi_RETURN,
      EncodeOp 0xcb 0 IMM_NONE NACLi_RETURN, EncodeOp 0xcc 0 IMM_NONE NACLi_ILLEGAL,
      EncodeOp 0xcd 0 IMM_FIXED1 NACLi_ILLEGAL, EncodeModedOp 0xce 0 IMM_NONE NACLi_ILLEGAL X86_32,
      EncodeOp 0xcf 0 IMM_NONE NACLi_SYSTEM, EncodeOp 0xd0 1 IMM_NONE NACLi_OPINMRM,
      SetOpOpInMRM 0xd0 GROUP2, EncodeOp 0xd1 1 IMM_NONE NACLi_OPINMRM, SetOpOpInMRM 0xd1 GROUP2,
      EncodeOp 0xd2 1 IMM_NONE NACLi_OPINMRM, SetOpOpInMRM 0xd2 GROUP2,
      EncodeOp 0xd3 1 IMM_NONE NACLi_OPINMRM, SetOpOpInMRM 0xd3 GROUP2,
      EncodeModedOp 0xd4 0 IMM_FIXED1 NACLi_ILLEGAL X86_32,
      EncodeModedOp 0xd5 0 IMM_FIXED1 NACLi_ILLEGAL X86_32, EncodeOp 0xd6 0 IMM_NONE NACLi_ILLEGAL,
      EncodeOp 0xd7 0 IMM_NONE NACLi_ILLEGAL, EncodeOp 0xd8 1 IMM_NONE NACLi_X87,
      EncodeOp 0xd9 1 IMM_NONE NACLi_X87, EncodeOp 0xda 1 IMM_NONE NACLi_X87,
      EncodeOp 0xdb 1 IMM_NONE NACLi_X87, EncodeOp 0xdc 1 IMM_NONE NACLi_X87,
      EncodeOp 0xdd 1 IMM_NONE NACLi_X87, EncodeOp 0xde 1 IMM_NONE NACLi_X87,
      EncodeOp 0xdf 1 IMM_NONE NACLi_X87, EncodeOp 0xe0 0 IMM_FIXED1 NACLi_ILLEGAL, SetOpForceSize64 0xe0,
      EncodeOp 0xe1 0 IMM_FIXED1 NACLi_ILLEGAL, SetOpForceSize64 0xe1,
      EncodeOp 0xe2 0 IMM_FIXED1 NACLi_ILLEGAL, SetOpForceSize64 0xe2,
      EncodeOp 0xe3 0 IMM_FIXED1 NACLi_ILLEGAL, SetOpForceSize64 0xe3,
      EncodeOp 0xe4 0 IMM_FIXED1 NACLi_ILLEGAL, EncodeOp 0xe5 0 IMM_FIXED1 NACLi_ILLEGAL,
      EncodeOp 0xe6 0 IMM_FIXED1 NACLi_ILLEGAL, EncodeOp 0xe7 0 IMM_FIXED1 NACLi_ILLEGAL,
      EncodeOp 0xe8 0 IMM_DATAV NACLi_JMPZ, SetOpForceSize64 0xe8, EncodeOp 0xe9 0 IMM_DATAV NACLi_JMPZ,
      SetOpForceSize64 0xe9, EncodeModedOp 0xea 0 IMM_FARPTR NACLi_ILLEGAL X86_32,
      EncodeOp 0xeb 0 IMM_FIXED1 NACLi_JMP8, SetOpForceSize64 0xeb, EncodeOp 0xec 0 IMM_NONE NACLi_ILLEGAL,
      EncodeOp 0xed 0 IMM_NONE NACLi_ILLEGAL, EncodeOp 0xee 0 IMM_NONE NACLi_ILLEGAL,
      EncodeOp 0xef 0 IMM_NONE NACLi_ILLEGAL, EncodeOp 0xf0 0 IMM_NONE NACLi_ILLEGAL,
      EncodePrefixName 0xf0 kPrefixLOCK, EncodeOp 0xf1 0 IMM_NONE NACLi_ILLEGAL]"

definition BuildMetaTables_3 :: "table_call list" where
  "BuildMetaTables_3 =
     [EncodeOp 0xf2 0 IMM_NONE NACLi_ILLEGAL, EncodePrefixName 0xf2 kPrefixREPNE,
      EncodeOp 0xf3 0 IMM_NONE NACLi_ILLEGAL, EncodePrefixName 0xf3 kPrefixREP,
      EncodeOp 0xf4 0 IMM_NONE NACLi_386, EncodeOp 0xf5 0 IMM_NONE NACLi_386,
      EncodeOp 0xf6 1 IMM_GROUP3_F6 NACLi_OPINMRM, SetOpOpInMRM 0xf6 GROUP3,
      EncodeOp 0xf7 1 IMM_GROUP3_F7 NACLi_OPINMRM, SetOpOpInMRM 0xf7 GROUP3,
      EncodeOp 0xf8 0 IMM_NONE NACLi_386, EncodeOp 0xf9 0 IMM_NONE NACLi_386,
      EncodeOp 0xfa 0 IMM_NONE NACLi_SYSTEM, EncodeOp 0xfb 0 IMM_NONE NACLi_SYSTEM,
      EncodeOp 0xfc 0 IMM_NONE NACLi_386, EncodeOp 0xfd 0 IMM_NONE NACLi_386,
      EncodeOp 0xfe 1 IMM_NONE NACLi_OPINMRM, SetOpOpInMRM 0xfe GROUP4,
      EncodeOp 0xff 1 IMM_NONE NACLi_OPINMRM, SetOpOpInMRM 0xff GROUP5, EncodeModRMOp GROUP1 0 NACLi_386L,
      EncodeModRMOp GROUP1 1 NACLi_386L, EncodeModRMOp GROUP1 2 NACLi_386L,
      EncodeModRMOp GROUP1 3 NACLi_386L, EncodeModRMOp GROUP1 4 NACLi_386L,
      EncodeModRMOp GROUP1 5 NACLi_386L, EncodeModRMOp GROUP1 6 NACLi_386L,
      EncodeModRMOp GROUP1 7 NACLi_386, EncodeModRMOp GROUP1A 0 NACLi_386,
      EncodeModRMOp GROUP2 0 NACLi_386, EncodeModRMOp GROUP2 1 NACLi_386, EncodeModRMOp GROUP2 2 NACLi_386,
      EncodeModRMOp GROUP2 3 NACLi_386, EncodeModRMOp GROUP2 4 NACLi_386, EncodeModRMOp GROUP2 5 NACLi_386,
      EncodeModRMOp GROUP2 7 NACLi_386, EncodeModRMOp GROUP3 0 NACLi_386,
      EncodeModRMOp GROUP3 2 NACLi_386L, EncodeModRMOp GROUP3 3 NACLi_386L,
      EncodeModRMOpRegs GROUP3 4 NACLi_386, EncodeModRMOpRegs GROUP3 5 NACLi_386,
      EncodeModRMOpRegs GROUP3 6 NACLi_386, EncodeModRMOpRegs GROUP3 7 NACLi_386,
      EncodeModRMOp GROUP4 0 NACLi_386L, EncodeModRMOp GROUP4 1 NACLi_386L,
      EncodeModRMOp GROUP5 0 NACLi_386L, EncodeModRMOp GROUP5 1 NACLi_386L,
      EncodeModRMOp GROUP5 2 NACLi_INDIRECT, SetModRMOpForceSize64 GROUP5 2,
      EncodeModRMOp GROUP5 3 NACLi_ILLEGAL, EncodeModRMOp GROUP5 4 NACLi_INDIRECT,
      SetModRMOpForceSize64 GROUP5 4, EncodeModRMOp GROUP5 5 NACLi_ILLEGAL,
      EncodeModRMOp GROUP5 6 NACLi_386, SetModRMOpDefaultSize64 GROUP5 6,
      EncodeModRMOp GROUP6 0 NACLi_SYSTEM, EncodeModRMOp GROUP6 1 NACLi_SYSTEM,
      EncodeModRMOp GROUP6 2 NACLi_SYSTEM, EncodeModRMOp GROUP6 3 NACLi_SYSTEM,
      EncodeModRMOp GROUP6 4 NACLi_SYSTEM, EncodeModRMOp GROUP6 5 NACLi_SYSTEM,
      EncodeModRMOp GROUP7 0 NACLi_SYSTEM, EncodeModRMOp GROUP7 1 NACLi_SYSTEM,
      EncodeModRMOp GROUP7 2 NACLi_SYSTEM, EncodeModRMOp GROUP7 3 NACLi_SYSTEM,
      EncodeModRMOp GROUP7 4 NACLi_SYSTEM, EncodeModRMOp GROUP7 6 NACLi_SYSTEM,
      EncodeModRMOp GROUP7 7 NACLi_SYSTEM, EncodeModRMOp GROUP8 4 NACLi_ILLEGAL,
      EncodeModRMOp GROUP8 5 NACLi_ILLEGAL, EncodeModRMOp GROUP8 6 NACLi_ILLEGAL,
      EncodeModRMOp GROUP8 7 NACLi_ILLEGAL, EncodeModRMOp GROUP9 1 NACLi_CMPXCHG8B,
      EncodeModRMOp GROUP11 0 NACLi_386, EncodeModRMOp GROUP12 2 NACLi_MMXSSE2,
      EncodeModRMOp GROUP12 4 NACLi_MMXSSE2, EncodeModRMOp GROUP12 6 NACLi_MMXSSE2,
      EncodeModRMOp GROUP13 2 NACLi_MMXSSE2, EncodeModRMOp GROUP13 4 NACLi_MMXSSE2,
      EncodeModRMOp GROUP13 6 NACLi_MMXSSE2, EncodeModRMOp GROUP14 2 NACLi_MMXSSE2,
      EncodeModRMOp GROUP14 3 NACLi_SSE2x, EncodeModRMOp GROUP14 6 NACLi_MMXSSE2,
      EncodeModRMOp GROUP14 7 NACLi_SSE2x, EncodeModRMOp GROUP15 0 NACLi_ILLEGAL,
      EncodeModRMOp GROUP15 1 NACLi_ILLEGAL, EncodeModRMOp GROUP15 2 NACLi_ILLEGAL,
      EncodeModRMOp GROUP15 3 NACLi_ILLEGAL, EncodeModRMOp GROUP15 4 NACLi_ILLEGAL,
      EncodeModRMOp GROUP15 5 NACLi_SSE2]"

definition BuildMetaTables_4 :: "table_call list" where
  "BuildMetaTables_4 =
     [EncodeModRMOp GROUP15 6 NACLi_SSE2, EncodeModRMOp GROUP15 7 NACLi_SFENCE_CLFLUSH,
      EncodeModRMOp GROUP16 0 NACLi_SSE, EncodeModRMOp GROUP16 1 NACLi_SSE,
      EncodeModRMOp GROUP16 2 NACLi_SSE, EncodeModRMOp GROUP16 3 NACLi_SSE,
      EncodeModRMOp GROUP16 4 NACLi_ILLEGAL, EncodeModRMOp GROUP16 5 NACLi_ILLEGAL,
      EncodeModRMOp GROUP16 6 NACLi_ILLEGAL, EncodeModRMOp GROUP16 7 NACLi_ILLEGAL,
      EncodeModRMOp GROUPP 0 NACLi_3DNOW, EncodeModRMOp GROUPP 1 NACLi_3DNOW,
      EncodeModRMOp GROUPP 2 NACLi_ILLEGAL, EncodeModRMOp GROUPP 3 NACLi_ILLEGAL,
      EncodeModRMOp GROUPP 4 NACLi_ILLEGAL, EncodeModRMOp GROUPP 5 NACLi_ILLEGAL,
      EncodeModRMOp GROUPP 6 NACLi_ILLEGAL, EncodeModRMOp GROUPP 7 NACLi_ILLEGAL,
      EncodeOp0F 0x00 1 IMM_NONE NACLi_OPINMRM, SetOp0FOpInMRM 0x0 GROUP6,
      EncodeOp0F 0x01 1 IMM_NONE NACLi_OPINMRM, SetOp0FOpInMRM 0x01 GROUP7,
      EncodeOp0F 0x02 1 IMM_NONE NACLi_SYSTEM, EncodeOp0F 0x03 1 IMM_NONE NACLi_ILLEGAL,
      EncodeModedOp0F 0x05 0 IMM_NONE NACLi_SYSCALL X86_64, EncodeOp0F 0x06 0 IMM_NONE NACLi_SYSTEM,
      EncodeModedOp0F 0x07 0 IMM_NONE NACLi_ILLEGAL X86_64, EncodeOp0F 0x08 0 IMM_NONE NACLi_SYSTEM,
      EncodeOp0F 0x09 0 IMM_NONE NACLi_SYSTEM, EncodeOp0F 0x0b 0 IMM_NONE NACLi_ILLEGAL,
      EncodeOp0F 0x0d 1 IMM_NONE NACLi_OPINMRM, SetOp0FOpInMRM 0x0d GROUPP,
      EncodeOp0F 0x0e 0 IMM_NONE NACLi_3DNOW, EncodeOp0F 0x0f 1 IMM_FIXED1 NACLi_3DNOW,
      EncodeOp0F 0x18 1 IMM_NONE NACLi_OPINMRM, SetOp0FOpInMRM 0x18 GROUP16,
      EncodeOp0F 0x1f 1 IMM_NONE NACLi_386, EncodeOp0F 0x20 1 IMM_NONE NACLi_SYSTEM,
      EncodeOp0F 0x21 1 IMM_NONE NACLi_SYSTEM, EncodeOp0F 0x22 1 IMM_NONE NACLi_SYSTEM,
      EncodeOp0F 0x23 1 IMM_NONE NACLi_SYSTEM, EncodeOp0F 0x30 0 IMM_NONE NACLi_RDMSR,
      EncodeOp0F 0x31 0 IMM_NONE NACLi_RDTSC, EncodeOp0F 0x32 0 IMM_NONE NACLi_RDMSR,
      EncodeOp0F 0x33 0 IMM_NONE NACLi_SYSTEM, EncodeOp0F 0x34 0 IMM_NONE NACLi_SYSENTER,
      EncodeOp0F 0x35 0 IMM_NONE NACLi_SYSENTER, EncodeOp0F 0x37 0 IMM_NONE NACLi_ILLEGAL,
      EncodeOp0F 0x38 1 IMM_NONE NACLi_3BYTE, EncodeOp0F 0x3a 1 IMM_FIXED1 NACLi_3BYTE,
      EncodeOp0F 0x40 1 IMM_NONE NACLi_CMOV, EncodeOp0F 0x41 1 IMM_NONE NACLi_CMOV,
      EncodeOp0F 0x42 1 IMM_NONE NACLi_CMOV, EncodeOp0F 0x43 1 IMM_NONE NACLi_CMOV,
      EncodeOp0F 0x44 1 IMM_NONE NACLi_CMOV, EncodeOp0F 0x45 1 IMM_NONE NACLi_CMOV,
      EncodeOp0F 0x46 1 IMM_NONE NACLi_CMOV, EncodeOp0F 0x47 1 IMM_NONE NACLi_CMOV,
      EncodeOp0F 0x48 1 IMM_NONE NACLi_CMOV, EncodeOp0F 0x49 1 IMM_NONE NACLi_CMOV,
      EncodeOp0F 0x4a 1 IMM_NONE NACLi_CMOV, EncodeOp0F 0x4b 1 IMM_NONE NACLi_CMOV,
      EncodeOp0F 0x4c 1 IMM_NONE NACLi_CMOV, EncodeOp0F 0x4d 1 IMM_NONE NACLi_CMOV,
      EncodeOp0F 0x4e 1 IMM_NONE NACLi_CMOV, EncodeOp0F 0x4f 1 IMM_NONE NACLi_CMOV,
      EncodeOp660F 0x40 1 IMM_NONE NACLi_CMOV, EncodeOp660F 0x41 1 IMM_NONE NACLi_CMOV,
      EncodeOp660F 0x42 1 IMM_NONE NACLi_CMOV, EncodeOp660F 0x43 1 IMM_NONE NACLi_CMOV,
      EncodeOp660F 0x44 1 IMM_NONE NACLi_CMOV, EncodeOp660F 0x45 1 IMM_NONE NACLi_CMOV,
      EncodeOp660F 0x46 1 IMM_NONE NACLi_CMOV, EncodeOp660F 0x47 1 IMM_NONE NACLi_CMOV,
      EncodeOp660F 0x48 1 IMM_NONE NACLi_CMOV, EncodeOp660F 0x49 1 IMM_NONE NACLi_CMOV,
      EncodeOp660F 0x4a 1 IMM_NONE NACLi_CMOV, EncodeOp660F 0x4b 1 IMM_NONE NACLi_CMOV,
      EncodeOp660F 0x4c 1 IMM_NONE NACLi_CMOV, EncodeOp660F 0x4d 1 IMM_NONE NACLi_CMOV,
      EncodeOp660F 0x4e 1 IMM_NONE NACLi_CMOV, EncodeOp660F 0x4f 1 IMM_NONE NACLi_CMOV,
      EncodeOp0F 0x80 0 IMM_DATAV NACLi_JMPZ, SetOp0FForceSize64 0x80,
      EncodeOp0F 0x81 0 IMM_DATAV NACLi_JMPZ, SetOp0FForceSize64 0x81,
      EncodeOp0F 0x82 0 IMM_DATAV NACLi_JMPZ, SetOp0FForceSize64 0x82,
      EncodeOp0F 0x83 0 IMM_DATAV NACLi_JMPZ, SetOp0FForceSize64 0x83,
      EncodeOp0F 0x84 0 IMM_DATAV NACLi_JMPZ, SetOp0FForceSize64 0x84,
      EncodeOp0F 0x85 0 IMM_DATAV NACLi_JMPZ, SetOp0FForceSize64 0x85,
      EncodeOp0F 0x86 0 IMM_DATAV NACLi_JMPZ, SetOp0FForceSize64 0x86,
      EncodeOp0F 0x87 0 IMM_DATAV NACLi_JMPZ, SetOp0FForceSize64 0x87,
      EncodeOp0F 0x88 0 IMM_DATAV NACLi_JMPZ, SetOp0FForceSize64 0x88,
      EncodeOp0F 0x89 0 IMM_DATAV NACLi_JMPZ, SetOp0FForceSize64 0x89,
      EncodeOp0F 0x8a 0 IMM_DATAV NACLi_JMPZ]"

definition BuildMetaTables_5 :: "table_call list" where
  "BuildMetaTables_5 =
     [SetOp0FForceSize64 0x8a, EncodeOp0F 0x8b 0 IMM_DATAV NACLi_JMPZ, SetOp0FForceSize64 0x8b,
      EncodeOp0F 0x8c 0 IMM_DATAV NACLi_JMPZ, SetOp0FForceSize64 0x8c,
      EncodeOp0F 0x8d 0 IMM_DATAV NACLi_JMPZ, SetOp0FForceSize64 0x8d,
      EncodeOp0F 0x8e 0 IMM_DATAV NACLi_JMPZ, SetOp0FForceSize64 0x8e,
      EncodeOp0F 0x8f 0 IMM_DATAV NACLi_JMPZ, SetOp0FForceSize64 0x8f,
      EncodeOp0F 0x90 1 IMM_NONE NACLi_386, EncodeOp0F 0x91 1 IMM_NONE NACLi_386,
      EncodeOp0F 0x92 1 IMM_NONE NACLi_386, EncodeOp0F 0x93 1 IMM_NONE NACLi_386,
      EncodeOp0F 0x94 1 IMM_NONE NACLi_386, EncodeOp0F 0x95 1 IMM_NONE NACLi_386,
      EncodeOp0F 0x96 1 IMM_NONE NACLi_386, EncodeOp0F 0x97 1 IMM_NONE NACLi_386,
      EncodeOp0F 0x98 1 IMM_NONE NACLi_386, EncodeOp0F 0x99 1 IMM_NONE NACLi_386,
      EncodeOp0F 0x9a 1 IMM_NONE NACLi_386, EncodeOp0F 0x9b 1 IMM_NONE NACLi_386,
      EncodeOp0F 0x9c 1 IMM_NONE NACLi_386, EncodeOp0F 0x9d 1 IMM_NONE NACLi_386,
      EncodeOp0F 0x9e 1 IMM_NONE NACLi_386, EncodeOp0F 0x9f 1 IMM_NONE NACLi_386,
      EncodeOp0F 0xa0 0 IMM_NONE NACLi_ILLEGAL, SetOp0FDefaultSize64 0xa0,
      EncodeOp0F 0xa1 0 IMM_NONE NACLi_ILLEGAL, SetOp0FDefaultSize64 0xa1,
      EncodeOp0F 0xa2 0 IMM_NONE NACLi_386, EncodeOp0F 0xa3 1 IMM_NONE NACLi_ILLEGAL,
      EncodeOp0F 0xa4 1 IMM_FIXED1 NACLi_386, EncodeOp0F 0xa5 1 IMM_NONE NACLi_386,
      EncodeOp0F 0xa6 0 IMM_NONE NACLi_INVALID, EncodeOp0F 0xa7 0 IMM_NONE NACLi_INVALID,
      EncodeOp0F 0xa8 0 IMM_NONE NACLi_ILLEGAL, SetOp0FDefaultSize64 0xa8,
      EncodeOp0F 0xa9 0 IMM_NONE NACLi_ILLEGAL, SetOp0FDefaultSize64 0xa9,
      EncodeOp0F 0xaa 0 IMM_NONE NACLi_SYSTEM, EncodeOp0F 0xab 1 IMM_NONE NACLi_ILLEGAL,
      EncodeOp0F 0xac 1 IMM_FIXED1 NACLi_386, EncodeOp0F 0xad 1 IMM_NONE NACLi_386,
      EncodeOp0F 0xae 1 IMM_NONE NACLi_OPINMRM, SetOp0FOpInMRM 0xae GROUP15,
      EncodeOp0F 0xaf 1 IMM_NONE NACLi_386, EncodeOp660F 0xaf 1 IMM_NONE NACLi_386,
      EncodeOp0F 0xb0 1 IMM_NONE NACLi_386L, EncodeOp0F 0xb1 1 IMM_NONE NACLi_386L,
      EncodeOp0F 0xb2 1 IMM_NONE NACLi_ILLEGAL, EncodeOp0F 0xb3 1 IMM_NONE NACLi_ILLEGAL,
      EncodeOp0F 0xb4 1 IMM_NONE NACLi_ILLEGAL, EncodeOp0F 0xb5 1 IMM_NONE NACLi_ILLEGAL,
      EncodeOp0F 0xb6 1 IMM_NONE NACLi_386, EncodeOp660F 0xb6 1 IMM_NONE NACLi_386,
      EncodeOp0F 0xb7 1 IMM_NONE NACLi_386, EncodeOp660F 0xb7 1 IMM_NONE NACLi_386,
      EncodeModedOp0F 0xc8 0 IMM_NONE NACLi_386 X86_32, EncodeModedOp0F 0xc9 0 IMM_NONE NACLi_386 X86_32,
      EncodeModedOp0F 0xca 0 IMM_NONE NACLi_386 X86_32, EncodeModedOp0F 0xcb 0 IMM_NONE NACLi_386 X86_32,
      EncodeModedOp0F 0xcc 0 IMM_NONE NACLi_386 X86_32, EncodeModedOp0F 0xcd 0 IMM_NONE NACLi_386 X86_32,
      EncodeModedOp0F 0xce 0 IMM_NONE NACLi_386 X86_32, EncodeModedOp0F 0xcf 0 IMM_NONE NACLi_386 X86_32,
      EncodeOp0F 0x10 1 IMM_NONE NACLi_SSE, EncodeOpF30F 0x10 1 IMM_NONE NACLi_SSE,
      EncodeOp660F 0x10 1 IMM_NONE NACLi_SSE2, EncodeOpF20F 0x10 1 IMM_NONE NACLi_SSE2,
      EncodeOp0F 0x11 1 IMM_NONE NACLi_SSE, EncodeOpF30F 0x11 1 IMM_NONE NACLi_SSE,
      EncodeOp660F 0x11 1 IMM_NONE NACLi_SSE2, EncodeOpF20F 0x11 1 IMM_NONE NACLi_SSE2,
      EncodeOp0F 0x12 1 IMM_NONE NACLi_SSE, EncodeOpF30F 0x12 1 IMM_NONE NACLi_SSE3,
      EncodeOp660F 0x12 1 IMM_NONE NACLi_SSE2, EncodeOpF20F 0x12 1 IMM_NONE NACLi_SSE3,
      EncodeOp0F 0x13 1 IMM_NONE NACLi_SSE, EncodeOpF30F 0x13 0 IMM_NONE NACLi_INVALID,
      EncodeOp660F 0x13 1 IMM_NONE NACLi_SSE2, EncodeOpF20F 0x13 0 IMM_NONE NACLi_INVALID,
      EncodeOp0F 0x14 1 IMM_NONE NACLi_SSE, EncodeOpF30F 0x14 0 IMM_NONE NACLi_INVALID,
      EncodeOp660F 0x14 1 IMM_NONE NACLi_SSE2, EncodeOpF20F 0x14 0 IMM_NONE NACLi_INVALID,
      EncodeOp0F 0x15 1 IMM_NONE NACLi_SSE, EncodeOpF30F 0x15 0 IMM_NONE NACLi_INVALID,
      EncodeOp660F 0x15 1 IMM_NONE NACLi_SSE2, EncodeOpF20F 0x15 0 IMM_NONE NACLi_INVALID,
      EncodeOp0F 0x16 1 IMM_NONE NACLi_SSE, EncodeOpF30F 0x16 1 IMM_NONE NACLi_SSE3,
      EncodeOp660F 0x16 1 IMM_NONE NACLi_SSE2, EncodeOpF20F 0x16 0 IMM_NONE NACLi_INVALID,
      EncodeOp0F 0x17 1 IMM_NONE NACLi_SSE, EncodeOpF30F 0x17 0 IMM_NONE NACLi_INVALID,
      EncodeOp660F 0x17 1 IMM_NONE NACLi_SSE2, EncodeOpF20F 0x17 0 IMM_NONE NACLi_INVALID,
      EncodeOp0F 0x28 1 IMM_NONE NACLi_SSE, EncodeOpF30F 0x28 0 IMM_NONE NACLi_INVALID,
      EncodeOp660F 0x28 1 IMM_NONE NACLi_SSE2, EncodeOpF20F 0x28 0 IMM_NONE NACLi_INVALID,
      EncodeOp0F 0x29 1 IMM_NONE NACLi_SSE, EncodeOpF30F 0x29 0 IMM_NONE NACLi_INVALID,
      EncodeOp660F 0x29 1 IMM_NONE NACLi_SSE2, EncodeOpF20F 0x29 0 IMM_NONE NACLi_INVALID,
      EncodeOp0F 0x2a 1 IMM_NONE NACLi_SSE, EncodeOpF30F 0x2a 1 IMM_NONE NACLi_SSE,
      EncodeOp660F 0x2a 1 IMM_NONE NACLi_SSE2, EncodeOpF20F 0x2a 1 IMM_NONE NACLi_SSE2,
      EncodeOp0F 0x2b 1 IMM_NONE NACLi_SSE, EncodeOpF30F 0x2b 1 IMM_NONE NACLi_SSE4A,
      EncodeOp660F 0x2b 1 IMM_NONE NACLi_SSE2]"

definition BuildMetaTables_6 :: "table_call list" where
  "BuildMetaTables_6 =
     [EncodeOpF20F 0x2b 1 IMM_NONE NACLi_SSE4A, EncodeOp0F 0x2c 1 IMM_NONE NACLi_SSE,
      EncodeOpF30F 0x2c 1 IMM_NONE NACLi_SSE, EncodeOp660F 0x2c 1 IMM_NONE NACLi_SSE2,
      EncodeOpF20F 0x2c 1 IMM_NONE NACLi_SSE2, EncodeOp0F 0x2d 1 IMM_NONE NACLi_SSE,
      EncodeOpF30F 0x2d 1 IMM_NONE NACLi_SSE, EncodeOp660F 0x2d 1 IMM_NONE NACLi_SSE2,
      EncodeOpF20F 0x2d 1 IMM_NONE NACLi_SSE2, EncodeOp0F 0x2e 1 IMM_NONE NACLi_SSE,
      EncodeOpF30F 0x2e 0 IMM_NONE NACLi_INVALID, EncodeOp660F 0x2e 1 IMM_NONE NACLi_SSE2,
      EncodeOpF20F 0x2e 0 IMM_NONE NACLi_INVALID, EncodeOp0F 0x2f 1 IMM_NONE NACLi_SSE,
      EncodeOpF30F 0x2f 0 IMM_NONE NACLi_INVALID, EncodeOp660F 0x2f 1 IMM_NONE NACLi_SSE2,
      EncodeOpF20F 0x2f 0 IMM_NONE NACLi_INVALID, EncodeOp0F 0x50 1 IMM_NONE NACLi_SSE,
      EncodeOpF30F 0x50 0 IMM_NONE NACLi_INVALID, EncodeOp660F 0x50 1 IMM_NONE NACLi_SSE2,
      EncodeOpF20F 0x50 0 IMM_NONE NACLi_INVALID, EncodeOp0F 0x51 1 IMM_NONE NACLi_SSE,
      EncodeOpF30F 0x51 1 IMM_NONE NACLi_SSE, EncodeOp660F 0x51 1 IMM_NONE NACLi_SSE2,
      EncodeOpF20F 0x51 1 IMM_NONE NACLi_SSE2, EncodeOp0F 0x52 1 IMM_NONE NACLi_SSE,
      EncodeOpF30F 0x52 1 IMM_NONE NACLi_SSE, EncodeOp660F 0x52 0 IMM_NONE NACLi_INVALID,
      EncodeOpF20F 0x52 0 IMM_NONE NACLi_INVALID, EncodeOp0F 0x53 1 IMM_NONE NACLi_SSE,
      EncodeOpF30F 0x53 1 IMM_NONE NACLi_SSE, EncodeOp660F 0x53 0 IMM_NONE NACLi_INVALID,
      EncodeOpF20F 0x53 0 IMM_NONE NACLi_INVALID, EncodeOp0F 0x54 1 IMM_NONE NACLi_SSE,
      EncodeOpF30F 0x54 0 IMM_NONE NACLi_INVALID, EncodeOp660F 0x54 1 IMM_NONE NACLi_SSE2,
      EncodeOpF20F 0x54 0 IMM_NONE NACLi_INVALID, EncodeOp0F 0x55 1 IMM_NONE NACLi_SSE,
      EncodeOpF30F 0x55 0 IMM_NONE NACLi_INVALID, EncodeOp660F 0x55 1 IMM_NONE NACLi_SSE2,
      EncodeOpF20F 0x55 0 IMM_NONE NACLi_INVALID, EncodeOp0F 0x56 1 IMM_NONE NACLi_SSE,
      EncodeOpF30F 0x56 1 IMM_NONE NACLi_INVALID, EncodeOp660F 0x56 1 IMM_NONE NACLi_SSE2,
      EncodeOpF20F 0x56 0 IMM_NONE NACLi_INVALID, EncodeOp0F 0x57 1 IMM_NONE NACLi_SSE,
      EncodeOpF30F 0x57 0 IMM_NONE NACLi_INVALID, EncodeOp660F 0x57 1 IMM_NONE NACLi_SSE2,
      EncodeOpF20F 0x57 0 IMM_NONE NACLi_INVALID, EncodeOp0F 0x58 1 IMM_NONE NACLi_SSE,
      EncodeOpF30F 0x58 1 IMM_NONE NACLi_SSE, EncodeOp660F 0x58 1 IMM_NONE NACLi_SSE2,
      EncodeOpF20F 0x58 1 IMM_NONE NACLi_SSE2, EncodeOp0F 0x59 1 IMM_NONE NACLi_SSE,
      EncodeOpF30F 0x59 1 IMM_NONE NACLi_SSE, EncodeOp660F 0x59 1 IMM_NONE NACLi_SSE2,
      EncodeOpF20F 0x59 1 IMM_NONE NACLi_SSE2, EncodeOp0F 0x5a 1 IMM_NONE NACLi_SSE2,
      EncodeOpF30F 0x5a 1 IMM_NONE NACLi_SSE2, EncodeOp660F 0x5a 1 IMM_NONE NACLi_SSE2,
      EncodeOpF20F 0x5a 1 IMM_NONE NACLi_SSE2, EncodeOp0F 0x5b 1 IMM_NONE NACLi_SSE2,
      EncodeOpF30F 0x5b 1 IMM_NONE NACLi_SSE2, EncodeOp660F 0x5b 1 IMM_NONE NACLi_SSE2,
      EncodeOpF20F 0x5b 0 IMM_NONE NACLi_INVALID, EncodeOp0F 0x5c 1 IMM_NONE NACLi_SSE,
      EncodeOpF30F 0x5c 1 IMM_NONE NACLi_SSE, EncodeOp660F 0x5c 1 IMM_NONE NACLi_SSE2,
      EncodeOpF20F 0x5c 1 IMM_NONE NACLi_SSE2, EncodeOp0F 0x5d 1 IMM_NONE NACLi_SSE,
      EncodeOpF30F 0x5d 1 IMM_NONE NACLi_SSE, EncodeOp660F 0x5d 1 IMM_NONE NACLi_SSE2,
      EncodeOpF20F 0x5d 1 IMM_NONE NACLi_SSE2, EncodeOp0F 0x5e 1 IMM_NONE NACLi_SSE,
      EncodeOpF30F 0x5e 1 IMM_NONE NACLi_SSE, EncodeOp660F 0x5e 1 IMM_NONE NACLi_SSE2,
      EncodeOpF20F 0x5e 1 IMM_NONE NACLi_SSE2, EncodeOp0F 0x5f 1 IMM_NONE NACLi_SSE,
      EncodeOpF30F 0x5f 1 IMM_NONE NACLi_SSE, EncodeOp660F 0x5f 1 IMM_NONE NACLi_SSE2,
      EncodeOpF20F 0x5f 1 IMM_NONE NACLi_SSE2, EncodeOp0F 0x60 1 IMM_NONE NACLi_MMX,
      EncodeOpF30F 0x60 0 IMM_NONE NACLi_INVALID, EncodeOp660F 0x60 1 IMM_NONE NACLi_SSE2,
      EncodeOpF20F 0x60 0 IMM_NONE NACLi_INVALID, EncodeOp0F 0x61 1 IMM_NONE NACLi_MMX,
      EncodeOpF30F 0x61 0 IMM_NONE NACLi_INVALID, EncodeOp660F 0x61 1 IMM_NONE NACLi_SSE2,
      EncodeOpF20F 0x61 0 IMM_NONE NACLi_INVALID, EncodeOp0F 0x62 1 IMM_NONE NACLi_MMX,
      EncodeOpF30F 0x62 0 IMM_NONE NACLi_INVALID, EncodeOp660F 0x62 1 IMM_NONE NACLi_SSE2,
      EncodeOpF20F 0x62 0 IMM_NONE NACLi_INVALID, EncodeOp0F 0x63 1 IMM_NONE NACLi_MMX,
      EncodeOpF30F 0x63 0 IMM_NONE NACLi_INVALID, EncodeOp660F 0x63 1 IMM_NONE NACLi_SSE2,
      EncodeOpF20F 0x63 0 IMM_NONE NACLi_INVALID, EncodeOp0F 0x64 1 IMM_NONE NACLi_MMX,
      EncodeOpF30F 0x64 0 IMM_NONE NACLi_INVALID, EncodeOp660F 0x64 1 IMM_NONE NACLi_SSE2,
      EncodeOpF20F 0x64 0 IMM_NONE NACLi_INVALID, EncodeOp0F 0x65 1 IMM_NONE NACLi_MMX,
      EncodeOpF30F 0x65 0 IMM_NONE NACLi_INVALID, EncodeOp660F 0x65 1 IMM_NONE NACLi_SSE2,
      EncodeOpF20F 0x65 0 IMM_NONE NACLi_INVALID, EncodeOp0F 0x66 1 IMM_NONE NACLi_MMX,
      EncodeOpF30F 0x66 0 IMM_NONE NACLi_INVALID, EncodeOp660F 0x66 1 IMM_NONE NACLi_SSE2,
      EncodeOpF20F 0x66 0 IMM_NONE NACLi_INVALID, EncodeOp0F 0x67 1 IMM_NONE NACLi_MMX,
      EncodeOpF30F 0x67 0 IMM_NONE NACLi_INVALID, EncodeOp660F 0x67 1 IMM_NONE NACLi_SSE2,
      EncodeOpF20F 0x67 0 IMM_NONE NACLi_INVALID, EncodeOp0F 0x68 1 IMM_NONE NACLi_MMX,
      EncodeOpF30F 0x68 0 IMM_NONE NACLi_INVALID, EncodeOp660F 0x68 1 IMM_NONE NACLi_SSE2]"

definition BuildMetaTables_7 :: "table_call list" where
  "BuildMetaTables_7 =
     [EncodeOpF20F 0x68 0 IMM_NONE NACLi_INVALID, EncodeOp0F 0x69 1 IMM_NONE NACLi_MMX,
      EncodeOpF30F 0x69 0 IMM_NONE NACLi_INVALID, EncodeOp660F 0x69 1 IMM_NONE NACLi_SSE2,
      EncodeOpF20F 0x69 0 IMM_NONE NACLi_INVALID, EncodeOp0F 0x6a 1 IMM_NONE NACLi_MMX,
      EncodeOpF30F 0x6a 0 IMM_NONE NACLi_INVALID, EncodeOp660F 0x6a 1 IMM_NONE NACLi_SSE2,
      EncodeOpF20F 0x6a 0 IMM_NONE NACLi_INVALID, EncodeOp0F 0x6b 1 IMM_NONE NACLi_MMX,
      EncodeOpF30F 0x6b 0 IMM_NONE NACLi_INVALID, EncodeOp660F 0x6b 1 IMM_NONE NACLi_SSE2,
      EncodeOpF20F 0x6b 0 IMM_NONE NACLi_INVALID, EncodeOp0F 0x6c 0 IMM_NONE NACLi_INVALID,
      EncodeOpF30F 0x6c 0 IMM_NONE NACLi_INVALID, EncodeOp660F 0x6c 1 IMM_NONE NACLi_SSE2,
      EncodeOpF20F 0x6c 0 IMM_NONE NACLi_INVALID, EncodeOp0F 0x6d 0 IMM_NONE NACLi_INVALID,
      EncodeOpF30F 0x6d 0 IMM_NONE NACLi_INVALID, EncodeOp660F 0x6d 1 IMM_NONE NACLi_SSE2,
      EncodeOpF20F 0x6d 0 IMM_NONE NACLi_INVALID, EncodeOp0F 0x6e 1 IMM_NONE NACLi_MMX,
      EncodeOpF30F 0x6e 0 IMM_NONE NACLi_INVALID, EncodeOp660F 0x6e 1 IMM_NONE NACLi_SSE2,
      EncodeOpF20F 0x6e 0 IMM_NONE NACLi_INVALID, EncodeOp0F 0x6f 1 IMM_NONE NACLi_MMX,
      EncodeOpF30F 0x6f 1 IMM_NONE NACLi_SSE2, EncodeOp660F 0x6f 1 IMM_NONE NACLi_SSE2,
      EncodeOpF20F 0x6f 0 IMM_NONE NACLi_INVALID, EncodeOp0F 0x70 1 IMM_FIXED1 NACLi_SSE,
      EncodeOpF30F 0x70 1 IMM_FIXED1 NACLi_SSE2, EncodeOp660F 0x70 1 IMM_FIXED1 NACLi_SSE2,
      EncodeOpF20F 0x70 1 IMM_FIXED1 NACLi_SSE2, EncodeOp0F 0x71 1 IMM_FIXED1 NACLi_OPINMRM,
      EncodeOpF30F 0x71 0 IMM_NONE NACLi_INVALID, EncodeOp660F 0x71 1 IMM_FIXED1 NACLi_OPINMRM,
      EncodeOpF20F 0x71 0 IMM_NONE NACLi_INVALID, SetOp0FOpInMRM 0x71 GROUP12, SetOp66OpInMRM 0x71 GROUP12,
      EncodeOp0F 0x72 1 IMM_FIXED1 NACLi_OPINMRM, EncodeOpF30F 0x72 0 IMM_NONE NACLi_INVALID,
      EncodeOp660F 0x72 1 IMM_FIXED1 NACLi_OPINMRM, EncodeOpF20F 0x72 0 IMM_NONE NACLi_INVALID,
      SetOp0FOpInMRM 0x72 GROUP13, SetOp66OpInMRM 0x72 GROUP13, EncodeOp0F 0x73 1 IMM_FIXED1 NACLi_OPINMRM,
      EncodeOpF30F 0x73 0 IMM_NONE NACLi_INVALID, EncodeOp660F 0x73 1 IMM_FIXED1 NACLi_OPINMRM,
      EncodeOpF20F 0x73 0 IMM_NONE NACLi_INVALID, SetOp0FOpInMRM 0x73 GROUP14, SetOp66OpInMRM 0x73 GROUP14,
      EncodeOp0F 0x74 1 IMM_NONE NACLi_MMX, EncodeOpF30F 0x74 0 IMM_NONE NACLi_INVALID,
      EncodeOp660F 0x74 1 IMM_NONE NACLi_SSE2, EncodeOpF20F 0x74 0 IMM_NONE NACLi_INVALID,
      EncodeOp0F 0x75 1 IMM_NONE NACLi_MMX, EncodeOpF30F 0x75 0 IMM_NONE NACLi_INVALID,
      EncodeOp660F 0x75 1 IMM_NONE NACLi_SSE2, EncodeOpF20F 0x75 0 IMM_NONE NACLi_INVALID,
      EncodeOp0F 0x76 1 IMM_NONE NACLi_MMX, EncodeOpF30F 0x76 1 IMM_NONE NACLi_INVALID,
      EncodeOp660F 0x76 1 IMM_NONE NACLi_SSE2, EncodeOpF20F 0x76 0 IMM_NONE NACLi_INVALID,
      EncodeOp0F 0x77 0 IMM_NONE NACLi_MMX, EncodeOpF30F 0x77 0 IMM_NONE NACLi_INVALID,
      EncodeOp660F 0x77 0 IMM_NONE NACLi_INVALID, EncodeOpF20F 0x77 0 IMM_NONE NACLi_INVALID,
      EncodeOp0F 0x78 0 IMM_NONE NACLi_INVALID, EncodeOpF30F 0x78 0 IMM_NONE NACLi_INVALID,
      EncodeOp660F 0x78 1 IMM_FIXED1 NACLi_OPINMRM, SetOp66OpInMRM 0x78 GROUP17,
      EncodeOpF20F 0x78 1 IMM_FIXED2 NACLi_SSE4A, EncodeOp0F 0x79 0 IMM_NONE NACLi_INVALID,
      EncodeOpF30F 0x79 0 IMM_NONE NACLi_INVALID, EncodeOp660F 0x79 1 IMM_NONE NACLi_SSE4A,
      EncodeOpF20F 0x79 1 IMM_NONE NACLi_SSE4A, EncodeOp0F 0x7a 0 IMM_NONE NACLi_INVALID,
      EncodeOpF30F 0x7a 0 IMM_NONE NACLi_INVALID, EncodeOp660F 0x7a 0 IMM_NONE NACLi_INVALID,
      EncodeOpF20F 0x7a 0 IMM_NONE NACLi_INVALID, EncodeOp0F 0x7b 0 IMM_NONE NACLi_INVALID,
      EncodeOpF30F 0x7b 0 IMM_NONE NACLi_INVALID, EncodeOp660F 0x7b 0 IMM_NONE NACLi_INVALID,
      EncodeOpF20F 0x7b 0 IMM_NONE NACLi_INVALID, EncodeOp0F 0x7c 0 IMM_NONE NACLi_INVALID,
      EncodeOpF30F 0x7c 0 IMM_NONE NACLi_INVALID, EncodeOp660F 0x7c 1 IMM_NONE NACLi_SSE3,
      EncodeOpF20F 0x7c 1 IMM_NONE NACLi_SSE3, EncodeOp0F 0x7d 0 IMM_NONE NACLi_INVALID,
      EncodeOpF30F 0x7d 0 IMM_NONE NACLi_INVALID, EncodeOp660F 0x7d 1 IMM_NONE NACLi_SSE3,
      EncodeOpF20F 0x7d 1 IMM_NONE NACLi_SSE3, EncodeOp0F 0x7e 1 IMM_NONE NACLi_MMX,
      EncodeOpF30F 0x7e 1 IMM_NONE NACLi_SSE2, EncodeOp660F 0x7e 1 IMM_NONE NACLi_SSE2,
      EncodeOpF20F 0x7e 0 IMM_NONE NACLi_INVALID, EncodeOp0F 0x7f 1 IMM_NONE NACLi_MMX,
      EncodeOpF30F 0x7f 1 IMM_NONE NACLi_SSE2, EncodeOp660F 0x7f 1 IMM_NONE NACLi_SSE2,
      EncodeOpF20F 0x7f 0 IMM_NONE NACLi_INVALID, EncodeOp0F 0xb8 0 IMM_NONE NACLi_INVALID,
      EncodeOpF30F 0xb8 1 IMM_NONE NACLi_POPCNT, EncodeOpF20F 0xb8 0 IMM_NONE NACLi_INVALID,
      EncodeOp0F 0xb9 1 IMM_NONE NACLi_OPINMRM, EncodeOpF30F 0xb9 0 IMM_NONE NACLi_INVALID,
      EncodeOpF20F 0xb9 0 IMM_NONE NACLi_INVALID, EncodeOp0F 0xba 1 IMM_FIXED1 NACLi_OPINMRM,
      EncodeOpF30F 0xba 0 IMM_FIXED1 NACLi_INVALID, EncodeOpF20F 0xba 0 IMM_NONE NACLi_INVALID,
      SetOp0FOpInMRM 0xba GROUP8, EncodeOp0F 0xbb 1 IMM_NONE NACLi_ILLEGAL,
      EncodeOpF30F 0xbb 0 IMM_NONE NACLi_INVALID, EncodeOpF20F 0xbb 0 IMM_NONE NACLi_INVALID,
      EncodeOp0F 0xbc 1 IMM_NONE NACLi_386, EncodeOpF30F 0xbc 0 IMM_NONE NACLi_INVALID,
      EncodeOpF20F 0xbc 0 IMM_NONE NACLi_INVALID, EncodeOp0F 0xbd 1 IMM_NONE NACLi_386]"

definition BuildMetaTables_8 :: "table_call list" where
  "BuildMetaTables_8 =
     [EncodeOpF30F 0xbd 1 IMM_NONE NACLi_LZCNT, EncodeOpF20F 0xbd 0 IMM_NONE NACLi_INVALID,
      EncodeOp0F 0xbe 1 IMM_NONE NACLi_386, EncodeOp660F 0xbe 1 IMM_NONE NACLi_386,
      EncodeOpF30F 0xbe 1 IMM_NONE NACLi_INVALID, EncodeOpF20F 0xbe 1 IMM_NONE NACLi_INVALID,
      EncodeOp0F 0xbf 1 IMM_NONE NACLi_386, EncodeOp660F 0xbf 1 IMM_NONE NACLi_386,
      EncodeOpF30F 0xbf 0 IMM_NONE NACLi_INVALID, EncodeOpF20F 0xbf 0 IMM_NONE NACLi_INVALID,
      EncodeOp0F 0xc0 1 IMM_NONE NACLi_386L, EncodeOp0F 0xc1 1 IMM_NONE NACLi_386L,
      EncodeOp0F 0xc2 1 IMM_FIXED1 NACLi_SSE, EncodeOpF30F 0xc2 1 IMM_FIXED1 NACLi_SSE,
      EncodeOp660F 0xc2 1 IMM_FIXED1 NACLi_SSE2, EncodeOpF20F 0xc2 1 IMM_FIXED1 NACLi_SSE2,
      EncodeOp0F 0xc3 1 IMM_NONE NACLi_SSE2, EncodeOpF30F 0xc3 0 IMM_NONE NACLi_INVALID,
      EncodeOp660F 0xc3 0 IMM_NONE NACLi_INVALID, EncodeOpF20F 0xc3 0 IMM_NONE NACLi_INVALID,
      EncodeOp0F 0xc4 1 IMM_FIXED1 NACLi_SSE, EncodeOpF30F 0xc4 0 IMM_NONE NACLi_INVALID,
      EncodeOp660F 0xc4 1 IMM_FIXED1 NACLi_SSE2, EncodeOpF20F 0xc4 0 IMM_NONE NACLi_INVALID,
      EncodeOp0F 0xc5 1 IMM_FIXED1 NACLi_SSE, EncodeOpF30F 0xc5 0 IMM_NONE NACLi_INVALID,
      EncodeOp660F 0xc5 1 IMM_FIXED1 NACLi_SSE2, EncodeOpF20F 0xc5 0 IMM_NONE NACLi_INVALID,
      EncodeOp0F 0xc6 1 IMM_FIXED1 NACLi_SSE, EncodeOpF30F 0xc6 0 IMM_NONE NACLi_INVALID,
      EncodeOp660F 0xc6 1 IMM_FIXED1 NACLi_SSE2, EncodeOpF20F 0xc6 0 IMM_NONE NACLi_INVALID,
      EncodeOp0F 0xc7 1 IMM_NONE NACLi_OPINMRM, SetOp0FOpInMRM 0xc7 GROUP9,
      EncodeOp0F 0xd0 0 IMM_NONE NACLi_INVALID, EncodeOpF30F 0xd0 0 IMM_NONE NACLi_INVALID,
      EncodeOp660F 0xd0 1 IMM_NONE NACLi_SSE3, EncodeOpF20F 0xd0 1 IMM_NONE NACLi_SSE3,
      EncodeOp0F 0xd1 1 IMM_NONE NACLi_MMX, EncodeOpF30F 0xd1 0 IMM_NONE NACLi_INVALID,
      EncodeOp660F 0xd1 1 IMM_NONE NACLi_SSE2, EncodeOpF20F 0xd1 0 IMM_NONE NACLi_INVALID,
      EncodeOp0F 0xd2 1 IMM_NONE NACLi_MMX, EncodeOpF30F 0xd2 0 IMM_NONE NACLi_INVALID,
      EncodeOp660F 0xd2 1 IMM_NONE NACLi_SSE2, EncodeOpF20F 0xd2 0 IMM_NONE NACLi_INVALID,
      EncodeOp0F 0xd3 1 IMM_NONE NACLi_MMX, EncodeOpF30F 0xd3 0 IMM_NONE NACLi_INVALID,
      EncodeOp660F 0xd3 1 IMM_NONE NACLi_SSE2, EncodeOpF20F 0xd3 0 IMM_NONE NACLi_INVALID,
      EncodeOp0F 0xd4 1 IMM_NONE NACLi_SSE2, EncodeOpF30F 0xd4 0 IMM_NONE NACLi_INVALID,
      EncodeOp660F 0xd4 1 IMM_NONE NACLi_SSE2, EncodeOpF20F 0xd4 0 IMM_NONE NACLi_INVALID,
      EncodeOp0F 0xd5 1 IMM_NONE NACLi_MMX, EncodeOpF30F 0xd5 0 IMM_NONE NACLi_INVALID,
      EncodeOp660F 0xd5 1 IMM_NONE NACLi_SSE2, EncodeOpF20F 0xd5 0 IMM_NONE NACLi_INVALID,
      EncodeOp0F 0xd6 0 IMM_NONE NACLi_INVALID, EncodeOpF30F 0xd6 1 IMM_NONE NACLi_SSE2,
      EncodeOp660F 0xd6 1 IMM_NONE NACLi_SSE2, EncodeOpF20F 0xd6 1 IMM_NONE NACLi_SSE2,
      EncodeOp0F 0xd7 1 IMM_NONE NACLi_SSE, EncodeOpF30F 0xd7 0 IMM_NONE NACLi_INVALID,
      EncodeOp660F 0xd7 1 IMM_NONE NACLi_SSE2, EncodeOpF20F 0xd7 0 IMM_NONE NACLi_INVALID,
      EncodeOp0F 0xd8 1 IMM_NONE NACLi_MMX, EncodeOpF30F 0xd8 0 IMM_NONE NACLi_INVALID,
      EncodeOp660F 0xd8 1 IMM_NONE NACLi_SSE2, EncodeOpF20F 0xd8 0 IMM_NONE NACLi_INVALID,
      EncodeOp0F 0xd9 1 IMM_NONE NACLi_MMX, EncodeOpF30F 0xd9 0 IMM_NONE NACLi_INVALID,
      EncodeOp660F 0xd9 1 IMM_NONE NACLi_SSE2, EncodeOpF20F 0xd9 0 IMM_NONE NACLi_INVALID,
      EncodeOp0F 0xda 1 IMM_NONE NACLi_SSE, EncodeOpF30F 0xda 0 IMM_NONE NACLi_INVALID,
      EncodeOp660F 0xda 1 IMM_NONE NACLi_SSE2, EncodeOpF20F 0xda 0 IMM_NONE NACLi_INVALID,
      EncodeOp0F 0xdb 1 IMM_NONE NACLi_MMX, EncodeOpF30F 0xdb 0 IMM_NONE NACLi_INVALID,
      EncodeOp660F 0xdb 1 IMM_NONE NACLi_SSE2, EncodeOpF20F 0xdb 0 IMM_NONE NACLi_INVALID,
      EncodeOp0F 0xdc 1 IMM_NONE NACLi_MMX, EncodeOpF30F 0xdc 0 IMM_NONE NACLi_INVALID,
      EncodeOp660F 0xdc 1 IMM_NONE NACLi_SSE2, EncodeOpF20F 0xdc 0 IMM_NONE NACLi_INVALID,
      EncodeOp0F 0xdd 1 IMM_NONE NACLi_MMX, EncodeOpF30F 0xdd 0 IMM_NONE NACLi_INVALID,
      EncodeOp660F 0xdd 1 IMM_NONE NACLi_SSE2, EncodeOpF20F 0xdd 0 IMM_NONE NACLi_INVALID,
      EncodeOp0F 0xde 1 IMM_NONE NACLi_SSE, EncodeOpF30F 0xde 0 IMM_NONE NACLi_INVALID,
      EncodeOp660F 0xde 1 IMM_NONE NACLi_SSE2, EncodeOpF20F 0xde 0 IMM_NONE NACLi_INVALID,
      EncodeOp0F 0xdf 1 IMM_NONE NACLi_MMX, EncodeOpF30F 0xdf 0 IMM_NONE NACLi_INVALID,
      EncodeOp660F 0xdf 1 IMM_NONE NACLi_SSE2, EncodeOpF20F 0xdf 0 IMM_NONE NACLi_INVALID,
      EncodeOp0F 0xe0 1 IMM_NONE NACLi_SSE, EncodeOpF30F 0xe0 0 IMM_NONE NACLi_INVALID,
      EncodeOp660F 0xe0 1 IMM_NONE NACLi_SSE2, EncodeOpF20F 0xe0 0 IMM_NONE NACLi_INVALID,
      EncodeOp0F 0xe1 1 IMM_NONE NACLi_MMX, EncodeOpF30F 0xe1 0 IMM_NONE NACLi_INVALID,
      EncodeOp660F 0xe1 1 IMM_NONE NACLi_SSE2, EncodeOpF20F 0xe1 0 IMM_NONE NACLi_INVALID,
      EncodeOp0F 0xe2 1 IMM_NONE NACLi_MMX, EncodeOpF30F 0xe2 0 IMM_NONE NACLi_INVALID,
      EncodeOp660F 0xe2 1 IMM_NONE NACLi_SSE2, EncodeOpF20F 0xe2 0 IMM_NONE NACLi_INVALID,
      EncodeOp0F 0xe3 1 IMM_NONE NACLi_SSE, EncodeOpF30F 0xe3 0 IMM_NONE NACLi_INVALID,
      EncodeOp660F 0xe3 1 IMM_NONE NACLi_SSE2, EncodeOpF20F 0xe3 0 IMM_NONE NACLi_INVALID]"

definition BuildMetaTables_9 :: "table_call list" where
  "BuildMetaTables_9 =
     [EncodeOp0F 0xe4 1 IMM_NONE NACLi_SSE, EncodeOpF30F 0xe4 0 IMM_NONE NACLi_INVALID,
      EncodeOp660F 0xe4 1 IMM_NONE NACLi_SSE2, EncodeOpF20F 0xe4 0 IMM_NONE NACLi_INVALID,
      EncodeOp0F 0xe5 1 IMM_NONE NACLi_MMX, EncodeOpF30F 0xe5 0 IMM_NONE NACLi_INVALID,
      EncodeOp660F 0xe5 1 IMM_NONE NACLi_SSE2, EncodeOpF20F 0xe5 0 IMM_NONE NACLi_INVALID,
      EncodeOp0F 0xe6 0 IMM_NONE NACLi_INVALID, EncodeOpF30F 0xe6 1 IMM_NONE NACLi_SSE2,
      EncodeOp660F 0xe6 1 IMM_NONE NACLi_SSE2, EncodeOpF20F 0xe6 1 IMM_NONE NACLi_SSE2,
      EncodeOp0F 0xe7 1 IMM_NONE NACLi_SSE, EncodeOpF30F 0xe7 0 IMM_NONE NACLi_INVALID,
      EncodeOp660F 0xe7 1 IMM_NONE NACLi_SSE2, EncodeOpF20F 0xe7 0 IMM_NONE NACLi_INVALID,
      EncodeOp0F 0xe8 1 IMM_NONE NACLi_MMX, EncodeOpF30F 0xe8 0 IMM_NONE NACLi_INVALID,
      EncodeOp660F 0xe8 1 IMM_NONE NACLi_SSE2, EncodeOpF20F 0xe8 0 IMM_NONE NACLi_INVALID,
      EncodeOp0F 0xe9 1 IMM_NONE NACLi_MMX, EncodeOpF30F 0xe9 0 IMM_NONE NACLi_INVALID,
      EncodeOp660F 0xe9 1 IMM_NONE NACLi_SSE2, EncodeOpF20F 0xe9 0 IMM_NONE NACLi_INVALID,
      EncodeOp0F 0xea 1 IMM_NONE NACLi_SSE, EncodeOpF30F 0xea 0 IMM_NONE NACLi_INVALID,
      EncodeOp660F 0xea 1 IMM_NONE NACLi_SSE2, EncodeOpF20F 0xea 0 IMM_NONE NACLi_INVALID,
      EncodeOp0F 0xeb 1 IMM_NONE NACLi_MMX, EncodeOpF30F 0xeb 0 IMM_NONE NACLi_INVALID,
      EncodeOp660F 0xeb 1 IMM_NONE NACLi_SSE2, EncodeOpF20F 0xeb 0 IMM_NONE NACLi_INVALID,
      EncodeOp0F 0xec 1 IMM_NONE NACLi_MMX, EncodeOpF30F 0xec 0 IMM_NONE NACLi_INVALID,
      EncodeOp660F 0xec 1 IMM_NONE NACLi_SSE2, EncodeOpF20F 0xec 0 IMM_NONE NACLi_INVALID,
      EncodeOp0F 0xed 1 IMM_NONE NACLi_MMX, EncodeOpF30F 0xed 0 IMM_NONE NACLi_INVALID,
      EncodeOp660F 0xed 1 IMM_NONE NACLi_SSE2, EncodeOpF20F 0xed 0 IMM_NONE NACLi_INVALID,
      EncodeOp0F 0xee 1 IMM_NONE NACLi_SSE, EncodeOpF30F 0xee 0 IMM_NONE NACLi_INVALID,
      EncodeOp660F 0xee 1 IMM_NONE NACLi_SSE2, EncodeOpF20F 0xee 0 IMM_NONE NACLi_INVALID,
      EncodeOp0F 0xef 1 IMM_NONE NACLi_MMX, EncodeOpF30F 0xef 0 IMM_NONE NACLi_INVALID,
      EncodeOp660F 0xef 1 IMM_NONE NACLi_SSE2, EncodeOpF20F 0xef 0 IMM_NONE NACLi_INVALID,
      EncodeOp0F 0xf0 0 IMM_NONE NACLi_INVALID, EncodeOpF30F 0xf0 0 IMM_NONE NACLi_INVALID,
      EncodeOp660F 0xf0 0 IMM_NONE NACLi_INVALID, EncodeOpF20F 0xf0 1 IMM_NONE NACLi_SSE3,
      EncodeOp0F 0xf1 1 IMM_NONE NACLi_MMX, EncodeOpF30F 0xf1 0 IMM_NONE NACLi_INVALID,
      EncodeOp660F 0xf1 1 IMM_NONE NACLi_SSE2, EncodeOpF20F 0xf1 0 IMM_NONE NACLi_INVALID,
      EncodeOp0F 0xf2 1 IMM_NONE NACLi_MMX, EncodeOpF30F 0xf2 0 IMM_NONE NACLi_INVALID,
      EncodeOp660F 0xf2 1 IMM_NONE NACLi_SSE2, EncodeOpF20F 0xf2 0 IMM_NONE NACLi_INVALID,
      EncodeOp0F 0xf3 1 IMM_NONE NACLi_MMX, EncodeOpF30F 0xf3 0 IMM_NONE NACLi_INVALID,
      EncodeOp660F 0xf3 1 IMM_NONE NACLi_SSE2, EncodeOpF20F 0xf3 0 IMM_NONE NACLi_INVALID,
      EncodeOp0F 0xf4 1 IMM_NONE NACLi_SSE2, EncodeOpF30F 0xf4 0 IMM_NONE NACLi_INVALID,
      EncodeOp660F 0xf4 1 IMM_NONE NACLi_SSE2, EncodeOpF20F 0xf4 0 IMM_NONE NACLi_INVALID,
      EncodeOp0F 0xf5 1 IMM_NONE NACLi_MMX, EncodeOpF30F 0xf5 0 IMM_NONE NACLi_INVALID,
      EncodeOp660F 0xf5 1 IMM_NONE NACLi_SSE2, EncodeOpF20F 0xf5 0 IMM_NONE NACLi_INVALID,
      EncodeOp0F 0xf6 1 IMM_NONE NACLi_SSE, EncodeOpF30F 0xf6 0 IMM_NONE NACLi_INVALID,
      EncodeOp660F 0xf6 1 IMM_NONE NACLi_SSE2, EncodeOpF20F 0xf6 0 IMM_NONE NACLi_INVALID,
      EncodeOp0F 0xf7 1 IMM_NONE NACLi_SSE, EncodeOpF30F 0xf7 0 IMM_NONE NACLi_INVALID,
      EncodeOp660F 0xf7 1 IMM_NONE NACLi_SSE2, EncodeOpF20F 0xf7 0 IMM_NONE NACLi_INVALID,
      EncodeOp0F 0xf8 1 IMM_NONE NACLi_MMX, EncodeOpF30F 0xf8 0 IMM_NONE NACLi_INVALID,
      EncodeOp660F 0xf8 1 IMM_NONE NACLi_SSE2, EncodeOpF20F 0xf8 0 IMM_NONE NACLi_INVALID,
      EncodeOp0F 0xf9 1 IMM_NONE NACLi_MMX, EncodeOpF30F 0xf9 0 IMM_NONE NACLi_INVALID,
      EncodeOp660F 0xf9 1 IMM_NONE NACLi_SSE2, EncodeOpF20F 0xf9 0 IMM_NONE NACLi_INVALID,
      EncodeOp0F 0xfa 1 IMM_NONE NACLi_MMX, EncodeOpF30F 0xfa 0 IMM_NONE NACLi_INVALID,
      EncodeOp660F 0xfa 1 IMM_NONE NACLi_SSE2, EncodeOpF20F 0xfa 0 IMM_NONE NACLi_INVALID,
      EncodeOp0F 0xfb 1 IMM_NONE NACLi_SSE2, EncodeOpF30F 0xfb 0 IMM_NONE NACLi_INVALID,
      EncodeOp660F 0xfb 1 IMM_NONE NACLi_SSE2, EncodeOpF20F 0xfb 0 IMM_NONE NACLi_INVALID,
      EncodeOp0F 0xfc 1 IMM_NONE NACLi_MMX, EncodeOpF30F 0xfc 0 IMM_NONE NACLi_INVALID,
      EncodeOp660F 0xfc 1 IMM_NONE NACLi_SSE2, EncodeOpF20F 0xfc 0 IMM_NONE NACLi_INVALID,
      EncodeOp0F 0xfd 1 IMM_NONE NACLi_MMX, EncodeOpF30F 0xfd 0 IMM_NONE NACLi_INVALID,
      EncodeOp660F 0xfd 1 IMM_NONE NACLi_SSE2, EncodeOpF20F 0xfd 0 IMM_NONE NACLi_INVALID,
      EncodeOp0F 0xfe 1 IMM_NONE NACLi_MMX, EncodeOpF30F 0xfe 0 IMM_NONE NACLi_INVALID,
      EncodeOp660F 0xfe 1 IMM_NONE NACLi_SSE2, EncodeOpF20F 0xfe 0 IMM_NONE NACLi_INVALID,
      EncodeOp0F 0xff 0 IMM_NONE NACLi_INVALID, EncodeOpF30F 0xff 0 IMM_NONE NACLi_INVALID,
      EncodeOp660F 0xff 0 IMM_NONE NACLi_INVALID, EncodeOpF20F 0xff 0 IMM_NONE NACLi_INVALID,
      EncodeOp0F0F 0x90 1 IMM_NONE NACLi_3DNOW, EncodeOp0F0F 0x94 1 IMM_NONE NACLi_3DNOW,
      EncodeOp0F0F 0x96 1 IMM_NONE NACLi_3DNOW]"

definition BuildMetaTables_10 :: "table_call list" where
  "BuildMetaTables_10 =
     [EncodeOp0F0F 0x97 1 IMM_NONE NACLi_3DNOW, EncodeOp0F0F 0xa0 1 IMM_NONE NACLi_3DNOW,
      EncodeOp0F0F 0xa4 1 IMM_NONE NACLi_3DNOW, EncodeOp0F0F 0xa6 1 IMM_NONE NACLi_3DNOW,
      EncodeOp0F0F 0xa7 1 IMM_NONE NACLi_3DNOW, EncodeOp0F0F 0xb0 1 IMM_NONE NACLi_3DNOW,
      EncodeOp0F0F 0xb4 1 IMM_NONE NACLi_3DNOW, EncodeOp0F0F 0xb6 1 IMM_NONE NACLi_3DNOW,
      EncodeOp0F0F 0xb7 1 IMM_NONE NACLi_3DNOW, EncodeOp0F0F 0x0c 1 IMM_NONE NACLi_E3DNOW,
      EncodeOp0F0F 0x0d 1 IMM_NONE NACLi_3DNOW, EncodeOp0F0F 0x1c 1 IMM_NONE NACLi_E3DNOW,
      EncodeOp0F0F 0x1d 1 IMM_NONE NACLi_3DNOW, EncodeOp0F0F 0x8a 1 IMM_NONE NACLi_E3DNOW,
      EncodeOp0F0F 0x8e 1 IMM_NONE NACLi_E3DNOW, EncodeOp0F0F 0x9a 1 IMM_NONE NACLi_3DNOW,
      EncodeOp0F0F 0x9e 1 IMM_NONE NACLi_3DNOW, EncodeOp0F0F 0xaa 1 IMM_NONE NACLi_3DNOW,
      EncodeOp0F0F 0xae 1 IMM_NONE NACLi_3DNOW, EncodeOp0F0F 0xbb 1 IMM_NONE NACLi_E3DNOW,
      EncodeOp0F0F 0xbf 1 IMM_NONE NACLi_3DNOW, EncodeOp0F38 0x00 1 IMM_NONE NACLi_SSSE3,
      EncodeOp0F38 0x01 1 IMM_NONE NACLi_SSSE3, EncodeOp0F38 0x02 1 IMM_NONE NACLi_SSSE3,
      EncodeOp0F38 0x03 1 IMM_NONE NACLi_SSSE3, EncodeOp0F38 0x04 1 IMM_NONE NACLi_SSSE3,
      EncodeOp0F38 0x05 1 IMM_NONE NACLi_SSSE3, EncodeOp0F38 0x06 1 IMM_NONE NACLi_SSSE3,
      EncodeOp0F38 0x07 1 IMM_NONE NACLi_SSSE3, EncodeOp0F38 0x08 1 IMM_NONE NACLi_SSSE3,
      EncodeOp0F38 0x09 1 IMM_NONE NACLi_SSSE3, EncodeOp0F38 0x0a 1 IMM_NONE NACLi_SSSE3,
      EncodeOp0F38 0x0b 1 IMM_NONE NACLi_SSSE3, EncodeOp0F38 0x1c 1 IMM_NONE NACLi_SSSE3,
      EncodeOp0F38 0x1d 1 IMM_NONE NACLi_SSSE3, EncodeOp0F38 0x1e 1 IMM_NONE NACLi_SSSE3,
      EncodeOp0F3A 0x0f 1 IMM_FIXED1 NACLi_SSSE3]"

definition BuildSSE4Tables :: "table_call list" where
  "BuildSSE4Tables =
     [EncodeOp660F 0x38 1 IMM_NONE NACLi_3BYTE, EncodeOp660F 0x3A 1 IMM_FIXED1 NACLi_3BYTE,
      EncodeOpF20F 0x38 0 IMM_NONE NACLi_3BYTE, EncodeOp660F38 0x00 1 IMM_NONE NACLi_SSSE3,
      EncodeOp660F38 0x01 1 IMM_NONE NACLi_SSSE3, EncodeOp660F38 0x02 1 IMM_NONE NACLi_SSSE3,
      EncodeOp660F38 0x03 1 IMM_NONE NACLi_SSSE3, EncodeOp660F38 0x04 1 IMM_NONE NACLi_SSSE3,
      EncodeOp660F38 0x05 1 IMM_NONE NACLi_SSSE3, EncodeOp660F38 0x06 1 IMM_NONE NACLi_SSSE3,
      EncodeOp660F38 0x07 1 IMM_NONE NACLi_SSSE3, EncodeOp660F38 0x10 1 IMM_NONE NACLi_SSE41,
      EncodeOp660F38 0x14 1 IMM_NONE NACLi_SSE41, EncodeOp660F38 0x15 1 IMM_NONE NACLi_SSE41,
      EncodeOp660F38 0x17 1 IMM_NONE NACLi_SSE41, EncodeOp660F38 0x20 1 IMM_NONE NACLi_SSE41,
      EncodeOp660F38 0x21 1 IMM_NONE NACLi_SSE41, EncodeOp660F38 0x22 1 IMM_NONE NACLi_SSE41,
      EncodeOp660F38 0x23 1 IMM_NONE NACLi_SSE41, EncodeOp660F38 0x24 1 IMM_NONE NACLi_SSE41,
      EncodeOp660F38 0x25 1 IMM_NONE NACLi_SSE41, EncodeOp660F38 0x30 1 IMM_NONE NACLi_SSE41,
      EncodeOp660F38 0x31 1 IMM_NONE NACLi_SSE41, EncodeOp660F38 0x32 1 IMM_NONE NACLi_SSE41,
      EncodeOp660F38 0x33 1 IMM_NONE NACLi_SSE41, EncodeOp660F38 0x34 1 IMM_NONE NACLi_SSE41,
      EncodeOp660F38 0x35 1 IMM_NONE NACLi_SSE41, EncodeOp660F38 0x37 1 IMM_NONE NACLi_SSE42,
      EncodeOp660F38 0x40 1 IMM_NONE NACLi_SSE41, EncodeOp660F38 0x41 1 IMM_NONE NACLi_SSE41,
      EncodeOp660F38 0x80 1 IMM_NONE NACLi_INVALID, EncodeOp660F38 0x81 1 IMM_NONE NACLi_INVALID,
      EncodeOp0F38 0xf0 1 IMM_NONE NACLi_MOVBE, EncodeOp0F38 0xf1 1 IMM_NONE NACLi_MOVBE,
      EncodeOpF20F38 0xf0 1 IMM_NONE NACLi_SSE42, EncodeOpF20F38 0xf1 1 IMM_NONE NACLi_SSE42,
      EncodeOp660F38 0x08 1 IMM_NONE NACLi_SSSE3, EncodeOp660F38 0x09 1 IMM_NONE NACLi_SSSE3,
      EncodeOp660F38 0x0a 1 IMM_NONE NACLi_SSSE3, EncodeOp660F38 0x0b 1 IMM_NONE NACLi_SSSE3,
      EncodeOp660F38 0x1c 1 IMM_NONE NACLi_SSSE3, EncodeOp660F38 0x1d 1 IMM_NONE NACLi_SSSE3,
      EncodeOp660F38 0x1e 1 IMM_NONE NACLi_SSSE3, EncodeOp660F38 0x28 1 IMM_NONE NACLi_SSE41,
      EncodeOp660F38 0x29 1 IMM_NONE NACLi_SSE41, EncodeOp660F38 0x2a 1 IMM_NONE NACLi_SSE41,
      EncodeOp660F38 0x2b 1 IMM_NONE NACLi_SSE41, EncodeOp660F38 0x38 1 IMM_NONE NACLi_SSE41,
      EncodeOp660F38 0x39 1 IMM_NONE NACLi_SSE41, EncodeOp660F38 0x3a 1 IMM_NONE NACLi_SSE41,
      EncodeOp660F38 0x3b 1 IMM_NONE NACLi_SSE41, EncodeOp660F38 0x3c 1 IMM_NONE NACLi_SSE41,
      EncodeOp660F38 0x3d 1 IMM_NONE NACLi_SSE41, EncodeOp660F38 0x3e 1 IMM_NONE NACLi_SSE41,
      EncodeOp660F38 0x3f 1 IMM_NONE NACLi_SSE41, EncodeOp660F3A 0x14 1 IMM_FIXED1 NACLi_SSE41,
      EncodeOp660F3A 0x15 1 IMM_FIXED1 NACLi_SSE41, EncodeOp660F3A 0x16 1 IMM_FIXED1 NACLi_SSE41,
      EncodeOp660F3A 0x17 1 IMM_FIXED1 NACLi_SSE41, EncodeOp660F3A 0x20 1 IMM_FIXED1 NACLi_SSE41,
      EncodeOp660F3A 0x21 1 IMM_FIXED1 NACLi_SSE41, EncodeOp660F3A 0x22 1 IMM_FIXED1 NACLi_SSE41,
      EncodeOp660F3A 0x40 1 IMM_FIXED1 NACLi_SSE41, EncodeOp660F3A 0x41 1 IMM_FIXED1 NACLi_SSE41,
      EncodeOp660F3A 0x42 1 IMM_FIXED1 NACLi_SSE41, EncodeOp660F3A 0x60 1 IMM_FIXED1 NACLi_SSE42,
      EncodeOp660F3A 0x61 1 IMM_FIXED1 NACLi_SSE42, EncodeOp660F3A 0x62 1 IMM_FIXED1 NACLi_SSE42,
      EncodeOp660F3A 0x63 1 IMM_FIXED1 NACLi_SSE42, EncodeOp660F3A 0x08 1 IMM_FIXED1 NACLi_SSE41,
      EncodeOp660F3A 0x09 1 IMM_FIXED1 NACLi_SSE41, EncodeOp660F3A 0x0a 1 IMM_FIXED1 NACLi_SSE41,
      EncodeOp660F3A 0x0b 1 IMM_FIXED1 NACLi_SSE41, EncodeOp660F3A 0x0c 1 IMM_FIXED1 NACLi_SSE41,
      EncodeOp660F3A 0x0d 1 IMM_FIXED1 NACLi_SSE41, EncodeOp660F3A 0x0e 1 IMM_FIXED1 NACLi_SSE41,
      EncodeOp660F3A 0x0f 1 IMM_FIXED1 NACLi_SSSE3]"

definition k87D8Table1 :: "string option list" where
  "k87D8Table1 =
     [Some ''fadd'', Some ''fmul'', Some ''fcom'', Some ''fcomp'', Some ''fsub'', Some ''fsubr'', Some
      ''fdiv'', Some ''fdivr'']"

definition k87D8Table2 :: "string option list" where
  "k87D8Table2 =
     [Some ''fadd'', Some ''fadd'', Some ''fadd'', Some ''fadd'', Some ''fadd'', Some ''fadd'', Some
      ''fadd'', Some ''fadd'',
      Some ''fmul'', Some ''fmul'', Some ''fmul'', Some ''fmul'', Some ''fmul'', Some ''fmul'', Some
      ''fmul'', Some ''fmul'',
      Some ''fcom'', Some ''fcom'', Some ''fcom'', Some ''fcom'', Some ''fcom'', Some ''fcom'', Some
      ''fcom'', Some ''fcom'',
      Some ''fcomp'', Some ''fcomp'', Some ''fcomp'', Some ''fcomp'', Some ''fcomp'', Some ''fcomp'', Some
      ''fcomp'', Some ''fcomp'',
      Some ''fsub'', Some ''fsub'', Some ''fsub'', Some ''fsub'', Some ''fsub'', Some ''fsub'', Some
      ''fsub'', Some ''fsub'',
      Some ''fsubr'', Some ''fsubr'', Some ''fsubr'', Some ''fsubr'', Some ''fsubr'', Some ''fsubr'', Some
      ''fsubr'', Some ''fsubr'',
      Some ''fdiv'', Some ''fdiv'', Some ''fdiv'', Some ''fdiv'', Some ''fdiv'', Some ''fdiv'', Some
      ''fdiv'', Some ''fdiv'',
      Some ''fdivr'', Some ''fdivr'', Some ''fdivr'', Some ''fdivr'', Some ''fdivr'', Some ''fdivr'', Some
      ''fdivr'', Some ''fdivr'']"

definition k87D9Table1 :: "string option list" where
  "k87D9Table1 =
     [Some ''fld'', None, Some ''fst'', Some ''fstp'', Some ''fldenv'', Some ''fldcw'', Some ''fnstenv'',
      Some ''fnstcw'']"

definition k87D9Table2 :: "string option list" where
  "k87D9Table2 =
     [Some ''fld'', Some ''fld'', Some ''fld'', Some ''fld'', Some ''fld'', Some ''fld'', Some ''fld'',
      Some ''fld'',
      Some ''fxch'', Some ''fxch'', Some ''fxch'', Some ''fxch'', Some ''fxch'', Some ''fxch'', Some
      ''fxch'', Some ''fxch'',
      Some ''fnop'', None, None, None, None, None, None, None,
      None, None, None, None, None, None, None, None,
      Some ''fchs'', Some ''fabs'', None, None, Some ''ftst'', Some ''fxam'', None, None,
      Some ''fld1'', Some ''fldl2t'', Some ''fldl2e'', Some ''fldpi'', Some ''fldlg2'', Some ''fldln2'',
      Some ''fldz'', None,
      Some ''f2xm1'', Some ''fyl2x'', Some ''fptan'', Some ''fpatan'', Some ''fxtract'', Some ''fprem1'',
      Some ''fdecstp'', Some ''fincstp'',
      Some ''fprem'', Some ''fyl2xp1'', Some ''fsqrt'', Some ''fsincos'', Some ''frndint'', Some
      ''fscale'', Some ''fsin'', Some ''fcos'']"

definition k87DATable1 :: "string option list" where
  "k87DATable1 =
     [Some ''fiadd'', Some ''fimul'', Some ''ficom'', Some ''ficomp'', Some ''fisub'', Some ''fisubr'',
      Some ''fidiv'', Some ''fidivr'']"

definition k87DATable2 :: "string option list" where
  "k87DATable2 =
     [Some ''fcmovb'', Some ''fcmovb'', Some ''fcmovb'', Some ''fcmovb'', Some ''fcmovb'', Some
      ''fcmovb'', Some ''fcmovb'', Some ''fcmovb'',
      Some ''fcmove'', Some ''fcmove'', Some ''fcmove'', Some ''fcmove'', Some ''fcmove'', Some
      ''fcmove'', Some ''fcmove'', Some ''fcmove'',
      Some ''fcmovbe'', Some ''fcmovbe'', Some ''fcmovbe'', Some ''fcmovbe'', Some ''fcmovbe'', Some
      ''fcmovbe'', Some ''fcmovbe'', Some ''fcmovbe'',
      Some ''fcmovu'', Some ''fcmovu'', Some ''fcmovu'', Some ''fcmovu'', Some ''fcmovu'', Some
      ''fcmovu'', Some ''fcmovu'', Some ''fcmovu'',
      None, None, None, None, None, None, None, None,
      None, Some ''fucompp'', None, None, None, None, None, None,
      None, None, None, None, None, None, None, None,
      None, None, None, None, None, None, None, None]"

definition k87DBTable1 :: "string option list" where
  "k87DBTable1 =
     [Some ''fild'', Some ''fisttp'', Some ''fist'', Some ''fistp'', None, Some ''fld'', None, Some
      ''fstp'']"

definition k87DBTable2 :: "string option list" where
  "k87DBTable2 =
     [Some ''fcmovnb'', Some ''fcmovnb'', Some ''fcmovnb'', Some ''fcmovnb'', Some ''fcmovnb'', Some
      ''fcmovnb'', Some ''fcmovnb'', Some ''fcmovnb'',
      Some ''fcmovne'', Some ''fcmovne'', Some ''fcmovne'', Some ''fcmovne'', Some ''fcmovne'', Some
      ''fcmovne'', Some ''fcmovne'', Some ''fcmovne'',
      Some ''fcmovnbe'', Some ''fcmovnbe'', Some ''fcmovnbe'', Some ''fcmovnbe'', Some ''fcmovnbe'', Some
      ''fcmovnbe'', Some ''fcmovnbe'', Some ''fcmovnbe'',
      Some ''fcmovnu'', Some ''fcmovnu'', Some ''fcmovnu'', Some ''fcmovnu'', Some ''fcmovnu'', Some
      ''fcmovnu'', Some ''fcmovnu'', Some ''fcmovnu'',
      None, None, Some ''fnclex'', Some ''fninit'', None, None, None, None,
      Some ''fucomi'', Some ''fucomi'', Some ''fucomi'', Some ''fucomi'', Some ''fucomi'', Some
      ''fucomi'', Some ''fucomi'', Some ''fucomi'',
      Some ''fcomi'', Some ''fcomi'', Some ''fcomi'', Some ''fcomi'', Some ''fcomi'', Some ''fcomi'', Some
      ''fcomi'', Some ''fcomi'',
      None, None, None, None, None, None, None, None]"

definition k87DCTable1 :: "string option list" where
  "k87DCTable1 =
     [Some ''fadd'', Some ''fmul'', Some ''fcom'', Some ''fcomp'', Some ''fsub'', Some ''fsubr'', Some
      ''fdiv'', Some ''fdivr'']"

definition k87DCTable2 :: "string option list" where
  "k87DCTable2 =
     [Some ''fadd'', Some ''fadd'', Some ''fadd'', Some ''fadd'', Some ''fadd'', Some ''fadd'', Some
      ''fadd'', Some ''fadd'',
      Some ''fmul'', Some ''fmul'', Some ''fmul'', Some ''fmul'', Some ''fmul'', Some ''fmul'', Some
      ''fmul'', Some ''fmul'',
      None, None, None, None, None, None, None, None,
      None, None, None, None, None, None, None, None,
      Some ''fsubr'', Some ''fsubr'', Some ''fsubr'', Some ''fsubr'', Some ''fsubr'', Some ''fsubr'', Some
      ''fsubr'', Some ''fsubr'',
      Some ''fsub'', Some ''fsub'', Some ''fsub'', Some ''fsub'', Some ''fsub'', Some ''fsub'', Some
      ''fsub'', Some ''fsub'',
      Some ''fdivr'', Some ''fdivr'', Some ''fdivr'', Some ''fdivr'', Some ''fdivr'', Some ''fdivr'', Some
      ''fdivr'', Some ''fdivr'',
      Some ''fdiv'', Some ''fdiv'', Some ''fdiv'', Some ''fdiv'', Some ''fdiv'', Some ''fdiv'', Some
      ''fdiv'', Some ''fdiv'']"

definition k87DDTable1 :: "string option list" where
  "k87DDTable1 =
     [Some ''fld'', Some ''fisttp'', Some ''fst'', Some ''fstp'', Some ''frstor'', None, Some ''fnsave'',
      Some ''fnstsw'']"

definition k87DDTable2 :: "string option list" where
  "k87DDTable2 =
     [Some ''ffree'', Some ''ffree'', Some ''ffree'', Some ''ffree'', Some ''ffree'', Some ''ffree'', Some
      ''ffree'', Some ''ffree'',
      None, None, None, None, None, None, None, None,
      Some ''fst'', Some ''fst'', Some ''fst'', Some ''fst'', Some ''fst'', Some ''fst'', Some ''fst'',
      Some ''fst'',
      Some ''fstp'', Some ''fstp'', Some ''fstp'', Some ''fstp'', Some ''fstp'', Some ''fstp'', Some
      ''fstp'', Some ''fstp'',
      Some ''fucom'', Some ''fucom'', Some ''fucom'', Some ''fucom'', Some ''fucom'', Some ''fucom'', Some
      ''fucom'', Some ''fucom'',
      Some ''fucomp'', Some ''fucomp'', Some ''fucomp'', Some ''fucomp'', Some ''fucomp'', Some
      ''fucomp'', Some ''fucomp'', Some ''fucomp'',
      None, None, None, None, None, None, None, None,
      None, None, None, None, None, None, None, None]"

definition k87DETable1 :: "string option list" where
  "k87DETable1 =
     [Some ''fiadd'', Some ''fimul'', Some ''ficom'', Some ''ficomp'', Some ''fisub'', Some ''fisubr'',
      Some ''fidiv'', Some ''fidivr'']"

definition k87DETable2 :: "string option list" where
  "k87DETable2 =
     [Some ''faddp'', Some ''faddp'', Some ''faddp'', Some ''faddp'', Some ''faddp'', Some ''faddp'', Some
      ''faddp'', Some ''faddp'',
      Some ''fmulp'', Some ''fmulp'', Some ''fmulp'', Some ''fmulp'', Some ''fmulp'', Some ''fmulp'', Some
      ''fmulp'', Some ''fmulp'',
      None, None, None, None, None, None, None, None,
      None, Some ''fcompp'', None, None, None, None, None, None,
      Some ''fsubrp'', Some ''fsubrp'', Some ''fsubrp'', Some ''fsubrp'', Some ''fsubrp'', Some
      ''fsubrp'', Some ''fsubrp'', Some ''fsubrp'',
      Some ''fsubp'', Some ''fsubp'', Some ''fsubp'', Some ''fsubp'', Some ''fsubp'', Some ''fsubp'', Some
      ''fsubp'', Some ''fsubp'',
      Some ''fdivrp'', Some ''fdivrp'', Some ''fdivrp'', Some ''fdivrp'', Some ''fdivrp'', Some
      ''fdivrp'', Some ''fdivrp'', Some ''fdivrp'',
      Some ''fdivp'', Some ''fdivp'', Some ''fdivp'', Some ''fdivp'', Some ''fdivp'', Some ''fdivp'', Some
      ''fdivp'', Some ''fdivp'']"

definition k87DFTable1 :: "string option list" where
  "k87DFTable1 =
     [Some ''fild'', Some ''fisttp'', Some ''fist'', Some ''fistp'', Some ''fbld'', Some ''fild'', Some
      ''fbstp'', Some ''fistp'']"

definition k87DFTable2 :: "string option list" where
  "k87DFTable2 =
     [None, None, None, None, None, None, None, None,
      None, None, None, None, None, None, None, None,
      None, None, None, None, None, None, None, None,
      None, None, None, None, None, None, None, None,
      Some ''fnstsw'', None, None, None, None, None, None, None,
      Some ''fucomip'', Some ''fucomip'', Some ''fucomip'', Some ''fucomip'', Some ''fucomip'', Some
      ''fucomip'', Some ''fucomip'', Some ''fucomip'',
      Some ''fcomip'', Some ''fcomip'', Some ''fcomip'', Some ''fcomip'', Some ''fcomip'', Some
      ''fcomip'', Some ''fcomip'', Some ''fcomip'',
      None, None, None, None, None, None, None, None]"

definition Buildx87Tables :: "table_call list" where
  "Buildx87Tables =
     [Encode87Op 0x0 k87D8Table1 k87D8Table2,
      Encode87Op 0x1 k87D9Table1 k87D9Table2,
      Encode87Op 0x2 k87DATable1 k87DATable2,
      Encode87Op 0x3 k87DBTable1 k87DBTable2,
      Encode87Op 0x4 k87DCTable1 k87DCTable2,
      Encode87Op 0x5 k87DDTable1 k87DDTable2,
      Encode87Op 0x6 k87DETable1 k87DETable2,
      Encode87Op 0x7 k87DFTable1 k87DFTable2] @
     concat (map (\<lambda>i. [SetX87Type 0x2 (0xc0 + i) NACLi_FCMOV, SetX87Type 0x2 (0xc8 + i) NACLi_FCMOV,
          SetX87Type 0x2 (0xd0 + i) NACLi_FCMOV, SetX87Type 0x2 (0xd8 + i) NACLi_FCMOV,
          SetX87Type 0x3 (0xc0 + i) NACLi_FCMOV, SetX87Type 0x3 (0xc8 + i) NACLi_FCMOV,
          SetX87Type 0x3 (0xd0 + i) NACLi_FCMOV, SetX87Type 0x3 (0xd8 + i) NACLi_FCMOV])
       [0, 1, 2, 3, 4, 5, 6, 7])"

definition BuildMetaTables_calls :: "table_call list" where
  "BuildMetaTables_calls =
     BuildMetaTables_1 @ BuildMetaTables_2 @ BuildMetaTables_3 @ BuildMetaTables_4 @
     BuildMetaTables_5 @ BuildMetaTables_6 @ BuildMetaTables_7 @ BuildMetaTables_8 @
     BuildMetaTables_9 @ BuildMetaTables_10 @ BuildSSE4Tables @ Buildx87Tables"

text \<open>\<open>BuildMetaTables\<close>, and the arrays that \<open>PrintDecodeTables\<close> and \<open>PrintPrefixTable\<close> write.\<close>

definition BuildMetaTables :: "RunMode \<Rightarrow> meta_tables result" where
  "BuildMetaTables flags = run_calls flags BuildMetaTables_calls InitializeGlobalTables"

definition PrintDecodeTable :: "(u8 \<Rightarrow> OpInfo option) \<Rightarrow> u8 \<Rightarrow> OpInfo" where
  "PrintDecodeTable gtbl opc = (case gtbl opc of None \<Rightarrow> DecodeUndefinedInstInfo | Some e \<Rightarrow> e)"

definition PrintDecodeTables :: "meta_tables \<Rightarrow> decode_tables" where
  "PrintDecodeTables T =
     \<lparr>kPrefixTable = g_PrefixTable T,
      kDecode1ByteOp = PrintDecodeTable (g_Op T g_Op1ByteTable),
      kDecode0FXXOp = PrintDecodeTable (g_Op T g_Op0FXXMetaTable),
      kDecode660FXXOp = PrintDecodeTable (g_Op T g_Op660FXXTable),
      kDecodeF20FXXOp = PrintDecodeTable (g_Op T g_OpF20FXXTable),
      kDecodeF30FXXOp = PrintDecodeTable (g_Op T g_OpF30FXXTable),
      kDecode0F38Op = PrintDecodeTable (g_Op T g_Op0F38Table),
      kDecode660F38Op = PrintDecodeTable (g_Op T g_Op660F38Table),
      kDecodeF20F38Op = PrintDecodeTable (g_Op T g_OpF20F38Table),
      kDecode0F3AOp = PrintDecodeTable (g_Op T g_Op0F3ATable),
      kDecode660F3AOp = PrintDecodeTable (g_Op T g_Op660F3ATable),
      kDecode0F0FOp = PrintDecodeTable (g_Op T g_Op0F0FTable),
      kDecodeX87Op = (\<lambda>tab. PrintDecodeTable (g_Op87 T tab)),
      kDecodeModRMOp = (\<lambda>grp. PrintDecodeTable (g_ModRMOpTable T grp))\<rparr>"

end
