(* ===== verification/Nc_Step.thy ===== *)
theory Nc_Step
  imports Nc_Validate
begin

text \<open>
  What \<open>ValidateInst\<close> does to one instruction when it finds no failure: the effect on the two
  address tables and on the segment, and the checks that the instruction has passed. Failures
  are sticky: no operation of the validator clears \<open>sawfailure\<close>.
\<close>

abbreviation failed :: "NCValidatorState \<Rightarrow> bool" where
  "failed v \<equiv> sawfailure (stats v) \<noteq> 0"

lemmas Stats_defs = Stats_Inst_def Stats_CheckTarget_def Stats_TargetIndirect_def Stats_SawFailure_def
  Stats_InternalError_def Stats_BadCPU_def Stats_BadAlignment_def Stats_SegFault_def Stats_BadTarget_def
  Stats_UnsafeIndirect_def Stats_MissingFullStop_def Stats_Return_def Stats_IllegalInst_def
  Stats_BadPrefix_def Stats_BadInstLength_def

section \<open>Address tables\<close>

lemma IATOffset_div: "IATOffset ia = unat ia div 8"
  unfolding IATOffset_def unat_drop_bit_eq by (simp add: drop_bit_eq_div)

lemma IATMask_exp: "IATMask ia = 2 ^ (unat ia mod 8)"
proof -
  have "ia AND 7 = take_bit 3 ia" using take_bit_eq_mask [of 3 ia] by (simp add: mask_eq_exp_minus_1)
  moreover have "unat (take_bit 3 ia) = unat ia mod 8"
    unfolding unsigned_take_bit_eq by (simp add: take_bit_eq_mod)
  ultimately have e: "unat (ia AND 7) = unat ia mod 8" by metis
  have "unat ia mod 8 < 8" by simp
  then have "unat ia mod 8 \<in> {0, 1, 2, 3, 4, 5, 6, 7}" by auto
  then show ?thesis unfolding IATMask_def e by (auto simp: iadrmasks_def)
qed

lemma GetAdrTable_bit: "GetAdrTable ia t \<longleftrightarrow> tbl_bit t (unat ia)"
  by (simp add: GetAdrTable_def IATOffset_div IATMask_exp and_exp_nonzero_iff tbl_bit_def)

lemma SetAdrTable_bit:
  "unat ia div 8 < length t \<Longrightarrow> tbl_bit (SetAdrTable ia t) j \<longleftrightarrow> j = unat ia \<or> tbl_bit t j"
  using tbl_bit_set [of "unat ia" t j] by (simp add: SetAdrTable_def IATOffset_div IATMask_exp)

lemma ClearAdrTable_bit:
  "unat ia div 8 < length t \<Longrightarrow> tbl_bit (ClearAdrTable ia t) j \<longleftrightarrow> j \<noteq> unat ia \<and> tbl_bit t j"
  using tbl_bit_clear [of "unat ia" t j] by (simp add: ClearAdrTable_def IATOffset_div IATMask_exp)

lemma length_AdrTable [simp]:
  "length (SetAdrTable ia t) = length t" "length (ClearAdrTable ia t) = length t"
  by (simp_all add: SetAdrTable_def ClearAdrTable_def)

text \<open>The tables cover the addresses from \<open>iadrbase\<close> up to \<open>iadrlimit\<close>.\<close>

definition tables_ok :: "NCValidatorState \<Rightarrow> bool" where
  "tables_ok v \<longleftrightarrow> iadrbase v \<le> iadrlimit v \<and>
     length (vttable v) = unat (iadrlimit v - iadrbase v) div 8 + 1 \<and>
     length (kttable v) = unat (iadrlimit v - iadrbase v) div 8 + 1"

definition in_range :: "NCValidatorState \<Rightarrow> u32 \<Rightarrow> bool" where
  "in_range v a \<longleftrightarrow> iadrbase v \<le> a \<and> a < iadrlimit v"

lemma in_range_offset:
  assumes "in_range v a"
  shows "unat (a - iadrbase v) < unat (iadrlimit v - iadrbase v)"
proof -
  have "unat (iadrbase v) \<le> unat a" "unat a < unat (iadrlimit v)"
    using assms by (simp_all add: in_range_def word_le_nat_alt word_less_nat_alt)
  then show ?thesis by (simp add: unat_minus_u32)
qed

lemma in_range_tables:
  assumes "tables_ok v" and "in_range v a"
  shows "unat (a - iadrbase v) div 8 < length (vttable v)" "unat (a - iadrbase v) div 8 < length (kttable v)"
  using in_range_offset [OF assms(2)] assms(1) by (auto simp: tables_ok_def less_Suc_eq_le div_le_mono)

section \<open>Remembering and forgetting addresses\<close>

lemma RememberIP_ok:
  assumes "\<not> failed (RememberIP ip v)"
  shows "in_range v ip" "\<not> tbl_bit (vttable v) (unat (ip - iadrbase v))"
    "RememberIP ip v = (Stats_Inst v)\<lparr>vttable := SetAdrTable (ip - iadrbase v) (vttable v)\<rparr>"
proof -
  have a: "\<not> (ip < iadrbase v \<or> ip \<ge> iadrlimit v)"
  proof
    assume "ip < iadrbase v \<or> ip \<ge> iadrlimit v"
    then have "RememberIP ip v = Stats_BadTarget v" by (simp add: RememberIP_def)
    then show False using assms by (simp add: Stats_defs)
  qed
  have b: "\<not> GetAdrTable (ip - iadrbase v) (vttable v)"
  proof
    assume "GetAdrTable (ip - iadrbase v) (vttable v)"
    then have "RememberIP ip v = Stats_InternalError v" using a by (simp add: RememberIP_def)
    then show False using assms by (simp add: Stats_defs)
  qed
  show "in_range v ip" using a by (simp add: in_range_def not_less not_le)
  show "\<not> tbl_bit (vttable v) (unat (ip - iadrbase v))" using b by (simp add: GetAdrTable_bit)
  show "RememberIP ip v = (Stats_Inst v)\<lparr>vttable := SetAdrTable (ip - iadrbase v) (vttable v)\<rparr>"
    using a b by (simp add: RememberIP_def Stats_Inst_def)
qed

definition trampoline :: "NCValidatorState \<Rightarrow> u32 \<Rightarrow> bool" where
  "trampoline v t \<longleftrightarrow> t < iadrlimit v \<and> t < iadrbase v \<and> iadrbase v - NACL_TRAMPOLINE_END \<le> t \<and>
     t AND (NACL_INSTR_BLOCK_SIZE - 1) = 0"

lemma RememberTP_ok:
  assumes "\<not> failed (RememberTP t v)"
  shows "in_range v t \<and> RememberTP t v = v\<lparr>kttable := SetAdrTable (t - iadrbase v) (kttable v)\<rparr> \<or>
         trampoline v t \<and> \<not> in_range v t \<and> RememberTP t v = v"
proof (cases "in_range v t")
  case True
  then show ?thesis by (simp add: RememberTP_def in_range_def)
next
  case False
  have "trampoline v t"
  proof (rule ccontr)
    assume "\<not> trampoline v t"
    then have "RememberTP t v = Stats_BadTarget v"
      using False by (auto simp: RememberTP_def in_range_def trampoline_def not_le)
    then show False using assms by (simp add: Stats_defs)
  qed
  then show ?thesis using False by (auto simp: RememberTP_def in_range_def trampoline_def not_le)
qed

lemma ForgetIP_ok:
  assumes "in_range v ip"
  shows "ForgetIP ip v = v\<lparr>vttable := ClearAdrTable (ip - iadrbase v) (vttable v)\<rparr>"
  using assms by (auto simp: ForgetIP_def in_range_def)

section \<open>Failures are sticky\<close>

lemma failed_RememberIP: "failed v \<Longrightarrow> failed (RememberIP ip v)"
  by (simp add: RememberIP_def Stats_defs Let_def)

lemma failed_RememberTP: "failed v \<Longrightarrow> failed (RememberTP t v)"
  by (simp add: RememberTP_def Stats_defs Let_def)

lemma failed_ForgetIP: "failed v \<Longrightarrow> failed (ForgetIP ip v)"
  by (simp add: ForgetIP_def Stats_defs Let_def)

lemma failed_CallAlignment: "failed v \<Longrightarrow> failed (ValidateCallAlignment m v)"
  by (simp add: ValidateCallAlignment_def Stats_defs Let_def)

lemma failed_Stats:
  "failed v \<Longrightarrow> failed (Stats_CheckTarget v)" "failed v \<Longrightarrow> failed (Stats_TargetIndirect v)"
  "failed (Stats_InternalError v)" "failed (Stats_UnsafeIndirect v)" "failed (Stats_BadPrefix v)"
  "failed (Stats_IllegalInst v)" "failed (Stats_BadInstLength v)" "failed (Stats_BadAlignment v)"
  "failed (Stats_MissingFullStop v)" "failed (Stats_SegFault v)" "failed (Stats_BadCPU v)"
  "failed (Stats_BadTarget v)"
  by (simp_all add: Stats_defs)

lemmas failed_intros = failed_RememberIP failed_RememberTP failed_ForgetIP failed_CallAlignment failed_Stats

lemma failed_Jmp8: "failed v \<Longrightarrow> failed (ValidateJmp8 mem m v)"
  unfolding ValidateJmp8_def Let_def by (simp add: failed_intros del: not_gr_zero)

lemma failed_Jmpz: "failed v \<Longrightarrow> failed (ValidateJmpz mem m v)"
  unfolding ValidateJmpz_def Let_def by (simp add: failed_intros)

lemma failed_Indirect5: "failed v \<Longrightarrow> failed (ValidateIndirect5 mem buf i v)"
  unfolding ValidateIndirect5_def Let_def by (simp add: failed_intros)

lemma failed_switch: "failed v \<Longrightarrow> failed (fst (validate_switch ty mem buf i v))"
  by (cases ty) (simp_all add: failed_Jmp8 failed_Jmpz failed_Indirect5 failed_Stats)


section \<open>The checks an instruction has passed\<close>

definition next_pc :: "NCDecoderState \<Rightarrow> u32" where
  "next_pc m = vaddr (inst m) + of_nat (inst_length (inst m))"

text \<open>The target of a direct jump, as the validator computes it.\<close>

definition direct_target :: "memory \<Rightarrow> NCDecoderState \<Rightarrow> u32 option" where
  "direct_target mem m =
     (let opc = maddr (inst m) + prefixbytes (inst m)
      in if insttype (opinfo m) = NACLi_JMP8 then Some (next_pc m + scast (mem (opc + 1)))
         else if insttype (opinfo m) = NACLi_JMPZ then
           (if mem opc = 0xe8 \<or> mem opc = 0xe9 then Some (next_pc m + read_int32 mem (opc + 1))
            else if mem opc = 0x0f \<and> mem (opc + 1) AND 0xf0 = 0x80
            then Some (next_pc m + read_int32 mem (opc + 2))
            else None)
         else None)"

fun allowed_type :: "NaClInstType \<Rightarrow> bool" where
  "allowed_type NACLi_UNDEFINED = False" | "allowed_type NACLi_ILLEGAL = False"
| "allowed_type NACLi_INVALID = False" | "allowed_type NACLi_SYSTEM = False"
| "allowed_type NACLi_OPINMRM = False" | "allowed_type NACLi_RETURN = False"
| "allowed_type NACLi_CMPXCHG16B = False" | "allowed_type NACLi_RDMSR = False"
| "allowed_type NACLi_RDTSCP = False" | "allowed_type NACLi_SYSCALL = False"
| "allowed_type NACLi_SYSENTER = False" | "allowed_type NACLi_EMMX = False"
| "allowed_type NACLi_LONGMODE = False" | "allowed_type NACLi_SVM = False"
| "allowed_type NACLi_3BYTE = False" | "allowed_type _ = True"

definition call_aligned :: "u32 \<Rightarrow> NCDecoderState \<Rightarrow> bool" where
  "call_aligned amask m \<longleftrightarrow> next_pc m AND amask = 0"

text \<open>An 8-bit jump has one of the opcodes Jcc, JMP, LOOP, JCXZ; a 32-bit jump starts with CALL,
  JMP or the two-byte escape, and the return address of a call is aligned.\<close>

definition jump_ok :: "u32 \<Rightarrow> memory \<Rightarrow> NCDecoderState \<Rightarrow> bool" where
  "jump_ok amask mem m \<longleftrightarrow>
     (let opc = mem (maddr (inst m) + prefixbytes (inst m))
      in (insttype (opinfo m) = NACLi_JMP8 \<longrightarrow> opc AND 0xf0 = 0x70 \<or> opc \<in> {0xeb, 0xe0, 0xe1, 0xe2, 0xe3}) \<and>
         (insttype (opinfo m) = NACLi_JMPZ \<longrightarrow> opc \<in> {0xe8, 0xe9, 0x0f} \<and> (opc = 0xe8 \<longrightarrow> call_aligned amask m)))"

definition indirect_ok :: "u32 \<Rightarrow> memory \<Rightarrow> NCDecoderState \<Rightarrow> NCDecoderState \<Rightarrow> bool" where
  "indirect_ok amask mem prev m \<longleftrightarrow>
     (insttype (opinfo m) = NACLi_INDIRECT \<longrightarrow>
        inst_length (inst prev) \<noteq> 0 \<and> indirect5_ok mem prev m amask \<and>
        (modrm_reg (mem (maddr (inst m) + 1)) = 2 \<longrightarrow> call_aligned amask m))"

text \<open>Whether the switch asks for the instruction to be squashed.\<close>

definition squash_needed :: "CPUFeatures \<Rightarrow> memory \<Rightarrow> NCDecoderState \<Rightarrow> bool" where
  "squash_needed cpu mem m =
     snd (validate_switch (insttype (opinfo m)) mem [m] 0 (calloc_state\<lparr>cpufeatures := cpu\<rparr>))"

definition same_frame :: "NCValidatorState \<Rightarrow> NCValidatorState \<Rightarrow> bool" where
  "same_frame v v' \<longleftrightarrow> cpufeatures v' = cpufeatures v \<and> iadrbase v' = iadrbase v \<and>
     iadrlimit v' = iadrlimit v \<and> alignment v' = alignment v \<and> alignmask v' = alignmask v \<and>
     length (vttable v') = length (vttable v) \<and> length (kttable v') = length (kttable v) \<and>
     segments (stats v') = segments (stats v)"

lemma same_frame_trans: "same_frame v v' \<Longrightarrow> same_frame v' v'' \<Longrightarrow> same_frame v v''"
  by (simp add: same_frame_def)

lemma same_frame_Stats:
  "same_frame v (Stats_CheckTarget v)" "same_frame v (Stats_TargetIndirect v)"
  "same_frame v (Stats_Inst v)" "same_frame v v"
  by (simp_all add: same_frame_def Stats_defs)

text \<open>What is added to the jump-target table.\<close>

definition targets_added :: "u32 option \<Rightarrow> NCValidatorState \<Rightarrow> NCValidatorState \<Rightarrow> bool" where
  "targets_added t v v' \<longleftrightarrow>
     (\<forall>j. tbl_bit (kttable v') j \<longleftrightarrow>
        tbl_bit (kttable v) j \<or> (\<exists>a. t = Some a \<and> in_range v a \<and> j = unat (a - iadrbase v))) \<and>
     (\<forall>a. t = Some a \<longrightarrow> in_range v a \<or> trampoline v a)"

lemma RememberTP_effect:
  assumes "\<not> failed (RememberTP t v)" and "tables_ok v"
  shows "same_frame v (RememberTP t v) \<and> vttable (RememberTP t v) = vttable v \<and> \<not> failed v \<and>
         targets_added (Some t) v (RememberTP t v)"
proof -
  have nf: "\<not> failed v" using assms(1) failed_RememberTP by blast
  consider "in_range v t" "RememberTP t v = v\<lparr>kttable := SetAdrTable (t - iadrbase v) (kttable v)\<rparr>"
    | "trampoline v t" "\<not> in_range v t" "RememberTP t v = v"
    using RememberTP_ok [OF assms(1)] by blast
  then show ?thesis
  proof cases
    case 1
    then show ?thesis
      using nf SetAdrTable_bit [OF in_range_tables(2) [OF assms(2) 1(1)]]
      by (auto simp: same_frame_def targets_added_def)
  next
    case 2
    then show ?thesis using nf by (auto simp: same_frame_def targets_added_def)
  qed
qed

lemma targets_added_CheckTarget:
  "targets_added t (Stats_CheckTarget v) v' = targets_added t v v'"
  by (simp add: targets_added_def in_range_def trampoline_def Stats_defs)

lemma tables_ok_CheckTarget: "tables_ok (Stats_CheckTarget v) = tables_ok v"
  by (simp add: tables_ok_def Stats_defs)

lemma RememberTP_CheckTarget:
  assumes "\<not> failed (RememberTP t (Stats_CheckTarget v))" and "tables_ok v"
  shows "same_frame v (RememberTP t (Stats_CheckTarget v))"
    "vttable (RememberTP t (Stats_CheckTarget v)) = vttable v" "\<not> failed v"
    "targets_added (Some t) v (RememberTP t (Stats_CheckTarget v))"
proof -
  note e = RememberTP_effect [OF assms(1), unfolded tables_ok_CheckTarget, OF assms(2)]
  show "same_frame v (RememberTP t (Stats_CheckTarget v))"
    using e same_frame_trans [OF same_frame_Stats(1)] by blast
  show "vttable (RememberTP t (Stats_CheckTarget v)) = vttable v" using e by (simp add: Stats_CheckTarget_def)
  show "\<not> failed v" using e failed_Stats(1) by blast
  show "targets_added (Some t) v (RememberTP t (Stats_CheckTarget v))"
    using e by (simp add: targets_added_CheckTarget)
qed

lemma CallAlignment_ok:
  "\<not> failed (ValidateCallAlignment m v) \<Longrightarrow>
     ValidateCallAlignment m v = v \<and> call_aligned (alignmask v) m"
  by (auto simp: ValidateCallAlignment_def Let_def call_aligned_def next_pc_def Stats_defs split: if_splits)

text \<open>The effect of one case of the switch that reports nothing.\<close>

definition switch_effect ::
    "memory \<Rightarrow> NCDecoderState \<Rightarrow> NCDecoderState \<Rightarrow> NCValidatorState \<Rightarrow> NCValidatorState \<Rightarrow> bool" where
  "switch_effect mem prev m v v' \<longleftrightarrow>
     same_frame v v' \<and> \<not> failed v \<and> targets_added (direct_target mem m) v v' \<and>
     (\<forall>j. tbl_bit (vttable v') j \<longleftrightarrow>
        tbl_bit (vttable v) j \<and> \<not> (insttype (opinfo m) = NACLi_INDIRECT \<and> j = unat (vaddr (inst m) - iadrbase v))) \<and>
     jump_ok (alignmask v) mem m \<and> indirect_ok (alignmask v) mem prev m"

lemma Jmp8_effect:
  assumes ty: "insttype (opinfo m) = NACLi_JMP8"
    and nf: "\<not> failed (ValidateJmp8 mem m v)" and tb: "tables_ok v"
  shows "switch_effect mem prev m v (ValidateJmp8 mem m v)"
proof -
  define opc where "opc = mem (maddr (inst m) + prefixbytes (inst m))"
  define t where "t = next_pc m + scast (mem (maddr (inst m) + prefixbytes (inst m) + 1))"
  have ok: "opc AND 0xf0 = 0x70 \<or> opc \<in> {0xeb, 0xe0, 0xe1, 0xe2, 0xe3}"
  proof (rule ccontr)
    assume "\<not> ?thesis"
    then have "ValidateJmp8 mem m v = Stats_InternalError (Stats_CheckTarget v)"
      unfolding ValidateJmp8_def Let_def opc_def [symmetric] by auto
    then show False using nf failed_Stats by simp
  qed
  then have eq: "ValidateJmp8 mem m v = RememberTP t (Stats_CheckTarget v)"
    unfolding ValidateJmp8_def Let_def opc_def [symmetric] t_def next_pc_def by auto
  have t: "direct_target mem m = Some t" by (simp add: direct_target_def Let_def ty t_def)
  have j: "jump_ok (alignmask v) mem m" "indirect_ok (alignmask v) mem prev m"
    using ok by (simp_all add: jump_ok_def indirect_ok_def Let_def ty opc_def [symmetric])
  show ?thesis
    using RememberTP_CheckTarget [of t v, OF nf [unfolded eq] tb] j ty
    unfolding switch_effect_def eq t by simp
qed

lemma no_jump_effect:
  assumes "\<not> failed v" and "insttype (opinfo m) \<notin> {NACLi_JMP8, NACLi_JMPZ, NACLi_INDIRECT}"
  shows "switch_effect mem prev m v v"
  using assms
  by (simp add: switch_effect_def same_frame_def targets_added_def direct_target_def jump_ok_def indirect_ok_def Let_def)

lemma Jmpz_effect:
  assumes ty: "insttype (opinfo m) = NACLi_JMPZ"
    and nf: "\<not> failed (ValidateJmpz mem m v)" and tb: "tables_ok v"
  shows "switch_effect mem prev m v (ValidateJmpz mem m v)"
proof -
  define a where "a = maddr (inst m) + prefixbytes (inst m)"
  define t1 where "t1 = next_pc m + read_int32 mem (a + 1)"
  define t2 where "t2 = next_pc m + read_int32 mem (a + 2)"
  define v1 where "v1 = RememberTP t1 (Stats_CheckTarget v)"
  have ind: "indirect_ok (alignmask v) mem prev m" by (simp add: indirect_ok_def ty)
  consider (call) "mem a = 0xe8" | (jmp) "mem a = 0xe9" | (jcc) "mem a = 0x0f" "mem (a + 1) AND 0xf0 = 0x80"
    | (other) "mem a = 0x0f" "mem (a + 1) AND 0xf0 \<noteq> 0x80" | (bad) "mem a \<notin> {0xe8, 0xe9, 0x0f}" by auto
  then show ?thesis
  proof cases
    case call
    then have eq: "ValidateJmpz mem m v = ValidateCallAlignment m v1"
      by (simp add: ValidateJmpz_def Let_def a_def [symmetric] t1_def v1_def next_pc_def)
    note al = CallAlignment_ok [OF nf [unfolded eq]]
    then have nf1: "\<not> failed v1" using nf eq by simp
    note e = RememberTP_CheckTarget [of t1 v, OF nf1 [unfolded v1_def] tb, folded v1_def]
    have "direct_target mem m = Some t1" using call by (simp add: direct_target_def Let_def ty t1_def a_def)
    moreover have "jump_ok (alignmask v) mem m"
      using call al e(1) by (simp add: jump_ok_def Let_def ty a_def same_frame_def)
    ultimately show ?thesis using e al ind ty unfolding switch_effect_def eq by simp
  next
    case jmp
    then have eq: "ValidateJmpz mem m v = v1"
      by (simp add: ValidateJmpz_def Let_def a_def [symmetric] t1_def v1_def next_pc_def)
    note e = RememberTP_CheckTarget [of t1 v, OF nf [unfolded eq v1_def] tb, folded v1_def]
    have "direct_target mem m = Some t1" using jmp by (simp add: direct_target_def Let_def ty t1_def a_def)
    moreover have "jump_ok (alignmask v) mem m" using jmp by (simp add: jump_ok_def Let_def ty a_def)
    ultimately show ?thesis using e ind ty unfolding switch_effect_def eq by simp
  next
    case jcc
    then have eq: "ValidateJmpz mem m v = RememberTP t2 (Stats_CheckTarget v)"
      by (simp add: ValidateJmpz_def Let_def a_def [symmetric] t2_def next_pc_def)
    note e = RememberTP_CheckTarget [of t2 v, OF nf [unfolded eq] tb]
    have "direct_target mem m = Some t2" using jcc by (simp add: direct_target_def Let_def ty t2_def a_def)
    moreover have "jump_ok (alignmask v) mem m" using jcc by (simp add: jump_ok_def Let_def ty a_def)
    ultimately show ?thesis using e ind ty unfolding switch_effect_def eq by simp
  next
    case other
    then have eq: "ValidateJmpz mem m v = Stats_CheckTarget v"
      by (simp add: ValidateJmpz_def Let_def a_def [symmetric])
    have "direct_target mem m = None" using other by (simp add: direct_target_def Let_def ty a_def)
    moreover have "jump_ok (alignmask v) mem m" using other by (simp add: jump_ok_def Let_def ty a_def)
    ultimately show ?thesis
      using nf ind ty same_frame_Stats unfolding switch_effect_def eq
      by (auto simp: targets_added_def Stats_CheckTarget_def)
  next
    case bad
    then have "ValidateJmpz mem m v = Stats_InternalError (Stats_CheckTarget v)"
      by (simp add: ValidateJmpz_def Let_def a_def [symmetric])
    then show ?thesis using nf failed_Stats by simp
  qed
qed

lemma Indirect5_effect:
  assumes ty: "insttype (opinfo m) = NACLi_INDIRECT" and m: "buf ! i = m" "PreviousInst buf i (- 1) = prev"
    and nf: "\<not> failed (ValidateIndirect5 mem buf i v)" and tb: "tables_ok v"
    and r: "in_range v (vaddr (inst m))"
  shows "switch_effect mem prev m v (ValidateIndirect5 mem buf i v)"
proof -
  define v1 where "v1 = Stats_TargetIndirect (Stats_CheckTarget v)"
  define v2 where "v2 = v1\<lparr>vttable := ClearAdrTable (vaddr (inst m) - iadrbase v) (vttable v)\<rparr>"
  have fr1: "same_frame v v1" unfolding v1_def by (rule same_frame_trans [OF same_frame_Stats(1,2)])
  have "alignmask v1 = alignmask v" "iadrbase v1 = iadrbase v" "vttable v1 = vttable v" "kttable v1 = kttable v"
    "failed v1 = failed v" "in_range v1 (vaddr (inst m))"
    using r by (simp_all add: v1_def Stats_defs in_range_def)
  note v1 = this
  have forget: "ForgetIP (vaddr (inst m)) v1 = v2"
    using ForgetIP_ok [OF v1(6)] by (simp add: v2_def v1)
  have ok: "inst_length (inst prev) \<noteq> 0 \<and> indirect5_ok mem prev m (alignmask v)"
    using nf failed_Stats(4) by (auto simp: ValidateIndirect5_def Let_def m v1_def [symmetric] v1 split: if_splits)
  define v3 where "v3 = (if modrm_reg (mem (maddr (inst m) + 1)) = 2 then ValidateCallAlignment m v2 else v2)"
  have eq: "ValidateIndirect5 mem buf i v = v3"
    using ok by (simp add: ValidateIndirect5_def Let_def m v1_def [symmetric] v1 forget v3_def)
  have v3: "v3 = v2" and al: "modrm_reg (mem (maddr (inst m) + 1)) = 2 \<longrightarrow> call_aligned (alignmask v) m"
    using nf CallAlignment_ok [of m v2] unfolding eq v3_def by (auto simp: v2_def v1 split: if_splits)
  have fr: "same_frame v v2" using fr1 by (simp add: same_frame_def v2_def)
  have vt: "tbl_bit (vttable v2) j \<longleftrightarrow> tbl_bit (vttable v) j \<and> j \<noteq> unat (vaddr (inst m) - iadrbase v)" for j
    using ClearAdrTable_bit [OF in_range_tables(1) [OF tb r]] by (auto simp: v2_def)
  have t: "targets_added (direct_target mem m) v v2"
    by (simp add: targets_added_def direct_target_def Let_def ty v2_def v1)
  have nf2: "\<not> failed v" using nf v1(5) unfolding eq v3 by (simp add: v2_def)
  have "jump_ok (alignmask v) mem m" "indirect_ok (alignmask v) mem prev m"
    using ok al by (simp_all add: jump_ok_def indirect_ok_def ty Let_def)
  then show ?thesis unfolding switch_effect_def eq v3 using fr vt t nf2 ty by simp
qed

lemma switch_ok:
  assumes m: "buf ! i = m" "PreviousInst buf i (- 1) = prev"
    and nf: "\<not> failed (fst (validate_switch (insttype (opinfo m)) mem buf i v))"
    and tb: "tables_ok v" and r: "in_range v (vaddr (inst m))"
  shows "switch_effect mem prev m v (fst (validate_switch (insttype (opinfo m)) mem buf i v)) \<and>
         allowed_type (insttype (opinfo m)) \<and>
         (insttype (opinfo m) = NACLi_SSE2x \<longrightarrow> prefixmask (inst m) AND kPrefixDATA16 \<noteq> 0)"
proof (cases "insttype (opinfo m) \<in> {NACLi_JMP8, NACLi_JMPZ, NACLi_INDIRECT}")
  case True
  then show ?thesis
    using nf Jmp8_effect [OF _ _ tb, of m mem prev] Jmpz_effect [OF _ _ tb, of m mem prev]
      Indirect5_effect [OF _ m _ tb r, of mem] by (auto simp: m)
next
  case False
  let ?r = "fst (validate_switch (insttype (opinfo m)) mem buf i v)"
  have "?r = v \<and> allowed_type (insttype (opinfo m)) \<and>
      (insttype (opinfo m) = NACLi_SSE2x \<longrightarrow> prefixmask (inst m) AND kPrefixDATA16 \<noteq> 0)"
    using nf False failed_Stats by (cases "insttype (opinfo m)") (auto simp: m split: if_splits)
  then show ?thesis using no_jump_effect [OF _ False, of v mem prev] nf by simp
qed


section \<open>The whole instruction\<close>

definition inst_checked :: "u32 \<Rightarrow> memory \<Rightarrow> NCDecoderState \<Rightarrow> NCDecoderState \<Rightarrow> bool" where
  "inst_checked amask mem prev m \<longleftrightarrow>
     prefix_ok m \<and> length_ok m \<and> allowed_type (insttype (opinfo m)) \<and>
     (insttype (opinfo m) = NACLi_SSE2x \<longrightarrow> prefixmask (inst m) AND kPrefixDATA16 \<noteq> 0) \<and>
     jump_ok amask mem m \<and> indirect_ok amask mem prev m"

definition inst_effect ::
    "memory \<Rightarrow> NCDecoderState \<Rightarrow> NCDecoderState \<Rightarrow> NCValidatorState \<Rightarrow> memory \<Rightarrow> NCValidatorState \<Rightarrow> bool" where
  "inst_effect mem prev m v mem' v' \<longleftrightarrow>
     same_frame v v' \<and> in_range v (vaddr (inst m)) \<and>
     targets_added (direct_target mem m) v v' \<and>
     (\<forall>j. tbl_bit (vttable v') j \<longleftrightarrow>
        tbl_bit (vttable v) j \<or> insttype (opinfo m) \<noteq> NACLi_INDIRECT \<and> j = unat (vaddr (inst m) - iadrbase v)) \<and>
     inst_checked (alignmask v) mem prev m \<and>
     mem' = (if squash_needed (cpufeatures v) mem m
             then memset mem (maddr (inst m)) kNaClFullStop (inst_length (inst m)) else mem)"

lemma snd_switch:
  "snd (validate_switch (insttype (opinfo (buf ! i))) mem buf i v) = squash_needed (cpufeatures v) mem (buf ! i)"
  by (cases "insttype (opinfo (buf ! i))") (simp_all add: squash_needed_def ValidateSFenceClFlush_def)

lemma ValidateInst_unfold:
  "ValidateInst buf i mem v =
     (let m = buf ! i;
          v1 = RememberIP (vaddr (inst m)) (OpcodeHisto (mem (maddr (inst m) + prefixbytes (inst m))) v);
          v2 = (if prefix_ok m then v1 else Stats_BadPrefix v1);
          v3 = (if length_ok m then v2 else Stats_BadInstLength v2)
      in (if squash_needed (cpufeatures v3) mem m
          then memset mem (maddr (inst m)) kNaClFullStop (inst_length (inst m)) else mem,
          fst (validate_switch (insttype (opinfo m)) mem buf i v3)))"
  by (simp add: ValidateInst_def Let_def case_prod_beta snd_switch)

lemma failed_ValidateInst: "failed v \<Longrightarrow> failed (snd (ValidateInst buf i mem v))"
proof -
  assume "failed v"
  then have "failed (OpcodeHisto b v)" for b by (simp add: OpcodeHisto_def)
  then show ?thesis
    unfolding ValidateInst_unfold Let_def snd_conv
    by (intro failed_switch) (simp add: failed_intros)
qed

lemma ValidateInst_effect:
  assumes m: "buf ! i = m" "PreviousInst buf i (- 1) = prev" and tb: "tables_ok v"
    and nf: "\<not> failed (snd (ValidateInst buf i mem v))"
  shows "inst_effect mem prev m v (fst (ValidateInst buf i mem v)) (snd (ValidateInst buf i mem v))"
proof -
  define v0 where "v0 = OpcodeHisto (mem (maddr (inst m) + prefixbytes (inst m))) v"
  define v1 where "v1 = RememberIP (vaddr (inst m)) v0"
  define v2 where "v2 = (if prefix_ok m then v1 else Stats_BadPrefix v1)"
  define v3 where "v3 = (if length_ok m then v2 else Stats_BadInstLength v2)"
  define v4 where "v4 = fst (validate_switch (insttype (opinfo m)) mem buf i v3)"
  have eq: "ValidateInst buf i mem v = (if squash_needed (cpufeatures v3) mem m
      then memset mem (maddr (inst m)) kNaClFullStop (inst_length (inst m)) else mem, v4)"
    by (simp add: ValidateInst_unfold Let_def m v0_def v1_def v2_def v3_def v4_def)
  have nf4: "\<not> failed v4" using nf by (simp add: eq)
  then have nf3: "\<not> failed v3" unfolding v4_def using failed_switch by blast
  then have len: "length_ok m" and nf2: "\<not> failed v2"
    by (auto simp: v3_def failed_Stats split: if_splits)
  then have pre: "prefix_ok m" and nf1: "\<not> failed v1"
    by (auto simp: v2_def failed_Stats split: if_splits)
  have v31: "v3 = v1" using len pre by (simp add: v3_def v2_def)
  have f0: "same_frame v v0" "vttable v0 = vttable v" "kttable v0 = kttable v" "iadrbase v0 = iadrbase v"
    "iadrlimit v0 = iadrlimit v" "alignmask v0 = alignmask v"
    by (simp_all add: v0_def OpcodeHisto_def same_frame_def)
  note ip = RememberIP_ok [OF nf1 [unfolded v1_def], folded v1_def]
  have rng: "in_range v (vaddr (inst m))" using ip(1) f0 by (simp add: in_range_def)
  have v1: "v1 = (Stats_Inst v0)\<lparr>vttable := SetAdrTable (vaddr (inst m) - iadrbase v) (vttable v)\<rparr>"
    using ip(3) f0 by simp
  have f1: "same_frame v v1"
    using f0(1) by (simp add: v1 same_frame_def Stats_defs f0)
  then have f1s: "iadrbase v1 = iadrbase v" "iadrlimit v1 = iadrlimit v" "alignmask v1 = alignmask v"
    "cpufeatures v1 = cpufeatures v" by (simp_all add: same_frame_def)
  have k1: "kttable v1 = kttable v" by (simp add: v1 Stats_defs f0)
  have tb1: "tables_ok v1" and rng1: "in_range v1 (vaddr (inst m))"
    using tb f1 rng by (simp_all add: tables_ok_def same_frame_def in_range_def)
  have bit1: "tbl_bit (vttable v1) j \<longleftrightarrow> j = unat (vaddr (inst m) - iadrbase v) \<or> tbl_bit (vttable v) j" for j
    using SetAdrTable_bit [OF in_range_tables(1) [OF tb rng]] by (simp add: v1)
  have old: "\<not> tbl_bit (vttable v) (unat (vaddr (inst m) - iadrbase v))" using ip(2) f0 by simp
  note sw = switch_ok [OF m nf4 [unfolded v4_def v31] tb1 rng1, folded v31, folded v4_def]
  have e: "switch_effect mem prev m v1 v4" using sw v31 by simp
  have "same_frame v v4" using e f1 same_frame_trans by (auto simp: switch_effect_def)
  moreover have "targets_added (direct_target mem m) v v4"
    using e by (simp add: switch_effect_def targets_added_def k1 in_range_def trampoline_def f1s)
  moreover have "\<forall>j. tbl_bit (vttable v4) j \<longleftrightarrow>
      tbl_bit (vttable v) j \<or> insttype (opinfo m) \<noteq> NACLi_INDIRECT \<and> j = unat (vaddr (inst m) - iadrbase v)"
    using e old by (auto simp: switch_effect_def bit1 f1s)
  moreover have "inst_checked (alignmask v) mem prev m"
    using sw e len pre by (simp add: inst_checked_def switch_effect_def f1s)
  ultimately show ?thesis
    unfolding inst_effect_def eq by (simp add: rng v31 f1s)
qed


section \<open>What no operation changes\<close>

definition geometry :: "NCValidatorState \<Rightarrow> u32 \<times> u32 \<times> u8 \<times> u32" where
  "geometry v = (iadrbase v, iadrlimit v, alignment v, alignmask v)"

lemma geometry_Stats:
  "geometry (Stats_CheckTarget v) = geometry v" "geometry (Stats_TargetIndirect v) = geometry v"
  "geometry (Stats_InternalError v) = geometry v" "geometry (Stats_UnsafeIndirect v) = geometry v"
  "geometry (Stats_BadPrefix v) = geometry v" "geometry (Stats_IllegalInst v) = geometry v"
  "geometry (Stats_BadInstLength v) = geometry v" "geometry (Stats_BadAlignment v) = geometry v"
  "geometry (Stats_MissingFullStop v) = geometry v" "geometry (Stats_SegFault v) = geometry v"
  "geometry (Stats_BadCPU v) = geometry v" "geometry (Stats_BadTarget v) = geometry v"
  "geometry (Stats_Return v) = geometry v" "geometry (OpcodeHisto b v) = geometry v"
  "geometry (Stats_NewSegment v) = geometry v"
  by (simp_all add: Stats_defs geometry_def OpcodeHisto_def Stats_NewSegment_def Let_def)

lemma geometry_Remember:
  "geometry (RememberIP ip v) = geometry v" "geometry (RememberTP t v) = geometry v"
  "geometry (ForgetIP ip v) = geometry v" "geometry (ValidateCallAlignment m v) = geometry v"
  by (simp_all add: RememberIP_def RememberTP_def ForgetIP_def ValidateCallAlignment_def Let_def geometry_Stats)
     (simp_all add: geometry_def Stats_defs)

lemma geometry_jumps:
  "geometry (ValidateJmp8 mem m v) = geometry v" "geometry (ValidateJmpz mem m v) = geometry v"
  "geometry (ValidateIndirect5 mem buf i v) = geometry v"
  by (simp_all add: ValidateJmp8_def ValidateJmpz_def ValidateIndirect5_def Let_def geometry_Stats geometry_Remember)

lemma geometry_switch: "geometry (fst (validate_switch ty mem buf i v)) = geometry v"
  by (cases ty) (simp_all add: geometry_jumps geometry_Stats)

lemma geometry_ValidateInst: "geometry (snd (ValidateInst buf i mem v)) = geometry v"
  by (simp add: ValidateInst_unfold Let_def geometry_switch geometry_Remember geometry_Stats)

end
