(* ===== verification/Nc_Safety.thy ===== *)
theory Nc_Safety
  imports Nc_Step
begin

text \<open>
  Safety of the validator. The validator's callbacks are a client of the segment decoder
  (interpretation \<open>validator\<close> of \<open>decoder_client\<close>): the invariant \<open>val_inv\<close> ties the two address
  tables and the squashed bytes to the instructions seen so far. With the two passes of
  \<open>NCValidateFinish\<close> it gives \<open>sandboxed\<close>, the abstract contract of an accepted image.
\<close>

section \<open>The passes of \<open>NCValidateFinish\<close>\<close>

definition same_tables :: "NCValidatorState \<Rightarrow> NCValidatorState \<Rightarrow> bool" where
  "same_tables v v' \<longleftrightarrow> same_frame v v' \<and> vttable v' = vttable v \<and> kttable v' = kttable v"

lemma same_tables_refl: "same_tables v v"
  by (simp add: same_tables_def same_frame_def)

lemma same_tables_trans: "same_tables v v' \<Longrightarrow> same_tables v' v'' \<Longrightarrow> same_tables v v''"
  by (simp add: same_tables_def same_frame_def)

lemma check_target_step:
  "same_tables v (check_target off v)"
  "\<not> failed (check_target off v) \<longleftrightarrow>
     \<not> failed v \<and> (tbl_bit (kttable v) (unat off) \<longrightarrow> tbl_bit (vttable v) (unat off))"
  by (auto simp: check_target_def Let_def Stats_defs same_tables_def same_frame_def GetAdrTable_bit)

lemma fold_check_target:
  assumes "\<forall>i \<in> set is. i < 2 ^ 32"
  shows "same_tables v (fold (\<lambda>i. check_target (of_nat i)) is v) \<and>
    (\<not> failed (fold (\<lambda>i. check_target (of_nat i)) is v) \<longleftrightarrow>
       \<not> failed v \<and> (\<forall>i \<in> set is. tbl_bit (kttable v) i \<longrightarrow> tbl_bit (vttable v) i))"
  using assms
proof (induction "is" arbitrary: v)
  case (Cons i "is")
  let ?v = "check_target (of_nat i) v"
  have i: "unat (of_nat i :: u32) = i" using Cons.prems by (simp add: unat_of_nat)
  have st: "same_tables v ?v" by (rule check_target_step)
  then have "vttable ?v = vttable v" "kttable ?v = kttable v" by (simp_all add: same_tables_def)
  then show ?case
    using Cons.IH [of ?v] Cons.prems st same_tables_trans check_target_step(2) [of "of_nat i" v] i by auto
qed (simp add: same_tables_refl)

lemma check_targets_ok:
  "same_tables v (check_targets v) \<and>
   (\<not> failed (check_targets v) \<longleftrightarrow> \<not> failed v \<and>
      (\<forall>i < unat (iadrlimit v - iadrbase v). tbl_bit (kttable v) i \<longrightarrow> tbl_bit (vttable v) i))"
  using fold_check_target [of "[0..<unat (iadrlimit v - iadrbase v)]" v] u32_lt [of "iadrlimit v - iadrbase v"]
  by (auto simp: check_targets_def)

lemma unat_ucast_u8: "unat (ucast b :: u32) = unat b" for b :: u8
  using u8_lt [of b] by (simp add: unsigned_ucast_eq take_bit_nat_eq_self)

lemma check_blocks_ok:
  assumes "unat (iadrlimit v - iadrbase v) + unat (alignment v) \<le> 2 ^ 32" and "0 < unat (alignment v)"
  shows "\<exists>v'. check_blocks off v = Some v' \<and> same_tables v v' \<and>
    (\<not> failed v' \<longleftrightarrow> \<not> failed v \<and>
       (\<forall>k. unat off + k * unat (alignment v) < unat (iadrlimit v - iadrbase v) \<longrightarrow>
            tbl_bit (vttable v) (unat off + k * unat (alignment v))))"
  using assms
proof (induction "unat (iadrlimit v - iadrbase v) - unat off" arbitrary: off v rule: less_induct)
  case less
  let ?n = "unat (iadrlimit v - iadrbase v)" and ?a = "unat (alignment v)"
  show ?case
  proof (cases "unat off < ?n")
    case False
    then have "check_blocks off v = Some v" by (simp add: check_blocks.simps word_less_nat_alt)
    then show ?thesis using False same_tables_refl by auto
  next
    case True
    define v1 where "v1 = (if \<not> GetAdrTable off (vttable v) then Stats_BadAlignment v else v)"
    have st: "same_tables v v1"
      by (simp add: v1_def same_tables_def same_frame_def Stats_defs)
    then have f: "iadrlimit v1 = iadrlimit v" "iadrbase v1 = iadrbase v" "alignment v1 = alignment v"
      "vttable v1 = vttable v" by (simp_all add: same_tables_def same_frame_def)
    have fl: "\<not> failed v1 \<longleftrightarrow> \<not> failed v \<and> tbl_bit (vttable v) (unat off)"
      by (simp add: v1_def Stats_defs GetAdrTable_bit)
    have off: "unat (off + ucast (alignment v)) = unat off + ?a"
      using True less.prems(1) unat_plus_u32 [of off "ucast (alignment v)"]
      by (simp add: unat_ucast_u8)
    have eq: "check_blocks off v = check_blocks (off + ucast (alignment v)) v1"
      using True f by (subst check_blocks.simps) (simp add: word_less_nat_alt v1_def)
    have "unat (iadrlimit v1 - iadrbase v1) - unat (off + ucast (alignment v)) < ?n - unat off"
      using True less.prems(2) by (simp add: f off)
    from less.hyps [OF this] less.prems
    obtain v' where v': "check_blocks (off + ucast (alignment v)) v1 = Some v'" "same_tables v1 v'"
      "\<not> failed v' \<longleftrightarrow> \<not> failed v1 \<and> (\<forall>k. unat off + ?a + k * ?a < ?n \<longrightarrow> tbl_bit (vttable v) (unat off + ?a + k * ?a))"
      by (auto simp: f off)
    have all: "(\<forall>k. unat off + k * ?a < ?n \<longrightarrow> tbl_bit (vttable v) (unat off + k * ?a)) \<longleftrightarrow>
        tbl_bit (vttable v) (unat off) \<and>
        (\<forall>k. unat off + ?a + k * ?a < ?n \<longrightarrow> tbl_bit (vttable v) (unat off + ?a + k * ?a))"
    proof -
      have "(\<forall>k. P (k * ?a)) \<longleftrightarrow> P 0 \<and> (\<forall>k. P (?a + k * ?a))" for P :: "nat \<Rightarrow> bool"
        by (metis mult_0 mult_Suc not0_implies_Suc)
      from this [of "\<lambda>x. unat off + x < ?n \<longrightarrow> tbl_bit (vttable v) (unat off + x)"] show ?thesis
        using True by (simp add: add.assoc)
    qed
    show ?thesis
      unfolding eq all using v' st same_tables_trans fl by blast
  qed
qed

lemma check_blocks_failed:
  assumes "check_blocks off v = Some v'" and "failed v"
  shows "failed v'"
proof -
  have "failed v \<longrightarrow> failed v'"
  proof (rule check_blocks.raw_induct [where P = "\<lambda>off v v'. failed v \<longrightarrow> failed v'", OF _ assms(1)])
    fix rec :: "u32 \<Rightarrow> NCValidatorState \<Rightarrow> NCValidatorState option" and off v v'
    assume ih: "\<And>off v v'. rec off v = Some v' \<Longrightarrow> failed v \<longrightarrow> failed v'"
      and body: "(if off < iadrlimit v - iadrbase v
            then let vstate' = if \<not> GetAdrTable off (vttable v) then Stats_BadAlignment v else v
                 in rec (off + ucast (alignment vstate')) vstate'
            else Some v) = Some v'"
    define w where "w = (if \<not> GetAdrTable off (vttable v) then Stats_BadAlignment v else v)"
    have w: "failed v \<Longrightarrow> failed w" by (simp add: w_def failed_Stats)
    show "failed v \<longrightarrow> failed v'"
    proof (cases "off < iadrlimit v - iadrbase v")
      case True
      then have "rec (off + ucast (alignment w)) w = Some v'" using body by (simp only: if_True Let_def w_def)
      then show ?thesis using ih w by blast
    next
      case False
      then show ?thesis using body by simp
    qed
  qed
  then show ?thesis using assms(2) by blast
qed

lemma NCValidateFinish_failed: "NCValidateFinish (Some v) = Some (r, v') \<Longrightarrow> failed v \<Longrightarrow> r \<noteq> 0"
  using check_targets_ok [of v]
  by (auto simp: NCValidateFinish_def Let_def failed_Stats dest: check_blocks_failed split: option.splits if_splits)

lemma NCValidateFinish_ok:
  assumes "unat (iadrlimit v - iadrbase v) + unat (alignment v) \<le> 2 ^ 32" and "0 < unat (alignment v)"
  shows "\<exists>v'. NCValidateFinish (Some v) = Some (sawfailure (stats v'), Some v') \<and> same_tables v v' \<and>
    (\<not> failed v' \<longleftrightarrow> \<not> failed v \<and> iadrbase v AND alignmask v = 0 \<and>
       (\<forall>i < unat (iadrlimit v - iadrbase v). tbl_bit (kttable v) i \<longrightarrow> tbl_bit (vttable v) i) \<and>
       (\<forall>k. k * unat (alignment v) < unat (iadrlimit v - iadrbase v) \<longrightarrow>
            tbl_bit (vttable v) (k * unat (alignment v))))"
proof -
  define v1 where "v1 = check_targets v"
  define v2 where "v2 = (if iadrbase v1 AND alignmask v1 \<noteq> 0 then Stats_BadAlignment v1 else v1)"
  note c1 = check_targets_ok [of v, folded v1_def]
  have st2: "same_tables v1 v2" by (simp add: v2_def same_tables_def same_frame_def Stats_defs)
  have st: "same_tables v v2" using c1 st2 same_tables_trans by blast
  then have f: "iadrlimit v2 = iadrlimit v" "iadrbase v2 = iadrbase v" "alignment v2 = alignment v"
      "vttable v2 = vttable v" by (simp_all add: same_tables_def same_frame_def)
  have f1: "iadrbase v1 = iadrbase v" "alignmask v1 = alignmask v"
    using c1 by (simp_all add: same_tables_def same_frame_def)
  have fl: "\<not> failed v2 \<longleftrightarrow> \<not> failed v1 \<and> iadrbase v AND alignmask v = 0"
    by (simp add: v2_def f1 Stats_defs)
  obtain v' where v': "check_blocks 0 v2 = Some v'" "same_tables v2 v'"
    "\<not> failed v' \<longleftrightarrow> \<not> failed v2 \<and> (\<forall>k. k * unat (alignment v) < unat (iadrlimit v - iadrbase v) \<longrightarrow>
            tbl_bit (vttable v) (k * unat (alignment v)))"
    using check_blocks_ok [of v2 0] assms by (auto simp: f)
  have "NCValidateFinish (Some v) = Some (sawfailure (stats v'), Some v')"
    by (simp add: NCValidateFinish_def Let_def v1_def [symmetric] v2_def [symmetric] v'(1))
  then show ?thesis using v' st same_tables_trans fl c1 by blast
qed


section \<open>The invariant of the segment pass\<close>

definition squash :: "CPUFeatures \<Rightarrow> memory \<Rightarrow> NCDecoderState list \<Rightarrow> memory" where
  "squash cpu orig ms = (\<lambda>i. if \<exists>m \<in> set ms. squash_needed cpu orig m \<and> mpc m \<le> i \<and> i < mpc m + inst_length (inst m)
     then kNaClFullStop else orig i)"

text \<open>Every instruction has passed the checks, in view of its predecessor; the mask instruction
  before an indirect jump has not been squashed.\<close>

definition all_checked :: "u32 \<Rightarrow> CPUFeatures \<Rightarrow> memory \<Rightarrow> NCDecoderState list \<Rightarrow> bool" where
  "all_checked amask cpu orig ms \<longleftrightarrow>
     (\<forall>xs m ys. ms = xs @ m # ys \<longrightarrow>
        (\<exists>prev. prev_is xs prev \<and> inst_checked amask orig prev m \<and>
           (insttype (opinfo m) = NACLi_INDIRECT \<longrightarrow> \<not> squash_needed cpu orig prev)))"

definition val_inv ::
    "memory \<Rightarrow> NCValidatorState \<Rightarrow> NCDecoderState list \<Rightarrow> memory \<Rightarrow> NCValidatorState \<Rightarrow> bool" where
  "val_inv orig v0 ms mem v \<longleftrightarrow>
     tables_ok v0 \<and> same_frame v0 v \<and>
     (\<forall>j. tbl_bit (vttable v) j \<longleftrightarrow> tbl_bit (vttable v0) j \<or>
        (\<exists>m \<in> set ms. insttype (opinfo m) \<noteq> NACLi_INDIRECT \<and> j = unat (vaddr (inst m) - iadrbase v0))) \<and>
     (\<forall>j. tbl_bit (kttable v) j \<longleftrightarrow> tbl_bit (kttable v0) j \<or>
        (\<exists>m \<in> set ms. \<exists>a. direct_target orig m = Some a \<and> in_range v0 a \<and> j = unat (a - iadrbase v0))) \<and>
     (\<forall>m \<in> set ms. in_range v0 (vaddr (inst m)) \<and>
        (\<forall>a. direct_target orig m = Some a \<longrightarrow> in_range v0 a \<or> trampoline v0 a)) \<and>
     all_checked (alignmask v0) (cpufeatures v0) orig ms \<and>
     mem = squash (cpufeatures v0) orig ms"

text \<open>What is read from the current instruction on is original.\<close>

lemma direct_target_local:
  assumes "agree_from a mem mem'" and "a \<le> maddr (inst m)"
  shows "direct_target mem m = direct_target mem' m"
proof -
  have "mem i = mem' i" if "maddr (inst m) \<le> i" for i
    using agree_fromD [OF assms(1)] assms(2) that by simp
  then show ?thesis by (simp add: direct_target_def Let_def read_int32_def)
qed

lemma trace_from_decoded:
  "trace_from T mem a p ms e \<Longrightarrow> m \<in> set ms \<Longrightarrow> decoded (mpc m) (vpc m) m"
  using trace_from_mem decode_inst_blank by blast

lemma jump_ok_local:
  "agree_from a mem mem' \<Longrightarrow> a \<le> maddr (inst m) \<Longrightarrow> jump_ok amask mem m = jump_ok amask mem' m"
  by (simp add: jump_ok_def agree_fromD)

lemma squash_needed_local:
  "agree_from a mem mem' \<Longrightarrow> a \<le> maddr (inst m) \<Longrightarrow> squash_needed cpu mem m = squash_needed cpu mem' m"
  by (cases "insttype (opinfo m)") (simp_all add: squash_needed_def ValidateSFenceClFlush_def agree_fromD)

text \<open>The bytes of the mask instruction are original, because they are not HLT.\<close>

lemma squash_last:
  assumes tr: "trace_from T orig 0 vbase (ms @ [p]) e"
    and b: "squash cpu orig (ms @ [p]) (mpc p) \<noteq> kNaClFullStop"
    and agree: "agree_from e (squash cpu orig (ms @ [p])) orig"
  shows "\<not> squash_needed cpu orig p" and "squash cpu orig (ms @ [p]) (mpc p + k) = orig (mpc p + k)"
proof -
  have e: "mpc p + inst_length (inst p) = e" by (rule trace_from_last [OF tr])
  have len: "1 \<le> inst_length (inst p)" using trace_from_decoded [OF tr, of p] by (simp add: decoded_def)
  then show np: "\<not> squash_needed cpu orig p" using b by (auto simp: squash_def split: if_splits)
  have before: "mpc x + inst_length (inst x) \<le> mpc p" if "x \<in> set ms" for x
    using trace_from_sorted [OF tr] that by (simp add: sorted_wrt_append)
  show "squash cpu orig (ms @ [p]) (mpc p + k) = orig (mpc p + k)"
  proof (cases "k < inst_length (inst p)")
    case True
    then show ?thesis using np before by (fastforce simp: squash_def)
  next
    case False
    then show ?thesis using agree_fromD [OF agree, of "mpc p + k"] e by simp
  qed
qed

lemma all_checked_snoc:
  assumes "all_checked amask cpu orig ms" and "prev_is ms prev" and "inst_checked amask orig prev m"
    and "insttype (opinfo m) = NACLi_INDIRECT \<Longrightarrow> \<not> squash_needed cpu orig prev"
  shows "all_checked amask cpu orig (ms @ [m])"
  unfolding all_checked_def
proof (intro allI impI)
  fix xs x ys assume eq: "ms @ [m] = xs @ x # ys"
  show "\<exists>prev. prev_is xs prev \<and> inst_checked amask orig prev x \<and>
      (insttype (opinfo x) = NACLi_INDIRECT \<longrightarrow> \<not> squash_needed cpu orig prev)"
  proof (cases ys rule: rev_cases)
    case Nil
    then have "ms = xs" "m = x" using eq by auto
    then show ?thesis using assms by blast
  next
    case (snoc ys' y)
    then have "ms = xs @ x # ys'" using eq by (simp add: append_eq_append_conv2)
    then show ?thesis using assms(1) unfolding all_checked_def by blast
  qed
qed

lemma action_call_decoded: "action_call T orig vbase lim ms m buf i mem \<Longrightarrow> decoded (mpc m) (vpc m) m"
  using decode_inst_blank unfolding action_call_def by blast

lemma indirect_ok_orig:
  assumes call: "action_call T orig vbase lim ms m buf i mem" and mem: "mem = squash cpu orig ms"
    and prev: "prev_is ms prev" and ok: "indirect_ok amask mem prev m"
  shows "indirect_ok amask orig prev m \<and> (insttype (opinfo m) = NACLi_INDIRECT \<longrightarrow> \<not> squash_needed cpu orig prev)"
proof (cases "insttype (opinfo m) = NACLi_INDIRECT")
  case True
  then have len: "inst_length (inst prev) \<noteq> 0" and ind: "indirect5_ok mem prev m amask"
    and al: "modrm_reg (mem (maddr (inst m) + 1)) = 2 \<longrightarrow> call_aligned amask m"
    using ok by (simp_all add: indirect_ok_def)
  then have "ms \<noteq> []" and p: "prev = last ms" using prev by (auto simp: prev_is_def split: if_splits)
  then have ms: "ms = butlast ms @ [prev]" by simp
  have tr: "trace_from T orig 0 vbase (butlast ms @ [prev]) (mpc m)"
    and agree: "agree_from (mpc m) (squash cpu orig (butlast ms @ [prev])) orig"
    using call mem ms by (simp_all add: action_call_def)
  have pm: "maddr (inst prev) = mpc prev" "maddr (inst m) = mpc m"
    using trace_from_decoded [OF tr, of prev] action_call_decoded [OF call] by (simp_all add: decoded_def)
  have ne: "squash cpu orig (butlast ms @ [prev]) (mpc prev) \<noteq> kNaClFullStop"
    using ind ms mem pm by (auto simp: indirect5_ok_def Let_def kNaClFullStop_def)
  note s = squash_last [OF tr ne agree, folded ms, folded mem]
  have o: "mem (mpc m + k) = orig (mpc m + k)" for k
    using agree_fromD [OF agree, of "mpc m + k"] ms mem by simp
  have "indirect5_ok orig prev m amask"
    using ind s(2) [of 0] s(2) [of 1] s(2) [of 2] o [of 0] o [of 1]
    by (simp add: indirect5_ok_def Let_def pm)
  then show ?thesis using len al o [of 1] s(1) True by (simp add: indirect_ok_def pm)
qed (simp add: indirect_ok_def)


lemma squash_snoc:
  "squash cpu orig (ms @ [m]) = (if squash_needed cpu orig m
     then memset (squash cpu orig ms) (mpc m) kNaClFullStop (inst_length (inst m)) else squash cpu orig ms)"
  by (auto simp: squash_def memset_def fun_eq_iff)

lemma val_inv_step:
  assumes call: "action_call T orig vbase lim ms m buf i mem" and inv: "val_inv orig v0 ms mem v"
    and nf: "\<not> failed (snd (ValidateInst buf i mem v))"
  shows "val_inv orig v0 (ms @ [m]) (fst (ValidateInst buf i mem v)) (snd (ValidateInst buf i mem v))"
proof -
  let ?prev = "PreviousInst buf i (- 1)" and ?v' = "snd (ValidateInst buf i mem v)"
  have m: "buf ! i = m" and prev: "prev_is ms ?prev" and agree: "agree_from (mpc m) mem orig"
    using call by (simp_all add: action_call_def)
  have maddr: "mpc m \<le> maddr (inst m)" "maddr (inst m) = mpc m"
    using action_call_decoded [OF call] by (simp_all add: decoded_def)
  have fr: "same_frame v0 v" and tb0: "tables_ok v0" and mem: "mem = squash (cpufeatures v0) orig ms"
    using inv by (simp_all add: val_inv_def)
  then have f: "iadrbase v = iadrbase v0" "iadrlimit v = iadrlimit v0" "cpufeatures v = cpufeatures v0"
    "alignmask v = alignmask v0" and tb: "tables_ok v"
    by (simp_all add: same_frame_def tables_ok_def)
  have rng: "in_range v a = in_range v0 a" "trampoline v a = trampoline v0 a" for a
    by (simp_all add: in_range_def trampoline_def f)
  note eff = ValidateInst_effect [OF m refl tb nf, unfolded inst_effect_def f direct_target_local [OF agree maddr(1)]
      squash_needed_local [OF agree maddr(1)]]
  have ind: "indirect_ok (alignmask v0) orig ?prev m \<and>
      (insttype (opinfo m) = NACLi_INDIRECT \<longrightarrow> \<not> squash_needed (cpufeatures v0) orig ?prev)"
    by (rule indirect_ok_orig [OF call mem prev]) (use eff in \<open>simp add: inst_checked_def\<close>)
  have chk: "inst_checked (alignmask v0) orig ?prev m"
    using eff ind jump_ok_local [OF agree maddr(1)] by (simp add: inst_checked_def)
  have all: "all_checked (alignmask v0) (cpufeatures v0) orig (ms @ [m])"
    by (rule all_checked_snoc [OF _ prev chk]) (use inv ind in \<open>simp_all add: val_inv_def\<close>)
  have memory: "fst (ValidateInst buf i mem v) = squash (cpufeatures v0) orig (ms @ [m])"
    using eff by (simp add: squash_snoc mem maddr)
  have frame: "same_frame v0 ?v'" using eff fr same_frame_trans by blast
  have bits: "(\<forall>j. tbl_bit (vttable v) j \<longleftrightarrow> tbl_bit (vttable v0) j \<or>
        (\<exists>m \<in> set ms. insttype (opinfo m) \<noteq> NACLi_INDIRECT \<and> j = unat (vaddr (inst m) - iadrbase v0)))"
    "(\<forall>j. tbl_bit (kttable v) j \<longleftrightarrow> tbl_bit (kttable v0) j \<or>
        (\<exists>m \<in> set ms. \<exists>a. direct_target orig m = Some a \<and> in_range v0 a \<and> j = unat (a - iadrbase v0)))"
    "\<forall>m \<in> set ms. in_range v0 (vaddr (inst m)) \<and>
        (\<forall>a. direct_target orig m = Some a \<longrightarrow> in_range v0 a \<or> trampoline v0 a)"
    using inv by (simp_all add: val_inv_def)
  have vt: "\<forall>j. tbl_bit (vttable ?v') j \<longleftrightarrow> tbl_bit (vttable v0) j \<or>
        (\<exists>m \<in> set (ms @ [m]). insttype (opinfo m) \<noteq> NACLi_INDIRECT \<and> j = unat (vaddr (inst m) - iadrbase v0))"
    using eff bits(1) by auto
  have kt: "\<forall>j. tbl_bit (kttable ?v') j \<longleftrightarrow> tbl_bit (kttable v0) j \<or>
        (\<exists>m \<in> set (ms @ [m]). \<exists>a. direct_target orig m = Some a \<and> in_range v0 a \<and> j = unat (a - iadrbase v0))"
    using eff bits(2) by (auto simp: targets_added_def rng f)
  have tg: "\<forall>m \<in> set (ms @ [m]). in_range v0 (vaddr (inst m)) \<and>
        (\<forall>a. direct_target orig m = Some a \<longrightarrow> in_range v0 a \<or> trampoline v0 a)"
    using eff bits(3) by (auto simp: targets_added_def rng)
  show ?thesis
    unfolding val_inv_def using tb0 frame vt kt tg all memory by blast
qed

lemma validator_callbacks_simps [simp]:
  "g_DecoderAction validator_callbacks = ValidateInst"
  "g_NewSegment validator_callbacks = Stats_NewSegment"
  "g_SegFault validator_callbacks = Stats_SegFault"
  "g_InternalError validator_callbacks = Stats_InternalError"
  by (simp_all add: validator_callbacks_def NCDecodeRegisterCallbacks_def)

lemma ValidateInst_writes:
  "maddr (inst (buf ! i)) + inst_length (inst (buf ! i)) \<le> j \<Longrightarrow> fst (ValidateInst buf i mem v) j = mem j"
  by (simp add: ValidateInst_unfold Let_def memset_def)

interpretation validator: decoder_client validator_callbacks T orig vbase lim "\<lambda>v. geometry v = geometry v0" failed
    "val_inv orig v0"
  for T orig vbase lim v0
proof unfold_locales
  fix v assume "geometry v = geometry v0"
  then show "geometry (g_InternalError validator_callbacks v) = geometry v0" by (simp add: geometry_Stats)
next
  fix v assume "geometry v = geometry v0"
  then show "geometry (g_SegFault validator_callbacks v) = geometry v0" by (simp add: geometry_Stats)
next
  fix v buf i mem assume "geometry v = geometry v0"
  then show "geometry (snd (g_DecoderAction validator_callbacks buf i mem v)) = geometry v0"
    by (simp add: geometry_ValidateInst)
next
  fix v show "failed (g_InternalError validator_callbacks v)" by (simp add: Stats_defs)
next
  fix v show "failed (g_SegFault validator_callbacks v)" by (simp add: Stats_defs)
next
  fix v buf i mem assume "failed v"
  then show "failed (snd (g_DecoderAction validator_callbacks buf i mem v))" by (simp add: failed_ValidateInst)
next
  fix i j :: nat and buf :: "NCDecoderState list" and mem v
  assume "mpc (buf ! i) = maddr (inst (buf ! i))" "mpc (buf ! i) + inst_length (inst (buf ! i)) \<le> j"
  then show "fst (g_DecoderAction validator_callbacks buf i mem v) j = mem j" by (simp add: ValidateInst_writes)
next
  fix ms m buf i mem v
  assume "action_call T orig vbase lim ms m buf i mem" "val_inv orig v0 ms mem v"
  then show "failed (snd (g_DecoderAction validator_callbacks buf i mem v)) \<or>
      val_inv orig v0 (ms @ [m]) (fst (g_DecoderAction validator_callbacks buf i mem v))
        (snd (g_DecoderAction validator_callbacks buf i mem v))"
    using val_inv_step by simp
qed


section \<open>The contract of an accepted image\<close>

text \<open>Where control may be transferred to: the start of an instruction that is not a masked
  indirect jump.\<close>

definition safe_target :: "NCDecoderState list \<Rightarrow> u32 \<Rightarrow> bool" where
  "safe_target ms a \<longleftrightarrow> (\<exists>m \<in> set ms. insttype (opinfo m) \<noteq> NACLi_INDIRECT \<and> vaddr (inst m) = a)"

definition trampoline_target :: "u32 \<Rightarrow> u32 \<Rightarrow> bool" where
  "trampoline_target vbase t \<longleftrightarrow>
     t < vbase \<and> vbase - NACL_TRAMPOLINE_END \<le> t \<and> t AND (NACL_INSTR_BLOCK_SIZE - 1) = 0"

definition sandboxed ::
    "decode_tables \<Rightarrow> CPUFeatures \<Rightarrow> memory \<Rightarrow> u32 \<Rightarrow> nat \<Rightarrow> u8 \<Rightarrow> NCDecoderState list \<Rightarrow> bool" where
  "sandboxed T cpu orig vbase sz al ms \<longleftrightarrow>
     0 < sz \<and> orig (sz - 1) = kNaClFullStop \<and>
     trace_from T orig 0 vbase ms (sz - 1) \<and>
     all_checked (ucast al - 1) cpu orig ms \<and>
     (\<forall>m \<in> set ms. \<forall>t. direct_target orig m = Some t \<longrightarrow> safe_target ms t \<or> trampoline_target vbase t) \<and>
     vbase AND (ucast al - 1) = 0 \<and> (al = 16 \<or> al = 32) \<and>
     (\<forall>k. k * unat al < sz \<longrightarrow> safe_target ms (vbase + of_nat (k * unat al)))"

lemma NCValidateInit_Some:
  assumes "snd (NCValidateInit inited mem_ok vbase vlimit al) = Some v"
  shows "vbase < vlimit \<and> (al = 16 \<or> al = 32) \<and> mem_ok = (True, True, True) \<and>
     iadrbase v = vbase AND NOT (ucast al) \<and> iadrlimit v = vlimit \<and> alignment v = al \<and>
     alignmask v = ucast al - 1 \<and> stats v = zero_stats \<and> cpufeatures v = no_features \<and> tables_ok v \<and>
     (\<forall>i < unat (iadrlimit v - iadrbase v). \<not> tbl_bit (vttable v) i \<and> \<not> tbl_bit (kttable v) i)"
proof -
  obtain a b c where mem: "mem_ok = (a, b, c)" by (cases mem_ok)
  let ?base = "vbase AND NOT (ucast al)"
  let ?n = "IATOffset (vlimit - ?base) + 1"
  define v1 where "v1 = calloc_state\<lparr>iadrbase := ?base, iadrlimit := vlimit, alignment := al,
     alignmask := ucast al - 1, vttable := replicate ?n 0, kttable := replicate ?n 0\<rparr>"
  have c: "vbase < vlimit" "al = 16 \<or> al = 32" "a" "b" "c"
    using assms by (auto simp: NCValidateInit_def mem Let_def not_le split: if_splits)
  have "snd (Stats_Init inited v1) = v1"
    by (simp add: Stats_Init_def v1_def calloc_state_def InitOpcodeHisto_def zero_stats_def)
  then obtain x where p: "Stats_Init inited v1 = (x, v1)" by (metis prod.collapse)
  have "\<not> vlimit \<le> vbase" "\<not> (al \<noteq> 16 \<and> al \<noteq> 32)" "a = True" "b = True" "c = True" using c by auto
  then have "NCValidateInit inited mem_ok vbase vlimit al = (x, Some v1)"
    unfolding NCValidateInit_def mem Let_def v1_def [symmetric] by (simp add: p)
  then have v: "v = v1" using assms by simp
  have le: "?base \<le> vlimit" using word_and_le2 [of vbase "NOT (ucast al)"] c(1) by simp
  have n: "?n = unat (vlimit - ?base) div 8 + 1" by (simp add: IATOffset_div)
  have "i < ?n * 8" if "i < unat (vlimit - ?base)" for i using that unfolding n by simp
  then have bits: "\<not> tbl_bit (replicate ?n (0 :: u8)) i" if "i < unat (vlimit - ?base)" for i
    using that tbl_bit_replicate_0 [where 'a = 8, of i ?n] by simp
  then show ?thesis
    using c le n unfolding v by (simp add: v1_def tables_ok_def mem calloc_state_def)
qed

lemma NCValidateSegment_Some:
  assumes seg: "NCValidateSegment cpu T mem vbase sz v = Some (Inr (mem', v'))" and nf: "\<not> failed v'"
    and v: "stats v = zero_stats" "tables_ok v" and room: "unat vbase + unat sz + 32 \<le> 2 ^ 32"
    and cpu: "features = GetCPUFeatures (fst cpu) (snd cpu) (cpufeatures v)"
  shows "0 < unat sz \<and> f_386 features \<and> mem' (unat sz - 1) = kNaClFullStop \<and>
     (\<exists>ms v0. trace_from T mem 0 vbase ms (unat sz - 1) \<and> val_inv mem v0 ms mem' v' \<and>
        same_tables (v\<lparr>cpufeatures := features, stats := (stats v)\<lparr>segments := 1\<rparr>\<rparr>) v0)"
proof -
  have sz: "sz \<noteq> 0" using seg nf by (auto simp: NCValidateSegment_def failed_Stats)
  define v1 where "v1 = v\<lparr>cpufeatures := features\<rparr>"
  define v0 where "v0 = Stats_NewSegment v1"
  have ok: "f_386 features"
    using seg nf sz failed_Stats(11) by (auto simp: NCValidateSegment_def Let_def cpu [symmetric] split: if_splits)
  have lim: "unat (sz - 1) = unat sz - 1" "0 < unat sz"
    using sz by (simp_all add: unat_minus_one unat_gt_0)
  have v0: "v0 = v1\<lparr>stats := zero_stats\<lparr>segments := 1\<rparr>\<rparr>"
    using v(1) by (simp add: v0_def Stats_NewSegment_def v1_def zero_stats_def Let_def)
  have inv0: "val_inv mem v0 [] mem v0"
    using v(2) by (auto simp: val_inv_def v0 v1_def tables_ok_def same_frame_def all_checked_def squash_def)
  have size: "unat vbase + (unat sz - 1) + 19 < 2 ^ 32" using room lim by simp
  from validator.NCDecodeSegment_trace [where v = v1 and orig = mem and T = T and ?v0.0 = v0, OF size] inv0
  obtain r where r: "NCDecodeSegment validator_callbacks T mem vbase (of_nat (unat sz - 1)) v1 = Some r"
    "\<And>m' v'. r = Inr (m', v') \<Longrightarrow> failed v' \<or> (\<exists>ms. trace_from T mem 0 vbase ms (unat sz - 1) \<and> val_inv mem v0 ms m' v')"
    by (auto simp: v0_def [symmetric])
  have "of_nat (unat sz - 1) = sz - 1" unfolding lim(1) [symmetric] by simp
  note r = r(1) [unfolded this] r(2)
  have seg1: "(case r of Inl f \<Rightarrow> Some (Inl f) | Inr (m, w) \<Rightarrow>
      Some (Inr (m, if m (unat sz - 1) \<noteq> kNaClFullStop then Stats_MissingFullStop w else w))) = Some (Inr (mem', v'))"
    using seg sz ok r(1)
    by (simp add: NCValidateSegment_def Let_def cpu [symmetric] v1_def [symmetric] lim(1))
       (auto simp: v1_def lim(1) split: sum.splits prod.splits if_splits)
  then obtain w where w: "r = Inr (mem', w)"
    "v' = (if mem' (unat sz - 1) \<noteq> kNaClFullStop then Stats_MissingFullStop w else w)"
    by (auto split: sum.splits)
  then have "mem' (unat sz - 1) = kNaClFullStop" "v' = w"
    using nf failed_Stats(9) by (auto split: if_splits)
  moreover from this r(2) [OF w(1)] nf
  obtain ms where "trace_from T mem 0 vbase ms (unat sz - 1)" "val_inv mem v0 ms mem' v'" by blast
  moreover have "same_tables (v\<lparr>cpufeatures := features, stats := (stats v)\<lparr>segments := 1\<rparr>\<rparr>) v0"
    by (simp add: same_tables_def same_frame_def v0 v1_def)
  ultimately show ?thesis using lim ok by blast
qed


lemma sandboxed_intro:
  assumes init: "snd (NCValidateInit inited mem_ok vbase (vbase + sz) al) = Some v"
    and cpu: "features = GetCPUFeatures (fst cpu) (snd cpu) no_features"
    and seg: "NCValidateSegment cpu T mem vbase sz v = Some (Inr (mem', v1))"
    and fin: "NCValidateFinish (Some v1) = Some (0, v2)"
    and room: "unat vbase + unat sz + 32 \<le> 2 ^ 32"
  shows "f_386 features \<and> (\<exists>ms. sandboxed T features mem vbase (unat sz) al ms \<and> mem' = squash features mem ms)"
proof -
  note i = NCValidateInit_Some [OF init]
  have end_eq: "unat (vbase + sz) = unat vbase + unat sz" using room by (simp add: unat_plus_u32)
  have st: "stats v = zero_stats" "tables_ok v" "cpufeatures v = no_features" using i by simp_all
  have al: "0 < unat al" "unat al \<le> 32" using i by auto
  have nf: "\<not> failed v1" using NCValidateFinish_failed [OF fin] by blast
  have "features = GetCPUFeatures (fst cpu) (snd cpu) (cpufeatures v)" using cpu st(3) by simp
  from NCValidateSegment_Some [OF seg nf st(1,2) room this]
  obtain ms v0 where sz: "0 < unat sz" and ok: "f_386 features" and hlt: "mem' (unat sz - 1) = kNaClFullStop"
    and tr: "trace_from T mem 0 vbase ms (unat sz - 1)" and inv: "val_inv mem v0 ms mem' v1"
    and st0: "same_tables (v\<lparr>cpufeatures := features, stats := (stats v)\<lparr>segments := 1\<rparr>\<rparr>) v0" by blast
  have f0: "iadrbase v0 = iadrbase v" "iadrlimit v0 = vbase + sz" "alignmask v0 = ucast al - 1"
    "cpufeatures v0 = features" "vttable v0 = vttable v" "kttable v0 = kttable v" "alignment v0 = al"
    using st0 i by (simp_all add: same_tables_def same_frame_def)
  then have f1: "iadrbase v1 = iadrbase v" "iadrlimit v1 = vbase + sz" "alignmask v1 = ucast al - 1" "alignment v1 = al"
    using inv by (simp_all add: val_inv_def same_frame_def)
  have base_le: "iadrbase v \<le> vbase" using i word_and_le2 [of vbase "NOT (ucast al)"] by simp
  define n where "n = unat (vbase + sz - iadrbase v)"
  have n: "n = unat vbase + unat sz - unat (iadrbase v)"
    using base_le by (simp add: n_def unat_minus_u32 end_eq word_le_nat_alt)
  have "n + unat al \<le> 2 ^ 32" using n room al by simp
  then obtain v' where "NCValidateFinish (Some v1) = Some (sawfailure (stats v'), Some v')"
    and "\<not> failed v' \<longleftrightarrow> \<not> failed v1 \<and> iadrbase v AND (ucast al - 1) = 0 \<and>
       (\<forall>i < n. tbl_bit (kttable v1) i \<longrightarrow> tbl_bit (vttable v1) i) \<and>
       (\<forall>k. k * unat al < n \<longrightarrow> tbl_bit (vttable v1) (k * unat al))"
    using NCValidateFinish_ok [of v1] al by (auto simp: f1 n_def)
  then have fin1: "iadrbase v AND (ucast al - 1) = 0" "\<And>i. i < n \<Longrightarrow> tbl_bit (kttable v1) i \<Longrightarrow> tbl_bit (vttable v1) i"
    "\<And>k. k * unat al < n \<Longrightarrow> tbl_bit (vttable v1) (k * unat al)"
    using fin by auto
  have zero: "\<not> tbl_bit (vttable v0) j" "\<not> tbl_bit (kttable v0) j" if "j < n" for j
    using that i by (simp_all add: f0 n_def)
  have vt: "\<exists>m \<in> set ms. insttype (opinfo m) \<noteq> NACLi_INDIRECT \<and> j = unat (vaddr (inst m) - iadrbase v)"
    if "tbl_bit (vttable v1) j" "j < n" for j
    using inv zero(1) [OF that(2)] that(1) by (auto simp: val_inv_def f0)
  have vaddr: "unat vbase \<le> unat (vaddr (inst m))" if "m \<in> set ms" for m
  proof -
    have "vaddr (inst m) = vbase + of_nat (mpc m)" "mpc m \<le> unat sz - 1"
      using trace_from_mem [OF tr that] trace_from_decoded [OF tr that] by (simp_all add: decoded_def)
    then show ?thesis using room unat_vpc [of vbase "mpc m"] by simp
  qed
  have "0 < n" using n sz base_le by (simp add: word_le_nat_alt)
  then obtain m0 where m0: "m0 \<in> set ms" "unat (vaddr (inst m0) - iadrbase v) = 0"
    using vt [OF fin1(3) [of 0]] by auto
  then have "vaddr (inst m0) = iadrbase v" by (simp add: unat_eq_0)
  with vaddr [OF m0(1)] base_le have base: "iadrbase v = vbase" by (simp add: word_le_nat_alt word_unat_eq_iff)
  have n_sz: "n = unat sz" using n base by simp
  have safe: "safe_target ms a" if "tbl_bit (vttable v1) (unat (a - vbase))" "unat (a - vbase) < n" for a
    using vt [OF that] by (auto simp: safe_target_def base word_unat_eq_iff [symmetric])
  have targets: "safe_target ms t \<or> trampoline_target vbase t" if "m \<in> set ms" "direct_target mem m = Some t" for m t
  proof (cases "in_range v0 t")
    case True
    then have off: "unat (t - vbase) < n" using in_range_offset [OF True] by (simp add: f0 n_def base)
    then have "tbl_bit (kttable v1) (unat (t - vbase))"
      using inv that True by (auto simp: val_inv_def f0 base)
    then show ?thesis using safe fin1(2) off by blast
  next
    case False
    then have "trampoline v0 t" using inv that by (auto simp: val_inv_def)
    then show ?thesis by (simp add: trampoline_def trampoline_target_def f0 base)
  qed
  have blocks: "safe_target ms (vbase + of_nat (k * unat al))" if "k * unat al < unat sz" for k
  proof -
    have "k * unat al < 2 ^ 32" using that u32_lt [of sz] by simp
    then have "unat (of_nat (k * unat al) :: u32) = k * unat al" by (simp only: unat_of_nat) simp
    then show ?thesis using safe [of "vbase + of_nat (k * unat al)"] fin1(3) [of k] that by (simp add: n_sz)
  qed
  have mem': "mem' = squash features mem ms" using inv by (simp add: val_inv_def f0)
  have "mem (unat sz - 1) = kNaClFullStop"
  proof -
    have "\<not> (mpc m \<le> unat sz - 1 \<and> unat sz - 1 < mpc m + inst_length (inst m))" if "m \<in> set ms" for m
      using trace_from_mem [OF tr that] by simp
    then have "squash features mem ms (unat sz - 1) = mem (unat sz - 1)"
      unfolding squash_def by (metis (no_types, lifting))
    then show ?thesis using hlt mem' by simp
  qed
  then have "sandboxed T features mem vbase (unat sz) al ms"
    unfolding sandboxed_def
    using sz tr inv targets fin1(1) i blocks by (simp add: val_inv_def f0 base)
  then show ?thesis using ok mem' by blast
qed

end
