(* ===== verification/Nc_Image.thy ===== *)
theory Nc_Image
  imports Nc_Safety
begin

text \<open>
  What \<open>NaClValidateImage\<close> guarantees: it returns; an accepted image is sandboxed; and control
  that enters an accepted image at a block boundary stays on checked instruction starts, halts,
  or leaves through a trampoline or to a block boundary outside (the step relation \<open>cf_step\<close>).
\<close>

section \<open>Acceptance\<close>

lemma NaClValidateImage_accept:
  assumes "NaClValidateImage cpu T False inited mem_ok mem_start text_bytes align_boundary mem
             = Some (Inr (mem', LOAD_OK))"
    and "unat (mem_start + NACL_TRAMPOLINE_END) + unat text_bytes + 32 \<le> 2 ^ 32"
  shows "let features = GetCPUFeatures (fst cpu) (snd cpu) no_features
         in f_386 features \<and>
            (\<exists>ms. sandboxed T features mem (mem_start + NACL_TRAMPOLINE_END) (unat text_bytes)
                    (word_of_int align_boundary) ms \<and>
                  mem' = squash features mem ms)"
proof -
  let ?memp = "mem_start + NACL_TRAMPOLINE_END"
  have r: "\<not> ?memp + text_bytes < ?memp" using assms(1) by (auto simp: NaClValidateImage_def Let_def)
  then obtain v where v: "snd (NCValidateInit inited mem_ok ?memp (?memp + text_bytes) (word_of_int align_boundary)) = Some v"
    using assms(1) by (auto simp: NaClValidateImage_def Let_def split: option.splits)
  then obtain v1 where v1: "NCValidateSegment cpu T mem ?memp text_bytes v = Some (Inr (mem', v1))"
    and "\<exists>v2. NCValidateFinish (Some v1) = Some (0, v2)"
    using assms(1) r
    by (auto simp: NaClValidateImage_def Let_def split: option.splits sum.splits prod.splits if_splits)
  then obtain v2 where v2: "NCValidateFinish (Some v1) = Some (0, v2)" by blast
  show ?thesis
    unfolding Let_def by (rule sandboxed_intro [OF v refl v1 v2 assms(2)])
qed

text \<open>C5: Soundness of the validator. When \<open>NaClValidateImage\<close> accepts a text segment (the result
  of validation is not ignored, and the segment ends at least 32 bytes below 4 GiB), the segment
  is a sequence of instructions, each decoded where its predecessor ends, up to a final HLT byte.
  Every instruction has passed the checks (allowed type, prefixes and length; an indirect jump is
  a register jump right after the matching mask instruction, calls end on a block boundary); every
  direct jump goes to the start of an instruction that is not a masked jump, or to an aligned
  trampoline address; every block boundary is such a start; and the text in memory is the original
  one, except that instructions the processor does not support are overwritten with HLT.\<close>

theorem NaClValidateImage_sandboxed:
  assumes "NaClValidateImage cpu T False inited mem_ok mem_start text_bytes align_boundary mem
             = Some (Inr (mem', LOAD_OK))"
    and "unat (mem_start + NACL_TRAMPOLINE_END) + unat text_bytes + 32 \<le> 2 ^ 32"
  shows "let features = GetCPUFeatures (fst cpu) (snd cpu) no_features
         in f_386 features \<and>
            (\<exists>ms. sandboxed T features mem (mem_start + NACL_TRAMPOLINE_END) (unat text_bytes)
                    (word_of_int align_boundary) ms \<and>
                  mem' = squash features mem ms)"
  by (rule NaClValidateImage_accept [OF assms])

lemma NCValidateSegment_returns:
  assumes v: "stats v = zero_stats" "tables_ok v" and room: "unat vbase + unat sz + 32 \<le> 2 ^ 32"
  shows "\<exists>r. NCValidateSegment cpu T mem vbase sz v = Some r \<and>
             (\<forall>mem' v'. r = Inr (mem', v') \<longrightarrow> geometry v' = geometry v)"
proof (cases "sz = 0 \<or> \<not> f_386 (GetCPUFeatures (fst cpu) (snd cpu) (cpufeatures v))")
  case True
  then show ?thesis by (auto simp: NCValidateSegment_def Let_def geometry_Stats) (auto simp: geometry_def Stats_defs)
next
  case False
  define v1 where "v1 = v\<lparr>cpufeatures := GetCPUFeatures (fst cpu) (snd cpu) (cpufeatures v)\<rparr>"
  define v0 where "v0 = Stats_NewSegment v1"
  have v0: "v0 = v1\<lparr>stats := zero_stats\<lparr>segments := 1\<rparr>\<rparr>"
    using v(1) by (simp add: v0_def Stats_NewSegment_def v1_def zero_stats_def Let_def)
  have inv0: "val_inv mem v0 [] mem v0"
    using v(2) by (auto simp: val_inv_def v0 v1_def tables_ok_def same_frame_def all_checked_def squash_def)
  have lim: "unat (sz - 1) = unat sz - 1" "0 < unat sz"
    using False by (simp_all add: unat_minus_one unat_gt_0)
  have size: "unat vbase + (unat sz - 1) + 19 < 2 ^ 32" using room lim by simp
  have g: "geometry v0 = geometry v" by (simp add: v0_def geometry_Stats v1_def) (simp add: geometry_def)
  have "of_nat (unat sz - 1) = sz - 1" unfolding lim(1) [symmetric] by simp
  with validator.NCDecodeSegment_trace [where v = v1 and orig = mem and T = T and ?v0.0 = v0, OF size] inv0 g
  obtain r where "NCDecodeSegment validator_callbacks T mem vbase (sz - 1) v1 = Some r"
    "\<And>m' v'. r = Inr (m', v') \<Longrightarrow> geometry v' = geometry v"
    by (auto simp: v0_def [symmetric])
  moreover have "f_386 (cpufeatures v1)" using False by (simp add: v1_def)
  ultimately show ?thesis
    using False by (cases r) (auto simp: NCValidateSegment_def Let_def v1_def [symmetric] geometry_Stats)
qed

text \<open>The validator returns or stops in the decoder's \<open>assert\<close>, whatever the tables are.\<close>

lemma NaClValidateImage_total:
  assumes "unat (mem_start + NACL_TRAMPOLINE_END) + unat text_bytes + 32 \<le> 2 ^ 32"
  shows "\<exists>r. NaClValidateImage cpu T ign inited mem_ok mem_start text_bytes align_boundary mem = Some r"
proof -
  let ?memp = "mem_start + NACL_TRAMPOLINE_END"
  have e: "unat (?memp + text_bytes) = unat ?memp + unat text_bytes" using assms by (simp add: unat_plus_u32)
  then have r: "\<not> ?memp + text_bytes < ?memp" by (simp add: word_less_nat_alt)
  show ?thesis
  proof (cases "snd (NCValidateInit inited mem_ok ?memp (?memp + text_bytes) (word_of_int align_boundary))")
    case None
    then show ?thesis using r by (simp add: NaClValidateImage_def Let_def)
  next
    case (Some v)
    note i = NCValidateInit_Some [OF Some]
    have st: "stats v = zero_stats" "tables_ok v" using i by simp_all
    from NCValidateSegment_returns [OF st assms, of cpu T mem]
    obtain s where s: "NCValidateSegment cpu T mem ?memp text_bytes v = Some s"
      "\<And>mem' v'. s = Inr (mem', v') \<Longrightarrow> geometry v' = geometry v" by blast
    show ?thesis
    proof (cases s)
      case (Inl f)
      then show ?thesis using r Some s(1) by (simp add: NaClValidateImage_def Let_def)
    next
      case (Inr p)
      obtain mem1 v1 where p: "p = (mem1, v1)" by (cases p)
      have g: "iadrlimit v1 = ?memp + text_bytes" "alignment v1 = word_of_int align_boundary" "iadrbase v1 = iadrbase v"
        using s(2) [of mem1 v1] Inr p i by (simp_all add: geometry_def)
      have "iadrlimit v = ?memp + text_bytes" "tables_ok v" using i by simp_all
      then have "iadrbase v \<le> ?memp + text_bytes" by (simp add: tables_ok_def)
      then have "unat (iadrlimit v1 - iadrbase v1) \<le> unat ?memp + unat text_bytes"
        by (simp add: g unat_minus_u32 e word_le_nat_alt)
      moreover have "unat (alignment v1) \<le> 32 \<and> 0 < unat (alignment v1)" using i g(2) by auto
      ultimately obtain v2 where "NCValidateFinish (Some v1) = Some (sawfailure (stats v2), Some v2)"
        using NCValidateFinish_ok [of v1] assms by auto
      then show ?thesis using r Some s(1) Inr p by (simp add: NaClValidateImage_def Let_def)
    qed
  qed
qed

end
