(* ===== verification/Nc_Flow.thy ===== *)
theory Nc_Flow
  imports Nc_Image
begin

text \<open>
  Control flow of an accepted image. A machine state is the program counter and the register
  that the last instruction has masked to a block boundary, if any. \<open>cf_step\<close> over-approximates
  what the processor may do: an unmasked indirect jump, or a near jump whose target the validator
  did not compute, may go anywhere. A squashed instruction and the final HLT stop the machine.
\<close>

section \<open>The machine\<close>

text \<open>The register that \<open>m\<close> masks: \<open>and $~amask, %reg\<close>.\<close>

definition masked_reg :: "u32 \<Rightarrow> memory \<Rightarrow> NCDecoderState \<Rightarrow> u8 option" where
  "masked_reg amask mem m =
     (let a = maddr (inst m)
      in if prefixbytes (inst m) = 0 \<and> mem a = 0x83 \<and> mem (a + 1) AND 0xf8 = 0xe0 \<and>
            ucast (mem (a + 2)) = 0x0ff AND NOT amask
         then Some (modrm_rm (mem (a + 1))) else None)"

definition jump_reg :: "memory \<Rightarrow> NCDecoderState \<Rightarrow> u8" where
  "jump_reg mem m = modrm_rm (mem (maddr (inst m) + 1))"

definition is_jump :: "NCDecoderState \<Rightarrow> bool" where
  "is_jump m \<longleftrightarrow> insttype (opinfo m) = NACLi_JMP8 \<or> insttype (opinfo m) = NACLi_JMPZ"

inductive cf_step ::
    "u32 \<Rightarrow> CPUFeatures \<Rightarrow> memory \<Rightarrow> NCDecoderState list \<Rightarrow> u32 \<times> u8 option \<Rightarrow> u32 \<times> u8 option \<Rightarrow> bool"
  for amask :: u32 and cpu :: CPUFeatures and mem :: memory and ms :: "NCDecoderState list" where
  sequential: "m \<in> set ms \<Longrightarrow> \<not> squash_needed cpu mem m \<Longrightarrow> \<not> is_jump m \<Longrightarrow>
     insttype (opinfo m) \<noteq> NACLi_INDIRECT \<Longrightarrow>
     cf_step amask cpu mem ms (vaddr (inst m), r) (next_pc m, masked_reg amask mem m)"
| not_taken: "m \<in> set ms \<Longrightarrow> is_jump m \<Longrightarrow> cf_step amask cpu mem ms (vaddr (inst m), r) (next_pc m, None)"
| taken: "m \<in> set ms \<Longrightarrow> is_jump m \<Longrightarrow> direct_target mem m = Some t \<Longrightarrow>
     cf_step amask cpu mem ms (vaddr (inst m), r) (t, None)"
| unknown: "m \<in> set ms \<Longrightarrow> is_jump m \<Longrightarrow> direct_target mem m = None \<Longrightarrow>
     cf_step amask cpu mem ms (vaddr (inst m), r) (t, None)"
| indirect: "m \<in> set ms \<Longrightarrow> insttype (opinfo m) = NACLi_INDIRECT \<Longrightarrow> r = Some (jump_reg mem m) \<Longrightarrow>
     t AND amask = 0 \<Longrightarrow> cf_step amask cpu mem ms (vaddr (inst m), r) (t, None)"
| unmasked: "m \<in> set ms \<Longrightarrow> insttype (opinfo m) = NACLi_INDIRECT \<Longrightarrow> r \<noteq> Some (jump_reg mem m) \<Longrightarrow>
     cf_step amask cpu mem ms (vaddr (inst m), r) (t, None)"

inductive_cases cf_stepE [consumes 1]: "cf_step amask cpu mem ms (pc, r) s'"

inductive cf_reachable ::
    "u32 \<Rightarrow> CPUFeatures \<Rightarrow> memory \<Rightarrow> NCDecoderState list \<Rightarrow> u32 \<Rightarrow> u32 \<times> u8 option \<Rightarrow> bool"
  for amask :: u32 and cpu :: CPUFeatures and mem :: memory and ms :: "NCDecoderState list" and entry :: u32 where
  entry: "cf_reachable amask cpu mem ms entry (entry, None)"
| step: "cf_reachable amask cpu mem ms entry s \<Longrightarrow> cf_step amask cpu mem ms s s' \<Longrightarrow>
     cf_reachable amask cpu mem ms entry s'"

section \<open>The invariant\<close>

text \<open>Either an instruction start, with the register masked if an indirect jump is next; or the
  final HLT; or outside the image, at a trampoline or a block boundary.\<close>

definition cf_safe ::
    "u32 \<Rightarrow> u32 \<Rightarrow> nat \<Rightarrow> memory \<Rightarrow> NCDecoderState list \<Rightarrow> u32 \<times> u8 option \<Rightarrow> bool" where
  "cf_safe amask vbase sz mem ms s \<longleftrightarrow>
     (\<exists>m \<in> set ms. vaddr (inst m) = fst s \<and>
        (insttype (opinfo m) = NACLi_INDIRECT \<longrightarrow> snd s = Some (jump_reg mem m))) \<or>
     fst s = vbase + of_nat (sz - 1) \<or>
     trampoline_target vbase (fst s) \<or>
     (fst s AND amask = 0 \<and> \<not> (vbase \<le> fst s \<and> fst s < vbase + of_nat sz))"

lemma modrm_rm_masked:
  assumes "b = 0xe0 OR modrm_rm c"
  shows "b AND 0xf8 = 0xe0 \<and> modrm_rm b = modrm_rm c"
proof -
  have "b AND 0xf8 = (0xe0 AND 0xf8) OR (c AND (0x07 AND 0xf8))"
    unfolding assms modrm_rm_def by (simp only: bit.conj_disj_distrib2 and.assoc)
  moreover have "modrm_rm b = (0xe0 AND 0x07) OR (c AND (0x07 AND 0x07))"
    unfolding assms modrm_rm_def by (simp only: bit.conj_disj_distrib2 and.assoc)
  ultimately show ?thesis by (simp add: modrm_rm_def)
qed

text \<open>The instruction after \<open>m\<close> starts where \<open>m\<close> ends, and has been checked against \<open>m\<close>.\<close>

lemma next_instruction:
  assumes s: "sandboxed T cpu mem vbase sz al ms" and room: "unat vbase + sz + 32 \<le> 2 ^ 32"
    and m: "m \<in> set ms"
  obtains (last) "next_pc m = vbase + of_nat (sz - 1)"
    | (inst) m' where "m' \<in> set ms" "vaddr (inst m') = next_pc m"
        "inst_checked (ucast al - 1) mem m m'" "insttype (opinfo m') = NACLi_INDIRECT \<Longrightarrow> \<not> squash_needed cpu mem m"
proof -
  have tr: "trace_from T mem 0 vbase ms (sz - 1)" and chk: "all_checked (ucast al - 1) cpu mem ms"
    using s by (simp_all add: sandboxed_def)
  have va: "vaddr (inst x) = vbase + of_nat (mpc x)" if "x \<in> set ms" for x
    using trace_from_mem [OF tr that] trace_from_decoded [OF tr that] by (simp add: decoded_def)
  have np: "next_pc m = vbase + of_nat (mpc m + inst_length (inst m))"
    using va [OF m] by (simp add: next_pc_def add.assoc)
  obtain xs ys where ms: "ms = xs @ m # ys" using m by (meson split_list)
  show thesis
  proof (cases ys)
    case Nil
    then have "mpc m + inst_length (inst m) = sz - 1" using trace_from_last [of T mem 0 vbase xs m] tr ms by simp
    then show thesis using last np by simp
  next
    case (Cons m' zs)
    then have ms': "ms = (xs @ [m]) @ m' # zs" using ms by simp
    have "mpc m' = mpc m + inst_length (inst m)" using trace_from_next [of T mem 0 vbase xs m m' zs] tr ms Cons by simp
    then have "vaddr (inst m') = next_pc m" using va [of m'] ms' np by simp
    moreover obtain prev where "prev_is (xs @ [m]) prev" "inst_checked (ucast al - 1) mem prev m'"
      "insttype (opinfo m') = NACLi_INDIRECT \<longrightarrow> \<not> squash_needed cpu mem prev"
      using chk ms' unfolding all_checked_def by blast
    moreover from this have "prev = m" by (simp add: prev_is_def)
    ultimately show thesis using inst [of m'] ms' by simp
  qed
qed

text \<open>The end of a direct jump is never a masked jump: its first byte is not that of the mask
  instruction.\<close>

lemma jump_not_mask:
  assumes "jump_ok amask mem m" and "is_jump m" and "prefixbytes (inst m) = 0"
  shows "mem (maddr (inst m)) \<noteq> 0x83"
  using assms by (auto simp: jump_ok_def is_jump_def Let_def)

lemma block_in_image:
  assumes s: "sandboxed T cpu mem vbase sz al ms" and room: "unat vbase + sz + 32 \<le> 2 ^ 32"
    and a: "a AND (ucast al - 1) = 0" and r: "vbase \<le> a" "a < vbase + of_nat sz"
  shows "safe_target ms a"
proof -
  obtain n where n: "ucast al - 1 = (mask n :: u32)" "unat al = 2 ^ n"
  proof -
    have "al = 16 \<or> al = 32" using s by (simp add: sandboxed_def)
    then show thesis
    proof
      assume "al = 16" then show thesis by (intro that [of 4]) (simp_all add: mask_eq_exp_minus_1)
    next
      assume "al = 32" then show thesis by (intro that [of 5]) (simp_all add: mask_eq_exp_minus_1)
    qed
  qed
  have dvd: "unat x mod 2 ^ n = 0" if "x AND (ucast al - 1) = 0" for x :: u32
  proof -
    have "take_bit n x = 0" using that n(1) by (simp add: take_bit_eq_mask)
    then have "unat (take_bit n x) = 0" by simp
    then show ?thesis unfolding unsigned_take_bit_eq by (simp add: take_bit_eq_mod)
  qed
  have e: "unat (vbase + of_nat sz) = unat vbase + sz" using room by (simp add: unat_vpc)
  have le: "unat vbase \<le> unat a" "unat a < unat vbase + sz"
    using r e by (simp_all add: word_le_nat_alt word_less_nat_alt)
  have "vbase AND (ucast al - 1) = 0" using s by (simp add: sandboxed_def)
  then have "2 ^ n dvd unat a - unat vbase" using dvd a by (simp add: dvd_diff_nat mod_eq_0_iff_dvd)
  then obtain k where k: "unat a - unat vbase = k * unat al" using n(2) by (metis dvd_def mult.commute)
  then have "k * unat al < sz" using le by linarith
  then have "safe_target ms (vbase + of_nat (k * unat al))" using s by (simp add: sandboxed_def)
  moreover have "vbase + of_nat (k * unat al) = a"
    unfolding k [symmetric] using le by (simp add: of_nat_diff)
  ultimately show ?thesis by simp
qed

lemma safe_target_cf_safe: "safe_target ms a \<Longrightarrow> cf_safe amask vbase sz mem ms (a, r)"
  by (auto simp: safe_target_def cf_safe_def)


lemma cf_step_safe:
  assumes s: "sandboxed T cpu mem vbase sz al ms" and room: "unat vbase + sz + 32 \<le> 2 ^ 32"
    and known: "\<And>m. m \<in> set ms \<Longrightarrow> is_jump m \<Longrightarrow> direct_target mem m \<noteq> None"
    and step: "cf_step (ucast al - 1) cpu mem ms st st'" and safe: "cf_safe (ucast al - 1) vbase sz mem ms st"
  shows "cf_safe (ucast al - 1) vbase sz mem ms st'"
proof -
  have tr: "trace_from T mem 0 vbase ms (sz - 1)" and sz: "0 < sz" using s by (simp_all add: sandboxed_def)
  have va: "vaddr (inst x) = vbase + of_nat (mpc x)" "mpc x < sz - 1" if "x \<in> set ms" for x
    using trace_from_mem [OF tr that] trace_from_decoded [OF tr that] by (simp_all add: decoded_def)
  have ua: "unat (vaddr (inst x)) = unat vbase + mpc x" if "x \<in> set ms" for x
    using va [OF that] room by (simp add: unat_vpc)
  have inj: "x = y" if "x \<in> set ms" "y \<in> set ms" "vaddr (inst x) = vaddr (inst y)" for x y
  proof -
    have "unat (vaddr (inst x)) = unat vbase + mpc x" "unat (vaddr (inst y)) = unat vbase + mpc y"
      by (rule ua [OF that(1)], rule ua [OF that(2)])
    then have "mpc x = mpc y" using that(3) by simp
    then show ?thesis
      using trace_from_mem [OF tr that(1)] trace_from_mem [OF tr that(2)] by (metis diff_zero sum.inject(2))
  qed
  have masked: "snd st = Some (jump_reg mem m)"
    if m: "m \<in> set ms" "vaddr (inst m) = fst st" "insttype (opinfo m) = NACLi_INDIRECT" for m
  proof -
    have u: "unat (vaddr (inst m)) = unat vbase + mpc m" using va [OF m(1)] room by (simp add: unat_vpc)
    have "fst st \<noteq> vbase + of_nat (sz - 1)"
    proof
      assume "fst st = vbase + of_nat (sz - 1)"
      moreover have "unat (vbase + of_nat (sz - 1) :: u32) = unat vbase + (sz - 1)" using room by (simp add: unat_vpc)
      ultimately show False using u m(2) va(2) [OF m(1)] by simp
    qed
    moreover have r: "vbase \<le> fst st" "fst st < vbase + of_nat sz"
      using u m(2) va(2) [OF m(1)] room by (simp_all add: word_le_nat_alt word_less_nat_alt unat_vpc)
    moreover from r(1) have "\<not> trampoline_target vbase (fst st)" by (auto simp: trampoline_target_def)
    ultimately show ?thesis using safe m inj [OF m(1)] unfolding cf_safe_def by metis
  qed
  have ne: "\<not> (is_jump m \<and> insttype (opinfo m') = NACLi_INDIRECT \<and> inst_checked (ucast al - 1) mem m m')"
    if "m \<in> set ms" for m m'
  proof
    assume a: "is_jump m \<and> insttype (opinfo m') = NACLi_INDIRECT \<and> inst_checked (ucast al - 1) mem m m'"
    then have "prefixbytes (inst m) = 0" "mem (maddr (inst m)) = 0x83"
      by (simp_all add: inst_checked_def indirect_ok_def indirect5_ok_def Let_def)
    moreover have "jump_ok (ucast al - 1) mem m"
      using s that unfolding sandboxed_def all_checked_def inst_checked_def by (meson split_list)
    ultimately show False using a jump_not_mask by blast
  qed
  from step show ?thesis
  proof cases
    case (sequential m r)
    from s room sequential(3) show ?thesis
    proof (cases rule: next_instruction)
      case last
      then show ?thesis by (simp add: cf_safe_def sequential)
    next
      case (inst m')
      have "masked_reg (ucast al - 1) mem m = Some (jump_reg mem m')" if "insttype (opinfo m') = NACLi_INDIRECT"
      proof -
        have i: "indirect5_ok mem m m' (ucast al - 1)" using inst(3) that by (simp add: inst_checked_def indirect_ok_def)
        then have "mem (maddr (inst m) + 1) = 0xe0 OR modrm_rm (mem (maddr (inst m') + 1))"
          by (simp add: indirect5_ok_def Let_def)
        from modrm_rm_masked [OF this] i show ?thesis
          by (simp add: masked_reg_def jump_reg_def indirect5_ok_def Let_def)
      qed
      then show ?thesis using inst by (auto simp: cf_safe_def sequential)
    qed
  next
    case (not_taken m r)
    from s room not_taken(3) show ?thesis
    proof (cases rule: next_instruction)
      case last
      then show ?thesis by (simp add: cf_safe_def not_taken)
    next
      case (inst m')
      then have "insttype (opinfo m') \<noteq> NACLi_INDIRECT" using ne [OF not_taken(3)] not_taken by blast
      then show ?thesis using inst by (auto simp: cf_safe_def not_taken)
    qed
  next
    case (taken m t r)
    then have "safe_target ms t \<or> trampoline_target vbase t" using s by (auto simp: sandboxed_def)
    then show ?thesis using safe_target_cf_safe by (auto simp: taken cf_safe_def safe_target_def)
  next
    case (unknown m r t)
    then show ?thesis using known by blast
  next
    case (indirect m r t)
    then show ?thesis
      using block_in_image [OF s room, of t] safe_target_cf_safe by (auto simp: cf_safe_def safe_target_def)
  next
    case (unmasked m r t)
    then show ?thesis using masked [of m] by simp
  qed
qed


section \<open>Near jumps whose target is not computed\<close>

text \<open>\<open>ValidateJmpz\<close> says nothing about a two-byte near jump other than 0F 80 .. 0F 8F. The tables
  must have none.\<close>

definition jmpz_tables :: "decode_tables \<Rightarrow> bool" where
  "jmpz_tables T \<longleftrightarrow>
     insttype (kDecode1ByteOp T kTwoByteOpcodeByte1) \<noteq> NACLi_JMPZ \<and>
     (\<forall>b. insttype (kDecode0FXXOp T b) = NACLi_JMPZ \<longrightarrow> b AND 0xf0 = 0x80) \<and>
     (\<forall>b. insttype (kDecode660FXXOp T b) \<noteq> NACLi_JMPZ \<and> insttype (kDecodeF20FXXOp T b) \<noteq> NACLi_JMPZ \<and>
          insttype (kDecodeF30FXXOp T b) \<noteq> NACLi_JMPZ \<and> insttype (kDecode0F38Op T b) \<noteq> NACLi_JMPZ \<and>
          insttype (kDecode660F38Op T b) \<noteq> NACLi_JMPZ \<and> insttype (kDecodeF20F38Op T b) \<noteq> NACLi_JMPZ \<and>
          insttype (kDecode0F3AOp T b) \<noteq> NACLi_JMPZ \<and> insttype (kDecode660F3AOp T b) \<noteq> NACLi_JMPZ \<and>
          insttype (kDecode0F0FOp T b) \<noteq> NACLi_JMPZ) \<and>
     (\<forall>i b. insttype (kDecodeX87Op T i b) \<noteq> NACLi_JMPZ \<and> insttype (kDecodeModRMOp T i b) \<noteq> NACLi_JMPZ)"

text \<open>The type of the current entry is not a near jump, or it is one of 0F 80 .. 0F 8F.\<close>

definition jmpz_known :: "memory \<Rightarrow> NCDecoderState \<Rightarrow> bool" where
  "jmpz_known mem m \<longleftrightarrow>
     (insttype (opinfo m) = NACLi_JMPZ \<longrightarrow> mem (maddr (inst m) + prefixbytes (inst m)) = 0x0f \<longrightarrow>
        mem (maddr (inst m) + prefixbytes (inst m) + 1) AND 0xf0 = 0x80)"

lemma prefixes_position:
  "nextbyte m = maddr (inst m) + prefixbytes (inst m) \<Longrightarrow>
     nextbyte (consume_prefixes T mem k m) =
       maddr (inst (consume_prefixes T mem k m)) + prefixbytes (inst (consume_prefixes T mem k m))"
  by (induction k arbitrary: m) (simp_all add: Let_def)

lemma jmpz_opcode3:
  assumes "jmpz_tables T" and "insttype (opinfo m) \<noteq> NACLi_JMPZ"
  shows "insttype (opinfo (consume_opcode3 T mem b m)) \<noteq> NACLi_JMPZ"
  using assms by (simp add: consume_opcode3_def Let_def ErrorInternal_def jmpz_tables_def)

lemma jmpz_opcode:
  assumes T: "jmpz_tables T" and pos: "nextbyte m = maddr (inst m) + prefixbytes (inst m)"
  shows "jmpz_known mem (ConsumeOpcodeBytes T mem m)"
proof (cases "mem (nextbyte m) = kTwoByteOpcodeByte1")
  case False
  then show ?thesis
    by (simp add: jmpz_known_def ConsumeOpcodeBytes_def Let_def pos kTwoByteOpcodeByte1_def)
next
  case True
  let ?m1 = "m\<lparr>opinfo := kDecode1ByteOp T kTwoByteOpcodeByte1, nextbyte := Suc (nextbyte m)\<rparr>"
  let ?b = "mem (Suc (nextbyte m))"
  obtain oi m2 where e: "GetExtendedOpInfo T ?m1 ?b = (oi, m2)" by fastforce
  have oi: "insttype oi = NACLi_JMPZ \<longrightarrow> ?b AND 0xf0 = 0x80"
    and i: "maddr (inst m2) = maddr (inst m)" "prefixbytes (inst m2) = prefixbytes (inst m)"
    using e T by (auto simp: GetExtendedOpInfo_def Let_def ErrorInternal_def jmpz_tables_def split: if_splits)
  define m3 where "m3 = m2\<lparr>opinfo := oi, inst := (inst m2)\<lparr>hasopbyte2 := True\<rparr>, nextbyte := Suc (nextbyte m2)\<rparr>"
  have op3: "insttype (opinfo (consume_opcode3 T mem ?b m3)) \<noteq> NACLi_JMPZ" if "insttype oi = NACLi_3BYTE"
    by (rule jmpz_opcode3 [OF T]) (simp add: m3_def that)
  show ?thesis
    using True e oi i op3 pos by (auto simp: jmpz_known_def ConsumeOpcodeBytes_def Let_def m3_def)
qed

lemma jmpz_modrm:
  assumes T: "jmpz_tables T" and k: "jmpz_known mem m" and r: "ConsumeModRM T mem m = Inr m'"
  shows "jmpz_known mem m'"
proof (cases "hasmrmbyte (opinfo m) = 0")
  case True
  then show ?thesis using r k by (simp add: ConsumeModRM_def)
next
  case False
  from r False obtain m3 where g: "modrm_group T (modrm_byte T mem m) = Inr m3" and m': "m' = modrm_disp m3"
    by (auto simp: ConsumeModRM_def bind_result_eq_Inr)
  have k1: "jmpz_known mem (modrm_byte T mem m)"
    using k T by (simp add: jmpz_known_def modrm_byte_def Let_def GetX87OpInfo_def ErrorInternal_def jmpz_tables_def)
  have "insttype (opinfo m3) \<noteq> NACLi_JMPZ \<or> opinfo m3 = opinfo (modrm_byte T mem m)"
    using g T by (auto simp: modrm_group_def Let_def jmpz_tables_def split: if_splits)
  moreover note modrm_group_frame [OF g]
  ultimately have "jmpz_known mem m3" using k1 by (auto simp: jmpz_known_def)
  then show ?thesis by (simp add: m' jmpz_known_def modrm_disp_def Let_def)
qed

lemma ConsumeSIB_frame:
  "opinfo (ConsumeSIB mem m) = opinfo m" "maddr (inst (ConsumeSIB mem m)) = maddr (inst m)"
  "prefixbytes (inst (ConsumeSIB mem m)) = prefixbytes (inst m)"
  by (simp_all add: ConsumeSIB_def Let_def ErrorInternal_def)

lemma ConsumeID_frame:
  "opinfo (ConsumeID m) = opinfo m" "maddr (inst (ConsumeID m)) = maddr (inst m)"
  "prefixbytes (inst (ConsumeID m)) = prefixbytes (inst m)"
  by (simp_all add: ConsumeID_def Let_def ErrorInternal_def)

lemma jmpz_decode:
  assumes T: "jmpz_tables T" and d: "decode_inst T mem (blank_state a p) = Inr m"
  shows "jmpz_known mem m"
proof -
  define m1 where "m1 = ConsumeOpcodeBytes T mem (ConsumePrefixBytes T mem (InitDecoder (blank_state a p)))"
  from d obtain m2 where m2: "ConsumeModRM T mem m1 = Inr m2"
    and m: "m = MaybeGet3ByteOpInfo T mem (ConsumeID (ConsumeSIB mem m2))"
    by (auto simp: decode_inst_def m1_def [symmetric] bind_result_eq_Inr)
  have "jmpz_known mem m1"
    unfolding m1_def ConsumePrefixBytes_def
    by (intro jmpz_opcode [OF T] prefixes_position) (simp add: InitDecoder_def blank_state_def)
  from jmpz_modrm [OF T this m2] have "jmpz_known mem m2" .
  then have "jmpz_known mem (ConsumeID (ConsumeSIB mem m2))"
    by (simp add: jmpz_known_def ConsumeID_frame ConsumeSIB_frame)
  then show ?thesis using T by (simp add: m jmpz_known_def MaybeGet3ByteOpInfo_def Let_def jmpz_tables_def)
qed

lemma known_targets:
  assumes T: "jmpz_tables T" and s: "sandboxed T cpu mem vbase sz al ms" and m: "m \<in> set ms" "is_jump m"
  shows "direct_target mem m \<noteq> None"
proof -
  have tr: "trace_from T mem 0 vbase ms (sz - 1)" using s by (simp add: sandboxed_def)
  have "jmpz_known mem m" using trace_from_mem [OF tr m(1)] jmpz_decode [OF T] by blast
  moreover have "jump_ok (ucast al - 1) mem m"
    using s m(1) unfolding sandboxed_def all_checked_def inst_checked_def by (meson split_list)
  ultimately show ?thesis
    using m(2) by (auto simp: jmpz_known_def jump_ok_def is_jump_def direct_target_def Let_def)
qed

text \<open>Control flow of an accepted image, for tables that have no near jump besides E8, E9 and
  0F 80 .. 0F 8F.\<close>

lemma sandboxed_flow:
  assumes s: "sandboxed T features mem vbase (unat text_bytes) al ms" and room: "unat vbase + unat text_bytes + 32 \<le> 2 ^ 32"
    and T: "jmpz_tables T" and entry: "entry AND (ucast al - 1) = 0" "vbase \<le> entry" "entry < vbase + text_bytes"
    and run: "cf_reachable (ucast al - 1) features mem ms entry s"
  shows "cf_safe (ucast al - 1) vbase (unat text_bytes) mem ms s"
  using run
proof induction
  case entry
  have "entry < vbase + of_nat (unat text_bytes)" using assms(6) by simp
  from block_in_image [OF s room assms(4,5) this] show ?case by (rule safe_target_cf_safe)
next
  case (step s s')
  then show ?case using cf_step_safe [OF s room] known_targets [OF T s] by blast
qed

lemma accepted_flow:
  assumes "NaClValidateImage cpu T False inited mem_ok mem_start text_bytes align_boundary mem
             = Some (Inr (mem', LOAD_OK))"
    and "unat (mem_start + NACL_TRAMPOLINE_END) + unat text_bytes + 32 \<le> 2 ^ 32"
    and "jmpz_tables T"
    and "entry AND (ucast (word_of_int align_boundary :: u8) - 1) = 0"
    and "mem_start + NACL_TRAMPOLINE_END \<le> entry" and "entry < mem_start + NACL_TRAMPOLINE_END + text_bytes"
  shows "let features = GetCPUFeatures (fst cpu) (snd cpu) no_features;
             vbase = mem_start + NACL_TRAMPOLINE_END;
             al = word_of_int align_boundary :: u8;
             amask = ucast al - 1
         in \<exists>ms. sandboxed T features mem vbase (unat text_bytes) al ms \<and>
              (\<forall>s. cf_reachable amask features mem ms entry s \<longrightarrow>
                 cf_safe amask vbase (unat text_bytes) mem ms s)"
proof -
  let ?f = "GetCPUFeatures (fst cpu) (snd cpu) no_features" and ?vb = "mem_start + NACL_TRAMPOLINE_END"
    and ?al = "word_of_int align_boundary :: u8"
  obtain ms where s: "sandboxed T ?f mem ?vb (unat text_bytes) ?al ms"
    using NaClValidateImage_accept [OF assms(1,2)] by (auto simp: Let_def)
  have "cf_safe (ucast ?al - 1) ?vb (unat text_bytes) mem ms s" if "cf_reachable (ucast ?al - 1) ?f mem ms entry s" for s
    by (rule sandboxed_flow [OF s assms(2-6) that])
  then show ?thesis using s by (auto simp: Let_def)
qed

end
