(* ===== verification/Nc_Table_Props.thy ===== *)
theory Nc_Table_Props
  imports Nc_Table_Data Nc_Flow
begin

text \<open>
  What the generated decoding tables contain. A property of single entries (by table, byte, type
  and immediate) holds of the finished tables when every \<open>Encode\<close> call respects it
  (\<open>run_calls_inv\<close>); the calls are then checked one list at a time. \<open>nacl_tables\<close> are the tables of
  the 32-bit build, with which the safety theorems of the validator need no assumption on tables.
\<close>

section \<open>Properties of entries\<close>

type_synonym op_prop = "op_table \<Rightarrow> u8 \<Rightarrow> NaClInstType \<Rightarrow> NCDecodeImmediateType \<Rightarrow> bool"
type_synonym mrm_prop = "u8 \<Rightarrow> u8 \<Rightarrow> NaClInstType \<Rightarrow> bool"
type_synonym in_mrm_prop = "op_table \<Rightarrow> u8 \<Rightarrow> bool"

fun call_ok :: "RunMode \<Rightarrow> op_prop \<Rightarrow> mrm_prop \<Rightarrow> in_mrm_prop \<Rightarrow> table_call \<Rightarrow> bool" where
  "call_ok flags Q QM QG (Encode tbl byte mrmbyte imm itype mode) = (mode_on flags mode \<longrightarrow> Q tbl byte itype imm)"
| "call_ok flags Q QM QG (EncodeMRM grp nnn itype mode) = (mode_on flags mode \<longrightarrow> QM grp nnn itype)"
| "call_ok flags Q QM QG (SetX87Type tab byte itype) = (itype = NACLi_FCMOV)"
| "call_ok flags Q QM QG (SetInMRM tbl byte grp) = QG tbl byte"
| "call_ok flags Q QM QG _ = True"

definition x87_type :: "NaClInstType \<Rightarrow> bool" where
  "x87_type ty \<longleftrightarrow> ty = NACLi_INVALID \<or> ty = NACLi_X87 \<or> ty = NACLi_FCMOV"

lemma x87_types: "x87_type NACLi_INVALID" "x87_type NACLi_X87" "x87_type NACLi_FCMOV"
  by (simp_all add: x87_type_def)

definition entries_ok :: "op_prop \<Rightarrow> mrm_prop \<Rightarrow> in_mrm_prop \<Rightarrow> meta_tables \<Rightarrow> bool" where
  "entries_ok Q QM QG T \<longleftrightarrow>
     (\<forall>tbl b e. g_Op T tbl b = Some e \<longrightarrow> Q tbl b (insttype e) (op_immtype e) \<and> (opinmrm e \<noteq> 0 \<longrightarrow> QG tbl b)) \<and>
     (\<forall>grp n e. g_ModRMOpTable T grp n = Some e \<longrightarrow> QM grp n (insttype e) \<and> opinmrm e = 0 \<and> op_immtype e = IMM_NONE) \<and>
     (\<forall>tab b e. g_Op87 T tab b = Some e \<longrightarrow>
        x87_type (insttype e) \<and> opinmrm e = 0)"

lemma Update_frame:
  "g_Op (UpdateDecodeOpsKind g b k T) = g_Op T"
  "g_ModRMOpTable (UpdateDecodeOpsKind g b k T) = g_ModRMOpTable T"
  "g_Op87 (UpdateDecodeOpsKind g b k T) = g_Op87 T"
  "g_PrefixTable (UpdateDecodeOpsKind g b k T) = g_PrefixTable T"
  by (simp_all add: UpdateDecodeOpsKind_def Let_def)

lemma exec_call_inv:
  assumes "exec_call flags c T = Inr T'" and "call_ok flags Q QM QG c" and "entries_ok Q QM QG T"
  shows "entries_ok Q QM QG T'"
proof (cases c)
  case (Encode t b r i ty md)
  then show ?thesis using assms by (auto simp: entries_ok_def NewMetaDefn_def split: if_splits)
next
  case (EncodeMRM g n ty md)
  then show ?thesis using assms by (auto simp: entries_ok_def NewMetaDefn_def split: if_splits)
next
  case (EncodePrefix b n md)
  then show ?thesis using assms by (auto simp: entries_ok_def split: if_splits)
next
  case (SetInMRM t b g)
  then show ?thesis using assms by (auto simp: entries_ok_def split: option.splits if_splits)
next
  case (SetOpsKind g b k)
  then show ?thesis using assms by (auto simp: entries_ok_def Update_frame)
next
  case (EncodeX87 t s1 s2)
  then show ?thesis
    using assms by (auto simp: entries_ok_def EncodeModed87Op_def NewMetaDefn_def x87_types split: if_splits)
next
  case (SetX87Type t b ty)
  then show ?thesis using assms by (auto simp: entries_ok_def x87_types split: option.splits if_splits)
qed

lemma run_calls_inv:
  "run_calls flags cs T = Inr T' \<Longrightarrow> list_all (call_ok flags Q QM QG) cs \<Longrightarrow> entries_ok Q QM QG T \<Longrightarrow>
     entries_ok Q QM QG T'"
proof (induction cs arbitrary: T)
  case (Cons c cs)
  then obtain T1 where T1: "exec_call flags c T = Inr T1" "run_calls flags cs T1 = Inr T'"
    by (auto simp: bind_result_eq_Inr)
  have "entries_ok Q QM QG T1" using exec_call_inv [OF T1(1)] Cons.prems by simp
  from Cons.IH [OF T1(2) _ this] Cons.prems show ?case by simp
qed simp

lemma initial_entries: "entries_ok Q QM QG InitializeGlobalTables"
  by (simp add: entries_ok_def InitializeGlobalTables_def)

lemmas call_defs = EncodeModedOp_def EncodeOp_def EncodeModedPrefixName_def EncodePrefixName_def
  EncodeOpRegs_def SetOpDefaultSize64_def SetOpForceSize64_def EncodeModedOp0F_def EncodeOp0F_def
  SetOp0FDefaultSize64_def SetOp0FForceSize64_def EncodeOp660F_def EncodeOpF20F_def EncodeOpF30F_def
  EncodeOp0F0F_def EncodeOp0F38_def EncodeOp660F38_def EncodeOpF20F38_def EncodeOp0F3A_def
  EncodeOp660F3A_def EncodeModRMOp_def EncodeModRMOpRegs_def SetModRMOpDefaultSize64_def
  SetModRMOpForceSize64_def SetOpOpInMRM_def SetOp0FOpInMRM_def SetOp66OpInMRM_def
  ALUOperandVariants00_05_def OneRegVariants00_07_def Encode87Op_def

section \<open>Jumps, privileged instructions, immediates\<close>

text \<open>Opcodes of one byte that the sandbox must never contain: software interrupts and returns
  from them, port input and output, near and far returns, far calls and jumps, loads of segment
  registers, and the interrupt flag.\<close>

definition forbidden_opcodes :: "u8 list" where
  "forbidden_opcodes = [0xcc, 0xcd, 0xce, 0xcf, 0xf1, 0xe4, 0xe5, 0xe6, 0xe7, 0xec, 0xed, 0xee, 0xef,
     0x6c, 0x6d, 0x6e, 0x6f, 0xc2, 0xc3, 0xca, 0xcb, 0x9a, 0xea, 0x8c, 0x8e, 0xc4, 0xc5,
     0x06, 0x07, 0x0e, 0x16, 0x17, 0x1e, 0x1f, 0xfa, 0xfb, 0x9c, 0x9d, 0x63]"

text \<open>The same after the escape byte 0F: system calls, segment and control registers, descriptor
  tables, model-specific registers, cache invalidation.\<close>

definition forbidden_opcodes_0F :: "u8 list" where
  "forbidden_opcodes_0F = [0x02, 0x03, 0x05, 0x06, 0x07, 0x08, 0x09, 0x0b, 0x20, 0x21, 0x22, 0x23,
     0x30, 0x32, 0x33, 0x34, 0x35, 0xa0, 0xa1, 0xa8, 0xa9, 0xaa, 0xb2, 0xb4, 0xb5]"

fun two_byte_table :: "op_table \<Rightarrow> bool" where
  "two_byte_table g_Op0FXXMetaTable = True" | "two_byte_table g_Op660FXXTable = True"
| "two_byte_table g_OpF20FXXTable = True" | "two_byte_table g_OpF30FXXTable = True"
| "two_byte_table _ = False"

definition entry_rule :: op_prop where
  "entry_rule tbl b ty imm \<longleftrightarrow>
     imm \<noteq> IMM_UNKNOWN \<and> ty \<noteq> NACLi_INDIRECT \<and>
     (ty = NACLi_JMPZ \<longrightarrow> tbl = g_Op1ByteTable \<and> (b = 0xe8 \<or> b = 0xe9) \<or>
                        tbl = g_Op0FXXMetaTable \<and> b AND 0xf0 = 0x80) \<and>
     (ty = NACLi_JMP8 \<longrightarrow> tbl = g_Op1ByteTable \<and> (b AND 0xf0 = 0x70 \<or> b = 0xeb)) \<and>
     (tbl = g_Op1ByteTable \<and> b \<in> set forbidden_opcodes \<longrightarrow> \<not> allowed_type ty) \<and>
     (two_byte_table tbl \<and> b \<in> set forbidden_opcodes_0F \<longrightarrow> \<not> allowed_type ty \<and> ty \<noteq> NACLi_3BYTE)"

definition in_mrm_rule :: in_mrm_prop where
  "in_mrm_rule tbl b \<longleftrightarrow> (tbl = g_Op1ByteTable \<longrightarrow> b \<notin> set forbidden_opcodes) \<and>
     (two_byte_table tbl \<longrightarrow> b \<notin> set forbidden_opcodes_0F)"

definition mrm_rule :: mrm_prop where
  "mrm_rule grp n ty \<longleftrightarrow>
     ty \<noteq> NACLi_JMPZ \<and> ty \<noteq> NACLi_JMP8 \<and> (ty = NACLi_INDIRECT \<longrightarrow> grp = 5 \<and> n \<in> {2, 3, 4, 5})"

lemmas rule_defs = call_defs mode_on_def entry_rule_def mrm_rule_def in_mrm_rule_def forbidden_opcodes_def forbidden_opcodes_0F_def

lemma calls_BuildMetaTables_1: "list_all (call_ok X86_32 entry_rule mrm_rule in_mrm_rule) BuildMetaTables_1"
  by (simp add: BuildMetaTables_1_def rule_defs)

lemma calls_BuildMetaTables_2: "list_all (call_ok X86_32 entry_rule mrm_rule in_mrm_rule) BuildMetaTables_2"
  by (simp add: BuildMetaTables_2_def rule_defs)

lemma calls_BuildMetaTables_3: "list_all (call_ok X86_32 entry_rule mrm_rule in_mrm_rule) BuildMetaTables_3"
  by (simp add: BuildMetaTables_3_def rule_defs)

lemma calls_BuildMetaTables_4: "list_all (call_ok X86_32 entry_rule mrm_rule in_mrm_rule) BuildMetaTables_4"
  by (simp add: BuildMetaTables_4_def rule_defs)

lemma calls_BuildMetaTables_5: "list_all (call_ok X86_32 entry_rule mrm_rule in_mrm_rule) BuildMetaTables_5"
  by (simp add: BuildMetaTables_5_def rule_defs)

lemma calls_BuildMetaTables_6: "list_all (call_ok X86_32 entry_rule mrm_rule in_mrm_rule) BuildMetaTables_6"
  by (simp add: BuildMetaTables_6_def rule_defs)

lemma calls_BuildMetaTables_7: "list_all (call_ok X86_32 entry_rule mrm_rule in_mrm_rule) BuildMetaTables_7"
  by (simp add: BuildMetaTables_7_def rule_defs)

lemma calls_BuildMetaTables_8: "list_all (call_ok X86_32 entry_rule mrm_rule in_mrm_rule) BuildMetaTables_8"
  by (simp add: BuildMetaTables_8_def rule_defs)

lemma calls_BuildMetaTables_9: "list_all (call_ok X86_32 entry_rule mrm_rule in_mrm_rule) BuildMetaTables_9"
  by (simp add: BuildMetaTables_9_def rule_defs)

lemma calls_BuildMetaTables_10: "list_all (call_ok X86_32 entry_rule mrm_rule in_mrm_rule) BuildMetaTables_10"
  by (simp add: BuildMetaTables_10_def rule_defs)

lemma calls_BuildSSE4Tables: "list_all (call_ok X86_32 entry_rule mrm_rule in_mrm_rule) BuildSSE4Tables"
  by (simp add: BuildSSE4Tables_def rule_defs)

lemma calls_Buildx87Tables: "list_all (call_ok X86_32 entry_rule mrm_rule in_mrm_rule) Buildx87Tables"
  by (simp add: Buildx87Tables_def rule_defs)

lemmas calls_checked = calls_BuildMetaTables_1 calls_BuildMetaTables_2 calls_BuildMetaTables_3 calls_BuildMetaTables_4 calls_BuildMetaTables_5 calls_BuildMetaTables_6 calls_BuildMetaTables_7 calls_BuildMetaTables_8 calls_BuildMetaTables_9 calls_BuildMetaTables_10 calls_BuildSSE4Tables calls_Buildx87Tables

end
