(* ===== verification/Nc_Table_Build.thy ===== *)
theory Nc_Table_Build
  imports Nc_Table_Props
begin

text \<open>
  The generator succeeds: no assertion on an entry that was never defined can fail, and no
  incompatible operand kind is reported. An entry of the finished tables is found by replaying
  only the calls that concern it (\<open>lookup_op\<close>).
\<close>

section \<open>No assertion fails\<close>

fun has_key :: "op_table \<Rightarrow> u8 \<Rightarrow> (op_table \<times> u8) list \<Rightarrow> bool" where
  "has_key t b [] = False"
| "has_key t b (k # ks) = (if k = (t, b) then True else has_key t b ks)"

fun asserts_ok :: "RunMode \<Rightarrow> (op_table \<times> u8) list \<Rightarrow> table_call list \<Rightarrow> bool" where
  "asserts_ok flags D [] = True"
| "asserts_ok flags D (Encode t b mr imm ty mode # cs) =
     asserts_ok flags (if mode_on flags mode then (t, b) # D else D) cs"
| "asserts_ok flags D (SetInMRM t b g # cs) = (if has_key t b D then asserts_ok flags D cs else False)"
| "asserts_ok flags D (SetX87Type tab b ty # cs) = False"
| "asserts_ok flags D (c # cs) = asserts_ok flags D cs"

definition keys_defined :: "(op_table \<times> u8) list \<Rightarrow> meta_tables \<Rightarrow> bool" where
  "keys_defined D T \<longleftrightarrow> (\<forall>t b. has_key t b D \<longrightarrow> g_Op T t b \<noteq> None)"

lemma asserts_ok_runs:
  "asserts_ok flags D cs \<Longrightarrow> keys_defined D T \<Longrightarrow> \<exists>T'. run_calls flags cs T = Inr T'"
proof (induction flags D cs arbitrary: T rule: asserts_ok.induct)
  case (2 flags D t b mr imm ty mode cs)
  let ?T = "T\<lparr>g_Op := (g_Op T)(t := (g_Op T t)(b := Some (NewMetaDefn mr imm ty)))\<rparr>"
  have "keys_defined (if mode_on flags mode then (t, b) # D else D) (if mode_on flags mode then ?T else T)"
    using 2(3) by (auto simp: keys_defined_def)
  from 2(1) [OF _ this] 2(2) show ?case by simp
next
  case (3 flags D t b g cs)
  then have k: "has_key t b D" "asserts_ok flags D cs" by (simp_all split: if_splits)
  then obtain e where e: "g_Op T t b = Some e" using 3(3) by (auto simp: keys_defined_def)
  have "keys_defined D (T\<lparr>g_Op := (g_Op T)(t := (g_Op T t)(b := Some (e\<lparr>opinmrm := g\<rparr>)))\<rparr>)"
    using 3(3) by (auto simp: keys_defined_def)
  from 3(1) [OF k this] show ?case by (simp add: e)
qed (auto simp: keys_defined_def Update_frame)

lemma asserts_BuildMetaTables_1: "asserts_ok flags [] BuildMetaTables_1"
  by (cases flags) (simp_all add: BuildMetaTables_1_def call_defs mode_on_def)

lemma asserts_BuildMetaTables_2: "asserts_ok flags [] BuildMetaTables_2"
  by (cases flags) (simp_all add: BuildMetaTables_2_def call_defs mode_on_def)

lemma asserts_BuildMetaTables_3: "asserts_ok flags [] BuildMetaTables_3"
  by (cases flags) (simp_all add: BuildMetaTables_3_def call_defs mode_on_def)

lemma asserts_BuildMetaTables_4: "asserts_ok flags [] BuildMetaTables_4"
  by (cases flags) (simp_all add: BuildMetaTables_4_def call_defs mode_on_def)

lemma asserts_BuildMetaTables_5: "asserts_ok flags [] BuildMetaTables_5"
  by (cases flags) (simp_all add: BuildMetaTables_5_def call_defs mode_on_def)

lemma asserts_BuildMetaTables_6: "asserts_ok flags [] BuildMetaTables_6"
  by (cases flags) (simp_all add: BuildMetaTables_6_def call_defs mode_on_def)

lemma asserts_BuildMetaTables_7: "asserts_ok flags [] BuildMetaTables_7"
  by (cases flags) (simp_all add: BuildMetaTables_7_def call_defs mode_on_def)

lemma asserts_BuildMetaTables_8: "asserts_ok flags [] BuildMetaTables_8"
  by (cases flags) (simp_all add: BuildMetaTables_8_def call_defs mode_on_def)

lemma asserts_BuildMetaTables_9: "asserts_ok flags [] BuildMetaTables_9"
  by (cases flags) (simp_all add: BuildMetaTables_9_def call_defs mode_on_def)

lemma asserts_BuildMetaTables_10: "asserts_ok flags [] BuildMetaTables_10"
  by (cases flags) (simp_all add: BuildMetaTables_10_def call_defs mode_on_def)

lemma asserts_BuildSSE4Tables: "asserts_ok flags [] BuildSSE4Tables"
  by (cases flags) (simp_all add: BuildSSE4Tables_def call_defs mode_on_def)

text \<open>After \<open>EncodeX87\<close> the whole table of x87 instructions is defined.\<close>

fun x87_asserts_ok :: "u8 list \<Rightarrow> table_call list \<Rightarrow> bool" where
  "x87_asserts_ok D [] = True"
| "x87_asserts_ok D (EncodeX87 tab s1 s2 # cs) = x87_asserts_ok (tab # D) cs"
| "x87_asserts_ok D (SetX87Type tab b ty # cs) = (if tab \<in> set D then x87_asserts_ok D cs else False)"
| "x87_asserts_ok D (c # cs) = False"

lemma EncodeModed87Op_defined: "EncodeModed87Op s1 s2 i \<noteq> None"
  by (simp add: EncodeModed87Op_def)

lemma x87_asserts_ok_runs:
  "x87_asserts_ok D cs \<Longrightarrow> \<forall>tab \<in> set D. \<forall>b. g_Op87 T tab b \<noteq> None \<Longrightarrow> \<exists>T'. run_calls flags cs T = Inr T'"
proof (induction D cs arbitrary: T rule: x87_asserts_ok.induct)
  case (2 D tab s1 s2 cs)
  let ?T = "T\<lparr>g_Op87 := (g_Op87 T)(tab := EncodeModed87Op s1 s2)\<rparr>"
  have "\<forall>t \<in> set (tab # D). \<forall>b. g_Op87 ?T t b \<noteq> None"
    using 2(3) EncodeModed87Op_defined by simp
  from 2(1) [OF _ this] 2(2) show ?case by simp
next
  case (3 D tab b ty cs)
  then have t: "tab \<in> set D" "x87_asserts_ok D cs" by (simp_all split: if_splits)
  then obtain e where e: "g_Op87 T tab b = Some e" using 3(3) by auto
  have "\<forall>t \<in> set D. \<forall>b'. g_Op87 (T\<lparr>g_Op87 := (g_Op87 T)
      (tab := (g_Op87 T tab)(b := Some (e\<lparr>insttype := ty\<rparr>)))\<rparr>) t b' \<noteq> None"
    using 3(3) by auto
  from 3(1) [OF t this] show ?case by (simp add: e)
qed auto

lemma asserts_Buildx87Tables: "x87_asserts_ok [] Buildx87Tables"
  by (simp add: Buildx87Tables_def Encode87Op_def)

lemma run_calls_append:
  "run_calls flags (xs @ ys) T = bind_result (run_calls flags xs T) (run_calls flags ys)"
  by (induction xs arbitrary: T) (auto simp: bind_result_def split: sum.splits)

lemma run_calls_append_ok:
  assumes "\<And>T. \<exists>T'. run_calls flags xs T = Inr T'" and "\<And>T. \<exists>T'. run_calls flags ys T = Inr T'"
  shows "\<exists>T'. run_calls flags (xs @ ys) T = Inr T'"
  using assms(1) [of T] assms(2) by (auto simp: run_calls_append)

lemma no_keys: "keys_defined [] T"
  by (simp add: keys_defined_def)

lemmas calls_run = asserts_ok_runs [OF asserts_BuildMetaTables_1 no_keys] asserts_ok_runs [OF asserts_BuildMetaTables_2 no_keys]
  asserts_ok_runs [OF asserts_BuildMetaTables_3 no_keys] asserts_ok_runs [OF asserts_BuildMetaTables_4 no_keys]
  asserts_ok_runs [OF asserts_BuildMetaTables_5 no_keys] asserts_ok_runs [OF asserts_BuildMetaTables_6 no_keys]
  asserts_ok_runs [OF asserts_BuildMetaTables_7 no_keys] asserts_ok_runs [OF asserts_BuildMetaTables_8 no_keys]
  asserts_ok_runs [OF asserts_BuildMetaTables_9 no_keys] asserts_ok_runs [OF asserts_BuildMetaTables_10 no_keys]
  asserts_ok_runs [OF asserts_BuildSSE4Tables no_keys] x87_asserts_ok_runs [OF asserts_Buildx87Tables, simplified]

lemma BuildMetaTables_Inr: "\<exists>T. BuildMetaTables flags = Inr T"
  unfolding BuildMetaTables_def BuildMetaTables_calls_def by (intro run_calls_append_ok calls_run)

text \<open>C20: The table generator never fails, for either target: each of its updates of an entry
  (\<open>assert\<close> in \<open>SetOpOpInMRM\<close> and its variants, and the pointer updates of the FCMOV
  instructions) finds an entry that an earlier call has defined.\<close>

theorem BuildMetaTables_succeeds: "\<exists>T. BuildMetaTables flags = Inr T"
  by (rule BuildMetaTables_Inr)

section \<open>The finished tables\<close>

definition nacl_tables :: decode_tables where
  "nacl_tables = (case BuildMetaTables X86_32 of
     Inr T \<Rightarrow> PrintDecodeTables T | Inl f \<Rightarrow> PrintDecodeTables InitializeGlobalTables)"

lemma nacl_tables_run:
  obtains T where "run_calls X86_32 BuildMetaTables_calls InitializeGlobalTables = Inr T"
    and "nacl_tables = PrintDecodeTables T"
  using BuildMetaTables_Inr [of X86_32] by (auto simp: nacl_tables_def BuildMetaTables_def)

fun lookup_op :: "RunMode \<Rightarrow> op_table \<Rightarrow> u8 \<Rightarrow> table_call list \<Rightarrow> OpInfo option \<Rightarrow> OpInfo option" where
  "lookup_op flags t b [] e = e"
| "lookup_op flags t b (Encode t' b' mr imm ty mode # cs) e =
     lookup_op flags t b cs (if t' = t \<and> b' = b \<and> mode_on flags mode then Some (NewMetaDefn mr imm ty) else e)"
| "lookup_op flags t b (SetInMRM t' b' g # cs) e =
     lookup_op flags t b cs (if t' = t \<and> b' = b then map_option (opinmrm_update (\<lambda>_. g)) e else e)"
| "lookup_op flags t b (c # cs) e = lookup_op flags t b cs e"

lemma lookup_op_run:
  "run_calls flags cs T = Inr T' \<Longrightarrow> g_Op T' t b = lookup_op flags t b cs (g_Op T t b)"
proof (induction cs arbitrary: T)
  case (Cons c cs)
  then obtain T1 where T1: "exec_call flags c T = Inr T1" "run_calls flags cs T1 = Inr T'"
    by (auto simp: bind_result_eq_Inr)
  show ?case
    using T1 Cons.IH [OF T1(2)] by (cases c) (auto simp: Update_frame split: option.splits if_splits)
qed simp

fun lookup_mrm :: "RunMode \<Rightarrow> u8 \<Rightarrow> u8 \<Rightarrow> table_call list \<Rightarrow> OpInfo option \<Rightarrow> OpInfo option" where
  "lookup_mrm flags g n [] e = e"
| "lookup_mrm flags g n (EncodeMRM g' n' ty mode # cs) e =
     lookup_mrm flags g n cs (if g' = g \<and> n' = n \<and> mode_on flags mode then Some (NewMetaDefn 1 IMM_NONE ty) else e)"
| "lookup_mrm flags g n (c # cs) e = lookup_mrm flags g n cs e"

lemma lookup_mrm_run:
  "run_calls flags cs T = Inr T' \<Longrightarrow> g_ModRMOpTable T' g n = lookup_mrm flags g n cs (g_ModRMOpTable T g n)"
proof (induction cs arbitrary: T)
  case (Cons c cs)
  then obtain T1 where T1: "exec_call flags c T = Inr T1" "run_calls flags cs T1 = Inr T'"
    by (auto simp: bind_result_eq_Inr)
  show ?case
    using T1 Cons.IH [OF T1(2)] by (cases c) (auto simp: Update_frame split: option.splits if_splits)
qed simp

fun lookup_prefix :: "RunMode \<Rightarrow> u8 \<Rightarrow> table_call list \<Rightarrow> u32 \<Rightarrow> u32" where
  "lookup_prefix flags b [] e = e"
| "lookup_prefix flags b (EncodePrefix b' name mode # cs) e =
     lookup_prefix flags b cs (if b' = b \<and> mode_on flags mode then name else e)"
| "lookup_prefix flags b (c # cs) e = lookup_prefix flags b cs e"

lemma lookup_prefix_run:
  "run_calls flags cs T = Inr T' \<Longrightarrow> g_PrefixTable T' b = lookup_prefix flags b cs (g_PrefixTable T b)"
proof (induction cs arbitrary: T)
  case (Cons c cs)
  then obtain T1 where T1: "exec_call flags c T = Inr T1" "run_calls flags cs T1 = Inr T'"
    by (auto simp: bind_result_eq_Inr)
  show ?case
    using T1 Cons.IH [OF T1(2)] by (cases c) (auto simp: Update_frame split: option.splits if_splits)
qed simp

lemma lookup_append:
  "lookup_op flags t b (xs @ ys) e = lookup_op flags t b ys (lookup_op flags t b xs e)"
  "lookup_mrm flags g n (xs @ ys) e = lookup_mrm flags g n ys (lookup_mrm flags g n xs e)"
  "lookup_prefix flags b (xs @ ys) p = lookup_prefix flags b ys (lookup_prefix flags b xs p)"
proof -
  show "lookup_op flags t b (xs @ ys) e = lookup_op flags t b ys (lookup_op flags t b xs e)"
    by (induction flags t b xs e rule: lookup_op.induct) simp_all
  show "lookup_mrm flags g n (xs @ ys) e = lookup_mrm flags g n ys (lookup_mrm flags g n xs e)"
    by (induction flags g n xs e rule: lookup_mrm.induct) simp_all
  show "lookup_prefix flags b (xs @ ys) p = lookup_prefix flags b ys (lookup_prefix flags b xs p)"
    by (induction flags b xs p rule: lookup_prefix.induct) simp_all
qed

end
