(* ===== verification/Nc_Accept.thy ===== *)
theory Nc_Accept
  imports Nc_Table_Build
begin

text \<open>
  The validator with the decoding tables of the repository. The three checks of \<open>Nc_Table_Props\<close>
  hold of every entry of \<open>nacl_tables\<close>, so that the decoder never reaches its \<open>assert\<close>, every near
  jump is one whose target is computed, and no privileged opcode has an allowed type. With them the
  results of \<open>Nc_Image\<close> and \<open>Nc_Flow\<close> need no assumption on the tables.
\<close>

section \<open>Entries of the tables\<close>

lemma built_entries:
  assumes "run_calls X86_32 BuildMetaTables_calls InitializeGlobalTables = Inr T"
  shows "entries_ok entry_rule mrm_rule in_mrm_rule T"
proof (rule run_calls_inv [OF assms _ initial_entries])
  show "list_all (call_ok X86_32 entry_rule mrm_rule in_mrm_rule) BuildMetaTables_calls"
    unfolding BuildMetaTables_calls_def list_all_append by (intro conjI calls_checked)
qed

definition entry_ok :: "op_table \<Rightarrow> u8 \<Rightarrow> OpInfo \<Rightarrow> bool" where
  "entry_ok tbl b e \<longleftrightarrow>
     entry_rule tbl b (insttype e) (op_immtype e) \<and> (opinmrm e \<noteq> 0 \<longrightarrow> in_mrm_rule tbl b)"

definition tables_good :: "decode_tables \<Rightarrow> bool" where
  "tables_good T \<longleftrightarrow>
     (\<forall>b. entry_ok g_Op1ByteTable b (kDecode1ByteOp T b) \<and> entry_ok g_Op0FXXMetaTable b (kDecode0FXXOp T b) \<and>
          entry_ok g_Op660FXXTable b (kDecode660FXXOp T b) \<and> entry_ok g_OpF20FXXTable b (kDecodeF20FXXOp T b) \<and>
          entry_ok g_OpF30FXXTable b (kDecodeF30FXXOp T b) \<and> entry_ok g_Op0F38Table b (kDecode0F38Op T b) \<and>
          entry_ok g_Op660F38Table b (kDecode660F38Op T b) \<and> entry_ok g_OpF20F38Table b (kDecodeF20F38Op T b) \<and>
          entry_ok g_Op0F3ATable b (kDecode0F3AOp T b) \<and> entry_ok g_Op660F3ATable b (kDecode660F3AOp T b) \<and>
          entry_ok g_Op0F0FTable b (kDecode0F0FOp T b)) \<and>
     (\<forall>g n. mrm_rule g n (insttype (kDecodeModRMOp T g n))) \<and>
     (\<forall>i b. insttype (kDecodeX87Op T i b) = NACLi_UNDEFINED \<or> x87_type (insttype (kDecodeX87Op T i b)))"

lemma undefined_rules: "entry_rule tbl b NACLi_UNDEFINED IMM_NONE" "mrm_rule g n NACLi_UNDEFINED"
  by (simp_all add: entry_rule_def mrm_rule_def)

lemma printed_entry:
  assumes "entries_ok entry_rule mrm_rule in_mrm_rule T"
  shows "entry_ok tbl b (PrintDecodeTable (g_Op T tbl) b)"
    and "mrm_rule g n (insttype (PrintDecodeTable (g_ModRMOpTable T g) n))"
    and "insttype (PrintDecodeTable (g_Op87 T i) b) = NACLi_UNDEFINED \<or>
         x87_type (insttype (PrintDecodeTable (g_Op87 T i) b))"
  using assms
  by (simp_all add: entries_ok_def entry_ok_def PrintDecodeTable_def DecodeUndefinedInstInfo_def undefined_rules
      split: option.split)

lemma nacl_tables_good: "tables_good nacl_tables"
proof (rule nacl_tables_run)
  fix T assume r: "run_calls X86_32 BuildMetaTables_calls InitializeGlobalTables = Inr T"
    and T: "nacl_tables = PrintDecodeTables T"
  show ?thesis
    by (simp add: tables_good_def T PrintDecodeTables_def printed_entry [OF built_entries [OF r]])
qed

section \<open>Near jumps\<close>

lemma entry_ok_jmpz:
  "entry_ok tbl b e \<Longrightarrow> insttype e = NACLi_JMPZ \<Longrightarrow>
     tbl = g_Op1ByteTable \<and> (b = 0xe8 \<or> b = 0xe9) \<or> tbl = g_Op0FXXMetaTable \<and> b AND 0xf0 = 0x80"
  by (simp add: entry_ok_def entry_rule_def)

lemma mrm_rule_jmpz: "\<not> mrm_rule g n NACLi_JMPZ"
  by (simp add: mrm_rule_def)

lemma x87_not_jmpz: "ty = NACLi_UNDEFINED \<or> x87_type ty \<Longrightarrow> ty \<noteq> NACLi_JMPZ"
  by (auto simp: x87_type_def)

lemma tables_good_jmpz:
  assumes T: "tables_good T"
  shows "jmpz_tables T"
proof -
  have e: "entry_ok g_Op1ByteTable kTwoByteOpcodeByte1 (kDecode1ByteOp T kTwoByteOpcodeByte1)"
    "entry_ok g_Op0FXXMetaTable b (kDecode0FXXOp T b)"
    "entry_ok g_Op660FXXTable b (kDecode660FXXOp T b)" "entry_ok g_OpF20FXXTable b (kDecodeF20FXXOp T b)"
    "entry_ok g_OpF30FXXTable b (kDecodeF30FXXOp T b)" "entry_ok g_Op0F38Table b (kDecode0F38Op T b)"
    "entry_ok g_Op660F38Table b (kDecode660F38Op T b)" "entry_ok g_OpF20F38Table b (kDecodeF20F38Op T b)"
    "entry_ok g_Op0F3ATable b (kDecode0F3AOp T b)" "entry_ok g_Op660F3ATable b (kDecode660F3AOp T b)"
    "entry_ok g_Op0F0FTable b (kDecode0F0FOp T b)" for b
    using T by (simp_all only: tables_good_def)
  have m: "insttype (kDecodeModRMOp T i b) \<noteq> NACLi_JMPZ" for i b
    using T mrm_rule_jmpz [of i b] unfolding tables_good_def by metis
  have x: "insttype (kDecodeX87Op T i b) \<noteq> NACLi_JMPZ" for i b
    using T x87_not_jmpz [of "insttype (kDecodeX87Op T i b)"] by (simp only: tables_good_def simp_thms)
  show ?thesis
    unfolding jmpz_tables_def using m x e(2-) [THEN entry_ok_jmpz] entry_ok_jmpz [OF e(1)]
    by (auto simp: kTwoByteOpcodeByte1_def)
qed

section \<open>No unknown immediate\<close>

lemma entry_ok_imm: "entry_ok tbl b e \<Longrightarrow> op_immtype e \<noteq> IMM_UNKNOWN"
  by (simp add: entry_ok_def entry_rule_def)

lemma GetExtendedOpInfo_cases:
  assumes "GetExtendedOpInfo T m b = (oi, m')"
  obtains "m' = m" "oi \<in> {kDecode0FXXOp T b, kDecode660FXXOp T b, kDecodeF20FXXOp T b, kDecodeF30FXXOp T b}"
proof -
  let ?p = "prefixmask (inst m)"
  have "?p AND (kPrefixDATA16 OR kPrefixREPNE OR kPrefixREP) =
        (?p AND kPrefixDATA16) OR (?p AND kPrefixREPNE) OR (?p AND kPrefixREP)"
    by (simp only: bit.conj_disj_distrib)
  then show thesis using assms that by (auto simp: GetExtendedOpInfo_def Let_def split: if_splits)
qed

lemma opcode3_opinfo:
  "opinfo (consume_opcode3 T mem b m) \<in>
     {opinfo m, kDecode660F38Op T (mem (nextbyte m)), kDecodeF20F38Op T (mem (nextbyte m)),
      kDecode0F38Op T (mem (nextbyte m)), kDecode660F3AOp T (mem (nextbyte m)), kDecode0F3AOp T (mem (nextbyte m))}"
  by (simp add: consume_opcode3_def Let_def ErrorInternal_def)

lemma opcode_imm:
  assumes T: "tables_good T"
  shows "immtype (inst (ConsumeOpcodeBytes T mem m)) \<noteq> IMM_UNKNOWN"
proof -
  have known: "op_immtype (f b) \<noteq> IMM_UNKNOWN"
    if "f \<in> {kDecode1ByteOp T, kDecode0FXXOp T, kDecode660FXXOp T, kDecodeF20FXXOp T, kDecodeF30FXXOp T,
             kDecode660F38Op T, kDecodeF20F38Op T, kDecode0F38Op T, kDecode660F3AOp T, kDecode0F3AOp T}" for f b
    using that T entry_ok_imm by (auto simp only: tables_good_def insert_iff empty_iff)
  have step: "op_immtype (opinfo (consume_opcode3 T mem b x)) \<noteq> IMM_UNKNOWN"
    if "op_immtype (opinfo x) \<noteq> IMM_UNKNOWN" for b x
    using opcode3_opinfo [of T mem b x] that known by auto
  show ?thesis
  proof (cases "mem (nextbyte m) = kTwoByteOpcodeByte1")
    case False
    then show ?thesis by (simp add: ConsumeOpcodeBytes_def Let_def known)
  next
    case True
    let ?m1 = "m\<lparr>opinfo := kDecode1ByteOp T kTwoByteOpcodeByte1, nextbyte := Suc (nextbyte m)\<rparr>"
    let ?b = "mem (Suc (nextbyte m))"
    obtain oi m2 where e: "GetExtendedOpInfo T ?m1 ?b = (oi, m2)" by fastforce
    from GetExtendedOpInfo_cases [OF e] have "op_immtype oi \<noteq> IMM_UNKNOWN" using known by auto
    then show ?thesis using True e step by (auto simp: ConsumeOpcodeBytes_def Let_def)
  qed
qed

lemma decode_inst_no_assert:
  assumes T: "tables_good T"
  shows "decode_inst T mem m \<noteq> Inl f"
proof -
  have "ConsumeModRM T mem x \<noteq> Inl f" if "immtype (inst x) \<noteq> IMM_UNKNOWN" for x
  proof -
    have "immtype (inst (modrm_byte T mem x)) \<noteq> IMM_UNKNOWN"
      using that by (simp add: modrm_byte_def Let_def GetX87OpInfo_def ErrorInternal_def)
    then show ?thesis by (auto simp: ConsumeModRM_def modrm_group_def Let_def bind_result_def split: if_splits)
  qed
  from this [OF opcode_imm [OF T]] show ?thesis
    by (auto simp: decode_inst_def bind_result_def split: sum.splits)
qed

lemma segment_loop_no_assert:
  "segment_loop g T vlimit buf i mem v = Some r \<Longrightarrow> tables_good T \<longrightarrow> (\<exists>p. r = Inr p)"
  by (rule segment_loop.raw_induct [where P = "\<lambda>g T l b i m v r. tables_good T \<longrightarrow> (\<exists>p. r = Inr p)"])
    (auto simp: Let_def decode_inst_no_assert split: if_splits sum.splits)

section \<open>Forbidden opcodes\<close>

definition barred :: "OpInfo \<Rightarrow> bool" where
  "barred e \<longleftrightarrow> \<not> allowed_type (insttype e) \<and> opinmrm e = 0"

text \<open>The bytes of the opcode, after the prefixes.\<close>

definition opcode_byte :: "memory \<Rightarrow> NCDecoderState \<Rightarrow> nat \<Rightarrow> u8" where
  "opcode_byte mem m k = mem (maddr (inst m) + prefixbytes (inst m) + k)"

definition forbidden :: "memory \<Rightarrow> NCDecoderState \<Rightarrow> bool" where
  "forbidden mem m \<longleftrightarrow>
     (if opcode_byte mem m 0 = 0x0f then opcode_byte mem m 1 \<in> set forbidden_opcodes_0F
      else opcode_byte mem m 0 \<in> set forbidden_opcodes)"

lemma entry_ok_barred:
  assumes "entry_ok tbl b e"
  shows "tbl = g_Op1ByteTable \<Longrightarrow> b \<in> set forbidden_opcodes \<Longrightarrow> barred e"
    and "two_byte_table tbl \<Longrightarrow> b \<in> set forbidden_opcodes_0F \<Longrightarrow> barred e \<and> insttype e \<noteq> NACLi_3BYTE"
  using assms unfolding entry_ok_def entry_rule_def in_mrm_rule_def barred_def by metis+

lemma allowed_X87: "allowed_type NACLi_X87" and allowed_3DNOW: "allowed_type NACLi_3DNOW"
  by simp_all

lemma ConsumeModRM_barred:
  assumes "ConsumeModRM T mem m = Inr m'" and "barred (opinfo m)"
  shows "opinfo m' = opinfo m"
proof -
  have "insttype (opinfo m) \<noteq> NACLi_X87" using assms(2) allowed_X87 by (auto simp only: barred_def)
  then have "opinfo (modrm_byte T mem m) = opinfo m" by (simp add: modrm_byte_def Let_def)
  then show ?thesis
    using assms by (auto simp: ConsumeModRM_def modrm_group_def Let_def barred_def modrm_disp_def split: if_splits)
qed

lemma ConsumeModRM_frame:
  assumes "ConsumeModRM T mem m = Inr m'"
  shows "maddr (inst m') = maddr (inst m) \<and> prefixbytes (inst m') = prefixbytes (inst m)"
proof (cases "hasmrmbyte (opinfo m) = 0")
  case False
  then obtain m3 where g: "modrm_group T (modrm_byte T mem m) = Inr m3" and m': "m' = modrm_disp m3"
    using assms by (auto simp: ConsumeModRM_def bind_result_eq_Inr)
  show ?thesis
    using modrm_group_frame [OF g]
    by (simp add: m' modrm_disp_def modrm_byte_def Let_def GetX87OpInfo_def ErrorInternal_def)
qed (use assms in \<open>simp add: ConsumeModRM_def\<close>)

lemma ConsumeOpcodeBytes_frame:
  "maddr (inst (ConsumeOpcodeBytes T mem m)) = maddr (inst m) \<and>
   prefixbytes (inst (ConsumeOpcodeBytes T mem m)) = prefixbytes (inst m)"
proof (cases "mem (nextbyte m) = kTwoByteOpcodeByte1")
  case True
  let ?m1 = "m\<lparr>opinfo := kDecode1ByteOp T kTwoByteOpcodeByte1, nextbyte := Suc (nextbyte m)\<rparr>"
  obtain oi m2 where e: "GetExtendedOpInfo T ?m1 (mem (Suc (nextbyte m))) = (oi, m2)" by fastforce
  from GetExtendedOpInfo_cases [OF e] have "m2 = ?m1" by blast
  then show ?thesis
    using True e by (simp add: ConsumeOpcodeBytes_def Let_def consume_opcode3_def ErrorInternal_def)
qed (simp add: ConsumeOpcodeBytes_def Let_def)

lemma opcode_barred:
  assumes T: "tables_good T" and pos: "nextbyte m = maddr (inst m) + prefixbytes (inst m)" and f: "forbidden mem m"
  shows "barred (opinfo (ConsumeOpcodeBytes T mem m))"
proof (cases "mem (nextbyte m) = kTwoByteOpcodeByte1")
  case False
  then have "mem (nextbyte m) \<in> set forbidden_opcodes"
    using f by (simp add: forbidden_def opcode_byte_def pos kTwoByteOpcodeByte1_def)
  moreover have "entry_ok g_Op1ByteTable (mem (nextbyte m)) (kDecode1ByteOp T (mem (nextbyte m)))"
    using T by (simp only: tables_good_def)
  ultimately have "barred (kDecode1ByteOp T (mem (nextbyte m)))" using entry_ok_barred(1) by blast
  then show ?thesis using False by (simp add: ConsumeOpcodeBytes_def Let_def)
next
  case True
  let ?m1 = "m\<lparr>opinfo := kDecode1ByteOp T kTwoByteOpcodeByte1, nextbyte := Suc (nextbyte m)\<rparr>"
  let ?b = "mem (Suc (nextbyte m))"
  have b: "?b \<in> set forbidden_opcodes_0F"
    using f True by (simp add: forbidden_def opcode_byte_def pos kTwoByteOpcodeByte1_def)
  obtain oi m2 where e: "GetExtendedOpInfo T ?m1 ?b = (oi, m2)" by fastforce
  have "barred oi \<and> insttype oi \<noteq> NACLi_3BYTE"
    using GetExtendedOpInfo_cases [OF e] T b entry_ok_barred(2) [of _ ?b]
    unfolding tables_good_def by (metis empty_iff insert_iff two_byte_table.simps(1,2,3,4))
  then show ?thesis using True e by (simp add: ConsumeOpcodeBytes_def Let_def)
qed

lemma decode_barred:
  assumes T: "tables_good T" and d: "decode_inst T mem (blank_state a p) = Inr m" and f: "forbidden mem m"
  shows "\<not> allowed_type (insttype (opinfo m))"
proof -
  define m0 where "m0 = ConsumePrefixBytes T mem (InitDecoder (blank_state a p))"
  define m1 where "m1 = ConsumeOpcodeBytes T mem m0"
  from d obtain m2 where m2: "ConsumeModRM T mem m1 = Inr m2"
    and m: "m = MaybeGet3ByteOpInfo T mem (ConsumeID (ConsumeSIB mem m2))"
    by (auto simp: decode_inst_def m1_def [symmetric] m0_def [symmetric] bind_result_eq_Inr)
  have pos: "nextbyte m0 = maddr (inst m0) + prefixbytes (inst m0)"
    unfolding m0_def ConsumePrefixBytes_def by (rule prefixes_position) (simp add: InitDecoder_def blank_state_def)
  have "maddr (inst m) = maddr (inst m0)" "prefixbytes (inst m) = prefixbytes (inst m0)"
    using ConsumeModRM_frame [OF m2] ConsumeOpcodeBytes_frame [of T mem m0]
    by (simp_all add: m m1_def MaybeGet3ByteOpInfo_def Let_def ConsumeID_frame ConsumeSIB_frame)
  then have "opcode_byte mem m = opcode_byte mem m0" by (simp add: fun_eq_iff opcode_byte_def)
  then have "forbidden mem m0" using f by (simp only: forbidden_def)
  from opcode_barred [OF T pos this] have b: "barred (opinfo m1)" by (simp add: m1_def)
  then have "opinfo (ConsumeID (ConsumeSIB mem m2)) = opinfo m1" "insttype (opinfo m1) \<noteq> NACLi_3DNOW"
    using ConsumeModRM_barred [OF m2 b] allowed_3DNOW by (auto simp only: ConsumeID_frame ConsumeSIB_frame barred_def)
  then show ?thesis using b by (simp add: m MaybeGet3ByteOpInfo_def barred_def)
qed

section \<open>The validator with these tables\<close>

lemma trace_forbidden:
  assumes T: "tables_good T" and s: "sandboxed T cpu mem vbase sz al ms" and m: "m \<in> set ms"
  shows "\<not> forbidden mem m"
proof
  assume f: "forbidden mem m"
  have tr: "trace_from T mem 0 vbase ms (sz - 1)" and chk: "all_checked (ucast al - 1) cpu mem ms"
    using s by (simp_all add: sandboxed_def)
  have "decode_inst T mem (blank_state (mpc m) (vpc m)) = Inr m" using trace_from_mem [OF tr m] by blast
  from decode_barred [OF T this f] have "\<not> allowed_type (insttype (opinfo m))" .
  moreover obtain xs ys where "ms = xs @ m # ys" using m by (meson split_list)
  ultimately show False using chk unfolding all_checked_def inst_checked_def by blast
qed

text \<open>C8: No privileged instruction. In a text segment accepted with the decoding tables of the
  repository, no instruction that the processor can execute has a forbidden opcode: software
  interrupts, system calls, port input and output, near and far returns, far calls and jumps,
  accesses to segment, control, debug and model-specific registers, cache invalidation. The
  claim covers every prefix in front of the opcode.\<close>

theorem accepted_no_privileged:
  assumes "NaClValidateImage cpu nacl_tables False inited mem_ok mem_start text_bytes align_boundary mem
             = Some (Inr (mem', LOAD_OK))"
    and "unat (mem_start + NACL_TRAMPOLINE_END) + unat text_bytes + 32 \<le> 2 ^ 32"
  shows "let features = GetCPUFeatures (fst cpu) (snd cpu) no_features
         in \<exists>ms. sandboxed nacl_tables features mem (mem_start + NACL_TRAMPOLINE_END) (unat text_bytes)
                   (word_of_int align_boundary) ms \<and>
              (\<forall>m \<in> set ms. \<not> forbidden mem m)"
  using NaClValidateImage_accept [OF assms] trace_forbidden [OF nacl_tables_good] unfolding Let_def by blast

lemma NCValidateSegment_no_assert:
  assumes "NCValidateSegment cpu nacl_tables mem vbase sz v = Some r"
  shows "\<exists>p. r = Inr p"
proof -
  have "NCDecodeSegment validator_callbacks nacl_tables mem' vb n w \<noteq> Some (Inl f)" for mem' vb n w f
    using segment_loop_no_assert nacl_tables_good by (fastforce simp: NCDecodeSegment_def Let_def)
  then show ?thesis
    using assms by (auto simp: NCValidateSegment_def Let_def split: if_splits option.splits sum.splits)
qed

lemma NaClValidateImage_Inl:
  "NaClValidateImage cpu T ign inited mem_ok mem_start text_bytes align_boundary mem = Some (Inl f) \<Longrightarrow>
     \<exists>v. NCValidateSegment cpu T mem (mem_start + NACL_TRAMPOLINE_END) text_bytes v = Some (Inl f)"
  by (auto simp: NaClValidateImage_def Let_def split: if_splits option.splits sum.splits prod.splits)

text \<open>C7: The validator answers. With the decoding tables of the repository, on every text segment
  that ends at least 32 bytes below 4 GiB, whatever its bytes and the processor are,
  \<open>NaClValidateImage\<close> returns an error code: neither the instruction loop nor the block loop of
  \<open>NCValidateFinish\<close> runs forever, and the decoder's \<open>assert\<close> on an unknown immediate is never
  reached.\<close>

theorem NaClValidateImage_answers:
  assumes "unat (mem_start + NACL_TRAMPOLINE_END) + unat text_bytes + 32 \<le> 2 ^ 32"
  shows "\<exists>mem' code. NaClValidateImage cpu nacl_tables ign inited mem_ok mem_start text_bytes align_boundary mem
           = Some (Inr (mem', code))"
proof -
  obtain r where r: "NaClValidateImage cpu nacl_tables ign inited mem_ok mem_start text_bytes align_boundary mem = Some r"
    using NaClValidateImage_total [OF assms] by blast
  moreover have "r \<noteq> Inl f" for f using r NaClValidateImage_Inl NCValidateSegment_no_assert by blast
  ultimately show ?thesis by (cases r) auto
qed

text \<open>C3: Control-flow integrity. Let \<open>NaClValidateImage\<close>, with the decoding tables of the
  repository, accept the image, and let control enter it at a block boundary. Then there is a
  decomposition of the image into checked instructions such that every state the machine can reach
  is the start of one of them (with the jump register freshly masked if it is an indirect jump), or
  the final HLT, or lies outside the image at an aligned trampoline address or a block boundary.
  Control never enters the middle of an instruction or separates a mask from its jump.\<close>

theorem accepted_control_flow:
  assumes "NaClValidateImage cpu nacl_tables False inited mem_ok mem_start text_bytes align_boundary mem
             = Some (Inr (mem', LOAD_OK))"
    and "unat (mem_start + NACL_TRAMPOLINE_END) + unat text_bytes + 32 \<le> 2 ^ 32"
    and "entry AND (ucast (word_of_int align_boundary :: u8) - 1) = 0"
    and "mem_start + NACL_TRAMPOLINE_END \<le> entry" and "entry < mem_start + NACL_TRAMPOLINE_END + text_bytes"
  shows "let features = GetCPUFeatures (fst cpu) (snd cpu) no_features;
             vbase = mem_start + NACL_TRAMPOLINE_END;
             al = word_of_int align_boundary :: u8;
             amask = ucast al - 1
         in \<exists>ms. sandboxed nacl_tables features mem vbase (unat text_bytes) al ms \<and>
              (\<forall>s. cf_reachable amask features mem ms entry s \<longrightarrow>
                 cf_safe amask vbase (unat text_bytes) mem ms s)"
  by (rule accepted_flow [OF assms(1,2) tables_good_jmpz [OF nacl_tables_good] assms(3-5)])

end
