(* ===== verification/Nc_Complete.thy ===== *)
theory Nc_Complete
  imports Nc_Image
begin

text \<open>
  The converse of \<open>NaClValidateImage_accept\<close>: an image that satisfies the contract of accepted
  images is accepted. Together the two say that the validator decides exactly that contract.
\<close>

section \<open>The segment loop on a segment that decodes\<close>

context decoder_client begin

lemma segment_loop_complete:
  assumes size: "unat vbase + lim + 19 < 2 ^ 32"
    and acts: "\<And>ms m rest buf i mem v. all = ms @ m # rest \<Longrightarrow> action_call T orig vbase lim ms m buf i mem \<Longrightarrow>
      Inv ms mem v \<Longrightarrow> \<not> failed v \<Longrightarrow> \<not> failed (snd (g_DecoderAction g buf i mem v))"
  shows "at_slot vbase buf i e \<Longrightarrow> agree_from e mem orig \<Longrightarrow> all = ms @ rest \<Longrightarrow>
     trace_from T orig 0 vbase ms e \<Longrightarrow> trace_from T orig e (vbase + of_nat e) rest lim \<Longrightarrow>
     prev_is ms (buf ! ((i + 3) mod 4)) \<Longrightarrow> Inv ms mem v \<Longrightarrow> \<not> failed v \<Longrightarrow>
     \<exists>mem' v'. segment_loop g T (vbase + of_nat lim) buf i mem v = Some (Inr (mem', v')) \<and> \<not> failed v' \<and> Inv all mem' v'"
proof (induction rest arbitrary: ms buf i e mem v)
  case Nil
  then have "\<not> vpc (buf ! i) < vbase + of_nat lim" by (simp add: at_slot_def)
  then show ?case using Nil by (auto simp: segment_loop.simps)
next
  case (Cons m rest)
  note slot = Cons.prems(1) and agree = Cons.prems(2)
  have slot': "mpc (buf ! i) = e" "nextbyte (buf ! i) = e" "vpc (buf ! i) = vbase + of_nat e"
    and i: "i < 4" "length buf = 4" using slot by (simp_all add: at_slot_def)
  define l where "l = inst_length (inst m)"
  have dec0: "decode_inst T orig (blank_state e (vbase + of_nat e)) = Inr m" "internal_errors m = 0"
    and rest: "trace_from T orig (e + l) (vbase + of_nat (e + l)) rest lim"
    using Cons.prems(5) by (simp_all add: l_def add.assoc)
  have d: "decoded e (vbase + of_nat e) m" by (rule decode_inst_blank [OF dec0(1)])
  have m: "mpc m = e" "vpc m = vbase + of_nat e" "maddr (inst m) = e" "1 \<le> l" "l \<le> 19"
    using d by (simp_all add: decoded_def l_def)
  have le: "e + l \<le> lim" by (rule trace_from_le [OF rest])
  have lim: "unat (vbase + of_nat lim) = unat vbase + lim" using size by (simp add: unat_vpc)
  have pc: "unat (vbase + of_nat e) = unat vbase + e" using size le by (simp add: unat_vpc)
  have newpc: "unat (vpc m + of_nat l) = unat vbase + (e + l)"
    using size le m unat_vpc [of vbase "e + l"] by (simp add: add.assoc)
  have run: "vpc (buf ! i) < vbase + of_nat lim" using slot' lim pc le m(4) by (simp add: word_less_nat_alt)
  have fits: "\<not> vpc m + of_nat l > vbase + of_nat lim" using newpc lim le by (simp add: word_less_nat_alt)
  have dec: "decode_inst T mem (buf ! i) = Inr m"
    using decode_inst_local [of "buf ! i" mem orig T] decode_inst_fresh [of "buf ! i" T orig] slot' agree dec0(1)
    by simp
  define r where "r = g_DecoderAction g (buf[i := m]) i mem v"
  define k where "k = (i + 1) mod 4"
  define buf' where "buf' = (buf[i := m])[k := (buf[i := m] ! k)\<lparr>vpc := vpc m + of_nat (inst_length (inst m)),
    mpc := mpc m + inst_length (inst m), nextbyte := nextbyte m\<rparr>]"
  have step: "segment_loop g T (vbase + of_nat lim) buf i mem v =
      segment_loop g T (vbase + of_nat lim) buf' k (fst r) (snd r)"
    using run dec fits i next_slot [OF i(1)] dec0(2)
    by (subst segment_loop.simps) (simp add: Let_def l_def r_def k_def buf'_def)
  note next_slot = at_slot_next [OF slot d k_def buf'_def, folded l_def]
  have agree1: "agree_from (e + l) (fst r) orig"
    using action_writes [of i "buf[i := m]" _ mem v] agree m i
    by (auto simp: agree_from_def r_def l_def)
  have call: "action_call T orig vbase lim ms m (buf[i := m]) i mem"
    using Cons.prems(4,6) m dec0 le size i agree at_slot_prev [OF slot, of m]
    by (simp add: action_call_def l_def)
  have nf: "\<not> failed (snd r)" unfolding r_def by (rule acts [OF Cons.prems(3) call Cons.prems(7,8)])
  then have inv: "Inv (ms @ [m]) (fst r) (snd r)"
    using action_inv [OF call Cons.prems(7)] by (simp add: r_def)
  have tr: "trace_from T orig 0 vbase (ms @ [m]) (e + l)"
    using trace_from_snoc [OF Cons.prems(4), of m] dec0 by (simp add: l_def)
  have prev: "prev_is (ms @ [m]) (buf' ! ((k + 3) mod 4))" unfolding next_slot(2) by (simp add: prev_is_def)
  have all: "all = (ms @ [m]) @ rest" using Cons.prems(3) by simp
  show ?case unfolding step by (rule Cons.IH [OF next_slot(1) agree1 all tr rest prev inv nf])
qed

lemma NCDecodeSegment_complete:
  assumes "unat vbase + lim + 19 < 2 ^ 32" and "trace_from T orig 0 vbase all lim"
    and "Inv [] orig (g_NewSegment g v)" and "\<not> failed (g_NewSegment g v)"
    and "\<And>ms m rest buf i mem v. all = ms @ m # rest \<Longrightarrow> action_call T orig vbase lim ms m buf i mem \<Longrightarrow>
      Inv ms mem v \<Longrightarrow> \<not> failed v \<Longrightarrow> \<not> failed (snd (g_DecoderAction g buf i mem v))"
  shows "\<exists>mem' v'. NCDecodeSegment g T orig vbase (of_nat lim) v = Some (Inr (mem', v')) \<and> \<not> failed v' \<and> Inv all mem' v'"
proof -
  define b where "b = blank_state 0 0"
  define buf where "buf = [b\<lparr>mpc := 0, nextbyte := 0, vpc := vbase\<rparr>, b, b, b]"
  have "replicate kDecodeBufferSize b = [b, b, b, b]" by (simp add: kDecodeBufferSize_def numeral_eq_Suc)
  then have seg: "NCDecodeSegment g T orig vbase (of_nat lim) v =
      segment_loop g T (vbase + of_nat lim) buf 0 orig (g_NewSegment g v)"
    by (simp add: NCDecodeSegment_def b_def [symmetric] buf_def)
  have prev: "prev_is [] (buf ! ((0 + 3) mod 4))"
    by (simp add: buf_def prev_is_def b_def blank_state_def)
  have slot: "at_slot vbase buf 0 0" by (simp add: buf_def at_slot_def)
  have agree: "agree_from 0 orig orig" by (simp add: agree_from_def)
  show ?thesis
    unfolding seg
    by (rule segment_loop_complete [where ms = "[]" and rest = all and e = 0])
      (use assms prev slot agree in auto)
qed

end

section \<open>Instructions that pass the checks\<close>

lemma RememberIP_keeps:
  "\<not> failed v \<Longrightarrow> in_range v ip \<Longrightarrow> \<not> tbl_bit (vttable v) (unat (ip - iadrbase v)) \<Longrightarrow> \<not> failed (RememberIP ip v)"
  by (auto simp: RememberIP_def Let_def in_range_def GetAdrTable_bit Stats_defs)

lemma RememberTP_keeps:
  "\<not> failed v \<Longrightarrow> in_range v t \<or> trampoline v t \<Longrightarrow> \<not> failed (RememberTP t v)"
  by (auto simp: RememberTP_def Let_def in_range_def trampoline_def)

lemma CheckTarget_keeps:
  "failed (Stats_CheckTarget v) = failed v" "in_range (Stats_CheckTarget v) a = in_range v a"
  "trampoline (Stats_CheckTarget v) a = trampoline v a"
  by (simp_all add: Stats_defs in_range_def trampoline_def)

lemma CallAlignment_keeps: "call_aligned (alignmask v) m \<Longrightarrow> ValidateCallAlignment m v = v"
  by (simp add: ValidateCallAlignment_def Let_def call_aligned_def next_pc_def)

lemma alignmask_RememberTP: "alignmask (RememberTP t (Stats_CheckTarget v)) = alignmask v"
  using geometry_Remember(2) [of t "Stats_CheckTarget v"] geometry_Stats(1) [of v] by (simp add: geometry_def)

lemma Jmp8_keeps:
  assumes ty: "insttype (opinfo m) = NACLi_JMP8" and nf: "\<not> failed v" and ok: "jump_ok (alignmask v) mem m"
    and t: "\<And>a. direct_target mem m = Some a \<Longrightarrow> in_range v a \<or> trampoline v a"
  shows "\<not> failed (ValidateJmp8 mem m v)"
proof -
  define opc where "opc = mem (maddr (inst m) + prefixbytes (inst m))"
  define t where "t = next_pc m + scast (mem (maddr (inst m) + prefixbytes (inst m) + 1))"
  have "opc AND 0xf0 = 0x70 \<or> opc \<in> {0xeb, 0xe0, 0xe1, 0xe2, 0xe3}"
    using ok ty by (simp add: jump_ok_def Let_def opc_def)
  then have eq: "ValidateJmp8 mem m v = RememberTP t (Stats_CheckTarget v)"
    unfolding ValidateJmp8_def Let_def opc_def [symmetric] t_def next_pc_def by auto
  have "direct_target mem m = Some t" by (simp add: direct_target_def Let_def ty t_def)
  then show ?thesis
    unfolding eq using assms(4) nf by (intro RememberTP_keeps) (simp_all add: CheckTarget_keeps)
qed

lemma Jmpz_keeps:
  assumes ty: "insttype (opinfo m) = NACLi_JMPZ" and nf: "\<not> failed v" and ok: "jump_ok (alignmask v) mem m"
    and t: "\<And>a. direct_target mem m = Some a \<Longrightarrow> in_range v a \<or> trampoline v a"
  shows "\<not> failed (ValidateJmpz mem m v)"
proof -
  define a where "a = maddr (inst m) + prefixbytes (inst m)"
  define t1 where "t1 = next_pc m + read_int32 mem (a + 1)"
  define t2 where "t2 = next_pc m + read_int32 mem (a + 2)"
  have tp: "\<not> failed (RememberTP u (Stats_CheckTarget v))" if "direct_target mem m = Some u" for u
    using t [OF that] nf by (intro RememberTP_keeps) (simp_all add: CheckTarget_keeps)
  have opc: "mem a \<in> {0xe8, 0xe9, 0x0f}" and al: "mem a = 0xe8 \<Longrightarrow> call_aligned (alignmask v) m"
    using ok ty by (simp_all add: jump_ok_def Let_def a_def)
  consider (call) "mem a = 0xe8" | (jmp) "mem a = 0xe9" | (jcc) "mem a = 0x0f" "mem (a + 1) AND 0xf0 = 0x80"
    | (other) "mem a = 0x0f" "mem (a + 1) AND 0xf0 \<noteq> 0x80" using opc by auto
  then show ?thesis
  proof cases
    case call
    then have "ValidateJmpz mem m v = ValidateCallAlignment m (RememberTP t1 (Stats_CheckTarget v))"
      by (simp add: ValidateJmpz_def Let_def a_def [symmetric] t1_def next_pc_def)
    also have "\<dots> = RememberTP t1 (Stats_CheckTarget v)"
      by (rule CallAlignment_keeps) (simp add: alignmask_RememberTP al [OF call])
    finally have eq: "ValidateJmpz mem m v = RememberTP t1 (Stats_CheckTarget v)" .
    have "direct_target mem m = Some t1" using call by (simp add: direct_target_def Let_def ty t1_def a_def)
    then show ?thesis unfolding eq by (rule tp)
  next
    case jmp
    then have eq: "ValidateJmpz mem m v = RememberTP t1 (Stats_CheckTarget v)"
      by (simp add: ValidateJmpz_def Let_def a_def [symmetric] t1_def next_pc_def)
    have "direct_target mem m = Some t1" using jmp by (simp add: direct_target_def Let_def ty t1_def a_def)
    then show ?thesis unfolding eq by (rule tp)
  next
    case jcc
    then have eq: "ValidateJmpz mem m v = RememberTP t2 (Stats_CheckTarget v)"
      by (simp add: ValidateJmpz_def Let_def a_def [symmetric] t2_def next_pc_def)
    have "direct_target mem m = Some t2" using jcc by (simp add: direct_target_def Let_def ty t2_def a_def)
    then show ?thesis unfolding eq by (rule tp)
  next
    case other
    then have "ValidateJmpz mem m v = Stats_CheckTarget v"
      by (simp add: ValidateJmpz_def Let_def a_def [symmetric])
    then show ?thesis using nf by (simp add: CheckTarget_keeps)
  qed
qed

lemma Indirect5_keeps:
  assumes ty: "insttype (opinfo m) = NACLi_INDIRECT" and m: "buf ! i = m" "PreviousInst buf i (- 1) = prev"
    and nf: "\<not> failed v" and r: "in_range v (vaddr (inst m))" and ok: "indirect_ok (alignmask v) mem prev m"
  shows "\<not> failed (ValidateIndirect5 mem buf i v)"
proof -
  define v1 where "v1 = Stats_TargetIndirect (Stats_CheckTarget v)"
  define v2 where "v2 = ForgetIP (vaddr (inst m)) v1"
  have v1: "alignmask v1 = alignmask v" "\<not> failed v1" "in_range v1 (vaddr (inst m))"
    using r nf by (simp_all add: v1_def Stats_defs in_range_def)
  have v2: "alignmask v2 = alignmask v" "\<not> failed v2"
    using ForgetIP_ok [OF v1(3)] v1(1,2) by (simp_all add: v2_def)
  have "inst_length (inst prev) \<noteq> 0" "indirect5_ok mem prev m (alignmask v)"
      "modrm_reg (mem (maddr (inst m) + 1)) = 2 \<Longrightarrow> ValidateCallAlignment m v2 = v2"
    using ok ty CallAlignment_keeps [of v2 m] v2(1) by (simp_all add: indirect_ok_def)
  then have "ValidateIndirect5 mem buf i v = v2"
    by (simp add: ValidateIndirect5_def Let_def m v1_def [symmetric] v1 v2_def [symmetric])
  then show ?thesis using v2 by simp
qed

lemma switch_keeps:
  assumes m: "buf ! i = m" "PreviousInst buf i (- 1) = prev" and nf: "\<not> failed v"
    and r: "in_range v (vaddr (inst m))" and ok: "inst_checked (alignmask v) mem prev m"
    and t: "\<And>a. direct_target mem m = Some a \<Longrightarrow> in_range v a \<or> trampoline v a"
  shows "\<not> failed (fst (validate_switch (insttype (opinfo m)) mem buf i v))"
proof (cases "insttype (opinfo m) \<in> {NACLi_JMP8, NACLi_JMPZ, NACLi_INDIRECT}")
  case True
  then show ?thesis
    using Jmp8_keeps [OF _ nf _ t] Jmpz_keeps [OF _ nf _ t] Indirect5_keeps [OF _ m nf r] ok m(1)
    by (auto simp: inst_checked_def)
next
  case False
  then show ?thesis
    using nf ok m(1) by (cases "insttype (opinfo m)") (auto simp: inst_checked_def)
qed

lemma ValidateInst_keeps:
  assumes m: "buf ! i = m" "PreviousInst buf i (- 1) = prev" and nf: "\<not> failed v"
    and r: "in_range v (vaddr (inst m))" and new: "\<not> tbl_bit (vttable v) (unat (vaddr (inst m) - iadrbase v))"
    and ok: "inst_checked (alignmask v) mem prev m"
    and t: "\<And>a. direct_target mem m = Some a \<Longrightarrow> in_range v a \<or> trampoline v a"
  shows "\<not> failed (snd (ValidateInst buf i mem v))"
proof -
  define v0 where "v0 = OpcodeHisto (mem (maddr (inst m) + prefixbytes (inst m))) v"
  define v1 where "v1 = RememberIP (vaddr (inst m)) v0"
  have f0: "\<not> failed v0" "vttable v0 = vttable v" "iadrbase v0 = iadrbase v" "iadrlimit v0 = iadrlimit v"
    using nf by (simp_all add: v0_def OpcodeHisto_def)
  have nf1: "\<not> failed v1"
    unfolding v1_def by (rule RememberIP_keeps) (use f0 r new in \<open>simp_all add: in_range_def\<close>)
  have g: "geometry v1 = geometry v" by (simp add: v1_def v0_def geometry_Remember geometry_Stats)
  then have f1: "alignmask v1 = alignmask v" "in_range v1 a = in_range v a" "trampoline v1 a = trampoline v a" for a
    by (simp_all add: geometry_def in_range_def trampoline_def)
  have "prefix_ok m" "length_ok m" using ok by (simp_all add: inst_checked_def)
  then have eq: "snd (ValidateInst buf i mem v) = fst (validate_switch (insttype (opinfo m)) mem buf i v1)"
    by (simp add: ValidateInst_unfold Let_def m v0_def v1_def)
  show ?thesis unfolding eq by (rule switch_keeps [OF m nf1]) (use r ok t in \<open>simp_all add: f1\<close>)
qed

section \<open>The segment\<close>

text \<open>The mask instruction before an indirect jump is still there when the jump is checked.\<close>

lemma indirect_ok_squashed:
  assumes call: "action_call T orig vbase lim ms m buf i mem" and mem: "mem = squash cpu orig ms"
    and prev: "prev_is ms prev" and ok: "indirect_ok amask orig prev m"
    and keep: "insttype (opinfo m) = NACLi_INDIRECT \<Longrightarrow> \<not> squash_needed cpu orig prev"
  shows "indirect_ok amask mem prev m"
proof (cases "insttype (opinfo m) = NACLi_INDIRECT")
  case True
  then have len: "inst_length (inst prev) \<noteq> 0" using ok by (simp add: indirect_ok_def)
  then have "ms \<noteq> []" and p: "prev = last ms" using prev by (auto simp: prev_is_def split: if_splits)
  then have ms: "ms = butlast ms @ [prev]" by simp
  have tr: "trace_from T orig 0 vbase (butlast ms @ [prev]) (mpc m)" and agree: "agree_from (mpc m) mem orig"
    using call ms by (simp_all add: action_call_def)
  have pm: "maddr (inst prev) = mpc prev" "maddr (inst m) = mpc m"
    using trace_from_decoded [OF tr, of prev] action_call_decoded [OF call] by (simp_all add: decoded_def)
  have e: "mpc prev + inst_length (inst prev) = mpc m" by (rule trace_from_last [OF tr])
  have before: "mpc x + inst_length (inst x) \<le> mpc prev" if "x \<in> set (butlast ms)" for x
    using trace_from_sorted [OF tr] that by (simp add: sorted_wrt_append)
  have same: "mem (mpc prev + k) = orig (mpc prev + k)" for k
  proof (cases "k < inst_length (inst prev)")
    case True
    have "set ms = insert prev (set (butlast ms))" by (subst ms) simp
    then show ?thesis
      using keep [OF \<open>insttype (opinfo m) = NACLi_INDIRECT\<close>] before unfolding mem squash_def by fastforce
  next
    case False
    then show ?thesis using agree_fromD [OF agree, of "mpc prev + k"] e by simp
  qed
  have o: "mem (mpc m + k) = orig (mpc m + k)" for k using agree_fromD [OF agree, of "mpc m + k"] by simp
  show ?thesis
    using ok True same [of 0] same [of 1] same [of 2] o [of 0] o [of 1]
    by (simp add: indirect_ok_def indirect5_ok_def Let_def pm)
qed (simp add: indirect_ok_def)

lemma prev_checked:
  assumes "prev_is ms p" "prev_is ms q" "inst_checked amask orig p m"
  shows "inst_checked amask orig q m \<and> (insttype (opinfo m) = NACLi_INDIRECT \<longrightarrow> p = q)"
proof (cases "ms = []")
  case True
  then show ?thesis using assms by (auto simp: prev_is_def inst_checked_def indirect_ok_def)
qed (use assms in \<open>auto simp: prev_is_def\<close>)

text \<open>What the contract asks of the instructions, relative to the validator's own bounds.\<close>

definition acceptable :: "memory \<Rightarrow> NCValidatorState \<Rightarrow> NCDecoderState list \<Rightarrow> bool" where
  "acceptable orig v0 ms \<longleftrightarrow> all_checked (alignmask v0) (cpufeatures v0) orig ms \<and>
     (\<forall>j < unat (iadrlimit v0 - iadrbase v0). \<not> tbl_bit (vttable v0) j) \<and>
     (\<forall>m \<in> set ms. in_range v0 (vaddr (inst m)) \<and>
        (\<forall>a. direct_target orig m = Some a \<longrightarrow> in_range v0 a \<or> trampoline v0 a))"

lemma action_call_fresh:
  assumes call: "action_call T orig vbase lim ms m buf i mem" and m': "m' \<in> set ms"
  shows "vaddr (inst m') \<noteq> vaddr (inst m)"
proof -
  have tr: "trace_from T orig 0 vbase ms (mpc m)" and vm: "vpc m = vbase + of_nat (mpc m)"
      and lim: "mpc m + inst_length (inst m) \<le> lim" "unat vbase + lim + 19 < 2 ^ 32"
    using call by (simp_all add: action_call_def)
  have "vaddr (inst m) = vbase + of_nat (mpc m)"
    using action_call_decoded [OF call] vm by (simp add: decoded_def)
  moreover have "vaddr (inst m') = vbase + of_nat (mpc m')" "mpc m' < mpc m"
    using trace_from_decoded [OF tr m'] trace_from_mem [OF tr m'] by (auto simp: decoded_def)
  ultimately show ?thesis
    using lim unat_vpc [of vbase "mpc m"] unat_vpc [of vbase "mpc m'"] by (auto dest: arg_cong [of _ _ unat])
qed

lemma val_inv_keeps:
  assumes acc: "acceptable orig v0 all" and all: "all = ms @ m # rest"
    and call: "action_call T orig vbase lim ms m buf i mem" and inv: "val_inv orig v0 ms mem v" and nf: "\<not> failed v"
  shows "\<not> failed (snd (ValidateInst buf i mem v))"
proof -
  let ?prev = "PreviousInst buf i (- 1)"
  have m: "buf ! i = m" and prev: "prev_is ms ?prev" and agree: "agree_from (mpc m) mem orig"
    using call by (simp_all add: action_call_def)
  have maddr: "mpc m \<le> maddr (inst m)" using action_call_decoded [OF call] by (simp add: decoded_def)
  have fr: "same_frame v0 v" and mem: "mem = squash (cpufeatures v0) orig ms"
    using inv by (simp_all add: val_inv_def)
  then have f: "iadrbase v = iadrbase v0" "iadrlimit v = iadrlimit v0" "alignmask v = alignmask v0"
    by (simp_all add: same_frame_def)
  have rng: "in_range v a = in_range v0 a" "trampoline v a = trampoline v0 a" for a
    by (simp_all add: in_range_def trampoline_def f)
  obtain p where p: "prev_is ms p" "inst_checked (alignmask v0) orig p m"
      "insttype (opinfo m) = NACLi_INDIRECT \<Longrightarrow> \<not> squash_needed (cpufeatures v0) orig p"
    using acc all unfolding acceptable_def all_checked_def by blast
  note pc = prev_checked [OF p(1) prev p(2)]
  have ind: "indirect_ok (alignmask v0) mem ?prev m"
    by (rule indirect_ok_squashed [OF call mem prev]) (use pc p(3) in \<open>auto simp: inst_checked_def\<close>)
  have chk: "inst_checked (alignmask v) mem ?prev m"
    using pc ind jump_ok_local [OF agree maddr] by (simp add: inst_checked_def f)
  have r: "in_range v0 (vaddr (inst m))" and t: "\<And>a. direct_target orig m = Some a \<Longrightarrow> in_range v0 a \<or> trampoline v0 a"
    using acc all by (auto simp: acceptable_def)
  have "\<not> tbl_bit (vttable v0) (unat (vaddr (inst m) - iadrbase v0))"
    using acc in_range_offset [OF r] by (simp add: acceptable_def)
  moreover have "unat (vaddr (inst m) - iadrbase v0) \<noteq> unat (vaddr (inst m') - iadrbase v0)" if "m' \<in> set ms" for m'
    using action_call_fresh [OF call that] by (auto simp: word_unat_eq_iff [symmetric])
  ultimately have new: "\<not> tbl_bit (vttable v) (unat (vaddr (inst m) - iadrbase v))"
    using inv by (auto simp: val_inv_def f)
  show ?thesis
    by (rule ValidateInst_keeps [OF m refl nf _ new chk])
      (use r t in \<open>simp_all add: rng direct_target_local [OF agree maddr]\<close>)
qed

lemma NCValidateSegment_complete:
  assumes v: "stats v = zero_stats" "tables_ok v" and room: "unat vbase + unat sz + 32 \<le> 2 ^ 32"
    and cpu: "features = GetCPUFeatures (fst cpu) (snd cpu) (cpufeatures v)" and ok: "f_386 features"
    and sz: "0 < unat sz" and hlt: "mem (unat sz - 1) = kNaClFullStop"
    and tr: "trace_from T mem 0 vbase ms (unat sz - 1)" and acc: "acceptable mem (v\<lparr>cpufeatures := features\<rparr>) ms"
  shows "\<exists>mem' v' v0. NCValidateSegment cpu T mem vbase sz v = Some (Inr (mem', v')) \<and> \<not> failed v' \<and>
     val_inv mem v0 ms mem' v' \<and> same_tables (v\<lparr>cpufeatures := features, stats := (stats v)\<lparr>segments := 1\<rparr>\<rparr>) v0"
proof -
  define v1 where "v1 = v\<lparr>cpufeatures := features\<rparr>"
  define v0 where "v0 = Stats_NewSegment v1"
  have lim: "unat (sz - 1) = unat sz - 1" using sz by (simp add: unat_minus_one unat_gt_0)
  have v0: "v0 = v1\<lparr>stats := zero_stats\<lparr>segments := 1\<rparr>\<rparr>"
    using v(1) by (simp add: v0_def Stats_NewSegment_def v1_def zero_stats_def Let_def)
  have acc0: "acceptable mem v0 ms"
    using acc by (simp add: acceptable_def v0 v1_def in_range_def trampoline_def)
  have inv0: "val_inv mem v0 [] mem v0"
    using v(2) by (auto simp: val_inv_def v0 v1_def tables_ok_def same_frame_def all_checked_def squash_def)
  have nf0: "\<not> failed v0" by (simp add: v0 zero_stats_def)
  have size: "unat vbase + (unat sz - 1) + 19 < 2 ^ 32" using room sz by simp
  obtain mem' v' where seg: "NCDecodeSegment validator_callbacks T mem vbase (of_nat (unat sz - 1)) v1 = Some (Inr (mem', v'))"
      "\<not> failed v'" "val_inv mem v0 ms mem' v'"
    using validator.NCDecodeSegment_complete [where v = v1 and orig = mem and T = T and ?v0.0 = v0, OF size tr]
      inv0 nf0 val_inv_keeps [OF acc0] unfolding validator_callbacks_simps v0_def [symmetric] by blast
  have ow: "of_nat (unat sz - 1) = sz - 1" unfolding lim [symmetric] by simp
  have mem': "mem' = squash features mem ms"
    using seg(3) by (simp add: val_inv_def v0 v1_def)
  have "\<not> (mpc m \<le> unat sz - 1 \<and> unat sz - 1 < mpc m + inst_length (inst m))" if "m \<in> set ms" for m
    using trace_from_mem [OF tr that] by simp
  then have h: "mem' (unat (sz - 1)) = kNaClFullStop"
    unfolding mem' squash_def lim using hlt by (metis (no_types, lifting))
  have "sz \<noteq> 0" using sz by auto
  then have "NCValidateSegment cpu T mem vbase sz v = Some (Inr (mem', v'))"
    using ok seg(1) [unfolded ow] h unfolding NCValidateSegment_def Let_def
    by (simp add: cpu [symmetric] v1_def [symmetric]) (simp add: v1_def)
  moreover have "same_tables (v\<lparr>cpufeatures := features, stats := (stats v)\<lparr>segments := 1\<rparr>\<rparr>) v0"
    by (simp add: same_tables_def same_frame_def v0 v1_def)
  ultimately show ?thesis using seg(2,3) by blast
qed

section \<open>The image\<close>

lemma NCValidateInit_total:
  "vbase < vlimit \<Longrightarrow> al = 16 \<or> al = 32 \<Longrightarrow> \<exists>v. snd (NCValidateInit inited (True, True, True) vbase vlimit al) = Some v"
  by (auto simp: NCValidateInit_def Let_def case_prod_beta)

lemma page_and:
  assumes "unat (w :: u32) mod 64 = 0" "al = 16 \<or> al = (32 :: u8)"
  shows "w AND NOT (ucast al) = w" "w AND (ucast al - 1) = 0"
proof -
  have "unat (take_bit 6 w) = 0" using assms(1) by (simp only: unsigned_take_bit_eq) (simp add: take_bit_eq_mod)
  then have t: "take_bit 6 w = 0" by (simp add: unat_eq_0)
  have b: "\<not> bit w k" if "k < 6" for k
    using arg_cong [OF t, of "\<lambda>x. bit x k"] that by (simp add: bit_take_bit_iff)
  have al: "ucast al = (push_bit 4 1 :: u32) \<and> ucast al - 1 = (mask 4 :: u32) \<or>
      ucast al = (push_bit 5 1 :: u32) \<and> ucast al - 1 = (mask 5 :: u32)"
    using assms(2) by (auto simp: mask_eq_exp_minus_1 push_bit_eq_mult)
  have "w AND NOT (push_bit j 1) = w" if "j < 6" for j
    by (rule bit_word_eqI) (use b [OF that] in \<open>auto simp: bit_simps\<close>)
  from this [of 4] this [of 5] show "w AND NOT (ucast al) = w" using al by (elim disjE conjE) (simp_all only: less_num_simps simp_thms numeral_less_iff)
  have "w AND mask j = 0" if "j < 6" for j
    by (rule bit_word_eqI) (use b that in \<open>auto simp: bit_simps\<close>)
  from this [of 4] this [of 5] show "w AND (ucast al - 1) = 0"
    using al by (elim disjE conjE) (simp_all only: less_num_simps simp_thms numeral_less_iff)
qed

text \<open>A contract in terms of addresses is one in terms of the validator's bounds.\<close>

lemma sandboxed_acceptable:
  assumes s: "sandboxed T features mem vbase sz al ms" and room: "unat vbase + sz + 32 \<le> 2 ^ 32"
    and v: "iadrbase v = vbase" "iadrlimit v = vbase + of_nat sz" "alignmask v = ucast al - 1" "cpufeatures v = features"
    and zero: "\<forall>j < unat (iadrlimit v - iadrbase v). \<not> tbl_bit (vttable v) j"
  shows "acceptable mem v ms"
proof -
  have tr: "trace_from T mem 0 vbase ms (sz - 1)" and sz: "0 < sz" using s by (simp_all add: sandboxed_def)
  have rng: "in_range v (vaddr (inst m))" if "m \<in> set ms" for m
  proof -
    have "vaddr (inst m) = vbase + of_nat (mpc m)" "mpc m < sz"
      using trace_from_decoded [OF tr that] trace_from_mem [OF tr that] sz by (auto simp: decoded_def)
    then show ?thesis
      using room unat_vpc [of vbase "mpc m"] unat_vpc [of vbase sz]
      by (simp add: in_range_def v word_le_nat_alt word_less_nat_alt)
  qed
  have tg: "in_range v a \<or> trampoline v a" if "m \<in> set ms" "direct_target mem m = Some a" for m a
  proof -
    have "safe_target ms a \<or> trampoline_target vbase a" using s that unfolding sandboxed_def by blast
    then consider m' where "m' \<in> set ms" "vaddr (inst m') = a" | "trampoline_target vbase a"
      unfolding safe_target_def by blast
    then show ?thesis
    proof cases
      case 2
      then have "a < vbase + of_nat sz"
        using room unat_vpc [of vbase sz] by (simp add: trampoline_target_def word_less_nat_alt)
      then show ?thesis using 2 by (simp add: trampoline_target_def trampoline_def v)
    qed (use rng in blast)
  qed
  show ?thesis using s rng tg zero by (simp add: acceptable_def sandboxed_def v)
qed

lemma NaClValidateImage_complete:
  fixes align_boundary :: int
  defines "al \<equiv> word_of_int align_boundary :: u8"
  assumes s: "sandboxed T features mem (mem_start + NACL_TRAMPOLINE_END) (unat text_bytes) al ms"
    and cpu: "features = GetCPUFeatures (fst cpu) (snd cpu) no_features" and ok: "f_386 features"
    and room: "unat (mem_start + NACL_TRAMPOLINE_END) + unat text_bytes + 32 \<le> 2 ^ 32"
    and page: "unat (mem_start + NACL_TRAMPOLINE_END) mod 64 = 0"
  shows "\<exists>mem'. NaClValidateImage cpu T ignore inited (True, True, True) mem_start text_bytes align_boundary mem
     = Some (Inr (mem', LOAD_OK))"
proof -
  let ?vb = "mem_start + NACL_TRAMPOLINE_END" and ?sz = "unat text_bytes"
  have tr: "trace_from T mem 0 ?vb ms (?sz - 1)" and sz: "0 < ?sz" and hlt: "mem (?sz - 1) = kNaClFullStop"
    and al: "al = 16 \<or> al = 32"
    using s by (simp_all add: sandboxed_def)
  have top: "unat (?vb + text_bytes) = unat ?vb + ?sz" using room by (simp add: unat_plus_u32)
  have "?vb < ?vb + text_bytes" using top sz by (simp add: word_less_nat_alt)
  from NCValidateInit_total [OF this al, of inited] obtain v where
    v: "snd (NCValidateInit inited (True, True, True) ?vb (?vb + text_bytes) al) = Some v" by blast
  note i = NCValidateInit_Some [OF v]
  let ?w = "v\<lparr>cpufeatures := features\<rparr>"
  have base: "iadrbase v = ?vb" using i page_and(1) [OF page al] by simp
  have n: "unat (iadrlimit v - iadrbase v) = ?sz" using i by (simp add: base)
  have acc: "acceptable mem ?w ms"
    by (rule sandboxed_acceptable [OF s room]) (use i base in simp_all)
  have c: "features = GetCPUFeatures (fst cpu) (snd cpu) (cpufeatures v)" using i cpu by simp
  obtain mem' v' v0 where seg: "NCValidateSegment cpu T mem ?vb text_bytes v = Some (Inr (mem', v'))" "\<not> failed v'"
      "val_inv mem v0 ms mem' v'" "same_tables (v\<lparr>cpufeatures := features, stats := (stats v)\<lparr>segments := 1\<rparr>\<rparr>) v0"
    using NCValidateSegment_complete [OF _ _ room c ok sz hlt tr acc] i by auto
  have f0: "iadrbase v0 = ?vb" "iadrlimit v0 = ?vb + text_bytes" "alignmask v0 = ucast al - 1" "alignment v0 = al"
      "kttable v0 = kttable v"
    using seg(4) i base by (simp_all add: same_tables_def same_frame_def)
  then have f1: "iadrbase v' = ?vb" "iadrlimit v' = ?vb + text_bytes" "alignmask v' = ucast al - 1" "alignment v' = al"
    using seg(3) by (simp_all add: val_inv_def same_frame_def)
  have vt: "tbl_bit (vttable v') (unat (a - ?vb))" if "safe_target ms a" for a
    using seg(3) that by (auto simp: val_inv_def safe_target_def f0)
  have kt: "tbl_bit (vttable v') j" if j: "j < ?sz" "tbl_bit (kttable v') j" for j
  proof -
    have "\<not> tbl_bit (kttable v0) j" using i j(1) by (simp add: f0 base)
    then obtain m a where m: "m \<in> set ms" "direct_target mem m = Some a" "in_range v0 a" "j = unat (a - ?vb)"
      using seg(3) j(2) by (auto simp: val_inv_def f0)
    have "safe_target ms a \<or> trampoline_target ?vb a" using s m(1,2) unfolding sandboxed_def by blast
    then have "safe_target ms a" using m(3) by (auto simp: trampoline_target_def in_range_def f0)
    then show ?thesis using vt m(4) by simp
  qed
  have bl: "tbl_bit (vttable v') (k * unat al)" if "k * unat al < ?sz" for k
  proof -
    have "k * unat al < 2 ^ 32" using that u32_lt [of text_bytes] by simp
    then have "unat (of_nat (k * unat al) :: u32) = k * unat al" by (simp only: unat_of_nat) simp
    then show ?thesis using vt [of "?vb + of_nat (k * unat al)"] s that by (simp add: sandboxed_def)
  qed
  have "unat (iadrlimit v' - iadrbase v') + unat (alignment v') \<le> 2 ^ 32" "0 < unat (alignment v')"
    using al room by (auto simp: f1)
  from NCValidateFinish_ok [OF this] obtain v2 where
    fin: "NCValidateFinish (Some v') = Some (sawfailure (stats v2), Some v2)" "\<not> failed v2"
    using seg(2) kt bl page_and(2) [OF page al] by (auto simp: f1)
  have "\<not> ?vb + text_bytes < ?vb" using top by (simp add: word_less_nat_alt)
  then have "NaClValidateImage cpu T ignore inited (True, True, True) mem_start text_bytes align_boundary mem
      = Some (Inr (mem', LOAD_OK))"
    using v seg(1) fin by (simp add: NaClValidateImage_def Let_def al_def)
  then show ?thesis by blast
qed

text \<open>C6: The validator decides its contract: when allocation succeeds and the text starts on a
  64-byte boundary (a loaded text starts on a page) and ends below the top of the address space, it
  accepts an image exactly when the processor is at least a 386 and there is a decomposition of the
  text into instructions that satisfies the contract \<open>sandboxed\<close>: nothing unsafe is accepted, and
  nothing safe is refused.\<close>

theorem NaClValidateImage_decides:
  assumes "unat (mem_start + NACL_TRAMPOLINE_END) + unat text_bytes + 32 \<le> 2 ^ 32"
    and "unat (mem_start + NACL_TRAMPOLINE_END) mod 64 = 0"
  shows "(\<exists>mem'. NaClValidateImage cpu T False inited (True, True, True) mem_start text_bytes align_boundary mem
      = Some (Inr (mem', LOAD_OK))) \<longleftrightarrow>
    (let features = GetCPUFeatures (fst cpu) (snd cpu) no_features
     in f_386 features \<and>
        (\<exists>ms. sandboxed T features mem (mem_start + NACL_TRAMPOLINE_END) (unat text_bytes)
           (word_of_int align_boundary) ms))" (is "?accepts \<longleftrightarrow> ?contract")
proof
  assume ?accepts
  then show ?contract using NaClValidateImage_accept [OF _ assms(1)] unfolding Let_def by blast
next
  assume ?contract
  then show ?accepts using NaClValidateImage_complete [OF _ refl _ assms] unfolding Let_def by blast
qed

end
