(* ===== verification/Nc_Example.thy ===== *)
theory Nc_Example
  imports Nc_Accept Nc_Complete
begin

text \<open>
  A small image that the validator accepts: \<open>and $~31, %eax; jmp *%eax; jmp 0; hlt\<close>, at the first
  address after the trampolines. It shows that the hypotheses of the theorems on accepted images
  can hold with the real tables.
\<close>

section \<open>Entries of the tables\<close>

lemma nacl_entries:
  "kDecode1ByteOp nacl_tables b =
    (case lookup_op X86_32 g_Op1ByteTable b BuildMetaTables_calls None of None \<Rightarrow> DecodeUndefinedInstInfo | Some e \<Rightarrow> e)"
  "kDecodeModRMOp nacl_tables g n =
    (case lookup_mrm X86_32 g n BuildMetaTables_calls None of None \<Rightarrow> DecodeUndefinedInstInfo | Some e \<Rightarrow> e)"
  "kPrefixTable nacl_tables b = lookup_prefix X86_32 b BuildMetaTables_calls 0"
proof -
  obtain T where r: "run_calls X86_32 BuildMetaTables_calls InitializeGlobalTables = Inr T"
    and T: "nacl_tables = PrintDecodeTables T" by (rule nacl_tables_run)
  note l = lookup_op_run [OF r, of g_Op1ByteTable b] lookup_mrm_run [OF r, of g n] lookup_prefix_run [OF r, of b]
  show "kDecode1ByteOp nacl_tables b =
      (case lookup_op X86_32 g_Op1ByteTable b BuildMetaTables_calls None of None \<Rightarrow> DecodeUndefinedInstInfo | Some e \<Rightarrow> e)"
    using l(1) by (simp add: T PrintDecodeTables_def PrintDecodeTable_def) (simp add: InitializeGlobalTables_def)
  show "kDecodeModRMOp nacl_tables g n =
      (case lookup_mrm X86_32 g n BuildMetaTables_calls None of None \<Rightarrow> DecodeUndefinedInstInfo | Some e \<Rightarrow> e)"
    using l(2) by (simp add: T PrintDecodeTables_def PrintDecodeTable_def) (simp add: InitializeGlobalTables_def)
  show "kPrefixTable nacl_tables b = lookup_prefix X86_32 b BuildMetaTables_calls 0"
    using l(3) by (simp add: T PrintDecodeTables_def) (simp add: InitializeGlobalTables_def)
qed

lemmas entry_defs = BuildMetaTables_1_def BuildMetaTables_2_def BuildMetaTables_3_def BuildMetaTables_4_def
  BuildMetaTables_5_def BuildMetaTables_6_def BuildMetaTables_7_def BuildMetaTables_8_def BuildMetaTables_9_def
  BuildMetaTables_10_def BuildSSE4Tables_def Buildx87Tables_def BuildMetaTables_calls_def lookup_append call_defs
  mode_on_def NewMetaDefn_def

lemma example_opcodes:
  "kDecode1ByteOp nacl_tables 0x83 = \<lparr>insttype = NACLi_OPINMRM, hasmrmbyte = 1, op_immtype = IMM_FIXED1, opinmrm = 1\<rparr>"
  "kDecode1ByteOp nacl_tables 0xff = \<lparr>insttype = NACLi_OPINMRM, hasmrmbyte = 1, op_immtype = IMM_NONE, opinmrm = 5\<rparr>"
  "kDecode1ByteOp nacl_tables 0xeb = \<lparr>insttype = NACLi_JMP8, hasmrmbyte = 0, op_immtype = IMM_FIXED1, opinmrm = 0\<rparr>"
  by (simp_all add: nacl_entries(1) entry_defs)

lemma example_groups:
  "kDecodeModRMOp nacl_tables 1 4 = \<lparr>insttype = NACLi_386L, hasmrmbyte = 1, op_immtype = IMM_NONE, opinmrm = 0\<rparr>"
  "kDecodeModRMOp nacl_tables 5 4 = \<lparr>insttype = NACLi_INDIRECT, hasmrmbyte = 1, op_immtype = IMM_NONE, opinmrm = 0\<rparr>"
  by (simp_all add: nacl_entries(2) entry_defs)

lemma example_prefixes:
  "kPrefixTable nacl_tables 0x83 = 0" "kPrefixTable nacl_tables 0xff = 0" "kPrefixTable nacl_tables 0xeb = 0"
  by (simp_all add: nacl_entries(3) entry_defs)

section \<open>The image\<close>

definition example_text :: "u8 list" where
  "example_text = [0x83, 0xe0, 0xe0, 0xff, 0xe0, 0xeb, 0xf9, 0xf4]"

definition example_mem :: memory where
  "example_mem i = (if i < 8 then example_text ! i else 0)"

lemma example_bytes:
  "example_mem 0 = 0x83" "example_mem (Suc 0) = 0xe0" "example_mem 2 = 0xe0" "example_mem 3 = 0xff"
  "example_mem 4 = 0xe0" "example_mem 5 = 0xeb" "example_mem 6 = 0xf9" "example_mem 7 = 0xf4"
  by (simp_all add: example_mem_def example_text_def)

text \<open>A processor that has only what the 386 instructions need.\<close>

definition example_cpuid :: cpuid_fn where
  "example_cpuid leaf = (if leaf = 0 then (1, 0x756e6547, 0x6c65746e, 0x49656e69)
                         else if leaf = 1 then (0, 0, 0, 2) else (0, 0, 0, 0))"

text \<open>A decoder state inside the image, without prefixes, displacement and SIB byte.\<close>

definition at_byte :: "nat \<Rightarrow> nat \<Rightarrow> nat \<Rightarrow> u8 \<Rightarrow> NCDecodeImmediateType \<Rightarrow> OpInfo \<Rightarrow> NCDecoderState" where
  "at_byte a nb len mr imm oi = \<lparr>mpc = a, nextbyte = nb, vpc = 0x20000 + of_nat a, opinfo = oi,
     inst = \<lparr>vaddr = 0x20000 + of_nat a, maddr = a, prefixbytes = 0, hasopbyte2 = False, hasopbyte3 = False,
             hassibbyte = False, mrm = mr, immtype = imm, dispbytes = 0, inst_length = len,
             prefixmask = 0, rexprefix = 0\<rparr>,
     internal_errors = 0\<rparr>"

lemma at_byte_sel:
  "mpc (at_byte a nb len mr imm oi) = a" "nextbyte (at_byte a nb len mr imm oi) = nb"
  "vpc (at_byte a nb len mr imm oi) = 0x20000 + of_nat a" "opinfo (at_byte a nb len mr imm oi) = oi"
  "maddr (inst (at_byte a nb len mr imm oi)) = a" "prefixbytes (inst (at_byte a nb len mr imm oi)) = 0"
  "vaddr (inst (at_byte a nb len mr imm oi)) = 0x20000 + of_nat a"
  "hassibbyte (inst (at_byte a nb len mr imm oi)) = False" "mrm (inst (at_byte a nb len mr imm oi)) = mr"
  "immtype (inst (at_byte a nb len mr imm oi)) = imm" "dispbytes (inst (at_byte a nb len mr imm oi)) = 0"
  "inst_length (inst (at_byte a nb len mr imm oi)) = len" "prefixmask (inst (at_byte a nb len mr imm oi)) = 0"
  "internal_errors (at_byte a nb len mr imm oi) = 0"
  by (simp_all add: at_byte_def)

lemma InitDecoder_at:
  "mpc m = a \<Longrightarrow> nextbyte m = a \<Longrightarrow> vpc m = 0x20000 + of_nat a \<Longrightarrow>
     InitDecoder m = at_byte a a 0 0 IMM_UNKNOWN null_opinfo"
  by (cases m) (simp add: at_byte_def InitDecoder_def)

lemma no_prefix:
  "kPrefixTable T (mem nb) = 0 \<Longrightarrow>
     ConsumePrefixBytes T mem (at_byte a nb len mr imm oi) = at_byte a nb len mr imm oi"
  by (simp add: ConsumePrefixBytes_def kMaxPrefixBytes_def numeral_eq_Suc at_byte_sel)

lemma one_byte_opcode:
  "mem nb \<noteq> 0x0f \<Longrightarrow> ConsumeOpcodeBytes T mem (at_byte a nb len mr imm oi) =
     (let e = kDecode1ByteOp T (mem nb) in at_byte a (nb + 1) len mr (op_immtype e) e)"
  by (simp add: ConsumeOpcodeBytes_def Let_def kTwoByteOpcodeByte1_def at_byte_def)

lemma no_modrm: "hasmrmbyte oi = 0 \<Longrightarrow>
    ConsumeModRM T mem (at_byte a nb len mr imm oi) = Inr (at_byte a nb len mr imm oi)"
  by (simp add: ConsumeModRM_def at_byte_sel)

lemma register_modrm:
  assumes "hasmrmbyte oi \<noteq> 0" "insttype oi \<noteq> NACLi_X87" "opinmrm oi \<noteq> 0" "modrm_mod (mem nb) = 3"
    "imm \<noteq> IMM_UNKNOWN" "imm \<noteq> IMM_GROUP3_F6" "imm \<noteq> IMM_GROUP3_F7"
  shows "ConsumeModRM T mem (at_byte a nb len mr imm oi) =
    Inr (at_byte a (nb + 1) len (mem nb) imm (kDecodeModRMOp T (opinmrm oi) (modrm_opcode (mem nb))))"
proof -
  have "modrm_byte T mem (at_byte a nb len mr imm oi) = at_byte a (nb + 1) len (mem nb) imm oi"
    using assms(2) by (simp add: modrm_byte_def Let_def at_byte_def)
  moreover have "modrm_group T (at_byte a (nb + 1) len (mem nb) imm oi) =
      Inr (at_byte a (nb + 1) len (mem nb) imm (kDecodeModRMOp T (opinmrm oi) (modrm_opcode (mem nb))))"
    using assms(3,5-7) by (simp add: modrm_group_def Let_def at_byte_def)
  moreover have "modrm_disp (at_byte a b len (mem nb) imm x) = at_byte a b len (mem nb) imm x" for b x
    using assms(4) by (simp add: modrm_disp_def Let_def modrm_disp32_def at_byte_def)
  ultimately show ?thesis using assms(1) by (simp add: ConsumeModRM_def at_byte_sel)
qed

lemma decode_tail:
  assumes "insttype oi \<noteq> NACLi_3DNOW" "imm = IMM_NONE \<and> n = 0 \<or> imm = IMM_FIXED1 \<and> n = 1" "a \<le> nb" "nb + n - a < 256"
  shows "MaybeGet3ByteOpInfo T mem (ConsumeID (ConsumeSIB mem (at_byte a nb len mr imm oi))) =
         at_byte a (nb + n) (nb + n - a) mr imm oi"
proof -
  have "ConsumeSIB mem (at_byte a nb len mr imm oi) = at_byte a nb len mr imm oi"
    by (simp add: ConsumeSIB_def at_byte_sel)
  moreover have "ConsumeID (at_byte a nb len mr imm oi) = at_byte a (nb + n) (nb + n - a) mr imm oi"
    using assms(2-4) by (auto simp: ConsumeID_def Let_def imm_size_def at_byte_def)
  ultimately show ?thesis using assms(1) by (simp add: MaybeGet3ByteOpInfo_def at_byte_sel)
qed

lemma modrm_e0: "modrm_mod 0xe0 = 3" "modrm_opcode 0xe0 = 4" "modrm_rm 0xe0 = 0" "modrm_reg 0xe0 = 4"
  by (simp_all add: modrm_mod_def modrm_opcode_def modrm_reg_def modrm_rm_def)

lemma example_decode:
  "nextbyte m = 0 \<Longrightarrow> mpc m = 0 \<Longrightarrow> vpc m = 0x20000 \<Longrightarrow>
     decode_inst nacl_tables example_mem m = Inr (at_byte 0 3 3 0xe0 IMM_FIXED1 (kDecodeModRMOp nacl_tables 1 4))"
  "nextbyte m = 3 \<Longrightarrow> mpc m = 3 \<Longrightarrow> vpc m = 0x20003 \<Longrightarrow>
     decode_inst nacl_tables example_mem m = Inr (at_byte 3 5 2 0xe0 IMM_NONE (kDecodeModRMOp nacl_tables 5 4))"
  "nextbyte m = 5 \<Longrightarrow> mpc m = 5 \<Longrightarrow> vpc m = 0x20005 \<Longrightarrow>
     decode_inst nacl_tables example_mem m = Inr (at_byte 5 7 2 0 IMM_FIXED1 (kDecode1ByteOp nacl_tables 0xeb))"
  using decode_tail [where oi = "kDecodeModRMOp nacl_tables 1 4" and imm = IMM_FIXED1 and n = 1 and a = 0 and nb = 2]
    decode_tail [where oi = "kDecodeModRMOp nacl_tables 5 4" and imm = IMM_NONE and n = 0 and a = 3 and nb = 5]
    decode_tail [where oi = "kDecode1ByteOp nacl_tables 0xeb" and imm = IMM_FIXED1 and n = 1 and a = 5 and nb = 6]
  by (simp_all add: decode_inst_def InitDecoder_at no_prefix one_byte_opcode no_modrm register_modrm Let_def
      example_bytes example_opcodes example_groups example_prefixes modrm_e0 numeral_2_eq_2 [symmetric])

section \<open>The run of the validator\<close>

definition example_features :: CPUFeatures where
  "example_features = GetCPUFeatures True example_cpuid no_features"

lemma example_386: "f_386 example_features"
  by (simp add: example_features_def GetCPUFeatures_def Let_def Check386CPU_iff vendor_bytes_def CPUVersionID_def
      word_bytes_def example_cpuid_def Intel_CPUID0_def)

definition example_state :: "u32 list \<Rightarrow> u32 \<Rightarrow> u32 \<Rightarrow> u32 \<Rightarrow> u8 list \<Rightarrow> u8 list \<Rightarrow> NCValidatorState" where
  "example_state h n ct ti vt kt = \<lparr>cpufeatures = example_features, iadrbase = 0x20000, iadrlimit = 0x20008,
     alignment = 32, alignmask = 31,
     stats = zero_stats\<lparr>segments := 1, instructions := n, checktarget := ct, targetindirect := ti\<rparr>,
     opcodehisto = h, vttable = vt, kttable = kt\<rparr>"

lemma histo_example: "OpcodeHisto b (example_state h n ct ti vt kt) =
    example_state (h[unat b := h ! unat b + 1]) n ct ti vt kt"
  by (simp add: OpcodeHisto_def example_state_def)

lemma remember_example:
  assumes "a < 8" "v AND iadrmasks ! a = 0"
  shows "RememberIP (0x20000 + of_nat a) (example_state h n ct ti [v, 0] kt) =
     example_state h (n + 1) ct ti [v OR iadrmasks ! a, 0] kt"
proof -
  consider "a = 0" | "a = 1" | "a = 2" | "a = 3" | "a = 4" | "a = 5" | "a = 6" | "a = 7" using assms(1) by linarith
  then show ?thesis
    using assms(2)
    by cases (simp_all add: RememberIP_def Let_def example_state_def GetAdrTable_def SetAdrTable_def IATOffset_def
        IATMask_def Stats_Inst_def zero_stats_def)
qed

lemma example_state_sel:
  "cpufeatures (example_state h n ct ti vt kt) = example_features" "alignmask (example_state h n ct ti vt kt) = 31"
  by (simp_all add: example_state_def)

lemma example_prefix_ok: "prefix_ok (at_byte a nb len mr imm oi)"
  by (simp add: prefix_ok_def at_byte_sel)

lemma example_length_ok: "len < 4 \<Longrightarrow> length_ok (at_byte a nb len mr imm oi)"
  by (simp add: length_ok_def at_byte_sel kMaxValidInstLength_def word_le_nat_alt not_less unat_of_nat)

lemma example_and:
  assumes "buf ! 0 = at_byte 0 3 3 0xe0 IMM_FIXED1 (kDecodeModRMOp nacl_tables 1 4)"
  shows "\<exists>h. ValidateInst buf 0 example_mem (example_state h0 0 0 0 [0, 0] [0, 0]) =
           (example_mem, example_state h 1 0 0 [1, 0] [0, 0])"
  using remember_example [of 0 0 _ 0 0 0 "[0, 0]"]
  by (simp add: ValidateInst_def Let_def assms at_byte_sel histo_example iadrmasks_def example_prefix_ok
      example_length_ok example_groups) blast

lemma example_jmp:
  assumes "buf ! 0 = at_byte 0 3 3 0xe0 IMM_FIXED1 (kDecodeModRMOp nacl_tables 1 4)"
    and "buf ! Suc 0 = at_byte 3 5 2 0xe0 IMM_NONE (kDecodeModRMOp nacl_tables 5 4)"
  shows "\<exists>h. ValidateInst buf (Suc 0) example_mem (example_state h0 1 0 0 [1, 0] [0, 0]) =
           (example_mem, example_state h 2 1 1 [1, 0] [0, 0])"
proof -
  have p: "PreviousInst buf (Suc 0) (- 1) = buf ! 0" by (simp add: PreviousInst_def kDecodeBufferSize_def)
  have i: "indirect5_ok example_mem (buf ! 0) (buf ! Suc 0) 31"
    by (simp add: indirect5_ok_def assms at_byte_sel example_bytes Let_def modrm_e0 kReg_ESP_def
        numeral_2_eq_2 [symmetric])
  show ?thesis
    using remember_example [of 3 1 _ 1 0 0 "[0, 0]"] i p
    by (simp add: ValidateInst_def Let_def assms at_byte_sel histo_example iadrmasks_def example_prefix_ok
        example_length_ok example_groups ValidateIndirect5_def example_state_sel example_bytes modrm_e0)
      (simp add: example_state_def ForgetIP_def Stats_CheckTarget_def Stats_TargetIndirect_def zero_stats_def
        ClearAdrTable_def IATOffset_def IATMask_def iadrmasks_def)
qed

lemma example_jmp8:
  assumes "buf ! 2 = at_byte 5 7 2 0 IMM_FIXED1 (kDecode1ByteOp nacl_tables 0xeb)"
  shows "\<exists>h. ValidateInst buf 2 example_mem (example_state h0 2 1 1 [1, 0] [0, 0]) =
           (example_mem, example_state h 3 2 1 [0x21, 0] [1, 0])"
  using remember_example [of 5 1 _ 2 1 1 "[0, 0]"]
  by (simp add: ValidateInst_def Let_def assms at_byte_sel histo_example iadrmasks_def example_prefix_ok
      example_length_ok example_opcodes ValidateJmp8_def example_bytes)
    (simp add: example_state_def RememberTP_def Stats_CheckTarget_def zero_stats_def Let_def
      SetAdrTable_def IATOffset_def IATMask_def iadrmasks_def)

lemma ring_next: "i < 3 \<Longrightarrow> (i + 1) AND (kDecodeBufferSize - 1) = Suc i"
proof -
  assume "i < 3"
  then consider "i = 0" | "i = 1" | "i = 2" by linarith
  then show ?thesis by cases (simp_all add: kDecodeBufferSize_def numeral_2_eq_2 [symmetric])
qed

lemma segment_loop_step:
  assumes "vpc (buf ! i) < vlimit" and "decode_inst T mem (buf ! i) = Inr m" and "internal_errors m = 0"
    and "\<not> vpc m + of_nat (inst_length (inst m)) > vlimit"
    and "ValidateInst (buf[i := m]) i mem v = (mem1, v1)" and "i < 3"
  shows "segment_loop validator_callbacks T vlimit buf i mem v =
     segment_loop validator_callbacks T vlimit
          (buf[i := m, Suc i := (buf[i := m] ! Suc i)\<lparr>vpc := vpc m + of_nat (inst_length (inst m)),
             mpc := mpc m + inst_length (inst m), nextbyte := nextbyte m\<rparr>]) (Suc i) mem1 v1"
proof -
  have "g_DecoderAction validator_callbacks = ValidateInst"
    by (simp add: validator_callbacks_def NCDecodeRegisterCallbacks_def)
  then show ?thesis
    using assms(1-5) ring_next [OF assms(6)] by (subst segment_loop.simps) (simp only: Let_def, simp)
qed

lemma segment_loop_end:
  "\<not> vpc (buf ! i) < vlimit \<Longrightarrow> segment_loop g T vlimit buf i mem v = Some (Inr (mem, v))"
  by (subst segment_loop.simps) simp

lemma example_loop:
  "\<exists>h. NCDecodeSegment validator_callbacks nacl_tables example_mem 0x20000 7
         (example_state h0 0 0 0 [0, 0] [0, 0]\<lparr>stats := zero_stats\<rparr>) =
       Some (Inr (example_mem, example_state h 3 2 1 [0x21, 0] [1, 0]))"
proof -
  define b where "b = blank_state 0 0"
  define m1 where "m1 = at_byte 0 3 3 0xe0 IMM_FIXED1 (kDecodeModRMOp nacl_tables 1 4)"
  define m2 where "m2 = at_byte 3 5 2 0xe0 IMM_NONE (kDecodeModRMOp nacl_tables 5 4)"
  define m3 where "m3 = at_byte 5 7 2 0 IMM_FIXED1 (kDecode1ByteOp nacl_tables 0xeb)"
  note sel = m1_def m2_def m3_def at_byte_sel
  have "replicate kDecodeBufferSize b = [b, b, b, b]" by (simp add: kDecodeBufferSize_def numeral_eq_Suc)
  moreover have "Stats_NewSegment (example_state h0 0 0 0 [0, 0] [0, 0]\<lparr>stats := zero_stats\<rparr>) =
      example_state h0 0 0 0 [0, 0] [0, 0]"
    by (simp add: Stats_NewSegment_def example_state_def zero_stats_def)
  ultimately have seg: "NCDecodeSegment validator_callbacks nacl_tables example_mem 0x20000 7
         (example_state h0 0 0 0 [0, 0] [0, 0]\<lparr>stats := zero_stats\<rparr>) =
      segment_loop validator_callbacks nacl_tables 0x20007 [b\<lparr>mpc := 0, nextbyte := 0, vpc := 0x20000\<rparr>, b, b, b]
        0 example_mem (example_state h0 0 0 0 [0, 0] [0, 0])"
    by (simp add: NCDecodeSegment_def Let_def b_def [symmetric] validator_callbacks_def NCDecodeRegisterCallbacks_def)
  obtain h1 where a1: "ValidateInst [m1, b, b, b] 0 example_mem (example_state h0 0 0 0 [0, 0] [0, 0]) =
           (example_mem, example_state h1 1 0 0 [1, 0] [0, 0])"
    using example_and [of "[m1, b, b, b]" h0] by (auto simp: m1_def)
  obtain h2 where a2: "ValidateInst [m1, m2, b, b] (Suc 0) example_mem (example_state h1 1 0 0 [1, 0] [0, 0]) =
           (example_mem, example_state h2 2 1 1 [1, 0] [0, 0])"
    using example_jmp [of "[m1, m2, b, b]" h1] by (auto simp: m1_def m2_def)
  obtain h3 where a3: "ValidateInst [m1, m2, m3, b] (Suc (Suc 0)) example_mem (example_state h2 2 1 1 [1, 0] [0, 0]) =
           (example_mem, example_state h3 3 2 1 [0x21, 0] [1, 0])"
    using example_jmp8 [of "[m1, m2, m3, b]" h2] by (auto simp: m3_def numeral_2_eq_2)
  let ?n = "\<lambda>m. b\<lparr>vpc := vpc m + of_nat (inst_length (inst m)), mpc := mpc m + inst_length (inst m), nextbyte := nextbyte m\<rparr>"
  have "segment_loop validator_callbacks nacl_tables 0x20007 [b\<lparr>mpc := 0, nextbyte := 0, vpc := 0x20000\<rparr>, b, b, b]
        0 example_mem (example_state h0 0 0 0 [0, 0] [0, 0]) =
      segment_loop validator_callbacks nacl_tables 0x20007 [m1, ?n m1, b, b]
        (Suc 0) example_mem (example_state h1 1 0 0 [1, 0] [0, 0])"
    by (subst segment_loop_step [where m = m1])
      (simp_all add: example_decode(1) a1 sel kDecodeBufferSize_def a1 [unfolded sel])
  also have "\<dots> = segment_loop validator_callbacks nacl_tables 0x20007 [m1, m2, ?n m2, b]
        (Suc (Suc 0)) example_mem (example_state h2 2 1 1 [1, 0] [0, 0])"
    by (subst segment_loop_step [where m = m2])
      (simp_all add: example_decode(2) a2 sel kDecodeBufferSize_def a2 [unfolded sel])
  also have "\<dots> = segment_loop validator_callbacks nacl_tables 0x20007 [m1, m2, m3, ?n m3]
        (Suc (Suc (Suc 0))) example_mem (example_state h3 3 2 1 [0x21, 0] [1, 0])"
    by (subst segment_loop_step [where m = m3])
      (simp_all add: example_decode(3) a3 sel kDecodeBufferSize_def a3 [unfolded sel])
  also have "\<dots> = Some (Inr (example_mem, example_state h3 3 2 1 [0x21, 0] [1, 0]))"
    by (rule segment_loop_end) (simp add: sel)
  finally show ?thesis using seg by auto
qed

lemma example_tables: "IATOffset (0x20008 - (0x20000 AND NOT (ucast (32 :: u8)))) + 1 = 2"
  by (simp add: IATOffset_def)

lemma example_init:
  "NCValidateInit False (True, True, True) 0x20000 0x20008 32 =
     (True, Some (example_state (replicate 256 0) 0 0 0 [0, 0] [0, 0]\<lparr>stats := zero_stats, cpufeatures := no_features\<rparr>))"
proof -
  have r: "replicate 2 0 = [0, 0 :: u8]" by (simp add: numeral_2_eq_2)
  have "zero_stats\<lparr>segfaults := 0\<rparr> = zero_stats" by (simp add: zero_stats_def)
  moreover have "segfaults zero_stats = 0" by (simp add: zero_stats_def)
  ultimately show ?thesis
    unfolding NCValidateInit_def Let_def example_tables r
    by (simp add: calloc_state_def Stats_Init_def InitOpcodeHisto_def example_state_def)
qed

lemma example_finish:
  "\<exists>v. NCValidateFinish (Some (example_state h 3 2 1 [0x21, 0] [1, 0])) = Some (0, Some v)"
proof -
  have "check_targets (example_state h 3 2 1 [0x21, 0] [1, 0]) = example_state h 3 3 1 [0x21, 0] [1, 0]"
    by (simp add: check_targets_def example_state_def upt_rec check_target_def GetAdrTable_def IATOffset_def
        IATMask_def iadrmasks_def Let_def Stats_CheckTarget_def zero_stats_def)
  moreover have "check_blocks 0 (example_state h 3 3 1 [0x21, 0] [1, 0]) = Some (example_state h 3 3 1 [0x21, 0] [1, 0])"
    by (subst check_blocks.simps, simp add: example_state_def GetAdrTable_def IATOffset_def IATMask_def
        iadrmasks_def Let_def, subst check_blocks.simps, simp)
  ultimately show ?thesis
    by (simp add: NCValidateFinish_def Let_def) (simp add: example_state_def zero_stats_def)
qed

lemma example_accepted:
  "NaClValidateImage (True, example_cpuid) nacl_tables False False (True, True, True) 0 8 32 example_mem =
     Some (Inr (example_mem, LOAD_OK))"
proof -
  let ?v = "example_state (replicate 256 0) 0 0 0 [0, 0] [0, 0]\<lparr>stats := zero_stats, cpufeatures := no_features\<rparr>"
  have f: "?v\<lparr>cpufeatures := GetCPUFeatures True example_cpuid no_features\<rparr> =
      example_state (replicate 256 0) 0 0 0 [0, 0] [0, 0]\<lparr>stats := zero_stats\<rparr>"
    by (simp add: example_state_def example_features_def)
  have c: "cpufeatures ?v = no_features" by simp
  obtain h where "NCDecodeSegment validator_callbacks nacl_tables example_mem 0x20000 7
        (example_state (replicate 256 0) 0 0 0 [0, 0] [0, 0]\<lparr>stats := zero_stats\<rparr>) =
      Some (Inr (example_mem, example_state h 3 2 1 [0x21, 0] [1, 0]))"
    using example_loop by blast
  then have "NCValidateSegment (True, example_cpuid) nacl_tables example_mem 0x20000 8 ?v =
      Some (Inr (example_mem, example_state h 3 2 1 [0x21, 0] [1, 0]))"
    unfolding NCValidateSegment_def Let_def fst_conv snd_conv NCValidatorState.select_convs c f
    using example_386 by (simp add: example_state_sel kNaClFullStop_def example_bytes)
  moreover obtain v where "NCValidateFinish (Some (example_state h 3 2 1 [0x21, 0] [1, 0])) = Some (0, Some v)"
    using example_finish by blast
  ultimately show ?thesis
    using example_init by (simp add: NaClValidateImage_def Let_def NACL_TRAMPOLINE_END_def)
qed

lemma example_room: "unat (0 + NACL_TRAMPOLINE_END) + unat (8 :: u32) + 32 \<le> 2 ^ 32"
  by (simp add: NACL_TRAMPOLINE_END_def)

section \<open>The theorems on it\<close>

lemma NaClValidateImage_sandboxed_witness:
  "\<exists>ms. sandboxed nacl_tables example_features example_mem 0x20000 8 32 ms \<and>
        example_mem = squash example_features example_mem ms"
  using NaClValidateImage_sandboxed [OF example_accepted example_room]
  by (simp add: Let_def NACL_TRAMPOLINE_END_def example_features_def)

lemma NaClValidateImage_answers_witness:
  "\<exists>mem' code. NaClValidateImage (True, example_cpuid) nacl_tables False False (True, True, True) 0 8 32
     (\<lambda>_. 0xcc) = Some (Inr (mem', code))"
  by (rule NaClValidateImage_answers [OF example_room])

lemma accepted_no_privileged_witness:
  "\<exists>ms. sandboxed nacl_tables example_features example_mem 0x20000 8 32 ms \<and>
        (\<forall>m \<in> set ms. \<not> forbidden example_mem m)"
  using accepted_no_privileged [OF example_accepted example_room]
  by (simp add: Let_def NACL_TRAMPOLINE_END_def example_features_def)

lemma accepted_control_flow_witness:
  "\<exists>ms. sandboxed nacl_tables example_features example_mem 0x20000 8 32 ms \<and>
        (\<forall>s. cf_reachable 31 example_features example_mem ms 0x20000 s \<longrightarrow> cf_safe 31 0x20000 8 example_mem ms s)"
  using accepted_control_flow [OF example_accepted example_room, of "0x20000"]
  by (simp add: Let_def NACL_TRAMPOLINE_END_def example_features_def)

theorem NaClValidateImage_decides_witness:
  "f_386 example_features \<and> (\<exists>ms. sandboxed nacl_tables example_features example_mem 0x20000 8 32 ms)"
proof -
  have "unat (0 + NACL_TRAMPOLINE_END) mod 64 = 0" by (simp add: NACL_TRAMPOLINE_END_def)
  from NaClValidateImage_decides [OF example_room this, of "(True, example_cpuid)" nacl_tables False 32 example_mem]
  show ?thesis
    using example_accepted by (simp add: Let_def NACL_TRAMPOLINE_END_def example_features_def [symmetric])
qed

end
