(* ===== verification/Sel_Load_Props.thy ===== *)
theory Sel_Load_Props
  imports Sys_Example Sel_App Nc_Example
begin

text \<open>
  What a module that \<open>NaClAppLoadFile\<close> has loaded is: the pages have exactly the protections of their
  regions, the memory system calls keep the sandbox from there, the text is a validated image that the installation of trampolines
  and springboard has not touched, and the entry point is a block boundary.
\<close>

section \<open>The headers\<close>

lemma load_headers_ok:
  assumes "load_headers vt env abi gp nap = Inr (LOAD_OK, gp', nap')"
  shows "space nap' = space nap" "stack_size nap' = NaClRoundAllocPage (stack_size nap)"
    "align_boundary nap' = 16 \<or> align_boundary nap' = 32"
proof -
  have "(align_boundary nap' = 16 \<or> align_boundary nap' = 32) \<and> space nap' = space nap \<and>
      stack_size nap' = NaClRoundAllocPage (stack_size nap)"
    using assms
    by (auto simp: load_headers_def the_align_boundary_def Let_def split: if_splits prod.splits option.splits)
  then show "space nap' = space nap" "stack_size nap' = NaClRoundAllocPage (stack_size nap)"
    "align_boundary nap' = 16 \<or> align_boundary nap' = 32" by auto
qed

lemma required_text: "required_seen seen \<Longrightarrow> seen ! 1 \<noteq> 0"
  unfolding required_seen_def by (auto simp: list_all2_conv_all_nth nacl_phdr_check_data_def dest: spec [of _ 1])

lemma NaClProcessPhdrs_ok:
  assumes ok: "NaClProcessPhdrs nap = (LOAD_OK, nap')" and bits: "18 \<le> addr_bits (space nap)" "addr_bits (space nap) < 32"
  shows "nap' = nap\<lparr>phdrs := phdrs nap', space := (space nap)\<lparr>text_region_bytes := text_region_bytes (space nap'),
      data_end := data_end (space nap'), break_addr := data_end (space nap')\<rparr>\<rparr>"
    "text_end (space nap') \<le> unat (data_end (space nap'))" "unat (data_end (space nap')) < 2 ^ addr_bits (space nap)"
    "\<forall>p \<in> set (phdrs nap'). will_load p \<longrightarrow> segment_ok (addr_bits (space nap)) (data_end (space nap')) p \<and>
       (p_flags p AND PF_X \<noteq> 0 \<longrightarrow> p_vaddr p = NACL_TRAMPOLINE_END \<and> p_filesz p = text_region_bytes (space nap'))"
proof -
  let ?s0 = "\<lparr>seen_seg = replicate (length nacl_phdr_check_data) 0, max_vaddr = NACL_TRAMPOLINE_END,
      text_bytes = text_region_bytes (space nap)\<rparr>"
  obtain err phps s where scan: "process_phdrs (addr_bits (space nap)) ?s0 (phdrs nap) = (err, phps, s)"
    by (cases "process_phdrs (addr_bits (space nap)) ?s0 (phdrs nap)") auto
  have fin: "err = LOAD_OK" "required_seen (seen_seg s)"
      "nap' = nap\<lparr>phdrs := phps, space := (space nap)\<lparr>text_region_bytes := text_bytes s, data_end := max_vaddr s,
         break_addr := max_vaddr s\<rparr>\<rparr>"
    using ok scan by (auto simp: NaClProcessPhdrs_def Let_def split: if_splits)
  have "(2 :: nat) ^ 18 \<le> 2 ^ addr_bits (space nap)" using bits(1) by (intro power_increasing) auto
  then have "scan_wf (addr_bits (space nap)) ?s0"
    by (simp add: scan_wf_def nacl_phdr_check_data_def NACL_TRAMPOLINE_END_def)
  from process_phdrs_ok [OF scan [unfolded fin(1)] this bits(2)]
  have wf: "scan_wf (addr_bits (space nap)) s" "\<forall>p \<in> set phps. scanned (addr_bits (space nap)) s p" by auto
  show "nap' = nap\<lparr>phdrs := phdrs nap', space := (space nap)\<lparr>text_region_bytes := text_region_bytes (space nap'),
      data_end := data_end (space nap'), break_addr := data_end (space nap')\<rparr>\<rparr>" by (simp add: fin(3))
  show "text_end (space nap') \<le> unat (data_end (space nap'))"
    using wf(1) required_text [OF fin(2)] by (simp add: fin(3) scan_wf_def text_end_def)
  show "unat (data_end (space nap')) < 2 ^ addr_bits (space nap)" using wf(1) by (simp add: fin(3) scan_wf_def)
  show "\<forall>p \<in> set (phdrs nap'). will_load p \<longrightarrow> segment_ok (addr_bits (space nap)) (data_end (space nap')) p \<and>
       (p_flags p AND PF_X \<noteq> 0 \<longrightarrow> p_vaddr p = NACL_TRAMPOLINE_END \<and> p_filesz p = text_region_bytes (space nap'))"
    using wf(2) by (auto simp: fin(3) scanned_def)
qed

section \<open>The address space\<close>

text \<open>The host places the block on a page, below the top of the address space of the process, as
  \<open>mmap\<close> does.\<close>

definition places :: "sys_env \<Rightarrow> u32 \<Rightarrow> bool" where
  "places env n \<longleftrightarrow> (\<forall>log pr fl a. host_of env log (Mmap 0 n pr fl None 0) = Inr a \<longrightarrow>
     unat a mod 4096 = 0 \<and> unat a + unat n < 4294967296)"

lemma make_hole_ok: "make_hole env sp hs n = (LOAD_OK, sp') \<Longrightarrow> \<exists>l. sp' = sp\<lparr>host_log := l\<rparr>"
  unfolding make_hole_def
  by (auto simp: NaCl_madvise_def NaCl_mprotect_def host_call_def split: if_splits sum.splits prod.splits)
    (metis NaClAppSpace.surjective NaClAppSpace.update_convs(12))+

definition placed :: "NaClAppLoad \<Rightarrow> NaClAppLoad \<Rightarrow> bool" where
  "placed nap nap' \<longleftrightarrow> (\<exists>a l m. nap' = nap\<lparr>image := m, space := (space nap)\<lparr>mem_start := a, xlate_base := a, host_log := l\<rparr>\<rparr>)"

lemma NaClAllocateSpace_ok:
  assumes "NaClAllocateSpace env nap n = (LOAD_OK, mem, nap')" and "places env n"
  shows "unat mem mod 4096 = 0" "unat mem + unat n < 4294967296"
    "\<exists>m l. nap' = nap\<lparr>image := m, space := (space nap)\<lparr>host_log := l\<rparr>\<rparr>"
proof -
  define op where "op = Mmap 0 n PROT_RWX (NACL_ABI_MAP_PRIVATE OR NACL_ABI_MAP_ANONYMOUS) None 0"
  have op: "host_of env (host_log (space nap)) op = Inr mem \<and>
      nap' = nap\<lparr>space := (space nap)\<lparr>host_log := host_log (space nap) @ [op]\<rparr>,
        image := fill_bytes (image nap) (unat mem) 0 (unat n)\<rparr>"
    using assms(1)
    by (auto simp: NaClAllocateSpace_def NaCl_page_alloc_def NaCl_page_alloc_intern_def host_call_def Let_def op_def
        NACL_ABI_ENOMEM_def split: if_splits sum.splits prod.splits)
  then show "unat mem mod 4096 = 0" "unat mem + unat n < 4294967296"
    using assms(2) unfolding places_def op_def by blast+
  have "nap' = nap\<lparr>image := fill_bytes (image nap) (unat mem) 0 (unat n),
      space := (space nap)\<lparr>host_log := host_log (space nap) @ [op]\<rparr>\<rparr>" using op by simp
  then show "\<exists>m l. nap' = nap\<lparr>image := m, space := (space nap)\<lparr>host_log := l\<rparr>\<rparr>" by blast
qed

lemma NaClAllocAddrSpace_ok:
  assumes ok: "NaClAllocAddrSpace env nap = (LOAD_OK, nap')" and places: "places env (space_size (space nap))"
    and bits: "18 \<le> addr_bits (space nap)" "addr_bits (space nap) < 32"
    and stack: "unat (stack_size nap) mod 65536 = 0" "unat (stack_size nap) \<le> 2 ^ addr_bits (space nap)"
    and data: "unat (data_end (space nap)) < 2 ^ addr_bits (space nap)"
  shows "placed nap nap'" "unat (mem_start (space nap')) mod 4096 = 0"
    "unat (mem_start (space nap')) + 2 ^ addr_bits (space nap) < 4294967296"
    "units (unat (data_end (space nap))) + unat (stack_size nap) \<le> 2 ^ addr_bits (space nap)"
proof -
  let ?sz = "space_size (space nap)" and ?n = "2 ^ addr_bits (space nap) :: nat"
  have sz: "unat ?sz = ?n" using bits(2) by (simp add: space_size_def unat_exp32 push_bit_eq_mult)
  obtain mem nap1 where al: "NaClAllocateSpace env nap ?sz = (LOAD_OK, mem, nap1)"
    using ok by (auto simp: NaClAllocAddrSpace_def Let_def split: if_splits prod.splits)
  note a = NaClAllocateSpace_ok [OF al places]
  obtain m l where nap1: "nap1 = nap\<lparr>image := m, space := (space nap)\<lparr>host_log := l\<rparr>\<rparr>" using a(3) by blast
  let ?sp = "(space nap)\<lparr>host_log := l, mem_start := mem, xlate_base := mem\<rparr>"
  let ?hs = "NaClRoundAllocPage (data_end (space nap))" and ?ss = "NaClTruncAllocPage (?sz - stack_size nap)"
  obtain sp where le: "\<not> ?ss < ?hs" and hole: "make_hole env ?sp ?hs (NaClTruncAllocPage (?ss - ?hs)) = (LOAD_OK, sp)"
      and nap': "nap' = nap\<lparr>image := m, space := sp\<rparr>"
    using ok al by (auto simp: NaClAllocAddrSpace_def Let_def nap1 space_size_def split: if_splits prod.splits)
  obtain ll where sp: "sp = ?sp\<lparr>host_log := ll\<rparr>" using make_hole_ok [OF hole] by blast
  have "(65536 :: nat) dvd ?n" using le_imp_power_dvd [of 16 "addr_bits (space nap)" "2 :: nat"] bits(1) by simp
  then have u: "(?n - unat (stack_size nap)) mod 65536 = 0" using stack(1) by (simp add: dvd_diff_nat mod_eq_0_iff_dvd)
  have lim: "?n \<le> 2147483648" using power_increasing [of "addr_bits (space nap)" 31 "2 :: nat"] bits(2) by simp
  have "unat ?ss = ?n - unat (stack_size nap)"
    using stack(2) u by (simp add: NaClTruncAllocPage_unat sz unat_minus_u32) (metis mod_0_imp_dvd dvd_div_mult_self)
  moreover have "unat ?hs = units (unat (data_end (space nap)))"
    using data lim by (simp add: NaClRoundAllocPage_unat units_def)
  ultimately show "units (unat (data_end (space nap))) + unat (stack_size nap) \<le> ?n"
    using le stack(2) by (simp add: word_less_nat_alt)
  show "unat (mem_start (space nap')) mod 4096 = 0" "unat (mem_start (space nap')) + ?n < 4294967296"
    using a(1,2) by (simp_all add: nap' sp sz)
  have "nap' = nap\<lparr>image := m, space := (space nap)\<lparr>mem_start := mem, xlate_base := mem, host_log := ll\<rparr>\<rparr>"
    by (simp add: nap' sp)
  then show "placed nap nap'" unfolding placed_def by blast
qed

section \<open>The image\<close>

lemma load_segments_ok:
  "load_segments vt gp nap phps = Inr (LOAD_OK, gp', nap') \<Longrightarrow> \<exists>m. nap' = nap\<lparr>image := m\<rparr>"
proof (induction phps arbitrary: gp nap)
  case Nil
  then have "nap' = nap\<lparr>image := image nap\<rparr>" by simp
  then show ?case by blast
next
  case (Cons php phps)
  show ?case
  proof (cases "will_load php")
    case True
    then obtain gp1 m where "load_segments vt gp1 (nap\<lparr>image := m\<rparr>) phps = Inr (LOAD_OK, gp', nap')"
      using Cons.prems by (auto simp: Let_def split: if_splits prod.splits)
    then show ?thesis using Cons.IH by fastforce
  qed (use Cons in auto)
qed

lemma NaClLoadImage_ok:
  assumes ok: "NaClLoadImage vt gp nap = Inr (LOAD_OK, gp', nap')"
  shows "\<exists>m. nap' = nap\<lparr>image := m, space := (space nap)\<lparr>text_region_bytes := NaClRoundPage (text_region_bytes (space nap))\<rparr>\<rparr>"
proof -
  obtain gp1 nap1 where seg: "load_segments vt gp nap (phdrs nap) = Inr (LOAD_OK, gp1, nap1)"
      and fill: "NaClFillEndOfTextRegion nap1 = Inr nap'"
    using ok by (auto simp: NaClLoadImage_def and_then_ok bind_result_eq_Inr)
  obtain m where nap1: "nap1 = nap\<lparr>image := m\<rparr>" using load_segments_ok [OF seg] by blast
  show ?thesis
    using fill unfolding nap1
    by (auto simp: NaClFillEndOfTextRegion_def NaClFillMemoryRegionWithHalt_def Let_def NACL_HALT_LEN_def
        bind_result_eq_Inr split: if_splits)
qed

text \<open>The templates fit where they are copied and their patches lie inside them.\<close>

definition templates_ok :: "load_env \<Rightarrow> bool" where
  "templates_ok env \<longleftrightarrow> unat (tramp_size env) \<le> 32 \<and> unat (springboard_size env) \<le> 16 \<and>
     6 \<le> unat (NACL_TRAMP_CSEG_PATCH env) \<and> unat (NACL_TRAMP_CSEG_PATCH env) \<le> unat (tramp_size env) \<and>
     4 \<le> unat (NACL_TRAMP_DSEG_PATCH env) \<and> unat (NACL_TRAMP_DSEG_PATCH env) \<le> unat (tramp_size env)"

lemma trampoline_local:
  assumes t: "templates_ok env" and room: "unat a + 32 \<le> 4294967296"
  shows "same_outside (unat a) 32 m (NaClPatchOneTrampoline env m a)"
proof -
  have u: "unat (NACL_TRAMP_CSEG_PATCH env - 6) = unat (NACL_TRAMP_CSEG_PATCH env) - 6"
      "unat (NACL_TRAMP_CSEG_PATCH env - 2) = unat (NACL_TRAMP_CSEG_PATCH env) - 2"
      "unat (NACL_TRAMP_DSEG_PATCH env - 4) = unat (NACL_TRAMP_DSEG_PATCH env) - 4"
    using t by (simp_all add: templates_ok_def unat_minus_u32)
  have e: "k + c - n - k = c - n" for k c n :: u32 by simp
  show ?thesis
    unfolding NaClPatchOneTrampoline_def
    by (rule same_outside_mono [OF patch_local])
      (use t room u in \<open>auto simp: patch_inside_def templates_ok_def e\<close>)
qed

lemma NaClLoadTrampoline_ok:
  assumes ok: "NaClLoadTrampoline env nap = Inr nap'" and t: "templates_ok env"
    and room: "unat (mem_start (space nap)) + 131072 \<le> 4294967296"
  shows "\<exists>m. nap' = nap\<lparr>image := m\<rparr> \<and> same_outside (unat (mem_start (space nap))) 131072 (image nap) m"
proof -
  let ?ms = "mem_start (space nap)"
  let ?a = "\<lambda>i. ?ms + NACL_SYSCALL_START_ADDR + of_nat i * NACL_SYSCALL_BLOCK_SIZE"
  let ?in = "same_outside (unat ?ms) 131072"
  define m1 where "m1 = fill_bytes (image nap) (unat ?ms) NACL_HALT_OPCODE (unat NACL_TRAMPOLINE_END)"
  have n: "unat ((NACL_TRAMPOLINE_END - NACL_SYSCALL_START_ADDR) div NACL_SYSCALL_BLOCK_SIZE) - 1 = 2047"
    by (simp add: NACL_TRAMPOLINE_END_def NACL_SYSCALL_START_ADDR_def NACL_SYSCALL_BLOCK_SIZE_def NACL_SYSCALL_BLOCK_SHIFT_def
        push_bit_eq_mult)
  have nap': "nap' = nap\<lparr>image := foldl (\<lambda>m i. NaClPatchOneTrampoline env m (?a i)) m1 [0..<2047]\<rparr>"
    using ok by (auto simp: NaClLoadTrampoline_def NaClFillTrampolineRegion_def NaClFillMemoryRegionWithHalt_def
        NACL_HALT_LEN_def bind_result_eq_Inr n [unfolded One_nat_def] m1_def Let_def)
  have a: "unat (?a i) = unat ?ms + 65536 + i * 32" if "i < 2047" for i
  proof -
    have "unat (of_nat i * NACL_SYSCALL_BLOCK_SIZE) = i * 32"
      using that by (simp add: NACL_SYSCALL_BLOCK_SIZE_def NACL_SYSCALL_BLOCK_SHIFT_def push_bit_eq_mult unat_word_ariths unat_of_nat)
    then show ?thesis using that room by (simp add: NACL_SYSCALL_START_ADDR_def unat_plus_u32)
  qed
  have "?in (image nap) m1"
    using same_outside_fill [of "unat ?ms" 131072 "image nap"] by (simp add: m1_def NACL_TRAMPOLINE_END_def)
  also have "?in m1 (foldl (\<lambda>m i. NaClPatchOneTrampoline env m (?a i)) m1 [0..<2047])"
  proof (rule same_outside_foldl)
    fix m i assume "i \<in> set [0..<2047 :: nat]"
    then have "i < 2047" by simp
    from a [OF this] show "?in m (NaClPatchOneTrampoline env m (?a i))"
      by (intro same_outside_mono [OF trampoline_local [OF t]]) (use \<open>i < 2047\<close> room in auto)
  qed
  finally show ?thesis using nap' by blast
qed

lemma NaClLoadSpringboard_ok:
  assumes t: "templates_ok env" and al: "align_boundary nap = 16 \<or> align_boundary nap = 32"
    and room: "unat (mem_start (space nap)) + 131072 \<le> 4294967296"
  shows "\<exists>m a. NaClLoadSpringboard env nap = nap\<lparr>image := m, springboard_addr := a\<rparr> \<and>
    same_outside (unat (mem_start (space nap))) 131072 (image nap) m"
proof -
  let ?addr = "NACL_TRAMPOLINE_END - word_of_int (align_boundary nap) :: u32"
  have a: "unat ?addr + 16 \<le> 131072" "unat ?addr < 131072"
    using al by (auto simp: NACL_TRAMPOLINE_END_def)
  define p where "p = \<lparr>rel32 = [], abs32 = [], abs16 = [], dst = mem_start (space nap) + ?addr,
      src = kSpringboardCode env, nbytes_patch = springboard_size env\<rparr>"
  have d: "unat (mem_start (space nap) + ?addr) = unat (mem_start (space nap)) + unat ?addr"
    using a room by (simp add: unat_plus_u32)
  have "same_outside (unat (dst p)) (unat (nbytes_patch p)) (image nap) (NaClApplyPatchToMemory (image nap) p)"
    by (rule patch_local) (use t a room d in \<open>simp add: patch_inside_def templates_ok_def p_def\<close>)
  then have "same_outside (unat (mem_start (space nap))) 131072 (image nap) (NaClApplyPatchToMemory (image nap) p)"
    by (rule same_outside_mono) (use t a d in \<open>simp_all add: templates_ok_def p_def\<close>)
  then show ?thesis by (auto simp: NaClLoadSpringboard_def Let_def p_def)
qed

text \<open>The validator writes nothing below the text.\<close>

lemma validate_image_ok:
  assumes "validate_image env nap = Inr (LOAD_OK, nap')"
  defines "base \<equiv> unat (mem_start (space nap) + NACL_TRAMPOLINE_END)"
  shows "\<exists>m. NaClValidateImage (cpu_of env) (tables_of env) (g_ignore_validator_result env) (inited_of env)
       (mem_ok_of env) (mem_start (space nap)) (text_region_bytes (space nap)) (align_boundary nap)
       (\<lambda>i. image nap (base + i)) = Some (Inr (m, LOAD_OK)) \<and>
     nap' = nap\<lparr>image := \<lambda>x. if x < base then image nap x else m (x - base)\<rparr>"
  using assms(1) unfolding validate_image_def Let_def base_def [symmetric]
  by (auto simp: bind_result_eq_Inr split: option.splits)

section \<open>The whole load\<close>

text \<open>The layout after a load: the pages of the memory map and the last calls of the host, three regions that
  do not overlap, inside the block. A module whose data end above the last page of its text leaves the state in
  which the memory system calls keep the sandbox.\<close>

definition laid_out :: "(nat \<Rightarrow> nat) \<Rightarrow> NaClAppLoad \<Rightarrow> bool" where
  "laid_out out nap \<longleftrightarrow>
     (let sp = space nap; data_top = units (unat (data_end sp)) in
       vm_view (vmap sp) = final_view (stack_size nap) sp \<and>
       (\<exists>log. host_log sp = log @ final_protections (stack_size nap) sp) \<and>
       text_end sp mod 4096 = 0 \<and> text_end sp \<le> data_top \<and> data_top + unat (stack_size nap) \<le> 2 ^ addr_bits sp \<and>
       unat (mem_start sp) mod 4096 = 0 \<and> unat (mem_start sp) + 2 ^ addr_bits sp < 4294967296 \<and>
       (text_end sp < unat (data_end sp) \<longrightarrow> Sys_Calls.sandboxed out sp))"

lemma protection_laid_out:
  assumes ready: "ready_to_protect (stack_size nap) (space nap)" and calm: "calm out (space nap)" and env: "env_ok env"
    and ok: "NaClMemoryProtection env nap = Inr (LOAD_OK, nap')"
  shows "laid_out out nap'" "grown (space nap) (space nap')"
proof -
  note l = protection_layout [OF ready env ok]
  note same = grown_same [OF l(3)]
  have st: "stack_size nap' = stack_size nap" using ok by (auto simp: NaClMemoryProtection_def on_space_ok)
  have "final_view st (space nap') = final_view st (space nap)" "final_protections st (space nap') = final_protections st (space nap)" for st
    unfolding final_view_def [abs_def] final_protections_def same by (rule refl)+
  then show "laid_out out nap'"
    using l(1,2) protection_sandboxes [OF ready calm env ok] ready ready_numbers(1,3,7) [OF ready]
    by (simp add: laid_out_def st same ready_to_protect_def)
  show "grown (space nap) (space nap')" by (rule l(3))
qed

text \<open>Installing the module: the address space is laid out, and above the trampolines the memory is
  what the validator has left.\<close>

lemma install_ok:
  assumes ok: "install env nap = Inr (LOAD_OK, nap')" and t: "templates_ok env"
    and al: "align_boundary nap = 16 \<or> align_boundary nap = 32"
    and ready: "ready_to_protect (stack_size nap) (space nap)" and calm: "calm out (space nap)"
    and env: "env_ok (sys_of env)"
  defines "base \<equiv> unat (mem_start (space nap) + NACL_TRAMPOLINE_END)"
  shows "laid_out out nap'" "grown (space nap) (space nap')"
    "align_boundary nap' = align_boundary nap" "entry_pt nap' = entry_pt nap"
    "\<exists>m. NaClValidateImage (cpu_of env) (tables_of env) (g_ignore_validator_result env) (inited_of env)
       (mem_ok_of env) (mem_start (space nap)) (text_region_bytes (space nap)) (align_boundary nap)
       (\<lambda>i. image nap (base + i)) = Some (Inr (m, LOAD_OK)) \<and> (\<forall>i. image nap' (base + i) = m i)"
proof -
  let ?ms = "mem_start (space nap)"
  have room: "unat ?ms + 131072 < 4294967296"
    using ready_numbers(2,3,4,7) [OF ready] by linarith
  then have b: "base = unat ?ms + 131072" by (simp add: base_def NACL_TRAMPOLINE_END_def unat_plus_u32)
  obtain nap1 nap2 where v: "validate_image env nap = Inr (LOAD_OK, nap1)" and tr: "NaClLoadTrampoline env nap1 = Inr nap2"
      and pr: "NaClMemoryProtection (sys_of env) (NaClLoadSpringboard env (NaClLoadTlsHook nap2)) = Inr (LOAD_OK, nap')"
    using ok by (auto simp: install_def and_then_ok bind_result_eq_Inr)
  obtain m where m: "NaClValidateImage (cpu_of env) (tables_of env) (g_ignore_validator_result env) (inited_of env)
       (mem_ok_of env) ?ms (text_region_bytes (space nap)) (align_boundary nap)
       (\<lambda>i. image nap (base + i)) = Some (Inr (m, LOAD_OK))"
      and nap1: "nap1 = nap\<lparr>image := \<lambda>x. if x < base then image nap x else m (x - base)\<rparr>"
    using validate_image_ok [OF v] unfolding base_def by blast
  have s1: "space nap1 = space nap" by (simp add: nap1)
  obtain m2 where nap2: "nap2 = nap1\<lparr>image := m2\<rparr>" "same_outside (unat ?ms) 131072 (image nap1) m2"
    using NaClLoadTrampoline_ok [OF tr t] room s1 by auto
  have s2: "space nap2 = space nap" "align_boundary nap2 = align_boundary nap" by (simp_all add: nap2 nap1)
  obtain m3 a where spring: "NaClLoadSpringboard env nap2 = nap2\<lparr>image := m3, springboard_addr := a\<rparr>"
      "same_outside (unat ?ms) 131072 (image nap2) m3"
    using NaClLoadSpringboard_ok [OF t, of nap2] al room s2 by auto
  let ?nap3 = "nap2\<lparr>image := m3, springboard_addr := a\<rparr>"
  have pr3: "NaClMemoryProtection (sys_of env) ?nap3 = Inr (LOAD_OK, nap')"
    using pr by (simp add: NaClLoadTlsHook_def spring(1))
  have s3: "space ?nap3 = space nap" "stack_size ?nap3 = stack_size nap" by (simp_all add: nap2 nap1)
  from protection_laid_out [OF _ _ env pr3] ready calm
  show "laid_out out nap'" "grown (space nap) (space nap')" unfolding s3 by blast+
  obtain sp where nap': "nap' = ?nap3\<lparr>space := sp\<rparr>" using pr3 by (auto simp: NaClMemoryProtection_def on_space_ok)
  show "align_boundary nap' = align_boundary nap" "entry_pt nap' = entry_pt nap" by (simp_all add: nap' nap2 nap1)
  have "image nap' (base + i) = m i" for i
    using nap2(2) spring(2) by (simp add: nap' same_outside_def b nap1 nap2)
  then show "\<exists>m. NaClValidateImage (cpu_of env) (tables_of env) (g_ignore_validator_result env) (inited_of env)
       (mem_ok_of env) ?ms (text_region_bytes (space nap)) (align_boundary nap)
       (\<lambda>i. image nap (base + i)) = Some (Inr (m, LOAD_OK)) \<and> (\<forall>i. image nap' (base + i) = m i)"
    using m by blast
qed

text \<open>An application before a load: empty memory map, tables with exact reference counts, no lock
  held, and a stack that fits the address space.\<close>

definition fresh :: "(nat \<Rightarrow> nat) \<Rightarrow> NaClAppLoad \<Rightarrow> bool" where
  "fresh out nap \<longleftrightarrow> calm out (space nap) \<and> map_holds (space nap) [] \<and> 18 \<le> addr_bits (space nap) \<and>
     0 < unat (stack_size nap) \<and> unat (stack_size nap) \<le> 2 ^ addr_bits (space nap)"

text \<open>No step of the installation moves the end of the text or of the data.\<close>

definition same_ends :: "NaClAppSpace \<Rightarrow> NaClAppSpace \<Rightarrow> bool" where
  "same_ends sp sp' \<longleftrightarrow> text_region_bytes sp' = text_region_bytes sp \<and> data_end sp' = data_end sp"

lemma protect_region_ends: "protect_region env k sp a n q pr = Inr (err, sp') \<Longrightarrow> same_ends sp sp'"
  by (auto simp: protect_region_def NaCl_mprotect_def host_call_def bind_result_eq_Inr put_vmap_def same_ends_def
      split: sum.splits prod.splits if_splits)

lemma NaClMemoryProtection_ends:
  assumes "NaClMemoryProtection env nap = Inr (LOAD_OK, nap')"
  shows "same_ends (space nap) (space nap')"
proof -
  obtain s1 s2 s3 s4 where "NaClMprotectNullRegion env (space nap) (mem_start (space nap)) = Inr (LOAD_OK, s1)"
      "protect_text env s1 = Inr (LOAD_OK, s2)" "protect_data env s2 = Inr (LOAD_OK, s3)"
      "protect_stack env (stack_size nap) s3 = Inr (LOAD_OK, s4)" "nap' = nap\<lparr>space := s4\<rparr>"
    using assms by (auto simp: NaClMemoryProtection_def on_space_ok and_then_ok)
  then show ?thesis
    unfolding NaClMprotectNullRegion_def protect_text_def protect_data_def protect_stack_def Let_def
    by (auto simp: same_ends_def dest!: protect_region_ends)
qed

lemma install_ends:
  assumes "install env nap = Inr (LOAD_OK, nap')"
  shows "same_ends (space nap) (space nap')"
proof -
  obtain nap1 nap2 where v: "validate_image env nap = Inr (LOAD_OK, nap1)" and tr: "NaClLoadTrampoline env nap1 = Inr nap2"
      and pr: "NaClMemoryProtection (sys_of env) (NaClLoadSpringboard env (NaClLoadTlsHook nap2)) = Inr (LOAD_OK, nap')"
    using assms by (auto simp: install_def and_then_ok bind_result_eq_Inr)
  have "space nap1 = space nap" using validate_image_ok [OF v] by auto
  moreover have "space nap2 = space nap1"
    using tr by (auto simp: NaClLoadTrampoline_def NaClFillTrampolineRegion_def bind_result_eq_Inr Let_def)
  moreover have "space (NaClLoadSpringboard env (NaClLoadTlsHook nap2)) = space nap2"
    by (simp add: NaClLoadSpringboard_def NaClLoadTlsHook_def Let_def)
  ultimately show ?thesis using NaClMemoryProtection_ends [OF pr] by simp
qed

lemma calm_moved:
  "calm out (sp\<lparr>mem_start := a, xlate_base := b, host_log := l\<rparr>) = calm out sp"
  "calm out (sp\<lparr>text_region_bytes := t\<rparr>) = calm out sp"
  "calm out (sp\<lparr>text_region_bytes := t, data_end := d, break_addr := e\<rparr>) = calm out sp"
  by (simp_all add: calm_def idle_def few_def table_refs_def)

lemma map_holds_moved:
  "map_holds (sp\<lparr>mem_start := a, xlate_base := b, host_log := l\<rparr>) es = map_holds sp es"
  "map_holds (sp\<lparr>text_region_bytes := t\<rparr>) es = map_holds sp es"
  "map_holds (sp\<lparr>text_region_bytes := t, data_end := d, break_addr := e\<rparr>) es = map_holds sp es"
  by (simp_all add: map_holds_def vmap_def)

lemma round_stack:
  assumes "0 < unat s" "unat s \<le> 2 ^ bits" "18 \<le> bits" "bits < 32"
  shows "0 < unat (NaClRoundAllocPage s)" "unat (NaClRoundAllocPage s) mod 65536 = 0"
    "unat (NaClRoundAllocPage s) \<le> 2 ^ bits"
proof -
  have lim: "(2 :: nat) ^ bits \<le> 2147483648" using power_increasing [of bits 31 "2 :: nat"] assms(4) by simp
  have "(65536 :: nat) dvd 2 ^ bits" using le_imp_power_dvd [of 16 bits "2 :: nat"] assms(3) by simp
  then obtain c where c: "(2 :: nat) ^ bits = c * 65536" by (auto simp: mult.commute elim: dvdE)
  have r: "unat (NaClRoundAllocPage s) = (unat s + 65535) div 65536 * 65536"
    using assms(2) lim by (intro NaClRoundAllocPage_unat) simp
  show "0 < unat (NaClRoundAllocPage s)" using assms(1) r by simp
  show "unat (NaClRoundAllocPage s) mod 65536 = 0" by (simp add: r)
  show "unat (NaClRoundAllocPage s) \<le> 2 ^ bits" using assms(2) r c by simp
qed

lemma load_stages:
  assumes ok: "NaClAppLoadFile vt env gp nap abi = Inr (LOAD_OK, gp', nap')" and fresh: "fresh out nap"
    and places: "places (sys_of env) (space_size (space nap))"
  obtains nap4 where "install env nap4 = Inr (LOAD_OK, nap')" "ready_to_protect (stack_size nap4) (space nap4)"
    "calm out (space nap4)" "align_boundary nap4 = 16 \<or> align_boundary nap4 = 32"
    "entry_pt nap4 AND (word_of_int (align_boundary nap4) - 1) = 0" "unat (entry_pt nap4) < text_end (space nap4)"
proof -
  obtain gp1 nap1 where h: "load_headers vt env abi gp nap = Inr (LOAD_OK, gp1, nap1)"
      and rest: "(case NaClProcessPhdrs nap1 of (err, nap) \<Rightarrow>
         if err \<noteq> LOAD_OK then Inr (err, gp1, nap)
         else if \<not> NaClAddrIsValidEntryPt nap (entry_pt nap) then Inr (LOAD_BAD_ENTRY, gp1, nap)
         else case NaClAllocAddrSpace (sys_of env) nap of (err, nap) \<Rightarrow>
           if err \<noteq> LOAD_OK then Inr (err, gp1, nap)
           else and_then (NaClLoadImage vt gp1 nap) (\<lambda>(gp, nap).
             bind_result (install env nap) (\<lambda>(err, nap). Inr (err, gp, nap)))) = Inr (LOAD_OK, gp', nap')"
    using ok unfolding NaClAppLoadFile_def and_then_ok by auto
  obtain e2 nap2 where e2: "NaClProcessPhdrs nap1 = (e2, nap2)" by (cases "NaClProcessPhdrs nap1") auto
  obtain e3 nap3 where e3: "NaClAllocAddrSpace (sys_of env) nap2 = (e3, nap3)" by (cases "NaClAllocAddrSpace (sys_of env) nap2") auto
  have ph: "NaClProcessPhdrs nap1 = (LOAD_OK, nap2)" and entry: "NaClAddrIsValidEntryPt nap2 (entry_pt nap2)"
      and alloc: "NaClAllocAddrSpace (sys_of env) nap2 = (LOAD_OK, nap3)"
      and rest3: "and_then (NaClLoadImage vt gp1 nap3) (\<lambda>(gp, nap).
             bind_result (install env nap) (\<lambda>(err, nap). Inr (err, gp, nap))) = Inr (LOAD_OK, gp', nap')"
    using rest e2 e3 by (simp_all split: if_splits)
  obtain gp4 nap4 where img: "NaClLoadImage vt gp1 nap3 = Inr (LOAD_OK, gp4, nap4)"
      and inst: "install env nap4 = Inr (LOAD_OK, nap')"
    using rest3 unfolding and_then_ok by (auto simp: bind_result_eq_Inr)
  let ?bits = "addr_bits (space nap)"
  note f = fresh [unfolded fresh_def]
  have "?bits \<le> NACL_MAX_ADDR_BITS" using h by (auto simp: load_headers_def split: if_splits)
  then have bits: "18 \<le> ?bits" "?bits < 32" using f by (auto simp: NACL_MAX_ADDR_BITS_def)
  note h1 = load_headers_ok [OF h]
  have stk: "0 < unat (stack_size nap)" "unat (stack_size nap) \<le> 2 ^ ?bits" using f by blast+
  note st = round_stack [OF stk bits, folded h1(2)]
  note p2 = NaClProcessPhdrs_ok [OF ph, unfolded h1(1), OF bits]
  have s2: "space nap2 = (space nap)\<lparr>text_region_bytes := text_region_bytes (space nap2),
      data_end := data_end (space nap2), break_addr := data_end (space nap2)\<rparr>"
      "stack_size nap2 = stack_size nap1" "align_boundary nap2 = align_boundary nap1" "entry_pt nap2 = entry_pt nap1"
    using arg_cong [OF p2(1), of space] arg_cong [OF p2(1), of stack_size] arg_cong [OF p2(1), of align_boundary]
      arg_cong [OF p2(1), of entry_pt] h1(1) by simp_all
  define t d where "t = text_region_bytes (space nap2)" and "d = data_end (space nap2)"
  have sp2: "space nap2 = (space nap)\<lparr>text_region_bytes := t, data_end := d, break_addr := d\<rparr>"
    using s2(1) unfolding t_def d_def .
  have td: "131072 + unat t \<le> unat d" "unat d < 2 ^ ?bits" using p2(2,3) sp2 by (simp_all add: text_end_def)
  have pl: "places (sys_of env) (space_size (space nap2))" using places by (simp add: sp2 space_size_def)
  have f2: "addr_bits (space nap2) = ?bits" "data_end (space nap2) = d" by (simp_all add: sp2)
  note a3 = NaClAllocAddrSpace_ok [OF alloc pl, unfolded f2, OF bits, unfolded s2(2), OF st(2,3) td(2)]
  obtain mem l m where nap3: "nap3 = nap2\<lparr>image := m, space := (space nap2)\<lparr>mem_start := mem, xlate_base := mem, host_log := l\<rparr>\<rparr>"
    using a3(1) unfolding placed_def by blast
  obtain m4 where nap4: "nap4 = nap3\<lparr>image := m4,
      space := (space nap3)\<lparr>text_region_bytes := NaClRoundPage (text_region_bytes (space nap3))\<rparr>\<rparr>"
    using NaClLoadImage_ok [OF img] by blast
  have sp4: "space nap4 = (space nap)\<lparr>text_region_bytes := t, data_end := d, break_addr := d\<rparr>
      \<lparr>mem_start := mem, xlate_base := mem, host_log := l\<rparr>\<lparr>text_region_bytes := NaClRoundPage t\<rparr>"
    by (simp add: nap4 nap3 sp2)
  have o4: "stack_size nap4 = stack_size nap1" "align_boundary nap4 = align_boundary nap1" "entry_pt nap4 = entry_pt nap2"
    by (simp_all add: nap4 nap3 s2(2-4))
  have lim: "(2 :: nat) ^ ?bits \<le> 2147483648" using power_increasing [of ?bits 31 "2 :: nat"] bits(2) by simp
  have top: "0 < unat d" "131072 + unat (NaClRoundPage t) \<le> units (unat d)"
  proof -
    show "0 < unat d" using td by simp
    have "unat (NaClRoundPage t) = (unat t + 4095) div 4096 * 4096" using td lim by (intro NaClRoundPage_unat) simp
    moreover define c where "c = (unat d + 65535) div 65536"
    have c: "units (unat d) = c * 65536" by (simp add: units_def c_def)
    then have c2: "2 \<le> c" "unat t \<le> (c * 16 - 32) * 4096" using td(1) units_le [of "unat d"] by simp_all
    have "(unat t + 4095) div 4096 \<le> ((c * 16 - 32) * 4096 + 4095) div 4096" using c2(2) by (intro div_le_mono) simp
    also have "\<dots> = c * 16 - 32" by simp
    ultimately show "131072 + unat (NaClRoundPage t) \<le> units (unat d)" using c c2(1) by simp
  qed
  have mem: "unat mem mod 4096 = 0" "unat mem + 2 ^ ?bits < 4294967296" using a3(2,3) by (simp_all add: nap3)
  have "ready_to_protect (stack_size nap4) (space nap4)"
    unfolding ready_to_protect_def sp4 o4 map_holds_moved
    using f bits td top mem st a3(4) alloc_page_mod(2) [of t]
    by (simp add: App_Space.geometry_def text_end_def)
  moreover have "calm out (space nap4)" unfolding sp4 calm_moved using f by blast
  moreover have "unat t \<le> unat (NaClRoundPage t)"
    using td lim by (simp add: NaClRoundPage_unat)
  then have "unat (entry_pt nap4) < text_end (space nap4)"
    using entry td lim by (simp add: NaClAddrIsValidEntryPt_def sp4 o4 text_end_def sp2 word_less_nat_alt
      NACL_TRAMPOLINE_END_def unat_plus_u32)
  moreover have "entry_pt nap4 AND (word_of_int (align_boundary nap4) - 1) = 0"
    using entry by (simp add: NaClAddrIsValidEntryPt_def o4 s2(3))
  moreover have "align_boundary nap4 = 16 \<or> align_boundary nap4 = 32" using h1(3) o4(2) by simp
  ultimately show ?thesis using that inst by blast
qed

text \<open>The start of a block is the same for the process and for the application.\<close>

lemma entry_aligned:
  assumes a: "unat (mem :: u32) mod 4096 = 0" and e: "(entry :: u32) AND (word_of_int al - 1) = 0" and al: "al = 16 \<or> al = 32"
    and room: "unat mem + unat entry < 4294967296"
  shows "(mem + entry) AND (ucast (word_of_int al :: u8) - 1) = 0"
proof -
  have m: "unat mem mod 16 = 0" "unat mem mod 32 = 0"
    using a mod_mod_cancel [of 16 4096 "unat mem"] mod_mod_cancel [of 32 4096 "unat mem"] by simp_all
  have k: "(w AND mask j = 0) = (unat w mod 2 ^ j = 0)" if "j < 32" for w :: u32 and j
  proof -
    have "w AND mask j = take_bit j w" by (simp add: take_bit_eq_mask)
    moreover have "take_bit j w = 0 \<longleftrightarrow> unat (take_bit j w) = 0" by (simp add: unat_eq_0)
    moreover have "unat (take_bit j w) = unat w mod 2 ^ j" by (simp only: unsigned_take_bit_eq) (simp add: take_bit_eq_mod)
    ultimately show ?thesis by simp
  qed
  have c: "(word_of_int al - 1 :: u32) = mask 4 \<and> ucast (word_of_int al :: u8) - 1 = (mask 4 :: u32) \<and> al = 16 \<or>
      (word_of_int al - 1 :: u32) = mask 5 \<and> ucast (word_of_int al :: u8) - 1 = (mask 5 :: u32) \<and> al = 32"
    using al by (auto simp: mask_eq_exp_minus_1)
  have u: "unat (mem + entry) = unat mem + unat entry" using room by (simp add: unat_plus_u32)
  show ?thesis
    using c
  proof (elim disjE conjE)
    assume "(word_of_int al - 1 :: u32) = mask 4" "ucast (word_of_int al :: u8) - 1 = (mask 4 :: u32)"
    then show ?thesis using e k [of 4 entry] k [of 4 "mem + entry"] m(1) u by (simp only: mod_add_eq) (simp add: mod_add_left_eq [symmetric])
  next
    assume "(word_of_int al - 1 :: u32) = mask 5" "ucast (word_of_int al :: u8) - 1 = (mask 5 :: u32)"
    then show ?thesis using e k [of 5 entry] k [of 5 "mem + entry"] m(2) u by (simp only: mod_add_eq) (simp add: mod_add_left_eq [symmetric])
  qed
qed

text \<open>The memory of an application from the start of its text is what the validator has left of an
  image that satisfies the contract, and a run of it that starts at the entry point (if that lies
  in the text) only ever reaches instructions of the image, its final HLT, trampolines and block
  boundaries outside the image.\<close>

definition holds_safe_text :: "load_env \<Rightarrow> NaClAppLoad \<Rightarrow> bool" where
  "holds_safe_text env nap \<longleftrightarrow>
     (let sp = space nap; features = GetCPUFeatures (fst (cpu_of env)) (snd (cpu_of env)) no_features;
          vbase = mem_start sp + NACL_TRAMPOLINE_END; sz = unat (text_region_bytes sp);
          al = word_of_int (align_boundary nap) :: u8; entry = mem_start sp + entry_pt nap
      in \<exists>orig ms. Nc_Safety.sandboxed (tables_of env) features orig vbase sz al ms \<and>
           (\<forall>i. image nap (unat vbase + i) = squash features orig ms i) \<and>
           (vbase \<le> entry \<longrightarrow> (\<forall>s. cf_reachable (ucast al - 1) features orig ms entry s \<longrightarrow>
              cf_safe (ucast al - 1) vbase sz orig ms s)))"

text \<open>C1: What the loader promises. A module loaded without an error into a fresh application, with
  the repository's decoding tables and the validator's verdict respected, is confined. Its memory map is exactly
  this: the first 64 KB inaccessible, the trampolines and the text readable and executable and not writable, the
  data up to their last 64 KB unit and the stack readable and writable and not executable, nothing else mapped;
  the last calls of the host set these very protections; the three regions do not overlap and lie inside the block.
  If the data end above the last page of the text, this is a state in which the memory system calls keep
  the sandbox (exact reference counts included). The bytes of the text are
  those of an image the validator has accepted, untouched by the trampolines and the springboard
  that were installed after the validation; the entry point is a block boundary below the end of the text;
  and execution that enters there stays within checked instructions, trampolines and block
  boundaries. The host's \<open>mmap\<close> places the block on a page and the templates have room.\<close>

theorem loaded_module_confined:
  assumes ok: "NaClAppLoadFile vt env gp nap abi = Inr (LOAD_OK, gp', nap')" and fresh: "fresh out nap"
    and env: "env_ok (sys_of env)" "places (sys_of env) (space_size (space nap))" "templates_ok env"
    and tables: "tables_of env = nacl_tables" and verdict: "\<not> g_ignore_validator_result env"
  shows "laid_out out nap' \<and> holds_safe_text env nap' \<and>
    entry_pt nap' AND (word_of_int (align_boundary nap') - 1) = 0 \<and> unat (entry_pt nap') < text_end (space nap')"
proof -
  obtain nap4 where inst: "install env nap4 = Inr (LOAD_OK, nap')" and ready: "ready_to_protect (stack_size nap4) (space nap4)"
      and calm: "calm out (space nap4)" and al: "align_boundary nap4 = 16 \<or> align_boundary nap4 = 32"
      and entry: "entry_pt nap4 AND (word_of_int (align_boundary nap4) - 1) = 0" "unat (entry_pt nap4) < text_end (space nap4)"
    using load_stages [OF ok fresh env(2)] by blast
  note io = install_ok [OF inst env(3) al ready calm env(1)]
  note same = grown_same [OF io(2)]
  let ?ms = "mem_start (space nap4)" and ?tb = "text_region_bytes (space nap4)" and ?en = "entry_pt nap4"
  let ?vb = "?ms + NACL_TRAMPOLINE_END"
  have "65536 \<le> unat (stack_size nap4)"
    using ready by (intro dvd_imp_le) (simp_all add: ready_to_protect_def mod_eq_0_iff_dvd)
  then have num: "text_end (space nap4) + 65536 \<le> 2 ^ addr_bits (space nap4)" "unat ?ms + 2 ^ addr_bits (space nap4) < 4294967296"
      "unat ?ms mod 4096 = 0"
    using ready ready_numbers(3,7) [OF ready] by (auto simp: ready_to_protect_def)
  have vb: "unat ?vb = unat ?ms + 131072" using num by (simp add: text_end_def NACL_TRAMPOLINE_END_def unat_plus_u32)
  have room: "unat ?vb + unat ?tb + 32 \<le> 2 ^ 32" using num vb by (simp add: text_end_def)
  have me: "unat (?ms + ?en) = unat ?ms + unat ?en" using num entry(2) by (simp add: unat_plus_u32)
  have below: "?ms + ?en < ?vb + ?tb"
    using num vb me entry(2) by (simp add: word_less_nat_alt text_end_def unat_plus_u32)
  have aligned: "(?ms + ?en) AND (ucast (word_of_int (align_boundary nap4) :: u8) - 1) = 0"
    by (rule entry_aligned [OF num(3) entry(1) al]) (use num entry(2) in simp)
  obtain m where acc: "NaClValidateImage (cpu_of env) nacl_tables False (inited_of env) (mem_ok_of env) ?ms ?tb
      (align_boundary nap4) (\<lambda>i. image nap4 (unat ?vb + i)) = Some (Inr (m, LOAD_OK))"
      and m: "\<forall>i. image nap' (unat ?vb + i) = m i"
    using io(5) tables verdict by auto
  let ?orig = "\<lambda>i. image nap4 (unat ?vb + i)" and ?f = "GetCPUFeatures (fst (cpu_of env)) (snd (cpu_of env)) no_features"
  obtain ms where ms: "Nc_Safety.sandboxed nacl_tables ?f ?orig ?vb (unat ?tb) (word_of_int (align_boundary nap4)) ms"
      "m = squash ?f ?orig ms"
    using NaClValidateImage_accept [OF acc room] by (auto simp: Let_def)
  have flow: "cf_safe (ucast (word_of_int (align_boundary nap4) :: u8) - 1) ?vb (unat ?tb) ?orig ms s"
    if "?vb \<le> ?ms + ?en"
      "cf_reachable (ucast (word_of_int (align_boundary nap4) :: u8) - 1) ?f ?orig ms (?ms + ?en) s" for s
    by (rule sandboxed_flow [OF ms(1) room tables_good_jmpz [OF nacl_tables_good] aligned that(1) below that(2)])
  have "holds_safe_text env nap'"
    unfolding holds_safe_text_def Let_def same io(3,4) tables
    by (intro exI conjI) (rule ms(1), use m ms(2) in blast, use flow in blast)
  then show ?thesis using io(1,3,4) entry same by simp
qed

end
