(* ===== verification/Nc_Hlt.thy ===== *)
theory Nc_Hlt
  imports Nc_Example
begin

text \<open>
  A page of HLT satisfies the contract of the validator, with the repository's tables.
\<close>

definition hlt_inst :: "nat \<Rightarrow> u32 \<Rightarrow> NCDecoderState" where
  "hlt_inst a p = \<lparr>mpc = a, nextbyte = a + 1, vpc = p,
     opinfo = \<lparr>insttype = NACLi_386, hasmrmbyte = 0, op_immtype = IMM_NONE, opinmrm = 0\<rparr>,
     inst = \<lparr>vaddr = p, maddr = a, prefixbytes = 0, hasopbyte2 = False, hasopbyte3 = False,
             hassibbyte = False, mrm = 0, immtype = IMM_NONE, dispbytes = 0, inst_length = 1,
             prefixmask = 0, rexprefix = 0\<rparr>,
     internal_errors = 0\<rparr>"

lemma hlt_opcode:
  "kDecode1ByteOp nacl_tables 0xf4 = \<lparr>insttype = NACLi_386, hasmrmbyte = 0, op_immtype = IMM_NONE, opinmrm = 0\<rparr>"
  by (simp add: nacl_entries(1) entry_defs)

lemma hlt_prefix: "kPrefixTable nacl_tables 0xf4 = 0"
  by (simp add: nacl_entries(3) entry_defs)

lemma prefix_free: "kPrefixTable T (mem (nextbyte m)) = 0 \<Longrightarrow> ConsumePrefixBytes T mem m = m"
  by (simp add: ConsumePrefixBytes_def kMaxPrefixBytes_def numeral_eq_Suc)

lemma decode_hlt:
  assumes "m a = 0xf4" shows "decode_inst nacl_tables m (blank_state a p) = Inr (hlt_inst a p)"
proof -
  let ?b = "InitDecoder (blank_state a p)"
  let ?e = "kDecode1ByteOp nacl_tables 0xf4"
  define c where "c = ?b\<lparr>nextbyte := a + 1, opinfo := ?e, inst := (inst ?b)\<lparr>immtype := op_immtype ?e\<rparr>\<rparr>"
  have b: "nextbyte ?b = a" by (simp add: InitDecoder_def blank_state_def)
  have "ConsumePrefixBytes nacl_tables m ?b = ?b" by (rule prefix_free) (simp only: b assms hlt_prefix)
  moreover have "ConsumeOpcodeBytes nacl_tables m ?b = c"
    by (simp add: ConsumeOpcodeBytes_def Let_def b assms kTwoByteOpcodeByte1_def c_def)
  moreover have c: "hasmrmbyte (opinfo c) = 0" "\<not> hassibbyte (inst c)" "insttype (opinfo c) \<noteq> NACLi_3DNOW"
    by (simp_all add: c_def hlt_opcode InitDecoder_def blank_state_def)
  have "ConsumeModRM nacl_tables m c = Inr c" using c(1) by (simp add: ConsumeModRM_def)
  moreover have "ConsumeSIB m c = c" using c(2) by (simp add: ConsumeSIB_def)
  moreover have "ConsumeID c = hlt_inst a p"
    by (simp add: ConsumeID_def Let_def imm_size_def c_def hlt_opcode InitDecoder_def blank_state_def hlt_inst_def)
  moreover have "MaybeGet3ByteOpInfo nacl_tables m (hlt_inst a p) = hlt_inst a p"
    by (simp add: MaybeGet3ByteOpInfo_def hlt_inst_def)
  ultimately show ?thesis by (simp add: decode_inst_def)
qed

definition hlt_page :: "u32 \<Rightarrow> nat \<Rightarrow> nat \<Rightarrow> NCDecoderState list" where
  "hlt_page vbase a n = map (\<lambda>k. hlt_inst k (vbase + of_nat k)) [a..<a + n]"

lemma trace_hlt:
  "(\<And>k. a \<le> k \<Longrightarrow> k < a + n \<Longrightarrow> m k = 0xf4) \<Longrightarrow>
     trace_from nacl_tables m a (vbase + of_nat a) (hlt_page vbase a n) (a + n)"
proof (induction n arbitrary: a)
  case (Suc n)
  have "hlt_page vbase a (Suc n) = hlt_inst a (vbase + of_nat a) # hlt_page vbase (a + 1) n"
    by (simp add: hlt_page_def upt_conv_Cons del: upt_Suc)
  moreover have "trace_from nacl_tables m (a + 1) (vbase + of_nat (a + 1)) (hlt_page vbase (a + 1) n) (a + 1 + n)"
    by (rule Suc.IH) (use Suc.prems in simp)
  ultimately show ?case
    using decode_hlt [of m a "vbase + of_nat a"] Suc.prems [of a] by (simp add: hlt_inst_def ac_simps)
qed (simp add: hlt_page_def)

lemma set_hlt_page: "x \<in> set (hlt_page vbase 0 n) \<longleftrightarrow> (\<exists>k < n. x = hlt_inst k (vbase + of_nat k))"
  by (auto simp: hlt_page_def image_iff)

lemma hlt_contract:
  assumes m: "\<And>k. k < 4096 \<Longrightarrow> m k = 0xf4" and vbase: "vbase AND 31 = 0"
  shows "sandboxed nacl_tables cpu m vbase 4096 32 (hlt_page vbase 0 4095)"
proof -
  let ?ms = "hlt_page vbase 0 4095"
  have checked: "inst_checked 31 m prev (hlt_inst k p)" for prev k p
    by (simp add: inst_checked_def hlt_inst_def prefix_ok_def length_ok_def kMaxValidInstLength_def jump_ok_def indirect_ok_def)
  have "all_checked 31 cpu m ?ms"
    unfolding all_checked_def
  proof (intro allI impI)
    fix xs x ys assume ms: "?ms = xs @ x # ys"
    then have "x \<in> set ?ms" by simp
    then obtain k where x: "x = hlt_inst k (vbase + of_nat k)" unfolding set_hlt_page by blast
    have "prev_is xs (if xs = [] then blank_state 0 0 else last xs)" by (simp add: prev_is_def blank_state_def)
    then show "\<exists>prev. prev_is xs prev \<and> inst_checked 31 m prev x \<and>
        (insttype (opinfo x) = NACLi_INDIRECT \<longrightarrow> \<not> squash_needed cpu m prev)"
      using checked unfolding x by (auto simp: hlt_inst_def)
  qed
  moreover have "trace_from nacl_tables m 0 vbase ?ms 4095"
    using trace_hlt [of 0 4095 m vbase] m by simp
  moreover have "direct_target m x = None" if x: "x \<in> set ?ms" for x
  proof -
    obtain k where "x = hlt_inst k (vbase + of_nat k)" using x unfolding set_hlt_page by blast
    then show ?thesis by (simp add: direct_target_def hlt_inst_def Let_def)
  qed
  moreover have "safe_target ?ms (vbase + of_nat (k * 32))" if "k * 32 < 4096" for k
  proof -
    have "k * 32 < 4095" using that by presburger
    then have "hlt_inst (k * 32) (vbase + of_nat (k * 32)) \<in> set ?ms" unfolding set_hlt_page by blast
    then show ?thesis unfolding safe_target_def by (rule bexI [rotated]) (simp add: hlt_inst_def)
  qed
  ultimately show ?thesis using m vbase by (simp add: sandboxed_def kNaClFullStop_def)
qed

end
