(* ===== verification/Sel_Load_Example.thy ===== *)
theory Sel_Load_Example
  imports Sel_Load_Props Nc_Hlt
begin

text \<open>
  A module that loads: one byte of text (HLT, which the loader pads with HLT to a page), a data
  segment of 256 zero bytes, and the headers. The validator accepts the page by its completeness.
\<close>

section \<open>The file\<close>

definition demo_ehdr :: Elf32_Ehdr where
  "demo_ehdr = \<lparr>e_ident = [0x7f, 0x45, 0x4c, 0x46, 1, 1, 1, 123, 6, 0, 0, 0, 0, 0, 0, 0], e_type = 2, e_machine = 3,
     e_version = 1, e_entry = 0x20000, e_phoff = 52, e_shoff = 0, e_flags = 0x200000, e_ehsize = 52, e_phentsize = 32,
     e_phnum = 2, e_shentsize = 0, e_shnum = 0, e_shstrndx = 0\<rparr>"

definition demo_text :: Elf32_Phdr where
  "demo_text = \<lparr>p_type = 1, p_offset = 116, p_vaddr = 0x20000, p_paddr = 0x20000, p_filesz = 1, p_memsz = 1,
     p_flags = 5, p_align = 0x1000\<rparr>"

definition demo_data :: Elf32_Phdr where
  "demo_data = \<lparr>p_type = 1, p_offset = 117, p_vaddr = 0x30000, p_paddr = 0x30000, p_filesz = 0, p_memsz = 0x100,
     p_flags = 6, p_align = 0x1000\<rparr>"

definition demo_file :: "u8 list" where
  "demo_file = Ehdr_bytes demo_ehdr @ Phdr_bytes demo_text @ Phdr_bytes demo_data @ [0xf4]"

definition demo_at :: "nat \<Rightarrow> GioMemoryFile" where
  "demo_at pos = \<lparr>buffer = demo_file, curpos = pos\<rparr>"

lemma demo_lengths [simp]:
  "length (Ehdr_bytes demo_ehdr) = 52" "length (Phdr_bytes p) = 32" "length demo_file = 117"
  by (simp_all add: Ehdr_bytes_def Phdr_bytes_def demo_ehdr_def demo_file_def)

lemma demo_reads:
  "Read kGioMemoryFileVtbl (demo_at 0) 52 = (52, Ehdr_bytes demo_ehdr, demo_at 52)"
  "Read kGioMemoryFileVtbl (demo_at 52) 32 = (32, Phdr_bytes demo_text, demo_at 84)"
  "Read kGioMemoryFileVtbl (demo_at 84) 32 = (32, Phdr_bytes demo_data, demo_at 116)"
  "Read kGioMemoryFileVtbl (demo_at 116) 1 = (1, [0xf4], demo_at 117)"
  "Read kGioMemoryFileVtbl (demo_at k) 0 = (0, [], demo_at k)"
  by (simp_all add: kGioMemoryFileVtbl_def GioMemoryFileRead_def Let_def demo_at_def)
    (simp_all add: demo_file_def)

lemma demo_seeks:
  "unat off \<le> 117 \<Longrightarrow> Seek kGioMemoryFileVtbl (demo_at k) off = (sint off, demo_at (unat off))"
  by (simp add: kGioMemoryFileVtbl_def GioMemoryFileSeek_def demo_at_def)

section \<open>The application and its surroundings\<close>

definition demo_lenv :: load_env where
  "demo_lenv = \<lparr>sys_of = demo_env, phdrs_ok = True, cpu_of = (True, example_cpuid), tables_of = nacl_tables,
     g_ignore_validator_result = False, inited_of = False, mem_ok_of = (True, True, True), kTrampolineCode = 0x8000,
     tramp_size = 32, NACL_TRAMP_CSEG_PATCH = 12, NACL_TRAMP_DSEG_PATCH = 20, NaClSyscallSeg = 0x9000,
     nacl_global_cs = 0x73, nacl_global_ds = 0x7b, kSpringboardCode = 0xa000, springboard_size = 16\<rparr>"

definition demo_app :: NaClAppLoad where
  "demo_app = demo_load\<lparr>stack_size := 0x1000000, entry_pt := 0, phdrs := [],
     space := demo_fresh\<lparr>mem_start := 0, text_region_bytes := 0, data_end := 0\<rparr>\<rparr>"

lemma demo_ctor: "NaClAppCtor (\<lambda>_. True) demo_load = Some demo_app"
proof -
  have "DynArrayCtor True True 2 = Some dyn_demo" by code_simp
  then show ?thesis
    by (simp add: NaClAppCtor_def NaClVmmapCtor_def Let_def NaClSyncQueueCtor_def demo_app_def demo_load_def demo_fresh_def
        NACL_DEFAULT_STACK_MAX_def NACL_MAX_ADDR_BITS_def push_bit_eq_mult)
qed

lemma demo_app_fresh: "fresh (\<lambda>_. 0) demo_app"
proof -
  have "calm (\<lambda>_. 0) (space demo_app)"
    using demo_calm by (simp add: calm_def idle_def few_def table_refs_def demo_app_def)
  moreover have "map_holds (space demo_app) []"
    using demo_ready by (simp add: ready_to_protect_def map_holds_def vmap_def demo_app_def)
  ultimately show ?thesis by (simp add: fresh_def) (simp add: demo_app_def demo_fresh_def)
qed

lemma demo_lenv_ok: "env_ok (sys_of demo_lenv)" "places (sys_of demo_lenv) (space_size (space demo_app))" "templates_ok demo_lenv"
  using demo_env_ok
  by (simp_all add: demo_lenv_def places_def templates_ok_def demo_env_def demo_host_def space_size_def demo_app_def demo_fresh_def
      push_bit_eq_mult)

section \<open>The load\<close>

definition demo_app1 :: NaClAppLoad where
  "demo_app1 = demo_app\<lparr>elf_hdr := demo_ehdr, entry_pt := 0x20000, align_boundary := 32, phdrs := [demo_text, demo_data]\<rparr>"

lemma demo_header_read: "Ehdr_of (overlay (Ehdr_bytes demo_ehdr) (Ehdr_bytes (elf_hdr demo_app))) = demo_ehdr"
proof -
  have "length (Ehdr_bytes (elf_hdr demo_app)) = 36"
    by (simp add: demo_app_def demo_load_def Ehdr_bytes_def Ehdr_of_def)
  then show ?thesis
    using Ehdr_of_bytes [of demo_ehdr] by (simp add: overlay_def) (simp add: demo_ehdr_def)
qed

lemma demo_header_fields:
  "NaClValidateElfHeader demo_ehdr NACL_ABI_MISMATCH_OPTION_ABORT = LOAD_OK" "the_align_boundary demo_ehdr = Some 32"
  "e_phnum demo_ehdr = 2" "e_phentsize demo_ehdr = 32" "e_phoff demo_ehdr = 52" "e_entry demo_ehdr = 0x20000"
  by code_simp+

lemma demo_phdrs_read:
  "read_phdrs kGioMemoryFileVtbl demo_ehdr (demo_at 52) 0 2 [] = (LOAD_OK, demo_at 116, [demo_text, demo_data])"
  unfolding numeral_2_eq_2 read_phdrs.simps
  by (simp add: demo_seeks demo_header_fields PHDR_SIZE_def demo_reads Phdr_of_bytes)

lemma demo_headers:
  "load_headers kGioMemoryFileVtbl demo_lenv NACL_ABI_MISMATCH_OPTION_ABORT (demo_at 0) demo_app = Inr (LOAD_OK, demo_at 116, demo_app1)"
proof -
  have "NaClRoundAllocPage (stack_size demo_app) = 0x1000000" by code_simp
  moreover have "\<not> NACL_MAX_ADDR_BITS < addr_bits (space demo_app)" by code_simp
  ultimately show ?thesis
    by (simp add: load_headers_def Let_def EHDR_SIZE_def demo_reads demo_header_read demo_header_fields
        NACL_MAX_PROGRAM_HEADERS_def PHDR_SIZE_def demo_phdrs_read) (simp add: demo_app1_def demo_lenv_def demo_app_def)
qed

definition demo_loaded :: "Elf32_Phdr list" where
  "demo_loaded = [demo_text\<lparr>p_flags := 0x00100005\<rparr>, demo_data\<lparr>p_flags := 0x00100006\<rparr>]"

definition demo_app2 :: NaClAppLoad where
  "demo_app2 = demo_app1\<lparr>phdrs := demo_loaded,
     space := (space demo_app1)\<lparr>text_region_bytes := 1, data_end := 0x30100, break_addr := 0x30100\<rparr>\<rparr>"

lemma demo_scan: "NaClProcessPhdrs demo_app1 = (LOAD_OK, demo_app2)"
proof -
  have "process_phdrs 25 \<lparr>seen_seg = [0, 0, 0, 0, 0], max_vaddr = NACL_TRAMPOLINE_END, text_bytes = 0\<rparr> [demo_text, demo_data] =
      (LOAD_OK, demo_loaded, \<lparr>seen_seg = [0, 1, 0, 1, 0], max_vaddr = 0x30100, text_bytes = 1\<rparr>)"
    by code_simp
  moreover have "required_seen [0, 1, 0, 1, 0]" by code_simp
  moreover have "replicate (length nacl_phdr_check_data) 0 = [0, 0, 0, 0, 0 :: nat]" by (simp add: nacl_phdr_check_data_def)
  ultimately show ?thesis
    by (simp add: NaClProcessPhdrs_def Let_def demo_app2_def) (simp add: demo_app1_def demo_app_def demo_fresh_def)
qed

lemma demo_entry: "NaClAddrIsValidEntryPt demo_app2 (entry_pt demo_app2)"
  by code_simp

definition demo_space3 :: NaClAppSpace where
  "demo_space3 = (space demo_app2)\<lparr>mem_start := 0x10000000, xlate_base := 0x10000000,
     host_log := [Mmap 0 0x2000000 PROT_RWX (NACL_ABI_MAP_PRIVATE OR NACL_ABI_MAP_ANONYMOUS) None 0,
       Madvise 0x10040000 0xfc0000 4, Mprotect 0x10040000 0xfc0000 0]\<rparr>"

lemma demo_alloc: "\<exists>m. NaClAllocAddrSpace demo_env demo_app2 = (LOAD_OK, demo_app2\<lparr>image := m, space := demo_space3\<rparr>)"
proof -
  have r: "NaClRoundAllocPage 0x30100 = 0x40000" "NaClTruncAllocPage 0x1000000 = 0x1000000"
      "NaClTruncAllocPage 0xfc0000 = 0xfc0000" by code_simp+
  have f: "space_size (space demo_app2) = 0x2000000" "host_log (space demo_app2) = []" "data_end (space demo_app2) = 0x30100"
      "stack_size demo_app2 = 0x1000000" "addr_bits (space demo_app2) = 25"
    by (simp_all add: demo_app2_def demo_app1_def demo_app_def demo_fresh_def space_size_def push_bit_eq_mult)
  then have f2: "space_size (space demo_app2\<lparr>host_log := l, mem_start := a, xlate_base := b\<rparr>) = 0x2000000" for l a b
    by (simp add: space_size_def)
  have "NaClAllocAddrSpace demo_env demo_app2 =
      (LOAD_OK, demo_app2\<lparr>image := fill_bytes (image demo_app2) 0x10000000 0 0x2000000, space := demo_space3\<rparr>)"
    by (simp add: NaClAllocAddrSpace_def NaClAllocateSpace_def NaCl_page_alloc_def NaCl_page_alloc_intern_def host_call_def
        demo_env_def demo_host_def make_hole_def NaCl_madvise_def NaCl_mprotect_def MADV_DONTNEED_def Let_def f f2 r demo_space3_def)
  then show ?thesis by blast
qed

lemma demo_space3: "mem_start demo_space3 = 0x10000000" "addr_bits demo_space3 = 25" "text_region_bytes demo_space3 = 1"
  by (simp_all add: demo_space3_def) (simp_all add: demo_app2_def demo_app1_def demo_app_def demo_fresh_def)

text \<open>The text is a page of HLT.\<close>

lemma demo_image:
  "\<exists>m. NaClLoadImage kGioMemoryFileVtbl (demo_at 116) (demo_app2\<lparr>image := m0, space := demo_space3\<rparr>) =
     Inr (LOAD_OK, demo_at 117, demo_app2\<lparr>image := m, space := demo_space3\<lparr>text_region_bytes := 0x1000\<rparr>\<rparr>) \<and>
     (\<forall>k < 4096. m (0x10020000 + k) = 0xf4)"
proof -
  define m1 where "m1 = store_bytes (store_bytes m0 0x10020000 [0xf4]) 0x10030000 []"
  define m where "m = fill_bytes m1 0x10020001 NACL_HALT_OPCODE 0xfff"
  have sz: "space_size demo_space3 = 0x2000000" by (simp add: space_size_def demo_space3 push_bit_eq_mult)
  have "load_segments kGioMemoryFileVtbl (demo_at 116) (demo_app2\<lparr>image := m0, space := demo_space3\<rparr>) demo_loaded =
      Inr (LOAD_OK, demo_at 117, demo_app2\<lparr>image := m1, space := demo_space3\<rparr>)"
    by (simp add: demo_loaded_def will_load_def PF_OS_WILL_LOAD_value demo_text_def demo_data_def Let_def sz demo_space3
        demo_seeks demo_reads(5) demo_reads(4) [unfolded One_nat_def] m1_def)
  moreover have "NaClFillEndOfTextRegion (demo_app2\<lparr>image := m1, space := demo_space3\<rparr>) =
      Inr (demo_app2\<lparr>image := m, space := demo_space3\<lparr>text_region_bytes := 0x1000\<rparr>\<rparr>)"
  proof -
    have "NaClRoundPage 1 = 0x1000" by code_simp
    then show ?thesis
      by (simp add: NaClFillEndOfTextRegion_def NaClFillMemoryRegionWithHalt_def Let_def demo_space3 NACL_HALT_LEN_def
          NACL_PAGESIZE_def NACL_PAGESHIFT_def NACL_TRAMPOLINE_END_def m_def)
  qed
  moreover have "phdrs demo_app2 = demo_loaded" by (simp add: demo_app2_def)
  moreover have "m (0x10020000 + k) = 0xf4" if "k < 4096" for k
    using that by (auto simp: m_def m1_def fill_bytes_def store_bytes_def NACL_HALT_OPCODE_def not_less_eq_eq)
  ultimately show ?thesis by (auto simp: NaClLoadImage_def and_then_def)
qed

definition demo_space4 :: NaClAppSpace where
  "demo_space4 = demo_space3\<lparr>text_region_bytes := 0x1000\<rparr>"

lemma demo_protect:
  assumes "space nap = demo_space4" "stack_size nap = 0x1000000"
  shows "\<exists>sp. NaClMemoryProtection demo_env nap = Inr (LOAD_OK, nap\<lparr>space := sp\<rparr>)"
proof -
  let ?r = "\<lambda>sp stack. and_then (and_then (and_then (NaClMprotectNullRegion demo_env sp (mem_start sp))
      (protect_text demo_env)) (protect_data demo_env)) (protect_stack demo_env stack)"
  have "map_sum id fst (?r demo_space4 0x1000000) = Inr LOAD_OK" by code_simp
  then obtain sp where "?r demo_space4 0x1000000 = Inr (LOAD_OK, sp)" by (cases "?r demo_space4 0x1000000") auto
  then show ?thesis using assms by (auto simp: NaClMemoryProtection_def on_space_def)
qed

lemma demo_validate:
  assumes m: "\<And>k. k < 4096 \<Longrightarrow> image nap (0x10020000 + k) = 0xf4" and sp: "space nap = demo_space4" "align_boundary nap = 32"
  shows "\<exists>m'. validate_image demo_lenv nap = Inr (LOAD_OK, nap\<lparr>image := m'\<rparr>)"
proof -
  have f: "mem_start demo_space4 = 0x10000000" "text_region_bytes demo_space4 = 0x1000"
    by (simp_all add: demo_space4_def demo_space3)
  have vb: "(0x10000000 :: u32) + NACL_TRAMPOLINE_END = 0x10020000" by (simp add: NACL_TRAMPOLINE_END_def)
  have "Nc_Safety.sandboxed nacl_tables example_features (\<lambda>k. image nap (0x10020000 + k)) 0x10020000 4096 32 (hlt_page 0x10020000 0 4095)"
    by (rule hlt_contract) (use m in simp_all)
  then have s: "Nc_Safety.sandboxed nacl_tables example_features (\<lambda>k. image nap (0x10020000 + k)) (0x10000000 + NACL_TRAMPOLINE_END)
      (unat (0x1000 :: u32)) (word_of_int 32) (hlt_page 0x10020000 0 4095)" unfolding vb by simp
  obtain m' where "NaClValidateImage (True, example_cpuid) nacl_tables False False (True, True, True) 0x10000000 0x1000 32
      (\<lambda>k. image nap (0x10020000 + k)) = Some (Inr (m', LOAD_OK))"
    using NaClValidateImage_complete [OF s, of "(True, example_cpuid)" False False] example_386 vb
    by (auto simp: example_features_def)
  moreover have "unat ((0x10000000 :: u32) + NACL_TRAMPOLINE_END) = 0x10020000" unfolding vb by simp
  ultimately show ?thesis
    using sp f by (auto simp: validate_image_def demo_lenv_def Let_def)
qed

lemma demo_install:
  assumes m: "\<And>k. k < 4096 \<Longrightarrow> image nap (0x10020000 + k) = 0xf4" and sp: "space nap = demo_space4" "align_boundary nap = 32"
    and st: "stack_size nap = 0x1000000"
  shows "\<exists>nap'. install demo_lenv nap = Inr (LOAD_OK, nap')"
proof -
  obtain m1 where v: "validate_image demo_lenv nap = Inr (LOAD_OK, nap\<lparr>image := m1\<rparr>)" using demo_validate [OF m sp] by blast
  obtain m2 where t: "NaClLoadTrampoline demo_lenv (nap\<lparr>image := m1\<rparr>) = Inr (nap\<lparr>image := m2\<rparr>)"
    by (simp add: NaClLoadTrampoline_def NaClFillTrampolineRegion_def NaClFillMemoryRegionWithHalt_def NACL_HALT_LEN_def Let_def)
  let ?n = "NaClLoadSpringboard demo_lenv (NaClLoadTlsHook (nap\<lparr>image := m2\<rparr>))"
  have "space ?n = demo_space4" "stack_size ?n = 0x1000000"
    using sp st by (simp_all add: NaClLoadSpringboard_def NaClLoadTlsHook_def Let_def)
  from demo_protect [OF this] obtain s where "NaClMemoryProtection demo_env ?n = Inr (LOAD_OK, ?n\<lparr>space := s\<rparr>)" by blast
  then show ?thesis using v t by (simp add: install_def and_then_def demo_lenv_def)
qed

lemma demo_loads:
  "\<exists>nap'. NaClAppLoadFile kGioMemoryFileVtbl demo_lenv (demo_at 0) demo_app NACL_ABI_MISMATCH_OPTION_ABORT =
     Inr (LOAD_OK, demo_at 117, nap') \<and> same_ends demo_space4 (space nap')"
proof -
  obtain m where al: "NaClAllocAddrSpace demo_env demo_app2 = (LOAD_OK, demo_app2\<lparr>image := m, space := demo_space3\<rparr>)"
    using demo_alloc by blast
  obtain m2 where im: "NaClLoadImage kGioMemoryFileVtbl (demo_at 116) (demo_app2\<lparr>image := m, space := demo_space3\<rparr>) =
      Inr (LOAD_OK, demo_at 117, demo_app2\<lparr>image := m2, space := demo_space4\<rparr>)" "\<forall>k < 4096. m2 (0x10020000 + k) = 0xf4"
    using demo_image [of m] by (auto simp: demo_space4_def)
  have "align_boundary demo_app2 = 32" "stack_size demo_app2 = 0x1000000" by (simp_all add: demo_app2_def demo_app1_def demo_app_def)
  then obtain nap' where ins: "install demo_lenv (demo_app2\<lparr>image := m2, space := demo_space4\<rparr>) = Inr (LOAD_OK, nap')"
    using demo_install [of "demo_app2\<lparr>image := m2, space := demo_space4\<rparr>"] im(2) by auto
  have "sys_of demo_lenv = demo_env" by (simp add: demo_lenv_def)
  then have "NaClAppLoadFile kGioMemoryFileVtbl demo_lenv (demo_at 0) demo_app NACL_ABI_MISMATCH_OPTION_ABORT =
      Inr (LOAD_OK, demo_at 117, nap')"
    by (simp add: NaClAppLoadFile_def demo_headers and_then_def demo_scan demo_entry al im(1) ins)
  then show ?thesis using install_ends [OF ins] by auto
qed

theorem loaded_module_confined_witness:
  "\<exists>nap'. NaClAppLoadFile kGioMemoryFileVtbl demo_lenv (demo_at 0) demo_app NACL_ABI_MISMATCH_OPTION_ABORT =
     Inr (LOAD_OK, demo_at 117, nap') \<and> Sys_Calls.sandboxed (\<lambda>_. 0) (space nap') \<and> holds_safe_text demo_lenv nap' \<and>
     vm_view (vmap (space nap')) 0x20 = Some (5, None)"
proof -
  obtain nap' where ok: "NaClAppLoadFile kGioMemoryFileVtbl demo_lenv (demo_at 0) demo_app NACL_ABI_MISMATCH_OPTION_ABORT =
      Inr (LOAD_OK, demo_at 117, nap')" and e: "same_ends demo_space4 (space nap')" using demo_loads by blast
  have "text_end (space nap') < unat (data_end (space nap'))" "text_end (space nap') = 0x21000"
    using e by (simp_all add: same_ends_def text_end_def demo_space4_def demo_space3_def) (simp add: demo_app2_def)
  moreover from loaded_module_confined [OF ok demo_app_fresh demo_lenv_ok]
  have "laid_out (\<lambda>_. 0) nap'" "holds_safe_text demo_lenv nap'" by (simp_all add: demo_lenv_def)
  ultimately show ?thesis using ok by (auto simp: laid_out_def Let_def final_view_def prot_consts)
qed

end
