(* ===== verification/Srpc_Buffer.thy ===== *)
theory Srpc_Buffer
  imports Nacl_Prelude
begin

text \<open>
  The message buffer of SRPC (shared/srpc/imc\_buffer.c), in the trusted 32-bit build: a descriptor
  is a pointer (a \<open>nat\<close>, NULL is 0), \<open>size_t\<close> is \<open>u32\<close>. \<open>memcpy\<close> on a range that is not inside
  the 128 KB array is \<open>Inl OutOfBounds\<close>. \<open>unread\<close> and \<open>written\<close> are the abstract contents of a
  buffer: the bytes a reader has not consumed, and the bytes a writer has put. The \<open>NaClImcRecvTypedMessage\<close>
  and \<open>NaClImcSendTypedMessage\<close> calls are parameters (their result and the received message).
\<close>

section \<open>Little-endian bytes\<close>

definition le_bytes :: "nat \<Rightarrow> 'a::len word \<Rightarrow> u8 list" where
  "le_bytes n w = map (\<lambda>i. ucast (drop_bit (8 * i) w)) [0..<n]"

definition of_le :: "u8 list \<Rightarrow> 'a::len word" where
  "of_le bs = foldr (\<lambda>b w. ucast b OR push_bit 8 w) bs 0"

lemma length_le_bytes [simp]: "length (le_bytes n w) = n"
  by (simp add: le_bytes_def)

lemma bit_of_le:
  "bit (of_le bs :: 'a::len word) i \<longleftrightarrow> i < LENGTH('a) \<and> i div 8 < length bs \<and> bit (bs ! (i div 8)) (i mod 8)"
proof (induction bs arbitrary: i)
  case Nil
  then show ?case by (simp add: of_le_def)
next
  case (Cons b bs)
  have "of_le (b # bs) = ucast b OR push_bit 8 (of_le bs :: 'a word)" by (simp add: of_le_def)
  then have e: "bit (of_le (b # bs) :: 'a word) i \<longleftrightarrow>
      i < LENGTH('a) \<and> (bit b i \<or> 8 \<le> i \<and> bit (of_le bs :: 'a word) (i - 8))"
    by (auto simp: bit_or_iff bit_push_bit_iff bit_ucast_iff possible_bit_word dest: bit_imp_le_length)
  show ?case
  proof (cases "i < 8")
    case True
    then show ?thesis by (simp add: e)
  next
    case False
    then have "i div 8 = Suc ((i - 8) div 8)" "i mod 8 = (i - 8) mod 8"
      using le_div_geq [of 8 i] le_mod_geq [of 8 i] by simp_all
    moreover have "\<not> bit b i" using False bit_imp_le_length [of b i] by auto
    ultimately show ?thesis using False by (auto simp: e Cons.IH)
  qed
qed

lemma of_le_bytes:
  assumes "LENGTH('a) \<le> 8 * n"
  shows "of_le (le_bytes n w) = (w :: 'a::len word)"
proof (rule bit_word_eqI)
  fix i assume i: "i < LENGTH('a)"
  then have "i div 8 < n" using assms by (simp add: less_mult_imp_div_less mult.commute)
  then have "le_bytes n w ! (i div 8) = ucast (drop_bit (8 * (i div 8)) w)" by (simp add: le_bytes_def)
  then show "bit (of_le (le_bytes n w) :: 'a word) i = bit w i"
    using i \<open>i div 8 < n\<close> by (simp add: bit_of_le bit_ucast_iff bit_drop_bit_eq)
qed

section \<open>The buffer\<close>

definition SIZE_T_MAX :: u32 where "SIZE_T_MAX = NOT 0"
definition NACL_ABI_IMC_USER_BYTES_MAX :: nat where "NACL_ABI_IMC_USER_BYTES_MAX = 131072"
definition SRPC_DESC_MAX :: nat where "SRPC_DESC_MAX = 8"

type_synonym NaClSrpcImcDescType = nat

definition NACL_SRPC_IMC_INVALID_DESC :: NaClSrpcImcDescType where "NACL_SRPC_IMC_INVALID_DESC = 0"

record NaClSrpcImcBuffer =
  iov_length :: u32
  desc_length :: u32
  next_desc :: u32
  next_byte :: u32
  last_byte :: u32
  descs :: "NaClSrpcImcDescType list"
  buf_bytes :: "u8 list"

text \<open>The constructor leaves \<open>next_desc\<close> and the two arrays as they are.\<close>

definition NaClSrpcImcBufferCtor :: "NaClSrpcImcBuffer \<Rightarrow> bool \<Rightarrow> NaClSrpcImcBuffer" where
  "NaClSrpcImcBufferCtor buffer is_write_buf = buffer\<lparr>
     iov_length := of_nat (length (buf_bytes buffer)),
     desc_length := (if is_write_buf then 0 else of_nat (length (descs buffer))),
     next_byte := 0, last_byte := 0\<rparr>"

text \<open>\<open>__NaClSrpcImcRead\<close> also returns the bytes copied to \<open>target\<close>.\<close>

definition NaClSrpcImcRead ::
    "NaClSrpcImcBuffer \<Rightarrow> u32 \<Rightarrow> u32 \<Rightarrow> (int \<times> u8 list \<times> NaClSrpcImcBuffer) result" where
  "NaClSrpcImcRead buffer elt_size n_elt =
     (let avail_bytes = last_byte buffer - next_byte buffer
      in if n_elt \<ge> SIZE_T_MAX div elt_size then Inr (-1, [], buffer)
         else let request_bytes = n_elt * elt_size
         in if avail_bytes \<ge> request_bytes then
              (if unat (next_byte buffer) + unat request_bytes > length (buf_bytes buffer) then Inl OutOfBounds
               else Inr (sint n_elt, take (unat request_bytes) (drop (unat (next_byte buffer)) (buf_bytes buffer)),
                         buffer\<lparr>next_byte := next_byte buffer + request_bytes\<rparr>))
            else Inr (-1, [], buffer))"

definition NaClSrpcImcReadDesc :: "NaClSrpcImcBuffer \<Rightarrow> (NaClSrpcImcDescType \<times> NaClSrpcImcBuffer) result" where
  "NaClSrpcImcReadDesc buffer =
     (let desc_index = next_desc buffer
      in if desc_index \<ge> desc_length buffer then Inr (NACL_SRPC_IMC_INVALID_DESC, buffer)
         else if unat desc_index \<ge> length (descs buffer) then Inl OutOfBounds
         else Inr (descs buffer ! unat desc_index, buffer\<lparr>next_desc := next_desc buffer + 1\<rparr>))"

definition NaClSrpcImcRefill :: "NaClSrpcImcBuffer \<Rightarrow> NaClSrpcImcBuffer" where
  "NaClSrpcImcRefill buffer = buffer\<lparr>next_byte := 0, next_desc := 0\<rparr>"

text \<open>\<open>source\<close> holds \<open>n_elt\<close> elements of \<open>elt_size\<close> bytes.\<close>

definition NaClSrpcImcWrite ::
    "u8 list \<Rightarrow> u32 \<Rightarrow> u32 \<Rightarrow> NaClSrpcImcBuffer \<Rightarrow> (int \<times> NaClSrpcImcBuffer) result" where
  "NaClSrpcImcWrite source elt_size n_elt buffer =
     (let avail_bytes = of_nat (length (buf_bytes buffer)) - next_byte buffer
      in if n_elt \<ge> SIZE_T_MAX div elt_size then Inr (-1, buffer)
         else let request_bytes = n_elt * elt_size
         in if avail_bytes < request_bytes then Inr (-1, buffer)
            else if unat (next_byte buffer) + unat request_bytes > length (buf_bytes buffer) \<or>
                    length source < unat request_bytes then Inl OutOfBounds
            else Inr (sint n_elt, buffer\<lparr>
              buf_bytes := take (unat (next_byte buffer)) (buf_bytes buffer) @ take (unat request_bytes) source @
                           drop (unat (next_byte buffer) + unat request_bytes) (buf_bytes buffer),
              next_byte := next_byte buffer + request_bytes\<rparr>))"

definition NaClSrpcImcWriteDesc :: "NaClSrpcImcDescType \<Rightarrow> NaClSrpcImcBuffer \<Rightarrow> (int \<times> NaClSrpcImcBuffer) result" where
  "NaClSrpcImcWriteDesc desc buffer =
     (let desc_index = sint (desc_length buffer)
      in if int SRPC_DESC_MAX \<le> desc_index then Inr (0, buffer)
         else if desc_index < 0 \<or> nat desc_index \<ge> length (descs buffer) then Inl OutOfBounds
         else Inr (1, buffer\<lparr>descs := (descs buffer)[nat desc_index := desc],
                             desc_length := desc_length buffer + 1\<rparr>))"

text \<open>\<open>__NaClSrpcImcFillbuf\<close>: \<open>msg\<close> is what the receive call returns, its byte count or a negative
  error, with the bytes, descriptors and descriptor count that it stores. \<open>None\<close> is NULL.\<close>

definition NaClSrpcImcFillbuf ::
    "int \<times> u8 list \<times> NaClSrpcImcDescType list \<times> u32 \<Rightarrow> NaClSrpcImcBuffer \<Rightarrow> NaClSrpcImcBuffer option \<times> NaClSrpcImcBuffer" where
  "NaClSrpcImcFillbuf msg buffer =
     (case msg of (retval, data, ds, n) \<Rightarrow>
        let buffer = buffer\<lparr>iov_length := of_nat (length (buf_bytes buffer)), desc_length := of_nat SRPC_DESC_MAX\<rparr>;
            buffer = buffer\<lparr>buf_bytes := data @ drop (length data) (buf_bytes buffer),
                            descs := ds @ drop (length ds) (descs buffer), desc_length := n\<rparr>;
            buffer = buffer\<lparr>next_desc := 0\<rparr>
        in if 0 \<le> retval then
             let buffer = buffer\<lparr>next_byte := 0, last_byte := word_of_int retval\<rparr> in (Some buffer, buffer)
           else (None, buffer))"

text \<open>\<open>__NaClSrpcImcFlush\<close>: \<open>send\<close> is the result of the send call as a function of the bytes and
  descriptors of the message; the message is returned too.\<close>

definition NaClSrpcImcFlush ::
    "(u8 list \<Rightarrow> NaClSrpcImcDescType list \<Rightarrow> int) \<Rightarrow> NaClSrpcImcBuffer
      \<Rightarrow> int \<times> (u8 list \<times> NaClSrpcImcDescType list) \<times> NaClSrpcImcBuffer" where
  "NaClSrpcImcFlush send buffer =
     (let buffer = buffer\<lparr>iov_length := next_byte buffer\<rparr>;
          data = take (unat (iov_length buffer)) (buf_bytes buffer);
          ds = take (unat (desc_length buffer)) (descs buffer);
          retval = send data ds;
          buffer = buffer\<lparr>desc_length := 0, next_desc := 0, next_byte := 0\<rparr>
      in (if word_of_int retval \<noteq> iov_length buffer then 0 else 1, (data, ds), buffer))"

section \<open>Reading\<close>

definition rbuf_ok :: "NaClSrpcImcBuffer \<Rightarrow> bool" where
  "rbuf_ok b \<longleftrightarrow> length (buf_bytes b) = NACL_ABI_IMC_USER_BYTES_MAX \<and> length (descs b) = SRPC_DESC_MAX \<and>
     unat (next_byte b) \<le> unat (last_byte b) \<and> unat (last_byte b) \<le> NACL_ABI_IMC_USER_BYTES_MAX \<and>
     unat (desc_length b) \<le> SRPC_DESC_MAX"

definition unread :: "NaClSrpcImcBuffer \<Rightarrow> u8 list" where
  "unread b = take (unat (last_byte b) - unat (next_byte b)) (drop (unat (next_byte b)) (buf_bytes b))"

definition unread_descs :: "NaClSrpcImcBuffer \<Rightarrow> NaClSrpcImcDescType list" where
  "unread_descs b = drop (unat (next_desc b)) (take (unat (desc_length b)) (descs b))"

definition advance :: "nat \<Rightarrow> NaClSrpcImcBuffer \<Rightarrow> NaClSrpcImcBuffer" where
  "advance n b = b\<lparr>next_byte := next_byte b + of_nat n\<rparr>"

lemma unat_of_nat_u32: "n < 4294967296 \<Longrightarrow> unat (of_nat n :: u32) = n"
  by (simp add: unat_of_nat take_bit_eq_mod)

lemma length_unread: "rbuf_ok b \<Longrightarrow> length (unread b) = unat (last_byte b) - unat (next_byte b)"
  by (auto simp: rbuf_ok_def unread_def)

lemma unread_small: "rbuf_ok b \<Longrightarrow> length (unread b) \<le> NACL_ABI_IMC_USER_BYTES_MAX"
  by (auto simp: length_unread rbuf_ok_def)

lemma advance_ok:
  assumes "rbuf_ok b" and "n \<le> length (unread b)"
  shows "rbuf_ok (advance n b)" and "unread (advance n b) = drop n (unread b)"
    and "unread_descs (advance n b) = unread_descs b"
proof -
  have n: "n \<le> unat (last_byte b) - unat (next_byte b)" "n < 4294967296"
    using assms unread_small [OF assms(1)] by (simp_all add: length_unread NACL_ABI_IMC_USER_BYTES_MAX_def)
  have "unat (next_byte b) + n < 4294967296"
    using assms(1) n by (auto simp: rbuf_ok_def NACL_ABI_IMC_USER_BYTES_MAX_def)
  then have u: "unat (next_byte b + of_nat n) = unat (next_byte b) + n"
    by (subst unat_plus_u32) (simp_all add: unat_of_nat_u32 n(2))
  show "rbuf_ok (advance n b)" using assms(1) n u by (auto simp: rbuf_ok_def advance_def)
  show "unread (advance n b) = drop n (unread b)"
    by (simp add: unread_def advance_def u drop_take) (simp add: add.commute)
  show "unread_descs (advance n b) = unread_descs b" by (simp add: unread_descs_def advance_def)
qed

lemma unat_SIZE_T_MAX: "unat SIZE_T_MAX = 4294967295"
  by (simp add: SIZE_T_MAX_def unsigned_minus_1_eq_mask mask_eq_exp_minus_1)

lemma product_fits:
  assumes "\<not> 4294967295 div b \<le> a"
  shows "a * b < (4294967296 :: nat)"
proof -
  have "a * b \<le> 4294967295 div b * b" using assms by simp
  also have "\<dots> \<le> 4294967295" by (rule div_times_less_eq_dividend)
  finally show ?thesis by simp
qed

text \<open>A read either delivers the next bytes of the stream or fails without moving.\<close>

lemma Read_spec:
  assumes b: "rbuf_ok b" and es: "0 < unat es"
  shows "NaClSrpcImcRead b es n =
    (if unat n \<ge> 4294967295 div unat es \<or> length (unread b) < unat n * unat es then Inr (-1, [], b)
     else Inr (sint n, take (unat n * unat es) (unread b), advance (unat n * unat es) b))"
proof -
  have max: "SIZE_T_MAX div es \<le> n \<longleftrightarrow> 4294967295 div unat es \<le> unat n"
    by (simp add: word_le_nat_alt unat_div unat_SIZE_T_MAX)
  show ?thesis
  proof (cases "4294967295 div unat es \<le> unat n")
    case True
    then show ?thesis using max by (simp add: NaClSrpcImcRead_def Let_def)
  next
    case False
    then have "unat n * unat es < 4294967296" by (rule product_fits)
    then have m: "unat (n * es) = unat n * unat es" by (simp add: unat_word_ariths)
    have a: "unat (last_byte b - next_byte b) = length (unread b)"
      using b by (simp add: length_unread unat_minus_u32 rbuf_ok_def)
    have adv: "n * es = of_nat (unat n * unat es)" by simp
    show ?thesis
    proof (cases "length (unread b) < unat n * unat es")
      case True
      then show ?thesis using False max a m by (simp add: NaClSrpcImcRead_def Let_def word_le_nat_alt)
    next
      case fits: False
      then have "unat (next_byte b) + unat n * unat es \<le> length (buf_bytes b)"
        using b length_unread [OF b] unfolding rbuf_ok_def by linarith
      moreover have "take (unat n * unat es) (drop (unat (next_byte b)) (buf_bytes b)) = take (unat n * unat es) (unread b)"
        using fits unfolding length_unread [OF b] by (simp add: unread_def min_absorb1)
      ultimately show ?thesis
        using False fits max a m by (simp add: NaClSrpcImcRead_def Let_def word_le_nat_alt advance_def)
    qed
  qed
qed

lemma ReadDesc_spec:
  assumes "rbuf_ok b"
  shows "NaClSrpcImcReadDesc b =
    (case unread_descs b of [] \<Rightarrow> Inr (NACL_SRPC_IMC_INVALID_DESC, b)
     | d # ds \<Rightarrow> Inr (d, b\<lparr>next_desc := next_desc b + 1\<rparr>))"
proof (cases "unat (next_desc b) < unat (desc_length b)")
  case True
  moreover have "unat (desc_length b) \<le> length (descs b)" using assms by (simp add: rbuf_ok_def)
  ultimately have "unread_descs b = descs b ! unat (next_desc b) # drop (Suc (unat (next_desc b))) (take (unat (desc_length b)) (descs b))"
    by (simp add: unread_descs_def Cons_nth_drop_Suc [symmetric])
  then show ?thesis
    using True \<open>unat (desc_length b) \<le> length (descs b)\<close>
    by (simp add: NaClSrpcImcReadDesc_def Let_def word_le_nat_alt)
next
  case False
  then show ?thesis by (simp add: NaClSrpcImcReadDesc_def Let_def word_le_nat_alt unread_descs_def)
qed

lemma next_desc_ok:
  assumes "rbuf_ok b" and "unread_descs b = d # ds"
  shows "rbuf_ok (b\<lparr>next_desc := next_desc b + 1\<rparr>)" and "unread (b\<lparr>next_desc := next_desc b + 1\<rparr>) = unread b"
    and "unread_descs (b\<lparr>next_desc := next_desc b + 1\<rparr>) = ds"
proof -
  have l: "unat (next_desc b) < unat (desc_length b)"
    using assms(2) by (metis drop_all length_take list.distinct(1) min.cobounded2 not_le_imp_less order_trans unread_descs_def)
  then have "unat (next_desc b + 1) = Suc (unat (next_desc b))"
    using u32_lt [of "desc_length b"] by (subst unat_plus_u32) simp_all
  then show "unread_descs (b\<lparr>next_desc := next_desc b + 1\<rparr>) = ds"
    using assms(2) by (simp add: unread_descs_def) (metis drop_Suc tl_drop list.sel(3))
qed (use assms in \<open>simp_all add: rbuf_ok_def unread_def\<close>)

section \<open>Writing\<close>

definition wbuf_ok :: "NaClSrpcImcBuffer \<Rightarrow> bool" where
  "wbuf_ok b \<longleftrightarrow> length (buf_bytes b) = NACL_ABI_IMC_USER_BYTES_MAX \<and> length (descs b) = SRPC_DESC_MAX \<and>
     unat (next_byte b) \<le> NACL_ABI_IMC_USER_BYTES_MAX \<and> unat (desc_length b) \<le> SRPC_DESC_MAX"

definition written :: "NaClSrpcImcBuffer \<Rightarrow> u8 list" where
  "written b = take (unat (next_byte b)) (buf_bytes b)"

definition written_descs :: "NaClSrpcImcBuffer \<Rightarrow> NaClSrpcImcDescType list" where
  "written_descs b = take (unat (desc_length b)) (descs b)"

lemma length_written: "wbuf_ok b \<Longrightarrow> length (written b) = unat (next_byte b)"
  by (auto simp: wbuf_ok_def written_def)

lemma length_written_descs: "wbuf_ok b \<Longrightarrow> length (written_descs b) = unat (desc_length b)"
  by (auto simp: wbuf_ok_def written_descs_def)

definition append_bytes :: "u8 list \<Rightarrow> NaClSrpcImcBuffer \<Rightarrow> NaClSrpcImcBuffer" where
  "append_bytes src b = b\<lparr>
     buf_bytes := take (unat (next_byte b)) (buf_bytes b) @ src @ drop (unat (next_byte b) + length src) (buf_bytes b),
     next_byte := next_byte b + of_nat (length src)\<rparr>"

lemma append_bytes_ok:
  assumes "wbuf_ok b" and "length (written b) + length src \<le> NACL_ABI_IMC_USER_BYTES_MAX"
  shows "wbuf_ok (append_bytes src b)" and "written (append_bytes src b) = written b @ src"
    and "written_descs (append_bytes src b) = written_descs b"
proof -
  have n: "unat (next_byte b) + length src \<le> 131072"
    using assms by (simp add: length_written NACL_ABI_IMC_USER_BYTES_MAX_def)
  then have u: "unat (next_byte b + of_nat (length src)) = unat (next_byte b) + length src"
    by (subst unat_plus_u32) (simp_all add: unat_of_nat_u32)
  show "wbuf_ok (append_bytes src b)"
    using assms n u by (auto simp: wbuf_ok_def append_bytes_def NACL_ABI_IMC_USER_BYTES_MAX_def)
  have "unat (next_byte b) \<le> length (buf_bytes b)"
    using assms(1) by (simp add: wbuf_ok_def)
  then show "written (append_bytes src b) = written b @ src"
    by (simp add: written_def append_bytes_def u)
  show "written_descs (append_bytes src b) = written_descs b" by (simp add: written_descs_def append_bytes_def)
qed

text \<open>A write either appends all of its bytes or fails without writing.\<close>

lemma Write_spec:
  assumes b: "wbuf_ok b" and es: "0 < unat es" and src: "length src = unat n * unat es"
  shows "NaClSrpcImcWrite src es n b =
    (if unat n \<ge> 4294967295 div unat es \<or> NACL_ABI_IMC_USER_BYTES_MAX < length (written b) + length src then Inr (-1, b)
     else Inr (sint n, append_bytes src b))"
proof -
  have max: "SIZE_T_MAX div es \<le> n \<longleftrightarrow> 4294967295 div unat es \<le> unat n"
    by (simp add: word_le_nat_alt unat_div unat_SIZE_T_MAX)
  show ?thesis
  proof (cases "4294967295 div unat es \<le> unat n")
    case True
    then show ?thesis using max by (simp add: NaClSrpcImcWrite_def Let_def)
  next
    case False
    then have m: "unat (n * es) = length src" using product_fits src by (simp add: unat_word_ariths)
    have e: "n * es = of_nat (length src)" using src by simp
    have "unat (of_nat (length (buf_bytes b)) - next_byte b) = NACL_ABI_IMC_USER_BYTES_MAX - unat (next_byte b)"
      using b by (subst unat_minus_u32) (simp_all add: wbuf_ok_def NACL_ABI_IMC_USER_BYTES_MAX_def)
    then have "of_nat (length (buf_bytes b)) - next_byte b < n * es \<longleftrightarrow>
        NACL_ABI_IMC_USER_BYTES_MAX < length (written b) + length src"
      using b by (auto simp: word_less_nat_alt m length_written wbuf_ok_def)
    moreover have "length (buf_bytes b) = NACL_ABI_IMC_USER_BYTES_MAX" using b by (simp add: wbuf_ok_def)
    ultimately show ?thesis
      using False max m e length_written [OF b]
      by (simp add: NaClSrpcImcWrite_def Let_def append_bytes_def)
  qed
qed

lemma sint_small:
  fixes w :: u32
  assumes "unat w < 2147483648"
  shows "sint w = int (unat w)"
proof -
  have "w = word_of_int (int (unat w))" by simp
  moreover have "sint (word_of_int (int (unat w)) :: u32) = signed_take_bit 31 (int (unat w))"
    unfolding sint_sbintrunc' by simp
  ultimately have "sint w = signed_take_bit 31 (int (unat w))" by argo
  also have "\<dots> = int (unat w)"
  proof (rule signed_take_bit_int_eq_self)
    show "- (2 ^ 31) \<le> int (unat w)" by (rule order_trans [of _ 0]) simp_all
    have "int (unat w) < int 2147483648" using assms by (simp only: of_nat_less_iff)
    then show "int (unat w) < 2 ^ 31" by simp
  qed
  finally show ?thesis .
qed

definition append_desc :: "NaClSrpcImcDescType \<Rightarrow> NaClSrpcImcBuffer \<Rightarrow> NaClSrpcImcBuffer" where
  "append_desc d b = b\<lparr>descs := (descs b)[unat (desc_length b) := d], desc_length := desc_length b + 1\<rparr>"

lemma WriteDesc_spec:
  assumes b: "wbuf_ok b"
  shows "NaClSrpcImcWriteDesc d b =
    (if SRPC_DESC_MAX \<le> length (written_descs b) then Inr (0, b)
     else Inr (1, append_desc d b))"
proof -
  have l: "unat (desc_length b) \<le> 8" "length (descs b) = 8" using b by (simp_all add: wbuf_ok_def SRPC_DESC_MAX_def)
  then have s: "sint (desc_length b) = int (unat (desc_length b))" by (intro sint_small) simp
  show ?thesis
    using l unfolding NaClSrpcImcWriteDesc_def Let_def s length_written_descs [OF b]
    by (simp only: SRPC_DESC_MAX_def append_desc_def nat_int of_nat_le_iff) auto
qed

lemma append_desc_ok:
  assumes "wbuf_ok b" and "length (written_descs b) < SRPC_DESC_MAX"
  shows "wbuf_ok (append_desc d b)" and "written (append_desc d b) = written b"
    and "written_descs (append_desc d b) = written_descs b @ [d]"
proof -
  have l: "unat (desc_length b) < 8" "length (descs b) = 8"
    using assms(1,2) by (simp_all add: length_written_descs SRPC_DESC_MAX_def wbuf_ok_def)
  then have u: "unat (desc_length b + 1) = Suc (unat (desc_length b))" by (subst unat_plus_u32) simp_all
  show "wbuf_ok (append_desc d b)" using assms(1) l u by (simp add: wbuf_ok_def append_desc_def SRPC_DESC_MAX_def)
  show "written (append_desc d b) = written b" by (simp add: written_def append_desc_def)
  show "written_descs (append_desc d b) = written_descs b @ [d]"
    using l u by (simp add: written_descs_def append_desc_def take_Suc_conv_app_nth)
qed

end
