(* ===== verification/Srpc_Args.thy ===== *)
theory Srpc_Args
  imports Srpc_Buffer
begin

text \<open>
  Argument vectors of SRPC and their serialization (shared/srpc/rpc\_serialize.c, types of
  nacl\_srpc.h), for the trusted 32-bit build. An array argument is its count and the memory block
  its pointer refers to, a string the block up to and including the terminating zero; the union of
  a cleared argument is \<open>Zeroed\<close> (NULL pointers, zero counts). \<open>malloc\<close> is a parameter: the
  initial contents of a new block of that size, or \<open>None\<close>. A pointer of an argument vector is
  uninitialised, NULL, or refers to an element of the vector's block of arguments.
\<close>

section \<open>Types\<close>

type_synonym malloc_fn = "nat \<Rightarrow> u8 list option"

datatype arg_value =
    Zeroed | IntVal u32 | DoubleVal u64 | ArrayVal u32 "u8 list" | HandleVal NaClSrpcImcDescType | StringVal "u8 list"

record NaClSrpcArg =
  tag :: u8
  arg_u :: arg_value

definition NACL_SRPC_ARG_TYPE_BOOL :: u8 where "NACL_SRPC_ARG_TYPE_BOOL = 0x62"
definition NACL_SRPC_ARG_TYPE_CHAR_ARRAY :: u8 where "NACL_SRPC_ARG_TYPE_CHAR_ARRAY = 0x43"
definition NACL_SRPC_ARG_TYPE_DOUBLE :: u8 where "NACL_SRPC_ARG_TYPE_DOUBLE = 0x64"
definition NACL_SRPC_ARG_TYPE_DOUBLE_ARRAY :: u8 where "NACL_SRPC_ARG_TYPE_DOUBLE_ARRAY = 0x44"
definition NACL_SRPC_ARG_TYPE_HANDLE :: u8 where "NACL_SRPC_ARG_TYPE_HANDLE = 0x68"
definition NACL_SRPC_ARG_TYPE_INT :: u8 where "NACL_SRPC_ARG_TYPE_INT = 0x69"
definition NACL_SRPC_ARG_TYPE_INT_ARRAY :: u8 where "NACL_SRPC_ARG_TYPE_INT_ARRAY = 0x49"
definition NACL_SRPC_ARG_TYPE_STRING :: u8 where "NACL_SRPC_ARG_TYPE_STRING = 0x73"

definition NACL_SRPC_MAX_ARGS :: nat where "NACL_SRPC_MAX_ARGS = 128"

datatype arg_ptr = Uninit | Null | Elem nat

text \<open>Fields of the union.\<close>

fun int_val :: "arg_value \<Rightarrow> u32" where
  "int_val (IntVal w) = w" | "int_val _ = 0"

fun double_val :: "arg_value \<Rightarrow> u64" where
  "double_val (DoubleVal w) = w" | "double_val _ = 0"

fun array_count :: "arg_value \<Rightarrow> u32" where
  "array_count (ArrayVal n m) = n" | "array_count _ = 0"

fun array_mem :: "arg_value \<Rightarrow> u8 list" where
  "array_mem (ArrayVal n m) = m" | "array_mem _ = []"

fun handle_val :: "arg_value \<Rightarrow> NaClSrpcImcDescType" where
  "handle_val (HandleVal d) = d" | "handle_val _ = NACL_SRPC_IMC_INVALID_DESC"

definition c_strlen :: "arg_value \<Rightarrow> u32 result" where
  "c_strlen v = (case v of
     StringVal s \<Rightarrow> if 0 \<in> set s then Inr (of_nat (length (takeWhile (\<lambda>c. c \<noteq> 0) s))) else Inl OutOfBounds
   | _ \<Rightarrow> Inl NullDeref)"

definition c_string :: "arg_value \<Rightarrow> u8 list" where
  "c_string v = (case v of StringVal s \<Rightarrow> s | _ \<Rightarrow> [])"

section \<open>Elements\<close>

text \<open>\<open>ArgEltInterface\<close>, without \<open>print\<close>. \<open>get\<close> returns its success, the buffer and the argument;
  \<open>length\<close> the number of bytes and of handles.\<close>

record ArgEltInterface =
  elt_get :: "malloc_fn \<Rightarrow> NaClSrpcImcBuffer \<Rightarrow> bool \<Rightarrow> bool \<Rightarrow> NaClSrpcArg \<Rightarrow> (bool \<times> NaClSrpcImcBuffer \<times> NaClSrpcArg) result"
  elt_put :: "NaClSrpcArg \<Rightarrow> bool \<Rightarrow> NaClSrpcImcBuffer \<Rightarrow> (bool \<times> NaClSrpcImcBuffer) result"
  elt_length :: "NaClSrpcArg \<Rightarrow> bool \<Rightarrow> (u32 \<times> int) result"
  elt_free :: "NaClSrpcArg \<Rightarrow> NaClSrpcArg"

text \<open>\<open>BASIC_TYPE_IO_DECLARE\<close>: \<open>esize\<close> is \<open>sizeof(impl_type)\<close>, \<open>store\<close> writes that many bytes at the
  start of the union field, \<open>load\<close> reads them.\<close>

definition basic_io :: "u32 \<Rightarrow> (u8 list \<Rightarrow> arg_value \<Rightarrow> arg_value) \<Rightarrow> (arg_value \<Rightarrow> u8 list) \<Rightarrow> ArgEltInterface" where
  "basic_io esize store load = \<lparr>
     elt_get = (\<lambda>malloc buffer allocate_memory read_value arg.
       if read_value then
         bind_result (NaClSrpcImcRead buffer esize 1) (\<lambda>(r, data, buffer).
           if r \<noteq> 1 then Inr (False, buffer, arg)
           else Inr (True, buffer, arg\<lparr>arg_u := store data (arg_u arg)\<rparr>))
       else Inr (True, buffer, arg)),
     elt_put = (\<lambda>arg write_value buffer.
       if write_value then
         bind_result (NaClSrpcImcWrite (load (arg_u arg)) esize 1 buffer) (\<lambda>(r, buffer). Inr (r = 1, buffer))
       else Inr (True, buffer)),
     elt_length = (\<lambda>arg write_value. Inr (if write_value then esize else 0, 0)),
     elt_free = (\<lambda>arg. arg)\<rparr>"

text \<open>A \<open>bool\<close> is transferred as one \<open>char\<close>, the low byte of the \<open>int\<close>.\<close>

definition kBoolIoInterface :: ArgEltInterface where
  "kBoolIoInterface = basic_io 1
     (\<lambda>data v. IntVal ((int_val v AND NOT 0xff) OR of_le data)) (\<lambda>v. le_bytes 1 (int_val v))"

definition kDoubleIoInterface :: ArgEltInterface where
  "kDoubleIoInterface = basic_io 8 (\<lambda>data v. DoubleVal (of_le data)) (\<lambda>v. le_bytes 8 (double_val v))"

definition kIntIoInterface :: ArgEltInterface where
  "kIntIoInterface = basic_io 4 (\<lambda>data v. IntVal (of_le data)) (\<lambda>v. le_bytes 4 (int_val v))"

text \<open>\<open>ARRAY_TYPE_IO_DECLARE\<close>. Without allocation the elements are read into the caller's block.\<close>

definition array_read ::
    "u32 \<Rightarrow> u32 \<Rightarrow> bool \<Rightarrow> NaClSrpcImcBuffer \<Rightarrow> NaClSrpcArg \<Rightarrow> (bool \<times> NaClSrpcImcBuffer \<times> NaClSrpcArg) result" where
  "array_read esize dim read_value buffer arg =
     (if read_value then
        bind_result (NaClSrpcImcRead buffer esize dim) (\<lambda>(r, data, buffer).
          if dim \<noteq> word_of_int r then Inr (False, buffer, arg)
          else if length data > length (array_mem (arg_u arg)) then Inl OutOfBounds
          else Inr (True, buffer, arg\<lparr>arg_u := ArrayVal (array_count (arg_u arg))
                                     (data @ drop (length data) (array_mem (arg_u arg)))\<rparr>))
      else Inr (True, buffer, arg))"

definition array_io :: "u32 \<Rightarrow> ArgEltInterface" where
  "array_io esize = \<lparr>
     elt_get = (\<lambda>malloc buffer allocate_memory read_value arg.
       bind_result (NaClSrpcImcRead buffer 4 1) (\<lambda>(r, data, buffer).
         if r \<noteq> 1 then Inr (False, buffer, arg)
         else let dim = of_le data in
           if allocate_memory then
             (if dim \<ge> SIZE_T_MAX div esize then Inr (False, buffer, arg)
              else (case malloc (unat (dim * esize)) of
                  None \<Rightarrow> Inr (False, buffer, arg)
                | Some block \<Rightarrow> array_read esize dim read_value buffer (arg\<lparr>arg_u := ArrayVal dim block\<rparr>)))
           else if array_count (arg_u arg) < dim then Inr (False, buffer, arg)
           else array_read esize dim read_value buffer arg)),
     elt_put = (\<lambda>arg write_value buffer.
       bind_result (NaClSrpcImcWrite (le_bytes 4 (array_count (arg_u arg))) 4 1 buffer) (\<lambda>(r, buffer).
         if r \<noteq> 1 then Inr (False, buffer)
         else if write_value then
           bind_result (NaClSrpcImcWrite (array_mem (arg_u arg)) esize (array_count (arg_u arg)) buffer)
             (\<lambda>(r, buffer). Inr (array_count (arg_u arg) = word_of_int r, buffer))
         else Inr (True, buffer))),
     elt_length = (\<lambda>arg write_value. Inr (if write_value then 4 + esize * array_count (arg_u arg) else 4, 0)),
     elt_free = (\<lambda>arg. arg\<lparr>arg_u := ArrayVal (array_count (arg_u arg)) []\<rparr>)\<rparr>"

definition kCharArrIoInterface :: ArgEltInterface where "kCharArrIoInterface = array_io 1"
definition kDoubleArrIoInterface :: ArgEltInterface where "kDoubleArrIoInterface = array_io 8"
definition kIntArrIoInterface :: ArgEltInterface where "kIntArrIoInterface = array_io 4"

definition kHandleIoInterface :: ArgEltInterface where
  "kHandleIoInterface = \<lparr>
     elt_get = (\<lambda>malloc buffer allocate_memory read_value arg.
       if read_value then
         bind_result (NaClSrpcImcReadDesc buffer) (\<lambda>(d, buffer). Inr (True, buffer, arg\<lparr>arg_u := HandleVal d\<rparr>))
       else Inr (True, buffer, arg)),
     elt_put = (\<lambda>arg write_value buffer.
       if write_value then
         bind_result (NaClSrpcImcWriteDesc (handle_val (arg_u arg)) buffer) (\<lambda>(r, buffer). Inr (r = 1, buffer))
       else Inr (True, buffer)),
     elt_length = (\<lambda>arg write_value. Inr (0, if write_value then 1 else 0)),
     elt_free = (\<lambda>arg. arg)\<rparr>"

definition kStringIoInterface :: ArgEltInterface where
  "kStringIoInterface = \<lparr>
     elt_get = (\<lambda>malloc buffer allocate_memory read_value arg.
       if read_value then
         bind_result (NaClSrpcImcRead buffer 4 1) (\<lambda>(r, data, buffer).
           if r \<noteq> 1 then Inr (False, buffer, arg)
           else let dim = of_le data in
             if dim \<ge> SIZE_T_MAX then Inr (False, buffer, arg)
             else (case malloc (unat (dim + 1)) of
                 None \<Rightarrow> Inr (False, buffer, arg\<lparr>arg_u := Zeroed\<rparr>)
               | Some block \<Rightarrow>
                   bind_result (NaClSrpcImcRead buffer 1 dim) (\<lambda>(r, data, buffer).
                     if dim \<noteq> word_of_int r then Inr (False, buffer, arg\<lparr>arg_u := StringVal block\<rparr>)
                     else if length data > length block then Inl OutOfBounds
                     else let block = data @ drop (length data) block in
                       if unat dim < length block
                       then Inr (True, buffer, arg\<lparr>arg_u := StringVal (block[unat dim := 0])\<rparr>)
                       else Inl OutOfBounds)))
       else Inr (True, buffer, arg)),
     elt_put = (\<lambda>arg write_value buffer.
       if write_value then
         bind_result (c_strlen (arg_u arg)) (\<lambda>slen.
           bind_result (NaClSrpcImcWrite (le_bytes 4 slen) 4 1 buffer) (\<lambda>(r, buffer).
             if r \<noteq> 1 then Inr (False, buffer)
             else bind_result (NaClSrpcImcWrite (c_string (arg_u arg)) 1 slen buffer)
               (\<lambda>(r, buffer). Inr (slen = word_of_int r, buffer))))
       else Inr (True, buffer)),
     elt_length = (\<lambda>arg write_value.
       if write_value then bind_result (c_strlen (arg_u arg)) (\<lambda>slen. Inr (4 + slen, 0)) else Inr (0, 0)),
     elt_free = (\<lambda>arg. arg\<lparr>arg_u := Zeroed\<rparr>)\<rparr>"

definition kInvalidIoInterface :: ArgEltInterface where
  "kInvalidIoInterface = \<lparr>
     elt_get = (\<lambda>malloc buffer allocate_memory read_value arg. Inr (False, buffer, arg)),
     elt_put = (\<lambda>arg write_value buffer. Inr (False, buffer)),
     elt_length = (\<lambda>arg write_value. Inr (0, 0)),
     elt_free = (\<lambda>arg. arg)\<rparr>"

text \<open>The invalid, object and variant-array tags all have the interface that fails.\<close>

definition ArgsGetEltInterface :: "NaClSrpcArg \<Rightarrow> ArgEltInterface" where
  "ArgsGetEltInterface arg =
     (if tag arg = NACL_SRPC_ARG_TYPE_BOOL then kBoolIoInterface
      else if tag arg = NACL_SRPC_ARG_TYPE_CHAR_ARRAY then kCharArrIoInterface
      else if tag arg = NACL_SRPC_ARG_TYPE_DOUBLE then kDoubleIoInterface
      else if tag arg = NACL_SRPC_ARG_TYPE_DOUBLE_ARRAY then kDoubleArrIoInterface
      else if tag arg = NACL_SRPC_ARG_TYPE_HANDLE then kHandleIoInterface
      else if tag arg = NACL_SRPC_ARG_TYPE_INT then kIntIoInterface
      else if tag arg = NACL_SRPC_ARG_TYPE_INT_ARRAY then kIntArrIoInterface
      else if tag arg = NACL_SRPC_ARG_TYPE_STRING then kStringIoInterface
      else kInvalidIoInterface)"

section \<open>Vectors\<close>

text \<open>The type string of a method: a C string.\<close>

definition type_char :: "u8 list \<Rightarrow> nat \<Rightarrow> u8 result" where
  "type_char arg_types ix = (if ix < length arg_types then Inr (arg_types ! ix) else Inl OutOfBounds)"

definition type_end :: "u8 \<Rightarrow> bool" where
  "type_end c \<longleftrightarrow> c = 0x3a \<or> c = 0"

text \<open>The loop that initializes the tags of the cleared block: \<open>None\<close> when the type string is
  shorter than the vector.\<close>

fun init_tags :: "u8 list \<Rightarrow> nat \<Rightarrow> nat \<Rightarrow> NaClSrpcArg list option result" where
  "init_tags arg_types ix 0 = Inr (Some [])"
| "init_tags arg_types ix (Suc k) =
     bind_result (type_char arg_types ix) (\<lambda>c.
       if type_end c then Inr None
       else bind_result (init_tags arg_types (ix + 1) k) (\<lambda>r. Inr
         (case r of None \<Rightarrow> None | Some args \<Rightarrow> Some (\<lparr>tag = c, arg_u = Zeroed\<rparr> # args))))"

text \<open>\<open>ArgsFree\<close> walks the vector up to NULL, then frees the block at \<open>argvec[0]\<close>.\<close>

fun free_elements :: "arg_ptr list \<Rightarrow> NaClSrpcArg list \<Rightarrow> NaClSrpcArg list result" where
  "free_elements [] args = Inl OutOfBounds"
| "free_elements (Null # ps) args = Inr args"
| "free_elements (Uninit # ps) args = Inl UninitPointer"
| "free_elements (Elem i # ps) args =
     (if i < length args
      then free_elements ps (args[i := elt_free (ArgsGetEltInterface (args ! i)) (args ! i)])
      else Inl OutOfBounds)"

definition ArgsFree :: "arg_ptr list \<Rightarrow> NaClSrpcArg list \<Rightarrow> NaClSrpcArg list result" where
  "ArgsFree argvec args = free_elements argvec args"

text \<open>The loop of \<open>ArgsGet\<close> that reads the elements from \<open>i\<close> on. The block \<open>args\<close> is \<open>None\<close> when
  the pointer is NULL. On an error the vector is freed if there is a block.\<close>

definition args_error ::
    "NaClSrpcImcBuffer \<Rightarrow> arg_ptr list \<Rightarrow> NaClSrpcArg list option
      \<Rightarrow> (bool \<times> NaClSrpcImcBuffer \<times> arg_ptr list \<times> NaClSrpcArg list option) result" where
  "args_error buffer argvec args =
     (case args of None \<Rightarrow> Inr (False, buffer, argvec, None)
      | Some as \<Rightarrow> bind_result (ArgsFree argvec as) (\<lambda>as. Inr (False, buffer, argvec, Some as)))"

fun read_args ::
    "malloc_fn \<Rightarrow> bool \<Rightarrow> bool \<Rightarrow> nat \<Rightarrow> nat \<Rightarrow> NaClSrpcImcBuffer \<Rightarrow> arg_ptr list \<Rightarrow> NaClSrpcArg list option
      \<Rightarrow> (bool \<times> NaClSrpcImcBuffer \<times> arg_ptr list \<times> NaClSrpcArg list option) result" where
  "read_args malloc allocate_args read_values i 0 buffer argvec args =
     (if i < length argvec then Inr (True, buffer, argvec[i := Null], args) else Inl OutOfBounds)"
| "read_args malloc allocate_args read_values i (Suc k) buffer argvec args =
     bind_result (NaClSrpcImcRead buffer 1 1) (\<lambda>(r, data, buffer).
       if r \<noteq> 1 then args_error buffer argvec args
       else (case args of None \<Rightarrow> Inl NullDeref
         | Some as \<Rightarrow>
           if i \<ge> length as then Inl OutOfBounds
           else if tag (as ! i) \<noteq> of_le data then args_error buffer argvec args
           else if i \<ge> length argvec then Inl OutOfBounds
           else let argvec = argvec[i := Elem i]; arg = as ! i in
             bind_result (elt_get (ArgsGetEltInterface arg) malloc buffer allocate_args read_values arg)
               (\<lambda>(ok, buffer, arg).
                 if ok then read_args malloc allocate_args read_values (i + 1) k buffer argvec (Some (as[i := arg]))
                 else args_error buffer argvec (Some (as[i := arg])))))"

text \<open>\<open>ArgsGet\<close>: \<open>args0\<close> is the block at \<open>argvec[0]\<close>, used without allocation. The early returns
  after the type string check do not free the new block.\<close>

definition ArgsGet ::
    "malloc_fn \<Rightarrow> NaClSrpcImcBuffer \<Rightarrow> bool \<Rightarrow> bool \<Rightarrow> arg_ptr list \<Rightarrow> NaClSrpcArg list option \<Rightarrow> u8 list
      \<Rightarrow> (bool \<times> NaClSrpcImcBuffer \<times> arg_ptr list \<times> NaClSrpcArg list option) result" where
  "ArgsGet malloc buffer allocate_args read_values argvec args0 arg_types =
     bind_result (NaClSrpcImcRead buffer 4 1) (\<lambda>(r, data, buffer).
       if r \<noteq> 1 then Inr (False, buffer, argvec, args0)
       else let lenu32 = of_le data :: u32 in
         if unat lenu32 \<ge> NACL_SRPC_MAX_ARGS then Inr (False, buffer, argvec, args0)
         else if allocate_args \<and> lenu32 > 0 then
           (case malloc (16 * unat lenu32) of
              None \<Rightarrow> Inr (False, buffer, argvec, args0)
            | Some block \<Rightarrow>
                bind_result (init_tags arg_types 0 (unat lenu32)) (\<lambda>init.
                  case init of None \<Rightarrow> Inr (False, buffer, argvec, args0)
                  | Some args \<Rightarrow>
                      bind_result (type_char arg_types (unat lenu32)) (\<lambda>c.
                        if \<not> type_end c then Inr (False, buffer, argvec, args0)
                        else read_args malloc allocate_args read_values 0 (unat lenu32) buffer argvec (Some args))))
         else if argvec = [] then Inl OutOfBounds
         else if lenu32 > 0 \<and> argvec ! 0 = Uninit then Inl UninitPointer
         else read_args malloc allocate_args read_values 0 (unat lenu32) buffer argvec args0)"

text \<open>\<open>ArgsPut\<close> and \<open>ArgsLength\<close>: \<open>args\<close> are the arguments that the vector points to, up to NULL.\<close>

fun put_elements :: "NaClSrpcArg list \<Rightarrow> bool \<Rightarrow> NaClSrpcImcBuffer \<Rightarrow> (bool \<times> NaClSrpcImcBuffer) result" where
  "put_elements [] write_value buffer = Inr (True, buffer)"
| "put_elements (arg # args) write_value buffer =
     bind_result (NaClSrpcImcWrite (le_bytes 1 (tag arg)) 1 1 buffer) (\<lambda>(r, buffer).
       if r \<noteq> 1 then Inr (False, buffer)
       else bind_result (elt_put (ArgsGetEltInterface arg) arg write_value buffer) (\<lambda>(ok, buffer).
         if ok then put_elements args write_value buffer else Inr (False, buffer)))"

definition ArgsPut :: "NaClSrpcArg list \<Rightarrow> bool \<Rightarrow> NaClSrpcImcBuffer \<Rightarrow> (bool \<times> NaClSrpcImcBuffer) result" where
  "ArgsPut args write_value buffer =
     (if length args \<ge> NACL_SRPC_MAX_ARGS then Inr (False, buffer)
      else bind_result (NaClSrpcImcWrite (le_bytes 4 (of_nat (length args) :: u32)) 4 1 buffer) (\<lambda>(r, buffer).
        if r \<noteq> 1 then Inr (False, buffer) else put_elements args write_value buffer))"

fun sum_lengths :: "NaClSrpcArg list \<Rightarrow> bool \<Rightarrow> u32 \<Rightarrow> int \<Rightarrow> (u32 \<times> int) result" where
  "sum_lengths [] write_value tmp_bytes tmp_handles = Inr (tmp_bytes, tmp_handles)"
| "sum_lengths (arg # args) write_value tmp_bytes tmp_handles =
     bind_result (elt_length (ArgsGetEltInterface arg) arg write_value) (\<lambda>(n, handle_cnt).
       sum_lengths args write_value (tmp_bytes + (1 + n)) (tmp_handles + handle_cnt))"

definition ArgsLength :: "NaClSrpcArg list \<Rightarrow> bool \<Rightarrow> (bool \<times> u32 \<times> u32) result" where
  "ArgsLength args write_value =
     bind_result (sum_lengths (take NACL_SRPC_MAX_ARGS args) write_value 4 0) (\<lambda>(tmp_bytes, tmp_handles).
       if length args \<ge> NACL_SRPC_MAX_ARGS then Inr (False, 0, 0)
       else Inr (True, tmp_bytes, word_of_int tmp_handles))"

end
