(* ===== verification/Srpc_Service.thy ===== *)
theory Srpc_Service
  imports Srpc_Args
begin

text \<open>
  Service descriptions (shared/srpc/rpc\_service.c): the table of methods a server builds from
  its handlers, the discovery string made of it, and the table a client builds from that string.
  A \<open>char*\<close> that is read is the memory from the pointer on, a \<open>u8 list\<close> (\<open>Inl OutOfBounds\<close>
  when no terminator stops the code); a string that is stored is its characters without the
  terminator, \<open>None\<close> for NULL. \<open>size_t\<close> lengths are naturals, as the strings are in memory together.
\<close>

section \<open>Methods\<close>

type_synonym cstring = "u8 list"

text \<open>Function pointers: the built-in methods and those of the program.\<close>

datatype NaClSrpcMethod = ServiceDiscovery | GetTimes | SetTimingEnabled | Handler nat

record NaClSrpcMethodDesc =
  name :: "cstring option"
  input_types :: "cstring option"
  output_types :: "cstring option"
  handler :: "NaClSrpcMethod option"

record NaClSrpcService =
  service_string :: "cstring option"
  service_string_length :: nat
  rpc_descr :: "NaClSrpcMethodDesc list"
  rpc_count :: u32

definition kNaClSrpcInvalidMethodIndex :: u32 where "kNaClSrpcInvalidMethodIndex = NOT 0"
definition NACL_SRPC_GET_TIMES_METHOD :: u32 where "NACL_SRPC_GET_TIMES_METHOD = 0xfffffffe"
definition NACL_SRPC_TOGGLE_CHANNEL_TIMING_METHOD :: u32 where "NACL_SRPC_TOGGLE_CHANNEL_TIMING_METHOD = 0xfffffffd"

section \<open>Parsing\<close>

definition delimiter :: "u8 \<Rightarrow> bool" where
  "delimiter c \<longleftrightarrow> c = 0x3a \<or> c = 0x0a \<or> c = 0"

fun element_length :: "u8 list \<Rightarrow> nat result" where
  "element_length [] = Inl OutOfBounds"
| "element_length (c # cs) =
     (if delimiter c then Inr 0 else bind_result (element_length cs) (\<lambda>n. Inr (Suc n)))"

definition GetOneElement :: "malloc_fn \<Rightarrow> u8 list \<Rightarrow> cstring option result" where
  "GetOneElement malloc string =
     bind_result (element_length string) (\<lambda>len. Inr
       (case malloc (len + 1) of None \<Rightarrow> None | Some buf \<Rightarrow> Some (take len string)))"

definition char_at :: "u8 list \<Rightarrow> u8 result" where
  "char_at mem = (case mem of [] \<Rightarrow> Inl OutOfBounds | c # cs \<Rightarrow> Inr c)"

text \<open>\<open>ParseOneEntry\<close>: the pointer returned and the three strings stored.\<close>

definition ParseOneEntry ::
    "malloc_fn \<Rightarrow> u8 list option \<Rightarrow> (u8 list option \<times> cstring option \<times> cstring option \<times> cstring option) result" where
  "ParseOneEntry malloc entry_fmt =
     (let cleanup = Inr (None, None, None, None)
      in case entry_fmt of None \<Rightarrow> cleanup
      | Some entry_fmt \<Rightarrow>
        bind_result (GetOneElement malloc entry_fmt) (\<lambda>namebuf. case namebuf of None \<Rightarrow> cleanup
        | Some namebuf \<Rightarrow> let entry_fmt = drop (length namebuf) entry_fmt in
        bind_result (char_at entry_fmt) (\<lambda>c. if c \<noteq> 0x3a then cleanup
        else let entry_fmt = drop 1 entry_fmt in
        bind_result (GetOneElement malloc entry_fmt) (\<lambda>insbuf. case insbuf of None \<Rightarrow> cleanup
        | Some insbuf \<Rightarrow> let entry_fmt = drop (length insbuf) entry_fmt in
        bind_result (char_at entry_fmt) (\<lambda>c. if c \<noteq> 0x3a then cleanup
        else let entry_fmt = drop 1 entry_fmt in
        bind_result (GetOneElement malloc entry_fmt) (\<lambda>outsbuf. case outsbuf of None \<Rightarrow> cleanup
        | Some outsbuf \<Rightarrow> Inr (Some (drop (length outsbuf) entry_fmt), Some namebuf, Some insbuf, Some outsbuf)))))))"

text \<open>The service discovery entry, "service\_discovery::C" with its terminator.\<close>

definition bytes_of :: "string \<Rightarrow> cstring" where
  "bytes_of s = map of_char s"

definition kSDDescString :: "u8 list" where
  "kSDDescString = bytes_of ''service_discovery::C'' @ [0]"

definition parse_method :: "malloc_fn \<Rightarrow> u8 list \<Rightarrow> NaClSrpcMethod \<Rightarrow> NaClSrpcMethodDesc result" where
  "parse_method malloc entry h = bind_result (ParseOneEntry malloc (Some entry))
     (\<lambda>(p, n, i, out). Inr \<lparr>name = n, input_types = i, output_types = out, handler = Some h\<rparr>)"

fun parse_methods :: "malloc_fn \<Rightarrow> (u8 list \<times> NaClSrpcMethod) list \<Rightarrow> NaClSrpcMethodDesc list result" where
  "parse_methods malloc [] = Inr []"
| "parse_methods malloc ((entry, h) # rest) =
     bind_result (parse_method malloc entry h) (\<lambda>m.
       bind_result (parse_methods malloc rest) (\<lambda>ms. Inr (m # ms)))"

text \<open>\<open>BuildMethods\<close>: \<open>methods\<close> are the entries before the one whose string is NULL. The result
  ends with the NULL method.\<close>

definition BuildMethods ::
    "malloc_fn \<Rightarrow> (u8 list \<times> NaClSrpcMethod) list \<Rightarrow> (NaClSrpcMethodDesc list option \<times> u32) result" where
  "BuildMethods malloc methods =
     (let method_count = length methods + 1
      in case malloc ((method_count + 1) * 16) of None \<Rightarrow> Inr (None, of_nat method_count)
      | Some block \<Rightarrow>
        bind_result (parse_methods malloc ((kSDDescString, ServiceDiscovery) # methods)) (\<lambda>ms.
          Inr (Some (ms @ [\<lparr>name = None, input_types = None, output_types = None, handler = None\<rparr>]),
               of_nat method_count)))"

section \<open>The discovery string\<close>

definition strlen_opt :: "cstring option \<Rightarrow> nat result" where
  "strlen_opt s = (case s of None \<Rightarrow> Inl NullDeref | Some s \<Rightarrow> Inr (length s))"

fun sd_length :: "NaClSrpcMethodDesc list \<Rightarrow> nat \<Rightarrow> nat result" where
  "sd_length [] len = Inr len"
| "sd_length (m # ms) len =
     bind_result (strlen_opt (name m)) (\<lambda>n.
     bind_result (strlen_opt (input_types m)) (\<lambda>i.
     bind_result (strlen_opt (output_types m)) (\<lambda>out.
       sd_length ms (len + (n + 1 + i + 1 + out + 1)))))"

definition sd_entry :: "NaClSrpcMethodDesc \<Rightarrow> cstring" where
  "sd_entry m = the (name m) @ [0x3a] @ the (input_types m) @ [0x3a] @ the (output_types m) @ [0x0a]"

text \<open>A write of \<open>w\<close> at offset \<open>p\<close> of an allocated block.\<close>

definition write_at :: "u8 list \<Rightarrow> nat \<Rightarrow> u8 list \<Rightarrow> u8 list result" where
  "write_at block p w =
     (if p + length w \<le> length block then Inr (take p block @ w @ drop (p + length w) block) else Inl OutOfBounds)"

text \<open>\<open>snprintf\<close> writes at most \<open>limit\<close> bytes with the terminator and returns the full length.\<close>

definition snprintf :: "u8 list \<Rightarrow> nat \<Rightarrow> nat \<Rightarrow> cstring \<Rightarrow> (u8 list \<times> nat) result" where
  "snprintf block p limit text =
     (if limit = 0 then Inr (block, length text)
      else bind_result (write_at block p (take (limit - 1) text @ [0])) (\<lambda>block. Inr (block, length text)))"

fun sd_print :: "NaClSrpcMethodDesc list \<Rightarrow> nat \<Rightarrow> u8 list \<Rightarrow> nat \<Rightarrow> (u8 list \<times> nat) result" where
  "sd_print [] len block p = Inr (block, p)"
| "sd_print (m # ms) len block p =
     bind_result (snprintf block p (len - p) (sd_entry m)) (\<lambda>(block, n). sd_print ms len block (p + n))"

text \<open>\<open>BuildSDString\<close> on the first \<open>method_count\<close> methods: the block, and the length computed.\<close>

definition BuildSDString :: "malloc_fn \<Rightarrow> NaClSrpcMethodDesc list \<Rightarrow> (u8 list option \<times> nat) result" where
  "BuildSDString malloc methods =
     bind_result (sd_length methods 1) (\<lambda>len.
       case malloc (len + 1) of None \<Rightarrow> Inr (None, len)
       | Some str \<Rightarrow> bind_result (sd_print methods len str 0) (\<lambda>(str, p).
           bind_result (write_at str p [0]) (\<lambda>str. Inr (Some str, len))))"

definition cstring_of :: "u8 list \<Rightarrow> cstring" where
  "cstring_of mem = takeWhile (\<lambda>c. c \<noteq> 0) mem"

definition NaClSrpcServiceHandlerCtor ::
    "malloc_fn \<Rightarrow> (u8 list \<times> NaClSrpcMethod) list \<Rightarrow> NaClSrpcService option result" where
  "NaClSrpcServiceHandlerCtor malloc handler_desc =
     bind_result (BuildMethods malloc handler_desc) (\<lambda>(methods, method_count).
       case methods of None \<Rightarrow> Inr None
       | Some methods \<Rightarrow>
         bind_result (BuildSDString malloc (take (unat method_count) methods)) (\<lambda>(str, str_length).
           case str of None \<Rightarrow> Inr None
           | Some str \<Rightarrow> Inr (Some \<lparr>service_string = Some (cstring_of str), service_string_length = str_length,
                                  rpc_descr = methods, rpc_count = method_count\<rparr>)))"

section \<open>The client's table\<close>

text \<open>\<open>strchr(p, '\n')\<close>.\<close>

fun find_newline :: "u8 list \<Rightarrow> u8 list option result" where
  "find_newline [] = Inl OutOfBounds"
| "find_newline (c # cs) =
     (if c = 0x0a then Inr (Some (c # cs)) else if c = 0 then Inr None else find_newline cs)"

lemma find_newline_length: "find_newline p = Inr (Some q) \<Longrightarrow> q \<noteq> [] \<and> length q \<le> length p"
  by (induction p) (auto split: if_splits)

text \<open>The loop that counts the methods: \<open>None\<close> is the jump to the cleanup.\<close>

function count_methods :: "u8 list \<Rightarrow> u32 \<Rightarrow> u32 option result" where
  "count_methods p n =
     (case p of [] \<Rightarrow> Inl OutOfBounds
      | c # cs \<Rightarrow> if c = 0 then Inr (Some n)
          else (case find_newline p of Inl e \<Rightarrow> Inl e
            | Inr None \<Rightarrow> Inr None
            | Inr (Some next_p) \<Rightarrow>
                if n + 1 = 0 then Inr None else count_methods (drop 1 next_p) (n + 1)))"
  by pat_completeness auto
termination
proof (relation "measure (\<lambda>(p, n). length p)", simp, goal_cases)
  case (1 p n c cs x2 next_p)
  then show ?case using find_newline_length [of p next_p] by (cases next_p) auto
qed

declare count_methods.simps [simp del]

fun parse_entries :: "malloc_fn \<Rightarrow> nat \<Rightarrow> u8 list \<Rightarrow> NaClSrpcMethodDesc list option result" where
  "parse_entries malloc 0 p = Inr (Some [])"
| "parse_entries malloc (Suc k) p =
     bind_result (ParseOneEntry malloc (Some p)) (\<lambda>(newline_loc, n, i, out).
       case newline_loc of None \<Rightarrow> Inr None
       | Some loc \<Rightarrow> bind_result (char_at loc) (\<lambda>c.
           if c \<noteq> 0x0a then Inr None
           else bind_result (parse_entries malloc k (drop 1 loc)) (\<lambda>ms. Inr
             (case ms of None \<Rightarrow> None
              | Some ms \<Rightarrow> Some (\<lparr>name = n, input_types = i, output_types = out, handler = None\<rparr> # ms)))))"

definition NaClSrpcServiceStringCtor :: "malloc_fn \<Rightarrow> u8 list \<Rightarrow> NaClSrpcService option result" where
  "NaClSrpcServiceStringCtor malloc str =
     bind_result (count_methods str 0) (\<lambda>count.
       case count of None \<Rightarrow> Inr None
       | Some n \<Rightarrow>
         if unat n \<ge> 4294967295 div 16 then Inr None
         else (case malloc (unat n * 16) of None \<Rightarrow> Inr None
           | Some block \<Rightarrow> bind_result (parse_entries malloc (unat n) str) (\<lambda>methods.
               case methods of None \<Rightarrow> Inr None
               | Some methods \<Rightarrow> Inr (Some \<lparr>
                   service_string = map_option (\<lambda>_. cstring_of str) (malloc (length (cstring_of str) + 1)),
                   service_string_length = length (cstring_of str),
                   rpc_descr = methods, rpc_count = n\<rparr>))))"

section \<open>Lookups\<close>

definition NaClSrpcServiceMethodCount :: "NaClSrpcService option \<Rightarrow> u32" where
  "NaClSrpcServiceMethodCount service = (case service of None \<Rightarrow> 0 | Some s \<Rightarrow> rpc_count s)"

fun find_method :: "NaClSrpcMethodDesc list \<Rightarrow> cstring \<Rightarrow> u32 \<Rightarrow> u32 result" where
  "find_method [] nm i = Inr kNaClSrpcInvalidMethodIndex"
| "find_method (m # ms) nm i = (case name m of None \<Rightarrow> Inl NullDeref
     | Some n \<Rightarrow> if nm = n then Inr i else find_method ms nm (i + 1))"

definition NaClSrpcServiceMethodIndex :: "NaClSrpcService option \<Rightarrow> cstring \<Rightarrow> u32 result" where
  "NaClSrpcServiceMethodIndex service nm = (case service of None \<Rightarrow> Inr kNaClSrpcInvalidMethodIndex
     | Some s \<Rightarrow> find_method (take (unat (rpc_count s)) (rpc_descr s)) nm 0)"

text \<open>The name and the types of a method; the service is dereferenced without a check.\<close>

definition NaClSrpcServiceMethodNameAndTypes ::
    "NaClSrpcService option \<Rightarrow> u32 \<Rightarrow> (cstring option \<times> cstring option \<times> cstring option) option result" where
  "NaClSrpcServiceMethodNameAndTypes service rpc_number =
     (if rpc_number = NACL_SRPC_GET_TIMES_METHOD then Inr (Some (Some (bytes_of ''NACL_SRPC_GET_TIMES_METHOD''), Some [], Some (bytes_of ''dddd'')))
      else if rpc_number = NACL_SRPC_TOGGLE_CHANNEL_TIMING_METHOD then Inr (Some (Some (bytes_of ''NACL_SRPC_TOGGLE_CHANNEL_TIMING_METHOD''), Some [], Some (bytes_of ''i'')))
      else (case service of None \<Rightarrow> Inl NullDeref
        | Some s \<Rightarrow> if rpc_number \<ge> rpc_count s then Inr None
            else if unat rpc_number \<ge> length (rpc_descr s) then Inl OutOfBounds
            else let m = rpc_descr s ! unat rpc_number
                 in Inr (Some (name m, input_types m, output_types m))))"

definition NaClSrpcServiceMethod :: "NaClSrpcService option \<Rightarrow> u32 \<Rightarrow> NaClSrpcMethod option result" where
  "NaClSrpcServiceMethod service rpc_number =
     (case service of None \<Rightarrow> Inr None
      | Some s \<Rightarrow> if rpc_number = NACL_SRPC_GET_TIMES_METHOD then Inr (Some GetTimes)
          else if rpc_number = NACL_SRPC_TOGGLE_CHANNEL_TIMING_METHOD then Inr (Some SetTimingEnabled)
          else if rpc_number \<ge> rpc_count s then Inr None
          else if unat rpc_number \<ge> length (rpc_descr s) then Inl OutOfBounds
          else Inr (handler (rpc_descr s ! unat rpc_number)))"

end
