(* ===== verification/Srpc_Wire.thy ===== *)
theory Srpc_Wire
  imports Srpc_Args
begin

text \<open>
  The wire format of argument vectors, as the comment in rpc\_serialize.c gives it, is what
  \<open>ArgsPut\<close> writes (\<open>puts\<close>), with the number of bytes that \<open>ArgsLength\<close> announces; and
  \<open>ArgsGet\<close> reads it back.
\<close>

section \<open>The format\<close>

definition elt_size :: "u8 \<Rightarrow> u32" where
  "elt_size t = (if t = NACL_SRPC_ARG_TYPE_DOUBLE_ARRAY then 8
                 else if t = NACL_SRPC_ARG_TYPE_INT_ARRAY then 4 else 1)"

definition array_tags :: "u8 list" where
  "array_tags = [NACL_SRPC_ARG_TYPE_CHAR_ARRAY, NACL_SRPC_ARG_TYPE_DOUBLE_ARRAY, NACL_SRPC_ARG_TYPE_INT_ARRAY]"

lemmas tag_defs = NACL_SRPC_ARG_TYPE_BOOL_def NACL_SRPC_ARG_TYPE_CHAR_ARRAY_def NACL_SRPC_ARG_TYPE_DOUBLE_def
  NACL_SRPC_ARG_TYPE_DOUBLE_ARRAY_def NACL_SRPC_ARG_TYPE_HANDLE_def NACL_SRPC_ARG_TYPE_INT_def
  NACL_SRPC_ARG_TYPE_INT_ARRAY_def NACL_SRPC_ARG_TYPE_STRING_def array_tags_def elt_size_def

text \<open>An argument whose union field is that of its tag, with the memory its counts promise.\<close>

definition arg_ok :: "NaClSrpcArg \<Rightarrow> bool" where
  "arg_ok a \<longleftrightarrow>
     (case arg_u a of
        IntVal w \<Rightarrow> tag a = NACL_SRPC_ARG_TYPE_BOOL \<or> tag a = NACL_SRPC_ARG_TYPE_INT
      | DoubleVal w \<Rightarrow> tag a = NACL_SRPC_ARG_TYPE_DOUBLE
      | ArrayVal n m \<Rightarrow> tag a \<in> set array_tags \<and> unat n < 4294967295 div unat (elt_size (tag a)) \<and>
                        length m = unat n * unat (elt_size (tag a))
      | HandleVal d \<Rightarrow> tag a = NACL_SRPC_ARG_TYPE_HANDLE
      | StringVal s \<Rightarrow> tag a = NACL_SRPC_ARG_TYPE_STRING \<and> (\<exists>t. s = t @ [0] \<and> 0 \<notin> set t \<and> length t < 4294967295)
      | Zeroed \<Rightarrow> False)"

fun elt_wire :: "u8 \<Rightarrow> arg_value \<Rightarrow> bool \<Rightarrow> u8 list" where
  "elt_wire t (IntVal w) wv =
     (if \<not> wv then [] else if t = NACL_SRPC_ARG_TYPE_BOOL then le_bytes 1 w else le_bytes 4 w)"
| "elt_wire t (DoubleVal w) wv = (if wv then le_bytes 8 w else [])"
| "elt_wire t (ArrayVal n m) wv = le_bytes 4 n @ (if wv then m else [])"
| "elt_wire t (HandleVal d) wv = []"
| "elt_wire t (StringVal s) wv =
     (if wv then le_bytes 4 (of_nat (length s - 1) :: u32) @ butlast s else [])"
| "elt_wire t Zeroed wv = []"

fun elt_handles :: "arg_value \<Rightarrow> bool \<Rightarrow> NaClSrpcImcDescType list" where
  "elt_handles (HandleVal d) wv = (if wv then [d] else [])"
| "elt_handles _ wv = []"

definition args_wire :: "NaClSrpcArg list \<Rightarrow> bool \<Rightarrow> u8 list" where
  "args_wire args wv = le_bytes 4 (of_nat (length args) :: u32) @
     concat (map (\<lambda>a. le_bytes 1 (tag a) @ elt_wire (tag a) (arg_u a) wv) args)"

definition args_handles :: "NaClSrpcArg list \<Rightarrow> bool \<Rightarrow> NaClSrpcImcDescType list" where
  "args_handles args wv = concat (map (\<lambda>a. elt_handles (arg_u a) wv) args)"

section \<open>Writing\<close>

definition fits :: "NaClSrpcImcBuffer \<Rightarrow> u8 list \<Rightarrow> NaClSrpcImcDescType list \<Rightarrow> bool" where
  "fits b w h \<longleftrightarrow> length (written b) + length w \<le> NACL_ABI_IMC_USER_BYTES_MAX \<and>
     length (written_descs b) + length h \<le> SRPC_DESC_MAX"

text \<open>The outcome of a serializer that appends \<open>w\<close> and \<open>h\<close>: it succeeds exactly if they fit; a
  failure leaves a prefix of them behind.\<close>

definition puts :: "NaClSrpcImcBuffer \<Rightarrow> u8 list \<Rightarrow> NaClSrpcImcDescType list \<Rightarrow> (bool \<times> NaClSrpcImcBuffer) result \<Rightarrow> bool" where
  "puts b w h r \<longleftrightarrow> (\<exists>ok b'. r = Inr (ok, b') \<and> wbuf_ok b' \<and> (ok \<longleftrightarrow> fits b w h) \<and>
     (\<exists>w' h'. written b' = written b @ w' \<and> written_descs b' = written_descs b @ h' \<and> (ok \<longrightarrow> w' = w \<and> h' = h)))"

lemma wbuf_limits: "wbuf_ok b \<Longrightarrow> length (written b) \<le> NACL_ABI_IMC_USER_BYTES_MAX \<and> length (written_descs b) \<le> SRPC_DESC_MAX"
  by (simp add: length_written length_written_descs wbuf_ok_def)

lemma puts_nothing: "wbuf_ok b \<Longrightarrow> puts b [] [] (Inr (True, b))"
  by (auto simp: puts_def fits_def wbuf_limits)

lemma puts_bind:
  assumes "puts b w1 h1 r" and "\<And>b'. wbuf_ok b' \<Longrightarrow> puts b' w2 h2 (f b')"
  shows "puts b (w1 @ w2) (h1 @ h2) (bind_result r (\<lambda>(ok, b'). if ok then f b' else Inr (False, b')))"
proof -
  obtain ok b' w' h' where r: "r = Inr (ok, b')" "wbuf_ok b'" "ok \<longleftrightarrow> fits b w1 h1"
    "written b' = written b @ w'" "written_descs b' = written_descs b @ h'" "ok \<longrightarrow> w' = w1 \<and> h' = h1"
    using assms(1) unfolding puts_def by blast
  show ?thesis
  proof (cases ok)
    case False
    then have "\<not> fits b (w1 @ w2) (h1 @ h2)" using r(3) by (auto simp: fits_def)
    then show ?thesis using False r unfolding puts_def by auto
  next
    case True
    then have b': "written b' = written b @ w1" "written_descs b' = written_descs b @ h1" using r by simp_all
    obtain ok2 b2 w2' h2' where f: "f b' = Inr (ok2, b2)" "wbuf_ok b2" "ok2 \<longleftrightarrow> fits b' w2 h2"
      "written b2 = written b' @ w2'" "written_descs b2 = written_descs b' @ h2'" "ok2 \<longrightarrow> w2' = w2 \<and> h2' = h2"
      using assms(2) [OF r(2)] unfolding puts_def by blast
    have "fits b' w2 h2 \<longleftrightarrow> fits b (w1 @ w2) (h1 @ h2)"
      using r(3) True by (auto simp: fits_def b' add.assoc)
    then show ?thesis using True r f b' by (auto simp: puts_def)
  qed
qed

text \<open>One element, with the comparison of the C code.\<close>

lemma puts_Write:
  assumes b: "wbuf_ok b" and es: "0 < unat es" "length src = unat n * unat es" "unat n < 4294967295 div unat es"
  shows "puts b src [] (bind_result (NaClSrpcImcWrite src es n b) (\<lambda>(r, b). Inr (n = word_of_int r, b)))"
proof (cases "NACL_ABI_IMC_USER_BYTES_MAX < length (written b) + length src")
  case True
  have "n \<noteq> - 1"
  proof
    assume "n = - 1"
    then have "unat n = 4294967295" by (simp add: unsigned_minus_1_eq_mask mask_eq_exp_minus_1)
    moreover have "4294967295 div unat es \<le> 4294967295" by (rule div_le_dividend)
    ultimately show False using es(3) by simp
  qed
  then show ?thesis
    using True b es(3) unfolding Write_spec [OF b es(1,2)] by (auto simp: puts_def fits_def)
next
  case False
  then have len: "length (written b) + length src \<le> NACL_ABI_IMC_USER_BYTES_MAX" by simp
  show ?thesis
    using False es(3) append_bytes_ok [OF b len] wbuf_limits [OF b]
    unfolding Write_spec [OF b es(1,2)] by (auto simp: puts_def fits_def)
qed

lemma puts_Write_1:
  assumes b: "wbuf_ok b" and es: "unat es \<in> {1, 4, 8}" "length src = unat es"
  shows "puts b src [] (bind_result (NaClSrpcImcWrite src es 1 b) (\<lambda>(r, b). Inr (r = 1, b)))"
proof -
  have n: "0 < unat es" "length src = unat (1 :: u32) * unat es" "\<not> 4294967295 div unat es \<le> unat (1 :: u32)"
    using es by auto
  show ?thesis
  proof (cases "NACL_ABI_IMC_USER_BYTES_MAX < length (written b) + length src")
    case True
    then show ?thesis
      using b unfolding Write_spec [OF b n(1,2)] by (auto simp: puts_def fits_def)
  next
    case False
    then have len: "length (written b) + length src \<le> NACL_ABI_IMC_USER_BYTES_MAX" by simp
    show ?thesis
      using False n(3) append_bytes_ok [OF b len] wbuf_limits [OF b]
      unfolding Write_spec [OF b n(1,2)] by (auto simp: puts_def fits_def)
  qed
qed

lemma bind_test: "bind_result r (\<lambda>(x, b). if x \<noteq> (1 :: int) then Inr (False, b) else f b) =
    bind_result (bind_result r (\<lambda>(x, b). Inr (x = 1, b))) (\<lambda>(ok, b). if ok then f b else Inr (False, b))"
  by (cases r) auto

lemma puts_WriteDesc:
  assumes b: "wbuf_ok b"
  shows "puts b [] [d] (bind_result (NaClSrpcImcWriteDesc d b) (\<lambda>(r, b). Inr (r = 1, b)))"
  using append_desc_ok [OF b] wbuf_limits [OF b] b unfolding WriteDesc_spec [OF b] by (auto simp: puts_def fits_def)

lemma array_ok:
  assumes "arg_ok a" and "arg_u a = ArrayVal n m"
  shows "ArgsGetEltInterface a = array_io (elt_size (tag a))" and "unat n < 4294967295 div unat (elt_size (tag a))"
    and "length m = unat n * unat (elt_size (tag a))" and "unat (elt_size (tag a)) \<in> {1, 4, 8}"
  using assms by (auto simp: arg_ok_def ArgsGetEltInterface_def kCharArrIoInterface_def kDoubleArrIoInterface_def
      kIntArrIoInterface_def tag_defs)

lemma string_ok:
  assumes "arg_ok a" and "arg_u a = StringVal s"
  shows "ArgsGetEltInterface a = kStringIoInterface" and "c_strlen (StringVal s) = Inr (of_nat (length s - 1))"
    and "length s - 1 < 4294967295" and "s = butlast s @ [0]" and "0 \<notin> set (butlast s)"
proof -
  obtain t where t: "s = t @ [0]" "0 \<notin> set t" "length t < 4294967295" and tg: "tag a = NACL_SRPC_ARG_TYPE_STRING"
    using assms by (auto simp: arg_ok_def)
  show "ArgsGetEltInterface a = kStringIoInterface" by (simp add: ArgsGetEltInterface_def tg tag_defs)
  have "takeWhile (\<lambda>c. c \<noteq> 0) s = t" using t by (auto simp: takeWhile_append)
  then show "c_strlen (StringVal s) = Inr (of_nat (length s - 1))" by (simp add: c_strlen_def t(1))
qed (use assms in \<open>auto simp: arg_ok_def\<close>)

lemma puts_element:
  assumes a: "arg_ok a" and b: "wbuf_ok b"
  shows "puts b (elt_wire (tag a) (arg_u a) wv) (elt_handles (arg_u a) wv) (elt_put (ArgsGetEltInterface a) a wv b)"
proof (cases "arg_u a")
  case Zeroed
  then show ?thesis using a by (simp add: arg_ok_def)
next
  case (IntVal w)
  then consider "tag a = NACL_SRPC_ARG_TYPE_BOOL" | "tag a = NACL_SRPC_ARG_TYPE_INT" using a by (auto simp: arg_ok_def)
  then show ?thesis
    using puts_Write_1 [OF b, of 1 "le_bytes 1 w"] puts_Write_1 [OF b, of 4 "le_bytes 4 w"] puts_nothing [OF b]
    by cases (simp_all add: IntVal ArgsGetEltInterface_def kBoolIoInterface_def kIntIoInterface_def basic_io_def tag_defs)
next
  case (DoubleVal w)
  then have "tag a = NACL_SRPC_ARG_TYPE_DOUBLE" using a by (simp add: arg_ok_def)
  then show ?thesis
    using puts_Write_1 [OF b, of 8 "le_bytes 8 w"] puts_nothing [OF b]
    by (simp add: DoubleVal ArgsGetEltInterface_def kDoubleIoInterface_def basic_io_def tag_defs)
next
  case (ArrayVal n m)
  note o = array_ok [OF a ArrayVal]
  have "puts b (le_bytes 4 n @ (if wv then m else [])) ([] @ [])
    (bind_result (bind_result (NaClSrpcImcWrite (le_bytes 4 n) 4 1 b) (\<lambda>(r, b). Inr (r = 1, b)))
      (\<lambda>(ok, b). if ok then
          (if wv then bind_result (NaClSrpcImcWrite m (elt_size (tag a)) n b) (\<lambda>(r, b). Inr (n = word_of_int r, b))
           else Inr (True, b)) else Inr (False, b)))"
  proof (rule puts_bind)
    show "puts b (le_bytes 4 n) [] (bind_result (NaClSrpcImcWrite (le_bytes 4 n) 4 1 b) (\<lambda>(r, b). Inr (r = 1, b)))"
      by (rule puts_Write_1 [OF b]) simp_all
    fix b' assume b': "wbuf_ok b'"
    have "0 < unat (elt_size (tag a))" using o(4) by auto
    then show "puts b' (if wv then m else []) []
        (if wv then bind_result (NaClSrpcImcWrite m (elt_size (tag a)) n b') (\<lambda>(r, b). Inr (n = word_of_int r, b))
         else Inr (True, b'))"
      using puts_Write [OF b' _ o(3,2)] puts_nothing [OF b'] by simp
  qed
  then show ?thesis
    unfolding o(1) array_io_def ArgEltInterface.select_convs bind_test ArrayVal array_count.simps array_mem.simps
    by (simp split: if_splits)
next
  case (HandleVal d)
  then have "tag a = NACL_SRPC_ARG_TYPE_HANDLE" using a by (simp add: arg_ok_def)
  then show ?thesis
    using puts_WriteDesc [OF b, of d] puts_nothing [OF b]
    by (simp add: HandleVal ArgsGetEltInterface_def kHandleIoInterface_def tag_defs)
next
  case (StringVal s)
  note o = string_ok [OF a StringVal]
  let ?n = "of_nat (length s - 1) :: u32"
  have n: "unat ?n = length s - 1" using o(3) by (simp add: unat_of_nat_u32)
  have take_s: "NaClSrpcImcWrite s 1 ?n b' = NaClSrpcImcWrite (butlast s) 1 ?n b'" for b'
  proof -
    have "take (unat ?n) s = take (unat ?n) (butlast s)" unfolding n by (metis butlast_conv_take take_butlast take_take min.idem length_butlast order_refl take_all)
    moreover have "length s < unat (?n * 1) \<longleftrightarrow> length (butlast s) < unat (?n * 1)" unfolding mult_1_right n by auto
    ultimately show ?thesis by (simp add: NaClSrpcImcWrite_def Let_def)
  qed
  have "puts b (le_bytes 4 ?n @ butlast s) ([] @ [])
    (bind_result (bind_result (NaClSrpcImcWrite (le_bytes 4 ?n) 4 1 b) (\<lambda>(r, b). Inr (r = 1, b)))
      (\<lambda>(ok, b). if ok then bind_result (NaClSrpcImcWrite (butlast s) 1 ?n b) (\<lambda>(r, b). Inr (?n = word_of_int r, b))
                 else Inr (False, b)))"
  proof (rule puts_bind)
    show "puts b (le_bytes 4 ?n) [] (bind_result (NaClSrpcImcWrite (le_bytes 4 ?n) 4 1 b) (\<lambda>(r, b). Inr (r = 1, b)))"
      by (rule puts_Write_1 [OF b]) simp_all
    fix b' assume b': "wbuf_ok b'"
    show "puts b' (butlast s) [] (bind_result (NaClSrpcImcWrite (butlast s) 1 ?n b') (\<lambda>(r, b). Inr (?n = word_of_int r, b)))"
      by (rule puts_Write [OF b']) (use n o(3) in simp_all)
  qed
  then show ?thesis
    using puts_nothing [OF b]
    unfolding o(1) kStringIoInterface_def ArgEltInterface.select_convs bind_test StringVal o(2) bind_result_simps
      c_string_def arg_value.case take_s by (cases wv) simp_all
qed

lemma puts_elements:
  "\<forall>a \<in> set args. arg_ok a \<Longrightarrow> wbuf_ok b \<Longrightarrow>
     puts b (concat (map (\<lambda>a. le_bytes 1 (tag a) @ elt_wire (tag a) (arg_u a) wv) args)) (args_handles args wv)
       (put_elements args wv b)"
proof (induction args arbitrary: b)
  case Nil
  then show ?case by (simp add: args_handles_def puts_nothing)
next
  case (Cons a args)
  have "puts b ((le_bytes 1 (tag a)) @ (elt_wire (tag a) (arg_u a) wv @
        concat (map (\<lambda>a. le_bytes 1 (tag a) @ elt_wire (tag a) (arg_u a) wv) args)))
      ([] @ (elt_handles (arg_u a) wv @ args_handles args wv))
     (bind_result (bind_result (NaClSrpcImcWrite (le_bytes 1 (tag a)) 1 1 b) (\<lambda>(r, b). Inr (r = 1, b)))
      (\<lambda>(ok, b). if ok then bind_result (elt_put (ArgsGetEltInterface a) a wv b) (\<lambda>(ok, b).
           if ok then put_elements args wv b else Inr (False, b)) else Inr (False, b)))"
    using Cons.prems Cons.IH
    by (intro puts_bind puts_Write_1 puts_element) simp_all
  then show ?case by (simp add: args_handles_def bind_test)
qed

lemma puts_ArgsPut:
  assumes "\<forall>a \<in> set args. arg_ok a" and "wbuf_ok b" and "length args < NACL_SRPC_MAX_ARGS"
  shows "puts b (args_wire args wv) (args_handles args wv) (ArgsPut args wv b)"
proof -
  let ?n = "of_nat (length args) :: u32"
  have "puts b (args_wire args wv) ([] @ args_handles args wv)
     (bind_result (bind_result (NaClSrpcImcWrite (le_bytes 4 ?n) 4 1 b) (\<lambda>(r, b). Inr (r = 1, b)))
      (\<lambda>(ok, b). if ok then put_elements args wv b else Inr (False, b)))"
    unfolding args_wire_def using assms(1,2) by (intro puts_bind puts_Write_1 puts_elements) simp_all
  then show ?thesis using assms(3) by (simp add: ArgsPut_def bind_test)
qed

section \<open>The announced length\<close>

lemma elt_length_wire:
  assumes a: "arg_ok a"
  shows "elt_length (ArgsGetEltInterface a) a wv =
    Inr (of_nat (length (elt_wire (tag a) (arg_u a) wv)), int (length (elt_handles (arg_u a) wv)))"
proof (cases "arg_u a")
  case (ArrayVal n m)
  note o = array_ok [OF a ArrayVal]
  have "of_nat (length m) = elt_size (tag a) * n" using o(3) by simp
  then show ?thesis unfolding o(1) by (simp add: array_io_def ArrayVal)
next
  case (StringVal s)
  note o = string_ok [OF a StringVal]
  show ?thesis unfolding o(1) by (simp add: kStringIoInterface_def StringVal o(2))
qed (use a in \<open>auto simp: arg_ok_def ArgsGetEltInterface_def kBoolIoInterface_def kIntIoInterface_def
      kDoubleIoInterface_def kHandleIoInterface_def basic_io_def tag_defs\<close>)

lemma sum_lengths_wire:
  "\<forall>a \<in> set args. arg_ok a \<Longrightarrow>
     sum_lengths args wv n h =
       Inr (n + of_nat (length (concat (map (\<lambda>a. le_bytes 1 (tag a) @ elt_wire (tag a) (arg_u a) wv) args))),
            h + int (length (args_handles args wv)))"
  by (induction args arbitrary: n h) (simp_all add: elt_length_wire args_handles_def algebra_simps)

lemma ArgsLength_wire:
  assumes "\<forall>a \<in> set args. arg_ok a" and "length args < NACL_SRPC_MAX_ARGS"
  shows "ArgsLength args wv =
    Inr (True, of_nat (length (args_wire args wv)), of_nat (length (args_handles args wv)))"
  using assms by (simp add: ArgsLength_def sum_lengths_wire args_wire_def algebra_simps)

section \<open>Reading back\<close>

definition malloc_upto :: "malloc_fn \<Rightarrow> nat \<Rightarrow> bool" where
  "malloc_upto malloc N \<longleftrightarrow> (\<forall>n \<le> N. \<exists>block. malloc n = Some block \<and> length block = n)"

lemma malloc_uptoD: "malloc_upto malloc N \<Longrightarrow> n \<le> N \<Longrightarrow> \<exists>block. malloc n = Some block \<and> length block = n"
  by (simp add: malloc_upto_def)

lemma Read_prefix:
  assumes "rbuf_ok b" and "unread b = w @ rest" and "0 < unat es" and "length w = unat n * unat es"
    and "unat n < 4294967295 div unat es"
  shows "NaClSrpcImcRead b es n = Inr (sint n, w, advance (length w) b)"
    and "rbuf_ok (advance (length w) b)" and "unread (advance (length w) b) = rest"
    and "unread_descs (advance (length w) b) = unread_descs b"
proof -
  show "NaClSrpcImcRead b es n = Inr (sint n, w, advance (length w) b)"
    unfolding Read_spec [OF assms(1,3)] using assms(2,4,5) by simp
  have "length w \<le> length (unread b)" using assms(2) by simp
  from advance_ok [OF assms(1) this] show "rbuf_ok (advance (length w) b)" "unread (advance (length w) b) = rest"
    "unread_descs (advance (length w) b) = unread_descs b" using assms(2) by simp_all
qed

lemma Read_one:
  assumes "rbuf_ok b" and "unread b = w @ rest" and "unat es = length w" and "length w \<in> {1, 4, 8}"
  shows "NaClSrpcImcRead b es 1 = Inr (1, w, advance (length w) b)"
    and "rbuf_ok (advance (length w) b)" and "unread (advance (length w) b) = rest"
    and "unread_descs (advance (length w) b) = unread_descs b"
proof -
  have p: "0 < unat es" "length w = unat (1 :: u32) * unat es" "unat (1 :: u32) < 4294967295 div unat es"
    using assms(3,4) by auto
  note r = Read_prefix [OF assms(1,2) p]
  show "NaClSrpcImcRead b es 1 = Inr (1, w, advance (length w) b)" using r(1) by simp
  show "rbuf_ok (advance (length w) b)" "unread (advance (length w) b) = rest"
    "unread_descs (advance (length w) b) = unread_descs b" by (rule r(2-4))+
qed

fun received :: "u8 \<Rightarrow> arg_value \<Rightarrow> arg_value" where
  "received t (IntVal w) = IntVal (if t = NACL_SRPC_ARG_TYPE_BOOL then w AND 0xff else w)"
| "received t v = v"

definition got :: "NaClSrpcImcBuffer \<Rightarrow> u8 list \<Rightarrow> NaClSrpcImcDescType list \<Rightarrow> bool" where
  "got b rest hrest \<longleftrightarrow> rbuf_ok b \<and> unread b = rest \<and> unread_descs b = hrest"

lemma low_byte: "ucast (ucast w :: u8) = w AND 0xff" for w :: u32
proof -
  have "ucast (ucast w :: u8) = take_bit 8 w" by (simp add: unsigned_ucast_eq)
  also have "\<dots> = w AND mask 8" by (rule take_bit_eq_mask)
  finally show ?thesis by (simp add: mask_eq_exp_minus_1)
qed

lemma bool_byte: "of_le (le_bytes 1 w) = w AND 0xff" for w :: u32
  using low_byte [of w] by (simp add: of_le_def le_bytes_def)

lemma get_element:
  assumes a: "arg_ok a" and b: "rbuf_ok b" and u: "unread b = elt_wire (tag a) (arg_u a) True @ rest"
    and h: "unread_descs b = elt_handles (arg_u a) True @ hrest" and m: "malloc_upto malloc (NACL_ABI_IMC_USER_BYTES_MAX + 1)"
  shows "\<exists>b'. elt_get (ArgsGetEltInterface a) malloc b True True \<lparr>tag = tag a, arg_u = Zeroed\<rparr> =
      Inr (True, b', \<lparr>tag = tag a, arg_u = received (tag a) (arg_u a)\<rparr>) \<and> got b' rest hrest"
proof (cases "arg_u a")
  case Zeroed
  then show ?thesis using a by (simp add: arg_ok_def)
next
  case (IntVal w)
  then consider "tag a = NACL_SRPC_ARG_TYPE_BOOL" | "tag a = NACL_SRPC_ARG_TYPE_INT" using a by (auto simp: arg_ok_def)
  then show ?thesis
  proof cases
    case 1
    then have "unread b = le_bytes 1 w @ rest" using u by (simp add: IntVal)
    from Read_one [OF b this, of 1] show ?thesis
      using h by (simp add: IntVal 1 ArgsGetEltInterface_def kBoolIoInterface_def basic_io_def got_def
          bool_byte [unfolded One_nat_def])
  next
    case 2
    then have t: "tag a \<noteq> NACL_SRPC_ARG_TYPE_BOOL" by (simp add: tag_defs)
    then have "unread b = le_bytes 4 w @ rest" using u by (simp add: IntVal)
    from Read_one [OF b this, of 4] show ?thesis
      using h t 2 by (simp add: IntVal ArgsGetEltInterface_def kIntIoInterface_def basic_io_def got_def of_le_bytes)
        (simp add: tag_defs)
  qed
next
  case (DoubleVal w)
  then have t: "tag a = NACL_SRPC_ARG_TYPE_DOUBLE" using a by (simp add: arg_ok_def)
  have "unread b = le_bytes 8 w @ rest" using u by (simp add: DoubleVal)
  from Read_one [OF b this, of 8] show ?thesis
    using h t by (simp add: DoubleVal ArgsGetEltInterface_def kDoubleIoInterface_def basic_io_def got_def of_le_bytes
        tag_defs)
next
  case (HandleVal d)
  then have t: "tag a = NACL_SRPC_ARG_TYPE_HANDLE" using a by (simp add: arg_ok_def)
  have hd: "unread_descs b = d # hrest" using h by (simp add: HandleVal)
  show ?thesis
    using next_desc_ok [OF b hd] ReadDesc_spec [OF b] u t
    by (simp add: hd HandleVal ArgsGetEltInterface_def kHandleIoInterface_def tag_defs got_def)
next
  case (ArrayVal n mem)
  note o = array_ok [OF a ArrayVal]
  let ?es = "elt_size (tag a)"
  have u1: "unread b = le_bytes 4 n @ mem @ rest" using u by (simp add: ArrayVal)
  note r1 = Read_one [OF b u1, of 4, simplified]
  have "length (mem @ rest) \<le> NACL_ABI_IMC_USER_BYTES_MAX" using unread_small [OF b] u1 by simp
  then obtain block where blk: "malloc (length mem) = Some block" "length block = length mem"
    using malloc_uptoD [OF m, of "length mem"] by auto
  have es: "0 < unat ?es" using o(4) by auto
  note r2 = Read_prefix [OF r1(2,3) es o(3,2)]
  have "unat (n * ?es) = length mem"
    using product_fits [of "unat ?es" "unat n"] o(2,3) by (simp add: unat_word_ariths)
  then have bm: "malloc (unat (n * ?es)) = Some block" using blk by simp
  have small: "\<not> SIZE_T_MAX div ?es \<le> n" using o(2) by (simp add: word_le_nat_alt unat_div unat_SIZE_T_MAX)
  have "array_read ?es n True (advance 4 b) \<lparr>tag = tag a, arg_u = ArrayVal n block\<rparr> =
      Inr (True, advance (length mem) (advance 4 b), \<lparr>tag = tag a, arg_u = ArrayVal n mem\<rparr>)"
    unfolding array_read_def by (simp add: r2(1) blk(2))
  then show ?thesis
    unfolding o(1) using r1(1,4) r2(2-4) h by (simp add: array_io_def of_le_bytes small bm ArrayVal got_def)
next
  case (StringVal s)
  note o = string_ok [OF a StringVal]
  let ?n = "of_nat (length s - 1) :: u32"
  have n: "unat ?n = length (butlast s)" using o(3) by (simp add: unat_of_nat_u32)
  have u1: "unread b = le_bytes 4 ?n @ butlast s @ rest" using u by (simp add: StringVal)
  note r1 = Read_one [OF b u1, of 4, simplified]
  have "length (butlast s @ rest) \<le> NACL_ABI_IMC_USER_BYTES_MAX" using unread_small [OF b] u1 by simp
  then obtain block where blk: "malloc (length (butlast s) + 1) = Some block" "length block = length (butlast s) + 1"
    using malloc_uptoD [OF m, of "length (butlast s) + 1"] by auto
  have d1: "unat (?n + 1) = length (butlast s) + 1" using o(3) n by (subst unat_plus_u32) simp_all
  have small: "\<not> SIZE_T_MAX \<le> ?n" using o(3) by (simp add: word_le_nat_alt unat_SIZE_T_MAX unat_of_nat_u32)
  have p: "0 < unat (1 :: u32)" "length (butlast s) = unat ?n * unat (1 :: u32)"
    "unat ?n < 4294967295 div unat (1 :: u32)"
    using n o(3) by (simp_all del: length_butlast) (simp_all add: length_butlast)
  note r2 = Read_prefix [OF r1(2,3) p]
  have "(butlast s @ drop (length (butlast s)) block)[length (butlast s) := 0] = s"
  proof -
    have "length (drop (length (butlast s)) block) = 1" using blk(2) by simp
    then obtain x where "drop (length (butlast s)) block = [x]" by (metis One_nat_def length_0_conv length_Suc_conv)
    then show ?thesis using o(4) by (simp add: list_update_append)
  qed
  then show ?thesis
    unfolding o(1) using r1(1,4) r2 h small n blk d1
    by (simp add: kStringIoInterface_def of_le_bytes StringVal got_def Let_def del: length_butlast)
qed

text \<open>The template of a return value: only the arrays are allocated, with the sender's counts.\<close>

fun template :: "malloc_fn \<Rightarrow> arg_value \<Rightarrow> arg_value" where
  "template malloc (ArrayVal n m) = ArrayVal n (the (malloc (length m)))"
| "template malloc _ = Zeroed"

fun array_bytes :: "arg_value \<Rightarrow> nat" where
  "array_bytes (ArrayVal n m) = length m" | "array_bytes _ = 0"

lemma get_template:
  assumes a: "arg_ok a" and b: "rbuf_ok b" and u: "unread b = elt_wire (tag a) (arg_u a) False @ rest"
    and h: "unread_descs b = elt_handles (arg_u a) False @ hrest" and m: "malloc_upto malloc N" "array_bytes (arg_u a) \<le> N"
  shows "\<exists>b'. elt_get (ArgsGetEltInterface a) malloc b True False \<lparr>tag = tag a, arg_u = Zeroed\<rparr> =
      Inr (True, b', \<lparr>tag = tag a, arg_u = template malloc (arg_u a)\<rparr>) \<and> got b' rest hrest"
proof (cases "arg_u a")
  case (ArrayVal n mem)
  note o = array_ok [OF a ArrayVal]
  let ?es = "elt_size (tag a)"
  have u1: "unread b = le_bytes 4 n @ rest" using u by (simp add: ArrayVal)
  note r1 = Read_one [OF b u1, of 4, simplified]
  obtain block where blk: "malloc (length mem) = Some block" "length block = length mem"
    using malloc_uptoD [OF m(1), of "length mem"] m(2) by (auto simp: ArrayVal)
  have "unat (n * ?es) = length mem"
    using product_fits [of "unat ?es" "unat n"] o(2,3) by (simp add: unat_word_ariths)
  then have bm: "malloc (unat (n * ?es)) = Some block" using blk by simp
  have small: "\<not> SIZE_T_MAX div ?es \<le> n" using o(2) by (simp add: word_le_nat_alt unat_div unat_SIZE_T_MAX)
  show ?thesis
    unfolding o(1) using r1 h
    by (simp add: array_io_def of_le_bytes small bm ArrayVal got_def array_read_def blk(1))
qed (use a b u h in \<open>auto simp: arg_ok_def ArgsGetEltInterface_def kBoolIoInterface_def kIntIoInterface_def
      kDoubleIoInterface_def kHandleIoInterface_def kStringIoInterface_def basic_io_def tag_defs got_def\<close>)

text \<open>The loop of \<open>ArgsGet\<close>; \<open>out\<close> is the value that the element reader delivers.\<close>

fun point_to :: "nat \<Rightarrow> nat \<Rightarrow> arg_ptr list \<Rightarrow> arg_ptr list" where
  "point_to i 0 argvec = argvec[i := Null]"
| "point_to i (Suc k) argvec = point_to (i + 1) k (argvec[i := Elem i])"

text \<open>One element: the reader for \<open>old\<close>, the element as it stands in the block, takes the
  serialized \<open>a\<close> and delivers \<open>new\<close>.\<close>

definition reads :: "malloc_fn \<Rightarrow> bool \<Rightarrow> bool \<Rightarrow> NaClSrpcArg \<times> NaClSrpcArg \<times> NaClSrpcArg \<Rightarrow> bool" where
  "reads malloc al rv t \<longleftrightarrow> (case t of (old, a, new) \<Rightarrow> tag old = tag a \<and> (\<forall>b rest hrest. rbuf_ok b \<longrightarrow>
     unread b = elt_wire (tag a) (arg_u a) rv @ rest \<longrightarrow> unread_descs b = elt_handles (arg_u a) rv @ hrest \<longrightarrow>
     (\<exists>b'. elt_get (ArgsGetEltInterface old) malloc b al rv old = Inr (True, b', new) \<and> got b' rest hrest)))"

lemma readsD:
  "reads malloc al rv (old, a, new) \<Longrightarrow> rbuf_ok b \<Longrightarrow>
     unread b = elt_wire (tag a) (arg_u a) rv @ rest \<Longrightarrow> unread_descs b = elt_handles (arg_u a) rv @ hrest \<Longrightarrow>
     \<exists>b'. elt_get (ArgsGetEltInterface old) malloc b al rv old = Inr (True, b', new) \<and> got b' rest hrest"
  by (simp add: reads_def)

lemma ArgsGetEltInterface_tag: "ArgsGetEltInterface \<lparr>tag = tag a, arg_u = v\<rparr> = ArgsGetEltInterface a"
  by (simp add: ArgsGetEltInterface_def)

lemma ArgsGetEltInterface_cong: "tag a = tag b \<Longrightarrow> ArgsGetEltInterface a = ArgsGetEltInterface b"
  by (simp only: ArgsGetEltInterface_def)

lemma tag_byte: "of_le (le_bytes 1 w) = w" for w :: u8
  by (rule of_le_bytes) simp

lemma read_args_step:
  assumes r: "reads malloc al rv (old, a, new)" and b: "rbuf_ok b"
    and u: "unread b = le_bytes 1 (tag a) @ elt_wire (tag a) (arg_u a) rv @ tail"
    and h: "unread_descs b = elt_handles (arg_u a) rv @ hrest"
    and i: "i < length as" "as ! i = old" "i < length argvec"
  shows "\<exists>b'. read_args malloc al rv i (Suc k) b argvec (Some as) =
      read_args malloc al rv (Suc i) k b' (argvec[i := Elem i]) (Some (as[i := new])) \<and> got b' tail hrest"
proof -
  note r1 = Read_one [OF b u, of 1, simplified]
  obtain b' where "elt_get (ArgsGetEltInterface old) malloc (advance (Suc 0) b) al rv old = Inr (True, b', new)" "got b' tail hrest"
    using readsD [OF r, of "advance (Suc 0) b" tail hrest] r1(2-4) h by auto
  moreover have "tag old = tag a" using r by (simp add: reads_def)
  ultimately show ?thesis
    using r1(1) i tag_byte [of "tag a"] by (intro exI [of _ b']) (simp add: Let_def)
qed

lemma read_args_wire:
  assumes "\<forall>t \<in> set ts. reads malloc al rv t" and "rbuf_ok b" and "args = map (fst \<circ> snd) ts"
    and "unread b = concat (map (\<lambda>a. le_bytes 1 (tag a) @ elt_wire (tag a) (arg_u a) rv) args) @ rest"
    and "unread_descs b = args_handles args rv @ hrest"
    and "length done = i" and "i + length args < length argvec"
  shows "\<exists>b'. read_args malloc al rv i (length args) b argvec (Some (done @ map fst ts @ zs)) =
      Inr (True, b', point_to i (length args) argvec, Some (done @ map (snd \<circ> snd) ts @ zs)) \<and> got b' rest hrest"
  using assms
proof (induction ts arbitrary: b "done" i argvec args)
  case Nil
  then show ?case by (simp add: got_def args_handles_def)
next
  case (Cons t ts)
  obtain old a new where t: "t = (old, a, new)" by (cases t) auto
  let ?as = "map (fst \<circ> snd) ts"
  let ?tail = "concat (map (\<lambda>a. le_bytes 1 (tag a) @ elt_wire (tag a) (arg_u a) rv) ?as) @ rest"
  have args: "args = a # ?as" using Cons.prems(3) by (simp add: t)
  have r: "reads malloc al rv (old, a, new)" using Cons.prems(1) by (simp add: t)
  have u: "unread b = le_bytes 1 (tag a) @ elt_wire (tag a) (arg_u a) rv @ ?tail"
    "unread_descs b = elt_handles (arg_u a) rv @ (args_handles ?as rv @ hrest)"
    using Cons.prems(4,5) by (simp_all add: args args_handles_def)
  have i: "i < length (done @ map fst (t # ts) @ zs)" "(done @ map fst (t # ts) @ zs) ! i = old" "i < length argvec"
    using Cons.prems(6,7) by (simp_all add: t nth_append)
  obtain b2 where b2: "read_args malloc al rv i (Suc (length ?as)) b argvec (Some (done @ map fst (t # ts) @ zs)) =
      read_args malloc al rv (Suc i) (length ?as) b2 (argvec[i := Elem i]) (Some ((done @ map fst (t # ts) @ zs)[i := new]))"
    "got b2 ?tail (args_handles ?as rv @ hrest)"
    using read_args_step [OF r Cons.prems(2) u i] by blast
  have upd: "(done @ map fst (t # ts) @ zs)[i := new] = (done @ [new]) @ map fst ts @ zs"
    using Cons.prems(6) by (simp add: t list_update_append)
  have "\<exists>b'. read_args malloc al rv (Suc i) (length ?as) b2 (argvec[i := Elem i]) (Some ((done @ [new]) @ map fst ts @ zs)) =
      Inr (True, b', point_to (Suc i) (length ?as) (argvec[i := Elem i]), Some ((done @ [new]) @ map (snd \<circ> snd) ts @ zs)) \<and>
      got b' rest hrest"
    using Cons.prems(1,6,7) b2(2) by (intro Cons.IH) (auto simp: got_def args)
  moreover have "point_to i (length args) argvec = point_to (Suc i) (length ?as) (argvec[i := Elem i])"
    "(done @ [new]) @ map (snd \<circ> snd) ts @ zs = done @ map (snd \<circ> snd) (t # ts) @ zs" by (simp_all add: args t)
  ultimately show ?case using b2(1) upd by (simp only: args length_Cons)
qed

text \<open>A vector that is longer than the caller's block.\<close>

lemma read_args_overrun:
  assumes "\<forall>t \<in> set ts. reads malloc al rv t" and "rbuf_ok b" and "args = map (fst \<circ> snd) ts"
    and "unread b = concat (map (\<lambda>a. le_bytes 1 (tag a) @ elt_wire (tag a) (arg_u a) rv) args) @ x # rest"
    and "unread_descs b = args_handles args rv @ hrest"
    and "length done = i" and "i + length args < length argvec"
  shows "read_args malloc al rv i (length args + Suc k) b argvec (Some (done @ map fst ts)) = Inl OutOfBounds"
  using assms
proof (induction ts arbitrary: b "done" i argvec args)
  case Nil
  then have u: "unread b = [x] @ rest" by simp
  note r = Read_one [OF Nil.prems(2) u, of 1]
  show ?case using Nil r(1) by simp
next
  case (Cons t ts)
  obtain old a new where t: "t = (old, a, new)" by (cases t) auto
  let ?as = "map (fst \<circ> snd) ts"
  let ?tail = "concat (map (\<lambda>a. le_bytes 1 (tag a) @ elt_wire (tag a) (arg_u a) rv) ?as) @ x # rest"
  have args: "args = a # ?as" using Cons.prems(3) by (simp add: t)
  have r: "reads malloc al rv (old, a, new)" using Cons.prems(1) by (simp add: t)
  have u: "unread b = le_bytes 1 (tag a) @ elt_wire (tag a) (arg_u a) rv @ ?tail"
    "unread_descs b = elt_handles (arg_u a) rv @ (args_handles ?as rv @ hrest)"
    using Cons.prems(4,5) by (simp_all add: args args_handles_def)
  have i: "i < length (done @ map fst (t # ts))" "(done @ map fst (t # ts)) ! i = old" "i < length argvec"
    using Cons.prems(6,7) by (simp_all add: t nth_append)
  obtain b2 where b2: "read_args malloc al rv i (Suc (length ?as + Suc k)) b argvec (Some (done @ map fst (t # ts))) =
      read_args malloc al rv (Suc i) (length ?as + Suc k) b2 (argvec[i := Elem i]) (Some ((done @ map fst (t # ts))[i := new]))"
    "got b2 ?tail (args_handles ?as rv @ hrest)"
    using read_args_step [OF r Cons.prems(2) u i] by blast
  have upd: "(done @ map fst (t # ts))[i := new] = (done @ [new]) @ map fst ts"
    using Cons.prems(6) by (simp add: t list_update_append)
  have "read_args malloc al rv (Suc i) (length ?as + Suc k) b2 (argvec[i := Elem i]) (Some ((done @ [new]) @ map fst ts)) = Inl OutOfBounds"
    using Cons.prems(1,6,7) b2(2) by (intro Cons.IH) (auto simp: got_def args)
  then show ?case using b2(1) unfolding upd args by (simp only: length_Cons add_Suc)
qed

definition blank :: "NaClSrpcArg \<Rightarrow> NaClSrpcArg" where
  "blank a = \<lparr>tag = tag a, arg_u = Zeroed\<rparr>"

definition readable :: "malloc_fn \<Rightarrow> bool \<Rightarrow> (NaClSrpcArg \<Rightarrow> arg_value) \<Rightarrow> NaClSrpcArg list \<Rightarrow> bool" where
  "readable malloc rv out args \<longleftrightarrow>
     (\<forall>t \<in> set (map (\<lambda>a. (blank a, a, \<lparr>tag = tag a, arg_u = out a\<rparr>)) args). reads malloc True rv t)"

lemma readable_values:
  assumes "\<forall>a \<in> set args. arg_ok a" and "malloc_upto malloc (NACL_ABI_IMC_USER_BYTES_MAX + 1)"
  shows "readable malloc True (\<lambda>a. received (tag a) (arg_u a)) args"
  using get_element [OF _ _ _ _ assms(2)] assms(1)
  unfolding readable_def reads_def by (auto simp: blank_def ArgsGetEltInterface_tag)

lemma readable_templates:
  assumes "\<forall>a \<in> set args. arg_ok a" and "malloc_upto malloc N" and "\<forall>a \<in> set args. array_bytes (arg_u a) \<le> N"
  shows "readable malloc False (\<lambda>a. template malloc (arg_u a)) args"
  using get_template [OF _ _ _ _ assms(2)] assms(1,3)
  unfolding readable_def reads_def by (auto simp: blank_def ArgsGetEltInterface_tag)

text \<open>What an element of the caller's own block becomes when a value is read into it.\<close>

fun absorb :: "u8 \<Rightarrow> arg_value \<Rightarrow> arg_value \<Rightarrow> arg_value" where
  "absorb t old (IntVal w) = IntVal (if t = NACL_SRPC_ARG_TYPE_BOOL then (int_val old AND NOT 0xff) OR (w AND 0xff) else w)"
| "absorb t old (ArrayVal n m) = ArrayVal (array_count old) (m @ drop (length m) (array_mem old))"
| "absorb t old v = v"

fun room :: "arg_value \<Rightarrow> arg_value \<Rightarrow> bool" where
  "room old (ArrayVal n m) \<longleftrightarrow> n \<le> array_count old \<and> length m \<le> length (array_mem old)"
| "room old _ \<longleftrightarrow> True"

definition absorbed :: "NaClSrpcArg \<Rightarrow> NaClSrpcArg \<Rightarrow> NaClSrpcArg" where
  "absorbed old a = \<lparr>tag = tag a, arg_u = absorb (tag a) (arg_u old) (arg_u a)\<rparr>"

lemma get_into:
  assumes a: "arg_ok a" and t: "tag old = tag a" and rm: "room (arg_u old) (arg_u a)"
    and b: "rbuf_ok b" and u: "unread b = elt_wire (tag a) (arg_u a) True @ rest"
    and h: "unread_descs b = elt_handles (arg_u a) True @ hrest" and m: "malloc_upto malloc (NACL_ABI_IMC_USER_BYTES_MAX + 1)"
  shows "\<exists>b'. elt_get (ArgsGetEltInterface old) malloc b False True old = Inr (True, b', absorbed old a) \<and> got b' rest hrest"
proof (cases "arg_u a")
  case Zeroed
  then show ?thesis using a by (simp add: arg_ok_def)
next
  case (IntVal w)
  then consider "tag a = NACL_SRPC_ARG_TYPE_BOOL" | "tag a = NACL_SRPC_ARG_TYPE_INT" using a by (auto simp: arg_ok_def)
  then show ?thesis
  proof cases
    case 1
    then have "unread b = le_bytes 1 w @ rest" using u by (simp add: IntVal)
    from Read_one [OF b this, of 1] show ?thesis
      using h t by (cases old) (simp add: IntVal 1 ArgsGetEltInterface_def kBoolIoInterface_def basic_io_def got_def
          bool_byte [unfolded One_nat_def] absorbed_def)
  next
    case 2
    then have tb: "tag a \<noteq> NACL_SRPC_ARG_TYPE_BOOL" by (simp add: tag_defs)
    then have "unread b = le_bytes 4 w @ rest" using u by (simp add: IntVal)
    from Read_one [OF b this, of 4] show ?thesis
      using h tb t 2
      by (cases old) (simp add: IntVal ArgsGetEltInterface_def kIntIoInterface_def basic_io_def got_def of_le_bytes
          absorbed_def, simp add: tag_defs)
  qed
next
  case (DoubleVal w)
  then have td: "tag a = NACL_SRPC_ARG_TYPE_DOUBLE" using a by (simp add: arg_ok_def)
  have "unread b = le_bytes 8 w @ rest" using u by (simp add: DoubleVal)
  from Read_one [OF b this, of 8] show ?thesis
    using h td t by (cases old) (simp add: DoubleVal ArgsGetEltInterface_def kDoubleIoInterface_def basic_io_def got_def
        of_le_bytes tag_defs absorbed_def)
next
  case (HandleVal d)
  then have th: "tag a = NACL_SRPC_ARG_TYPE_HANDLE" using a by (simp add: arg_ok_def)
  have hd: "unread_descs b = d # hrest" using h by (simp add: HandleVal)
  show ?thesis
    using next_desc_ok [OF b hd] ReadDesc_spec [OF b] u t th
    by (cases old) (simp add: hd HandleVal ArgsGetEltInterface_def kHandleIoInterface_def tag_defs got_def absorbed_def)
next
  case (ArrayVal n mem)
  note o = array_ok [OF a ArrayVal]
  let ?es = "elt_size (tag a)"
  have io: "ArgsGetEltInterface old = array_io ?es" using o(1) ArgsGetEltInterface_cong [OF t] by simp
  have u1: "unread b = le_bytes 4 n @ mem @ rest" using u by (simp add: ArrayVal)
  note r1 = Read_one [OF b u1, of 4, simplified]
  have es: "0 < unat ?es" using o(4) by auto
  note r2 = Read_prefix [OF r1(2,3) es o(3,2)]
  have cap: "\<not> array_count (arg_u old) < n" "\<not> length (array_mem (arg_u old)) < length mem"
    using rm by (simp_all add: ArrayVal not_less)
  have "array_read ?es n True (advance 4 b) old =
      Inr (True, advance (length mem) (advance 4 b), absorbed old a)"
    unfolding array_read_def using cap t by (cases old) (simp add: r2(1) absorbed_def ArrayVal)
  then show ?thesis
    unfolding io using r1(1,4) r2(2-4) h cap by (simp add: array_io_def of_le_bytes ArrayVal got_def)
next
  case (StringVal s)
  note o = string_ok [OF a StringVal]
  have io: "ArgsGetEltInterface old = kStringIoInterface" "ArgsGetEltInterface a = kStringIoInterface"
    using o(1) ArgsGetEltInterface_cong [OF t] by simp_all
  have same: "elt_get kStringIoInterface malloc b False True old = Inr (True, b', r)" if
      "elt_get kStringIoInterface malloc b True True \<lparr>tag = tag a, arg_u = Zeroed\<rparr> = Inr (True, b', r)" for b' r
    using that t unfolding kStringIoInterface_def
    by (cases old) (auto simp: Let_def bind_result_def split: sum.splits option.splits if_splits)
  obtain b' where g: "elt_get kStringIoInterface malloc b True True \<lparr>tag = tag a, arg_u = Zeroed\<rparr> =
      Inr (True, b', \<lparr>tag = tag a, arg_u = StringVal s\<rparr>)" "got b' rest hrest"
    using get_element [OF a b u h m] by (auto simp: io StringVal)
  show ?thesis using same [OF g(1)] g t by (simp add: io absorbed_def StringVal)
qed

lemma point_to_eq:
  "i + k < length v \<Longrightarrow> point_to i k v = take i v @ map Elem [i..<i + k] @ Null # drop (Suc (i + k)) v"
proof (induction k arbitrary: i v)
  case 0
  then show ?case by (simp add: upd_conv_take_nth_drop)
next
  case (Suc k)
  have "[i..<i + Suc k] = i # [Suc i..<Suc i + k]" by (simp add: upt_rec)
  then show ?case
    using Suc.prems Suc.IH [of "Suc i" "v[i := Elem i]"] by (simp add: take_Suc_conv_app_nth)
qed

text \<open>The vector of a caller: \<open>n\<close> elements of one block, then NULL.\<close>

definition whole :: "nat \<Rightarrow> arg_ptr list" where
  "whole n = map Elem [0..<n] @ [Null]"

lemma length_whole [simp]: "length (whole n) = Suc n"
  by (simp add: whole_def)

lemma point_to_whole [simp]: "point_to 0 n (whole n) = whole n"
  by (simp add: point_to_eq) (simp add: whole_def)

lemma whole_init: "whole n ! 0 \<noteq> Uninit"
  by (simp add: whole_def nth_append)

definition fits_in :: "NaClSrpcArg list \<Rightarrow> NaClSrpcArg list \<Rightarrow> bool" where
  "fits_in olds args \<longleftrightarrow> list_all2 (\<lambda>old a. tag old = tag a \<and> room (arg_u old) (arg_u a)) olds args"

definition into :: "NaClSrpcArg list \<Rightarrow> NaClSrpcArg list \<Rightarrow> (NaClSrpcArg \<times> NaClSrpcArg \<times> NaClSrpcArg) list" where
  "into olds args = map2 (\<lambda>old a. (old, a, absorbed old a)) olds args"

lemma into_parts:
  assumes "fits_in olds args"
  shows "map fst (into olds args) = olds" and "args = map (fst \<circ> snd) (into olds args)"
    and "map (snd \<circ> snd) (into olds args) = map2 absorbed olds args" and "length olds = length args"
proof -
  show len: "length olds = length args" using assms by (auto simp: fits_in_def list_all2_lengthD)
  then show "map fst (into olds args) = olds" "args = map (fst \<circ> snd) (into olds args)"
    "map (snd \<circ> snd) (into olds args) = map2 absorbed olds args"
    by (simp_all add: into_def list_eq_iff_nth_eq)
qed

lemma into_reads:
  assumes ok: "\<forall>a \<in> set args. arg_ok a" and f: "fits_in olds args" and m: "malloc_upto malloc (NACL_ABI_IMC_USER_BYTES_MAX + 1)"
  shows "\<forall>t \<in> set (into olds args). reads malloc False True t"
proof
  fix t assume t: "t \<in> set (into olds args)"
  have len: "length olds = length args" by (rule into_parts(4) [OF f])
  obtain i where i: "i < length args" "t = (olds ! i, args ! i, absorbed (olds ! i) (args ! i))"
    using t len unfolding in_set_conv_nth into_def by auto
  have "tag (olds ! i) = tag (args ! i)" "room (arg_u (olds ! i)) (arg_u (args ! i))"
    using f i(1) len by (auto simp: fits_in_def list_all2_conv_all_nth)
  then show "reads malloc False True t"
    using get_into [OF _ _ _ _ _ _ m, of "args ! i" "olds ! i"] ok(1) i by (auto simp: reads_def)
qed

text \<open>Without allocation \<open>ArgsGet\<close> is the loop on the caller's block.\<close>

lemma ArgsGet_loop:
  assumes b: "rbuf_ok b" "unread b = le_bytes 4 (of_nat n :: u32) @ rest" and n: "n < NACL_SRPC_MAX_ARGS"
  shows "ArgsGet malloc b False rv (whole k) args0 types = read_args malloc False rv 0 n (advance 4 b) (whole k) args0"
    and "rbuf_ok (advance 4 b)" and "unread (advance 4 b) = rest" and "unread_descs (advance 4 b) = unread_descs b"
proof -
  have u: "unat (of_nat n :: u32) = n" using n by (simp add: NACL_SRPC_MAX_ARGS_def unat_of_nat_u32)
  have c4: "unat (4 :: u32) = length (le_bytes 4 (of_nat n :: u32))" "length (le_bytes 4 (of_nat n :: u32)) \<in> {1, 4, 8}" by simp_all
  note r1 = Read_one [OF b c4, unfolded length_le_bytes]
  have "whole k \<noteq> []" by (simp add: whole_def)
  then show "ArgsGet malloc b False rv (whole k) args0 types = read_args malloc False rv 0 n (advance 4 b) (whole k) args0"
    using r1(1) n whole_init by (simp add: ArgsGet_def Let_def of_le_bytes u)
  show "rbuf_ok (advance 4 b)" "unread (advance 4 b) = rest" "unread_descs (advance 4 b) = unread_descs b"
    by (rule r1)+
qed

lemma ArgsGet_into:
  assumes ok: "\<forall>a \<in> set args. arg_ok a" "length args < NACL_SRPC_MAX_ARGS" and f: "fits_in olds args"
    and b: "rbuf_ok b" "unread b = args_wire args True @ rest" "unread_descs b = args_handles args True @ hrest"
    and m: "malloc_upto malloc (NACL_ABI_IMC_USER_BYTES_MAX + 1)"
  shows "\<exists>b'. ArgsGet malloc b False True (whole (length olds)) (Some olds) types =
      Inr (True, b', whole (length olds), Some (map2 absorbed olds args)) \<and> got b' rest hrest"
proof -
  note p = into_parts [OF f]
  have u: "unread b = le_bytes 4 (of_nat (length args) :: u32) @
      (concat (map (\<lambda>a. le_bytes 1 (tag a) @ elt_wire (tag a) (arg_u a) True) args) @ rest)"
    using b(2) by (simp add: args_wire_def)
  note l = ArgsGet_loop [OF b(1) u ok(2)]
  note rw = read_args_wire [OF into_reads [OF ok(1) f m] l(2) p(2) l(3) l(4) [unfolded b(3)], of "[]" 0 "whole (length olds)" "[]",
      unfolded p(1,3) append_Nil append_Nil2]
  have "0 + length args < length (whole (length olds))" by (simp add: p(4))
  from rw [OF list.size(3) this] show ?thesis unfolding l(1) p(4) point_to_whole .
qed

lemma ArgsGet_overrun:
  assumes ok: "\<forall>a \<in> set args. arg_ok a" "length args < NACL_SRPC_MAX_ARGS"
    and f: "fits_in olds (take (length olds) args)" "length olds < length args"
    and b: "rbuf_ok b" "unread b = args_wire args True @ rest" "unread_descs b = args_handles args True @ hrest"
    and m: "malloc_upto malloc (NACL_ABI_IMC_USER_BYTES_MAX + 1)"
  shows "ArgsGet malloc b False True (whole (length olds)) (Some olds) types = Inl OutOfBounds"
proof -
  let ?n = "length olds" and ?w = "\<lambda>as. concat (map (\<lambda>a. le_bytes 1 (tag a) @ elt_wire (tag a) (arg_u a) True) as)"
  obtain a more where d: "drop ?n args = a # more" using f(2) by (cases "drop ?n args") auto
  have args: "args = take ?n args @ a # more" using d by (metis append_take_drop_id)
  have split: "?w args = ?w (take ?n args) @ ?w (a # more)" "args_handles args True = args_handles (take ?n args) True @ args_handles (a # more) True"
    by (subst args, simp add: args_handles_def)+
  have "?w (a # more) = tag a # elt_wire (tag a) (arg_u a) True @ ?w more" by (simp add: le_bytes_def)
  then have u: "unread b = le_bytes 4 (of_nat (length args) :: u32) @ (?w (take ?n args) @ tag a # (elt_wire (tag a) (arg_u a) True @ ?w more @ rest))"
    using b(2) split(1) by (simp add: args_wire_def)
  note p = into_parts [OF f(1)]
  note l = ArgsGet_loop [OF b(1) u ok(2)]
  have h: "unread_descs (advance 4 b) = args_handles (take ?n args) True @ (args_handles (a # more) True @ hrest)"
    using l(4) b(3) split(2) by simp
  have ok1: "\<forall>a \<in> set (take ?n args). arg_ok a" using ok(1) by (meson in_set_takeD)
  note r = read_args_overrun [OF into_reads [OF ok1 f(1) m] l(2) p(2) l(3) h, of "[]" 0 "whole ?n", unfolded p(1) append_Nil]
  have i: "0 + length (take ?n args) < length (whole ?n)" by (simp add: p(4) [symmetric])
  obtain k where k: "length args = ?n + Suc k" using f(2) less_imp_Suc_add by (metis add_Suc_right)
  from r [OF list.size(3) i, of k] show ?thesis unfolding l(1) p(4) [symmetric] k .
qed

text \<open>The type string of a method whose arguments have these tags.\<close>

definition types_match :: "u8 list \<Rightarrow> NaClSrpcArg list \<Rightarrow> bool" where
  "types_match types args \<longleftrightarrow> length args < length types \<and> type_end (types ! length args) \<and>
     (\<forall>i < length args. types ! i = tag (args ! i))"

lemma arg_ok_tag: "arg_ok a \<Longrightarrow> \<not> type_end (tag a)"
  by (auto simp: arg_ok_def type_end_def tag_defs split: arg_value.splits)

lemma init_tags_match:
  "\<forall>a \<in> set args. arg_ok a \<Longrightarrow> i + length args \<le> length types \<Longrightarrow>
   (\<forall>j < length args. types ! (i + j) = tag (args ! j)) \<Longrightarrow>
     init_tags types i (length args) = Inr (Some (map (\<lambda>a. \<lparr>tag = tag a, arg_u = Zeroed\<rparr>) args))"
proof (induction args arbitrary: i)
  case (Cons a args)
  have "types ! i = tag a" using Cons.prems(3) by (auto dest: spec [of _ 0])
  moreover have "\<forall>j < length args. types ! (Suc i + j) = tag (args ! j)"
    using Cons.prems(3) by (auto dest: spec [of _ "Suc j" for j])
  ultimately show ?case
    using Cons.IH [of "Suc i"] Cons.prems(1,2) arg_ok_tag [of a] by (simp add: type_char_def)
qed simp

lemma ArgsGet_wire:
  assumes ok: "\<forall>a \<in> set args. arg_ok a" "length args < NACL_SRPC_MAX_ARGS" and t: "types_match types args"
    and elt: "readable malloc rv out args"
    and b: "rbuf_ok b" "unread b = args_wire args rv @ rest" "unread_descs b = args_handles args rv @ hrest"
    and v: "length args < length argvec" and m: "malloc_upto malloc (NACL_ABI_IMC_USER_BYTES_MAX + 1)"
  shows "\<exists>b'. ArgsGet malloc b True rv argvec args0 types =
      Inr (True, b', point_to 0 (length args) argvec,
           if args = [] then args0 else Some (map (\<lambda>a. \<lparr>tag = tag a, arg_u = out a\<rparr>) args)) \<and> got b' rest hrest"
proof -
  let ?n = "of_nat (length args) :: u32"
  have n: "unat ?n = length args" "length args < 128"
    using ok(2) by (simp_all add: NACL_SRPC_MAX_ARGS_def unat_of_nat_u32)
  have u1: "unread b = le_bytes 4 ?n @ (concat (map (\<lambda>a. le_bytes 1 (tag a) @ elt_wire (tag a) (arg_u a) rv) args) @ rest)"
    using b(2) by (simp add: args_wire_def)
  have c4: "unat (4 :: u32) = length (le_bytes 4 ?n)" "length (le_bytes 4 ?n) \<in> {1, 4, 8}" by simp_all
  note r1 = Read_one [OF b(1) u1 c4, unfolded length_le_bytes]
  have d1: "unread_descs (advance 4 b) = args_handles args rv @ hrest" using r1(4) b(3) by simp
  let ?ts = "map (\<lambda>a. (blank a, a, \<lparr>tag = tag a, arg_u = out a\<rparr>)) args"
  have ts: "args = map (fst \<circ> snd) ?ts" by (induction args) simp_all
  from read_args_wire [OF elt [unfolded readable_def] r1(2) ts r1(3) d1, of "[]" 0 argvec "[]"] v
  obtain b' where g: "read_args malloc True rv 0 (length args) (advance 4 b) argvec
        (Some (map (\<lambda>a. \<lparr>tag = tag a, arg_u = Zeroed\<rparr>) args)) =
      Inr (True, b', point_to 0 (length args) argvec, Some (map (\<lambda>a. \<lparr>tag = tag a, arg_u = out a\<rparr>) args))"
    "got b' rest hrest" by (auto simp: blank_def comp_def)
  show ?thesis
  proof (cases "args = []")
    case True
    then show ?thesis using g r1(1,2,3) d1 v
      by (auto simp: ArgsGet_def Let_def of_le_bytes NACL_SRPC_MAX_ARGS_def got_def args_handles_def)
  next
    case False
    have init: "init_tags types 0 (length args) = Inr (Some (map (\<lambda>a. \<lparr>tag = tag a, arg_u = Zeroed\<rparr>) args))"
      using t ok(1) by (intro init_tags_match) (auto simp: types_match_def)
    obtain block where blk: "malloc (16 * length args) = Some block"
      using malloc_uptoD [OF m, of "16 * length args"] n(2) by (auto simp: NACL_ABI_IMC_USER_BYTES_MAX_def)
    have pos: "0 < ?n" using False n(1) by (metis length_0_conv unat_0 word_neq_0_conv)
    have c: "type_char types (length args) = Inr (types ! length args)" "type_end (types ! length args)"
      using t by (auto simp: types_match_def type_char_def)
    show ?thesis
      using False g r1(1) pos ok(2)
      by (simp add: ArgsGet_def Let_def of_le_bytes n(1) blk init c)
  qed
qed

end
