(* ===== verification/Srpc_Rpc.thy ===== *)
theory Srpc_Rpc
  imports Srpc_Wire
begin

text \<open>
  RPC headers, requests and responses (shared/srpc/rpc\_serialize.c): what is put into the send
  buffer, what is read from the receive buffer, the announced lengths, and the two functions that
  put and flush. The fields of \<open>NaClSrpcRpc\<close> that are not serialized are arguments.
\<close>

section \<open>Operations\<close>

definition NACL_SRPC_RESULT_OK :: u32 where "NACL_SRPC_RESULT_OK = 256"
definition NACL_SRPC_RESULT_BREAK :: u32 where "NACL_SRPC_RESULT_BREAK = 257"
definition NACL_SRPC_RESULT_INTERNAL :: u32 where "NACL_SRPC_RESULT_INTERNAL = 267"

record NaClSrpcRpc =
  protocol_version :: u32
  request_id :: u64
  is_request :: u8
  rpc_number :: u32
  app_error :: u32

text \<open>One field: on a short read the function returns 0 with the fields read so far.\<close>

definition read_field :: "nat \<Rightarrow> NaClSrpcImcBuffer \<Rightarrow> (u8 list option \<times> NaClSrpcImcBuffer) result" where
  "read_field n buffer = bind_result (NaClSrpcImcRead buffer (of_nat n) 1)
     (\<lambda>(r, data, buffer). Inr (if r \<noteq> 1 then None else Some data, buffer))"

definition NaClSrpcRpcGet :: "NaClSrpcImcBuffer \<Rightarrow> NaClSrpcRpc \<Rightarrow> (bool \<times> NaClSrpcImcBuffer \<times> NaClSrpcRpc) result" where
  "NaClSrpcRpcGet buffer rpc =
     bind_result (read_field 4 buffer) (\<lambda>(protocol, buffer).
       case protocol of None \<Rightarrow> Inr (False, buffer, rpc)
       | Some data \<Rightarrow> let rpc = rpc\<lparr>protocol_version := of_le data\<rparr> in
     bind_result (read_field 8 buffer) (\<lambda>(reqid, buffer).
       case reqid of None \<Rightarrow> Inr (False, buffer, rpc)
       | Some data \<Rightarrow> let rpc = rpc\<lparr>request_id := of_le data\<rparr> in
     bind_result (read_field 1 buffer) (\<lambda>(is_req, buffer).
       case is_req of None \<Rightarrow> Inr (False, buffer, rpc)
       | Some data \<Rightarrow> let rpc = rpc\<lparr>is_request := of_le data\<rparr> in
     bind_result (read_field 4 buffer) (\<lambda>(rpc_num, buffer).
       case rpc_num of None \<Rightarrow> Inr (False, buffer, rpc)
       | Some data \<Rightarrow> let rpc = rpc\<lparr>rpc_number := of_le data\<rparr> in
         if is_request rpc \<noteq> 0 then Inr (True, buffer, rpc\<lparr>app_error := NACL_SRPC_RESULT_OK\<rparr>)
         else bind_result (read_field 4 buffer) (\<lambda>(app_err, buffer).
           case app_err of None \<Rightarrow> Inr (False, buffer, rpc)
           | Some data \<Rightarrow> Inr (True, buffer, rpc\<lparr>app_error := of_le data\<rparr>))))))"

definition write_field :: "u8 list \<Rightarrow> NaClSrpcImcBuffer \<Rightarrow> (bool \<times> NaClSrpcImcBuffer) result" where
  "write_field data buffer =
     bind_result (NaClSrpcImcWrite data (of_nat (length data)) 1 buffer) (\<lambda>(r, buffer). Inr (r = 1, buffer))"

definition and_then ::
    "(bool \<times> NaClSrpcImcBuffer) result \<Rightarrow> (NaClSrpcImcBuffer \<Rightarrow> (bool \<times> NaClSrpcImcBuffer) result)
      \<Rightarrow> (bool \<times> NaClSrpcImcBuffer) result" where
  "and_then r f = bind_result r (\<lambda>(ok, b). if ok then f b else Inr (False, b))"

definition RpcWrite :: "NaClSrpcImcBuffer \<Rightarrow> NaClSrpcRpc \<Rightarrow> (bool \<times> NaClSrpcImcBuffer) result" where
  "RpcWrite buffer rpc =
     and_then (write_field (le_bytes 4 (protocol_version rpc)) buffer) (\<lambda>buffer.
     and_then (write_field (le_bytes 8 (request_id rpc)) buffer) (\<lambda>buffer.
     and_then (write_field (le_bytes 1 (is_request rpc)) buffer) (\<lambda>buffer.
     and_then (write_field (le_bytes 4 (rpc_number rpc)) buffer) (\<lambda>buffer.
       if is_request rpc = 0 then write_field (le_bytes 4 (app_error rpc)) buffer else Inr (True, buffer)))))"

text \<open>\<open>RpcLength\<close>: bytes and handles.\<close>

definition RpcLength :: "bool \<Rightarrow> u32 \<times> u32" where
  "RpcLength is_req = (4 + 8 + 1 + 4 + (if is_req then 4 else 0), 0)"

text \<open>\<open>vector\<close> is an argument vector and its block.\<close>

type_synonym vector = "arg_ptr list \<times> NaClSrpcArg list option"

definition NaClSrpcRequestGet ::
    "malloc_fn \<Rightarrow> NaClSrpcImcBuffer \<Rightarrow> u8 list \<Rightarrow> vector \<Rightarrow> u8 list \<Rightarrow> vector
      \<Rightarrow> (bool \<times> NaClSrpcImcBuffer \<times> vector \<times> vector) result" where
  "NaClSrpcRequestGet malloc buffer arg_types args ret_types rets =
     bind_result (ArgsGet malloc buffer True True (fst args) (snd args) arg_types) (\<lambda>(ok, buffer, args).
       if \<not> ok then Inr (False, buffer, args, rets)
       else bind_result (ArgsGet malloc buffer True False (fst rets) (snd rets) ret_types) (\<lambda>(ok, buffer, rets).
         if ok then Inr (True, buffer, args, rets)
         else (case snd args of
             None \<Rightarrow> bind_result (free_elements (fst args) []) (\<lambda>_. Inr (False, buffer, args, rets))
           | Some as \<Rightarrow> bind_result (ArgsFree (fst args) as) (\<lambda>as. Inr (False, buffer, (fst args, Some as), rets)))))"

definition RequestPut ::
    "NaClSrpcRpc \<Rightarrow> NaClSrpcArg list \<Rightarrow> NaClSrpcArg list \<Rightarrow> NaClSrpcImcBuffer
      \<Rightarrow> NaClSrpcRpc \<times> (bool \<times> NaClSrpcImcBuffer) result" where
  "RequestPut rpc args rets buffer =
     (let rpc = rpc\<lparr>is_request := 1, app_error := NACL_SRPC_RESULT_OK\<rparr>
      in (rpc, and_then (RpcWrite buffer rpc) (\<lambda>buffer.
               and_then (ArgsPut args True buffer) (\<lambda>buffer. ArgsPut rets False buffer))))"

text \<open>The lengths are added to what the caller's variables \<open>bytes\<close> and \<open>handles\<close> hold, which are
  not initialized.\<close>

definition RequestLength ::
    "NaClSrpcArg list \<Rightarrow> NaClSrpcArg list \<Rightarrow> u32 \<Rightarrow> u32 \<Rightarrow> (bool \<times> u32 \<times> u32) result" where
  "RequestLength args rets bytes handles =
     (let (n, h) = RpcLength True; bytes = bytes + n; handles = handles + h
      in bind_result (ArgsLength args True) (\<lambda>(ok, n, h).
           if \<not> ok then Inr (False, bytes, handles)
           else let bytes = bytes + n; handles = handles + h
           in bind_result (ArgsLength rets False) (\<lambda>(ok, n, h).
             if \<not> ok then Inr (False, bytes, handles) else Inr (True, bytes + n, handles + h))))"

type_synonym send_fn = "u8 list \<Rightarrow> NaClSrpcImcDescType list \<Rightarrow> int"
type_synonym message = "u8 list \<times> NaClSrpcImcDescType list"

text \<open>\<open>NaClSrpcRequestWrite\<close>: success, the send buffer, and the message if one was sent.\<close>

definition NaClSrpcRequestWrite ::
    "send_fn \<Rightarrow> u32 \<times> u32 \<Rightarrow> NaClSrpcRpc \<Rightarrow> NaClSrpcArg list \<Rightarrow> NaClSrpcArg list \<Rightarrow> NaClSrpcImcBuffer
      \<Rightarrow> (bool \<times> NaClSrpcRpc \<times> NaClSrpcImcBuffer \<times> message option) result" where
  "NaClSrpcRequestWrite send uninit rpc args rets send_buf =
     bind_result (RequestLength args rets (fst uninit) (snd uninit)) (\<lambda>(ok, bytes, handles).
       if \<not> ok then Inr (False, rpc, send_buf, None)
       else let (rpc, r) = RequestPut rpc args rets send_buf in
       bind_result r (\<lambda>(ok, send_buf).
         if \<not> ok then Inr (False, rpc, send_buf, None)
         else let (r, msg, send_buf) = NaClSrpcImcFlush send send_buf
              in Inr (r \<noteq> 0, rpc, send_buf, Some msg)))"

definition NaClSrpcResponseGet ::
    "malloc_fn \<Rightarrow> NaClSrpcImcBuffer \<Rightarrow> NaClSrpcRpc \<Rightarrow> u8 list \<Rightarrow> vector \<Rightarrow> (bool \<times> NaClSrpcImcBuffer \<times> vector) result" where
  "NaClSrpcResponseGet malloc buffer rpc ret_types rets =
     (if app_error rpc \<noteq> NACL_SRPC_RESULT_OK then Inr (True, buffer, rets)
      else ArgsGet malloc buffer False True (fst rets) (snd rets) ret_types)"

definition ResponsePut ::
    "NaClSrpcRpc \<Rightarrow> NaClSrpcArg list \<Rightarrow> NaClSrpcImcBuffer \<Rightarrow> NaClSrpcRpc \<times> (bool \<times> NaClSrpcImcBuffer) result" where
  "ResponsePut rpc rets buffer =
     (let rpc = rpc\<lparr>is_request := 0\<rparr>
      in (rpc, and_then (RpcWrite buffer rpc) (\<lambda>buffer. ArgsPut rets True buffer)))"

definition ResponseLength :: "NaClSrpcArg list \<Rightarrow> u32 \<Rightarrow> u32 \<Rightarrow> (bool \<times> u32 \<times> u32) result" where
  "ResponseLength rets bytes handles =
     (let (n, h) = RpcLength False; bytes = bytes + n; handles = handles + h
      in bind_result (ArgsLength rets True) (\<lambda>(ok, n, h).
           if \<not> ok then Inr (False, bytes, handles) else Inr (True, bytes + n, handles + h)))"

text \<open>\<open>NaClSrpcResponseWrite\<close>: when the flush fails, a header with the internal error is sent
  instead, whatever becomes of it. All messages handed to the send call are returned.\<close>

definition NaClSrpcResponseWrite ::
    "send_fn \<Rightarrow> u32 \<times> u32 \<Rightarrow> NaClSrpcRpc \<Rightarrow> NaClSrpcArg list \<Rightarrow> NaClSrpcImcBuffer
      \<Rightarrow> (bool \<times> NaClSrpcRpc \<times> NaClSrpcImcBuffer \<times> message list) result" where
  "NaClSrpcResponseWrite send uninit rpc rets send_buf =
     bind_result (ResponseLength rets (fst uninit) (snd uninit)) (\<lambda>(ok, bytes, handles).
       if \<not> ok then Inr (False, rpc, send_buf, [])
       else let (rpc, r) = ResponsePut rpc rets send_buf in
       bind_result r (\<lambda>(ok, send_buf).
         if \<not> ok then Inr (False, rpc, send_buf, [])
         else let (r, msg, send_buf) = NaClSrpcImcFlush send send_buf in
           if r \<noteq> 0 then Inr (True, rpc, send_buf, [msg])
           else let rpc = rpc\<lparr>app_error := NACL_SRPC_RESULT_INTERNAL, is_request := 0\<rparr> in
             bind_result (RpcWrite send_buf rpc) (\<lambda>(ok, send_buf).
               if \<not> ok then Inr (False, rpc, send_buf, [msg])
               else let (r, msg2, send_buf) = NaClSrpcImcFlush send send_buf
                    in Inr (True, rpc, send_buf, [msg, msg2]))))"

section \<open>What is written\<close>

definition rpc_wire :: "NaClSrpcRpc \<Rightarrow> u8 list" where
  "rpc_wire rpc = le_bytes 4 (protocol_version rpc) @ le_bytes 8 (request_id rpc) @ le_bytes 1 (is_request rpc) @
     le_bytes 4 (rpc_number rpc) @ (if is_request rpc = 0 then le_bytes 4 (app_error rpc) else [])"

definition request_wire :: "NaClSrpcRpc \<Rightarrow> NaClSrpcArg list \<Rightarrow> NaClSrpcArg list \<Rightarrow> u8 list" where
  "request_wire rpc args rets = rpc_wire rpc @ args_wire args True @ args_wire rets False"

lemma puts_then:
  "puts b w1 [] r \<Longrightarrow> (\<And>b'. wbuf_ok b' \<Longrightarrow> puts b' w2 h (f b')) \<Longrightarrow> puts b (w1 @ w2) h (and_then r f)"
  unfolding and_then_def using puts_bind [of b w1 "[]" r w2 h f] by simp

lemma puts_then_handles:
  "puts b w1 h1 r \<Longrightarrow> (\<And>b'. wbuf_ok b' \<Longrightarrow> puts b' w2 h2 (f b')) \<Longrightarrow> puts b (w1 @ w2) (h1 @ h2) (and_then r f)"
  unfolding and_then_def by (rule puts_bind)

lemma puts_field: "wbuf_ok b \<Longrightarrow> length data \<in> {1, 4, 8} \<Longrightarrow> puts b data [] (write_field data b)"
  unfolding write_field_def by (rule puts_Write_1) (auto simp: unat_of_nat_u32)

lemma puts_RpcWrite: "wbuf_ok b \<Longrightarrow> puts b (rpc_wire rpc) [] (RpcWrite b rpc)"
  unfolding RpcWrite_def rpc_wire_def by (intro puts_then puts_field) (simp_all add: puts_nothing puts_field)

lemma no_handles: "elt_handles v False = []"
  by (cases v) simp_all

lemma template_handles: "args_handles args False = []"
  by (simp add: args_handles_def no_handles)

definition sendable :: "NaClSrpcArg list \<Rightarrow> bool" where
  "sendable args \<longleftrightarrow> (\<forall>a \<in> set args. arg_ok a) \<and> length args < NACL_SRPC_MAX_ARGS"

lemma puts_sendable: "sendable args \<Longrightarrow> wbuf_ok b \<Longrightarrow> puts b (args_wire args wv) (args_handles args wv) (ArgsPut args wv b)"
  by (rule puts_ArgsPut) (simp_all add: sendable_def)

lemma puts_RequestPut:
  assumes "sendable args" "sendable rets" "wbuf_ok b"
  shows "puts b (request_wire (fst (RequestPut rpc args rets b)) args rets) (args_handles args True)
           (snd (RequestPut rpc args rets b))"
proof -
  let ?rpc = "rpc\<lparr>is_request := 1, app_error := NACL_SRPC_RESULT_OK\<rparr>"
  have rets: "puts b' (args_wire rets False) [] (ArgsPut rets False b')" if "wbuf_ok b'" for b'
    using puts_sendable [OF assms(2) that, of False] by (simp add: template_handles)
  have "puts b' (args_wire args True @ args_wire rets False) (args_handles args True @ [])
      (and_then (ArgsPut args True b') (\<lambda>b. ArgsPut rets False b))" if "wbuf_ok b'" for b'
    by (rule puts_then_handles [OF puts_sendable [OF assms(1) that] rets])
  then show ?thesis
    unfolding RequestPut_def Let_def fst_conv snd_conv request_wire_def
    by (intro puts_then [OF puts_RpcWrite [OF assms(3)]]) simp
qed

lemma puts_ResponsePut:
  assumes "sendable rets" "wbuf_ok b"
  shows "puts b (rpc_wire (fst (ResponsePut rpc rets b)) @ args_wire rets True) (args_handles rets True)
           (snd (ResponsePut rpc rets b))"
  unfolding ResponsePut_def Let_def fst_conv snd_conv
  by (intro puts_then puts_RpcWrite [OF assms(2)] puts_sendable [OF assms(1)])

section \<open>Announced lengths\<close>

lemma RequestLength_wire:
  assumes "sendable args" "sendable rets"
  shows "RequestLength args rets bytes handles =
    Inr (True, bytes + 4 + of_nat (length (request_wire (rpc\<lparr>is_request := 1\<rparr>) args rets)),
         handles + of_nat (length (args_handles args True)))"
  using assms
  by (simp add: RequestLength_def RpcLength_def ArgsLength_wire sendable_def Let_def request_wire_def rpc_wire_def
      template_handles algebra_simps)

lemma ResponseLength_wire:
  assumes "sendable rets"
  shows "ResponseLength rets bytes handles =
    Inr (True, bytes + of_nat (length (rpc_wire (rpc\<lparr>is_request := 0\<rparr>) @ args_wire rets True)) - 4,
         handles + of_nat (length (args_handles rets True)))"
  using assms
  by (simp add: ResponseLength_def RpcLength_def ArgsLength_wire sendable_def Let_def rpc_wire_def algebra_simps)

section \<open>From buffer to buffer\<close>

lemma Flush_spec:
  assumes "wbuf_ok b"
  shows "\<exists>r b'. NaClSrpcImcFlush send b = (r, (written b, written_descs b), b') \<and> wbuf_ok b' \<and>
           written b' = [] \<and> written_descs b' = [] \<and>
           (r \<noteq> 0 \<longleftrightarrow> word_of_int (send (written b) (written_descs b)) = (of_nat (length (written b)) :: u32))"
  using assms
  by (simp add: NaClSrpcImcFlush_def Let_def written_def written_descs_def wbuf_ok_def length_written [unfolded written_def])

text \<open>The receive call delivers a message as it was sent.\<close>

definition delivered :: "message \<Rightarrow> int \<times> u8 list \<times> NaClSrpcImcDescType list \<times> u32" where
  "delivered msg = (int (length (fst msg)), fst msg, snd msg, of_nat (length (snd msg)))"

lemma Fillbuf_delivered:
  assumes "length (buf_bytes b) = NACL_ABI_IMC_USER_BYTES_MAX" "length (descs b) = SRPC_DESC_MAX"
    and "length data \<le> NACL_ABI_IMC_USER_BYTES_MAX" "length ds \<le> SRPC_DESC_MAX"
  shows "\<exists>b'. NaClSrpcImcFillbuf (delivered (data, ds)) b = (Some b', b') \<and> got b' data ds"
proof -
  have "length data < 4294967296" "length ds < 4294967296"
    using assms(3,4) by (simp_all add: NACL_ABI_IMC_USER_BYTES_MAX_def SRPC_DESC_MAX_def)
  then have "unat (word_of_int (int (length data)) :: u32) = length data" "unat (of_nat (length ds) :: u32) = length ds"
    by (simp_all add: unat_of_nat_u32)
  then show ?thesis
    using assms
    by (simp add: NaClSrpcImcFillbuf_def delivered_def Let_def got_def rbuf_ok_def unread_def unread_descs_def)
qed

end
