(* ===== verification/Srpc_Roundtrip.thy ===== *)
theory Srpc_Roundtrip
  imports Srpc_Rpc
begin

text \<open>
  A request or a response that one side writes is what the other side reads: the header,
  the arguments and, for a request, the templates of the return values.
\<close>

section \<open>Headers\<close>

definition received_rpc :: "NaClSrpcRpc \<Rightarrow> NaClSrpcRpc" where
  "received_rpc rpc = (if is_request rpc \<noteq> 0 then rpc\<lparr>app_error := NACL_SRPC_RESULT_OK\<rparr> else rpc)"

lemma read_field_wire:
  assumes "got b (w @ rest) ds" and "length w = n" and "n \<in> {1, 4, 8}"
  shows "\<exists>b'. read_field n b = Inr (Some w, b') \<and> got b' rest ds"
proof -
  have b: "rbuf_ok b" "unread b = w @ rest" "unread_descs b = ds" using assms(1) by (simp_all add: got_def)
  have "unat (of_nat n :: u32) = length w" "length w \<in> {1, 4, 8}" using assms(2,3) by (auto simp: unat_of_nat_u32)
  note r = Read_one [OF b(1,2) this]
  show ?thesis using r b(3) by (simp add: read_field_def got_def)
qed

lemma RpcGet_wire:
  assumes "got b (rpc_wire r @ rest) ds"
  shows "\<exists>b'. NaClSrpcRpcGet b rpc = Inr (True, b', received_rpc r) \<and> got b' rest ds"
proof -
  let ?e = "if is_request r = 0 then le_bytes 4 (app_error r) else []"
  have "got b (le_bytes 4 (protocol_version r) @ le_bytes 8 (request_id r) @ le_bytes 1 (is_request r) @
      le_bytes 4 (rpc_number r) @ ?e @ rest) ds"
    using assms by (simp add: rpc_wire_def)
  from read_field_wire [OF this, of 4] obtain b1 where
    1: "read_field 4 b = Inr (Some (le_bytes 4 (protocol_version r)), b1)"
      "got b1 (le_bytes 8 (request_id r) @ le_bytes 1 (is_request r) @ le_bytes 4 (rpc_number r) @ ?e @ rest) ds"
    by auto
  from read_field_wire [OF 1(2), of 8] obtain b2 where
    2: "read_field 8 b1 = Inr (Some (le_bytes 8 (request_id r)), b2)"
      "got b2 (le_bytes 1 (is_request r) @ le_bytes 4 (rpc_number r) @ ?e @ rest) ds" by auto
  from read_field_wire [OF 2(2), of 1] obtain b3 where
    3: "read_field 1 b2 = Inr (Some (le_bytes 1 (is_request r)), b3)" "got b3 (le_bytes 4 (rpc_number r) @ ?e @ rest) ds"
    by auto
  from read_field_wire [OF 3(2), of 4] obtain b4 where
    4: "read_field 4 b3 = Inr (Some (le_bytes 4 (rpc_number r)), b4)" "got b4 (?e @ rest) ds" by auto
  note get = NaClSrpcRpcGet_def 1(1) 2(1) 3(1) [unfolded One_nat_def] 4(1) of_le_bytes
    tag_byte [unfolded One_nat_def] Let_def
  show ?thesis
  proof (cases "is_request r = 0")
    case False
    then show ?thesis using 4(2) by (simp add: get received_rpc_def)
  next
    case True
    then have "got b4 (le_bytes 4 (app_error r) @ rest) ds" using 4(2) by simp
    from read_field_wire [OF this, of 4] obtain b5 where
      "read_field 4 b4 = Inr (Some (le_bytes 4 (app_error r)), b5)" "got b5 rest ds" by auto
    then show ?thesis using True by (simp add: get received_rpc_def)
  qed
qed

section \<open>Requests\<close>

definition empty_out :: "NaClSrpcImcBuffer \<Rightarrow> bool" where
  "empty_out b \<longleftrightarrow> wbuf_ok b \<and> written b = [] \<and> written_descs b = []"

definition fits_message :: "u8 list \<Rightarrow> NaClSrpcImcDescType list \<Rightarrow> bool" where
  "fits_message w h \<longleftrightarrow> length w \<le> NACL_ABI_IMC_USER_BYTES_MAX \<and> length h \<le> SRPC_DESC_MAX"

definition complete_send :: "send_fn \<Rightarrow> u8 list \<Rightarrow> NaClSrpcImcDescType list \<Rightarrow> bool" where
  "complete_send send w h \<longleftrightarrow> word_of_int (send w h) = (of_nat (length w) :: u32)"

lemma puts_empty:
  assumes "puts b w h r" and "empty_out b"
  shows "\<exists>ok b'. r = Inr (ok, b') \<and> wbuf_ok b' \<and> (ok \<longleftrightarrow> fits_message w h) \<and>
    (ok \<longrightarrow> written b' = w \<and> written_descs b' = h)"
  using assms by (auto simp: puts_def empty_out_def fits_def fits_message_def)

definition request_rpc :: "NaClSrpcRpc \<Rightarrow> NaClSrpcRpc" where
  "request_rpc rpc = rpc\<lparr>is_request := 1, app_error := NACL_SRPC_RESULT_OK\<rparr>"

lemma fst_RequestPut: "fst (RequestPut rpc args rets b) = request_rpc rpc"
  by (simp add: RequestPut_def request_rpc_def Let_def)

lemma RequestPut_spec:
  assumes "sendable args" "sendable rets" "empty_out b"
  shows "\<exists>ok b'. RequestPut rpc args rets b = (request_rpc rpc, Inr (ok, b')) \<and> wbuf_ok b' \<and>
    (ok \<longleftrightarrow> fits_message (request_wire (request_rpc rpc) args rets) (args_handles args True)) \<and>
    (ok \<longrightarrow> written b' = request_wire (request_rpc rpc) args rets \<and> written_descs b' = args_handles args True)"
proof -
  have "puts b (request_wire (request_rpc rpc) args rets) (args_handles args True) (snd (RequestPut rpc args rets b))"
    using puts_RequestPut [OF assms(1,2), of b rpc] assms(3) by (simp add: fst_RequestPut empty_out_def)
  from puts_empty [OF this assms(3)] show ?thesis
    using fst_RequestPut [of rpc args rets b] by (metis prod.collapse)
qed

lemma RequestWrite_spec:
  assumes "sendable args" "sendable rets" "empty_out b"
    and w_def: "w = request_wire (request_rpc rpc) args rets" and h_def: "h = args_handles args True"
  shows "if fits_message w h
    then \<exists>b'. NaClSrpcRequestWrite send uninit rpc args rets b =
           Inr (complete_send send w h, request_rpc rpc, b', Some (w, h)) \<and> empty_out b'
    else \<exists>b'. NaClSrpcRequestWrite send uninit rpc args rets b = Inr (False, request_rpc rpc, b', None) \<and> wbuf_ok b'"
proof -
  obtain ok b1 where put: "RequestPut rpc args rets b = (request_rpc rpc, Inr (ok, b1))" "wbuf_ok b1"
    "ok \<longleftrightarrow> fits_message w h" "ok \<longrightarrow> written b1 = w \<and> written_descs b1 = h"
    using RequestPut_spec [OF assms(1-3), of rpc] unfolding w_def h_def by blast
  obtain n k where len: "RequestLength args rets (fst uninit) (snd uninit) = Inr (True, n, k)"
    using RequestLength_wire [OF assms(1,2)] by blast
  show ?thesis
  proof (cases ok)
    case False
    then show ?thesis
      using put by (simp add: NaClSrpcRequestWrite_def len)
  next
    case True
    obtain r b2 where "NaClSrpcImcFlush send b1 = (r, (written b1, written_descs b1), b2)" "wbuf_ok b2"
      "written b2 = []" "written_descs b2 = []"
      "r \<noteq> 0 \<longleftrightarrow> word_of_int (send (written b1) (written_descs b1)) = (of_nat (length (written b1)) :: u32)"
      using Flush_spec [OF put(2), of send] by blast
    then show ?thesis
      using put True by (simp add: NaClSrpcRequestWrite_def len empty_out_def complete_send_def)
  qed
qed

lemma RequestGet_wire:
  assumes a: "sendable args" "types_match arg_types args" "length args < length (fst av)"
    and r: "sendable rets" "types_match ret_types rets" "length rets < length (fst rv)"
    and m: "malloc_upto malloc N" "NACL_ABI_IMC_USER_BYTES_MAX < N" "\<forall>a \<in> set rets. array_bytes (arg_u a) \<le> N"
    and b: "got b (args_wire args True @ args_wire rets False @ rest) (args_handles args True @ ds)"
  shows "\<exists>b'. NaClSrpcRequestGet malloc b arg_types av ret_types rv = Inr (True, b',
      (point_to 0 (length args) (fst av),
         if args = [] then snd av else Some (map (\<lambda>a. \<lparr>tag = tag a, arg_u = received (tag a) (arg_u a)\<rparr>) args)),
      (point_to 0 (length rets) (fst rv),
         if rets = [] then snd rv else Some (map (\<lambda>a. \<lparr>tag = tag a, arg_u = template malloc (arg_u a)\<rparr>) rets))) \<and> got b' rest ds"
proof -
  have m1: "malloc_upto malloc (NACL_ABI_IMC_USER_BYTES_MAX + 1)" using m(1,2) by (simp add: malloc_upto_def)
  have ok: "\<forall>a \<in> set args. arg_ok a" "length args < NACL_SRPC_MAX_ARGS" "\<forall>a \<in> set rets. arg_ok a" "length rets < NACL_SRPC_MAX_ARGS"
    using a(1) r(1) by (simp_all add: sendable_def)
  have b1: "rbuf_ok b" "unread b = args_wire args True @ (args_wire rets False @ rest)" "unread_descs b = args_handles args True @ ds"
    using b by (simp_all add: got_def)
  from ArgsGet_wire [OF ok(1,2) a(2) readable_values [OF ok(1) m1] b1 a(3) m1, of "snd av"]
  obtain b2 where 1: "ArgsGet malloc b True True (fst av) (snd av) arg_types = Inr (True, b2, point_to 0 (length args) (fst av),
      if args = [] then snd av else Some (map (\<lambda>a. \<lparr>tag = tag a, arg_u = received (tag a) (arg_u a)\<rparr>) args))"
    "got b2 (args_wire rets False @ rest) ds" by blast
  have b3: "rbuf_ok b2" "unread b2 = args_wire rets False @ rest" "unread_descs b2 = args_handles rets False @ ds"
    using 1(2) by (simp_all add: got_def template_handles)
  from ArgsGet_wire [OF ok(3,4) r(2) readable_templates [OF ok(3) m(1,3)] b3 r(3) m1, of "snd rv"] 1(1)
  show ?thesis by (auto simp: NaClSrpcRequestGet_def)
qed

text \<open>The two sides together: the client's vectors go into a message, the server fills an empty
  buffer with it, reads the header, and reads both vectors into its own.\<close>

definition request_transfer ::
    "send_fn \<Rightarrow> u32 \<times> u32 \<Rightarrow> NaClSrpcRpc \<Rightarrow> NaClSrpcArg list \<Rightarrow> NaClSrpcArg list \<Rightarrow> NaClSrpcImcBuffer \<Rightarrow>
     malloc_fn \<Rightarrow> NaClSrpcImcBuffer \<Rightarrow> NaClSrpcRpc \<Rightarrow> u8 list \<Rightarrow> vector \<Rightarrow> u8 list \<Rightarrow> vector \<Rightarrow>
     (NaClSrpcRpc \<times> vector \<times> vector \<times> NaClSrpcImcBuffer) option result" where
  "request_transfer send uninit rpc args rets send_buf malloc recv_buf rpc0 arg_types av ret_types rv =
     bind_result (NaClSrpcRequestWrite send uninit rpc args rets send_buf) (\<lambda>(ok, _, _, msg).
       case msg of None \<Rightarrow> Inr None | Some msg \<Rightarrow>
       (case fst (NaClSrpcImcFillbuf (delivered msg) recv_buf) of None \<Rightarrow> Inr None | Some b \<Rightarrow>
         bind_result (NaClSrpcRpcGet b rpc0) (\<lambda>(ok, b, rpc).
           if \<not> ok then Inr None
           else bind_result (NaClSrpcRequestGet malloc b arg_types av ret_types rv) (\<lambda>(ok, b, as, rs).
             Inr (if ok then Some (rpc, as, rs, b) else None)))))"

definition recv_shape :: "NaClSrpcImcBuffer \<Rightarrow> bool" where
  "recv_shape b \<longleftrightarrow> length (buf_bytes b) = NACL_ABI_IMC_USER_BYTES_MAX \<and> length (descs b) = SRPC_DESC_MAX"

lemma Fillbuf_wire:
  assumes "recv_shape b" and "fits_message w h"
  shows "\<exists>b'. NaClSrpcImcFillbuf (delivered (w, h)) b = (Some b', b') \<and> got b' w h"
  using Fillbuf_delivered assms unfolding recv_shape_def fits_message_def by blast

text \<open>C10: A request that fits into one message arrives as it was sent: whatever vectors of
  well-formed arguments and return templates the client passes, the server decodes a header with the same
  number, id and version, the same argument values (a bool through its low byte) and, for the
  return values, cleared elements with the client's tags whose arrays have the client's counts;
  nothing of the message is left unread.\<close>

theorem request_roundtrip:
  assumes a: "sendable args" "types_match arg_types args" "length args < length (fst av)"
    and r: "sendable rets" "types_match ret_types rets" "length rets < length (fst rv)"
    and m: "malloc_upto malloc N" "NACL_ABI_IMC_USER_BYTES_MAX < N" "\<forall>a \<in> set rets. array_bytes (arg_u a) \<le> N"
    and b: "empty_out send_buf" "recv_shape recv_buf"
    and f: "fits_message (request_wire (request_rpc rpc) args rets) (args_handles args True)"
  shows "\<exists>b'. request_transfer send uninit rpc args rets send_buf malloc recv_buf rpc0 arg_types av ret_types rv =
    Inr (Some (request_rpc rpc,
      (point_to 0 (length args) (fst av),
         if args = [] then snd av else Some (map (\<lambda>a. \<lparr>tag = tag a, arg_u = received (tag a) (arg_u a)\<rparr>) args)),
      (point_to 0 (length rets) (fst rv),
         if rets = [] then snd rv else Some (map (\<lambda>a. \<lparr>tag = tag a, arg_u = template malloc (arg_u a)\<rparr>) rets)), b')) \<and>
    got b' [] []"
proof -
  let ?w = "request_wire (request_rpc rpc) args rets" and ?h = "args_handles args True"
  obtain ok b1 where 1: "NaClSrpcRequestWrite send uninit rpc args rets send_buf = Inr (ok, request_rpc rpc, b1, Some (?w, ?h))"
    using RequestWrite_spec [OF a(1) r(1) b(1) refl refl, of rpc send uninit] f by auto
  obtain b2 where 2: "NaClSrpcImcFillbuf (delivered (?w, ?h)) recv_buf = (Some b2, b2)" "got b2 ?w ?h"
    using Fillbuf_wire [OF b(2) f] by blast
  have "got b2 (rpc_wire (request_rpc rpc) @ (args_wire args True @ args_wire rets False)) ?h"
    using 2(2) by (simp add: request_wire_def)
  from RpcGet_wire [OF this, of rpc0] obtain b3 where
    3: "NaClSrpcRpcGet b2 rpc0 = Inr (True, b3, request_rpc rpc)" "got b3 (args_wire args True @ args_wire rets False @ []) (?h @ [])"
    by (auto simp: received_rpc_def request_rpc_def)
  from RequestGet_wire [OF a r m 3(2)] 1 2(1) 3(1)
  show ?thesis by (auto simp: request_transfer_def)
qed

section \<open>Responses\<close>

definition response_rpc :: "NaClSrpcRpc \<Rightarrow> NaClSrpcRpc" where
  "response_rpc rpc = rpc\<lparr>is_request := 0\<rparr>"

definition response_wire :: "NaClSrpcRpc \<Rightarrow> NaClSrpcArg list \<Rightarrow> u8 list" where
  "response_wire rpc rets = rpc_wire (response_rpc rpc) @ args_wire rets True"

lemma fst_ResponsePut: "fst (ResponsePut rpc rets b) = response_rpc rpc"
  by (simp add: ResponsePut_def response_rpc_def Let_def)

lemma ResponsePut_spec:
  assumes "sendable rets" "empty_out b"
  shows "\<exists>ok b'. ResponsePut rpc rets b = (response_rpc rpc, Inr (ok, b')) \<and> wbuf_ok b' \<and>
    (ok \<longleftrightarrow> fits_message (response_wire rpc rets) (args_handles rets True)) \<and>
    (ok \<longrightarrow> written b' = response_wire rpc rets \<and> written_descs b' = args_handles rets True)"
proof -
  have "puts b (response_wire rpc rets) (args_handles rets True) (snd (ResponsePut rpc rets b))"
    using puts_ResponsePut [OF assms(1), of b rpc] assms(2) by (simp add: fst_ResponsePut empty_out_def response_wire_def)
  from puts_empty [OF this assms(2)] show ?thesis
    using fst_ResponsePut [of rpc rets b] by (metis prod.collapse)
qed

text \<open>The fallback message: a header alone.\<close>

definition failure_rpc :: "NaClSrpcRpc \<Rightarrow> NaClSrpcRpc" where
  "failure_rpc rpc = rpc\<lparr>is_request := 0, app_error := NACL_SRPC_RESULT_INTERNAL\<rparr>"

lemma rpc_wire_fits: "fits_message (rpc_wire rpc) []"
  by (simp add: fits_message_def rpc_wire_def NACL_ABI_IMC_USER_BYTES_MAX_def)

lemma ResponseWrite_spec:
  assumes "sendable rets" "empty_out b" and w: "w = response_wire rpc rets" "h = args_handles rets True"
  shows "if \<not> fits_message w h
    then \<exists>b'. NaClSrpcResponseWrite send uninit rpc rets b = Inr (False, response_rpc rpc, b', []) \<and> wbuf_ok b'
    else if complete_send send w h
    then \<exists>b'. NaClSrpcResponseWrite send uninit rpc rets b = Inr (True, response_rpc rpc, b', [(w, h)]) \<and> empty_out b'
    else \<exists>b'. NaClSrpcResponseWrite send uninit rpc rets b =
      Inr (True, failure_rpc rpc, b', [(w, h), (rpc_wire (failure_rpc rpc), [])]) \<and> empty_out b'"
proof -
  obtain ok b1 where put: "ResponsePut rpc rets b = (response_rpc rpc, Inr (ok, b1))" "wbuf_ok b1"
    "ok \<longleftrightarrow> fits_message w h" "ok \<longrightarrow> written b1 = w \<and> written_descs b1 = h"
    using ResponsePut_spec [OF assms(1,2), of rpc] unfolding w by blast
  obtain n k where len: "ResponseLength rets (fst uninit) (snd uninit) = Inr (True, n, k)"
    using ResponseLength_wire [OF assms(1)] by blast
  obtain r b2 where f1: "NaClSrpcImcFlush send b1 = (r, (written b1, written_descs b1), b2)" "wbuf_ok b2"
    "written b2 = []" "written_descs b2 = []"
    "r \<noteq> 0 \<longleftrightarrow> word_of_int (send (written b1) (written_descs b1)) = (of_nat (length (written b1)) :: u32)"
    using Flush_spec [OF put(2), of send] by blast
  have e2: "empty_out b2" using f1 by (simp add: empty_out_def)
  let ?f = "(response_rpc rpc)\<lparr>app_error := NACL_SRPC_RESULT_INTERNAL, is_request := 0\<rparr>"
  have ff: "?f = failure_rpc rpc" by (simp add: response_rpc_def failure_rpc_def)
  obtain b3 where p2: "RpcWrite b2 (failure_rpc rpc) = Inr (True, b3)" "wbuf_ok b3"
    "written b3 = rpc_wire (failure_rpc rpc)" "written_descs b3 = []"
    using puts_empty [OF puts_RpcWrite [OF f1(2), of "failure_rpc rpc"] e2] rpc_wire_fits [of "failure_rpc rpc"] by auto
  obtain r3 b4 where f2: "NaClSrpcImcFlush send b3 = (r3, (written b3, written_descs b3), b4)" "wbuf_ok b4"
    "written b4 = []" "written_descs b4 = []"
    using Flush_spec [OF p2(2), of send] by blast
  show ?thesis
    using put f1(1,5) e2 p2(1,3,4) f2
    by (cases ok) (auto simp: NaClSrpcResponseWrite_def len ff complete_send_def empty_out_def Let_def)
qed

text \<open>The server's return values go into a message, the client reads the header and then the
  values into the vector that it passed to the call.\<close>

definition response_transfer ::
    "send_fn \<Rightarrow> u32 \<times> u32 \<Rightarrow> NaClSrpcRpc \<Rightarrow> NaClSrpcArg list \<Rightarrow> NaClSrpcImcBuffer \<Rightarrow>
     malloc_fn \<Rightarrow> NaClSrpcImcBuffer \<Rightarrow> NaClSrpcRpc \<Rightarrow> u8 list \<Rightarrow> vector \<Rightarrow> (NaClSrpcRpc \<times> vector \<times> NaClSrpcImcBuffer) option result" where
  "response_transfer send uninit rpc rets send_buf malloc recv_buf rpc0 ret_types rv =
     bind_result (NaClSrpcResponseWrite send uninit rpc rets send_buf) (\<lambda>(ok, _, _, msgs).
       case msgs of [] \<Rightarrow> Inr None | _ \<Rightarrow>
       (case fst (NaClSrpcImcFillbuf (delivered (last msgs)) recv_buf) of None \<Rightarrow> Inr None | Some b \<Rightarrow>
         bind_result (NaClSrpcRpcGet b rpc0) (\<lambda>(ok, b, rpc).
           if \<not> ok then Inr None
           else bind_result (NaClSrpcResponseGet malloc b rpc ret_types rv) (\<lambda>(ok, b, rs).
             Inr (if ok then Some (rpc, rs, b) else None)))))"

lemma ResponseGet_wire:
  assumes r: "sendable rets" "fits_in olds rets" and m: "malloc_upto malloc (NACL_ABI_IMC_USER_BYTES_MAX + 1)"
    and b: "got b (args_wire rets True @ rest) (args_handles rets True @ ds)"
  shows "\<exists>b'. NaClSrpcResponseGet malloc b rpc ret_types (whole (length olds), Some olds) = Inr (True, b',
      (whole (length olds), Some (if app_error rpc = NACL_SRPC_RESULT_OK then map2 absorbed olds rets else olds)))"
  using ArgsGet_into [OF _ _ r(2) _ _ _ m, of b rest ds ret_types] r(1) b
  by (auto simp: NaClSrpcResponseGet_def sendable_def got_def)

text \<open>C31: A response that fits into one message and is sent whole arrives in the vector the client
  passed: the header is the server's, and each element of a successful response holds the value
  that the server sent, an array at the start of the client's block and with the client's count. An
  error response leaves the vector as it was.\<close>

theorem response_roundtrip:
  assumes r: "sendable rets" "fits_in olds rets" and m: "malloc_upto malloc (NACL_ABI_IMC_USER_BYTES_MAX + 1)"
    and b: "empty_out send_buf" "recv_shape recv_buf"
    and f: "fits_message (response_wire rpc rets) (args_handles rets True)"
      "complete_send send (response_wire rpc rets) (args_handles rets True)"
  shows "\<exists>b'. response_transfer send uninit rpc rets send_buf malloc recv_buf rpc0 ret_types (whole (length olds), Some olds) =
    Inr (Some (response_rpc rpc, (whole (length olds),
      Some (if app_error rpc = NACL_SRPC_RESULT_OK then map2 absorbed olds rets else olds)), b'))"
proof -
  let ?w = "response_wire rpc rets" and ?h = "args_handles rets True"
  obtain b1 where 1: "NaClSrpcResponseWrite send uninit rpc rets send_buf = Inr (True, response_rpc rpc, b1, [(?w, ?h)])"
    using ResponseWrite_spec [OF r(1) b(1) refl refl, of rpc send uninit] f by auto
  obtain b2 where 2: "NaClSrpcImcFillbuf (delivered (?w, ?h)) recv_buf = (Some b2, b2)" "got b2 ?w ?h"
    using Fillbuf_wire [OF b(2) f(1)] by blast
  obtain b3 where
    3: "NaClSrpcRpcGet b2 rpc0 = Inr (True, b3, response_rpc rpc)" "got b3 (args_wire rets True @ []) (?h @ [])"
    using RpcGet_wire [OF 2(2) [unfolded response_wire_def], of rpc0] by (auto simp: received_rpc_def response_rpc_def)
  have "app_error (response_rpc rpc) = app_error rpc" by (simp add: response_rpc_def)
  with ResponseGet_wire [OF r m 3(2), of "response_rpc rpc" ret_types] 1 2(1) 3(1)
  show ?thesis by (auto simp: response_transfer_def)
qed

section \<open>Concrete transfers\<close>

definition sample_args :: "NaClSrpcArg list" where
  "sample_args = [\<lparr>tag = 0x69, arg_u = IntVal 0xdeadbeef\<rparr>, \<lparr>tag = 0x62, arg_u = IntVal 257\<rparr>,
     \<lparr>tag = 0x73, arg_u = StringVal [0x68, 0x69, 0]\<rparr>, \<lparr>tag = 0x68, arg_u = HandleVal 7\<rparr>]"

definition sample_rets :: "NaClSrpcArg list" where
  "sample_rets = [\<lparr>tag = 0x49, arg_u = ArrayVal 2 [1, 0, 0, 0, 2, 0, 0, 0]\<rparr>, \<lparr>tag = 0x64, arg_u = DoubleVal 5\<rparr>]"

definition sample_olds :: "NaClSrpcArg list" where
  "sample_olds = [\<lparr>tag = 0x49, arg_u = ArrayVal 3 (replicate 12 9)\<rparr>, \<lparr>tag = 0x64, arg_u = Zeroed\<rparr>]"

definition sample_buffer :: NaClSrpcImcBuffer where
  "sample_buffer = \<lparr>iov_length = 0, desc_length = 0, next_desc = 0, next_byte = 0, last_byte = 0,
     descs = replicate SRPC_DESC_MAX 0, buf_bytes = replicate NACL_ABI_IMC_USER_BYTES_MAX 0\<rparr>"

definition sample_rpc :: NaClSrpcRpc where
  "sample_rpc = \<lparr>protocol_version = 0xc0da0002, request_id = 3, is_request = 0, rpc_number = 5, app_error = 256\<rparr>"

definition sample_malloc :: malloc_fn where "sample_malloc n = Some (replicate n 0)"

definition sample_send :: send_fn where "sample_send w h = int (length w)"

definition fresh_vector :: vector where "fresh_vector = (replicate 129 Uninit, None)"

lemmas sample_defs = sample_args_def sample_rets_def sample_olds_def sample_rpc_def

lemma sample_sendable: "sendable sample_args" "sendable sample_rets"
  unfolding sendable_def sample_defs by (simp_all add: arg_ok_def tag_defs NACL_SRPC_MAX_ARGS_def)

lemma sample_types: "types_match [0x69, 0x62, 0x73, 0x68, 0] sample_args" "types_match [0x49, 0x64, 0] sample_rets"
  by (auto simp: types_match_def sample_defs type_end_def less_Suc_eq nth_Cons')

lemma sample_buffers: "empty_out sample_buffer" "recv_shape sample_buffer"
  by (simp_all add: empty_out_def recv_shape_def wbuf_ok_def written_def written_descs_def sample_buffer_def SRPC_DESC_MAX_def
      NACL_ABI_IMC_USER_BYTES_MAX_def)

lemma sample_mallocs: "malloc_upto sample_malloc n"
  by (simp add: malloc_upto_def sample_malloc_def)

lemma sample_fits:
  "fits_message (request_wire (request_rpc sample_rpc) sample_args sample_rets) (args_handles sample_args True)"
  "fits_message (response_wire sample_rpc sample_rets) (args_handles sample_rets True)"
  by (simp_all add: fits_message_def request_wire_def response_wire_def rpc_wire_def args_wire_def args_handles_def
      sample_defs NACL_ABI_IMC_USER_BYTES_MAX_def SRPC_DESC_MAX_def tag_defs)

lemma sample_small: "\<forall>a \<in> set sample_rets. array_bytes (arg_u a) \<le> 131073"
  by (simp add: sample_defs)

lemma request_roundtrip_witness:
  "\<exists>av rv b'. request_transfer sample_send (0, 0) sample_rpc sample_args sample_rets sample_buffer sample_malloc sample_buffer
     sample_rpc [0x69, 0x62, 0x73, 0x68, 0] fresh_vector [0x49, 0x64, 0] fresh_vector =
     Inr (Some (request_rpc sample_rpc,
       (av, Some [\<lparr>tag = 0x69, arg_u = IntVal 0xdeadbeef\<rparr>, \<lparr>tag = 0x62, arg_u = IntVal 1\<rparr>,
            \<lparr>tag = 0x73, arg_u = StringVal [0x68, 0x69, 0]\<rparr>, \<lparr>tag = 0x68, arg_u = HandleVal 7\<rparr>]),
       (rv, Some [\<lparr>tag = 0x49, arg_u = ArrayVal 2 [0, 0, 0, 0, 0, 0, 0, 0]\<rparr>, \<lparr>tag = 0x64, arg_u = Zeroed\<rparr>]), b')) \<and> got b' [] []"
proof -
  have v: "length sample_args < length (fst fresh_vector)" "length sample_rets < length (fst fresh_vector)"
    by (simp_all add: sample_defs fresh_vector_def)
  have N: "NACL_ABI_IMC_USER_BYTES_MAX < 131073" by (simp add: NACL_ABI_IMC_USER_BYTES_MAX_def)
  have "map (\<lambda>a. \<lparr>tag = tag a, arg_u = received (tag a) (arg_u a)\<rparr>) sample_args =
      [\<lparr>tag = 0x69, arg_u = IntVal 0xdeadbeef\<rparr>, \<lparr>tag = 0x62, arg_u = IntVal 1\<rparr>,
       \<lparr>tag = 0x73, arg_u = StringVal [0x68, 0x69, 0]\<rparr>, \<lparr>tag = 0x68, arg_u = HandleVal 7\<rparr>]" "sample_args \<noteq> []"
    and "map (\<lambda>a. \<lparr>tag = tag a, arg_u = template sample_malloc (arg_u a)\<rparr>) sample_rets =
      [\<lparr>tag = 0x49, arg_u = ArrayVal 2 [0, 0, 0, 0, 0, 0, 0, 0]\<rparr>, \<lparr>tag = 0x64, arg_u = Zeroed\<rparr>]" "sample_rets \<noteq> []"
    by (simp_all add: sample_defs tag_defs sample_malloc_def)
  with request_roundtrip [OF sample_sendable(1) sample_types(1) v(1) sample_sendable(2) sample_types(2) v(2)
      sample_mallocs N sample_small sample_buffers sample_fits(1), of sample_send "(0, 0)" sample_rpc]
  show ?thesis by auto
qed

lemma response_roundtrip_witness:
  "\<exists>b'. response_transfer sample_send (0, 0) sample_rpc sample_rets sample_buffer sample_malloc sample_buffer
     sample_rpc [0x49, 0x64, 0] (whole 2, Some sample_olds) =
     Inr (Some (sample_rpc, (whole 2,
       Some [\<lparr>tag = 0x49, arg_u = ArrayVal 3 [1, 0, 0, 0, 2, 0, 0, 0, 9, 9, 9, 9]\<rparr>, \<lparr>tag = 0x64, arg_u = DoubleVal 5\<rparr>]), b'))"
proof -
  have f: "fits_in sample_olds sample_rets"
    by (simp add: fits_in_def sample_defs)
  have s: "complete_send sample_send (response_wire sample_rpc sample_rets) (args_handles sample_rets True)"
    by (simp add: complete_send_def sample_send_def)
  have "map2 absorbed sample_olds sample_rets =
      [\<lparr>tag = 0x49, arg_u = ArrayVal 3 [1, 0, 0, 0, 2, 0, 0, 0, 9, 9, 9, 9]\<rparr>, \<lparr>tag = 0x64, arg_u = DoubleVal 5\<rparr>]"
    by (simp add: sample_defs absorbed_def numeral_eq_Suc)
  moreover have "length sample_olds = 2" "app_error sample_rpc = NACL_SRPC_RESULT_OK" "response_rpc sample_rpc = sample_rpc"
    by (simp_all add: sample_defs NACL_SRPC_RESULT_OK_def response_rpc_def)
  ultimately show ?thesis
    using response_roundtrip [OF sample_sendable(2) f sample_mallocs sample_buffers sample_fits(2) s,
        of "(0, 0)" sample_rpc "[0x49, 0x64, 0]"] by simp
qed

end
