(* ===== verification/Srpc_Robust.thy ===== *)
theory Srpc_Robust
  imports Srpc_Roundtrip
begin

text \<open>
  What a server does with a message from a peer it does not trust: reading a request into
  freshly allocated vectors never leaves an array, whatever the bytes are. The one fault is a
  defect of \<open>ArgsGet\<close>: its error path frees a vector whose remaining entries are not initialized.
\<close>

section \<open>Reading single elements\<close>

definition malloc_exact :: "malloc_fn \<Rightarrow> bool" where
  "malloc_exact malloc \<longleftrightarrow> (\<forall>n block. malloc n = Some block \<longrightarrow> length block = n)"

lemma malloc_exactD: "malloc_exact malloc \<Longrightarrow> malloc n = Some block \<Longrightarrow> length block = n"
  by (simp add: malloc_exact_def)

lemma Read_cases:
  assumes b: "rbuf_ok b" and es: "0 < unat es"
  obtains "NaClSrpcImcRead b es n = Inr (-1, [], b)"
  | data where "NaClSrpcImcRead b es n = Inr (sint n, data, advance (length data) b)" "rbuf_ok (advance (length data) b)"
      "length data = unat n * unat es"
proof (cases "unat n \<ge> 4294967295 div unat es \<or> length (unread b) < unat n * unat es")
  case True
  then show ?thesis using that(1) by (simp add: Read_spec [OF b es])
next
  case False
  let ?data = "take (unat n * unat es) (unread b)"
  have l: "length ?data = unat n * unat es" using False by simp
  have "rbuf_ok (advance (unat n * unat es) b)" using False by (intro advance_ok(1) [OF b]) simp
  then show ?thesis using False that(2) [of ?data] l by (simp add: Read_spec [OF b es])
qed

definition elt_safe :: "(bool \<times> NaClSrpcImcBuffer \<times> NaClSrpcArg) result \<Rightarrow> u8 \<Rightarrow> bool" where
  "elt_safe r t \<longleftrightarrow> (\<exists>ok b a. r = Inr (ok, b, a) \<and> rbuf_ok b \<and> tag a = t)"

lemma elt_safe_Inr [simp]: "elt_safe (Inr (ok, b, a)) t \<longleftrightarrow> rbuf_ok b \<and> tag a = t"
  by (simp add: elt_safe_def)

lemma basic_safe:
  assumes "rbuf_ok b" "0 < unat es"
  shows "elt_safe (elt_get (basic_io es store load) malloc b True rv a) (tag a)"
  using assms by (cases rv; cases rule: Read_cases [OF assms, of 1]) (auto simp: basic_io_def)

lemma array_safe:
  assumes b: "rbuf_ok b" and es: "0 < unat es" and m: "malloc_exact malloc"
  shows "elt_safe (elt_get (array_io es) malloc b True rv a) (tag a)"
proof (cases rule: Read_cases [OF b, of 4 1])
  case 2
  then show ?thesis using b by (simp add: array_io_def)
next
  case (3 data)
  let ?b = "advance (length data) b" and ?n = "of_le data :: u32"
  show ?thesis
  proof (cases "?n \<ge> SIZE_T_MAX div es \<or> malloc (unat (?n * es)) = None")
    case True
    then show ?thesis using 3 by (auto simp: array_io_def Let_def)
  next
    case False
    then obtain block where blk: "malloc (unat (?n * es)) = Some block" by auto
    have "\<not> 4294967295 div unat es \<le> unat ?n"
      using False by (simp add: word_le_nat_alt unat_div unat_SIZE_T_MAX)
    then have "unat (?n * es) = unat ?n * unat es" using product_fits by (simp add: unat_word_ariths)
    then have len: "length block = unat ?n * unat es" using malloc_exactD [OF m blk] by simp
    have "elt_safe (array_read es ?n rv ?b (a\<lparr>arg_u := ArrayVal ?n block\<rparr>)) (tag a)"
      using 3(2) len by (cases rule: Read_cases [OF 3(2) es, of ?n]) (auto simp: array_read_def)
    then show ?thesis using 3 False blk by (simp add: array_io_def Let_def)
  qed
qed simp

lemma handle_safe: "rbuf_ok b \<Longrightarrow> elt_safe (elt_get kHandleIoInterface malloc b True rv a) (tag a)"
  using ReadDesc_spec [of b] next_desc_ok(1) [of b]
  by (auto simp: kHandleIoInterface_def split: list.splits)

lemma string_safe:
  assumes b: "rbuf_ok b" and m: "malloc_exact malloc"
  shows "elt_safe (elt_get kStringIoInterface malloc b True rv a) (tag a)"
proof (cases rv)
  case False
  then show ?thesis using b by (simp add: kStringIoInterface_def)
next
  case rv: True
  show ?thesis
  proof (cases rule: Read_cases [OF b, of 4 1])
    case 2
    then show ?thesis using b rv by (simp add: kStringIoInterface_def)
  next
    case (3 data)
    let ?b = "advance (length data) b" and ?n = "of_le data :: u32"
    show ?thesis
    proof (cases "?n \<ge> SIZE_T_MAX \<or> malloc (unat (?n + 1)) = None")
      case True
      then show ?thesis using 3 rv by (auto simp: kStringIoInterface_def Let_def)
    next
      case False
      then obtain block where blk: "malloc (unat (?n + 1)) = Some block" by auto
      have "unat ?n < 4294967295" using False by (simp add: word_le_nat_alt unat_SIZE_T_MAX)
      then have "unat (?n + 1) = unat ?n + 1" by (subst unat_plus_u32) simp_all
      then have len: "length block = unat ?n + 1" using malloc_exactD [OF m blk] by simp
      show ?thesis
        using 3(1,2) False blk len rv
        by (cases rule: Read_cases [OF 3(2), of 1 ?n]) (auto simp: kStringIoInterface_def Let_def)
    qed
  qed simp
qed

lemma interface_cases:
  "ArgsGetEltInterface a \<in> {kBoolIoInterface, kCharArrIoInterface, kDoubleIoInterface, kDoubleArrIoInterface,
     kHandleIoInterface, kIntIoInterface, kIntArrIoInterface, kStringIoInterface, kInvalidIoInterface}"
  by (simp add: ArgsGetEltInterface_def)

lemma elt_get_safe:
  assumes b: "rbuf_ok b" and m: "malloc_exact malloc"
  shows "elt_safe (elt_get (ArgsGetEltInterface a) malloc b True rv a) (tag a)"
proof -
  have "elt_safe (elt_get kInvalidIoInterface malloc b True rv a) (tag a)"
    using b by (simp add: kInvalidIoInterface_def)
  then show ?thesis
    using interface_cases [of a] handle_safe [OF b] string_safe [OF b m] basic_safe [OF b] array_safe [OF b _ m]
    by (auto simp: kBoolIoInterface_def kCharArrIoInterface_def kDoubleIoInterface_def kDoubleArrIoInterface_def
        kIntIoInterface_def kIntArrIoInterface_def)
qed

section \<open>Vectors\<close>

lemma free_to_uninit:
  "i \<le> length as \<Longrightarrow> free_elements (map Elem [j..<i] @ Uninit # rest) as = Inl UninitPointer"
proof (induction "i - j" arbitrary: j as)
  case (Suc k)
  then have "[j..<i] = j # [Suc j..<i]" "k = i - Suc j" by (simp_all add: upt_conv_Cons)
  then show ?case using Suc by simp
qed simp

lemma free_to_null:
  "i \<le> length as \<Longrightarrow> \<exists>as'. free_elements (map Elem [j..<i] @ Null # rest) as = Inr as'"
proof (induction "i - j" arbitrary: j as)
  case (Suc k)
  then have "[j..<i] = j # [Suc j..<i]" "k = i - Suc j" by (simp_all add: upt_conv_Cons)
  then show ?case using Suc by simp
qed simp

definition partial :: "nat \<Rightarrow> nat \<Rightarrow> arg_ptr list" where
  "partial i m = map Elem [0..<i] @ replicate (Suc m) Uninit"

lemma args_error_uninit: "i \<le> length as \<Longrightarrow> args_error b (partial i m) (Some as) = Inl UninitPointer"
  by (simp add: args_error_def ArgsFree_def partial_def free_to_uninit)

lemma partial_set: "(partial i (Suc m))[i := Elem i] = partial (Suc i) m"
  by (simp add: partial_def list_update_append)

lemma partial_end: "(partial i m)[i := Null] = whole i @ replicate m Uninit"
  by (simp add: partial_def whole_def list_update_append)

lemma read_args_safe:
  assumes "rbuf_ok b" and m: "malloc_exact malloc" and "length as = i + k"
  shows "read_args malloc True rv i k b (partial i (k + m)) (Some as) = Inl UninitPointer \<or>
    (\<exists>b' as'. read_args malloc True rv i k b (partial i (k + m)) (Some as) =
       Inr (True, b', whole (i + k) @ replicate m Uninit, Some as') \<and> rbuf_ok b' \<and> map tag as' = map tag as)"
  using assms(1,3)
proof (induction k arbitrary: i b as)
  case 0
  then show ?case by (simp add: partial_end) (simp add: partial_def)
next
  case (Suc k)
  have len: "i < length as" "i < length (partial i (Suc k + m))" using Suc.prems(2) by (simp_all add: partial_def)
  have err: "args_error b' (partial (Suc i) (k + m)) (Some (as[i := a])) = Inl UninitPointer"
      "args_error b' (partial i (Suc k + m)) (Some as) = Inl UninitPointer" for b' a
    using len(1) by (auto intro: args_error_uninit)
  have set_i: "(partial i (Suc k + m))[i := Elem i] = partial (Suc i) (k + m)" by (simp add: partial_set)
  show ?case
  proof (cases rule: Read_cases [OF Suc.prems(1), of 1 1])
    case 2
    then show ?thesis using err by simp
  next
    case (3 data)
    let ?b = "advance (length data) b"
    show ?thesis
    proof (cases "tag (as ! i) = of_le data")
      case False
      then show ?thesis using 3 err len by simp
    next
      case True
      obtain ok b2 a2 where g: "elt_get (ArgsGetEltInterface (as ! i)) malloc ?b True rv (as ! i) = Inr (ok, b2, a2)"
        "rbuf_ok b2" "tag a2 = tag (as ! i)"
        using elt_get_safe [OF 3(2) m, of "as ! i" rv] by (auto simp: elt_safe_def)
      have step: "read_args malloc True rv i (Suc k) b (partial i (Suc k + m)) (Some as) =
          (if ok then read_args malloc True rv (Suc i) k b2 (partial (Suc i) (k + m)) (Some (as[i := a2]))
           else args_error b2 (partial (Suc i) (k + m)) (Some (as[i := a2])))"
        using 3(1) len True g(1) set_i by (simp add: Let_def)
      have "map tag (as[i := a2]) = map tag as"
        using g(3) len(1) by (metis list_update_id map_update)
      then show ?thesis
        using Suc.IH [OF g(2), of "as[i := a2]" "Suc i"] Suc.prems(2) err
        unfolding step by (cases ok) auto
    qed
  qed simp
qed

text \<open>The type string is a C string.\<close>

definition c_string_ok :: "u8 list \<Rightarrow> bool" where
  "c_string_ok s \<longleftrightarrow> 0 \<in> set s"

lemma init_tags_safe:
  assumes "\<exists>j \<ge> ix. j < length types \<and> types ! j = 0"
  shows "init_tags types ix k = Inr None \<or>
    (\<exists>as. init_tags types ix k = Inr (Some as) \<and> length as = k \<and> ix + k < length types \<and>
       map tag as = take k (drop ix types) \<and> (\<exists>j \<ge> ix + k. j < length types \<and> types ! j = 0))"
  using assms
proof (induction k arbitrary: ix)
  case (Suc k)
  then obtain j where j: "ix \<le> j" "j < length types" "types ! j = 0" by blast
  show ?case
  proof (cases "type_end (types ! ix)")
    case True
    then show ?thesis using j by (simp add: type_char_def)
  next
    case False
    then have "\<exists>j \<ge> Suc ix. j < length types \<and> types ! j = 0"
      using j by (intro exI [of _ j]) (auto simp: type_end_def Suc_le_eq le_less)
    from Suc.IH [OF this] show ?thesis
      using False j by (auto simp: type_char_def take_Suc_conv_app_nth Cons_nth_drop_Suc [symmetric])
  qed
qed auto

text \<open>What \<open>ArgsGet\<close> makes of an uninitialized vector.\<close>

definition loaded :: "u8 list \<Rightarrow> vector \<Rightarrow> bool" where
  "loaded types v \<longleftrightarrow> (\<exists>n < 128. fst v = whole n @ replicate (128 - n) Uninit \<and>
     (if n = 0 then snd v = None else \<exists>as. snd v = Some as \<and> length as = n \<and> n < length types \<and>
        map tag as = take n types \<and> type_end (types ! n)))"

lemma fresh_partial: "fst fresh_vector = partial 0 (k + (128 - k))" if "k \<le> 128"
  using that by (simp add: fresh_vector_def partial_def numeral_eq_Suc)

definition get_outcome :: "u8 list \<Rightarrow> (bool \<times> NaClSrpcImcBuffer \<times> vector) result \<Rightarrow> bool" where
  "get_outcome types r \<longleftrightarrow> r = Inl UninitPointer \<or>
     (\<exists>ok b v. r = Inr (ok, b, v) \<and> rbuf_ok b \<and> (if ok then loaded types v else v = fresh_vector))"

lemma get_outcome_simps [simp]:
  "get_outcome types (Inl UninitPointer)"
  "get_outcome types (Inr (False, b, v)) \<longleftrightarrow> rbuf_ok b \<and> v = fresh_vector"
  "get_outcome types (Inr (True, b, v)) \<longleftrightarrow> rbuf_ok b \<and> loaded types v"
  by (auto simp: get_outcome_def)

lemma fresh_fields: "(fst fresh_vector, snd fresh_vector) = fresh_vector" "(fst fresh_vector, None) = fresh_vector"
  by (simp_all add: fresh_vector_def)

lemma ArgsGet_init:
  assumes n: "0 < unat (of_le data :: u32)" "unat (of_le data :: u32) < 128" and blk: "malloc (16 * unat (of_le data :: u32)) = Some block"
    and rd: "NaClSrpcImcRead b 4 1 = Inr (1, data, b2)"
  shows "ArgsGet malloc b True rv argvec args0 types =
     bind_result (init_tags types 0 (unat (of_le data :: u32))) (\<lambda>init. case init of None \<Rightarrow> Inr (False, b2, argvec, args0)
       | Some args \<Rightarrow> bind_result (type_char types (unat (of_le data :: u32))) (\<lambda>c.
           if \<not> type_end c then Inr (False, b2, argvec, args0)
           else read_args malloc True rv 0 (unat (of_le data :: u32)) b2 argvec (Some args)))"
proof -
  have "0 < (of_le data :: u32)" using n(1) by (simp add: word_less_nat_alt)
  then show ?thesis using n(2) blk rd by (simp add: ArgsGet_def Let_def NACL_SRPC_MAX_ARGS_def)
qed

lemma read_args_outcome:
  assumes b: "rbuf_ok b" and m: "malloc_exact malloc" and n: "0 < n" "n < 128"
    and as: "length as = n" "n < length types" "map tag as = take n types" "type_end (types ! n)"
  shows "get_outcome types (read_args malloc True rv 0 n b (fst fresh_vector) (Some as))"
proof -
  have "length as = 0 + n" using as(1) by simp
  from read_args_safe [OF b m this, of rv "128 - n"] show ?thesis
  proof
    assume "\<exists>b' as'. read_args malloc True rv 0 n b (partial 0 (n + (128 - n))) (Some as) =
      Inr (True, b', whole (0 + n) @ replicate (128 - n) Uninit, Some as') \<and> rbuf_ok b' \<and> map tag as' = map tag as"
    then obtain b' as' where r: "read_args malloc True rv 0 n b (fst fresh_vector) (Some as) =
      Inr (True, b', whole n @ replicate (128 - n) Uninit, Some as')" "rbuf_ok b'" "map tag as' = map tag as"
      using n(2) by (auto simp: fresh_partial [of n])
    have "length as' = n" using r(3) as(1) by (metis length_map)
    then have "loaded types (whole n @ replicate (128 - n) Uninit, Some as')"
      using n as r(3) unfolding loaded_def by (intro exI [of _ n]) simp
    then show ?thesis using r(1,2) by simp
  qed (use n(2) in \<open>simp add: fresh_partial [of n]\<close>)
qed

lemma ArgsGet_safe:
  assumes b: "rbuf_ok b" and m: "malloc_exact malloc" and t: "c_string_ok types"
  shows "get_outcome types (ArgsGet malloc b True rv (fst fresh_vector) (snd fresh_vector) types)"
proof (cases rule: Read_cases [OF b, of 4 1])
  case 2
  then show ?thesis using b by (simp add: ArgsGet_def fresh_fields)
next
  case (3 data)
  let ?n = "of_le data :: u32"
  have fresh: "fst fresh_vector \<noteq> []" "0 < length (fst fresh_vector)" by (simp_all add: fresh_vector_def)
  consider "128 \<le> unat ?n" | "?n = 0" | "0 < unat ?n" "unat ?n < 128" by (metis not_le_imp_less unat_eq_zero neq0_conv)
  then show ?thesis
  proof cases
    case 1
    then show ?thesis using 3 by (simp add: ArgsGet_def Let_def NACL_SRPC_MAX_ARGS_def fresh_fields)
  next
    case 2
    have "loaded types (whole 0 @ replicate 128 Uninit, None)" by (auto simp: loaded_def)
    moreover have "(fst fresh_vector)[0 := Null] = whole 0 @ replicate 128 Uninit"
      by (simp add: fresh_vector_def whole_def numeral_eq_Suc)
    moreover have "snd fresh_vector = None" by (simp add: fresh_vector_def)
    ultimately show ?thesis
      using 2 3 fresh by (simp add: ArgsGet_def Let_def NACL_SRPC_MAX_ARGS_def)
  next
    case n: 3
    show ?thesis
    proof (cases "malloc (16 * unat ?n)")
      case None
      then show ?thesis using 3 n by (simp add: ArgsGet_def Let_def NACL_SRPC_MAX_ARGS_def fresh_fields word_less_nat_alt)
    next
      case (Some block)
      have rd: "NaClSrpcImcRead b 4 1 = Inr (1, data, advance (length data) b)" using 3(1) by simp
      note get = ArgsGet_init [of data malloc block, OF n Some rd]
      have z: "\<exists>j \<ge> 0. j < length types \<and> types ! j = 0" using t by (auto simp: c_string_ok_def in_set_conv_nth)
      from init_tags_safe [OF z, of "unat ?n"] show ?thesis
      proof
        assume "init_tags types 0 (unat ?n) = Inr None"
        then show ?thesis using 3 by (simp add: get fresh_fields)
      next
        assume "\<exists>as. init_tags types 0 (unat ?n) = Inr (Some as) \<and> length as = unat ?n \<and> 0 + unat ?n < length types \<and>
          map tag as = take (unat ?n) (drop 0 types) \<and> (\<exists>j \<ge> 0 + unat ?n. j < length types \<and> types ! j = 0)"
        then obtain as where as: "init_tags types 0 (unat ?n) = Inr (Some as)" "length as = unat ?n" "unat ?n < length types"
          "map tag as = take (unat ?n) types" by auto
        then show ?thesis
          using 3(2) read_args_outcome [OF 3(2) m n as(2,3,4), of rv] by (simp add: get type_char_def fresh_fields)
      qed
    qed
  qed
qed simp

section \<open>Requests\<close>

text \<open>C22: Whatever bytes and descriptors a request holds, the server that reads it into its
  uninitialized vectors of 129 pointers never reads or writes outside an array, a block or a type
  string, and if it succeeds both vectors are NULL-terminated, point to the elements of one block
  and carry the tags that the method declares. The only fault is a use of an uninitialized pointer.\<close>

theorem RequestGet_safe:
  assumes "rbuf_ok b" and "malloc_exact malloc" and "c_string_ok arg_types" and "c_string_ok ret_types"
  shows "NaClSrpcRequestGet malloc b arg_types fresh_vector ret_types fresh_vector = Inl UninitPointer \<or>
    (\<exists>ok b' av rv. NaClSrpcRequestGet malloc b arg_types fresh_vector ret_types fresh_vector = Inr (ok, b', av, rv) \<and>
      rbuf_ok b' \<and> (ok \<longrightarrow> loaded arg_types av \<and> loaded ret_types rv))"
proof -
  let ?args = "ArgsGet malloc b True True (fst fresh_vector) (snd fresh_vector) arg_types"
  consider "?args = Inl UninitPointer" | b1 where "?args = Inr (False, b1, fresh_vector)" "rbuf_ok b1"
    | b1 av where "?args = Inr (True, b1, av)" "rbuf_ok b1" "loaded arg_types av"
    using ArgsGet_safe [OF assms(1-3), of True] unfolding get_outcome_def by (metis (full_types))
  then show ?thesis
  proof cases
    case 1
    then show ?thesis by (simp add: NaClSrpcRequestGet_def)
  next
    case 2
    then show ?thesis by (auto simp: NaClSrpcRequestGet_def)
  next
    case av: 3
    let ?rets = "ArgsGet malloc b1 True False (fst fresh_vector) (snd fresh_vector) ret_types"
    consider "?rets = Inl UninitPointer" | b2 where "?rets = Inr (False, b2, fresh_vector)" "rbuf_ok b2"
      | b2 rv where "?rets = Inr (True, b2, rv)" "rbuf_ok b2" "loaded ret_types rv"
      using ArgsGet_safe [OF av(2) assms(2,4), of False] unfolding get_outcome_def by (metis (full_types))
    then show ?thesis
    proof cases
      case 1
      then show ?thesis using av by (simp add: NaClSrpcRequestGet_def)
    next
      case 2
      obtain n where n: "fst av = whole n @ replicate (128 - n) Uninit"
          "if n = 0 then snd av = None else \<exists>as. snd av = Some as \<and> length as = n"
        using av(3) unfolding loaded_def by (metis (full_types))
      show ?thesis
      proof (cases "snd av")
        case None
        then have "n = 0" using n(2) by (simp split: if_splits)
        then show ?thesis using None 2 av n(1) by (auto simp: NaClSrpcRequestGet_def whole_def)
      next
        case (Some as)
        then have "n \<le> length as" using n(2) by (simp split: if_splits)
        from free_to_null [OF this, of 0 "replicate (128 - n) Uninit"] obtain as' where
          "ArgsFree (fst av) as = Inr as'" by (auto simp: ArgsFree_def n(1) whole_def)
        then show ?thesis using Some 2 av by (auto simp: NaClSrpcRequestGet_def)
      qed
    next
      case 3
      then show ?thesis using av by (auto simp: NaClSrpcRequestGet_def)
    qed
  qed
qed

text \<open>C33: A request that the server rejects after it has counted the arguments, here because it announces
  one argument and ends, is not answered with an error: the error path of \<open>ArgsGet\<close> calls
  \<open>ArgsFree\<close> on the vector, none of whose entries is initialized.\<close>

theorem truncated_request_faults:
  assumes "rbuf_ok b" and "unread b = le_bytes 4 (1 :: u32)" and "malloc_upto malloc 16"
    and "length arg_types = 2" and "\<not> type_end (arg_types ! 0)" and "arg_types ! 1 = 0"
  shows "NaClSrpcRequestGet malloc b arg_types fresh_vector ret_types fresh_vector = Inl UninitPointer"
proof -
  have u: "unread b = le_bytes 4 (1 :: u32) @ []" using assms(2) by simp
  have c: "unat (4 :: u32) = length (le_bytes 4 (1 :: u32))" "length (le_bytes 4 (1 :: u32)) \<in> {1, 4, 8}" by simp_all
  note r1 = Read_one [OF assms(1) u c, unfolded length_le_bytes]
  obtain block where blk: "malloc 16 = Some block" using malloc_uptoD [OF assms(3), of 16] by auto
  have one: "(of_le (le_bytes 4 (1 :: u32)) :: u32) = 1" by (simp add: of_le_bytes)
  have tags: "init_tags arg_types 0 1 = Inr (Some [\<lparr>tag = arg_types ! 0, arg_u = Zeroed\<rparr>])"
      "type_char arg_types 1 = Inr 0" "type_end 0"
    using assms(4-6) by (simp_all add: type_char_def) (simp add: type_end_def)
  note init = ArgsGet_init [of "le_bytes 4 (1 :: u32)" malloc block b, unfolded one unsigned_1]
  have p: "(0 :: nat) < 1" "(1 :: nat) < 128" "malloc (16 * 1) = Some block" using blk by simp_all
  have get: "ArgsGet malloc b True True (fst fresh_vector) (snd fresh_vector) arg_types =
      read_args malloc True True 0 1 (advance 4 b) (fst fresh_vector) (Some [\<lparr>tag = arg_types ! 0, arg_u = Zeroed\<rparr>])"
    unfolding init [OF p r1(1)] tags(1,2) bind_result_simps option.case by (simp only: tags(3) simp_thms if_False)
  have "NaClSrpcImcRead (advance 4 b) 1 1 = Inr (-1, [], advance 4 b)"
    using r1(3) by (simp add: Read_spec [OF r1(2)])
  then have "read_args malloc True True 0 1 (advance 4 b) (fst fresh_vector) (Some [\<lparr>tag = arg_types ! 0, arg_u = Zeroed\<rparr>]) =
      Inl UninitPointer"
    by (simp add: args_error_def ArgsFree_def fresh_vector_def numeral_eq_Suc)
  with get show ?thesis by (simp add: NaClSrpcRequestGet_def)
qed

definition short_buffer :: NaClSrpcImcBuffer where
  "short_buffer = \<lparr>iov_length = 131072, desc_length = 0, next_desc = 0, next_byte = 0, last_byte = 4,
     descs = replicate SRPC_DESC_MAX 0, buf_bytes = [1, 0, 0, 0] @ replicate 131068 0\<rparr>"

lemma short_buffer_ok: "rbuf_ok short_buffer" "unread short_buffer = le_bytes 4 (1 :: u32)"
  by (simp_all add: rbuf_ok_def unread_def short_buffer_def SRPC_DESC_MAX_def NACL_ABI_IMC_USER_BYTES_MAX_def
      le_bytes_def upt_rec)

lemma malloc_exact_sample: "malloc_exact sample_malloc"
  by (simp add: malloc_exact_def sample_malloc_def)

lemma RequestGet_safe_witness:
  "NaClSrpcRequestGet sample_malloc short_buffer [0x69, 0] fresh_vector [0] fresh_vector = Inl UninitPointer \<or>
    (\<exists>ok b' av rv. NaClSrpcRequestGet sample_malloc short_buffer [0x69, 0] fresh_vector [0] fresh_vector = Inr (ok, b', av, rv) \<and>
      rbuf_ok b' \<and> (ok \<longrightarrow> loaded [0x69, 0] av \<and> loaded [0] rv))"
  by (rule RequestGet_safe [OF short_buffer_ok(1) malloc_exact_sample]) (simp_all add: c_string_ok_def)

lemma truncated_request_faults_witness:
  "NaClSrpcRequestGet sample_malloc short_buffer [0x69, 0] fresh_vector [0] fresh_vector = Inl UninitPointer"
  by (rule truncated_request_faults [OF short_buffer_ok sample_mallocs]) (simp_all add: type_end_def)

end
