(* ===== verification/Srpc_Directory.thy ===== *)
theory Srpc_Directory
  imports Srpc_Service Srpc_Robust
begin

text \<open>
  Service discovery: the string a server builds from its handlers has exactly the room it was given,
  and the client that parses it gets the same methods under the same numbers.
\<close>

section \<open>Entries\<close>

type_synonym entry = "(cstring \<times> cstring \<times> cstring) \<times> NaClSrpcMethod"

definition plain :: "cstring \<Rightarrow> bool" where
  "plain w \<longleftrightarrow> (\<forall>c \<in> set w. \<not> delimiter c)"

definition entry_ok :: "entry \<Rightarrow> bool" where
  "entry_ok e \<longleftrightarrow> (case e of ((n, i, out), h) \<Rightarrow> plain n \<and> plain i \<and> plain out)"

definition entry_text :: "entry \<Rightarrow> cstring" where
  "entry_text e = (case e of ((n, i, out), h) \<Rightarrow> n @ 0x3a # i @ 0x3a # out)"

definition method_of :: "entry \<Rightarrow> NaClSrpcMethodDesc" where
  "method_of e = (case e of ((n, i, out), h) \<Rightarrow>
     \<lparr>name = Some n, input_types = Some i, output_types = Some out, handler = Some h\<rparr>)"

definition sd_text :: "entry list \<Rightarrow> cstring" where
  "sd_text es = concat (map (\<lambda>e. entry_text e @ [0x0a]) es)"

lemma sd_entry_method: "sd_entry (method_of e) = entry_text e @ [0x0a]"
  by (cases e) (auto simp: sd_entry_def method_of_def entry_text_def split: prod.splits)

lemma sd_text_simps [simp]: "sd_text [] = []" "sd_text (e # es) = entry_text e @ 0x0a # sd_text es"
  by (simp_all add: sd_text_def)

lemma entry_text_clean:
  assumes "entry_ok e"
  shows "0 \<notin> set (entry_text e)" and "0x0a \<notin> set (entry_text e)"
  using assms by (auto simp: entry_ok_def entry_text_def plain_def delimiter_def split: prod.splits)

lemma sd_text_clean: "\<forall>e \<in> set es. entry_ok e \<Longrightarrow> 0 \<notin> set (sd_text es)"
  using entry_text_clean(1) by (induction es) auto

section \<open>Parsing an entry\<close>

lemma element_length_plain: "plain w \<Longrightarrow> delimiter d \<Longrightarrow> element_length (w @ d # rest) = Inr (length w)"
  by (induction w) (simp_all add: plain_def)

lemma GetOneElement_plain:
  assumes "plain w" "delimiter d" "malloc_upto malloc N" "length w < N"
  shows "GetOneElement malloc (w @ d # rest) = Inr (Some w)"
proof -
  obtain block where "malloc (length w + 1) = Some block" using malloc_uptoD [OF assms(3), of "length w + 1"] assms(4) by auto
  then show ?thesis by (simp add: GetOneElement_def element_length_plain [OF assms(1,2)])
qed

lemma delimiters [simp]: "delimiter 0x3a" "delimiter 0x0a" "delimiter 0"
  by (simp_all add: delimiter_def)

lemma ParseOneEntry_ok:
  assumes "entry_ok ((n, i, out), h)" "malloc_upto malloc N" "length (entry_text ((n, i, out), h)) < N" "delimiter d"
  shows "ParseOneEntry malloc (Some (entry_text ((n, i, out), h) @ d # rest)) = Inr (Some (d # rest), Some n, Some i, Some out)"
proof -
  have p: "plain n" "plain i" "plain out" and l: "length n < N" "length i < N" "length out < N"
    using assms(1,3) by (auto simp: entry_ok_def entry_text_def)
  note g = GetOneElement_plain [OF p(1) delimiters(1) assms(2) l(1), of "i @ 0x3a # out @ d # rest"]
    GetOneElement_plain [OF p(2) delimiters(1) assms(2) l(2), of "out @ d # rest"]
    GetOneElement_plain [OF p(3) assms(4,2) l(3), of rest]
  show ?thesis by (simp add: ParseOneEntry_def entry_text_def char_at_def g Let_def)
qed

section \<open>The server's table\<close>

definition handler_descs :: "entry list \<Rightarrow> (u8 list \<times> NaClSrpcMethod) list" where
  "handler_descs es = map (\<lambda>e. (entry_text e @ [0], snd e)) es"

definition roomy :: "malloc_fn \<Rightarrow> nat \<Rightarrow> entry list \<Rightarrow> bool" where
  "roomy malloc N es \<longleftrightarrow> malloc_upto malloc N \<and> length (sd_text es) + 2 \<le> N \<and> 16 * (length es + 1) \<le> N"

lemma roomyD:
  assumes "roomy malloc N es"
  shows "malloc_upto malloc N" and "e \<in> set es \<Longrightarrow> length (entry_text e) < N"
proof -
  have "e \<in> set es \<Longrightarrow> length (entry_text e) \<le> length (sd_text es)" by (induction es) auto
  then show "e \<in> set es \<Longrightarrow> length (entry_text e) < N" using assms by (simp add: roomy_def)
qed (use assms in \<open>simp add: roomy_def\<close>)

lemma parse_methods_ok:
  assumes "malloc_upto malloc N" and "\<forall>e \<in> set es. entry_ok e \<and> length (entry_text e) < N"
  shows "parse_methods malloc (handler_descs es) = Inr (map method_of es)"
  using assms(2)
proof (induction es)
  case (Cons e es)
  obtain n i out h where e: "e = ((n, i, out), h)" by (metis prod.collapse)
  show ?case
    using Cons ParseOneEntry_ok [of n i out h malloc N 0 "[]"] assms(1)
    by (simp add: handler_descs_def parse_method_def method_of_def e)
qed (simp add: handler_descs_def)

definition discovery_entry :: entry where
  "discovery_entry = ((bytes_of ''service_discovery'', [], bytes_of ''C''), ServiceDiscovery)"

lemma discovery_descs: "(kSDDescString, ServiceDiscovery) # handler_descs es = handler_descs (discovery_entry # es)"
  by (simp add: handler_descs_def discovery_entry_def kSDDescString_def entry_text_def bytes_of_def)

lemma discovery_ok: "entry_ok discovery_entry"
  by (simp add: entry_ok_def discovery_entry_def plain_def bytes_of_def delimiter_def)

lemma sd_length_ok: "sd_length (map method_of es) len = Inr (len + length (sd_text es))"
proof (induction es arbitrary: len)
  case (Cons e es)
  obtain n i out h where "e = ((n, i, out), h)" by (metis prod.collapse)
  then show ?case using Cons by (simp add: method_of_def strlen_opt_def entry_text_def)
qed simp

lemma sd_print_ok:
  "p + length (sd_text es) < len \<Longrightarrow> len \<le> length block \<Longrightarrow>
     \<exists>block'. sd_print (map method_of es) len block p = Inr (block', p + length (sd_text es)) \<and>
       length block' = length block \<and> take (p + length (sd_text es)) block' = take p block @ sd_text es"
proof (induction es arbitrary: block p)
  case (Cons e es)
  let ?t = "entry_text e @ [0x0a]"
  have fit: "p + length ?t < len" "p + length ?t + length (sd_text es) < len" using Cons.prems(1) by simp_all
  let ?b = "take p block @ ?t @ [0] @ drop (p + length (?t @ [0])) block"
  have "take (len - p - 1) ?t = ?t" using fit(1) by simp
  then have sn: "snprintf block p (len - p) ?t = Inr (?b, length ?t)"
    using fit(1) Cons.prems(2) by (simp add: snprintf_def write_at_def)
  have len_b: "length ?b = length block" using fit(1) Cons.prems(2) by simp
  have take_b: "take (p + length ?t) ?b = take p block @ ?t" using fit(1) Cons.prems(2) by (simp add: min_absorb1)
  from Cons.IH [of "p + length ?t" ?b] fit(2) Cons.prems(2) len_b obtain block' where
    b': "sd_print (map method_of es) len ?b (p + length ?t) = Inr (block', p + length ?t + length (sd_text es))"
      "length block' = length ?b" "take (p + length ?t + length (sd_text es)) block' = take (p + length ?t) ?b @ sd_text es" by auto
  have "sd_print (map method_of (e # es)) len block p = Inr (block', p + length (sd_text (e # es)))"
    using b'(1) by (simp add: sd_entry_method sn)
  moreover have "take (p + length (sd_text (e # es))) block' = take p block @ sd_text (e # es)"
    using b'(3) unfolding take_b by (simp add: add.assoc)
  ultimately show ?case
    by (intro exI [of _ block'] conjI) (simp_all only: b'(2) len_b)
qed simp

lemma BuildSDString_ok:
  assumes "malloc_upto malloc N" "length (sd_text es) + 2 \<le> N" "\<forall>e \<in> set es. entry_ok e"
  shows "\<exists>str. BuildSDString malloc (map method_of es) = Inr (Some str, length (sd_text es) + 1) \<and>
    cstring_of str = sd_text es \<and> length str = length (sd_text es) + 2"
proof -
  let ?t = "sd_text es"
  obtain block where blk: "malloc (length ?t + 2) = Some block" "length block = length ?t + 2"
    using malloc_uptoD [OF assms(1), of "length ?t + 2"] assms(2) by auto
  obtain b' where b': "sd_print (map method_of es) (length ?t + 1) block 0 = Inr (b', length ?t)"
    "length b' = length block" "take (length ?t) b' = ?t"
    using sd_print_ok [of 0 es "length ?t + 1" block] blk(2) by auto
  have "cstring_of (?t @ 0 # rest) = ?t" for rest
    using sd_text_clean [OF assms(3)] by (auto simp: cstring_of_def takeWhile_append)
  then show ?thesis
    using blk b' by (simp add: BuildSDString_def sd_length_ok write_at_def)
qed

lemma HandlerCtor_ok:
  assumes "roomy malloc N (discovery_entry # es)" "\<forall>e \<in> set es. entry_ok e" "length es < 268435454"
  shows "NaClSrpcServiceHandlerCtor malloc (handler_descs es) = Inr (Some
    \<lparr>service_string = Some (sd_text (discovery_entry # es)), service_string_length = length (sd_text (discovery_entry # es)) + 1,
     rpc_descr = map method_of (discovery_entry # es) @ [\<lparr>name = None, input_types = None, output_types = None, handler = None\<rparr>],
     rpc_count = of_nat (length es + 1)\<rparr>)"
proof -
  let ?es = "discovery_entry # es" and ?null = "\<lparr>name = None, input_types = None, output_types = None, handler = None\<rparr>"
  have ok: "\<forall>e \<in> set ?es. entry_ok e" using assms(2) discovery_ok by simp
  have m: "malloc_upto malloc N" by (rule roomyD [OF assms(1)])
  obtain block where "malloc ((length es + 1 + 1) * 16) = Some block"
    using malloc_uptoD [OF m, of "(length es + 1 + 1) * 16"] assms(1) by (auto simp: roomy_def)
  moreover have len: "length (handler_descs es) = length es" by (simp add: handler_descs_def)
  moreover have "parse_methods malloc (handler_descs ?es) = Inr (map method_of ?es)"
    using roomyD(2) [OF assms(1)] ok by (intro parse_methods_ok [OF m]) blast
  ultimately have build: "BuildMethods malloc (handler_descs es) = Inr (Some (map method_of ?es @ [?null]), of_nat (length es + 1))"
    by (simp only: BuildMethods_def len discovery_descs Let_def option.case bind_result_simps)
  have n: "unat (of_nat (length es + 1) :: u32) = length ?es" using assms(3) by (simp add: unat_of_nat_u32 del: of_nat_Suc of_nat_add)
  have tk: "take (unat (of_nat (length es + 1) :: u32)) (map method_of ?es @ [?null]) = map method_of ?es" unfolding n by simp
  have "length (sd_text ?es) + 2 \<le> N" using assms(1) by (simp add: roomy_def)
  from BuildSDString_ok [OF m this ok] obtain str where
    sd: "BuildSDString malloc (map method_of ?es) = Inr (Some str, length (sd_text ?es) + 1)" "cstring_of str = sd_text ?es" by blast
  show ?thesis
    unfolding NaClSrpcServiceHandlerCtor_def build bind_result_simps option.case prod.case tk sd(1)
    by (simp add: sd(2))
qed

section \<open>The client's table\<close>

definition client_method :: "entry \<Rightarrow> NaClSrpcMethodDesc" where
  "client_method e = (method_of e)\<lparr>handler := None\<rparr>"

lemma find_newline_text: "0 \<notin> set w \<Longrightarrow> 0x0a \<notin> set w \<Longrightarrow> find_newline (w @ 0x0a # rest) = Inr (Some (0x0a # rest))"
  by (induction w) auto

lemma entry_text_first: "\<exists>c cs. entry_text e @ r = c # cs"
  by (cases "entry_text e @ r") (auto simp: entry_text_def split: prod.splits)

lemma count_methods_ok:
  "\<forall>e \<in> set es. entry_ok e \<Longrightarrow> unat n + length es < 4294967296 \<Longrightarrow>
     count_methods (sd_text es @ 0 # rest) n = Inr (Some (n + of_nat (length es)))"
proof (induction es arbitrary: n)
  case Nil
  then show ?case by (subst count_methods.simps) simp
next
  case (Cons e es)
  have clean: "0 \<notin> set (entry_text e)" "0x0a \<notin> set (entry_text e)" using entry_text_clean Cons.prems(1) by simp_all
  obtain c cs where c: "entry_text e = c # cs" using entry_text_first [of e "[]"] by auto
  have "c \<noteq> 0" using clean(1) c by auto
  have n1: "unat (n + 1) = unat n + 1" using Cons.prems(2) by (subst unat_plus_u32) simp_all
  then have "n + 1 \<noteq> 0" by (metis add_is_0 one_neq_zero unat_0)
  moreover have "count_methods (sd_text es @ 0 # rest) (n + 1) = Inr (Some (n + 1 + of_nat (length es)))"
    using Cons.prems n1 by (intro Cons.IH) simp_all
  moreover have "find_newline (c # cs @ 0x0a # sd_text es @ 0 # rest) = Inr (Some (0x0a # sd_text es @ 0 # rest))"
    using find_newline_text [OF clean, of "sd_text es @ 0 # rest"] c by simp
  ultimately show ?case using \<open>c \<noteq> 0\<close>
    by (subst count_methods.simps) (simp add: c algebra_simps del: find_newline.simps)
qed

lemma parse_entries_ok:
  "malloc_upto malloc N \<Longrightarrow> \<forall>e \<in> set es. entry_ok e \<and> length (entry_text e) < N \<Longrightarrow>
     parse_entries malloc (length es) (sd_text es @ rest) = Inr (Some (map client_method es))"
proof (induction es)
  case (Cons e es)
  obtain n i out h where e: "e = ((n, i, out), h)" by (metis prod.collapse)
  show ?case
    using Cons ParseOneEntry_ok [of n i out h malloc N "0x0a" "sd_text es @ rest"]
    by (simp add: char_at_def client_method_def method_of_def e)
qed simp

lemma StringCtor_ok:
  assumes r: "roomy malloc N es" and ok: "\<forall>e \<in> set es. entry_ok e" and l: "length es < 268435455"
  shows "NaClSrpcServiceStringCtor malloc (sd_text es @ 0 # rest) = Inr (Some
    \<lparr>service_string = Some (sd_text es), service_string_length = length (sd_text es),
     rpc_descr = map client_method es, rpc_count = of_nat (length es)\<rparr>)"
proof -
  have m: "malloc_upto malloc N" by (rule roomyD [OF r])
  have n: "unat (of_nat (length es) :: u32) = length es" using l by (simp add: unat_of_nat_u32)
  obtain block where "malloc (length es * 16) = Some block"
    using malloc_uptoD [OF m, of "length es * 16"] r by (auto simp: roomy_def)
  moreover have "cstring_of (sd_text es @ 0 # rest) = sd_text es"
    using sd_text_clean [OF ok] by (auto simp: cstring_of_def takeWhile_append)
  moreover obtain block2 where "malloc (length (sd_text es) + 1) = Some block2"
    using malloc_uptoD [OF m, of "length (sd_text es) + 1"] r by (auto simp: roomy_def)
  moreover have "parse_entries malloc (length es) (sd_text es @ 0 # rest) = Inr (Some (map client_method es))"
    using roomyD(2) [OF r] ok by (intro parse_entries_ok [OF m]) blast
  moreover have "count_methods (sd_text es @ 0 # rest) 0 = Inr (Some (of_nat (length es)))"
    using count_methods_ok [OF ok, of 0 rest] l by simp
  ultimately show ?thesis using l by (simp add: NaClSrpcServiceStringCtor_def n)
qed

section \<open>Lookups\<close>

definition names :: "entry list \<Rightarrow> cstring list" where
  "names es = map (\<lambda>e. fst (fst e)) es"

lemma find_map: "List.find P (map f xs) = map_option f (List.find (P \<circ> f) xs)"
  by (induction xs) auto

lemma find_method_ok:
  "find_method (map client_method es) nm k =
     Inr (case List.find (\<lambda>i. names es ! i = nm) [0..<length es] of None \<Rightarrow> kNaClSrpcInvalidMethodIndex | Some i \<Rightarrow> k + of_nat i)"
proof (induction es arbitrary: k)
  case (Cons e es)
  have nm: "name (client_method e) = Some (fst (fst e))" by (cases e) (auto simp: client_method_def method_of_def split: prod.splits)
  have "[0..<length (e # es)] = 0 # map Suc [0..<length es]" unfolding length_Cons by (simp only: upt_conv_Cons [OF zero_less_Suc] map_Suc_upt)
  then have "List.find (\<lambda>i. names (e # es) ! i = nm) [0..<length (e # es)] =
      (if fst (fst e) = nm then Some 0 else map_option Suc (List.find (\<lambda>i. names es ! i = nm) [0..<length es]))"
    by (simp add: names_def find_map comp_def)
  then show ?case using Cons.IH [of "k + 1"] by (auto simp: nm split: option.splits)
qed simp

lemma client_fields: "e = ((n, i, out), h) \<Longrightarrow> name (client_method e) = Some n" "e = ((n, i, out), h) \<Longrightarrow> input_types (client_method e) = Some i"
  "e = ((n, i, out), h) \<Longrightarrow> output_types (client_method e) = Some out" "e = ((n, i, out), h) \<Longrightarrow> handler (method_of e) = Some h"
  by (simp_all add: client_method_def method_of_def)

text \<open>C25: The string of a service, terminated, gives the client a table with the server's methods
  under the server's numbers, service discovery as number 0: number \<open>i\<close> has the declared name and
  types at the client and the declared handler at the server, and looking a name up yields the number of
  the first method declared with it. The string fits the block of its computed length.\<close>

theorem service_discovery_roundtrip:
  assumes "\<forall>e \<in> set es. entry_ok e" and "length es < 268435454"
    and "roomy malloc N (discovery_entry # es)" and "roomy malloc2 N2 (discovery_entry # es)"
  shows "\<exists>s c. NaClSrpcServiceHandlerCtor malloc (handler_descs es) = Inr (Some s) \<and>
    NaClSrpcServiceStringCtor malloc2 (the (service_string s) @ [0]) = Inr (Some c) \<and>
    rpc_count c = of_nat (length es + 1) \<and> rpc_count s = of_nat (length es + 1) \<and>
    service_string_length s = length (the (service_string s) @ [0]) \<and>
    (\<forall>j n i out h. j \<le> length es \<longrightarrow> (discovery_entry # es) ! j = ((n, i, out), h) \<longrightarrow>
       NaClSrpcServiceMethodNameAndTypes (Some c) (of_nat j) = Inr (Some (Some n, Some i, Some out)) \<and>
       NaClSrpcServiceMethod (Some s) (of_nat j) = Inr (Some h)) \<and>
    (\<forall>nm. NaClSrpcServiceMethodIndex (Some c) nm =
       Inr (case List.find (\<lambda>i. names (discovery_entry # es) ! i = nm) [0..<length es + 1] of
              None \<Rightarrow> kNaClSrpcInvalidMethodIndex | Some i \<Rightarrow> of_nat i))"
proof -
  let ?es = "discovery_entry # es"
  define s where "s = \<lparr>service_string = Some (sd_text ?es), service_string_length = length (sd_text ?es) + 1,
     rpc_descr = map method_of ?es @ [\<lparr>name = None, input_types = None, output_types = None, handler = None\<rparr>],
     rpc_count = of_nat (length es + 1) :: u32\<rparr>"
  define c where "c = \<lparr>service_string = Some (sd_text ?es), service_string_length = length (sd_text ?es),
     rpc_descr = map client_method ?es, rpc_count = of_nat (length ?es) :: u32\<rparr>"
  have ok: "\<forall>e \<in> set ?es. entry_ok e" using assms(1) discovery_ok by simp
  have 1: "NaClSrpcServiceHandlerCtor malloc (handler_descs es) = Inr (Some s)"
    unfolding s_def by (rule HandlerCtor_ok [OF assms(3,1,2)])
  have 2: "NaClSrpcServiceStringCtor malloc2 (the (service_string s) @ [0]) = Inr (Some c)"
    using StringCtor_ok [OF assms(4) ok, of "[]"] assms(2) unfolding c_def s_def by simp
  have n: "unat (of_nat (length es + 1) :: u32) = length es + 1" using assms(2) by (simp add: unat_of_nat_u32 del: of_nat_Suc of_nat_add)
  have 3: "NaClSrpcServiceMethodNameAndTypes (Some c) (of_nat j) = Inr (Some (Some n', Some i, Some out)) \<and>
       NaClSrpcServiceMethod (Some s) (of_nat j) = Inr (Some h)"
    if j: "j \<le> length es" and e: "?es ! j = ((n', i, out), h)" for j n' i out h
  proof -
    have u: "unat (of_nat j :: u32) = j" using j assms(2) by (simp add: unat_of_nat_u32)
    have b: "of_nat j \<noteq> NACL_SRPC_GET_TIMES_METHOD" "of_nat j \<noteq> NACL_SRPC_TOGGLE_CHANNEL_TIMING_METHOD"
      using u j assms(2) by (auto simp: NACL_SRPC_GET_TIMES_METHOD_def NACL_SRPC_TOGGLE_CHANNEL_TIMING_METHOD_def dest: arg_cong [where f = unat])
    have lt: "\<not> (of_nat (length es + 1) :: u32) \<le> of_nat j" using n u j by (simp add: word_le_nat_alt del: of_nat_Suc of_nat_add)
    have "map client_method ?es ! j = client_method (?es ! j)" "(map method_of ?es @ z) ! j = method_of (?es ! j)" for z
      using j by (simp_all only: nth_map length_Cons nth_append length_map) simp_all
    then show ?thesis
      using b lt u j client_fields [OF e]
      by (simp add: NaClSrpcServiceMethodNameAndTypes_def NaClSrpcServiceMethod_def c_def s_def Let_def del: of_nat_Suc nth_Cons)
  qed
  have 4: "NaClSrpcServiceMethodIndex (Some c) nm =
       Inr (case List.find (\<lambda>i. names ?es ! i = nm) [0..<length es + 1] of
              None \<Rightarrow> kNaClSrpcInvalidMethodIndex | Some i \<Rightarrow> of_nat i)" for nm
  proof -
    have "take (unat (rpc_count c)) (rpc_descr c) = map client_method ?es" using n by (simp add: c_def)
    then show ?thesis using find_method_ok [of ?es nm 0] by (simp only: NaClSrpcServiceMethodIndex_def option.case add_0_left length_Cons Suc_eq_plus1)
  qed
  show ?thesis
    using 1 2 3 4 by (intro exI [of _ s] exI [of _ c]) (simp add: s_def c_def)
qed

end
