(* ===== verification/Srpc_Dispatch.thy ===== *)
theory Srpc_Dispatch
  imports Srpc_Directory
begin

text \<open>
  The two ends of a connection: receiving and dispatching requests, waiting for a response
  (shared/srpc/rpc\_serialize.c), invoking a method (invoke.c) and the built-in methods (rpc\_service.c). The
  IMC descriptor of a channel is the list of results its receive calls will deliver (when it is used up they
  fail) and the messages sent so far. Timing is off, so the counters stay as they are. A method of the
  program is a function from its vectors to an error code and the vectors it leaves; it does not use the channel.
\<close>

section \<open>Channels\<close>

type_synonym recv_result = "int \<times> u8 list \<times> NaClSrpcImcDescType list \<times> u32"

record connection =
  inbox :: "recv_result list"
  outbox :: "message list"

record NaClSrpcChannel =
  client :: "NaClSrpcService option"
  server :: "NaClSrpcService option"
  imc_handle :: connection
  send_buf :: NaClSrpcImcBuffer
  receive_buf :: NaClSrpcImcBuffer
  next_outgoing_request_id :: u64
  timing_enabled :: u32
  usec :: "u64 \<times> u64 \<times> u64 \<times> u64"

text \<open>What the program and the platform supply.\<close>

record environment =
  malloc_of :: malloc_fn
  send_of :: send_fn
  method_body :: "nat \<Rightarrow> NaClSrpcArg list \<Rightarrow> NaClSrpcArg list \<Rightarrow> u32 \<times> NaClSrpcArg list \<times> NaClSrpcArg list"
  uninit_words :: "u32 \<times> u32"
  uninit_rpc :: NaClSrpcRpc

definition NACL_SRPC_RESULT_BAD_RPC_NUMBER :: u32 where "NACL_SRPC_RESULT_BAD_RPC_NUMBER = 261"
definition NACL_SRPC_RESULT_IN_ARG_TYPE_MISMATCH :: u32 where "NACL_SRPC_RESULT_IN_ARG_TYPE_MISMATCH = 265"
definition NACL_SRPC_RESULT_OUT_ARG_TYPE_MISMATCH :: u32 where "NACL_SRPC_RESULT_OUT_ARG_TYPE_MISMATCH = 266"
definition NACL_SRPC_RESULT_APP_ERROR :: u32 where "NACL_SRPC_RESULT_APP_ERROR = 268"
definition kNaClSrpcProtocolVersion :: u32 where "kNaClSrpcProtocolVersion = 0xc0da0002"

definition Fillbuf :: "NaClSrpcChannel \<Rightarrow> NaClSrpcImcBuffer option \<times> NaClSrpcChannel" where
  "Fillbuf channel =
     (let c = imc_handle channel;
          (msg, rest) = (case inbox c of [] \<Rightarrow> ((-1, [], [], 0), []) | m # ms \<Rightarrow> (m, ms));
          (buffer, receive) = NaClSrpcImcFillbuf msg (receive_buf channel)
      in (buffer, channel\<lparr>imc_handle := c\<lparr>inbox := rest\<rparr>, receive_buf := receive\<rparr>))"

definition sent :: "NaClSrpcChannel \<Rightarrow> NaClSrpcImcBuffer \<Rightarrow> message list \<Rightarrow> NaClSrpcChannel" where
  "sent channel buffer msgs = channel\<lparr>send_buf := buffer,
     imc_handle := (imc_handle channel)\<lparr>outbox := outbox (imc_handle channel) @ msgs\<rparr>\<rparr>"

section \<open>Built-in methods\<close>

text \<open>The elements of a vector up to NULL.\<close>

fun vector_elements :: "arg_ptr list \<Rightarrow> NaClSrpcArg list \<Rightarrow> NaClSrpcArg list result" where
  "vector_elements [] block = Inl OutOfBounds"
| "vector_elements (Null # ps) block = Inr []"
| "vector_elements (Uninit # ps) block = Inl UninitPointer"
| "vector_elements (Elem i # ps) block =
     (if i < length block then bind_result (vector_elements ps block) (\<lambda>as. Inr (block ! i # as)) else Inl OutOfBounds)"

definition vector_args :: "vector \<Rightarrow> NaClSrpcArg list result" where
  "vector_args v = vector_elements (fst v) (case snd v of None \<Rightarrow> [] | Some block \<Rightarrow> block)"

text \<open>\<open>strncpy\<close> of a string into the array of an argument.\<close>

definition strncpy :: "u8 list \<Rightarrow> cstring \<Rightarrow> nat \<Rightarrow> u8 list result" where
  "strncpy dest src n =
     (if n \<le> length dest then Inr (take n src @ replicate (n - length src) 0 @ drop n dest) else Inl OutOfBounds)"

type_synonym method_result = "(u32 \<times> NaClSrpcChannel \<times> NaClSrpcArg list \<times> NaClSrpcArg list) result"

definition ServiceDiscovery_method :: "NaClSrpcChannel \<Rightarrow> NaClSrpcArg list \<Rightarrow> NaClSrpcArg list \<Rightarrow> method_result" where
  "ServiceDiscovery_method channel in_args out_args =
     (case server channel of None \<Rightarrow> Inr (NACL_SRPC_RESULT_APP_ERROR, channel, in_args, out_args)
      | Some s \<Rightarrow> (case out_args of [] \<Rightarrow> Inl NullDeref
        | out # outs \<Rightarrow>
          if array_count (arg_u out) \<ge> of_nat (service_string_length s) then
            (case service_string s of None \<Rightarrow> Inl NullDeref
             | Some str \<Rightarrow>
               bind_result (strncpy (array_mem (arg_u out)) str (service_string_length s)) (\<lambda>carr.
                 Inr (NACL_SRPC_RESULT_OK, channel, in_args,
                   out\<lparr>arg_u := ArrayVal (of_nat (service_string_length s)) carr\<rparr> # outs)))
          else Inr (NACL_SRPC_RESULT_APP_ERROR, channel, in_args, out_args)))"

definition GetTimes_method :: "NaClSrpcChannel \<Rightarrow> NaClSrpcArg list \<Rightarrow> NaClSrpcArg list \<Rightarrow> method_result" where
  "GetTimes_method channel in_args out_args =
     (case out_args of a # b # c # d # outs \<Rightarrow> (case usec channel of (s, r, ir, iw) \<Rightarrow>
          Inr (NACL_SRPC_RESULT_OK, channel, in_args,
            a\<lparr>arg_u := DoubleVal s\<rparr> # b\<lparr>arg_u := DoubleVal r\<rparr> # c\<lparr>arg_u := DoubleVal ir\<rparr> # d\<lparr>arg_u := DoubleVal iw\<rparr> # outs))
      | _ \<Rightarrow> Inl NullDeref)"

definition SetTimingEnabled_method :: "NaClSrpcChannel \<Rightarrow> NaClSrpcArg list \<Rightarrow> NaClSrpcArg list \<Rightarrow> method_result" where
  "SetTimingEnabled_method channel in_args out_args =
     (case in_args of [] \<Rightarrow> Inl NullDeref
      | a # as \<Rightarrow> Inr (NACL_SRPC_RESULT_OK, channel\<lparr>timing_enabled := int_val (arg_u a)\<rparr>, in_args, out_args))"

definition call_method ::
    "environment \<Rightarrow> NaClSrpcMethod \<Rightarrow> NaClSrpcChannel \<Rightarrow> NaClSrpcArg list \<Rightarrow> NaClSrpcArg list \<Rightarrow> method_result" where
  "call_method env m channel in_args out_args =
     (case m of ServiceDiscovery \<Rightarrow> ServiceDiscovery_method channel in_args out_args
      | GetTimes \<Rightarrow> GetTimes_method channel in_args out_args
      | SetTimingEnabled \<Rightarrow> SetTimingEnabled_method channel in_args out_args
      | Handler k \<Rightarrow> (case method_body env k in_args out_args of (e, ins, outs) \<Rightarrow> Inr (e, channel, ins, outs)))"

section \<open>Dispatch\<close>

datatype DispatchReturn = DISPATCH_CONTINUE | DISPATCH_BREAK | DISPATCH_RESPONSE | DISPATCH_EOF

text \<open>The part of \<open>NaClSrpcReceiveAndDispatch\<close> that handles a request whose header has been read:
  the vectors, the call, the response, and freeing the vectors.\<close>

definition run_method ::
    "environment \<Rightarrow> NaClSrpcChannel \<Rightarrow> NaClSrpcRpc \<Rightarrow> vector \<Rightarrow> vector \<Rightarrow> (DispatchReturn \<times> NaClSrpcChannel) result" where
  "run_method env channel rpc args rets =
     bind_result (NaClSrpcServiceMethod (server channel) (rpc_number rpc)) (\<lambda>m.
       case m of None \<Rightarrow> Inr (DISPATCH_CONTINUE, channel)
       | Some m \<Rightarrow>
         bind_result (vector_args args) (\<lambda>ins.
         bind_result (vector_args rets) (\<lambda>outs.
         bind_result (call_method env m channel ins outs) (\<lambda>(err, channel, ins, outs).
           let return_break = (err = NACL_SRPC_RESULT_BREAK);
               rpc = rpc\<lparr>app_error := if return_break then NACL_SRPC_RESULT_OK else err\<rparr>
           in bind_result (NaClSrpcResponseWrite (send_of env) (uninit_words env) rpc outs (send_buf channel))
             (\<lambda>(ok, rpc, buffer, msgs).
               let channel = sent channel buffer msgs in
               bind_result (ArgsFree (fst args) ins) (\<lambda>_.
               bind_result (ArgsFree (fst rets) outs) (\<lambda>_.
                 if \<not> ok then Inr (DISPATCH_CONTINUE, channel)
                 else Inr (if return_break then DISPATCH_BREAK else DISPATCH_CONTINUE, channel))))))))"

definition NaClSrpcReceiveAndDispatch ::
    "environment \<Rightarrow> NaClSrpcChannel \<Rightarrow> NaClSrpcRpc option \<Rightarrow> (DispatchReturn \<times> NaClSrpcChannel) result" where
  "NaClSrpcReceiveAndDispatch env channel rpc_stack_top =
     (let (buffer, channel) = Fillbuf channel
      in case buffer of None \<Rightarrow> Inr (DISPATCH_EOF, channel)
      | Some buffer \<Rightarrow>
        bind_result (NaClSrpcRpcGet buffer (uninit_rpc env)) (\<lambda>(ok, buffer, rpc).
          let channel = channel\<lparr>receive_buf := buffer\<rparr> in
          if \<not> ok then Inr (DISPATCH_CONTINUE, channel)
          else if is_request rpc = 0 then
            (case rpc_stack_top of
               Some waiting \<Rightarrow> Inr (if request_id rpc = request_id waiting then DISPATCH_RESPONSE else DISPATCH_BREAK, channel)
             | None \<Rightarrow> Inr (DISPATCH_CONTINUE, channel))
          else bind_result (NaClSrpcServiceMethodNameAndTypes (server channel) (rpc_number rpc)) (\<lambda>types.
            case types of None \<Rightarrow> Inr (DISPATCH_CONTINUE, channel)
            | Some (rpc_name, arg_types, ret_types) \<Rightarrow>
              (case (arg_types, ret_types) of
                 (Some arg_types, Some ret_types) \<Rightarrow>
                   bind_result (NaClSrpcRequestGet (malloc_of env) buffer (arg_types @ [0]) fresh_vector (ret_types @ [0]) fresh_vector)
                     (\<lambda>(ok, buffer, args, rets).
                       let channel = channel\<lparr>receive_buf := buffer\<rparr> in
                       if \<not> ok then Inr (DISPATCH_EOF, channel) else run_method env channel rpc args rets)
               | _ \<Rightarrow> Inl NullDeref))))"

text \<open>The loop of \<open>NaClSrpcRpcWait\<close>. Each turn takes one result of the receive call, so \<open>n\<close> is at least
  the number of results left when it is called.\<close>

fun dispatch_loop ::
    "environment \<Rightarrow> nat \<Rightarrow> NaClSrpcChannel \<Rightarrow> NaClSrpcRpc option \<Rightarrow> (DispatchReturn \<times> NaClSrpcChannel) option result" where
  "dispatch_loop env 0 channel rpc = Inr None"
| "dispatch_loop env (Suc n) channel rpc =
     bind_result (NaClSrpcReceiveAndDispatch env channel rpc) (\<lambda>(r, channel).
       if r = DISPATCH_CONTINUE then dispatch_loop env n channel rpc else Inr (Some (r, channel)))"

definition NaClSrpcRpcWait ::
    "environment \<Rightarrow> nat \<Rightarrow> NaClSrpcChannel \<Rightarrow> (NaClSrpcRpc \<times> u8 list \<times> vector) option
      \<Rightarrow> (NaClSrpcChannel \<times> (NaClSrpcRpc \<times> vector) option) option result" where
  "NaClSrpcRpcWait env n channel rpc =
     bind_result (dispatch_loop env n channel (map_option fst rpc)) (\<lambda>r. case r of None \<Rightarrow> Inr None
       | Some (retval, channel) \<Rightarrow>
         (case rpc of
            Some (rpc, ret_types, rets) \<Rightarrow>
              if retval = DISPATCH_RESPONSE then
                (let buffer = NaClSrpcImcRefill (receive_buf channel) in
                 bind_result (NaClSrpcRpcGet buffer rpc) (\<lambda>(ok, buffer, rpc).
                   if \<not> ok \<or> is_request rpc \<noteq> 0
                   then Inr (Some (channel\<lparr>receive_buf := buffer\<rparr>, Some (rpc\<lparr>app_error := NACL_SRPC_RESULT_INTERNAL\<rparr>, rets)))
                   else bind_result (NaClSrpcResponseGet (malloc_of env) buffer rpc ret_types rets) (\<lambda>(ok, buffer, rets).
                     Inr (Some (channel\<lparr>receive_buf := buffer\<rparr>,
                       Some (if ok then rpc else rpc\<lparr>app_error := NACL_SRPC_RESULT_INTERNAL\<rparr>, rets))))))
              else Inr (Some (channel, Some (rpc, rets)))
          | None \<Rightarrow> Inr (Some (channel, None))))"

section \<open>Invocation\<close>

definition argument_tags :: "u8 list" where
  "argument_tags = [NACL_SRPC_ARG_TYPE_BOOL, NACL_SRPC_ARG_TYPE_INT, NACL_SRPC_ARG_TYPE_DOUBLE, NACL_SRPC_ARG_TYPE_STRING,
     NACL_SRPC_ARG_TYPE_CHAR_ARRAY, NACL_SRPC_ARG_TYPE_INT_ARRAY, NACL_SRPC_ARG_TYPE_DOUBLE_ARRAY, NACL_SRPC_ARG_TYPE_HANDLE]"

fun TypeCheckArgs :: "cstring \<Rightarrow> NaClSrpcArg list \<Rightarrow> bool" where
  "TypeCheckArgs [] alist \<longleftrightarrow> alist = []"
| "TypeCheckArgs (c # p) alist \<longleftrightarrow>
     (if c = 0x3a then alist = []
      else case alist of [] \<Rightarrow> False
        | a # alist \<Rightarrow> if c \<in> set argument_tags then (if tag a \<noteq> c then False else TypeCheckArgs p alist) else False)"

definition NaClSrpcInvokeV ::
    "environment \<Rightarrow> nat \<Rightarrow> NaClSrpcChannel \<Rightarrow> u32 \<Rightarrow> vector \<Rightarrow> vector \<Rightarrow> (u32 \<times> NaClSrpcChannel \<times> vector) option result" where
  "NaClSrpcInvokeV env n channel rpc_num args rets =
     bind_result (NaClSrpcServiceMethodNameAndTypes (client channel) rpc_num) (\<lambda>types.
       case types of None \<Rightarrow> Inr (Some (NACL_SRPC_RESULT_BAD_RPC_NUMBER, channel, rets))
       | Some (rpc_name, Some arg_types, Some ret_types) \<Rightarrow>
         bind_result (vector_args args) (\<lambda>as.
           if \<not> TypeCheckArgs arg_types as then Inr (Some (NACL_SRPC_RESULT_IN_ARG_TYPE_MISMATCH, channel, rets))
           else bind_result (vector_args rets) (\<lambda>rs.
             if \<not> TypeCheckArgs ret_types rs then Inr (Some (NACL_SRPC_RESULT_OUT_ARG_TYPE_MISMATCH, channel, rets))
             else let rpc = (uninit_rpc env)\<lparr>protocol_version := kNaClSrpcProtocolVersion, rpc_number := rpc_num,
                      request_id := next_outgoing_request_id channel, app_error := NACL_SRPC_RESULT_OK\<rparr> in
               bind_result (NaClSrpcRequestWrite (send_of env) (uninit_words env) rpc as rs (send_buf channel))
                 (\<lambda>(ok, rpc, buffer, msg).
                   let channel = sent channel buffer (case msg of None \<Rightarrow> [] | Some m \<Rightarrow> [m]) in
                   if \<not> ok then Inr (Some (NACL_SRPC_RESULT_INTERNAL, channel, rets))
                   else bind_result (NaClSrpcRpcWait env n channel (Some (rpc, ret_types @ [0], rets))) (\<lambda>r.
                     case r of Some (channel, Some (rpc, rets)) \<Rightarrow> Inr (Some (app_error rpc, channel, rets))
                       | _ \<Rightarrow> Inr None))))
       | Some _ \<Rightarrow> Inl NullDeref)"

end
