(* ===== verification/Srpc_Call.thy ===== *)
theory Srpc_Call
  imports Srpc_Dispatch
begin

text \<open>
  Remote calls: every wait ends, a call to a registered method has the effect of calling the method
  on the transferred arguments, and what happens on the connection's error paths.
\<close>

section \<open>Waiting ends\<close>

lemma Fillbuf_inbox: "Fillbuf channel = (b, channel') \<Longrightarrow> inbox (imc_handle channel') = tl (inbox (imc_handle channel)) \<and>
    (inbox (imc_handle channel) = [] \<longrightarrow> b = None)"
  by (cases "inbox (imc_handle channel)") (auto simp: Fillbuf_def NaClSrpcImcFillbuf_def Let_def split: prod.splits)

lemma sent_inbox [simp]: "inbox (imc_handle (sent channel b msgs)) = inbox (imc_handle channel)"
  by (simp add: sent_def)

lemma call_method_inbox:
  "call_method env m channel ins outs = Inr (e, channel', ins', outs') \<Longrightarrow> imc_handle channel' = imc_handle channel"
  by (auto simp: call_method_def ServiceDiscovery_method_def GetTimes_method_def SetTimingEnabled_method_def bind_result_def
      split: NaClSrpcMethod.splits option.splits list.splits if_splits sum.splits prod.splits)

text \<open>A computation on a channel that leaves the messages to be received alone.\<close>

definition keeps :: "recv_result list \<Rightarrow> (DispatchReturn \<times> NaClSrpcChannel) result \<Rightarrow> bool" where
  "keeps ms r \<longleftrightarrow> (\<forall>x channel. r = Inr (x, channel) \<longrightarrow> inbox (imc_handle channel) = ms)"

lemma keeps_Inr [simp]: "keeps ms (Inr (x, channel)) \<longleftrightarrow> inbox (imc_handle channel) = ms"
  by (simp add: keeps_def)

lemma keeps_Inl [simp]: "keeps ms (Inl e)"
  by (simp add: keeps_def)

lemma keeps_bind: "(\<And>x. r = Inr x \<Longrightarrow> keeps ms (f x)) \<Longrightarrow> keeps ms (bind_result r f)"
  by (cases r) simp_all

lemma run_method_keeps:
  "keeps (inbox (imc_handle channel)) (run_method env channel rpc args rets)"
  unfolding run_method_def Let_def
  by (auto intro!: keeps_bind split: option.splits) (drule call_method_inbox, simp)+

lemma dispatch_inbox:
  assumes "NaClSrpcReceiveAndDispatch env channel rpc = Inr (r, channel')"
  shows "inbox (imc_handle channel') = tl (inbox (imc_handle channel))" and "inbox (imc_handle channel) = [] \<Longrightarrow> r = DISPATCH_EOF"
proof -
  obtain b ch where f: "Fillbuf channel = (b, ch)" by fastforce
  note i = Fillbuf_inbox [OF f]
  show "inbox (imc_handle channel) = [] \<Longrightarrow> r = DISPATCH_EOF"
    using assms f i by (simp add: NaClSrpcReceiveAndDispatch_def)
  have run: "keeps (inbox (imc_handle ch)) (run_method env (ch\<lparr>receive_buf := b1\<rparr>) h as rs)" for b1 h as rs
    using run_method_keeps [of "ch\<lparr>receive_buf := b1\<rparr>"] by simp
  have "keeps (inbox (imc_handle ch)) (NaClSrpcReceiveAndDispatch env channel rpc)"
    unfolding NaClSrpcReceiveAndDispatch_def Let_def f prod.case
    using run by (auto intro!: keeps_bind split: option.splits)
  then show "inbox (imc_handle channel') = tl (inbox (imc_handle channel))"
    using assms i by (simp add: keeps_def)
qed

lemma dispatch_loop_ends:
  "length (inbox (imc_handle channel)) < n \<Longrightarrow> dispatch_loop env n channel rpc \<noteq> Inr None"
proof (induction n arbitrary: channel)
  case (Suc n)
  show ?case
  proof (cases "NaClSrpcReceiveAndDispatch env channel rpc")
    case (Inr p)
    obtain r ch where p: "p = (r, ch)" by fastforce
    note i = dispatch_inbox [OF Inr [unfolded p]]
    show ?thesis
    proof (cases "r = DISPATCH_CONTINUE")
      case True
      then have "inbox (imc_handle channel) \<noteq> []" using i(2) by auto
      then have "length (inbox (imc_handle ch)) < n" using i(1) Suc.prems by (cases "inbox (imc_handle channel)") auto
      then show ?thesis using Suc.IH Inr p True by simp
    qed (simp add: Inr p)
  qed simp
qed simp

section \<open>The server's side of a call\<close>

lemma vector_elements_part: "i \<le> length as \<Longrightarrow>
    vector_elements (map Elem [j..<i] @ Null # ps) as = Inr (take (i - j) (drop j as))"
proof (induction "i - j" arbitrary: j)
  case (Suc k)
  then have u: "[j..<i] = j # [Suc j..<i]" "k = i - Suc j" "j < length as" "i - j = Suc k" by (simp_all add: upt_conv_Cons)
  have "drop j as = as ! j # drop (Suc j) as" using u(3) by (simp add: Cons_nth_drop_Suc)
  then show ?case using Suc.hyps(1) [OF u(2) Suc.prems] u by simp
qed simp

lemma fresh_point_to: "n \<le> 128 \<Longrightarrow> point_to 0 n (fst fresh_vector) = map Elem [0..<n] @ Null # replicate (128 - n) Uninit"
  by (simp add: point_to_eq fresh_vector_def)

definition arrived :: "(NaClSrpcArg \<Rightarrow> arg_value) \<Rightarrow> NaClSrpcArg list \<Rightarrow> NaClSrpcArg list" where
  "arrived out as = map (\<lambda>a. \<lparr>tag = tag a, arg_u = out a\<rparr>) as"

definition arrived_vector :: "(NaClSrpcArg \<Rightarrow> arg_value) \<Rightarrow> NaClSrpcArg list \<Rightarrow> vector" where
  "arrived_vector out as = (point_to 0 (length as) (fst fresh_vector), if as = [] then None else Some (arrived out as))"

lemma vector_args_arrived: "length as \<le> 128 \<Longrightarrow> vector_args (arrived_vector out as) = Inr (arrived out as)"
  unfolding vector_args_def arrived_vector_def fst_conv snd_conv fresh_point_to
  using vector_elements_part [of "length as" "arrived out as" 0 "replicate (128 - length as) Uninit"]
  by (cases "as = []") (simp_all add: arrived_def)

lemma ArgsFree_arrived: "length as \<le> 128 \<Longrightarrow> length bs = length as \<Longrightarrow> \<exists>x. ArgsFree (fst (arrived_vector out as)) bs = Inr x"
  using free_to_null [of "length as" bs 0 "replicate (128 - length as) Uninit"]
  by (simp add: ArgsFree_def arrived_vector_def fresh_point_to)

lemma types_match_tags: "sendable as \<Longrightarrow> types_match (map tag as @ [0]) as"
  by (auto simp: types_match_def nth_append type_end_def)

text \<open>The environment's memory suffices: blocks of the size of a message, and the arrays of the templates.\<close>

definition enough_memory :: "malloc_fn \<Rightarrow> NaClSrpcArg list \<Rightarrow> bool" where
  "enough_memory malloc rets \<longleftrightarrow> malloc_upto malloc (NACL_ABI_IMC_USER_BYTES_MAX + 1) \<and>
     (\<forall>a \<in> set rets. malloc_upto malloc (array_bytes (arg_u a)))"

lemma enough_upto:
  assumes "enough_memory malloc rets"
  shows "\<exists>N. malloc_upto malloc N \<and> NACL_ABI_IMC_USER_BYTES_MAX < N \<and> (\<forall>a \<in> set rets. array_bytes (arg_u a) \<le> N)"
proof -
  let ?S = "insert (NACL_ABI_IMC_USER_BYTES_MAX + 1) ((\<lambda>a. array_bytes (arg_u a)) ` set rets)"
  have "malloc_upto malloc (Max ?S)"
    using Max_in [of ?S] assms by (auto simp: enough_memory_def)
  moreover have "\<forall>a \<in> set rets. array_bytes (arg_u a) \<le> Max ?S" by simp
  moreover have "NACL_ABI_IMC_USER_BYTES_MAX + 1 \<le> Max ?S" by (intro Max_ge) simp_all
  ultimately show ?thesis by (intro exI [of _ "Max ?S"] conjI) linarith+
qed

definition server_ready :: "NaClSrpcChannel \<Rightarrow> message list \<Rightarrow> bool" where
  "server_ready channel ms \<longleftrightarrow> recv_shape (receive_buf channel) \<and> empty_out (send_buf channel) \<and>
     (\<exists>rest. inbox (imc_handle channel) = map delivered ms @ rest)"

lemma Fillbuf_ready:
  assumes "server_ready channel (msg # ms)" and "fits_message (fst msg) (snd msg)"
  shows "\<exists>b. Fillbuf channel = (Some b, channel\<lparr>imc_handle := (imc_handle channel)\<lparr>inbox := tl (inbox (imc_handle channel))\<rparr>,
      receive_buf := b\<rparr>) \<and> got b (fst msg) (snd msg)"
proof -
  have "recv_shape (receive_buf channel)" using assms(1) by (simp add: server_ready_def)
  from Fillbuf_wire [OF this assms(2)] obtain b where
    b: "NaClSrpcImcFillbuf (delivered msg) (receive_buf channel) = (Some b, b)" "got b (fst msg) (snd msg)" by auto
  then show ?thesis using assms(1) by (auto simp: server_ready_def Fillbuf_def Let_def)
qed

text \<open>The error code of a response, and whether the loop goes on.\<close>

definition reply_code :: "u32 \<Rightarrow> u32" where
  "reply_code err = (if err = NACL_SRPC_RESULT_BREAK then NACL_SRPC_RESULT_OK else err)"

definition reply_rpc :: "NaClSrpcRpc \<Rightarrow> u32 \<Rightarrow> NaClSrpcRpc" where
  "reply_rpc rpc err = (request_rpc rpc)\<lparr>app_error := reply_code err\<rparr>"

lemma run_method_ok:
  assumes m: "NaClSrpcServiceMethod (server channel) (rpc_number rpc) = Inr (Some m)"
    and as: "length args \<le> 128" "length rets \<le> 128"
    and c: "call_method env m channel (arrived out1 args) (arrived out2 rets) = Inr (err, after, ins, outs)"
    and l: "length ins = length args" "length outs = length rets"
    and b: "empty_out (send_buf after)" and s: "sendable outs"
    and f: "fits_message (response_wire (reply_rpc rpc err) outs) (args_handles outs True)"
      "complete_send (send_of env) (response_wire (reply_rpc rpc err) outs) (args_handles outs True)"
  shows "\<exists>b'. run_method env channel (request_rpc rpc) (arrived_vector out1 args) (arrived_vector out2 rets) =
      Inr (if err = NACL_SRPC_RESULT_BREAK then DISPATCH_BREAK else DISPATCH_CONTINUE,
        sent after b' [(response_wire (reply_rpc rpc err) outs, args_handles outs True)]) \<and> empty_out b'"
proof -
  obtain b' where w: "NaClSrpcResponseWrite (send_of env) (uninit_words env) (reply_rpc rpc err) outs (send_buf after) =
      Inr (True, response_rpc (reply_rpc rpc err), b', [(response_wire (reply_rpc rpc err) outs, args_handles outs True)])"
      "empty_out b'"
    using ResponseWrite_spec [OF s b refl refl, of "reply_rpc rpc err" "send_of env" "uninit_words env"] f by auto
  obtain x y where free: "ArgsFree (fst (arrived_vector out1 args)) ins = Inr x" "ArgsFree (fst (arrived_vector out2 rets)) outs = Inr y"
    using ArgsFree_arrived as l by metis
  have num: "rpc_number (request_rpc rpc) = rpc_number rpc" by (simp add: request_rpc_def)
  have rr: "(request_rpc rpc)\<lparr>app_error := if err = NACL_SRPC_RESULT_BREAK then NACL_SRPC_RESULT_OK else err\<rparr> = reply_rpc rpc err"
    by (simp add: reply_rpc_def reply_code_def)
  show ?thesis
    unfolding run_method_def num m bind_result_simps option.case vector_args_arrived [OF as(1)] vector_args_arrived [OF as(2)]
      c prod.case Let_def rr w(1) free
    using w(2) by auto
qed

text \<open>Dispatching a request that a client wrote: the method gets the arrived vectors.\<close>

lemma dispatch_request:
  assumes a: "sendable args" "sendable rets" "enough_memory (malloc_of env) rets"
    and msg: "msg = (request_wire (request_rpc rpc) args rets, args_handles args True)" "fits_message (fst msg) (snd msg)"
    and ch: "server_ready channel (msg # ms)"
    and t: "NaClSrpcServiceMethodNameAndTypes (server channel) (rpc_number rpc) = Inr (Some (nm, Some (map tag args), Some (map tag rets)))"
  shows "\<exists>b. NaClSrpcReceiveAndDispatch env channel waiting =
    run_method env (channel\<lparr>imc_handle := (imc_handle channel)\<lparr>inbox := tl (inbox (imc_handle channel))\<rparr>, receive_buf := b\<rparr>)
      (request_rpc rpc) (arrived_vector (\<lambda>a. received (tag a) (arg_u a)) args)
      (arrived_vector (\<lambda>a. template (malloc_of env) (arg_u a)) rets) \<and> rbuf_ok b"
proof -
  obtain b0 where f: "Fillbuf channel = (Some b0, channel\<lparr>imc_handle := (imc_handle channel)\<lparr>inbox := tl (inbox (imc_handle channel))\<rparr>,
      receive_buf := b0\<rparr>)" "got b0 (fst msg) (snd msg)"
    using Fillbuf_ready [OF ch msg(2)] by blast
  have "got b0 (rpc_wire (request_rpc rpc) @ (args_wire args True @ args_wire rets False)) (args_handles args True)"
    using f(2) by (simp add: msg(1) request_wire_def)
  from RpcGet_wire [OF this, of "uninit_rpc env"] obtain b1 where
    1: "NaClSrpcRpcGet b0 (uninit_rpc env) = Inr (True, b1, request_rpc rpc)"
      "got b1 (args_wire args True @ args_wire rets False @ []) (args_handles args True @ [])"
    by (auto simp: received_rpc_def request_rpc_def)
  obtain N where N: "malloc_upto (malloc_of env) N" "NACL_ABI_IMC_USER_BYTES_MAX < N" "\<forall>a \<in> set rets. array_bytes (arg_u a) \<le> N"
    using enough_upto [OF a(3)] by blast
  have l: "length args < length (fst fresh_vector)" "length rets < length (fst fresh_vector)"
    using a(1,2) by (simp_all add: sendable_def NACL_SRPC_MAX_ARGS_def fresh_vector_def)
  obtain b2 where 2: "NaClSrpcRequestGet (malloc_of env) b1 (map tag args @ [0]) fresh_vector (map tag rets @ [0]) fresh_vector =
      Inr (True, b2, arrived_vector (\<lambda>a. received (tag a) (arg_u a)) args, arrived_vector (\<lambda>a. template (malloc_of env) (arg_u a)) rets)"
      "got b2 [] []"
    using RequestGet_wire [OF a(1) types_match_tags [OF a(1)] l(1) a(2) types_match_tags [OF a(2)] l(2) N 1(2)]
    by (auto simp: arrived_vector_def arrived_def fresh_vector_def)
  have n: "rpc_number (request_rpc rpc) = rpc_number rpc" "is_request (request_rpc rpc) = 1" by (simp_all add: request_rpc_def)
  show ?thesis
    using f(1) 1(1) 2 t n by (intro exI [of _ b2]) (simp add: NaClSrpcReceiveAndDispatch_def Let_def got_def)
qed

section \<open>The client's side\<close>

lemma Read_refill: "NaClSrpcImcRead b es n = Inr (r, data, b') \<Longrightarrow> NaClSrpcImcRefill b' = NaClSrpcImcRefill b"
  by (auto simp: NaClSrpcImcRead_def Let_def NaClSrpcImcRefill_def split: if_splits)

lemma read_field_refill: "read_field n b = Inr (d, b') \<Longrightarrow> NaClSrpcImcRefill b' = NaClSrpcImcRefill b"
  using Read_refill [of b "of_nat n" 1]
  by (cases "NaClSrpcImcRead b (of_nat n) 1") (auto simp: read_field_def)

definition refills :: "NaClSrpcImcBuffer \<Rightarrow> (bool \<times> NaClSrpcImcBuffer \<times> NaClSrpcRpc) result \<Rightarrow> bool" where
  "refills b r \<longleftrightarrow> (\<forall>ok b' rpc. r = Inr (ok, b', rpc) \<longrightarrow> NaClSrpcImcRefill b' = NaClSrpcImcRefill b)"

lemma refills_Inr [simp]: "refills b (Inr (ok, b', rpc)) \<longleftrightarrow> NaClSrpcImcRefill b' = NaClSrpcImcRefill b"
  by (simp add: refills_def)

lemma refills_field:
  assumes "\<And>d b'. NaClSrpcImcRefill b' = NaClSrpcImcRefill b0 \<Longrightarrow> refills b0 (f (d, b'))" "NaClSrpcImcRefill b = NaClSrpcImcRefill b0"
  shows "refills b0 (bind_result (read_field n b) f)"
proof (cases "read_field n b")
  case (Inl e)
  then show ?thesis by (simp add: refills_def)
next
  case (Inr p)
  then obtain d b' where "read_field n b = Inr (d, b')" by (cases p) auto
  then show ?thesis using assms read_field_refill by simp
qed

lemma RpcGet_refill: "NaClSrpcRpcGet b rpc = Inr (ok, b', rpc') \<Longrightarrow> NaClSrpcImcRefill b' = NaClSrpcImcRefill b"
proof -
  have "refills b (NaClSrpcRpcGet b rpc)"
    unfolding NaClSrpcRpcGet_def Let_def
    by (intro refills_field; (simp split: option.split; intro allI impI)?)+
  then show "NaClSrpcRpcGet b rpc = Inr (ok, b', rpc') \<Longrightarrow> NaClSrpcImcRefill b' = NaClSrpcImcRefill b"
    by (simp add: refills_def)
qed

lemma Fillbuf_refilled: "Fillbuf channel = (Some b, channel') \<Longrightarrow> NaClSrpcImcRefill b = b \<and> receive_buf channel' = b"
  by (auto simp: Fillbuf_def NaClSrpcImcFillbuf_def NaClSrpcImcRefill_def Let_def split: prod.splits if_splits)

text \<open>A client that waits with a response to its own request at the head of the inbox.\<close>

lemma response_arrives:
  assumes ch: "server_ready channel ((response_wire rpc outs, args_handles outs True) # ms)"
    and f: "fits_message (response_wire rpc outs) (args_handles outs True)"
    and id: "request_id waiting = request_id rpc"
  shows "\<exists>b1 b2. NaClSrpcReceiveAndDispatch env channel (Some waiting) = Inr (DISPATCH_RESPONSE,
      channel\<lparr>imc_handle := (imc_handle channel)\<lparr>inbox := tl (inbox (imc_handle channel))\<rparr>, receive_buf := b1\<rparr>) \<and>
    NaClSrpcRpcGet (NaClSrpcImcRefill b1) waiting = Inr (True, b2, response_rpc rpc) \<and>
    got b2 (args_wire outs True @ []) (args_handles outs True @ [])"
proof -
  let ?ch = "\<lambda>b. channel\<lparr>imc_handle := (imc_handle channel)\<lparr>inbox := tl (inbox (imc_handle channel))\<rparr>, receive_buf := b\<rparr>"
  obtain b0 where b0: "Fillbuf channel = (Some b0, ?ch b0)" "got b0 (response_wire rpc outs) (args_handles outs True)"
    using Fillbuf_ready [OF ch] f by auto
  obtain b1 where b1: "NaClSrpcRpcGet b0 (uninit_rpc env) = Inr (True, b1, response_rpc rpc)"
    using RpcGet_wire [OF b0(2) [unfolded response_wire_def]] by (auto simp: received_rpc_def response_rpc_def)
  have ids: "is_request (response_rpc rpc) = 0" "request_id (response_rpc rpc) = request_id waiting"
    using id by (simp_all add: response_rpc_def)
  have "NaClSrpcReceiveAndDispatch env channel (Some waiting) = Inr (DISPATCH_RESPONSE, ?ch b1)"
    using b0(1) b1 ids by (simp add: NaClSrpcReceiveAndDispatch_def Let_def)
  moreover have "NaClSrpcImcRefill b1 = b0" using RpcGet_refill [OF b1] Fillbuf_refilled [OF b0(1)] by simp
  moreover obtain b2 where "NaClSrpcRpcGet b0 waiting = Inr (True, b2, response_rpc rpc)"
    "got b2 (args_wire outs True @ []) (args_handles outs True @ [])"
    using RpcGet_wire [OF b0(2) [unfolded response_wire_def], of waiting] by (auto simp: received_rpc_def response_rpc_def)
  ultimately show ?thesis by blast
qed

lemma wait_response:
  assumes ch: "server_ready channel ((response_wire rpc outs, args_handles outs True) # ms)"
    and f: "fits_message (response_wire rpc outs) (args_handles outs True)"
    and o: "sendable outs" "fits_in olds outs" "malloc_upto (malloc_of env) (NACL_ABI_IMC_USER_BYTES_MAX + 1)"
    and id: "request_id waiting = request_id rpc"
  shows "\<exists>b. NaClSrpcRpcWait env (Suc n) channel (Some (waiting, ret_types, (whole (length olds), Some olds))) =
    Inr (Some (channel\<lparr>imc_handle := (imc_handle channel)\<lparr>inbox := tl (inbox (imc_handle channel))\<rparr>, receive_buf := b\<rparr>,
      Some (response_rpc rpc, (whole (length olds), Some (if app_error rpc = NACL_SRPC_RESULT_OK then map2 absorbed olds outs else olds)))))"
proof -
  obtain b1 b2 where a: "NaClSrpcReceiveAndDispatch env channel (Some waiting) = Inr (DISPATCH_RESPONSE,
      channel\<lparr>imc_handle := (imc_handle channel)\<lparr>inbox := tl (inbox (imc_handle channel))\<rparr>, receive_buf := b1\<rparr>)"
    "NaClSrpcRpcGet (NaClSrpcImcRefill b1) waiting = Inr (True, b2, response_rpc rpc)"
    "got b2 (args_wire outs True @ []) (args_handles outs True @ [])"
    using response_arrives [OF ch f id, of env] by blast
  obtain b3 where b3: "NaClSrpcResponseGet (malloc_of env) b2 (response_rpc rpc) ret_types (whole (length olds), Some olds) = Inr (True, b3,
      (whole (length olds), Some (if app_error (response_rpc rpc) = NACL_SRPC_RESULT_OK then map2 absorbed olds outs else olds)))"
    using ResponseGet_wire [OF o a(3)] by blast
  have "is_request (response_rpc rpc) = 0" "app_error (response_rpc rpc) = app_error rpc" by (simp_all add: response_rpc_def)
  then show ?thesis
    using a(1,2) b3 by (intro exI [of _ b3]) (simp add: NaClSrpcRpcWait_def Let_def)
qed

lemma vector_args_whole: "vector_args (whole (length as), Some as) = Inr as"
  using vector_elements_part [of "length as" as 0 "[]"] by (simp add: vector_args_def whole_def)

lemma TypeCheckArgs_tags:
  assumes "\<forall>a \<in> set as. arg_ok a"
  shows "TypeCheckArgs (map tag as) as"
  using assms
proof (induction as)
  case (Cons a as)
  then have "tag a \<in> set argument_tags" "tag a \<noteq> 0x3a"
    by (auto simp: arg_ok_def argument_tags_def tag_defs split: arg_value.splits)
  then show ?case using Cons by simp
qed simp

definition call_rpc :: "environment \<Rightarrow> NaClSrpcChannel \<Rightarrow> u32 \<Rightarrow> NaClSrpcRpc" where
  "call_rpc env channel num = (uninit_rpc env)\<lparr>protocol_version := kNaClSrpcProtocolVersion, rpc_number := num,
     request_id := next_outgoing_request_id channel, app_error := NACL_SRPC_RESULT_OK\<rparr>"

lemma InvokeV_send:
  assumes t: "NaClSrpcServiceMethodNameAndTypes (client channel) num = Inr (Some (nm, Some (map tag args), Some (map tag rets)))"
    and a: "sendable args" "sendable rets" and b: "empty_out (send_buf channel)"
    and msg: "msg = (request_wire (request_rpc (call_rpc env channel num)) args rets, args_handles args True)"
      "fits_message (fst msg) (snd msg)" "complete_send (send_of env) (fst msg) (snd msg)"
  shows "\<exists>b'. empty_out b' \<and>
    NaClSrpcInvokeV env n channel num (whole (length args), Some args) (whole (length rets), Some rets) =
      bind_result (NaClSrpcRpcWait env n (sent channel b' [msg])
          (Some (request_rpc (call_rpc env channel num), map tag rets @ [0], (whole (length rets), Some rets)))) (\<lambda>r.
        case r of Some (channel, Some (rpc, rets)) \<Rightarrow> Inr (Some (app_error rpc, channel, rets)) | _ \<Rightarrow> Inr None)"
proof -
  obtain b' where w: "NaClSrpcRequestWrite (send_of env) (uninit_words env) (call_rpc env channel num) args rets (send_buf channel) =
      Inr (True, request_rpc (call_rpc env channel num), b', Some msg)" "empty_out b'"
    using RequestWrite_spec [OF a b refl refl, of "call_rpc env channel num" "send_of env" "uninit_words env"] msg by auto
  have ok: "\<forall>a \<in> set args. arg_ok a" "\<forall>a \<in> set rets. arg_ok a" using a by (simp_all add: sendable_def)
  have "NaClSrpcInvokeV env n channel num (whole (length args), Some args) (whole (length rets), Some rets) =
      bind_result (NaClSrpcRpcWait env n (sent channel b' [msg])
          (Some (request_rpc (call_rpc env channel num), map tag rets @ [0], (whole (length rets), Some rets)))) (\<lambda>r.
        case r of Some (channel, Some (rpc, rets)) \<Rightarrow> Inr (Some (app_error rpc, channel, rets)) | _ \<Rightarrow> Inr None)"
    unfolding NaClSrpcInvokeV_def t bind_result_simps option.case prod.case vector_args_whole Let_def call_rpc_def [symmetric] w(1)
    using TypeCheckArgs_tags [OF ok(1)] TypeCheckArgs_tags [OF ok(2)] by simp
  then show ?thesis using w(2) by blast
qed

section \<open>Calls\<close>

text \<open>C35: Waiting for a response, or serving, ends: with as many turns as there are messages to come and one
  more, the loop of \<open>NaClSrpcRpcWait\<close> has stopped, because each turn takes one message and a failed receive
  ends it. No sequence of messages keeps the thread in the loop.\<close>

theorem RpcWait_ends:
  assumes "length (inbox (imc_handle channel)) < n"
  shows "NaClSrpcRpcWait env n channel rpc \<noteq> Inr None"
proof (cases "dispatch_loop env n channel (map_option fst rpc)")
  case (Inr r)
  then have "r \<noteq> None" using dispatch_loop_ends [OF assms, of env "map_option fst rpc"] by auto
  then obtain ret ch where r: "r = Some (ret, ch)" by auto
  show ?thesis
    using Inr r by (auto simp: NaClSrpcRpcWait_def bind_result_def Let_def split: option.splits prod.splits sum.splits if_splits)
qed (simp add: NaClSrpcRpcWait_def)

text \<open>C13: A call of a remote method is a call of the method: when client and server agree on the types, the
  client's request is one message, the server's turn on it runs the method on the client's argument values and on
  cleared return values of the client's tags and sizes, its response is one message, and with
  that response the client's invocation returns the method's error code (a break request is a success) and, on success,
  the method's return values in the client's own vector.\<close>

theorem remote_call:
  assumes types: "NaClSrpcServiceMethodNameAndTypes (client c) num = Inr (Some (nm, Some (map tag args), Some (map tag rets)))"
      "NaClSrpcServiceMethodNameAndTypes (server s) num = Inr (Some (nm2, Some (map tag args), Some (map tag rets)))"
      "NaClSrpcServiceMethod (server s) num = Inr (Some (Handler k))"
    and vectors: "sendable args" "sendable rets" "enough_memory (malloc_of senv) rets"
      "malloc_upto (malloc_of cenv) (NACL_ABI_IMC_USER_BYTES_MAX + 1)"
    and body: "method_body senv k (arrived (\<lambda>a. received (tag a) (arg_u a)) args) (arrived (\<lambda>a. template (malloc_of senv) (arg_u a)) rets) =
      (err, ins, outs)" "length ins = length args" "sendable outs" "fits_in rets outs"
    and req: "req = (request_wire (request_rpc (call_rpc cenv c num)) args rets, args_handles args True)"
      "fits_message (fst req) (snd req)" "complete_send (send_of cenv) (fst req) (snd req)"
    and resp: "resp = (response_wire (reply_rpc (call_rpc cenv c num) err) outs, args_handles outs True)"
      "fits_message (fst resp) (snd resp)" "complete_send (send_of senv) (fst resp) (snd resp)"
    and ready: "server_ready s [req]" "server_ready c [resp]"
  shows "\<exists>s' c'. NaClSrpcReceiveAndDispatch senv s None =
      Inr (if err = NACL_SRPC_RESULT_BREAK then DISPATCH_BREAK else DISPATCH_CONTINUE, s') \<and>
    outbox (imc_handle s') = outbox (imc_handle s) @ [resp] \<and>
    NaClSrpcInvokeV cenv (Suc n) c num (whole (length args), Some args) (whole (length rets), Some rets) =
      Inr (Some (reply_code err, c', (whole (length rets),
        Some (if reply_code err = NACL_SRPC_RESULT_OK then map2 absorbed rets outs else rets)))) \<and>
    outbox (imc_handle c') = outbox (imc_handle c) @ [req]"
proof -
  let ?rpc = "call_rpc cenv c num"
  have num: "rpc_number ?rpc = num" by (simp add: call_rpc_def)
  have l: "length args \<le> 128" "length rets \<le> 128" using vectors by (simp_all add: sendable_def NACL_SRPC_MAX_ARGS_def)
  have lo: "length outs = length rets" using body(4) by (simp add: fits_in_def list_all2_lengthD)
  obtain b where d: "NaClSrpcReceiveAndDispatch senv s None =
      run_method senv (s\<lparr>imc_handle := (imc_handle s)\<lparr>inbox := tl (inbox (imc_handle s))\<rparr>, receive_buf := b\<rparr>) (request_rpc ?rpc)
        (arrived_vector (\<lambda>a. received (tag a) (arg_u a)) args) (arrived_vector (\<lambda>a. template (malloc_of senv) (arg_u a)) rets)"
    using dispatch_request [OF vectors(1-3) req(1,2) ready(1), of nm2 None] types(2) num by auto
  let ?s = "s\<lparr>imc_handle := (imc_handle s)\<lparr>inbox := tl (inbox (imc_handle s))\<rparr>, receive_buf := b\<rparr>"
  have "\<exists>b'. run_method senv ?s (request_rpc ?rpc) (arrived_vector (\<lambda>a. received (tag a) (arg_u a)) args)
      (arrived_vector (\<lambda>a. template (malloc_of senv) (arg_u a)) rets) =
      Inr (if err = NACL_SRPC_RESULT_BREAK then DISPATCH_BREAK else DISPATCH_CONTINUE, sent ?s b' [resp]) \<and> empty_out b'"
    unfolding resp(1) using types(3) l lo body resp(2,3) ready(1)
    by (intro run_method_ok [where m = "Handler k" and after = ?s and ins = ins])
      (simp_all add: num resp(1) call_method_def server_ready_def)
  then obtain s' where s': "NaClSrpcReceiveAndDispatch senv s None =
      Inr (if err = NACL_SRPC_RESULT_BREAK then DISPATCH_BREAK else DISPATCH_CONTINUE, s')"
      "outbox (imc_handle s') = outbox (imc_handle s) @ [resp]"
    using d by (auto simp: sent_def)
  obtain b' where inv: "NaClSrpcInvokeV cenv (Suc n) c num (whole (length args), Some args) (whole (length rets), Some rets) =
      bind_result (NaClSrpcRpcWait cenv (Suc n) (sent c b' [req])
          (Some (request_rpc ?rpc, map tag rets @ [0], (whole (length rets), Some rets)))) (\<lambda>r.
        case r of Some (channel, Some (rpc, rets)) \<Rightarrow> Inr (Some (app_error rpc, channel, rets)) | _ \<Rightarrow> Inr None)" "empty_out b'"
    using InvokeV_send [OF types(1) vectors(1,2) _ req] ready(2) by (auto simp: server_ready_def)
  have "server_ready (sent c b' [req]) [(response_wire (reply_rpc ?rpc err) outs, args_handles outs True)]"
    using ready(2) inv(2) by (simp add: server_ready_def sent_def resp(1))
  from wait_response [OF this, of rets cenv "request_rpc ?rpc" n "map tag rets @ [0]"] resp(1,2) body(3,4) vectors(4)
  obtain b2 where "NaClSrpcRpcWait cenv (Suc n) (sent c b' [req])
      (Some (request_rpc ?rpc, map tag rets @ [0], (whole (length rets), Some rets))) =
      Inr (Some ((sent c b' [req])\<lparr>imc_handle := (imc_handle (sent c b' [req]))\<lparr>inbox := tl (inbox (imc_handle (sent c b' [req])))\<rparr>, receive_buf := b2\<rparr>,
        Some (response_rpc (reply_rpc ?rpc err), (whole (length rets),
          Some (if app_error (reply_rpc ?rpc err) = NACL_SRPC_RESULT_OK then map2 absorbed rets outs else rets)))))"
    by (auto simp: reply_rpc_def request_rpc_def)
  then show ?thesis
    using s' inv(1) by (auto simp: response_rpc_def reply_rpc_def sent_def)
qed

end
