(* ===== verification/Srpc_Faults.thy ===== *)
theory Srpc_Faults
  imports Srpc_Call
begin

text \<open>
  What a hostile or a lost peer does to a process that speaks SRPC, and concrete channels on which the
  theorems about calls and faults apply.
\<close>

section \<open>Faults\<close>

text \<open>C40: When the connection is gone before the response, the invocation reports success: the wait
  ends without touching the header of the request, whose error code the sender set to OK, and the return
  values are the caller's own.\<close>

theorem lost_connection_reports_success:
  assumes types: "NaClSrpcServiceMethodNameAndTypes (client c) num = Inr (Some (nm, Some (map tag args), Some (map tag rets)))"
    and vectors: "sendable args" "sendable rets" and b: "empty_out (send_buf c)" "inbox (imc_handle c) = []"
    and req: "req = (request_wire (request_rpc (call_rpc env c num)) args rets, args_handles args True)"
      "fits_message (fst req) (snd req)" "complete_send (send_of env) (fst req) (snd req)"
  shows "\<exists>c'. NaClSrpcInvokeV env (Suc n) c num (whole (length args), Some args) (whole (length rets), Some rets) =
    Inr (Some (NACL_SRPC_RESULT_OK, c', (whole (length rets), Some rets)))"
proof -
  obtain b' where inv: "NaClSrpcInvokeV env (Suc n) c num (whole (length args), Some args) (whole (length rets), Some rets) =
      bind_result (NaClSrpcRpcWait env (Suc n) (sent c b' [req])
          (Some (request_rpc (call_rpc env c num), map tag rets @ [0], (whole (length rets), Some rets)))) (\<lambda>r.
        case r of Some (channel, Some (rpc, rets)) \<Rightarrow> Inr (Some (app_error rpc, channel, rets)) | _ \<Rightarrow> Inr None)"
    using InvokeV_send [OF types vectors b(1) req] by blast
  obtain x ch where f: "Fillbuf (sent c b' [req]) = (x, ch)" by fastforce
  then have "x = None" using Fillbuf_inbox [OF f] b(2) by simp
  then have "NaClSrpcReceiveAndDispatch env (sent c b' [req]) waiting = Inr (DISPATCH_EOF, ch)" for waiting
    using f by (simp add: NaClSrpcReceiveAndDispatch_def)
  then show ?thesis unfolding inv by (simp add: NaClSrpcRpcWait_def request_rpc_def)
qed

text \<open>A request for the built-in method that toggles timing stops any server: its input types are empty, and the
  method reads its first argument.\<close>

theorem toggle_timing_faults:
  assumes "server s = Some service" and "rpc_number rpc = NACL_SRPC_TOGGLE_CHANNEL_TIMING_METHOD"
    and "sendable rets" "map tag rets = bytes_of ''i''" "enough_memory (malloc_of env) rets"
    and "msg = (request_wire (request_rpc rpc) [] rets, [])" and "server_ready s [msg]"
  shows "NaClSrpcReceiveAndDispatch env s waiting = Inl NullDeref"
proof -
  have s0: "sendable []" by (simp add: sendable_def NACL_SRPC_MAX_ARGS_def)
  obtain r where r: "rets = [r]" "tag r = 0x69" using assms(4) by (auto simp: bytes_of_def)
  have "arg_ok r" using assms(3) r by (simp add: sendable_def)
  then obtain w where "arg_u r = IntVal w" using r(2) by (auto simp: arg_ok_def tag_defs split: arg_value.splits)
  then have fit: "fits_message (fst msg) (snd msg)"
    by (simp add: assms(6) r fits_message_def request_wire_def rpc_wire_def args_wire_def NACL_ABI_IMC_USER_BYTES_MAX_def request_rpc_def)
  have t: "NaClSrpcServiceMethodNameAndTypes (server s) (rpc_number rpc) =
      Inr (Some (Some (bytes_of ''NACL_SRPC_TOGGLE_CHANNEL_TIMING_METHOD''), Some (map tag []), Some (map tag rets)))"
    by (simp add: assms(2,4) NaClSrpcServiceMethodNameAndTypes_def NACL_SRPC_TOGGLE_CHANNEL_TIMING_METHOD_def NACL_SRPC_GET_TIMES_METHOD_def)
  have msg: "msg = (request_wire (request_rpc rpc) [] rets, args_handles [] True)" by (simp add: assms(6) args_handles_def)
  obtain b where d: "NaClSrpcReceiveAndDispatch env s waiting =
      run_method env (s\<lparr>imc_handle := (imc_handle s)\<lparr>inbox := tl (inbox (imc_handle s))\<rparr>, receive_buf := b\<rparr>) (request_rpc rpc)
        (arrived_vector (\<lambda>a. received (tag a) (arg_u a)) []) (arrived_vector (\<lambda>a. template (malloc_of env) (arg_u a)) rets)"
    using dispatch_request [OF s0 assms(3,5) msg fit assms(7) t] by blast
  have num: "rpc_number (request_rpc rpc) = rpc_number rpc" by (simp add: request_rpc_def)
  have l: "length ([] :: NaClSrpcArg list) \<le> 128" "length rets \<le> 128" by (simp_all add: r)
  show ?thesis
    unfolding d run_method_def num vector_args_arrived [OF l(1)] vector_args_arrived [OF l(2)]
    by (simp add: assms(1,2) NaClSrpcServiceMethod_def NACL_SRPC_TOGGLE_CHANNEL_TIMING_METHOD_def
        NACL_SRPC_GET_TIMES_METHOD_def call_method_def SetTimingEnabled_method_def arrived_def)
qed

text \<open>A process that only made calls, and so has no service, stops when its peer sends it a request while it waits:
  the service is dereferenced to look up the types.\<close>

theorem client_request_faults:
  assumes "server c = None" and "rpc_number rpc \<notin> {NACL_SRPC_GET_TIMES_METHOD, NACL_SRPC_TOGGLE_CHANNEL_TIMING_METHOD}"
    and "server_ready c [(rpc_wire (request_rpc rpc) @ body, ds)]" and "fits_message (rpc_wire (request_rpc rpc) @ body) ds"
  shows "NaClSrpcReceiveAndDispatch env c waiting = Inl NullDeref"
proof -
  obtain b0 where f: "Fillbuf c = (Some b0, c\<lparr>imc_handle := (imc_handle c)\<lparr>inbox := tl (inbox (imc_handle c))\<rparr>,
      receive_buf := b0\<rparr>)" "got b0 (rpc_wire (request_rpc rpc) @ body) ds"
    using Fillbuf_ready [OF assms(3)] assms(4) by auto
  obtain b1 where "NaClSrpcRpcGet b0 (uninit_rpc env) = Inr (True, b1, request_rpc rpc)"
    using RpcGet_wire [OF f(2), of "uninit_rpc env"] by (auto simp: received_rpc_def request_rpc_def)
  moreover have "rpc_number (request_rpc rpc) = rpc_number rpc" "is_request (request_rpc rpc) = 1" by (simp_all add: request_rpc_def)
  ultimately show ?thesis
    using f(1) assms(1,2) by (simp add: NaClSrpcReceiveAndDispatch_def NaClSrpcServiceMethodNameAndTypes_def Let_def)
qed

text \<open>C36: A response with more values than the client asked for overruns the client's vector: \<open>ArgsGet\<close> takes the
  count from the message, and without allocation nothing compares it with the length of the vector. The tags and sizes of
  the surplus values are the peer's choice.\<close>

theorem long_response_overruns:
  assumes ch: "server_ready c [(response_wire rpc outs, args_handles outs True)]"
    and f: "fits_message (response_wire rpc outs) (args_handles outs True)"
    and o: "sendable outs" "fits_in olds (take (length olds) outs)" "length olds < length outs"
    and m: "malloc_upto (malloc_of env) (NACL_ABI_IMC_USER_BYTES_MAX + 1)"
    and id: "request_id waiting = request_id rpc" "app_error rpc = NACL_SRPC_RESULT_OK"
  shows "NaClSrpcRpcWait env (Suc n) c (Some (waiting, ret_types, (whole (length olds), Some olds))) = Inl OutOfBounds"
proof -
  obtain b1 b2 where a: "NaClSrpcReceiveAndDispatch env c (Some waiting) = Inr (DISPATCH_RESPONSE,
      c\<lparr>imc_handle := (imc_handle c)\<lparr>inbox := tl (inbox (imc_handle c))\<rparr>, receive_buf := b1\<rparr>)"
    "NaClSrpcRpcGet (NaClSrpcImcRefill b1) waiting = Inr (True, b2, response_rpc rpc)"
    "got b2 (args_wire outs True @ []) (args_handles outs True @ [])"
    using response_arrives [OF ch f id(1), of env] by blast
  have ids: "is_request (response_rpc rpc) = 0" "app_error (response_rpc rpc) = NACL_SRPC_RESULT_OK"
    using id(2) by (simp_all add: response_rpc_def)
  have ok: "\<forall>a \<in> set outs. arg_ok a" "length outs < NACL_SRPC_MAX_ARGS" using o(1) by (simp_all add: sendable_def)
  have "ArgsGet (malloc_of env) b2 False True (whole (length olds)) (Some olds) ret_types = Inl OutOfBounds"
    using ArgsGet_overrun [OF ok o(2,3) _ _ _ m] a(3) by (auto simp: got_def)
  then have "NaClSrpcResponseGet (malloc_of env) b2 (response_rpc rpc) ret_types (whole (length olds), Some olds) = Inl OutOfBounds"
    using ids by (simp add: NaClSrpcResponseGet_def)
  then show ?thesis using a(1,2) ids by (simp add: NaClSrpcRpcWait_def Let_def)
qed

end
