(* ===== verification/Srpc_Example.thy ===== *)
theory Srpc_Example
  imports Srpc_Faults
begin

text \<open>
  A client and a server of one method, "f:i:i", and the theorems about discovery, calls and faults applied to
  their channels.
\<close>

definition sample_entries :: "entry list" where
  "sample_entries = [((bytes_of ''f'', bytes_of ''i'', bytes_of ''i''), Handler 1)]"

lemma sample_entries_ok: "\<forall>e \<in> set sample_entries. entry_ok e" "length sample_entries < 268435454"
  by (simp_all add: sample_entries_def entry_ok_def plain_def bytes_of_def delimiter_def)

lemma sample_roomy: "roomy sample_malloc (length (sd_text es) + 16 * (length es + 1) + 2) es"
  by (simp add: roomy_def sample_mallocs)

lemma service_discovery_roundtrip_witness:
  "\<exists>s c. NaClSrpcServiceHandlerCtor sample_malloc (handler_descs sample_entries) = Inr (Some s) \<and>
    NaClSrpcServiceStringCtor sample_malloc (the (service_string s) @ [0]) = Inr (Some c) \<and>
    NaClSrpcServiceMethodNameAndTypes (Some c) 1 = Inr (Some (Some (bytes_of ''f''), Some (bytes_of ''i''), Some (bytes_of ''i''))) \<and>
    NaClSrpcServiceMethod (Some s) 1 = Inr (Some (Handler 1)) \<and>
    NaClSrpcServiceMethodIndex (Some c) (bytes_of ''f'') = Inr 1"
proof -
  have e: "(discovery_entry # sample_entries) ! 1 = ((bytes_of ''f'', bytes_of ''i'', bytes_of ''i''), Handler 1)"
    by (simp add: sample_entries_def)
  have f: "List.find (\<lambda>i. names (discovery_entry # sample_entries) ! i = bytes_of ''f'') [0..<length sample_entries + 1] = Some 1"
    by (simp add: names_def sample_entries_def discovery_entry_def bytes_of_def)
  obtain s c where sc: "NaClSrpcServiceHandlerCtor sample_malloc (handler_descs sample_entries) = Inr (Some s)"
      "NaClSrpcServiceStringCtor sample_malloc (the (service_string s) @ [0]) = Inr (Some c)"
    and lookup: "\<And>j n i out h. j \<le> length sample_entries \<Longrightarrow> (discovery_entry # sample_entries) ! j = ((n, i, out), h) \<Longrightarrow>
       NaClSrpcServiceMethodNameAndTypes (Some c) (of_nat j) = Inr (Some (Some n, Some i, Some out)) \<and>
       NaClSrpcServiceMethod (Some s) (of_nat j) = Inr (Some h)"
    and index: "\<And>nm. NaClSrpcServiceMethodIndex (Some c) nm =
       Inr (case List.find (\<lambda>i. names (discovery_entry # sample_entries) ! i = nm) [0..<length sample_entries + 1] of
              None \<Rightarrow> kNaClSrpcInvalidMethodIndex | Some i \<Rightarrow> of_nat i)"
    using service_discovery_roundtrip [OF sample_entries_ok sample_roomy sample_roomy] by blast
  show ?thesis
    using sc lookup [OF _ e] index [of "bytes_of ''f''"] unfolding f by (auto simp: sample_entries_def)
qed

section \<open>Channels\<close>

definition sample_service :: "NaClSrpcMethod option \<Rightarrow> NaClSrpcService" where
  "sample_service h = \<lparr>service_string = None, service_string_length = 0,
     rpc_descr = [\<lparr>name = Some (bytes_of ''f''), input_types = Some [0x69], output_types = Some [0x69], handler = h\<rparr>],
     rpc_count = 1\<rparr>"

definition sample_env :: environment where
  "sample_env = \<lparr>malloc_of = sample_malloc, send_of = sample_send,
     method_body = (\<lambda>k ins outs. (NACL_SRPC_RESULT_OK, ins, [\<lparr>tag = 0x69, arg_u = IntVal (int_val (arg_u (hd ins)) + 1)\<rparr>])),
     uninit_words = (0, 0), uninit_rpc = sample_rpc\<rparr>"

definition sample_channel :: "NaClSrpcService option \<Rightarrow> NaClSrpcService option \<Rightarrow> message list \<Rightarrow> NaClSrpcChannel" where
  "sample_channel cl sv msgs = \<lparr>client = cl, server = sv, imc_handle = \<lparr>inbox = map delivered msgs, outbox = []\<rparr>,
     send_buf = sample_buffer, receive_buf = sample_buffer, next_outgoing_request_id = 0, timing_enabled = 0, usec = (0, 0, 0, 0)\<rparr>"

definition one_int :: "u32 \<Rightarrow> NaClSrpcArg list" where
  "one_int w = [\<lparr>tag = 0x69, arg_u = IntVal w\<rparr>]"

lemma one_int_ok: "sendable (one_int w)" "map tag (one_int w) = [0x69]" "length (one_int w) = 1"
  by (simp_all add: sendable_def one_int_def arg_ok_def tag_defs NACL_SRPC_MAX_ARGS_def)

lemma one_int_handles: "args_handles (one_int w) v = []"
  by (simp add: args_handles_def one_int_def)

lemma one_int_fits:
  "fits_message (request_wire rpc (one_int v) (one_int w)) []" "fits_message (response_wire rpc (one_int w)) []"
  by (simp_all add: fits_message_def request_wire_def response_wire_def rpc_wire_def args_wire_def one_int_def
      NACL_ABI_IMC_USER_BYTES_MAX_def)

lemma sample_complete: "complete_send (send_of sample_env) w h"
  by (simp add: complete_send_def sample_env_def sample_send_def)

lemma sample_memory: "enough_memory (malloc_of sample_env) as" "malloc_upto (malloc_of sample_env) n"
  by (simp_all add: enough_memory_def sample_env_def sample_mallocs)

lemma sample_ready: "server_ready (sample_channel cl sv msgs) msgs" "inbox (imc_handle (sample_channel cl sv msgs)) = map delivered msgs"
  "client (sample_channel cl sv msgs) = cl" "server (sample_channel cl sv msgs) = sv" "empty_out (send_buf (sample_channel cl sv msgs))"
  by (simp_all add: server_ready_def sample_channel_def sample_buffers)

lemma sample_call_types: "NaClSrpcServiceMethodNameAndTypes (Some (sample_service h)) 0 =
    Inr (Some (Some (bytes_of ''f''), Some [0x69], Some [0x69]))"
  "NaClSrpcServiceMethod (Some (sample_service h)) 0 = Inr h"
  by (simp_all add: NaClSrpcServiceMethodNameAndTypes_def NaClSrpcServiceMethod_def sample_service_def
      NACL_SRPC_GET_TIMES_METHOD_def NACL_SRPC_TOGGLE_CHANNEL_TIMING_METHOD_def)

definition sample_request :: "u32 \<Rightarrow> message" where
  "sample_request v = (request_wire (request_rpc (call_rpc sample_env (sample_channel None None []) 0)) (one_int v) (one_int 0), [])"

definition sample_response :: "u32 \<Rightarrow> message" where
  "sample_response w = (response_wire (reply_rpc (call_rpc sample_env (sample_channel None None []) 0) NACL_SRPC_RESULT_OK) (one_int w), [])"

lemma call_rpc_sample: "call_rpc env (sample_channel cl sv msgs) num = call_rpc env (sample_channel None None []) num"
  by (simp add: call_rpc_def sample_channel_def)

definition sample_client :: "message list \<Rightarrow> NaClSrpcChannel" where
  "sample_client = sample_channel (Some (sample_service None)) None"

definition sample_server :: "message list \<Rightarrow> NaClSrpcChannel" where
  "sample_server = sample_channel None (Some (sample_service (Some (Handler 1))))"

text \<open>The method increments: the call of it on 41 leaves 42 in the client's vector.\<close>

lemma remote_call_witness:
  "\<exists>s' c'. NaClSrpcReceiveAndDispatch sample_env (sample_server [sample_request 41]) None = Inr (DISPATCH_CONTINUE, s') \<and>
    outbox (imc_handle s') = [sample_response 42] \<and>
    NaClSrpcInvokeV sample_env 1 (sample_client [sample_response 42]) 0 (whole 1, Some (one_int 41)) (whole 1, Some (one_int 0)) =
      Inr (Some (NACL_SRPC_RESULT_OK, c', (whole 1, Some (one_int 42)))) \<and>
    outbox (imc_handle c') = [sample_request 41]"
proof -
  let ?c = "sample_client [sample_response 42]" and ?s = "sample_server [sample_request 41]"
  have a: "arrived (\<lambda>a. received (tag a) (arg_u a)) (one_int 41) = one_int 41"
    by (simp add: arrived_def one_int_def tag_defs)
  have body: "method_body sample_env 1 (arrived (\<lambda>a. received (tag a) (arg_u a)) (one_int 41))
      (arrived (\<lambda>a. template (malloc_of sample_env) (arg_u a)) (one_int 0)) = (NACL_SRPC_RESULT_OK, one_int 41, one_int 42)"
    unfolding a by (simp add: sample_env_def one_int_def)
  have f: "fits_in (one_int 0) (one_int 42)" by (simp add: fits_in_def one_int_def)
  have types: "NaClSrpcServiceMethodNameAndTypes (client ?c) 0 =
      Inr (Some (Some (bytes_of ''f''), Some (map tag (one_int 41)), Some (map tag (one_int 0))))"
    "NaClSrpcServiceMethodNameAndTypes (server ?s) 0 =
      Inr (Some (Some (bytes_of ''f''), Some (map tag (one_int 41)), Some (map tag (one_int 0))))"
    "NaClSrpcServiceMethod (server ?s) 0 = Inr (Some (Handler 1))"
    by (simp_all add: sample_client_def sample_server_def sample_ready sample_call_types one_int_ok)
  have req: "sample_request 41 = (request_wire (request_rpc (call_rpc sample_env ?c 0)) (one_int 41) (one_int 0), args_handles (one_int 41) True)"
    "sample_response 42 = (response_wire (reply_rpc (call_rpc sample_env ?c 0) NACL_SRPC_RESULT_OK) (one_int 42), args_handles (one_int 42) True)"
    unfolding sample_request_def sample_response_def sample_client_def call_rpc_sample [of _ "Some (sample_service None)"]
    by (simp_all add: one_int_handles)
  have fits: "fits_message (fst (sample_request 41)) (snd (sample_request 41))" "fits_message (fst (sample_response 42)) (snd (sample_response 42))"
    by (simp_all add: sample_request_def sample_response_def one_int_fits)
  have ready: "server_ready ?s [sample_request 41]" "server_ready ?c [sample_response 42]"
    by (simp_all add: sample_server_def sample_client_def sample_ready)
  have "map2 absorbed (one_int 0) (one_int 42) = one_int 42" by (simp add: one_int_def absorbed_def tag_defs)
  moreover have "reply_code NACL_SRPC_RESULT_OK = NACL_SRPC_RESULT_OK" "NACL_SRPC_RESULT_OK \<noteq> NACL_SRPC_RESULT_BREAK"
    by (simp_all add: reply_code_def NACL_SRPC_RESULT_OK_def NACL_SRPC_RESULT_BREAK_def)
  moreover have "outbox (imc_handle ?s) = []" "outbox (imc_handle ?c) = []"
    by (simp_all add: sample_server_def sample_client_def sample_channel_def)
  ultimately show ?thesis
    using remote_call [OF types one_int_ok(1) one_int_ok(1) sample_memory body _ one_int_ok(1) f req(1) fits(1) sample_complete
        req(2) fits(2) sample_complete ready, of 0]
    by (simp add: one_int_ok(3))
qed

lemma RpcWait_ends_witness:
  "NaClSrpcRpcWait sample_env 2 (sample_server [sample_request 41]) None \<noteq> Inr None"
  by (rule RpcWait_ends) (simp add: sample_server_def sample_ready)

section \<open>Faults\<close>

lemma lost_connection_reports_success_witness:
  "\<exists>c'. NaClSrpcInvokeV sample_env 1 (sample_client []) 0 (whole 1, Some (one_int 41)) (whole 1, Some (one_int 0)) =
    Inr (Some (NACL_SRPC_RESULT_OK, c', (whole 1, Some (one_int 0))))"
proof -
  have t: "NaClSrpcServiceMethodNameAndTypes (client (sample_client [])) 0 =
      Inr (Some (Some (bytes_of ''f''), Some (map tag (one_int 41)), Some (map tag (one_int 0))))"
    by (simp add: sample_client_def sample_ready sample_call_types one_int_ok)
  have b: "empty_out (send_buf (sample_client []))" "inbox (imc_handle (sample_client [])) = []"
    by (simp_all add: sample_client_def sample_ready)
  have req: "sample_request 41 = (request_wire (request_rpc (call_rpc sample_env (sample_client []) 0)) (one_int 41) (one_int 0), args_handles (one_int 41) True)"
    unfolding sample_request_def sample_client_def call_rpc_sample [of _ "Some (sample_service None)"] by (simp add: one_int_handles)
  have f: "fits_message (fst (sample_request 41)) (snd (sample_request 41))" by (simp add: sample_request_def one_int_fits)
  show ?thesis
    using lost_connection_reports_success [OF t one_int_ok(1) one_int_ok(1) b req f sample_complete, of 0]
    by (simp add: one_int_ok(3))
qed

definition toggle_rpc :: NaClSrpcRpc where
  "toggle_rpc = sample_rpc\<lparr>rpc_number := NACL_SRPC_TOGGLE_CHANNEL_TIMING_METHOD\<rparr>"

lemma toggle_timing_faults_witness:
  "NaClSrpcReceiveAndDispatch sample_env (sample_server [(request_wire (request_rpc toggle_rpc) [] (one_int 0), [])]) None = Inl NullDeref"
  by (rule toggle_timing_faults [where rpc = toggle_rpc and msg = "(request_wire (request_rpc toggle_rpc) [] (one_int 0), [])" and rets = "one_int 0" and service = "sample_service (Some (Handler 1))"])
    (simp_all add: sample_server_def sample_ready toggle_rpc_def one_int_ok bytes_of_def sample_memory)

lemma client_request_faults_witness:
  "NaClSrpcReceiveAndDispatch sample_env (sample_client [(rpc_wire (request_rpc sample_rpc) @ [], [])]) None = Inl NullDeref"
  by (rule client_request_faults [where rpc = sample_rpc and body = "[]" and ds = "[]"])
    (simp_all add: sample_client_def sample_ready sample_rpc_def NACL_SRPC_GET_TIMES_METHOD_def
      NACL_SRPC_TOGGLE_CHANNEL_TIMING_METHOD_def rpc_wire_fits)

text \<open>Two integers for a client that asked for one.\<close>

definition two_ints :: "NaClSrpcArg list" where
  "two_ints = one_int 1 @ one_int 2"

lemma two_ints_ok: "sendable two_ints" "args_handles two_ints v = []" "fits_message (response_wire rpc two_ints) []"
  by (simp_all add: sendable_def two_ints_def one_int_def arg_ok_def tag_defs NACL_SRPC_MAX_ARGS_def args_handles_def
      fits_message_def response_wire_def rpc_wire_def args_wire_def NACL_ABI_IMC_USER_BYTES_MAX_def)

lemma long_response_overruns_witness:
  "NaClSrpcRpcWait sample_env 1 (sample_client [(response_wire sample_rpc two_ints, [])])
     (Some (sample_rpc, [0x69, 0], (whole 1, Some (one_int 0)))) = Inl OutOfBounds"
proof -
  have r: "server_ready (sample_client [(response_wire sample_rpc two_ints, [])]) [(response_wire sample_rpc two_ints, args_handles two_ints True)]"
    by (simp add: sample_client_def sample_ready two_ints_ok)
  have f: "fits_message (response_wire sample_rpc two_ints) (args_handles two_ints True)" by (simp add: two_ints_ok)
  have o: "fits_in (one_int 0) (take (length (one_int 0)) two_ints)" "length (one_int 0) < length two_ints"
    by (simp_all add: fits_in_def two_ints_def one_int_def)
  have "app_error sample_rpc = NACL_SRPC_RESULT_OK" by (simp add: sample_rpc_def NACL_SRPC_RESULT_OK_def)
  from long_response_overruns [OF r f two_ints_ok(1) o sample_memory(2) refl this, of 0 "[0x69, 0]"]
  show ?thesis by (simp add: one_int_ok(3))
qed

end
