(* ===== verification/Desc_Xfer.thy ===== *)
theory Desc_Xfer
  imports Sel_Elf Host_Map
begin

text \<open>
  The transfer of descriptors in messages (desc/nrd\_xfer.c, with the externalize and internalize
  methods of the descriptors in desc/): a sender writes a header with a tag for each descriptor
  and puts its handle beside the message, a receiver constructs descriptors from the tags and the
  handles that have arrived. A descriptor is a value with the handle it owns; a handle that is
  closed is noted in a list.
\<close>

unbundle bit_operations_syntax

section \<open>Descriptors\<close>

definition NACL_ABI_EIO :: int where "NACL_ABI_EIO = 5"
definition NACL_ABI_EAGAIN :: int where "NACL_ABI_EAGAIN = 11"
definition NACL_ABI_ENOBUFS :: int where "NACL_ABI_ENOBUFS = 105"
definition NACL_INVALID_HANDLE :: int where "NACL_INVALID_HANDLE = -1"
definition NACL_PATH_MAX :: nat where "NACL_PATH_MAX = 28"
definition NACL_ABI_IMC_IOVEC_MAX :: nat where "NACL_ABI_IMC_IOVEC_MAX = 256"
definition NACL_ABI_IMC_USER_DESC_MAX :: nat where "NACL_ABI_IMC_USER_DESC_MAX = 8"
definition NACL_ABI_IMC_DESC_MAX :: nat where "NACL_ABI_IMC_DESC_MAX = 8"
definition NACL_ABI_IMC_USER_BYTES_MAX :: nat where "NACL_ABI_IMC_USER_BYTES_MAX = 131072"
definition NACL_ABI_IMC_BYTES_MAX :: nat where
  "NACL_ABI_IMC_BYTES_MAX = NACL_ABI_IMC_USER_BYTES_MAX + (1 + NACL_PATH_MAX) * NACL_ABI_IMC_USER_DESC_MAX + 16"
definition NACL_ABI_IMC_NONBLOCK :: u32 where "NACL_ABI_IMC_NONBLOCK = 1"
definition NACL_DONT_WAIT :: u32 where "NACL_DONT_WAIT = 1"
definition NACL_ABI_RECVMSG_DESC_TRUNCATED :: u32 where "NACL_ABI_RECVMSG_DESC_TRUNCATED = 2"

text \<open>\<open>Unconstructed\<close> is an object whose constructor has failed and that is used all the same: its
  method table is NULL.\<close>

datatype desc_obj =
    DirObj
  | IoObj int
  | ConnCapObj "u8 list"
  | BoundObj int
  | ConnectedObj int
  | ShmObj int u32
  | MutexObj
  | CondVarObj
  | SemaphoreObj
  | XferableDataObj int
  | ImcObj int
  | Unconstructed

datatype NaClDescTypeTag =
    NACL_DESC_DIR | NACL_DESC_HOST_IO | NACL_DESC_CONN_CAP | NACL_DESC_BOUND_SOCKET
  | NACL_DESC_CONNECTED_SOCKET | NACL_DESC_SHM | NACL_DESC_MUTEX | NACL_DESC_CONDVAR
  | NACL_DESC_SEMAPHORE | NACL_DESC_TRANSFERABLE_DATA_SOCKET | NACL_DESC_IMC_SOCKET

fun tag_number :: "NaClDescTypeTag \<Rightarrow> nat" where
  "tag_number NACL_DESC_DIR = 0"
| "tag_number NACL_DESC_HOST_IO = 1"
| "tag_number NACL_DESC_CONN_CAP = 2"
| "tag_number NACL_DESC_BOUND_SOCKET = 3"
| "tag_number NACL_DESC_CONNECTED_SOCKET = 4"
| "tag_number NACL_DESC_SHM = 5"
| "tag_number NACL_DESC_MUTEX = 6"
| "tag_number NACL_DESC_CONDVAR = 7"
| "tag_number NACL_DESC_SEMAPHORE = 8"
| "tag_number NACL_DESC_TRANSFERABLE_DATA_SOCKET = 9"
| "tag_number NACL_DESC_IMC_SOCKET = 10"

definition NACL_DESC_TYPE_MAX :: nat where "NACL_DESC_TYPE_MAX = tag_number NACL_DESC_IMC_SOCKET + 1"
definition NACL_DESC_TYPE_END_TAG :: u8 where "NACL_DESC_TYPE_END_TAG = 0xff"

text \<open>The \<open>typeTag\<close> of the method table; there is none for \<open>Unconstructed\<close>.\<close>

fun typeTag :: "desc_obj \<Rightarrow> NaClDescTypeTag option" where
  "typeTag DirObj = Some NACL_DESC_DIR"
| "typeTag (IoObj _) = Some NACL_DESC_HOST_IO"
| "typeTag (ConnCapObj _) = Some NACL_DESC_CONN_CAP"
| "typeTag (BoundObj _) = Some NACL_DESC_BOUND_SOCKET"
| "typeTag (ConnectedObj _) = Some NACL_DESC_CONNECTED_SOCKET"
| "typeTag (ShmObj _ _) = Some NACL_DESC_SHM"
| "typeTag MutexObj = Some NACL_DESC_MUTEX"
| "typeTag CondVarObj = Some NACL_DESC_CONDVAR"
| "typeTag SemaphoreObj = Some NACL_DESC_SEMAPHORE"
| "typeTag (XferableDataObj _) = Some NACL_DESC_TRANSFERABLE_DATA_SOCKET"
| "typeTag (ImcObj _) = Some NACL_DESC_IMC_SOCKET"
| "typeTag Unconstructed = None"

text \<open>The destructors, by the handle they close: the lock of \<open>Unconstructed\<close> was never made.\<close>

fun desc_Dtor :: "desc_obj \<Rightarrow> int list result" where
  "desc_Dtor (IoObj d) = Inr [d]"
| "desc_Dtor (BoundObj h) = Inr [h]"
| "desc_Dtor (ConnectedObj h) = Inr [h]"
| "desc_Dtor (ShmObj h _) = Inr [h]"
| "desc_Dtor (XferableDataObj h) = Inr [h]"
| "desc_Dtor (ImcObj h) = Inr [h]"
| "desc_Dtor Unconstructed = Inl UninitPointer"
| "desc_Dtor _ = Inr []"

section \<open>The state of a transfer\<close>

text \<open>Pointers into the two buffers are indices; \<open>byte_buffer_end\<close> is the length of the buffer.\<close>

record NaClDescXferState =
  next_byte :: nat
  byte_buffer :: "u8 list"
  next_handle :: nat
  handle_buffer :: "int list"
  handle_buffer_end :: nat

definition put_bytes :: "u8 list \<Rightarrow> NaClDescXferState \<Rightarrow> NaClDescXferState result" where
  "put_bytes bs xfer =
     (if next_byte xfer + length bs > length (byte_buffer xfer) then Inl OutOfBounds
      else Inr (xfer\<lparr>byte_buffer := take (next_byte xfer) (byte_buffer xfer) @ bs @
                         drop (next_byte xfer + length bs) (byte_buffer xfer),
                     next_byte := next_byte xfer + length bs\<rparr>))"

definition put_handle :: "int \<Rightarrow> NaClDescXferState \<Rightarrow> NaClDescXferState result" where
  "put_handle h xfer =
     (if next_handle xfer \<ge> length (handle_buffer xfer) then Inl OutOfBounds
      else Inr (xfer\<lparr>handle_buffer := (handle_buffer xfer)[next_handle xfer := h],
                     next_handle := next_handle xfer + 1\<rparr>))"

text \<open>\<open>h = *xfer->next_handle; *xfer->next_handle++ = NACL_INVALID_HANDLE\<close>\<close>

definition take_handle :: "NaClDescXferState \<Rightarrow> int \<times> NaClDescXferState" where
  "take_handle xfer =
     (handle_buffer xfer ! next_handle xfer,
      xfer\<lparr>handle_buffer := (handle_buffer xfer)[next_handle xfer := NACL_INVALID_HANDLE],
           next_handle := next_handle xfer + 1\<rparr>)"

section \<open>Writing descriptors\<close>

text \<open>Result, bytes and handles.\<close>

fun desc_ExternalizeSize :: "desc_obj \<Rightarrow> (int \<times> nat \<times> nat) result" where
  "desc_ExternalizeSize DirObj = Inr (0, 0, 1)"
| "desc_ExternalizeSize (IoObj _) = Inr (0, 0, 1)"
| "desc_ExternalizeSize (ConnCapObj _) = Inr (0, NACL_PATH_MAX, 0)"
| "desc_ExternalizeSize (ShmObj _ _) = Inr (0, 4, 1)"
| "desc_ExternalizeSize (XferableDataObj _) = Inr (0, 0, 1)"
| "desc_ExternalizeSize Unconstructed = Inl NullDeref"
| "desc_ExternalizeSize _ = Inr (- NACL_ABI_EINVAL, 0, 0)"

fun desc_Externalize :: "desc_obj \<Rightarrow> NaClDescXferState \<Rightarrow> (int \<times> NaClDescXferState) result" where
  "desc_Externalize (IoObj d) xfer = bind_result (put_handle d xfer) (\<lambda>xfer. Inr (0, xfer))"
| "desc_Externalize (ConnCapObj path) xfer = bind_result (put_bytes path xfer) (\<lambda>xfer. Inr (0, xfer))"
| "desc_Externalize (ShmObj h sz) xfer =
     bind_result (put_handle h xfer) (\<lambda>xfer. bind_result (put_bytes (le32_bytes sz) xfer) (\<lambda>xfer. Inr (0, xfer)))"
| "desc_Externalize (XferableDataObj h) xfer = bind_result (put_handle h xfer) (\<lambda>xfer. Inr (0, xfer))"
| "desc_Externalize Unconstructed xfer = Inl NullDeref"
| "desc_Externalize _ xfer = Inr (- NACL_ABI_EINVAL, xfer)"

fun externalize_sizes :: "desc_obj list \<Rightarrow> nat \<Rightarrow> nat \<Rightarrow> (int \<times> nat \<times> nat) result" where
  "externalize_sizes [] sys_bytes sys_handles = Inr (0, sys_bytes, sys_handles)"
| "externalize_sizes (d # ds) sys_bytes sys_handles =
     bind_result (desc_ExternalizeSize d) (\<lambda>(retval, desc_bytes, desc_handles).
       if retval < 0 then Inr (retval, sys_bytes, sys_handles)
       else externalize_sizes ds (sys_bytes + (1 + desc_bytes)) (sys_handles + desc_handles))"

fun externalize_all :: "desc_obj list \<Rightarrow> NaClDescXferState \<Rightarrow> (int \<times> NaClDescXferState) result" where
  "externalize_all [] xfer = Inr (0, xfer)"
| "externalize_all (d # ds) xfer =
     (case typeTag d of
        None \<Rightarrow> Inl NullDeref
      | Some t \<Rightarrow>
          bind_result (put_bytes [word_of_nat (tag_number t)] xfer) (\<lambda>xfer.
          bind_result (desc_Externalize d xfer) (\<lambda>(retval, xfer).
            if retval \<noteq> 0 then Inr (retval, xfer) else externalize_all ds xfer)))"

section \<open>Reading descriptors\<close>

text \<open>\<open>ok k\<close> is the success of the function's allocation or construction number \<open>k\<close>. The result is a
  negative error or the new descriptor, the state, and the handles that have been closed.\<close>

type_synonym internalized = "(int + desc_obj) \<times> NaClDescXferState \<times> int list"

text \<open>\<open>NACL_ABI_O_RDWR\<close> is 2.\<close>

definition NaClHostDescPosixTake :: "int \<Rightarrow> u32 \<Rightarrow> int" where
  "NaClHostDescPosixTake posix_d mode =
     (if mode AND NOT 3 \<noteq> 0 then - NACL_ABI_EINVAL
      else if mode AND 3 = 0 \<or> mode AND 3 = 1 \<or> mode AND 3 = 2 then 0 else - NACL_ABI_EINVAL)"

definition NaClDescIoInternalize :: "(nat \<Rightarrow> bool) \<Rightarrow> NaClDescXferState \<Rightarrow> internalized" where
  "NaClDescIoInternalize ok xfer =
     (if next_handle xfer = handle_buffer_end xfer then (Inl (- NACL_ABI_EIO), xfer, [])
      else if \<not> ok 0 \<or> \<not> ok 1 then (Inl (- NACL_ABI_ENOMEM), xfer, [])
      else case take_handle xfer of (h, xfer) \<Rightarrow>
        let rv = NaClHostDescPosixTake h 2
        in if rv < 0 then (Inl rv, xfer, if h = NACL_INVALID_HANDLE then [] else [h])
           else if \<not> ok 2 then (Inl (- NACL_ABI_ENOMEM), xfer, [h])
           else (Inr (IoObj h), xfer, []))"

definition NaClDescConnCapInternalize :: "(nat \<Rightarrow> bool) \<Rightarrow> NaClDescXferState \<Rightarrow> internalized" where
  "NaClDescConnCapInternalize ok xfer =
     (if next_byte xfer + NACL_PATH_MAX > length (byte_buffer xfer) then (Inl (- NACL_ABI_EIO), xfer, [])
      else if \<not> ok 0 \<or> \<not> ok 1 then (Inl (- NACL_ABI_ENOMEM), xfer, [])
      else (Inr (ConnCapObj (take NACL_PATH_MAX (drop (next_byte xfer) (byte_buffer xfer)))),
            xfer\<lparr>next_byte := next_byte xfer + NACL_PATH_MAX\<rparr>, []))"

text \<open>The next two use their object whether or not its constructor has succeeded.\<close>

definition NaClDescImcBoundDescInternalize :: "(nat \<Rightarrow> bool) \<Rightarrow> NaClDescXferState \<Rightarrow> internalized" where
  "NaClDescImcBoundDescInternalize ok xfer =
     (if next_handle xfer = handle_buffer_end xfer then (Inl (- NACL_ABI_EIO), xfer, [])
      else if \<not> ok 0 then (Inl (- NACL_ABI_EIO), xfer, [])
      else case take_handle xfer of (h, xfer) \<Rightarrow>
        (Inr (if ok 1 then BoundObj h else Unconstructed), xfer, []))"

definition NaClDescImcShmCtor :: "bool \<Rightarrow> int \<Rightarrow> u32 \<Rightarrow> desc_obj" where
  "NaClDescImcShmCtor ok h sz = (if sint sz < 0 \<or> \<not> ok then Unconstructed else ShmObj h sz)"

definition NaClDescImcShmInternalize :: "(nat \<Rightarrow> bool) \<Rightarrow> NaClDescXferState \<Rightarrow> internalized" where
  "NaClDescImcShmInternalize ok xfer =
     (if next_handle xfer = handle_buffer_end xfer then (Inl (- NACL_ABI_EIO), xfer, [])
      else if next_byte xfer + 4 > length (byte_buffer xfer) then (Inl (- NACL_ABI_EIO), xfer, [])
      else if \<not> ok 0 then (Inl (- NACL_ABI_ENOMEM), xfer, [])
      else case take_handle xfer of (h, xfer) \<Rightarrow>
        (Inr (NaClDescImcShmCtor (ok 1) h (word_at (byte_buffer xfer) (next_byte xfer))),
         xfer\<lparr>next_byte := next_byte xfer + 4\<rparr>, []))"

text \<open>The handle stays in the buffer when the constructor fails.\<close>

definition NaClDescXferableDataDescInternalize :: "(nat \<Rightarrow> bool) \<Rightarrow> NaClDescXferState \<Rightarrow> internalized" where
  "NaClDescXferableDataDescInternalize ok xfer =
     (if next_handle xfer = handle_buffer_end xfer then (Inl (- NACL_ABI_EIO), xfer, [])
      else if \<not> ok 0 then (Inl (- NACL_ABI_ENOMEM), xfer, [])
      else if \<not> ok 1 then (Inl (- NACL_ABI_EIO), xfer, [])
      else case take_handle xfer of (h, xfer) \<Rightarrow> (Inr (XferableDataObj h), xfer, []))"

definition NaClDescDirInternalize :: "(nat \<Rightarrow> bool) \<Rightarrow> NaClDescXferState \<Rightarrow> internalized" where
  "NaClDescDirInternalize ok xfer = (Inl (- NACL_ABI_EINVAL), xfer, [])"

definition NaClDescMutexInternalize :: "(nat \<Rightarrow> bool) \<Rightarrow> NaClDescXferState \<Rightarrow> internalized" where
  "NaClDescMutexInternalize ok xfer = (Inl (- NACL_ABI_EINVAL), xfer, [])"

definition NaClDescCondVarInternalize :: "(nat \<Rightarrow> bool) \<Rightarrow> NaClDescXferState \<Rightarrow> internalized" where
  "NaClDescCondVarInternalize ok xfer = (Inl (- NACL_ABI_EINVAL), xfer, [])"

definition NaClDescInternalizeNotImplemented :: "(nat \<Rightarrow> bool) \<Rightarrow> NaClDescXferState \<Rightarrow> internalized" where
  "NaClDescInternalizeNotImplemented ok xfer = (Inl (- NACL_ABI_EIO), xfer, [])"

definition NaClDescInternalize :: "((nat \<Rightarrow> bool) \<Rightarrow> NaClDescXferState \<Rightarrow> internalized) list" where
  "NaClDescInternalize =
     [NaClDescDirInternalize,
      NaClDescIoInternalize,
      NaClDescConnCapInternalize,
      NaClDescImcBoundDescInternalize,
      NaClDescInternalizeNotImplemented,
      NaClDescImcShmInternalize,
      NaClDescMutexInternalize,
      NaClDescCondVarInternalize,
      NaClDescInternalizeNotImplemented,
      NaClDescXferableDataDescInternalize,
      NaClDescInternalizeNotImplemented]"

lemmas internalize_defs =
  NaClDescDirInternalize_def NaClDescIoInternalize_def NaClDescConnCapInternalize_def
  NaClDescImcBoundDescInternalize_def NaClDescInternalizeNotImplemented_def NaClDescImcShmInternalize_def
  NaClDescMutexInternalize_def NaClDescCondVarInternalize_def NaClDescXferableDataDescInternalize_def

text \<open>The table has an entry for every tag, and no entry moves the reader back.\<close>

lemma internalize_entry:
  assumes "tag < NACL_DESC_TYPE_MAX" "NaClDescInternalize ! tag = f"
  shows "f \<in> {NaClDescDirInternalize, NaClDescIoInternalize, NaClDescConnCapInternalize, NaClDescImcBoundDescInternalize,
     NaClDescInternalizeNotImplemented, NaClDescImcShmInternalize, NaClDescMutexInternalize, NaClDescCondVarInternalize,
     NaClDescXferableDataDescInternalize}"
proof -
  have "length NaClDescInternalize = NACL_DESC_TYPE_MAX" by (simp add: NaClDescInternalize_def NACL_DESC_TYPE_MAX_def)
  then have "f \<in> set NaClDescInternalize" using assms nth_mem by metis
  then show ?thesis by (auto simp: NaClDescInternalize_def)
qed

lemma internalize_moves:
  assumes "tag < NACL_DESC_TYPE_MAX" "(NaClDescInternalize ! tag) ok xfer = (r, xfer', c)"
  shows "byte_buffer xfer' = byte_buffer xfer \<and> next_byte xfer \<le> next_byte xfer'"
  using internalize_entry [OF assms(1) refl] assms(2)
  by (elim insertE) (auto simp: internalize_defs take_handle_def Let_def split: if_splits)

text \<open>The loop over the tags: \<open>ok\<close> is indexed by the descriptor; \<open>new_desc\<close> holds those constructed so far.\<close>

function internalize_all :: "(nat \<Rightarrow> nat \<Rightarrow> bool) \<Rightarrow> NaClDescXferState \<Rightarrow> desc_obj list \<Rightarrow> int list \<Rightarrow>
    (int \<times> desc_obj list \<times> NaClDescXferState \<times> int list) result" where
  "internalize_all ok xfer new_desc closed =
     (if next_byte xfer \<ge> length (byte_buffer xfer) then Inr (0, new_desc, xfer, closed)
      else let tag = byte_buffer xfer ! next_byte xfer; xfer = xfer\<lparr>next_byte := next_byte xfer + 1\<rparr>
        in if tag = NACL_DESC_TYPE_END_TAG then Inr (0, new_desc, xfer, closed)
           else if unat tag \<ge> NACL_DESC_TYPE_MAX then Inr (- NACL_ABI_EIO, new_desc, xfer, closed)
           else case (NaClDescInternalize ! unat tag) (ok (length new_desc)) xfer of (r, xfer, c) \<Rightarrow>
             (case r of
                Inl e \<Rightarrow> Inr (e, new_desc, xfer, closed @ c)
              | Inr d \<Rightarrow> if length new_desc \<ge> NACL_ABI_IMC_DESC_MAX then Inl OutOfBounds
                         else internalize_all ok xfer (new_desc @ [d]) (closed @ c)))"
  by pat_completeness auto
termination
  by (relation "measure (\<lambda>(ok, xfer, ds, cl). length (byte_buffer xfer) - next_byte xfer)")
    (auto simp: not_le dest!: internalize_moves [OF _ sym])

declare internalize_all.simps [simp del]

section \<open>Messages\<close>

record NaClImcMsgIoVec =
  iov_base :: u32
  iov_len :: u32

text \<open>\<open>ndescv\<close> holds what the caller's array is given or gets: after a receive its first \<open>ndesc_length\<close>
  entries.\<close>

record NaClImcTypedMsgHdr =
  iov :: "NaClImcMsgIoVec list"
  ndescv :: "desc_obj list"
  ndesc_length :: nat
  hdr_flags :: u32

text \<open>What is passed to \<open>SendMsg\<close>: \<open>kern_iov[0]\<close>, which is the header, and the rest of \<open>kern_iov\<close>.\<close>

record NaClMessageHeader =
  first_iov :: "u8 list"
  rest_iov :: "NaClImcMsgIoVec list"
  handles :: "int list"
  handle_count :: nat

definition NACL_HANDLE_TRANSFER_PROTOCOL :: u32 where "NACL_HANDLE_TRANSFER_PROTOCOL = 0xd3c0de01"
definition SIZEOF_INTERNAL_HEADER :: nat where "SIZEOF_INTERNAL_HEADER = 16"  \<comment> \<open>two words and 8 bytes of padding\<close>

definition kNoHandles :: "u8 list" where
  "kNoHandles = le32_bytes NACL_HANDLE_TRANSFER_PROTOCOL @ le32_bytes 0 @ replicate 8 0"

fun sum_lengths :: "NaClImcMsgIoVec list \<Rightarrow> u32 \<Rightarrow> u32 option" where
  "sum_lengths [] user_bytes = Some user_bytes"
| "sum_lengths (v # vs) user_bytes =
     (let tmp_sum = user_bytes + iov_len v
      in if tmp_sum < user_bytes then None else sum_lengths vs tmp_sum)"

text \<open>A datagram is sent on a handle by the host: 0 or more, or -1 and the error number.\<close>

type_synonym 'w send_fn = "'w \<Rightarrow> int \<Rightarrow> NaClMessageHeader \<Rightarrow> u32 \<Rightarrow> int \<times> int \<times> 'w"

fun desc_SendMsg :: "'w send_fn \<Rightarrow> desc_obj \<Rightarrow> NaClMessageHeader \<Rightarrow> u32 \<Rightarrow> 'w \<Rightarrow> (int \<times> 'w) result" where
  "desc_SendMsg send (ImcObj h) dgram flags w =
     (case send w h dgram flags of (r, errno, w) \<Rightarrow> Inr (if r = -1 then - errno else r, w))"
| "desc_SendMsg send (XferableDataObj h) dgram flags w =
     (if handle_count dgram \<noteq> 0 then Inr (- NACL_ABI_EINVAL, w)
      else case send w h dgram flags of (r, errno, w) \<Rightarrow> Inr (if r = -1 then - errno else r, w))"
| "desc_SendMsg send Unconstructed dgram flags w = Inl NullDeref"
| "desc_SendMsg send _ dgram flags w = Inr (- NACL_ABI_EINVAL, w)"

text \<open>The header for descriptors: \<open>malloc\<close> returns a block with whatever it holds, \<open>kern0\<close> is what is in
  the array of handles on the stack.\<close>

definition zero_fill :: "NaClDescXferState \<Rightarrow> u8 list" where
  "zero_fill xfer = take (next_byte xfer) (byte_buffer xfer) @
     replicate (length (byte_buffer xfer) - next_byte xfer) 0"

definition externalize_header ::
    "(nat \<Rightarrow> u8 list option) \<Rightarrow> int list \<Rightarrow> desc_obj list \<Rightarrow> (int + (u8 list \<times> int list)) result" where
  "externalize_header malloc kern0 ds =
     bind_result (externalize_sizes ds 0 0) (\<lambda>(retval, sys_bytes, sys_handles).
       if retval < 0 then Inr (Inl retval)
       else if sys_handles > NACL_ABI_IMC_DESC_MAX then Inl LogFatal
       else let sys_bytes = (sys_bytes + 1 + 15) div 16 * 16
         in case malloc (sys_bytes + SIZEOF_INTERNAL_HEADER) of
              None \<Rightarrow> Inr (Inl (- NACL_ABI_ENOMEM))
            | Some hdr_buf \<Rightarrow>
                bind_result (externalize_all ds
                    \<lparr>next_byte = SIZEOF_INTERNAL_HEADER,
                     byte_buffer = le32_bytes NACL_HANDLE_TRANSFER_PROTOCOL @ le32_bytes (word_of_nat sys_bytes) @ drop 8 hdr_buf,
                     next_handle = 0, handle_buffer = kern0, handle_buffer_end = NACL_ABI_IMC_DESC_MAX\<rparr>)
                  (\<lambda>(retval, xfer).
                    if retval \<noteq> 0 then Inr (Inl retval)
                    else bind_result (put_bytes [NACL_DESC_TYPE_END_TAG] xfer) (\<lambda>xfer.
                      Inr (Inr (zero_fill xfer, take sys_handles (handle_buffer xfer))))))"

definition kern_flags :: "u32 \<Rightarrow> u32" where
  "kern_flags flags = (if flags AND NOT NACL_ABI_IMC_NONBLOCK \<noteq> 0 then flags AND NACL_ABI_IMC_NONBLOCK else flags)"

definition NaClImcSendTypedMessage ::
    "(nat \<Rightarrow> u8 list option) \<Rightarrow> int list \<Rightarrow> 'w send_fn \<Rightarrow> bool \<Rightarrow> desc_obj \<Rightarrow> NaClImcTypedMsgHdr \<Rightarrow> u32 \<Rightarrow> 'w \<Rightarrow>
     (int \<times> 'w) result" where
  "NaClImcSendTypedMessage malloc kern0 send would_block channel nitmhp flags w =
     (let flags = kern_flags flags
      in if ndesc_length nitmhp \<noteq> 0 \<and> typeTag channel = None then Inl NullDeref
      else if ndesc_length nitmhp \<noteq> 0 \<and> typeTag channel \<noteq> Some NACL_DESC_IMC_SOCKET then Inr (- NACL_ABI_EINVAL, w)
      else if length (iov nitmhp) > NACL_ABI_IMC_IOVEC_MAX then Inr (- NACL_ABI_EINVAL, w)
      else if ndesc_length nitmhp > NACL_ABI_IMC_USER_DESC_MAX then Inr (- NACL_ABI_EINVAL, w)
      else case sum_lengths (iov nitmhp) 0 of
        None \<Rightarrow> Inr (- NACL_ABI_EINVAL, w)
      | Some user_bytes \<Rightarrow>
          if unat user_bytes > NACL_ABI_IMC_USER_BYTES_MAX then Inr (- NACL_ABI_EINVAL, w)
          else bind_result
            (if ndesc_length nitmhp = 0 then Inr (Inr (kNoHandles, []))
             else if length (ndescv nitmhp) < ndesc_length nitmhp then Inl OutOfBounds
             else externalize_header malloc kern0 (take (ndesc_length nitmhp) (ndescv nitmhp)))
            (\<lambda>e. case e of
               Inl retval \<Rightarrow> Inr (retval, w)
             | Inr (hdr, hs) \<Rightarrow>
                 bind_result (desc_SendMsg send channel
                     \<lparr>first_iov = hdr, rest_iov = iov nitmhp, handles = hs, handle_count = length hs\<rparr> flags w)
                   (\<lambda>(retval, w).
                     Inr (if retval < 0 then
                            (if flags AND NACL_DONT_WAIT \<noteq> 0 \<and> would_block then - NACL_ABI_EAGAIN else - NACL_ABI_EIO)
                          else if nat retval < length hdr then - NACL_ABI_ENOBUFS
                          else retval - int (length hdr), w))))"

text \<open>A datagram is received by the host, with room for so many bytes and handles: the error number, or the bytes
  and the handles.\<close>

type_synonym 'w recv_fn = "'w \<Rightarrow> int \<Rightarrow> nat \<Rightarrow> nat \<Rightarrow> u32 \<Rightarrow> (int + (u8 list \<times> int list)) \<times> 'w"

fun desc_RecvMsg :: "'w recv_fn \<Rightarrow> desc_obj \<Rightarrow> nat \<Rightarrow> nat \<Rightarrow> u32 \<Rightarrow> 'w \<Rightarrow>
    ((int + (u8 list \<times> int list)) \<times> 'w) result" where
  "desc_RecvMsg recv (ImcObj h) room slots flags w =
     (case recv w h room slots flags of
        (Inl errno, w) \<Rightarrow> Inr (Inl (- errno), w)
      | (Inr m, w) \<Rightarrow> Inr (Inr m, w))"
| "desc_RecvMsg recv (XferableDataObj h) room slots flags w =
     (if slots \<noteq> 0 then Inr (Inl (- NACL_ABI_EINVAL), w)
      else case recv w h room slots flags of
        (Inl errno, w) \<Rightarrow> Inr (Inl (- errno), w)
      | (Inr m, w) \<Rightarrow> Inr (Inr m, w))"
| "desc_RecvMsg recv Unconstructed room slots flags w = Inl NullDeref"
| "desc_RecvMsg recv _ room slots flags w = Inr (Inl (- NACL_ABI_EINVAL), w)"

text \<open>The copies into the caller's buffers; what is left over can only shrink.\<close>

fun copy_out :: "NaClImcMsgIoVec list \<Rightarrow> u8 list \<Rightarrow> (u32 \<times> u8 list) list" where
  "copy_out [] user_data = []"
| "copy_out (v # vs) user_data =
     (if user_data = [] then []
      else let iov_copy_size = min (unat (iov_len v)) (length user_data)
        in (iov_base v, take iov_copy_size user_data) # copy_out vs (drop iov_copy_size user_data))"

text \<open>\<open>NaClDescUnref\<close> of descriptors with one reference.\<close>

fun unref_new :: "desc_obj list \<Rightarrow> int list result" where
  "unref_new [] = Inr []"
| "unref_new (d # ds) = bind_result (desc_Dtor d) (\<lambda>c. bind_result (unref_new ds) (\<lambda>cs. Inr (c @ cs)))"

definition close_rest :: "int list \<Rightarrow> int list" where
  "close_rest kern_handle = filter (\<lambda>h. h \<noteq> NACL_INVALID_HANDLE) kern_handle"

text \<open>From the received bytes and handles on: the result, the caller's header, the copies and the closed handles.\<close>

definition open_message ::
    "(nat \<Rightarrow> nat \<Rightarrow> bool) \<Rightarrow> u8 list \<Rightarrow> int list \<Rightarrow> nat \<Rightarrow> NaClImcTypedMsgHdr \<Rightarrow>
     (int \<times> NaClImcTypedMsgHdr \<times> (u32 \<times> u8 list) list \<times> int list) result" where
  "open_message ok recv_buf hs user_bytes nitmhp =
     (let kern_handle = hs @ replicate (NACL_ABI_IMC_DESC_MAX - length hs) NACL_INVALID_HANDLE;
          data_end = word_at recv_buf 4 + word_of_nat SIZEOF_INTERNAL_HEADER
      in if length recv_buf < SIZEOF_INTERNAL_HEADER \<or> word_at recv_buf 0 \<noteq> NACL_HANDLE_TRANSFER_PROTOCOL \<or>
            length recv_buf < unat data_end
         then Inr (- NACL_ABI_EIO, nitmhp, [], close_rest kern_handle)
         else let avail = min (length recv_buf - unat data_end) user_bytes;
                  data = copy_out (iov nitmhp) (take avail (drop (unat data_end) recv_buf))
           in bind_result (internalize_all ok
                  \<lparr>next_byte = SIZEOF_INTERNAL_HEADER, byte_buffer = take (unat data_end) recv_buf, next_handle = 0,
                   handle_buffer = kern_handle, handle_buffer_end = length hs\<rparr> [] [])
                (\<lambda>(st, new_desc, xfer, closed).
                  if st \<noteq> 0
                  then bind_result (unref_new new_desc) (\<lambda>c.
                         Inr (st, nitmhp, data, closed @ c @ close_rest (handle_buffer xfer)))
                  else let n = min (length new_desc) (ndesc_length nitmhp)
                    in bind_result (unref_new (drop n new_desc)) (\<lambda>c.
                         Inr (int avail,
                              nitmhp\<lparr>hdr_flags := if ndesc_length nitmhp < length new_desc
                                                  then hdr_flags nitmhp OR NACL_ABI_RECVMSG_DESC_TRUNCATED
                                                  else hdr_flags nitmhp,
                                     ndescv := take n new_desc, ndesc_length := n\<rparr>,
                              data, closed @ c @ close_rest (handle_buffer xfer)))))"

text \<open>When there is no memory for the receive buffer, the array of handles has not been initialised yet.\<close>

definition NaClImcRecvTypedMessage ::
    "bool \<Rightarrow> (nat \<Rightarrow> nat \<Rightarrow> bool) \<Rightarrow> int list \<Rightarrow> 'w recv_fn \<Rightarrow> desc_obj \<Rightarrow> NaClImcTypedMsgHdr \<Rightarrow> u32 \<Rightarrow> 'w \<Rightarrow>
     (int \<times> NaClImcTypedMsgHdr \<times> (u32 \<times> u8 list) list \<times> int list \<times> 'w) result" where
  "NaClImcRecvTypedMessage malloc_ok ok kern0 recv channel nitmhp flags w =
     (let flags = kern_flags flags
      in if length (iov nitmhp) > NACL_ABI_IMC_IOVEC_MAX then Inr (- NACL_ABI_EINVAL, nitmhp, [], [], w)
      else if ndesc_length nitmhp > NACL_ABI_IMC_USER_DESC_MAX then Inr (- NACL_ABI_EINVAL, nitmhp, [], [], w)
      else case sum_lengths (iov nitmhp) 0 of
        None \<Rightarrow> Inr (- NACL_ABI_EINVAL, nitmhp, [], [], w)
      | Some user_bytes \<Rightarrow>
          if \<not> malloc_ok then Inr (- NACL_ABI_ENOMEM, nitmhp, [], close_rest kern0, w)
          else bind_result
            (desc_RecvMsg recv channel NACL_ABI_IMC_BYTES_MAX
               (if typeTag channel = Some NACL_DESC_IMC_SOCKET then NACL_ABI_IMC_DESC_MAX else 0) flags w)
            (\<lambda>(r, w). case r of
               Inl retval \<Rightarrow> Inr (retval, nitmhp, [], [], w)
             | Inr (recv_buf, hs) \<Rightarrow>
                 bind_result (open_message ok recv_buf hs (min (unat user_bytes) NACL_ABI_IMC_USER_BYTES_MAX) nitmhp)
                   (\<lambda>(retval, nitmhp, data, closed). Inr (retval, nitmhp, data, closed, w))))"

end
