(* ===== verification/Desc_Xfer_Props.thy ===== *)
theory Desc_Xfer_Props
  imports Desc_Xfer Sel_Elf_Props "HOL-Library.Multiset"
begin

text \<open>
  Transferred descriptors: every handle that arrives is owned by one descriptor that is delivered
  or is closed once, and what a sender puts into a message is what the receiver delivers.
\<close>

section \<open>Who owns a handle\<close>

fun handles_of :: "desc_obj \<Rightarrow> int list" where
  "handles_of (IoObj d) = [d]"
| "handles_of (BoundObj h) = [h]"
| "handles_of (ConnectedObj h) = [h]"
| "handles_of (ShmObj h _) = [h]"
| "handles_of (XferableDataObj h) = [h]"
| "handles_of (ImcObj h) = [h]"
| "handles_of _ = []"

abbreviation owned :: "desc_obj list \<Rightarrow> int list" where
  "owned ds \<equiv> concat (map handles_of ds)"

lemma desc_Dtor_ok: "desc_Dtor d = Inr c \<Longrightarrow> c = handles_of d \<and> d \<noteq> Unconstructed"
  by (cases d) auto

lemma unref_new_ok: "unref_new ds = Inr c \<Longrightarrow> c = owned ds \<and> Unconstructed \<notin> set ds"
  by (induction ds arbitrary: c) (auto simp: bind_result_eq_Inr dest!: desc_Dtor_ok)

lemma close_rest_simps [simp]:
  "close_rest (xs @ ys) = close_rest xs @ close_rest ys"
  "close_rest (replicate n NACL_INVALID_HANDLE) = []"
  by (simp_all add: close_rest_def)

lemma close_rest_valid: "NACL_INVALID_HANDLE \<notin> set hs \<Longrightarrow> close_rest hs = hs"
  by (auto simp: close_rest_def filter_id_conv)

text \<open>The reader has handles left between \<open>next_handle\<close> and \<open>handle_buffer_end\<close>.\<close>

definition reads :: "NaClDescXferState \<Rightarrow> bool" where
  "reads xfer \<longleftrightarrow> next_handle xfer \<le> handle_buffer_end xfer \<and> handle_buffer_end xfer \<le> length (handle_buffer xfer) \<and>
     (\<forall>k. next_handle xfer \<le> k \<and> k < handle_buffer_end xfer \<longrightarrow> handle_buffer xfer ! k \<noteq> NACL_INVALID_HANDLE)"

abbreviation waiting :: "NaClDescXferState \<Rightarrow> int multiset" where
  "waiting xfer \<equiv> mset (close_rest (handle_buffer xfer))"

lemma take_handle_ok:
  assumes "reads xfer" "next_handle xfer \<noteq> handle_buffer_end xfer" "take_handle xfer = (h, xfer')"
  shows "reads xfer' \<and> waiting xfer = add_mset h (waiting xfer')"
proof -
  let ?i = "next_handle xfer" and ?b = "handle_buffer xfer"
  have i: "?i < handle_buffer_end xfer" "?i < length ?b" "?b ! ?i \<noteq> NACL_INVALID_HANDLE"
    using assms by (auto simp: reads_def)
  have h: "h = ?b ! ?i" "handle_buffer xfer' = ?b[?i := NACL_INVALID_HANDLE]" "next_handle xfer' = ?i + 1"
    "handle_buffer_end xfer' = handle_buffer_end xfer"
    using assms(3) by (auto simp: take_handle_def)
  have "mset ?b = add_mset h (mset ?b - {#h#})" using i(2) h(1) by (simp add: nth_mem_mset)
  then have "waiting xfer = add_mset h (waiting xfer')"
    using i h by (simp add: close_rest_def mset_update)
  moreover have "reads xfer'" using assms(1) i(1) h by (auto simp: reads_def nth_list_update)
  ultimately show ?thesis by blast
qed

text \<open>One tag: the handle it takes is owned by the new descriptor, still in the buffer, or closed.\<close>

lemma internalize_owns:
  assumes "tag < NACL_DESC_TYPE_MAX" "(NaClDescInternalize ! tag) ok xfer = (r, xfer', c)" "reads xfer"
  shows "reads xfer' \<and> (\<forall>e. r = Inl e \<longrightarrow> e < 0 \<and> waiting xfer = waiting xfer' + mset c) \<and>
    (\<forall>d. r = Inr d \<and> d \<noteq> Unconstructed \<longrightarrow> waiting xfer = waiting xfer' + mset c + mset (handles_of d))"
proof -
  have bytes: "reads (x\<lparr>next_byte := n\<rparr>) = reads x" for x n by (simp add: reads_def)
  have take: "NaClHostDescPosixTake d 2 = 0" for d by (simp add: NaClHostDescPosixTake_def)
  obtain h x1 where t: "take_handle xfer = (h, x1)" by (metis surj_pair)
  note o = take_handle_ok [OF assms(3) _ t]
  note err = NACL_ABI_EIO_def NACL_ABI_ENOMEM_def NACL_ABI_EINVAL_def
  from internalize_entry [OF assms(1) refl] show ?thesis
  proof (elim insertE emptyE)
    assume f: "NaClDescInternalize ! tag = NaClDescIoInternalize"
    show ?thesis using assms(2,3) o
      by (simp add: f NaClDescIoInternalize_def t take err split: if_splits) auto
  next
    assume f: "NaClDescInternalize ! tag = NaClDescConnCapInternalize"
    show ?thesis using assms(2,3)
      by (simp add: f NaClDescConnCapInternalize_def bytes err split: if_splits) (auto simp: bytes)
  next
    assume f: "NaClDescInternalize ! tag = NaClDescImcBoundDescInternalize"
    show ?thesis using assms(2,3) o
      by (simp add: f NaClDescImcBoundDescInternalize_def t err split: if_splits) auto
  next
    assume f: "NaClDescInternalize ! tag = NaClDescImcShmInternalize"
    show ?thesis using assms(2,3) o
      by (simp add: f NaClDescImcShmInternalize_def NaClDescImcShmCtor_def t err split: if_splits) (auto simp: bytes)
  next
    assume f: "NaClDescInternalize ! tag = NaClDescXferableDataDescInternalize"
    show ?thesis using assms(2,3) o
      by (simp add: f NaClDescXferableDataDescInternalize_def t err split: if_splits) auto
  qed (use assms(2,3) in \<open>auto simp: NaClDescDirInternalize_def NaClDescMutexInternalize_def NaClDescCondVarInternalize_def
      NaClDescInternalizeNotImplemented_def err\<close>)
qed

lemma internalize_all_owns:
  assumes "internalize_all ok xfer ds cl = Inr (st, ds', xfer', cl')" "reads xfer"
  shows "st \<le> 0 \<and> (\<exists>more. ds' = ds @ more) \<and> (Unconstructed \<notin> set ds' \<longrightarrow>
    waiting xfer + mset cl + mset (owned ds) = waiting xfer' + mset cl' + mset (owned ds'))"
  using assms
proof (induction ok xfer ds cl rule: internalize_all.induct)
  case (1 ok xfer ds cl)
  let ?x1 = "xfer\<lparr>next_byte := next_byte xfer + 1\<rparr>" and ?tag = "byte_buffer xfer ! next_byte xfer"
  have x1: "reads ?x1" "waiting ?x1 = waiting xfer" using "1.prems"(2) by (simp_all add: reads_def)
  show ?case
  proof (cases "length (byte_buffer xfer) \<le> next_byte xfer \<or> ?tag = NACL_DESC_TYPE_END_TAG \<or> NACL_DESC_TYPE_MAX \<le> unat ?tag")
    case True
    then show ?thesis using "1.prems"(1)
      by (auto simp: internalize_all.simps [of ok xfer] Let_def NACL_ABI_EIO_def split: if_splits)
  next
    case False
    obtain r x2 c where e: "(NaClDescInternalize ! unat ?tag) (ok (length ds)) ?x1 = (r, x2, c)" by (metis prod_cases3)
    have t: "unat ?tag < NACL_DESC_TYPE_MAX" using False by simp
    note o = internalize_owns [OF t e x1(1)]
    show ?thesis
    proof (cases r)
      case (Inl a)
      then show ?thesis using "1.prems"(1) False e o x1(2)
        by (auto simp: internalize_all.simps [of ok xfer] Let_def)
    next
      case (Inr d)
      have rest: "\<not> NACL_ABI_IMC_DESC_MAX \<le> length ds" "internalize_all ok x2 (ds @ [d]) (cl @ c) = Inr (st, ds', xfer', cl')"
        using "1.prems"(1) False e Inr by (auto simp: internalize_all.simps [of ok xfer] Let_def split: if_splits)
      have "st \<le> 0 \<and> (\<exists>more. ds' = (ds @ [d]) @ more) \<and> (Unconstructed \<notin> set ds' \<longrightarrow>
          waiting x2 + mset (cl @ c) + mset (owned (ds @ [d])) = waiting xfer' + mset cl' + mset (owned ds'))"
        using "1.IH" [OF _ refl refl _ _ e [symmetric] refl Inr rest(1) rest(2)] False o by auto
      then show ?thesis using o Inr x1(2) by (auto simp: ac_simps)
    qed
  qed
qed

section \<open>A received message\<close>

lemma internalize_error:
  assumes "tag < NACL_DESC_TYPE_MAX" "(NaClDescInternalize ! tag) ok xfer = (Inl e, xfer', c)"
  shows "e < 0"
proof -
  have take: "NaClHostDescPosixTake d 2 = 0" for d by (simp add: NaClHostDescPosixTake_def)
  show ?thesis
    using internalize_entry [OF assms(1) refl] assms(2)
    by (elim insertE emptyE)
      (auto simp: internalize_defs take Let_def NACL_ABI_EIO_def NACL_ABI_ENOMEM_def NACL_ABI_EINVAL_def
        split: if_splits prod.splits)
qed

lemma internalize_negative: "internalize_all ok xfer ds cl = Inr (st, ds', xfer', cl') \<Longrightarrow> st \<le> 0"
proof (induction ok xfer ds cl rule: internalize_all.induct)
  case (1 ok xfer ds cl)
  let ?tag = "byte_buffer xfer ! next_byte xfer"
  obtain r x2 c where e: "(NaClDescInternalize ! unat ?tag) (ok (length ds)) (xfer\<lparr>next_byte := Suc (next_byte xfer)\<rparr>) = (r, x2, c)"
    by (metis prod_cases3)
  show ?case using 1
    by (cases r) (use internalize_error [of "unat ?tag"] e in \<open>auto simp: internalize_all.simps [of ok xfer] Let_def NACL_ABI_EIO_def not_le split: if_splits\<close>, force)
qed

lemma copy_out_inside:
  "(b, d) \<in> set (copy_out vs bs) \<Longrightarrow> \<exists>v \<in> set vs. b = iov_base v \<and> length d \<le> unat (iov_len v)"
  by (induction vs arbitrary: bs) (fastforce simp: Let_def split: if_splits)+

lemma copy_out_bytes: "concat (map snd (copy_out vs bs)) = take (sum_list (map (\<lambda>v. unat (iov_len v)) vs)) bs"
proof (induction vs arbitrary: bs)
  case (Cons v vs)
  show ?case
    by (cases "length bs \<le> unat (iov_len v)") (simp_all add: Let_def Cons take_add min_def)
qed simp

lemma sum_lengths_sum:
  "sum_lengths vs u = Some s \<Longrightarrow> unat s = unat u + sum_list (map (\<lambda>v. unat (iov_len v)) vs)"
proof (induction vs arbitrary: u)
  case (Cons v vs)
  have no: "\<not> u + iov_len v < u" and s: "sum_lengths vs (u + iov_len v) = Some s"
    using Cons.prems by (auto simp: Let_def split: if_splits)
  have "unat (u + iov_len v) = unat u + unat (iov_len v)"
    using no by (meson linorder_not_less unat_plus_simple)
  then show ?case using Cons.IH [OF s] by simp
qed simp

lemma open_message_owns:
  assumes "open_message ok bs hs room msg = Inr (rv, msg', data, closed)" "length hs \<le> NACL_ABI_IMC_DESC_MAX"
    and valid: "NACL_INVALID_HANDLE \<notin> set hs"
  shows "(rv < 0 \<longrightarrow> msg' = msg \<and> mset hs = mset closed) \<and>
    (0 \<le> rv \<and> Unconstructed \<notin> set (ndescv msg') \<longrightarrow> mset hs = mset closed + mset (owned (ndescv msg')))"
proof -
  let ?k = "hs @ replicate (NACL_ABI_IMC_DESC_MAX - length hs) NACL_INVALID_HANDLE"
  let ?e = "word_at bs 4 + word_of_nat SIZEOF_INTERNAL_HEADER :: u32"
  let ?x = "\<lparr>next_byte = SIZEOF_INTERNAL_HEADER, byte_buffer = take (unat ?e) bs, next_handle = 0, handle_buffer = ?k,
      handle_buffer_end = length hs\<rparr>"
  have k: "close_rest ?k = hs" using close_rest_valid [OF valid] by simp
  have x: "reads ?x" using valid by (auto simp: reads_def nth_append in_set_conv_nth)
  show ?thesis
  proof (cases "length bs < SIZEOF_INTERNAL_HEADER \<or> word_at bs 0 \<noteq> NACL_HANDLE_TRANSFER_PROTOCOL \<or> length bs < unat ?e")
    case True
    then have "open_message ok bs hs room msg = Inr (- NACL_ABI_EIO, msg, [], close_rest ?k)"
      unfolding open_message_def Let_def by simp
    then show ?thesis using assms(1) k by (auto simp: NACL_ABI_EIO_def)
  next
    case False
    obtain st ds x' cl where a: "internalize_all ok ?x [] [] = Inr (st, ds, x', cl)"
      using assms(1) False by (auto simp: open_message_def Let_def bind_result_eq_Inr)
    have o: "st \<le> 0" "Unconstructed \<notin> set ds \<Longrightarrow> mset hs = waiting x' + mset cl + mset (owned ds)"
      using internalize_all_owns [OF a x] k by auto
    show ?thesis
    proof (cases "st = 0")
      case True
      let ?n = "min (length ds) (ndesc_length msg)"
      obtain c where c: "unref_new (drop ?n ds) = Inr c" "0 \<le> rv" "ndescv msg' = take ?n ds"
          "closed = cl @ c @ close_rest (handle_buffer x')"
        using assms(1) False a True by (auto simp: open_message_def Let_def bind_result_eq_Inr)
      have d: "owned ds = owned (take ?n ds) @ owned (drop ?n ds)" "set ds = set (take ?n ds) \<union> set (drop ?n ds)"
        by (metis append_take_drop_id map_append concat_append) (metis append_take_drop_id set_append)
      show ?thesis using o(2) c d unref_new_ok [OF c(1)] by auto
    next
      case st: False
      then show ?thesis using assms(1) False a o
        by (auto simp: open_message_def Let_def bind_result_eq_Inr dest!: unref_new_ok)
    qed
  qed
qed

text \<open>The copies fill the caller's buffers from the start and lie inside them.\<close>

lemma open_message_data:
  assumes "open_message ok bs hs room msg = Inr (rv, msg', data, closed)"
  shows "(\<forall>(b, d) \<in> set data. \<exists>v \<in> set (iov msg). b = iov_base v \<and> length d \<le> unat (iov_len v)) \<and>
    (0 \<le> rv \<and> room \<le> sum_list (map (\<lambda>v. unat (iov_len v)) (iov msg)) \<longrightarrow> int (length (concat (map snd data))) = rv)"
proof -
  obtain rest where "data = [] \<and> rv < 0 \<or> data = copy_out (iov msg) rest \<and> (0 \<le> rv \<longrightarrow> rv = int (length rest) \<and> length rest \<le> room)"
  proof (cases "data = [] \<and> rv < 0")
    case False
    let ?e = "unat (word_at bs 4 + word_of_nat SIZEOF_INTERNAL_HEADER :: u32)"
    let ?rest = "take (min (length bs - ?e) room) (drop ?e bs)"
    have "data = copy_out (iov msg) ?rest \<and> (0 \<le> rv \<longrightarrow> rv = int (length ?rest) \<and> length ?rest \<le> room)"
      using assms False
      by (auto simp: open_message_def Let_def bind_result_eq_Inr NACL_ABI_EIO_def dest!: internalize_negative split: if_splits)
    then show ?thesis using that by blast
  qed (use that in blast)
  then show ?thesis by (auto simp: copy_out_bytes dest: copy_out_inside)
qed


text \<open>C9: Conservation of transferred handles. Whatever bytes and handles (at most 8, none invalid) arrive on a connected
  socket, a receive that returns and delivers no unconstructed object has accounted for every handle exactly once: it is
  owned by one descriptor that is delivered or it has been closed once. The bytes that are copied go into the caller's
  buffers, never past the end of one, and there are as many as the result says. (Otherwise the call was refused before
  anything was received.)\<close>

theorem received_handles_conserved:
  assumes received: "recv w h NACL_ABI_IMC_BYTES_MAX NACL_ABI_IMC_DESC_MAX (kern_flags flags) = (Inr (bs, hs), w1)"
    and valid: "length hs \<le> NACL_ABI_IMC_DESC_MAX" "NACL_INVALID_HANDLE \<notin> set hs"
    and res: "NaClImcRecvTypedMessage True ok kern0 recv (ImcObj h) msg flags w = Inr (rv, msg', data, closed, w')"
    and made: "Unconstructed \<notin> set (ndescv msg')"
  shows "(rv < 0 \<and> msg' = msg \<and> data = [] \<and> closed = [] \<and> w' = w) \<or>
    (w' = w1 \<and> mset hs = mset closed + mset (owned (if rv < 0 then [] else ndescv msg')) \<and>
     (\<forall>(b, d) \<in> set data. \<exists>v \<in> set (iov msg). b = iov_base v \<and> length d \<le> unat (iov_len v)) \<and>
     (0 \<le> rv \<longrightarrow> int (length (concat (map snd data))) = rv))"
proof (cases "length (iov msg) > NACL_ABI_IMC_IOVEC_MAX \<or> ndesc_length msg > NACL_ABI_IMC_USER_DESC_MAX \<or>
    sum_lengths (iov msg) 0 = None")
  case True
  then show ?thesis using res by (auto simp: NaClImcRecvTypedMessage_def Let_def NACL_ABI_EINVAL_def split: if_splits)
next
  case False
  then obtain s where s: "sum_lengths (iov msg) 0 = Some s" by auto
  let ?room = "min (unat s) NACL_ABI_IMC_USER_BYTES_MAX"
  have o: "open_message ok bs hs ?room msg = Inr (rv, msg', data, closed)" "w' = w1"
    using res False s received by (auto simp: NaClImcRecvTypedMessage_def Let_def bind_result_eq_Inr)
  show ?thesis
    using open_message_owns [OF o(1) valid] open_message_data [OF o(1)] o(2) sum_lengths_sum [OF s] made
    by (auto split: if_splits)
qed

end
