(* ===== verification/Desc_Xfer_Roundtrip.thy ===== *)
theory Desc_Xfer_Roundtrip
  imports Desc_Xfer_Props
begin

text \<open>
  What \<open>NaClImcSendTypedMessage\<close> puts into a message is what \<open>NaClImcRecvTypedMessage\<close> makes of it: the
  bytes of the header are the encodings of the descriptors, and decoding them gives the descriptors back
  with the handles that have arrived.
\<close>

section \<open>The encoding\<close>

fun transferable :: "desc_obj \<Rightarrow> bool" where
  "transferable (IoObj _) = True"
| "transferable (ConnCapObj path) = (length path = NACL_PATH_MAX)"
| "transferable (ShmObj _ sz) = (0 \<le> sint sz)"
| "transferable (XferableDataObj _) = True"
| "transferable _ = False"

fun encoding :: "desc_obj \<Rightarrow> u8 list" where
  "encoding (IoObj _) = [1]"
| "encoding (ConnCapObj path) = 2 # path"
| "encoding (ShmObj _ sz) = 5 # le32_bytes sz"
| "encoding (XferableDataObj _) = [9]"
| "encoding _ = []"

fun with_handles :: "(int \<Rightarrow> int) \<Rightarrow> desc_obj \<Rightarrow> desc_obj" where
  "with_handles f (IoObj d) = IoObj (f d)"
| "with_handles f (ShmObj h sz) = ShmObj (f h) sz"
| "with_handles f (XferableDataObj h) = XferableDataObj (f h)"
| "with_handles f d = d"

abbreviation encodings :: "desc_obj list \<Rightarrow> u8 list" where
  "encodings ds \<equiv> concat (map encoding ds)"

lemma encoding_bound: "transferable d \<Longrightarrow> length (encoding d) \<le> 29 \<and> length (handles_of d) \<le> 1"
  by (cases d) (auto simp: NACL_PATH_MAX_def)

lemma encodings_bound:
  "\<forall>d \<in> set ds. transferable d \<Longrightarrow> length (encodings ds) \<le> 29 * length ds \<and> length (owned ds) \<le> length ds"
  by (induction ds) (use encoding_bound in \<open>fastforce+\<close>)

lemma externalize_sizes_ok:
  "\<forall>d \<in> set ds. transferable d \<Longrightarrow>
    externalize_sizes ds sb sh = Inr (0, sb + length (encodings ds), sh + length (owned ds))"
proof (induction ds arbitrary: sb sh)
  case (Cons d ds)
  then show ?case by (cases d) (auto simp: NACL_PATH_MAX_def ac_simps)
qed simp

text \<open>A buffer is what has been written and the room that is left.\<close>

definition writing :: "u8 list \<Rightarrow> u8 list \<Rightarrow> int list \<Rightarrow> int list \<Rightarrow> NaClDescXferState \<Rightarrow> bool" where
  "writing bs room hs slots xfer \<longleftrightarrow> byte_buffer xfer = bs @ room \<and> next_byte xfer = length bs \<and>
     handle_buffer xfer = hs @ slots \<and> next_handle xfer = length hs"

lemma put_bytes_ok:
  "writing bs room hs slots xfer \<Longrightarrow> length new \<le> length room \<Longrightarrow>
    \<exists>xfer'. put_bytes new xfer = Inr xfer' \<and> writing (bs @ new) (drop (length new) room) hs slots xfer'"
  by (simp add: put_bytes_def writing_def)

lemma put_handle_ok:
  "writing bs room hs slots xfer \<Longrightarrow> 0 < length slots \<Longrightarrow>
    \<exists>xfer'. put_handle h xfer = Inr xfer' \<and> writing bs room (hs @ [h]) (drop 1 slots) xfer'"
  by (cases slots) (auto simp: put_handle_def writing_def)

lemma externalize_all_ok:
  assumes "\<forall>d \<in> set ds. transferable d" "writing bs room hs slots xfer"
    "length (encodings ds) \<le> length room" "length (owned ds) \<le> length slots"
  shows "\<exists>xfer'. externalize_all ds xfer = Inr (0, xfer') \<and>
    writing (bs @ encodings ds) (drop (length (encodings ds)) room) (hs @ owned ds) (drop (length (owned ds)) slots) xfer'"
  using assms
proof (induction ds arbitrary: bs room hs slots xfer)
  case (Cons d ds)
  have t: "transferable d" "\<forall>d \<in> set ds. transferable d" using Cons.prems(1) by simp_all
  have "\<exists>tg xfer1 xfer2. typeTag d = Some tg \<and> put_bytes [word_of_nat (tag_number tg)] xfer = Inr xfer1 \<and>
      desc_Externalize d xfer1 = Inr (0, xfer2) \<and>
      writing (bs @ encoding d) (drop (length (encoding d)) room) (hs @ handles_of d) (drop (length (handles_of d)) slots) xfer2"
  proof -
    obtain xfer1 where x1: "put_bytes [word_of_nat (tag_number (the (typeTag d)))] xfer = Inr xfer1"
        "writing (bs @ [word_of_nat (tag_number (the (typeTag d)))]) (drop 1 room) hs slots xfer1"
      using put_bytes_ok [OF Cons.prems(2), of "[word_of_nat (tag_number (the (typeTag d)))]"] Cons.prems(3) t(1)
      by (cases d) auto
    show ?thesis
    proof (cases d)
      case (IoObj h)
      then have "0 < length slots" using Cons.prems(4) by (cases slots) simp_all
      then show ?thesis using IoObj x1 put_handle_ok [OF x1(2), of h] by force
    next
      case (ConnCapObj p)
      then have "length p \<le> length (drop 1 room)" using Cons.prems(3) by simp
      then show ?thesis using ConnCapObj x1 put_bytes_ok [OF x1(2), of p] by force
    next
      case (ShmObj h sz)
      obtain xh where xh: "put_handle h xfer1 = Inr xh" "writing (bs @ [5]) (drop 1 room) (hs @ [h]) (drop 1 slots) xh"
        using put_handle_ok [OF x1(2), of h] Cons.prems(4) ShmObj by (cases slots) auto
      have "length (le32_bytes sz) \<le> length (drop 1 room)" using Cons.prems(3) ShmObj by simp
      from put_bytes_ok [OF xh(2) this] obtain x2 where "put_bytes (le32_bytes sz) xh = Inr x2"
          "writing ((bs @ [5]) @ le32_bytes sz) (drop (length (le32_bytes sz)) (drop 1 room)) (hs @ [h]) (drop 1 slots) x2" by blast
      then show ?thesis using x1 xh(1) ShmObj by simp
    next
      case (XferableDataObj h)
      then have "0 < length slots" using Cons.prems(4) by (cases slots) simp_all
      then show ?thesis using XferableDataObj x1 put_handle_ok [OF x1(2), of h] by force
    qed (use t in auto)
  qed
  then obtain tg xfer1 xfer2 where s: "typeTag d = Some tg" "put_bytes [word_of_nat (tag_number tg)] xfer = Inr xfer1"
      "desc_Externalize d xfer1 = Inr (0, xfer2)"
      "writing (bs @ encoding d) (drop (length (encoding d)) room) (hs @ handles_of d) (drop (length (handles_of d)) slots) xfer2"
    by blast
  have more: "length (encodings ds) \<le> length (drop (length (encoding d)) room)"
    "length (owned ds) \<le> length (drop (length (handles_of d)) slots)" using Cons.prems(3,4) by auto
  obtain xfer' where "externalize_all ds xfer2 = Inr (0, xfer')"
      "writing ((bs @ encoding d) @ encodings ds) (drop (length (encodings ds)) (drop (length (encoding d)) room))
        ((hs @ handles_of d) @ owned ds) (drop (length (owned ds)) (drop (length (handles_of d)) slots)) xfer'"
    using Cons.IH [OF t(2) s(4) more] by blast
  then show ?case using s by (simp add: add.commute)
qed simp

section \<open>The header\<close>

definition header_size :: "desc_obj list \<Rightarrow> nat" where
  "header_size ds = (length (encodings ds) + 16) div 16 * 16"

text \<open>The eight bytes of padding are those that \<open>malloc\<close> has found.\<close>

lemma externalize_header_ok:
  assumes t: "\<forall>d \<in> set ds. transferable d" and n: "length ds \<le> NACL_ABI_IMC_USER_DESC_MAX"
    and k: "length kern0 = NACL_ABI_IMC_DESC_MAX"
    and m: "malloc (header_size ds + SIZEOF_INTERNAL_HEADER) = Some hdr_buf" "length hdr_buf = header_size ds + SIZEOF_INTERNAL_HEADER"
  shows "externalize_header malloc kern0 ds =
    Inr (Inr (le32_bytes NACL_HANDLE_TRANSFER_PROTOCOL @ le32_bytes (word_of_nat (header_size ds)) @ take 8 (drop 8 hdr_buf) @
      encodings ds @ [NACL_DESC_TYPE_END_TAG] @ replicate (header_size ds - length (encodings ds) - 1) 0, owned ds))"
proof -
  let ?h = "le32_bytes NACL_HANDLE_TRANSFER_PROTOCOL @ le32_bytes (word_of_nat (header_size ds))"
  let ?x = "\<lparr>next_byte = SIZEOF_INTERNAL_HEADER, byte_buffer = ?h @ drop 8 hdr_buf, next_handle = 0, handle_buffer = kern0,
      handle_buffer_end = NACL_ABI_IMC_DESC_MAX\<rparr>"
  have room: "length (encodings ds) < header_size ds" by (simp add: header_size_def)
  have hs: "length (owned ds) \<le> NACL_ABI_IMC_DESC_MAX"
    using encodings_bound [OF t] n by (simp add: NACL_ABI_IMC_USER_DESC_MAX_def NACL_ABI_IMC_DESC_MAX_def)
  have "writing (?h @ take 8 (drop 8 hdr_buf)) (drop 16 hdr_buf) [] kern0 ?x"
    using m(2) by (simp add: writing_def SIZEOF_INTERNAL_HEADER_def) (metis add.commute append_take_drop_id drop_drop numeral_Bit0)
  from externalize_all_ok [OF t this] obtain x1 where x1: "externalize_all ds ?x = Inr (0, x1)"
      "writing ((?h @ take 8 (drop 8 hdr_buf)) @ encodings ds) (drop (length (encodings ds)) (drop 16 hdr_buf)) ([] @ owned ds)
        (drop (length (owned ds)) kern0) x1"
    using room hs k m(2) by (auto simp: SIZEOF_INTERNAL_HEADER_def)
  have last: "Suc 0 \<le> length (drop (length (encodings ds)) (drop 16 hdr_buf))" using room m(2) by (simp add: SIZEOF_INTERNAL_HEADER_def)
  obtain x2 where x2: "put_bytes [NACL_DESC_TYPE_END_TAG] x1 = Inr x2"
      "writing (((?h @ take 8 (drop 8 hdr_buf)) @ encodings ds) @ [NACL_DESC_TYPE_END_TAG])
        (drop 1 (drop (length (encodings ds)) (drop 16 hdr_buf))) ([] @ owned ds) (drop (length (owned ds)) kern0) x2"
    using put_bytes_ok [OF x1(2), of "[NACL_DESC_TYPE_END_TAG]"] last by (metis length_Cons list.size(3) One_nat_def)
  have "zero_fill x2 = ?h @ take 8 (drop 8 hdr_buf) @ encodings ds @ [NACL_DESC_TYPE_END_TAG] @
      replicate (header_size ds - length (encodings ds) - 1) 0" "take (length (owned ds)) (handle_buffer x2) = owned ds"
    using x2(2) m(2) by (auto simp: zero_fill_def writing_def SIZEOF_INTERNAL_HEADER_def)
  moreover have "(length (encodings ds) + 1 + 15) div 16 * 16 = header_size ds" by (simp add: header_size_def)
  ultimately show ?thesis
    using x1(1) x2(1) hs m(1) by (simp add: externalize_header_def externalize_sizes_ok [OF t] Let_def)
qed

section \<open>Decoding\<close>

lemma internalize_all_step:
  assumes "next_byte xfer < length (byte_buffer xfer)" "byte_buffer xfer ! next_byte xfer = tag" "tag \<noteq> NACL_DESC_TYPE_END_TAG"
    "unat tag < NACL_DESC_TYPE_MAX" "length new < NACL_ABI_IMC_DESC_MAX"
    "(NaClDescInternalize ! unat tag) (ok (length new)) (xfer\<lparr>next_byte := next_byte xfer + 1\<rparr>) = (Inr d, x2, c)"
  shows "internalize_all ok xfer new closed = internalize_all ok x2 (new @ [d]) (closed @ c)"
  using assms by (simp add: internalize_all.simps [of ok xfer] Let_def)

text \<open>The handles of the descriptors still to come are in the buffer.\<close>

definition reading :: "(int \<Rightarrow> int) \<Rightarrow> u8 list \<Rightarrow> u8 list \<Rightarrow> int list \<Rightarrow> int list \<Rightarrow> int list \<Rightarrow> NaClDescXferState \<Rightarrow> bool" where
  "reading f bs coming used hs slots xfer \<longleftrightarrow> byte_buffer xfer = bs @ coming \<and> next_byte xfer = length bs \<and>
     handle_buffer xfer = used @ map f hs @ slots \<and> next_handle xfer = length used \<and>
     handle_buffer_end xfer = length used + length hs"

lemma reading_handle:
  "reading f bs coming used (h # hs) slots xfer \<Longrightarrow>
    \<exists>x2. take_handle xfer = (f h, x2) \<and> reading f bs coming (used @ [NACL_INVALID_HANDLE]) hs slots x2"
  by (simp add: reading_def take_handle_def)

lemma reading_bytes:
  "reading f bs (new @ coming) used hs slots xfer \<Longrightarrow>
    reading f (bs @ new) coming used hs slots (xfer\<lparr>next_byte := next_byte xfer + length new\<rparr>)"
  by (simp add: reading_def)

lemma internalize_encoding:
  assumes t: "transferable d" and r: "reading f bs (encoding d @ coming) used (handles_of d @ hs) slots xfer"
    and n: "length new < NACL_ABI_IMC_DESC_MAX"
  shows "\<exists>x2. internalize_all (\<lambda>_ _. True) xfer new closed = internalize_all (\<lambda>_ _. True) x2 (new @ [with_handles f d]) closed \<and>
    reading f (bs @ encoding d) coming (used @ replicate (length (handles_of d)) NACL_INVALID_HANDLE) hs slots x2"
proof -
  let ?x1 = "xfer\<lparr>next_byte := next_byte xfer + 1\<rparr>" and ?tag = "hd (encoding d)"
  have e: "encoding d = ?tag # tl (encoding d)" using t by (cases d) auto
  have x1: "reading f (bs @ [?tag]) (tl (encoding d) @ coming) used (handles_of d @ hs) slots ?x1"
    using reading_bytes [of f bs "[?tag]" "tl (encoding d) @ coming"] r e by (metis append_Cons append_Nil length_Cons list.size(3) One_nat_def)
  have here: "next_byte xfer < length (byte_buffer xfer)" "byte_buffer xfer ! next_byte xfer = ?tag"
    using r by (subst (asm) e, simp add: reading_def)+
  have tag: "?tag \<noteq> NACL_DESC_TYPE_END_TAG" "unat ?tag < NACL_DESC_TYPE_MAX"
    using t by (cases d; simp add: NACL_DESC_TYPE_END_TAG_def NACL_DESC_TYPE_MAX_def)+
  have take: "NaClHostDescPosixTake h 2 = 0" for h by (simp add: NaClHostDescPosixTake_def)
  have "\<exists>x2. (NaClDescInternalize ! unat ?tag) (\<lambda>_. True) ?x1 = (Inr (with_handles f d), x2, []) \<and>
      reading f (bs @ encoding d) coming (used @ replicate (length (handles_of d)) NACL_INVALID_HANDLE) hs slots x2"
  proof (cases d)
    case (IoObj h)
    obtain x2 where "take_handle ?x1 = (f h, x2)" "reading f (bs @ [1]) coming (used @ [NACL_INVALID_HANDLE]) hs slots x2"
      using reading_handle x1 IoObj by fastforce
    moreover have "next_handle ?x1 \<noteq> handle_buffer_end ?x1" using x1 IoObj by (simp add: reading_def)
    ultimately show ?thesis using IoObj by (simp add: NaClDescInternalize_def NaClDescIoInternalize_def take)
  next
    case (ConnCapObj p)
    have "length p = NACL_PATH_MAX" using t ConnCapObj by simp
    then show ?thesis using x1 ConnCapObj reading_bytes [of f "bs @ [2]" p coming used hs slots ?x1]
      by (simp add: NaClDescInternalize_def NaClDescConnCapInternalize_def reading_def)
  next
    case (ShmObj h sz)
    obtain x2 where x2: "take_handle ?x1 = (f h, x2)"
        "reading f (bs @ [5]) (le32_bytes sz @ coming) (used @ [NACL_INVALID_HANDLE]) hs slots x2"
      using reading_handle x1 ShmObj by fastforce
    have "word_at (byte_buffer x2) (next_byte x2) = sz"
      using x2(2) word_at_append [of "bs @ [5]" "length (bs @ [5])" "le32_bytes sz @ coming"] by (simp add: reading_def del: word_at_append)
    moreover have "next_handle ?x1 \<noteq> handle_buffer_end ?x1" "next_byte ?x1 + 4 \<le> length (byte_buffer ?x1)"
      using x1 ShmObj by (simp_all add: reading_def)
    moreover have "\<not> sint sz < 0" using t ShmObj by simp
    ultimately show ?thesis using ShmObj x2(1) reading_bytes [OF x2(2)]
      by (simp add: NaClDescInternalize_def NaClDescImcShmInternalize_def NaClDescImcShmCtor_def)
  next
    case (XferableDataObj h)
    obtain x2 where "take_handle ?x1 = (f h, x2)" "reading f (bs @ [9]) coming (used @ [NACL_INVALID_HANDLE]) hs slots x2"
      using reading_handle x1 XferableDataObj by fastforce
    moreover have "next_handle ?x1 \<noteq> handle_buffer_end ?x1" using x1 XferableDataObj by (simp add: reading_def)
    ultimately show ?thesis using XferableDataObj by (simp add: NaClDescInternalize_def NaClDescXferableDataDescInternalize_def)
  qed (use t in auto)
  then show ?thesis using internalize_all_step [OF here tag n, of "\<lambda>_ _. True"] by fastforce
qed

lemma internalize_all_encodings:
  assumes "\<forall>d \<in> set ds. transferable d" "length new + length ds \<le> NACL_ABI_IMC_DESC_MAX"
    "reading f bs (encodings ds @ NACL_DESC_TYPE_END_TAG # rest) used (owned ds) slots xfer"
  shows "\<exists>xfer'. internalize_all (\<lambda>_ _. True) xfer new closed = Inr (0, new @ map (with_handles f) ds, xfer', closed) \<and>
    handle_buffer xfer' = used @ replicate (length (owned ds)) NACL_INVALID_HANDLE @ slots"
  using assms
proof (induction ds arbitrary: bs xfer used new)
  case Nil
  then show ?case by (simp add: internalize_all.simps [of _ xfer] reading_def Let_def)
next
  case (Cons d ds)
  obtain x2 where x2: "internalize_all (\<lambda>_ _. True) xfer new closed = internalize_all (\<lambda>_ _. True) x2 (new @ [with_handles f d]) closed"
      "reading f (bs @ encoding d) (encodings ds @ NACL_DESC_TYPE_END_TAG # rest)
        (used @ replicate (length (handles_of d)) NACL_INVALID_HANDLE) (owned ds) slots x2"
    using internalize_encoding [of d f bs "encodings ds @ NACL_DESC_TYPE_END_TAG # rest" used "owned ds" slots xfer new] Cons.prems by auto
  then show ?case using Cons.IH [OF _ _ x2(2), of "new @ [with_handles f d]"] Cons.prems(1,2)
    by (auto simp: replicate_add)
qed


section \<open>From sender to receiver\<close>

definition gather :: "(nat \<Rightarrow> u8) \<Rightarrow> NaClImcMsgIoVec list \<Rightarrow> u8 list" where
  "gather mem vs = concat (map (\<lambda>v. map (\<lambda>i. mem (unat (iov_base v) + i)) [0..<unat (iov_len v)]) vs)"

definition datagram :: "(nat \<Rightarrow> u8) \<Rightarrow> NaClMessageHeader \<Rightarrow> u8 list" where
  "datagram mem m = first_iov m @ gather mem (rest_iov m)"

lemma length_gather: "length (gather mem vs) = sum_list (map (\<lambda>v. unat (iov_len v)) vs)"
  by (simp add: gather_def length_concat comp_def)

text \<open>A connection from handle \<open>h\<close> to handle \<open>h2\<close> with nothing in it: a datagram that is sent whole is what is received
  next, when there is room for it, with the handles as the receiver's process numbers them.\<close>

definition carries :: "'w send_fn \<Rightarrow> 'w recv_fn \<Rightarrow> (nat \<Rightarrow> u8) \<Rightarrow> int \<Rightarrow> int \<Rightarrow> (int \<Rightarrow> int) \<Rightarrow> 'w \<Rightarrow> bool" where
  "carries send recv mem h h2 f w \<longleftrightarrow>
     (\<forall>m fl n e w1. send w h m fl = (n, e, w1) \<longrightarrow>
        (if n = -1 then 0 < e else n = int (length (datagram mem m))) \<and>
        (\<forall>room slots fl2. n \<noteq> -1 \<and> length (datagram mem m) \<le> room \<and> length (handles m) \<le> slots \<longrightarrow>
           (\<exists>w2. recv w1 h2 room slots fl2 = (Inr (datagram mem m, map f (handles m)), w2))))"

lemma carriesD:
  assumes "carries send recv mem h h2 f w" "send w h m fl = (n, e, w1)"
  shows "if n = -1 then 0 < e else n = int (length (datagram mem m))"
    and "n \<noteq> -1 \<Longrightarrow> length (datagram mem m) \<le> room \<Longrightarrow> length (handles m) \<le> slots \<Longrightarrow>
      \<exists>w2. recv w1 h2 room slots fl' = (Inr (datagram mem m, map f (handles m)), w2)"
  using assms unfolding carries_def by blast+

lemma header_size_bound:
  "\<forall>d \<in> set ds. transferable d \<Longrightarrow> length ds \<le> 8 \<Longrightarrow> header_size ds \<le> 240"
  using encodings_bound [of ds] div_le_mono [of "length (encodings ds) + 16" 248 16] by (simp add: header_size_def)

text \<open>What \<open>open_message\<close> does with the header of a sender.\<close>

lemma open_message_decodes:
  assumes t: "\<forall>d \<in> set ds. transferable d" and n: "length ds \<le> 8" "length ds \<le> ndesc_length msg"
    and hdr: "hdr = le32_bytes NACL_HANDLE_TRANSFER_PROTOCOL @ le32_bytes (word_of_nat (header_size ds)) @ pad @
      encodings ds @ [NACL_DESC_TYPE_END_TAG] @ replicate (header_size ds - length (encodings ds) - 1) 0" "length pad = 8"
    and room: "length user \<le> room" "length user \<le> sum_list (map (\<lambda>v. unat (iov_len v)) (iov msg))"
  shows "\<exists>data. open_message (\<lambda>_ _. True) (hdr @ user) (map f (owned ds)) room msg =
    Inr (int (length user), msg\<lparr>ndescv := map (with_handles f) ds, ndesc_length := length ds\<rparr>, data, []) \<and>
    concat (map snd data) = user"
proof -
  have size: "header_size ds \<le> 240" "length (encodings ds) < header_size ds"
    using header_size_bound [OF t n(1)] by (simp_all add: header_size_def)
  have lh: "length hdr = 16 + header_size ds" using hdr size(2) by simp
  have w: "word_at (hdr @ user) 0 = NACL_HANDLE_TRANSFER_PROTOCOL" "word_at (hdr @ user) 4 = word_of_nat (header_size ds)"
    using hdr(1) by simp_all
  have e: "unat (word_at (hdr @ user) 4 + word_of_nat SIZEOF_INTERNAL_HEADER :: u32) = length hdr"
    using size(1) lh by (simp add: w SIZEOF_INTERNAL_HEADER_def unat_word_ariths unat_of_nat)
  have hs: "length (owned ds) \<le> 8" using encodings_bound [OF t] n(1) by simp
  let ?k = "map f (owned ds) @ replicate (NACL_ABI_IMC_DESC_MAX - length (map f (owned ds))) NACL_INVALID_HANDLE"
  let ?x = "\<lparr>next_byte = SIZEOF_INTERNAL_HEADER, byte_buffer = hdr, next_handle = 0, handle_buffer = ?k,
      handle_buffer_end = length (map f (owned ds))\<rparr>"
  have "reading f (le32_bytes NACL_HANDLE_TRANSFER_PROTOCOL @ le32_bytes (word_of_nat (header_size ds)) @ pad)
      (encodings ds @ NACL_DESC_TYPE_END_TAG # replicate (header_size ds - length (encodings ds) - 1) 0) [] (owned ds)
      (replicate (NACL_ABI_IMC_DESC_MAX - length (map f (owned ds))) NACL_INVALID_HANDLE) ?x"
    using hdr by (simp add: reading_def SIZEOF_INTERNAL_HEADER_def)
  from internalize_all_encodings [OF t _ this, of "[]" "[]"] obtain x' where
    i: "internalize_all (\<lambda>_ _. True) ?x [] [] = Inr (0, map (with_handles f) ds, x', [])"
      "close_rest (handle_buffer x') = []"
    using n(1) by (auto simp: NACL_ABI_IMC_DESC_MAX_def)
  show ?thesis
    using i n room lh w(1) e
    by (simp add: open_message_def Let_def SIZEOF_INTERNAL_HEADER_def [symmetric] copy_out_bytes min_absorb1)
qed


text \<open>The header a successful send has built.\<close>

definition typed_header :: "(nat \<Rightarrow> u8 list option) \<Rightarrow> int list \<Rightarrow> NaClImcTypedMsgHdr \<Rightarrow> u8 list \<Rightarrow> bool" where
  "typed_header malloc kern0 msg hdr \<longleftrightarrow>
     (if ndesc_length msg = 0 then hdr = kNoHandles
      else \<exists>pad. length pad = 8 \<and> hdr = le32_bytes NACL_HANDLE_TRANSFER_PROTOCOL @
        le32_bytes (word_of_nat (header_size (ndescv msg))) @ pad @ encodings (ndescv msg) @ [NACL_DESC_TYPE_END_TAG] @
        replicate (header_size (ndescv msg) - length (encodings (ndescv msg)) - 1) 0)"

lemma send_builds:
  assumes sent: "NaClImcSendTypedMessage malloc kern0 send blocks (ImcObj h) msg flags w = Inr (r, w1)" "0 \<le> r"
    and descs: "length (ndescv msg) = ndesc_length msg" "\<forall>d \<in> set (ndescv msg). transferable d"
    and memory: "length kern0 = NACL_ABI_IMC_DESC_MAX" "\<And>n b. malloc n = Some b \<Longrightarrow> length b = n"
  shows "\<exists>hdr n e. typed_header malloc kern0 msg hdr \<and>
    send w h \<lparr>first_iov = hdr, rest_iov = iov msg, handles = owned (ndescv msg), handle_count = length (owned (ndescv msg))\<rparr>
      (kern_flags flags) = (n, e, w1) \<and>
    (if n = -1 then - e else n) = r + int (length hdr)"
proof -
  let ?ds = "ndescv msg"
  have n: "ndesc_length msg \<le> NACL_ABI_IMC_USER_DESC_MAX"
    using sent by (auto simp: NaClImcSendTypedMessage_def Let_def NACL_ABI_EINVAL_def split: if_splits)
  obtain u where u: "sum_lengths (iov msg) 0 = Some u" "\<not> NACL_ABI_IMC_IOVEC_MAX < length (iov msg)"
      "\<not> NACL_ABI_IMC_USER_BYTES_MAX < unat u"
    using sent n by (auto simp: NaClImcSendTypedMessage_def Let_def NACL_ABI_EINVAL_def split: if_splits option.splits)
  have "\<exists>hdr. typed_header malloc kern0 msg hdr \<and>
      (if ndesc_length msg = 0 then Inr (Inr (kNoHandles, []))
       else externalize_header malloc kern0 ?ds) = Inr (Inr (hdr, owned ?ds))"
  proof (cases "ndesc_length msg = 0")
    case True
    then show ?thesis using descs(1) by (simp add: typed_header_def)
  next
    case False
    obtain b where b: "malloc (header_size ?ds + SIZEOF_INTERNAL_HEADER) = Some b"
    proof (cases "malloc (header_size ?ds + SIZEOF_INTERNAL_HEADER)")
      case None
      moreover have "(16 + length (encodings ?ds)) div 16 * 16 = header_size ?ds" by (simp add: header_size_def add.commute)
      ultimately have "externalize_header malloc kern0 ?ds = Inr (Inl (- NACL_ABI_ENOMEM))"
        using encodings_bound [OF descs(2)] n descs(1)
        by (simp add: externalize_header_def externalize_sizes_ok [OF descs(2)] Let_def
            NACL_ABI_IMC_DESC_MAX_def NACL_ABI_IMC_USER_DESC_MAX_def)
      then show ?thesis using sent u n descs(1) False
        by (simp add: NaClImcSendTypedMessage_def Let_def NACL_ABI_ENOMEM_def)
    qed
    show ?thesis
      using externalize_header_ok [where malloc = malloc, OF descs(2) _ memory(1) b memory(2) [OF b]] memory(2) [OF b] n descs(1) False
      by (simp add: typed_header_def SIZEOF_INTERNAL_HEADER_def)
  qed
  then obtain hdr where hdr: "typed_header malloc kern0 msg hdr"
      "(if ndesc_length msg = 0 then Inr (Inr (kNoHandles, [])) else externalize_header malloc kern0 ?ds) = Inr (Inr (hdr, owned ?ds))"
    by blast
  let ?m = "\<lparr>first_iov = hdr, rest_iov = iov msg, handles = owned ?ds, handle_count = length (owned ?ds)\<rparr>"
  obtain k e w2 where s: "send w h ?m (kern_flags flags) = (k, e, w2)" by (metis prod_cases3)
  have "w2 = w1 \<and> (if k = -1 then - e else k) = r + int (length hdr)"
    using sent u n descs(1) hdr s
    by (auto simp: NaClImcSendTypedMessage_def Let_def NACL_ABI_EAGAIN_def NACL_ABI_EIO_def NACL_ABI_ENOBUFS_def split: if_splits)
  then show ?thesis using s hdr(1) by blast
qed

lemma open_message_plain:
  assumes "length user \<le> room" "length user \<le> sum_list (map (\<lambda>v. unat (iov_len v)) (iov msg))"
  shows "\<exists>data. open_message ok (kNoHandles @ user) [] room msg =
    Inr (int (length user), msg\<lparr>ndescv := [], ndesc_length := 0\<rparr>, data, []) \<and> concat (map snd data) = user"
  using assms
  by (simp add: open_message_def kNoHandles_def Let_def SIZEOF_INTERNAL_HEADER_def internalize_all.simps copy_out_bytes min_absorb1)

text \<open>C15: A typed message arrives as it was sent. When \<open>NaClImcSendTypedMessage\<close> reports success for a message with
  transferable descriptors, on a connection that carries datagrams unchanged and numbers the handles anew, then
  \<open>NaClImcRecvTypedMessage\<close>, given memory and room for the bytes and the descriptors, returns the same number of bytes, fills
  the receiver's buffers with exactly the sender's bytes, and delivers the same descriptors in the same order, owning
  the new handles; it closes none and does not claim a truncation. The message must leave 8 of the 128 KB of user data free,
  since the receiver's buffer does not count the rounding of the header.\<close>

theorem typed_message_roundtrip:
  assumes sent: "NaClImcSendTypedMessage malloc kern0 send blocks (ImcObj h) msg flags w = Inr (r, w1)" "0 \<le> r" "r \<le> 131064"
    and descs: "length (ndescv msg) = ndesc_length msg" "\<forall>d \<in> set (ndescv msg). transferable d"
    and memory: "length kern0 = NACL_ABI_IMC_DESC_MAX" "\<And>n b. malloc n = Some b \<Longrightarrow> length b = n"
    and connection: "carries send recv mem h h2 f w"
    and room: "length (iov msg2) \<le> NACL_ABI_IMC_IOVEC_MAX" "sum_lengths (iov msg2) 0 = Some s" "r \<le> uint s"
      "ndesc_length msg \<le> ndesc_length msg2" "ndesc_length msg2 \<le> NACL_ABI_IMC_USER_DESC_MAX"
  shows "\<exists>data w2. NaClImcRecvTypedMessage True (\<lambda>_ _. True) kern1 recv (ImcObj h2) msg2 flags2 w1 =
      Inr (r, msg2\<lparr>ndescv := map (with_handles f) (ndescv msg), ndesc_length := ndesc_length msg\<rparr>, data, [], w2) \<and>
    concat (map snd data) = gather mem (iov msg)"
proof -
  let ?ds = "ndescv msg" and ?user = "gather mem (iov msg)"
  obtain hdr n e where hdr: "typed_header malloc kern0 msg hdr" and s: "send w h \<lparr>first_iov = hdr, rest_iov = iov msg,
        handles = owned ?ds, handle_count = length (owned ?ds)\<rparr> (kern_flags flags) = (n, e, w1)"
      and n: "(if n = -1 then - e else n) = r + int (length hdr)"
    using send_builds [OF sent(1,2) descs memory] by blast
  have len: "length ?ds \<le> 8" using room(4,5) descs(1) by (simp add: NACL_ABI_IMC_USER_DESC_MAX_def)
  have hl: "length hdr \<le> 256" using hdr header_size_bound [OF descs(2) len]
    by (auto simp: typed_header_def kNoHandles_def header_size_def split: if_splits)
  have os: "length (owned ?ds) \<le> NACL_ABI_IMC_DESC_MAX"
    using encodings_bound [OF descs(2)] len by (simp add: NACL_ABI_IMC_DESC_MAX_def)
  have no: "n \<noteq> -1" "r = int (length ?user)"
    using carriesD(1) [OF connection s] n sent(2) by (auto simp: datagram_def split: if_splits)
  have fits: "length (hdr @ ?user) \<le> NACL_ABI_IMC_BYTES_MAX"
    using hl no(2) sent(3) by (simp add: NACL_ABI_IMC_BYTES_MAX_def NACL_ABI_IMC_USER_BYTES_MAX_def NACL_PATH_MAX_def NACL_ABI_IMC_USER_DESC_MAX_def)
  have fl: "length (datagram mem \<lparr>first_iov = hdr, rest_iov = iov msg, handles = owned ?ds, handle_count = length (owned ?ds)\<rparr>)
      \<le> NACL_ABI_IMC_BYTES_MAX"
    using fits by (simp add: datagram_def)
  obtain w2 where rec: "recv w1 h2 NACL_ABI_IMC_BYTES_MAX NACL_ABI_IMC_DESC_MAX (kern_flags flags2) = (Inr (hdr @ ?user, map f (owned ?ds)), w2)"
    using carriesD(2) [OF connection s no(1) fl, where slots = NACL_ABI_IMC_DESC_MAX and fl' = "kern_flags flags2"] os
    unfolding datagram_def NaClMessageHeader.simps by blast
  have "int (length ?user) \<le> int (unat s)" using no(2) room(3) by simp
  then have us: "length ?user \<le> unat s" "length ?user \<le> 131064" using no(2) sent(3) by linarith+
  have user: "length ?user \<le> min (unat s) NACL_ABI_IMC_USER_BYTES_MAX"
    "length ?user \<le> sum_list (map (\<lambda>v. unat (iov_len v)) (iov msg2))"
    using us sum_lengths_sum [OF room(2)] by (simp_all add: NACL_ABI_IMC_USER_BYTES_MAX_def)
  have "\<exists>data. open_message (\<lambda>_ _. True) (hdr @ ?user) (map f (owned ?ds)) (min (unat s) NACL_ABI_IMC_USER_BYTES_MAX) msg2 =
      Inr (r, msg2\<lparr>ndescv := map (with_handles f) ?ds, ndesc_length := ndesc_length msg\<rparr>, data, []) \<and> concat (map snd data) = ?user"
  proof (cases "ndesc_length msg = 0")
    case True
    then show ?thesis using open_message_plain [OF user] hdr descs(1) no(2) by (simp add: typed_header_def)
  next
    case False
    then obtain pad where "hdr = le32_bytes NACL_HANDLE_TRANSFER_PROTOCOL @ le32_bytes (word_of_nat (header_size ?ds)) @ pad @
        encodings ?ds @ [NACL_DESC_TYPE_END_TAG] @ replicate (header_size ?ds - length (encodings ?ds) - 1) 0" "length pad = 8"
      using hdr by (auto simp: typed_header_def)
    from open_message_decodes [OF descs(2) len _ this user] room(4) descs(1) no(2) show ?thesis by simp
  qed
  then show ?thesis using rec room by (auto simp: NaClImcRecvTypedMessage_def Let_def)
qed

end
