(* ===== verification/Desc_Xfer_Example.thy ===== *)
theory Desc_Xfer_Example
  imports Desc_Xfer_Roundtrip
begin

text \<open>
  A queue of datagrams as the connection between two sockets, and the theorems about transfers
  applied to it.
\<close>

section \<open>A connection\<close>

type_synonym queue = "(u8 list \<times> int list) list"

definition queue_send :: "queue send_fn" where
  "queue_send w h m fl = (int (length (datagram (\<lambda>_. 7) m)), 0, w @ [(datagram (\<lambda>_. 7) m, handles m)])"

fun queue_recv :: "queue recv_fn" where
  "queue_recv [] h room slots fl = (Inl 11, [])"
| "queue_recv ((bs, hs) # w) h room slots fl = (Inr (take room bs, map (\<lambda>d. d + 100) (take slots hs)), w)"

lemma queue_carries: "carries queue_send queue_recv (\<lambda>_. 7) h h2 (\<lambda>d. d + 100) []"
  by (simp add: carries_def queue_send_def)

definition demo_malloc :: "nat \<Rightarrow> u8 list option" where "demo_malloc n = Some (replicate n 0xAA)"
definition demo_slots :: "int list" where "demo_slots = replicate 8 0"

definition demo_msg :: NaClImcTypedMsgHdr where
  "demo_msg = \<lparr>iov = [\<lparr>iov_base = 0x1000, iov_len = 3\<rparr>], ndescv = [IoObj 5, ShmObj 6 0x10000], ndesc_length = 2, hdr_flags = 0\<rparr>"

definition demo_room :: NaClImcTypedMsgHdr where
  "demo_room = \<lparr>iov = [\<lparr>iov_base = 0x2000, iov_len = 2\<rparr>, \<lparr>iov_base = 0x3000, iov_len = 8\<rparr>], ndescv = [], ndesc_length = 8, hdr_flags = 0\<rparr>"

lemma demo_header:
  "\<exists>hdr. externalize_header demo_malloc demo_slots [IoObj 5, ShmObj 6 0x10000] = Inr (Inr (hdr, [5, 6])) \<and> length hdr = 32"
  using externalize_header_ok [of "[IoObj 5, ShmObj 6 0x10000]" demo_slots demo_malloc "replicate 32 0xAA"]
  by (simp add: demo_malloc_def demo_slots_def header_size_def SIZEOF_INTERNAL_HEADER_def NACL_ABI_IMC_USER_DESC_MAX_def
      NACL_ABI_IMC_DESC_MAX_def)

lemma demo_sent:
  "\<exists>w1. NaClImcSendTypedMessage demo_malloc demo_slots queue_send False (ImcObj 3) demo_msg 0 [] = Inr (3, w1)"
proof -
  obtain hdr where "externalize_header demo_malloc demo_slots [IoObj 5, ShmObj 6 0x10000] = Inr (Inr (hdr, [5, 6]))" "length hdr = 32"
    using demo_header by blast
  then show ?thesis
    by (simp add: NaClImcSendTypedMessage_def demo_msg_def queue_send_def datagram_def length_gather Let_def
        NACL_ABI_IMC_IOVEC_MAX_def NACL_ABI_IMC_USER_DESC_MAX_def NACL_ABI_IMC_USER_BYTES_MAX_def kern_flags_def
        NACL_ABI_IMC_NONBLOCK_def)
qed

theorem typed_message_roundtrip_witness:
  "\<exists>w1 data w2. NaClImcSendTypedMessage demo_malloc demo_slots queue_send False (ImcObj 3) demo_msg 0 [] = Inr (3, w1) \<and>
    NaClImcRecvTypedMessage True (\<lambda>_ _. True) demo_slots queue_recv (ImcObj 4) demo_room 0 w1 =
      Inr (3, demo_room\<lparr>ndescv := [IoObj 105, ShmObj 106 0x10000], ndesc_length := 2\<rparr>, data, [], w2) \<and>
    concat (map snd data) = [7, 7, 7]"
proof -
  obtain w1 where w1: "NaClImcSendTypedMessage demo_malloc demo_slots queue_send False (ImcObj 3) demo_msg 0 [] = Inr (3, w1)"
    using demo_sent by blast
  have s: "sum_lengths (iov demo_room) 0 = Some 10" by (simp add: demo_room_def Let_def)
  have g: "gather (\<lambda>_. 7) (iov demo_msg) = [7, 7, 7]"
    by (simp add: gather_def demo_msg_def upt_rec)
  have "\<exists>data w2. NaClImcRecvTypedMessage True (\<lambda>_ _. True) demo_slots queue_recv (ImcObj 4) demo_room 0 w1 =
      Inr (3, demo_room\<lparr>ndescv := map (with_handles (\<lambda>d. d + 100)) (ndescv demo_msg), ndesc_length := ndesc_length demo_msg\<rparr>, data, [], w2) \<and>
    concat (map snd data) = gather (\<lambda>_. 7) (iov demo_msg)"
    by (rule typed_message_roundtrip [OF w1 _ _ _ _ _ _ queue_carries _ s])
      (auto simp: demo_malloc_def demo_slots_def demo_msg_def demo_room_def NACL_ABI_IMC_IOVEC_MAX_def NACL_ABI_IMC_USER_DESC_MAX_def
        NACL_ABI_IMC_DESC_MAX_def)
  then show ?thesis using w1 g by (auto simp: demo_msg_def)
qed

section \<open>A message with more descriptors than are wanted\<close>

definition demo_bytes :: "u8 list" where
  "demo_bytes = (le32_bytes NACL_HANDLE_TRANSFER_PROTOCOL @ le32_bytes 16 @ replicate 8 0) @ [1, 1] @ 0xff # replicate 13 0 @ [42]"

definition demo_one :: NaClImcTypedMsgHdr where
  "demo_one = \<lparr>iov = [\<lparr>iov_base = 0x2000, iov_len = 4\<rparr>], ndescv = [], ndesc_length = 1, hdr_flags = 0\<rparr>"

lemma demo_received:
  "NaClImcRecvTypedMessage True (\<lambda>_ _. True) demo_slots (\<lambda>w h room slots fl. (Inr (demo_bytes, [5, 6]), w)) (ImcObj 3) demo_one 0 (0::nat) =
    Inr (1, demo_one\<lparr>hdr_flags := 2, ndescv := [IoObj 5]\<rparr>, [(0x2000, [42])], [6], 0)"
proof -
  let ?x = "\<lparr>next_byte = SIZEOF_INTERNAL_HEADER, byte_buffer = take 32 demo_bytes, next_handle = 0,
      handle_buffer = [5, 6] @ replicate (NACL_ABI_IMC_DESC_MAX - length [5 :: int, 6]) NACL_INVALID_HANDLE, handle_buffer_end = length [5 :: int, 6]\<rparr>"
  have b: "take 32 demo_bytes = (le32_bytes NACL_HANDLE_TRANSFER_PROTOCOL @ le32_bytes 16 @ replicate 8 0) @
      encodings [IoObj 5, IoObj 6] @ NACL_DESC_TYPE_END_TAG # replicate 13 0" "drop 32 demo_bytes = [42]" "length demo_bytes = 33"
    by (simp_all add: demo_bytes_def NACL_DESC_TYPE_END_TAG_def)
  have w: "word_at demo_bytes 0 = NACL_HANDLE_TRANSFER_PROTOCOL" "word_at demo_bytes 4 = 16"
    by (simp_all add: demo_bytes_def)
  have "reading id (le32_bytes NACL_HANDLE_TRANSFER_PROTOCOL @ le32_bytes 16 @ replicate 8 0)
      (encodings [IoObj 5, IoObj 6] @ NACL_DESC_TYPE_END_TAG # replicate 13 0) [] (owned [IoObj 5, IoObj 6])
      (replicate (NACL_ABI_IMC_DESC_MAX - length [5 :: int, 6]) NACL_INVALID_HANDLE) ?x"
    unfolding b by (simp add: reading_def SIZEOF_INTERNAL_HEADER_def)
  from internalize_all_encodings [OF _ _ this, of "[]" "[]"] obtain x' where
    i: "internalize_all (\<lambda>_ _. True) ?x [] [] = Inr (0, [IoObj 5, IoObj 6], x', [])" "close_rest (handle_buffer x') = []"
    by (auto simp: NACL_ABI_IMC_DESC_MAX_def close_rest_def)
  have e: "unat (16 + word_of_nat SIZEOF_INTERNAL_HEADER :: u32) = 32" "SIZEOF_INTERNAL_HEADER \<le> 33"
    by (simp_all add: SIZEOF_INTERNAL_HEADER_def)
  show ?thesis
    using i b(2,3) w e
    by (simp add: NaClImcRecvTypedMessage_def demo_one_def Let_def NACL_ABI_IMC_IOVEC_MAX_def NACL_ABI_IMC_USER_DESC_MAX_def
        NACL_ABI_IMC_USER_BYTES_MAX_def open_message_def NACL_ABI_RECVMSG_DESC_TRUNCATED_def)
qed

theorem received_handles_conserved_witness:
  "NaClImcRecvTypedMessage True (\<lambda>_ _. True) demo_slots (\<lambda>w h room slots fl. (Inr (demo_bytes, [5, 6]), w)) (ImcObj 3) demo_one 0 (0::nat) =
    Inr (1, demo_one\<lparr>hdr_flags := 2, ndescv := [IoObj 5]\<rparr>, [(0x2000, [42])], [6], 0) \<and> mset [5, 6] = mset [6] + mset [5 :: int]"
  using received_handles_conserved [OF refl _ _ demo_received]
  by (simp add: demo_received NACL_ABI_IMC_DESC_MAX_def NACL_INVALID_HANDLE_def)

end
