(* ===== verification/Spec2Isabelle.thy ===== *)
theory Spec2Isabelle
  imports Sys_Props Sel_Load_Example Srpc_Example Desc_Xfer_Example
begin

text \<open>
  A verification library for the Native Client runtime: the trusted program that loads an
  untrusted 32-bit x86 module, checks its machine code, confines it to a sandbox, serves its
  system calls and speaks a remote procedure call protocol with it. Paths below are relative to
  src/native\_client/src. The build that is modelled is Linux on 32-bit x86 (\<open>int\<close>, \<open>long\<close> and
  pointers have 32 bits, memory is little-endian, assertions are on, timing of SRPC is off).

  \<^bold>\<open>How the parts interact.\<close> The loader (\<open>NaClAppLoadFile\<close>) reads the headers of the module, allocates
  the address space, reads the segments into it, hands the text to the validator, installs the
  trampolines and the springboard, and protects the pages, noting each region in the memory map.
  The validator decodes the text with tables made by a generator program, and remembers where
  instructions start and where jumps go. A running module calls the runtime through the
  trampolines; \<open>mmap\<close>, \<open>munmap\<close> and \<open>brk\<close> change the address space and its map, and find descriptors in
  the application's table, an array that grows. Modules and browser talk over SRPC: arguments are
  put into a buffer, sent as messages with descriptors, and dispatched to the methods of a service.

  \<^bold>\<open>Conventions.\<close> A struct is a record, an enum a datatype, an integer a word of its width. A C
  array is a function or list with the bound checked where the code could leave it. What stops
  the process is a value of \<open>fault\<close> (theory \<open>Nacl_Prelude\<close>): an access outside an object, a NULL dereference,
  a failed \<open>CHECK\<close>, a fatal log line, a loop that does not end. A function that can stop that way returns
  \<open>fault + 'a\<close>. A mutex is a flag that is set while it is held. Allocation is an argument of the
  functions that allocate (whether it succeeds). What the host does on a call (\<open>mmap\<close>, \<open>mprotect\<close>, \<open>fstat\<close>,
  sending and receiving) is a parameter, and what the proofs use of it is a named hypothesis.

  \<^bold>\<open>Theories, in the order of the program.\<close>

  \<^item> Tables. \<open>Slot_Table\<close> is the interface (a locale) the application's tables rely on; \<open>Dyn_Array\<close> models
    service\_runtime/dyn\_array.c and interprets it; \<open>Desc_Refs\<close> the reference counts of
    desc/nacl\_desc\_base.c; \<open>App_Tables\<close> the descriptor and thread tables of sel\_ldr.c, with the
    invariant that every count equals the slots plus the references held outside, by rule induction
    over the reachable states, and the exact state each of its operations leaves.
  \<^item> Memory map. \<open>Page_Util\<close> is sel\_util-inl.h; \<open>C_Sort\<close> states what the C standard says of \<open>qsort\<close> and
    \<open>bsearch\<close>; \<open>Vmmap\<close> models sel\_mem.c. Its abstraction is the map from pages to protection and
    backing bytes: \<open>Vmmap_Sweep\<close> and \<open>Vmmap_Update\<close> show that an update replaces exactly the pages of its
    region, \<open>Vmmap_Search\<close> that a search for space returns the highest run of
    unmapped pages between two mapped ones (the search above a hint: one not above the lowest aligned
    run), and 0 exactly when there is none.
  \<^item> Address space and memory calls. \<open>App_Space\<close> is sel\_ldr-inl.h; \<open>Host_Map\<close> the \<open>Map\<close> methods of the
    descriptors (locale \<open>mapper\<close>, interpreted for each); \<open>Sys_Mmap\<close> the calls of nacl\_syscall\_common.c.
    \<open>Sys_Mmap_Safe\<close>, \<open>Sys_Mmap_Props\<close> and \<open>Sys_Brk\<close> prove the calls one by one (where a successful \<open>mmap\<close> puts its
    region, that it is aligned, mapped and not executable), \<open>Sys_Calls\<close> that any sequence
    keeps the sandbox invariant (text mapped as it was, nothing executable outside it, nothing
    mapped outside the space); \<open>Sys_Example\<close> and \<open>Sys_Props\<close> apply it.
  \<^item> Validator. \<open>Nc_Cpuid\<close> is nacl\_cpuid.c, its result stated over the registers \<open>cpuid\<close> answers;
    \<open>Nc_Decode\<close> ncdecode.c; \<open>Nc_Segment\<close> its segment loop as a locale over the callbacks (\<open>decoder_client\<close>), with the
    loop's contract; \<open>Nc_Validate\<close> ncvalidate.c. \<open>Nc_Step\<close>
    says what the callbacks check of one instruction, \<open>Nc_Safety\<close> and \<open>Nc_Image\<close> that an accepted segment
    meets the contract \<open>sandboxed\<close>, \<open>Nc_Complete\<close> the converse, so that the validator decides the contract;
    \<open>Nc_Flow\<close> derives from the contract that control never leaves the instructions that were checked.
    \<open>Nc_Table\<close>, \<open>Nc_Table_Data\<close>, \<open>Nc_Table_Props\<close> and \<open>Nc_Table_Build\<close> model the generator
    ncdecode\_table.c and show that it succeeds and what its tables contain; \<open>Nc_Accept\<close> is the validator with
    these tables; \<open>Nc_Example\<close> and \<open>Nc_Hlt\<close> are segments it accepts.
  \<^item> Loader. \<open>Sel_Memory\<close> patches code (sel\_ldr.c); \<open>Sel_Elf\<close> reads and checks the ELF headers; \<open>Sel_Space\<close> is
    sel\_addrspace.c; \<open>Sel_Load\<close> is \<open>NaClAppLoadFile\<close> with the trampolines of arch/x86/sel\_ldr\_x86.c;
    \<open>Sel_App\<close> constructs the application. \<open>Sel_Elf_Props\<close> and \<open>Sel_Space_Props\<close> hold the lemmas on
    the headers and on the protection,
    \<open>Sel_Load_Props\<close> composes them with the validator and the memory calls: after loading, text, data and
    stack are disjoint and have exactly the protections meant for them, in the map and on the host, the
    text is validated, and a module whose data end above its last text page starts in the sandbox
    invariant. \<open>Sel_Load_Example\<close> loads a module.
  \<^item> Typed messages. \<open>Desc_Xfer\<close> is desc/nrd\_xfer.c with the externalize and internalize methods of the
    descriptors. \<open>Desc_Xfer_Props\<close> shows that every handle that arrives has one owner or is closed once (unless
    an object could not be constructed),
    \<open>Desc_Xfer_Roundtrip\<close> that what is sent is what is delivered; \<open>Desc_Xfer_Example\<close> has instances.
  \<^item> SRPC. \<open>Srpc_Buffer\<close> is shared/srpc/imc\_buffer.c; \<open>Srpc_Args\<close> and \<open>Srpc_Rpc\<close> rpc\_serialize.c; \<open>Srpc_Service\<close>
    rpc\_service.c; \<open>Srpc_Dispatch\<close> the two ends of a call. \<open>Srpc_Wire\<close> and \<open>Srpc_Roundtrip\<close> prove what is
    written is what is read, \<open>Srpc_Robust\<close> that no request makes the server leave an array,
    \<open>Srpc_Directory\<close> service discovery, \<open>Srpc_Call\<close> that a remote call has the effect of the method,
    \<open>Srpc_Faults\<close> what goes wrong with a hostile or lost peer; \<open>Srpc_Example\<close> has instances.

  \<^bold>\<open>Bounds.\<close> No function of the model runs on fuel. A loop that may not end returns \<open>None\<close>
  or the fault \<open>Diverges\<close>, and the theorems say when it ends. The decoder's ring of four states and its limit
  of instruction length are those of the code. Sizes of an address space are those the code allows,
  up to \<open>2 ^ 25\<close> bytes for a loaded module.

  \<^bold>\<open>Not modelled.\<close> The change of context between trusted and untrusted code (assembly and segment
  registers); threads and their interleaving, of which one system call at a time remains, with
  the locks as flags; the system calls that pass a descriptor's operation to the host, those of IMC among them (the
  transfer of messages below them is modelled, over a parameter for the socket); the newer,
  experimental validator and the ARM one; the sockets of IMC, the browser plugin and NPAPI (C++);
  code inside the sandbox; printing and logging. The manifest gives the reason for each.
\<close>

end
